(* ===== verification/Soroban_Prelude.thy ===== *)
theory Soroban_Prelude
  imports Main "HOL-Library.Signed_Division"
begin

text \<open>
  The vocabulary every contract model shares: Rust results and their early returns, checked
  machine arithmetic, the part of the Soroban host a contract can observe, and the transition
  system of a deployed contract. Nothing in this theory belongs to one contract.

  \<^item> A fallible entry point returns \<open>'e + 'r \<times> 's\<close>: \<open>Inl\<close> is a panic, a returned
    \<open>Err\<close> or a host trap, and carries no state, because the host rolls a failed invocation back.
  \<^item> \<open>u32\<close> and \<open>u64\<close> values are naturals and \<open>i128\<close> values are integers, and every
    operation of the source that can leave its width is one of the checked operations below. The
    workspace is built with \<open>overflow-checks = true\<close> (Cargo.toml), so a plain \<open>+\<close>, \<open>-\<close> or
    \<open>*\<close> of the source is a checked operation too.
\<close>

section \<open>Results, panics and early returns\<close>

named_theorems result_iffs \<open>when a composed computation returns or fails\<close>
named_theorems arith_defs \<open>the checked operations, for evaluation\<close>
named_theorems host_defs \<open>the host primitives, for unfolding\<close>

text \<open>\<open>Result::and_then\<close>, which also models the \<open>?\<close> operator and statement sequencing.\<close>

definition and_then :: "'e + 'a \<Rightarrow> ('a \<Rightarrow> 'e + 'b) \<Rightarrow> 'e + 'b" where
  "and_then m f = (case m of Inl e \<Rightarrow> Inl e | Inr x \<Rightarrow> f x)"

lemma and_then_Inl [simp]: "and_then (Inl e) f = Inl e"
  by (simp add: and_then_def)

lemma and_then_Inr [simp]: "and_then (Inr x) f = f x"
  by (simp add: and_then_def)

lemma and_then_eq_Inr [result_iffs]:
  "and_then m f = Inr y \<longleftrightarrow> (\<exists>x. m = Inr x \<and> f x = Inr y)"
  by (cases m) auto

lemma and_thenE:
  assumes "and_then m f = Inr y"
  obtains x where "m = Inr x" and "f x = Inr y"
  using assms by (auto simp: and_then_eq_Inr)

lemma and_then_cong [fundef_cong]:
  "m = m' \<Longrightarrow> (\<And>x. m' = Inr x \<Longrightarrow> f x = g x) \<Longrightarrow> and_then m f = and_then m' g"
  by (cases m') auto

lemma and_then_assoc: "and_then (and_then m f) g = and_then m (\<lambda>x. and_then (f x) g)"
  by (cases m) auto

lemma and_then_if_fail [simp]:
  "and_then (if b then Inl e else m) f = (if b then Inl e else and_then m f)"
  by simp

text \<open>\<open>if bad { panic!(..) }\<close> and \<open>if bad { return Err(..) }\<close>.\<close>

definition panic_if :: "bool \<Rightarrow> 'e \<Rightarrow> 'e + unit" where
  "panic_if bad e = (if bad then Inl e else Inr ())"

lemma panic_if_eq_Inr [result_iffs]: "panic_if bad e = Inr u \<longleftrightarrow> \<not> bad"
  by (simp add: panic_if_def)

lemma panic_if_eq_Inl [result_iffs]: "panic_if bad e = Inl e' \<longleftrightarrow> bad \<and> e' = e"
  by (auto simp: panic_if_def)

lemma panic_if_True [simp]: "panic_if True e = Inl e"
  by (simp add: panic_if_def)

lemma panic_if_False [simp]: "panic_if False e = Inr ()"
  by (simp add: panic_if_def)

text \<open>\<open>Option::expect\<close> and \<open>Option::ok_or\<close>; \<open>Option::unwrap_or\<close>.\<close>

definition ok_or :: "'e \<Rightarrow> 'a option \<Rightarrow> 'e + 'a" where
  "ok_or e v = (case v of None \<Rightarrow> Inl e | Some x \<Rightarrow> Inr x)"

definition unwrap_or :: "'a \<Rightarrow> 'a option \<Rightarrow> 'a" where
  "unwrap_or d v = (case v of None \<Rightarrow> d | Some x \<Rightarrow> x)"

lemma ok_or_None [simp]: "ok_or e None = Inl e"
  by (simp add: ok_or_def)

lemma ok_or_Some [simp]: "ok_or e (Some x) = Inr x"
  by (simp add: ok_or_def)

lemma ok_or_eq_Inr [result_iffs]: "ok_or e v = Inr x \<longleftrightarrow> v = Some x"
  by (cases v) auto

lemma ok_or_eq_Inl [result_iffs]: "ok_or e v = Inl e' \<longleftrightarrow> v = None \<and> e' = e"
  by (cases v) auto

lemma unwrap_or_None [simp]: "unwrap_or d None = d"
  by (simp add: unwrap_or_def)

lemma unwrap_or_Some [simp]: "unwrap_or d (Some x) = x"
  by (simp add: unwrap_or_def)

text \<open>What an invocation leaves behind: the new state, or nothing when it failed.\<close>

definition state_of :: "'e + 'r \<times> 's \<Rightarrow> 's option" where
  "state_of m = (case m of Inl e \<Rightarrow> None | Inr (r, s) \<Rightarrow> Some s)"

lemma state_of_Inl [simp]: "state_of (Inl e) = None"
  by (simp add: state_of_def)

lemma state_of_Inr [simp]: "state_of (Inr (r, s)) = Some s"
  by (simp add: state_of_def)

lemma state_of_eq_Some [result_iffs]: "state_of m = Some s \<longleftrightarrow> (\<exists>r. m = Inr (r, s))"
  by (cases m) (auto simp: state_of_def split: prod.splits)

section \<open>Checked machine arithmetic\<close>

type_synonym u32 = nat
type_synonym u64 = nat
type_synonym i128 = int

definition u32_max :: nat where
  "u32_max = 4294967295"

definition u64_max :: nat where
  "u64_max = 18446744073709551615"

definition i128_max :: int where
  "i128_max = 170141183460469231731687303715884105727"

definition i128_min :: int where
  "i128_min = - 170141183460469231731687303715884105728"

definition in_i128 :: "int \<Rightarrow> bool" where
  "in_i128 x \<longleftrightarrow> i128_min \<le> x \<and> x \<le> i128_max"

definition checked_add_u32 :: "u32 \<Rightarrow> u32 \<Rightarrow> u32 option" where
  "checked_add_u32 a b = (if a + b \<le> u32_max then Some (a + b) else None)"

definition checked_add_u64 :: "u64 \<Rightarrow> u64 \<Rightarrow> u64 option" where
  "checked_add_u64 a b = (if a + b \<le> u64_max then Some (a + b) else None)"

text \<open>Unsigned subtraction is the same at every width: it fails exactly on a borrow.\<close>

definition checked_sub_u :: "nat \<Rightarrow> nat \<Rightarrow> nat option" where
  "checked_sub_u a b = (if b \<le> a then Some (a - b) else None)"

definition saturating_add_u64 :: "u64 \<Rightarrow> u64 \<Rightarrow> u64" where
  "saturating_add_u64 a b = min (a + b) u64_max"

definition saturating_sub_u64 :: "u64 \<Rightarrow> u64 \<Rightarrow> u64" where
  "saturating_sub_u64 a b = a - b"

definition narrow_i128 :: "int \<Rightarrow> i128 option" where
  "narrow_i128 x = (if in_i128 x then Some x else None)"

definition checked_add_i128 :: "i128 \<Rightarrow> i128 \<Rightarrow> i128 option" where
  "checked_add_i128 a b = narrow_i128 (a + b)"

definition checked_sub_i128 :: "i128 \<Rightarrow> i128 \<Rightarrow> i128 option" where
  "checked_sub_i128 a b = narrow_i128 (a - b)"

definition checked_mul_i128 :: "i128 \<Rightarrow> i128 \<Rightarrow> i128 option" where
  "checked_mul_i128 a b = narrow_i128 (a * b)"

text \<open>Rust's \<open>/\<close> truncates towards zero; \<open>div_i128\<close> is used where the divisor is known to be positive,
  \<open>checked_div_i128\<close> where a zero divisor or \<open>i128::MIN / -1\<close> is possible and panics.\<close>

definition div_i128 :: "i128 \<Rightarrow> i128 \<Rightarrow> i128" where
  "div_i128 a b = a sdiv b"

definition checked_div_i128 :: "i128 \<Rightarrow> i128 \<Rightarrow> i128 option" where
  "checked_div_i128 a b = (if b = 0 then None else narrow_i128 (div_i128 a b))"

lemmas arith_defs_lemmas [arith_defs] =
  u32_max_def u64_max_def i128_max_def i128_min_def in_i128_def narrow_i128_def
  checked_add_u32_def checked_add_u64_def checked_sub_u_def checked_add_i128_def
  checked_sub_i128_def checked_mul_i128_def checked_div_i128_def saturating_add_u64_def saturating_sub_u64_def

lemma checked_add_u32_Some [simp]:
  "checked_add_u32 a b = Some c \<longleftrightarrow> c = a + b \<and> a + b \<le> u32_max"
  by (auto simp: checked_add_u32_def)

lemma checked_add_u64_Some [simp]:
  "checked_add_u64 a b = Some c \<longleftrightarrow> c = a + b \<and> a + b \<le> u64_max"
  by (auto simp: checked_add_u64_def)

lemma checked_sub_u_Some [simp]: "checked_sub_u a b = Some c \<longleftrightarrow> b \<le> a \<and> c = a - b"
  by (auto simp: checked_sub_u_def)

lemma narrow_i128_Some [simp]: "narrow_i128 x = Some y \<longleftrightarrow> y = x \<and> in_i128 x"
  by (auto simp: narrow_i128_def)

lemma checked_add_i128_Some [simp]:
  "checked_add_i128 a b = Some c \<longleftrightarrow> c = a + b \<and> in_i128 (a + b)"
  by (auto simp: checked_add_i128_def)

lemma checked_sub_i128_Some [simp]:
  "checked_sub_i128 a b = Some c \<longleftrightarrow> c = a - b \<and> in_i128 (a - b)"
  by (auto simp: checked_sub_i128_def)

lemma checked_mul_i128_Some [simp]:
  "checked_mul_i128 a b = Some c \<longleftrightarrow> c = a * b \<and> in_i128 (a * b)"
  by (auto simp: checked_mul_i128_def)

lemma checked_div_i128_Some [simp]:
  "checked_div_i128 a b = Some c \<longleftrightarrow> b \<noteq> 0 \<and> c = div_i128 a b \<and> in_i128 (div_i128 a b)"
  by (auto simp: checked_div_i128_def)

lemma in_i128_0 [simp]: "in_i128 0"
  by (simp add: in_i128_def i128_min_def i128_max_def)

text \<open>Everything between two representable values is representable.\<close>

lemma in_i128_between: "in_i128 a \<Longrightarrow> in_i128 b \<Longrightarrow> a \<le> x \<Longrightarrow> x \<le> b \<Longrightarrow> in_i128 x"
  by (simp add: in_i128_def)

lemma in_i128_nonneg: "in_i128 b \<Longrightarrow> 0 \<le> x \<Longrightarrow> x \<le> b \<Longrightarrow> in_i128 x"
  using in_i128_between [OF in_i128_0] by blast

lemma div_i128_nonneg: "0 \<le> a \<Longrightarrow> 0 < b \<Longrightarrow> div_i128 a b = a div b"
  by (simp add: div_i128_def signed_divide_int_def sgn_if)

text \<open>A fraction \<open>p / q \<le> 1\<close> of a non-negative amount, rounded down, lies between zero and the amount.\<close>

lemma div_fraction_bounds:
  fixes x p q :: int
  assumes "0 \<le> x" and "0 \<le> p" and "p \<le> q" and "0 < q"
  shows "0 \<le> x * p div q \<and> x * p div q \<le> x"
proof
  show "0 \<le> x * p div q"
    using assms by (simp add: pos_imp_zdiv_nonneg_iff)
  have "x * p \<le> x * q"
    using assms by (simp add: mult_left_mono)
  then have "x * p div q \<le> x * q div q"
    using assms(4) by (rule zdiv_mono1)
  then show "x * p div q \<le> x"
    using assms(4) by simp
qed

end
