(* ===== verification/Soroban_Host.thy ===== *)
theory Soroban_Host
  imports Soroban_Prelude
begin

text \<open>
  The Soroban host as a contract sees it (ledger time and sequence number, authorisation, its own address), the
  token interface the contracts call, and the transition system of a deployed contract.

  \<^item> \<open>env\<close> is what one invocation may observe of the host. \<open>Address::require_auth\<close> succeeds
    exactly for the addresses \<open>env_auth\<close> holds of.
  \<^item> A token is code outside the repository. It is a parameter of the models: a \<open>transfer\<close>
    function on the state \<open>'w\<close> of all token contracts, where \<open>None\<close> is a trap. What the
    contracts rely on is the locale \<open>token_contract\<close> (and \<open>live_token\<close> where a payment is
    claimed to succeed): the documented behaviour of \<open>transfer\<close> of the Stellar token interface.
    The host forbids re-entry, so a token call does not touch the caller's storage.
  \<^item> \<open>reach\<close> is the set of states a contract can be in at a ledger time: calls succeed one
    after the other, time advances, and between two calls other parties may move tokens.
    \<open>contract_machine\<close> is the contract between a model and its invariant.
\<close>

section \<open>Addresses and the invocation environment\<close>

datatype address = Addr nat

record env =
  env_timestamp :: u64
  env_auth :: "address \<Rightarrow> bool"
  env_self :: address
  env_sequence :: u32

definition require_auth :: "'e \<Rightarrow> env \<Rightarrow> address \<Rightarrow> 'e + unit" where
  "require_auth err e a = panic_if (\<not> env_auth e a) err"

lemma require_auth_eq_Inr [result_iffs]: "require_auth err e a = Inr u \<longleftrightarrow> env_auth e a"
  by (simp add: require_auth_def result_iffs)

text \<open>A \<open>Symbol\<close> is a short string.\<close>

type_synonym symbol = string

section \<open>Vectors\<close>

text \<open>\<open>vec_contains\<close> and \<open>remove_first\<close> are the index loops the contracts write over
  \<open>Vec<Address>\<close>: a scan that stops at the first hit.\<close>

primrec vec_contains :: "'a list \<Rightarrow> 'a \<Rightarrow> bool" where
  "vec_contains [] needle = False"
| "vec_contains (x # xs) needle = (if x = needle then True else vec_contains xs needle)"

primrec remove_first :: "'a list \<Rightarrow> 'a \<Rightarrow> bool \<times> 'a list" where
  "remove_first [] needle = (False, [])"
| "remove_first (x # xs) needle =
     (if x = needle then (True, xs)
      else let (found, ys) = remove_first xs needle in (found, x # ys))"

lemma vec_contains_iff [simp]: "vec_contains xs x \<longleftrightarrow> x \<in> set xs"
  by (induction xs) auto

lemma remove_first_eq [simp]: "remove_first xs x = (x \<in> set xs, remove1 x xs)"
  by (induction xs) auto

lemma remove1_snoc: "x \<notin> set xs \<Longrightarrow> remove1 x (xs @ [x]) = xs"
  by (induction xs) auto

lemma length_filter_distinct: "distinct xs \<Longrightarrow> length (filter P xs) = card {x \<in> set xs. P x}"
  by (simp add: distinct_card [symmetric] flip: set_filter)

section \<open>Sums over stored maps\<close>

text \<open>What a contract owes in total is a sum over the entries of one of its storage maps.\<close>

definition key_sum :: "('k \<Rightarrow> 'v \<Rightarrow> int) \<Rightarrow> ('k \<Rightarrow> 'v option) \<Rightarrow> int" where
  "key_sum f m = (\<Sum>k\<in>dom m. f k (the (m k)))"

lemma key_sum_empty [simp]: "key_sum f (\<lambda>_. None) = 0"
  by (simp add: key_sum_def)

lemma key_sum_cong: "(\<And>k v. m k = Some v \<Longrightarrow> f k v = g k v) \<Longrightarrow> key_sum f m = key_sum g m"
  by (auto simp: key_sum_def intro!: sum.cong)

lemma key_sum_upd:
  assumes "finite (dom m)"
  shows "key_sum f (m(k \<mapsto> v)) = key_sum f m - (case m k of None \<Rightarrow> 0 | Some u \<Rightarrow> f k u) + f k v"
proof -
  have rest: "(\<Sum>i\<in>dom m - {k}. f i (the ((m(k \<mapsto> v)) i))) = (\<Sum>i\<in>dom m - {k}. f i (the (m i)))"
    by (rule sum.cong) auto
  have "key_sum f (m(k \<mapsto> v)) = f k v + (\<Sum>i\<in>dom m - {k}. f i (the ((m(k \<mapsto> v)) i)))"
    using assms by (simp add: key_sum_def sum.insert_remove)
  also have "\<dots> = f k v + (\<Sum>i\<in>dom m - {k}. f i (the (m i)))" by (simp only: rest)
  also have "(\<Sum>i\<in>dom m - {k}. f i (the (m i))) = key_sum f m - (case m k of None \<Rightarrow> 0 | Some u \<Rightarrow> f k u)"
    using assms by (cases "m k") (auto simp: key_sum_def sum_diff1 domIff)
  finally show ?thesis by linarith
qed

lemma key_sum_del:
  assumes "finite (dom m)"
  shows "key_sum f (m(k := None)) = key_sum f m - (case m k of None \<Rightarrow> 0 | Some u \<Rightarrow> f k u)"
proof -
  have "key_sum f (m(k := None)) = (\<Sum>i\<in>dom m - {k}. f i (the (m i)))"
    unfolding key_sum_def by (rule sum.cong) (auto split: if_splits)
  also have "\<dots> = key_sum f m - (case m k of None \<Rightarrow> 0 | Some u \<Rightarrow> f k u)"
    using assms by (cases "m k") (auto simp: key_sum_def sum_diff1 domIff)
  finally show ?thesis .
qed

lemma key_sum_nonneg: "(\<And>k v. m k = Some v \<Longrightarrow> 0 \<le> f k v) \<Longrightarrow> 0 \<le> key_sum f m"
  by (auto simp: key_sum_def intro!: sum_nonneg)

lemma key_sum_ge_entry:
  assumes "finite (dom m)" and "m k = Some v" and "\<And>k v. m k = Some v \<Longrightarrow> 0 \<le> f k v"
  shows "f k v \<le> key_sum f m"
proof -
  have "f k (the (m k)) \<le> (\<Sum>i\<in>dom m. f i (the (m i)))"
    using assms by (intro member_le_sum) auto
  then show ?thesis by (simp add: key_sum_def assms(2))
qed

text \<open>The sums whose terms do not depend on the key.\<close>

definition entry_sum :: "('v \<Rightarrow> int) \<Rightarrow> ('k \<Rightarrow> 'v option) \<Rightarrow> int" where
  "entry_sum f m = (\<Sum>k\<in>dom m. f (the (m k)))"

lemma entry_sum_key: "entry_sum f m = key_sum (\<lambda>_. f) m"
  by (simp add: entry_sum_def key_sum_def)

lemma entry_sum_empty [simp]: "entry_sum f (\<lambda>_. None) = 0"
  by (simp add: entry_sum_key)

lemma entry_sum_upd:
  "finite (dom m) \<Longrightarrow> entry_sum f (m(k \<mapsto> v)) = entry_sum f m - (case m k of None \<Rightarrow> 0 | Some u \<Rightarrow> f u) + f v"
  by (simp add: entry_sum_key key_sum_upd)

lemma entry_sum_del:
  "finite (dom m) \<Longrightarrow> entry_sum f (m(k := None)) = entry_sum f m - (case m k of None \<Rightarrow> 0 | Some u \<Rightarrow> f u)"
  by (simp add: entry_sum_key key_sum_del)

lemma entry_sum_nonneg: "(\<And>k v. m k = Some v \<Longrightarrow> 0 \<le> f v) \<Longrightarrow> 0 \<le> entry_sum f m"
  by (simp add: entry_sum_key key_sum_nonneg)

lemma entry_sum_ge_entry:
  "finite (dom m) \<Longrightarrow> m k = Some v \<Longrightarrow> (\<And>k v. m k = Some v \<Longrightarrow> 0 \<le> f v) \<Longrightarrow> f v \<le> entry_sum f m"
  using key_sum_ge_entry [of m k v "\<lambda>_. f"] by (simp add: entry_sum_key)

section \<open>The token interface\<close>

type_synonym 'w token_transfer =
  "env \<Rightarrow> address \<Rightarrow> address \<Rightarrow> address \<Rightarrow> i128 \<Rightarrow> 'w \<Rightarrow> 'w option"

type_synonym 'w token_balance = "'w \<Rightarrow> address \<Rightarrow> address \<Rightarrow> i128"

text \<open>
  \<open>transfer e token from to amount\<close> moves a non-negative amount that \<open>from\<close> owns, and
  changes no other balance of any token. The equation covers a transfer to oneself.
\<close>

locale token_contract =
  fixes transfer :: "'w token_transfer"
    and balance :: "'w token_balance"
  assumes transfer_moves:
      "transfer e tok src dst n w = Some w' \<Longrightarrow>
       balance w' t x = balance w t x
         + (if t = tok \<and> x = dst then n else 0) - (if t = tok \<and> x = src then n else 0)"
    and transfer_nonneg: "transfer e tok src dst n w = Some w' \<Longrightarrow> 0 \<le> n"
    and transfer_funded: "transfer e tok src dst n w = Some w' \<Longrightarrow> n \<le> balance w tok src"
begin

lemma balance_src:
  "transfer e tok src dst n w = Some w' \<Longrightarrow> src \<noteq> dst \<Longrightarrow> balance w' tok src = balance w tok src - n"
  by (simp add: transfer_moves)

lemma balance_dst:
  "transfer e tok src dst n w = Some w' \<Longrightarrow> src \<noteq> dst \<Longrightarrow> balance w' tok dst = balance w tok dst + n"
  by (simp add: transfer_moves)

lemma balance_third:
  "transfer e tok src dst n w = Some w' \<Longrightarrow> x \<noteq> src \<Longrightarrow> x \<noteq> dst \<Longrightarrow> balance w' t x = balance w t x"
  by (simp add: transfer_moves)

lemma balance_other_token:
  "transfer e tok src dst n w = Some w' \<Longrightarrow> t \<noteq> tok \<Longrightarrow> balance w' t x = balance w t x"
  by (simp add: transfer_moves)

text \<open>An incoming payment never lowers the receiver, an outgoing one lowers the payer by at most the amount.\<close>

lemma balance_dst_ge:
  "transfer e tok src dst n w = Some w' \<Longrightarrow> x \<noteq> src \<Longrightarrow> balance w t x \<le> balance w' t x"
  using transfer_moves [of e tok src dst n w w' t x] transfer_nonneg [of e tok src dst n w w']
  by auto

lemma balance_src_ge:
  "transfer e tok src dst n w = Some w' \<Longrightarrow>
   balance w t x - (if t = tok then n else 0) \<le> balance w' t x"
  using transfer_moves [of e tok src dst n w w' t x] transfer_nonneg [of e tok src dst n w w']
  by auto

lemma optional_debit:
  assumes "0 < n \<longrightarrow> transfer e tok src dst n w = Some w'" and "n \<le> 0 \<longrightarrow> w' = w" and "0 \<le> n"
  shows "balance w t x - (if t = tok then n else 0) \<le> balance w' t x"
  using assms balance_src_ge [of e tok src dst n w w' t x] by (cases "0 < n") auto

end

text \<open>
  A token that also honours payments: a funded, authorised transfer of a positive amount
  succeeds when the receiver's balance stays representable. A contract needs no authorisation
  entry to spend its own balance.
\<close>

locale live_token = token_contract +
  assumes transfer_live:
      "0 < n \<Longrightarrow> n \<le> balance w tok src \<Longrightarrow> in_i128 (balance w tok dst + n) \<Longrightarrow>
       env_auth e src \<or> src = env_self e \<Longrightarrow> \<exists>w'. transfer e tok src dst n w = Some w'"
begin

lemma self_payment_succeeds:
  "0 < n \<Longrightarrow> n \<le> balance w tok (env_self e) \<Longrightarrow> in_i128 (balance w tok dst + n) \<Longrightarrow>
   \<exists>w'. transfer e tok (env_self e) dst n w = Some w'"
  by (rule transfer_live) auto

end

definition call_token ::
  "'w token_transfer \<Rightarrow> 'e \<Rightarrow> env \<Rightarrow> address \<Rightarrow> address \<Rightarrow> address \<Rightarrow> i128 \<Rightarrow> 'w \<Rightarrow> 'e + 'w" where
  "call_token transfer err e tok src dst n w = ok_or err (transfer e tok src dst n w)"

lemma call_token_eq_Inr [result_iffs]:
  "call_token transfer err e tok src dst n w = Inr w' \<longleftrightarrow> transfer e tok src dst n w = Some w'"
  by (simp add: call_token_def result_iffs)

section \<open>The transition system of a deployed contract\<close>

text \<open>
  \<open>exec\<close> runs one call (\<open>None\<close> when it fails and is rolled back), \<open>adm\<close> says which calls
  the environment can make, and \<open>drift\<close> what other parties can do between two calls.
\<close>

inductive reach ::
  "(env \<Rightarrow> 'c \<Rightarrow> 's \<Rightarrow> 's option) \<Rightarrow> (env \<Rightarrow> 'c \<Rightarrow> bool) \<Rightarrow> ('s \<Rightarrow> 's \<Rightarrow> bool) \<Rightarrow> 's \<Rightarrow> u64 \<Rightarrow> 's \<Rightarrow> bool"
  for exec adm drift s0 where
  reach_start: "reach exec adm drift s0 0 s0"
| reach_tick: "reach exec adm drift s0 t s \<Longrightarrow> t \<le> t' \<Longrightarrow> reach exec adm drift s0 t' s"
| reach_drift: "reach exec adm drift s0 t s \<Longrightarrow> drift s s' \<Longrightarrow> reach exec adm drift s0 t s'"
| reach_call: "reach exec adm drift s0 t s \<Longrightarrow> env_timestamp e = t \<Longrightarrow> adm e c \<Longrightarrow>
    exec e c s = Some s' \<Longrightarrow> reach exec adm drift s0 t s'"

text \<open>The executable counterpart: run a list of calls, keeping the state where one fails.\<close>

fun run_calls :: "(env \<Rightarrow> 'c \<Rightarrow> 's \<Rightarrow> 's option) \<Rightarrow> (env \<times> 'c) list \<Rightarrow> 's \<Rightarrow> 's" where
  "run_calls exec [] s = s"
| "run_calls exec ((e, c) # cs) s =
     run_calls exec cs (case exec e c s of None \<Rightarrow> s | Some s' \<Rightarrow> s')"

fun trace_ok :: "(env \<Rightarrow> 'c \<Rightarrow> bool) \<Rightarrow> u64 \<Rightarrow> (env \<times> 'c) list \<Rightarrow> bool" where
  "trace_ok adm t [] = True"
| "trace_ok adm t ((e, c) # cs) = (t \<le> env_timestamp e \<and> adm e c \<and> trace_ok adm (env_timestamp e) cs)"

fun last_time :: "u64 \<Rightarrow> (env \<times> 'c) list \<Rightarrow> u64" where
  "last_time t [] = t"
| "last_time t ((e, c) # cs) = last_time (env_timestamp e) cs"

lemma reach_run_from:
  "reach exec adm drift s0 t s \<Longrightarrow> trace_ok adm t cs \<Longrightarrow>
   reach exec adm drift s0 (last_time t cs) (run_calls exec cs s)"
proof (induction cs arbitrary: t s)
  case Nil
  then show ?case by simp
next
  case (Cons ec cs)
  obtain e c where ec: "ec = (e, c)" by (cases ec)
  have tick: "reach exec adm drift s0 (env_timestamp e) s"
    using Cons.prems ec by (auto intro: reach_tick)
  show ?case
  proof (cases "exec e c s")
    case None
    with Cons ec tick show ?thesis by simp
  next
    case (Some s')
    with tick Cons.prems ec have "reach exec adm drift s0 (env_timestamp e) s'"
      by (auto intro: reach_call)
    with Cons ec Some show ?thesis by simp
  qed
qed

lemma reach_run:
  "trace_ok adm 0 cs \<Longrightarrow> reach exec adm drift s0 (last_time 0 cs) (run_calls exec cs s0)"
  by (rule reach_run_from [OF reach_start])

text \<open>
  The obligations of a model towards its invariant, each for one kind of step; the invariant may
  depend on the ledger time. The client side is \<open>reach_inv\<close>.
\<close>

locale contract_machine =
  fixes exec :: "env \<Rightarrow> 'c \<Rightarrow> 's \<Rightarrow> 's option"
    and adm :: "env \<Rightarrow> 'c \<Rightarrow> bool"
    and drift :: "'s \<Rightarrow> 's \<Rightarrow> bool"
    and inv :: "u64 \<Rightarrow> 's \<Rightarrow> bool"
    and s0 :: 's
  assumes inv_start: "inv 0 s0"
    and inv_tick: "inv t s \<Longrightarrow> t \<le> t' \<Longrightarrow> inv t' s"
    and inv_drift: "inv t s \<Longrightarrow> drift s s' \<Longrightarrow> inv t s'"
    and inv_call: "inv (env_timestamp e) s \<Longrightarrow> adm e c \<Longrightarrow> exec e c s = Some s' \<Longrightarrow>
      inv (env_timestamp e) s'"
begin

lemma reach_inv: "reach exec adm drift s0 t s \<Longrightarrow> inv t s"
  by (induction rule: reach.induct) (auto intro: inv_start inv_tick inv_drift inv_call)

lemma run_inv: "trace_ok adm 0 cs \<Longrightarrow> inv (last_time 0 cs) (run_calls exec cs s0)"
  by (rule reach_inv [OF reach_run])

end

section \<open>Refinement of a specification\<close>

text \<open>
  A model \<open>exec\<close> refines a specification \<open>spec\<close> on abstract states when, on states that
  satisfy the invariant, a call succeeds for both or for neither and the abstraction of the new
  state is the specified one. Whole runs then correspond.
\<close>

locale call_refinement =
  fixes exec :: "env \<Rightarrow> 'c \<Rightarrow> 's \<Rightarrow> 's option"
    and spec :: "env \<Rightarrow> 'c \<Rightarrow> 'a \<Rightarrow> 'a option"
    and abs_of :: "'s \<Rightarrow> 'a"
    and inv :: "'s \<Rightarrow> bool"
  assumes inv_step: "inv s \<Longrightarrow> exec e c s = Some s' \<Longrightarrow> inv s'"
    and simulates: "inv s \<Longrightarrow> map_option abs_of (exec e c s) = spec e c (abs_of s)"
begin

lemma run_invariant: "inv s \<Longrightarrow> inv (run_calls exec cs s)"
proof (induction cs arbitrary: s)
  case (Cons ec cs)
  obtain e c where ec: "ec = (e, c)" by (cases ec)
  from Cons show ?case by (cases "exec e c s") (auto simp: ec intro: inv_step)
qed simp

lemma run_refines: "inv s \<Longrightarrow> abs_of (run_calls exec cs s) = run_calls spec cs (abs_of s)"
proof (induction cs arbitrary: s)
  case (Cons ec cs)
  obtain e c where ec: "ec = (e, c)" by (cases ec)
  have sim: "spec e c (abs_of s) = map_option abs_of (exec e c s)" by (simp add: simulates Cons.prems)
  show ?case
    using Cons inv_step by (cases "exec e c s") (auto simp: ec sim)
qed simp

end

section \<open>The reentrancy guard\<close>

text \<open>
  Several contracts keep a \<open>ReentrancyLock\<close> flag around their token calls. \<open>enter\<close> fails
  when the flag is set and sets it otherwise, \<open>leave\<close> clears it. What the callers rely on is
  that a second \<open>enter\<close> before the \<open>leave\<close> is refused, whatever else happened to the state in
  between as long as the flag was left alone.
\<close>

locale reentrancy_guard =
  fixes enter :: "'s \<Rightarrow> 'e + 's"
    and leave :: "'s \<Rightarrow> 's"
    and locked :: "'s \<Rightarrow> bool"
  assumes enter_locked: "locked s \<Longrightarrow> \<exists>err. enter s = Inl err"
    and enter_free: "\<not> locked s \<Longrightarrow> \<exists>s'. enter s = Inr s' \<and> locked s'"
    and leave_free: "\<not> locked (leave s)"
begin

lemma enter_iff: "(\<exists>s'. enter s = Inr s') \<longleftrightarrow> \<not> locked s"
  using enter_locked [of s] enter_free [of s] by (cases "locked s") auto

lemma nested_enter_refused:
  assumes "enter s = Inr s'" and "locked s' = locked s''"
  shows "\<exists>err. enter s'' = Inl err"
proof -
  have "\<not> locked s" using assms(1) enter_iff by blast
  with enter_free [of s] assms(1) have "locked s'" by auto
  with assms(2) show ?thesis by (simp add: enter_locked)
qed

lemma reenter_after_leave: "\<exists>s'. enter (leave s) = Inr s'"
  using enter_free [OF leave_free] by blast

end

end
