(* ===== verification/Mock_Token.thy ===== *)
theory Mock_Token
  imports Soroban_Host
begin

text \<open>
  The one token implementation the repository contains: \<open>MockToken\<close> of
  src/contracts/escrow/src/test.rs, against which the contracts are tested. Its model discharges
  the laws of \<open>live_token\<close>, so everything proved of a contract over \<open>token_contract\<close> or
  \<open>live_token\<close> holds of the contract running on this token, and the concrete runs of the
  other theories use it.
\<close>

datatype mock_token_error =
    MtAuth
  | MtTransferAmountMustBePositive
  | MtInsufficientBalance
  | MtOverflow

text \<open>Storage of one token contract: \<open>MockTokenKey::Balance(address)\<close>.\<close>

type_synonym mock_token = "address \<rightharpoonup> i128"

definition mock_balance :: "address \<Rightarrow> mock_token \<Rightarrow> i128" where
  "mock_balance owner st = unwrap_or 0 (st owner)"

definition mock_mint :: "address \<Rightarrow> i128 \<Rightarrow> mock_token \<Rightarrow> mock_token_error + mock_token" where
  "mock_mint dst amount st =
     and_then (ok_or MtOverflow (checked_add_i128 (unwrap_or 0 (st dst)) amount)) (\<lambda>b.
     Inr (st(dst \<mapsto> b)))"

text \<open>
  \<open>from.require_auth()\<close> inside the token: an authorisation entry of the invocation, or the
  direct invoker itself. The debit is stored before the credit is read, so a transfer to oneself
  leaves the balance as it was. After the balance guard the debit is between zero and
  \<open>from_balance\<close> and cannot overflow.
\<close>

definition mock_transfer ::
  "env \<Rightarrow> address \<Rightarrow> address \<Rightarrow> i128 \<Rightarrow> mock_token \<Rightarrow> mock_token_error + mock_token" where
  "mock_transfer e src dst amount st =
     and_then (panic_if (\<not> (env_auth e src \<or> src = env_self e)) MtAuth) (\<lambda>_.
     and_then (panic_if (amount \<le> 0) MtTransferAmountMustBePositive) (\<lambda>_.
     let from_balance = unwrap_or 0 (st src) in
     and_then (panic_if (from_balance < amount) MtInsufficientBalance) (\<lambda>_.
     let st1 = st(src \<mapsto> from_balance - amount);
         to_balance = unwrap_or 0 (st1 dst) in
     and_then (ok_or MtOverflow (checked_add_i128 to_balance amount)) (\<lambda>b.
     Inr (st1(dst \<mapsto> b))))))"

text \<open>Many tokens side by side: \<open>TokenClient::new(env, token)\<close> selects one by its address.\<close>

type_synonym mock_world = "address \<Rightarrow> mock_token"

definition mock_world_transfer :: "mock_world token_transfer" where
  "mock_world_transfer e tok src dst n w =
     (case mock_transfer e src dst n (w tok) of Inl _ \<Rightarrow> None | Inr st \<Rightarrow> Some (w(tok := st)))"

definition mock_world_balance :: "mock_world token_balance" where
  "mock_world_balance w tok x = mock_balance x (w tok)"

lemma mock_transfer_Inr:
  "mock_transfer e src dst n st = Inr st' \<longleftrightarrow>
     (env_auth e src \<or> src = env_self e) \<and> 0 < n \<and> n \<le> mock_balance src st \<and>
     in_i128 ((if dst = src then mock_balance src st - n else mock_balance dst st) + n) \<and>
     st' = st(src \<mapsto> mock_balance src st - n,
              dst \<mapsto> (if dst = src then mock_balance src st - n else mock_balance dst st) + n)"
  by (auto simp: mock_transfer_def mock_balance_def result_iffs Let_def)

lemma mock_world_transfer_Some:
  "mock_world_transfer e tok src dst n w = Some w' \<longleftrightarrow>
     (\<exists>st. mock_transfer e src dst n (w tok) = Inr st \<and> w' = w(tok := st))"
  by (auto simp: mock_world_transfer_def split: sum.splits)

interpretation mock: live_token mock_world_transfer mock_world_balance
proof unfold_locales
  fix e tok src dst n w w' t x
  assume "mock_world_transfer e tok src dst n w = Some w'"
  then show "mock_world_balance w' t x = mock_world_balance w t x
      + (if t = tok \<and> x = dst then n else 0) - (if t = tok \<and> x = src then n else 0)"
    by (auto simp: mock_world_transfer_Some mock_transfer_Inr mock_world_balance_def mock_balance_def)
next
  fix e tok src dst n w w'
  assume "mock_world_transfer e tok src dst n w = Some w'"
  then show "0 \<le> n" and "n \<le> mock_world_balance w tok src"
    by (auto simp: mock_world_transfer_Some mock_transfer_Inr mock_world_balance_def)
next
  fix n w tok src dst and e :: env
  assume pay: "0 < n" "n \<le> mock_world_balance w tok src"
      "env_auth e src \<or> src = env_self e"
    and fits: "in_i128 (mock_world_balance w tok dst + n)"
  have "in_i128 (mock_world_balance w tok dst)" if "dst = src"
    using that pay fits by (intro in_i128_nonneg [OF fits]) auto
  with pay fits have "\<exists>st. mock_transfer e src dst n (w tok) = Inr st"
    unfolding mock_transfer_Inr by (auto simp: mock_world_balance_def)
  then show "\<exists>w'. mock_world_transfer e tok src dst n w = Some w'"
    by (auto simp: mock_world_transfer_Some)
qed

end
