(* ===== verification/Multisig_Wallet.thy ===== *)
theory Multisig_Wallet
  imports Mock_Token
begin

text \<open>
  The MultiSigWallet contract (src/contracts/multisig-wallet/src/lib.rs): an M-of-N treasury.
  Each storage key of \<open>DataKey\<close> is a field of \<open>ms_state\<close>; \<open>ms_tokens\<close> is the state of
  the token contracts the wallet calls. Every \<open>panic!\<close> and \<open>expect\<close> message is a constructor
  of \<open>ms_error\<close>; \<open>MsAuth\<close> is a failed \<open>require_auth\<close>, \<open>MsToken\<close> a trap of the token.
\<close>

section \<open>State\<close>

definition MAX_SIGNERS :: u32 where
  "MAX_SIGNERS = 20"

definition MAX_HISTORY_LIMIT :: u32 where
  "MAX_HISTORY_LIMIT = 100"

definition MAX_MEMO_LENGTH :: u32 where
  "MAX_MEMO_LENGTH = 128"

definition DAY_SECONDS :: u64 where
  "DAY_SECONDS = 86400"

record wallet_config =
  wc_admin :: address
  required_confirmations :: u32
  signer_count :: u32
  daily_limit :: i128
  next_tx_id :: u64
  next_nonce :: u64
  next_executable_nonce :: u64

record wallet_transaction =
  tx_id :: u64
  tx_nonce :: u64
  tx_token :: address
  tx_recipient :: address
  tx_amount :: i128
  submitted_by :: address
  tx_executed :: bool
  tx_created_at :: u64
  tx_executed_at :: u64
  tx_memo :: string

record execution_receipt =
  rc_tx_id :: u64
  rc_nonce :: u64
  rc_token :: address
  rc_recipient :: address
  rc_amount :: i128
  rc_confirmation_count :: u32
  rc_executed_at :: u64

record 'w ms_state =
  ms_config :: "wallet_config option"
  ms_signer :: "address \<Rightarrow> bool option"
  ms_signer_list :: "address list option"
  ms_whitelist :: "address \<Rightarrow> bool option"
  ms_transaction :: "u64 \<Rightarrow> wallet_transaction option"
  ms_confirmations :: "u64 \<Rightarrow> address list option"
  ms_execution_history :: "u64 list option"
  ms_daily_spent :: "address \<times> u64 \<Rightarrow> i128 option"
  ms_reentrancy_lock :: "bool option"
  ms_tokens :: 'w

datatype ms_error =
    MsAuth
  | MsToken
  | MsAlreadyInitialized
  | MsWalletNotInitialized
  | MsTxIdOverflow
  | MsNonceOverflow
  | MsTransactionAlreadyExecuted
  | MsTransactionAlreadyConfirmed
  | MsSignerHasNotConfirmed
  | MsTransactionNonceNotNext
  | MsInsufficientConfirmations
  | MsExecutableNonceOverflow
  | MsAddressAlreadySigner
  | MsMaximumSignerCountReached
  | MsAddressNotSigner
  | MsCannotRemoveLastSigner
  | MsRequiredConfirmationsExceedSigners
  | MsInvalidConfirmationRequirement
  | MsHistoryLimitTooLarge
  | MsAtLeastOneSignerRequired
  | MsTooManySigners
  | MsDuplicateSigner
  | MsDailySpentOverflow
  | MsDailySpendingLimitExceeded
  | MsReentrantCallBlocked
  | MsAmountMustBePositive
  | MsDailyLimitMustBePositive
  | MsMemoExceedsMaximumLength
  | MsInvalidTransactionId
  | MsTransactionNotFound
  | MsCallerNotAdmin
  | MsCallerNotSigner
  | MsConfirmationCountOverflow

definition ms_fresh :: "'w \<Rightarrow> 'w ms_state" where
  "ms_fresh w =
     \<lparr>ms_config = None, ms_signer = (\<lambda>_. None), ms_signer_list = None,
      ms_whitelist = (\<lambda>_. None), ms_transaction = (\<lambda>_. None),
      ms_confirmations = (\<lambda>_. None), ms_execution_history = None,
      ms_daily_spent = (\<lambda>_. None), ms_reentrancy_lock = None, ms_tokens = w\<rparr>"

section \<open>Internal helpers\<close>

definition ms_validate_amount :: "i128 \<Rightarrow> ms_error + unit" where
  "ms_validate_amount amount = panic_if (amount \<le> 0) MsAmountMustBePositive"

definition ms_validate_daily_limit :: "i128 \<Rightarrow> ms_error + unit" where
  "ms_validate_daily_limit limit = panic_if (limit \<le> 0) MsDailyLimitMustBePositive"

definition ms_validate_memo :: "string \<Rightarrow> ms_error + unit" where
  "ms_validate_memo memo = panic_if (length memo > MAX_MEMO_LENGTH) MsMemoExceedsMaximumLength"

definition ms_get_config :: "'w ms_state \<Rightarrow> ms_error + wallet_config" where
  "ms_get_config s = ok_or MsWalletNotInitialized (ms_config s)"

definition ms_signers :: "'w ms_state \<Rightarrow> address list" where
  "ms_signers s = unwrap_or [] (ms_signer_list s)"

definition ms_history_ids :: "'w ms_state \<Rightarrow> u64 list" where
  "ms_history_ids s = unwrap_or [] (ms_execution_history s)"

definition ms_load_transaction :: "u64 \<Rightarrow> 'w ms_state \<Rightarrow> ms_error + wallet_transaction" where
  "ms_load_transaction i s =
     (if i = 0 then Inl MsInvalidTransactionId
      else ok_or MsTransactionNotFound (ms_transaction s i))"

definition ms_get_confirmations :: "u64 \<Rightarrow> 'w ms_state \<Rightarrow> ms_error + address list" where
  "ms_get_confirmations i s =
     and_then (ms_load_transaction i s) (\<lambda>_. Inr (unwrap_or [] (ms_confirmations s i)))"

definition ms_is_signer :: "address \<Rightarrow> 'w ms_state \<Rightarrow> bool" where
  "ms_is_signer a s = unwrap_or False (ms_signer s a)"

definition ms_is_whitelisted :: "address \<Rightarrow> 'w ms_state \<Rightarrow> bool" where
  "ms_is_whitelisted a s = unwrap_or False (ms_whitelist s a)"

definition ms_assert_admin :: "address \<Rightarrow> 'w ms_state \<Rightarrow> ms_error + unit" where
  "ms_assert_admin caller s =
     and_then (ms_get_config s) (\<lambda>config. panic_if (caller \<noteq> wc_admin config) MsCallerNotAdmin)"

definition ms_assert_signer :: "address \<Rightarrow> 'w ms_state \<Rightarrow> ms_error + unit" where
  "ms_assert_signer caller s = panic_if (\<not> ms_is_signer caller s) MsCallerNotSigner"

text \<open>The counting loop of \<open>active_confirmation_count\<close>, with its checked increment.\<close>

fun ms_count_active :: "'w ms_state \<Rightarrow> u32 \<Rightarrow> address list \<Rightarrow> ms_error + u32" where
  "ms_count_active s count [] = Inr count"
| "ms_count_active s count (a # as) =
     (if ms_is_signer a s
      then and_then (ok_or MsConfirmationCountOverflow (checked_add_u32 count 1)) (\<lambda>count.
           ms_count_active s count as)
      else ms_count_active s count as)"

definition ms_active_confirmation_count :: "address list \<Rightarrow> 'w ms_state \<Rightarrow> ms_error + u32" where
  "ms_active_confirmation_count confirmations s = ms_count_active s 0 confirmations"

text \<open>The duplicate scan of \<open>validate_signer_set\<close>: \<open>seen\<close> grows by one signer per round.\<close>

fun ms_check_duplicates :: "address list \<Rightarrow> address list \<Rightarrow> ms_error + unit" where
  "ms_check_duplicates seen [] = Inr ()"
| "ms_check_duplicates seen (a # as) =
     (if vec_contains seen a then Inl MsDuplicateSigner else ms_check_duplicates (seen @ [a]) as)"

definition ms_validate_signer_set :: "address list \<Rightarrow> u32 \<Rightarrow> ms_error + unit" where
  "ms_validate_signer_set signers required =
     and_then (panic_if (signers = []) MsAtLeastOneSignerRequired) (\<lambda>_.
     and_then (panic_if (length signers > MAX_SIGNERS) MsTooManySigners) (\<lambda>_.
     and_then (panic_if (required = 0 \<or> required > length signers) MsInvalidConfirmationRequirement) (\<lambda>_.
     ms_check_duplicates [] signers)))"

definition ms_enter_non_reentrant :: "'w ms_state \<Rightarrow> ms_error + 'w ms_state" where
  "ms_enter_non_reentrant s =
     (if unwrap_or False (ms_reentrancy_lock s) then Inl MsReentrantCallBlocked
      else Inr (s\<lparr>ms_reentrancy_lock := Some True\<rparr>))"

definition ms_exit_non_reentrant :: "'w ms_state \<Rightarrow> 'w ms_state" where
  "ms_exit_non_reentrant s = s\<lparr>ms_reentrancy_lock := Some False\<rparr>"

definition ms_transfer_token ::
  "'w token_transfer \<Rightarrow> env \<Rightarrow> address \<Rightarrow> address \<Rightarrow> address \<Rightarrow> i128 \<Rightarrow> 'w ms_state \<Rightarrow>
   ms_error + 'w ms_state" where
  "ms_transfer_token tr e token src dst amount s =
     and_then (ms_enter_non_reentrant s) (\<lambda>s.
     and_then (call_token tr MsToken e token src dst amount (ms_tokens s)) (\<lambda>w.
     Inr (ms_exit_non_reentrant (s\<lparr>ms_tokens := w\<rparr>))))"

definition ms_apply_daily_limit ::
  "env \<Rightarrow> wallet_transaction \<Rightarrow> 'w ms_state \<Rightarrow> ms_error + 'w ms_state" where
  "ms_apply_daily_limit e tx s =
     (if ms_is_whitelisted (tx_recipient tx) s then Inr s
      else
        and_then (ms_get_config s) (\<lambda>config.
        let day_index = env_timestamp e div DAY_SECONDS;
            key = (tx_token tx, day_index);
            spent = unwrap_or 0 (ms_daily_spent s key) in
        and_then (ok_or MsDailySpentOverflow (checked_add_i128 spent (tx_amount tx))) (\<lambda>new_spent.
        and_then (panic_if (new_spent > daily_limit config) MsDailySpendingLimitExceeded) (\<lambda>_.
        Inr (s\<lparr>ms_daily_spent := (ms_daily_spent s)(key \<mapsto> new_spent)\<rparr>)))))"

definition ms_append_history :: "u64 \<Rightarrow> 'w ms_state \<Rightarrow> 'w ms_state" where
  "ms_append_history i s = s\<lparr>ms_execution_history := Some (ms_history_ids s @ [i])\<rparr>"

section \<open>Entry points\<close>

definition ms_initialize ::
  "env \<Rightarrow> address \<Rightarrow> address list \<Rightarrow> u32 \<Rightarrow> i128 \<Rightarrow> 'w ms_state \<Rightarrow> ms_error + unit \<times> 'w ms_state" where
  "ms_initialize e admin signers required limit s =
     and_then (panic_if (ms_config s \<noteq> None) MsAlreadyInitialized) (\<lambda>_.
     and_then (require_auth MsAuth e admin) (\<lambda>_.
     and_then (ms_validate_daily_limit limit) (\<lambda>_.
     and_then (ms_validate_signer_set signers required) (\<lambda>_.
     let s = fold (\<lambda>a s. s\<lparr>ms_signer := (ms_signer s)(a \<mapsto> True)\<rparr>) signers s;
         s = s\<lparr>ms_signer_list := Some signers, ms_execution_history := Some [],
               ms_reentrancy_lock := Some False\<rparr>;
         config = \<lparr>wc_admin = admin, required_confirmations = required,
                   signer_count = length signers, daily_limit = limit,
                   next_tx_id = 1, next_nonce = 1, next_executable_nonce = 1\<rparr>
     in Inr ((), s\<lparr>ms_config := Some config\<rparr>)))))"

definition ms_deposit ::
  "'w token_transfer \<Rightarrow> env \<Rightarrow> address \<Rightarrow> address \<Rightarrow> i128 \<Rightarrow> 'w ms_state \<Rightarrow>
   ms_error + unit \<times> 'w ms_state" where
  "ms_deposit tr e from_addr token amount s =
     and_then (require_auth MsAuth e from_addr) (\<lambda>_.
     and_then (ms_validate_amount amount) (\<lambda>_.
     and_then (ms_transfer_token tr e token from_addr (env_self e) amount s) (\<lambda>s.
     Inr ((), s))))"

definition ms_submit_transaction ::
  "env \<Rightarrow> address \<Rightarrow> address \<Rightarrow> address \<Rightarrow> i128 \<Rightarrow> string \<Rightarrow> 'w ms_state \<Rightarrow>
   ms_error + u64 \<times> 'w ms_state" where
  "ms_submit_transaction e signer token recipient amount memo s =
     and_then (require_auth MsAuth e signer) (\<lambda>_.
     and_then (ms_assert_signer signer s) (\<lambda>_.
     and_then (ms_validate_amount amount) (\<lambda>_.
     and_then (ms_validate_memo memo) (\<lambda>_.
     and_then (ms_get_config s) (\<lambda>config.
     let i = next_tx_id config; nonce = next_nonce config in
     and_then (ok_or MsTxIdOverflow (checked_add_u64 (next_tx_id config) 1)) (\<lambda>next_tx.
     and_then (ok_or MsNonceOverflow (checked_add_u64 (next_nonce config) 1)) (\<lambda>next_n.
     let tx = \<lparr>tx_id = i, tx_nonce = nonce, tx_token = token, tx_recipient = recipient,
               tx_amount = amount, submitted_by = signer, tx_executed = False,
               tx_created_at = env_timestamp e, tx_executed_at = 0, tx_memo = memo\<rparr>
     in Inr (i, s\<lparr>ms_transaction := (ms_transaction s)(i \<mapsto> tx),
                   ms_confirmations := (ms_confirmations s)(i \<mapsto> [signer]),
                   ms_config := Some (config\<lparr>next_tx_id := next_tx, next_nonce := next_n\<rparr>)\<rparr>))))))))"

definition ms_confirm_transaction ::
  "env \<Rightarrow> address \<Rightarrow> u64 \<Rightarrow> 'w ms_state \<Rightarrow> ms_error + u32 \<times> 'w ms_state" where
  "ms_confirm_transaction e signer i s =
     and_then (require_auth MsAuth e signer) (\<lambda>_.
     and_then (ms_assert_signer signer s) (\<lambda>_.
     and_then (ms_load_transaction i s) (\<lambda>tx.
     and_then (panic_if (tx_executed tx) MsTransactionAlreadyExecuted) (\<lambda>_.
     and_then (ms_get_confirmations i s) (\<lambda>confirmations.
     and_then (panic_if (vec_contains confirmations signer) MsTransactionAlreadyConfirmed) (\<lambda>_.
     let confirmations = confirmations @ [signer];
         s = s\<lparr>ms_confirmations := (ms_confirmations s)(i \<mapsto> confirmations)\<rparr> in
     and_then (ms_active_confirmation_count confirmations s) (\<lambda>count.
     Inr (count, s))))))))"

definition ms_revoke_confirmation ::
  "env \<Rightarrow> address \<Rightarrow> u64 \<Rightarrow> 'w ms_state \<Rightarrow> ms_error + u32 \<times> 'w ms_state" where
  "ms_revoke_confirmation e signer i s =
     and_then (require_auth MsAuth e signer) (\<lambda>_.
     and_then (ms_assert_signer signer s) (\<lambda>_.
     and_then (ms_load_transaction i s) (\<lambda>tx.
     and_then (panic_if (tx_executed tx) MsTransactionAlreadyExecuted) (\<lambda>_.
     and_then (ms_get_confirmations i s) (\<lambda>confirmations.
     let (removed, confirmations) = remove_first confirmations signer in
     and_then (panic_if (\<not> removed) MsSignerHasNotConfirmed) (\<lambda>_.
     let s = s\<lparr>ms_confirmations := (ms_confirmations s)(i \<mapsto> confirmations)\<rparr> in
     and_then (ms_active_confirmation_count confirmations s) (\<lambda>count.
     Inr (count, s))))))))"

definition ms_execute_transaction ::
  "'w token_transfer \<Rightarrow> env \<Rightarrow> address \<Rightarrow> u64 \<Rightarrow> 'w ms_state \<Rightarrow>
   ms_error + execution_receipt \<times> 'w ms_state" where
  "ms_execute_transaction tr e signer i s =
     and_then (require_auth MsAuth e signer) (\<lambda>_.
     and_then (ms_assert_signer signer s) (\<lambda>_.
     and_then (ms_get_config s) (\<lambda>config.
     and_then (ms_load_transaction i s) (\<lambda>tx.
     and_then (panic_if (tx_executed tx) MsTransactionAlreadyExecuted) (\<lambda>_.
     and_then (panic_if (tx_nonce tx \<noteq> next_executable_nonce config) MsTransactionNonceNotNext) (\<lambda>_.
     and_then (ms_get_confirmations i s) (\<lambda>confirmations.
     and_then (ms_active_confirmation_count confirmations s) (\<lambda>confirmation_count.
     and_then (panic_if (confirmation_count < required_confirmations config)
                 MsInsufficientConfirmations) (\<lambda>_.
     and_then (ms_apply_daily_limit e tx s) (\<lambda>s.
     let tx = tx\<lparr>tx_executed := True, tx_executed_at := env_timestamp e\<rparr>;
         s = s\<lparr>ms_transaction := (ms_transaction s)(i \<mapsto> tx)\<rparr> in
     and_then (ok_or MsExecutableNonceOverflow
                 (checked_add_u64 (next_executable_nonce config) 1)) (\<lambda>next_exec.
     let s = s\<lparr>ms_config := Some (config\<lparr>next_executable_nonce := next_exec\<rparr>)\<rparr> in
     and_then (ms_transfer_token tr e (tx_token tx) (env_self e) (tx_recipient tx) (tx_amount tx) s) (\<lambda>s.
     let s = ms_append_history i s;
         receipt = \<lparr>rc_tx_id = i, rc_nonce = tx_nonce tx, rc_token = tx_token tx,
                    rc_recipient = tx_recipient tx, rc_amount = tx_amount tx,
                    rc_confirmation_count = confirmation_count,
                    rc_executed_at = tx_executed_at tx\<rparr>
     in Inr (receipt, s)))))))))))))"

definition ms_add_signer ::
  "env \<Rightarrow> address \<Rightarrow> address \<Rightarrow> 'w ms_state \<Rightarrow> ms_error + unit \<times> 'w ms_state" where
  "ms_add_signer e admin new_signer s =
     and_then (require_auth MsAuth e admin) (\<lambda>_.
     and_then (ms_assert_admin admin s) (\<lambda>_.
     and_then (panic_if (ms_is_signer new_signer s) MsAddressAlreadySigner) (\<lambda>_.
     let signers = ms_signers s in
     and_then (panic_if (length signers \<ge> MAX_SIGNERS) MsMaximumSignerCountReached) (\<lambda>_.
     let signers = signers @ [new_signer];
         s = s\<lparr>ms_signer := (ms_signer s)(new_signer \<mapsto> True), ms_signer_list := Some signers\<rparr> in
     and_then (ms_get_config s) (\<lambda>config.
     Inr ((), s\<lparr>ms_config := Some (config\<lparr>signer_count := length signers\<rparr>)\<rparr>))))))"

definition ms_remove_signer ::
  "env \<Rightarrow> address \<Rightarrow> address \<Rightarrow> 'w ms_state \<Rightarrow> ms_error + unit \<times> 'w ms_state" where
  "ms_remove_signer e admin signer s =
     and_then (require_auth MsAuth e admin) (\<lambda>_.
     and_then (ms_assert_admin admin s) (\<lambda>_.
     and_then (panic_if (\<not> ms_is_signer signer s) MsAddressNotSigner) (\<lambda>_.
     let (_, signers) = remove_first (ms_signers s) signer in
     and_then (panic_if (signers = []) MsCannotRemoveLastSigner) (\<lambda>_.
     and_then (ms_get_config s) (\<lambda>config.
     and_then (panic_if (required_confirmations config > length signers)
                 MsRequiredConfirmationsExceedSigners) (\<lambda>_.
     Inr ((), s\<lparr>ms_signer := (ms_signer s)(signer \<mapsto> False), ms_signer_list := Some signers,
                 ms_config := Some (config\<lparr>signer_count := length signers\<rparr>)\<rparr>)))))))"

definition ms_change_requirement ::
  "env \<Rightarrow> address \<Rightarrow> u32 \<Rightarrow> 'w ms_state \<Rightarrow> ms_error + unit \<times> 'w ms_state" where
  "ms_change_requirement e admin required s =
     and_then (require_auth MsAuth e admin) (\<lambda>_.
     and_then (ms_assert_admin admin s) (\<lambda>_.
     and_then (ms_get_config s) (\<lambda>config.
     and_then (panic_if (required = 0 \<or> required > signer_count config)
                 MsInvalidConfirmationRequirement) (\<lambda>_.
     Inr ((), s\<lparr>ms_config := Some (config\<lparr>required_confirmations := required\<rparr>)\<rparr>)))))"

definition ms_set_daily_limit ::
  "env \<Rightarrow> address \<Rightarrow> i128 \<Rightarrow> 'w ms_state \<Rightarrow> ms_error + unit \<times> 'w ms_state" where
  "ms_set_daily_limit e admin limit s =
     and_then (require_auth MsAuth e admin) (\<lambda>_.
     and_then (ms_assert_admin admin s) (\<lambda>_.
     and_then (ms_validate_daily_limit limit) (\<lambda>_.
     and_then (ms_get_config s) (\<lambda>config.
     Inr ((), s\<lparr>ms_config := Some (config\<lparr>daily_limit := limit\<rparr>)\<rparr>)))))"

definition ms_set_whitelist ::
  "env \<Rightarrow> address \<Rightarrow> address \<Rightarrow> bool \<Rightarrow> 'w ms_state \<Rightarrow> ms_error + unit \<times> 'w ms_state" where
  "ms_set_whitelist e admin recipient allowed s =
     and_then (require_auth MsAuth e admin) (\<lambda>_.
     and_then (ms_assert_admin admin s) (\<lambda>_.
     Inr ((), s\<lparr>ms_whitelist := (ms_whitelist s)(recipient \<mapsto> allowed)\<rparr>)))"

text \<open>Views.\<close>

definition ms_confirmation_count :: "u64 \<Rightarrow> 'w ms_state \<Rightarrow> ms_error + u32" where
  "ms_confirmation_count i s =
     and_then (ms_get_confirmations i s) (\<lambda>confirmations.
     ms_active_confirmation_count confirmations s)"

fun ms_load_all :: "u64 list \<Rightarrow> 'w ms_state \<Rightarrow> ms_error + wallet_transaction list" where
  "ms_load_all [] s = Inr []"
| "ms_load_all (i # is) s =
     and_then (ms_load_transaction i s) (\<lambda>tx.
     and_then (ms_load_all is s) (\<lambda>txs. Inr (tx # txs)))"

definition ms_get_transaction_history ::
  "u32 \<Rightarrow> 'w ms_state \<Rightarrow> ms_error + wallet_transaction list" where
  "ms_get_transaction_history limit s =
     and_then (panic_if (limit > MAX_HISTORY_LIMIT) MsHistoryLimitTooLarge) (\<lambda>_.
     let ids = ms_history_ids s;
         start = (if length ids > limit then length ids - limit else 0)
     in ms_load_all (drop start ids) s)"

definition ms_get_daily_spent :: "address \<Rightarrow> u64 \<Rightarrow> 'w ms_state \<Rightarrow> i128" where
  "ms_get_daily_spent token day_index s = unwrap_or 0 (ms_daily_spent s (token, day_index))"

text \<open>The state-changing entry points as calls of the transition system.\<close>

datatype ms_call =
    MsInitialize address "address list" u32 i128
  | MsDeposit address address i128
  | MsSubmitTransaction address address address i128 string
  | MsConfirmTransaction address u64
  | MsRevokeConfirmation address u64
  | MsExecuteTransaction address u64
  | MsAddSigner address address
  | MsRemoveSigner address address
  | MsChangeRequirement address u32
  | MsSetDailyLimit address i128
  | MsSetWhitelist address address bool

fun ms_exec :: "'w token_transfer \<Rightarrow> env \<Rightarrow> ms_call \<Rightarrow> 'w ms_state \<Rightarrow> 'w ms_state option" where
  "ms_exec tr e (MsInitialize a ss m l) s = state_of (ms_initialize e a ss m l s)"
| "ms_exec tr e (MsDeposit f t n) s = state_of (ms_deposit tr e f t n s)"
| "ms_exec tr e (MsSubmitTransaction a t r n memo) s = state_of (ms_submit_transaction e a t r n memo s)"
| "ms_exec tr e (MsConfirmTransaction a i) s = state_of (ms_confirm_transaction e a i s)"
| "ms_exec tr e (MsRevokeConfirmation a i) s = state_of (ms_revoke_confirmation e a i s)"
| "ms_exec tr e (MsExecuteTransaction a i) s = state_of (ms_execute_transaction tr e a i s)"
| "ms_exec tr e (MsAddSigner a b) s = state_of (ms_add_signer e a b s)"
| "ms_exec tr e (MsRemoveSigner a b) s = state_of (ms_remove_signer e a b s)"
| "ms_exec tr e (MsChangeRequirement a m) s = state_of (ms_change_requirement e a m s)"
| "ms_exec tr e (MsSetDailyLimit a l) s = state_of (ms_set_daily_limit e a l s)"
| "ms_exec tr e (MsSetWhitelist a b v) s = state_of (ms_set_whitelist e a b v s)"

section \<open>What each operation does\<close>

lemma ms_count_active_Inr:
  "ms_count_active s n as = Inr m \<Longrightarrow> m = n + length (filter (\<lambda>a. ms_is_signer a s) as)"
  by (induction as arbitrary: n) (fastforce simp: result_iffs split: if_splits)+

lemma ms_count_active_total:
  "n + length as \<le> u32_max \<Longrightarrow>
   ms_count_active s n as = Inr (n + length (filter (\<lambda>a. ms_is_signer a s) as))"
  by (induction as arbitrary: n) (auto simp: checked_add_u32_def)

lemma ms_check_duplicates_Inr:
  "ms_check_duplicates seen as = Inr u \<longleftrightarrow> distinct as \<and> set seen \<inter> set as = {}"
  by (induction as arbitrary: seen) auto

lemma ms_validate_signer_set_Inr:
  "ms_validate_signer_set signers m = Inr u \<longleftrightarrow>
     distinct signers \<and> 0 < m \<and> m \<le> length signers \<and> length signers \<le> MAX_SIGNERS"
  by (auto simp: ms_validate_signer_set_def result_iffs ms_check_duplicates_Inr)

lemma ms_fold_signer:
  "fold (\<lambda>a s. s\<lparr>ms_signer := (ms_signer s)(a \<mapsto> True)\<rparr>) as s =
   s\<lparr>ms_signer := (\<lambda>a. if a \<in> set as then Some True else ms_signer s a)\<rparr>"
  by (induction as arbitrary: s) (auto simp: fun_eq_iff)

lemma ms_transfer_token_Inr:
  "ms_transfer_token tr e token src dst n s = Inr s' \<longleftrightarrow>
     \<not> unwrap_or False (ms_reentrancy_lock s) \<and>
     (\<exists>w. tr e token src dst n (ms_tokens s) = Some w \<and>
          s' = s\<lparr>ms_reentrancy_lock := Some False, ms_tokens := w\<rparr>)"
  by (auto simp: ms_transfer_token_def ms_enter_non_reentrant_def ms_exit_non_reentrant_def result_iffs
      split: if_splits)

lemma ms_apply_daily_limit_Inr:
  "ms_apply_daily_limit e tx s = Inr s' \<longleftrightarrow>
     (if ms_is_whitelisted (tx_recipient tx) s then s' = s
      else \<exists>c. ms_config s = Some c \<and>
        (let key = (tx_token tx, env_timestamp e div DAY_SECONDS);
             spent = unwrap_or 0 (ms_daily_spent s key) + tx_amount tx
         in in_i128 spent \<and> spent \<le> daily_limit c \<and>
            s' = s\<lparr>ms_daily_spent := (ms_daily_spent s)(key \<mapsto> spent)\<rparr>))"
  by (auto simp: ms_apply_daily_limit_def ms_get_config_def result_iffs Let_def)

lemmas ms_helper_defs =
  ms_get_config_def ms_assert_admin_def ms_assert_signer_def ms_validate_amount_def
  ms_validate_daily_limit_def ms_validate_memo_def ms_get_confirmations_def ms_load_transaction_def
  ms_active_confirmation_count_def

lemmas ms_op_defs =
  ms_initialize_def ms_deposit_def ms_submit_transaction_def ms_confirm_transaction_def
  ms_revoke_confirmation_def ms_add_signer_def ms_remove_signer_def ms_change_requirement_def
  ms_set_daily_limit_def ms_set_whitelist_def

lemma ms_execute_Inr:
  assumes "ms_execute_transaction tr e signer i s = Inr (rc, s')"
  obtains c tx cs s1 w where
    "env_auth e signer" "ms_is_signer signer s" "ms_config s = Some c" "i \<noteq> 0"
    "ms_transaction s i = Some tx" "\<not> tx_executed tx" "tx_nonce tx = next_executable_nonce c"
    "cs = unwrap_or [] (ms_confirmations s i)"
    "required_confirmations c \<le> length (filter (\<lambda>a. ms_is_signer a s) cs)"
    "ms_apply_daily_limit e tx s = Inr s1"
    "next_executable_nonce c + 1 \<le> u64_max"
    "\<not> unwrap_or False (ms_reentrancy_lock s)"
    "tr e (tx_token tx) (env_self e) (tx_recipient tx) (tx_amount tx) (ms_tokens s) = Some w"
    "s' = s1\<lparr>ms_config := Some (c\<lparr>next_executable_nonce := next_executable_nonce c + 1\<rparr>),
             ms_transaction := (ms_transaction s)(i \<mapsto> tx\<lparr>tx_executed := True, tx_executed_at := env_timestamp e\<rparr>),
             ms_execution_history := Some (ms_history_ids s @ [i]),
             ms_reentrancy_lock := Some False, ms_tokens := w\<rparr>"
    "rc = \<lparr>rc_tx_id = i, rc_nonce = tx_nonce tx, rc_token = tx_token tx,
           rc_recipient = tx_recipient tx, rc_amount = tx_amount tx,
           rc_confirmation_count = length (filter (\<lambda>a. ms_is_signer a s) cs),
           rc_executed_at = env_timestamp e\<rparr>"
proof -
  from assms show ?thesis
    apply (simp add: ms_execute_transaction_def ms_helper_defs result_iffs Let_def
        ms_transfer_token_Inr ms_append_history_def ms_history_ids_def split: if_splits)
    apply (elim exE conjE)
    apply (rule that)
    apply (auto simp: ms_apply_daily_limit_Inr ms_history_ids_def Let_def dest!: ms_count_active_Inr split: if_splits)
    done
qed

lemma ms_confirm_Inr:
  "ms_confirm_transaction e a i s = Inr (k, s') \<Longrightarrow>
     env_auth e a \<and> ms_is_signer a s \<and> i \<noteq> 0 \<and>
     (\<exists>tx. ms_transaction s i = Some tx \<and> \<not> tx_executed tx) \<and>
     a \<notin> set (unwrap_or [] (ms_confirmations s i)) \<and>
     s' = s\<lparr>ms_confirmations := (ms_confirmations s)(i \<mapsto> unwrap_or [] (ms_confirmations s i) @ [a])\<rparr> \<and>
     k = length (filter (\<lambda>b. ms_is_signer b s) (unwrap_or [] (ms_confirmations s i) @ [a]))"
  by (auto simp: ms_confirm_transaction_def ms_helper_defs result_iffs Let_def ms_is_signer_def
      dest!: ms_count_active_Inr split: if_splits)

lemma ms_revoke_Inr:
  "ms_revoke_confirmation e a i s = Inr (k, s') \<Longrightarrow>
     env_auth e a \<and> ms_is_signer a s \<and> i \<noteq> 0 \<and>
     (\<exists>tx. ms_transaction s i = Some tx \<and> \<not> tx_executed tx) \<and>
     a \<in> set (unwrap_or [] (ms_confirmations s i)) \<and>
     s' = s\<lparr>ms_confirmations := (ms_confirmations s)(i \<mapsto> remove1 a (unwrap_or [] (ms_confirmations s i)))\<rparr> \<and>
     k = length (filter (\<lambda>b. ms_is_signer b s) (remove1 a (unwrap_or [] (ms_confirmations s i))))"
  by (auto simp: ms_revoke_confirmation_def ms_helper_defs result_iffs Let_def ms_is_signer_def
      dest!: ms_count_active_Inr split: if_splits)

section \<open>Invariant\<close>

text \<open>
  The signer table, the signer list and the two counts agree, and the quorum can be met.
\<close>

definition ms_signers_ok :: "wallet_config \<Rightarrow> 'w ms_state \<Rightarrow> bool" where
  "ms_signers_ok c s \<longleftrightarrow>
     distinct (ms_signers s) \<and> (\<forall>a. ms_is_signer a s \<longleftrightarrow> a \<in> set (ms_signers s)) \<and>
     signer_count c = length (ms_signers s) \<and> 0 < required_confirmations c \<and>
     required_confirmations c \<le> signer_count c \<and> signer_count c \<le> MAX_SIGNERS"

text \<open>
  The queue: ids are dense and equal to nonces, exactly the ids below the executable nonce have
  been executed, the history lists them in order, and nobody confirmed twice.
\<close>

definition ms_queue_ok :: "wallet_config \<Rightarrow> 'w ms_state \<Rightarrow> bool" where
  "ms_queue_ok c s \<longleftrightarrow>
     next_nonce c = next_tx_id c \<and> 0 < next_executable_nonce c \<and>
     next_executable_nonce c \<le> next_tx_id c \<and>
     (\<forall>i. ms_transaction s i \<noteq> None \<longleftrightarrow> 0 < i \<and> i < next_tx_id c) \<and>
     (\<forall>i tx. ms_transaction s i = Some tx \<longrightarrow>
        tx_id tx = i \<and> tx_nonce tx = i \<and> 0 < tx_amount tx \<and>
        (tx_executed tx \<longleftrightarrow> i < next_executable_nonce c)) \<and>
     (\<forall>i cs. ms_confirmations s i = Some cs \<longrightarrow> distinct cs) \<and>
     ms_history_ids s = [1..<next_executable_nonce c]"

definition ms_inv :: "u64 \<Rightarrow> 'w ms_state \<Rightarrow> bool" where
  "ms_inv t s \<longleftrightarrow>
     \<not> unwrap_or False (ms_reentrancy_lock s) \<and>
     (case ms_config s of
        None \<Rightarrow> ms_signer s = (\<lambda>_. None) \<and> ms_transaction s = (\<lambda>_. None) \<and>
                ms_confirmations s = (\<lambda>_. None)
      | Some c \<Rightarrow> 0 < daily_limit c \<and> ms_signers_ok c s \<and> ms_queue_ok c s)"

lemma ms_inv_fresh: "ms_inv 0 (ms_fresh w)"
  by (simp add: ms_inv_def ms_fresh_def)

lemma ms_inv_initialize:
  "ms_inv t s \<Longrightarrow> ms_initialize e a ss m l s = Inr (u, s') \<Longrightarrow> ms_inv t s'"
  by (auto simp: ms_initialize_def ms_helper_defs result_iffs Let_def ms_fold_signer ms_validate_signer_set_Inr
      ms_inv_def ms_signers_ok_def ms_queue_ok_def ms_signers_def ms_is_signer_def ms_history_ids_def)

lemma ms_inv_deposit:
  "ms_inv t s \<Longrightarrow> ms_deposit tr e f tok n s = Inr (u, s') \<Longrightarrow> ms_inv t s'"
  by (auto simp: ms_deposit_def ms_helper_defs result_iffs ms_transfer_token_Inr ms_inv_def
      ms_signers_ok_def ms_queue_ok_def ms_signers_def ms_is_signer_def ms_history_ids_def
      split: option.splits)

lemma ms_inv_submit:
  "ms_inv t s \<Longrightarrow> ms_submit_transaction e a tok r n memo s = Inr (i, s') \<Longrightarrow> ms_inv t s'"
  by (auto simp: ms_submit_transaction_def ms_helper_defs result_iffs ms_inv_def Let_def
      ms_signers_ok_def ms_queue_ok_def ms_signers_def ms_is_signer_def ms_history_ids_def)

text \<open>Replacing one confirmation list by one without repetitions keeps the invariant.\<close>

lemma ms_inv_confirmations:
  "ms_inv t s \<Longrightarrow> ms_transaction s i = Some tx \<Longrightarrow> distinct cs \<Longrightarrow>
   ms_inv t (s\<lparr>ms_confirmations := (ms_confirmations s)(i \<mapsto> cs)\<rparr>)"
  by (auto simp: ms_inv_def ms_signers_ok_def ms_queue_ok_def ms_signers_def ms_is_signer_def
      ms_history_ids_def split: option.splits)

lemma ms_inv_distinct: "ms_inv t s \<Longrightarrow> distinct (unwrap_or [] (ms_confirmations s i))"
  by (auto simp: ms_inv_def ms_queue_ok_def unwrap_or_def split: option.splits)

lemma ms_inv_confirm:
  "ms_inv t s \<Longrightarrow> ms_confirm_transaction e a i s = Inr (k, s') \<Longrightarrow> ms_inv t s'"
  by (auto dest!: ms_confirm_Inr intro!: ms_inv_confirmations simp: ms_inv_distinct)

lemma ms_inv_revoke:
  "ms_inv t s \<Longrightarrow> ms_revoke_confirmation e a i s = Inr (k, s') \<Longrightarrow> ms_inv t s'"
  by (auto dest!: ms_revoke_Inr intro!: ms_inv_confirmations simp: ms_inv_distinct)

lemma ms_inv_add_signer:
  "ms_inv t s \<Longrightarrow> ms_add_signer e a b s = Inr (u, s') \<Longrightarrow> ms_inv t s'"
  by (auto simp: ms_add_signer_def ms_helper_defs result_iffs ms_inv_def Let_def
      ms_signers_ok_def ms_queue_ok_def ms_signers_def ms_is_signer_def ms_history_ids_def)

lemma ms_inv_remove_signer:
  "ms_inv t s \<Longrightarrow> ms_remove_signer e a b s = Inr (u, s') \<Longrightarrow> ms_inv t s'"
  by (auto simp: ms_remove_signer_def ms_helper_defs result_iffs ms_inv_def Let_def
      ms_signers_ok_def ms_queue_ok_def ms_signers_def ms_is_signer_def ms_history_ids_def
      length_remove1 split: if_splits)

lemma ms_inv_settings:
  "ms_inv t s \<Longrightarrow> ms_change_requirement e a m s = Inr (u, s') \<Longrightarrow> ms_inv t s'"
  "ms_inv t s \<Longrightarrow> ms_set_daily_limit e a l s = Inr (u, s') \<Longrightarrow> ms_inv t s'"
  "ms_inv t s \<Longrightarrow> ms_set_whitelist e a b v s = Inr (u, s') \<Longrightarrow> ms_inv t s'"
  by (auto simp: ms_change_requirement_def ms_set_daily_limit_def ms_set_whitelist_def ms_helper_defs
      result_iffs ms_inv_def ms_signers_ok_def ms_queue_ok_def ms_signers_def ms_is_signer_def
      ms_history_ids_def)

lemma ms_daily_frame:
  "ms_apply_daily_limit e tx s = Inr s1 \<Longrightarrow> \<exists>d. s1 = s\<lparr>ms_daily_spent := d\<rparr>"
  by (auto simp: ms_apply_daily_limit_Inr Let_def split: if_splits
      intro: exI [of _ "ms_daily_spent s"])

lemma ms_queue_ok_execute:
  assumes "ms_queue_ok c s" and "ms_transaction s i = Some tx"
    and "tx_nonce tx = next_executable_nonce c" and "ms_history_ids s = h"
  shows "ms_queue_ok (c\<lparr>next_executable_nonce := next_executable_nonce c + 1\<rparr>)
    (s\<lparr>ms_daily_spent := d, ms_config := c',
       ms_transaction := (ms_transaction s)(i \<mapsto> tx\<lparr>tx_executed := True, tx_executed_at := t\<rparr>),
       ms_execution_history := Some (h @ [i]), ms_reentrancy_lock := l, ms_tokens := w\<rparr>)"
proof -
  have i: "i = next_executable_nonce c" "0 < i" "i < next_tx_id c"
    using assms by (auto simp: ms_queue_ok_def)
  show ?thesis
    using assms i unfolding ms_queue_ok_def by (simp add: ms_history_ids_def less_Suc_eq)
qed

lemma ms_inv_execute:
  assumes inv: "ms_inv t s" and run: "ms_execute_transaction tr e a i s = Inr (rc, s')"
  shows "ms_inv t s'"
  using run
proof (cases rule: ms_execute_Inr)
  case (1 c tx cs s1 w)
  obtain d where s1: "s1 = s\<lparr>ms_daily_spent := d\<rparr>"
    using ms_daily_frame 1(10) by blast
  have ok: "0 < daily_limit c" "ms_signers_ok c s" "ms_queue_ok c s"
    using inv 1(3) by (auto simp: ms_inv_def)
  show ?thesis
    using ms_queue_ok_execute [OF ok(3) 1(5) 1(7) refl, where d = d] ok(1,2) s1 1(14)
    by (simp add: ms_inv_def ms_signers_ok_def ms_signers_def ms_is_signer_def)
qed

lemma ms_inv_call: "ms_inv t s \<Longrightarrow> ms_exec tr e c s = Some s' \<Longrightarrow> ms_inv t s'"
  by (cases c) (auto simp: result_iffs intro: ms_inv_initialize ms_inv_deposit ms_inv_submit ms_inv_confirm
      ms_inv_revoke ms_inv_execute ms_inv_add_signer ms_inv_remove_signer ms_inv_settings)

text \<open>Between two calls of the wallet other parties may change the token ledgers in any way.\<close>

definition ms_drift :: "'w ms_state \<Rightarrow> 'w ms_state \<Rightarrow> bool" where
  "ms_drift s s' \<longleftrightarrow> s' = s\<lparr>ms_tokens := ms_tokens s'\<rparr>"

lemma ms_inv_tokens: "ms_inv t (s\<lparr>ms_tokens := w\<rparr>) = ms_inv t s"
  by (simp add: ms_inv_def ms_signers_ok_def ms_queue_ok_def ms_signers_def ms_is_signer_def
      ms_history_ids_def split: option.splits)

lemma ms_inv_drift: "ms_inv t s \<Longrightarrow> ms_drift s s' \<Longrightarrow> ms_inv t s'"
  unfolding ms_drift_def by (metis ms_inv_tokens)

lemma ms_inv_time: "ms_inv t s = ms_inv t' s"
  by (simp add: ms_inv_def)

interpretation msm: contract_machine "ms_exec tr" "\<lambda>_ _. True" ms_drift ms_inv "ms_fresh w" for tr w
proof unfold_locales
  show "ms_inv 0 (ms_fresh w)" by (rule ms_inv_fresh)
next
  fix t t' and s :: "'a ms_state"
  assume "ms_inv t s" then show "ms_inv t' s" using ms_inv_time by blast
qed (auto intro: ms_inv_drift ms_inv_call)

interpretation msg: reentrancy_guard ms_enter_non_reentrant ms_exit_non_reentrant
  "\<lambda>s. unwrap_or False (ms_reentrancy_lock s)"
  by unfold_locales (auto simp: ms_enter_non_reentrant_def ms_exit_non_reentrant_def)

section \<open>The daily limit over whole runs\<close>

text \<open>What one executed transaction contributed to the spending of a token on a day.\<close>

definition ms_paid :: "address \<Rightarrow> u64 \<Rightarrow> 'w ms_state \<Rightarrow> u64 \<Rightarrow> i128" where
  "ms_paid tok day s i =
     (case ms_transaction s i of
        None \<Rightarrow> 0
      | Some tx \<Rightarrow> if tx_token tx = tok \<and> tx_executed_at tx div DAY_SECONDS = day then tx_amount tx else 0)"

definition ms_paid_on :: "address \<Rightarrow> u64 \<Rightarrow> 'w ms_state \<Rightarrow> i128" where
  "ms_paid_on tok day s = sum_list (map (ms_paid tok day s) (ms_history_ids s))"

text \<open>Calls of an administrator who whitelists nobody and never sets a limit above \<open>L\<close>.\<close>

fun ms_capped :: "i128 \<Rightarrow> env \<Rightarrow> ms_call \<Rightarrow> bool" where
  "ms_capped L e (MsInitialize a ss m l) = (l \<le> L)"
| "ms_capped L e (MsSetDailyLimit a l) = (l \<le> L)"
| "ms_capped L e (MsSetWhitelist a b v) = (\<not> v)"
| "ms_capped L e c = True"

definition ms_capped_inv :: "i128 \<Rightarrow> u64 \<Rightarrow> 'w ms_state \<Rightarrow> bool" where
  "ms_capped_inv L t s \<longleftrightarrow> ms_inv t s \<and> (\<forall>a. \<not> ms_is_whitelisted a s) \<and>
     (\<forall>c. ms_config s = Some c \<longrightarrow> daily_limit c \<le> L) \<and>
     (ms_config s = None \<longrightarrow> ms_daily_spent s = (\<lambda>_. None) \<and> ms_history_ids s = []) \<and>
     (\<forall>tok day. unwrap_or 0 (ms_daily_spent s (tok, day)) = ms_paid_on tok day s \<and> ms_paid_on tok day s \<le> L)"

lemma ms_paid_on_cong:
  assumes "ms_history_ids s' = ms_history_ids s"
    and "\<And>i. i \<in> set (ms_history_ids s) \<Longrightarrow> ms_transaction s' i = ms_transaction s i"
  shows "ms_paid_on tok day s' = ms_paid_on tok day s"
  unfolding ms_paid_on_def assms(1)
  by (rule arg_cong [where f = sum_list]) (simp add: assms(2) ms_paid_def)

text \<open>Every call but an execution leaves executed transactions, history and spending alone.\<close>

lemma ms_non_execution_frame:
  assumes "ms_exec tr e c s = Some s'" and "\<And>a i. c \<noteq> MsExecuteTransaction a i"
    and inv: "ms_inv t s" and hist: "ms_config s = None \<Longrightarrow> ms_history_ids s = []"
  shows "ms_history_ids s' = ms_history_ids s \<and> ms_daily_spent s' = ms_daily_spent s \<and>
    (\<forall>i \<in> set (ms_history_ids s). ms_transaction s' i = ms_transaction s i)"
proof (cases c)
  case (MsSubmitTransaction a tok r n memo)
  with assms(1) obtain c0 where c0: "ms_config s = Some c0"
    "ms_transaction s' = (ms_transaction s)(next_tx_id c0 := ms_transaction s' (next_tx_id c0))"
    "ms_history_ids s' = ms_history_ids s" "ms_daily_spent s' = ms_daily_spent s"
    by (auto simp: result_iffs ms_submit_transaction_def ms_helper_defs Let_def ms_history_ids_def)
  have "i \<noteq> next_tx_id c0" if "i \<in> set (ms_history_ids s)" for i
    using that inv c0(1) by (auto simp: ms_inv_def ms_queue_ok_def)
  with c0 show ?thesis by (metis fun_upd_other)
next
  case (MsConfirmTransaction a i)
  with assms(1) show ?thesis
    by (auto simp: result_iffs ms_history_ids_def dest!: ms_confirm_Inr)
next
  case (MsRevokeConfirmation a i)
  with assms(1) show ?thesis
    by (auto simp: result_iffs ms_history_ids_def dest!: ms_revoke_Inr)
qed (use assms in \<open>auto simp: result_iffs ms_op_defs ms_helper_defs Let_def ms_history_ids_def ms_fold_signer
      ms_transfer_token_Inr split: if_splits prod.splits\<close>)

lemma ms_capped_settings:
  assumes "ms_exec tr e c s = Some s'" and "ms_capped L e c"
    and "\<forall>a. \<not> ms_is_whitelisted a s" and "\<forall>c. ms_config s = Some c \<longrightarrow> daily_limit c \<le> L"
  shows "(\<forall>a. \<not> ms_is_whitelisted a s') \<and> (\<forall>c. ms_config s' = Some c \<longrightarrow> daily_limit c \<le> L)"
proof (cases c)
  case (MsExecuteTransaction a i)
  with assms(1) obtain rc where "ms_execute_transaction tr e a i s = Inr (rc, s')"
    by (auto simp: result_iffs)
  then show ?thesis using assms(3,4)
    by (cases rule: ms_execute_Inr) (auto simp: ms_is_whitelisted_def dest!: ms_daily_frame)
next
  case (MsConfirmTransaction a i)
  with assms show ?thesis by (auto simp: result_iffs ms_is_whitelisted_def dest!: ms_confirm_Inr)
next
  case (MsRevokeConfirmation a i)
  with assms show ?thesis by (auto simp: result_iffs ms_is_whitelisted_def dest!: ms_revoke_Inr)
qed (use assms in \<open>auto simp: result_iffs ms_op_defs ms_helper_defs Let_def ms_is_whitelisted_def
      ms_fold_signer ms_transfer_token_Inr split: if_splits prod.splits\<close>)

lemma ms_paid_on_tokens: "ms_paid_on tok day (s\<lparr>ms_tokens := w\<rparr>) = ms_paid_on tok day s"
  by (rule ms_paid_on_cong) (simp_all add: ms_history_ids_def)

text \<open>An execution appends its transaction to the history and adds it to the day's spending.\<close>

lemma ms_paid_on_execute:
  assumes run: "ms_execute_transaction tr e a i s = Inr (rc, s')" and inv: "ms_inv t s"
    and wl: "\<forall>a. \<not> ms_is_whitelisted a s"
    and eq: "unwrap_or 0 (ms_daily_spent s (tok, day)) = ms_paid_on tok day s"
    and le: "ms_paid_on tok day s \<le> L" and lim: "\<forall>c. ms_config s = Some c \<longrightarrow> daily_limit c \<le> L"
  shows "unwrap_or 0 (ms_daily_spent s' (tok, day)) = ms_paid_on tok day s' \<and> ms_paid_on tok day s' \<le> L"
  using run
proof (cases rule: ms_execute_Inr)
  case (1 c tx cs s1 w)
  have "i \<notin> set (ms_history_ids s)"
    using inv 1(3,5,7) by (auto simp: ms_inv_def ms_queue_ok_def)
  then have hist: "sum_list (map (ms_paid tok day s') (ms_history_ids s)) = ms_paid_on tok day s"
    unfolding ms_paid_on_def 1(14)
    by (intro arg_cong [where f = sum_list]) (auto simp: ms_paid_def)
  have ids: "ms_history_ids s' = ms_history_ids s @ [i]"
    by (simp add: 1(14) ms_history_ids_def)
  have paid: "ms_paid tok day s' i =
      (if tx_token tx = tok \<and> env_timestamp e div DAY_SECONDS = day then tx_amount tx else 0)"
    by (simp add: 1(14) ms_paid_def)
  have total: "ms_paid_on tok day s' = ms_paid_on tok day s + ms_paid tok day s' i"
    unfolding ms_paid_on_def ids by (simp add: hist flip: ms_paid_on_def)
  show ?thesis
    unfolding total paid using 1(10,14) wl eq le lim
    by (auto simp: ms_apply_daily_limit_Inr Let_def)
qed

lemma ms_capped_call:
  assumes "ms_capped_inv L t s" and "ms_capped L e c" and run: "ms_exec tr e c s = Some s'"
  shows "ms_capped_inv L t s'"
proof -
  have old: "ms_inv t s" "\<forall>a. \<not> ms_is_whitelisted a s"
      "\<forall>c. ms_config s = Some c \<longrightarrow> daily_limit c \<le> L" "ms_config s = None \<Longrightarrow> ms_history_ids s = []"
      "ms_config s = None \<Longrightarrow> ms_daily_spent s = (\<lambda>_. None)"
      "\<And>tok day. unwrap_or 0 (ms_daily_spent s (tok, day)) = ms_paid_on tok day s"
      "\<And>tok day. ms_paid_on tok day s \<le> L"
    using assms(1) by (auto simp: ms_capped_inv_def)
  note new = ms_inv_call [OF old(1) run] ms_capped_settings [OF run assms(2) old(2,3)]
  show ?thesis
  proof (cases "\<exists>a i. c = MsExecuteTransaction a i")
    case True
    then obtain a i rc where exe: "ms_execute_transaction tr e a i s = Inr (rc, s')"
      using run by (auto simp: result_iffs)
    then have "ms_config s' \<noteq> None" by (cases rule: ms_execute_Inr) simp
    then show ?thesis
      using new ms_paid_on_execute [OF exe old(1,2) old(6,7) old(3)] by (auto simp: ms_capped_inv_def)
  next
    case False
    then have frame: "ms_history_ids s' = ms_history_ids s" "ms_daily_spent s' = ms_daily_spent s"
        "\<forall>i \<in> set (ms_history_ids s). ms_transaction s' i = ms_transaction s i"
      using ms_non_execution_frame [OF run _ old(1,4)] by blast+
    then have "ms_paid_on tok day s' = ms_paid_on tok day s" for tok day
      by (intro ms_paid_on_cong) auto
    moreover have "ms_config s = None" if "ms_config s' = None"
      using that run by (cases c) (auto simp: result_iffs ms_op_defs ms_helper_defs Let_def ms_transfer_token_Inr
          elim!: ms_execute_Inr split: prod.splits if_splits)
    ultimately show ?thesis
      using new frame old by (simp add: ms_capped_inv_def)
  qed
qed

interpretation msc: contract_machine "ms_exec tr" "ms_capped L" ms_drift "\<lambda>t s. 0 \<le> L \<longrightarrow> ms_capped_inv L t s" "ms_fresh w"
  for tr L w
proof unfold_locales
  show "0 \<le> L \<longrightarrow> ms_capped_inv L 0 (ms_fresh w)"
    by (simp add: ms_capped_inv_def ms_inv_fresh) (simp add: ms_fresh_def ms_is_whitelisted_def ms_paid_on_def ms_history_ids_def)
next
  fix t t' and s :: "'a ms_state"
  assume "0 \<le> L \<longrightarrow> ms_capped_inv L t s"
  then show "0 \<le> L \<longrightarrow> ms_capped_inv L t' s" unfolding ms_capped_inv_def using ms_inv_time by blast
next
  fix t and s s' :: "'a ms_state"
  assume inv: "0 \<le> L \<longrightarrow> ms_capped_inv L t s" and "ms_drift s s'"
  then obtain w' where "s' = s\<lparr>ms_tokens := w'\<rparr>" by (auto simp: ms_drift_def)
  with inv show "0 \<le> L \<longrightarrow> ms_capped_inv L t s'"
    by (simp add: ms_capped_inv_def ms_inv_tokens ms_paid_on_tokens)
      (simp add: ms_is_whitelisted_def ms_history_ids_def)
qed (auto intro: ms_capped_call)

section \<open>A concrete run\<close>

text \<open>
  A 2-of-3 wallet at address 100 holding 5000 units of the token at address 50, one transaction
  submitted by signer 1 and confirmed by signer 2.
\<close>

definition ms_env :: "u64 \<Rightarrow> env" where
  "ms_env t = \<lparr>env_timestamp = t, env_auth = (\<lambda>a. a \<noteq> Addr 100), env_self = Addr 100, env_sequence = 0\<rparr>"

lemma ms_env_simps [simp]:
  "env_timestamp (ms_env t) = t" "env_auth (ms_env t) a \<longleftrightarrow> a \<noteq> Addr 100" "env_self (ms_env t) = Addr 100"
  by (simp_all add: ms_env_def)

definition ms_world :: mock_world where
  "ms_world = (\<lambda>tok. if tok = Addr 50 then [Addr 100 \<mapsto> 5000] else Map.empty)"

definition ms_demo_calls :: "(env \<times> ms_call) list" where
  "ms_demo_calls =
     [(ms_env 10, MsInitialize (Addr 7) [Addr 1, Addr 2, Addr 3] 2 1000),
      (ms_env 20, MsSubmitTransaction (Addr 1) (Addr 50) (Addr 9) 400 ''rent''),
      (ms_env 30, MsConfirmTransaction (Addr 2) 1)]"

definition ms_demo_config :: wallet_config where
  "ms_demo_config = \<lparr>wc_admin = Addr 7, required_confirmations = 2, signer_count = 3, daily_limit = 1000,
     next_tx_id = 2, next_nonce = 2, next_executable_nonce = 1\<rparr>"

definition ms_demo_tx :: wallet_transaction where
  "ms_demo_tx = \<lparr>tx_id = 1, tx_nonce = 1, tx_token = Addr 50, tx_recipient = Addr 9, tx_amount = 400,
     submitted_by = Addr 1, tx_executed = False, tx_created_at = 20, tx_executed_at = 0, tx_memo = ''rent''\<rparr>"

definition ms_demo :: "mock_world ms_state" where
  "ms_demo = (ms_fresh ms_world)\<lparr>
     ms_config := Some ms_demo_config,
     ms_signer := [Addr 1 \<mapsto> True, Addr 2 \<mapsto> True, Addr 3 \<mapsto> True],
     ms_signer_list := Some [Addr 1, Addr 2, Addr 3],
     ms_transaction := [1 \<mapsto> ms_demo_tx], ms_confirmations := [1 \<mapsto> [Addr 1, Addr 2]],
     ms_execution_history := Some [], ms_reentrancy_lock := Some False\<rparr>"

lemma ms_demo_run: "run_calls (ms_exec mock_world_transfer) ms_demo_calls (ms_fresh ms_world) = ms_demo"
  by (simp add: ms_demo_calls_def ms_demo_def ms_demo_config_def ms_demo_tx_def ms_fresh_def
      ms_op_defs ms_helper_defs ms_validate_signer_set_def MAX_SIGNERS_def MAX_MEMO_LENGTH_def require_auth_def
      ms_is_signer_def checked_add_u64_def checked_add_u32_def u64_max_def u32_max_def
      fun_upd_twist)

lemma ms_demo_reach: "reach (ms_exec mock_world_transfer) (\<lambda>_ _. True) ms_drift (ms_fresh ms_world) 30 ms_demo"
  using reach_run [of "\<lambda>_ _. True" ms_demo_calls "ms_exec mock_world_transfer" ms_drift "ms_fresh ms_world"]
  by (simp add: ms_demo_run) (simp add: ms_demo_calls_def)

lemma ms_demo_reach_capped:
  "reach (ms_exec mock_world_transfer) (ms_capped 1000) ms_drift (ms_fresh ms_world) 30 ms_demo"
  using reach_run [of "ms_capped 1000" ms_demo_calls "ms_exec mock_world_transfer" ms_drift "ms_fresh ms_world"]
  by (simp add: ms_demo_run) (simp add: ms_demo_calls_def)

definition ms_demo_receipt :: execution_receipt where
  "ms_demo_receipt = \<lparr>rc_tx_id = 1, rc_nonce = 1, rc_token = Addr 50, rc_recipient = Addr 9, rc_amount = 400,
     rc_confirmation_count = 2, rc_executed_at = 40\<rparr>"

lemma ms_demo_execute:
  "\<exists>s'. ms_execute_transaction mock_world_transfer (ms_env 40) (Addr 1) 1 ms_demo = Inr (ms_demo_receipt, s')"
  by (simp add: ms_execute_transaction_def ms_helper_defs ms_demo_def ms_demo_config_def ms_demo_tx_def
      ms_demo_receipt_def ms_fresh_def require_auth_def ms_is_signer_def ms_is_whitelisted_def
      ms_apply_daily_limit_def ms_transfer_token_def ms_enter_non_reentrant_def ms_append_history_def
      call_token_def mock_world_transfer_def mock_transfer_def ms_world_def DAY_SECONDS_def Let_def arith_defs)

section \<open>Properties\<close>

text \<open>
  C2. Quorum. Whatever happened before, a transaction executes only if at least
  \<open>required_confirmations\<close> distinct addresses that are signers at that moment have confirmed it;
  the receipt reports exactly their number, and the requirement itself is never zero. Confirmations
  of removed signers do not count.
\<close>

theorem ms_execution_needs_quorum:
  assumes "reach (ms_exec tr) (\<lambda>_ _. True) ms_drift (ms_fresh w) t s"
    and "ms_execute_transaction tr e a i s = Inr (rc, s')"
  shows "\<exists>c. ms_config s = Some c \<and> 0 < required_confirmations c \<and>
    required_confirmations c \<le> card {b \<in> set (unwrap_or [] (ms_confirmations s i)). ms_is_signer b s} \<and>
    rc_confirmation_count rc = card {b \<in> set (unwrap_or [] (ms_confirmations s i)). ms_is_signer b s}"
proof -
  have inv: "ms_inv t s" using assms(1) by (rule msm.reach_inv)
  have card: "length (filter (\<lambda>b. ms_is_signer b s) (unwrap_or [] (ms_confirmations s i))) =
      card {b \<in> set (unwrap_or [] (ms_confirmations s i)). ms_is_signer b s}"
    by (rule length_filter_distinct [OF ms_inv_distinct [OF inv]])
  from assms(2) inv card show ?thesis
    by (cases rule: ms_execute_Inr) (auto simp: ms_inv_def ms_signers_ok_def)
qed

theorem ms_execution_needs_quorum_witness:
  "\<exists>c. ms_config ms_demo = Some c \<and> 0 < required_confirmations c \<and>
     required_confirmations c \<le> card {b \<in> set (unwrap_or [] (ms_confirmations ms_demo 1)). ms_is_signer b ms_demo}"
proof -
  obtain s' where "ms_execute_transaction mock_world_transfer (ms_env 40) (Addr 1) 1 ms_demo = Inr (ms_demo_receipt, s')"
    using ms_demo_execute by blast
  from ms_execution_needs_quorum [OF ms_demo_reach this] show ?thesis by blast
qed

text \<open>
  C36. Exactly once, in nonce order. In every reachable wallet the execution history is the list of
  all ids below \<open>next_executable_nonce\<close> in increasing order, a transaction is marked executed
  exactly when its id is in it, and the only transaction that can execute next is the one whose id
  is \<open>next_executable_nonce\<close>; executing it advances the nonce by one.
\<close>

theorem ms_executes_once_in_order:
  assumes "reach (ms_exec tr) (\<lambda>_ _. True) ms_drift (ms_fresh w) t s" and "ms_config s = Some c"
  shows "ms_history_ids s = [1..<next_executable_nonce c] \<and>
    (\<forall>i tx. ms_transaction s i = Some tx \<longrightarrow> tx_executed tx = (i \<in> set (ms_history_ids s))) \<and>
    (\<forall>e a i rc s'. ms_execute_transaction tr e a i s = Inr (rc, s') \<longrightarrow>
       i = next_executable_nonce c \<and>
       ms_config s' = Some (c\<lparr>next_executable_nonce := next_executable_nonce c + 1\<rparr>))"
proof -
  have queue: "ms_queue_ok c s"
    using msm.reach_inv [OF assms(1)] assms(2) by (simp add: ms_inv_def)
  have "i = next_executable_nonce c \<and>
      ms_config s' = Some (c\<lparr>next_executable_nonce := next_executable_nonce c + 1\<rparr>)"
    if "ms_execute_transaction tr e a i s = Inr (rc, s')" for e a i rc s'
    using that queue assms(2) by (cases rule: ms_execute_Inr) (auto simp: ms_queue_ok_def)
  moreover have "tx_executed tx = (i \<in> set (ms_history_ids s))" if "ms_transaction s i = Some tx" for i tx
  proof -
    have "0 < i" using that queue by (force simp: ms_queue_ok_def)
    then show ?thesis using that queue by (auto simp: ms_queue_ok_def)
  qed
  ultimately show ?thesis using queue by (simp add: ms_queue_ok_def)
qed

theorem ms_executes_once_in_order_witness:
  "ms_history_ids ms_demo = [1..<next_executable_nonce ms_demo_config] \<and>
   (\<exists>rc s'. ms_execute_transaction mock_world_transfer (ms_env 40) (Addr 1) 1 ms_demo = Inr (rc, s') \<and>
      ms_config s' = Some (ms_demo_config\<lparr>next_executable_nonce := 2\<rparr>))"
proof -
  have c: "ms_config ms_demo = Some ms_demo_config" by (simp add: ms_demo_def)
  have n: "next_executable_nonce ms_demo_config + 1 = 2" by (simp add: ms_demo_config_def)
  obtain s' where exe: "ms_execute_transaction mock_world_transfer (ms_env 40) (Addr 1) 1 ms_demo = Inr (ms_demo_receipt, s')"
    using ms_demo_execute by blast
  note ordered = ms_executes_once_in_order [OF ms_demo_reach c, unfolded n]
  show ?thesis using ordered exe by blast
qed

text \<open>
  Daily limit over whole histories. If nobody is ever whitelisted and no configured limit ever
  exceeds \<open>L\<close>, then in every reachable state and for every token and day the transactions
  executed on that day sum to at most \<open>L\<close>, and \<open>daily_spent\<close> reports exactly that sum.
\<close>

theorem ms_daily_limit_respected:
  assumes "reach (ms_exec tr) (ms_capped L) ms_drift (ms_fresh w) t s" and "0 \<le> L"
  shows "ms_paid_on tok day s \<le> L \<and> ms_get_daily_spent tok day s = ms_paid_on tok day s"
  using msc.reach_inv [OF assms(1)] assms(2) by (simp add: ms_capped_inv_def ms_get_daily_spent_def)

theorem ms_daily_limit_respected_witness:
  "\<exists>s rc. ms_execute_transaction mock_world_transfer (ms_env 40) (Addr 1) 1 ms_demo = Inr (rc, s) \<and>
     ms_paid_on (Addr 50) 0 s \<le> 1000 \<and> ms_get_daily_spent (Addr 50) 0 s = ms_paid_on (Addr 50) 0 s"
proof -
  obtain s where exe: "ms_execute_transaction mock_world_transfer (ms_env 40) (Addr 1) 1 ms_demo = Inr (ms_demo_receipt, s)"
    using ms_demo_execute by blast
  have "reach (ms_exec mock_world_transfer) (ms_capped 1000) ms_drift (ms_fresh ms_world) 40 s"
  proof (rule reach_call [where c = "MsExecuteTransaction (Addr 1) 1" and e = "ms_env 40"])
    show "reach (ms_exec mock_world_transfer) (ms_capped 1000) ms_drift (ms_fresh ms_world) 40 ms_demo"
      by (rule reach_tick [OF ms_demo_reach_capped]) simp
  qed (simp_all add: exe [simplified])
  with exe show ?thesis using ms_daily_limit_respected [of mock_world_transfer 1000 ms_world 40 s] by auto
qed

text \<open>
  Custody. On any token that behaves as the token interface documents, the only call that can
  lower the wallet's balance of a token is \<open>execute_transaction\<close> of a stored transaction in that
  token, and it lowers it by exactly the transaction's amount.
\<close>

theorem ms_outflow_only_by_execution:
  assumes "token_contract tr bal" and "ms_exec tr e c s = Some s'"
    and "bal (ms_tokens s') tok (env_self e) < bal (ms_tokens s) tok (env_self e)"
  shows "\<exists>a i tx. c = MsExecuteTransaction a i \<and> ms_transaction s i = Some tx \<and> tx_token tx = tok \<and>
    bal (ms_tokens s') tok (env_self e) = bal (ms_tokens s) tok (env_self e) - tx_amount tx"
proof -
  have same: False if "ms_tokens s' = ms_tokens s" using that assms(3) by simp
  note moves = token_contract.transfer_moves [OF assms(1)]
  show ?thesis
  proof (cases c)
    case (MsDeposit f t n)
    then obtain w where w: "tr e t f (env_self e) n (ms_tokens s) = Some w" "ms_tokens s' = w"
      using assms(2) by (auto simp: result_iffs ms_deposit_def ms_helper_defs ms_transfer_token_Inr)
    with moves [OF w(1), of tok "env_self e"] token_contract.transfer_nonneg [OF assms(1) w(1)] assms(3)
    show ?thesis by (auto split: if_splits)
  next
    case (MsExecuteTransaction a i)
    then obtain rc where "ms_execute_transaction tr e a i s = Inr (rc, s')"
      using assms(2) by (auto simp: result_iffs)
    then show ?thesis
    proof (cases rule: ms_execute_Inr)
      case (1 c tx cs s1 w)
      have "ms_tokens s' = w" by (simp add: 1(14))
      then show ?thesis
        using MsExecuteTransaction 1(5) moves [OF 1(13), of tok "env_self e"] assms(3)
        by (auto split: if_splits)
    qed
  next
    case (MsConfirmTransaction a i)
    with assms(2) same show ?thesis by (auto simp: result_iffs dest!: ms_confirm_Inr)
  next
    case (MsRevokeConfirmation a i)
    with assms(2) same show ?thesis by (auto simp: result_iffs dest!: ms_revoke_Inr)
  qed (use assms(2) same in \<open>auto simp: result_iffs ms_op_defs ms_helper_defs Let_def ms_fold_signer
        split: if_splits prod.splits\<close>)
qed

theorem ms_outflow_only_by_execution_witness:
  "\<exists>s. ms_exec mock_world_transfer (ms_env 40) (MsExecuteTransaction (Addr 1) 1) ms_demo = Some s \<and>
     mock_world_balance (ms_tokens s) (Addr 50) (Addr 100) =
       mock_world_balance (ms_tokens ms_demo) (Addr 50) (Addr 100) - 400"
proof -
  obtain s where exe: "ms_execute_transaction mock_world_transfer (ms_env 40) (Addr 1) 1 ms_demo = Inr (ms_demo_receipt, s)"
    using ms_demo_execute by blast
  then have run: "ms_exec mock_world_transfer (ms_env 40) (MsExecuteTransaction (Addr 1) 1) ms_demo = Some s"
    by simp
  have tx: "ms_transaction ms_demo 1 = Some ms_demo_tx" by (simp add: ms_demo_def)
  have less: "mock_world_balance (ms_tokens s) (Addr 50) (env_self (ms_env 40)) <
      mock_world_balance (ms_tokens ms_demo) (Addr 50) (env_self (ms_env 40))"
    using exe
  proof (cases rule: ms_execute_Inr)
    case (1 c tx' cs s1 w)
    then show ?thesis
      using mock.balance_src [OF 1(13)] tx by (simp add: ms_demo_tx_def)
  qed
  from ms_outflow_only_by_execution [where bal = mock_world_balance and tok = "Addr 50",
      OF mock.token_contract_axioms run less] tx run show ?thesis
    by (auto simp: ms_demo_tx_def)
qed

text \<open>
  The signer set. In every reachable initialised wallet \<open>signer_count\<close> is the number of
  addresses \<open>is_signer\<close> accepts, \<open>get_signers\<close> lists exactly those without repetition, there are
  at most 20 of them, and the confirmation requirement is between one and their number, so a quorum
  can always be formed.
\<close>

theorem ms_signer_set_consistent:
  assumes "reach (ms_exec tr) (\<lambda>_ _. True) ms_drift (ms_fresh w) t s" and "ms_config s = Some c"
  shows "signer_count c = card {a. ms_is_signer a s} \<and> set (ms_signers s) = {a. ms_is_signer a s} \<and>
    distinct (ms_signers s) \<and> 1 \<le> required_confirmations c \<and>
    required_confirmations c \<le> signer_count c \<and> signer_count c \<le> 20"
proof -
  have ok: "ms_signers_ok c s"
    using msm.reach_inv [OF assms(1)] assms(2) by (simp add: ms_inv_def)
  then have "{a. ms_is_signer a s} = set (ms_signers s)" by (auto simp: ms_signers_ok_def)
  with ok show ?thesis by (simp add: ms_signers_ok_def distinct_card MAX_SIGNERS_def)
qed

theorem ms_signer_set_consistent_witness:
  "signer_count ms_demo_config = card {a. ms_is_signer a ms_demo} \<and>
   required_confirmations ms_demo_config \<le> signer_count ms_demo_config"
proof -
  have "ms_config ms_demo = Some ms_demo_config" by (simp add: ms_demo_def)
  from ms_signer_set_consistent [OF ms_demo_reach this] show ?thesis by blast
qed

text \<open>
  One unconfirmed transaction blocks the wallet. If the transaction at
  \<open>next_executable_nonce\<close> lacks a quorum of current signers, no call of
  \<open>execute_transaction\<close> succeeds, for any caller, time and transaction: there is no way to cancel
  or skip it. A single signer can therefore stop all payments by submitting a transaction nobody
  else confirms.
\<close>

theorem ms_unconfirmed_head_blocks_queue:
  assumes "reach (ms_exec tr) (\<lambda>_ _. True) ms_drift (ms_fresh w) t s" and "ms_config s = Some c"
    and "card {b \<in> set (unwrap_or [] (ms_confirmations s (next_executable_nonce c))). ms_is_signer b s}
         < required_confirmations c"
  shows "\<exists>err. ms_execute_transaction tr e a i s = Inl err"
proof (cases "ms_execute_transaction tr e a i s")
  case (Inr p)
  obtain rc s' where p: "p = (rc, s')" by (cases p)
  have inv: "ms_inv t s" using assms(1) by (rule msm.reach_inv)
  from Inr p have "ms_execute_transaction tr e a i s = Inr (rc, s')" by simp
  then show ?thesis
  proof (cases rule: ms_execute_Inr)
    case (1 c' tx cs s1 w')
    then have "i = next_executable_nonce c"
      using inv assms(2) by (auto simp: ms_inv_def ms_queue_ok_def)
    with 1(3,8,9) assms(2,3) show ?thesis
      by (simp add: length_filter_distinct [OF ms_inv_distinct [OF inv]])
  qed
qed simp

definition ms_stuck :: "mock_world ms_state" where
  "ms_stuck = run_calls (ms_exec mock_world_transfer) (take 2 ms_demo_calls) (ms_fresh ms_world)"

theorem ms_unconfirmed_head_blocks_queue_witness:
  "\<exists>err. ms_execute_transaction mock_world_transfer (ms_env 40) (Addr 1) 1 ms_stuck = Inl err"
proof (rule ms_unconfirmed_head_blocks_queue [where c = ms_demo_config])
  show "reach (ms_exec mock_world_transfer) (\<lambda>_ _. True) ms_drift (ms_fresh ms_world)
      (last_time 0 (take 2 ms_demo_calls)) ms_stuck"
    unfolding ms_stuck_def by (rule reach_run) (simp add: ms_demo_calls_def)
  have stuck: "ms_stuck = ms_demo\<lparr>ms_confirmations := [1 \<mapsto> [Addr 1]]\<rparr>"
    by (simp add: ms_stuck_def ms_demo_calls_def ms_demo_def ms_demo_config_def ms_demo_tx_def ms_fresh_def
        ms_op_defs ms_helper_defs ms_validate_signer_set_def MAX_SIGNERS_def MAX_MEMO_LENGTH_def require_auth_def
        ms_is_signer_def checked_add_u64_def u64_max_def fun_upd_twist)
  show "ms_config ms_stuck = Some ms_demo_config" by (simp add: stuck ms_demo_def)
  have "{b \<in> set (unwrap_or [] (ms_confirmations ms_stuck 1)). ms_is_signer b ms_stuck} \<subseteq> {Addr 1}"
    by (auto simp: stuck)
  then have "card {b \<in> set (unwrap_or [] (ms_confirmations ms_stuck 1)). ms_is_signer b ms_stuck} \<le> card {Addr 1}"
    by (intro card_mono) auto
  then show "card {b \<in> set (unwrap_or [] (ms_confirmations ms_stuck (next_executable_nonce ms_demo_config))).
      ms_is_signer b ms_stuck} < required_confirmations ms_demo_config"
    by (simp add: ms_demo_config_def)
qed

lemma ms_load_all_ids:
  "\<forall>i \<in> set is. i \<noteq> 0 \<and> (\<exists>tx. ms_transaction s i = Some tx) \<Longrightarrow>
   ms_load_all is s = Inr (map (\<lambda>i. the (ms_transaction s i)) is)"
  by (induction "is") (auto simp: ms_load_transaction_def)

text \<open>
  The history view. In every reachable initialised wallet \<open>get_transaction_history\<close> with a
  limit of at most 100 never fails: it returns the most recent executions, at most \<open>limit\<close> of
  them and oldest first, all of them marked executed.
\<close>

theorem ms_history_view:
  assumes "reach (ms_exec tr) (\<lambda>_ _. True) ms_drift (ms_fresh w) t s" and "ms_config s = Some c"
    and "limit \<le> 100"
  shows "\<exists>txs. ms_get_transaction_history limit s = Inr txs \<and> list_all tx_executed txs \<and>
    map tx_id txs = drop (next_executable_nonce c - 1 - limit) [1..<next_executable_nonce c]"
proof -
  have queue: "ms_queue_ok c s"
    using msm.reach_inv [OF assms(1)] assms(2) by (simp add: ms_inv_def)
  let ?ids = "drop (next_executable_nonce c - 1 - limit) [1..<next_executable_nonce c]"
  have stored: "\<forall>i \<in> set ?ids. i \<noteq> 0 \<and> (\<exists>tx. ms_transaction s i = Some tx)"
    using queue by (auto simp: ms_queue_ok_def dest!: in_set_dropD)
  have run: "ms_get_transaction_history limit s = ms_load_all ?ids s"
    using queue assms(3)
    by (auto simp: ms_get_transaction_history_def MAX_HISTORY_LIMIT_def ms_queue_ok_def)
  have fields: "tx_id (the (ms_transaction s i)) = i \<and> tx_executed (the (ms_transaction s i))"
    if "i \<in> set ?ids" for i
    using that stored queue by (fastforce simp: ms_queue_ok_def dest!: in_set_dropD)
  show ?thesis
    unfolding run ms_load_all_ids [OF stored]
    using fields by (auto simp: list_all_iff intro!: map_idI)
qed

theorem ms_history_view_witness:
  "\<exists>txs. ms_get_transaction_history 10 ms_demo = Inr txs \<and> list_all tx_executed txs"
proof -
  have "ms_config ms_demo = Some ms_demo_config" by (simp add: ms_demo_def)
  from ms_history_view [OF ms_demo_reach this, of 10] show ?thesis by auto
qed

lemma ms_count_active_exact:
  "n + length (filter (\<lambda>a. ms_is_signer a s) as) \<le> u32_max \<Longrightarrow>
   ms_count_active s n as = Inr (n + length (filter (\<lambda>a. ms_is_signer a s) as))"
  by (induction as arbitrary: n) (auto simp: checked_add_u32_def)

text \<open>
  Confirming and then revoking is the identity. If a signer confirms a transaction whose
  confirmations are stored, the same signer can revoke at any later time while nothing else
  changed, and the wallet is back in the state before the confirmation.
\<close>

theorem ms_confirm_revoke_roundtrip:
  assumes "ms_confirm_transaction e a i s = Inr (k, s1)" and "ms_confirmations s i = Some cs"
    and "env_auth e' a" and "k \<le> u32_max"
  shows "ms_revoke_confirmation e' a i s1 = Inr (k - 1, s)"
proof -
  note confirm = ms_confirm_Inr [OF assms(1)]
  then obtain tx where tx: "ms_transaction s i = Some tx" "\<not> tx_executed tx" by blast
  have act: "ms_is_signer a s1"
    using confirm by (simp add: ms_is_signer_def)
  have s1: "s1 = s\<lparr>ms_confirmations := (ms_confirmations s)(i \<mapsto> cs @ [a])\<rparr>" "a \<notin> set cs"
      "k = Suc (length (filter (\<lambda>b. ms_is_signer b s) cs))"
    using confirm assms(2) by auto
  have undo: "s1\<lparr>ms_confirmations := (ms_confirmations s1)(i \<mapsto> cs)\<rparr> = s"
    using s1(1) assms(2) by (simp add: fun_upd_idem)
  have count: "ms_count_active s 0 cs = Inr (k - 1)"
    using ms_count_active_exact [of 0 s cs] assms(4) s1(3) by simp
  have steps: "ms_assert_signer a s1 = Inr ()" "ms_load_transaction i s1 = Inr tx"
      "ms_get_confirmations i s1 = Inr (cs @ [a])" "require_auth MsAuth e' a = Inr ()"
    using confirm act tx s1(1) assms(2,3) by (simp_all add: ms_helper_defs require_auth_def)
  show ?thesis
    unfolding ms_revoke_confirmation_def steps and_then_Inr
    using tx(2) s1(2) by (simp add: remove1_snoc undo count ms_active_confirmation_count_def)
qed

theorem ms_confirm_revoke_roundtrip_witness:
  "\<exists>s1. ms_confirm_transaction (ms_env 35) (Addr 3) 1 ms_demo = Inr (3, s1) \<and>
     ms_revoke_confirmation (ms_env 36) (Addr 3) 1 s1 = Inr (2, ms_demo)"
proof -
  obtain s1 where run: "ms_confirm_transaction (ms_env 35) (Addr 3) 1 ms_demo = Inr (3, s1)"
    by (simp add: ms_confirm_transaction_def ms_helper_defs ms_demo_def ms_demo_tx_def ms_fresh_def
        require_auth_def ms_is_signer_def checked_add_u32_def u32_max_def Let_def)
  have cs: "ms_confirmations ms_demo 1 = Some [Addr 1, Addr 2]" by (simp add: ms_demo_def)
  have "ms_revoke_confirmation (ms_env 36) (Addr 3) 1 s1 = Inr (3 - 1, ms_demo)"
    by (rule ms_confirm_revoke_roundtrip [OF run cs]) (simp_all add: u32_max_def)
  with run show ?thesis by simp
qed

end
