(* ===== verification/Token_Vesting.thy ===== *)
theory Token_Vesting
  imports Mock_Token
begin

text \<open>
  The TokenVesting contract (src/contracts/token-vesting/src/lib.rs): linear vesting schedules with
  a cliff, claims, batches, early withdrawal with a penalty, revocation and modification. Each
  storage key of \<open>DataKey\<close> is a field of \<open>tv_state\<close>; \<open>tv_tokens\<close> is the state of the token
  contracts. Every panic message is a constructor of \<open>tv_error\<close>.
\<close>

section \<open>State\<close>

definition TV_BPS_DENOMINATOR :: i128 where
  "TV_BPS_DENOMINATOR = 10000"

definition MAX_PENALTY_BPS :: u32 where
  "MAX_PENALTY_BPS = 10000"

definition TV_MAX_BATCH_SIZE :: u32 where
  "TV_MAX_BATCH_SIZE = 50"

record vesting_schedule =
  vs_id :: u64
  vs_token :: address
  vs_funder :: address
  vs_beneficiary :: address
  total_amount :: i128
  claimed_amount :: i128
  start_time :: u64
  cliff_time :: u64
  end_time :: u64
  revocable :: bool
  early_withdrawal_allowed :: bool
  early_penalty_bps :: u32
  vs_active :: bool
  vs_created_at :: u64
  vs_updated_at :: u64
  last_claimed_at :: u64

record early_withdrawal_result =
  ew_schedule_id :: u64
  vested_paid :: i128
  unvested_paid :: i128
  penalty_amount :: i128
  ew_total_paid :: i128

record 'w tv_state =
  tv_admin :: "address option"
  tv_schedule_counter :: "u64 option"
  tv_schedule :: "u64 \<Rightarrow> vesting_schedule option"
  tv_beneficiary_schedules :: "address \<Rightarrow> u64 list option"
  tv_reentrancy_lock :: "bool option"
  tv_tokens :: 'w

datatype tv_error =
    TvAuth
  | TvToken
  | TvAlreadyInitialized
  | TvContractNotInitialized
  | TvCallerNotAdmin
  | TvBatchMustContainSchedule
  | TvBatchExceedsMaximumSize
  | TvLengthsDiffer
  | TvBatchTotalOverflow
  | TvNoVestedTokensAvailable
  | TvNoSchedulesProvided
  | TvClaimTotalOverflow
  | TvOnlyBeneficiaryCanWithdraw
  | TvOnlyBeneficiaryCanClaim
  | TvScheduleNotActive
  | TvEarlyWithdrawalDisabled
  | TvUnvestedUnderflow
  | TvPenaltyExceedsUnvested
  | TvPayoutOverflow
  | TvNoTokensAvailable
  | TvCannotModifyInactive
  | TvStoredCliffBeforeStart
  | TvStoredEndBeforeStart
  | TvCliffTimestampOverflow
  | TvEndTimestampOverflow
  | TvModificationInvalidatesClaims
  | TvOnlyOriginalFunder
  | TvCannotFundInactive
  | TvScheduleAmountOverflow
  | TvNotRevocable
  | TvRefundUnderflow
  | TvClaimOverflow
  | TvTimestampBeforeStart
  | TvScheduleEndBeforeStart
  | TvVestingMultiplicationOverflow
  | TvClaimableUnderflow
  | TvPenaltyMultiplicationOverflow
  | TvScheduleIdOverflow
  | TvInvalidScheduleId
  | TvScheduleNotFound
  | TvTransferAmountMustBePositive
  | TvReentrantCallBlocked
  | TvAmountMustBePositive
  | TvPenaltyExceedsHundredPercent
  | TvDurationMustBePositive
  | TvCliffCannotExceedDuration

definition tv_fresh :: "'w \<Rightarrow> 'w tv_state" where
  "tv_fresh w =
     \<lparr>tv_admin = None, tv_schedule_counter = None, tv_schedule = (\<lambda>_. None),
      tv_beneficiary_schedules = (\<lambda>_. None), tv_reentrancy_lock = None, tv_tokens = w\<rparr>"

section \<open>Internal helpers\<close>

definition tv_validate_amount :: "i128 \<Rightarrow> tv_error + unit" where
  "tv_validate_amount amount = panic_if (amount \<le> 0) TvAmountMustBePositive"

definition tv_validate_penalty :: "u32 \<Rightarrow> tv_error + unit" where
  "tv_validate_penalty bps = panic_if (bps > MAX_PENALTY_BPS) TvPenaltyExceedsHundredPercent"

definition tv_validate_timing :: "u64 \<Rightarrow> u64 \<Rightarrow> u64 \<Rightarrow> tv_error + unit" where
  "tv_validate_timing start cliff_duration duration =
     and_then (panic_if (duration = 0) TvDurationMustBePositive) (\<lambda>_.
     and_then (panic_if (cliff_duration > duration) TvCliffCannotExceedDuration) (\<lambda>_.
     and_then (ok_or TvCliffTimestampOverflow (checked_add_u64 start cliff_duration)) (\<lambda>_.
     and_then (ok_or TvEndTimestampOverflow (checked_add_u64 start duration)) (\<lambda>_.
     Inr ()))))"

definition tv_get_admin :: "'w tv_state \<Rightarrow> tv_error + address" where
  "tv_get_admin s = ok_or TvContractNotInitialized (tv_admin s)"

definition tv_assert_admin :: "address \<Rightarrow> 'w tv_state \<Rightarrow> tv_error + unit" where
  "tv_assert_admin caller s =
     and_then (tv_get_admin s) (\<lambda>admin. panic_if (caller \<noteq> admin) TvCallerNotAdmin)"

definition tv_load_schedule :: "u64 \<Rightarrow> 'w tv_state \<Rightarrow> tv_error + vesting_schedule" where
  "tv_load_schedule i s =
     (if i = 0 then Inl TvInvalidScheduleId else ok_or TvScheduleNotFound (tv_schedule s i))"

definition tv_next_schedule_id :: "'w tv_state \<Rightarrow> tv_error + u64 \<times> 'w tv_state" where
  "tv_next_schedule_id s =
     and_then (ok_or TvScheduleIdOverflow (checked_add_u64 (unwrap_or 0 (tv_schedule_counter s)) 1)) (\<lambda>next_id.
     Inr (next_id, s\<lparr>tv_schedule_counter := Some next_id\<rparr>))"

definition tv_beneficiary_ids :: "address \<Rightarrow> 'w tv_state \<Rightarrow> u64 list" where
  "tv_beneficiary_ids b s = unwrap_or [] (tv_beneficiary_schedules s b)"

definition tv_add_beneficiary_schedule :: "address \<Rightarrow> u64 \<Rightarrow> 'w tv_state \<Rightarrow> 'w tv_state" where
  "tv_add_beneficiary_schedule b i s =
     s\<lparr>tv_beneficiary_schedules := (tv_beneficiary_schedules s)(b \<mapsto> tv_beneficiary_ids b s @ [i])\<rparr>"

definition tv_remove_beneficiary_schedule :: "address \<Rightarrow> u64 \<Rightarrow> 'w tv_state \<Rightarrow> 'w tv_state" where
  "tv_remove_beneficiary_schedule b i s =
     s\<lparr>tv_beneficiary_schedules :=
         (tv_beneficiary_schedules s)(b \<mapsto> snd (remove_first (tv_beneficiary_ids b s) i))\<rparr>"

definition tv_enter_non_reentrant :: "'w tv_state \<Rightarrow> tv_error + 'w tv_state" where
  "tv_enter_non_reentrant s =
     (if unwrap_or False (tv_reentrancy_lock s) then Inl TvReentrantCallBlocked
      else Inr (s\<lparr>tv_reentrancy_lock := Some True\<rparr>))"

definition tv_exit_non_reentrant :: "'w tv_state \<Rightarrow> 'w tv_state" where
  "tv_exit_non_reentrant s = s\<lparr>tv_reentrancy_lock := Some False\<rparr>"

definition tv_transfer_token_unchecked ::
  "'w token_transfer \<Rightarrow> env \<Rightarrow> address \<Rightarrow> address \<Rightarrow> address \<Rightarrow> i128 \<Rightarrow> 'w tv_state \<Rightarrow>
   tv_error + 'w tv_state" where
  "tv_transfer_token_unchecked tr e token src dst amount s =
     and_then (panic_if (amount \<le> 0) TvTransferAmountMustBePositive) (\<lambda>_.
     and_then (call_token tr TvToken e token src dst amount (tv_tokens s)) (\<lambda>w.
     Inr (s\<lparr>tv_tokens := w\<rparr>)))"

definition tv_transfer_token ::
  "'w token_transfer \<Rightarrow> env \<Rightarrow> address \<Rightarrow> address \<Rightarrow> address \<Rightarrow> i128 \<Rightarrow> 'w tv_state \<Rightarrow>
   tv_error + 'w tv_state" where
  "tv_transfer_token tr e token src dst amount s =
     and_then (tv_enter_non_reentrant s) (\<lambda>s.
     and_then (tv_transfer_token_unchecked tr e token src dst amount s) (\<lambda>s.
     Inr (tv_exit_non_reentrant s)))"

text \<open>Linear vesting between start and end, nothing before the cliff.\<close>

definition tv_vested_for :: "vesting_schedule \<Rightarrow> u64 \<Rightarrow> tv_error + i128" where
  "tv_vested_for v timestamp =
     (if timestamp < cliff_time v \<or> timestamp \<le> start_time v then Inr 0
      else if timestamp \<ge> end_time v then Inr (total_amount v)
      else
        and_then (ok_or TvTimestampBeforeStart (checked_sub_u timestamp (start_time v))) (\<lambda>elapsed.
        and_then (ok_or TvScheduleEndBeforeStart (checked_sub_u (end_time v) (start_time v))) (\<lambda>duration.
        if duration = 0 then Inr (total_amount v)
        else
          and_then (ok_or TvVestingMultiplicationOverflow
                      (checked_mul_i128 (total_amount v) (int elapsed))) (\<lambda>product.
          Inr (div_i128 product (int duration))))))"

definition tv_claimable_from_vested :: "vesting_schedule \<Rightarrow> i128 \<Rightarrow> tv_error + i128" where
  "tv_claimable_from_vested v vested =
     (if vested \<le> claimed_amount v then Inr 0
      else ok_or TvClaimableUnderflow (checked_sub_i128 vested (claimed_amount v)))"

definition tv_calculate_penalty :: "i128 \<Rightarrow> u32 \<Rightarrow> tv_error + i128" where
  "tv_calculate_penalty unvested bps =
     (if unvested \<le> 0 \<or> bps = 0 then Inr 0
      else and_then (ok_or TvPenaltyMultiplicationOverflow (checked_mul_i128 unvested (int bps))) (\<lambda>product.
           Inr (div_i128 product TV_BPS_DENOMINATOR)))"

definition tv_store_schedule ::
  "env \<Rightarrow> u64 \<Rightarrow> address \<Rightarrow> address \<Rightarrow> address \<Rightarrow> i128 \<Rightarrow> u64 \<Rightarrow> u64 \<Rightarrow> u64 \<Rightarrow> bool \<Rightarrow> bool \<Rightarrow> u32 \<Rightarrow>
   'w tv_state \<Rightarrow> tv_error + 'w tv_state" where
  "tv_store_schedule e i funder token beneficiary total_amt start cliff_duration duration can_revoke early penalty s =
     (let now = env_timestamp e in
     and_then (ok_or TvCliffTimestampOverflow (checked_add_u64 start cliff_duration)) (\<lambda>cliff.
     and_then (ok_or TvEndTimestampOverflow (checked_add_u64 start duration)) (\<lambda>fin.
     let v = \<lparr>vs_id = i, vs_token = token, vs_funder = funder, vs_beneficiary = beneficiary,
              total_amount = total_amt, claimed_amount = 0, start_time = start, cliff_time = cliff,
              end_time = fin, revocable = can_revoke, early_withdrawal_allowed = early,
              early_penalty_bps = penalty, vs_active = True, vs_created_at = now,
              vs_updated_at = now, last_claimed_at = 0\<rparr>;
         s = s\<lparr>tv_schedule := (tv_schedule s)(i \<mapsto> v)\<rparr>
     in Inr (tv_add_beneficiary_schedule beneficiary i s))))"

text \<open>
  One claim; with \<open>require_positive\<close> the cases that pay nothing are panics, without it they
  return zero and leave the state alone.
\<close>

definition tv_claim_one ::
  "'w token_transfer \<Rightarrow> env \<Rightarrow> u64 \<Rightarrow> address \<Rightarrow> bool \<Rightarrow> 'w tv_state \<Rightarrow> tv_error + i128 \<times> 'w tv_state" where
  "tv_claim_one tr e i beneficiary require_positive s =
     and_then (tv_load_schedule i s) (\<lambda>v.
     and_then (panic_if (vs_beneficiary v \<noteq> beneficiary) TvOnlyBeneficiaryCanClaim) (\<lambda>_.
     if \<not> vs_active v
     then (if require_positive then Inl TvScheduleNotActive else Inr (0, s))
     else
       and_then (tv_vested_for v (env_timestamp e)) (\<lambda>vested.
       and_then (tv_claimable_from_vested v vested) (\<lambda>claimable.
       if claimable \<le> 0
       then (if require_positive then Inl TvNoVestedTokensAvailable else Inr (0, s))
       else
         and_then (ok_or TvClaimOverflow (checked_add_i128 (claimed_amount v) claimable)) (\<lambda>claimed.
         let v = v\<lparr>claimed_amount := claimed, last_claimed_at := env_timestamp e,
                   vs_updated_at := env_timestamp e\<rparr>;
             v = (if claimed_amount v \<ge> total_amount v then v\<lparr>vs_active := False\<rparr> else v);
             s = s\<lparr>tv_schedule := (tv_schedule s)(i \<mapsto> v)\<rparr> in
         and_then (tv_transfer_token tr e (vs_token v) (env_self e) beneficiary claimable s) (\<lambda>s.
         Inr (claimable, s)))))))"

section \<open>Entry points\<close>

definition tv_initialize :: "env \<Rightarrow> address \<Rightarrow> 'w tv_state \<Rightarrow> tv_error + unit \<times> 'w tv_state" where
  "tv_initialize e admin s =
     and_then (panic_if (tv_admin s \<noteq> None) TvAlreadyInitialized) (\<lambda>_.
     and_then (require_auth TvAuth e admin) (\<lambda>_.
     Inr ((), s\<lparr>tv_admin := Some admin, tv_schedule_counter := Some 0,
                tv_reentrancy_lock := Some False\<rparr>)))"

definition tv_create_schedule ::
  "'w token_transfer \<Rightarrow> env \<Rightarrow> address \<Rightarrow> address \<Rightarrow> address \<Rightarrow> i128 \<Rightarrow> u64 \<Rightarrow> u64 \<Rightarrow> u64 \<Rightarrow> bool \<Rightarrow>
   bool \<Rightarrow> u32 \<Rightarrow> 'w tv_state \<Rightarrow> tv_error + u64 \<times> 'w tv_state" where
  "tv_create_schedule tr e funder token beneficiary total_amt start cliff_duration duration can_revoke early penalty s =
     and_then (require_auth TvAuth e funder) (\<lambda>_.
     and_then (tv_validate_amount total_amt) (\<lambda>_.
     and_then (tv_validate_timing start cliff_duration duration) (\<lambda>_.
     and_then (tv_validate_penalty penalty) (\<lambda>_.
     and_then (tv_transfer_token tr e token funder (env_self e) total_amt s) (\<lambda>s.
     and_then (tv_next_schedule_id s) (\<lambda>(i, s).
     and_then (tv_store_schedule e i funder token beneficiary total_amt start cliff_duration duration
                 can_revoke early penalty s) (\<lambda>s.
     Inr (i, s))))))))"

text \<open>The two loops of a batch: validate and total the amounts, then store one schedule each.\<close>

fun tv_batch_total :: "i128 \<Rightarrow> i128 list \<Rightarrow> tv_error + i128" where
  "tv_batch_total total_amt [] = Inr total_amt"
| "tv_batch_total total_amt (amount # amounts) =
     and_then (tv_validate_amount amount) (\<lambda>_.
     and_then (ok_or TvBatchTotalOverflow (checked_add_i128 total_amt amount)) (\<lambda>total_amt.
     tv_batch_total total_amt amounts))"

fun tv_batch_store ::
  "env \<Rightarrow> address \<Rightarrow> address \<Rightarrow> u64 \<Rightarrow> u64 \<Rightarrow> u64 \<Rightarrow> bool \<Rightarrow> bool \<Rightarrow> u32 \<Rightarrow> (address \<times> i128) list \<Rightarrow>
   'w tv_state \<Rightarrow> tv_error + u64 list \<times> 'w tv_state" where
  "tv_batch_store e funder token start cliff_duration duration can_revoke early penalty [] s = Inr ([], s)"
| "tv_batch_store e funder token start cliff_duration duration can_revoke early penalty ((b, amount) # rest) s =
     and_then (tv_next_schedule_id s) (\<lambda>(i, s).
     and_then (tv_store_schedule e i funder token b amount start cliff_duration duration
                 can_revoke early penalty s) (\<lambda>s.
     and_then (tv_batch_store e funder token start cliff_duration duration can_revoke early penalty rest s) (\<lambda>(ids, s).
     Inr (i # ids, s))))"

definition tv_create_schedules_batch ::
  "'w token_transfer \<Rightarrow> env \<Rightarrow> address \<Rightarrow> address \<Rightarrow> address list \<Rightarrow> i128 list \<Rightarrow> u64 \<Rightarrow> u64 \<Rightarrow> u64 \<Rightarrow>
   bool \<Rightarrow> bool \<Rightarrow> u32 \<Rightarrow> 'w tv_state \<Rightarrow> tv_error + u64 list \<times> 'w tv_state" where
  "tv_create_schedules_batch tr e funder token beneficiaries amounts start cliff_duration duration
       can_revoke early penalty s =
     and_then (require_auth TvAuth e funder) (\<lambda>_.
     let count = length beneficiaries in
     and_then (panic_if (count = 0) TvBatchMustContainSchedule) (\<lambda>_.
     and_then (panic_if (count > TV_MAX_BATCH_SIZE) TvBatchExceedsMaximumSize) (\<lambda>_.
     and_then (panic_if (count \<noteq> length amounts) TvLengthsDiffer) (\<lambda>_.
     and_then (tv_validate_timing start cliff_duration duration) (\<lambda>_.
     and_then (tv_validate_penalty penalty) (\<lambda>_.
     and_then (tv_batch_total 0 amounts) (\<lambda>total_amt.
     and_then (tv_transfer_token tr e token funder (env_self e) total_amt s) (\<lambda>s.
     tv_batch_store e funder token start cliff_duration duration can_revoke early penalty
       (zip beneficiaries amounts) s))))))))"

definition tv_claim ::
  "'w token_transfer \<Rightarrow> env \<Rightarrow> u64 \<Rightarrow> address \<Rightarrow> 'w tv_state \<Rightarrow> tv_error + i128 \<times> 'w tv_state" where
  "tv_claim tr e i beneficiary s =
     and_then (require_auth TvAuth e beneficiary) (\<lambda>_.
     and_then (tv_claim_one tr e i beneficiary True s) (\<lambda>(paid, s).
     and_then (panic_if (paid \<le> 0) TvNoVestedTokensAvailable) (\<lambda>_.
     Inr (paid, s))))"

fun tv_claim_all ::
  "'w token_transfer \<Rightarrow> env \<Rightarrow> address \<Rightarrow> i128 \<Rightarrow> u64 list \<Rightarrow> 'w tv_state \<Rightarrow> tv_error + i128 \<times> 'w tv_state" where
  "tv_claim_all tr e beneficiary total_paid [] s = Inr (total_paid, s)"
| "tv_claim_all tr e beneficiary total_paid (i # is) s =
     and_then (tv_claim_one tr e i beneficiary False s) (\<lambda>(paid, s).
     and_then (ok_or TvClaimTotalOverflow (checked_add_i128 total_paid paid)) (\<lambda>total_paid.
     tv_claim_all tr e beneficiary total_paid is s))"

definition tv_claim_batch ::
  "'w token_transfer \<Rightarrow> env \<Rightarrow> u64 list \<Rightarrow> address \<Rightarrow> 'w tv_state \<Rightarrow> tv_error + i128 \<times> 'w tv_state" where
  "tv_claim_batch tr e ids beneficiary s =
     and_then (require_auth TvAuth e beneficiary) (\<lambda>_.
     and_then (panic_if (ids = []) TvNoSchedulesProvided) (\<lambda>_.
     and_then (panic_if (length ids > TV_MAX_BATCH_SIZE) TvBatchExceedsMaximumSize) (\<lambda>_.
     and_then (tv_claim_all tr e beneficiary 0 ids s) (\<lambda>(total_paid, s).
     and_then (panic_if (total_paid \<le> 0) TvNoVestedTokensAvailable) (\<lambda>_.
     Inr (total_paid, s))))))"

definition tv_early_withdraw ::
  "'w token_transfer \<Rightarrow> env \<Rightarrow> u64 \<Rightarrow> address \<Rightarrow> 'w tv_state \<Rightarrow>
   tv_error + early_withdrawal_result \<times> 'w tv_state" where
  "tv_early_withdraw tr e i beneficiary s =
     and_then (require_auth TvAuth e beneficiary) (\<lambda>_.
     and_then (tv_load_schedule i s) (\<lambda>v.
     and_then (panic_if (vs_beneficiary v \<noteq> beneficiary) TvOnlyBeneficiaryCanWithdraw) (\<lambda>_.
     and_then (panic_if (\<not> vs_active v) TvScheduleNotActive) (\<lambda>_.
     and_then (panic_if (\<not> early_withdrawal_allowed v) TvEarlyWithdrawalDisabled) (\<lambda>_.
     and_then (tv_vested_for v (env_timestamp e)) (\<lambda>vested.
     and_then (tv_claimable_from_vested v vested) (\<lambda>claimable.
     and_then (ok_or TvUnvestedUnderflow (checked_sub_i128 (total_amount v) vested)) (\<lambda>unvested.
     and_then (tv_calculate_penalty unvested (early_penalty_bps v)) (\<lambda>penalty.
     and_then (ok_or TvPenaltyExceedsUnvested (checked_sub_i128 unvested penalty)) (\<lambda>unvested_paid.
     and_then (ok_or TvPayoutOverflow (checked_add_i128 claimable unvested_paid)) (\<lambda>total_paid.
     and_then (panic_if (total_paid \<le> 0 \<and> penalty \<le> 0) TvNoTokensAvailable) (\<lambda>_.
     let v = v\<lparr>claimed_amount := total_amount v, vs_active := False,
               vs_updated_at := env_timestamp e, last_claimed_at := env_timestamp e\<rparr>;
         s = s\<lparr>tv_schedule := (tv_schedule s)(i \<mapsto> v)\<rparr> in
     and_then (tv_enter_non_reentrant s) (\<lambda>s.
     and_then (if total_paid > 0
               then tv_transfer_token_unchecked tr e (vs_token v) (env_self e) beneficiary total_paid s
               else Inr s) (\<lambda>s.
     and_then (if penalty > 0
               then tv_transfer_token_unchecked tr e (vs_token v) (env_self e) (vs_funder v) penalty s
               else Inr s) (\<lambda>s.
     Inr (\<lparr>ew_schedule_id = i, vested_paid = claimable, unvested_paid = unvested_paid,
           penalty_amount = penalty, ew_total_paid = total_paid\<rparr>,
          tv_exit_non_reentrant s))))))))))))))))"

definition tv_modify_schedule ::
  "env \<Rightarrow> address \<Rightarrow> u64 \<Rightarrow> address option \<Rightarrow> u64 option \<Rightarrow> u64 option \<Rightarrow> u64 option \<Rightarrow> bool option \<Rightarrow>
   u32 option \<Rightarrow> 'w tv_state \<Rightarrow> tv_error + vesting_schedule \<times> 'w tv_state" where
  "tv_modify_schedule e admin i new_beneficiary new_start new_cliff new_duration new_early new_penalty s =
     and_then (require_auth TvAuth e admin) (\<lambda>_.
     and_then (tv_assert_admin admin s) (\<lambda>_.
     and_then (tv_load_schedule i s) (\<lambda>v.
     and_then (panic_if (\<not> vs_active v) TvCannotModifyInactive) (\<lambda>_.
     let (v, s) = (case new_beneficiary of
           None \<Rightarrow> (v, s)
         | Some b \<Rightarrow> (v\<lparr>vs_beneficiary := b\<rparr>,
             tv_add_beneficiary_schedule b i (tv_remove_beneficiary_schedule (vs_beneficiary v) i s))) in
     and_then (ok_or TvStoredCliffBeforeStart (checked_sub_u (cliff_time v) (start_time v))) (\<lambda>current_cliff.
     and_then (ok_or TvStoredEndBeforeStart (checked_sub_u (end_time v) (start_time v))) (\<lambda>current_duration.
     let start = unwrap_or (start_time v) new_start;
         cliff_duration = unwrap_or current_cliff new_cliff;
         duration = unwrap_or current_duration new_duration in
     and_then (tv_validate_timing start cliff_duration duration) (\<lambda>_.
     and_then (ok_or TvCliffTimestampOverflow (checked_add_u64 start cliff_duration)) (\<lambda>cliff.
     and_then (ok_or TvEndTimestampOverflow (checked_add_u64 start duration)) (\<lambda>fin.
     let v = v\<lparr>start_time := start, cliff_time := cliff, end_time := fin\<rparr>;
         v = (case new_early of None \<Rightarrow> v | Some allowed \<Rightarrow> v\<lparr>early_withdrawal_allowed := allowed\<rparr>) in
     and_then (case new_penalty of
                 None \<Rightarrow> Inr v
               | Some bps \<Rightarrow> and_then (tv_validate_penalty bps) (\<lambda>_. Inr (v\<lparr>early_penalty_bps := bps\<rparr>))) (\<lambda>v.
     and_then (tv_vested_for v (env_timestamp e)) (\<lambda>vested_after.
     and_then (panic_if (vested_after < claimed_amount v) TvModificationInvalidatesClaims) (\<lambda>_.
     let v = v\<lparr>vs_updated_at := env_timestamp e\<rparr>
     in Inr (v, s\<lparr>tv_schedule := (tv_schedule s)(i \<mapsto> v)\<rparr>)))))))))))))"

definition tv_increase_schedule_amount ::
  "'w token_transfer \<Rightarrow> env \<Rightarrow> address \<Rightarrow> u64 \<Rightarrow> i128 \<Rightarrow> 'w tv_state \<Rightarrow>
   tv_error + vesting_schedule \<times> 'w tv_state" where
  "tv_increase_schedule_amount tr e funder i additional s =
     and_then (require_auth TvAuth e funder) (\<lambda>_.
     and_then (tv_validate_amount additional) (\<lambda>_.
     and_then (tv_load_schedule i s) (\<lambda>v.
     and_then (panic_if (vs_funder v \<noteq> funder) TvOnlyOriginalFunder) (\<lambda>_.
     and_then (panic_if (\<not> vs_active v) TvCannotFundInactive) (\<lambda>_.
     and_then (ok_or TvScheduleAmountOverflow (checked_add_i128 (total_amount v) additional)) (\<lambda>total_amt.
     let v = v\<lparr>total_amount := total_amt, vs_updated_at := env_timestamp e\<rparr> in
     and_then (tv_transfer_token tr e (vs_token v) funder (env_self e) additional s) (\<lambda>s.
     Inr (v, s\<lparr>tv_schedule := (tv_schedule s)(i \<mapsto> v)\<rparr>))))))))"

definition tv_revoke_schedule ::
  "'w token_transfer \<Rightarrow> env \<Rightarrow> address \<Rightarrow> u64 \<Rightarrow> 'w tv_state \<Rightarrow> tv_error + i128 \<times> 'w tv_state" where
  "tv_revoke_schedule tr e admin i s =
     and_then (require_auth TvAuth e admin) (\<lambda>_.
     and_then (tv_assert_admin admin s) (\<lambda>_.
     and_then (tv_load_schedule i s) (\<lambda>v.
     and_then (panic_if (\<not> vs_active v) TvScheduleNotActive) (\<lambda>_.
     and_then (panic_if (\<not> revocable v) TvNotRevocable) (\<lambda>_.
     let now = env_timestamp e in
     and_then (tv_vested_for v now) (\<lambda>vested.
     and_then (ok_or TvRefundUnderflow (checked_sub_i128 (total_amount v) vested)) (\<lambda>refund.
     let v = v\<lparr>total_amount := vested\<rparr>;
         v = (if vested > claimed_amount v then v\<lparr>end_time := now\<rparr> else v);
         v = v\<lparr>vs_active := claimed_amount v < total_amount v, vs_updated_at := now\<rparr>;
         s = s\<lparr>tv_schedule := (tv_schedule s)(i \<mapsto> v)\<rparr> in
     and_then (if refund > 0
               then tv_transfer_token tr e (vs_token v) (env_self e) (vs_funder v) refund s
               else Inr s) (\<lambda>s.
     Inr (refund, s)))))))))"

text \<open>Views.\<close>

fun tv_load_all :: "u64 list \<Rightarrow> 'w tv_state \<Rightarrow> tv_error + vesting_schedule list" where
  "tv_load_all [] s = Inr []"
| "tv_load_all (i # is) s =
     and_then (tv_load_schedule i s) (\<lambda>v.
     and_then (tv_load_all is s) (\<lambda>vs. Inr (v # vs)))"

definition tv_get_schedules_for_beneficiary ::
  "address \<Rightarrow> 'w tv_state \<Rightarrow> tv_error + vesting_schedule list" where
  "tv_get_schedules_for_beneficiary b s = tv_load_all (tv_beneficiary_ids b s) s"

definition tv_vested_amount :: "u64 \<Rightarrow> u64 \<Rightarrow> 'w tv_state \<Rightarrow> tv_error + i128" where
  "tv_vested_amount i timestamp s =
     and_then (tv_load_schedule i s) (\<lambda>v. tv_vested_for v timestamp)"

definition tv_claimable :: "env \<Rightarrow> u64 \<Rightarrow> 'w tv_state \<Rightarrow> tv_error + i128" where
  "tv_claimable e i s =
     and_then (tv_load_schedule i s) (\<lambda>v.
     and_then (tv_vested_for v (env_timestamp e)) (\<lambda>vested.
     tv_claimable_from_vested v vested))"

definition tv_get_schedule_counter :: "'w tv_state \<Rightarrow> u64" where
  "tv_get_schedule_counter s = unwrap_or 0 (tv_schedule_counter s)"

text \<open>The state-changing entry points as calls of the transition system.\<close>

datatype tv_call =
    TvInitialize address
  | TvCreateSchedule address address address i128 u64 u64 u64 bool bool u32
  | TvCreateSchedulesBatch address address "address list" "i128 list" u64 u64 u64 bool bool u32
  | TvClaim u64 address
  | TvClaimBatch "u64 list" address
  | TvEarlyWithdraw u64 address
  | TvModifySchedule address u64 "address option" "u64 option" "u64 option" "u64 option" "bool option" "u32 option"
  | TvIncreaseScheduleAmount address u64 i128
  | TvRevokeSchedule address u64

fun tv_exec :: "'w token_transfer \<Rightarrow> env \<Rightarrow> tv_call \<Rightarrow> 'w tv_state \<Rightarrow> 'w tv_state option" where
  "tv_exec tr e (TvInitialize a) s = state_of (tv_initialize e a s)"
| "tv_exec tr e (TvCreateSchedule f t b n st c d r w p) s =
     state_of (tv_create_schedule tr e f t b n st c d r w p s)"
| "tv_exec tr e (TvCreateSchedulesBatch f t bs ns st c d r w p) s =
     state_of (tv_create_schedules_batch tr e f t bs ns st c d r w p s)"
| "tv_exec tr e (TvClaim i b) s = state_of (tv_claim tr e i b s)"
| "tv_exec tr e (TvClaimBatch is b) s = state_of (tv_claim_batch tr e is b s)"
| "tv_exec tr e (TvEarlyWithdraw i b) s = state_of (tv_early_withdraw tr e i b s)"
| "tv_exec tr e (TvModifySchedule a i nb ns nc nd ne np) s =
     state_of (tv_modify_schedule e a i nb ns nc nd ne np s)"
| "tv_exec tr e (TvIncreaseScheduleAmount f i n) s = state_of (tv_increase_schedule_amount tr e f i n s)"
| "tv_exec tr e (TvRevokeSchedule a i) s = state_of (tv_revoke_schedule tr e a i s)"

section \<open>The vesting curve\<close>

text \<open>The reference definition of the vested amount, over unbounded integers.\<close>

definition vested_spec :: "vesting_schedule \<Rightarrow> u64 \<Rightarrow> int" where
  "vested_spec v t =
     (if t < cliff_time v \<or> t \<le> start_time v then 0
      else if end_time v \<le> t then total_amount v
      else total_amount v * (int t - int (start_time v)) div (int (end_time v) - int (start_time v)))"

lemma tv_vested_for_Inr:
  "tv_vested_for v t = Inr x \<Longrightarrow> 0 \<le> total_amount v \<Longrightarrow> x = vested_spec v t"
  by (auto simp: tv_vested_for_def vested_spec_def result_iffs div_i128_nonneg of_nat_diff split: if_splits)

text \<open>The code computes the curve whenever the intermediate product is representable.\<close>

lemma tv_vested_for_total:
  assumes "0 \<le> total_amount v"
    and "end_time v \<le> t \<or> in_i128 (total_amount v * (int t - int (start_time v)))"
  shows "tv_vested_for v t = Inr (vested_spec v t)"
proof (cases "t < cliff_time v \<or> t \<le> start_time v \<or> end_time v \<le> t")
  case True
  then show ?thesis by (auto simp: tv_vested_for_def vested_spec_def)
next
  case False
  then have "in_i128 (total_amount v * (int t - int (start_time v)))"
    using assms(2) by simp
  with False assms(1) show ?thesis
    by (auto simp: tv_vested_for_def vested_spec_def checked_sub_u_def div_i128_nonneg of_nat_diff
        checked_mul_i128_def narrow_i128_def)
qed

lemma vested_spec_bounds:
  assumes "0 \<le> total_amount v"
  shows "0 \<le> vested_spec v t \<and> vested_spec v t \<le> total_amount v"
  using assms div_fraction_bounds [of "total_amount v" "int t - int (start_time v)" "int (end_time v) - int (start_time v)"]
  by (auto simp: vested_spec_def)

lemma vested_spec_mono_time:
  assumes "0 \<le> total_amount v" and "t \<le> t'"
  shows "vested_spec v t \<le> vested_spec v t'"
proof (cases "t < cliff_time v \<or> t \<le> start_time v \<or> end_time v \<le> t'")
  case True
  then show ?thesis
    using assms vested_spec_bounds [OF assms(1), of t] vested_spec_bounds [OF assms(1), of t']
    by (auto simp: vested_spec_def)
next
  case False
  then have "total_amount v * (int t - int (start_time v)) \<le> total_amount v * (int t' - int (start_time v))"
    using assms by (intro mult_left_mono) auto
  with False assms show ?thesis
    by (auto simp: vested_spec_def intro!: zdiv_mono1)
qed

lemma vested_spec_mono_total:
  assumes "n \<le> m"
    and "0 \<le> n"
  shows "vested_spec (v\<lparr>total_amount := n\<rparr>) t \<le> vested_spec (v\<lparr>total_amount := m\<rparr>) t"
  using assms by (auto simp: vested_spec_def intro!: zdiv_mono1 mult_right_mono)

lemma vested_spec_cong:
  "total_amount v' = total_amount v \<Longrightarrow> start_time v' = start_time v \<Longrightarrow> cliff_time v' = cliff_time v \<Longrightarrow>
   end_time v' = end_time v \<Longrightarrow> vested_spec v' t = vested_spec v t"
  by (simp add: vested_spec_def)

section \<open>What each operation does\<close>

lemma tv_validate_timing_Inr:
  "tv_validate_timing st c d = Inr u \<longleftrightarrow> 0 < d \<and> c \<le> d \<and> st + c \<le> u64_max \<and> st + d \<le> u64_max"
  by (auto simp: tv_validate_timing_def result_iffs)

lemma tv_transfer_unchecked_Inr:
  "tv_transfer_token_unchecked tr e tok src dst n s = Inr s' \<longleftrightarrow>
     0 < n \<and> (\<exists>w. tr e tok src dst n (tv_tokens s) = Some w \<and> s' = s\<lparr>tv_tokens := w\<rparr>)"
  by (auto simp: tv_transfer_token_unchecked_def result_iffs)

lemma tv_transfer_token_Inr:
  "tv_transfer_token tr e tok src dst n s = Inr s' \<longleftrightarrow>
     \<not> unwrap_or False (tv_reentrancy_lock s) \<and> 0 < n \<and>
     (\<exists>w. tr e tok src dst n (tv_tokens s) = Some w \<and>
          s' = s\<lparr>tv_reentrancy_lock := Some False, tv_tokens := w\<rparr>)"
  by (auto simp: tv_transfer_token_def tv_enter_non_reentrant_def tv_exit_non_reentrant_def
      tv_transfer_unchecked_Inr result_iffs split: if_splits)

lemma tv_claimable_Inr:
  "tv_claimable_from_vested v x = Inr c \<Longrightarrow> c = max 0 (x - claimed_amount v)"
  by (auto simp: tv_claimable_from_vested_def result_iffs split: if_splits)

lemma tv_calculate_penalty_Inr:
  "tv_calculate_penalty n bps = Inr p \<Longrightarrow> p = (if n \<le> 0 then 0 else n * int bps div 10000)"
  by (auto simp: tv_calculate_penalty_def result_iffs TV_BPS_DENOMINATOR_def div_i128_nonneg split: if_splits)

lemma tv_load_schedule_Inr [result_iffs]:
  "tv_load_schedule i s = Inr v \<longleftrightarrow> i \<noteq> 0 \<and> tv_schedule s i = Some v"
  by (auto simp: tv_load_schedule_def result_iffs)

lemma tv_next_id_Inr [result_iffs]:
  "tv_next_schedule_id s = Inr (i, s') \<longleftrightarrow>
     i = tv_get_schedule_counter s + 1 \<and> i \<le> u64_max \<and> s' = s\<lparr>tv_schedule_counter := Some i\<rparr>"
  by (auto simp: tv_next_schedule_id_def tv_get_schedule_counter_def result_iffs)

lemmas tv_helper_defs = tv_validate_amount_def tv_validate_penalty_def tv_assert_admin_def tv_get_admin_def

text \<open>The schedule a successful creation stores.\<close>

definition new_schedule ::
  "env \<Rightarrow> u64 \<Rightarrow> address \<Rightarrow> address \<Rightarrow> address \<Rightarrow> i128 \<Rightarrow> u64 \<Rightarrow> u64 \<Rightarrow> u64 \<Rightarrow> bool \<Rightarrow> bool \<Rightarrow> u32 \<Rightarrow> vesting_schedule" where
  "new_schedule e i f tok b n st c d r ew p =
     \<lparr>vs_id = i, vs_token = tok, vs_funder = f, vs_beneficiary = b, total_amount = n, claimed_amount = 0,
      start_time = st, cliff_time = st + c, end_time = st + d, revocable = r, early_withdrawal_allowed = ew,
      early_penalty_bps = p, vs_active = True, vs_created_at = env_timestamp e,
      vs_updated_at = env_timestamp e, last_claimed_at = 0\<rparr>"

lemma tv_store_Inr [result_iffs]:
  "tv_store_schedule e i f tok b n st c d r ew p s = Inr s' \<longleftrightarrow>
     st + c \<le> u64_max \<and> st + d \<le> u64_max \<and>
     s' = tv_add_beneficiary_schedule b i
            (s\<lparr>tv_schedule := (tv_schedule s)(i \<mapsto> new_schedule e i f tok b n st c d r ew p)\<rparr>)"
  by (auto simp: tv_store_schedule_def new_schedule_def result_iffs Let_def)

lemma vs_active_idem [simp]: "vs_active v \<Longrightarrow> v\<lparr>vs_active := True\<rparr> = v"
  by (cases v) simp

lemma tv_claim_one_Inr:
  assumes "tv_claim_one tr e i b rp s = Inr (paid, s')"
  obtains (zero) v where "i \<noteq> 0" "tv_schedule s i = Some v" "vs_beneficiary v = b"
      "\<not> rp" "paid = 0" "s' = s"
  | (pays) v x w where "i \<noteq> 0" "tv_schedule s i = Some v" "vs_beneficiary v = b" "vs_active v"
      "tv_vested_for v (env_timestamp e) = Inr x" "paid = x - claimed_amount v" "0 < paid"
      "\<not> unwrap_or False (tv_reentrancy_lock s)"
      "tr e (vs_token v) (env_self e) b paid (tv_tokens s) = Some w"
      "s' = s\<lparr>tv_schedule := (tv_schedule s)(i \<mapsto> v\<lparr>claimed_amount := x,
               last_claimed_at := env_timestamp e, vs_updated_at := env_timestamp e,
               vs_active := x < total_amount v\<rparr>),
             tv_reentrancy_lock := Some False, tv_tokens := w\<rparr>"
proof -
  from assms obtain v where v: "i \<noteq> 0" "tv_schedule s i = Some v" "vs_beneficiary v = b"
    by (auto simp: tv_claim_one_def result_iffs)
  show thesis
  proof (cases "rp \<or> paid \<noteq> 0")
    case False
    with assms v have same: "s' = s"
      by (auto simp: tv_claim_one_def result_iffs tv_transfer_token_Inr Let_def split: if_splits)
    show thesis by (rule zero [OF v]) (use False same in auto)
  next
    case True
    from assms v True show thesis
      by (auto simp: tv_claim_one_def result_iffs tv_transfer_token_Inr Let_def split: if_splits
          dest!: tv_claimable_Inr intro!: pays)
  qed
qed

text \<open>A payment that is skipped when there is nothing to pay.\<close>

lemma tv_optional_payment_Inr:
  "(if 0 < n then tv_transfer_token_unchecked tr e tok src dst n s else Inr s) = Inr s' \<longleftrightarrow>
     (\<exists>w. (0 < n \<longrightarrow> tr e tok src dst n (tv_tokens s) = Some w) \<and> (n \<le> 0 \<longrightarrow> w = tv_tokens s) \<and> s' = s\<lparr>tv_tokens := w\<rparr>)"
  by (auto simp: tv_transfer_unchecked_Inr)

lemma tv_enter_Inr:
  "tv_enter_non_reentrant s = Inr s' \<longleftrightarrow>
     \<not> unwrap_or False (tv_reentrancy_lock s) \<and> s' = s\<lparr>tv_reentrancy_lock := Some True\<rparr>"
  by (auto simp: tv_enter_non_reentrant_def)

lemma tv_early_withdraw_Inr:
  assumes "tv_early_withdraw tr e i b s = Inr (r, s')"
  obtains v x c p w1 w2 where "env_auth e b" "i \<noteq> 0" "tv_schedule s i = Some v" "vs_beneficiary v = b"
    "vs_active v" "early_withdrawal_allowed v" "tv_vested_for v (env_timestamp e) = Inr x"
    "tv_claimable_from_vested v x = Inr c"
    "tv_calculate_penalty (total_amount v - x) (early_penalty_bps v) = Inr p"
    "r = \<lparr>ew_schedule_id = i, vested_paid = c, unvested_paid = total_amount v - x - p,
          penalty_amount = p, ew_total_paid = c + (total_amount v - x - p)\<rparr>"
    "\<not> unwrap_or False (tv_reentrancy_lock s)"
    "0 < c + (total_amount v - x - p) \<longrightarrow>
       tr e (vs_token v) (env_self e) b (c + (total_amount v - x - p)) (tv_tokens s) = Some w1"
    "c + (total_amount v - x - p) \<le> 0 \<longrightarrow> w1 = tv_tokens s"
    "0 < p \<longrightarrow> tr e (vs_token v) (env_self e) (vs_funder v) p w1 = Some w2" "p \<le> 0 \<longrightarrow> w2 = w1"
    "s' = s\<lparr>tv_schedule := (tv_schedule s)(i \<mapsto> v\<lparr>claimed_amount := total_amount v, vs_active := False,
             vs_updated_at := env_timestamp e, last_claimed_at := env_timestamp e\<rparr>),
           tv_reentrancy_lock := Some False, tv_tokens := w2\<rparr>"
  using assms unfolding tv_early_withdraw_def Let_def
  apply (elim and_thenE)
  apply (simp only: result_iffs tv_optional_payment_Inr tv_enter_Inr checked_sub_i128_Some
      checked_add_i128_Some tv_exit_non_reentrant_def)
  apply (elim exE conjE)
  apply hypsubst
  subgoal premises prems for _ v _ _ _ x c _ p _ _ _ _ _ _ w1 w2
    by (rule that [of v x c p w1 w2]) (use prems(2-) in auto)
  done

section \<open>The invariant\<close>

text \<open>
  A stored schedule at ledger time \<open>t\<close>: what was claimed never exceeds what has vested, and the
  schedule is active exactly while something is left to claim.
\<close>

definition tv_sched_ok :: "u64 \<Rightarrow> vesting_schedule \<Rightarrow> bool" where
  "tv_sched_ok t v \<longleftrightarrow>
     0 \<le> claimed_amount v \<and> claimed_amount v \<le> total_amount v \<and> in_i128 (total_amount v) \<and>
     start_time v \<le> cliff_time v \<and> cliff_time v \<le> end_time v \<and> start_time v < end_time v \<and>
     early_penalty_bps v \<le> MAX_PENALTY_BPS \<and>
     (vs_active v \<longleftrightarrow> claimed_amount v < total_amount v) \<and>
     (vs_active v \<longrightarrow> claimed_amount v \<le> vested_spec v t)"

lemma tv_sched_okD:
  assumes "tv_sched_ok t v"
  shows "0 \<le> claimed_amount v" "claimed_amount v \<le> total_amount v" "0 \<le> total_amount v"
    "start_time v < end_time v" "start_time v \<le> cliff_time v" "cliff_time v \<le> end_time v"
    "vs_active v = (claimed_amount v < total_amount v)"
  using assms by (auto simp: tv_sched_ok_def)

lemma tv_sched_ok_tick: "tv_sched_ok t v \<Longrightarrow> t \<le> t' \<Longrightarrow> tv_sched_ok t' v"
  using vested_spec_mono_time [of v t t'] unfolding tv_sched_ok_def by fastforce

lemma tv_sched_ok_new:
  "0 < n \<Longrightarrow> in_i128 n \<Longrightarrow> c \<le> d \<Longrightarrow> 0 < d \<Longrightarrow> p \<le> MAX_PENALTY_BPS \<Longrightarrow>
   tv_sched_ok t (new_schedule e i f tok b n st c d r ew p)"
  using vested_spec_bounds [of "new_schedule e i f tok b n st c d r ew p" t]
  by (simp add: tv_sched_ok_def new_schedule_def)

lemma tv_sched_ok_claim:
  assumes "tv_sched_ok t v" and "vs_active v" and "tv_vested_for v t = Inr x" and "claimed_amount v < x"
  shows "tv_sched_ok t (v\<lparr>claimed_amount := x, last_claimed_at := l, vs_updated_at := u,
           vs_active := x < total_amount v\<rparr>)"
proof -
  have x: "x = vested_spec v t"
    using tv_vested_for_Inr [OF assms(3) tv_sched_okD(3) [OF assms(1)]] .
  moreover have "vested_spec v t \<le> total_amount v"
    using vested_spec_bounds [OF tv_sched_okD(3) [OF assms(1)]] by simp
  ultimately show ?thesis
    using assms by (auto simp: tv_sched_ok_def vested_spec_def)
qed

lemma tv_sched_ok_close:
  "tv_sched_ok t v \<Longrightarrow>
   tv_sched_ok t (v\<lparr>claimed_amount := total_amount v, vs_active := False, vs_updated_at := u, last_claimed_at := l\<rparr>)"
  by (auto simp: tv_sched_ok_def)

lemma tv_sched_ok_increase:
  assumes "tv_sched_ok t v" and "vs_active v" and "0 < n" and "in_i128 (total_amount v + n)"
  shows "tv_sched_ok t (v\<lparr>total_amount := total_amount v + n, vs_updated_at := u\<rparr>)"
proof -
  have "vested_spec v t \<le> vested_spec (v\<lparr>total_amount := total_amount v + n\<rparr>) t"
    using vested_spec_mono_total [of "total_amount v" "total_amount v + n" v t] assms by (simp add: tv_sched_ok_def)
  moreover have "vested_spec (v\<lparr>total_amount := total_amount v + n, vs_updated_at := u\<rparr>) t =
      vested_spec (v\<lparr>total_amount := total_amount v + n\<rparr>) t"
    by (rule vested_spec_cong) simp_all
  ultimately show ?thesis using assms by (auto simp: tv_sched_ok_def)
qed

text \<open>The schedule a revocation leaves behind.\<close>

definition revoked_schedule :: "u64 \<Rightarrow> i128 \<Rightarrow> vesting_schedule \<Rightarrow> vesting_schedule" where
  "revoked_schedule now x v =
     (if claimed_amount v < x then v\<lparr>total_amount := x, end_time := now\<rparr> else v\<lparr>total_amount := x\<rparr>)
       \<lparr>vs_active := claimed_amount v < x, vs_updated_at := now\<rparr>"

lemma tv_sched_ok_revoke:
  assumes "tv_sched_ok t v" and "vs_active v" and "x = vested_spec v t"
  shows "tv_sched_ok t (revoked_schedule t x v)"
proof -
  have x: "claimed_amount v \<le> x" "x \<le> total_amount v" "in_i128 (total_amount v)" "0 \<le> claimed_amount v"
    using assms vested_spec_bounds [OF tv_sched_okD(3) [OF assms(1)], of t] by (auto simp: tv_sched_ok_def)
  then have "in_i128 x" by (intro in_i128_nonneg [OF x(3)]) auto
  moreover have "cliff_time v \<le> t \<and> start_time v < t" if "0 < x"
    using that assms(3) by (auto simp: vested_spec_def split: if_splits)
  ultimately show ?thesis
    using assms(1) x by (auto simp: tv_sched_ok_def revoked_schedule_def vested_spec_def)
qed

text \<open>What the contract still owes on a schedule in a token, and in total.\<close>

definition tv_owed :: "address \<Rightarrow> vesting_schedule \<Rightarrow> int" where
  "tv_owed tok v = (if vs_token v = tok then total_amount v - claimed_amount v else 0)"

definition tv_total_owed :: "address \<Rightarrow> 'w tv_state \<Rightarrow> int" where
  "tv_total_owed tok s = entry_sum (tv_owed tok) (tv_schedule s)"

definition tv_stored_ok :: "u64 \<Rightarrow> 'w tv_state \<Rightarrow> bool" where
  "tv_stored_ok t s \<longleftrightarrow>
     finite (dom (tv_schedule s)) \<and> \<not> unwrap_or False (tv_reentrancy_lock s) \<and>
     (\<forall>i v. tv_schedule s i = Some v \<longrightarrow> i \<noteq> 0 \<and> vs_id v = i \<and> tv_sched_ok t v)"

lemma tv_stored_okD:
  "tv_stored_ok t s \<Longrightarrow> tv_schedule s i = Some v \<Longrightarrow> i \<noteq> 0 \<and> vs_id v = i \<and> tv_sched_ok t v"
  by (simp add: tv_stored_ok_def)

lemma tv_stored_ok_cong:
  "tv_stored_ok t s \<Longrightarrow> tv_schedule s' = tv_schedule s \<Longrightarrow> \<not> unwrap_or False (tv_reentrancy_lock s') \<Longrightarrow> tv_stored_ok t s'"
  by (simp add: tv_stored_ok_def)

lemma tv_owed_nonneg: "tv_sched_ok t v \<Longrightarrow> 0 \<le> tv_owed tok v"
  by (simp add: tv_owed_def tv_sched_ok_def)

lemma tv_owed_le_total:
  assumes "tv_stored_ok t s" and "tv_schedule s i = Some v"
  shows "tv_owed tok v \<le> tv_total_owed tok s"
  unfolding tv_total_owed_def using assms
  by (intro entry_sum_ge_entry) (auto simp: tv_stored_ok_def intro: tv_owed_nonneg)

text \<open>Writing one schedule changes the debt by the difference; overwriting can only lower it.\<close>

lemma tv_stored_ok_upd:
  assumes "tv_stored_ok t s" and "tv_schedule s' = (tv_schedule s)(i \<mapsto> v')"
    and "\<not> unwrap_or False (tv_reentrancy_lock s')" and "i \<noteq> 0" "vs_id v' = i" "tv_sched_ok t v'"
  shows "tv_stored_ok t s'"
  using assms by (auto simp: tv_stored_ok_def)

lemma tv_total_owed_upd:
  assumes "tv_stored_ok t s" and "tv_schedule s' = (tv_schedule s)(i \<mapsto> v')"
  shows "tv_total_owed tok s' =
     tv_total_owed tok s - (case tv_schedule s i of None \<Rightarrow> 0 | Some v \<Rightarrow> tv_owed tok v) + tv_owed tok v'"
  using assms by (simp add: tv_total_owed_def tv_stored_ok_def entry_sum_upd)

lemma tv_old_owed_nonneg:
  "tv_stored_ok t s \<Longrightarrow> 0 \<le> (case tv_schedule s i of None \<Rightarrow> 0 | Some v \<Rightarrow> tv_owed tok v)"
  using tv_stored_okD [of t s i] by (auto split: option.splits intro: tv_owed_nonneg)

lemma tv_total_owed_add:
  assumes "tv_stored_ok t s" and "tv_schedule s' = (tv_schedule s)(i \<mapsto> v')"
  shows "tv_total_owed tok s' \<le> tv_total_owed tok s + tv_owed tok v'"
  using tv_old_owed_nonneg [OF assms(1), where i = i and tok = tok] tv_total_owed_upd [OF assms, where tok = tok]
  by linarith

section \<open>The remaining operations on success\<close>

lemma tv_create_schedule_Inr:
  assumes "tv_create_schedule tr e f tok b n st c d r ew p s = Inr (i, s')"
  obtains w where "env_auth e f" "0 < n" "0 < d" "c \<le> d" "st + d \<le> u64_max" "p \<le> MAX_PENALTY_BPS"
    "\<not> unwrap_or False (tv_reentrancy_lock s)" "tr e tok f (env_self e) n (tv_tokens s) = Some w"
    "i = tv_get_schedule_counter s + 1"
    "s' = tv_add_beneficiary_schedule b i (s\<lparr>tv_reentrancy_lock := Some False, tv_tokens := w,
            tv_schedule_counter := Some i,
            tv_schedule := (tv_schedule s)(i \<mapsto> new_schedule e i f tok b n st c d r ew p)\<rparr>)"
  using assms
  by (auto simp: tv_create_schedule_def result_iffs tv_helper_defs tv_validate_timing_Inr
      tv_transfer_token_Inr tv_get_schedule_counter_def)

lemma tv_batch_total_Inr:
  "0 \<le> acc \<Longrightarrow> in_i128 acc \<Longrightarrow>
   tv_batch_total acc ns = Inr x \<longleftrightarrow> x = acc + sum_list ns \<and> (\<forall>n\<in>set ns. 0 < n) \<and> in_i128 x"
proof (induction ns arbitrary: acc)
  case Nil
  then show ?case by auto
next
  case (Cons n ns)
  have "in_i128 (acc + n)" if "0 < n" "\<forall>m\<in>set ns. 0 < m" "in_i128 (acc + n + sum_list ns)"
    using that Cons.prems sum_list_nonneg [of ns] by (intro in_i128_nonneg [OF that(3)]) fastforce+
  with Cons show ?case
    by (auto simp: tv_validate_amount_def result_iffs add.assoc)
qed

lemma tv_batch_store_Inr:
  assumes "tv_batch_store e f tok st c d r ew p bns s = Inr (ids, s')"
    and "tv_stored_ok t s" and "0 < d" and "c \<le> d" and "p \<le> MAX_PENALTY_BPS"
    and "\<forall>(b, n) \<in> set bns. 0 < n \<and> in_i128 n"
  shows "tv_stored_ok t s' \<and> tv_tokens s' = tv_tokens s \<and> length ids = length bns \<and>
     tv_total_owed x s' \<le> tv_total_owed x s + (if x = tok then sum_list (map snd bns) else 0)"
  using assms
proof (induction bns arbitrary: s ids)
  case Nil
  then show ?case by simp
next
  case (Cons bn bns)
  obtain b n where bn: "bn = (b, n)" by (cases bn)
  define i where "i = tv_get_schedule_counter s + 1"
  define v where "v = new_schedule e i f tok b n st c d r ew p"
  define s1 where "s1 = tv_add_beneficiary_schedule b i (s\<lparr>tv_schedule_counter := Some i, tv_schedule := (tv_schedule s)(i \<mapsto> v)\<rparr>)"
  from Cons.prems(1) obtain ids' where rest: "tv_batch_store e f tok st c d r ew p bns s1 = Inr (ids', s')" and ids: "ids = i # ids'"
    by (auto simp: bn result_iffs i_def v_def s1_def)
  have v: "i \<noteq> 0" "vs_id v = i" "tv_sched_ok t v"
    using Cons.prems bn tv_sched_ok_new [of n c d p t] by (auto simp: v_def new_schedule_def i_def)
  have s1: "tv_schedule s1 = (tv_schedule s)(i \<mapsto> v)" "tv_reentrancy_lock s1 = tv_reentrancy_lock s" "tv_tokens s1 = tv_tokens s"
    by (simp_all add: s1_def tv_add_beneficiary_schedule_def)
  have ok1: "tv_stored_ok t s1"
    using tv_stored_ok_upd [OF Cons.prems(2) s1(1) _ v] Cons.prems(2) s1(2) by (simp add: tv_stored_ok_def)
  have "tv_total_owed x s1 \<le> tv_total_owed x s + (if x = tok then n else 0)"
    using tv_total_owed_add [OF Cons.prems(2) s1(1), of x] by (simp add: v_def tv_owed_def new_schedule_def split: if_splits)
  with Cons.IH [OF rest ok1] Cons.prems bn s1(3) ids show ?case by (auto split: if_splits)
qed

text \<open>The schedule a modification stores.\<close>

definition modified_schedule ::
  "env \<Rightarrow> address option \<Rightarrow> u64 option \<Rightarrow> u64 option \<Rightarrow> u64 option \<Rightarrow> bool option \<Rightarrow> u32 option \<Rightarrow>
   vesting_schedule \<Rightarrow> vesting_schedule" where
  "modified_schedule e nb ns nc nd ne np v =
     (let st = unwrap_or (start_time v) ns;
          c = unwrap_or (cliff_time v - start_time v) nc;
          d = unwrap_or (end_time v - start_time v) nd in
      v\<lparr>vs_beneficiary := unwrap_or (vs_beneficiary v) nb, start_time := st, cliff_time := st + c,
        end_time := st + d, early_withdrawal_allowed := unwrap_or (early_withdrawal_allowed v) ne,
        early_penalty_bps := unwrap_or (early_penalty_bps v) np, vs_updated_at := env_timestamp e\<rparr>)"

lemma schedule_update_ids [simp]:
  "v\<lparr>vs_beneficiary := vs_beneficiary v\<rparr> = v"
  "v\<lparr>early_withdrawal_allowed := early_withdrawal_allowed v\<rparr> = v"
  "v\<lparr>early_penalty_bps := early_penalty_bps v\<rparr> = v"
  by (cases v; simp)+

lemma tv_vested_for_updated_at [simp]: "tv_vested_for (v\<lparr>vs_updated_at := u\<rparr>) t = tv_vested_for v t"
  by (simp add: tv_vested_for_def cong: if_cong)

text \<open>The beneficiary index after a modification.\<close>

definition reindexed :: "u64 \<Rightarrow> address option \<Rightarrow> vesting_schedule \<Rightarrow> 'w tv_state \<Rightarrow> 'w tv_state" where
  "reindexed i nb v s = (case nb of None \<Rightarrow> s
     | Some b \<Rightarrow> tv_add_beneficiary_schedule b i (tv_remove_beneficiary_schedule (vs_beneficiary v) i s))"

lemma reindexed_simps [simp]:
  "tv_schedule (reindexed i nb v s) = tv_schedule s" "tv_tokens (reindexed i nb v s) = tv_tokens s"
  "tv_reentrancy_lock (reindexed i nb v s) = tv_reentrancy_lock s" "tv_admin (reindexed i nb v s) = tv_admin s"
  "tv_schedule_counter (reindexed i nb v s) = tv_schedule_counter s"
  by (auto simp: reindexed_def tv_add_beneficiary_schedule_def tv_remove_beneficiary_schedule_def split: option.splits)

lemma tv_modify_schedule_Inr:
  assumes "tv_modify_schedule e a i nb ns nc nd ne np s = Inr (v', s')"
  shows "\<exists>v x. env_auth e a \<and> tv_admin s = Some a \<and> i \<noteq> 0 \<and> tv_schedule s i = Some v \<and> vs_active v \<and>
    v' = modified_schedule e nb ns nc nd ne np v \<and> tv_vested_for v' (env_timestamp e) = Inr x \<and>
    claimed_amount v \<le> x \<and> (\<forall>bps. np = Some bps \<longrightarrow> bps \<le> MAX_PENALTY_BPS) \<and>
    start_time v' < end_time v' \<and> cliff_time v' \<le> end_time v' \<and>
    s' = (reindexed i nb v s)\<lparr>tv_schedule := (tv_schedule s)(i \<mapsto> v')\<rparr>"
proof -
  from assms obtain v where v: "env_auth e a" "tv_admin s = Some a" "i \<noteq> 0" "tv_schedule s i = Some v" "vs_active v"
    by (auto simp: tv_modify_schedule_def result_iffs tv_helper_defs)
  define s1 where "s1 = reindexed i nb v s"
  define v1 where "v1 = v\<lparr>vs_beneficiary := unwrap_or (vs_beneficiary v) nb\<rparr>"
  have pair: "(case nb of None \<Rightarrow> (v, s) | Some b \<Rightarrow> (v\<lparr>vs_beneficiary := b\<rparr>,
      tv_add_beneficiary_schedule b i (tv_remove_beneficiary_schedule (vs_beneficiary v) i s))) = (v1, s1)"
    by (cases nb) (simp_all add: v1_def s1_def reindexed_def)
  have early: "(case ne of None \<Rightarrow> u | Some allowed \<Rightarrow> u\<lparr>early_withdrawal_allowed := allowed\<rparr>) =
      u\<lparr>early_withdrawal_allowed := unwrap_or (early_withdrawal_allowed u) ne\<rparr>" for u
    by (cases ne) simp_all
  have penalty: "(case np of None \<Rightarrow> Inr u | Some bps \<Rightarrow> and_then (tv_validate_penalty bps)
        (\<lambda>_. Inr (u\<lparr>early_penalty_bps := bps\<rparr>))) = Inr u' \<longleftrightarrow>
      (\<forall>bps. np = Some bps \<longrightarrow> bps \<le> MAX_PENALTY_BPS) \<and> u' = u\<lparr>early_penalty_bps := unwrap_or (early_penalty_bps u) np\<rparr>" for u u'
    by (cases np) (auto simp: tv_validate_penalty_def result_iffs)
  have sched: "tv_schedule s1 = tv_schedule s" by (simp add: s1_def)
  show ?thesis
    using assms v
    by (auto simp: tv_modify_schedule_def result_iffs tv_helper_defs pair early penalty tv_validate_timing_Inr Let_def
        sched modified_schedule_def v1_def s1_def [symmetric])
qed

lemma tv_sched_ok_modify:
  assumes "tv_sched_ok t v" and "vs_active v" and "v' = modified_schedule e nb ns nc nd ne np v"
    and "tv_vested_for v' t = Inr x" and "claimed_amount v \<le> x" and "\<forall>bps. np = Some bps \<longrightarrow> bps \<le> MAX_PENALTY_BPS"
    and "start_time v' < end_time v'" and "cliff_time v' \<le> end_time v'"
  shows "tv_sched_ok t v'"
proof -
  have same: "total_amount v' = total_amount v" "claimed_amount v' = claimed_amount v" "vs_active v' = vs_active v"
      "start_time v' \<le> cliff_time v'" "early_penalty_bps v' = unwrap_or (early_penalty_bps v) np"
    by (simp_all add: assms(3) modified_schedule_def Let_def)
  moreover have "x = vested_spec v' t"
    using tv_vested_for_Inr [OF assms(4)] assms(1) same(1) by (simp add: tv_sched_ok_def)
  moreover have "early_penalty_bps v' \<le> MAX_PENALTY_BPS"
    using same(5) assms(1,6) by (cases np) (auto simp: tv_sched_ok_def)
  ultimately show ?thesis using assms by (auto simp: tv_sched_ok_def)
qed

lemma tv_increase_Inr:
  assumes "tv_increase_schedule_amount tr e f i n s = Inr (v', s')"
  obtains v w where "env_auth e f" "0 < n" "i \<noteq> 0" "tv_schedule s i = Some v" "vs_funder v = f" "vs_active v"
    "in_i128 (total_amount v + n)" "\<not> unwrap_or False (tv_reentrancy_lock s)"
    "tr e (vs_token v) f (env_self e) n (tv_tokens s) = Some w"
    "v' = v\<lparr>total_amount := total_amount v + n, vs_updated_at := env_timestamp e\<rparr>"
    "s' = s\<lparr>tv_reentrancy_lock := Some False, tv_tokens := w, tv_schedule := (tv_schedule s)(i \<mapsto> v')\<rparr>"
  using assms
  by (auto simp: tv_increase_schedule_amount_def result_iffs tv_helper_defs tv_transfer_token_Inr Let_def)

lemma tv_revoke_Inr:
  assumes "tv_revoke_schedule tr e a i s = Inr (refund, s')"
  obtains v x w l where "env_auth e a" "tv_admin s = Some a" "i \<noteq> 0" "tv_schedule s i = Some v" "vs_active v"
    "revocable v" "tv_vested_for v (env_timestamp e) = Inr x" "refund = total_amount v - x"
    "0 < refund \<longrightarrow> \<not> unwrap_or False (tv_reentrancy_lock s) \<and> l = Some False \<and>
       tr e (vs_token v) (env_self e) (vs_funder v) refund (tv_tokens s) = Some w"
    "refund \<le> 0 \<longrightarrow> w = tv_tokens s \<and> l = tv_reentrancy_lock s"
    "s' = s\<lparr>tv_schedule := (tv_schedule s)(i \<mapsto> revoked_schedule (env_timestamp e) x v),
           tv_reentrancy_lock := l, tv_tokens := w\<rparr>"
proof -
  from assms obtain v x where v: "env_auth e a" "tv_admin s = Some a" "i \<noteq> 0" "tv_schedule s i = Some v" "vs_active v"
    "revocable v" "tv_vested_for v (env_timestamp e) = Inr x" and refund: "refund = total_amount v - x"
    by (auto simp: tv_revoke_schedule_def result_iffs tv_helper_defs Let_def split: if_splits)
  define s1 where "s1 = s\<lparr>tv_schedule := (tv_schedule s)(i \<mapsto> revoked_schedule (env_timestamp e) x v)\<rparr>"
  have "(if refund > 0 then tv_transfer_token tr e (vs_token v) (env_self e) (vs_funder v) refund s1 else Inr s1) = Inr s'"
    using assms v refund
    by (simp add: tv_revoke_schedule_def result_iffs tv_helper_defs Let_def s1_def revoked_schedule_def split: if_splits)
  then show thesis
    using that [OF v refund] by (cases "refund > 0") (auto simp: tv_transfer_token_Inr s1_def)
qed

text \<open>What an early withdrawal pays out and returns to the funder is exactly what was still owed.\<close>

lemma early_withdraw_split:
  assumes "tv_sched_ok t v" and "vs_active v" and "tv_vested_for v t = Inr x"
    and "tv_claimable_from_vested v x = Inr c" and "tv_calculate_penalty (total_amount v - x) (early_penalty_bps v) = Inr p"
  shows "x = vested_spec v t" "c = x - claimed_amount v" "0 \<le> c" "0 \<le> p" "p \<le> total_amount v - x"
    "p = (total_amount v - x) * int (early_penalty_bps v) div 10000"
    "c + (total_amount v - x - p) + p = total_amount v - claimed_amount v"
proof -
  have tot: "0 \<le> total_amount v" using tv_sched_okD(3) [OF assms(1)] .
  show x: "x = vested_spec v t" using tv_vested_for_Inr [OF assms(3) tot] .
  then have "claimed_amount v \<le> x" using assms(1,2) by (simp add: tv_sched_ok_def)
  then show c: "c = x - claimed_amount v" "0 \<le> c" using tv_claimable_Inr [OF assms(4)] by auto
  have le: "0 \<le> total_amount v - x" using vested_spec_bounds [OF tot, of t] x by simp
  show p: "p = (total_amount v - x) * int (early_penalty_bps v) div 10000"
    using tv_calculate_penalty_Inr [OF assms(5)] le by auto
  have "int (early_penalty_bps v) \<le> 10000" using assms(1) by (simp add: tv_sched_ok_def MAX_PENALTY_BPS_def)
  then show "0 \<le> p" "p \<le> total_amount v - x"
    using div_fraction_bounds [OF le, of "int (early_penalty_bps v)" 10000] p by auto
  show "c + (total_amount v - x - p) + p = total_amount v - claimed_amount v" using c by simp
qed

section \<open>Solvency\<close>

text \<open>
  The calls a deployed contract can receive: the invoked contract is \<open>self\<close>, no one holds a key
  for the contract's own address, and the amounts are values of \<open>i128\<close>.
\<close>

fun tv_typed :: "tv_call \<Rightarrow> bool" where
  "tv_typed (TvCreateSchedule f t b n st c d r w p) = in_i128 n"
| "tv_typed (TvCreateSchedulesBatch f t bs ns st c d r w p) = list_all in_i128 ns"
| "tv_typed c = True"

definition tv_adm :: "address \<Rightarrow> env \<Rightarrow> tv_call \<Rightarrow> bool" where
  "tv_adm self e c \<longleftrightarrow> env_self e = self \<and> \<not> env_auth e self \<and> tv_typed c"

text \<open>
  Between two calls other parties move tokens, but cannot take any from the contract.
\<close>

definition tv_drift :: "'w token_balance \<Rightarrow> address \<Rightarrow> 'w tv_state \<Rightarrow> 'w tv_state \<Rightarrow> bool" where
  "tv_drift bal self s s' \<longleftrightarrow>
     (\<exists>w. s' = s\<lparr>tv_tokens := w\<rparr> \<and> (\<forall>tok. bal (tv_tokens s) tok self \<le> bal w tok self))"

definition tv_inv :: "'w token_balance \<Rightarrow> address \<Rightarrow> 'w \<Rightarrow> u64 \<Rightarrow> 'w tv_state \<Rightarrow> bool" where
  "tv_inv bal self w t s \<longleftrightarrow> tv_stored_ok t s \<and>
     (\<forall>tok. bal w tok self + tv_total_owed tok s \<le> bal (tv_tokens s) tok self)"

lemma tv_inv_same_schedules:
  assumes "tv_inv bal self w t s" and "tv_schedule s' = tv_schedule s"
    and "\<not> unwrap_or False (tv_reentrancy_lock s')" and "\<And>tok. bal (tv_tokens s) tok self \<le> bal (tv_tokens s') tok self"
  shows "tv_inv bal self w t s'"
proof -
  have "bal w tok self + tv_total_owed tok s' \<le> bal (tv_tokens s') tok self" for tok
  proof -
    have "bal w tok self + tv_total_owed tok s \<le> bal (tv_tokens s) tok self"
      using assms(1) by (simp add: tv_inv_def)
    with assms(4) [of tok] show ?thesis by (simp add: tv_total_owed_def assms(2))
  qed
  with assms show ?thesis by (auto simp: tv_inv_def intro: tv_stored_ok_cong)
qed

text \<open>One schedule is rewritten and the contract's holdings change by at least the change of the debt.\<close>

lemma tv_inv_update:
  assumes "tv_inv bal self w t s" and "tv_schedule s' = (tv_schedule s)(i \<mapsto> v')"
    and "\<not> unwrap_or False (tv_reentrancy_lock s')" and "i \<noteq> 0" "vs_id v' = i" "tv_sched_ok t v'"
    and "\<And>tok. bal (tv_tokens s) tok self + tv_owed tok v' \<le>
           bal (tv_tokens s') tok self + (case tv_schedule s i of None \<Rightarrow> 0 | Some v \<Rightarrow> tv_owed tok v)"
  shows "tv_inv bal self w t s'"
proof -
  have ok: "tv_stored_ok t s" using assms(1) by (simp add: tv_inv_def)
  have "bal w tok self + tv_total_owed tok s' \<le> bal (tv_tokens s') tok self" for tok
  proof -
    have "bal w tok self + tv_total_owed tok s \<le> bal (tv_tokens s) tok self"
      using assms(1) by (simp add: tv_inv_def)
    with tv_total_owed_upd [OF ok assms(2), of tok] assms(7) [of tok] show ?thesis by linarith
  qed
  with tv_stored_ok_upd [OF ok assms(2-6)] show ?thesis by (simp add: tv_inv_def)
qed

lemma tv_inv_fresh: "tv_inv bal self w 0 (tv_fresh w)"
  by (simp add: tv_inv_def tv_stored_ok_def tv_fresh_def tv_total_owed_def)

lemma tv_inv_tick: "tv_inv bal self w t s \<Longrightarrow> t \<le> t' \<Longrightarrow> tv_inv bal self w t' s"
  by (auto simp: tv_inv_def tv_stored_ok_def intro: tv_sched_ok_tick)

lemma tv_inv_drift: "tv_inv bal self w t s \<Longrightarrow> tv_drift bal self s s' \<Longrightarrow> tv_inv bal self w t s'"
  by (rule tv_inv_same_schedules [of bal self w t s]) (auto simp: tv_drift_def tv_inv_def tv_stored_ok_def)

lemma tv_inv_initialize:
  "tv_inv bal self w t s \<Longrightarrow> tv_initialize e a s = Inr ((), s') \<Longrightarrow> tv_inv bal self w t s'"
  by (rule tv_inv_same_schedules [of bal self w t s]) (auto simp: tv_initialize_def result_iffs)

lemma tv_inv_modify:
  assumes inv: "tv_inv bal self w (env_timestamp e) s"
    and run: "tv_modify_schedule e a i nb ns nc nd ne np s = Inr (v', s')"
  shows "tv_inv bal self w (env_timestamp e) s'"
proof -
  have ok: "tv_stored_ok (env_timestamp e) s" using inv by (simp add: tv_inv_def)
  obtain v x where v: "i \<noteq> 0" "tv_schedule s i = Some v" "vs_active v"
    "v' = modified_schedule e nb ns nc nd ne np v" "tv_vested_for v' (env_timestamp e) = Inr x"
    "claimed_amount v \<le> x" "\<forall>bps. np = Some bps \<longrightarrow> bps \<le> MAX_PENALTY_BPS"
    "start_time v' < end_time v'" "cliff_time v' \<le> end_time v'"
    "s' = (reindexed i nb v s)\<lparr>tv_schedule := (tv_schedule s)(i \<mapsto> v')\<rparr>"
    using tv_modify_schedule_Inr [OF run] by blast
  have stored: "vs_id v = i" "tv_sched_ok (env_timestamp e) v" using tv_stored_okD [OF ok v(2)] by auto
  have same: "tv_owed tok v' = tv_owed tok v" "vs_id v' = i" for tok
    using stored(1) by (simp_all add: v(4) modified_schedule_def Let_def tv_owed_def)
  show ?thesis
  proof (rule tv_inv_update [OF inv])
    show "tv_sched_ok (env_timestamp e) v'" by (rule tv_sched_ok_modify [OF stored(2) v(3-9)])
  qed (use v same ok in \<open>auto simp: tv_stored_ok_def\<close>)
qed

context token_contract
begin

lemma tv_inv_claim_one:
  assumes inv: "tv_inv balance self w (env_timestamp e) s" and self: "env_self e = self"
    and run: "tv_claim_one transfer e i b rp s = Inr (paid, s')"
  shows "tv_inv balance self w (env_timestamp e) s'"
  using run
proof (cases rule: tv_claim_one_Inr)
  case zero
  with inv show ?thesis by simp
next
  case (pays v x w')
  have stored: "vs_id v = i" "tv_sched_ok (env_timestamp e) v"
    using tv_stored_okD [OF _ pays(2)] inv by (auto simp: tv_inv_def)
  let ?v = "v\<lparr>claimed_amount := x, last_claimed_at := env_timestamp e,
        vs_updated_at := env_timestamp e, vs_active := x < total_amount v\<rparr>"
  have covered: "balance (tv_tokens s) t self + tv_owed t ?v \<le> balance w' t self + tv_owed t v" for t
    using balance_src_ge [OF pays(9), of t self] pays(6) by (auto simp: tv_owed_def split: if_splits)
  show ?thesis
  proof (rule tv_inv_update [OF inv])
    show "tv_sched_ok (env_timestamp e) (v\<lparr>claimed_amount := x, last_claimed_at := env_timestamp e,
        vs_updated_at := env_timestamp e, vs_active := x < total_amount v\<rparr>)"
      using pays by (intro tv_sched_ok_claim [OF stored(2)]) auto
  qed (use pays stored covered in auto)
qed

lemma tv_inv_claim_all:
  "tv_claim_all transfer e b acc is s = Inr (paid, s') \<Longrightarrow> tv_inv balance self w (env_timestamp e) s \<Longrightarrow>
   env_self e = self \<Longrightarrow> tv_inv balance self w (env_timestamp e) s'"
  by (induction "is" arbitrary: s acc) (auto simp: result_iffs intro: tv_inv_claim_one)

lemma tv_inv_create:
  assumes inv: "tv_inv balance self w (env_timestamp e) s" and adm: "env_self e = self" "\<not> env_auth e self" "in_i128 n"
    and run: "tv_create_schedule transfer e f tok b n st c d r ew p s = Inr (i, s')"
  shows "tv_inv balance self w (env_timestamp e) s'"
  using run
proof (cases rule: tv_create_schedule_Inr)
  case (1 w')
  let ?v = "new_schedule e i f tok b n st c d r ew p"
  have s': "tv_schedule s' = (tv_schedule s)(i \<mapsto> ?v)" "tv_tokens s' = w'" "tv_reentrancy_lock s' = Some False"
    using 1(10) by (simp_all add: tv_add_beneficiary_schedule_def)
  have old: "0 \<le> (case tv_schedule s i of None \<Rightarrow> 0 | Some v \<Rightarrow> tv_owed t v)" for t
    using inv unfolding tv_inv_def by (blast intro: tv_old_owed_nonneg)
  have "balance (tv_tokens s) t self + tv_owed t ?v \<le>
        balance (tv_tokens s') t self + (case tv_schedule s i of None \<Rightarrow> 0 | Some v \<Rightarrow> tv_owed t v)" for t
    using old [of t] transfer_moves [OF 1(8), of t self] 1(1) adm
    by (auto simp: s'(2) tv_owed_def new_schedule_def)
  with tv_inv_update [OF inv s'(1)] tv_sched_ok_new 1 adm s'(3) show ?thesis
    by (simp add: new_schedule_def)
qed

lemma tv_inv_batch:
  assumes inv: "tv_inv balance self w (env_timestamp e) s"
    and adm: "env_self e = self" "\<not> env_auth e self" "list_all in_i128 ns"
    and run: "tv_create_schedules_batch transfer e f tok bs ns st c d r ew p s = Inr (ids, s')"
  shows "tv_inv balance self w (env_timestamp e) s'"
proof -
  define s1 where "s1 w' = s\<lparr>tv_reentrancy_lock := Some False, tv_tokens := w'\<rparr>" for w'
  from run obtain w' where pre: "env_auth e f" "length bs = length ns" "0 < d" "c \<le> d" "p \<le> MAX_PENALTY_BPS"
      "\<forall>n\<in>set ns. 0 < n" and paid: "transfer e tok f (env_self e) (sum_list ns) (tv_tokens s) = Some w'"
      and store: "tv_batch_store e f tok st c d r ew p (zip bs ns) (s1 w') = Inr (ids, s')"
    by (auto simp: tv_create_schedules_batch_def Let_def result_iffs tv_batch_total_Inr tv_helper_defs
        tv_validate_timing_Inr tv_transfer_token_Inr s1_def)
  have ok: "tv_stored_ok (env_timestamp e) (s1 w')"
    using inv by (simp add: tv_inv_def tv_stored_ok_def s1_def)
  have "\<forall>(b, n) \<in> set (zip bs ns). 0 < n \<and> in_i128 n"
    using pre(6) adm(3) by (auto simp: list_all_iff dest: set_zip_rightD)
  note stored = tv_batch_store_Inr [OF store ok pre(3-5) this]
  have "balance w t self + tv_total_owed t s' \<le> balance (tv_tokens s') t self" for t
  proof -
    have "balance w t self + tv_total_owed t s \<le> balance (tv_tokens s) t self" using inv by (simp add: tv_inv_def)
    moreover have "tv_total_owed t s' \<le> tv_total_owed t s + (if t = tok then sum_list ns else 0)"
      using stored [of t] pre(2) by (auto simp: s1_def tv_total_owed_def split: if_splits)
    moreover have "balance (tv_tokens s') t self = balance (tv_tokens s) t self + (if t = tok then sum_list ns else 0)"
      using stored [of t] transfer_moves [OF paid, of t self] pre(1) adm by (auto simp: s1_def)
    ultimately show ?thesis by linarith
  qed
  with stored show ?thesis by (simp add: tv_inv_def)
qed

lemma tv_inv_increase:
  assumes inv: "tv_inv balance self w (env_timestamp e) s" and adm: "env_self e = self" "\<not> env_auth e self"
    and run: "tv_increase_schedule_amount transfer e f i n s = Inr (v', s')"
  shows "tv_inv balance self w (env_timestamp e) s'"
  using run
proof (cases rule: tv_increase_Inr)
  case (1 v w')
  have stored: "vs_id v = i" "tv_sched_ok (env_timestamp e) v"
    using tv_stored_okD [OF _ 1(4)] inv by (auto simp: tv_inv_def)
  have covered: "balance (tv_tokens s) t self + tv_owed t v' \<le> balance w' t self + tv_owed t v" for t
    using transfer_moves [OF 1(9), of t self] adm 1(1,10) by (auto simp: tv_owed_def split: if_splits)
  show ?thesis
    by (rule tv_inv_update [OF inv, of s' i v'])
       (use 1 stored covered tv_sched_ok_increase [OF stored(2) 1(6,2,7)] in auto)
qed

lemma tv_inv_revoke:
  assumes inv: "tv_inv balance self w (env_timestamp e) s" and self: "env_self e = self"
    and run: "tv_revoke_schedule transfer e a i s = Inr (refund, s')"
  shows "tv_inv balance self w (env_timestamp e) s'"
  using run
proof (cases rule: tv_revoke_Inr)
  case (1 v x w' l)
  let ?v = "revoked_schedule (env_timestamp e) x v"
  have stored: "vs_id v = i" "tv_sched_ok (env_timestamp e) v" "\<not> unwrap_or False (tv_reentrancy_lock s)"
    using tv_stored_okD [OF _ 1(4)] inv by (auto simp: tv_inv_def tv_stored_ok_def)
  have x: "x = vested_spec v (env_timestamp e)" "x \<le> total_amount v"
    using tv_vested_for_Inr [OF 1(7) tv_sched_okD(3) [OF stored(2)]]
      vested_spec_bounds [OF tv_sched_okD(3) [OF stored(2)], of "env_timestamp e"] by auto
  have fields: "vs_token ?v = vs_token v" "claimed_amount ?v = claimed_amount v" "total_amount ?v = x" "vs_id ?v = vs_id v"
    by (simp_all add: revoked_schedule_def)
  have pay: "balance (tv_tokens s) t self - (if t = vs_token v then refund else 0) \<le> balance w' t self" for t
    by (rule optional_debit [of refund e "vs_token v" "env_self e" "vs_funder v"]) (use 1(8-10) x(2) in auto)
  have covered: "balance (tv_tokens s) t self + tv_owed t ?v \<le> balance w' t self + tv_owed t v" for t
    using pay [of t] 1(8) fields by (auto simp: tv_owed_def split: if_splits)
  have "\<not> unwrap_or False l" using 1(9,10) stored(3) by (cases "0 < refund") auto
  then show ?thesis
    by (intro tv_inv_update [OF inv, of s' i ?v])
       (use 1 stored covered fields tv_sched_ok_revoke [OF stored(2) 1(5) x(1)] in auto)
qed

lemma tv_inv_early_withdraw:
  assumes inv: "tv_inv balance self w (env_timestamp e) s" and self: "env_self e = self"
    and run: "tv_early_withdraw transfer e i b s = Inr (r, s')"
  shows "tv_inv balance self w (env_timestamp e) s'"
  using run
proof (cases rule: tv_early_withdraw_Inr)
  case (1 v x c p w1 w2)
  let ?v = "v\<lparr>claimed_amount := total_amount v, vs_active := False, vs_updated_at := env_timestamp e,
    last_claimed_at := env_timestamp e\<rparr>" and ?pay = "c + (total_amount v - x - p)"
  have stored: "vs_id v = i" "tv_sched_ok (env_timestamp e) v"
    using tv_stored_okD [OF _ 1(3)] inv by (auto simp: tv_inv_def)
  note split = early_withdraw_split [OF stored(2) 1(5,7-9)]
  have pay1: "balance (tv_tokens s) t self - (if t = vs_token v then ?pay else 0) \<le> balance w1 t self" for t
    by (rule optional_debit [OF 1(12,13)]) (use split(3,5) in linarith)
  have pay2: "balance w1 t self - (if t = vs_token v then p else 0) \<le> balance w2 t self" for t
    by (rule optional_debit [OF 1(14,15) split(4)])
  have covered: "balance (tv_tokens s) t self + tv_owed t ?v \<le> balance w2 t self + tv_owed t v" for t
    using pay1 [of t] pay2 [of t] split(7) by (auto simp: tv_owed_def split: if_splits)
  show ?thesis
    by (rule tv_inv_update [OF inv, of s' i ?v]) (use 1 stored covered tv_sched_ok_close [OF stored(2)] in auto)
qed

lemma tv_inv_call:
  assumes "tv_inv balance self w (env_timestamp e) s" and "tv_adm self e c" and "tv_exec transfer e c s = Some s'"
  shows "tv_inv balance self w (env_timestamp e) s'"
  using assms
  by (cases c) (auto simp: result_iffs tv_adm_def tv_claim_def tv_claim_batch_def
      intro: tv_inv_initialize tv_inv_create tv_inv_batch tv_inv_claim_one tv_inv_claim_all
        tv_inv_early_withdraw tv_inv_modify tv_inv_increase tv_inv_revoke)

end

sublocale token_contract \<subseteq> tvm: contract_machine "tv_exec transfer" "tv_adm self" "tv_drift balance self"
  "tv_inv balance self w" "tv_fresh w" for self w
  by unfold_locales (auto intro: tv_inv_fresh tv_inv_tick tv_inv_drift tv_inv_call)

interpretation tvg: reentrancy_guard tv_enter_non_reentrant tv_exit_non_reentrant
  "\<lambda>s. unwrap_or False (tv_reentrancy_lock s)"
  by unfold_locales (auto simp: tv_enter_non_reentrant_def tv_exit_non_reentrant_def)

context token_contract
begin

lemma tv_reach_inv:
  "reach (tv_exec transfer) (tv_adm self) (tv_drift balance self) (tv_fresh w) t s \<Longrightarrow> tv_inv balance self w t s"
  by (rule tvm.reach_inv)

lemma tv_reach_schedule:
  assumes "reach (tv_exec transfer) (tv_adm self) (tv_drift balance self) (tv_fresh w) t s"
    and "tv_schedule s i = Some v"
  shows "i \<noteq> 0 \<and> vs_id v = i \<and> tv_sched_ok t v \<and> \<not> unwrap_or False (tv_reentrancy_lock s)"
  using tv_reach_inv [OF assms(1)] assms(2) by (auto simp: tv_inv_def tv_stored_ok_def)

text \<open>The debt on one schedule is covered by what the contract holds.\<close>

lemma tv_reach_covered:
  assumes "reach (tv_exec transfer) (tv_adm self) (tv_drift balance self) (tv_fresh w) t s"
    and "tv_schedule s i = Some v" and "0 \<le> balance w (vs_token v) self"
  shows "total_amount v - claimed_amount v \<le> balance (tv_tokens s) (vs_token v) self"
proof -
  have inv: "tv_stored_ok t s" "balance w (vs_token v) self + tv_total_owed (vs_token v) s \<le> balance (tv_tokens s) (vs_token v) self"
    using tv_reach_inv [OF assms(1)] by (auto simp: tv_inv_def)
  from tv_owed_le_total [OF inv(1) assms(2), of "vs_token v"] inv(2) assms(3) show ?thesis
    by (simp add: tv_owed_def)
qed

end

section \<open>A concrete run\<close>

text \<open>A contract at \<open>Addr 0\<close>, a funder \<open>Addr 1\<close> who owns 5000 of the token at \<open>Addr 50\<close>.\<close>

definition tv_env :: "u64 \<Rightarrow> env" where
  "tv_env t = \<lparr>env_timestamp = t, env_auth = (\<lambda>a. a \<noteq> Addr 0), env_self = Addr 0, env_sequence = 0\<rparr>"

definition tv_world :: mock_world where
  "tv_world = (\<lambda>tok. if tok = Addr 50 then [Addr 1 \<mapsto> 5000] else Map.empty)"

definition tv_demo_calls :: "(env \<times> tv_call) list" where
  "tv_demo_calls =
     [(tv_env 5, TvInitialize (Addr 7)),
      (tv_env 10, TvCreateSchedule (Addr 1) (Addr 50) (Addr 2) 1000 100 50 200 True True 2500)]"

definition tv_demo_sched :: vesting_schedule where
  "tv_demo_sched = new_schedule (tv_env 10) 1 (Addr 1) (Addr 50) (Addr 2) 1000 100 50 200 True True 2500"

definition tv_demo :: "mock_world tv_state" where
  "tv_demo = \<lparr>tv_admin = Some (Addr 7), tv_schedule_counter = Some 1, tv_schedule = [1 \<mapsto> tv_demo_sched],
     tv_beneficiary_schedules = [Addr 2 \<mapsto> [1]], tv_reentrancy_lock = Some False,
     tv_tokens = tv_world(Addr 50 := [Addr 1 \<mapsto> 4000, Addr 0 \<mapsto> 1000])\<rparr>"

lemma tv_env_simps [simp]:
  "env_timestamp (tv_env t) = t" "env_auth (tv_env t) a = (a \<noteq> Addr 0)" "env_self (tv_env t) = Addr 0"
  by (simp_all add: tv_env_def)

lemmas tv_eval = tv_fresh_def tv_initialize_def tv_create_schedule_def tv_helper_defs tv_validate_timing_def
  tv_transfer_token_def tv_enter_non_reentrant_def tv_exit_non_reentrant_def tv_transfer_token_unchecked_def
  tv_next_schedule_id_def tv_store_schedule_def tv_add_beneficiary_schedule_def tv_beneficiary_ids_def
  tv_load_schedule_def require_auth_def call_token_def mock_world_transfer_def mock_transfer_def mock_balance_def
  mock_world_balance_def MAX_PENALTY_BPS_def TV_BPS_DENOMINATOR_def Let_def arith_defs

lemma tv_demo_run: "run_calls (tv_exec mock_world_transfer) tv_demo_calls (tv_fresh tv_world) = tv_demo"
  by (simp add: tv_demo_calls_def tv_demo_def tv_demo_sched_def new_schedule_def tv_world_def tv_eval)

lemma tv_demo_reach:
  "reach (tv_exec mock_world_transfer) (tv_adm (Addr 0)) (tv_drift mock_world_balance (Addr 0)) (tv_fresh tv_world) 10 tv_demo"
  using reach_run [of "tv_adm (Addr 0)" tv_demo_calls "tv_exec mock_world_transfer" "tv_drift mock_world_balance (Addr 0)" "tv_fresh tv_world"]
  by (simp add: tv_demo_run) (simp add: tv_demo_calls_def tv_adm_def arith_defs)

lemma tv_demo_reach_at:
  "reach (tv_exec mock_world_transfer) (tv_adm (Addr 0)) (tv_drift mock_world_balance (Addr 0))
     (tv_fresh tv_world) (env_timestamp (tv_env 200)) tv_demo"
  "reach (tv_exec mock_world_transfer) (tv_adm (Addr 0)) (tv_drift mock_world_balance (Addr 0))
     (tv_fresh tv_world) (env_timestamp (tv_env 300)) tv_demo"
  by (rule reach_tick [OF tv_demo_reach], simp)+

lemma tv_demo_simps [simp]:
  "tv_schedule tv_demo 1 = Some tv_demo_sched" "tv_reentrancy_lock tv_demo = Some False" "tv_admin tv_demo = Some (Addr 7)"
  "tv_schedule tv_demo (Suc 0) = Some tv_demo_sched"
  by (simp_all add: tv_demo_def)

section \<open>Properties\<close>

text \<open>
  C7. Solvency. On any token that behaves as the token interface documents, whatever calls are made
  and whatever other parties do with their own tokens, the contract holds at every moment at least
  what it held when it was deployed plus everything it still owes on all schedules of that token.
\<close>

theorem tv_solvent:
  assumes "token_contract tr bal"
    and "reach (tv_exec tr) (tv_adm self) (tv_drift bal self) (tv_fresh w) t s"
  shows "bal w tok self + tv_total_owed tok s \<le> bal (tv_tokens s) tok self"
  using token_contract.tv_reach_inv [OF assms] by (simp add: tv_inv_def)

theorem tv_solvent_witness:
  "mock_world_balance tv_world (Addr 50) (Addr 0) + tv_total_owed (Addr 50) tv_demo
     \<le> mock_world_balance (tv_tokens tv_demo) (Addr 50) (Addr 0) \<and> tv_total_owed (Addr 50) tv_demo = 1000"
  using tv_solvent [OF mock.token_contract_axioms tv_demo_reach, of "Addr 50"]
  by (simp add: tv_total_owed_def entry_sum_def tv_demo_def tv_demo_sched_def new_schedule_def tv_owed_def)

text \<open>
  Claims never run ahead of vesting. In every reachable state each stored schedule has been paid
  at most its total, an active one at most what has vested by now, and a schedule is active
  exactly while something is left to pay; its times stay ordered and its penalty stays a percentage.
\<close>

theorem tv_claims_within_vesting:
  assumes "token_contract tr bal"
    and "reach (tv_exec tr) (tv_adm self) (tv_drift bal self) (tv_fresh w) t s" and "tv_schedule s i = Some v"
  shows "vs_id v = i \<and> 0 \<le> claimed_amount v \<and> claimed_amount v \<le> total_amount v \<and>
    (vs_active v \<longleftrightarrow> claimed_amount v < total_amount v) \<and> (vs_active v \<longrightarrow> claimed_amount v \<le> vested_spec v t) \<and>
    start_time v \<le> cliff_time v \<and> cliff_time v \<le> end_time v \<and> early_penalty_bps v \<le> 10000"
  using token_contract.tv_reach_schedule [OF assms] by (auto simp: tv_sched_ok_def MAX_PENALTY_BPS_def)

theorem tv_claims_within_vesting_witness:
  "vs_id tv_demo_sched = 1 \<and> claimed_amount tv_demo_sched \<le> total_amount tv_demo_sched \<and>
   claimed_amount tv_demo_sched \<le> vested_spec tv_demo_sched 10"
  using tv_claims_within_vesting [OF mock.token_contract_axioms tv_demo_reach, of 1 tv_demo_sched]
  by (simp add: tv_demo_sched_def new_schedule_def)

text \<open>
  A vested schedule can always be collected. On a token that honours funded payments, once the
  end of an active schedule has passed, its beneficiary's claim succeeds in every reachable state
  and pays everything that is left, provided the beneficiary's balance can hold it.
\<close>

theorem tv_claim_after_end_succeeds:
  assumes "live_token tr bal"
    and "reach (tv_exec tr) (tv_adm self) (tv_drift bal self) (tv_fresh w) (env_timestamp e) s"
    and "tv_schedule s i = Some v" and "vs_active v" and "end_time v \<le> env_timestamp e"
    and "env_self e = self" and "env_auth e (vs_beneficiary v)"
    and "0 \<le> bal w (vs_token v) self" and "in_i128 (bal (tv_tokens s) (vs_token v) (vs_beneficiary v) + (total_amount v - claimed_amount v))"
  shows "\<exists>s'. tv_claim tr e i (vs_beneficiary v) s = Inr (total_amount v - claimed_amount v, s') \<and>
    tv_schedule s' i = Some (v\<lparr>claimed_amount := total_amount v, last_claimed_at := env_timestamp e,
      vs_updated_at := env_timestamp e, vs_active := False\<rparr>)"
proof -
  let ?n = "total_amount v - claimed_amount v"
  note tok = live_token.axioms(1) [OF assms(1)]
  have v: "i \<noteq> 0" "tv_sched_ok (env_timestamp e) v" "\<not> unwrap_or False (tv_reentrancy_lock s)"
    using token_contract.tv_reach_schedule [OF tok assms(2,3)] by auto
  have amounts: "0 < ?n" "in_i128 ?n" "in_i128 (total_amount v)"
    using v(2) assms(4) in_i128_nonneg [of "total_amount v" ?n] by (auto simp: tv_sched_ok_def)
  have "?n \<le> bal (tv_tokens s) (vs_token v) (env_self e)"
    using token_contract.tv_reach_covered [OF tok assms(2,3,8)] assms(6) by simp
  then obtain w' where pay: "tr e (vs_token v) (env_self e) (vs_beneficiary v) ?n (tv_tokens s) = Some w'"
    using live_token.self_payment_succeeds [OF assms(1) amounts(1) _ assms(9)] by blast
  have vested: "tv_vested_for v (env_timestamp e) = Inr (total_amount v)"
    using assms(5) v(2) by (auto simp: tv_vested_for_def tv_sched_ok_def)
  show ?thesis
    using v assms(3,4,7) amounts pay
    by (auto simp: tv_claim_def tv_claim_one_def require_auth_def tv_load_schedule_def vested tv_claimable_from_vested_def
        checked_sub_i128_def checked_add_i128_def narrow_i128_def tv_transfer_token_def tv_enter_non_reentrant_def
        tv_transfer_token_unchecked_def call_token_def tv_exit_non_reentrant_def Let_def)
qed

theorem tv_claim_after_end_succeeds_witness:
  "\<exists>s'. tv_claim mock_world_transfer (tv_env 300) 1 (Addr 2) tv_demo = Inr (1000, s')"
proof -
  from tv_claim_after_end_succeeds [OF mock.live_token_axioms tv_demo_reach_at(2), of 1 tv_demo_sched] show ?thesis
    by (auto simp: tv_demo_sched_def new_schedule_def mock_world_balance_def mock_balance_def tv_demo_def tv_world_def arith_defs)
qed

text \<open>
  The vesting curve. \<open>vested_amount\<close> computes the linear curve \<open>vested_spec\<close> exactly,
  for every schedule with a non-negative total, at every time at which the product
  \<open>total * elapsed\<close> is representable; the curve is zero before the cliff, never decreases,
  stays between zero and the total, and is the total from the end on.
\<close>

theorem tv_vesting_curve:
  assumes "0 \<le> total_amount v" and "t \<le> t'"
    and "end_time v \<le> t \<or> in_i128 (total_amount v * (int t - int (start_time v)))"
  shows "tv_vested_for v t = Inr (vested_spec v t) \<and> 0 \<le> vested_spec v t \<and> vested_spec v t \<le> vested_spec v t' \<and>
    vested_spec v t' \<le> total_amount v \<and> (t < cliff_time v \<longrightarrow> vested_spec v t = 0) \<and>
    (start_time v < t \<and> cliff_time v \<le> t \<and> end_time v \<le> t \<longrightarrow> vested_spec v t = total_amount v)"
  using tv_vested_for_total [OF assms(1,3)] vested_spec_bounds [OF assms(1)] vested_spec_mono_time [OF assms(1,2)]
  by (auto simp: vested_spec_def)

theorem tv_vesting_curve_witness:
  "tv_vested_for tv_demo_sched 201 = Inr 505 \<and> 505 \<le> vested_spec tv_demo_sched 300"
  using tv_vesting_curve [of tv_demo_sched 201 300]
  by (simp add: tv_demo_sched_def new_schedule_def vested_spec_def arith_defs)

text \<open>
  Early withdrawal splits what is owed. In a reachable state a successful early withdrawal pays
  the beneficiary the vested remainder and the unvested part less the penalty, returns the penalty
  (the configured percentage of the unvested part, rounded down) to the funder, together exactly
  what was still owed, and closes the schedule.
\<close>

theorem tv_early_withdraw_splits:
  assumes "token_contract tr bal"
    and "reach (tv_exec tr) (tv_adm self) (tv_drift bal self) (tv_fresh w) (env_timestamp e) s"
    and "tv_early_withdraw tr e i b s = Inr (r, s')" and "tv_schedule s i = Some v"
    and "env_self e = self" and "b \<noteq> self" and "vs_funder v \<noteq> self" and "b \<noteq> vs_funder v"
  shows "ew_total_paid r + penalty_amount r = total_amount v - claimed_amount v \<and>
    penalty_amount r = (total_amount v - vested_spec v (env_timestamp e)) * int (early_penalty_bps v) div 10000 \<and>
    vested_paid r = vested_spec v (env_timestamp e) - claimed_amount v \<and>
    bal (tv_tokens s') (vs_token v) b = bal (tv_tokens s) (vs_token v) b + ew_total_paid r \<and>
    bal (tv_tokens s') (vs_token v) (vs_funder v) = bal (tv_tokens s) (vs_token v) (vs_funder v) + penalty_amount r \<and>
    bal (tv_tokens s') (vs_token v) self = bal (tv_tokens s) (vs_token v) self - (total_amount v - claimed_amount v) \<and>
    (\<exists>v'. tv_schedule s' i = Some v' \<and> \<not> vs_active v' \<and> claimed_amount v' = total_amount v)"
  using assms(3)
proof (cases rule: tv_early_withdraw_Inr)
  case (1 u x c p w1 w2)
  have u: "u = v" using 1(3) assms(4) by simp
  have ok: "tv_sched_ok (env_timestamp e) v"
    using token_contract.tv_reach_schedule [OF assms(1,2,4)] by simp
  note split = early_withdraw_split [OF ok 1(5,7-9) [unfolded u]]
  have pay: "0 \<le> ew_total_paid r" "penalty_amount r = p" using split(3,5) by (simp_all add: 1(10) u)
  have w1: "bal w1 (vs_token v) y = bal (tv_tokens s) (vs_token v) y
      + (if y = b then ew_total_paid r else 0) - (if y = self then ew_total_paid r else 0)" for y
    using 1(12,13) token_contract.transfer_moves [OF assms(1), of e "vs_token v" self b "ew_total_paid r" "tv_tokens s" w1 "vs_token v" y]
      pay assms(5) by (cases "0 < ew_total_paid r") (auto simp: 1(10) u)
  have w2: "bal w2 (vs_token v) y = bal w1 (vs_token v) y
      + (if y = vs_funder v then p else 0) - (if y = self then p else 0)" for y
    using 1(14,15) token_contract.transfer_moves [OF assms(1), of e "vs_token v" self "vs_funder v" p w1 w2 "vs_token v" y]
      split(4) assms(5) by (cases "0 < p") (auto simp: u)
  have sum: "ew_total_paid r + p = total_amount v - claimed_amount v" using split(7) by (simp add: 1(10) u)
  show ?thesis
    using split(1,2,6) sum pay w2 w1 assms(6-8) by (simp add: 1(16) u) (simp add: 1(10) u)
qed

lemma tv_demo_early:
  "\<exists>s'. tv_early_withdraw mock_world_transfer (tv_env 200) 1 (Addr 2) tv_demo =
     Inr (\<lparr>ew_schedule_id = 1, vested_paid = 500, unvested_paid = 375, penalty_amount = 125, ew_total_paid = 875\<rparr>, s')"
  by (simp add: tv_early_withdraw_def tv_demo_sched_def new_schedule_def tv_vested_for_def div_i128_nonneg tv_claimable_from_vested_def
      tv_calculate_penalty_def tv_eval) (simp add: tv_demo_def tv_world_def)

theorem tv_early_withdraw_splits_witness:
  "\<exists>r s'. tv_early_withdraw mock_world_transfer (tv_env 200) 1 (Addr 2) tv_demo = Inr (r, s') \<and>
     ew_total_paid r + penalty_amount r = 1000 \<and>
     mock_world_balance (tv_tokens s') (Addr 50) (Addr 2) = ew_total_paid r"
proof -
  obtain r s' where run: "tv_early_withdraw mock_world_transfer (tv_env 200) 1 (Addr 2) tv_demo = Inr (r, s')"
    using tv_demo_early by blast
  from tv_early_withdraw_splits [OF mock.token_contract_axioms tv_demo_reach_at(1) run, of tv_demo_sched] run show ?thesis
    by (simp add: tv_demo_sched_def new_schedule_def) (simp add: tv_demo_def tv_world_def mock_world_balance_def mock_balance_def)
qed

text \<open>Lowering the total to what has vested cannot make the curve overflow or exceed it.\<close>

lemma tv_vested_for_revoked:
  assumes "tv_vested_for v t = Inr x" and "0 \<le> x" and "x \<le> total_amount v" and "x \<le> claimed_amount v"
  shows "\<exists>y. tv_vested_for (revoked_schedule t x v) t = Inr y \<and> y \<le> x"
proof (cases "t < cliff_time v \<or> t \<le> start_time v \<or> end_time v \<le> t")
  case True
  then show ?thesis using assms by (auto simp: tv_vested_for_def revoked_schedule_def)
next
  case False
  let ?v = "revoked_schedule t x v"
  have same: "total_amount ?v = x" "start_time ?v = start_time v"
    using assms(4) by (simp_all add: revoked_schedule_def)
  have "in_i128 (total_amount v * (int t - int (start_time v)))"
    using assms(1) False by (auto simp: tv_vested_for_def result_iffs of_nat_diff split: if_splits)
  moreover have "x * (int t - int (start_time v)) \<le> total_amount v * (int t - int (start_time v))"
    using assms(3) False by (intro mult_right_mono) auto
  ultimately have "in_i128 (total_amount ?v * (int t - int (start_time ?v)))"
    using assms(2) False by (auto simp: same intro: in_i128_nonneg)
  with tv_vested_for_total [of ?v t] vested_spec_bounds [of ?v t] assms(2) show ?thesis by (simp add: same)
qed

text \<open>
  Revocation keeps what has vested. In a reachable state a successful revocation returns exactly
  the unvested part to the funder, and what the beneficiary could claim just before can still be
  claimed just after.
\<close>

theorem tv_revoke_keeps_vested:
  assumes "token_contract tr bal"
    and "reach (tv_exec tr) (tv_adm self) (tv_drift bal self) (tv_fresh w) (env_timestamp e) s"
    and "tv_revoke_schedule tr e a i s = Inr (refund, s')" and "tv_schedule s i = Some v"
    and "env_self e = self" and "vs_funder v \<noteq> self"
  shows "tv_admin s = Some a \<and> refund = total_amount v - vested_spec v (env_timestamp e) \<and>
    bal (tv_tokens s') (vs_token v) (vs_funder v) = bal (tv_tokens s) (vs_token v) (vs_funder v) + refund \<and>
    tv_claimable e i s' = tv_claimable e i s \<and>
    tv_claimable e i s = Inr (vested_spec v (env_timestamp e) - claimed_amount v)"
  using assms(3)
proof (cases rule: tv_revoke_Inr)
  case (1 u x w' l)
  have u: "u = v" using 1(4) assms(4) by simp
  let ?v = "revoked_schedule (env_timestamp e) x v"
  have ok: "tv_sched_ok (env_timestamp e) v"
    using token_contract.tv_reach_schedule [OF assms(1,2,4)] by simp
  have x: "x = vested_spec v (env_timestamp e)" "x \<le> total_amount v" "claimed_amount v \<le> x" "0 \<le> claimed_amount v" "in_i128 (total_amount v)"
    using tv_vested_for_Inr [OF 1(7)] vested_spec_bounds [of v "env_timestamp e"] ok 1(5) by (auto simp: u tv_sched_ok_def)
  have paid: "bal w' (vs_token v) (vs_funder v) = bal (tv_tokens s) (vs_token v) (vs_funder v) + refund"
    using 1(8-10) x(2) token_contract.balance_dst [OF assms(1), of e "vs_token v" self "vs_funder v" refund "tv_tokens s" w'] assms(5,6)
    by (cases "0 < refund") (auto simp: u)
  have fit: "in_i128 (x - claimed_amount v)" by (rule in_i128_nonneg [OF x(5)]) (use x in auto)
  have before: "tv_claimable e i s = Inr (x - claimed_amount v)"
    using 1(3,7) assms(4) x fit
    by (auto simp: tv_claimable_def tv_load_schedule_def u tv_claimable_from_vested_def checked_sub_i128_def narrow_i128_def)
  have after: "tv_claimable e i s' = Inr (x - claimed_amount v)"
  proof (cases "claimed_amount v < x")
    case True
    then have "cliff_time v \<le> env_timestamp e" "start_time v < env_timestamp e"
      using x by (auto simp: vested_spec_def split: if_splits)
    then have "tv_vested_for ?v (env_timestamp e) = Inr x"
      using True by (simp add: tv_vested_for_def revoked_schedule_def)
    with True 1(3) fit show ?thesis
      by (auto simp: tv_claimable_def tv_load_schedule_def 1(11) u tv_claimable_from_vested_def checked_sub_i128_def
          narrow_i128_def revoked_schedule_def)
  next
    case False
    then have eq: "x = claimed_amount v" using x by simp
    have "\<exists>y. tv_vested_for ?v (env_timestamp e) = Inr y \<and> y \<le> x"
      by (rule tv_vested_for_revoked [OF 1(7) [unfolded u]]) (use x eq in auto)
    with eq 1(3) show ?thesis
      by (auto simp: tv_claimable_def tv_load_schedule_def 1(11) u tv_claimable_from_vested_def revoked_schedule_def)
  qed
  show ?thesis using 1(2,8) x(1) paid before after by (simp add: 1(11) u)
qed

theorem tv_revoke_keeps_vested_witness:
  "\<exists>refund s'. tv_revoke_schedule mock_world_transfer (tv_env 200) (Addr 7) 1 tv_demo = Inr (refund, s') \<and>
     refund = 500 \<and> tv_claimable (tv_env 200) 1 s' = Inr 500"
proof -
  have "\<exists>x. tv_revoke_schedule mock_world_transfer (tv_env 200) (Addr 7) 1 tv_demo = Inr x"
    by (simp add: tv_revoke_schedule_def tv_demo_sched_def new_schedule_def tv_vested_for_def div_i128_nonneg tv_eval)
       (simp add: tv_demo_def tv_world_def)
  then obtain refund s' where run: "tv_revoke_schedule mock_world_transfer (tv_env 200) (Addr 7) 1 tv_demo = Inr (refund, s')"
    by auto
  from tv_revoke_keeps_vested [OF mock.token_contract_axioms tv_demo_reach_at(1) run, of tv_demo_sched] run show ?thesis
    by (simp add: tv_demo_sched_def new_schedule_def vested_spec_def)
qed

text \<open>The loop of a batch stores the schedules one after the other under consecutive ids.\<close>

lemma tv_batch_store_ids:
  assumes "tv_batch_store e f tok st c d r ew p bns s = Inr (ids, s')"
  shows "ids = [Suc (tv_get_schedule_counter s) ..< Suc (tv_get_schedule_counter s + length bns)] \<and>
    tv_get_schedule_counter s' = tv_get_schedule_counter s + length bns \<and>
    (\<forall>k < length bns. tv_schedule s' (tv_get_schedule_counter s + Suc k) =
       Some (new_schedule e (tv_get_schedule_counter s + Suc k) f tok (fst (bns ! k)) (snd (bns ! k)) st c d r ew p)) \<and>
    (\<forall>i \<le> tv_get_schedule_counter s. tv_schedule s' i = tv_schedule s i) \<and> tv_tokens s' = tv_tokens s"
  using assms
proof (induction bns arbitrary: s ids)
  case Nil
  then show ?case by simp
next
  case (Cons bn bns)
  obtain b n where bn: "bn = (b, n)" by (cases bn)
  let ?c = "tv_get_schedule_counter s"
  define v where "v = new_schedule e (Suc ?c) f tok b n st c d r ew p"
  define s1 where "s1 = tv_add_beneficiary_schedule b (Suc ?c) (s\<lparr>tv_schedule_counter := Some (Suc ?c), tv_schedule := (tv_schedule s)(Suc ?c \<mapsto> v)\<rparr>)"
  from Cons.prems obtain ids' where rest: "tv_batch_store e f tok st c d r ew p bns s1 = Inr (ids', s')" and ids: "ids = Suc ?c # ids'"
    by (auto simp: bn result_iffs v_def s1_def)
  have s1: "tv_get_schedule_counter s1 = Suc ?c" "tv_schedule s1 = (tv_schedule s)(Suc ?c \<mapsto> v)" "tv_tokens s1 = tv_tokens s"
    by (simp_all add: s1_def tv_add_beneficiary_schedule_def tv_get_schedule_counter_def)
  note IH = Cons.IH [OF rest, unfolded s1(1,3)]
  have "tv_schedule s' (?c + Suc k) = Some (new_schedule e (?c + Suc k) f tok (fst ((bn # bns) ! k)) (snd ((bn # bns) ! k)) st c d r ew p)"
    if "k < length (bn # bns)" for k
    using that IH by (cases k) (auto simp: s1(2) v_def bn)
  moreover have "tv_schedule s' i = tv_schedule s i" if "i \<le> ?c" for i
    using that IH by (auto simp: s1(2))
  moreover have "ids = [Suc ?c ..< Suc (?c + length (bn # bns))]"
    using IH ids by (simp add: upt_conv_Cons [of "Suc ?c"] del: upt_Suc)
  ultimately show ?case using IH by simp
qed

text \<open>
  A batch creates one schedule per beneficiary under consecutive new ids, each with its own
  amount and the common terms, leaves older schedules alone and pulls exactly the sum of the
  amounts from the funder in one payment.
\<close>

theorem tv_batch_creates_each:
  assumes "tv_create_schedules_batch tr e f tok bs ns st c d r ew p s = Inr (ids, s')"
  shows "length bs = length ns \<and> length ids = length bs \<and> 0 < length bs \<and> length bs \<le> 50 \<and>
    ids = [Suc (tv_get_schedule_counter s) ..< Suc (tv_get_schedule_counter s + length bs)] \<and>
    tr e tok f (env_self e) (sum_list ns) (tv_tokens s) = Some (tv_tokens s') \<and>
    (\<forall>k < length bs. tv_schedule s' (ids ! k) = Some (new_schedule e (ids ! k) f tok (bs ! k) (ns ! k) st c d r ew p)) \<and>
    (\<forall>i \<le> tv_get_schedule_counter s. tv_schedule s' i = tv_schedule s i)"
proof -
  from assms obtain w' where pre: "length bs = length ns" "bs \<noteq> []" "length bs \<le> 50"
      and paid: "tr e tok f (env_self e) (sum_list ns) (tv_tokens s) = Some w'"
      and store: "tv_batch_store e f tok st c d r ew p (zip bs ns)
        (s\<lparr>tv_reentrancy_lock := Some False, tv_tokens := w'\<rparr>) = Inr (ids, s')"
    by (auto simp: tv_create_schedules_batch_def Let_def result_iffs tv_batch_total_Inr tv_helper_defs
        tv_validate_timing_Inr tv_transfer_token_Inr TV_MAX_BATCH_SIZE_def)
  have count: "tv_get_schedule_counter (s\<lparr>tv_reentrancy_lock := l, tv_tokens := w'\<rparr>) = tv_get_schedule_counter s" for l
    by (simp add: tv_get_schedule_counter_def)
  show ?thesis
    using tv_batch_store_ids [OF store, unfolded count] pre paid by (auto simp del: upt_Suc)
qed

theorem tv_batch_creates_each_witness:
  "\<exists>s'. tv_create_schedules_batch mock_world_transfer (tv_env 20) (Addr 1) (Addr 50) [Addr 2, Addr 3] [300, 400]
        100 50 200 True True 2500 tv_demo = Inr ([2, 3], s') \<and>
     tv_schedule s' 3 = Some (new_schedule (tv_env 20) 3 (Addr 1) (Addr 50) (Addr 3) 400 100 50 200 True True 2500)"
proof -
  have "\<exists>x. tv_create_schedules_batch mock_world_transfer (tv_env 20) (Addr 1) (Addr 50) [Addr 2, Addr 3] [300, 400]
      100 50 200 True True 2500 tv_demo = Inr x"
    by (simp add: tv_create_schedules_batch_def TV_MAX_BATCH_SIZE_def tv_eval)
       (simp add: tv_demo_def tv_world_def)
  then obtain ids s' where run: "tv_create_schedules_batch mock_world_transfer (tv_env 20) (Addr 1) (Addr 50)
      [Addr 2, Addr 3] [300, 400] 100 50 200 True True 2500 tv_demo = Inr (ids, s')" by auto
  have n: "tv_get_schedule_counter tv_demo = 1" by (simp add: tv_get_schedule_counter_def tv_demo_def)
  have ids: "ids = [2, 3]" using tv_batch_creates_each [OF run] by (simp add: n upt_rec)
  with tv_batch_creates_each [OF run] run show ?thesis by (auto simp: less_Suc_eq)
qed

text \<open>
  Very large schedules cannot be claimed while they vest. When \<open>total * elapsed\<close> exceeds
  \<open>i128\<close> between the cliff and the end, the beneficiary's claim panics although part of the
  schedule has vested.
\<close>

theorem tv_claim_overflows_before_end:
  assumes "tv_schedule s i = Some v" and "i \<noteq> 0" and "vs_active v" and "env_auth e (vs_beneficiary v)"
    and "cliff_time v \<le> env_timestamp e" and "start_time v < env_timestamp e" and "env_timestamp e < end_time v"
    and "i128_max < total_amount v * (int (env_timestamp e) - int (start_time v))"
  shows "tv_claim tr e i (vs_beneficiary v) s = Inl TvVestingMultiplicationOverflow"
proof -
  have "\<not> in_i128 (total_amount v * int (env_timestamp e - start_time v))"
    using assms(6,8) by (simp add: in_i128_def of_nat_diff)
  then have "tv_vested_for v (env_timestamp e) = Inl TvVestingMultiplicationOverflow"
    using assms(5-7) by (simp add: tv_vested_for_def checked_sub_u_def checked_mul_i128_def narrow_i128_def)
  with assms(1-4) show ?thesis
    by (simp add: tv_claim_def tv_claim_one_def require_auth_def tv_load_schedule_def)
qed

theorem tv_claim_overflows_before_end_witness:
  "tv_claim mock_world_transfer (tv_env 200) 1 (Addr 2)
     (tv_demo\<lparr>tv_schedule := [1 \<mapsto> tv_demo_sched\<lparr>total_amount := 2 * 10 ^ 36\<rparr>]\<rparr>) = Inl TvVestingMultiplicationOverflow"
  using tv_claim_overflows_before_end [of "tv_demo\<lparr>tv_schedule := [1 \<mapsto> tv_demo_sched\<lparr>total_amount := 2 * 10 ^ 36\<rparr>]\<rparr>" 1
      "tv_demo_sched\<lparr>total_amount := 2 * 10 ^ 36\<rparr>" "tv_env 200" mock_world_transfer]
  by (simp add: tv_demo_sched_def new_schedule_def i128_max_def)

text \<open>
  Initialising late forgets schedules. \<open>create_schedule\<close> does not need an initialised contract,
  and \<open>initialize\<close> sets the schedule counter back to zero: the next schedule gets id 1 and replaces
  a schedule stored under it before, which can then no longer be claimed although its tokens stay
  in the contract.
\<close>

theorem tv_late_initialize_overwrites:
  assumes "tv_create_schedule tr e1 f1 tok1 b1 n1 st1 c1 d1 r1 w1 p1 (tv_fresh w) = Inr (i, s1)"
    and "tv_initialize e2 a s1 = Inr ((), s2)"
    and "tv_create_schedule tr e3 f3 tok3 b3 n3 st3 c3 d3 r3 w3 p3 s2 = Inr (j, s3)"
  shows "i = 1 \<and> tv_schedule s1 1 = Some (new_schedule e1 1 f1 tok1 b1 n1 st1 c1 d1 r1 w1 p1) \<and>
    j = 1 \<and> tv_schedule s3 1 = Some (new_schedule e3 1 f3 tok3 b3 n3 st3 c3 d3 r3 w3 p3) \<and> (\<forall>k > 1. tv_schedule s3 k = None)"
proof -
  have s1: "i = 1 \<and> tv_schedule s1 = [1 \<mapsto> new_schedule e1 1 f1 tok1 b1 n1 st1 c1 d1 r1 w1 p1]"
    using assms(1) by (cases rule: tv_create_schedule_Inr)
      (auto simp: tv_fresh_def tv_get_schedule_counter_def tv_add_beneficiary_schedule_def)
  have s2: "tv_schedule s2 = tv_schedule s1 \<and> tv_get_schedule_counter s2 = 0"
    using assms(2) by (auto simp: tv_initialize_def result_iffs tv_get_schedule_counter_def)
  show ?thesis
    using assms(3) s1 s2 by (cases rule: tv_create_schedule_Inr) (auto simp: tv_add_beneficiary_schedule_def)
qed

theorem tv_late_initialize_overwrites_witness:
  "\<exists>s1 s2 s3 j. tv_create_schedule mock_world_transfer (tv_env 10) (Addr 1) (Addr 50) (Addr 2) 1000 100 50 200 True True 2500
        (tv_fresh tv_world) = Inr (1, s1) \<and>
     tv_initialize (tv_env 11) (Addr 7) s1 = Inr ((), s2) \<and>
     tv_create_schedule mock_world_transfer (tv_env 12) (Addr 1) (Addr 50) (Addr 3) 5 100 50 200 True True 0 s2 = Inr (j, s3) \<and>
     j = 1 \<and> tv_schedule s3 1 = Some (new_schedule (tv_env 12) 1 (Addr 1) (Addr 50) (Addr 3) 5 100 50 200 True True 0)"
proof -
  have "\<exists>s1. tv_create_schedule mock_world_transfer (tv_env 10) (Addr 1) (Addr 50) (Addr 2) 1000 100 50 200 True True 2500
      (tv_fresh tv_world) = Inr (1, s1) \<and>
    (\<exists>s2. tv_initialize (tv_env 11) (Addr 7) s1 = Inr ((), s2) \<and>
    (\<exists>s3 j. tv_create_schedule mock_world_transfer (tv_env 12) (Addr 1) (Addr 50) (Addr 3) 5 100 50 200 True True 0 s2 = Inr (j, s3)))"
    by (simp add: tv_eval tv_world_def)
  then obtain s1 s2 s3 j where runs:
      "tv_create_schedule mock_world_transfer (tv_env 10) (Addr 1) (Addr 50) (Addr 2) 1000 100 50 200 True True 2500
        (tv_fresh tv_world) = Inr (1, s1)"
      "tv_initialize (tv_env 11) (Addr 7) s1 = Inr ((), s2)"
      "tv_create_schedule mock_world_transfer (tv_env 12) (Addr 1) (Addr 50) (Addr 3) 5 100 50 200 True True 0 s2 = Inr (j, s3)"
    by blast
  with tv_late_initialize_overwrites [OF runs] show ?thesis by blast
qed

end
