(* ===== verification/Fee_Distribution.thy ===== *)
theory Fee_Distribution
  imports Mock_Token
begin

text \<open>
  The FeeDistribution contract (src/contracts/fee-distribution/src/lib.rs): a bounded fee rate,
  recipient categories with shares in basis points, fee collection from payers, distribution of the
  collected fees to the categories and claims by their recipients. Each storage key of \<open>DataKey\<close>
  is a field of \<open>fd_state\<close>; every panic message is a constructor of \<open>fd_error\<close>.
\<close>

section \<open>State\<close>

definition FD_BPS_DENOMINATOR :: i128 where
  "FD_BPS_DENOMINATOR = 10000"

definition HARD_CAP_FEE_RATE_BPS :: u32 where
  "HARD_CAP_FEE_RATE_BPS = 2000"

definition MAX_FEE_RATE_STEP_BPS :: u32 where
  "MAX_FEE_RATE_STEP_BPS = 500"

definition MAX_CATEGORIES :: u32 where
  "MAX_CATEGORIES = 20"

definition FD_MAX_BATCH_SIZE :: u32 where
  "FD_MAX_BATCH_SIZE = 50"

definition FD_MAX_HISTORY_LIMIT :: u32 where
  "FD_MAX_HISTORY_LIMIT = 100"

record recipient_category =
  cat_id :: symbol
  cat_recipient :: address
  share_bps :: u32
  cat_total_allocated :: i128
  cat_total_claimed :: i128
  cat_active :: bool

record category_allocation =
  ca_category_id :: symbol
  ca_amount :: i128

record distribution_record =
  distribution_id :: u64
  dr_total_amount :: i128
  category_count :: u32
  dr_timestamp :: u64
  dr_allocations :: "category_allocation list"

record 'w fd_state =
  fd_admin :: "address option"
  fd_token :: "address option"
  fd_paused :: "bool option"
  fee_rate_bps :: "u32 option"
  max_fee_rate_bps :: "u32 option"
  fd_total_collected :: "i128 option"
  fd_total_allocated :: "i128 option"
  fd_total_shares_bps :: "u32 option"
  fd_category_ids :: "symbol list option"
  fd_category :: "symbol \<Rightarrow> recipient_category option"
  fd_exempt :: "address \<Rightarrow> bool option"
  fd_distribution_counter :: "u64 option"
  fd_distribution :: "u64 \<Rightarrow> distribution_record option"
  fd_reentrancy_lock :: "bool option"
  fd_tokens :: 'w

datatype fd_error =
    FdAuth
  | FdToken
  | FdAlreadyInitialized
  | FdFeeRateExceedsMax
  | FdAlreadyPaused
  | FdNotPaused
  | FdRateChangeExceedsMaxStep
  | FdCategoryAlreadyExists
  | FdMaximumCategoriesReached
  | FdShareTotalOverflow
  | FdShareTotalUnderflow
  | FdTotalSharesExceedHundredPercent
  | FdCategoryNotActive
  | FdCategoryAlreadyInactive
  | FdCategoryAlreadyActive
  | FdAmountMustBePositive
  | FdFeeMultiplicationOverflow
  | FdCollectionPaused
  | FdTotalCollectedOverflow
  | FdSharesNotFullyConfigured
  | FdPendingUnderflow
  | FdNoPendingFees
  | FdNoActiveCategories
  | FdAllocationMultiplicationOverflow
  | FdRemainderUnderflow
  | FdRemainderOverflow
  | FdCategoryAllocationOverflow
  | FdAllocatedSumOverflow
  | FdTotalAllocatedOverflow
  | FdNothingToClaim
  | FdNoCategoriesProvided
  | FdBatchExceedsMaximumSize
  | FdClaimTotalOverflow
  | FdClaimableUnderflow
  | FdTotalClaimedOverflow
  | FdDistributionNotFound
  | FdOnlyRecipientCanClaim
  | FdClaimedOverflow
  | FdDistributionIdOverflow
  | FdCategoryNotFound
  | FdContractNotInitialized
  | FdCallerNotAdmin
  | FdShareOutOfRange
  | FdMaxRateExceedsHardCap
  | FdTransferAmountMustBePositive
  | FdReentrantCallBlocked

definition fd_fresh :: "'w \<Rightarrow> 'w fd_state" where
  "fd_fresh w =
     \<lparr>fd_admin = None, fd_token = None, fd_paused = None, fee_rate_bps = None, max_fee_rate_bps = None,
      fd_total_collected = None, fd_total_allocated = None, fd_total_shares_bps = None,
      fd_category_ids = None, fd_category = (\<lambda>_. None), fd_exempt = (\<lambda>_. None),
      fd_distribution_counter = None, fd_distribution = (\<lambda>_. None), fd_reentrancy_lock = None,
      fd_tokens = w\<rparr>"

section \<open>Internal helpers\<close>

definition fd_get_category_ids :: "'w fd_state \<Rightarrow> symbol list" where
  "fd_get_category_ids s = unwrap_or [] (fd_category_ids s)"

definition fd_get_total_shares :: "'w fd_state \<Rightarrow> u32" where
  "fd_get_total_shares s = unwrap_or 0 (fd_total_shares_bps s)"

definition fd_get_total_collected :: "'w fd_state \<Rightarrow> i128" where
  "fd_get_total_collected s = unwrap_or 0 (fd_total_collected s)"

definition fd_get_total_allocated :: "'w fd_state \<Rightarrow> i128" where
  "fd_get_total_allocated s = unwrap_or 0 (fd_total_allocated s)"

definition fd_fee_rate :: "'w fd_state \<Rightarrow> fd_error + u32" where
  "fd_fee_rate s = ok_or FdContractNotInitialized (fee_rate_bps s)"

definition fd_max_fee_rate :: "'w fd_state \<Rightarrow> fd_error + u32" where
  "fd_max_fee_rate s = ok_or FdContractNotInitialized (max_fee_rate_bps s)"

definition fd_is_paused :: "'w fd_state \<Rightarrow> bool" where
  "fd_is_paused s = unwrap_or False (fd_paused s)"

definition fd_get_token :: "'w fd_state \<Rightarrow> fd_error + address" where
  "fd_get_token s = ok_or FdContractNotInitialized (fd_token s)"

definition fd_get_admin :: "'w fd_state \<Rightarrow> fd_error + address" where
  "fd_get_admin s = ok_or FdContractNotInitialized (fd_admin s)"

definition fd_assert_admin :: "address \<Rightarrow> 'w fd_state \<Rightarrow> fd_error + unit" where
  "fd_assert_admin caller s =
     and_then (fd_get_admin s) (\<lambda>admin. panic_if (caller \<noteq> admin) FdCallerNotAdmin)"

definition fd_validate_share :: "u32 \<Rightarrow> fd_error + unit" where
  "fd_validate_share share = panic_if (share = 0 \<or> share > nat FD_BPS_DENOMINATOR) FdShareOutOfRange"

definition fd_validate_max_rate :: "u32 \<Rightarrow> fd_error + unit" where
  "fd_validate_max_rate rate = panic_if (rate = 0 \<or> rate > HARD_CAP_FEE_RATE_BPS) FdMaxRateExceedsHardCap"

definition fd_load_category :: "symbol \<Rightarrow> 'w fd_state \<Rightarrow> fd_error + recipient_category" where
  "fd_load_category i s = ok_or FdCategoryNotFound (fd_category s i)"

definition fd_get_distribution_counter :: "'w fd_state \<Rightarrow> u64" where
  "fd_get_distribution_counter s = unwrap_or 0 (fd_distribution_counter s)"

definition fd_next_distribution_id :: "'w fd_state \<Rightarrow> fd_error + u64 \<times> 'w fd_state" where
  "fd_next_distribution_id s =
     and_then (ok_or FdDistributionIdOverflow (checked_add_u64 (unwrap_or 0 (fd_distribution_counter s)) 1)) (\<lambda>next_id.
     Inr (next_id, s\<lparr>fd_distribution_counter := Some next_id\<rparr>))"

definition fd_enter_non_reentrant :: "'w fd_state \<Rightarrow> fd_error + 'w fd_state" where
  "fd_enter_non_reentrant s =
     (if unwrap_or False (fd_reentrancy_lock s) then Inl FdReentrantCallBlocked
      else Inr (s\<lparr>fd_reentrancy_lock := Some True\<rparr>))"

definition fd_exit_non_reentrant :: "'w fd_state \<Rightarrow> 'w fd_state" where
  "fd_exit_non_reentrant s = s\<lparr>fd_reentrancy_lock := Some False\<rparr>"

definition fd_transfer_token ::
  "'w token_transfer \<Rightarrow> env \<Rightarrow> address \<Rightarrow> address \<Rightarrow> address \<Rightarrow> i128 \<Rightarrow> 'w fd_state \<Rightarrow>
   fd_error + 'w fd_state" where
  "fd_transfer_token tr e token src dst amount s =
     and_then (fd_enter_non_reentrant s) (\<lambda>s.
     and_then (panic_if (amount \<le> 0) FdTransferAmountMustBePositive) (\<lambda>_.
     and_then (call_token tr FdToken e token src dst amount (fd_tokens s)) (\<lambda>w.
     Inr (fd_exit_non_reentrant (s\<lparr>fd_tokens := w\<rparr>)))))"

definition fd_is_exempt :: "address \<Rightarrow> 'w fd_state \<Rightarrow> bool" where
  "fd_is_exempt account s = unwrap_or False (fd_exempt s account)"

section \<open>Administration\<close>

definition fd_initialize :: "env \<Rightarrow> address \<Rightarrow> address \<Rightarrow> u32 \<Rightarrow> u32 \<Rightarrow> 'w fd_state \<Rightarrow> fd_error + unit \<times> 'w fd_state" where
  "fd_initialize e admin token rate max_rate s =
     and_then (panic_if (fd_admin s \<noteq> None) FdAlreadyInitialized) (\<lambda>_.
     and_then (require_auth FdAuth e admin) (\<lambda>_.
     and_then (fd_validate_max_rate max_rate) (\<lambda>_.
     and_then (panic_if (rate > max_rate) FdFeeRateExceedsMax) (\<lambda>_.
     Inr ((), s\<lparr>fd_admin := Some admin, fd_token := Some token, fd_paused := Some False,
                fee_rate_bps := Some rate, max_fee_rate_bps := Some max_rate,
                fd_total_collected := Some 0, fd_total_allocated := Some 0,
                fd_total_shares_bps := Some 0, fd_category_ids := Some [],
                fd_distribution_counter := Some 0, fd_reentrancy_lock := Some False\<rparr>)))))"

definition fd_pause :: "env \<Rightarrow> address \<Rightarrow> 'w fd_state \<Rightarrow> fd_error + unit \<times> 'w fd_state" where
  "fd_pause e admin s =
     and_then (require_auth FdAuth e admin) (\<lambda>_.
     and_then (fd_assert_admin admin s) (\<lambda>_.
     and_then (panic_if (fd_is_paused s) FdAlreadyPaused) (\<lambda>_.
     Inr ((), s\<lparr>fd_paused := Some True\<rparr>))))"

definition fd_unpause :: "env \<Rightarrow> address \<Rightarrow> 'w fd_state \<Rightarrow> fd_error + unit \<times> 'w fd_state" where
  "fd_unpause e admin s =
     and_then (require_auth FdAuth e admin) (\<lambda>_.
     and_then (fd_assert_admin admin s) (\<lambda>_.
     and_then (panic_if (\<not> fd_is_paused s) FdNotPaused) (\<lambda>_.
     Inr ((), s\<lparr>fd_paused := Some False\<rparr>))))"

definition fd_set_fee_rate :: "env \<Rightarrow> address \<Rightarrow> u32 \<Rightarrow> 'w fd_state \<Rightarrow> fd_error + unit \<times> 'w fd_state" where
  "fd_set_fee_rate e admin rate s =
     and_then (require_auth FdAuth e admin) (\<lambda>_.
     and_then (fd_assert_admin admin s) (\<lambda>_.
     and_then (fd_max_fee_rate s) (\<lambda>max_rate.
     and_then (panic_if (rate > max_rate) FdFeeRateExceedsMax) (\<lambda>_.
     and_then (fd_fee_rate s) (\<lambda>current.
     let delta = (if rate \<ge> current then rate - current else current - rate) in
     and_then (panic_if (delta > MAX_FEE_RATE_STEP_BPS) FdRateChangeExceedsMaxStep) (\<lambda>_.
     Inr ((), s\<lparr>fee_rate_bps := Some rate\<rparr>)))))))"

definition fd_emergency_set_fee_rate :: "env \<Rightarrow> address \<Rightarrow> u32 \<Rightarrow> 'w fd_state \<Rightarrow> fd_error + unit \<times> 'w fd_state" where
  "fd_emergency_set_fee_rate e admin rate s =
     and_then (require_auth FdAuth e admin) (\<lambda>_.
     and_then (fd_assert_admin admin s) (\<lambda>_.
     and_then (fd_max_fee_rate s) (\<lambda>max_rate.
     and_then (panic_if (rate > max_rate) FdFeeRateExceedsMax) (\<lambda>_.
     Inr ((), s\<lparr>fee_rate_bps := Some rate\<rparr>)))))"

definition fd_set_max_fee_rate :: "env \<Rightarrow> address \<Rightarrow> u32 \<Rightarrow> 'w fd_state \<Rightarrow> fd_error + unit \<times> 'w fd_state" where
  "fd_set_max_fee_rate e admin max_rate s =
     and_then (require_auth FdAuth e admin) (\<lambda>_.
     and_then (fd_assert_admin admin s) (\<lambda>_.
     and_then (fd_validate_max_rate max_rate) (\<lambda>_.
     let s = s\<lparr>max_fee_rate_bps := Some max_rate\<rparr> in
     and_then (fd_fee_rate s) (\<lambda>rate.
     Inr ((), if rate > max_rate then s\<lparr>fee_rate_bps := Some max_rate\<rparr> else s)))))"

definition fd_add_category :: "env \<Rightarrow> address \<Rightarrow> symbol \<Rightarrow> address \<Rightarrow> u32 \<Rightarrow> 'w fd_state \<Rightarrow> fd_error + unit \<times> 'w fd_state" where
  "fd_add_category e admin i recipient share s =
     and_then (require_auth FdAuth e admin) (\<lambda>_.
     and_then (fd_assert_admin admin s) (\<lambda>_.
     and_then (panic_if (fd_category s i \<noteq> None) FdCategoryAlreadyExists) (\<lambda>_.
     and_then (fd_validate_share share) (\<lambda>_.
     let ids = fd_get_category_ids s in
     and_then (panic_if (length ids \<ge> MAX_CATEGORIES) FdMaximumCategoriesReached) (\<lambda>_.
     and_then (ok_or FdShareTotalOverflow (checked_add_u32 (fd_get_total_shares s) share)) (\<lambda>new_total.
     and_then (panic_if (new_total > nat FD_BPS_DENOMINATOR) FdTotalSharesExceedHundredPercent) (\<lambda>_.
     Inr ((), s\<lparr>fd_category := (fd_category s)(i \<mapsto>
                  \<lparr>cat_id = i, cat_recipient = recipient, share_bps = share,
                   cat_total_allocated = 0, cat_total_claimed = 0, cat_active = True\<rparr>),
                fd_category_ids := Some (ids @ [i]),
                fd_total_shares_bps := Some new_total\<rparr>))))))))"

definition fd_update_category ::
  "env \<Rightarrow> address \<Rightarrow> symbol \<Rightarrow> address option \<Rightarrow> u32 option \<Rightarrow> 'w fd_state \<Rightarrow>
   fd_error + recipient_category \<times> 'w fd_state" where
  "fd_update_category e admin i new_recipient new_share s =
     and_then (require_auth FdAuth e admin) (\<lambda>_.
     and_then (fd_assert_admin admin s) (\<lambda>_.
     and_then (fd_load_category i s) (\<lambda>c.
     and_then (panic_if (\<not> cat_active c) FdCategoryNotActive) (\<lambda>_.
     and_then (case new_share of
         None \<Rightarrow> Inr (c, s)
       | Some share \<Rightarrow>
           and_then (fd_validate_share share) (\<lambda>_.
           and_then (ok_or FdShareTotalUnderflow (checked_sub_u (fd_get_total_shares s) (share_bps c))) (\<lambda>remaining.
           and_then (ok_or FdShareTotalOverflow (checked_add_u32 remaining share)) (\<lambda>new_total.
           and_then (panic_if (new_total > nat FD_BPS_DENOMINATOR) FdTotalSharesExceedHundredPercent) (\<lambda>_.
           Inr (c\<lparr>share_bps := share\<rparr>, s\<lparr>fd_total_shares_bps := Some new_total\<rparr>)))))) (\<lambda>(c, s).
     let c = (case new_recipient of None \<Rightarrow> c | Some r \<Rightarrow> c\<lparr>cat_recipient := r\<rparr>) in
     Inr (c, s\<lparr>fd_category := (fd_category s)(i \<mapsto> c)\<rparr>))))))"

definition fd_remove_category :: "env \<Rightarrow> address \<Rightarrow> symbol \<Rightarrow> 'w fd_state \<Rightarrow> fd_error + unit \<times> 'w fd_state" where
  "fd_remove_category e admin i s =
     and_then (require_auth FdAuth e admin) (\<lambda>_.
     and_then (fd_assert_admin admin s) (\<lambda>_.
     and_then (fd_load_category i s) (\<lambda>c.
     and_then (panic_if (\<not> cat_active c) FdCategoryAlreadyInactive) (\<lambda>_.
     and_then (ok_or FdShareTotalUnderflow (checked_sub_u (fd_get_total_shares s) (share_bps c))) (\<lambda>new_total.
     Inr ((), s\<lparr>fd_total_shares_bps := Some new_total,
                fd_category := (fd_category s)(i \<mapsto> c\<lparr>cat_active := False, share_bps := 0\<rparr>)\<rparr>))))))"

definition fd_reactivate_category :: "env \<Rightarrow> address \<Rightarrow> symbol \<Rightarrow> u32 \<Rightarrow> 'w fd_state \<Rightarrow> fd_error + unit \<times> 'w fd_state" where
  "fd_reactivate_category e admin i share s =
     and_then (require_auth FdAuth e admin) (\<lambda>_.
     and_then (fd_assert_admin admin s) (\<lambda>_.
     and_then (fd_load_category i s) (\<lambda>c.
     and_then (panic_if (cat_active c) FdCategoryAlreadyActive) (\<lambda>_.
     and_then (fd_validate_share share) (\<lambda>_.
     and_then (ok_or FdShareTotalOverflow (checked_add_u32 (fd_get_total_shares s) share)) (\<lambda>new_total.
     and_then (panic_if (new_total > nat FD_BPS_DENOMINATOR) FdTotalSharesExceedHundredPercent) (\<lambda>_.
     Inr ((), s\<lparr>fd_total_shares_bps := Some new_total,
                fd_category := (fd_category s)(i \<mapsto> c\<lparr>cat_active := True, share_bps := share\<rparr>)\<rparr>))))))))"

definition fd_set_exempt :: "env \<Rightarrow> address \<Rightarrow> address \<Rightarrow> bool \<Rightarrow> 'w fd_state \<Rightarrow> fd_error + unit \<times> 'w fd_state" where
  "fd_set_exempt e admin account exempt s =
     and_then (require_auth FdAuth e admin) (\<lambda>_.
     and_then (fd_assert_admin admin s) (\<lambda>_.
     Inr ((), s\<lparr>fd_exempt := (fd_exempt s)(account \<mapsto> exempt)\<rparr>)))"

section \<open>Collection and distribution\<close>

definition fd_calculate_fee :: "i128 \<Rightarrow> 'w fd_state \<Rightarrow> fd_error + i128" where
  "fd_calculate_fee amount s =
     and_then (panic_if (amount \<le> 0) FdAmountMustBePositive) (\<lambda>_.
     and_then (fd_fee_rate s) (\<lambda>rate.
     and_then (ok_or FdFeeMultiplicationOverflow (checked_mul_i128 amount (int rate))) (\<lambda>product.
     Inr (div_i128 product FD_BPS_DENOMINATOR))))"

definition fd_collect_fee ::
  "'w token_transfer \<Rightarrow> env \<Rightarrow> address \<Rightarrow> i128 \<Rightarrow> 'w fd_state \<Rightarrow> fd_error + i128 \<times> 'w fd_state" where
  "fd_collect_fee tr e payer gross s =
     and_then (require_auth FdAuth e payer) (\<lambda>_.
     and_then (panic_if (fd_is_paused s) FdCollectionPaused) (\<lambda>_.
     and_then (panic_if (gross \<le> 0) FdAmountMustBePositive) (\<lambda>_.
     if fd_is_exempt payer s then Inr (0, s)
     else
       and_then (fd_calculate_fee gross s) (\<lambda>fee.
       if fee \<le> 0 then Inr (0, s)
       else
         and_then (fd_get_token s) (\<lambda>token.
         and_then (fd_transfer_token tr e token payer (env_self e) fee s) (\<lambda>s.
         and_then (ok_or FdTotalCollectedOverflow (checked_add_i128 (fd_get_total_collected s) fee)) (\<lambda>total_coll.
         Inr (fee, s\<lparr>fd_total_collected := Some total_coll\<rparr>))))))))"

text \<open>
  The two loops of \<open>distribute\<close> over the category ids. The counters \<open>active_count\<close> and
  \<open>processed\<close> are bounded by the length of a \<open>Vec\<close>, a \<open>u32\<close>.
\<close>

fun fd_count_active :: "symbol list \<Rightarrow> u32 \<Rightarrow> 'w fd_state \<Rightarrow> fd_error + u32" where
  "fd_count_active [] active_count s = Inr active_count"
| "fd_count_active (i # ids) active_count s =
     and_then (fd_load_category i s) (\<lambda>c.
     fd_count_active ids (if cat_active c \<and> share_bps c > 0 then active_count + 1 else active_count) s)"

fun fd_allocate_all ::
  "i128 \<Rightarrow> u32 \<Rightarrow> symbol list \<Rightarrow> u32 \<Rightarrow> i128 \<Rightarrow> 'w fd_state \<Rightarrow>
   fd_error + category_allocation list \<times> 'w fd_state" where
  "fd_allocate_all pending active_count [] processed allocated_sum s = Inr ([], s)"
| "fd_allocate_all pending active_count (i # ids) processed allocated_sum s =
     and_then (fd_load_category i s) (\<lambda>c.
     if \<not> cat_active c \<or> share_bps c = 0
     then fd_allocate_all pending active_count ids processed allocated_sum s
     else
       let processed = processed + 1 in
       and_then (ok_or FdAllocationMultiplicationOverflow
                   (checked_mul_i128 pending (int (share_bps c)))) (\<lambda>product.
       let amount = div_i128 product FD_BPS_DENOMINATOR in
       and_then (if processed = active_count
                 then
                   and_then (ok_or FdRemainderUnderflow (checked_sub_i128 pending allocated_sum)) (\<lambda>rest.
                   and_then (ok_or FdRemainderUnderflow (checked_sub_i128 rest amount)) (\<lambda>remainder.
                   ok_or FdRemainderOverflow (checked_add_i128 amount remainder)))
                 else Inr amount) (\<lambda>amount.
       and_then (ok_or FdCategoryAllocationOverflow
                   (checked_add_i128 (cat_total_allocated c) amount)) (\<lambda>allocated.
       let s = s\<lparr>fd_category := (fd_category s)(i \<mapsto> c\<lparr>cat_total_allocated := allocated\<rparr>)\<rparr> in
       and_then (ok_or FdAllocatedSumOverflow (checked_add_i128 allocated_sum amount)) (\<lambda>allocated_sum.
       and_then (fd_allocate_all pending active_count ids processed allocated_sum s) (\<lambda>(allocs, s).
       Inr (\<lparr>ca_category_id = i, ca_amount = amount\<rparr> # allocs, s)))))))"

definition fd_distribute :: "env \<Rightarrow> 'w fd_state \<Rightarrow> fd_error + distribution_record \<times> 'w fd_state" where
  "fd_distribute e s =
     and_then (panic_if (fd_get_total_shares s \<noteq> nat FD_BPS_DENOMINATOR) FdSharesNotFullyConfigured) (\<lambda>_.
     let total_coll = fd_get_total_collected s;
         total_alloc = fd_get_total_allocated s in
     and_then (ok_or FdPendingUnderflow (checked_sub_i128 total_coll total_alloc)) (\<lambda>pending.
     and_then (panic_if (pending \<le> 0) FdNoPendingFees) (\<lambda>_.
     let ids = fd_get_category_ids s in
     and_then (fd_count_active ids 0 s) (\<lambda>active_count.
     and_then (panic_if (active_count = 0) FdNoActiveCategories) (\<lambda>_.
     and_then (fd_allocate_all pending active_count ids 0 0 s) (\<lambda>(allocs, s).
     and_then (ok_or FdTotalAllocatedOverflow (checked_add_i128 total_alloc pending)) (\<lambda>new_total.
     let s = s\<lparr>fd_total_allocated := Some new_total\<rparr> in
     and_then (fd_next_distribution_id s) (\<lambda>(i, s).
     let r = \<lparr>distribution_id = i, dr_total_amount = pending, category_count = active_count,
              dr_timestamp = env_timestamp e, dr_allocations = allocs\<rparr> in
     Inr (r, s\<lparr>fd_distribution := (fd_distribution s)(i \<mapsto> r)\<rparr>)))))))))"

section \<open>Claims\<close>

definition fd_claim_one ::
  "'w token_transfer \<Rightarrow> env \<Rightarrow> symbol \<Rightarrow> address \<Rightarrow> bool \<Rightarrow> 'w fd_state \<Rightarrow> fd_error + i128 \<times> 'w fd_state" where
  "fd_claim_one tr e i recipient require_positive s =
     and_then (fd_load_category i s) (\<lambda>c.
     if cat_recipient c \<noteq> recipient
     then (if require_positive then Inl FdOnlyRecipientCanClaim else Inr (0, s))
     else
       and_then (ok_or FdClaimableUnderflow (checked_sub_i128 (cat_total_allocated c) (cat_total_claimed c))) (\<lambda>claimable.
       if claimable \<le> 0
       then (if require_positive then Inl FdNothingToClaim else Inr (0, s))
       else
         and_then (ok_or FdClaimedOverflow (checked_add_i128 (cat_total_claimed c) claimable)) (\<lambda>claimed.
         let s = s\<lparr>fd_category := (fd_category s)(i \<mapsto> c\<lparr>cat_total_claimed := claimed\<rparr>)\<rparr> in
         and_then (fd_get_token s) (\<lambda>token.
         and_then (fd_transfer_token tr e token (env_self e) recipient claimable s) (\<lambda>s.
         Inr (claimable, s))))))"

definition fd_claim ::
  "'w token_transfer \<Rightarrow> env \<Rightarrow> symbol \<Rightarrow> address \<Rightarrow> 'w fd_state \<Rightarrow> fd_error + i128 \<times> 'w fd_state" where
  "fd_claim tr e i recipient s =
     and_then (require_auth FdAuth e recipient) (\<lambda>_.
     and_then (fd_claim_one tr e i recipient True s) (\<lambda>(paid, s).
     and_then (panic_if (paid \<le> 0) FdNothingToClaim) (\<lambda>_.
     Inr (paid, s))))"

fun fd_claim_all ::
  "'w token_transfer \<Rightarrow> env \<Rightarrow> address \<Rightarrow> i128 \<Rightarrow> symbol list \<Rightarrow> 'w fd_state \<Rightarrow> fd_error + i128 \<times> 'w fd_state" where
  "fd_claim_all tr e recipient total_paid [] s = Inr (total_paid, s)"
| "fd_claim_all tr e recipient total_paid (i # ids) s =
     and_then (fd_claim_one tr e i recipient False s) (\<lambda>(paid, s).
     and_then (ok_or FdClaimTotalOverflow (checked_add_i128 total_paid paid)) (\<lambda>total_paid.
     fd_claim_all tr e recipient total_paid ids s))"

definition fd_claim_batch ::
  "'w token_transfer \<Rightarrow> env \<Rightarrow> symbol list \<Rightarrow> address \<Rightarrow> 'w fd_state \<Rightarrow> fd_error + i128 \<times> 'w fd_state" where
  "fd_claim_batch tr e ids recipient s =
     and_then (require_auth FdAuth e recipient) (\<lambda>_.
     and_then (panic_if (ids = []) FdNoCategoriesProvided) (\<lambda>_.
     and_then (panic_if (length ids > FD_MAX_BATCH_SIZE) FdBatchExceedsMaximumSize) (\<lambda>_.
     and_then (fd_claim_all tr e recipient 0 ids s) (\<lambda>(total_paid, s).
     and_then (panic_if (total_paid \<le> 0) FdNothingToClaim) (\<lambda>_.
     Inr (total_paid, s))))))"

section \<open>Views\<close>

definition fd_get_claimable :: "symbol \<Rightarrow> 'w fd_state \<Rightarrow> fd_error + i128" where
  "fd_get_claimable i s =
     and_then (fd_load_category i s) (\<lambda>c.
     ok_or FdClaimableUnderflow (checked_sub_i128 (cat_total_allocated c) (cat_total_claimed c)))"

fun fd_sum_claimed :: "symbol list \<Rightarrow> i128 \<Rightarrow> 'w fd_state \<Rightarrow> fd_error + i128" where
  "fd_sum_claimed [] total_amt s = Inr total_amt"
| "fd_sum_claimed (i # ids) total_amt s =
     and_then (fd_load_category i s) (\<lambda>c.
     and_then (ok_or FdTotalClaimedOverflow (checked_add_i128 total_amt (cat_total_claimed c))) (\<lambda>total_amt.
     fd_sum_claimed ids total_amt s))"

definition fd_get_total_claimed :: "'w fd_state \<Rightarrow> fd_error + i128" where
  "fd_get_total_claimed s = fd_sum_claimed (fd_get_category_ids s) 0 s"

definition fd_get_pending_distribution :: "'w fd_state \<Rightarrow> fd_error + i128" where
  "fd_get_pending_distribution s =
     ok_or FdPendingUnderflow (checked_sub_i128 (fd_get_total_collected s) (fd_get_total_allocated s))"

definition fd_get_distribution :: "u64 \<Rightarrow> 'w fd_state \<Rightarrow> fd_error + distribution_record" where
  "fd_get_distribution i s = ok_or FdDistributionNotFound (fd_distribution s i)"

text \<open>The \<open>while\<close> loop of the history view: \<open>n\<close> is the number of records still wanted.\<close>

fun fd_fetch_back :: "u64 \<Rightarrow> nat \<Rightarrow> 'w fd_state \<Rightarrow> fd_error + distribution_record list" where
  "fd_fetch_back i 0 s = Inr []"
| "fd_fetch_back i (Suc n) s =
     (if i \<ge> 1
      then and_then (fd_get_distribution i s) (\<lambda>r.
           and_then (fd_fetch_back (i - 1) n s) (\<lambda>rs. Inr (r # rs)))
      else Inr [])"

definition fd_get_distribution_history :: "u32 \<Rightarrow> u32 \<Rightarrow> 'w fd_state \<Rightarrow> fd_error + distribution_record list" where
  "fd_get_distribution_history offset limit s =
     (let bounded_limit = (if limit > FD_MAX_HISTORY_LIMIT then FD_MAX_HISTORY_LIMIT else limit);
          counter = fd_get_distribution_counter s in
      if bounded_limit = 0 \<or> counter \<le> offset then Inr []
      else fd_fetch_back (counter - offset) bounded_limit s)"

text \<open>The state-changing entry points as calls of the transition system.\<close>

datatype fd_call =
    FdInitialize address address u32 u32
  | FdPause address
  | FdUnpause address
  | FdSetFeeRate address u32
  | FdEmergencySetFeeRate address u32
  | FdSetMaxFeeRate address u32
  | FdAddCategory address symbol address u32
  | FdUpdateCategory address symbol "address option" "u32 option"
  | FdRemoveCategory address symbol
  | FdReactivateCategory address symbol u32
  | FdSetExempt address address bool
  | FdCollectFee address i128
  | FdDistribute
  | FdClaim symbol address
  | FdClaimBatch "symbol list" address

fun fd_exec :: "'w token_transfer \<Rightarrow> env \<Rightarrow> fd_call \<Rightarrow> 'w fd_state \<Rightarrow> 'w fd_state option" where
  "fd_exec tr e (FdInitialize a t r m) s = state_of (fd_initialize e a t r m s)"
| "fd_exec tr e (FdPause a) s = state_of (fd_pause e a s)"
| "fd_exec tr e (FdUnpause a) s = state_of (fd_unpause e a s)"
| "fd_exec tr e (FdSetFeeRate a r) s = state_of (fd_set_fee_rate e a r s)"
| "fd_exec tr e (FdEmergencySetFeeRate a r) s = state_of (fd_emergency_set_fee_rate e a r s)"
| "fd_exec tr e (FdSetMaxFeeRate a r) s = state_of (fd_set_max_fee_rate e a r s)"
| "fd_exec tr e (FdAddCategory a i r sh) s = state_of (fd_add_category e a i r sh s)"
| "fd_exec tr e (FdUpdateCategory a i r sh) s = state_of (fd_update_category e a i r sh s)"
| "fd_exec tr e (FdRemoveCategory a i) s = state_of (fd_remove_category e a i s)"
| "fd_exec tr e (FdReactivateCategory a i sh) s = state_of (fd_reactivate_category e a i sh s)"
| "fd_exec tr e (FdSetExempt a b x) s = state_of (fd_set_exempt e a b x s)"
| "fd_exec tr e (FdCollectFee p n) s = state_of (fd_collect_fee tr e p n s)"
| "fd_exec tr e FdDistribute s = state_of (fd_distribute e s)"
| "fd_exec tr e (FdClaim i r) s = state_of (fd_claim tr e i r s)"
| "fd_exec tr e (FdClaimBatch is r) s = state_of (fd_claim_batch tr e is r s)"

section \<open>The allocation loop\<close>

text \<open>The categories that share in a distribution, in the order of the list.\<close>

definition fd_sharing :: "recipient_category \<Rightarrow> bool" where
  "fd_sharing c \<longleftrightarrow> cat_active c \<and> 0 < share_bps c"

definition fd_sharing_ids :: "'w fd_state \<Rightarrow> symbol list \<Rightarrow> symbol list" where
  "fd_sharing_ids s ids = filter (\<lambda>i. \<exists>c. fd_category s i = Some c \<and> fd_sharing c) ids"

definition fd_share_of :: "'w fd_state \<Rightarrow> symbol \<Rightarrow> int" where
  "fd_share_of s i = (case fd_category s i of None \<Rightarrow> 0 | Some c \<Rightarrow> int (share_bps c))"

text \<open>
  The specification of the amounts: every category gets its share rounded down, the last one what
  is left.
\<close>

fun split_pending :: "int \<Rightarrow> int \<Rightarrow> int list \<Rightarrow> int list" where
  "split_pending pending done_sum [] = []"
| "split_pending pending done_sum [sh] = [pending - done_sum]"
| "split_pending pending done_sum (sh # shs) =
     pending * sh div 10000 # split_pending pending (done_sum + pending * sh div 10000) shs"

lemma split_pending_length [simp]: "length (split_pending p d shs) = length shs"
  by (induction p d shs rule: split_pending.induct) auto

lemma split_pending_sum: "shs \<noteq> [] \<Longrightarrow> d + sum_list (split_pending p d shs) = p"
  by (induction p d shs rule: split_pending.induct) (auto simp: algebra_simps)

text \<open>Rounding down never promises more than there is.\<close>

lemma floor_shares_le:
  fixes p :: int
  assumes "0 \<le> p" and "\<forall>sh\<in>set shs. 0 \<le> sh"
  shows "10000 * sum_list (map (\<lambda>sh. p * sh div 10000) shs) \<le> p * sum_list shs"
  using assms
proof (induction shs)
  case (Cons sh shs)
  have "10000 * (p * sh div 10000) \<le> p * sh" by linarith
  moreover have "10000 * sum_list (map (\<lambda>sh. p * sh div 10000) shs) \<le> p * sum_list shs"
    using Cons by simp
  ultimately show ?case by (simp add: algebra_simps)
qed simp

lemma split_pending_ge:
  assumes "0 \<le> p" and "\<forall>sh\<in>set shs. 0 \<le> sh" and "10000 * d + p * sum_list shs \<le> 10000 * p"
  shows "\<forall>k < length shs. p * (shs ! k) div 10000 \<le> split_pending p d shs ! k \<and> 0 \<le> split_pending p d shs ! k"
  using assms
proof (induction p d shs rule: split_pending.induct)
  case (2 p d sh)
  have "10000 * (p * sh div 10000) \<le> p * sh" by linarith
  moreover have "0 \<le> p * sh div 10000" using 2 by (simp add: pos_imp_zdiv_nonneg_iff)
  ultimately show ?case using 2 by auto
next
  case (3 p d sh1 sh2 shs)
  have "10000 * (p * sh1 div 10000) \<le> p * sh1" by linarith
  then have "\<forall>k < length (sh2 # shs). p * ((sh2 # shs) ! k) div 10000 \<le> split_pending p (d + p * sh1 div 10000) (sh2 # shs) ! k \<and>
      0 \<le> split_pending p (d + p * sh1 div 10000) (sh2 # shs) ! k"
    using 3 by (intro 3(1)) (auto simp: algebra_simps)
  moreover have "0 \<le> p * sh1 div 10000" using 3 by (simp add: pos_imp_zdiv_nonneg_iff)
  ultimately show ?case by (auto simp: nth_Cons split: nat.splits)
qed simp

lemma split_pending_floor:
  "Suc k < length shs \<Longrightarrow> split_pending p d shs ! k = p * (shs ! k) div 10000"
  by (induction p d shs arbitrary: k rule: split_pending.induct) (auto simp: nth_Cons split: nat.splits)

lemma fd_count_active_total:
  "set ids \<subseteq> dom (fd_category s) \<Longrightarrow> fd_count_active ids n s = Inr (n + length (fd_sharing_ids s ids))"
  by (induction ids arbitrary: n) (auto simp: fd_sharing_ids_def fd_sharing_def fd_load_category_def)

lemma fd_count_active_dom: "fd_count_active ids n s = Inr m \<Longrightarrow> set ids \<subseteq> dom (fd_category s)"
proof (induction ids arbitrary: n)
  case (Cons i ids)
  then obtain c n' where "fd_category s i = Some c" "fd_count_active ids n' s = Inr m"
    by (auto simp: fd_load_category_def result_iffs)
  with Cons.IH show ?case by auto
qed simp

lemma fd_count_active_Inr:
  "fd_count_active ids n s = Inr m \<Longrightarrow> m = n + length (fd_sharing_ids s ids)"
  using fd_count_active_total [OF fd_count_active_dom, of ids n s m n] by simp

text \<open>What the loop over the remaining ids returns and stores.\<close>

definition fd_credit :: "(symbol \<Rightarrow> recipient_category option) \<Rightarrow> category_allocation \<Rightarrow> symbol \<Rightarrow> recipient_category option" where
  "fd_credit m a = (case m (ca_category_id a) of
     None \<Rightarrow> m
   | Some c \<Rightarrow> m(ca_category_id a \<mapsto> c\<lparr>cat_total_allocated := cat_total_allocated c + ca_amount a\<rparr>))"

lemma fd_allocate_all_Inr:
  assumes "fd_allocate_all p n ids k d s = Inr (allocs, s')" and "distinct ids" and "0 \<le> p"
    and "n = k + length (fd_sharing_ids s ids)"
  shows "map ca_category_id allocs = fd_sharing_ids s ids \<and>
    map ca_amount allocs = split_pending p d (map (fd_share_of s) (fd_sharing_ids s ids)) \<and>
    s' = s\<lparr>fd_category := foldl fd_credit (fd_category s) allocs\<rparr>"
  using assms
proof (induction ids arbitrary: k d s allocs)
  case Nil
  then show ?case by (simp add: fd_sharing_ids_def)
next
  case (Cons i ids)
  from Cons.prems(1) obtain c where c: "fd_category s i = Some c"
    by (auto simp: result_iffs fd_load_category_def)
  show ?case
  proof (cases "fd_sharing c")
    case False
    with Cons.prems(1) c have run: "fd_allocate_all p n ids k d s = Inr (allocs, s')"
      by (auto simp: result_iffs fd_load_category_def fd_sharing_def split: if_splits)
    have "fd_sharing_ids s (i # ids) = fd_sharing_ids s ids" using False c by (simp add: fd_sharing_ids_def)
    with Cons.IH [OF run] Cons.prems show ?thesis by simp
  next
    case True
    have ids: "fd_sharing_ids s (i # ids) = i # fd_sharing_ids s ids" using True c by (simp add: fd_sharing_ids_def)
    define a where "a = (if k + 1 = n then p - d else p * int (share_bps c) div 10000)"
    define s1 where "s1 = s\<lparr>fd_category := (fd_category s)(i \<mapsto> c\<lparr>cat_total_allocated := cat_total_allocated c + a\<rparr>)\<rparr>"
    have quot: "div_i128 (p * int (share_bps c)) FD_BPS_DENOMINATOR = p * int (share_bps c) div 10000"
      using Cons.prems(3) by (simp add: div_i128_nonneg FD_BPS_DENOMINATOR_def)
    from Cons.prems(1) True c obtain allocs' where
      run: "fd_allocate_all p n ids (k + 1) (d + a) s1 = Inr (allocs', s')"
      and allocs: "allocs = \<lparr>ca_category_id = i, ca_amount = a\<rparr> # allocs'"
      by (auto simp: result_iffs fd_load_category_def fd_sharing_def Let_def quot a_def s1_def split: if_splits)
    have later: "fd_category s1 j = fd_category s j" if "j \<in> set ids" for j
      using that Cons.prems(2) by (auto simp: s1_def)
    have same: "fd_sharing_ids s1 ids = fd_sharing_ids s ids"
      unfolding fd_sharing_ids_def by (rule filter_cong) (simp_all add: later)
    have shares: "map (fd_share_of s1) (fd_sharing_ids s ids) = map (fd_share_of s) (fd_sharing_ids s ids)"
      by (auto simp: fd_share_of_def later fd_sharing_ids_def)
    have last: "fd_sharing_ids s ids = [] \<longleftrightarrow> k + 1 = n" using Cons.prems(4) ids by auto
    have IH: "map ca_category_id allocs' = fd_sharing_ids s ids \<and>
        map ca_amount allocs' = split_pending p (d + a) (map (fd_share_of s) (fd_sharing_ids s ids)) \<and>
        s' = s1\<lparr>fd_category := foldl fd_credit (fd_category s1) allocs'\<rparr>"
      using Cons.IH [OF run] Cons.prems ids by (simp add: same shares)
    have "a # split_pending p (d + a) (map (fd_share_of s) (fd_sharing_ids s ids)) =
        split_pending p d (map (fd_share_of s) (i # fd_sharing_ids s ids))"
      using last c by (cases "fd_sharing_ids s ids") (auto simp: a_def fd_share_of_def)
    moreover have "fd_credit (fd_category s) \<lparr>ca_category_id = i, ca_amount = a\<rparr> = fd_category s1"
      by (simp add: fd_credit_def c s1_def)
    ultimately show ?thesis using IH unfolding ids allocs by (simp add: s1_def)
  qed
qed

text \<open>What a list of allocations credits to one category, and to all of them.\<close>

definition fd_amount_for :: "symbol \<Rightarrow> category_allocation list \<Rightarrow> int" where
  "fd_amount_for i allocs = (\<Sum>a\<leftarrow>allocs. if ca_category_id a = i then ca_amount a else 0)"

lemma fd_credit_at:
  "fd_credit m a i = map_option (\<lambda>c. c\<lparr>cat_total_allocated := cat_total_allocated c
     + (if ca_category_id a = i then ca_amount a else 0)\<rparr>) (m i)"
  by (cases "m i") (auto simp: fd_credit_def split: option.splits)

lemma fd_credit_all_at:
  "foldl fd_credit m allocs i = map_option (\<lambda>c. c\<lparr>cat_total_allocated := cat_total_allocated c + fd_amount_for i allocs\<rparr>) (m i)"
proof (induction allocs arbitrary: m)
  case Nil
  then show ?case by (cases "m i") (auto simp: fd_amount_for_def)
next
  case (Cons a allocs)
  show ?case
    unfolding foldl.simps Cons.IH by (cases "m i") (auto simp: fd_credit_at fd_amount_for_def)
qed

lemma fd_credit_all_dom [simp]: "dom (foldl fd_credit m allocs) = dom m"
  by (auto simp: fd_credit_all_at dom_def)

lemma fd_amount_for_nonneg: "\<forall>a\<in>set allocs. 0 \<le> ca_amount a \<Longrightarrow> 0 \<le> fd_amount_for i allocs"
  by (auto simp: fd_amount_for_def intro!: sum_list_nonneg)

lemma entry_sum_credit_other:
  assumes "\<And>c x. f (c\<lparr>cat_total_allocated := x\<rparr>) = f c"
  shows "entry_sum f (foldl fd_credit m allocs) = entry_sum f m"
  unfolding entry_sum_def fd_credit_all_dom
  by (rule sum.cong) (auto simp: fd_credit_all_at assms)

lemma entry_sum_credit:
  assumes "finite (dom m)" and "ca_category_id ` set allocs \<subseteq> dom m"
  shows "entry_sum cat_total_allocated (foldl fd_credit m allocs) = entry_sum cat_total_allocated m + sum_list (map ca_amount allocs)"
  using assms
proof (induction allocs arbitrary: m)
  case (Cons a allocs)
  from Cons.prems obtain c where c: "m (ca_category_id a) = Some c" by auto
  have cr: "fd_credit m a = m(ca_category_id a \<mapsto> c\<lparr>cat_total_allocated := cat_total_allocated c + ca_amount a\<rparr>)"
    by (simp add: fd_credit_def c)
  have "entry_sum cat_total_allocated (fd_credit m a) = entry_sum cat_total_allocated m + ca_amount a"
    unfolding cr entry_sum_upd [OF Cons.prems(1)] by (simp add: c)
  moreover have "finite (dom (fd_credit m a))" "ca_category_id ` set allocs \<subseteq> dom (fd_credit m a)"
    using Cons.prems by (auto simp: cr)
  ultimately show ?case using Cons.IH by simp
qed simp

section \<open>The invariant\<close>

definition fd_category_ok :: "symbol \<Rightarrow> recipient_category \<Rightarrow> bool" where
  "fd_category_ok i c \<longleftrightarrow> cat_id c = i \<and> 0 \<le> cat_total_claimed c \<and> cat_total_claimed c \<le> cat_total_allocated c \<and>
     cat_active c = (0 < share_bps c)"

definition fd_books_ok :: "'w fd_state \<Rightarrow> bool" where
  "fd_books_ok s \<longleftrightarrow>
     distinct (fd_get_category_ids s) \<and> set (fd_get_category_ids s) = dom (fd_category s) \<and>
     length (fd_get_category_ids s) \<le> MAX_CATEGORIES \<and>
     (\<forall>i c. fd_category s i = Some c \<longrightarrow> fd_category_ok i c) \<and>
     entry_sum (\<lambda>c. int (share_bps c)) (fd_category s) = int (fd_get_total_shares s) \<and>
     fd_get_total_shares s \<le> 10000 \<and>
     entry_sum cat_total_allocated (fd_category s) = fd_get_total_allocated s \<and>
     fd_get_total_allocated s \<le> fd_get_total_collected s \<and> in_i128 (fd_get_total_collected s)"

definition fd_admin_ok :: "'w fd_state \<Rightarrow> bool" where
  "fd_admin_ok s \<longleftrightarrow> \<not> unwrap_or False (fd_reentrancy_lock s) \<and>
     (\<forall>i. fd_distribution s i \<noteq> None \<longleftrightarrow> 1 \<le> i \<and> i \<le> fd_get_distribution_counter s) \<and>
     (\<forall>i r. fd_distribution s i = Some r \<longrightarrow> distribution_id r = i) \<and>
     (case fd_admin s of
        None \<Rightarrow> fd_token s = None \<and> fee_rate_bps s = None \<and> max_fee_rate_bps s = None \<and>
                fd_category s = (\<lambda>_. None) \<and> fd_get_total_collected s = 0 \<and> fd_get_distribution_counter s = 0
      | Some a \<Rightarrow> fd_token s \<noteq> None \<and>
          (\<exists>r m. fee_rate_bps s = Some r \<and> max_fee_rate_bps s = Some m \<and> r \<le> m \<and> 0 < m \<and> m \<le> HARD_CAP_FEE_RATE_BPS))"

text \<open>What the contract owes: everything collected that nobody has claimed.\<close>

definition fd_claimed :: "'w fd_state \<Rightarrow> int" where
  "fd_claimed s = entry_sum cat_total_claimed (fd_category s)"

definition fd_owed :: "address \<Rightarrow> 'w fd_state \<Rightarrow> int" where
  "fd_owed tok s = (if fd_token s = Some tok then fd_get_total_collected s - fd_claimed s else 0)"

definition fd_inv :: "'w token_balance \<Rightarrow> address \<Rightarrow> 'w \<Rightarrow> u64 \<Rightarrow> 'w fd_state \<Rightarrow> bool" where
  "fd_inv bal self w t s \<longleftrightarrow> fd_books_ok s \<and> fd_admin_ok s \<and>
     (\<forall>tok. bal w tok self + fd_owed tok s \<le> bal (fd_tokens s) tok self)"

definition fd_adm :: "address \<Rightarrow> env \<Rightarrow> fd_call \<Rightarrow> bool" where
  "fd_adm self e c \<longleftrightarrow> env_self e = self \<and> \<not> env_auth e self"

definition fd_drift :: "'w token_balance \<Rightarrow> address \<Rightarrow> 'w fd_state \<Rightarrow> 'w fd_state \<Rightarrow> bool" where
  "fd_drift bal self s s' \<longleftrightarrow>
     (\<exists>w. s' = s\<lparr>fd_tokens := w\<rparr> \<and> (\<forall>tok. bal (fd_tokens s) tok self \<le> bal w tok self))"

lemmas fd_get_defs = fd_get_category_ids_def fd_get_total_shares_def fd_get_total_allocated_def
  fd_get_total_collected_def fd_get_distribution_counter_def fd_claimed_def

lemmas fd_helper_defs = fd_assert_admin_def fd_get_admin_def fd_get_token_def fd_fee_rate_def fd_max_fee_rate_def
  fd_validate_share_def fd_validate_max_rate_def fd_load_category_def fd_is_paused_def FD_BPS_DENOMINATOR_def

lemma fd_books_finite: "fd_books_ok s \<Longrightarrow> finite (dom (fd_category s))"
  by (metis fd_books_ok_def finite_set)

lemma fd_claimed_le_allocated:
  assumes "fd_books_ok s"
  shows "fd_claimed s \<le> fd_get_total_allocated s"
proof -
  have "entry_sum cat_total_claimed (fd_category s) \<le> entry_sum cat_total_allocated (fd_category s)"
    unfolding entry_sum_def using assms by (intro sum_mono) (auto simp: fd_books_ok_def fd_category_ok_def)
  with assms show ?thesis by (simp add: fd_claimed_def fd_books_ok_def)
qed

lemma fd_inv_fresh: "fd_inv bal self w t (fd_fresh w)"
  by (simp add: fd_inv_def fd_owed_def fd_books_ok_def fd_admin_ok_def fd_fresh_def fd_get_defs)

lemma fd_ok_tokens [simp]:
  "fd_books_ok (s\<lparr>fd_tokens := w\<rparr>) = fd_books_ok s" "fd_admin_ok (s\<lparr>fd_tokens := w\<rparr>) = fd_admin_ok s"
  by (simp_all add: fd_books_ok_def fd_admin_ok_def fd_get_defs split: option.splits)

lemma fd_owed_tokens [simp]: "fd_owed tok (s\<lparr>fd_tokens := w\<rparr>) = fd_owed tok s"
  by (simp add: fd_owed_def fd_get_defs)

lemma fd_inv_drift: "fd_inv bal self w t s \<Longrightarrow> fd_drift bal self s s' \<Longrightarrow> fd_inv bal self w t s'"
  by (auto simp: fd_drift_def fd_inv_def) (blast intro: order_trans)

text \<open>Calls that leave the books and the token holdings alone.\<close>

lemma fd_inv_admin_update:
  assumes "fd_inv bal self w t s" and "fd_admin_ok s'"
    and "fd_category_ids s' = fd_category_ids s" "fd_category s' = fd_category s" "fd_total_shares_bps s' = fd_total_shares_bps s"
    and "fd_total_allocated s' = fd_total_allocated s" "fd_total_collected s' = fd_total_collected s"
    and "fd_token s' = fd_token s" "fd_tokens s' = fd_tokens s"
  shows "fd_inv bal self w t s'"
proof -
  have "fd_owed tok s' = fd_owed tok s" for tok using assms by (simp add: fd_owed_def fd_get_defs)
  with assms show ?thesis by (simp add: fd_inv_def fd_books_ok_def fd_get_defs)
qed

lemma fd_inv_initialize:
  "fd_inv bal self w t s \<Longrightarrow> fd_initialize e a tok r m s = Inr ((), s') \<Longrightarrow> fd_inv bal self w t s'"
  by (auto simp: fd_initialize_def result_iffs fd_inv_def fd_owed_def fd_books_ok_def fd_admin_ok_def fd_get_defs fd_helper_defs)

text \<open>One category is rewritten: the share total follows, what was allocated stays.\<close>

lemma fd_books_category:
  assumes "fd_books_ok s" and "fd_category s i = Some c" and "fd_category s' = (fd_category s)(i \<mapsto> c')"
    and "fd_category_ok i c'" and "fd_category_ids s' = fd_category_ids s"
    and "int (fd_get_total_shares s') = int (fd_get_total_shares s) - int (share_bps c) + int (share_bps c')"
    and "fd_get_total_shares s' \<le> 10000" and "cat_total_allocated c' = cat_total_allocated c"
    and "fd_total_allocated s' = fd_total_allocated s" "fd_total_collected s' = fd_total_collected s"
  shows "fd_books_ok s' \<and> fd_claimed s' = fd_claimed s - cat_total_claimed c + cat_total_claimed c'"
proof -
  have fin: "finite (dom (fd_category s))" using assms(1) by (rule fd_books_finite)
  have books: "dom (fd_category s') = dom (fd_category s)" "\<forall>j d. fd_category s' j = Some d \<longrightarrow> fd_category_ok j d"
    using assms(1-4) by (auto simp: fd_books_ok_def)
  have sums: "entry_sum f (fd_category s') = entry_sum f (fd_category s) - f c + f c'" for f :: "recipient_category \<Rightarrow> int"
    unfolding assms(3) entry_sum_upd [OF fin] by (simp add: assms(2))
  show ?thesis
    using assms(1,5-10) books unfolding fd_books_ok_def fd_claimed_def sums
    by (simp add: fd_get_category_ids_def fd_get_total_allocated_def fd_get_total_collected_def)
qed

lemma fd_inv_category:
  assumes "fd_inv bal self w t s" and "fd_category s i = Some c"
    and "s' = s\<lparr>fd_category := (fd_category s)(i \<mapsto> c'), fd_total_shares_bps := x\<rparr>"
    and "fd_category_ok i c'" and "int (unwrap_or 0 x) = int (fd_get_total_shares s) - int (share_bps c) + int (share_bps c')"
    and "unwrap_or 0 x \<le> 10000" and "cat_total_allocated c' = cat_total_allocated c" and "cat_total_claimed c' = cat_total_claimed c"
  shows "fd_inv bal self w t s'"
proof -
  have "fd_books_ok s' \<and> fd_claimed s' = fd_claimed s"
    using fd_books_category [of s i c s' c'] assms by (simp add: fd_inv_def fd_get_total_shares_def)
  moreover have "fd_admin_ok s'"
    using assms(1,2) by (auto simp: fd_inv_def fd_admin_ok_def fd_get_defs assms(3) split: option.splits)
  moreover from calculation have "fd_owed tok s' = fd_owed tok s" for tok
    by (simp add: fd_owed_def assms(3) fd_get_total_collected_def)
  ultimately show ?thesis using assms(1) by (simp add: fd_inv_def assms(3))
qed

lemma fd_category_okD: "fd_inv bal self w t s \<Longrightarrow> fd_category s i = Some c \<Longrightarrow> fd_category_ok i c"
  by (simp add: fd_inv_def fd_books_ok_def)

lemma fd_update_ids [simp]:
  "s\<lparr>fd_total_shares_bps := fd_total_shares_bps s\<rparr> = s" "c\<lparr>cat_recipient := cat_recipient c\<rparr> = c"
  by (cases s, simp) (cases c, simp)

lemma fd_inv_update_category:
  assumes inv: "fd_inv bal self w t s" and run: "fd_update_category e a i nr ns s = Inr (c', s')"
  shows "fd_inv bal self w t s'"
proof -
  from run obtain c where c: "fd_category s i = Some c" "cat_active c"
    by (auto simp: fd_update_category_def result_iffs fd_helper_defs)
  have ok: "fd_category_ok i c" using fd_category_okD [OF inv c(1)] .
  have c': "(case nr of None \<Rightarrow> u | Some r \<Rightarrow> u\<lparr>cat_recipient := r\<rparr>) = u\<lparr>cat_recipient := unwrap_or (cat_recipient u) nr\<rparr>" for u
    by (cases nr) simp_all
  show ?thesis
  proof (cases ns)
    case None
    have "s' = s\<lparr>fd_category := (fd_category s)(i \<mapsto> c\<lparr>cat_recipient := unwrap_or (cat_recipient c) nr\<rparr>),
        fd_total_shares_bps := fd_total_shares_bps s\<rparr>"
      using run c None by (auto simp: fd_update_category_def result_iffs fd_helper_defs c' Let_def)
    then show ?thesis
      by (rule fd_inv_category [OF inv c(1)])
         (use ok inv in \<open>auto simp: fd_category_ok_def fd_inv_def fd_books_ok_def fd_get_total_shares_def\<close>)
  next
    case (Some sh)
    have pre: "0 < sh" "share_bps c \<le> fd_get_total_shares s" "fd_get_total_shares s - share_bps c + sh \<le> 10000"
      and s': "s' = s\<lparr>fd_category := (fd_category s)(i \<mapsto> c\<lparr>share_bps := sh, cat_recipient := unwrap_or (cat_recipient c) nr\<rparr>),
        fd_total_shares_bps := Some (fd_get_total_shares s - share_bps c + sh)\<rparr>"
      using run c Some by (auto simp: fd_update_category_def result_iffs fd_helper_defs c' Let_def)
    show ?thesis
      by (rule fd_inv_category [OF inv c(1) s']) (use ok pre c(2) in \<open>auto simp: fd_category_ok_def\<close>)
  qed
qed

lemma fd_inv_remove_category:
  assumes inv: "fd_inv bal self w t s" and run: "fd_remove_category e a i s = Inr ((), s')"
  shows "fd_inv bal self w t s'"
proof -
  from run obtain c where c: "fd_category s i = Some c" "share_bps c \<le> fd_get_total_shares s"
    and s': "s' = s\<lparr>fd_category := (fd_category s)(i \<mapsto> c\<lparr>cat_active := False, share_bps := 0\<rparr>),
      fd_total_shares_bps := Some (fd_get_total_shares s - share_bps c)\<rparr>"
    by (auto simp: fd_remove_category_def result_iffs fd_helper_defs)
  show ?thesis
    by (rule fd_inv_category [OF inv c(1) s'])
       (use fd_category_okD [OF inv c(1)] c(2) inv in \<open>auto simp: fd_category_ok_def fd_inv_def fd_books_ok_def\<close>)
qed

lemma fd_inv_reactivate_category:
  assumes inv: "fd_inv bal self w t s" and run: "fd_reactivate_category e a i sh s = Inr ((), s')"
  shows "fd_inv bal self w t s'"
proof -
  from run obtain c where c: "fd_category s i = Some c" "\<not> cat_active c" "0 < sh" "fd_get_total_shares s + sh \<le> 10000"
    and s': "s' = s\<lparr>fd_category := (fd_category s)(i \<mapsto> c\<lparr>cat_active := True, share_bps := sh\<rparr>),
      fd_total_shares_bps := Some (fd_get_total_shares s + sh)\<rparr>"
    by (auto simp: fd_reactivate_category_def result_iffs fd_helper_defs)
  show ?thesis
    by (rule fd_inv_category [OF inv c(1) s'])
       (use fd_category_okD [OF inv c(1)] c(2-4) in \<open>auto simp: fd_category_ok_def\<close>)
qed

lemma fd_inv_add_category:
  assumes inv: "fd_inv bal self w t s" and run: "fd_add_category e a i r sh s = Inr ((), s')"
  shows "fd_inv bal self w t s'"
proof -
  let ?c = "\<lparr>cat_id = i, cat_recipient = r, share_bps = sh, cat_total_allocated = 0, cat_total_claimed = 0, cat_active = True\<rparr>"
  from run have pre: "fd_category s i = None" "0 < sh" "length (fd_get_category_ids s) < MAX_CATEGORIES"
      "fd_get_total_shares s + sh \<le> 10000" "fd_admin s \<noteq> None"
    and s': "s' = s\<lparr>fd_category := (fd_category s)(i \<mapsto> ?c), fd_category_ids := Some (fd_get_category_ids s @ [i]),
      fd_total_shares_bps := Some (fd_get_total_shares s + sh)\<rparr>"
    by (auto simp: fd_add_category_def result_iffs fd_helper_defs Let_def)
  have books: "fd_books_ok s" using inv by (simp add: fd_inv_def)
  have sums: "entry_sum f (fd_category s') = entry_sum f (fd_category s) + f ?c" for f :: "recipient_category \<Rightarrow> int"
    unfolding s' using entry_sum_upd [OF fd_books_finite [OF books], of f i ?c] by (simp add: pre(1))
  have "fd_books_ok s'"
    using books pre unfolding fd_books_ok_def sums
    by (auto simp: s' fd_get_category_ids_def fd_get_total_shares_def fd_get_total_allocated_def fd_get_total_collected_def
        fd_category_ok_def)
  moreover have "fd_claimed s' = fd_claimed s" unfolding fd_claimed_def sums by simp
  moreover have "fd_admin_ok s'"
    using inv pre(5) by (auto simp: s' fd_inv_def fd_admin_ok_def fd_get_defs split: option.splits)
  moreover from calculation have "fd_owed tok s' = fd_owed tok s" for tok
    by (simp add: fd_owed_def s' fd_get_total_collected_def)
  ultimately show ?thesis using inv by (simp add: fd_inv_def s')
qed

lemma fd_transfer_token_Inr:
  "fd_transfer_token tr e tok src dst n s = Inr s' \<longleftrightarrow>
     \<not> unwrap_or False (fd_reentrancy_lock s) \<and> 0 < n \<and>
     (\<exists>w. tr e tok src dst n (fd_tokens s) = Some w \<and> s' = s\<lparr>fd_reentrancy_lock := Some False, fd_tokens := w\<rparr>)"
  by (auto simp: fd_transfer_token_def fd_enter_non_reentrant_def fd_exit_non_reentrant_def result_iffs split: if_splits)

lemma fd_collect_fee_Inr:
  assumes "fd_collect_fee tr e payer gross s = Inr (fee, s')"
  obtains (free) "fee = 0" "s' = s"
  | (paid) tok r w where "env_auth e payer" "\<not> fd_is_paused s" "0 < gross" "\<not> fd_is_exempt payer s" "fee_rate_bps s = Some r" "fee = gross * int r div 10000"
      "0 < fee" "fd_token s = Some tok" "tr e tok payer (env_self e) fee (fd_tokens s) = Some w"
      "in_i128 (fd_get_total_collected s + fee)"
      "s' = s\<lparr>fd_reentrancy_lock := Some False, fd_tokens := w, fd_total_collected := Some (fd_get_total_collected s + fee)\<rparr>"
proof (cases "fee = 0")
  case True
  with assms have "s' = s"
    by (auto simp: fd_collect_fee_def result_iffs fd_transfer_token_Inr split: if_splits)
  with True show thesis by (rule free)
next
  case False
  with assms obtain r where r: "env_auth e payer" "\<not> fd_is_paused s" "0 < gross" "\<not> fd_is_exempt payer s" "fee_rate_bps s = Some r"
      "fee = gross * int r div 10000"
    by (auto simp: fd_collect_fee_def fd_calculate_fee_def result_iffs fd_fee_rate_def FD_BPS_DENOMINATOR_def div_i128_nonneg
        split: if_splits)
  with assms False show thesis
    by (auto simp: fd_collect_fee_def result_iffs fd_get_token_def fd_transfer_token_Inr fd_get_total_collected_def
        split: if_splits intro!: paid [OF r])
qed

lemma fd_claim_one_Inr:
  assumes "fd_claim_one tr e i r rp s = Inr (paid, s')"
  obtains (zero) "\<not> rp" "paid = 0" "s' = s"
  | (pays) c tok w where "fd_category s i = Some c" "cat_recipient c = r" "paid = cat_total_allocated c - cat_total_claimed c" "0 < paid"
      "fd_token s = Some tok" "tr e tok (env_self e) r paid (fd_tokens s) = Some w"
      "s' = s\<lparr>fd_category := (fd_category s)(i \<mapsto> c\<lparr>cat_total_claimed := cat_total_allocated c\<rparr>),
             fd_reentrancy_lock := Some False, fd_tokens := w\<rparr>"
proof (cases "rp \<or> paid \<noteq> 0")
  case False
  with assms have "s' = s"
    by (auto simp: fd_claim_one_def result_iffs fd_transfer_token_Inr Let_def split: if_splits)
  with False show thesis by (intro zero) auto
next
  case True
  with assms obtain c where c: "fd_category s i = Some c" "cat_recipient c = r" "paid = cat_total_allocated c - cat_total_claimed c" "0 < paid"
    by (auto simp: fd_claim_one_def result_iffs fd_load_category_def Let_def split: if_splits)
  with assms show thesis
    by (auto simp: fd_claim_one_def result_iffs fd_load_category_def fd_get_token_def fd_transfer_token_Inr Let_def
        split: if_splits intro!: pays [OF c])
qed

text \<open>The shares of the categories a distribution pays add up to the share total.\<close>

lemma fd_sharing_sum:
  assumes "fd_books_ok s"
  shows "sum_list (map (fd_share_of s) (fd_sharing_ids s (fd_get_category_ids s))) = int (fd_get_total_shares s)"
proof -
  let ?ids = "fd_get_category_ids s"
  have "sum_list (map (fd_share_of s) (fd_sharing_ids s ?ids)) = sum_list (map (fd_share_of s) ?ids)"
    unfolding fd_sharing_ids_def using assms
    by (intro sum_list_map_filter) (auto simp: fd_share_of_def fd_sharing_def fd_books_ok_def fd_category_ok_def split: option.splits)
  also have "\<dots> = (\<Sum>i\<in>dom (fd_category s). fd_share_of s i)"
    using assms by (simp add: fd_books_ok_def sum_list_distinct_conv_sum_set)
  also have "\<dots> = entry_sum (\<lambda>c. int (share_bps c)) (fd_category s)"
    unfolding entry_sum_def by (rule sum.cong) (auto simp: fd_share_of_def)
  finally show ?thesis using assms by (simp add: fd_books_ok_def)
qed

text \<open>What a distribution does, on books that are in order.\<close>

lemma fd_distribute_Inr:
  assumes run: "fd_distribute e s = Inr (r, s')" and books: "fd_books_ok s"
  defines "p \<equiv> fd_get_total_collected s - fd_get_total_allocated s"
    and "ids \<equiv> fd_sharing_ids s (fd_get_category_ids s)"
  shows "0 < p" "fd_get_total_shares s = 10000" "dr_total_amount r = p" "distribution_id r = fd_get_distribution_counter s + 1"
    "category_count r = length ids" "ids \<noteq> []"
    "map ca_category_id (dr_allocations r) = ids"
    "map ca_amount (dr_allocations r) = split_pending p 0 (map (fd_share_of s) ids)"
    "s' = s\<lparr>fd_category := foldl fd_credit (fd_category s) (dr_allocations r), fd_total_allocated := Some (fd_get_total_collected s),
       fd_distribution_counter := Some (distribution_id r), fd_distribution := (fd_distribution s)(distribution_id r \<mapsto> r)\<rparr>"
proof -
  from run obtain n allocs s1 where
      pre: "fd_get_total_shares s = 10000" "0 < p" "fd_count_active (fd_get_category_ids s) 0 s = Inr n" "n \<noteq> 0"
    and alloc: "fd_allocate_all p n (fd_get_category_ids s) 0 0 s = Inr (allocs, s1)"
    and r: "r = \<lparr>distribution_id = fd_get_distribution_counter s1 + 1, dr_total_amount = p, category_count = n,
        dr_timestamp = env_timestamp e, dr_allocations = allocs\<rparr>"
    and s': "s' = s1\<lparr>fd_total_allocated := Some (fd_get_total_allocated s + p), fd_distribution_counter := Some (distribution_id r),
        fd_distribution := (fd_distribution s1)(distribution_id r \<mapsto> r)\<rparr>"
    by (auto simp: fd_distribute_def Let_def result_iffs fd_next_distribution_id_def FD_BPS_DENOMINATOR_def p_def
        fd_get_distribution_counter_def)
  have n: "n = length ids" using fd_count_active_Inr [OF pre(3)] by (simp add: ids_def)
  have loop: "map ca_category_id allocs = ids \<and> map ca_amount allocs = split_pending p 0 (map (fd_share_of s) ids) \<and>
      s1 = s\<lparr>fd_category := foldl fd_credit (fd_category s) allocs\<rparr>"
    using fd_allocate_all_Inr [OF alloc] books pre n by (simp add: fd_books_ok_def ids_def)
  show "0 < p" "fd_get_total_shares s = 10000" "dr_total_amount r = p" "distribution_id r = fd_get_distribution_counter s + 1"
    "category_count r = length ids" "ids \<noteq> []" "map ca_category_id (dr_allocations r) = ids"
    "map ca_amount (dr_allocations r) = split_pending p 0 (map (fd_share_of s) ids)"
    using pre n loop by (auto simp: r fd_get_distribution_counter_def)
  show "s' = s\<lparr>fd_category := foldl fd_credit (fd_category s) (dr_allocations r), fd_total_allocated := Some (fd_get_total_collected s),
       fd_distribution_counter := Some (distribution_id r), fd_distribution := (fd_distribution s)(distribution_id r \<mapsto> r)\<rparr>"
    using loop by (simp add: s' r p_def)
qed

lemma fd_allocations_nonneg:
  assumes "fd_books_ok s" and "fd_get_total_shares s = 10000" and "0 \<le> p"
  shows "k < length (fd_sharing_ids s (fd_get_category_ids s)) \<Longrightarrow>
    p * fd_share_of s (fd_sharing_ids s (fd_get_category_ids s) ! k) div 10000
      \<le> split_pending p 0 (map (fd_share_of s) (fd_sharing_ids s (fd_get_category_ids s))) ! k \<and>
    0 \<le> split_pending p 0 (map (fd_share_of s) (fd_sharing_ids s (fd_get_category_ids s))) ! k"
  using split_pending_ge [of p "map (fd_share_of s) (fd_sharing_ids s (fd_get_category_ids s))" 0] assms
  by (auto simp: fd_sharing_sum fd_share_of_def split: option.splits)

lemma fd_inv_distribute:
  assumes inv: "fd_inv bal self w t s" and run: "fd_distribute e s = Inr (r, s')"
  shows "fd_inv bal self w t s'"
proof -
  have books: "fd_books_ok s" using inv by (simp add: fd_inv_def)
  note d = fd_distribute_Inr [OF run books]
  let ?a = "dr_allocations r" and ?ids = "fd_sharing_ids s (fd_get_category_ids s)"
  have "0 \<le> split_pending (fd_get_total_collected s - fd_get_total_allocated s) 0 (map (fd_share_of s) ?ids) ! k" if "k < length ?ids" for k
    using fd_allocations_nonneg [OF books d(2), of "fd_get_total_collected s - fd_get_total_allocated s"] that d(1) by simp
  then have "\<forall>x\<in>set (map ca_amount ?a). 0 \<le> x"
    unfolding d(8) by (auto simp: in_set_conv_nth)
  then have nonneg: "0 \<le> fd_amount_for i ?a" for i by (intro fd_amount_for_nonneg) simp
  have sub: "ca_category_id ` set ?a \<subseteq> dom (fd_category s)"
    using d(7) books by (metis (no_types, lifting) fd_books_ok_def fd_sharing_ids_def filter_is_subset set_map)
  have total: "sum_list (map ca_amount ?a) = fd_get_total_collected s - fd_get_total_allocated s"
    unfolding d(8) using split_pending_sum [of "map (fd_share_of s) ?ids" 0] d(6) by simp
  have cats: "fd_category s' = foldl fd_credit (fd_category s) ?a" by (simp add: d(9))
  have each: "fd_category_ok i c" if "fd_category s' i = Some c" for i c
    using that nonneg [of i] books unfolding cats fd_credit_all_at by (fastforce simp: fd_books_ok_def fd_category_ok_def)
  have alloc: "entry_sum cat_total_allocated (fd_category s') = fd_get_total_collected s"
    unfolding cats entry_sum_credit [OF fd_books_finite [OF books] sub] total using books by (simp add: fd_books_ok_def)
  have shares: "entry_sum (\<lambda>c. int (share_bps c)) (fd_category s') = int (fd_get_total_shares s)"
    unfolding cats using books by (subst entry_sum_credit_other) (simp_all add: fd_books_ok_def)
  have claimed: "fd_claimed s' = fd_claimed s"
    unfolding fd_claimed_def cats by (rule entry_sum_credit_other) simp
  have same: "fd_get_category_ids s' = fd_get_category_ids s" "fd_get_total_shares s' = fd_get_total_shares s"
      "fd_get_total_collected s' = fd_get_total_collected s" "fd_get_total_allocated s' = fd_get_total_collected s"
      "dom (fd_category s') = dom (fd_category s)" "fd_tokens s' = fd_tokens s" "fd_token s' = fd_token s"
    by (simp_all add: d(9) fd_get_defs)
  have "fd_books_ok s'"
    using books each alloc shares by (simp add: fd_books_ok_def same)
  moreover have "fd_admin s \<noteq> None"
    using inv d(2) by (auto simp: fd_inv_def fd_admin_ok_def fd_books_ok_def)
  then have "fd_admin_ok s'"
    using inv unfolding fd_inv_def fd_admin_ok_def by (auto simp: d(9) fd_get_defs d(4) split: option.splits)
  moreover have "fd_owed tok s' = fd_owed tok s" for tok
    using claimed same by (simp add: fd_owed_def)
  ultimately show ?thesis using inv by (simp add: fd_inv_def same)
qed

text \<open>Calls that touch only the administrative fields.\<close>

lemma fd_inv_settings:
  assumes inv: "fd_inv bal self w t s"
  shows "fd_pause e a s = Inr ((), s') \<Longrightarrow> fd_inv bal self w t s'"
    and "fd_unpause e a s = Inr ((), s') \<Longrightarrow> fd_inv bal self w t s'"
    and "fd_set_fee_rate e a r s = Inr ((), s') \<Longrightarrow> fd_inv bal self w t s'"
    and "fd_emergency_set_fee_rate e a r s = Inr ((), s') \<Longrightarrow> fd_inv bal self w t s'"
    and "fd_set_exempt e a b x s = Inr ((), s') \<Longrightarrow> fd_inv bal self w t s'"
  by (rule fd_inv_admin_update [OF inv];
      use inv in \<open>auto simp: fd_pause_def fd_unpause_def fd_set_fee_rate_def fd_emergency_set_fee_rate_def
        fd_set_exempt_def Let_def result_iffs fd_helper_defs fd_inv_def fd_admin_ok_def
        fd_get_distribution_counter_def split: if_splits\<close>)+

lemma fd_inv_set_max:
  assumes inv: "fd_inv bal self w t s" and run: "fd_set_max_fee_rate e a m s = Inr ((), s')"
  shows "fd_inv bal self w t s'"
proof -
  from run obtain r where r: "fd_admin s = Some a" "fee_rate_bps s = Some r" "0 < m" "m \<le> HARD_CAP_FEE_RATE_BPS"
    by (auto simp: fd_set_max_fee_rate_def Let_def result_iffs fd_helper_defs)
  show ?thesis
  proof (cases "m < r")
    case True
    with run r have "s' = s\<lparr>max_fee_rate_bps := Some m, fee_rate_bps := Some m\<rparr>"
      by (simp add: fd_set_max_fee_rate_def Let_def result_iffs fd_helper_defs)
    then show ?thesis
      using inv r by (intro fd_inv_admin_update [OF inv]) (auto simp: fd_inv_def fd_admin_ok_def fd_get_distribution_counter_def)
  next
    case False
    with run r have "s' = s\<lparr>max_fee_rate_bps := Some m\<rparr>"
      by (simp add: fd_set_max_fee_rate_def Let_def result_iffs fd_helper_defs)
    then show ?thesis
      using inv r False by (intro fd_inv_admin_update [OF inv]) (auto simp: fd_inv_def fd_admin_ok_def fd_get_distribution_counter_def)
  qed
qed

context token_contract
begin

lemma fd_inv_collect:
  assumes inv: "fd_inv balance self w t s" and adm: "env_self e = self" "\<not> env_auth e self"
    and run: "fd_collect_fee transfer e payer gross s = Inr (fee, s')"
  shows "fd_inv balance self w t s'"
  using run
proof (cases rule: fd_collect_fee_Inr)
  case free
  with inv show ?thesis by simp
next
  case (paid tok r w')
  have "balance w x self + fd_owed x s' \<le> balance (fd_tokens s') x self" for x
  proof -
    have "balance w x self + fd_owed x s \<le> balance (fd_tokens s) x self" using inv by (simp add: fd_inv_def)
    moreover have "fd_owed x s' = fd_owed x s + (if x = tok then fee else 0)"
      using paid(8) by (simp add: fd_owed_def paid(11) fd_get_defs)
    moreover have "balance (fd_tokens s') x self = balance (fd_tokens s) x self + (if x = tok then fee else 0)"
      using transfer_moves [OF paid(9), of x self] paid(1) adm by (auto simp: paid(11))
    ultimately show ?thesis by linarith
  qed
  moreover have "fd_books_ok s'"
    using inv paid(7,10) by (auto simp: fd_inv_def fd_books_ok_def paid(11) fd_get_defs)
  moreover have "fd_admin_ok s'"
    using inv paid(8) by (auto simp: fd_inv_def fd_admin_ok_def paid(11) fd_get_defs split: option.splits)
  ultimately show ?thesis by (simp add: fd_inv_def)
qed

lemma fd_inv_claim_one:
  assumes inv: "fd_inv balance self w t s" and self: "env_self e = self"
    and run: "fd_claim_one transfer e i r rp s = Inr (paid, s')"
  shows "fd_inv balance self w t s'"
  using run
proof (cases rule: fd_claim_one_Inr)
  case zero
  with inv show ?thesis by simp
next
  case (pays c tok w')
  have ok: "fd_category_ok i c" using fd_category_okD [OF inv pays(1)] .
  have books: "fd_books_ok s" "fd_get_total_shares s \<le> 10000" using inv by (auto simp: fd_inv_def fd_books_ok_def)
  have claimed: "fd_books_ok s' \<and> fd_claimed s' = fd_claimed s - cat_total_claimed c +
      cat_total_claimed (c\<lparr>cat_total_claimed := cat_total_allocated c\<rparr>)"
    by (rule fd_books_category [OF books(1) pays(1)])
       (use ok books(2) pays(7) in \<open>auto simp: fd_category_ok_def fd_get_total_shares_def\<close>)
  have same: "fd_token s' = fd_token s" "fd_get_total_collected s' = fd_get_total_collected s"
    by (simp_all add: pays(7) fd_get_total_collected_def)
  have "fd_admin_ok s'"
    using inv pays(1,5) by (auto simp: fd_inv_def fd_admin_ok_def pays(7) fd_get_defs split: option.splits)
  moreover have "balance w x self + fd_owed x s' \<le> balance (fd_tokens s') x self" for x
  proof -
    have "balance w x self + fd_owed x s \<le> balance (fd_tokens s) x self" using inv by (simp add: fd_inv_def)
    moreover have "fd_owed x s' = fd_owed x s - (if x = tok then paid else 0)"
      using claimed pays(3,5) by (simp add: fd_owed_def same)
    moreover have "balance (fd_tokens s) x self - (if x = tok then paid else 0) \<le> balance (fd_tokens s') x self"
      using balance_src_ge [OF pays(6), of x self] by (simp add: pays(7))
    ultimately show ?thesis by linarith
  qed
  ultimately show ?thesis using claimed by (simp add: fd_inv_def)
qed

lemma fd_inv_claim_all:
  "fd_claim_all transfer e r acc is s = Inr (paid, s') \<Longrightarrow> fd_inv balance self w t s \<Longrightarrow>
   env_self e = self \<Longrightarrow> fd_inv balance self w t s'"
  by (induction "is" arbitrary: s acc) (auto simp: result_iffs intro: fd_inv_claim_one)

lemma fd_inv_call:
  assumes "fd_inv balance self w t s" and "fd_adm self e c" and "fd_exec transfer e c s = Some s'"
  shows "fd_inv balance self w t s'"
  using assms
  by (cases c) (auto simp: result_iffs fd_adm_def fd_claim_def fd_claim_batch_def
      intro: fd_inv_initialize fd_inv_settings fd_inv_set_max fd_inv_add_category fd_inv_update_category fd_inv_remove_category
        fd_inv_reactivate_category fd_inv_collect fd_inv_distribute fd_inv_claim_one fd_inv_claim_all)

end

sublocale token_contract \<subseteq> fdm: contract_machine "fd_exec transfer" "fd_adm self" "fd_drift balance self"
  "fd_inv balance self w" "fd_fresh w" for self w
proof unfold_locales
  show "fd_inv balance self w 0 (fd_fresh w)" by (rule fd_inv_fresh)
next
  fix t t' and s :: "'w fd_state"
  assume "fd_inv balance self w t s" then show "fd_inv balance self w t' s" by (simp add: fd_inv_def)
qed (auto intro: fd_inv_drift fd_inv_call)

interpretation fdg: reentrancy_guard fd_enter_non_reentrant fd_exit_non_reentrant
  "\<lambda>s. unwrap_or False (fd_reentrancy_lock s)"
  by unfold_locales (auto simp: fd_enter_non_reentrant_def fd_exit_non_reentrant_def)

context token_contract
begin

lemma fd_reach_inv:
  "reach (fd_exec transfer) (fd_adm self) (fd_drift balance self) (fd_fresh w) t s \<Longrightarrow> fd_inv balance self w t s"
  by (rule fdm.reach_inv)

end

section \<open>A concrete run\<close>

text \<open>A contract at \<open>Addr 0\<close> that takes 2.5 percent in the token at \<open>Addr 50\<close>; a payer \<open>Addr 1\<close>.\<close>

definition fd_env :: "u64 \<Rightarrow> env" where
  "fd_env t = \<lparr>env_timestamp = t, env_auth = (\<lambda>a. a \<noteq> Addr 0), env_self = Addr 0, env_sequence = 0\<rparr>"

definition fd_world :: mock_world where
  "fd_world = (\<lambda>tok. if tok = Addr 50 then [Addr 1 \<mapsto> 5000] else Map.empty)"

definition fd_demo_calls :: "(env \<times> fd_call) list" where
  "fd_demo_calls =
     [(fd_env 5, FdInitialize (Addr 7) (Addr 50) 250 1000),
      (fd_env 6, FdAddCategory (Addr 7) ''a'' (Addr 2) 3333),
      (fd_env 7, FdAddCategory (Addr 7) ''b'' (Addr 3) 6667),
      (fd_env 8, FdCollectFee (Addr 1) 4000)]"

definition fd_demo_cat :: "symbol \<Rightarrow> address \<Rightarrow> u32 \<Rightarrow> recipient_category" where
  "fd_demo_cat i r sh = \<lparr>cat_id = i, cat_recipient = r, share_bps = sh, cat_total_allocated = 0,
     cat_total_claimed = 0, cat_active = True\<rparr>"

definition fd_demo :: "mock_world fd_state" where
  "fd_demo = \<lparr>fd_admin = Some (Addr 7), fd_token = Some (Addr 50), fd_paused = Some False, fee_rate_bps = Some 250,
     max_fee_rate_bps = Some 1000, fd_total_collected = Some 100, fd_total_allocated = Some 0, fd_total_shares_bps = Some 10000,
     fd_category_ids = Some [''a'', ''b''],
     fd_category = [''a'' \<mapsto> fd_demo_cat ''a'' (Addr 2) 3333, ''b'' \<mapsto> fd_demo_cat ''b'' (Addr 3) 6667],
     fd_exempt = (\<lambda>_. None), fd_distribution_counter = Some 0, fd_distribution = (\<lambda>_. None),
     fd_reentrancy_lock = Some False, fd_tokens = fd_world(Addr 50 := [Addr 1 \<mapsto> 4900, Addr 0 \<mapsto> 100])\<rparr>"

lemma fd_env_simps [simp]:
  "env_timestamp (fd_env t) = t" "env_auth (fd_env t) a = (a \<noteq> Addr 0)" "env_self (fd_env t) = Addr 0"
  by (simp_all add: fd_env_def)

lemmas fd_eval = fd_fresh_def fd_initialize_def fd_add_category_def fd_collect_fee_def fd_calculate_fee_def fd_helper_defs
  fd_get_defs fd_is_exempt_def fd_transfer_token_def fd_enter_non_reentrant_def fd_exit_non_reentrant_def
  HARD_CAP_FEE_RATE_BPS_def MAX_CATEGORIES_def require_auth_def call_token_def mock_world_transfer_def mock_transfer_def
  mock_balance_def mock_world_balance_def div_i128_nonneg Let_def arith_defs

lemma fd_demo_run: "run_calls (fd_exec mock_world_transfer) fd_demo_calls (fd_fresh fd_world) = fd_demo"
  by (simp add: fd_demo_calls_def fd_demo_def fd_demo_cat_def fd_world_def fd_eval)

lemma fd_demo_reach:
  "reach (fd_exec mock_world_transfer) (fd_adm (Addr 0)) (fd_drift mock_world_balance (Addr 0)) (fd_fresh fd_world) 8 fd_demo"
  using reach_run [of "fd_adm (Addr 0)" fd_demo_calls "fd_exec mock_world_transfer" "fd_drift mock_world_balance (Addr 0)" "fd_fresh fd_world"]
  by (simp add: fd_demo_run) (simp add: fd_demo_calls_def fd_adm_def)

definition fd_demo_record :: distribution_record where
  "fd_demo_record = \<lparr>distribution_id = 1, dr_total_amount = 100, category_count = 2, dr_timestamp = 9,
     dr_allocations = [\<lparr>ca_category_id = ''a'', ca_amount = 33\<rparr>, \<lparr>ca_category_id = ''b'', ca_amount = 67\<rparr>]\<rparr>"

definition fd_demo2 :: "mock_world fd_state" where
  "fd_demo2 = fd_demo\<lparr>fd_total_allocated := Some 100,
     fd_category := [''a'' \<mapsto> (fd_demo_cat ''a'' (Addr 2) 3333)\<lparr>cat_total_allocated := 33\<rparr>,
       ''b'' \<mapsto> (fd_demo_cat ''b'' (Addr 3) 6667)\<lparr>cat_total_allocated := 67\<rparr>],
     fd_distribution_counter := Some 1, fd_distribution := [1 \<mapsto> fd_demo_record]\<rparr>"

lemma fd_demo_distribute: "fd_distribute (fd_env 9) fd_demo = Inr (fd_demo_record, fd_demo2)"
  by (simp add: fd_distribute_def fd_next_distribution_id_def fd_demo2_def fd_demo_record_def fd_demo_def fd_demo_cat_def fd_eval)
     (auto simp: fun_eq_iff)

lemma fd_demo2_reach:
  "reach (fd_exec mock_world_transfer) (fd_adm (Addr 0)) (fd_drift mock_world_balance (Addr 0)) (fd_fresh fd_world) 9 fd_demo2"
  by (rule reach_call [where e = "fd_env 9" and c = FdDistribute, OF reach_tick [OF fd_demo_reach]])
     (simp_all add: fd_adm_def fd_demo_distribute)

section \<open>Properties\<close>

text \<open>The categories that take part in a distribution, each of them once.\<close>

lemma fd_sharing_ids_exact:
  assumes "fd_books_ok s"
  shows "distinct (fd_sharing_ids s (fd_get_category_ids s))"
    and "set (fd_sharing_ids s (fd_get_category_ids s)) = {i. \<exists>c. fd_category s i = Some c \<and> cat_active c \<and> 0 < share_bps c}"
  using assms by (auto simp: fd_sharing_ids_def fd_sharing_def fd_books_ok_def)

text \<open>
  C6. A distribution hands out exactly what is pending, to exactly the sharing categories. In a
  reachable state a successful \<open>distribute\<close> records one allocation for every stored category that
  is active and has a positive share, and none for any other; each gets at least its share rounded
  down (exactly that, except for the last one, which also gets the rounding remainder), the
  allocations add up to the pending amount, every category's running total grows by its allocation,
  and afterwards nothing is pending.
\<close>

theorem fd_distribute_exact:
  assumes "token_contract tr bal"
    and "reach (fd_exec tr) (fd_adm self) (fd_drift bal self) (fd_fresh w) t s"
    and "fd_distribute e s = Inr (r, s')"
  shows "fd_get_pending_distribution s' = Inr 0 \<and>
    dr_total_amount r = fd_get_total_collected s - fd_get_total_allocated s \<and>
    sum_list (map ca_amount (dr_allocations r)) = dr_total_amount r \<and>
    length (dr_allocations r) = category_count r \<and>
    distinct (map ca_category_id (dr_allocations r)) \<and>
    set (map ca_category_id (dr_allocations r)) = {i. \<exists>c. fd_category s i = Some c \<and> cat_active c \<and> 0 < share_bps c} \<and>
    (\<forall>k < length (dr_allocations r). let a = dr_allocations r ! k;
        exact = dr_total_amount r * fd_share_of s (ca_category_id a) div 10000 in
      0 \<le> exact \<and> exact \<le> ca_amount a \<and> (Suc k < length (dr_allocations r) \<longrightarrow> ca_amount a = exact)) \<and>
    (\<forall>i c. fd_category s i = Some c \<longrightarrow> (\<exists>c'. fd_category s' i = Some c' \<and>
      cat_total_allocated c' = cat_total_allocated c + fd_amount_for i (dr_allocations r)))"
proof -
  have books: "fd_books_ok s" using token_contract.fd_reach_inv [OF assms(1,2)] by (simp add: fd_inv_def)
  note d = fd_distribute_Inr [OF assms(3) books]
  let ?a = "dr_allocations r" and ?ids = "fd_sharing_ids s (fd_get_category_ids s)"
  let ?p = "fd_get_total_collected s - fd_get_total_allocated s"
  have len: "length ?a = length ?ids" using d(7) by (metis length_map)
  have k: "let a = ?a ! k; exact = dr_total_amount r * fd_share_of s (ca_category_id a) div 10000 in
      0 \<le> exact \<and> exact \<le> ca_amount a \<and> (Suc k < length ?a \<longrightarrow> ca_amount a = exact)" if "k < length ?a" for k
  proof -
    have a: "ca_category_id (?a ! k) = ?ids ! k" "ca_amount (?a ! k) = split_pending ?p 0 (map (fd_share_of s) ?ids) ! k"
      using that d(7,8) by (metis nth_map)+
    have "0 \<le> ?p * fd_share_of s (?ids ! k) div 10000"
      using d(1) by (auto simp: pos_imp_zdiv_nonneg_iff fd_share_of_def split: option.splits)
    with a d(3) fd_allocations_nonneg [OF books d(2), of ?p k] that len d(1)
      split_pending_floor [of k "map (fd_share_of s) ?ids" ?p 0]
    show ?thesis by (auto simp: Let_def)
  qed
  have sum: "sum_list (map ca_amount ?a) = ?p"
    unfolding d(8) using split_pending_sum [of "map (fd_share_of s) ?ids" 0] d(6) by simp
  have rest: "fd_get_pending_distribution s' = Inr 0"
    by (simp add: fd_get_pending_distribution_def d(9) fd_get_defs arith_defs)
  have cats: "\<exists>c'. fd_category s' i = Some c' \<and> cat_total_allocated c' = cat_total_allocated c + fd_amount_for i ?a"
    if "fd_category s i = Some c" for i c
    using that by (simp add: d(9) fd_credit_all_at)
  have parts: "distinct (map ca_category_id ?a)"
    "set (map ca_category_id ?a) = {i. \<exists>c. fd_category s i = Some c \<and> cat_active c \<and> 0 < share_bps c}"
    unfolding d(7) by (rule fd_sharing_ids_exact [OF books])+
  show ?thesis using rest d(3,5) sum len k cats by (intro conjI parts) (auto simp del: Let_def)
qed

theorem fd_distribute_exact_witness:
  "fd_distribute (fd_env 9) fd_demo = Inr (fd_demo_record, fd_demo2) \<and> fd_get_pending_distribution fd_demo2 = Inr 0 \<and>
   sum_list (map ca_amount (dr_allocations fd_demo_record)) = 100 \<and>
   set (map ca_category_id (dr_allocations fd_demo_record)) =
     {i. \<exists>c. fd_category fd_demo i = Some c \<and> cat_active c \<and> 0 < share_bps c}"
  using fd_distribute_exact [OF mock.token_contract_axioms fd_demo_reach fd_demo_distribute] fd_demo_distribute
  by (simp add: fd_demo_record_def)

text \<open>The view that totals the claims computes the sum over the stored categories.\<close>

lemma fd_sum_claimed_total:
  assumes "set ids \<subseteq> dom (fd_category s)" and "0 \<le> acc" and "\<forall>i\<in>set ids. 0 \<le> cat_total_claimed (the (fd_category s i))"
    and "in_i128 (acc + (\<Sum>i\<leftarrow>ids. cat_total_claimed (the (fd_category s i))))"
  shows "fd_sum_claimed ids acc s = Inr (acc + (\<Sum>i\<leftarrow>ids. cat_total_claimed (the (fd_category s i))))"
  using assms
proof (induction ids arbitrary: acc)
  case (Cons i ids)
  from Cons.prems obtain c where c: "fd_category s i = Some c" "0 \<le> cat_total_claimed c" by auto
  have "0 \<le> (\<Sum>i\<leftarrow>ids. cat_total_claimed (the (fd_category s i)))"
    using Cons.prems(3) by (intro sum_list_nonneg) auto
  then have "in_i128 (acc + cat_total_claimed c)"
    using Cons.prems c by (intro in_i128_nonneg [OF Cons.prems(4)]) auto
  with Cons c show ?case by (simp add: fd_load_category_def checked_add_i128_def narrow_i128_def add.assoc)
qed simp

lemma fd_get_total_claimed_eq:
  assumes "fd_books_ok s"
  shows "fd_get_total_claimed s = Inr (fd_claimed s)"
proof -
  have sum: "fd_claimed s = (\<Sum>i\<leftarrow>fd_get_category_ids s. cat_total_claimed (the (fd_category s i)))"
    using assms by (simp add: fd_claimed_def entry_sum_def fd_books_ok_def sum_list_distinct_conv_sum_set)
  have nonneg: "\<forall>i\<in>set (fd_get_category_ids s). 0 \<le> cat_total_claimed (the (fd_category s i))"
    using assms by (auto simp: fd_books_ok_def fd_category_ok_def)
  have "0 \<le> fd_claimed s" unfolding sum using nonneg by (intro sum_list_nonneg) auto
  moreover have "in_i128 (fd_get_total_collected s)" "fd_get_total_allocated s \<le> fd_get_total_collected s"
    using assms by (simp_all add: fd_books_ok_def)
  ultimately have "in_i128 (fd_claimed s)"
    using fd_claimed_le_allocated [OF assms] by (meson in_i128_nonneg order_trans)
  with fd_sum_claimed_total [of "fd_get_category_ids s" s 0] nonneg assms show ?thesis
    by (simp add: fd_get_total_claimed_def sum fd_books_ok_def)
qed

text \<open>
  Solvency. On any token that behaves as documented, in every reachable state the contract
  holds, beyond what it held at deployment, at least everything it collected and has not paid out;
  no category has claimed more than was allocated to it, the allocations add up to
  \<open>total_allocated\<close>, which never exceeds \<open>total_collected\<close>, and \<open>get_total_claimed\<close> reports
  the exact sum of the claims.
\<close>

theorem fd_solvent:
  assumes "token_contract tr bal"
    and "reach (fd_exec tr) (fd_adm self) (fd_drift bal self) (fd_fresh w) t s" and "fd_token s = Some tok"
  shows "bal w tok self + (fd_get_total_collected s - fd_claimed s) \<le> bal (fd_tokens s) tok self \<and>
    fd_get_total_claimed s = Inr (fd_claimed s) \<and> fd_claimed s \<le> fd_get_total_allocated s \<and>
    entry_sum cat_total_allocated (fd_category s) = fd_get_total_allocated s \<and>
    fd_get_total_allocated s \<le> fd_get_total_collected s \<and>
    (\<forall>i c. fd_category s i = Some c \<longrightarrow> 0 \<le> cat_total_claimed c \<and> cat_total_claimed c \<le> cat_total_allocated c)"
proof -
  have inv: "fd_books_ok s" "bal w tok self + fd_owed tok s \<le> bal (fd_tokens s) tok self"
    using token_contract.fd_reach_inv [OF assms(1,2)] by (auto simp: fd_inv_def)
  show ?thesis
    using inv fd_get_total_claimed_eq [OF inv(1)] fd_claimed_le_allocated [OF inv(1)] assms(3)
    by (auto simp: fd_owed_def fd_books_ok_def fd_category_ok_def)
qed

theorem fd_solvent_witness:
  "mock_world_balance fd_world (Addr 50) (Addr 0) + (fd_get_total_collected fd_demo2 - fd_claimed fd_demo2)
     \<le> mock_world_balance (fd_tokens fd_demo2) (Addr 50) (Addr 0) \<and>
   fd_get_total_allocated fd_demo2 = 100"
  using fd_solvent [OF mock.token_contract_axioms fd_demo2_reach, of "Addr 50"]
  by (simp add: fd_demo2_def fd_demo_def fd_get_total_allocated_def)

text \<open>
  Shares always fit. In every reachable state the category list has no duplicates and at most
  20 entries, the stored share total is the sum of the shares of the categories and at most 100
  percent, and a category has a share exactly while it is active.
\<close>

theorem fd_shares_consistent:
  assumes "token_contract tr bal"
    and "reach (fd_exec tr) (fd_adm self) (fd_drift bal self) (fd_fresh w) t s"
  shows "distinct (fd_get_category_ids s) \<and> set (fd_get_category_ids s) = dom (fd_category s) \<and>
    length (fd_get_category_ids s) \<le> 20 \<and>
    (\<Sum>i\<in>dom (fd_category s). share_bps (the (fd_category s i))) = fd_get_total_shares s \<and>
    fd_get_total_shares s \<le> 10000 \<and>
    (\<forall>i c. fd_category s i = Some c \<longrightarrow> cat_id c = i \<and> (cat_active c \<longleftrightarrow> 0 < share_bps c))"
proof -
  have books: "fd_books_ok s" using token_contract.fd_reach_inv [OF assms(1,2)] by (simp add: fd_inv_def)
  then have "int (\<Sum>i\<in>dom (fd_category s). share_bps (the (fd_category s i))) = int (fd_get_total_shares s)"
    by (simp add: fd_books_ok_def entry_sum_def)
  with books show ?thesis by (auto simp: fd_books_ok_def fd_category_ok_def MAX_CATEGORIES_def simp del: of_nat_sum)
qed

theorem fd_shares_consistent_witness:
  "(\<Sum>i\<in>dom (fd_category fd_demo). share_bps (the (fd_category fd_demo i))) = fd_get_total_shares fd_demo \<and>
   fd_get_total_shares fd_demo \<le> 10000"
  using fd_shares_consistent [OF mock.token_contract_axioms fd_demo_reach] by blast

lemma fd_claim_one_rate: "fd_claim_one tr e i r rp s = Inr (p, s') \<Longrightarrow> fee_rate_bps s' = fee_rate_bps s"
  by (erule fd_claim_one_Inr) simp_all

lemma fd_claim_all_rate: "fd_claim_all tr e r acc is s = Inr (p, s') \<Longrightarrow> fee_rate_bps s' = fee_rate_bps s"
  by (induction "is" arbitrary: acc s) (auto simp: result_iffs dest: fd_claim_one_rate)

lemma fd_update_category_rate: "fd_update_category e a i nr ns s = Inr (c, s') \<Longrightarrow> fee_rate_bps s' = fee_rate_bps s"
  by (auto simp: fd_update_category_def result_iffs Let_def split: option.splits)

text \<open>Which calls change the rate, and how.\<close>

lemma fd_exec_rate:
  assumes "fd_exec tr e c s = Some s'" and "fd_admin s \<noteq> None" and "fd_books_ok s" and "fee_rate_bps s = Some rate"
  shows "fee_rate_bps s' = Some rate \<or>
    (\<exists>a r. fee_rate_bps s' = Some r \<and> (c = FdEmergencySetFeeRate a r \<or>
      (c = FdSetFeeRate a r \<and> r \<le> rate + 500 \<and> rate \<le> r + 500) \<or> (c = FdSetMaxFeeRate a r \<and> r < rate)))"
proof (cases c)
  case (FdSetMaxFeeRate a m)
  then have run: "fd_set_max_fee_rate e a m s = Inr ((), s')" using assms(1) by (auto simp: result_iffs)
  show ?thesis
    by (cases "m < rate") (use run assms(4) FdSetMaxFeeRate in \<open>auto simp: fd_set_max_fee_rate_def Let_def result_iffs fd_fee_rate_def\<close>)
next
  case FdDistribute
  then obtain r where "fd_distribute e s = Inr (r, s')" using assms(1) by (auto simp: result_iffs)
  from fd_distribute_Inr(9) [OF this assms(3)] assms(4) show ?thesis by simp
next
  case (FdCollectFee p n)
  then obtain fee where "fd_collect_fee tr e p n s = Inr (fee, s')" using assms(1) by (auto simp: result_iffs)
  then show ?thesis using assms(4) by (cases rule: fd_collect_fee_Inr) simp_all
next
  case (FdSetFeeRate a r)
  with assms(1,4) show ?thesis
    by (auto simp: result_iffs fd_set_fee_rate_def fd_helper_defs MAX_FEE_RATE_STEP_BPS_def Let_def split: if_splits)
qed (use assms in \<open>auto simp: result_iffs fd_initialize_def fd_pause_def fd_unpause_def fd_emergency_set_fee_rate_def fd_add_category_def
    fd_remove_category_def fd_reactivate_category_def fd_set_exempt_def fd_claim_def fd_claim_batch_def Let_def
    dest: fd_claim_one_rate fd_claim_all_rate fd_update_category_rate\<close>)

text \<open>
  Bounded fees. In every reachable state the fee rate is at most the configured maximum, which
  is at most 20 percent; a payer is charged at most a fifth of the gross amount, and exactly the
  returned fee. A call that moves the rate of an initialised contract by more than 500 basis points
  is \<open>emergency_set_fee_rate\<close>, or \<open>set_max_fee_rate\<close> pulling the rate down to the new maximum.
\<close>

theorem fd_fee_bounded:
  assumes "token_contract tr bal"
    and "reach (fd_exec tr) (fd_adm self) (fd_drift bal self) (fd_fresh w) t s" and "fee_rate_bps s = Some rate"
  shows "\<exists>m. max_fee_rate_bps s = Some m \<and> rate \<le> m \<and> m \<le> 2000 \<and>
    (\<forall>e payer gross fee s'. fd_collect_fee tr e payer gross s = Inr (fee, s') \<longrightarrow> 0 \<le> fee \<and> 5 * fee \<le> gross) \<and>
    (\<forall>e c s' rate'. fd_exec tr e c s = Some s' \<and> fee_rate_bps s' = Some rate' \<and> (rate + 500 < rate' \<or> rate' + 500 < rate) \<longrightarrow>
       (\<exists>a. c = FdEmergencySetFeeRate a rate' \<or> (c = FdSetMaxFeeRate a rate' \<and> rate' < rate)))"
proof -
  have ok: "fd_admin_ok s" and books: "fd_books_ok s"
    using token_contract.fd_reach_inv [OF assms(1,2)] by (auto simp: fd_inv_def)
  then obtain m where m: "max_fee_rate_bps s = Some m" "rate \<le> m" "m \<le> 2000" "fd_admin s \<noteq> None"
    using assms(3) by (auto simp: fd_admin_ok_def HARD_CAP_FEE_RATE_BPS_def split: option.splits)
  have fee: "0 \<le> fee \<and> 5 * fee \<le> gross" if "fd_collect_fee tr e payer gross s = Inr (fee, s')" for e payer gross fee s'
    using that
  proof (cases rule: fd_collect_fee_Inr)
    case free
    with that show ?thesis by (auto simp: fd_collect_fee_def result_iffs split: if_splits)
  next
    case (paid tok r w')
    have "gross * int r \<le> gross * 2000" using paid(3,5) assms(3) m by (intro mult_left_mono) auto
    then show ?thesis using paid(6,7) by simp
  qed
  have step: "\<exists>a. c = FdEmergencySetFeeRate a rate' \<or> (c = FdSetMaxFeeRate a rate' \<and> rate' < rate)"
    if "fd_exec tr e c s = Some s'" "fee_rate_bps s' = Some rate'" "rate + 500 < rate' \<or> rate' + 500 < rate" for e c s' rate'
    using fd_exec_rate [OF that(1) m(4) books assms(3)] that(2,3) by auto
  show ?thesis using m fee step by blast
qed

theorem fd_fee_bounded_witness:
  "\<exists>m. max_fee_rate_bps fd_demo = Some m \<and> 250 \<le> m \<and> m \<le> 2000"
  using fd_fee_bounded [OF mock.token_contract_axioms fd_demo_reach, of 250] by (auto simp: fd_demo_def)

lemma fd_share_sum_nonneg: "0 \<le> sum_list (map (fd_share_of s) ids)"
  by (intro sum_list_nonneg) (auto simp: fd_share_of_def split: option.splits)

lemma fd_allocated_nonneg: "fd_books_ok s \<Longrightarrow> fd_category s i = Some c \<Longrightarrow> 0 \<le> cat_total_allocated c"
  unfolding fd_books_ok_def fd_category_ok_def by (meson order_trans)

text \<open>The allocation loop cannot fail when the books leave room for the amounts.\<close>

lemma fd_allocate_all_total:
  assumes "set ids \<subseteq> dom (fd_category s)" and "distinct ids" and "0 \<le> p" and "in_i128 (p * 10000)" and "0 \<le> d"
    and "10000 * d + p * sum_list (map (fd_share_of s) (fd_sharing_ids s ids)) \<le> 10000 * p"
    and "\<forall>i\<in>set ids. \<forall>c. fd_category s i = Some c \<longrightarrow> 0 \<le> cat_total_allocated c \<and> in_i128 (cat_total_allocated c + p)"
    and "n = k + length (fd_sharing_ids s ids)"
  shows "\<exists>x. fd_allocate_all p n ids k d s = Inr x"
  using assms
proof (induction ids arbitrary: k d s)
  case (Cons i ids)
  from Cons.prems(1) obtain c where c: "fd_category s i = Some c" by auto
  show ?case
  proof (cases "fd_sharing c")
    case False
    have "fd_sharing_ids s (i # ids) = fd_sharing_ids s ids" using False c by (simp add: fd_sharing_ids_def)
    then have "\<exists>x. fd_allocate_all p n ids k d s = Inr x" using Cons.prems by (intro Cons.IH) auto
    with c False show ?thesis by (auto simp: fd_load_category_def fd_sharing_def)
  next
    case True
    define sh where "sh = int (share_bps c)"
    define f where "f = p * sh div 10000"
    define rest where "rest = sum_list (map (fd_share_of s) (fd_sharing_ids s ids))"
    define a where "a = (if k + 1 = n then p - d else f)"
    define s1 where "s1 = s\<lparr>fd_category := (fd_category s)(i \<mapsto> c\<lparr>cat_total_allocated := cat_total_allocated c + a\<rparr>)\<rparr>"
    have ids: "fd_sharing_ids s (i # ids) = i # fd_sharing_ids s ids" using True c by (simp add: fd_sharing_ids_def)
    have later: "fd_category s1 j = fd_category s j" if "j \<in> set ids" for j
      using that Cons.prems(2) by (auto simp: s1_def)
    have same: "fd_sharing_ids s1 ids = fd_sharing_ids s ids"
      unfolding fd_sharing_ids_def by (rule filter_cong) (simp_all add: later)
    have shares: "map (fd_share_of s1) (fd_sharing_ids s ids) = map (fd_share_of s) (fd_sharing_ids s ids)"
      by (auto simp: fd_share_of_def later fd_sharing_ids_def)
    have last: "p * rest = 0" if "Suc k = n"
      using Cons.prems(8) ids that by (simp add: rest_def)
    have "fd_share_of s i = sh" using c by (simp add: fd_share_of_def sh_def)
    then have budget: "10000 * d + p * sh + p * rest \<le> 10000 * p"
      using Cons.prems(6) unfolding ids by (simp add: rest_def algebra_simps)
    have rest0: "0 \<le> p * rest" "0 \<le> p * sh"
      using Cons.prems(3) fd_share_sum_nonneg [of s "fd_sharing_ids s ids"] by (auto simp: rest_def sh_def)
    have f: "0 \<le> f" "10000 * f \<le> p * sh" using rest0 by (simp_all add: f_def pos_imp_zdiv_nonneg_iff)
    have a: "0 \<le> a" "f \<le> a" "d + a \<le> p" "10000 * (d + a) + p * rest \<le> 10000 * p" "d \<le> p" "f \<le> p - d"
      using f rest0 budget Cons.prems(5) last by (auto simp: a_def)
    have bounds: "in_i128 x" if "0 \<le> x" "x \<le> p * 10000" for x using in_i128_nonneg [OF Cons.prems(4)] that by blast
    have room: "0 \<le> cat_total_allocated c" "in_i128 (cat_total_allocated c + p)" using Cons.prems(7) c by auto
    have fits: "in_i128 (p * sh)" "in_i128 (p - d)" "in_i128 (p - d - f)" "in_i128 (f + (p - d - f))" "in_i128 (d + a)"
      using a f rest0 budget Cons.prems(3,5) by (auto intro!: bounds)
    have credit: "in_i128 (cat_total_allocated c + a)"
      using a(1,3) Cons.prems(5) room by (intro in_i128_nonneg [OF room(2)]) auto
    have dom1: "set ids \<subseteq> dom (fd_category s1)" using Cons.prems(1) by (auto simp: s1_def)
    have "\<exists>x. fd_allocate_all p n ids (k + 1) (d + a) s1 = Inr x"
      by (rule Cons.IH) (use Cons.prems a later dom1 in \<open>simp_all add: same shares rest_def ids\<close>)
    then obtain allocs s' where run: "fd_allocate_all p n ids (k + 1) (d + a) s1 = Inr (allocs, s')" by auto
    have quot: "div_i128 (p * sh) FD_BPS_DENOMINATOR = f"
      using rest0(2) by (simp add: div_i128_nonneg FD_BPS_DENOMINATOR_def f_def)
    show ?thesis
      using c True run fits credit
      by (simp add: fd_load_category_def fd_sharing_def Let_def sh_def [symmetric] quot a_def s1_def
          checked_mul_i128_def checked_sub_i128_def checked_add_i128_def narrow_i128_def split: if_splits)
  qed
qed simp

text \<open>
  Distribution cannot get stuck. In every reachable state with fully configured shares and
  something pending, \<open>distribute\<close> succeeds (as long as the pending amount times ten thousand is
  representable and the counter is not exhausted); nobody's cooperation is needed.
\<close>

theorem fd_distribute_succeeds:
  assumes "token_contract tr bal"
    and "reach (fd_exec tr) (fd_adm self) (fd_drift bal self) (fd_fresh w) t s"
    and "fd_get_total_shares s = 10000" and "fd_get_total_allocated s < fd_get_total_collected s"
    and "in_i128 ((fd_get_total_collected s - fd_get_total_allocated s) * 10000)"
    and "fd_get_distribution_counter s < u64_max"
  shows "\<exists>r s'. fd_distribute e s = Inr (r, s')"
proof -
  let ?p = "fd_get_total_collected s - fd_get_total_allocated s" and ?ids = "fd_get_category_ids s"
  have books: "fd_books_ok s" using token_contract.fd_reach_inv [OF assms(1,2)] by (simp add: fd_inv_def)
  have basics: "set ?ids = dom (fd_category s)" "distinct ?ids" "entry_sum cat_total_allocated (fd_category s) = fd_get_total_allocated s"
      "in_i128 (fd_get_total_collected s)" "\<And>i c. fd_category s i = Some c \<Longrightarrow> 0 \<le> cat_total_allocated c"
    using books fd_allocated_nonneg [OF books] by (auto simp: fd_books_ok_def)
  have sum: "sum_list (map (fd_share_of s) (fd_sharing_ids s ?ids)) = 10000"
    using fd_sharing_sum [OF books] assms(3) by simp
  then have some: "fd_sharing_ids s ?ids \<noteq> []" by auto
  have room: "0 \<le> cat_total_allocated c \<and> in_i128 (cat_total_allocated c + ?p)" if "fd_category s i = Some c" for i c
  proof -
    have "cat_total_allocated c \<le> fd_get_total_allocated s"
      using entry_sum_ge_entry [OF fd_books_finite [OF books] that, of cat_total_allocated] basics(3,5) by auto
    then show ?thesis
      using basics(5) [OF that] assms(4) in_i128_nonneg [OF basics(4), of "cat_total_allocated c + ?p"] by auto
  qed
  have "\<exists>x. fd_allocate_all ?p (length (fd_sharing_ids s ?ids)) ?ids 0 0 s = Inr x"
    by (rule fd_allocate_all_total) (use basics(1,2) assms(4,5) sum room in \<open>auto simp: algebra_simps\<close>)
  then obtain allocs s1 where run: "fd_allocate_all ?p (length (fd_sharing_ids s ?ids)) ?ids 0 0 s = Inr (allocs, s1)" by auto
  have s1: "s1 = s\<lparr>fd_category := foldl fd_credit (fd_category s) allocs\<rparr>"
    using fd_allocate_all_Inr [OF run] basics(2) assms(4) by simp
  have count: "fd_count_active ?ids 0 s = Inr (length (fd_sharing_ids s ?ids))"
    using fd_count_active_total [of ?ids s 0] basics(1) by simp
  have "0 \<le> fd_get_total_allocated s"
    using entry_sum_nonneg [of "fd_category s" cat_total_allocated] basics(3,5) by metis
  then have pend: "in_i128 ?p" using assms(4) by (intro in_i128_nonneg [OF basics(4)]) auto
  show ?thesis
    using run count some assms(3,4,6) basics(4) pend
    by (simp add: fd_distribute_def FD_BPS_DENOMINATOR_def Let_def checked_sub_i128_def checked_add_i128_def narrow_i128_def
        fd_next_distribution_id_def s1 checked_add_u64_def fd_get_distribution_counter_def)
qed

theorem fd_distribute_succeeds_witness: "\<exists>r s'. fd_distribute (fd_env 9) fd_demo = Inr (r, s')"
  using fd_distribute_succeeds [OF mock.token_contract_axioms fd_demo_reach, of "fd_env 9"]
  by (simp add: fd_demo_def fd_get_defs arith_defs)

text \<open>
  Allocated fees can always be claimed. On a token that honours funded payments, in every
  reachable state the recipient of a category with unclaimed allocations collects all of them with
  one claim, provided the recipient's balance can hold them.
\<close>

theorem fd_claim_succeeds:
  assumes "live_token tr bal"
    and "reach (fd_exec tr) (fd_adm self) (fd_drift bal self) (fd_fresh w) t s"
    and "fd_category s i = Some c" and "cat_total_claimed c < cat_total_allocated c" and "fd_token s = Some tok"
    and "env_self e = self" and "env_auth e (cat_recipient c)" and "0 \<le> bal w tok self"
    and "in_i128 (bal (fd_tokens s) tok (cat_recipient c) + (cat_total_allocated c - cat_total_claimed c))"
  shows "\<exists>s'. fd_claim tr e i (cat_recipient c) s = Inr (cat_total_allocated c - cat_total_claimed c, s') \<and>
    fd_get_claimable i s' = Inr 0"
proof -
  let ?n = "cat_total_allocated c - cat_total_claimed c"
  note tok = live_token.axioms(1) [OF assms(1)]
  have inv: "fd_books_ok s" "fd_admin_ok s" "bal w tok self + fd_owed tok s \<le> bal (fd_tokens s) tok self"
    using token_contract.fd_reach_inv [OF tok assms(2)] by (auto simp: fd_inv_def)
  have ok: "fd_category_ok i c" "0 \<le> cat_total_claimed c" using inv(1) assms(3) by (auto simp: fd_books_ok_def fd_category_ok_def)
  have cap: "in_i128 (fd_get_total_collected s)" "fd_get_total_allocated s \<le> fd_get_total_collected s"
      "entry_sum cat_total_allocated (fd_category s) = fd_get_total_allocated s"
    using inv(1) by (auto simp: fd_books_ok_def)
  have part: "?n \<le> fd_get_total_allocated s - fd_claimed s"
  proof -
    have "?n \<le> entry_sum (\<lambda>c. cat_total_allocated c - cat_total_claimed c) (fd_category s)"
      using inv(1) by (intro entry_sum_ge_entry [OF fd_books_finite [OF inv(1)] assms(3)]) (auto simp: fd_books_ok_def fd_category_ok_def)
    also have "\<dots> = fd_get_total_allocated s - fd_claimed s"
      using cap(3) by (simp add: entry_sum_def fd_claimed_def sum_subtractf)
    finally show ?thesis .
  qed
  have "cat_total_allocated c \<le> fd_get_total_allocated s"
    unfolding cap(3) [symmetric]
    by (intro entry_sum_ge_entry [OF fd_books_finite [OF inv(1)] assms(3)] fd_allocated_nonneg [OF inv(1)])
  then have fits: "in_i128 ?n" "in_i128 (cat_total_allocated c)"
    using ok(2) assms(4) cap(2) by (auto intro!: in_i128_nonneg [OF cap(1)])
  have "?n \<le> bal (fd_tokens s) tok (env_self e)"
    using part cap(2) inv(3) assms(5,6,8) by (simp add: fd_owed_def)
  then obtain w' where pay: "tr e tok (env_self e) (cat_recipient c) ?n (fd_tokens s) = Some w'"
    using live_token.self_payment_succeeds [OF assms(1) _ _ assms(9)] assms(4) by fastforce
  have "\<not> unwrap_or False (fd_reentrancy_lock s)" using inv(2) by (simp add: fd_admin_ok_def)
  then show ?thesis
    using assms(3-5,7) fits pay
    by (simp add: fd_claim_def fd_claim_one_def require_auth_def fd_load_category_def checked_sub_i128_def checked_add_i128_def
        narrow_i128_def fd_get_token_def fd_transfer_token_def fd_enter_non_reentrant_def call_token_def fd_exit_non_reentrant_def
        Let_def fd_get_claimable_def)
qed

theorem fd_claim_succeeds_witness: "\<exists>s'. fd_claim mock_world_transfer (fd_env 20) ''b'' (Addr 3) fd_demo2 = Inr (67, s')"
  using fd_claim_succeeds [OF mock.live_token_axioms fd_demo2_reach,
      of "''b''" "(fd_demo_cat ''b'' (Addr 3) 6667)\<lparr>cat_total_allocated := 67\<rparr>" "Addr 50" "fd_env 20"]
  by (auto simp: fd_demo2_def fd_demo_def fd_demo_cat_def fd_world_def mock_world_balance_def mock_balance_def arith_defs)

lemma fd_fetch_back_total:
  assumes "\<forall>j. 1 \<le> j \<and> j \<le> i \<longrightarrow> fd_distribution s j \<noteq> None"
  shows "fd_fetch_back i n s = Inr (map (\<lambda>k. the (fd_distribution s (i - k))) [0..<min n i])"
  using assms
proof (induction n arbitrary: i)
  case (Suc n)
  show ?case
  proof (cases i)
    case (Suc j)
    then obtain r where r: "fd_distribution s i = Some r" using Suc.prems by fastforce
    have "fd_fetch_back j n s = Inr (map (\<lambda>k. the (fd_distribution s (j - k))) [0..<min n j])"
      using Suc.prems Suc by (intro Suc.IH) auto
    moreover have "[0..<min (Suc n) i] = 0 # map Suc [0..<min n j]"
      using Suc by (simp add: map_Suc_upt upt_conv_Cons del: upt_Suc)
    ultimately show ?thesis using Suc r by (simp add: fd_get_distribution_def)
  qed simp
qed simp

text \<open>
  The history view. In every reachable state \<open>get_distribution_history\<close> succeeds and returns
  the stored distributions, most recent first, starting \<open>offset\<close> records back, at most \<open>limit\<close>
  and at most 100 of them: the record at position \<open>k\<close> is distribution \<open>counter - offset - k\<close>.
\<close>

theorem fd_history_view:
  assumes "token_contract tr bal"
    and "reach (fd_exec tr) (fd_adm self) (fd_drift bal self) (fd_fresh w) t s"
  shows "\<exists>rs. fd_get_distribution_history offset limit s = Inr rs \<and>
    length rs = min (min limit 100) (fd_get_distribution_counter s - offset) \<and>
    (\<forall>k < length rs. fd_distribution s (fd_get_distribution_counter s - offset - k) = Some (rs ! k) \<and>
       distribution_id (rs ! k) = fd_get_distribution_counter s - offset - k)"
proof -
  let ?c = "fd_get_distribution_counter s"
  have ok: "\<And>i. fd_distribution s i \<noteq> None \<longleftrightarrow> 1 \<le> i \<and> i \<le> ?c" "\<And>i r. fd_distribution s i = Some r \<Longrightarrow> distribution_id r = i"
    using token_contract.fd_reach_inv [OF assms(1,2)] by (auto simp: fd_inv_def fd_admin_ok_def)
  let ?rs = "map (\<lambda>k. the (fd_distribution s (?c - offset - k))) [0..<min (min limit 100) (?c - offset)]"
  have "fd_fetch_back (?c - offset) n s = Inr (map (\<lambda>k. the (fd_distribution s (?c - offset - k))) [0..<min n (?c - offset)])" for n
    using ok(1) by (intro fd_fetch_back_total) auto
  then have run: "fd_get_distribution_history offset limit s = Inr ?rs"
    by (auto simp: fd_get_distribution_history_def FD_MAX_HISTORY_LIMIT_def Let_def min_def)
  have "fd_distribution s (?c - offset - k) = Some (?rs ! k) \<and> distribution_id (?rs ! k) = ?c - offset - k" if "k < length ?rs" for k
  proof -
    have "fd_distribution s (?c - offset - k) \<noteq> None" using that ok(1) by auto
    then obtain r where "fd_distribution s (?c - offset - k) = Some r" by auto
    with that ok(2) show ?thesis by simp
  qed
  with run show ?thesis by (intro exI [of _ ?rs]) simp
qed

theorem fd_history_view_witness:
  "\<exists>rs. fd_get_distribution_history 0 5 fd_demo2 = Inr rs \<and> length rs = 1 \<and> rs ! 0 = fd_demo_record"
proof -
  have c: "fd_get_distribution_counter fd_demo2 = 1" by (simp add: fd_demo2_def fd_get_distribution_counter_def)
  obtain rs where rs: "fd_get_distribution_history 0 5 fd_demo2 = Inr rs" "length rs = 1"
      "\<forall>k < length rs. fd_distribution fd_demo2 (1 - k) = Some (rs ! k)"
    using fd_history_view [OF mock.token_contract_axioms fd_demo2_reach, of 0 5] by (auto simp: c)
  have "fd_distribution fd_demo2 1 = Some fd_demo_record" by (simp add: fd_demo2_def)
  with rs show ?thesis by fastforce
qed

end
