(* ===== verification/Access_Control.thy ===== *)
theory Access_Control
  imports Soroban_Host
begin

text \<open>
  The AccessControl contract (src/contracts/access-control/src/lib.rs): five roles, each
  administered by a role, and members of roles. The storage keys \<open>Initialized\<close>,
  \<open>Member(role, address)\<close> and \<open>RoleAdmin(role)\<close> are the three fields of \<open>ac_state\<close>; an
  absent key is \<open>None\<close>. The escrow contract calls \<open>has_role\<close> of a linked instance.
\<close>

section \<open>State and operations\<close>

datatype role = Admin | Minter | Burner | Pauser | Governance

instantiation role :: enum
begin

definition enum_role :: "role list" where
  "enum_role = [Admin, Minter, Burner, Pauser, Governance]"

definition enum_all_role :: "(role \<Rightarrow> bool) \<Rightarrow> bool" where
  "enum_all_role P \<longleftrightarrow> P Admin \<and> P Minter \<and> P Burner \<and> P Pauser \<and> P Governance"

definition enum_ex_role :: "(role \<Rightarrow> bool) \<Rightarrow> bool" where
  "enum_ex_role P \<longleftrightarrow> P Admin \<or> P Minter \<or> P Burner \<or> P Pauser \<or> P Governance"

lemma UNIV_role: "(UNIV :: role set) = {Admin, Minter, Burner, Pauser, Governance}"
  using role.exhaust by auto

instance
  by standard (auto simp: enum_role_def enum_all_role_def enum_ex_role_def UNIV_role)

end

datatype ac_error = AcAlreadyInitialized | AcUnauthorized | AcInvalidRole | AcAuth

record ac_state =
  ac_initialized :: "bool option"
  ac_member :: "role \<times> address \<Rightarrow> bool option"
  ac_role_admin :: "role \<Rightarrow> role option"

definition ac_fresh :: ac_state where
  "ac_fresh = \<lparr>ac_initialized = None, ac_member = (\<lambda>_. None), ac_role_admin = (\<lambda>_. None)\<rparr>"

definition all_roles :: "role list" where
  "all_roles = [Admin, Minter, Burner, Pauser, Governance]"

definition set_member :: "role \<Rightarrow> address \<Rightarrow> bool \<Rightarrow> ac_state \<Rightarrow> ac_state" where
  "set_member r a v s =
     (if v then s\<lparr>ac_member := (ac_member s)((r, a) \<mapsto> True)\<rparr>
      else s\<lparr>ac_member := (ac_member s)((r, a) := None)\<rparr>)"

definition has_role :: "role \<Rightarrow> address \<Rightarrow> ac_state \<Rightarrow> bool" where
  "has_role r a s \<longleftrightarrow> ac_member s (r, a) \<noteq> None"

definition get_role_admin :: "role \<Rightarrow> ac_state \<Rightarrow> ac_error + role" where
  "get_role_admin r s = ok_or AcInvalidRole (ac_role_admin s r)"

definition require_role_admin :: "role \<Rightarrow> address \<Rightarrow> ac_state \<Rightarrow> ac_error + unit" where
  "require_role_admin r sender s =
     and_then (ok_or AcInvalidRole (ac_role_admin s r)) (\<lambda>admin_role.
     if has_role admin_role sender s then Inr () else Inl AcUnauthorized)"

definition ac_initialize :: "env \<Rightarrow> address \<Rightarrow> ac_state \<Rightarrow> ac_error + unit \<times> ac_state" where
  "ac_initialize e admin s =
     and_then (panic_if (ac_initialized s \<noteq> None) AcAlreadyInitialized) (\<lambda>_.
     and_then (require_auth AcAuth e admin) (\<lambda>_.
     let s = s\<lparr>ac_initialized := Some True\<rparr>;
         s = fold (\<lambda>r s. s\<lparr>ac_role_admin := (ac_role_admin s)(r \<mapsto> Admin)\<rparr>) all_roles s
     in Inr ((), set_member Admin admin True s)))"

definition grant_role ::
  "env \<Rightarrow> role \<Rightarrow> address \<Rightarrow> address \<Rightarrow> ac_state \<Rightarrow> ac_error + unit \<times> ac_state" where
  "grant_role e r account sender s =
     and_then (require_auth AcAuth e sender) (\<lambda>_.
     and_then (require_role_admin r sender s) (\<lambda>_.
     Inr ((), if \<not> has_role r account s then set_member r account True s else s)))"

definition revoke_role ::
  "env \<Rightarrow> role \<Rightarrow> address \<Rightarrow> address \<Rightarrow> ac_state \<Rightarrow> ac_error + unit \<times> ac_state" where
  "revoke_role e r account sender s =
     and_then (require_auth AcAuth e sender) (\<lambda>_.
     and_then (require_role_admin r sender s) (\<lambda>_.
     Inr ((), if has_role r account s then set_member r account False s else s)))"

definition set_role_admin ::
  "env \<Rightarrow> role \<Rightarrow> role \<Rightarrow> address \<Rightarrow> ac_state \<Rightarrow> ac_error + unit \<times> ac_state" where
  "set_role_admin e r admin_role sender s =
     and_then (require_auth AcAuth e sender) (\<lambda>_.
     and_then (require_role_admin r sender s) (\<lambda>_.
     Inr ((), s\<lparr>ac_role_admin := (ac_role_admin s)(r \<mapsto> admin_role)\<rparr>)))"

text \<open>The state-changing entry points as calls of the transition system.\<close>

datatype ac_call =
    AcInitialize address
  | AcGrantRole role address address
  | AcRevokeRole role address address
  | AcSetRoleAdmin role role address

fun ac_exec :: "env \<Rightarrow> ac_call \<Rightarrow> ac_state \<Rightarrow> ac_state option" where
  "ac_exec e (AcInitialize admin) s = state_of (ac_initialize e admin s)"
| "ac_exec e (AcGrantRole r a sender) s = state_of (grant_role e r a sender s)"
| "ac_exec e (AcRevokeRole r a sender) s = state_of (revoke_role e r a sender s)"
| "ac_exec e (AcSetRoleAdmin r r' sender) s = state_of (set_role_admin e r r' sender s)"

section \<open>What each operation does\<close>

lemma has_role_set_member [simp]:
  "has_role r a (set_member r' a' v s) \<longleftrightarrow> (if (r, a) = (r', a') then v else has_role r a s)"
  by (auto simp: has_role_def set_member_def)

lemma set_member_frame [simp]:
  "ac_role_admin (set_member r a v s) = ac_role_admin s"
  "ac_initialized (set_member r a v s) = ac_initialized s"
  by (auto simp: set_member_def)

lemma require_role_admin_Inr [result_iffs]:
  "require_role_admin r sender s = Inr u \<longleftrightarrow>
     (\<exists>ar. ac_role_admin s r = Some ar \<and> has_role ar sender s)"
  by (auto simp: require_role_admin_def result_iffs split: if_splits)

lemma fold_role_admin:
  "fold (\<lambda>r s. s\<lparr>ac_role_admin := (ac_role_admin s)(r \<mapsto> Admin)\<rparr>) rs s =
   s\<lparr>ac_role_admin := (\<lambda>r. if r \<in> set rs then Some Admin else ac_role_admin s r)\<rparr>"
  by (induction rs arbitrary: s) (auto simp: fun_eq_iff)

lemma all_roles_complete [simp]: "r \<in> set all_roles"
  by (cases r) (auto simp: all_roles_def)

lemma ac_initialize_Inr:
  "ac_initialize e admin s = Inr (u, s') \<longleftrightarrow>
     ac_initialized s = None \<and> env_auth e admin \<and>
     s' = set_member Admin admin True
            (s\<lparr>ac_initialized := Some True, ac_role_admin := (\<lambda>_. Some Admin)\<rparr>)"
  by (auto simp: ac_initialize_def result_iffs fold_role_admin Let_def)

lemmas ac_op_defs = grant_role_def revoke_role_def set_role_admin_def

text \<open>The laws a client of the registry relies on: membership after a grant or a revocation.\<close>

locale role_registry =
  fixes holds :: "'r \<Rightarrow> 'a \<Rightarrow> 's \<Rightarrow> bool"
    and grant :: "env \<Rightarrow> 'r \<Rightarrow> 'a \<Rightarrow> 'a \<Rightarrow> 's \<Rightarrow> 'e + unit \<times> 's"
    and revoke :: "env \<Rightarrow> 'r \<Rightarrow> 'a \<Rightarrow> 'a \<Rightarrow> 's \<Rightarrow> 'e + unit \<times> 's"
  assumes grant_holds: "grant e r a sender s = Inr (u, s') \<Longrightarrow>
      holds r' a' s' \<longleftrightarrow> (r', a') = (r, a) \<or> holds r' a' s"
    and revoke_holds: "revoke e r a sender s = Inr (u, s') \<Longrightarrow>
      holds r' a' s' \<longleftrightarrow> (r', a') \<noteq> (r, a) \<and> holds r' a' s"
begin

lemma grant_then_revoke:
  assumes "grant e r a sender s = Inr (u, s1)" and "revoke e' r a sender' s1 = Inr (u', s2)"
    and "\<not> holds r a s"
  shows "holds r' a' s2 = holds r' a' s"
  using assms(3) grant_holds [OF assms(1)] revoke_holds [OF assms(2)] by auto

lemma revoke_twice:
  assumes "revoke e r a sender s = Inr (u, s1)" and "revoke e' r a sender' s1 = Inr (u', s2)"
  shows "holds r' a' s2 = holds r' a' s1"
  using revoke_holds [OF assms(1)] revoke_holds [OF assms(2)] by auto

end

interpretation acr: role_registry has_role grant_role revoke_role
  by unfold_locales (auto simp: ac_op_defs result_iffs split: if_splits)

section \<open>Invariant\<close>

text \<open>Before initialisation nothing is stored; afterwards every role has an administering role.\<close>

definition ac_inv :: "u64 \<Rightarrow> ac_state \<Rightarrow> bool" where
  "ac_inv t s \<longleftrightarrow>
     (case ac_initialized s of
        None \<Rightarrow> ac_member s = (\<lambda>_. None) \<and> ac_role_admin s = (\<lambda>_. None)
      | Some _ \<Rightarrow> \<forall>r. ac_role_admin s r \<noteq> None)"

lemma ac_inv_call: "ac_inv t s \<Longrightarrow> ac_exec e c s = Some s' \<Longrightarrow> ac_inv t s'"
  by (cases c)
    (auto simp: ac_inv_def result_iffs ac_initialize_Inr ac_op_defs split: option.splits if_splits)

interpretation acm: contract_machine ac_exec "\<lambda>_ _. True" "\<lambda>s s'. s' = s" ac_inv ac_fresh
  by unfold_locales (auto intro: ac_inv_call, auto simp: ac_inv_def ac_fresh_def split: option.splits)

section \<open>Properties\<close>

text \<open>
  Only the administrators of a role change its members. If a call changes whether an account
  holds a role on an initialised registry, the call is a grant or a revocation of exactly that
  role and account, its sender authorised it, and the sender holds the role that administers it.
\<close>

theorem membership_change_authorised:
  assumes "ac_exec e c s = Some s'" and "ac_initialized s \<noteq> None"
    and "has_role r a s' \<noteq> has_role r a s"
  shows "\<exists>sender ar. (c = AcGrantRole r a sender \<or> c = AcRevokeRole r a sender) \<and>
    env_auth e sender \<and> ac_role_admin s r = Some ar \<and> has_role ar sender s"
  using assms
  by (cases c) (auto simp: result_iffs ac_initialize_Inr ac_op_defs has_role_def set_member_def
      split: if_splits)


text \<open>The concrete run of the witnesses: the registry initialised by account 1.\<close>

definition ac_env :: env where
  "ac_env = \<lparr>env_timestamp = 0, env_auth = (\<lambda>_. True), env_self = Addr 100, env_sequence = 0\<rparr>"

definition ac_ready :: ac_state where
  "ac_ready = run_calls ac_exec [(ac_env, AcInitialize (Addr 1))] ac_fresh"

lemma ac_ready_eq:
  "ac_ready = set_member Admin (Addr 1) True
     (ac_fresh\<lparr>ac_initialized := Some True, ac_role_admin := (\<lambda>_. Some Admin)\<rparr>)"
proof -
  have "ac_exec ac_env (AcInitialize (Addr 1)) ac_fresh = Some (set_member Admin (Addr 1) True
     (ac_fresh\<lparr>ac_initialized := Some True, ac_role_admin := (\<lambda>_. Some Admin)\<rparr>))"
    by (simp add: result_iffs ac_initialize_Inr) (simp add: ac_env_def ac_fresh_def)
  then show ?thesis by (simp add: ac_ready_def)
qed

lemma ac_ready_simps [simp]:
  "ac_initialized ac_ready = Some True"
  "ac_role_admin ac_ready r = Some Admin"
  "has_role r a ac_ready \<longleftrightarrow> r = Admin \<and> a = Addr 1"
  by (simp_all add: ac_ready_eq) (simp add: ac_fresh_def has_role_def)

theorem membership_change_authorised_witness:
  "\<exists>s'. ac_exec ac_env (AcGrantRole Minter (Addr 2) (Addr 1)) ac_ready = Some s' \<and>
     has_role Minter (Addr 2) s' \<and>
     (\<exists>sender ar. ac_role_admin ac_ready Minter = Some ar \<and> has_role ar sender ac_ready)"
proof -
  let ?c = "AcGrantRole Minter (Addr 2) (Addr 1)"
  let ?s' = "set_member Minter (Addr 2) True ac_ready"
  have run: "ac_exec ac_env ?c ac_ready = Some ?s'"
    by (simp add: result_iffs grant_role_def ac_env_def)
  have changed: "has_role Minter (Addr 2) ?s' \<noteq> has_role Minter (Addr 2) ac_ready" by simp
  have "\<exists>sender ar. ac_role_admin ac_ready Minter = Some ar \<and> has_role ar sender ac_ready"
    using membership_change_authorised [OF run _ changed] by auto
  with run show ?thesis by auto
qed

lemma ac_exec_locked:
  assumes "ac_initialized s \<noteq> None"
    and "\<And>r ar a. ac_role_admin s r = Some ar \<Longrightarrow> \<not> has_role ar a s"
  shows "ac_exec e c s = None"
proof (cases "ac_exec e c s")
  case (Some s')
  with assms show ?thesis
    by (cases c) (auto simp: result_iffs ac_initialize_Inr ac_op_defs)
qed

text \<open>
  A registry whose administering roles have no member left is frozen: whoever calls
  whatever afterwards, no sequence of calls changes its state again. The last administrator can
  bring this about by revoking itself, which nothing in the contract prevents.
\<close>

theorem registry_without_admins_is_frozen:
  assumes "ac_initialized s \<noteq> None"
    and "\<forall>r ar a. ac_role_admin s r = Some ar \<longrightarrow> \<not> has_role ar a s"
  shows "run_calls ac_exec cs s = s"
proof (induction cs)
  case (Cons ec cs)
  with assms show ?case by (cases ec) (simp add: ac_exec_locked)
qed simp

theorem registry_without_admins_is_frozen_witness:
  "\<exists>s. ac_exec ac_env (AcRevokeRole Admin (Addr 1) (Addr 1)) ac_ready = Some s \<and>
     run_calls ac_exec [(ac_env, AcGrantRole Admin (Addr 1) (Addr 1)), (ac_env, AcInitialize (Addr 1))] s = s"
proof -
  let ?s = "set_member Admin (Addr 1) False ac_ready"
  have run: "ac_exec ac_env (AcRevokeRole Admin (Addr 1) (Addr 1)) ac_ready = Some ?s"
    by (simp add: result_iffs revoke_role_def ac_env_def)
  have init: "ac_initialized ?s \<noteq> None" by simp
  have empty: "\<forall>r ar a. ac_role_admin ?s r = Some ar \<longrightarrow> \<not> has_role ar a ?s" by simp
  have "run_calls ac_exec [(ac_env, AcGrantRole Admin (Addr 1) (Addr 1)), (ac_env, AcInitialize (Addr 1))] ?s = ?s"
    by (rule registry_without_admins_is_frozen [OF init empty])
  with run show ?thesis by blast
qed

text \<open>
  Every role of a reachable, initialised registry has an administering role, so a role query
  never fails with \<open>InvalidRole\<close> after initialisation.
\<close>

theorem role_admin_always_defined:
  assumes "reach ac_exec (\<lambda>_ _. True) (\<lambda>s s'. s' = s) ac_fresh t s" and "ac_initialized s \<noteq> None"
  shows "\<exists>ar. get_role_admin r s = Inr ar"
  using acm.reach_inv [OF assms(1)] assms(2)
  by (auto simp: ac_inv_def get_role_admin_def result_iffs split: option.splits)

theorem role_admin_always_defined_witness:
  "\<exists>ar. get_role_admin Pauser ac_ready = Inr ar"
proof -
  have "reach ac_exec (\<lambda>_ _. True) (\<lambda>s s'. s' = s) ac_fresh
      (last_time 0 [(ac_env, AcInitialize (Addr 1))]) ac_ready"
    unfolding ac_ready_def by (rule reach_run) (simp add: ac_env_def)
  then show ?thesis by (rule role_admin_always_defined) simp
qed

end
