(* ===== verification/Escrow.thy ===== *)
theory Escrow
  imports Mock_Token Access_Control
begin

text \<open>
  The Escrow contract (src/contracts/escrow/src/lib.rs): escrow instances that hold a token or an
  internally accounted value, a queue of withdrawals with M-of-N approvals, a time lock with a grace
  period and a sliding-window rate limit. Admin calls accept the stored admin and, when an
  access-control contract is linked, holders of its Admin role: \<open>es_access\<close> is the storage of the
  access-control contracts by address, \<open>es_tokens\<close> the state of the token contracts. A call to an
  address without such a contract traps.
\<close>

section \<open>State\<close>

definition MIN_AMOUNT :: i128 where
  "MIN_AMOUNT = 1"

definition ES_MAX_SIGNERS :: u32 where
  "ES_MAX_SIGNERS = 20"

definition ZERO_DELAY :: u64 where
  "ZERO_DELAY = 0"

record escrow_config =
  ec_admin :: address
  ec_access_control :: "address option"
  required_approvals :: u32
  ec_signer_count :: u32
  timelock_delay :: u64
  grace_period :: u64
  rate_limit_window :: u64
  rate_limit_max :: u32
  ec_paused :: bool

record escrow_record =
  er_id :: u64
  er_token :: address
  is_native :: bool
  er_creator :: address
  purpose :: string
  er_created_at :: u64
  er_active :: bool

record escrow_transaction =
  et_id :: u64
  et_escrow_id :: u64
  et_recipient :: address
  et_amount :: i128
  et_submitter :: address
  approvers :: "address list"
  queued_at :: u64
  et_executed :: bool
  et_cancelled :: bool
  et_executed_at :: u64

record 'w es_state =
  es_config :: "escrow_config option"
  es_signer :: "address \<Rightarrow> bool option"
  es_signer_list :: "address list option"
  es_escrow :: "u64 \<Rightarrow> escrow_record option"
  es_escrow_balance :: "u64 \<Rightarrow> i128 option"
  es_transaction :: "u64 \<Rightarrow> escrow_transaction option"
  es_global_executions :: "u64 list option"
  es_recipient_executions :: "address \<Rightarrow> u64 list option"
  es_next_escrow_id :: "u64 option"
  es_next_tx_id :: "u64 option"
  es_access :: "address \<Rightarrow> ac_state option"
  es_tokens :: 'w

text \<open>
  The constructors of \<open>EscrowError\<close>, then the failures of the host: a missing authorisation, a
  trap of the token, and a panic of the contract itself (\<open>unwrap\<close> of an absent key, arithmetic
  overflow, a call to an address without contract).
\<close>

datatype es_error =
    EsAlreadyInitialized
  | EsNotInitialized
  | EsUnauthorized
  | EsInvalidParam
  | EsNotFound
  | EsAlreadySigner
  | EsNotASigner
  | EsPaused
  | EsInsufficientBalance
  | EsAlreadyExecuted
  | EsAlreadyCancelled
  | EsNotApproved
  | EsTimeLocked
  | EsGraceExpired
  | EsRateLimited
  | EsInactiveEscrow
  | EsAlreadyApproved
  | EsThresholdTooHigh
  | EsAuth
  | EsToken
  | EsPanic

definition es_fresh :: "(address \<Rightarrow> ac_state option) \<Rightarrow> 'w \<Rightarrow> 'w es_state" where
  "es_fresh acs w =
     \<lparr>es_config = None, es_signer = (\<lambda>_. None), es_signer_list = None, es_escrow = (\<lambda>_. None),
      es_escrow_balance = (\<lambda>_. None), es_transaction = (\<lambda>_. None), es_global_executions = None,
      es_recipient_executions = (\<lambda>_. None), es_next_escrow_id = None, es_next_tx_id = None,
      es_access = acs, es_tokens = w\<rparr>"

section \<open>Internal helpers\<close>

definition es_get_config :: "'w es_state \<Rightarrow> es_error + escrow_config" where
  "es_get_config s = ok_or EsNotInitialized (es_config s)"

definition es_escrow_record :: "u64 \<Rightarrow> 'w es_state \<Rightarrow> es_error + escrow_record" where
  "es_escrow_record i s = ok_or EsNotFound (es_escrow s i)"

definition es_load_transaction :: "u64 \<Rightarrow> 'w es_state \<Rightarrow> es_error + escrow_transaction" where
  "es_load_transaction i s = ok_or EsNotFound (es_transaction s i)"

definition es_escrow_balance_raw :: "u64 \<Rightarrow> 'w es_state \<Rightarrow> i128" where
  "es_escrow_balance_raw i s = unwrap_or 0 (es_escrow_balance s i)"

definition es_is_signer :: "address \<Rightarrow> 'w es_state \<Rightarrow> bool" where
  "es_is_signer who s = unwrap_or False (es_signer s who)"

definition es_is_admin :: "escrow_config \<Rightarrow> address \<Rightarrow> 'w es_state \<Rightarrow> es_error + bool" where
  "es_is_admin c who s =
     (if who = ec_admin c then Inr True
      else case ec_access_control c of
        None \<Rightarrow> Inr False
      | Some ac \<Rightarrow> and_then (ok_or EsPanic (es_access s ac)) (\<lambda>st. Inr (has_role Admin who st)))"

definition es_require_admin :: "env \<Rightarrow> escrow_config \<Rightarrow> address \<Rightarrow> 'w es_state \<Rightarrow> es_error + unit" where
  "es_require_admin e c who s =
     and_then (require_auth EsAuth e who) (\<lambda>_.
     and_then (es_is_admin c who s) (\<lambda>is_adm.
     panic_if (\<not> is_adm) EsUnauthorized))"

definition es_require_signer :: "env \<Rightarrow> address \<Rightarrow> 'w es_state \<Rightarrow> es_error + unit" where
  "es_require_signer e who s =
     and_then (require_auth EsAuth e who) (\<lambda>_. panic_if (\<not> es_is_signer who s) EsNotASigner)"

definition es_require_signer_or_admin :: "env \<Rightarrow> escrow_config \<Rightarrow> address \<Rightarrow> 'w es_state \<Rightarrow> es_error + unit" where
  "es_require_signer_or_admin e c who s =
     and_then (require_auth EsAuth e who) (\<lambda>_.
     if es_is_signer who s then Inr ()
     else and_then (es_is_admin c who s) (\<lambda>is_adm. panic_if (\<not> is_adm) EsUnauthorized))"

fun es_count_in_window :: "u64 list \<Rightarrow> u64 \<Rightarrow> u32 \<Rightarrow> u32" where
  "es_count_in_window [] cutoff n = n"
| "es_count_in_window (v # vs) cutoff n = es_count_in_window vs cutoff (if v \<ge> cutoff then n + 1 else n)"

fun es_prune_window :: "u64 list \<Rightarrow> u64 \<Rightarrow> u64 list \<Rightarrow> u64 list" where
  "es_prune_window [] cutoff kept = kept"
| "es_prune_window (v # vs) cutoff kept = es_prune_window vs cutoff (if v \<ge> cutoff then kept @ [v] else kept)"

definition es_check_rate_limits :: "env \<Rightarrow> escrow_config \<Rightarrow> address \<Rightarrow> 'w es_state \<Rightarrow> es_error + unit" where
  "es_check_rate_limits e c recipient s =
     (let now = env_timestamp e;
          cutoff = saturating_sub_u64 now (rate_limit_window c) in
      and_then (ok_or EsPanic (es_global_executions s)) (\<lambda>global.
      and_then (panic_if (es_count_in_window global cutoff 0 \<ge> rate_limit_max c) EsRateLimited) (\<lambda>_.
      let per_recipient = unwrap_or [] (es_recipient_executions s recipient) in
      panic_if (es_count_in_window per_recipient cutoff 0 \<ge> rate_limit_max c) EsRateLimited)))"

fun es_try_index_of :: "address list \<Rightarrow> address \<Rightarrow> nat option" where
  "es_try_index_of [] item = None"
| "es_try_index_of (x # xs) item = (if x = item then Some 0 else map_option Suc (es_try_index_of xs item))"

definition es_contains :: "address list \<Rightarrow> address \<Rightarrow> bool" where
  "es_contains xs item \<longleftrightarrow> es_try_index_of xs item \<noteq> None"

definition es_index_of :: "address list \<Rightarrow> address \<Rightarrow> es_error + nat" where
  "es_index_of xs item = ok_or EsPanic (es_try_index_of xs item)"

definition vec_remove :: "nat \<Rightarrow> 'a list \<Rightarrow> 'a list" where
  "vec_remove i xs = take i xs @ drop (Suc i) xs"

fun es_check_duplicates :: "address list \<Rightarrow> es_error + unit" where
  "es_check_duplicates [] = Inr ()"
| "es_check_duplicates (x # xs) =
     (if vec_contains xs x then Inl EsInvalidParam else es_check_duplicates xs)"

definition es_validate_signer_set :: "address list \<Rightarrow> u32 \<Rightarrow> es_error + unit" where
  "es_validate_signer_set signers m =
     and_then (panic_if (m = 0 \<or> m > length signers \<or> length signers > ES_MAX_SIGNERS) EsInvalidParam) (\<lambda>_.
     es_check_duplicates signers)"

section \<open>Configuration\<close>

definition es_initialize ::
  "env \<Rightarrow> address \<Rightarrow> address option \<Rightarrow> address list \<Rightarrow> u32 \<Rightarrow> u64 \<Rightarrow> u64 \<Rightarrow> u64 \<Rightarrow> u32 \<Rightarrow> 'w es_state \<Rightarrow>
   es_error + unit \<times> 'w es_state" where
  "es_initialize e admin access signers m delay grace window max_n s =
     and_then (panic_if (es_config s \<noteq> None) EsAlreadyInitialized) (\<lambda>_.
     and_then (require_auth EsAuth e admin) (\<lambda>_.
     and_then (es_validate_signer_set signers m) (\<lambda>_.
     and_then (panic_if (grace = ZERO_DELAY) EsInvalidParam) (\<lambda>_.
     and_then (panic_if (max_n = 0 \<or> window = ZERO_DELAY) EsInvalidParam) (\<lambda>_.
     let s = fold (\<lambda>a s. s\<lparr>es_signer := (es_signer s)(a \<mapsto> True)\<rparr>) signers s;
         c = \<lparr>ec_admin = admin, ec_access_control = access, required_approvals = m,
              ec_signer_count = length signers, timelock_delay = delay, grace_period = grace,
              rate_limit_window = window, rate_limit_max = max_n, ec_paused = False\<rparr>
     in Inr ((), s\<lparr>es_signer_list := Some signers, es_global_executions := Some [],
                  es_next_escrow_id := Some 1, es_next_tx_id := Some 1, es_config := Some c\<rparr>))))))"

definition es_add_signer :: "env \<Rightarrow> address \<Rightarrow> address \<Rightarrow> 'w es_state \<Rightarrow> es_error + unit \<times> 'w es_state" where
  "es_add_signer e caller signer s =
     and_then (es_get_config s) (\<lambda>c.
     and_then (es_require_admin e c caller s) (\<lambda>_.
     and_then (panic_if (es_is_signer signer s) EsAlreadySigner) (\<lambda>_.
     and_then (panic_if (ec_signer_count c \<ge> ES_MAX_SIGNERS) EsInvalidParam) (\<lambda>_.
     let s = s\<lparr>es_signer := (es_signer s)(signer \<mapsto> True)\<rparr> in
     and_then (ok_or EsPanic (es_signer_list s)) (\<lambda>signers.
     let s = s\<lparr>es_signer_list := Some (signers @ [signer])\<rparr> in
     and_then (ok_or EsPanic (checked_add_u32 (ec_signer_count c) 1)) (\<lambda>count.
     let c = c\<lparr>ec_signer_count := count\<rparr>;
         c = (if required_approvals c > ec_signer_count c
              then c\<lparr>required_approvals := ec_signer_count c\<rparr> else c)
     in Inr ((), s\<lparr>es_config := Some c\<rparr>)))))))"

definition es_remove_signer :: "env \<Rightarrow> address \<Rightarrow> address \<Rightarrow> 'w es_state \<Rightarrow> es_error + unit \<times> 'w es_state" where
  "es_remove_signer e caller signer s =
     and_then (es_get_config s) (\<lambda>c.
     and_then (es_require_admin e c caller s) (\<lambda>_.
     and_then (panic_if (\<not> es_is_signer signer s) EsNotASigner) (\<lambda>_.
     and_then (panic_if (ec_signer_count c \<le> required_approvals c) EsThresholdTooHigh) (\<lambda>_.
     let s = s\<lparr>es_signer := (es_signer s)(signer := None)\<rparr> in
     and_then (ok_or EsPanic (es_signer_list s)) (\<lambda>signers.
     and_then (es_index_of signers signer) (\<lambda>idx.
     let s = s\<lparr>es_signer_list := Some (vec_remove idx signers)\<rparr> in
     and_then (ok_or EsPanic (checked_sub_u (ec_signer_count c) 1)) (\<lambda>count.
     Inr ((), s\<lparr>es_config := Some (c\<lparr>ec_signer_count := count\<rparr>)\<rparr>))))))))"

definition es_set_threshold :: "env \<Rightarrow> address \<Rightarrow> u32 \<Rightarrow> 'w es_state \<Rightarrow> es_error + unit \<times> 'w es_state" where
  "es_set_threshold e caller m s =
     and_then (es_get_config s) (\<lambda>c.
     and_then (es_require_admin e c caller s) (\<lambda>_.
     and_then (panic_if (m = 0 \<or> m > ec_signer_count c) EsInvalidParam) (\<lambda>_.
     Inr ((), s\<lparr>es_config := Some (c\<lparr>required_approvals := m\<rparr>)\<rparr>))))"

definition es_set_timelock :: "env \<Rightarrow> address \<Rightarrow> u64 \<Rightarrow> u64 \<Rightarrow> 'w es_state \<Rightarrow> es_error + unit \<times> 'w es_state" where
  "es_set_timelock e caller delay grace s =
     and_then (es_get_config s) (\<lambda>c.
     and_then (es_require_admin e c caller s) (\<lambda>_.
     and_then (panic_if (grace = ZERO_DELAY \<or> delay > u64_max - grace) EsInvalidParam) (\<lambda>_.
     Inr ((), s\<lparr>es_config := Some (c\<lparr>timelock_delay := delay, grace_period := grace\<rparr>)\<rparr>))))"

definition es_set_rate_limit :: "env \<Rightarrow> address \<Rightarrow> u64 \<Rightarrow> u32 \<Rightarrow> 'w es_state \<Rightarrow> es_error + unit \<times> 'w es_state" where
  "es_set_rate_limit e caller window max_n s =
     and_then (es_get_config s) (\<lambda>c.
     and_then (es_require_admin e c caller s) (\<lambda>_.
     and_then (panic_if (window = ZERO_DELAY \<or> max_n = 0) EsInvalidParam) (\<lambda>_.
     Inr ((), s\<lparr>es_config := Some (c\<lparr>rate_limit_window := window, rate_limit_max := max_n\<rparr>)\<rparr>))))"

definition es_pause :: "env \<Rightarrow> address \<Rightarrow> 'w es_state \<Rightarrow> es_error + unit \<times> 'w es_state" where
  "es_pause e caller s =
     and_then (es_get_config s) (\<lambda>c.
     and_then (es_require_admin e c caller s) (\<lambda>_.
     Inr ((), s\<lparr>es_config := Some (c\<lparr>ec_paused := True\<rparr>)\<rparr>)))"

definition es_unpause :: "env \<Rightarrow> address \<Rightarrow> 'w es_state \<Rightarrow> es_error + unit \<times> 'w es_state" where
  "es_unpause e caller s =
     and_then (es_get_config s) (\<lambda>c.
     and_then (es_require_admin e c caller s) (\<lambda>_.
     Inr ((), s\<lparr>es_config := Some (c\<lparr>ec_paused := False\<rparr>)\<rparr>)))"

section \<open>Escrow instances\<close>

definition es_create_escrow ::
  "env \<Rightarrow> address \<Rightarrow> address \<Rightarrow> bool \<Rightarrow> string \<Rightarrow> 'w es_state \<Rightarrow> es_error + u64 \<times> 'w es_state" where
  "es_create_escrow e creator token native why s =
     and_then (es_get_config s) (\<lambda>c.
     and_then (panic_if (ec_paused c) EsPaused) (\<lambda>_.
     and_then (require_auth EsAuth e creator) (\<lambda>_.
     let i = unwrap_or 1 (es_next_escrow_id s);
         r = \<lparr>er_id = i, er_token = token, is_native = native, er_creator = creator, purpose = why,
              er_created_at = env_timestamp e, er_active = True\<rparr>;
         s = s\<lparr>es_escrow := (es_escrow s)(i \<mapsto> r), es_escrow_balance := (es_escrow_balance s)(i \<mapsto> 0)\<rparr> in
     and_then (ok_or EsPanic (checked_add_u64 i 1)) (\<lambda>next_id.
     Inr (i, s\<lparr>es_next_escrow_id := Some next_id\<rparr>)))))"

definition es_deposit ::
  "'w token_transfer \<Rightarrow> env \<Rightarrow> u64 \<Rightarrow> address \<Rightarrow> i128 \<Rightarrow> 'w es_state \<Rightarrow> es_error + unit \<times> 'w es_state" where
  "es_deposit tr e i src amount s =
     and_then (require_auth EsAuth e src) (\<lambda>_.
     and_then (panic_if (amount < MIN_AMOUNT) EsInvalidParam) (\<lambda>_.
     and_then (es_escrow_record i s) (\<lambda>r.
     and_then (panic_if (\<not> er_active r) EsInactiveEscrow) (\<lambda>_.
     and_then (ok_or EsPanic (checked_add_i128 (es_escrow_balance_raw i s) amount)) (\<lambda>b.
     let s = s\<lparr>es_escrow_balance := (es_escrow_balance s)(i \<mapsto> b)\<rparr> in
     if \<not> is_native r
     then and_then (call_token tr EsToken e (er_token r) src (env_self e) amount (es_tokens s)) (\<lambda>w.
          Inr ((), s\<lparr>es_tokens := w\<rparr>))
     else Inr ((), s))))))"

definition es_close_escrow :: "env \<Rightarrow> address \<Rightarrow> u64 \<Rightarrow> 'w es_state \<Rightarrow> es_error + unit \<times> 'w es_state" where
  "es_close_escrow e caller i s =
     and_then (es_get_config s) (\<lambda>c.
     and_then (es_require_admin e c caller s) (\<lambda>_.
     and_then (es_escrow_record i s) (\<lambda>r.
     Inr ((), s\<lparr>es_escrow := (es_escrow s)(i \<mapsto> r\<lparr>er_active := False\<rparr>)\<rparr>))))"

section \<open>The transaction queue\<close>

definition es_submit_transaction ::
  "env \<Rightarrow> address \<Rightarrow> u64 \<Rightarrow> address \<Rightarrow> i128 \<Rightarrow> 'w es_state \<Rightarrow> es_error + u64 \<times> 'w es_state" where
  "es_submit_transaction e submitter escrow_id recipient amount s =
     and_then (es_get_config s) (\<lambda>c.
     and_then (panic_if (ec_paused c) EsPaused) (\<lambda>_.
     and_then (es_require_signer_or_admin e c submitter s) (\<lambda>_.
     and_then (panic_if (amount < MIN_AMOUNT) EsInvalidParam) (\<lambda>_.
     and_then (es_escrow_record escrow_id s) (\<lambda>_.
     and_then (panic_if (es_escrow_balance_raw escrow_id s < amount) EsInsufficientBalance) (\<lambda>_.
     let i = unwrap_or 1 (es_next_tx_id s);
         tx = \<lparr>et_id = i, et_escrow_id = escrow_id, et_recipient = recipient, et_amount = amount,
               et_submitter = submitter, approvers = [submitter], queued_at = env_timestamp e,
               et_executed = False, et_cancelled = False, et_executed_at = 0\<rparr>;
         s = s\<lparr>es_transaction := (es_transaction s)(i \<mapsto> tx)\<rparr> in
     and_then (ok_or EsPanic (checked_add_u64 i 1)) (\<lambda>next_id.
     Inr (i, s\<lparr>es_next_tx_id := Some next_id\<rparr>))))))))"

definition es_approve_transaction :: "env \<Rightarrow> address \<Rightarrow> u64 \<Rightarrow> 'w es_state \<Rightarrow> es_error + unit \<times> 'w es_state" where
  "es_approve_transaction e signer i s =
     and_then (es_get_config s) (\<lambda>_.
     and_then (es_require_signer e signer s) (\<lambda>_.
     and_then (es_load_transaction i s) (\<lambda>tx.
     and_then (panic_if (et_executed tx) EsAlreadyExecuted) (\<lambda>_.
     and_then (panic_if (et_cancelled tx) EsAlreadyCancelled) (\<lambda>_.
     and_then (panic_if (es_contains (approvers tx) signer) EsAlreadyApproved) (\<lambda>_.
     Inr ((), s\<lparr>es_transaction := (es_transaction s)(i \<mapsto> tx\<lparr>approvers := approvers tx @ [signer]\<rparr>)\<rparr>)))))))"

definition es_revoke_approval :: "env \<Rightarrow> address \<Rightarrow> u64 \<Rightarrow> 'w es_state \<Rightarrow> es_error + unit \<times> 'w es_state" where
  "es_revoke_approval e signer i s =
     and_then (es_get_config s) (\<lambda>_.
     and_then (es_require_signer e signer s) (\<lambda>_.
     and_then (es_load_transaction i s) (\<lambda>tx.
     and_then (panic_if (et_executed tx \<or> et_cancelled tx) EsNotFound) (\<lambda>_.
     and_then (ok_or EsNotApproved (es_try_index_of (approvers tx) signer)) (\<lambda>idx.
     Inr ((), s\<lparr>es_transaction := (es_transaction s)(i \<mapsto> tx\<lparr>approvers := vec_remove idx (approvers tx)\<rparr>)\<rparr>))))))"

definition es_execute_transaction ::
  "'w token_transfer \<Rightarrow> env \<Rightarrow> u64 \<Rightarrow> 'w es_state \<Rightarrow> es_error + unit \<times> 'w es_state" where
  "es_execute_transaction tr e i s =
     and_then (es_get_config s) (\<lambda>c.
     and_then (panic_if (ec_paused c) EsPaused) (\<lambda>_.
     and_then (es_load_transaction i s) (\<lambda>tx.
     and_then (panic_if (et_executed tx) EsAlreadyExecuted) (\<lambda>_.
     and_then (panic_if (et_cancelled tx) EsAlreadyCancelled) (\<lambda>_.
     and_then (panic_if (length (approvers tx) < required_approvals c) EsNotApproved) (\<lambda>_.
     let now = env_timestamp e in
     and_then (ok_or EsInvalidParam (checked_add_u64 (queued_at tx) (timelock_delay c))) (\<lambda>unlock_at.
     and_then (panic_if (now < unlock_at) EsTimeLocked) (\<lambda>_.
     and_then (ok_or EsInvalidParam (checked_add_u64 unlock_at (grace_period c))) (\<lambda>grace_until.
     and_then (panic_if (now > grace_until) EsGraceExpired) (\<lambda>_.
     and_then (es_check_rate_limits e c (et_recipient tx) s) (\<lambda>_.
     and_then (es_escrow_record (et_escrow_id tx) s) (\<lambda>r.
     let balance = es_escrow_balance_raw (et_escrow_id tx) s in
     and_then (panic_if (balance < et_amount tx) EsInsufficientBalance) (\<lambda>_.
     and_then (ok_or EsPanic (checked_sub_i128 balance (et_amount tx))) (\<lambda>b.
     let s = s\<lparr>es_escrow_balance := (es_escrow_balance s)(et_escrow_id tx \<mapsto> b)\<rparr> in
     and_then (if \<not> is_native r
               then and_then (call_token tr EsToken e (er_token r) (env_self e) (et_recipient tx)
                                (et_amount tx) (es_tokens s)) (\<lambda>w. Inr (s\<lparr>es_tokens := w\<rparr>))
               else Inr s) (\<lambda>s.
     let s = s\<lparr>es_transaction := (es_transaction s)(i \<mapsto> tx\<lparr>et_executed := True, et_executed_at := now\<rparr>)\<rparr>;
         cutoff = saturating_sub_u64 now (rate_limit_window c) in
     and_then (ok_or EsPanic (es_global_executions s)) (\<lambda>global.
     let s = s\<lparr>es_global_executions := Some (es_prune_window (global @ [now]) cutoff [])\<rparr>;
         per_recipient = unwrap_or [] (es_recipient_executions s (et_recipient tx))
     in Inr ((), s\<lparr>es_recipient_executions := (es_recipient_executions s)
                    (et_recipient tx \<mapsto> es_prune_window (per_recipient @ [now]) cutoff [])\<rparr>)))))))))))))))))"

definition es_cancel_transaction :: "env \<Rightarrow> address \<Rightarrow> u64 \<Rightarrow> 'w es_state \<Rightarrow> es_error + unit \<times> 'w es_state" where
  "es_cancel_transaction e caller i s =
     and_then (require_auth EsAuth e caller) (\<lambda>_.
     and_then (es_get_config s) (\<lambda>c.
     and_then (es_load_transaction i s) (\<lambda>tx.
     and_then (panic_if (et_executed tx) EsAlreadyExecuted) (\<lambda>_.
     and_then (panic_if (et_cancelled tx) EsAlreadyCancelled) (\<lambda>_.
     and_then (es_is_admin c caller s) (\<lambda>is_adm.
     let is_submitter = (caller = et_submitter tx);
         unlock_at = saturating_add_u64 (queued_at tx) (timelock_delay c);
         grace_lapsed = (env_timestamp e > saturating_add_u64 unlock_at (grace_period c)) in
     and_then (panic_if (\<not> is_adm \<and> \<not> is_submitter \<and> \<not> grace_lapsed) EsUnauthorized) (\<lambda>_.
     Inr ((), s\<lparr>es_transaction := (es_transaction s)(i \<mapsto> tx\<lparr>et_cancelled := True\<rparr>)\<rparr>))))))))"

definition es_get_signers :: "'w es_state \<Rightarrow> es_error + address list" where
  "es_get_signers s = ok_or EsPanic (es_signer_list s)"

text \<open>The state-changing entry points as calls of the transition system.\<close>

datatype es_call =
    EsInitialize address "address option" "address list" u32 u64 u64 u64 u32
  | EsAddSigner address address
  | EsRemoveSigner address address
  | EsSetThreshold address u32
  | EsSetTimelock address u64 u64
  | EsSetRateLimit address u64 u32
  | EsPause address
  | EsUnpause address
  | EsCreateEscrow address address bool string
  | EsDeposit u64 address i128
  | EsSubmitTransaction address u64 address i128
  | EsApproveTransaction address u64
  | EsRevokeApproval address u64
  | EsExecuteTransaction u64
  | EsCancelTransaction address u64
  | EsCloseEscrow address u64

fun es_exec :: "'w token_transfer \<Rightarrow> env \<Rightarrow> es_call \<Rightarrow> 'w es_state \<Rightarrow> 'w es_state option" where
  "es_exec tr e (EsInitialize a ac ss m d g w n) s = state_of (es_initialize e a ac ss m d g w n s)"
| "es_exec tr e (EsAddSigner a b) s = state_of (es_add_signer e a b s)"
| "es_exec tr e (EsRemoveSigner a b) s = state_of (es_remove_signer e a b s)"
| "es_exec tr e (EsSetThreshold a m) s = state_of (es_set_threshold e a m s)"
| "es_exec tr e (EsSetTimelock a d g) s = state_of (es_set_timelock e a d g s)"
| "es_exec tr e (EsSetRateLimit a w n) s = state_of (es_set_rate_limit e a w n s)"
| "es_exec tr e (EsPause a) s = state_of (es_pause e a s)"
| "es_exec tr e (EsUnpause a) s = state_of (es_unpause e a s)"
| "es_exec tr e (EsCreateEscrow a t n p) s = state_of (es_create_escrow e a t n p s)"
| "es_exec tr e (EsDeposit i a n) s = state_of (es_deposit tr e i a n s)"
| "es_exec tr e (EsSubmitTransaction a i r n) s = state_of (es_submit_transaction e a i r n s)"
| "es_exec tr e (EsApproveTransaction a i) s = state_of (es_approve_transaction e a i s)"
| "es_exec tr e (EsRevokeApproval a i) s = state_of (es_revoke_approval e a i s)"
| "es_exec tr e (EsExecuteTransaction i) s = state_of (es_execute_transaction tr e i s)"
| "es_exec tr e (EsCancelTransaction a i) s = state_of (es_cancel_transaction e a i s)"
| "es_exec tr e (EsCloseEscrow a i) s = state_of (es_close_escrow e a i s)"

section \<open>What the helpers compute\<close>

lemma es_count_in_window_eq [simp]:
  "es_count_in_window vs cutoff n = n + length (filter (\<lambda>v. cutoff \<le> v) vs)"
  by (induction vs arbitrary: n) auto

lemma es_prune_window_eq [simp]: "es_prune_window vs cutoff kept = kept @ filter (\<lambda>v. cutoff \<le> v) vs"
  by (induction vs arbitrary: kept) auto

lemma es_try_index_of_None [simp]: "es_try_index_of xs x = None \<longleftrightarrow> x \<notin> set xs"
  by (induction xs) auto

lemma es_try_index_of_remove: "es_try_index_of xs x = Some i \<Longrightarrow> x \<in> set xs \<and> vec_remove i xs = remove1 x xs"
  by (induction xs arbitrary: i) (auto simp: vec_remove_def split: if_splits)

lemma es_contains_iff [simp]: "es_contains xs x \<longleftrightarrow> x \<in> set xs"
  by (simp add: es_contains_def)

lemma es_index_of_Inr [result_iffs]: "es_index_of xs x = Inr i \<longleftrightarrow> es_try_index_of xs x = Some i"
  by (simp add: es_index_of_def result_iffs)

lemma es_check_duplicates_Inr [result_iffs]: "es_check_duplicates xs = Inr u \<longleftrightarrow> distinct xs"
  by (induction xs) auto

lemma es_fold_signer:
  "fold (\<lambda>a s. s\<lparr>es_signer := (es_signer s)(a \<mapsto> True)\<rparr>) as s =
   s\<lparr>es_signer := (\<lambda>a. if a \<in> set as then Some True else es_signer s a)\<rparr>"
  by (induction as arbitrary: s) (auto simp: fun_eq_iff)

text \<open>Who passes the admin gate: the stored admin, or an Admin of the linked access-control contract.\<close>

definition es_admin_account :: "escrow_config \<Rightarrow> address \<Rightarrow> 'w es_state \<Rightarrow> bool" where
  "es_admin_account c a s \<longleftrightarrow> a = ec_admin c \<or>
     (\<exists>ac st. ec_access_control c = Some ac \<and> es_access s ac = Some st \<and> has_role Admin a st)"

lemma es_is_admin_True [result_iffs]: "es_is_admin c a s = Inr True \<longleftrightarrow> es_admin_account c a s"
  by (auto simp: es_is_admin_def es_admin_account_def result_iffs split: option.splits)

lemma es_require_admin_Inr [result_iffs]:
  "es_require_admin e c a s = Inr u \<longleftrightarrow> env_auth e a \<and> es_admin_account c a s"
  by (auto simp: es_require_admin_def result_iffs intro!: exI [of _ True])

lemma es_require_signer_Inr [result_iffs]:
  "es_require_signer e a s = Inr u \<longleftrightarrow> env_auth e a \<and> es_is_signer a s"
  by (auto simp: es_require_signer_def result_iffs)

lemma es_require_signer_or_admin_Inr [result_iffs]:
  "es_require_signer_or_admin e c a s = Inr u \<longleftrightarrow> env_auth e a \<and> (es_is_signer a s \<or> es_admin_account c a s)"
  by (auto simp: es_require_signer_or_admin_def result_iffs split: if_splits intro!: exI [of _ True])

lemmas es_load_defs = es_get_config_def es_escrow_record_def es_load_transaction_def

section \<open>What the operations do on success\<close>

text \<open>The number of recorded executions since a cutoff.\<close>

definition es_recent :: "u64 list option \<Rightarrow> u64 \<Rightarrow> nat" where
  "es_recent vs cutoff = length (filter (\<lambda>v. cutoff \<le> v) (unwrap_or [] vs))"

lemma es_check_rate_limits_Inr [result_iffs]:
  "es_check_rate_limits e c r s = Inr u \<longleftrightarrow> es_global_executions s \<noteq> None \<and>
     es_recent (es_global_executions s) (env_timestamp e - rate_limit_window c) < rate_limit_max c \<and>
     es_recent (es_recipient_executions s r) (env_timestamp e - rate_limit_window c) < rate_limit_max c"
  by (auto simp: es_check_rate_limits_def es_recent_def Let_def result_iffs saturating_sub_u64_def)

lemma es_execute_Inr:
  assumes "es_execute_transaction tr e i s = Inr (u, s')"
  obtains c tx r g w where "es_config s = Some c" "\<not> ec_paused c" "es_transaction s i = Some tx"
    "\<not> et_executed tx" "\<not> et_cancelled tx" "required_approvals c \<le> length (approvers tx)"
    "queued_at tx + timelock_delay c \<le> env_timestamp e" "env_timestamp e \<le> queued_at tx + timelock_delay c + grace_period c"
    "es_global_executions s = Some g"
    "es_recent (es_global_executions s) (env_timestamp e - rate_limit_window c) < rate_limit_max c"
    "es_recent (es_recipient_executions s (et_recipient tx)) (env_timestamp e - rate_limit_window c) < rate_limit_max c"
    "es_escrow s (et_escrow_id tx) = Some r" "et_amount tx \<le> es_escrow_balance_raw (et_escrow_id tx) s"
    "\<not> is_native r \<longrightarrow> tr e (er_token r) (env_self e) (et_recipient tx) (et_amount tx) (es_tokens s) = Some w"
    "is_native r \<longrightarrow> w = es_tokens s"
    "s' = s\<lparr>es_escrow_balance := (es_escrow_balance s)(et_escrow_id tx \<mapsto> es_escrow_balance_raw (et_escrow_id tx) s - et_amount tx),
       es_tokens := w, es_transaction := (es_transaction s)(i \<mapsto> tx\<lparr>et_executed := True, et_executed_at := env_timestamp e\<rparr>),
       es_global_executions := Some (filter (\<lambda>v. env_timestamp e - rate_limit_window c \<le> v) (g @ [env_timestamp e])),
       es_recipient_executions := (es_recipient_executions s)(et_recipient tx \<mapsto>
         filter (\<lambda>v. env_timestamp e - rate_limit_window c \<le> v)
           (unwrap_or [] (es_recipient_executions s (et_recipient tx)) @ [env_timestamp e]))\<rparr>"
    "queued_at tx + timelock_delay c + grace_period c \<le> u64_max"
    "in_i128 (es_escrow_balance_raw (et_escrow_id tx) s - et_amount tx)"
proof -
  from assms obtain c tx where ctx: "es_config s = Some c" "es_transaction s i = Some tx"
    by (auto simp: es_execute_transaction_def es_load_defs result_iffs)
  from assms ctx obtain r g where guards: "\<not> ec_paused c" "\<not> et_executed tx" "\<not> et_cancelled tx"
      "required_approvals c \<le> length (approvers tx)" "queued_at tx + timelock_delay c \<le> env_timestamp e"
      "env_timestamp e \<le> queued_at tx + timelock_delay c + grace_period c"
      "queued_at tx + timelock_delay c + grace_period c \<le> u64_max" "es_global_executions s = Some g"
      "es_recent (es_global_executions s) (env_timestamp e - rate_limit_window c) < rate_limit_max c"
      "es_recent (es_recipient_executions s (et_recipient tx)) (env_timestamp e - rate_limit_window c) < rate_limit_max c"
      "es_escrow s (et_escrow_id tx) = Some r" "et_amount tx \<le> es_escrow_balance_raw (et_escrow_id tx) s"
      "in_i128 (es_escrow_balance_raw (et_escrow_id tx) s - et_amount tx)"
    by (fastforce simp: es_execute_transaction_def es_load_defs result_iffs Let_def)
  have rate: "es_check_rate_limits e c (et_recipient tx) s = Inr ()" using guards by (simp add: result_iffs)
  have cut: "saturating_sub_u64 (env_timestamp e) (rate_limit_window c) = env_timestamp e - rate_limit_window c"
    by (simp add: saturating_sub_u64_def)
  note arith = checked_add_u64_def checked_sub_i128_def narrow_i128_def
  show thesis
  proof (cases "is_native r")
    case True
    with assms ctx guards rate show thesis
      by (intro that [of c tx g r "es_tokens s"])
         (auto simp: es_execute_transaction_def es_load_defs Let_def arith cut)
  next
    case False
    with assms ctx guards rate obtain w where
      w: "tr e (er_token r) (env_self e) (et_recipient tx) (et_amount tx) (es_tokens s) = Some w"
      by (auto simp: es_execute_transaction_def es_load_defs Let_def arith cut result_iffs)
    with False assms ctx guards rate show thesis
      by (intro that [of c tx g r w])
         (auto simp: es_execute_transaction_def es_load_defs Let_def arith cut call_token_def)
  qed
qed

section \<open>The invariant\<close>

definition es_signers_ok :: "escrow_config \<Rightarrow> 'w es_state \<Rightarrow> bool" where
  "es_signers_ok c s \<longleftrightarrow> (\<exists>ss. es_signer_list s = Some ss \<and> distinct ss \<and> (\<forall>a. es_is_signer a s \<longleftrightarrow> a \<in> set ss) \<and>
     ec_signer_count c = length ss \<and> length ss \<le> ES_MAX_SIGNERS \<and>
     0 < required_approvals c \<and> required_approvals c \<le> length ss)"

definition es_tx_ok :: "'w es_state \<Rightarrow> u64 \<Rightarrow> escrow_transaction \<Rightarrow> bool" where
  "es_tx_ok s i tx \<longleftrightarrow> et_id tx = i \<and> 0 < et_amount tx \<and> distinct (approvers tx) \<and>
     \<not> (et_executed tx \<and> et_cancelled tx) \<and> es_escrow s (et_escrow_id tx) \<noteq> None"

definition es_queue_ok :: "'w es_state \<Rightarrow> bool" where
  "es_queue_ok s \<longleftrightarrow> (\<forall>i tx. es_transaction s i = Some tx \<longrightarrow> es_tx_ok s i tx \<and> i < unwrap_or 1 (es_next_tx_id s))"

text \<open>Every escrow with the value it holds, as one map.\<close>

definition es_ledger :: "'w es_state \<Rightarrow> u64 \<Rightarrow> (escrow_record \<times> i128) option" where
  "es_ledger s i = map_option (\<lambda>r. (r, es_escrow_balance_raw i s)) (es_escrow s i)"

definition es_held :: "address \<Rightarrow> escrow_record \<times> i128 \<Rightarrow> int" where
  "es_held tok x = (if \<not> is_native (fst x) \<and> er_token (fst x) = tok then snd x else 0)"

definition es_ledger_ok :: "'w es_state \<Rightarrow> bool" where
  "es_ledger_ok s \<longleftrightarrow> finite (dom (es_escrow s)) \<and>
     (\<forall>i r. es_escrow s i = Some r \<longrightarrow> er_id r = i \<and> i < unwrap_or 1 (es_next_escrow_id s) \<and>
        0 \<le> es_escrow_balance_raw i s \<and> in_i128 (es_escrow_balance_raw i s))"

definition es_setup_ok :: "'w es_state \<Rightarrow> bool" where
  "es_setup_ok s \<longleftrightarrow> (case es_config s of
       None \<Rightarrow> es_signer s = (\<lambda>_. None) \<and> es_escrow s = (\<lambda>_. None) \<and> es_transaction s = (\<lambda>_. None)
     | Some c \<Rightarrow> es_signers_ok c s \<and> es_global_executions s \<noteq> None)"

definition es_total_held :: "address \<Rightarrow> 'w es_state \<Rightarrow> int" where
  "es_total_held tok s = entry_sum (es_held tok) (es_ledger s)"

definition es_inv :: "'w token_balance \<Rightarrow> address \<Rightarrow> 'w \<Rightarrow> u64 \<Rightarrow> 'w es_state \<Rightarrow> bool" where
  "es_inv bal self w t s \<longleftrightarrow> es_setup_ok s \<and> es_queue_ok s \<and> es_ledger_ok s \<and>
     (\<forall>tok. bal w tok self + es_total_held tok s \<le> bal (es_tokens s) tok self)"

definition es_adm :: "address \<Rightarrow> env \<Rightarrow> es_call \<Rightarrow> bool" where
  "es_adm self e c \<longleftrightarrow> env_self e = self \<and> \<not> env_auth e self"

text \<open>Between two calls others move their own tokens and the linked access-control contracts change.\<close>

definition es_drift :: "'w token_balance \<Rightarrow> address \<Rightarrow> 'w es_state \<Rightarrow> 'w es_state \<Rightarrow> bool" where
  "es_drift bal self s s' \<longleftrightarrow> (\<exists>w acs. s' = s\<lparr>es_tokens := w, es_access := acs\<rparr> \<and>
     (\<forall>tok. bal (es_tokens s) tok self \<le> bal w tok self))"

lemmas es_inv_defs = es_setup_ok_def es_signers_ok_def es_queue_ok_def es_tx_ok_def es_ledger_ok_def es_is_signer_def
  es_escrow_balance_raw_def

lemma es_ledger_cong:
  "es_escrow s' = es_escrow s \<Longrightarrow> es_escrow_balance s' = es_escrow_balance s \<Longrightarrow> es_ledger s' = es_ledger s"
  by (simp add: es_ledger_def fun_eq_iff es_escrow_balance_raw_def)

lemma es_total_held_cong:
  "es_escrow s' = es_escrow s \<Longrightarrow> es_escrow_balance s' = es_escrow_balance s \<Longrightarrow> es_total_held tok s' = es_total_held tok s"
  unfolding es_total_held_def by (rule arg_cong [OF es_ledger_cong])

lemma es_ledger_dom [simp]: "dom (es_ledger s) = dom (es_escrow s)"
  by (auto simp: es_ledger_def)

lemma es_ledger_at: "es_escrow s i = Some r \<Longrightarrow> es_ledger s i = Some (r, es_escrow_balance_raw i s)"
  by (simp add: es_ledger_def)

text \<open>Calls that leave the escrows, their balances and the tokens alone.\<close>

lemma es_inv_frame:
  assumes "es_inv bal self w t s" and "es_escrow s' = es_escrow s" "es_escrow_balance s' = es_escrow_balance s"
    and "es_next_escrow_id s' = es_next_escrow_id s" "es_tokens s' = es_tokens s"
    and "es_setup_ok s'" and "es_queue_ok s'"
  shows "es_inv bal self w t s'"
  using assms(1,4-7) es_total_held_cong [OF assms(2,3)]
  by (simp add: es_inv_def es_ledger_ok_def es_escrow_balance_raw_def assms(2,3))

lemma es_queue_ok_cong:
  "es_queue_ok s \<Longrightarrow> es_transaction s' = es_transaction s \<Longrightarrow> es_next_tx_id s' = es_next_tx_id s \<Longrightarrow>
   (\<And>i. es_escrow s i \<noteq> None \<Longrightarrow> es_escrow s' i \<noteq> None) \<Longrightarrow> es_queue_ok s'"
  by (simp add: es_queue_ok_def es_tx_ok_def)

lemma es_setup_ok_cong:
  "es_setup_ok s \<Longrightarrow> es_config s' = es_config s \<Longrightarrow> es_config s \<noteq> None \<Longrightarrow> es_signer s' = es_signer s \<Longrightarrow>
   es_signer_list s' = es_signer_list s \<Longrightarrow> es_global_executions s' \<noteq> None \<Longrightarrow> es_setup_ok s'"
  by (auto simp: es_setup_ok_def es_signers_ok_def es_is_signer_def split: option.splits)

lemma es_ledger_empty: "es_escrow s = (\<lambda>_. None) \<Longrightarrow> es_ledger s = (\<lambda>_. None)"
  by (simp add: es_ledger_def fun_eq_iff)

lemma es_inv_fresh: "es_inv bal self w t (es_fresh acs w)"
  by (simp add: es_inv_def es_inv_defs es_fresh_def es_total_held_def es_ledger_empty)

lemma es_inv_drift: "es_inv bal self w t s \<Longrightarrow> es_drift bal self s s' \<Longrightarrow> es_inv bal self w t s'"
proof -
  assume inv: "es_inv bal self w t s" and "es_drift bal self s s'"
  then obtain w' acs where s': "s' = s\<lparr>es_tokens := w', es_access := acs\<rparr>" "\<And>tok. bal (es_tokens s) tok self \<le> bal w' tok self"
    by (auto simp: es_drift_def)
  have "es_total_held tok s' = es_total_held tok s" for tok by (rule es_total_held_cong) (simp_all add: s')
  moreover have "es_setup_ok s'" "es_queue_ok s'" "es_ledger_ok s'"
    using inv by (simp_all add: es_inv_def es_inv_defs s' split: option.splits)
  ultimately show ?thesis using inv s'(2) unfolding es_inv_def by (auto simp: s'(1)) (meson order_trans)
qed

lemma es_inv_initialize:
  assumes inv: "es_inv bal self w t s" and run: "es_initialize e a ac ss m d g wi n s = Inr ((), s')"
  shows "es_inv bal self w t s'"
proof -
  from run have none: "es_config s = None" and pre: "m \<noteq> 0" "m \<le> length ss" "length ss \<le> ES_MAX_SIGNERS" "distinct ss"
    by (auto simp: es_initialize_def es_validate_signer_set_def result_iffs)
  from run have s': "s' = s\<lparr>es_signer := (\<lambda>a. if a \<in> set ss then Some True else es_signer s a), es_signer_list := Some ss,
      es_global_executions := Some [], es_next_escrow_id := Some 1, es_next_tx_id := Some 1,
      es_config := Some \<lparr>ec_admin = a, ec_access_control = ac, required_approvals = m, ec_signer_count = length ss,
        timelock_delay = d, grace_period = g, rate_limit_window = wi, rate_limit_max = n, ec_paused = False\<rparr>\<rparr>"
    by (auto simp: es_initialize_def result_iffs es_fold_signer Let_def)
  have empty: "es_escrow s = (\<lambda>_. None)" "es_transaction s = (\<lambda>_. None)" "es_signer s = (\<lambda>_. None)"
    using inv none by (auto simp: es_inv_def es_setup_ok_def)
  have "es_total_held tok s' = es_total_held tok s" for tok by (rule es_total_held_cong) (simp_all add: s')
  with inv pre show ?thesis by (simp add: es_inv_def s' es_inv_defs empty)
qed

text \<open>Calls that change only the configuration and the signers.\<close>

lemma es_inv_settings:
  assumes inv: "es_inv bal self w t s"
  shows "es_set_threshold e a m s = Inr ((), s') \<Longrightarrow> es_inv bal self w t s'"
    and "es_set_timelock e a d g s = Inr ((), s') \<Longrightarrow> es_inv bal self w t s'"
    and "es_set_rate_limit e a wi n s = Inr ((), s') \<Longrightarrow> es_inv bal self w t s'"
    and "es_pause e a s = Inr ((), s') \<Longrightarrow> es_inv bal self w t s'"
    and "es_unpause e a s = Inr ((), s') \<Longrightarrow> es_inv bal self w t s'"
  by (rule es_inv_frame [OF inv];
      use inv in \<open>auto simp: es_set_threshold_def es_set_timelock_def es_set_rate_limit_def es_pause_def es_unpause_def
        es_load_defs result_iffs es_inv_def es_setup_ok_def es_signers_ok_def es_is_signer_def es_queue_ok_def es_tx_ok_def\<close>)+

lemma es_inv_add_signer:
  assumes inv: "es_inv bal self w t s" and run: "es_add_signer e a b s = Inr ((), s')"
  shows "es_inv bal self w t s'"
proof -
  from run obtain c ss where c: "es_config s = Some c" "\<not> es_is_signer b s" "ec_signer_count c < ES_MAX_SIGNERS" "es_signer_list s = Some ss"
    by (auto simp: es_add_signer_def es_load_defs result_iffs)
  have ok: "distinct ss" "\<And>x. es_is_signer x s = (x \<in> set ss)" "ec_signer_count c = length ss" "0 < required_approvals c"
      "required_approvals c \<le> length ss" "es_global_executions s \<noteq> None"
    using inv c(1,4) by (auto simp: es_inv_def es_setup_ok_def es_signers_ok_def)
  have s': "s' = s\<lparr>es_signer := (es_signer s)(b \<mapsto> True), es_signer_list := Some (ss @ [b]),
      es_config := Some (c\<lparr>ec_signer_count := ec_signer_count c + 1\<rparr>)\<rparr>"
    using run c ok(3,5) by (auto simp: es_add_signer_def es_load_defs result_iffs Let_def)
  have new: "b \<notin> set ss" using c(2) ok(2) by simp
  have signer: "es_is_signer x s' = (x \<in> set (ss @ [b]))" for x
    using ok(2) by (auto simp: es_is_signer_def s')
  have conf: "es_setup_ok s'"
    unfolding es_setup_ok_def es_signers_ok_def signer using ok(1,3-6) c(3) new by (simp add: s')
  show ?thesis
    by (rule es_inv_frame [OF inv]) (use conf inv in \<open>auto simp: s' es_inv_def intro: es_queue_ok_cong\<close>)
qed

lemma es_inv_remove_signer:
  assumes inv: "es_inv bal self w t s" and run: "es_remove_signer e a b s = Inr ((), s')"
  shows "es_inv bal self w t s'"
proof -
  from run obtain c ss idx where c: "es_config s = Some c" "es_is_signer b s" "required_approvals c < ec_signer_count c" "es_signer_list s = Some ss"
      "es_try_index_of ss b = Some idx"
      and s': "s' = s\<lparr>es_signer := (es_signer s)(b := None), es_signer_list := Some (vec_remove idx ss),
      es_config := Some (c\<lparr>ec_signer_count := ec_signer_count c - 1\<rparr>)\<rparr>"
    by (auto simp: es_remove_signer_def es_load_defs result_iffs Let_def)
  have ok: "distinct ss" "\<And>x. es_is_signer x s = (x \<in> set ss)" "ec_signer_count c = length ss" "length ss \<le> ES_MAX_SIGNERS" "0 < required_approvals c"
      "es_global_executions s \<noteq> None"
    using inv c(1,4) by (auto simp: es_inv_def es_setup_ok_def es_signers_ok_def)
  have rm: "vec_remove idx ss = remove1 b ss" "b \<in> set ss" using es_try_index_of_remove [OF c(5)] by auto
  have signer: "es_is_signer x s' = (x \<in> set (remove1 b ss))" for x
    using ok(1,2) by (auto simp: es_is_signer_def s' set_remove1_eq)
  have conf: "es_setup_ok s'"
    unfolding es_setup_ok_def es_signers_ok_def signer using ok c(3) rm by (auto simp: s' length_remove1 distinct_remove1)
  show ?thesis
    by (rule es_inv_frame [OF inv]) (use conf inv in \<open>auto simp: s' es_inv_def intro: es_queue_ok_cong\<close>)
qed

text \<open>One queued transaction is written; the rest of the state stays.\<close>

lemma es_inv_tx:
  assumes inv: "es_inv bal self w t s" and s': "s' = s\<lparr>es_transaction := (es_transaction s)(i \<mapsto> tx)\<rparr>"
    and "es_tx_ok s i tx" and "i < unwrap_or 1 (es_next_tx_id s)" and "es_config s \<noteq> None"
  shows "es_inv bal self w t s'"
proof (rule es_inv_frame [OF inv])
  show "es_setup_ok s'"
    by (rule es_setup_ok_cong [of s]) (use inv assms(5) in \<open>auto simp: s' es_inv_def es_setup_ok_def\<close>)
  show "es_queue_ok s'"
    using inv assms(3,4) by (auto simp: s' es_inv_def es_queue_ok_def es_tx_ok_def)
qed (simp_all add: s')

lemma es_inv_txD: "es_inv bal self w t s \<Longrightarrow> es_transaction s i = Some tx \<Longrightarrow> es_tx_ok s i tx \<and> i < unwrap_or 1 (es_next_tx_id s)"
  by (simp add: es_inv_def es_queue_ok_def)

lemma es_inv_approve:
  assumes inv: "es_inv bal self w t s" and run: "es_approve_transaction e a i s = Inr ((), s')"
  shows "es_inv bal self w t s'"
proof -
  from run obtain tx where tx: "es_config s \<noteq> None" "es_transaction s i = Some tx" "a \<notin> set (approvers tx)"
      and s': "s' = s\<lparr>es_transaction := (es_transaction s)(i \<mapsto> tx\<lparr>approvers := approvers tx @ [a]\<rparr>)\<rparr>"
    by (auto simp: es_approve_transaction_def es_load_defs result_iffs)
  show ?thesis
    by (rule es_inv_tx [OF inv s']) (use es_inv_txD [OF inv tx(2)] tx in \<open>auto simp: es_tx_ok_def\<close>)
qed

lemma es_inv_revoke:
  assumes inv: "es_inv bal self w t s" and run: "es_revoke_approval e a i s = Inr ((), s')"
  shows "es_inv bal self w t s'"
proof -
  from run obtain tx idx where tx: "es_config s \<noteq> None" "es_transaction s i = Some tx" "es_try_index_of (approvers tx) a = Some idx"
      and s': "s' = s\<lparr>es_transaction := (es_transaction s)(i \<mapsto> tx\<lparr>approvers := vec_remove idx (approvers tx)\<rparr>)\<rparr>"
    by (auto simp: es_revoke_approval_def es_load_defs result_iffs)
  have "vec_remove idx (approvers tx) = remove1 a (approvers tx)" using es_try_index_of_remove [OF tx(3)] by simp
  then show ?thesis
    by (intro es_inv_tx [OF inv s']) (use es_inv_txD [OF inv tx(2)] tx in \<open>auto simp: es_tx_ok_def distinct_remove1\<close>)
qed

lemma es_inv_cancel:
  assumes inv: "es_inv bal self w t s" and run: "es_cancel_transaction e a i s = Inr ((), s')"
  shows "es_inv bal self w t s'"
proof -
  from run obtain tx where tx: "es_config s \<noteq> None" "es_transaction s i = Some tx" "\<not> et_executed tx"
      and s': "s' = s\<lparr>es_transaction := (es_transaction s)(i \<mapsto> tx\<lparr>et_cancelled := True\<rparr>)\<rparr>"
    by (auto simp: es_cancel_transaction_def es_load_defs result_iffs Let_def)
  show ?thesis
    by (rule es_inv_tx [OF inv s']) (use es_inv_txD [OF inv tx(2)] tx in \<open>auto simp: es_tx_ok_def\<close>)
qed

lemma es_inv_submit:
  assumes inv: "es_inv bal self w t s" and run: "es_submit_transaction e a k r n s = Inr (i, s')"
  shows "es_inv bal self w t s'"
proof -
  define tx where "tx = \<lparr>et_id = i, et_escrow_id = k, et_recipient = r, et_amount = n, et_submitter = a, approvers = [a],
      queued_at = env_timestamp e, et_executed = False, et_cancelled = False, et_executed_at = 0\<rparr>"
  from run have pre: "es_config s \<noteq> None" "i = unwrap_or 1 (es_next_tx_id s)" "0 < n" "es_escrow s k \<noteq> None"
      and s': "s' = s\<lparr>es_transaction := (es_transaction s)(i \<mapsto> tx), es_next_tx_id := Some (i + 1)\<rparr>"
    by (auto simp: es_submit_transaction_def es_load_defs result_iffs MIN_AMOUNT_def Let_def tx_def)
  have tx: "es_tx_ok s i tx" using pre(3,4) by (simp add: es_tx_ok_def tx_def)
  show ?thesis
  proof (rule es_inv_frame [OF inv])
    show "es_setup_ok s'"
      by (rule es_setup_ok_cong [of s]) (use inv pre in \<open>auto simp: s' es_inv_def es_setup_ok_def\<close>)
    show "es_queue_ok s'"
      using inv tx pre(2) by (auto simp: s' es_inv_def es_queue_ok_def es_tx_ok_def less_Suc_eq)
  qed (simp_all add: s')
qed

lemma es_inv_close:
  assumes inv: "es_inv bal self w t s" and run: "es_close_escrow e a i s = Inr ((), s')"
  shows "es_inv bal self w t s'"
proof -
  from run obtain r where r: "es_config s \<noteq> None" "es_escrow s i = Some r"
      and s': "s' = s\<lparr>es_escrow := (es_escrow s)(i \<mapsto> r\<lparr>er_active := False\<rparr>)\<rparr>"
    by (auto simp: es_close_escrow_def es_load_defs result_iffs)
  have led: "es_ledger s' = (es_ledger s)(i \<mapsto> (r\<lparr>er_active := False\<rparr>, es_escrow_balance_raw i s))"
    by (auto simp: es_ledger_def s' fun_eq_iff es_escrow_balance_raw_def)
  have fin: "finite (dom (es_ledger s))" using inv by (simp add: es_inv_def es_ledger_ok_def)
  have "es_total_held tok s' = es_total_held tok s" for tok
    unfolding es_total_held_def led entry_sum_upd [OF fin] by (simp add: es_ledger_at [OF r(2)] es_held_def)
  moreover have "es_setup_ok s'"
    by (rule es_setup_ok_cong [of s]) (use inv r in \<open>auto simp: s' es_inv_def es_setup_ok_def\<close>)
  moreover have "es_queue_ok s'"
    by (rule es_queue_ok_cong [of s]) (use inv in \<open>auto simp: s' es_inv_def\<close>)
  moreover have "es_ledger_ok s'"
    using inv r by (auto simp: s' es_inv_def es_ledger_ok_def es_escrow_balance_raw_def)
  ultimately show ?thesis using inv by (simp add: es_inv_def s')
qed

lemma es_inv_create:
  assumes inv: "es_inv bal self w t s" and run: "es_create_escrow e a tok nv why s = Inr (i, s')"
  shows "es_inv bal self w t s'"
proof -
  define r where "r = \<lparr>er_id = i, er_token = tok, is_native = nv, er_creator = a, purpose = why,
      er_created_at = env_timestamp e, er_active = True\<rparr>"
  from run have pre: "es_config s \<noteq> None" "i = unwrap_or 1 (es_next_escrow_id s)"
      and s': "s' = s\<lparr>es_escrow := (es_escrow s)(i \<mapsto> r), es_escrow_balance := (es_escrow_balance s)(i \<mapsto> 0),
        es_next_escrow_id := Some (i + 1)\<rparr>"
    by (auto simp: es_create_escrow_def es_load_defs result_iffs Let_def r_def)
  have ok: "es_ledger_ok s" using inv by (simp add: es_inv_def)
  have new: "es_escrow s i = None"
  proof (cases "es_escrow s i")
    case (Some x)
    then have "i < unwrap_or 1 (es_next_escrow_id s)" using ok by (simp add: es_ledger_ok_def)
    with pre(2) show ?thesis by simp
  qed simp
  have led: "es_ledger s' = (es_ledger s)(i \<mapsto> (r, 0))"
    by (auto simp: es_ledger_def s' fun_eq_iff es_escrow_balance_raw_def)
  have fin: "finite (dom (es_ledger s))" using ok by (simp add: es_ledger_ok_def)
  have "es_ledger s i = None" by (simp add: es_ledger_def new)
  then have "es_total_held x s' = es_total_held x s" for x
    unfolding es_total_held_def led entry_sum_upd [OF fin] by (simp add: es_held_def)
  moreover have "es_setup_ok s'"
    by (rule es_setup_ok_cong [of s]) (use inv pre in \<open>auto simp: s' es_inv_def es_setup_ok_def\<close>)
  moreover have "es_queue_ok s'"
    by (rule es_queue_ok_cong [of s]) (use inv in \<open>auto simp: s' es_inv_def\<close>)
  moreover have "es_ledger_ok s'"
    using ok pre(2) by (auto simp: s' r_def es_ledger_ok_def es_escrow_balance_raw_def less_Suc_eq)
  ultimately show ?thesis using inv by (simp add: es_inv_def s')
qed

text \<open>The balance of one escrow changes, and the contract's holdings change by at least as much.\<close>

lemma es_inv_balance:
  assumes inv: "es_inv bal self w t s" and r: "es_escrow s i = Some r"
    and same: "es_escrow s' = es_escrow s" "es_escrow_balance s' = (es_escrow_balance s)(i \<mapsto> b)" "es_next_escrow_id s' = es_next_escrow_id s"
    and b: "0 \<le> b" "in_i128 b" and ok: "es_setup_ok s'" "es_queue_ok s'"
    and moved: "\<And>tok. bal (es_tokens s) tok self + es_held tok (r, b) \<le>
      bal (es_tokens s') tok self + es_held tok (r, es_escrow_balance_raw i s)"
  shows "es_inv bal self w t s'"
proof -
  have led: "es_ledger s' = (es_ledger s)(i \<mapsto> (r, b))"
    using r by (auto simp: es_ledger_def same fun_eq_iff es_escrow_balance_raw_def)
  have fin: "finite (dom (es_ledger s))" using inv by (simp add: es_inv_def es_ledger_ok_def)
  have "bal w tok self + es_total_held tok s' \<le> bal (es_tokens s') tok self" for tok
  proof -
    have "bal w tok self + es_total_held tok s \<le> bal (es_tokens s) tok self" using inv by (simp add: es_inv_def)
    moreover have "es_total_held tok s' = es_total_held tok s - es_held tok (r, es_escrow_balance_raw i s) + es_held tok (r, b)"
      unfolding es_total_held_def led entry_sum_upd [OF fin] by (simp add: es_ledger_at [OF r])
    ultimately show ?thesis using moved [of tok] by linarith
  qed
  moreover have "es_ledger_ok s'"
    using inv b by (auto simp: same es_inv_def es_ledger_ok_def es_escrow_balance_raw_def)
  ultimately show ?thesis using ok by (simp add: es_inv_def)
qed

lemma es_deposit_Inr:
  assumes "es_deposit tr e i src n s = Inr ((), s')"
  obtains r w where "env_auth e src" "0 < n" "es_escrow s i = Some r" "er_active r" "in_i128 (es_escrow_balance_raw i s + n)"
    "\<not> is_native r \<longrightarrow> tr e (er_token r) src (env_self e) n (es_tokens s) = Some w" "is_native r \<longrightarrow> w = es_tokens s"
    "s' = s\<lparr>es_escrow_balance := (es_escrow_balance s)(i \<mapsto> es_escrow_balance_raw i s + n), es_tokens := w\<rparr>"
proof -
  from assms obtain r where r: "env_auth e src" "0 < n" "es_escrow s i = Some r" "er_active r" "in_i128 (es_escrow_balance_raw i s + n)"
    by (auto simp: es_deposit_def es_load_defs result_iffs MIN_AMOUNT_def)
  show thesis
  proof (cases "is_native r")
    case True
    with assms r show thesis
      by (intro that [OF r, of "es_tokens s"]) (auto simp: es_deposit_def es_load_defs result_iffs Let_def)
  next
    case False
    with assms r obtain w where w: "tr e (er_token r) src (env_self e) n (es_tokens s) = Some w"
      by (auto simp: es_deposit_def es_load_defs result_iffs Let_def)
    with False assms r show thesis
      by (intro that [OF r, of w]) (auto simp: es_deposit_def es_load_defs result_iffs Let_def)
  qed
qed

lemma es_setup_config: "es_setup_ok s \<Longrightarrow> es_escrow s i = Some r \<Longrightarrow> es_config s \<noteq> None"
  by (cases "es_config s") (auto simp: es_setup_ok_def)

context token_contract
begin

lemma es_inv_deposit:
  assumes inv: "es_inv balance self w t s" and adm: "env_self e = self" "\<not> env_auth e self"
    and run: "es_deposit transfer e i src n s = Inr ((), s')"
  shows "es_inv balance self w t s'"
  using run
proof (cases rule: es_deposit_Inr)
  case (1 r w')
  have pos: "0 \<le> es_escrow_balance_raw i s" using inv 1(3) by (simp add: es_inv_def es_ledger_ok_def)
  have setup1: "es_setup_ok s" using inv by (simp add: es_inv_def)
  have conf: "es_setup_ok s'"
    by (rule es_setup_ok_cong [OF setup1])
       (use es_setup_config [OF setup1 1(3)] setup1 in \<open>auto simp: 1(8) es_setup_ok_def\<close>)
  have queue: "es_queue_ok s'"
    by (rule es_queue_ok_cong [of s]) (use inv in \<open>auto simp: 1(8) es_inv_def\<close>)
  have "balance (es_tokens s) tok self + es_held tok (r, es_escrow_balance_raw i s + n) \<le>
      balance (es_tokens s') tok self + es_held tok (r, es_escrow_balance_raw i s)" for tok
    using 1(1,6,7) adm transfer_moves [of e "er_token r" src "env_self e" n "es_tokens s" w' tok self]
    by (cases "is_native r") (auto simp: 1(8) es_held_def)
  with 1 pos conf queue show ?thesis by (intro es_inv_balance [OF inv 1(3)]) auto
qed

lemma es_inv_execute:
  assumes inv: "es_inv balance self w t s" and self: "env_self e = self"
    and run: "es_execute_transaction transfer e i s = Inr (u, s')"
  shows "es_inv balance self w t s'"
  using run
proof (cases rule: es_execute_Inr)
  case (1 c tx r g w')
  have tx: "es_tx_ok s i tx" "i < unwrap_or 1 (es_next_tx_id s)" using es_inv_txD [OF inv 1(3)] by auto
  let ?b = "es_escrow_balance_raw (et_escrow_id tx) s"
  have b: "in_i128 ?b" using inv 1(12) by (simp add: es_inv_def es_ledger_ok_def)
  have pos: "0 < et_amount tx" using tx by (simp add: es_tx_ok_def)
  have setup1: "es_setup_ok s" using inv by (simp add: es_inv_def)
  have conf: "es_setup_ok s'"
    by (rule es_setup_ok_cong [OF setup1]) (simp_all add: 1(16) 1(1))
  have queue: "es_queue_ok s'"
    using inv tx 1(5) by (auto simp: 1(16) es_inv_def es_queue_ok_def es_tx_ok_def)
  have fits: "in_i128 (?b - et_amount tx)" by (rule in_i128_nonneg [OF b]) (use 1(13) pos in auto)
  have "balance (es_tokens s) tok self + es_held tok (r, ?b - et_amount tx) \<le>
      balance (es_tokens s') tok self + es_held tok (r, ?b)" for tok
    using 1(14,15) pos balance_src_ge [of e "er_token r" "env_self e" "et_recipient tx" "et_amount tx" "es_tokens s" w' tok self]
    by (cases "is_native r") (auto simp: 1(16) es_held_def split: if_splits)
  with 1 pos conf queue fits show ?thesis by (intro es_inv_balance [OF inv 1(12)]) auto
qed

lemma es_inv_call:
  assumes "es_inv balance self w t s" and "es_adm self e c" and "es_exec transfer e c s = Some s'"
  shows "es_inv balance self w t s'"
  using assms
  by (cases c) (auto simp: result_iffs es_adm_def
      intro: es_inv_initialize es_inv_settings es_inv_add_signer es_inv_remove_signer es_inv_create es_inv_deposit
        es_inv_submit es_inv_approve es_inv_revoke es_inv_execute es_inv_cancel es_inv_close)

end

sublocale token_contract \<subseteq> esm: contract_machine "es_exec transfer" "es_adm self" "es_drift balance self"
  "es_inv balance self w" "es_fresh acs w" for self acs w
proof unfold_locales
  show "es_inv balance self w 0 (es_fresh acs w)" by (rule es_inv_fresh)
next
  fix t t' and s :: "'w es_state"
  assume "es_inv balance self w t s" then show "es_inv balance self w t' s" by (simp add: es_inv_def)
qed (auto intro: es_inv_drift es_inv_call)

section \<open>The rate limiter over whole runs\<close>

text \<open>How many transactions were executed at a time that satisfies \<open>P\<close>.\<close>

definition es_executions :: "(u64 \<Rightarrow> bool) \<Rightarrow> 'w es_state \<Rightarrow> int" where
  "es_executions P s = entry_sum (\<lambda>tx. if et_executed tx \<and> P (et_executed_at tx) then 1 else 0) (es_transaction s)"

lemma es_executions_mono: "(\<And>v. P v \<Longrightarrow> Q v) \<Longrightarrow> es_executions P s \<le> es_executions Q s"
  unfolding es_executions_def entry_sum_def by (rule sum_mono) auto

lemma es_executions_cong: "es_transaction s' = es_transaction s \<Longrightarrow> es_executions P s' = es_executions P s"
  by (simp add: es_executions_def)

lemma es_executions_upd:
  assumes "finite (dom (es_transaction s))" and "es_transaction s' = (es_transaction s)(i \<mapsto> tx)"
    and "\<And>old. es_transaction s i = Some old \<Longrightarrow> \<not> et_executed old"
  shows "es_executions P s' = es_executions P s + (if et_executed tx \<and> P (et_executed_at tx) then 1 else 0)"
  using assms(3) unfolding es_executions_def assms(2) entry_sum_upd [OF assms(1)]
  by (auto split: option.splits)

text \<open>Calls of an administrator who fixes the window \<open>W\<close> and the cap \<open>M\<close> once and for all.\<close>

fun es_capped :: "u64 \<Rightarrow> u32 \<Rightarrow> env \<Rightarrow> es_call \<Rightarrow> bool" where
  "es_capped W M e (EsInitialize a ac ss m d g w n) = (w = W \<and> n = M)"
| "es_capped W M e (EsSetRateLimit a w n) = False"
| "es_capped W M e c = True"

definition es_any_drift :: "'w es_state \<Rightarrow> 'w es_state \<Rightarrow> bool" where
  "es_any_drift s s' \<longleftrightarrow> (\<exists>w acs. s' = s\<lparr>es_tokens := w, es_access := acs\<rparr>)"

definition es_rate_inv :: "u64 \<Rightarrow> u32 \<Rightarrow> u64 \<Rightarrow> 'w es_state \<Rightarrow> bool" where
  "es_rate_inv W M t s \<longleftrightarrow>
     finite (dom (es_transaction s)) \<and>
     (\<forall>i tx. es_transaction s i = Some tx \<longrightarrow> i < unwrap_or 1 (es_next_tx_id s) \<and> (et_executed tx \<longrightarrow> et_executed_at tx \<le> t)) \<and>
     (case es_config s of
        None \<Rightarrow> es_transaction s = (\<lambda>_. None) \<and> es_recipient_executions s = (\<lambda>_. None)
      | Some c \<Rightarrow> rate_limit_window c = W \<and> rate_limit_max c = M) \<and>
     (\<forall>c \<ge> t - W. es_executions (\<lambda>v. c \<le> v) s = int (es_recent (es_global_executions s) c) \<and>
        (\<forall>r. es_recent (es_recipient_executions s r) c \<le> es_recent (es_global_executions s) c)) \<and>
     (\<forall>x. es_executions (\<lambda>v. x \<le> v \<and> v \<le> x + W) s \<le> int M)"

lemma es_rate_fresh: "es_rate_inv W M t (es_fresh acs w)"
  by (simp add: es_rate_inv_def es_fresh_def es_executions_def es_recent_def)

lemma es_rate_tick: "es_rate_inv W M t s \<Longrightarrow> t \<le> t' \<Longrightarrow> es_rate_inv W M t' s"
  unfolding es_rate_inv_def by (auto intro: order_trans)

text \<open>A call that executes nothing: at most one transaction is written, unexecuted before and after.\<close>

lemma es_rate_frame:
  assumes inv: "es_rate_inv W M t s"
    and tx: "es_transaction s' = es_transaction s \<or> (\<exists>i tx. es_transaction s' = (es_transaction s)(i \<mapsto> tx) \<and> \<not> et_executed tx \<and>
        i < unwrap_or 1 (es_next_tx_id s') \<and> (\<forall>old. es_transaction s i = Some old \<longrightarrow> \<not> et_executed old))"
    and same: "es_global_executions s' = es_global_executions s" "es_recipient_executions s' = es_recipient_executions s"
    and nxt: "unwrap_or 1 (es_next_tx_id s) \<le> unwrap_or 1 (es_next_tx_id s')"
    and conf: "es_config s' = es_config s \<and> es_transaction s' = es_transaction s \<or>
        (\<exists>c. es_config s' = Some c \<and> rate_limit_window c = W \<and> rate_limit_max c = M)"
  shows "es_rate_inv W M t s'"
proof -
  have ex: "es_executions P s' = es_executions P s" for P
    using tx
  proof
    assume "es_transaction s' = es_transaction s" then show ?thesis by (rule es_executions_cong)
  next
    assume "\<exists>i tx. es_transaction s' = (es_transaction s)(i \<mapsto> tx) \<and> \<not> et_executed tx \<and>
        i < unwrap_or 1 (es_next_tx_id s') \<and> (\<forall>old. es_transaction s i = Some old \<longrightarrow> \<not> et_executed old)"
    then obtain i tx where u: "es_transaction s' = (es_transaction s)(i \<mapsto> tx)" "\<not> et_executed tx"
        "\<And>old. es_transaction s i = Some old \<Longrightarrow> \<not> et_executed old" by blast
    show ?thesis
      using es_executions_upd [OF _ u(1,3), of P] inv u(2) by (simp add: es_rate_inv_def)
  qed
  have fin: "finite (dom (es_transaction s'))" using inv tx by (auto simp: es_rate_inv_def)
  have each: "i < unwrap_or 1 (es_next_tx_id s') \<and> (et_executed x \<longrightarrow> et_executed_at x \<le> t)"
    if "es_transaction s' i = Some x" for i x
  proof -
    have old: "i < unwrap_or 1 (es_next_tx_id s') \<and> (et_executed x \<longrightarrow> et_executed_at x \<le> t)" if "es_transaction s i = Some x"
      using inv that nxt unfolding es_rate_inv_def by (meson order_less_le_trans)
    from tx that old show ?thesis by (auto split: if_splits)
  qed
  have cfg: "case es_config s' of
        None \<Rightarrow> es_transaction s' = (\<lambda>_. None) \<and> es_recipient_executions s' = (\<lambda>_. None)
      | Some c \<Rightarrow> rate_limit_window c = W \<and> rate_limit_max c = M"
    using conf inv same(2) by (auto simp: es_rate_inv_def split: option.splits)
  show ?thesis using inv fin each cfg unfolding es_rate_inv_def ex same by blast
qed

lemma es_rate_tx:
  assumes inv: "es_rate_inv W M t s" and "es_config s \<noteq> None"
    and "es_transaction s' = (es_transaction s)(i \<mapsto> tx)" "\<not> et_executed tx" "i < unwrap_or 1 (es_next_tx_id s')"
    and "es_transaction s i = None \<or> (\<exists>old. es_transaction s i = Some old \<and> \<not> et_executed old)"
    and "es_global_executions s' = es_global_executions s" "es_recipient_executions s' = es_recipient_executions s"
    and "unwrap_or 1 (es_next_tx_id s) \<le> unwrap_or 1 (es_next_tx_id s')" "es_config s' = es_config s"
  shows "es_rate_inv W M t s'"
proof (rule es_rate_frame [OF inv])
  show "es_transaction s' = es_transaction s \<or> (\<exists>i tx. es_transaction s' = (es_transaction s)(i \<mapsto> tx) \<and> \<not> et_executed tx \<and>
      i < unwrap_or 1 (es_next_tx_id s') \<and> (\<forall>old. es_transaction s i = Some old \<longrightarrow> \<not> et_executed old))"
    by (intro disjI2 exI [of _ i] exI [of _ tx]) (use assms(3-6) in auto)
  show "es_config s' = es_config s \<and> es_transaction s' = es_transaction s \<or>
      (\<exists>c. es_config s' = Some c \<and> rate_limit_window c = W \<and> rate_limit_max c = M)"
    using inv assms(2,10) by (auto simp: es_rate_inv_def)
qed (use assms in auto)

lemma es_rate_bound: "es_rate_inv W M t s \<Longrightarrow> es_transaction s i = Some tx \<Longrightarrow> i < unwrap_or 1 (es_next_tx_id s)"
  by (simp add: es_rate_inv_def)

lemma es_rate_drift: "es_rate_inv W M t s \<Longrightarrow> es_any_drift s s' \<Longrightarrow> es_rate_inv W M t s'"
  by (rule es_rate_frame [of W M t s]) (auto simp: es_any_drift_def)

text \<open>Appending an execution and pruning, seen from a cutoff at or after the pruning point.\<close>

lemma es_recent_pruned:
  assumes "k0 \<le> k"
  shows "es_recent (Some (filter (\<lambda>v. k0 \<le> v) (xs @ [now]))) k = es_recent (Some xs) k + (if k \<le> now then 1 else 0)"
proof -
  have "filter (\<lambda>v. k \<le> v) (filter (\<lambda>v. k0 \<le> v) (xs @ [now])) = filter (\<lambda>v. k \<le> v) (xs @ [now])"
    unfolding filter_filter by (rule filter_cong) (use assms in auto)
  then show ?thesis unfolding es_recent_def unwrap_or_Some by simp
qed

text \<open>The one call that executes: the new execution is the newest, and the cap was not yet reached.\<close>

lemma es_rate_execute:
  assumes inv: "es_rate_inv W M (env_timestamp e) s" and run: "es_execute_transaction tr e i s = Inr (u, s')"
  shows "es_rate_inv W M (env_timestamp e) s'"
  using run
proof (cases rule: es_execute_Inr)
  case (1 c tx r g w')
  let ?now = "env_timestamp e" and ?cut = "env_timestamp e - W"
  have c: "rate_limit_window c = W" "rate_limit_max c = M" using inv 1(1) by (auto simp: es_rate_inv_def)
  have fin: "finite (dom (es_transaction s))" using inv by (simp add: es_rate_inv_def)
  have ex: "es_executions P s' = es_executions P s + (if P ?now then 1 else 0)" for P
    using es_executions_upd [OF fin, of s' i "tx\<lparr>et_executed := True, et_executed_at := ?now\<rparr>" P] 1(3,4) by (simp add: 1(16))
  have g': "es_global_executions s' = Some (filter (\<lambda>v. ?cut \<le> v) (g @ [?now]))" by (simp add: 1(16) c)
  have r': "es_recipient_executions s' (et_recipient tx) =
      Some (filter (\<lambda>v. ?cut \<le> v) (unwrap_or [] (es_recipient_executions s (et_recipient tx)) @ [?now]))"
    by (simp add: 1(16) c)
  have others: "es_recipient_executions s' a = es_recipient_executions s a" if "a \<noteq> et_recipient tx" for a
    using that by (simp add: 1(16))
  have glob: "es_recent (es_global_executions s') k = es_recent (es_global_executions s) k + (if k \<le> ?now then 1 else 0)"
    if "?cut \<le> k" for k
    unfolding g' es_recent_pruned [OF that] 1(9) ..
  have rec: "es_recent (es_recipient_executions s' a) k \<le> es_recent (es_recipient_executions s a) k + (if k \<le> ?now then 1 else 0)"
    if "?cut \<le> k" for a k
  proof (cases "a = et_recipient tx")
    case True
    then show ?thesis unfolding True r' es_recent_pruned [OF that] by (simp add: es_recent_def)
  qed (simp add: others)
  have window: "es_executions (\<lambda>v. k \<le> v) s' = int (es_recent (es_global_executions s') k) \<and>
      (\<forall>a. es_recent (es_recipient_executions s' a) k \<le> es_recent (es_global_executions s') k)" if "?cut \<le> k" for k
  proof -
    have "es_executions (\<lambda>v. k \<le> v) s = int (es_recent (es_global_executions s) k)"
        "\<And>a. es_recent (es_recipient_executions s a) k \<le> es_recent (es_global_executions s) k"
      using inv that by (simp_all add: es_rate_inv_def)
    moreover from this(2) have "es_recent (es_recipient_executions s' a) k \<le> es_recent (es_global_executions s') k" for a
      using rec [OF that, of a] unfolding glob [OF that] by (meson add_le_mono1 order_trans)
    ultimately show ?thesis unfolding ex by (auto simp: glob [OF that])
  qed
  have cap: "es_executions (\<lambda>v. x \<le> v \<and> v \<le> x + W) s' \<le> int M" for x
  proof (cases "x \<le> ?now \<and> ?now \<le> x + W")
    case True
    then have "es_executions (\<lambda>v. x \<le> v \<and> v \<le> x + W) s \<le> es_executions (\<lambda>v. ?cut \<le> v) s"
      by (intro es_executions_mono) auto
    also have "\<dots> = int (es_recent (es_global_executions s) ?cut)" using inv by (simp add: es_rate_inv_def)
    also have "\<dots> < int M" using 1(10) c by simp
    finally show ?thesis using True unfolding ex by simp
  next
    case False
    then show ?thesis using inv unfolding ex by (auto simp: es_rate_inv_def)
  qed
  have each: "j < unwrap_or 1 (es_next_tx_id s') \<and> (et_executed y \<longrightarrow> et_executed_at y \<le> ?now)" if "es_transaction s' j = Some y" for j y
    using that inv 1(3) by (auto simp: 1(16) es_rate_inv_def split: if_splits)
  have "finite (dom (es_transaction s'))" "es_config s' = Some c" using fin 1(1) by (simp_all add: 1(16))
  with each window cap c show ?thesis unfolding es_rate_inv_def by simp
qed

lemma es_rate_submit:
  assumes inv: "es_rate_inv W M t s" and run: "es_submit_transaction e a k r n s = Inr (i, s')"
  shows "es_rate_inv W M t s'"
proof -
  define tx where "tx = \<lparr>et_id = i, et_escrow_id = k, et_recipient = r, et_amount = n, et_submitter = a, approvers = [a],
      queued_at = env_timestamp e, et_executed = False, et_cancelled = False, et_executed_at = 0\<rparr>"
  from run have i: "i = unwrap_or 1 (es_next_tx_id s)" "es_config s \<noteq> None"
      and s': "s' = s\<lparr>es_transaction := (es_transaction s)(i \<mapsto> tx), es_next_tx_id := Some (i + 1)\<rparr>"
    by (auto simp: es_submit_transaction_def es_load_defs result_iffs Let_def tx_def)
  have "es_transaction s i = None"
    using es_rate_bound [OF inv, of i] i(1) by (cases "es_transaction s i") auto
  then show ?thesis
    by (intro es_rate_tx [OF inv i(2), of s' i tx]) (use i(1) in \<open>simp_all add: s' tx_def\<close>)
qed

lemma es_rate_queue_ops:
  assumes inv: "es_rate_inv W M t s"
  shows "es_approve_transaction e a i s = Inr ((), s') \<Longrightarrow> es_rate_inv W M t s'"
    and "es_revoke_approval e a i s = Inr ((), s') \<Longrightarrow> es_rate_inv W M t s'"
    and "es_cancel_transaction e a i s = Inr ((), s') \<Longrightarrow> es_rate_inv W M t s'"
proof -
  assume "es_approve_transaction e a i s = Inr ((), s')"
  then obtain tx where "es_config s \<noteq> None" "es_transaction s i = Some tx" "\<not> et_executed tx"
      "s' = s\<lparr>es_transaction := (es_transaction s)(i \<mapsto> tx\<lparr>approvers := approvers tx @ [a]\<rparr>)\<rparr>"
    by (auto simp: es_approve_transaction_def es_load_defs result_iffs)
  then show "es_rate_inv W M t s'"
    by (intro es_rate_tx [OF inv, of s' i "tx\<lparr>approvers := approvers tx @ [a]\<rparr>"]) (auto dest: es_rate_bound [OF inv])
next
  assume "es_revoke_approval e a i s = Inr ((), s')"
  then obtain tx idx where "es_config s \<noteq> None" "es_transaction s i = Some tx" "\<not> et_executed tx"
      "s' = s\<lparr>es_transaction := (es_transaction s)(i \<mapsto> tx\<lparr>approvers := vec_remove idx (approvers tx)\<rparr>)\<rparr>"
    by (auto simp: es_revoke_approval_def es_load_defs result_iffs)
  then show "es_rate_inv W M t s'"
    by (intro es_rate_tx [OF inv, of s' i "tx\<lparr>approvers := vec_remove idx (approvers tx)\<rparr>"]) (auto dest: es_rate_bound [OF inv])
next
  assume "es_cancel_transaction e a i s = Inr ((), s')"
  then obtain tx where "es_config s \<noteq> None" "es_transaction s i = Some tx" "\<not> et_executed tx"
      "s' = s\<lparr>es_transaction := (es_transaction s)(i \<mapsto> tx\<lparr>et_cancelled := True\<rparr>)\<rparr>"
    by (auto simp: es_cancel_transaction_def es_load_defs result_iffs Let_def)
  then show "es_rate_inv W M t s'"
    by (intro es_rate_tx [OF inv, of s' i "tx\<lparr>et_cancelled := True\<rparr>"]) (auto dest: es_rate_bound [OF inv])
qed

text \<open>Calls that leave the queue, the recorded executions and the limits alone.\<close>

lemma es_rate_other:
  assumes inv: "es_rate_inv W M t s"
    and "es_transaction s' = es_transaction s" "es_next_tx_id s' = es_next_tx_id s"
    and "es_global_executions s' = es_global_executions s" "es_recipient_executions s' = es_recipient_executions s"
    and "es_config s' = es_config s \<or> (\<exists>c c'. es_config s = Some c \<and> es_config s' = Some c' \<and>
      rate_limit_window c' = rate_limit_window c \<and> rate_limit_max c' = rate_limit_max c)"
  shows "es_rate_inv W M t s'"
  by (rule es_rate_frame [OF inv]) (use inv assms(2-6) in \<open>auto simp: es_rate_inv_def\<close>)

lemma es_rate_call:
  assumes inv: "es_rate_inv W M (env_timestamp e) s" and adm: "es_capped W M e c" and run: "es_exec tr e c s = Some s'"
  shows "es_rate_inv W M (env_timestamp e) s'"
proof (cases c)
  case (EsExecuteTransaction i)
  then show ?thesis using inv run by (auto simp: result_iffs intro: es_rate_execute)
next
  case (EsSubmitTransaction a k r n)
  then show ?thesis using inv run by (auto simp: result_iffs intro: es_rate_submit)
next
  case (EsInitialize a ac ss m d g w n)
  have "es_config s = None" using run EsInitialize by (auto simp: result_iffs es_initialize_def)
  then show ?thesis using inv run EsInitialize adm
    by (auto simp: result_iffs es_initialize_def Let_def es_fold_signer es_rate_inv_def es_executions_def es_recent_def)
next
  case (EsApproveTransaction a i)
  then show ?thesis using run es_rate_queue_ops(1) [OF inv] by (auto simp: result_iffs)
next
  case (EsRevokeApproval a i)
  then show ?thesis using run es_rate_queue_ops(2) [OF inv] by (auto simp: result_iffs)
next
  case (EsCancelTransaction a i)
  then show ?thesis using run es_rate_queue_ops(3) [OF inv] by (auto simp: result_iffs)
next
  case (EsDeposit i a n)
  then have "es_deposit tr e i a n s = Inr ((), s')" using run by (auto simp: result_iffs)
  then show ?thesis by (cases rule: es_deposit_Inr) (rule es_rate_other [OF inv], simp_all)
qed (use inv adm run in \<open>auto simp: result_iffs es_add_signer_def es_remove_signer_def es_set_threshold_def es_set_timelock_def
      es_pause_def es_unpause_def es_create_escrow_def es_close_escrow_def es_load_defs Let_def
      intro!: es_rate_other [OF inv] split: if_splits\<close>)

interpretation esr: contract_machine "es_exec tr" "es_capped W M" es_any_drift "es_rate_inv W M" "es_fresh acs w" for tr W M acs w
  by unfold_locales (auto intro: es_rate_fresh es_rate_tick es_rate_drift es_rate_call)

text \<open>Exactly when an execution goes through.\<close>

definition es_ready :: "'w token_transfer \<Rightarrow> env \<Rightarrow> u64 \<Rightarrow> 'w es_state \<Rightarrow> bool" where
  "es_ready tr e i s \<longleftrightarrow> (\<exists>c tx r. es_config s = Some c \<and> \<not> ec_paused c \<and> es_transaction s i = Some tx \<and>
     \<not> et_executed tx \<and> \<not> et_cancelled tx \<and> required_approvals c \<le> length (approvers tx) \<and>
     queued_at tx + timelock_delay c \<le> env_timestamp e \<and>
     env_timestamp e \<le> queued_at tx + timelock_delay c + grace_period c \<and>
     queued_at tx + timelock_delay c + grace_period c \<le> u64_max \<and> es_global_executions s \<noteq> None \<and>
     es_recent (es_global_executions s) (env_timestamp e - rate_limit_window c) < rate_limit_max c \<and>
     es_recent (es_recipient_executions s (et_recipient tx)) (env_timestamp e - rate_limit_window c) < rate_limit_max c \<and>
     es_escrow s (et_escrow_id tx) = Some r \<and> et_amount tx \<le> es_escrow_balance_raw (et_escrow_id tx) s \<and>
     in_i128 (es_escrow_balance_raw (et_escrow_id tx) s - et_amount tx) \<and>
     (\<not> is_native r \<longrightarrow> tr e (er_token r) (env_self e) (et_recipient tx) (et_amount tx) (es_tokens s) \<noteq> None))"

lemma es_execute_iff: "(\<exists>s'. es_execute_transaction tr e i s = Inr ((), s')) \<longleftrightarrow> es_ready tr e i s"
proof
  assume "\<exists>s'. es_execute_transaction tr e i s = Inr ((), s')"
  then obtain s' where "es_execute_transaction tr e i s = Inr ((), s')" by blast
  then show "es_ready tr e i s"
    by (cases rule: es_execute_Inr) (unfold es_ready_def, blast)
next
  assume "es_ready tr e i s"
  then obtain c tx r where ready: "es_config s = Some c" "\<not> ec_paused c" "es_transaction s i = Some tx"
      "\<not> et_executed tx" "\<not> et_cancelled tx" "required_approvals c \<le> length (approvers tx)"
      "queued_at tx + timelock_delay c \<le> env_timestamp e"
      "env_timestamp e \<le> queued_at tx + timelock_delay c + grace_period c"
      "queued_at tx + timelock_delay c + grace_period c \<le> u64_max" "es_global_executions s \<noteq> None"
      "es_recent (es_global_executions s) (env_timestamp e - rate_limit_window c) < rate_limit_max c"
      "es_recent (es_recipient_executions s (et_recipient tx)) (env_timestamp e - rate_limit_window c) < rate_limit_max c"
      "es_escrow s (et_escrow_id tx) = Some r" "et_amount tx \<le> es_escrow_balance_raw (et_escrow_id tx) s"
      "in_i128 (es_escrow_balance_raw (et_escrow_id tx) s - et_amount tx)"
      "\<not> is_native r \<longrightarrow> tr e (er_token r) (env_self e) (et_recipient tx) (et_amount tx) (es_tokens s) \<noteq> None"
    unfolding es_ready_def by blast
  have rate: "es_check_rate_limits e c (et_recipient tx) s = Inr ()" using ready(10-12) by (simp add: result_iffs)
  from ready(10) obtain g where g: "es_global_executions s = Some g" by auto
  show "\<exists>s'. es_execute_transaction tr e i s = Inr ((), s')"
    using ready(1-9,13-16) rate g
    by (cases "is_native r") (auto simp: es_execute_transaction_def es_load_defs Let_def checked_add_u64_def
        checked_sub_i128_def narrow_i128_def call_token_def)
qed

context token_contract
begin

lemma es_reach_inv:
  "reach (es_exec transfer) (es_adm self) (es_drift balance self) (es_fresh acs w) t s \<Longrightarrow> es_inv balance self w t s"
  by (rule esm.reach_inv)

end

section \<open>A concrete run\<close>

text \<open>
  A contract at \<open>Addr 0\<close> with three signers, two required approvals, a delay of 100 seconds and a
  linked access-control contract at \<open>Addr 60\<close>; \<open>Addr 4\<close> deposits the token at \<open>Addr 50\<close>.
\<close>

definition es_env :: "u64 \<Rightarrow> env" where
  "es_env t = \<lparr>env_timestamp = t, env_auth = (\<lambda>a. a \<noteq> Addr 0), env_self = Addr 0, env_sequence = 0\<rparr>"

definition es_world :: mock_world where
  "es_world = (\<lambda>tok. if tok = Addr 50 then [Addr 4 \<mapsto> 900] else Map.empty)"

definition es_registries :: "address \<Rightarrow> ac_state option" where
  "es_registries = [Addr 60 \<mapsto> ac_ready]"

definition es_demo_calls :: "(env \<times> es_call) list" where
  "es_demo_calls =
     [(es_env 10, EsInitialize (Addr 8) (Some (Addr 60)) [Addr 1, Addr 2, Addr 3] 2 100 1000 3600 2),
      (es_env 11, EsCreateEscrow (Addr 4) (Addr 50) False ''deal''),
      (es_env 12, EsDeposit 1 (Addr 4) 500),
      (es_env 20, EsSubmitTransaction (Addr 1) 1 (Addr 9) 200),
      (es_env 30, EsApproveTransaction (Addr 2) 1)]"

definition es_demo_config :: escrow_config where
  "es_demo_config = \<lparr>ec_admin = Addr 8, ec_access_control = Some (Addr 60), required_approvals = 2, ec_signer_count = 3,
     timelock_delay = 100, grace_period = 1000, rate_limit_window = 3600, rate_limit_max = 2, ec_paused = False\<rparr>"

definition es_demo_tx :: escrow_transaction where
  "es_demo_tx = \<lparr>et_id = 1, et_escrow_id = 1, et_recipient = Addr 9, et_amount = 200, et_submitter = Addr 1,
     approvers = [Addr 1, Addr 2], queued_at = 20, et_executed = False, et_cancelled = False, et_executed_at = 0\<rparr>"

definition es_demo_escrow :: escrow_record where
  "es_demo_escrow = \<lparr>er_id = 1, er_token = Addr 50, is_native = False, er_creator = Addr 4, purpose = ''deal'',
     er_created_at = 11, er_active = True\<rparr>"

definition es_demo :: "mock_world es_state" where
  "es_demo = \<lparr>es_config = Some es_demo_config, es_signer = [Addr 1 \<mapsto> True, Addr 2 \<mapsto> True, Addr 3 \<mapsto> True],
     es_signer_list = Some [Addr 1, Addr 2, Addr 3], es_escrow = [1 \<mapsto> es_demo_escrow], es_escrow_balance = [1 \<mapsto> 500],
     es_transaction = [1 \<mapsto> es_demo_tx], es_global_executions = Some [], es_recipient_executions = (\<lambda>_. None),
     es_next_escrow_id = Some 2, es_next_tx_id = Some 2, es_access = es_registries,
     es_tokens = es_world(Addr 50 := [Addr 4 \<mapsto> 400, Addr 0 \<mapsto> 500])\<rparr>"

lemma es_env_simps [simp]:
  "env_timestamp (es_env t) = t" "env_auth (es_env t) a = (a \<noteq> Addr 0)" "env_self (es_env t) = Addr 0"
  by (simp_all add: es_env_def)

lemmas es_eval = es_fresh_def es_initialize_def es_create_escrow_def es_deposit_def es_submit_transaction_def
  es_approve_transaction_def es_load_defs es_validate_signer_set_def es_require_signer_def es_require_signer_or_admin_def
  es_is_signer_def es_escrow_balance_raw_def ZERO_DELAY_def MIN_AMOUNT_def ES_MAX_SIGNERS_def require_auth_def
  call_token_def mock_world_transfer_def mock_transfer_def mock_balance_def mock_world_balance_def Let_def arith_defs

lemma es_demo_run: "run_calls (es_exec mock_world_transfer) es_demo_calls (es_fresh es_registries es_world) = es_demo"
  by (simp add: es_demo_calls_def es_demo_def es_demo_config_def es_demo_tx_def es_demo_escrow_def es_world_def es_eval fun_upd_twist)

lemma es_demo_reach:
  "reach (es_exec mock_world_transfer) (es_adm (Addr 0)) (es_drift mock_world_balance (Addr 0)) (es_fresh es_registries es_world) 30 es_demo"
  using reach_run [of "es_adm (Addr 0)" es_demo_calls "es_exec mock_world_transfer" "es_drift mock_world_balance (Addr 0)" "es_fresh es_registries es_world"]
  by (simp add: es_demo_run) (simp add: es_demo_calls_def es_adm_def)

lemma es_demo_reach_capped:
  "reach (es_exec mock_world_transfer) (es_capped 3600 2) es_any_drift (es_fresh es_registries es_world) 30 es_demo"
  using reach_run [of "es_capped 3600 2" es_demo_calls "es_exec mock_world_transfer" es_any_drift "es_fresh es_registries es_world"]
  by (simp add: es_demo_run) (simp add: es_demo_calls_def)

lemma es_demo_execute: "\<exists>s'. es_execute_transaction mock_world_transfer (es_env 130) 1 es_demo = Inr ((), s')"
  unfolding es_execute_iff es_ready_def
  by (simp add: es_demo_def es_demo_config_def es_demo_tx_def es_demo_escrow_def es_world_def es_recent_def es_eval)

section \<open>Properties\<close>

text \<open>
  C28. Solvency. On any token that behaves as documented, in every reachable state the contract
  holds, beyond what it held at deployment, at least the recorded balances of all token escrows of
  that token together, and no recorded balance is negative.
\<close>

theorem es_solvent:
  assumes "token_contract tr bal"
    and "reach (es_exec tr) (es_adm self) (es_drift bal self) (es_fresh acs w) t s"
  shows "bal w tok self + es_total_held tok s \<le> bal (es_tokens s) tok self \<and>
    (\<forall>i r. es_escrow s i = Some r \<longrightarrow> 0 \<le> es_escrow_balance_raw i s)"
  using token_contract.es_reach_inv [OF assms] by (auto simp: es_inv_def es_ledger_ok_def)

theorem es_solvent_witness:
  "mock_world_balance es_world (Addr 50) (Addr 0) + es_total_held (Addr 50) es_demo
     \<le> mock_world_balance (es_tokens es_demo) (Addr 50) (Addr 0)"
  using es_solvent [OF mock.token_contract_axioms es_demo_reach] by blast

text \<open>
  C8. Guarded withdrawals. In a reachable state a transaction executes only if the contract is not
  paused, at least the required (non-zero) number of distinct addresses approved it, the time lock has elapsed
  and the grace period has not; the execution debits the escrow by exactly the amount, which a token
  escrow pays to the recipient, and marks the transaction executed.
\<close>

theorem es_execution_guarded:
  assumes "token_contract tr bal"
    and "reach (es_exec tr) (es_adm self) (es_drift bal self) (es_fresh acs w) t s"
    and "es_execute_transaction tr e i s = Inr (u, s')"
  shows "\<exists>c tx r. es_config s = Some c \<and> es_transaction s i = Some tx \<and> es_escrow s (et_escrow_id tx) = Some r \<and>
    \<not> ec_paused c \<and> \<not> et_executed tx \<and> \<not> et_cancelled tx \<and>
    0 < required_approvals c \<and> required_approvals c \<le> card (set (approvers tx)) \<and>
    queued_at tx + timelock_delay c \<le> env_timestamp e \<and>
    env_timestamp e \<le> queued_at tx + timelock_delay c + grace_period c \<and>
    es_escrow_balance_raw (et_escrow_id tx) s' = es_escrow_balance_raw (et_escrow_id tx) s - et_amount tx \<and>
    0 \<le> es_escrow_balance_raw (et_escrow_id tx) s' \<and>
    (\<not> is_native r \<and> et_recipient tx \<noteq> env_self e \<longrightarrow> bal (es_tokens s') (er_token r) (et_recipient tx) =
       bal (es_tokens s) (er_token r) (et_recipient tx) + et_amount tx) \<and>
    es_transaction s' i = Some (tx\<lparr>et_executed := True, et_executed_at := env_timestamp e\<rparr>)"
proof -
  have inv: "es_inv bal self w t s" by (rule token_contract.es_reach_inv [OF assms(1,2)])
  show ?thesis
    using assms(3)
  proof (cases rule: es_execute_Inr)
    case (1 c tx r g w')
    have tx: "distinct (approvers tx)" using es_inv_txD [OF inv 1(3)] by (simp add: es_tx_ok_def)
    have c: "0 < required_approvals c" using inv 1(1) by (auto simp: es_inv_def es_setup_ok_def es_signers_ok_def)
    have paid: "\<not> is_native r \<and> et_recipient tx \<noteq> env_self e \<longrightarrow> bal w' (er_token r) (et_recipient tx) =
        bal (es_tokens s) (er_token r) (et_recipient tx) + et_amount tx"
      using 1(14) token_contract.balance_dst [OF assms(1)] by metis
    show ?thesis
      using 1(1-8,12,13) tx c paid
      by (simp add: 1(16) distinct_card es_escrow_balance_raw_def)
  qed
qed

theorem es_execution_guarded_witness:
  "\<exists>s'. es_execute_transaction mock_world_transfer (es_env 130) 1 es_demo = Inr ((), s') \<and>
     es_escrow_balance_raw 1 s' = 300 \<and> required_approvals es_demo_config \<le> card (set (approvers es_demo_tx))"
proof -
  obtain s' where run: "es_execute_transaction mock_world_transfer (es_env 130) 1 es_demo = Inr ((), s')"
    using es_demo_execute by blast
  have "es_config es_demo = Some es_demo_config" "es_transaction es_demo 1 = Some es_demo_tx" "es_escrow_balance_raw 1 es_demo = 500"
    by (simp_all add: es_demo_def es_escrow_balance_raw_def)
  with es_execution_guarded [OF mock.token_contract_axioms es_demo_reach run] run show ?thesis
    by (auto simp: es_demo_tx_def)
qed

text \<open>
  C34. Rate limit over every window. If the rate limit is fixed at initialisation to \<open>M\<close> executions
  per window of \<open>W\<close> seconds, then in every reachable state every interval of that length contains
  at most \<open>M\<close> executions. The per-recipient check never rejects what the global check accepts.
\<close>

theorem es_rate_limited:
  assumes "reach (es_exec tr) (es_capped W M) es_any_drift (es_fresh acs w) t s"
  shows "es_executions (\<lambda>v. x \<le> v \<and> v \<le> x + W) s \<le> int M \<and>
    (\<forall>c r. es_config s = Some c \<longrightarrow>
       es_recent (es_recipient_executions s r) (t - rate_limit_window c)
         \<le> es_recent (es_global_executions s) (t - rate_limit_window c))"
  using esr.reach_inv [OF assms] by (auto simp: es_rate_inv_def)

theorem es_rate_limited_witness:
  "\<exists>s'. es_execute_transaction mock_world_transfer (es_env 130) 1 es_demo = Inr ((), s') \<and>
     es_executions (\<lambda>v. 100 \<le> v \<and> v \<le> 100 + 3600) s' \<le> int 2"
proof -
  obtain s' where run: "es_execute_transaction mock_world_transfer (es_env 130) 1 es_demo = Inr ((), s')"
    using es_demo_execute by blast
  have "reach (es_exec mock_world_transfer) (es_capped 3600 2) es_any_drift (es_fresh es_registries es_world) 130 s'"
    by (rule reach_call [where c = "EsExecuteTransaction 1" and e = "es_env 130", OF reach_tick [OF es_demo_reach_capped]])
       (simp_all add: run del: One_nat_def)
  from es_rate_limited [OF this, of 100] run show ?thesis by auto
qed

text \<open>
  Finality. In every reachable state no transaction is both executed and cancelled, and no call
  changes a transaction that is executed or cancelled.
\<close>

theorem es_final_transactions:
  assumes "token_contract tr bal"
    and "reach (es_exec tr) (es_adm self) (es_drift bal self) (es_fresh acs w) t s"
    and "es_transaction s i = Some tx" and "et_executed tx \<or> et_cancelled tx" and "es_exec tr e c s = Some s'"
  shows "\<not> (et_executed tx \<and> et_cancelled tx) \<and> es_transaction s' i = Some tx"
proof -
  have inv: "es_inv bal self w t s" by (rule token_contract.es_reach_inv [OF assms(1,2)])
  have tx: "es_tx_ok s i tx" "i < unwrap_or 1 (es_next_tx_id s)" using es_inv_txD [OF inv assms(3)] by auto
  have "es_transaction s' i = Some tx"
  proof (cases c)
    case (EsExecuteTransaction j)
    then have "es_execute_transaction tr e j s = Inr ((), s')" using assms(5) by (auto simp: result_iffs)
    then show ?thesis using assms(3,4) by (cases rule: es_execute_Inr) (auto split: if_splits)
  next
    case (EsDeposit j a n)
    then have "es_deposit tr e j a n s = Inr ((), s')" using assms(5) by (auto simp: result_iffs)
    then show ?thesis using assms(3) by (cases rule: es_deposit_Inr) simp
  next
    case (EsSubmitTransaction a k r n)
    then show ?thesis using assms(3,5) tx(2)
      by (auto simp: result_iffs es_submit_transaction_def es_load_defs Let_def)
  qed (use assms(3-5) in \<open>auto simp: result_iffs es_initialize_def es_fold_signer es_add_signer_def es_remove_signer_def
      es_set_threshold_def es_set_timelock_def es_set_rate_limit_def es_pause_def es_unpause_def es_create_escrow_def es_close_escrow_def
      es_approve_transaction_def es_revoke_approval_def es_cancel_transaction_def es_load_defs Let_def split: if_splits\<close>)
  then show ?thesis using tx(1) by (simp add: es_tx_ok_def)
qed

lemma es_demo_cancel:
  "es_cancel_transaction (es_env 40) (Addr 1) 1 es_demo =
     Inr ((), es_demo\<lparr>es_transaction := [1 \<mapsto> es_demo_tx\<lparr>et_cancelled := True\<rparr>]\<rparr>)"
  by (simp add: es_cancel_transaction_def es_is_admin_def es_eval)
     (simp add: es_demo_def es_demo_config_def es_demo_tx_def es_registries_def)

theorem es_final_transactions_witness:
  "\<exists>s1 s2. es_cancel_transaction (es_env 40) (Addr 1) 1 es_demo = Inr ((), s1) \<and>
     es_pause (es_env 41) (Addr 8) s1 = Inr ((), s2) \<and> es_transaction s2 1 = Some (es_demo_tx\<lparr>et_cancelled := True\<rparr>)"
proof -
  let ?s1 = "es_demo\<lparr>es_transaction := [1 \<mapsto> es_demo_tx\<lparr>et_cancelled := True\<rparr>]\<rparr>"
  have r1: "reach (es_exec mock_world_transfer) (es_adm (Addr 0)) (es_drift mock_world_balance (Addr 0))
      (es_fresh es_registries es_world) 40 ?s1"
    by (rule reach_call [where c = "EsCancelTransaction (Addr 1) 1" and e = "es_env 40", OF reach_tick [OF es_demo_reach]])
       (simp_all add: es_adm_def es_demo_cancel del: One_nat_def)
  have "\<exists>s2. es_pause (es_env 41) (Addr 8) ?s1 = Inr ((), s2)"
    by (simp add: es_pause_def es_require_admin_def es_is_admin_def es_eval) (simp add: es_demo_def es_demo_config_def)
  then obtain s2 where p: "es_pause (es_env 41) (Addr 8) ?s1 = Inr ((), s2)" by blast
  have "es_exec mock_world_transfer (es_env 41) (EsPause (Addr 8)) ?s1 = Some s2" by (simp add: p del: One_nat_def)
  from es_final_transactions [OF mock.token_contract_axioms r1 _ _ this, of 1 "es_demo_tx\<lparr>et_cancelled := True\<rparr>"] p es_demo_cancel
  show ?thesis by auto
qed

lemma es_reach_covered:
  assumes "es_inv bal self w t s" and "es_escrow s j = Some r" and "\<not> is_native r"
  shows "bal w (er_token r) self + es_escrow_balance_raw j s \<le> bal (es_tokens s) (er_token r) self"
proof -
  have ok: "es_ledger_ok s" using assms(1) by (simp add: es_inv_def)
  have "es_held (er_token r) (r, es_escrow_balance_raw j s) \<le> es_total_held (er_token r) s"
    unfolding es_total_held_def
    by (rule entry_sum_ge_entry [where m = "es_ledger s" and k = j, OF _ es_ledger_at [OF assms(2)]])
       (use ok in \<open>auto simp: es_ledger_ok_def es_ledger_def es_held_def\<close>)
  then have "es_escrow_balance_raw j s \<le> es_total_held (er_token r) s" using assms(3) by (simp add: es_held_def)
  moreover have "bal w (er_token r) self + es_total_held (er_token r) s \<le> bal (es_tokens s) (er_token r) self"
    using assms(1) by (simp add: es_inv_def)
  ultimately show ?thesis by linarith
qed

text \<open>
  Liveness of withdrawals. In every reachable state, on a token that honours funded payments, a
  pending transaction with enough approvals whose window is open executes, as long as the contract is
  not paused, the rate limits leave room, the escrow still holds the amount and the recipient's
  balance stays representable.
\<close>

theorem es_execute_succeeds:
  assumes "live_token tr bal"
    and "reach (es_exec tr) (es_adm self) (es_drift bal self) (es_fresh acs w) t s"
    and "es_config s = Some c" and "\<not> ec_paused c"
    and "es_transaction s i = Some tx" and "\<not> et_executed tx" and "\<not> et_cancelled tx"
    and "required_approvals c \<le> length (approvers tx)"
    and "queued_at tx + timelock_delay c \<le> env_timestamp e"
    and "env_timestamp e \<le> queued_at tx + timelock_delay c + grace_period c"
    and "queued_at tx + timelock_delay c + grace_period c \<le> u64_max"
    and "es_recent (es_global_executions s) (env_timestamp e - rate_limit_window c) < rate_limit_max c"
    and "es_recent (es_recipient_executions s (et_recipient tx)) (env_timestamp e - rate_limit_window c) < rate_limit_max c"
    and "es_escrow s (et_escrow_id tx) = Some r" and "et_amount tx \<le> es_escrow_balance_raw (et_escrow_id tx) s"
    and "env_self e = self" and "0 \<le> bal w (er_token r) self"
    and "in_i128 (bal (es_tokens s) (er_token r) (et_recipient tx) + et_amount tx)"
  shows "\<exists>s'. es_execute_transaction tr e i s = Inr ((), s')"
proof -
  have inv: "es_inv bal self w t s"
    by (rule token_contract.es_reach_inv [OF live_token.axioms(1) [OF assms(1)] assms(2)])
  have pos: "0 < et_amount tx" using es_inv_txD [OF inv assms(5)] by (simp add: es_tx_ok_def)
  have "in_i128 (es_escrow_balance_raw (et_escrow_id tx) s)"
    using inv assms(14) by (auto simp: es_inv_def es_ledger_ok_def)
  then have fits: "in_i128 (es_escrow_balance_raw (et_escrow_id tx) s - et_amount tx)"
    using pos assms(15) by (auto intro: in_i128_nonneg)
  have pay: "\<not> is_native r \<longrightarrow> tr e (er_token r) (env_self e) (et_recipient tx) (et_amount tx) (es_tokens s) \<noteq> None"
    using live_token.self_payment_succeeds [OF assms(1) pos _ assms(18)] es_reach_covered [OF inv assms(14)] assms(15-17)
    by fastforce
  have "es_global_executions s \<noteq> None" using inv assms(3) by (simp add: es_inv_def es_setup_ok_def)
  then show ?thesis
    unfolding es_execute_iff es_ready_def
    by (intro exI [of _ c] exI [of _ tx] exI [of _ r]) (use assms(3-15) fits pay in simp)
qed

theorem es_execute_succeeds_witness:
  "\<exists>s'. es_execute_transaction mock_world_transfer (es_env 130) 1 es_demo = Inr ((), s')"
  by (rule es_execute_succeeds [OF mock.live_token_axioms es_demo_reach,
        where c = es_demo_config and tx = es_demo_tx and r = es_demo_escrow])
     (simp_all add: es_demo_def es_demo_config_def es_demo_tx_def es_demo_escrow_def es_world_def es_recent_def
        mock_world_balance_def mock_balance_def es_escrow_balance_raw_def arith_defs)

text \<open>
  Removing a signer does not withdraw its approvals: execution counts the approval list as it
  is, so a transaction executes after the removal exactly when it would have executed before.
\<close>

theorem es_removed_signer_still_counts:
  assumes "es_remove_signer e a x s = Inr ((), s')"
  shows "(\<exists>r. es_execute_transaction tr e' i s' = Inr ((), r)) \<longleftrightarrow> (\<exists>r. es_execute_transaction tr e' i s = Inr ((), r))"
proof -
  from assms obtain c ss n where c: "es_config s = Some c" and
      s': "s' = s\<lparr>es_signer := (es_signer s)(x := None), es_signer_list := Some ss, es_config := Some (c\<lparr>ec_signer_count := n\<rparr>)\<rparr>"
    by (auto simp: es_remove_signer_def es_load_defs result_iffs Let_def)
  show ?thesis unfolding es_execute_iff by (simp add: es_ready_def s' c es_escrow_balance_raw_def)
qed

theorem es_removed_signer_still_counts_witness:
  "\<exists>s'. es_remove_signer (es_env 40) (Addr 8) (Addr 1) es_demo = Inr ((), s') \<and> \<not> es_is_signer (Addr 1) s' \<and>
     (\<exists>r. es_execute_transaction mock_world_transfer (es_env 130) 1 s' = Inr ((), r))"
proof -
  have "\<exists>s'. es_remove_signer (es_env 40) (Addr 8) (Addr 1) es_demo = Inr ((), s') \<and> \<not> es_is_signer (Addr 1) s'"
    by (simp add: es_remove_signer_def es_require_admin_def es_is_admin_def es_index_of_def es_eval)
       (simp add: es_demo_def es_demo_config_def)
  then obtain s' where run: "es_remove_signer (es_env 40) (Addr 8) (Addr 1) es_demo = Inr ((), s')"
    and gone: "\<not> es_is_signer (Addr 1) s'" by blast
  from es_removed_signer_still_counts [OF run] es_demo_execute run gone show ?thesis by blast
qed

text \<open>
  Who cancels. On a pending transaction an authorised caller's cancellation is accepted exactly
  when the caller is an admin, the submitter, or the execution window has lapsed; otherwise it is
  refused as unauthorised.
\<close>

theorem es_cancel_rights:
  assumes "es_config s = Some c" and "es_transaction s i = Some tx" and "\<not> et_executed tx" and "\<not> et_cancelled tx"
    and "env_auth e a" and "es_is_admin c a s = Inr adm" and "env_timestamp e \<le> u64_max"
  shows "es_cancel_transaction e a i s =
    (if adm \<or> a = et_submitter tx \<or> (queued_at tx + timelock_delay c + grace_period c < env_timestamp e)
     then Inr ((), s\<lparr>es_transaction := (es_transaction s)(i \<mapsto> tx\<lparr>et_cancelled := True\<rparr>)\<rparr>)
     else Inl EsUnauthorized)"
proof -
  have "saturating_add_u64 (saturating_add_u64 (queued_at tx) (timelock_delay c)) (grace_period c) < env_timestamp e \<longleftrightarrow>
      queued_at tx + timelock_delay c + grace_period c < env_timestamp e"
    using assms(7) by (auto simp: saturating_add_u64_def)
  then show ?thesis using assms(1-6) by (simp add: es_cancel_transaction_def es_load_defs require_auth_def Let_def)
qed

theorem es_cancel_rights_witness:
  "es_cancel_transaction (es_env 40) (Addr 5) 1 es_demo = Inl EsUnauthorized"
proof -
  have "es_is_admin es_demo_config (Addr 5) es_demo = Inr False"
    by (simp add: es_is_admin_def es_demo_def es_demo_config_def es_registries_def)
  from es_cancel_rights [OF _ _ _ _ _ this, of 1 es_demo_tx "es_env 40"] show ?thesis
    by (simp add: es_demo_def es_demo_config_def es_demo_tx_def u64_max_def)
qed

end
