(* ===== verification/Amm_Math.thy ===== *)
theory Amm_Math
  imports Soroban_Prelude
begin

text \<open>
  The integer arithmetic of the AMM (src/contracts/amm/src/math.rs). Every function works on
  \<open>i128\<close>; a panic of the source, an overflow and a division by zero are \<open>Inl\<close>.
\<close>

datatype am_error =
    AmAlreadyInitialized | AmAuth | AmToken | AmOverflow | AmDivisionByZero | AmNegativeRoot
  | AmDivisorNotPositive | AmDividendNegative | AmInvalidFlashAmount | AmUnauthorized | AmSameTokens
  | AmFeeTooHigh | AmReentrancy | AmPoolNotFound | AmAmountNotPositive | AmLiquidityTooSmall
  | AmNothingMinted | AmRatioDeviates | AmInsufficientLp | AmNoLiquidity | AmRemainderTooSmall
  | AmWithdrawalTooSmall | AmTokenNotInPool | AmSlippage | AmZeroOutput | AmInsufficientPool
  | AmRepaymentTooHigh | AmNoLpTokens | AmNoRewards | AmInvalidMaxHops | AmNoRoute | AmInvalidRoute
  | AmHopMismatch | AmFinalTokenMismatch | AmPaused | AmBreakerActive | AmShareTooHigh | AmInvalidRisk
  | AmUserLimit | AmAssetLimit | AmConcentration

section \<open>Checked operations that panic\<close>

definition am_add :: "i128 \<Rightarrow> i128 \<Rightarrow> am_error + i128" where
  "am_add a b = ok_or AmOverflow (checked_add_i128 a b)"

definition am_sub :: "i128 \<Rightarrow> i128 \<Rightarrow> am_error + i128" where
  "am_sub a b = ok_or AmOverflow (checked_sub_i128 a b)"

definition am_mul :: "i128 \<Rightarrow> i128 \<Rightarrow> am_error + i128" where
  "am_mul a b = ok_or AmOverflow (checked_mul_i128 a b)"

lemma am_add_Inr [result_iffs]: "am_add a b = Inr c \<longleftrightarrow> c = a + b \<and> in_i128 (a + b)"
  by (simp add: am_add_def result_iffs)

lemma am_sub_Inr [result_iffs]: "am_sub a b = Inr c \<longleftrightarrow> c = a - b \<and> in_i128 (a - b)"
  by (simp add: am_sub_def result_iffs)

lemma am_mul_Inr [result_iffs]: "am_mul a b = Inr c \<longleftrightarrow> c = a * b \<and> in_i128 (a * b)"
  by (simp add: am_mul_def result_iffs)

lemma am_arith_ok [simp]:
  "in_i128 (a + b) \<Longrightarrow> am_add a b = Inr (a + b)"
  "in_i128 (a - b) \<Longrightarrow> am_sub a b = Inr (a - b)"
  "in_i128 (a * b) \<Longrightarrow> am_mul a b = Inr (a * b)"
  by (simp_all add: result_iffs)

section \<open>Square root\<close>

text \<open>
  The Newton step can only shrink the candidate while the candidate is at least \<open>- \<bar>n\<bar>\<close>, so the
  loop ends from any start, also from values the callers never pass.
\<close>

lemma newton_step_bounded:
  fixes n y :: int
  assumes "div_i128 (y + div_i128 n y) 2 < y" and "y \<noteq> 0"
  shows "- \<bar>n\<bar> \<le> y"
proof (rule ccontr)
  assume "\<not> - \<bar>n\<bar> \<le> y"
  then have y: "y < 0" "\<bar>n\<bar> < - y" by auto
  then have "div_i128 n y = 0" by (simp add: div_i128_def signed_divide_int_def)
  with assms(1) have "y sdiv 2 < y" by (simp add: div_i128_def)
  moreover have "y sdiv 2 = - ((- y) div 2)" using y by (simp add: signed_divide_int_def sgn_if)
  ultimately show False using y by linarith
qed

function isqrt_loop :: "i128 \<Rightarrow> i128 \<Rightarrow> i128 \<Rightarrow> am_error + i128" where
  "isqrt_loop n x y =
     (if y < x
      then if y = 0 then Inl AmDivisionByZero
        else and_then (am_add y (div_i128 n y)) (\<lambda>z. isqrt_loop n y (div_i128 z 2))
      else Inr x)"
  by pat_completeness auto

termination
proof (relation "measure (\<lambda>(n, x, y). if y < x then Suc (nat (x + \<bar>n\<bar> + 1)) else 0)")
  fix n x y z :: int
  assume "y < x" "y \<noteq> 0" "am_add y (div_i128 n y) = Inr z"
  then have z: "z = y + div_i128 n y" by (simp add: result_iffs)
  show "((n, y, div_i128 z 2), n, x, y) \<in> measure (\<lambda>(n, x, y). if y < x then Suc (nat (x + \<bar>n\<bar> + 1)) else 0)"
  proof (cases "div_i128 z 2 < y")
    case True
    with newton_step_bounded [of y n] \<open>y \<noteq> 0\<close> z have "- \<bar>n\<bar> \<le> y" by simp
    with True \<open>y < x\<close> show ?thesis by simp
  qed (use \<open>y < x\<close> in simp)
qed simp

declare isqrt_loop.simps [simp del]

definition isqrt :: "i128 \<Rightarrow> am_error + i128" where
  "isqrt n =
     and_then (panic_if (n < 0) AmNegativeRoot) (\<lambda>_.
     if n = 0 then Inr 0
     else and_then (am_add n 1) (\<lambda>z. isqrt_loop n n (div_i128 z 2)))"

section \<open>Rounded division and the constant-product formulas\<close>

definition ceil_div :: "i128 \<Rightarrow> i128 \<Rightarrow> am_error + i128" where
  "ceil_div a b =
     and_then (panic_if (b \<le> 0) AmDivisorNotPositive) (\<lambda>_.
     and_then (panic_if (a < 0) AmDividendNegative) (\<lambda>_.
     and_then (am_add a b) (\<lambda>c.
     and_then (am_sub c 1) (\<lambda>d. Inr (div_i128 d b)))))"

definition floor_div :: "i128 \<Rightarrow> i128 \<Rightarrow> am_error + i128" where
  "floor_div a b = and_then (panic_if (b \<le> 0) AmDivisorNotPositive) (\<lambda>_. Inr (div_i128 a b))"

definition get_amount_out :: "i128 \<Rightarrow> i128 \<Rightarrow> i128 \<Rightarrow> u32 \<Rightarrow> am_error + i128" where
  "get_amount_out amount_in reserve_in reserve_out fee_bps =
     (if amount_in \<le> 0 \<or> reserve_in \<le> 0 \<or> reserve_out \<le> 0 then Inr 0
      else
        and_then (am_sub 10000 (int fee_bps)) (\<lambda>fee_factor.
        and_then (am_mul amount_in fee_factor) (\<lambda>scaled.
        let amount_in_after_fee = div_i128 scaled 10000 in
        and_then (am_mul reserve_out amount_in_after_fee) (\<lambda>numerator.
        and_then (am_add reserve_in amount_in_after_fee) (\<lambda>denominator.
        and_then (panic_if (denominator = 0) AmDivisionByZero) (\<lambda>_.
        Inr (div_i128 numerator denominator)))))))"

definition get_amount_in :: "i128 \<Rightarrow> i128 \<Rightarrow> i128 \<Rightarrow> u32 \<Rightarrow> am_error + i128" where
  "get_amount_in amount_out reserve_in reserve_out fee_bps =
     and_then (panic_if (amount_out \<le> 0 \<or> reserve_in \<le> 0 \<or> reserve_out \<le> amount_out) AmInvalidFlashAmount) (\<lambda>_.
     and_then (am_mul reserve_in amount_out) (\<lambda>product.
     and_then (am_mul product 10000) (\<lambda>numerator.
     and_then (am_sub reserve_out amount_out) (\<lambda>remaining.
     and_then (am_sub 10000 (int fee_bps)) (\<lambda>fee_factor.
     and_then (am_mul remaining fee_factor) (\<lambda>denominator.
     ceil_div numerator denominator))))))"

section \<open>What they compute\<close>

lemma newton_upper:
  fixes n y :: int
  assumes "0 < y" and "0 \<le> n"
  shows "n < ((y + n div y) div 2 + 1) * ((y + n div y) div 2 + 1)"
proof -
  let ?q = "n div y" and ?z = "(y + n div y) div 2"
  have "y + ?q \<le> 2 * ?z + 1" by linarith
  then have "(y + ?q + 1) * (y + ?q + 1) \<le> (2 * ?z + 2) * (2 * ?z + 2)"
    using assms by (intro mult_mono) (auto simp: pos_imp_zdiv_nonneg_iff)
  moreover have "4 * (y * (?q + 1)) \<le> (y + ?q + 1) * (y + ?q + 1)"
  proof -
    have "0 \<le> (y - (?q + 1)) * (y - (?q + 1))" by simp
    then show ?thesis by (simp add: algebra_simps)
  qed
  moreover have "n < y * (?q + 1)"
    using assms(1) by (metis distrib_left mult.commute mult.right_neutral pos_mod_bound add_strict_left_mono div_mult_mod_eq)
  ultimately show ?thesis by (simp add: algebra_simps)
qed

lemma div_sum_le:
  fixes n y :: int
  assumes "0 < y" and "y \<le> n"
  shows "1 \<le> n div y" and "y + n div y \<le> n + 1"
proof -
  show q: "1 \<le> n div y" using zdiv_mono1 [OF assms(2,1)] assms(1) by simp
  have "0 \<le> (y - 1) * (n div y - 1)" using assms(1) q by simp
  moreover have "y * (n div y) \<le> n" using assms by (simp add: mult.commute [of y] minus_mod_eq_div_mult [symmetric])
  ultimately show "y + n div y \<le> n + 1" by (simp add: algebra_simps)
qed

lemma isqrt_loop_correct:
  assumes "0 < x" and "x \<le> n" and "n < (x + 1) * (x + 1)" and "y = (x + n div x) div 2" and "n < i128_max"
  shows "\<exists>r. isqrt_loop n x y = Inr r \<and> 0 \<le> r \<and> r * r \<le> n \<and> n < (r + 1) * (r + 1)"
  using assms
proof (induction n x y rule: isqrt_loop.induct)
  case (1 n x y)
  have q: "1 \<le> n div x" by (rule div_sum_le [OF "1.prems"(1,2)])
  show ?case
  proof (cases "y < x")
    case False
    then have "x \<le> n div x" using "1.prems"(4) by linarith
    then have "x * x \<le> x * (n div x)" using "1.prems"(1) by simp
    also have "x * (n div x) \<le> n" using "1.prems"(1) by (simp add: mult.commute [of x] minus_mod_eq_div_mult [symmetric])
    finally show ?thesis using False "1.prems"(1,3) by (simp add: isqrt_loop.simps [of n x y])
  next
    case True
    have y: "0 < y" "y \<le> n" using "1.prems"(1,2,4) q True by linarith+
    have step: "div_i128 n y = n div y" "div_i128 (y + n div y) 2 = (y + n div y) div 2"
      using y by (simp_all add: div_i128_nonneg pos_imp_zdiv_nonneg_iff)
    have "0 \<le> y + n div y" "y + n div y \<le> i128_max" using div_sum_le [OF y] y "1.prems"(5) by linarith+
    then have fits: "in_i128 (y + n div y)" by (simp add: in_i128_def i128_min_def)
    have "n < (y + 1) * (y + 1)" using newton_upper [of x n] "1.prems"(1,2,4) by simp
    then have "\<exists>r. isqrt_loop n y ((y + n div y) div 2) = Inr r \<and> 0 \<le> r \<and> r * r \<le> n \<and> n < (r + 1) * (r + 1)"
      using "1.IH" [of "y + n div y"] True y fits step "1.prems"(5) by simp
    then show ?thesis using True y(1) fits by (simp add: isqrt_loop.simps [of n x y] step)
  qed
qed

lemma isqrt_floor:
  assumes "0 \<le> n" and "n < i128_max"
  shows "\<exists>r. isqrt n = Inr r \<and> 0 \<le> r \<and> r * r \<le> n \<and> n < (r + 1) * (r + 1)"
proof (cases "n = 0")
  case False
  with assms have n: "0 < n" by simp
  have "0 < n * n + n + 1" using n by (intro add_pos_pos) auto
  then have "n < (n + 1) * (n + 1)" by (simp add: algebra_simps)
  moreover have "in_i128 (n + 1)" using assms by (simp add: in_i128_def i128_min_def)
  moreover have "div_i128 (n + 1) 2 = (n + n div n) div 2" using n by (simp add: div_i128_nonneg)
  ultimately show ?thesis
    using isqrt_loop_correct [of n n "(n + n div n) div 2"] n assms(2) by (simp add: isqrt_def)
qed (simp add: isqrt_def)

lemma isqrt_Inr:
  assumes "isqrt n = Inr r"
  shows "0 \<le> n" and "0 \<le> r" and "r * r \<le> n" and "n < (r + 1) * (r + 1)"
proof -
  show "0 \<le> n" using assms by (auto simp: isqrt_def result_iffs)
  moreover have "n < i128_max" if "n \<noteq> 0"
    using assms that by (auto simp: isqrt_def result_iffs in_i128_def)
  ultimately have "\<exists>r. isqrt n = Inr r \<and> 0 \<le> r \<and> r * r \<le> n \<and> n < (r + 1) * (r + 1)"
    using isqrt_floor [of n] by (cases "n = 0") (auto simp: i128_max_def)
  with assms show "0 \<le> r" "r * r \<le> n" "n < (r + 1) * (r + 1)" by auto
qed

lemma floor_div_Inr [result_iffs]: "floor_div a b = Inr c \<longleftrightarrow> 0 < b \<and> c = div_i128 a b"
  by (auto simp: floor_div_def result_iffs)

lemma ceil_div_Inr:
  assumes "ceil_div a b = Inr c"
  shows "0 < b" and "0 \<le> a" and "a \<le> c * b" and "c * b < a + b"
proof -
  from assms have ab: "0 < b" "0 \<le> a" and c: "c = (a + b - 1) div b"
    by (auto simp: ceil_div_def result_iffs div_i128_nonneg)
  then show "0 < b" "0 \<le> a" by simp_all
  have "c * b = a + b - 1 - (a + b - 1) mod b" by (simp add: c minus_mod_eq_div_mult)
  moreover have "0 \<le> (a + b - 1) mod b" "(a + b - 1) mod b < b" using ab(1) by simp_all
  ultimately show "a \<le> c * b" "c * b < a + b" by linarith+
qed

text \<open>The input that counts after the swap fee.\<close>

definition after_fee :: "i128 \<Rightarrow> u32 \<Rightarrow> i128" where
  "after_fee amount fee = amount * (10000 - int fee) div 10000"

lemma after_fee_bounds: "0 \<le> amount \<Longrightarrow> fee \<le> 10000 \<Longrightarrow> 0 \<le> after_fee amount fee \<and> after_fee amount fee \<le> amount"
  using div_fraction_bounds [of amount "10000 - int fee" 10000] by (simp add: after_fee_def)

lemma get_amount_out_Inr:
  assumes "get_amount_out x ri ro fee = Inr out" and "0 < x" "0 < ri" "0 < ro" and "fee \<le> 10000"
  shows "out = ro * after_fee x fee div (ri + after_fee x fee)"
proof -
  have "0 \<le> x * (10000 - int fee)" using assms by simp
  then have "div_i128 (x * (10000 - int fee)) 10000 = after_fee x fee" by (simp add: div_i128_nonneg after_fee_def)
  with assms show ?thesis
    using after_fee_bounds [of x fee] by (auto simp: get_amount_out_def result_iffs Let_def div_i128_nonneg)
qed

text \<open>The output is the largest one that keeps the product of the reserves, counted after the fee.\<close>

lemma div_greatest: "0 < (b::int) \<Longrightarrow> q \<le> a div b \<longleftrightarrow> q * b \<le> a"
proof
  assume b: "0 < b"
  show "q * b \<le> a" if "q \<le> a div b"
  proof -
    have "q * b \<le> a div b * b" using that b by simp
    also have "\<dots> \<le> a" using b by (simp add: minus_mod_eq_div_mult [symmetric])
    finally show ?thesis .
  qed
  show "q \<le> a div b" if "q * b \<le> a"
    using zdiv_mono1 [OF that b] b by simp
qed

lemma product_optimal:
  fixes ri ro af :: int
  assumes "0 < ri" and "0 \<le> af"
  shows "q \<le> ro * af div (ri + af) \<longleftrightarrow> ri * ro \<le> (ri + af) * (ro - q)"
  using assms div_greatest [of "ri + af" q "ro * af"] by (simp add: algebra_simps)

lemma out_below_reserve:
  fixes ri ro af :: int
  assumes "0 < ri" "0 < ro" "0 \<le> af"
  shows "0 \<le> ro * af div (ri + af)" and "ro * af div (ri + af) < ro"
proof -
  show "0 \<le> ro * af div (ri + af)" using assms by (simp add: pos_imp_zdiv_nonneg_iff)
  have "\<not> ri * ro \<le> 0" using mult_pos_pos [OF assms(1,2)] by linarith
  then have "\<not> ro \<le> ro * af div (ri + af)" using assms by (simp add: product_optimal)
  then show "ro * af div (ri + af) < ro" by simp
qed

lemma get_amount_in_Inr:
  assumes "get_amount_in out ri ro fee = Inr x" and "fee < 10000"
  shows "0 < out" "0 < ri" "out < ro" "0 < x"
    and "y * (10000 - int fee) * (ro - out) \<ge> 10000 * ri * out \<longleftrightarrow> x \<le> y"
proof -
  from assms(1) have pre: "0 < out" "0 < ri" "out < ro"
    and c: "ceil_div (ri * out * 10000) ((ro - out) * (10000 - int fee)) = Inr x"
    by (auto simp: get_amount_in_def result_iffs)
  then show "0 < out" "0 < ri" "out < ro" by simp_all
  let ?a = "ri * out * 10000" and ?b = "(ro - out) * (10000 - int fee)"
  note cd = ceil_div_Inr [OF c]
  have "0 < ?a" using pre by simp
  with cd(3) have "0 < x * ?b" by linarith
  with cd(1) show "0 < x" using zero_less_mult_pos2 by blast
  have "?a \<le> y * ?b \<longleftrightarrow> x \<le> y"
  proof
    assume "?a \<le> y * ?b"
    with cd(4) have "x * ?b < (y + 1) * ?b" by (simp add: algebra_simps)
    with cd(1) have "x < y + 1" using mult_less_cancel_right_pos by blast
    then show "x \<le> y" by simp
  next
    assume "x \<le> y"
    then have "x * ?b \<le> y * ?b" using cd(1) by (intro mult_right_mono) auto
    with cd(3) show "?a \<le> y * ?b" by linarith
  qed
  then show "y * (10000 - int fee) * (ro - out) \<ge> 10000 * ri * out \<longleftrightarrow> x \<le> y"
    by (simp add: algebra_simps)
qed

section \<open>Properties\<close>

text \<open>
  C10. The Newton loop of \<open>isqrt\<close> terminates without overflow on every non-negative input below the
  largest \<open>i128\<close> and returns the integer square root: the largest integer whose square does not
  exceed the input.
\<close>

theorem am_isqrt_terminates:
  assumes "0 \<le> n" and "n < i128_max"
  shows "\<exists>r. isqrt n = Inr r \<and> 0 \<le> r \<and> (\<forall>q. 0 \<le> q \<longrightarrow> (q * q \<le> n \<longleftrightarrow> q \<le> r))"
proof -
  obtain r where r: "isqrt n = Inr r" "0 \<le> r" "r * r \<le> n" "n < (r + 1) * (r + 1)"
    using isqrt_floor [OF assms] by blast
  have "q * q \<le> n \<longleftrightarrow> q \<le> r" if "0 \<le> q" for q
  proof
    assume "q \<le> r"
    then have "q * q \<le> r * r" using that by (intro mult_mono) auto
    with r(3) show "q * q \<le> n" by linarith
  next
    assume "q * q \<le> n"
    show "q \<le> r"
    proof (rule ccontr)
      assume "\<not> q \<le> r"
      then have "(r + 1) * (r + 1) \<le> q * q" using r(2) by (intro mult_mono) auto
      with r(4) \<open>q * q \<le> n\<close> show False by linarith
    qed
  qed
  with r show ?thesis by blast
qed

theorem am_isqrt_terminates_witness: "\<exists>r. isqrt 10 = Inr r \<and> (3 \<le> r \<longleftrightarrow> 3 * 3 \<le> (10::int))"
proof -
  have "(10::int) < i128_max" by (simp add: i128_max_def)
  with am_isqrt_terminates [of 10] obtain r where "isqrt 10 = Inr r" "\<forall>q. 0 \<le> q \<longrightarrow> (q * q \<le> 10 \<longleftrightarrow> q \<le> r)" by auto
  then show ?thesis by (metis zero_le_numeral)
qed

text \<open>
  C37. The output of a swap is the constant-product formula rounded in favour of the pool, and
  no more than that: whenever \<open>get_amount_out\<close> returns for a positive input, positive reserves and a
  fee below 100 percent, the amount it returns is the largest one for which the product of the
  reserves, with the input counted after the fee, does not fall. It is never negative and
  always leaves something in the reserve.
\<close>

theorem am_output_optimal:
  assumes "get_amount_out x ri ro fee = Inr out" and "0 < x" "0 < ri" "0 < ro" and "fee < 10000"
  shows "(\<forall>q. q \<le> out \<longleftrightarrow> ri * ro \<le> (ri + after_fee x fee) * (ro - q)) \<and> 0 \<le> out \<and> out < ro"
proof -
  have af: "0 \<le> after_fee x fee" using after_fee_bounds [of x fee] assms by simp
  have out: "out = ro * after_fee x fee div (ri + after_fee x fee)"
    using get_amount_out_Inr [OF assms(1-4)] assms(5) by simp
  show ?thesis
    using product_optimal [OF assms(3) af] out_below_reserve [OF assms(3,4) af] by (simp add: out)
qed

theorem am_output_optimal_witness:
  "get_amount_out 1000 100000 100000 30 = Inr 987 \<and>
   100000 * 100000 \<le> (100000 + after_fee 1000 30) * (100000 - 987) \<and>
   \<not> 100000 * 100000 \<le> (100000 + after_fee 1000 30) * (100000 - 988)"
proof -
  have out: "get_amount_out 1000 100000 100000 30 = Inr 987"
    by (simp add: get_amount_out_def am_sub_def am_mul_def am_add_def arith_defs div_i128_nonneg)
  then have opt: "q \<le> 987 \<longleftrightarrow> 100000 * 100000 \<le> (100000 + after_fee 1000 30) * (100000 - q)" for q
    using am_output_optimal [OF out] by simp
  show ?thesis using out opt [of 987] opt [of 988] by simp
qed

text \<open>
  The repayment \<open>get_amount_in\<close> asks of a flash swap keeps the product of the reserves, and it is the
  smallest one that does so when the fee is taken off without rounding. It is not an inverse of
  \<open>get_amount_out\<close>, which rounds the fee as well: the repayment for an output may buy less than that
  output when it is swapped in.
\<close>

theorem am_repayment_unrounded_optimal:
  assumes "get_amount_in out ri ro fee = Inr y" and "fee < 10000"
  shows "(\<forall>z. y \<le> z \<longleftrightarrow> 10000 * ri * out \<le> z * (10000 - int fee) * (ro - out)) \<and> ri * ro \<le> (ri + y) * (ro - out)"
proof -
  note gin = get_amount_in_Inr [OF assms]
  have "10000 * (ri * out) \<le> y * (10000 - int fee) * (ro - out)" using gin(5) [of y] by (simp add: mult.assoc)
  also have "\<dots> \<le> y * 10000 * (ro - out)" using gin(3,4) by (intro mult_right_mono mult_left_mono) auto
  finally have "ri * out \<le> y * (ro - out)" by simp
  then show ?thesis using gin(5) by (simp add: algebra_simps)
qed

theorem am_repayment_may_fall_short:
  "get_amount_in 1000 100000 100000 30 = Inr 1014 \<and> get_amount_out 1014 100000 100000 30 = Inr 999 \<and>
   get_amount_out 1015 100000 100000 30 = Inr 1000"
  by (simp add: get_amount_in_def get_amount_out_def ceil_div_def am_sub_def am_mul_def am_add_def arith_defs div_i128_nonneg)

end
