(* ===== verification/Rbac.thy ===== *)
theory Rbac
  imports Soroban_Host
begin

text \<open>
  The role checks of the shared library (src/lib/src/rbac.rs, src/lib/src/admin.rs). They work on
  the instance storage of the contract that calls them: the admin, the approved minters, lists of
  oracle providers by key, and the two lists of the separated duties, governance and KYC
  operation. An absent key is \<open>None\<close>. The functions take the acting address as an argument and
  leave authorisation to the caller, except \<open>transfer_admin\<close>.
\<close>

section \<open>State and checks\<close>

datatype contract_error =
    AlreadyInitialized | Unauthorized | DuplicateAgentId | AgentNotFound | InvalidAgentId
  | InvalidInput | AgentLeased | OverflowError | SameAddressTransfer | NotOwner
  | InvalidAmount | NotEnoughBalance | AlreadyExists | InvalidMetadata | OracleError
  | RateLimitExceeded | RoleEscalationAttempt | RoleConflict | MetadataTooLong | CapabilitiesExceeded
  | AuthMissing

datatype role_type = RtAdmin | RtMinter | RtGovernance | RtKycOperator

record rb_state =
  rb_admin :: "address option"
  rb_minters :: "address list option"
  rb_providers :: "string \<Rightarrow> address list option"
  rb_governance :: "address list option"
  rb_kyc :: "address list option"

definition rb_get_admin :: "rb_state \<Rightarrow> contract_error + address" where
  "rb_get_admin s = ok_or Unauthorized (rb_admin s)"

definition rb_require_admin :: "address \<Rightarrow> rb_state \<Rightarrow> contract_error + unit" where
  "rb_require_admin caller s =
     and_then (rb_get_admin s) (\<lambda>admin. panic_if (caller \<noteq> admin) RoleEscalationAttempt)"

definition rb_require_minter :: "address \<Rightarrow> rb_state \<Rightarrow> contract_error + unit" where
  "rb_require_minter caller s =
     (if (case rb_get_admin s of Inr admin \<Rightarrow> caller = admin | Inl _ \<Rightarrow> False) then Inr ()
      else let minters = unwrap_or [] (rb_minters s) in
        if vec_contains minters caller then Inr () else Inl RoleEscalationAttempt)"

text \<open>The two closures of \<open>require_owner_or_operator\<close> read the calling contract's storage.\<close>

definition rb_require_owner_or_operator ::
  "env \<Rightarrow> address \<Rightarrow> u64 \<Rightarrow> (u64 \<Rightarrow> address option) \<Rightarrow> (u64 \<Rightarrow> (address \<times> u64) option) \<Rightarrow> contract_error + unit" where
  "rb_require_owner_or_operator e caller agent_id get_owner get_operator =
     (if get_owner agent_id = Some caller then Inr ()
      else case get_operator agent_id of
        Some (operator, expires_at) \<Rightarrow>
          if caller = operator then
            if env_timestamp e < expires_at then Inr () else Inl RoleEscalationAttempt
          else Inl RoleEscalationAttempt
      | None \<Rightarrow> Inl RoleEscalationAttempt)"

definition rb_require_oracle_provider :: "address \<Rightarrow> string \<Rightarrow> rb_state \<Rightarrow> contract_error + unit" where
  "rb_require_oracle_provider caller key s =
     (let providers = unwrap_or [] (rb_providers s key) in
      if vec_contains providers caller then Inr () else Inl RoleEscalationAttempt)"

definition rb_has_governance_role :: "address \<Rightarrow> rb_state \<Rightarrow> contract_error + bool" where
  "rb_has_governance_role a s = Inr (list_ex (\<lambda>r. r = a) (unwrap_or [] (rb_governance s)))"

definition rb_has_kyc_operator_role :: "address \<Rightarrow> rb_state \<Rightarrow> contract_error + bool" where
  "rb_has_kyc_operator_role a s = Inr (list_ex (\<lambda>r. r = a) (unwrap_or [] (rb_kyc s)))"

text \<open>The scan of \<open>require_governance_role\<close> over the stored list; \<open>other\<close> is the conflicting role.\<close>

primrec rb_scan_role :: "(address \<Rightarrow> contract_error + bool) \<Rightarrow> address list \<Rightarrow> address \<Rightarrow> contract_error + unit" where
  "rb_scan_role other [] caller = Inl RoleEscalationAttempt"
| "rb_scan_role other (r # rs) caller =
     (if r = caller then and_then (other r) (\<lambda>conflict. panic_if conflict RoleConflict)
      else rb_scan_role other rs caller)"

definition rb_require_governance_role :: "address \<Rightarrow> rb_state \<Rightarrow> contract_error + unit" where
  "rb_require_governance_role caller s =
     rb_scan_role (\<lambda>a. rb_has_kyc_operator_role a s) (unwrap_or [] (rb_governance s)) caller"

definition rb_require_kyc_operator_role :: "address \<Rightarrow> rb_state \<Rightarrow> contract_error + unit" where
  "rb_require_kyc_operator_role caller s =
     rb_scan_role (\<lambda>a. rb_has_governance_role a s) (unwrap_or [] (rb_kyc s)) caller"

fun rb_validate_caller_role :: "address \<Rightarrow> role_type \<Rightarrow> rb_state \<Rightarrow> contract_error + unit" where
  "rb_validate_caller_role caller RtAdmin s = rb_require_admin caller s"
| "rb_validate_caller_role caller RtMinter s = rb_require_minter caller s"
| "rb_validate_caller_role caller RtGovernance s = rb_require_governance_role caller s"
| "rb_validate_caller_role caller RtKycOperator s = rb_require_kyc_operator_role caller s"

definition rb_require_admin_indirect_safe :: "address \<Rightarrow> rb_state \<Rightarrow> contract_error + unit" where
  "rb_require_admin_indirect_safe caller s =
     and_then (rb_get_admin s) (\<lambda>admin. panic_if (caller \<noteq> admin) RoleEscalationAttempt)"

text \<open>The event that \<open>validate_internal_call\<close> publishes first is not state.\<close>

definition rb_validate_internal_call :: "address \<Rightarrow> string \<Rightarrow> rb_state \<Rightarrow> contract_error + unit" where
  "rb_validate_internal_call caller function_name s = rb_require_admin_indirect_safe caller s"

section \<open>Changing roles\<close>

text \<open>\<open>remove_from_governance\<close> and \<open>remove_from_kyc_operators\<close> drop the first occurrence and delete the key with the last entry.\<close>

definition rb_remove_from_governance :: "address \<Rightarrow> rb_state \<Rightarrow> contract_error + rb_state" where
  "rb_remove_from_governance a s =
     (let (found, rest) = remove_first (unwrap_or [] (rb_governance s)) a in
      if found then Inr (if rest \<noteq> [] then s\<lparr>rb_governance := Some rest\<rparr> else s\<lparr>rb_governance := None\<rparr>)
      else Inr s)"

definition rb_remove_from_kyc_operators :: "address \<Rightarrow> rb_state \<Rightarrow> contract_error + rb_state" where
  "rb_remove_from_kyc_operators a s =
     (let (found, rest) = remove_first (unwrap_or [] (rb_kyc s)) a in
      if found then Inr (if rest \<noteq> [] then s\<lparr>rb_kyc := Some rest\<rparr> else s\<lparr>rb_kyc := None\<rparr>)
      else Inr s)"

definition rb_assign_governance_role :: "address \<Rightarrow> address \<Rightarrow> rb_state \<Rightarrow> contract_error + unit \<times> rb_state" where
  "rb_assign_governance_role admin a s =
     and_then (rb_require_admin admin s) (\<lambda>_.
     and_then (rb_remove_from_kyc_operators a s) (\<lambda>s.
     let governance_roles = unwrap_or [] (rb_governance s) in
     if \<not> list_ex (\<lambda>r. r = a) governance_roles
     then Inr ((), s\<lparr>rb_governance := Some (governance_roles @ [a])\<rparr>)
     else Inr ((), s)))"

definition rb_assign_kyc_operator_role :: "address \<Rightarrow> address \<Rightarrow> rb_state \<Rightarrow> contract_error + unit \<times> rb_state" where
  "rb_assign_kyc_operator_role admin a s =
     and_then (rb_require_admin admin s) (\<lambda>_.
     and_then (rb_remove_from_governance a s) (\<lambda>s.
     let kyc_operators = unwrap_or [] (rb_kyc s) in
     if \<not> list_ex (\<lambda>r. r = a) kyc_operators
     then Inr ((), s\<lparr>rb_kyc := Some (kyc_operators @ [a])\<rparr>)
     else Inr ((), s)))"

definition rb_remove_kyc_operator_role :: "address \<Rightarrow> address \<Rightarrow> rb_state \<Rightarrow> contract_error + unit \<times> rb_state" where
  "rb_remove_kyc_operator_role admin a s =
     and_then (rb_require_admin admin s) (\<lambda>_.
     and_then (rb_remove_from_kyc_operators a s) (\<lambda>s. Inr ((), s)))"

definition rb_verify_admin :: "address \<Rightarrow> rb_state \<Rightarrow> contract_error + unit" where
  "rb_verify_admin caller s =
     and_then (rb_get_admin s) (\<lambda>admin. panic_if (admin \<noteq> caller) Unauthorized)"

definition rb_transfer_admin :: "env \<Rightarrow> address \<Rightarrow> address \<Rightarrow> rb_state \<Rightarrow> contract_error + unit \<times> rb_state" where
  "rb_transfer_admin e current_admin new_admin s =
     and_then (require_auth AuthMissing e current_admin) (\<lambda>_.
     and_then (rb_verify_admin current_admin s) (\<lambda>_.
     Inr ((), s\<lparr>rb_admin := Some new_admin\<rparr>)))"

datatype rb_call =
    RbAssignGovernance address address
  | RbAssignKyc address address
  | RbRemoveKyc address address
  | RbTransferAdmin address address

fun rb_exec :: "env \<Rightarrow> rb_call \<Rightarrow> rb_state \<Rightarrow> rb_state option" where
  "rb_exec e (RbAssignGovernance admin a) s = state_of (rb_assign_governance_role admin a s)"
| "rb_exec e (RbAssignKyc admin a) s = state_of (rb_assign_kyc_operator_role admin a s)"
| "rb_exec e (RbRemoveKyc admin a) s = state_of (rb_remove_kyc_operator_role admin a s)"
| "rb_exec e (RbTransferAdmin admin a) s = state_of (rb_transfer_admin e admin a s)"

text \<open>A contract that has stored its admin and assigned no duties yet.\<close>

definition rb_fresh :: "address \<Rightarrow> rb_state" where
  "rb_fresh admin = \<lparr>rb_admin = Some admin, rb_minters = None, rb_providers = (\<lambda>_. None),
     rb_governance = None, rb_kyc = None\<rparr>"

section \<open>The specification: every account has at most one duty\<close>

datatype duty = GovernanceDuty | KycDuty

record duty_table =
  dt_admin :: "address option"
  dt_duty :: "address \<Rightarrow> duty option"

fun duty_exec :: "env \<Rightarrow> rb_call \<Rightarrow> duty_table \<Rightarrow> duty_table option" where
  "duty_exec e (RbAssignGovernance admin a) d =
     (if dt_admin d = Some admin then Some (d\<lparr>dt_duty := (dt_duty d)(a \<mapsto> GovernanceDuty)\<rparr>) else None)"
| "duty_exec e (RbAssignKyc admin a) d =
     (if dt_admin d = Some admin then Some (d\<lparr>dt_duty := (dt_duty d)(a \<mapsto> KycDuty)\<rparr>) else None)"
| "duty_exec e (RbRemoveKyc admin a) d =
     (if dt_admin d = Some admin
      then Some (if dt_duty d a = Some KycDuty then d\<lparr>dt_duty := (dt_duty d)(a := None)\<rparr> else d) else None)"
| "duty_exec e (RbTransferAdmin admin a) d =
     (if env_auth e admin \<and> dt_admin d = Some admin then Some (d\<lparr>dt_admin := Some a\<rparr>) else None)"

definition rb_duties :: "rb_state \<Rightarrow> duty_table" where
  "rb_duties s = \<lparr>dt_admin = rb_admin s,
     dt_duty = (\<lambda>a. if a \<in> set (unwrap_or [] (rb_governance s)) then Some GovernanceDuty
                    else if a \<in> set (unwrap_or [] (rb_kyc s)) then Some KycDuty else None)\<rparr>"

definition rb_inv :: "rb_state \<Rightarrow> bool" where
  "rb_inv s \<longleftrightarrow> distinct (unwrap_or [] (rb_governance s)) \<and> distinct (unwrap_or [] (rb_kyc s)) \<and>
     set (unwrap_or [] (rb_governance s)) \<inter> set (unwrap_or [] (rb_kyc s)) = {}"

section \<open>The library refines the specification\<close>

lemma list_ex_eq_iff [simp]: "list_ex (\<lambda>r. r = a) xs \<longleftrightarrow> a \<in> set xs"
  by (auto simp: list_ex_iff)

lemma rb_require_admin_Inr [result_iffs]: "rb_require_admin a s = Inr u \<longleftrightarrow> rb_admin s = Some a"
  by (auto simp: rb_require_admin_def rb_get_admin_def result_iffs)

lemma rb_verify_admin_Inr [result_iffs]: "rb_verify_admin a s = Inr u \<longleftrightarrow> rb_admin s = Some a"
  by (auto simp: rb_verify_admin_def rb_get_admin_def result_iffs)

lemma rb_admin_cases:
  obtains (admin) "rb_admin s = Some a" "rb_require_admin a s = Inr ()"
    | (stranger) err where "rb_admin s \<noteq> Some a" "rb_require_admin a s = Inl err"
  by (cases "rb_admin s = Some a"; cases "rb_admin s") (auto simp: rb_require_admin_def rb_get_admin_def)

text \<open>A removal leaves the list without the first occurrence, whatever the key then holds.\<close>

lemma rb_remove_from_governance_eq:
  "\<exists>g. rb_remove_from_governance a s = Inr (s\<lparr>rb_governance := g\<rparr>) \<and>
     unwrap_or [] g = remove1 a (unwrap_or [] (rb_governance s))"
proof (cases "a \<in> set (unwrap_or [] (rb_governance s))")
  case True
  show ?thesis
    by (intro exI [of _ "if remove1 a (unwrap_or [] (rb_governance s)) \<noteq> []
         then Some (remove1 a (unwrap_or [] (rb_governance s))) else None"])
       (simp add: rb_remove_from_governance_def True)
next
  case False
  then show ?thesis
    by (intro exI [of _ "rb_governance s"]) (simp add: rb_remove_from_governance_def remove1_idem)
qed

lemma rb_remove_from_kyc_eq:
  "\<exists>g. rb_remove_from_kyc_operators a s = Inr (s\<lparr>rb_kyc := g\<rparr>) \<and>
     unwrap_or [] g = remove1 a (unwrap_or [] (rb_kyc s))"
proof (cases "a \<in> set (unwrap_or [] (rb_kyc s))")
  case True
  show ?thesis
    by (intro exI [of _ "if remove1 a (unwrap_or [] (rb_kyc s)) \<noteq> []
         then Some (remove1 a (unwrap_or [] (rb_kyc s))) else None"])
       (simp add: rb_remove_from_kyc_operators_def True)
next
  case False
  then show ?thesis
    by (intro exI [of _ "rb_kyc s"]) (simp add: rb_remove_from_kyc_operators_def remove1_idem)
qed

lemma rb_step:
  assumes inv: "rb_inv s"
  shows "(\<forall>s'. rb_exec e c s = Some s' \<longrightarrow> rb_inv s') \<and> map_option rb_duties (rb_exec e c s) = duty_exec e c (rb_duties s)"
proof (cases c)
  case (RbAssignGovernance admin a)
  obtain k where k: "rb_remove_from_kyc_operators a s = Inr (s\<lparr>rb_kyc := k\<rparr>)"
      "unwrap_or [] k = remove1 a (unwrap_or [] (rb_kyc s))"
    using rb_remove_from_kyc_eq by blast
  show ?thesis
    using inv k(2)
    by (cases rule: rb_admin_cases [where s = s and a = admin])
       (auto simp: RbAssignGovernance rb_assign_governance_role_def k(1) rb_inv_def rb_duties_def fun_eq_iff Let_def)
next
  case (RbAssignKyc admin a)
  obtain g where g: "rb_remove_from_governance a s = Inr (s\<lparr>rb_governance := g\<rparr>)"
      "unwrap_or [] g = remove1 a (unwrap_or [] (rb_governance s))"
    using rb_remove_from_governance_eq by blast
  show ?thesis
    using inv g(2)
    by (cases rule: rb_admin_cases [where s = s and a = admin])
       (auto simp: RbAssignKyc rb_assign_kyc_operator_role_def g(1) rb_inv_def rb_duties_def fun_eq_iff Let_def)
next
  case (RbRemoveKyc admin a)
  obtain k where k: "rb_remove_from_kyc_operators a s = Inr (s\<lparr>rb_kyc := k\<rparr>)"
      "unwrap_or [] k = remove1 a (unwrap_or [] (rb_kyc s))"
    using rb_remove_from_kyc_eq by blast
  show ?thesis
    using inv k(2)
    by (cases rule: rb_admin_cases [where s = s and a = admin])
       (auto simp: RbRemoveKyc rb_remove_kyc_operator_role_def k(1) rb_inv_def rb_duties_def fun_eq_iff Let_def)
next
  case (RbTransferAdmin admin a)
  then show ?thesis
    using inv by (cases "env_auth e admin"; cases "rb_admin s")
      (auto simp: rb_transfer_admin_def rb_verify_admin_def rb_get_admin_def require_auth_def rb_inv_def rb_duties_def)
qed

interpretation rbr: call_refinement rb_exec duty_exec rb_duties rb_inv
  by unfold_locales (use rb_step in blast)+

lemma rb_scan_role_eq:
  "rb_scan_role other rs a = (if a \<in> set rs then and_then (other a) (\<lambda>b. panic_if b RoleConflict) else Inl RoleEscalationAttempt)"
  by (induction rs) auto

lemma rb_require_roles:
  assumes "rb_inv s"
  shows "rb_require_governance_role a s =
      (if dt_duty (rb_duties s) a = Some GovernanceDuty then Inr () else Inl RoleEscalationAttempt)"
    and "rb_require_kyc_operator_role a s =
      (if dt_duty (rb_duties s) a = Some KycDuty then Inr () else Inl RoleEscalationAttempt)"
  using assms
  by (auto simp: rb_require_governance_role_def rb_require_kyc_operator_role_def rb_scan_role_eq rb_inv_def rb_duties_def
      rb_has_kyc_operator_role_def rb_has_governance_role_def)

lemma rb_inv_fresh: "rb_inv (rb_fresh admin)"
  by (simp add: rb_inv_def rb_fresh_def)

lemma rb_duties_fresh: "rb_duties (rb_fresh admin) = \<lparr>dt_admin = Some admin, dt_duty = Map.empty\<rparr>"
  by (simp add: rb_duties_def rb_fresh_def fun_eq_iff)

section \<open>Properties\<close>

text \<open>
  C11. Separation of duties, as a refinement. Whatever sequence of role assignments, removals and
  admin transfers a contract runs, successful or not, its two stored lists represent exactly the
  table in which every account has at most one duty, updated by the same calls; and the two role
  checks accept an account exactly when the table gives it that duty.
\<close>

theorem rb_refines_duty_table:
  "rb_duties (run_calls rb_exec cs (rb_fresh admin)) =
     run_calls duty_exec cs \<lparr>dt_admin = Some admin, dt_duty = Map.empty\<rparr> \<and>
   (rb_require_governance_role a (run_calls rb_exec cs (rb_fresh admin)) = Inr () \<longleftrightarrow>
      dt_duty (run_calls duty_exec cs \<lparr>dt_admin = Some admin, dt_duty = Map.empty\<rparr>) a = Some GovernanceDuty) \<and>
   (rb_require_kyc_operator_role a (run_calls rb_exec cs (rb_fresh admin)) = Inr () \<longleftrightarrow>
      dt_duty (run_calls duty_exec cs \<lparr>dt_admin = Some admin, dt_duty = Map.empty\<rparr>) a = Some KycDuty)"
proof -
  let ?s = "run_calls rb_exec cs (rb_fresh admin)"
  have inv: "rb_inv ?s" by (rule rbr.run_invariant [OF rb_inv_fresh])
  have "rb_duties ?s = run_calls duty_exec cs \<lparr>dt_admin = Some admin, dt_duty = Map.empty\<rparr>"
    using rbr.run_refines [OF rb_inv_fresh] by (simp add: rb_duties_fresh)
  then show ?thesis using rb_require_roles [OF inv] by simp
qed

text \<open>
  No role conflict is ever reported. After any calls the role checks reject an account with
  \<open>RoleEscalationAttempt\<close>, never with \<open>RoleConflict\<close>, also when it holds the other duty: the
  assignments keep the lists disjoint, so the conflict branch is dead code.
\<close>

theorem rb_rejects_without_conflict:
  "rb_require_governance_role a (run_calls rb_exec cs (rb_fresh admin)) \<in> {Inr (), Inl RoleEscalationAttempt} \<and>
   rb_require_kyc_operator_role a (run_calls rb_exec cs (rb_fresh admin)) \<in> {Inr (), Inl RoleEscalationAttempt} \<and>
   rb_require_governance_role (Addr 2) (run_calls rb_exec [(e, RbAssignKyc admin (Addr 2))] (rb_fresh admin)) =
     Inl RoleEscalationAttempt"
proof -
  have inv: "rb_inv (run_calls rb_exec cs (rb_fresh admin))" for cs by (rule rbr.run_invariant [OF rb_inv_fresh])
  let ?cs = "[(e, RbAssignKyc admin (Addr 2))]"
  have "run_calls duty_exec ?cs (rb_duties (rb_fresh admin)) = \<lparr>dt_admin = Some admin, dt_duty = [Addr 2 \<mapsto> KycDuty]\<rparr>"
    by (simp add: rb_duties_fresh)
  then have "rb_require_governance_role (Addr 2) (run_calls rb_exec ?cs (rb_fresh admin)) = Inl RoleEscalationAttempt"
    unfolding rb_require_roles(1) [OF inv] rbr.run_refines [OF rb_inv_fresh] by (simp del: run_calls.simps)
  then show ?thesis using rb_require_roles [OF inv [of cs]] by (simp del: run_calls.simps)
qed

end
