(* ===== verification/Amm.thy ===== *)
theory Amm
  imports Amm_Math Rbac Mock_Token
begin

text \<open>
  The automated market maker (src/contracts/amm/src/lib.rs, storage.rs, types.rs): constant-product
  pools with LP shares, swaps, flash swaps, routed swaps over several pools, LP rewards and the
  trading controls. One field of \<open>am_state\<close> per storage key; \<open>am_roles\<close> is the part of the
  instance storage that the shared role checks read (the admin key), \<open>am_tokens\<close> the state of the
  token contracts. The keys \<open>PriceCache\<close> and \<open>ReserveCache\<close> are only ever removed, never
  written, and are left out together with \<open>invalidate_query_cache\<close>.
\<close>

section \<open>State\<close>

definition AM_BPS_DENOMINATOR :: i128 where
  "AM_BPS_DENOMINATOR = 10000"

definition MAX_FEE_BPS :: u32 where
  "MAX_FEE_BPS = 1000"

definition MAX_PROTOCOL_FEE_SHARE_BPS :: u32 where
  "MAX_PROTOCOL_FEE_SHARE_BPS = 5000"

definition DEPOSIT_RATIO_TOLERANCE_BPS :: i128 where
  "DEPOSIT_RATIO_TOLERANCE_BPS = 500"

definition PRICE_SCALE :: i128 where
  "PRICE_SCALE = 1000000"

record pool =
  pool_id :: u64
  token_a :: address
  token_b :: address
  reserve_a :: i128
  reserve_b :: i128
  lp_total_supply :: i128
  fee_bps :: u32

record hop =
  hop_pool_id :: u64
  hop_token_in :: address
  hop_token_out :: address
  hop_amount_in :: i128
  hop_min_amount_out :: i128

record route =
  rt_token_in :: address
  rt_token_out :: address
  rt_amount_in :: i128
  rt_amount_out :: i128
  total_fee_bps :: u32
  hops :: "hop list"
  rt_created_at :: u64

record risk_params =
  max_position_per_user :: i128
  max_position_per_asset :: i128
  concentration_threshold_bps :: u32
  circuit_breaker_threshold_bps :: u32
  circuit_breaker_cooldown :: u64
  min_lp_token_threshold :: i128

record user_position =
  up_user :: address
  up_token :: address
  position_size :: i128
  last_updated :: u64

record circuit_breaker_state =
  cb_is_active :: bool
  triggered_at :: u64
  cb_reason :: string
  cooldown_until :: u64

record 'w am_state =
  am_roles :: rb_state
  am_pool_counter :: "u64 option"
  am_pool :: "u64 \<Rightarrow> pool option"
  am_lp_balance :: "u64 \<times> address \<Rightarrow> i128 option"
  am_trading_paused :: "bool option"
  am_circuit_breaker :: "circuit_breaker_state option"
  am_risk_params :: "risk_params option"
  am_user_position :: "address \<times> address \<Rightarrow> user_position option"
  am_governance_collector :: "address option"
  am_protocol_fee_share :: "u32 option"
  am_lp_reward :: "u64 \<times> address \<Rightarrow> i128 option"
  am_reentrancy_lock :: "bool option"
  am_tokens :: 'w

definition am_fresh :: "'w \<Rightarrow> 'w am_state" where
  "am_fresh w =
     \<lparr>am_roles = \<lparr>rb_admin = None, rb_minters = None, rb_providers = (\<lambda>_. None), rb_governance = None, rb_kyc = None\<rparr>,
      am_pool_counter = None, am_pool = (\<lambda>_. None), am_lp_balance = (\<lambda>_. None),
      am_trading_paused = None, am_circuit_breaker = None, am_risk_params = None,
      am_user_position = (\<lambda>_. None), am_governance_collector = None, am_protocol_fee_share = None,
      am_lp_reward = (\<lambda>_. None), am_reentrancy_lock = None, am_tokens = w\<rparr>"

section \<open>Storage accessors\<close>

definition am_get_pool_counter :: "'w am_state \<Rightarrow> u64" where
  "am_get_pool_counter s = unwrap_or 0 (am_pool_counter s)"

definition am_set_pool :: "pool \<Rightarrow> 'w am_state \<Rightarrow> 'w am_state" where
  "am_set_pool p s = s\<lparr>am_pool := (am_pool s)(pool_id p \<mapsto> p)\<rparr>"

definition am_get_pool :: "u64 \<Rightarrow> 'w am_state \<Rightarrow> am_error + pool" where
  "am_get_pool i s = ok_or AmPoolNotFound (am_pool s i)"

definition am_get_lp_balance :: "u64 \<Rightarrow> address \<Rightarrow> 'w am_state \<Rightarrow> i128" where
  "am_get_lp_balance i a s = unwrap_or 0 (am_lp_balance s (i, a))"

definition am_set_lp_balance :: "u64 \<Rightarrow> address \<Rightarrow> i128 \<Rightarrow> 'w am_state \<Rightarrow> 'w am_state" where
  "am_set_lp_balance i a n s = s\<lparr>am_lp_balance := (am_lp_balance s)((i, a) \<mapsto> n)\<rparr>"

definition am_get_risk_params :: "'w am_state \<Rightarrow> risk_params" where
  "am_get_risk_params s = unwrap_or
     \<lparr>max_position_per_user = 1000000000, max_position_per_asset = 10000000000,
      concentration_threshold_bps = 3000, circuit_breaker_threshold_bps = 1500,
      circuit_breaker_cooldown = 3600, min_lp_token_threshold = 1000\<rparr> (am_risk_params s)"

definition am_get_min_lp_token_threshold :: "'w am_state \<Rightarrow> i128" where
  "am_get_min_lp_token_threshold s = min_lp_token_threshold (am_get_risk_params s)"

definition am_get_protocol_fee_share_bps :: "'w am_state \<Rightarrow> u32" where
  "am_get_protocol_fee_share_bps s = unwrap_or 0 (am_protocol_fee_share s)"

definition am_get_lp_reward_balance :: "u64 \<Rightarrow> address \<Rightarrow> 'w am_state \<Rightarrow> i128" where
  "am_get_lp_reward_balance i tok s = unwrap_or 0 (am_lp_reward s (i, tok))"

definition am_set_lp_reward_balance :: "u64 \<Rightarrow> address \<Rightarrow> i128 \<Rightarrow> 'w am_state \<Rightarrow> 'w am_state" where
  "am_set_lp_reward_balance i tok n s = s\<lparr>am_lp_reward := (am_lp_reward s)((i, tok) \<mapsto> n)\<rparr>"

definition am_is_trading_paused :: "'w am_state \<Rightarrow> bool" where
  "am_is_trading_paused s = unwrap_or False (am_trading_paused s)"

definition am_is_reentrancy_locked :: "'w am_state \<Rightarrow> bool" where
  "am_is_reentrancy_locked s = unwrap_or False (am_reentrancy_lock s)"

section \<open>Internal helpers\<close>

definition am_assert_admin :: "address \<Rightarrow> 'w am_state \<Rightarrow> am_error + unit" where
  "am_assert_admin caller s =
     (case rb_require_admin caller (am_roles s) of Inl _ \<Rightarrow> Inl AmUnauthorized | Inr _ \<Rightarrow> Inr ())"

definition am_enter :: "'w am_state \<Rightarrow> am_error + 'w am_state" where
  "am_enter s = and_then (panic_if (am_is_reentrancy_locked s) AmReentrancy) (\<lambda>_. Inr (s\<lparr>am_reentrancy_lock := Some True\<rparr>))"

definition am_leave :: "'w am_state \<Rightarrow> 'w am_state" where
  "am_leave s = s\<lparr>am_reentrancy_lock := Some False\<rparr>"

definition am_with_reentrancy_guard ::
  "('w am_state \<Rightarrow> am_error + 'r \<times> 'w am_state) \<Rightarrow> 'w am_state \<Rightarrow> am_error + 'r \<times> 'w am_state" where
  "am_with_reentrancy_guard f s =
     and_then (am_enter s) (\<lambda>s. and_then (f s) (\<lambda>(r, s). Inr (r, am_leave s)))"

text \<open>A call of \<open>TokenClient::transfer\<close>.\<close>

definition am_transfer ::
  "'w token_transfer \<Rightarrow> env \<Rightarrow> address \<Rightarrow> address \<Rightarrow> address \<Rightarrow> i128 \<Rightarrow> 'w am_state \<Rightarrow> am_error + 'w am_state" where
  "am_transfer tr e tok src dst n s =
     and_then (call_token tr AmToken e tok src dst n (am_tokens s)) (\<lambda>w. Inr (s\<lparr>am_tokens := w\<rparr>))"

definition am_calculate_swap_fee :: "i128 \<Rightarrow> u32 \<Rightarrow> am_error + i128" where
  "am_calculate_swap_fee amount_in fee =
     and_then (am_mul amount_in (int fee)) (\<lambda>x. Inr (div_i128 x AM_BPS_DENOMINATOR))"

definition am_reserves_for_token :: "pool \<Rightarrow> address \<Rightarrow> am_error + i128 \<times> i128" where
  "am_reserves_for_token p token_in =
     (if token_in = token_a p then Inr (reserve_a p, reserve_b p)
      else if token_in = token_b p then Inr (reserve_b p, reserve_a p)
      else Inl AmTokenNotInPool)"

definition am_validate_pool_tokens :: "pool \<Rightarrow> address \<Rightarrow> address \<Rightarrow> am_error + unit" where
  "am_validate_pool_tokens p a b =
     panic_if (\<not> ((a = token_a p \<and> b = token_b p) \<or> (a = token_b p \<and> b = token_a p))) AmTokenNotInPool"

definition am_reserves_for_pair :: "pool \<Rightarrow> address \<Rightarrow> address \<Rightarrow> am_error + i128 \<times> i128 \<times> bool" where
  "am_reserves_for_pair p token_in token_out =
     and_then (am_validate_pool_tokens p token_in token_out) (\<lambda>_.
     if token_in = token_a p \<and> token_out = token_b p then Inr (reserve_a p, reserve_b p, False)
     else Inr (reserve_b p, reserve_a p, True))"

definition am_check_trading_allowed :: "env \<Rightarrow> 'w am_state \<Rightarrow> am_error + 'w am_state" where
  "am_check_trading_allowed e s =
     and_then (panic_if (am_is_trading_paused s) AmPaused) (\<lambda>_.
     case am_circuit_breaker s of
       None \<Rightarrow> Inr s
     | Some st \<Rightarrow>
         if cb_is_active st then
           if env_timestamp e < cooldown_until st then Inl AmBreakerActive
           else Inr (s\<lparr>am_circuit_breaker := Some (st\<lparr>cb_is_active := False\<rparr>)\<rparr>)
         else Inr s)"

text \<open>The fee that leaves the pool: paid when it is positive and a collector is set.\<close>

definition am_pay_protocol_fee ::
  "'w token_transfer \<Rightarrow> env \<Rightarrow> address \<Rightarrow> i128 \<Rightarrow> 'w am_state \<Rightarrow> am_error + 'w am_state" where
  "am_pay_protocol_fee tr e tok fee s =
     (if fee > 0 then
        case am_governance_collector s of
          Some collector \<Rightarrow> am_transfer tr e tok (env_self e) collector fee s
        | None \<Rightarrow> Inr s
      else Inr s)"

section \<open>Initialisation and liquidity\<close>

definition am_initialize :: "env \<Rightarrow> address \<Rightarrow> address option \<Rightarrow> 'w am_state \<Rightarrow> am_error + unit \<times> 'w am_state" where
  "am_initialize e admin governance_collector s =
     and_then (panic_if (rb_admin (am_roles s) \<noteq> None) AmAlreadyInitialized) (\<lambda>_.
     and_then (require_auth AmAuth e admin) (\<lambda>_.
     let s = s\<lparr>am_roles := (am_roles s)\<lparr>rb_admin := Some admin\<rparr>, am_pool_counter := Some 0,
               am_trading_paused := Some False, am_protocol_fee_share := Some 0, am_reentrancy_lock := Some False\<rparr>
     in Inr ((), case governance_collector of
                   Some c \<Rightarrow> s\<lparr>am_governance_collector := Some c\<rparr> | None \<Rightarrow> s)))"

definition am_create_pool ::
  "env \<Rightarrow> address \<Rightarrow> address \<Rightarrow> address \<Rightarrow> u32 \<Rightarrow> 'w am_state \<Rightarrow> am_error + u64 \<times> 'w am_state" where
  "am_create_pool e admin ta tb fee s =
     and_then (require_auth AmAuth e admin) (\<lambda>_.
     and_then (am_assert_admin admin s) (\<lambda>_.
     and_then (panic_if (ta = tb) AmSameTokens) (\<lambda>_.
     and_then (panic_if (fee > MAX_FEE_BPS) AmFeeTooHigh) (\<lambda>_.
     let i = am_get_pool_counter s;
         p = \<lparr>pool_id = i, token_a = ta, token_b = tb, reserve_a = 0, reserve_b = 0, lp_total_supply = 0, fee_bps = fee\<rparr>;
         s = am_set_pool p s in
     and_then (ok_or AmOverflow (checked_add_u64 i 1)) (\<lambda>next_id.
     Inr (i, s\<lparr>am_pool_counter := Some next_id\<rparr>))))))"

definition am_lp_to_mint :: "pool \<Rightarrow> i128 \<Rightarrow> i128 \<Rightarrow> am_error + i128" where
  "am_lp_to_mint p amount_a amount_b =
     (if lp_total_supply p = 0 then and_then (am_mul amount_a amount_b) isqrt
      else
        and_then (am_mul amount_a (lp_total_supply p)) (\<lambda>na.
        and_then (ceil_div na (reserve_a p)) (\<lambda>lp_a.
        and_then (am_mul amount_b (lp_total_supply p)) (\<lambda>nb.
        and_then (ceil_div nb (reserve_b p)) (\<lambda>lp_b.
        Inr (if lp_a < lp_b then lp_a else lp_b))))))"

definition am_check_deposit_ratio :: "pool \<Rightarrow> i128 \<Rightarrow> i128 \<Rightarrow> am_error + unit" where
  "am_check_deposit_ratio p amount_a amount_b =
     (if reserve_a p > 0 \<and> reserve_b p > 0 then
        and_then (am_mul (reserve_a p) 10000) (\<lambda>x.
        let pool_ratio = div_i128 x (reserve_b p) in
        and_then (am_mul amount_a 10000) (\<lambda>y.
        let deposit_ratio = div_i128 y amount_b in
        and_then (if pool_ratio > deposit_ratio then am_sub pool_ratio deposit_ratio
                  else am_sub deposit_ratio pool_ratio) (\<lambda>ratio_diff.
        panic_if (ratio_diff > DEPOSIT_RATIO_TOLERANCE_BPS) AmRatioDeviates)))
      else Inr ())"

definition am_add_liquidity_internal ::
  "'w token_transfer \<Rightarrow> env \<Rightarrow> address \<Rightarrow> u64 \<Rightarrow> i128 \<Rightarrow> i128 \<Rightarrow> 'w am_state \<Rightarrow> am_error + i128 \<times> 'w am_state" where
  "am_add_liquidity_internal tr e provider i amount_a amount_b s =
     and_then (panic_if (amount_a \<le> 0 \<or> amount_b \<le> 0) AmAmountNotPositive) (\<lambda>_.
     and_then (am_get_pool i s) (\<lambda>p.
     let min_threshold = am_get_min_lp_token_threshold s in
     and_then (am_lp_to_mint p amount_a amount_b) (\<lambda>lp_minted.
     and_then (panic_if (lp_minted < min_threshold) AmLiquidityTooSmall) (\<lambda>_.
     and_then (panic_if (lp_minted \<le> 0) AmNothingMinted) (\<lambda>_.
     and_then (am_check_deposit_ratio p amount_a amount_b) (\<lambda>_.
     and_then (am_transfer tr e (token_a p) provider (env_self e) amount_a s) (\<lambda>s.
     and_then (am_transfer tr e (token_b p) provider (env_self e) amount_b s) (\<lambda>s.
     and_then (am_add (reserve_a p) amount_a) (\<lambda>ra.
     and_then (am_add (reserve_b p) amount_b) (\<lambda>rb.
     and_then (am_add (lp_total_supply p) lp_minted) (\<lambda>supply.
     let s = am_set_pool (p\<lparr>reserve_a := ra, reserve_b := rb, lp_total_supply := supply\<rparr>) s;
         current_lp = am_get_lp_balance i provider s in
     and_then (am_add current_lp lp_minted) (\<lambda>lp.
     Inr (lp_minted, am_set_lp_balance i provider lp s)))))))))))))"

definition am_remove_liquidity_internal ::
  "'w token_transfer \<Rightarrow> env \<Rightarrow> address \<Rightarrow> u64 \<Rightarrow> i128 \<Rightarrow> 'w am_state \<Rightarrow> am_error + (i128 \<times> i128) \<times> 'w am_state" where
  "am_remove_liquidity_internal tr e provider i lp_amount s =
     and_then (panic_if (lp_amount \<le> 0) AmAmountNotPositive) (\<lambda>_.
     let current_lp = am_get_lp_balance i provider s in
     and_then (panic_if (current_lp < lp_amount) AmInsufficientLp) (\<lambda>_.
     and_then (am_get_pool i s) (\<lambda>p.
     and_then (panic_if (lp_total_supply p \<le> 0) AmNoLiquidity) (\<lambda>_.
     and_then (am_sub current_lp lp_amount) (\<lambda>remaining_lp.
     let min_threshold = am_get_min_lp_token_threshold s in
     and_then (panic_if (remaining_lp > 0 \<and> remaining_lp < min_threshold) AmRemainderTooSmall) (\<lambda>_.
     and_then (am_mul lp_amount (reserve_a p)) (\<lambda>na.
     and_then (floor_div na (lp_total_supply p)) (\<lambda>amount_a.
     and_then (am_mul lp_amount (reserve_b p)) (\<lambda>nb.
     and_then (floor_div nb (lp_total_supply p)) (\<lambda>amount_b.
     and_then (panic_if (amount_a \<le> 0 \<or> amount_b \<le> 0) AmWithdrawalTooSmall) (\<lambda>_.
     and_then (am_sub (reserve_a p) amount_a) (\<lambda>ra.
     and_then (am_sub (reserve_b p) amount_b) (\<lambda>rb.
     and_then (am_sub (lp_total_supply p) lp_amount) (\<lambda>supply.
     let s = am_set_pool (p\<lparr>reserve_a := ra, reserve_b := rb, lp_total_supply := supply\<rparr>) s;
         s = am_set_lp_balance i provider remaining_lp s in
     and_then (am_transfer tr e (token_a p) (env_self e) provider amount_a s) (\<lambda>s.
     and_then (am_transfer tr e (token_b p) (env_self e) provider amount_b s) (\<lambda>s.
     Inr ((amount_a, amount_b), s)))))))))))))))))"

section \<open>Swaps\<close>

definition am_swap_protocol_fee :: "bool \<Rightarrow> i128 \<Rightarrow> u32 \<Rightarrow> am_error + i128" where
  "am_swap_protocol_fee collect_protocol_fee fee_amount protocol_share_bps =
     (if collect_protocol_fee
      then and_then (am_mul fee_amount (int protocol_share_bps)) (\<lambda>x. Inr (div_i128 x AM_BPS_DENOMINATOR))
      else Inr 0)"

text \<open>The new reserves after a swap and after a flash swap.\<close>

definition am_swap_reserves :: "bool \<Rightarrow> i128 \<Rightarrow> i128 \<Rightarrow> pool \<Rightarrow> am_error + pool" where
  "am_swap_reserves is_a_to_b net_amount_in amount_out p =
     (if is_a_to_b
      then and_then (am_add (reserve_a p) net_amount_in) (\<lambda>ra.
           and_then (am_sub (reserve_b p) amount_out) (\<lambda>rb. Inr (p\<lparr>reserve_a := ra, reserve_b := rb\<rparr>)))
      else and_then (am_add (reserve_b p) net_amount_in) (\<lambda>rb.
           and_then (am_sub (reserve_a p) amount_out) (\<lambda>ra. Inr (p\<lparr>reserve_a := ra, reserve_b := rb\<rparr>))))"

definition am_flash_reserves :: "bool \<Rightarrow> i128 \<Rightarrow> i128 \<Rightarrow> pool \<Rightarrow> am_error + pool" where
  "am_flash_reserves out_is_a net_in amount_out p =
     (if out_is_a
      then and_then (am_sub (reserve_a p) amount_out) (\<lambda>ra.
           and_then (am_add (reserve_b p) net_in) (\<lambda>rb. Inr (p\<lparr>reserve_a := ra, reserve_b := rb\<rparr>)))
      else and_then (am_sub (reserve_b p) amount_out) (\<lambda>rb.
           and_then (am_add (reserve_a p) net_in) (\<lambda>ra. Inr (p\<lparr>reserve_a := ra, reserve_b := rb\<rparr>))))"

definition am_swap_internal ::
  "'w token_transfer \<Rightarrow> env \<Rightarrow> address \<Rightarrow> u64 \<Rightarrow> address \<Rightarrow> i128 \<Rightarrow> i128 \<Rightarrow> bool \<Rightarrow> 'w am_state \<Rightarrow>
   am_error + i128 \<times> 'w am_state" where
  "am_swap_internal tr e user i token_in amount_in min_amount_out collect_protocol_fee s =
     and_then (panic_if (amount_in \<le> 0) AmAmountNotPositive) (\<lambda>_.
     and_then (am_get_pool i s) (\<lambda>p.
     and_then (panic_if (reserve_a p \<le> 0 \<or> reserve_b p \<le> 0) AmNoLiquidity) (\<lambda>_.
     and_then (if token_in = token_a p then Inr (reserve_a p, reserve_b p, True)
               else if token_in = token_b p then Inr (reserve_b p, reserve_a p, False)
               else Inl AmTokenNotInPool) (\<lambda>(reserve_in, reserve_out, is_a_to_b).
     and_then (get_amount_out amount_in reserve_in reserve_out (fee_bps p)) (\<lambda>amount_out.
     and_then (panic_if (amount_out < min_amount_out) AmSlippage) (\<lambda>_.
     and_then (panic_if (amount_out \<le> 0) AmZeroOutput) (\<lambda>_.
     and_then (am_transfer tr e token_in user (env_self e) amount_in s) (\<lambda>s.
     let token_out = (if is_a_to_b then token_b p else token_a p);
         protocol_share_bps = am_get_protocol_fee_share_bps s in
     and_then (am_calculate_swap_fee amount_in (fee_bps p)) (\<lambda>fee_amount.
     and_then (am_swap_protocol_fee collect_protocol_fee fee_amount protocol_share_bps) (\<lambda>protocol_fee.
     and_then (am_pay_protocol_fee tr e token_in protocol_fee s) (\<lambda>s.
     and_then (am_sub amount_in protocol_fee) (\<lambda>net_amount_in.
     and_then (am_transfer tr e token_out (env_self e) user amount_out s) (\<lambda>s.
     and_then (am_swap_reserves is_a_to_b net_amount_in amount_out p) (\<lambda>p.
     Inr (amount_out, am_set_pool p s)))))))))))))))"

text \<open>The closure that \<open>flash_swap\<close> runs under the guard.\<close>

definition am_flash_swap_guarded ::
  "'w token_transfer \<Rightarrow> env \<Rightarrow> address \<Rightarrow> u64 \<Rightarrow> address \<Rightarrow> i128 \<Rightarrow> address \<Rightarrow> i128 \<Rightarrow> 'w am_state \<Rightarrow>
   am_error + i128 \<times> 'w am_state" where
  "am_flash_swap_guarded tr e borrower i token_out amount_out token_in max_amount_in s =
     and_then (am_get_pool i s) (\<lambda>p.
     and_then (am_validate_pool_tokens p token_in token_out) (\<lambda>_.
     and_then (am_reserves_for_pair p token_in token_out) (\<lambda>(reserve_in, reserve_out, out_is_a).
     and_then (panic_if (reserve_out \<le> amount_out) AmInsufficientPool) (\<lambda>_.
     and_then (get_amount_in amount_out reserve_in reserve_out (fee_bps p)) (\<lambda>amount_in_required.
     and_then (panic_if (amount_in_required > max_amount_in) AmRepaymentTooHigh) (\<lambda>_.
     and_then (am_transfer tr e token_out (env_self e) borrower amount_out s) (\<lambda>s.
     and_then (am_transfer tr e token_in borrower (env_self e) amount_in_required s) (\<lambda>s.
     let protocol_share_bps = am_get_protocol_fee_share_bps s in
     and_then (am_calculate_swap_fee amount_in_required (fee_bps p)) (\<lambda>fee_amount.
     and_then (am_mul fee_amount (int protocol_share_bps)) (\<lambda>x.
     let protocol_fee = div_i128 x AM_BPS_DENOMINATOR in
     and_then (am_pay_protocol_fee tr e token_in protocol_fee s) (\<lambda>s.
     and_then (am_sub amount_in_required protocol_fee) (\<lambda>net_in.
     and_then (am_flash_reserves out_is_a net_in amount_out p) (\<lambda>p.
     Inr (amount_in_required, am_set_pool p s))))))))))))))"

definition am_flash_swap ::
  "'w token_transfer \<Rightarrow> env \<Rightarrow> address \<Rightarrow> u64 \<Rightarrow> address \<Rightarrow> i128 \<Rightarrow> address \<Rightarrow> i128 \<Rightarrow> 'w am_state \<Rightarrow>
   am_error + i128 \<times> 'w am_state" where
  "am_flash_swap tr e borrower i token_out amount_out token_in max_amount_in s =
     and_then (require_auth AmAuth e borrower) (\<lambda>_.
     and_then (am_check_trading_allowed e s) (\<lambda>s.
     and_then (panic_if (amount_out \<le> 0) AmAmountNotPositive) (\<lambda>_.
     am_with_reentrancy_guard (am_flash_swap_guarded tr e borrower i token_out amount_out token_in max_amount_in) s)))"

definition am_add_liquidity ::
  "'w token_transfer \<Rightarrow> env \<Rightarrow> address \<Rightarrow> u64 \<Rightarrow> i128 \<Rightarrow> i128 \<Rightarrow> 'w am_state \<Rightarrow> am_error + i128 \<times> 'w am_state" where
  "am_add_liquidity tr e provider i amount_a amount_b s =
     and_then (require_auth AmAuth e provider) (\<lambda>_.
     am_with_reentrancy_guard (am_add_liquidity_internal tr e provider i amount_a amount_b) s)"

definition am_remove_liquidity ::
  "'w token_transfer \<Rightarrow> env \<Rightarrow> address \<Rightarrow> u64 \<Rightarrow> i128 \<Rightarrow> 'w am_state \<Rightarrow> am_error + (i128 \<times> i128) \<times> 'w am_state" where
  "am_remove_liquidity tr e provider i lp_amount s =
     and_then (require_auth AmAuth e provider) (\<lambda>_.
     am_with_reentrancy_guard (am_remove_liquidity_internal tr e provider i lp_amount) s)"

definition am_swap ::
  "'w token_transfer \<Rightarrow> env \<Rightarrow> address \<Rightarrow> u64 \<Rightarrow> address \<Rightarrow> i128 \<Rightarrow> i128 \<Rightarrow> 'w am_state \<Rightarrow> am_error + i128 \<times> 'w am_state" where
  "am_swap tr e user i token_in amount_in min_amount_out s =
     and_then (require_auth AmAuth e user) (\<lambda>_.
     and_then (am_check_trading_allowed e s) (\<lambda>s.
     am_with_reentrancy_guard (am_swap_internal tr e user i token_in amount_in min_amount_out True) s))"

definition am_quote_swap :: "u64 \<Rightarrow> address \<Rightarrow> i128 \<Rightarrow> 'w am_state \<Rightarrow> am_error + i128" where
  "am_quote_swap i token_in amount_in s =
     and_then (panic_if (amount_in \<le> 0) AmAmountNotPositive) (\<lambda>_.
     and_then (am_get_pool i s) (\<lambda>p.
     and_then (am_reserves_for_token p token_in) (\<lambda>(reserve_in, reserve_out).
     get_amount_out amount_in reserve_in reserve_out (fee_bps p))))"

section \<open>LP rewards\<close>

definition am_deposit_lp_rewards ::
  "'w token_transfer \<Rightarrow> env \<Rightarrow> address \<Rightarrow> u64 \<Rightarrow> address \<Rightarrow> i128 \<Rightarrow> 'w am_state \<Rightarrow> am_error + unit \<times> 'w am_state" where
  "am_deposit_lp_rewards tr e admin i tok amount s =
     and_then (require_auth AmAuth e admin) (\<lambda>_.
     and_then (am_assert_admin admin s) (\<lambda>_.
     and_then (panic_if (amount \<le> 0) AmAmountNotPositive) (\<lambda>_.
     and_then (am_get_pool i s) (\<lambda>p.
     and_then (panic_if (tok \<noteq> token_a p \<and> tok \<noteq> token_b p) AmTokenNotInPool) (\<lambda>_.
     and_then (am_transfer tr e tok admin (env_self e) amount s) (\<lambda>s.
     let current = am_get_lp_reward_balance i tok s in
     and_then (am_add current amount) (\<lambda>n.
     Inr ((), am_set_lp_reward_balance i tok n s))))))))"

definition am_pay_reward ::
  "'w token_transfer \<Rightarrow> env \<Rightarrow> address \<Rightarrow> u64 \<Rightarrow> address \<Rightarrow> i128 \<Rightarrow> i128 \<Rightarrow> 'w am_state \<Rightarrow> am_error + 'w am_state" where
  "am_pay_reward tr e provider i tok reward share s =
     (if share > 0 then
        and_then (am_transfer tr e tok (env_self e) provider share s) (\<lambda>s.
        and_then (am_sub reward share) (\<lambda>rest. Inr (am_set_lp_reward_balance i tok rest s)))
      else Inr s)"

definition am_claim_lp_rewards ::
  "'w token_transfer \<Rightarrow> env \<Rightarrow> address \<Rightarrow> u64 \<Rightarrow> 'w am_state \<Rightarrow> am_error + (i128 \<times> i128) \<times> 'w am_state" where
  "am_claim_lp_rewards tr e provider i s =
     and_then (require_auth AmAuth e provider) (\<lambda>_.
     am_with_reentrancy_guard (\<lambda>s.
       and_then (am_get_pool i s) (\<lambda>p.
       let lp_balance = am_get_lp_balance i provider s in
       and_then (panic_if (lp_balance \<le> 0 \<or> lp_total_supply p \<le> 0) AmNoLpTokens) (\<lambda>_.
       let reward_a = am_get_lp_reward_balance i (token_a p) s;
           reward_b = am_get_lp_reward_balance i (token_b p) s in
       and_then (am_mul reward_a lp_balance) (\<lambda>na.
       and_then (floor_div na (lp_total_supply p)) (\<lambda>share_a.
       and_then (am_mul reward_b lp_balance) (\<lambda>nb.
       and_then (floor_div nb (lp_total_supply p)) (\<lambda>share_b.
       and_then (panic_if (share_a \<le> 0 \<and> share_b \<le> 0) AmNoRewards) (\<lambda>_.
       and_then (am_pay_reward tr e provider i (token_a p) reward_a share_a s) (\<lambda>s.
       and_then (am_pay_reward tr e provider i (token_b p) reward_b share_b s) (\<lambda>s.
       Inr ((share_a, share_b), s))))))))))) s)"

definition am_get_pending_lp_rewards :: "u64 \<Rightarrow> address \<Rightarrow> 'w am_state \<Rightarrow> am_error + i128 \<times> i128" where
  "am_get_pending_lp_rewards i provider s =
     and_then (am_get_pool i s) (\<lambda>p.
     let lp_balance = am_get_lp_balance i provider s in
     if lp_balance \<le> 0 \<or> lp_total_supply p \<le> 0 then Inr (0, 0)
     else
       let reward_a = am_get_lp_reward_balance i (token_a p) s;
           reward_b = am_get_lp_reward_balance i (token_b p) s in
       and_then (am_mul reward_a lp_balance) (\<lambda>na.
       and_then (floor_div na (lp_total_supply p)) (\<lambda>share_a.
       and_then (am_mul reward_b lp_balance) (\<lambda>nb.
       and_then (floor_div nb (lp_total_supply p)) (\<lambda>share_b.
       Inr (share_a, share_b))))))"

definition am_get_price :: "u64 \<Rightarrow> address \<Rightarrow> 'w am_state \<Rightarrow> am_error + i128" where
  "am_get_price i tok s =
     and_then (am_get_pool i s) (\<lambda>p.
     and_then (panic_if (reserve_a p \<le> 0 \<or> reserve_b p \<le> 0) AmNoLiquidity) (\<lambda>_.
     if tok = token_a p then and_then (am_mul (reserve_b p) PRICE_SCALE) (\<lambda>x. Inr (div_i128 x (reserve_a p)))
     else if tok = token_b p then and_then (am_mul (reserve_a p) PRICE_SCALE) (\<lambda>x. Inr (div_i128 x (reserve_b p)))
     else Inl AmTokenNotInPool))"

section \<open>Routes\<close>

text \<open>The second half of \<open>try_direct_route\<close>, once the reserves of the pool are picked.\<close>

definition am_direct_quote ::
  "env \<Rightarrow> u64 \<Rightarrow> address \<Rightarrow> address \<Rightarrow> i128 \<Rightarrow> pool \<Rightarrow> i128 \<Rightarrow> i128 \<Rightarrow> am_error + route option" where
  "am_direct_quote e i token_in token_out amount_in p reserve_in reserve_out =
     (if reserve_in \<le> 0 \<or> reserve_out \<le> 0 then Inr None
      else
        and_then (get_amount_out amount_in reserve_in reserve_out (fee_bps p)) (\<lambda>amount_out.
        if amount_out \<le> 0 then Inr None
        else and_then (am_mul amount_out 95) (\<lambda>x.
          let h = \<lparr>hop_pool_id = i, hop_token_in = token_in, hop_token_out = token_out,
                   hop_amount_in = amount_in, hop_min_amount_out = div_i128 x 100\<rparr>
          in Inr (Some \<lparr>rt_token_in = token_in, rt_token_out = token_out, rt_amount_in = amount_in,
                       rt_amount_out = amount_out, total_fee_bps = fee_bps p, hops = [h],
                       rt_created_at = env_timestamp e\<rparr>))))"

definition am_try_direct_route ::
  "env \<Rightarrow> u64 \<Rightarrow> address \<Rightarrow> address \<Rightarrow> i128 \<Rightarrow> 'w am_state \<Rightarrow> am_error + route option" where
  "am_try_direct_route e i token_in token_out amount_in s =
     and_then (am_get_pool i s) (\<lambda>p.
     if token_in = token_a p \<and> token_out = token_b p
     then am_direct_quote e i token_in token_out amount_in p (reserve_a p) (reserve_b p)
     else if token_in = token_b p \<and> token_out = token_a p
     then am_direct_quote e i token_in token_out amount_in p (reserve_b p) (reserve_a p)
     else Inr None)"

fun am_scan_candidates :: "address list \<Rightarrow> pool \<Rightarrow> address \<Rightarrow> address \<Rightarrow> address option" where
  "am_scan_candidates [] p2 token_in token_out = None"
| "am_scan_candidates (t # ts) p2 token_in token_out =
     (if t = token_in \<or> t = token_out then am_scan_candidates ts p2 token_in token_out
      else if t = token_a p2 \<or> t = token_b p2 then Some t
      else am_scan_candidates ts p2 token_in token_out)"

definition am_find_intermediate_token :: "pool \<Rightarrow> pool \<Rightarrow> address \<Rightarrow> address \<Rightarrow> address option" where
  "am_find_intermediate_token p1 p2 token_in token_out =
     am_scan_candidates [token_a p1, token_b p1] p2 token_in token_out"

definition am_try_two_hop_route ::
  "env \<Rightarrow> u64 \<Rightarrow> u64 \<Rightarrow> address \<Rightarrow> address \<Rightarrow> i128 \<Rightarrow> 'w am_state \<Rightarrow> am_error + route option" where
  "am_try_two_hop_route e i j token_in token_out amount_in s =
     and_then (am_get_pool i s) (\<lambda>p1.
     and_then (am_get_pool j s) (\<lambda>p2.
     case am_find_intermediate_token p1 p2 token_in token_out of
       None \<Rightarrow> Inr None
     | Some mid \<Rightarrow>
         and_then (am_try_direct_route e i token_in mid amount_in s) (\<lambda>r1.
         case r1 of
           None \<Rightarrow> Inr None
         | Some route_1 \<Rightarrow>
             and_then (am_try_direct_route e j mid token_out (rt_amount_out route_1) s) (\<lambda>r2.
             case r2 of
               None \<Rightarrow> Inr None
             | Some route_2 \<Rightarrow>
                 and_then (ok_or AmOverflow (checked_add_u32 (fee_bps p1) (fee_bps p2))) (\<lambda>fees.
                 Inr (Some \<lparr>rt_token_in = token_in, rt_token_out = token_out, rt_amount_in = amount_in,
                            rt_amount_out = rt_amount_out route_2, total_fee_bps = fees,
                            hops = [hd (hops route_1), hd (hops route_2)], rt_created_at = env_timestamp e\<rparr>))))))"

text \<open>The running best of the two search loops: the route and its output.\<close>

definition am_better :: "route option \<Rightarrow> route option \<times> i128 \<Rightarrow> route option \<times> i128" where
  "am_better found best =
     (case found of
        None \<Rightarrow> best
      | Some r \<Rightarrow> if rt_amount_out r > snd best then (Some r, rt_amount_out r) else best)"

primrec am_search ::
  "('k \<Rightarrow> am_error + route option) \<Rightarrow> 'k list \<Rightarrow> route option \<times> i128 \<Rightarrow> am_error + route option \<times> i128" where
  "am_search try_route [] best = Inr best"
| "am_search try_route (k # ks) best =
     and_then (try_route k) (\<lambda>found. am_search try_route ks (am_better found best))"

definition am_pool_pairs :: "u64 \<Rightarrow> (u64 \<times> u64) list" where
  "am_pool_pairs n = filter (\<lambda>(i, j). i \<noteq> j) (List.product [0..<n] [0..<n])"

definition am_find_best_route ::
  "env \<Rightarrow> address \<Rightarrow> address \<Rightarrow> i128 \<Rightarrow> u32 \<Rightarrow> 'w am_state \<Rightarrow> am_error + route \<times> 'w am_state" where
  "am_find_best_route e token_in token_out amount_in max_hops s =
     and_then (panic_if (amount_in \<le> 0) AmAmountNotPositive) (\<lambda>_.
     and_then (panic_if (token_in = token_out) AmSameTokens) (\<lambda>_.
     and_then (panic_if (max_hops = 0 \<or> max_hops > 5) AmInvalidMaxHops) (\<lambda>_.
     and_then (am_check_trading_allowed e s) (\<lambda>s.
     let n = am_get_pool_counter s in
     and_then (am_search (\<lambda>i. am_try_direct_route e i token_in token_out amount_in s) [0..<n] (None, 0)) (\<lambda>best.
     and_then (if max_hops \<ge> 2
               then am_search (\<lambda>(i, j). am_try_two_hop_route e i j token_in token_out amount_in s) (am_pool_pairs n) best
               else Inr best) (\<lambda>best.
     and_then (ok_or AmNoRoute (fst best)) (\<lambda>r. Inr (r, s))))))))"

section \<open>Positions and risk limits\<close>

definition am_get_user_position_for_token :: "address \<Rightarrow> address \<Rightarrow> 'w am_state \<Rightarrow> i128" where
  "am_get_user_position_for_token user tok s = unwrap_or 0 (map_option position_size (am_user_position s (user, tok)))"

definition am_abs :: "i128 \<Rightarrow> am_error + i128" where
  "am_abs x = ok_or AmOverflow (narrow_i128 \<bar>x\<bar>)"

definition am_add_position :: "address \<Rightarrow> address \<Rightarrow> 'w am_state \<Rightarrow> i128 \<Rightarrow> am_error + i128" where
  "am_add_position user tok s acc =
     (case am_user_position s (user, tok) of
        Some pos \<Rightarrow> and_then (am_abs (position_size pos)) (\<lambda>x. am_add acc x)
      | None \<Rightarrow> Inr acc)"

primrec am_sum_positions :: "address \<Rightarrow> 'w am_state \<Rightarrow> u64 list \<Rightarrow> i128 \<Rightarrow> am_error + i128" where
  "am_sum_positions user s [] acc = Inr acc"
| "am_sum_positions user s (i # is) acc =
     and_then (am_get_pool i s) (\<lambda>p.
     and_then (am_add_position user (token_a p) s acc) (\<lambda>acc.
     and_then (am_add_position user (token_b p) s acc) (\<lambda>acc.
     am_sum_positions user s is acc)))"

definition am_get_user_total_position :: "address \<Rightarrow> 'w am_state \<Rightarrow> am_error + i128" where
  "am_get_user_total_position user s = am_sum_positions user s [0..<am_get_pool_counter s] 0"

text \<open>\<open>concentration as u32\<close> keeps the low 32 bits.\<close>

definition am_raise_concentration :: "address \<Rightarrow> address \<Rightarrow> i128 \<Rightarrow> 'w am_state \<Rightarrow> u32 \<Rightarrow> am_error + u32" where
  "am_raise_concentration user tok acc s best =
     (case am_user_position s (user, tok) of
        Some pos \<Rightarrow>
          and_then (am_abs (position_size pos)) (\<lambda>x.
          and_then (am_mul x 10000) (\<lambda>y.
          Inr (max best (nat (div_i128 y acc mod 4294967296)))))
      | None \<Rightarrow> Inr best)"

primrec am_max_concentration :: "address \<Rightarrow> i128 \<Rightarrow> 'w am_state \<Rightarrow> u64 list \<Rightarrow> u32 \<Rightarrow> am_error + u32" where
  "am_max_concentration user acc s [] best = Inr best"
| "am_max_concentration user acc s (i # is) best =
     and_then (am_get_pool i s) (\<lambda>p.
     and_then (am_raise_concentration user (token_a p) acc s best) (\<lambda>best.
     and_then (am_raise_concentration user (token_b p) acc s best) (\<lambda>best.
     am_max_concentration user acc s is best)))"

definition am_calculate_concentration_score :: "address \<Rightarrow> 'w am_state \<Rightarrow> am_error + u32" where
  "am_calculate_concentration_score user s =
     and_then (am_get_user_total_position user s) (\<lambda>acc.
     if acc = 0 then Inr 0
     else am_max_concentration user acc s [0..<am_get_pool_counter s] 0)"

definition am_check_position_limits :: "address \<Rightarrow> address \<Rightarrow> i128 \<Rightarrow> 'w am_state \<Rightarrow> am_error + unit" where
  "am_check_position_limits user tok amount s =
     (let params = am_get_risk_params s in
      and_then (am_add (am_get_user_position_for_token user tok s) amount) (\<lambda>new_position.
      and_then (am_get_user_total_position user s) (\<lambda>user_total.
      and_then (am_add user_total amount) (\<lambda>t.
      and_then (panic_if (t > max_position_per_user params) AmUserLimit) (\<lambda>_.
      and_then (panic_if (new_position > max_position_per_asset params) AmAssetLimit) (\<lambda>_.
      and_then (am_calculate_concentration_score user s) (\<lambda>concentration.
      panic_if (concentration > concentration_threshold_bps params) AmConcentration)))))))"

definition am_update_user_position :: "env \<Rightarrow> address \<Rightarrow> address \<Rightarrow> i128 \<Rightarrow> 'w am_state \<Rightarrow> am_error + 'w am_state" where
  "am_update_user_position e user tok amount_change s =
     and_then (am_add (am_get_user_position_for_token user tok s) amount_change) (\<lambda>new_position.
     if new_position = 0 then Inr (s\<lparr>am_user_position := (am_user_position s)((user, tok) := None)\<rparr>)
     else Inr (s\<lparr>am_user_position := (am_user_position s)((user, tok) \<mapsto>
       \<lparr>up_user = user, up_token = tok, position_size = new_position, last_updated = env_timestamp e\<rparr>)\<rparr>))"

text \<open>The loop of \<open>execute_multi_hop_swap\<close>: amount and token in hand, and the fees so far.\<close>

primrec am_run_hops ::
  "'w token_transfer \<Rightarrow> env \<Rightarrow> address \<Rightarrow> hop list \<Rightarrow> i128 \<Rightarrow> address \<Rightarrow> u32 \<Rightarrow> 'w am_state \<Rightarrow>
   am_error + (i128 \<times> address \<times> u32) \<times> 'w am_state" where
  "am_run_hops tr e user [] amount tok fees s = Inr ((amount, tok, fees), s)"
| "am_run_hops tr e user (h # hs) amount tok fees s =
     and_then (panic_if (hop_amount_in h \<noteq> amount) AmHopMismatch) (\<lambda>_.
     and_then (panic_if (hop_token_in h \<noteq> tok) AmHopMismatch) (\<lambda>_.
     and_then (am_get_pool (hop_pool_id h) s) (\<lambda>p.
     and_then (am_swap_internal tr e user (hop_pool_id h) (hop_token_in h) (hop_amount_in h)
                 (hop_min_amount_out h) False s) (\<lambda>(actual_output, s).
     and_then (ok_or AmOverflow (checked_add_u32 fees (fee_bps p))) (\<lambda>fees.
     am_run_hops tr e user hs actual_output (hop_token_out h) fees s)))))"

definition am_execute_multi_hop_swap ::
  "'w token_transfer \<Rightarrow> env \<Rightarrow> address \<Rightarrow> route \<Rightarrow> i128 \<Rightarrow> 'w am_state \<Rightarrow> am_error + i128 \<times> 'w am_state" where
  "am_execute_multi_hop_swap tr e user r min_amount_out s =
     and_then (require_auth AmAuth e user) (\<lambda>_.
     and_then (panic_if (rt_amount_in r \<le> 0) AmInvalidRoute) (\<lambda>_.
     and_then (panic_if (rt_amount_out r < min_amount_out) AmSlippage) (\<lambda>_.
     and_then (am_check_trading_allowed e s) (\<lambda>s.
     and_then (am_check_position_limits user (rt_token_in r) (rt_amount_in r) s) (\<lambda>_.
     and_then (am_run_hops tr e user (hops r) (rt_amount_in r) (rt_token_in r) 0 s) (\<lambda>((amount, tok, _), s).
     and_then (panic_if (amount < min_amount_out) AmSlippage) (\<lambda>_.
     and_then (panic_if (tok \<noteq> rt_token_out r) AmFinalTokenMismatch) (\<lambda>_.
     and_then (am_update_user_position e user (rt_token_in r) (- rt_amount_in r) s) (\<lambda>s.
     and_then (am_update_user_position e user (rt_token_out r) amount s) (\<lambda>s.
     Inr (amount, s)))))))))))"

section \<open>Administration\<close>

definition am_pause_trading :: "env \<Rightarrow> address \<Rightarrow> 'w am_state \<Rightarrow> am_error + unit \<times> 'w am_state" where
  "am_pause_trading e admin s =
     and_then (require_auth AmAuth e admin) (\<lambda>_.
     and_then (am_assert_admin admin s) (\<lambda>_. Inr ((), s\<lparr>am_trading_paused := Some True\<rparr>)))"

definition am_resume_trading :: "env \<Rightarrow> address \<Rightarrow> 'w am_state \<Rightarrow> am_error + unit \<times> 'w am_state" where
  "am_resume_trading e admin s =
     and_then (require_auth AmAuth e admin) (\<lambda>_.
     and_then (am_assert_admin admin s) (\<lambda>_. Inr ((), s\<lparr>am_trading_paused := Some False\<rparr>)))"

definition am_set_admin :: "env \<Rightarrow> address \<Rightarrow> address \<Rightarrow> 'w am_state \<Rightarrow> am_error + unit \<times> 'w am_state" where
  "am_set_admin e current_admin new_admin s =
     and_then (require_auth AmAuth e current_admin) (\<lambda>_.
     and_then (am_assert_admin current_admin s) (\<lambda>_.
     Inr ((), s\<lparr>am_roles := (am_roles s)\<lparr>rb_admin := Some new_admin\<rparr>\<rparr>)))"

definition am_set_fee_config :: "env \<Rightarrow> address \<Rightarrow> address \<Rightarrow> u32 \<Rightarrow> 'w am_state \<Rightarrow> am_error + unit \<times> 'w am_state" where
  "am_set_fee_config e admin governance_collector protocol_fee_share_bps s =
     and_then (require_auth AmAuth e admin) (\<lambda>_.
     and_then (am_assert_admin admin s) (\<lambda>_.
     and_then (panic_if (protocol_fee_share_bps > MAX_PROTOCOL_FEE_SHARE_BPS) AmShareTooHigh) (\<lambda>_.
     Inr ((), s\<lparr>am_governance_collector := Some governance_collector,
                am_protocol_fee_share := Some protocol_fee_share_bps\<rparr>))))"

definition am_set_risk_parameters :: "env \<Rightarrow> address \<Rightarrow> risk_params \<Rightarrow> 'w am_state \<Rightarrow> am_error + unit \<times> 'w am_state" where
  "am_set_risk_parameters e admin params s =
     and_then (require_auth AmAuth e admin) (\<lambda>_.
     and_then (am_assert_admin admin s) (\<lambda>_.
     and_then (panic_if (max_position_per_user params \<le> 0) AmInvalidRisk) (\<lambda>_.
     and_then (panic_if (max_position_per_asset params \<le> 0) AmInvalidRisk) (\<lambda>_.
     and_then (panic_if (concentration_threshold_bps params > 10000) AmInvalidRisk) (\<lambda>_.
     and_then (panic_if (circuit_breaker_threshold_bps params > 10000) AmInvalidRisk) (\<lambda>_.
     and_then (panic_if (circuit_breaker_cooldown params = 0) AmInvalidRisk) (\<lambda>_.
     and_then (panic_if (min_lp_token_threshold params \<le> 0) AmInvalidRisk) (\<lambda>_.
     Inr ((), s\<lparr>am_risk_params := Some params\<rparr>)))))))))"

definition am_get_risk_metrics :: "address \<Rightarrow> 'w am_state \<Rightarrow> am_error + i128 \<times> i128 \<times> u32" where
  "am_get_risk_metrics user s =
     and_then (am_get_user_total_position user s) (\<lambda>user_total_position.
     and_then (am_calculate_concentration_score user s) (\<lambda>concentration_score.
     Inr (user_total_position, int concentration_score, concentration_threshold_bps (am_get_risk_params s))))"

definition am_trigger_circuit_breaker :: "env \<Rightarrow> address \<Rightarrow> string \<Rightarrow> 'w am_state \<Rightarrow> am_error + unit \<times> 'w am_state" where
  "am_trigger_circuit_breaker e admin reason s =
     and_then (require_auth AmAuth e admin) (\<lambda>_.
     and_then (am_assert_admin admin s) (\<lambda>_.
     and_then (ok_or AmOverflow (checked_add_u64 (env_timestamp e) (circuit_breaker_cooldown (am_get_risk_params s)))) (\<lambda>expiry.
     Inr ((), s\<lparr>am_circuit_breaker :=
       Some \<lparr>cb_is_active = True, triggered_at = env_timestamp e, cb_reason = reason, cooldown_until = expiry\<rparr>\<rparr>))))"

section \<open>The contract as a transition system\<close>

datatype am_call =
    AmInitialize address "address option"
  | AmCreatePool address address address u32
  | AmAddLiquidity address u64 i128 i128
  | AmRemoveLiquidity address u64 i128
  | AmSwap address u64 address i128 i128
  | AmFlashSwap address u64 address i128 address i128
  | AmDepositLpRewards address u64 address i128
  | AmClaimLpRewards address u64
  | AmFindBestRoute address address i128 u32
  | AmExecuteMultiHopSwap address route i128
  | AmPauseTrading address
  | AmResumeTrading address
  | AmSetAdmin address address
  | AmSetFeeConfig address address u32
  | AmSetRiskParameters address risk_params
  | AmTriggerCircuitBreaker address string

fun am_exec :: "'w token_transfer \<Rightarrow> env \<Rightarrow> am_call \<Rightarrow> 'w am_state \<Rightarrow> 'w am_state option" where
  "am_exec tr e (AmInitialize a g) s = state_of (am_initialize e a g s)"
| "am_exec tr e (AmCreatePool a ta tb fee) s = state_of (am_create_pool e a ta tb fee s)"
| "am_exec tr e (AmAddLiquidity p i x y) s = state_of (am_add_liquidity tr e p i x y s)"
| "am_exec tr e (AmRemoveLiquidity p i n) s = state_of (am_remove_liquidity tr e p i n s)"
| "am_exec tr e (AmSwap u i tok x m) s = state_of (am_swap tr e u i tok x m s)"
| "am_exec tr e (AmFlashSwap u i to x ti m) s = state_of (am_flash_swap tr e u i to x ti m s)"
| "am_exec tr e (AmDepositLpRewards a i tok x) s = state_of (am_deposit_lp_rewards tr e a i tok x s)"
| "am_exec tr e (AmClaimLpRewards p i) s = state_of (am_claim_lp_rewards tr e p i s)"
| "am_exec tr e (AmFindBestRoute ti to x n) s = state_of (am_find_best_route e ti to x n s)"
| "am_exec tr e (AmExecuteMultiHopSwap u r m) s = state_of (am_execute_multi_hop_swap tr e u r m s)"
| "am_exec tr e (AmPauseTrading a) s = state_of (am_pause_trading e a s)"
| "am_exec tr e (AmResumeTrading a) s = state_of (am_resume_trading e a s)"
| "am_exec tr e (AmSetAdmin a b) s = state_of (am_set_admin e a b s)"
| "am_exec tr e (AmSetFeeConfig a c n) s = state_of (am_set_fee_config e a c n s)"
| "am_exec tr e (AmSetRiskParameters a r) s = state_of (am_set_risk_parameters e a r s)"
| "am_exec tr e (AmTriggerCircuitBreaker a r) s = state_of (am_trigger_circuit_breaker e a r s)"

end
