(* ===== verification/Amm_Trades.thy ===== *)
theory Amm_Trades
  imports Amm
begin

text \<open>
  What the operations of the AMM do when they succeed: the guard, the fees, and for a swap and a
  flash swap the exact new reserves and token movements, with the bounds that keep the product of
  the reserves.
\<close>

section \<open>What the helpers guarantee\<close>

interpretation amg: reentrancy_guard am_enter am_leave am_is_reentrancy_locked
  by unfold_locales (auto simp: am_enter_def am_leave_def am_is_reentrancy_locked_def)

lemma am_assert_admin_Inr [result_iffs]: "am_assert_admin a s = Inr u \<longleftrightarrow> rb_admin (am_roles s) = Some a"
  by (cases "rb_require_admin a (am_roles s)") (auto simp: am_assert_admin_def rb_require_admin_def rb_get_admin_def result_iffs)

lemma am_guard_Inr [result_iffs]:
  "am_with_reentrancy_guard f s = Inr (r, s') \<longleftrightarrow> \<not> am_is_reentrancy_locked s \<and>
     (\<exists>s1. f (s\<lparr>am_reentrancy_lock := Some True\<rparr>) = Inr (r, s1) \<and> s' = s1\<lparr>am_reentrancy_lock := Some False\<rparr>)"
  by (auto simp: am_with_reentrancy_guard_def am_enter_def am_leave_def result_iffs)

lemma am_transfer_Inr [result_iffs]:
  "am_transfer tr e tok src dst n s = Inr s' \<longleftrightarrow>
     (\<exists>w. tr e tok src dst n (am_tokens s) = Some w \<and> s' = s\<lparr>am_tokens := w\<rparr>)"
  by (auto simp: am_transfer_def result_iffs)

lemma am_get_pool_Inr [result_iffs]: "am_get_pool i s = Inr p \<longleftrightarrow> am_pool s i = Some p"
  by (simp add: am_get_pool_def result_iffs)

lemma am_check_trading_Inr:
  assumes "am_check_trading_allowed e s = Inr s'"
  obtains b where "s' = s\<lparr>am_circuit_breaker := b\<rparr>" "\<not> am_is_trading_paused s"
    "\<forall>st. am_circuit_breaker s = Some st \<and> cb_is_active st \<longrightarrow> cooldown_until st \<le> env_timestamp e"
proof (cases "am_circuit_breaker s")
  case None
  with assms show thesis by (intro that [of None]) (auto simp: am_check_trading_allowed_def result_iffs)
next
  case (Some st)
  with assms show thesis
    by (intro that [of "if cb_is_active st then Some (st\<lparr>cb_is_active := False\<rparr>) else Some st"])
       (auto simp: am_check_trading_allowed_def result_iffs split: if_splits)
qed

section \<open>Trades\<close>

text \<open>A pool after a trade: \<open>n\<close> of one token came in and \<open>out\<close> of the other went out.\<close>

definition am_traded :: "pool \<Rightarrow> bool \<Rightarrow> i128 \<Rightarrow> i128 \<Rightarrow> pool" where
  "am_traded p a_in n out =
     (if a_in then p\<lparr>reserve_a := reserve_a p + n, reserve_b := reserve_b p - out\<rparr>
      else p\<lparr>reserve_a := reserve_a p - out, reserve_b := reserve_b p + n\<rparr>)"

definition am_in_token :: "pool \<Rightarrow> bool \<Rightarrow> address" where
  "am_in_token p a_in = (if a_in then token_a p else token_b p)"

definition am_out_token :: "pool \<Rightarrow> bool \<Rightarrow> address" where
  "am_out_token p a_in = (if a_in then token_b p else token_a p)"

definition am_reserve_in :: "pool \<Rightarrow> bool \<Rightarrow> i128" where
  "am_reserve_in p a_in = (if a_in then reserve_a p else reserve_b p)"

definition am_reserve_out :: "pool \<Rightarrow> bool \<Rightarrow> i128" where
  "am_reserve_out p a_in = (if a_in then reserve_b p else reserve_a p)"

lemma am_swap_reserves_Inr [result_iffs]:
  "am_swap_reserves a_in n out p = Inr p' \<longleftrightarrow>
     in_i128 (am_reserve_in p a_in + n) \<and> in_i128 (am_reserve_out p a_in - out) \<and> p' = am_traded p a_in n out"
  by (auto simp: am_swap_reserves_def result_iffs am_reserve_in_def am_reserve_out_def am_traded_def)

lemma am_flash_reserves_Inr [result_iffs]:
  "am_flash_reserves out_is_a n out p = Inr p' \<longleftrightarrow>
     in_i128 (am_reserve_in p (\<not> out_is_a) + n) \<and> in_i128 (am_reserve_out p (\<not> out_is_a) - out) \<and>
     p' = am_traded p (\<not> out_is_a) n out"
  by (auto simp: am_flash_reserves_def result_iffs am_reserve_in_def am_reserve_out_def am_traded_def)

lemma am_traded_simps [simp]:
  "pool_id (am_traded p a n k) = pool_id p" "token_a (am_traded p a n k) = token_a p" "token_b (am_traded p a n k) = token_b p"
  "fee_bps (am_traded p a n k) = fee_bps p" "lp_total_supply (am_traded p a n k) = lp_total_supply p"
  "am_reserve_in (am_traded p a n k) a = am_reserve_in p a + n" "am_reserve_out (am_traded p a n k) a = am_reserve_out p a - k"
  by (simp_all add: am_traded_def am_reserve_in_def am_reserve_out_def)

text \<open>The part of the fee that goes to the collector, and what stays for the pool.\<close>

definition am_protocol_fee :: "i128 \<Rightarrow> u32 \<Rightarrow> u32 \<Rightarrow> i128" where
  "am_protocol_fee x fee share = (x * int fee div 10000) * int share div 10000"

lemma am_protocol_fee_bounds:
  assumes "0 \<le> x" and "share \<le> 10000"
  shows "0 \<le> am_protocol_fee x fee share" and "10000 * am_protocol_fee x fee share \<le> x * int fee"
    and "fee \<le> 10000 \<Longrightarrow> am_protocol_fee x fee share \<le> x"
proof -
  let ?f = "x * int fee div 10000"
  have f: "0 \<le> ?f" "10000 * ?f \<le> x * int fee" using assms(1) by (simp_all add: pos_imp_zdiv_nonneg_iff)
  have b: "0 \<le> am_protocol_fee x fee share \<and> am_protocol_fee x fee share \<le> ?f"
    unfolding am_protocol_fee_def by (rule div_fraction_bounds) (use f assms(2) in auto)
  then show "0 \<le> am_protocol_fee x fee share" "10000 * am_protocol_fee x fee share \<le> x * int fee" using f by linarith+
  show "am_protocol_fee x fee share \<le> x" if "fee \<le> 10000"
    using b div_fraction_bounds [of x "int fee" 10000] assms(1) that by auto
qed

lemma am_net_covers_fee:
  assumes "0 \<le> x" and "share \<le> 10000" and "fee \<le> 10000"
  shows "x * (10000 - int fee) \<le> 10000 * (x - am_protocol_fee x fee share)"
    and "after_fee x fee \<le> x - am_protocol_fee x fee share"
proof -
  show 1: "x * (10000 - int fee) \<le> 10000 * (x - am_protocol_fee x fee share)"
    using am_protocol_fee_bounds(2) [OF assms(1,2), of fee] by (simp add: algebra_simps)
  have "10000 * after_fee x fee \<le> x * (10000 - int fee)" by (simp add: after_fee_def)
  then have "10000 * after_fee x fee \<le> 10000 * (x - am_protocol_fee x fee share)" using 1 by (rule order_trans)
  then show "after_fee x fee \<le> x - am_protocol_fee x fee share" by (rule mult_left_le_imp_le) simp
qed

text \<open>Both kinds of trade keep the product, with the input net of the protocol's part.\<close>

lemma am_swap_keeps_product:
  fixes ri ro :: int
  assumes "out = ro * after_fee x fee div (ri + after_fee x fee)" and "0 < x" "0 < ri" "0 < ro"
    and "share \<le> 10000" "fee \<le> 10000"
  shows "ri * ro \<le> (ri + (x - am_protocol_fee x fee share)) * (ro - out)" and "0 \<le> out" and "out < ro"
proof -
  have af: "0 \<le> after_fee x fee" using after_fee_bounds [of x fee] assms by simp
  show out: "0 \<le> out" "out < ro" using out_below_reserve [OF assms(3,4) af] by (simp_all add: assms(1))
  have "ri * ro \<le> (ri + after_fee x fee) * (ro - out)" using product_optimal [OF assms(3) af, of out ro] by (simp add: assms(1))
  also have "\<dots> \<le> (ri + (x - am_protocol_fee x fee share)) * (ro - out)"
    using am_net_covers_fee(2) [of x share fee] assms out by (intro mult_right_mono) auto
  finally show "ri * ro \<le> (ri + (x - am_protocol_fee x fee share)) * (ro - out)" .
qed

lemma am_flash_keeps_product:
  fixes ri ro :: int
  assumes "get_amount_in out ri ro fee = Inr x" and "share \<le> 10000" "fee < 10000"
  shows "ri * ro \<le> (ri + (x - am_protocol_fee x fee share)) * (ro - out)"
proof -
  let ?net = "x - am_protocol_fee x fee share"
  note gin = get_amount_in_Inr [OF assms(1,3)]
  have "10000 * (ri * out) \<le> x * (10000 - int fee) * (ro - out)" using gin(5) [of x] by (simp add: mult.assoc)
  also have "\<dots> \<le> 10000 * ?net * (ro - out)"
    using am_net_covers_fee(1) [of x share fee] gin(3,4) assms(2,3) by (intro mult_right_mono) auto
  finally have "10000 * (ri * out) \<le> 10000 * (?net * (ro - out))" by (simp only: mult.assoc)
  then have "ri * out \<le> ?net * (ro - out)" by (rule mult_left_le_imp_le) simp
  then show ?thesis by (simp add: algebra_simps)
qed

text \<open>The optional payment to the fee collector, on the token state.\<close>

definition am_fee_paid :: "'w token_transfer \<Rightarrow> env \<Rightarrow> address \<Rightarrow> i128 \<Rightarrow> address option \<Rightarrow> 'w \<Rightarrow> 'w \<Rightarrow> bool" where
  "am_fee_paid tr e tok fee c w w' \<longleftrightarrow>
     (if 0 < fee \<and> c \<noteq> None then tr e tok (env_self e) (the c) fee w = Some w' else w' = w)"

lemma am_pay_protocol_fee_Inr [result_iffs]:
  "am_pay_protocol_fee tr e tok fee s = Inr s' \<longleftrightarrow>
     (\<exists>w. am_fee_paid tr e tok fee (am_governance_collector s) (am_tokens s) w \<and> s' = s\<lparr>am_tokens := w\<rparr>)"
  by (cases "am_governance_collector s")
     (auto simp: am_pay_protocol_fee_def am_fee_paid_def result_iffs)

lemma am_swap_fee_Inr [result_iffs]: "am_calculate_swap_fee x fee = Inr f \<longleftrightarrow> f = div_i128 (x * int fee) 10000 \<and> in_i128 (x * int fee)"
  by (auto simp: am_calculate_swap_fee_def result_iffs AM_BPS_DENOMINATOR_def)

lemma am_protocol_fee_eq:
  "0 \<le> x \<Longrightarrow> div_i128 (div_i128 (x * int fee) 10000 * int share) 10000 = am_protocol_fee x fee share"
  by (simp add: am_protocol_fee_def div_i128_nonneg pos_imp_zdiv_nonneg_iff)

lemma am_swap_protocol_fee_Inr:
  "0 \<le> x \<Longrightarrow> am_swap_protocol_fee collect (div_i128 (x * int fee) 10000) share = Inr pf \<Longrightarrow>
   pf = (if collect then am_protocol_fee x fee share else 0)"
  by (auto simp: am_swap_protocol_fee_def result_iffs am_protocol_fee_eq AM_BPS_DENOMINATOR_def split: if_splits)

lemma am_share_tokens [simp]: "am_get_protocol_fee_share_bps (s\<lparr>am_tokens := w\<rparr>) = am_get_protocol_fee_share_bps s"
  by (simp add: am_get_protocol_fee_share_bps_def)

lemma am_swap_internal_Inr:
  assumes "am_swap_internal tr e u i tin x m collect s = Inr (out, s')"
  obtains p a_in w1 w2 w3 pf where "am_pool s i = Some p" "tin = am_in_token p a_in" "0 < x"
    "0 < am_reserve_in p a_in" "0 < am_reserve_out p a_in"
    "get_amount_out x (am_reserve_in p a_in) (am_reserve_out p a_in) (fee_bps p) = Inr out" "m \<le> out" "0 < out"
    "pf = (if collect then am_protocol_fee x (fee_bps p) (am_get_protocol_fee_share_bps s) else 0)"
    "tr e tin u (env_self e) x (am_tokens s) = Some w1"
    "am_fee_paid tr e tin pf (am_governance_collector s) w1 w2"
    "tr e (am_out_token p a_in) (env_self e) u out w2 = Some w3"
    "in_i128 (am_reserve_in p a_in + (x - pf))" "in_i128 (am_reserve_out p a_in - out)"
    "s' = s\<lparr>am_tokens := w3, am_pool := (am_pool s)(pool_id p \<mapsto> am_traded p a_in (x - pf) out)\<rparr>"
    "a_in \<longleftrightarrow> tin = token_a p"
proof -
  from assms obtain p where p: "am_pool s i = Some p" by (auto simp: am_swap_internal_def result_iffs)
  from assms p have pre: "0 < x" "0 < reserve_a p" "0 < reserve_b p" by (auto simp: am_swap_internal_def result_iffs)
  note am = am_swap_internal_def am_get_pool_def p am_set_pool_def
  have tok: "tin = token_a p \<or> tin = token_b p" using assms pre by (auto simp: am split: if_splits)
  define a_in where "a_in = (tin = token_a p)"
  let ?pf = "if collect then am_protocol_fee x (fee_bps p) (am_get_protocol_fee_share_bps s) else 0"
  have reserves: "(if tin = token_a p then Inr (reserve_a p, reserve_b p, True)
      else if tin = token_b p then Inr (reserve_b p, reserve_a p, False) else Inl AmTokenNotInPool) =
      Inr (am_reserve_in p a_in, am_reserve_out p a_in, a_in)"
    using tok by (auto simp: a_in_def am_reserve_in_def am_reserve_out_def)
  note pf = am_swap_protocol_fee_Inr [of x collect "fee_bps p" "am_get_protocol_fee_share_bps s"]
  from assms pre obtain w1 w2 w3 where
    out: "get_amount_out x (am_reserve_in p a_in) (am_reserve_out p a_in) (fee_bps p) = Inr out" "m \<le> out" "0 < out"
    and tr: "tr e tin u (env_self e) x (am_tokens s) = Some w1" "am_fee_paid tr e tin ?pf (am_governance_collector s) w1 w2"
      "tr e (am_out_token p a_in) (env_self e) u out w2 = Some w3"
    and fits: "in_i128 (am_reserve_in p a_in + (x - ?pf))" "in_i128 (am_reserve_out p a_in - out)"
    and s': "s' = s\<lparr>am_tokens := w3, am_pool := (am_pool s)(pool_id p \<mapsto> am_traded p a_in (x - ?pf) out)\<rparr>"
    unfolding am_swap_internal_def reserves
    using pf by (clarsimp simp: am reserves result_iffs Let_def am_out_token_def [symmetric] split del: if_split)
  show thesis
    by (rule that [OF p _ pre(1) _ _ out refl tr fits s' a_in_def])
       (use tok pre in \<open>auto simp: a_in_def am_in_token_def am_reserve_in_def am_reserve_out_def\<close>)
qed

lemma am_share_frame [simp]:
  "am_get_protocol_fee_share_bps (s\<lparr>am_circuit_breaker := b\<rparr>) = am_get_protocol_fee_share_bps s"
  "am_get_protocol_fee_share_bps (s\<lparr>am_reentrancy_lock := l\<rparr>) = am_get_protocol_fee_share_bps s"
  by (simp_all add: am_get_protocol_fee_share_bps_def)

lemma am_reserves_for_pair_Inr:
  assumes "am_reserves_for_pair p tin tout = Inr (ri, ro, out_is_a)"
  obtains a_in where "ri = am_reserve_in p a_in" "ro = am_reserve_out p a_in" "out_is_a = (\<not> a_in)"
    "tin = am_in_token p a_in" "tout = am_out_token p a_in"
proof (cases "tin = token_a p \<and> tout = token_b p")
  case True
  with assms show thesis
    by (intro that [of True]) (auto simp: am_reserves_for_pair_def result_iffs am_reserve_in_def am_reserve_out_def
      am_in_token_def am_out_token_def)
next
  case False
  with assms show thesis
    by (intro that [of False]) (auto simp: am_reserves_for_pair_def am_validate_pool_tokens_def result_iffs am_reserve_in_def
      am_reserve_out_def am_in_token_def am_out_token_def)
qed

lemma am_flash_guarded_Inr:
  assumes "am_flash_swap_guarded tr e u i tout out tin m s = Inr (x, s')"
  obtains p a_in w1 w2 w3 pf where "am_pool s i = Some p" "tin = am_in_token p a_in" "tout = am_out_token p a_in"
    "get_amount_in out (am_reserve_in p a_in) (am_reserve_out p a_in) (fee_bps p) = Inr x" "x \<le> m"
    "pf = div_i128 (div_i128 (x * int (fee_bps p)) 10000 * int (am_get_protocol_fee_share_bps s)) 10000"
    "tr e tout (env_self e) u out (am_tokens s) = Some w1" "tr e tin u (env_self e) x w1 = Some w2"
    "am_fee_paid tr e tin pf (am_governance_collector s) w2 w3"
    "in_i128 (am_reserve_in p a_in + (x - pf))" "in_i128 (am_reserve_out p a_in - out)"
    "s' = s\<lparr>am_tokens := w3, am_pool := (am_pool s)(pool_id p \<mapsto> am_traded p a_in (x - pf) out)\<rparr>"
proof -
  from assms obtain p ri ro out_is_a where p: "am_pool s i = Some p" and
      pair: "am_reserves_for_pair p tin tout = Inr (ri, ro, out_is_a)"
    by (auto simp: am_flash_swap_guarded_def result_iffs)
  from pair obtain a_in where a_in: "ri = am_reserve_in p a_in" "ro = am_reserve_out p a_in" "out_is_a = (\<not> a_in)"
      "tin = am_in_token p a_in" "tout = am_out_token p a_in" by (elim am_reserves_for_pair_Inr)
  have valid: "am_validate_pool_tokens p tin tout = Inr ()" using pair by (auto simp: am_reserves_for_pair_def result_iffs)
  let ?pf = "div_i128 (div_i128 (x * int (fee_bps p)) 10000 * int (am_get_protocol_fee_share_bps s)) 10000"
  from assms have run: "and_then (get_amount_in out (am_reserve_in p a_in) (am_reserve_out p a_in) (fee_bps p)) (\<lambda>y.
     and_then (panic_if (y > m) AmRepaymentTooHigh) (\<lambda>_.
     and_then (am_transfer tr e tout (env_self e) u out s) (\<lambda>s.
     and_then (am_transfer tr e tin u (env_self e) y s) (\<lambda>s.
     and_then (am_calculate_swap_fee y (fee_bps p)) (\<lambda>fee_amount.
     and_then (am_mul fee_amount (int (am_get_protocol_fee_share_bps s))) (\<lambda>x.
     and_then (am_pay_protocol_fee tr e tin (div_i128 x 10000) s) (\<lambda>s.
     and_then (am_sub y (div_i128 x 10000)) (\<lambda>net_in.
     and_then (am_flash_reserves (\<not> a_in) net_in out p) (\<lambda>p.
     Inr (y, am_set_pool p s)))))))))) = Inr (x, s')"
    using pair [unfolded a_in(1-3)] valid
    by (simp add: am_flash_swap_guarded_def am_get_pool_def p Let_def AM_BPS_DENOMINATOR_def result_iffs)
  then obtain y s1 s2 f g s3 net p' where st:
      "get_amount_in out (am_reserve_in p a_in) (am_reserve_out p a_in) (fee_bps p) = Inr y" "\<not> m < y"
      "am_transfer tr e tout (env_self e) u out s = Inr s1" "am_transfer tr e tin u (env_self e) y s1 = Inr s2"
      "am_calculate_swap_fee y (fee_bps p) = Inr f" "am_mul f (int (am_get_protocol_fee_share_bps s2)) = Inr g"
      "am_pay_protocol_fee tr e tin (div_i128 g 10000) s2 = Inr s3" "am_sub y (div_i128 g 10000) = Inr net"
      "am_flash_reserves (\<not> a_in) net out p = Inr p'" "y = x" "am_set_pool p' s3 = s'"
    unfolding and_then_eq_Inr panic_if_eq_Inr sum.inject prod.inject by (elim exE conjE) (rule that)
  have x: "y = x" "s' = am_set_pool p' s3" using st(10,11) by simp_all
  obtain w1 w2 where w: "tr e tout (env_self e) u out (am_tokens s) = Some w1" "s1 = s\<lparr>am_tokens := w1\<rparr>"
      "tr e tin u (env_self e) x w1 = Some w2" "s2 = s\<lparr>am_tokens := w2\<rparr>"
    using st(3,4) by (auto simp: result_iffs x(1))
  have g: "div_i128 g 10000 = ?pf" using st(5,6) by (auto simp: result_iffs x(1) w)
  obtain w3 where w3: "am_fee_paid tr e tin ?pf (am_governance_collector s) w2 w3" "s3 = s\<lparr>am_tokens := w3\<rparr>"
    using st(7) unfolding g by (auto simp: result_iffs w)
  have p': "in_i128 (am_reserve_in p a_in + (x - ?pf))" "in_i128 (am_reserve_out p a_in - out)" "p' = am_traded p a_in (x - ?pf) out"
    using st(8,9) unfolding g by (auto simp: result_iffs x(1))
  have s': "s' = s\<lparr>am_tokens := w3, am_pool := (am_pool s)(pool_id p \<mapsto> am_traded p a_in (x - ?pf) out)\<rparr>"
    unfolding x(2) w3(2) p'(3) by (simp add: am_set_pool_def)
  show thesis
    by (rule that [OF p a_in(4,5) st(1,2) [unfolded x(1) not_less] refl w(1,3) w3(1) p'(1,2) s'])
qed

end
