(* ===== verification/Amm_Invariant.thy ===== *)
theory Amm_Invariant
  imports Amm_Trades
begin

text \<open>
  The invariant of the AMM: well-formed pools, LP supply equal to the providers' balances, bounded
  configuration, and the solvency of the contract in every token. Every call keeps it, on every
  token that follows the token interface.
\<close>

section \<open>The invariant\<close>

definition am_holding :: "address \<Rightarrow> pool \<Rightarrow> int" where
  "am_holding tok p = (if token_a p = tok then reserve_a p else 0) + (if token_b p = tok then reserve_b p else 0)"

definition am_reserves :: "address \<Rightarrow> 'w am_state \<Rightarrow> int" where
  "am_reserves tok s = entry_sum (am_holding tok) (am_pool s)"

definition am_rewards :: "address \<Rightarrow> 'w am_state \<Rightarrow> int" where
  "am_rewards tok s = entry_sum id (\<lambda>i. am_lp_reward s (i, tok))"

definition am_lp_shares :: "u64 \<Rightarrow> 'w am_state \<Rightarrow> int" where
  "am_lp_shares i s = entry_sum id (\<lambda>a. am_lp_balance s (i, a))"

text \<open>An empty pool has no shares and no reserves, any other has both.\<close>

definition am_pool_ok :: "u64 \<Rightarrow> pool \<Rightarrow> bool" where
  "am_pool_ok i p \<longleftrightarrow> pool_id p = i \<and> token_a p \<noteq> token_b p \<and> fee_bps p \<le> MAX_FEE_BPS \<and>
     in_i128 (reserve_a p) \<and> in_i128 (reserve_b p) \<and> in_i128 (lp_total_supply p) \<and>
     (lp_total_supply p = 0 \<and> reserve_a p = 0 \<and> reserve_b p = 0 \<or>
      0 < lp_total_supply p \<and> 0 < reserve_a p \<and> 0 < reserve_b p)"

definition am_pools_ok :: "'w am_state \<Rightarrow> bool" where
  "am_pools_ok s \<longleftrightarrow> (\<forall>i. am_pool s i \<noteq> None \<longleftrightarrow> i < am_get_pool_counter s) \<and>
     (\<forall>i p. am_pool s i = Some p \<longrightarrow> am_pool_ok i p \<and> lp_total_supply p = am_lp_shares i s)"

definition am_accounts_ok :: "'w am_state \<Rightarrow> bool" where
  "am_accounts_ok s \<longleftrightarrow> finite (dom (am_lp_balance s)) \<and>
     (\<forall>i a n. am_lp_balance s (i, a) = Some n \<longrightarrow> 0 \<le> n \<and> in_i128 n \<and> i < am_get_pool_counter s)"

definition am_rewards_ok :: "'w am_state \<Rightarrow> bool" where
  "am_rewards_ok s \<longleftrightarrow> finite (dom (am_lp_reward s)) \<and> (\<forall>k n. am_lp_reward s k = Some n \<longrightarrow> 0 \<le> n \<and> in_i128 n)"

definition am_config_ok :: "'w am_state \<Rightarrow> bool" where
  "am_config_ok s \<longleftrightarrow> am_get_protocol_fee_share_bps s \<le> MAX_PROTOCOL_FEE_SHARE_BPS \<and>
     (0 < am_get_protocol_fee_share_bps s \<longrightarrow> am_governance_collector s \<noteq> None) \<and>
     (rb_admin (am_roles s) = None \<longrightarrow> am_get_pool_counter s = 0) \<and> am_get_pool_counter s \<le> u64_max \<and>
     (\<forall>k u. am_user_position s k = Some u \<longrightarrow> in_i128 (position_size u))"

definition am_inv :: "'w token_balance \<Rightarrow> address \<Rightarrow> 'w \<Rightarrow> u64 \<Rightarrow> 'w am_state \<Rightarrow> bool" where
  "am_inv bal self w t s \<longleftrightarrow> am_pools_ok s \<and> am_accounts_ok s \<and> am_rewards_ok s \<and> am_config_ok s \<and>
     (\<forall>tok. bal w tok self + am_reserves tok s + am_rewards tok s \<le> bal (am_tokens s) tok self)"

definition am_adm :: "address \<Rightarrow> env \<Rightarrow> am_call \<Rightarrow> bool" where
  "am_adm self e c \<longleftrightarrow> env_self e = self \<and> \<not> env_auth e self"

definition am_drift :: "'w token_balance \<Rightarrow> address \<Rightarrow> 'w am_state \<Rightarrow> 'w am_state \<Rightarrow> bool" where
  "am_drift bal self s s' \<longleftrightarrow> (\<exists>w. s' = s\<lparr>am_tokens := w\<rparr> \<and> (\<forall>tok. bal (am_tokens s) tok self \<le> bal w tok self))"

lemmas am_inv_parts = am_pools_ok_def am_accounts_ok_def am_rewards_ok_def am_config_ok_def am_get_pool_counter_def
  am_get_protocol_fee_share_bps_def am_lp_shares_def

subsection \<open>Sums over the two-key maps\<close>

lemma finite_dom_fst: "finite (dom m) \<Longrightarrow> finite (dom (\<lambda>a. m (i, a)))"
  by (rule finite_subset [of _ "snd ` dom m"]) force+

lemma finite_dom_snd: "finite (dom m) \<Longrightarrow> finite (dom (\<lambda>i. m (i, a)))"
  by (rule finite_subset [of _ "fst ` dom m"]) force+

lemma slice_fst: "(\<lambda>a. (m((i, b) \<mapsto> n)) (j, a)) = (if j = i then (\<lambda>a. m (j, a))(b \<mapsto> n) else (\<lambda>a. m (j, a)))"
  by (auto simp: fun_eq_iff)

lemma slice_snd: "(\<lambda>i. (m((k, b) \<mapsto> n)) (i, a)) = (if a = b then (\<lambda>i. m (i, a))(k \<mapsto> n) else (\<lambda>i. m (i, a)))"
  by (auto simp: fun_eq_iff)

lemma entry_sum_set:
  "finite (dom m) \<Longrightarrow> entry_sum id (m(k \<mapsto> n)) = entry_sum id m - unwrap_or 0 (m k) + n"
  by (simp add: entry_sum_upd unwrap_or_def split: option.splits)

lemma am_lp_shares_set:
  assumes "finite (dom (am_lp_balance s))"
  shows "am_lp_shares j (am_set_lp_balance i a n s) =
    (if j = i then am_lp_shares i s - am_get_lp_balance i a s + n else am_lp_shares j s)"
  unfolding am_lp_shares_def am_set_lp_balance_def am_get_lp_balance_def
  using entry_sum_set [OF finite_dom_fst [OF assms]] by (simp add: slice_fst del: fun_upd_apply)

lemma am_rewards_set:
  assumes "finite (dom (am_lp_reward s))"
  shows "am_rewards t (am_set_lp_reward_balance i tok n s) =
    am_rewards t s + (if t = tok then n - am_get_lp_reward_balance i tok s else 0)"
  unfolding am_rewards_def am_set_lp_reward_balance_def am_get_lp_reward_balance_def
  using entry_sum_set [OF finite_dom_snd [OF assms]] by (simp add: slice_snd del: fun_upd_apply)

lemma am_pools_finite: "am_pools_ok s \<Longrightarrow> finite (dom (am_pool s))"
  by (rule finite_subset [of _ "{..<am_get_pool_counter s}"]) (auto simp: am_pools_ok_def)

text \<open>One pool changes, together with its shares, the rewards and the holdings of the contract.\<close>

lemma am_inv_pool_change:
  assumes inv: "am_inv bal self w t s" and p: "am_pool s i = Some p"
    and pools: "am_pool s' = (am_pool s)(i \<mapsto> p')" "am_get_pool_counter s' = am_get_pool_counter s"
    and p': "am_pool_ok i p'" "lp_total_supply p' = am_lp_shares i s'" "\<And>j. j \<noteq> i \<Longrightarrow> am_lp_shares j s' = am_lp_shares j s"
    and ok: "am_accounts_ok s'" "am_rewards_ok s'" "am_config_ok s'"
    and moved: "\<And>tok. bal (am_tokens s) tok self + am_holding tok p' + am_rewards tok s' \<le>
      bal (am_tokens s') tok self + am_holding tok p + am_rewards tok s"
  shows "am_inv bal self w t s'"
proof -
  have pok: "am_pools_ok s" using inv by (simp add: am_inv_def)
  have "am_pools_ok s'"
    unfolding am_pools_ok_def
  proof (intro conjI allI impI)
    fix j
    show "am_pool s' j \<noteq> None \<longleftrightarrow> j < am_get_pool_counter s'"
      using pok p by (auto simp: am_pools_ok_def pools)
  next
    fix j q
    assume "am_pool s' j = Some q"
    then show "am_pool_ok j q" and "lp_total_supply q = am_lp_shares j s'"
      using pok p' by (auto simp: am_pools_ok_def pools split: if_splits)
  qed
  moreover have "bal w tok self + am_reserves tok s' + am_rewards tok s' \<le> bal (am_tokens s') tok self" for tok
  proof -
    have "am_reserves tok s' = am_reserves tok s - am_holding tok p + am_holding tok p'"
      unfolding am_reserves_def pools(1) entry_sum_upd [OF am_pools_finite [OF pok]] by (simp add: p)
    moreover have "bal w tok self + am_reserves tok s + am_rewards tok s \<le> bal (am_tokens s) tok self"
      using inv by (simp add: am_inv_def)
    ultimately show ?thesis using moved [of tok] by linarith
  qed
  ultimately show ?thesis using ok by (simp add: am_inv_def)
qed

text \<open>Calls that leave pools, shares, rewards and tokens alone.\<close>

lemma am_inv_frame:
  assumes "am_inv bal self w t s" and "am_pool s' = am_pool s" "am_pool_counter s' = am_pool_counter s"
    "am_lp_balance s' = am_lp_balance s" "am_lp_reward s' = am_lp_reward s" "am_tokens s' = am_tokens s" "am_config_ok s'"
  shows "am_inv bal self w t s'"
  using assms by (simp add: am_inv_def am_pools_ok_def am_accounts_ok_def am_rewards_ok_def am_get_pool_counter_def
      am_lp_shares_def am_reserves_def am_rewards_def)

lemma am_inv_fresh: "am_inv bal self w t (am_fresh w)"
  by (simp add: am_inv_def am_inv_parts am_fresh_def am_reserves_def am_rewards_def)

lemma am_inv_drift:
  assumes inv: "am_inv bal self w t s" and "am_drift bal self s s'"
  shows "am_inv bal self w t s'"
proof -
  obtain w' where s': "s' = s\<lparr>am_tokens := w'\<rparr>" and more: "\<And>tok. bal (am_tokens s) tok self \<le> bal w' tok self"
    using assms(2) by (auto simp: am_drift_def)
  have "bal w tok self + am_reserves tok s' + am_rewards tok s' \<le> bal (am_tokens s') tok self" for tok
    using inv more [of tok] by (simp add: am_inv_def s' am_reserves_def am_rewards_def) (meson order_trans)
  moreover have "am_pools_ok s'" "am_accounts_ok s'" "am_rewards_ok s'" "am_config_ok s'"
    using inv by (simp_all add: am_inv_def am_inv_parts s')
  ultimately show ?thesis by (simp add: am_inv_def)
qed

lemma am_inv_pool: "am_inv bal self w t s \<Longrightarrow> am_pool s i = Some p \<Longrightarrow> am_pool_ok i p"
  by (simp add: am_inv_def am_pools_ok_def)

section \<open>Every call keeps the invariant\<close>

lemma am_holding_traded:
  "token_a p \<noteq> token_b p \<Longrightarrow> am_holding tok (am_traded p a_in n out) =
     am_holding tok p + (if tok = am_in_token p a_in then n else 0) - (if tok = am_out_token p a_in then out else 0)"
  by (auto simp: am_holding_def am_traded_def am_in_token_def am_out_token_def)

lemma am_pool_ok_reserves:
  assumes "am_pool_ok i p" and "0 < am_reserve_out p a_in"
  shows "0 < am_reserve_in p a_in" and "0 < lp_total_supply p"
  using assms by (auto simp: am_pool_ok_def am_reserve_in_def am_reserve_out_def split: if_splits)

lemma am_pool_ok_traded:
  assumes "am_pool_ok i p" and "out < am_reserve_out p a_in" "0 \<le> out" "0 \<le> n"
    and "in_i128 (am_reserve_in p a_in + n)" "in_i128 (am_reserve_out p a_in - out)"
  shows "am_pool_ok i (am_traded p a_in n out)"
  using assms by (auto simp: am_pool_ok_def am_traded_def am_reserve_in_def am_reserve_out_def split: if_splits)

lemma am_inv_trade:
  assumes inv: "am_inv bal self w t s" and p: "am_pool s i = Some p"
    and trade: "out < am_reserve_out p a_in" "0 \<le> out" "0 \<le> n"
      "in_i128 (am_reserve_in p a_in + n)" "in_i128 (am_reserve_out p a_in - out)"
    and s': "s' = s\<lparr>am_tokens := w', am_pool := (am_pool s)(pool_id p \<mapsto> am_traded p a_in n out)\<rparr>"
    and moved: "\<And>tok. bal (am_tokens s) tok self + (if tok = am_in_token p a_in then n else 0)
      - (if tok = am_out_token p a_in then out else 0) \<le> bal w' tok self"
  shows "am_inv bal self w t s'"
proof -
  have ok: "am_pool_ok i p" by (rule am_inv_pool [OF inv p])
  then have distinct: "token_a p \<noteq> token_b p" and i: "pool_id p = i" by (simp_all add: am_pool_ok_def)
  show ?thesis
  proof (rule am_inv_pool_change [OF inv p])
    show "am_pool s' = (am_pool s)(i \<mapsto> am_traded p a_in n out)" by (simp add: s' i)
    show "am_pool_ok i (am_traded p a_in n out)" by (rule am_pool_ok_traded [OF ok trade])
    show "bal (am_tokens s) tok self + am_holding tok (am_traded p a_in n out) + am_rewards tok s' \<le>
        bal (am_tokens s') tok self + am_holding tok p + am_rewards tok s" for tok
      using moved [of tok] by (simp add: am_holding_traded [OF distinct] s' am_rewards_def)
  qed (use inv p in \<open>simp_all add: s' am_inv_def am_inv_parts\<close>)
qed

lemma am_inv_share: "am_inv bal self w t s \<Longrightarrow> am_get_protocol_fee_share_bps s \<le> 10000"
  by (simp add: am_inv_def am_config_ok_def MAX_PROTOCOL_FEE_SHARE_BPS_def)

context token_contract
begin

lemma am_fee_debit:
  assumes "am_fee_paid transfer e tok fee c w w'"
  shows "balance w t x - (if t = tok \<and> 0 < fee then fee else 0) \<le> balance w' t x"
  using assms balance_src_ge [of e tok "env_self e" "the c" fee w w' t x]
  by (auto simp: am_fee_paid_def split: if_splits)

lemma am_inv_swap_internal:
  assumes inv: "am_inv balance (env_self e) w t s" and u: "u \<noteq> env_self e"
    and run: "am_swap_internal transfer e u i tin x m collect s = Inr (out, s')"
  shows "am_inv balance (env_self e) w t s'"
  using run
proof (cases rule: am_swap_internal_Inr)
  case (1 p a_in w1 w2 w3 pf)
  have fee: "fee_bps p \<le> 10000" using am_inv_pool [OF inv 1(1)] by (simp add: am_pool_ok_def MAX_FEE_BPS_def)
  have pf: "0 \<le> pf" "pf \<le> x"
    using am_protocol_fee_bounds(1,3) [of x "am_get_protocol_fee_share_bps s" "fee_bps p"] 1(3,9) am_inv_share [OF inv] fee by auto
  have out: "out < am_reserve_out p a_in"
    using am_swap_keeps_product(3) [OF get_amount_out_Inr [OF 1(6,3,4,5) fee] 1(3,4,5) am_inv_share [OF inv] fee] .
  show ?thesis
  proof (rule am_inv_trade [OF inv 1(1) out _ _ 1(13,14,15)])
    fix tok
    have "balance w1 tok (env_self e) = balance (am_tokens s) tok (env_self e) + (if tok = tin then x else 0)"
      using transfer_moves [OF 1(10)] u by simp
    moreover have "balance w1 tok (env_self e) - (if tok = tin \<and> 0 < pf then pf else 0) \<le> balance w2 tok (env_self e)"
      by (rule am_fee_debit [OF 1(11)])
    moreover have "balance w2 tok (env_self e) - (if tok = am_out_token p a_in then out else 0) \<le> balance w3 tok (env_self e)"
      by (rule balance_src_ge [OF 1(12)])
    ultimately show "balance (am_tokens s) tok (env_self e) + (if tok = am_in_token p a_in then x - pf else 0)
        - (if tok = am_out_token p a_in then out else 0) \<le> balance w3 tok (env_self e)"
      using pf(1) 1(2) by (auto split: if_splits)
  qed (use 1(8) pf in auto)
qed

lemma am_inv_flash_guarded:
  assumes inv: "am_inv balance (env_self e) w t s" and u: "u \<noteq> env_self e"
    and run: "am_flash_swap_guarded transfer e u i tout out tin m s = Inr (x, s')"
  shows "am_inv balance (env_self e) w t s'"
  using run
proof (cases rule: am_flash_guarded_Inr)
  case (1 p a_in w1 w2 w3 pf)
  have fee: "fee_bps p < 10000" using am_inv_pool [OF inv 1(1)] by (simp add: am_pool_ok_def MAX_FEE_BPS_def)
  note gin = get_amount_in_Inr [OF 1(4) fee]
  have "pf = am_protocol_fee x (fee_bps p) (am_get_protocol_fee_share_bps s)"
    using 1(6) gin(4) by (simp add: am_protocol_fee_eq)
  then have pf: "0 \<le> pf" "pf \<le> x"
    using am_protocol_fee_bounds(1,3) [of x "am_get_protocol_fee_share_bps s" "fee_bps p"] gin(4) am_inv_share [OF inv] fee by auto
  show ?thesis
  proof (rule am_inv_trade [OF inv 1(1) gin(3) _ _ 1(10,11,12)])
    fix tok
    have "balance (am_tokens s) tok (env_self e) - (if tok = tout then out else 0) \<le> balance w1 tok (env_self e)"
      by (rule balance_src_ge [OF 1(7)])
    moreover have "balance w2 tok (env_self e) = balance w1 tok (env_self e) + (if tok = tin then x else 0)"
      using transfer_moves [OF 1(8)] u by simp
    moreover have "balance w2 tok (env_self e) - (if tok = tin \<and> 0 < pf then pf else 0) \<le> balance w3 tok (env_self e)"
      by (rule am_fee_debit [OF 1(9)])
    ultimately show "balance (am_tokens s) tok (env_self e) + (if tok = am_in_token p a_in then x - pf else 0)
        - (if tok = am_out_token p a_in then out else 0) \<le> balance w3 tok (env_self e)"
      using pf(1) 1(2,3) by (auto split: if_splits)
  qed (use gin(1) pf in auto)
qed

end

lemma am_add_internal_Inr:
  assumes "am_add_liquidity_internal tr e a i x y s = Inr (l, s')"
  obtains p w1 w2 where "am_pool s i = Some p" "0 < x" "0 < y" "am_lp_to_mint p x y = Inr l"
    "am_get_min_lp_token_threshold s \<le> l" "0 < l"
    "tr e (token_a p) a (env_self e) x (am_tokens s) = Some w1" "tr e (token_b p) a (env_self e) y w1 = Some w2"
    "in_i128 (reserve_a p + x)" "in_i128 (reserve_b p + y)" "in_i128 (lp_total_supply p + l)" "in_i128 (am_get_lp_balance i a s + l)"
    "s' = am_set_lp_balance i a (am_get_lp_balance i a s + l)
       (am_set_pool (p\<lparr>reserve_a := reserve_a p + x, reserve_b := reserve_b p + y, lp_total_supply := lp_total_supply p + l\<rparr>)
         (s\<lparr>am_tokens := w2\<rparr>))"
proof -
  from assms obtain p l' s1 s2 ra rb n k where st: "\<not> (x \<le> 0 \<or> y \<le> 0)" "am_get_pool i s = Inr p"
      "am_lp_to_mint p x y = Inr l'" "\<not> l' < am_get_min_lp_token_threshold s" "\<not> l' \<le> 0"
      "am_transfer tr e (token_a p) a (env_self e) x s = Inr s1" "am_transfer tr e (token_b p) a (env_self e) y s1 = Inr s2"
      "am_add (reserve_a p) x = Inr ra" "am_add (reserve_b p) y = Inr rb" "am_add (lp_total_supply p) l' = Inr n"
      "am_add (am_get_lp_balance i a (am_set_pool (p\<lparr>reserve_a := ra, reserve_b := rb, lp_total_supply := n\<rparr>) s2)) l' = Inr k"
      "l' = l" "am_set_lp_balance i a k (am_set_pool (p\<lparr>reserve_a := ra, reserve_b := rb, lp_total_supply := n\<rparr>) s2) = s'"
    unfolding am_add_liquidity_internal_def Let_def and_then_eq_Inr panic_if_eq_Inr sum.inject prod.inject
    by (elim exE conjE) (rule that)
  from st(6,7) obtain w1 w2 where w: "tr e (token_a p) a (env_self e) x (am_tokens s) = Some w1"
      "tr e (token_b p) a (env_self e) y w1 = Some w2" "s2 = s\<lparr>am_tokens := w2\<rparr>"
    by (auto simp: result_iffs)
  have lp: "am_get_lp_balance i a (am_set_pool q (s\<lparr>am_tokens := w\<rparr>)) = am_get_lp_balance i a s" for q w
    by (simp add: am_get_lp_balance_def am_set_pool_def)
  show thesis
    using st(1-5,8-13) w by (intro that [of p w1 w2]) (auto simp: result_iffs lp)
qed

lemma am_remove_internal_Inr:
  assumes "am_remove_liquidity_internal tr e a i l s = Inr (r, s')"
  obtains p x y w1 w2 where "am_pool s i = Some p" "r = (x, y)" "0 < l" "l \<le> am_get_lp_balance i a s" "0 < lp_total_supply p"
    "x = div_i128 (l * reserve_a p) (lp_total_supply p)" "y = div_i128 (l * reserve_b p) (lp_total_supply p)" "0 < x" "0 < y"
    "in_i128 (reserve_a p - x)" "in_i128 (reserve_b p - y)" "in_i128 (lp_total_supply p - l)" "in_i128 (am_get_lp_balance i a s - l)"
    "tr e (token_a p) (env_self e) a x (am_tokens s) = Some w1" "tr e (token_b p) (env_self e) a y w1 = Some w2"
    "s' = (am_set_lp_balance i a (am_get_lp_balance i a s - l)
       (am_set_pool (p\<lparr>reserve_a := reserve_a p - x, reserve_b := reserve_b p - y, lp_total_supply := lp_total_supply p - l\<rparr>) s))
         \<lparr>am_tokens := w2\<rparr>"
proof -
  from assms obtain p k na x nb y ra rb n s1 s2 where st: "\<not> l \<le> 0" "\<not> am_get_lp_balance i a s < l" "am_get_pool i s = Inr p"
      "\<not> lp_total_supply p \<le> 0" "am_sub (am_get_lp_balance i a s) l = Inr k"
      "\<not> (0 < k \<and> k < am_get_min_lp_token_threshold s)"
      "am_mul l (reserve_a p) = Inr na" "floor_div na (lp_total_supply p) = Inr x"
      "am_mul l (reserve_b p) = Inr nb" "floor_div nb (lp_total_supply p) = Inr y" "\<not> (x \<le> 0 \<or> y \<le> 0)"
      "am_sub (reserve_a p) x = Inr ra" "am_sub (reserve_b p) y = Inr rb" "am_sub (lp_total_supply p) l = Inr n"
      "am_transfer tr e (token_a p) (env_self e) a x
         (am_set_lp_balance i a k (am_set_pool (p\<lparr>reserve_a := ra, reserve_b := rb, lp_total_supply := n\<rparr>) s)) = Inr s1"
      "am_transfer tr e (token_b p) (env_self e) a y s1 = Inr s2" "(x, y) = r" "s2 = s'"
    unfolding am_remove_liquidity_internal_def Let_def and_then_eq_Inr panic_if_eq_Inr sum.inject prod.inject [of _ _ r]
    by (elim exE conjE) (rule that)
  from st(15,16) obtain w1 w2 where w: "tr e (token_a p) (env_self e) a x (am_tokens s) = Some w1"
      "tr e (token_b p) (env_self e) a y w1 = Some w2"
      "s2 = (am_set_lp_balance i a k (am_set_pool (p\<lparr>reserve_a := ra, reserve_b := rb, lp_total_supply := n\<rparr>) s))\<lparr>am_tokens := w2\<rparr>"
    by (auto simp: result_iffs am_set_lp_balance_def am_set_pool_def)
  show thesis
    using st(1-14,17,18) w by (intro that [of p x y w1 w2]) (auto simp: result_iffs)
qed

lemma am_set_simps [simp]:
  "am_pool (am_set_lp_balance i a n s) = am_pool s" "am_tokens (am_set_lp_balance i a n s) = am_tokens s"
  "am_lp_reward (am_set_lp_balance i a n s) = am_lp_reward s"
  "am_get_pool_counter (am_set_lp_balance i a n s) = am_get_pool_counter s"
  "am_config_ok (am_set_lp_balance i a n s) = am_config_ok s" "am_rewards_ok (am_set_lp_balance i a n s) = am_rewards_ok s"
  "am_pool (am_set_pool p s) = (am_pool s)(pool_id p \<mapsto> p)" "am_tokens (am_set_pool p s) = am_tokens s"
  "am_lp_balance (am_set_pool p s) = am_lp_balance s" "am_lp_reward (am_set_pool p s) = am_lp_reward s"
  "am_get_pool_counter (am_set_pool p s) = am_get_pool_counter s" "am_get_lp_balance i a (am_set_pool p s) = am_get_lp_balance i a s"
  "am_config_ok (am_set_pool p s) = am_config_ok s" "am_rewards_ok (am_set_pool p s) = am_rewards_ok s"
  "am_lp_shares j (am_set_pool p s) = am_lp_shares j s"
  "am_pool (am_set_lp_reward_balance i tok n s) = am_pool s" "am_tokens (am_set_lp_reward_balance i tok n s) = am_tokens s"
  "am_lp_balance (am_set_lp_reward_balance i tok n s) = am_lp_balance s"
  "am_get_pool_counter (am_set_lp_reward_balance i tok n s) = am_get_pool_counter s"
  "am_config_ok (am_set_lp_reward_balance i tok n s) = am_config_ok s"
  "am_accounts_ok (am_set_lp_reward_balance i tok n s) = am_accounts_ok s"
  "am_lp_shares j (am_set_lp_reward_balance i tok n s) = am_lp_shares j s"
  by (simp_all add: am_set_lp_balance_def am_set_pool_def am_set_lp_reward_balance_def am_inv_parts am_get_lp_balance_def)

lemma am_tokens_simps [simp]:
  "am_get_pool_counter (s\<lparr>am_tokens := w\<rparr>) = am_get_pool_counter s" "am_get_lp_balance i a (s\<lparr>am_tokens := w\<rparr>) = am_get_lp_balance i a s"
  "am_config_ok (s\<lparr>am_tokens := w\<rparr>) = am_config_ok s" "am_rewards_ok (s\<lparr>am_tokens := w\<rparr>) = am_rewards_ok s"
  "am_accounts_ok (s\<lparr>am_tokens := w\<rparr>) = am_accounts_ok s"
  "am_lp_shares j (s\<lparr>am_tokens := w\<rparr>) = am_lp_shares j s" "am_rewards tok (s\<lparr>am_tokens := w\<rparr>) = am_rewards tok s"
  "am_get_lp_reward_balance i tok (s\<lparr>am_tokens := w\<rparr>) = am_get_lp_reward_balance i tok s"
  by (simp_all add: am_inv_parts am_get_lp_balance_def am_rewards_def am_get_lp_reward_balance_def)

lemma am_accounts_set:
  "am_accounts_ok s \<Longrightarrow> 0 \<le> n \<Longrightarrow> in_i128 n \<Longrightarrow> i < am_get_pool_counter s \<Longrightarrow> am_accounts_ok (am_set_lp_balance i a n s)"
  by (auto simp: am_accounts_ok_def am_set_lp_balance_def am_get_pool_counter_def)

lemma am_rewards_ok_set: "am_rewards_ok s \<Longrightarrow> 0 \<le> n \<Longrightarrow> in_i128 n \<Longrightarrow> am_rewards_ok (am_set_lp_reward_balance i tok n s)"
  by (auto simp: am_rewards_ok_def am_set_lp_reward_balance_def)

lemma am_lp_nonneg: "am_accounts_ok s \<Longrightarrow> 0 \<le> am_get_lp_balance i a s"
  by (cases "am_lp_balance s (i, a)") (auto simp: am_accounts_ok_def am_get_lp_balance_def)

lemma am_lp_le_shares:
  assumes "am_accounts_ok s"
  shows "am_get_lp_balance i a s \<le> am_lp_shares i s"
proof (cases "am_lp_balance s (i, a)")
  case None
  then show ?thesis using assms
    by (auto simp: am_get_lp_balance_def am_lp_shares_def am_accounts_ok_def intro!: entry_sum_nonneg)
next
  case (Some n)
  have "id n \<le> entry_sum id (\<lambda>a. am_lp_balance s (i, a))"
    by (rule entry_sum_ge_entry [where k = a]) (use assms Some in \<open>auto simp: am_accounts_ok_def intro: finite_dom_fst\<close>)
  then show ?thesis by (simp add: Some am_get_lp_balance_def am_lp_shares_def)
qed

lemma am_rewards_set_lp [simp]:
  "am_rewards tok (am_set_lp_balance i a n s) = am_rewards tok s" "am_rewards tok (am_set_pool p s) = am_rewards tok s"
  by (simp_all add: am_rewards_def am_set_lp_balance_def am_set_pool_def)

lemma am_inv_accounts: "am_inv bal self w t s \<Longrightarrow> am_accounts_ok s"
  by (simp add: am_inv_def)

lemma am_inv_supply: "am_inv bal self w t s \<Longrightarrow> am_pool s i = Some p \<Longrightarrow> lp_total_supply p = am_lp_shares i s"
  by (simp add: am_inv_def am_pools_ok_def)

lemma am_inv_counter: "am_inv bal self w t s \<Longrightarrow> am_pool s i = Some p \<Longrightarrow> i < am_get_pool_counter s"
  by (auto simp: am_inv_def am_pools_ok_def)

text \<open>Shares of one provider change by as much as the supply, and the reserves by as much as the holdings.\<close>

lemma am_inv_liquidity:
  assumes inv: "am_inv bal self w t s" and p: "am_pool s i = Some p"
    and p': "p' = p\<lparr>reserve_a := reserve_a p + x, reserve_b := reserve_b p + y, lp_total_supply := lp_total_supply p + l\<rparr>"
    and ok: "am_pool_ok i p'" and lp: "0 \<le> am_get_lp_balance i a s + l" "in_i128 (am_get_lp_balance i a s + l)"
    and s': "am_pool s' = (am_pool s)(i \<mapsto> p')" "am_lp_balance s' = am_lp_balance (am_set_lp_balance i a (am_get_lp_balance i a s + l) s)"
      "am_lp_reward s' = am_lp_reward s" "am_get_pool_counter s' = am_get_pool_counter s" "am_config_ok s'"
    and moved: "\<And>tok. bal (am_tokens s) tok self + (if tok = token_a p then x else 0) + (if tok = token_b p then y else 0)
      \<le> bal (am_tokens s') tok self"
  shows "am_inv bal self w t s'"
proof -
  have acc: "am_accounts_ok s" "finite (dom (am_lp_balance s))" using inv by (simp_all add: am_inv_def am_accounts_ok_def)
  have shares: "am_lp_shares j s' = (if j = i then am_lp_shares i s + l else am_lp_shares j s)" for j
    using am_lp_shares_set [OF acc(2), of j i a] by (simp add: am_lp_shares_def s'(2))
  have "am_accounts_ok (am_set_lp_balance i a (am_get_lp_balance i a s + l) s)"
    by (rule am_accounts_set [OF acc(1) lp am_inv_counter [OF inv p]])
  then have acc': "am_accounts_ok s'" by (simp add: am_accounts_ok_def s'(2,4))
  show ?thesis
  proof (rule am_inv_pool_change [OF inv p s'(1,4) ok])
    show "lp_total_supply p' = am_lp_shares i s'" by (simp add: p' shares am_inv_supply [OF inv p])
    show "bal (am_tokens s) tok self + am_holding tok p' + am_rewards tok s' \<le>
        bal (am_tokens s') tok self + am_holding tok p + am_rewards tok s" for tok
      using moved [of tok] by (simp add: p' am_holding_def am_rewards_def s'(3) split: if_splits)
    show "am_rewards_ok s'" using inv by (simp add: am_inv_def am_rewards_ok_def s'(3))
  qed (use acc' s'(5) in \<open>simp_all add: shares\<close>)
qed

lemma am_share_bounds:
  fixes l r S :: int
  assumes "0 < l" "l \<le> S" "0 < r"
  shows "0 \<le> l * r div S" "l * r div S \<le> r" "l < S \<Longrightarrow> l * r div S < r" "l = S \<Longrightarrow> l * r div S = r"
proof -
  have S: "0 < S" using assms by simp
  have b: "0 \<le> r * l div S \<and> r * l div S \<le> r" by (rule div_fraction_bounds) (use assms S in auto)
  then show "0 \<le> l * r div S" "l * r div S \<le> r" by (simp_all add: mult.commute)
  show "l = S \<Longrightarrow> l * r div S = r" using S by simp
  show "l * r div S < r" if "l < S"
  proof -
    have "\<not> r * S \<le> l * r" using that assms(3) by (simp add: mult.commute [of l])
    then show ?thesis using div_greatest [OF S, of r "l * r"] by linarith
  qed
qed

lemma am_pool_ok_withdrawn:
  assumes ok: "am_pool_ok i p" and "0 < l" "l \<le> lp_total_supply p" "0 < lp_total_supply p"
    and fits: "in_i128 (reserve_a p - l * reserve_a p div lp_total_supply p)" "in_i128 (reserve_b p - l * reserve_b p div lp_total_supply p)"
      "in_i128 (lp_total_supply p - l)"
  shows "am_pool_ok i (p\<lparr>reserve_a := reserve_a p - l * reserve_a p div lp_total_supply p,
    reserve_b := reserve_b p - l * reserve_b p div lp_total_supply p, lp_total_supply := lp_total_supply p - l\<rparr>)"
proof -
  have pos: "0 < reserve_a p" "0 < reserve_b p" using ok assms(4) by (auto simp: am_pool_ok_def)
  show ?thesis
    using ok fits am_share_bounds(3,4) [OF assms(2,3) pos(1)] am_share_bounds(3,4) [OF assms(2,3) pos(2)] assms(3)
    by (cases "l = lp_total_supply p") (simp_all add: am_pool_ok_def)
qed

context token_contract
begin

lemma am_inv_add_internal:
  assumes inv: "am_inv balance (env_self e) w t s" and a: "a \<noteq> env_self e"
    and run: "am_add_liquidity_internal transfer e a i x y s = Inr (l, s')"
  shows "am_inv balance (env_self e) w t s'"
  using run
proof (cases rule: am_add_internal_Inr)
  case (1 p w1 w2)
  have ok: "am_pool_ok i p" by (rule am_inv_pool [OF inv 1(1)])
  let ?p = "p\<lparr>reserve_a := reserve_a p + x, reserve_b := reserve_b p + y, lp_total_supply := lp_total_supply p + l\<rparr>"
  show ?thesis
  proof (rule am_inv_liquidity [OF inv 1(1) refl _ _ 1(12)])
    show "am_pool_ok i ?p" using ok 1(2,3,6,9-11) by (auto simp: am_pool_ok_def)
    show "0 \<le> am_get_lp_balance i a s + l" using am_lp_nonneg [OF am_inv_accounts [OF inv], of i a] 1(6) by simp
    fix tok
    have "balance w1 tok (env_self e) = balance (am_tokens s) tok (env_self e) + (if tok = token_a p then x else 0)"
      "balance w2 tok (env_self e) = balance w1 tok (env_self e) + (if tok = token_b p then y else 0)"
      using transfer_moves [OF 1(7)] transfer_moves [OF 1(8)] a by simp_all
    then show "balance (am_tokens s) tok (env_self e) + (if tok = token_a p then x else 0) + (if tok = token_b p then y else 0)
        \<le> balance (am_tokens s') tok (env_self e)" by (simp add: 1(13))
  qed (use ok inv in \<open>simp_all add: 1(13) am_inv_def am_pool_ok_def am_set_lp_balance_def am_set_pool_def\<close>,
       use inv in \<open>simp_all add: am_inv_def am_inv_parts\<close>)
qed

lemma am_inv_remove_internal:
  assumes inv: "am_inv balance (env_self e) w t s"
    and run: "am_remove_liquidity_internal transfer e a i l s = Inr (r, s')"
  shows "am_inv balance (env_self e) w t s'"
  using run
proof (cases rule: am_remove_internal_Inr)
  case (1 p x y w1 w2)
  have ok: "am_pool_ok i p" by (rule am_inv_pool [OF inv 1(1)])
  have pos: "0 < reserve_a p" "0 < reserve_b p" using ok 1(5) by (auto simp: am_pool_ok_def)
  have xy: "x = l * reserve_a p div lp_total_supply p" "y = l * reserve_b p div lp_total_supply p"
    using 1(3,5-7) pos by (simp_all add: div_i128_nonneg)
  have l: "l \<le> lp_total_supply p"
    using 1(4) am_lp_le_shares [OF am_inv_accounts [OF inv], of i a] am_inv_supply [OF inv 1(1)] by linarith
  let ?p = "p\<lparr>reserve_a := reserve_a p + - x, reserve_b := reserve_b p + - y, lp_total_supply := lp_total_supply p + - l\<rparr>"
  show ?thesis
  proof (rule am_inv_liquidity [where l = "- l" and x = "- x" and y = "- y" and a = a, OF inv 1(1) refl])
    show "am_pool_ok i ?p" using am_pool_ok_withdrawn [OF ok 1(3) l 1(5)] 1(10-12) by (simp add: xy)
    show "0 \<le> am_get_lp_balance i a s + - l" "in_i128 (am_get_lp_balance i a s + - l)" using 1(4,13) by simp_all
    fix tok
    have "balance (am_tokens s) tok (env_self e) - (if tok = token_a p then x else 0) \<le> balance w1 tok (env_self e)"
      "balance w1 tok (env_self e) - (if tok = token_b p then y else 0) \<le> balance w2 tok (env_self e)"
      by (rule balance_src_ge [OF 1(14)], rule balance_src_ge [OF 1(15)])
    then show "balance (am_tokens s) tok (env_self e) + (if tok = token_a p then - x else 0) + (if tok = token_b p then - y else 0)
        \<le> balance (am_tokens s') tok (env_self e)" by (auto simp: 1(16) split: if_splits)
  qed (use ok inv in \<open>simp_all add: 1(16) am_inv_def am_pool_ok_def am_set_lp_balance_def am_set_pool_def\<close>,
       use inv in \<open>simp_all add: am_inv_def am_inv_parts\<close>)
qed

end

lemma am_inv_reward_change:
  assumes inv: "am_inv bal self w t s" and p: "am_pool s j = Some p" and n: "0 \<le> n" "in_i128 n"
    and moved: "\<And>t. bal (am_tokens s) t self + (if t = tok then n - am_get_lp_reward_balance i tok s else 0) \<le> bal w' t self"
  shows "am_inv bal self w t (am_set_lp_reward_balance i tok n (s\<lparr>am_tokens := w'\<rparr>))"
proof -
  have fin: "finite (dom (am_lp_reward s))" "am_rewards_ok s" using inv by (auto simp: am_inv_def am_rewards_ok_def)
  show ?thesis
  proof (rule am_inv_pool_change [OF inv p, of _ p])
    show "am_pool (am_set_lp_reward_balance i tok n (s\<lparr>am_tokens := w'\<rparr>)) = (am_pool s)(j \<mapsto> p)" by (simp add: p fun_upd_idem)
    show "bal (am_tokens s) ta self + am_holding ta p + am_rewards ta (am_set_lp_reward_balance i tok n (s\<lparr>am_tokens := w'\<rparr>))
        \<le> bal (am_tokens (am_set_lp_reward_balance i tok n (s\<lparr>am_tokens := w'\<rparr>))) ta self + am_holding ta p + am_rewards ta s" for ta
      using moved [of ta] am_rewards_set [of "s\<lparr>am_tokens := w'\<rparr>" ta i tok n] fin(1) by (cases "ta = tok") simp_all
    show "am_rewards_ok (am_set_lp_reward_balance i tok n (s\<lparr>am_tokens := w'\<rparr>))"
      by (rule am_rewards_ok_set) (use fin(2) n in simp_all)
  qed (use inv am_inv_pool [OF inv p] am_inv_supply [OF inv p] in \<open>simp_all add: am_inv_def\<close>)
qed

lemma am_reward_nonneg: "am_rewards_ok s \<Longrightarrow> 0 \<le> am_get_lp_reward_balance i tok s"
  by (cases "am_lp_reward s (i, tok)") (auto simp: am_rewards_ok_def am_get_lp_reward_balance_def)

lemma am_reward_other [simp]:
  "tok' \<noteq> tok \<Longrightarrow> am_get_lp_reward_balance i tok' (am_set_lp_reward_balance i tok n s) = am_get_lp_reward_balance i tok' s"
  by (simp add: am_get_lp_reward_balance_def am_set_lp_reward_balance_def)

lemma am_pay_reward_Inr:
  assumes "am_pay_reward tr e a i tok reward share s = Inr s'"
  obtains "share \<le> 0" "s' = s"
    | w where "0 < share" "tr e tok (env_self e) a share (am_tokens s) = Some w" "in_i128 (reward - share)"
      "s' = am_set_lp_reward_balance i tok (reward - share) (s\<lparr>am_tokens := w\<rparr>)"
  using assms by (auto simp: am_pay_reward_def result_iffs split: if_splits)

context token_contract
begin

lemma am_inv_pay_reward:
  assumes inv: "am_inv balance (env_self e) w t s" and p: "am_pool s i = Some p"
    and reward: "reward = am_get_lp_reward_balance i tok s" "share \<le> reward"
    and run: "am_pay_reward transfer e a i tok reward share s = Inr s'"
  shows "am_inv balance (env_self e) w t s' \<and> am_pool s' = am_pool s \<and>
    (\<forall>tok'. tok' \<noteq> tok \<longrightarrow> am_get_lp_reward_balance i tok' s' = am_get_lp_reward_balance i tok' s)"
  using run
proof (cases rule: am_pay_reward_Inr)
  case 1
  with inv show ?thesis by simp
next
  case (2 w')
  have "am_inv balance (env_self e) w t (am_set_lp_reward_balance i tok (reward - share) (s\<lparr>am_tokens := w'\<rparr>))"
  proof (rule am_inv_reward_change [OF inv p])
    fix ta
    show "balance (am_tokens s) ta (env_self e) + (if ta = tok then reward - share - am_get_lp_reward_balance i tok s else 0)
        \<le> balance w' ta (env_self e)"
      using balance_src_ge [OF 2(2), of ta "env_self e"] reward by (auto split: if_splits)
  qed (use 2(3) reward in auto)
  then show ?thesis by (simp add: 2(4))
qed

lemma am_inv_deposit_rewards:
  assumes inv: "am_inv balance (env_self e) w t s" and self: "\<not> env_auth e (env_self e)"
    and run: "am_deposit_lp_rewards transfer e a i tok n s = Inr ((), s')"
  shows "am_inv balance (env_self e) w t s'"
proof -
  from run obtain p w' where p: "am_pool s i = Some p" and a: "env_auth e a" "0 < n" and
      tr: "transfer e tok a (env_self e) n (am_tokens s) = Some w'" and fits: "in_i128 (am_get_lp_reward_balance i tok s + n)" and
      s': "s' = am_set_lp_reward_balance i tok (am_get_lp_reward_balance i tok s + n) (s\<lparr>am_tokens := w'\<rparr>)"
    by (auto simp: am_deposit_lp_rewards_def result_iffs Let_def)
  have "a \<noteq> env_self e" using self a(1) by blast
  have "0 \<le> am_get_lp_reward_balance i tok s" by (rule am_reward_nonneg) (use inv in \<open>simp add: am_inv_def\<close>)
  then show ?thesis
    unfolding s' using a(2) fits transfer_moves [OF tr] \<open>a \<noteq> env_self e\<close>
    by (intro am_inv_reward_change [OF inv p]) auto
qed

end

lemma am_claim_Inr:
  assumes "am_claim_lp_rewards tr e a i s = Inr (r, s')"
  obtains p xa xb s1 s2 where "env_auth e a" "am_pool s i = Some p" "0 < am_get_lp_balance i a s" "0 < lp_total_supply p"
    "r = (xa, xb)" "0 < xa \<or> 0 < xb"
    "xa = div_i128 (am_get_lp_reward_balance i (token_a p) s * am_get_lp_balance i a s) (lp_total_supply p)"
    "xb = div_i128 (am_get_lp_reward_balance i (token_b p) s * am_get_lp_balance i a s) (lp_total_supply p)"
    "am_pay_reward tr e a i (token_a p) (am_get_lp_reward_balance i (token_a p) s) xa (s\<lparr>am_reentrancy_lock := Some True\<rparr>) = Inr s1"
    "am_pay_reward tr e a i (token_b p) (am_get_lp_reward_balance i (token_b p) s) xb s1 = Inr s2"
    "s' = s2\<lparr>am_reentrancy_lock := Some False\<rparr>"
proof -
  define s0 where "s0 = s\<lparr>am_reentrancy_lock := Some True\<rparr>"
  have s0: "am_get_lp_balance i a s0 = am_get_lp_balance i a s" "\<And>tok. am_get_lp_reward_balance i tok s0 = am_get_lp_reward_balance i tok s"
      "am_pool s0 = am_pool s"
    by (simp_all add: s0_def am_get_lp_balance_def am_get_lp_reward_balance_def)
  from assms obtain s2 where auth: "env_auth e a" and s': "s' = s2\<lparr>am_reentrancy_lock := Some False\<rparr>" and
    body: "and_then (am_get_pool i s0) (\<lambda>p.
       let lp_balance = am_get_lp_balance i a s0 in
       and_then (panic_if (lp_balance \<le> 0 \<or> lp_total_supply p \<le> 0) AmNoLpTokens) (\<lambda>_.
       let reward_a = am_get_lp_reward_balance i (token_a p) s0;
           reward_b = am_get_lp_reward_balance i (token_b p) s0 in
       and_then (am_mul reward_a lp_balance) (\<lambda>na.
       and_then (floor_div na (lp_total_supply p)) (\<lambda>share_a.
       and_then (am_mul reward_b lp_balance) (\<lambda>nb.
       and_then (floor_div nb (lp_total_supply p)) (\<lambda>share_b.
       and_then (panic_if (share_a \<le> 0 \<and> share_b \<le> 0) AmNoRewards) (\<lambda>_.
       and_then (am_pay_reward tr e a i (token_a p) reward_a share_a s0) (\<lambda>s.
       and_then (am_pay_reward tr e a i (token_b p) reward_b share_b s) (\<lambda>s.
       Inr ((share_a, share_b), s)))))))))) = Inr (r, s2)"
    unfolding am_claim_lp_rewards_def am_guard_Inr and_then_eq_Inr require_auth_eq_Inr s0_def by blast
  from body obtain p na xa nb xb s1 where st: "am_get_pool i s0 = Inr p" "\<not> (am_get_lp_balance i a s0 \<le> 0 \<or> lp_total_supply p \<le> 0)"
      "am_mul (am_get_lp_reward_balance i (token_a p) s0) (am_get_lp_balance i a s0) = Inr na" "floor_div na (lp_total_supply p) = Inr xa"
      "am_mul (am_get_lp_reward_balance i (token_b p) s0) (am_get_lp_balance i a s0) = Inr nb" "floor_div nb (lp_total_supply p) = Inr xb"
      "\<not> (xa \<le> 0 \<and> xb \<le> 0)"
      "am_pay_reward tr e a i (token_a p) (am_get_lp_reward_balance i (token_a p) s0) xa s0 = Inr s1"
      "am_pay_reward tr e a i (token_b p) (am_get_lp_reward_balance i (token_b p) s0) xb s1 = Inr s2" "(xa, xb) = r"
    unfolding Let_def and_then_eq_Inr panic_if_eq_Inr sum.inject prod.inject [of _ _ r]
    by (elim exE conjE) (rule that; simp)
  show thesis
    by (rule that [of p xa xb s1 s2])
       (use auth st s' in \<open>auto simp: s0 result_iffs simp flip: s0_def\<close>)
qed

text \<open>The lock, the breaker and other controls do not touch what the invariant speaks about.\<close>

lemma am_inv_controls [simp]:
  "am_inv bal self w t (s\<lparr>am_reentrancy_lock := l\<rparr>) = am_inv bal self w t s"
  "am_inv bal self w t (s\<lparr>am_circuit_breaker := b\<rparr>) = am_inv bal self w t s"
  "am_inv bal self w t (s\<lparr>am_trading_paused := b'\<rparr>) = am_inv bal self w t s"
  "am_inv bal self w t (s\<lparr>am_risk_params := r\<rparr>) = am_inv bal self w t s"
  by (simp_all add: am_inv_def am_inv_parts am_reserves_def am_rewards_def)

lemma am_guard_keeps:
  assumes "am_with_reentrancy_guard f s = Inr (r, s')" and "am_inv bal self w t s"
    and "\<And>s1 s2. am_inv bal self w t s1 \<Longrightarrow> f s1 = Inr (r, s2) \<Longrightarrow> am_inv bal self w t s2"
  shows "am_inv bal self w t s'"
proof -
  from assms(1) obtain s2 where "f (s\<lparr>am_reentrancy_lock := Some True\<rparr>) = Inr (r, s2)" "s' = s2\<lparr>am_reentrancy_lock := Some False\<rparr>"
    by (auto simp: am_guard_Inr)
  with assms(3) [of "s\<lparr>am_reentrancy_lock := Some True\<rparr>" s2] assms(2) show ?thesis by simp
qed

lemma am_trading_keeps:
  "am_check_trading_allowed e s = Inr s' \<Longrightarrow> am_inv bal self w t s \<Longrightarrow> am_inv bal self w t s'"
  by (elim am_check_trading_Inr) simp

lemma am_inv_position:
  assumes inv: "am_inv bal self w t s" and run: "am_update_user_position e u tok n s = Inr s'"
  shows "am_inv bal self w t s'"
  by (rule am_inv_frame [OF inv])
     (use run inv in \<open>auto simp: am_update_user_position_def am_inv_def am_config_ok_def am_get_pool_counter_def
        am_get_protocol_fee_share_bps_def result_iffs split: if_splits\<close>)

lemma am_inv_initialize:
  assumes inv: "am_inv bal self w t s" and run: "am_initialize e a g s = Inr ((), s')"
  shows "am_inv bal self w t s'"
proof -
  from run have none: "rb_admin (am_roles s) = None" by (auto simp: am_initialize_def result_iffs)
  with inv have counter: "am_get_pool_counter s = 0" by (simp add: am_inv_def am_config_ok_def)
  with inv have empty: "am_pool s = (\<lambda>_. None)" "am_lp_balance s = (\<lambda>_. None)"
    by (auto simp: am_inv_def am_pools_ok_def am_accounts_ok_def fun_eq_iff)
  from run have "am_pool s' = am_pool s" "am_pool_counter s' = Some 0" "am_lp_balance s' = am_lp_balance s"
      "am_lp_reward s' = am_lp_reward s" "am_tokens s' = am_tokens s" "am_protocol_fee_share s' = Some 0"
      "am_user_position s' = am_user_position s"
    by (auto simp: am_initialize_def result_iffs Let_def split: option.splits)
  with inv show ?thesis
    by (simp add: am_inv_def am_inv_parts empty am_reserves_def am_rewards_def)
qed

lemma am_inv_create_pool:
  assumes inv: "am_inv bal self w t s" and run: "am_create_pool e a ta tb fee s = Inr (i, s')"
  shows "am_inv bal self w t s'"
proof -
  define p where "p = \<lparr>pool_id = i, token_a = ta, token_b = tb, reserve_a = 0, reserve_b = 0, lp_total_supply = 0, fee_bps = fee\<rparr>"
  from run have pre: "ta \<noteq> tb" "fee \<le> MAX_FEE_BPS" "rb_admin (am_roles s) = Some a" "i = am_get_pool_counter s" "i + 1 \<le> u64_max"
    and s': "s' = (am_set_pool p s)\<lparr>am_pool_counter := Some (i + 1)\<rparr>"
    by (auto simp: am_create_pool_def result_iffs Let_def p_def)
  have pok: "am_pools_ok s" "am_accounts_ok s" using inv by (simp_all add: am_inv_def)
  have new: "am_pool s i = None" using pok(1) pre(4) by (auto simp: am_pools_ok_def)
  have shares: "am_lp_shares j s' = am_lp_shares j s" for j by (simp add: s' am_lp_shares_def am_set_pool_def)
  have "am_lp_balance s (i, b) = None" for b
    using pok(2) pre(4) by (cases "am_lp_balance s (i, b)") (auto simp: am_accounts_ok_def)
  then have zero: "am_lp_shares i s = 0" by (simp add: am_lp_shares_def)
  have "am_pool_ok i p" using pre by (simp add: am_pool_ok_def p_def)
  then have pools: "am_pools_ok s'"
    using pok(1) zero pre(4) unfolding am_pools_ok_def shares
    by (auto simp: s' am_set_pool_def p_def am_get_pool_counter_def less_Suc_eq split: if_splits)
  have res: "am_reserves tok s' = am_reserves tok s" for tok
    unfolding am_reserves_def s' using entry_sum_upd [OF am_pools_finite [OF pok(1)], of "am_holding tok" i p]
    by (simp add: new am_set_pool_def p_def am_holding_def)
  have "am_accounts_ok s'" "am_config_ok s'"
    using inv pre by (auto simp: am_inv_def am_inv_parts s' am_set_pool_def less_Suc_eq)
  with pools res inv show ?thesis by (simp add: am_inv_def am_rewards_ok_def am_rewards_def s' am_set_pool_def)
qed

lemma am_inv_admin_calls:
  assumes inv: "am_inv bal self w t s"
  shows "am_pause_trading e a s = Inr ((), s') \<Longrightarrow> am_inv bal self w t s'"
    and "am_resume_trading e a s = Inr ((), s') \<Longrightarrow> am_inv bal self w t s'"
    and "am_set_risk_parameters e a r s = Inr ((), s') \<Longrightarrow> am_inv bal self w t s'"
    and "am_trigger_circuit_breaker e a x s = Inr ((), s') \<Longrightarrow> am_inv bal self w t s'"
    and "am_find_best_route e ti to n h s = Inr (rt, s') \<Longrightarrow> am_inv bal self w t s'"
  using inv
  by (auto simp: am_pause_trading_def am_resume_trading_def am_set_risk_parameters_def am_trigger_circuit_breaker_def
      am_find_best_route_def result_iffs Let_def intro: am_trading_keeps)

lemma am_inv_settings:
  assumes inv: "am_inv bal self w t s"
  shows "am_set_admin e a b s = Inr ((), s') \<Longrightarrow> am_inv bal self w t s'"
    and "am_set_fee_config e a c n s = Inr ((), s') \<Longrightarrow> am_inv bal self w t s'"
  by (rule am_inv_frame [OF inv];
      use inv in \<open>auto simp: am_set_admin_def am_set_fee_config_def result_iffs am_inv_def am_config_ok_def am_get_pool_counter_def
        am_get_protocol_fee_share_bps_def\<close>)+

context token_contract
begin

lemma am_inv_claim:
  assumes inv: "am_inv balance (env_self e) w t s" and run: "am_claim_lp_rewards transfer e a i s = Inr (r, s')"
  shows "am_inv balance (env_self e) w t s'"
  using run
proof (cases rule: am_claim_Inr)
  case (1 p xa xb s1 s2)
  let ?s = "s\<lparr>am_reentrancy_lock := Some True\<rparr>" and ?lp = "am_get_lp_balance i a s"
  have rw: "am_get_lp_reward_balance i tok ?s = am_get_lp_reward_balance i tok s" for tok
    by (simp add: am_get_lp_reward_balance_def)
  have pos: "0 \<le> am_get_lp_reward_balance i tok s" for tok by (rule am_reward_nonneg) (use inv in \<open>simp add: am_inv_def\<close>)
  have "?lp \<le> lp_total_supply p"
    using am_lp_le_shares [OF am_inv_accounts [OF inv], of i a] am_inv_supply [OF inv 1(2)] by simp
  then have le: "div_i128 (am_get_lp_reward_balance i tok s * ?lp) (lp_total_supply p) \<le> am_get_lp_reward_balance i tok s" for tok
    using div_fraction_bounds [of "am_get_lp_reward_balance i tok s" ?lp "lp_total_supply p"] 1(3,4) pos [of tok]
    by (simp add: div_i128_nonneg)
  have ok: "token_b p \<noteq> token_a p" using am_inv_pool [OF inv 1(2)] by (auto simp: am_pool_ok_def)
  have inv0: "am_inv balance (env_self e) w t ?s" using inv by simp
  have p0: "am_pool ?s i = Some p" using 1(2) by simp
  have s1: "am_inv balance (env_self e) w t s1" "am_pool s1 = am_pool s"
      "am_get_lp_reward_balance i (token_b p) s1 = am_get_lp_reward_balance i (token_b p) s"
    using am_inv_pay_reward [OF inv0 p0 _ _ 1(9)] le [of "token_a p"] ok by (simp_all add: rw 1(7))
  have "am_inv balance (env_self e) w t s2"
    using am_inv_pay_reward [OF s1(1) _ _ _ 1(10)] le [of "token_b p"] s1 1(2) by (simp add: 1(8))
  then show ?thesis by (simp add: 1(11))
qed

lemma am_inv_run_hops:
  assumes "am_inv balance (env_self e) w t s" and "u \<noteq> env_self e"
    and "am_run_hops transfer e u hs n tok fees s = Inr (r, s')"
  shows "am_inv balance (env_self e) w t s'"
  using assms
  by (induction hs arbitrary: n tok fees s) (auto simp: result_iffs dest: am_inv_swap_internal)

lemma am_inv_multi_hop:
  assumes inv: "am_inv balance (env_self e) w t s" and self: "\<not> env_auth e (env_self e)"
    and run: "am_execute_multi_hop_swap transfer e u r m s = Inr (n, s')"
  shows "am_inv balance (env_self e) w t s'"
proof -
  from run obtain s1 s2 s3 x tok k where st: "env_auth e u" "am_check_trading_allowed e s = Inr s1"
      "am_run_hops transfer e u (hops r) (rt_amount_in r) (rt_token_in r) 0 s1 = Inr ((x, tok, k), s2)"
      "am_update_user_position e u (rt_token_in r) (- rt_amount_in r) s2 = Inr s3"
      "am_update_user_position e u (rt_token_out r) x s3 = Inr s'"
    by (auto simp: am_execute_multi_hop_swap_def result_iffs)
  from st(1) self have "u \<noteq> env_self e" by blast
  with am_inv_run_hops [OF am_trading_keeps [OF st(2) inv] _ st(3)] st(4,5) show ?thesis
    by (auto intro: am_inv_position)
qed

lemma am_inv_call:
  assumes inv: "am_inv balance self w (env_timestamp e) s" and adm: "am_adm self e c" and run: "am_exec transfer e c s = Some s'"
  shows "am_inv balance self w (env_timestamp e) s'"
proof -
  have self: "self = env_self e" "\<not> env_auth e (env_self e)" using adm by (auto simp: am_adm_def)
  have inv: "am_inv balance (env_self e) w (env_timestamp e) s" using inv self(1) by simp
  have other: "u \<noteq> env_self e" if "env_auth e u" for u using self(2) that by blast
  have "am_inv balance (env_self e) w (env_timestamp e) s'"
  proof (cases c)
    case (AmSwap u i tok x m)
    with run obtain r s1 where "env_auth e u" "am_check_trading_allowed e s = Inr s1"
        "am_with_reentrancy_guard (am_swap_internal transfer e u i tok x m True) s1 = Inr (r, s')"
      by (auto simp: am_swap_def and_then_eq_Inr require_auth_eq_Inr state_of_eq_Some)
    then show ?thesis using inv other by (blast intro: am_guard_keeps am_trading_keeps am_inv_swap_internal)
  next
    case (AmFlashSwap u i to x ti m)
    with run obtain r s1 where "env_auth e u" "am_check_trading_allowed e s = Inr s1"
        "am_with_reentrancy_guard (am_flash_swap_guarded transfer e u i to x ti m) s1 = Inr (r, s')"
      by (auto simp: am_flash_swap_def and_then_eq_Inr require_auth_eq_Inr state_of_eq_Some)
    then show ?thesis using inv other by (blast intro: am_guard_keeps am_trading_keeps am_inv_flash_guarded)
  next
    case (AmAddLiquidity u i x y)
    with run obtain r where "env_auth e u" "am_with_reentrancy_guard (am_add_liquidity_internal transfer e u i x y) s = Inr (r, s')"
      by (auto simp: am_add_liquidity_def and_then_eq_Inr require_auth_eq_Inr state_of_eq_Some)
    then show ?thesis using inv other by (blast intro: am_guard_keeps am_inv_add_internal)
  next
    case (AmRemoveLiquidity u i n)
    with run obtain r where "am_with_reentrancy_guard (am_remove_liquidity_internal transfer e u i n) s = Inr (r, s')"
      by (auto simp: am_remove_liquidity_def and_then_eq_Inr require_auth_eq_Inr state_of_eq_Some)
    then show ?thesis using inv by (blast intro: am_guard_keeps am_inv_remove_internal)
  qed (use run inv self(2) in \<open>auto simp: result_iffs intro: am_inv_initialize am_inv_create_pool am_inv_admin_calls am_inv_settings
      am_inv_deposit_rewards am_inv_claim am_inv_multi_hop\<close>)
  then show ?thesis by (simp add: self(1))
qed

end

sublocale token_contract \<subseteq> amv: contract_machine "am_exec transfer" "am_adm self" "am_drift balance self" "am_inv balance self w" "am_fresh w"
  for self w
  by unfold_locales (auto intro: am_inv_fresh am_inv_drift am_inv_call, auto simp: am_inv_def)

context token_contract
begin

lemma am_reach_inv:
  "reach (am_exec transfer) (am_adm self) (am_drift balance self) (am_fresh w) t s \<Longrightarrow> am_inv balance self w t s"
  by (rule amv.reach_inv)

end

end
