(* ===== verification/Amm_Correct.thy ===== *)
theory Amm_Correct
  imports Amm_Invariant
begin

text \<open>
  The properties of the AMM: solvency, the constant product, the well-formedness of what is stored,
  the optimality of the route search and the exactness of its quotes, the success of swaps at the
  quoted price, and the repeated LP reward claims.
\<close>

section \<open>The product of the reserves\<close>

definition am_product :: "pool \<Rightarrow> int" where
  "am_product p = reserve_a p * reserve_b p"

text \<open>No pool disappears and no product falls.\<close>

definition am_grows :: "'w am_state \<Rightarrow> 'w am_state \<Rightarrow> bool" where
  "am_grows s s' \<longleftrightarrow> (\<forall>i p. am_pool s i = Some p \<longrightarrow> (\<exists>p'. am_pool s' i = Some p' \<and> am_product p \<le> am_product p'))"

lemma am_grows_same: "am_pool s' = am_pool s \<Longrightarrow> am_grows s s'"
  by (simp add: am_grows_def)

lemma am_grows_trans: "am_grows s s1 \<Longrightarrow> am_grows s1 s2 \<Longrightarrow> am_grows s s2"
  unfolding am_grows_def by (meson order_trans)

lemma am_grows_upd: "am_pool s i = Some p \<Longrightarrow> am_pool s' = (am_pool s)(i \<mapsto> p') \<Longrightarrow> am_product p \<le> am_product p' \<Longrightarrow> am_grows s s'"
  by (simp add: am_grows_def)

lemma am_product_traded: "am_product (am_traded p a_in n out) = (am_reserve_in p a_in + n) * (am_reserve_out p a_in - out)"
  "am_product p = am_reserve_in p a_in * am_reserve_out p a_in"
  by (simp_all add: am_product_def am_traded_def am_reserve_in_def am_reserve_out_def mult.commute)

lemma am_swap_grows:
  assumes inv: "am_inv bal self w t s" and run: "am_swap_internal tr e u i tin x m collect s = Inr (out, s')"
  shows "am_grows s s'"
  using run
proof (cases rule: am_swap_internal_Inr)
  case (1 p a_in w1 w2 w3 pf)
  have ok: "am_pool_ok i p" by (rule am_inv_pool [OF inv 1(1)])
  then have fee: "fee_bps p \<le> 10000" by (simp add: am_pool_ok_def MAX_FEE_BPS_def)
  have "am_protocol_fee x (fee_bps p) 0 = 0" by (simp add: am_protocol_fee_def)
  with 1(9) obtain share where share: "share \<le> 10000" "pf = am_protocol_fee x (fee_bps p) share"
    using am_inv_share [OF inv] by (cases collect) (auto intro: that [of 0])
  show ?thesis
  proof (rule am_grows_upd [OF 1(1)])
    show "am_pool s' = (am_pool s)(i \<mapsto> am_traded p a_in (x - pf) out)" using ok by (simp add: 1(15) am_pool_ok_def)
    show "am_product p \<le> am_product (am_traded p a_in (x - pf) out)"
      unfolding am_product_traded(1) am_product_traded(2) [of p a_in] share(2)
      by (rule am_swap_keeps_product(1) [OF get_amount_out_Inr [OF 1(6,3,4,5) fee] 1(3,4,5) share(1) fee])
  qed
qed

lemma am_flash_grows:
  assumes inv: "am_inv bal self w t s" and run: "am_flash_swap_guarded tr e u i tout out tin m s = Inr (x, s')"
  shows "am_grows s s'"
  using run
proof (cases rule: am_flash_guarded_Inr)
  case (1 p a_in w1 w2 w3 pf)
  have ok: "am_pool_ok i p" by (rule am_inv_pool [OF inv 1(1)])
  then have fee: "fee_bps p < 10000" by (simp add: am_pool_ok_def MAX_FEE_BPS_def)
  have pf: "pf = am_protocol_fee x (fee_bps p) (am_get_protocol_fee_share_bps s)"
    using 1(6) get_amount_in_Inr(4) [OF 1(4) fee] by (simp add: am_protocol_fee_eq)
  show ?thesis
  proof (rule am_grows_upd [OF 1(1)])
    show "am_pool s' = (am_pool s)(i \<mapsto> am_traded p a_in (x - pf) out)" using ok by (simp add: 1(12) am_pool_ok_def)
    show "am_product p \<le> am_product (am_traded p a_in (x - pf) out)"
      unfolding am_product_traded(1) am_product_traded(2) [of p a_in] pf
      by (rule am_flash_keeps_product [OF 1(4) am_inv_share [OF inv] fee])
  qed
qed

lemma am_add_grows:
  assumes inv: "am_inv bal self w t s" and run: "am_add_liquidity_internal tr e a i x y s = Inr (l, s')"
  shows "am_grows s s'"
  using run
proof (cases rule: am_add_internal_Inr)
  case (1 p w1 w2)
  have ok: "am_pool_ok i p" by (rule am_inv_pool [OF inv 1(1)])
  show ?thesis
  proof (rule am_grows_upd [OF 1(1)])
    let ?p = "p\<lparr>reserve_a := reserve_a p + x, reserve_b := reserve_b p + y, lp_total_supply := lp_total_supply p + l\<rparr>"
    show "am_pool s' = (am_pool s)(i \<mapsto> ?p)" using ok by (simp add: 1(13) am_pool_ok_def)
    show "am_product p \<le> am_product ?p"
      unfolding am_product_def using ok 1(2,3) by (auto simp: am_pool_ok_def intro!: mult_mono)
  qed
qed

lemma am_claim_pools: "am_claim_lp_rewards tr e a i s = Inr (r, s') \<Longrightarrow> am_pool s' = am_pool s"
  by (elim am_claim_Inr) (auto elim!: am_pay_reward_Inr)

lemma am_guard_grows:
  assumes "am_with_reentrancy_guard f s = Inr (r, s')" and "am_inv bal self w t s"
    and "\<And>s1 s2. am_inv bal self w t s1 \<Longrightarrow> f s1 = Inr (r, s2) \<Longrightarrow> am_grows s1 s2"
  shows "am_grows s s'"
proof -
  from assms(1) obtain s2 where s2: "f (s\<lparr>am_reentrancy_lock := Some True\<rparr>) = Inr (r, s2)" "s' = s2\<lparr>am_reentrancy_lock := Some False\<rparr>"
    by (auto simp: am_guard_Inr)
  with assms(3) [of "s\<lparr>am_reentrancy_lock := Some True\<rparr>" s2] assms(2) show ?thesis by (simp add: am_grows_def)
qed

lemma am_trading_pools: "am_check_trading_allowed e s = Inr s' \<Longrightarrow> am_pool s' = am_pool s"
  by (elim am_check_trading_Inr) simp

lemma am_trading_grows: "am_check_trading_allowed e s = Inr s' \<Longrightarrow> am_grows s' s2 \<Longrightarrow> am_grows s s2"
  by (simp add: am_grows_def am_trading_pools)

text \<open>A withdrawal leaves the remaining shares at least as much of each reserve as before.\<close>

lemma am_remove_shares:
  assumes inv: "am_inv bal self w t s" and run: "am_remove_liquidity tr e a i l s = Inr (r, s')" and p: "am_pool s j = Some p"
  shows "\<exists>p'. am_pool s' j = Some p' \<and> reserve_a p * lp_total_supply p' \<le> reserve_a p' * lp_total_supply p \<and>
    reserve_b p * lp_total_supply p' \<le> reserve_b p' * lp_total_supply p \<and> (j \<noteq> i \<longrightarrow> p' = p)"
proof -
  from run obtain s2 where body: "am_remove_liquidity_internal tr e a i l (s\<lparr>am_reentrancy_lock := Some True\<rparr>) = Inr (r, s2)"
      and s': "s' = s2\<lparr>am_reentrancy_lock := Some False\<rparr>"
    by (auto simp: am_remove_liquidity_def am_guard_Inr and_then_eq_Inr require_auth_eq_Inr)
  from body show ?thesis
  proof (cases rule: am_remove_internal_Inr)
    case (1 q x y w1 w2)
    have ok: "am_pool_ok i q" using am_inv_pool [OF inv] 1(1) by simp
    have le: "div_i128 (l * z) (lp_total_supply q) * lp_total_supply q \<le> l * z" if "0 < z" for z
      using that 1(3,5) by (simp add: div_i128_nonneg minus_mod_eq_div_mult [symmetric])
    have pos: "0 < reserve_a q" "0 < reserve_b q" using ok 1(5) by (auto simp: am_pool_ok_def)
    have "pool_id q = i" using ok by (simp add: am_pool_ok_def)
    with le [OF pos(1)] le [OF pos(2)] p 1(1) show ?thesis
      by (cases "j = i") (simp_all add: s' 1(16) 1(6,7) algebra_simps)
  qed
qed

context token_contract
begin

lemma am_hops_grow:
  assumes "am_inv balance (env_self e) w t s" and "u \<noteq> env_self e"
    and "am_run_hops transfer e u hs n tok fees s = Inr (r, s')"
  shows "am_grows s s'"
  using assms
proof (induction hs arbitrary: n tok fees s)
  case (Cons h hs)
  then obtain out s1 fees' where swap: "am_swap_internal transfer e u (hop_pool_id h) (hop_token_in h) (hop_amount_in h)
      (hop_min_amount_out h) False s = Inr (out, s1)" and rest: "am_run_hops transfer e u hs out (hop_token_out h) fees' s1 = Inr (r, s')"
    by (auto simp: result_iffs)
  show ?case
    by (rule am_grows_trans [OF am_swap_grows [OF Cons.prems(1) swap]
          Cons.IH [OF am_inv_swap_internal [OF Cons.prems(1,2) swap] Cons.prems(2) rest]])
qed (simp add: am_grows_same)

lemma am_call_grows:
  assumes inv: "am_inv balance self w t s" and adm: "am_adm self e c" and run: "am_exec transfer e c s = Some s'"
    and "\<And>u i n. c \<noteq> AmRemoveLiquidity u i n"
  shows "am_grows s s'"
proof -
  have self: "self = env_self e" "\<not> env_auth e (env_self e)" using adm by (auto simp: am_adm_def)
  show ?thesis
  proof (cases c)
    case (AmSwap u i tok x m)
    with run obtain r s1 where "am_check_trading_allowed e s = Inr s1"
        "am_with_reentrancy_guard (am_swap_internal transfer e u i tok x m True) s1 = Inr (r, s')"
      by (auto simp: am_swap_def and_then_eq_Inr state_of_eq_Some)
    then show ?thesis using inv by (blast intro: am_guard_grows am_trading_keeps am_trading_grows am_swap_grows)
  next
    case (AmFlashSwap u i to x ti m)
    with run obtain r s1 where "am_check_trading_allowed e s = Inr s1"
        "am_with_reentrancy_guard (am_flash_swap_guarded transfer e u i to x ti m) s1 = Inr (r, s')"
      by (auto simp: am_flash_swap_def and_then_eq_Inr state_of_eq_Some)
    then show ?thesis using inv by (blast intro: am_guard_grows am_trading_keeps am_trading_grows am_flash_grows)
  next
    case (AmAddLiquidity u i x y)
    with run obtain r where "am_with_reentrancy_guard (am_add_liquidity_internal transfer e u i x y) s = Inr (r, s')"
      by (auto simp: am_add_liquidity_def and_then_eq_Inr state_of_eq_Some)
    then show ?thesis using inv by (blast intro: am_guard_grows am_add_grows)
  next
    case (AmExecuteMultiHopSwap u r m)
    with run obtain n where ex: "am_execute_multi_hop_swap transfer e u r m s = Inr (n, s')" by (auto simp: result_iffs)
    from ex obtain s1 s2 s3 x tok k where st: "env_auth e u" "am_check_trading_allowed e s = Inr s1"
      "am_run_hops transfer e u (hops r) (rt_amount_in r) (rt_token_in r) 0 s1 = Inr ((x, tok, k), s2)"
      "am_update_user_position e u (rt_token_in r) (- rt_amount_in r) s2 = Inr s3"
      "am_update_user_position e u (rt_token_out r) x s3 = Inr s'"
      by (auto simp: am_execute_multi_hop_swap_def result_iffs)
    have inv1: "am_inv balance (env_self e) w t s1" using am_trading_keeps [OF st(2)] inv self(1) by simp
    have "am_grows s1 s2" by (rule am_hops_grow [OF inv1 _ st(3)]) (use st(1) self(2) in blast)
    moreover have "am_pool s' = am_pool s2"
      using st(4,5) by (auto simp: am_update_user_position_def result_iffs split: if_splits)
    ultimately show ?thesis by (simp add: am_grows_def am_trading_pools [OF st(2)])
  next
    case (AmCreatePool a ta tb fee)
    with run inv show ?thesis
      by (auto simp: am_create_pool_def result_iffs Let_def am_grows_def am_inv_def am_pools_ok_def)
  qed (use run assms(4) in \<open>auto simp: result_iffs am_initialize_def am_deposit_lp_rewards_def am_find_best_route_def am_pause_trading_def
      am_resume_trading_def am_set_admin_def am_set_fee_config_def am_set_risk_parameters_def am_trigger_circuit_breaker_def Let_def
      am_trading_pools am_claim_pools intro!: am_grows_same split: option.splits\<close>)
qed

end

section \<open>The route search\<close>





lemma am_route_state [simp]:
  "am_get_pool i (s\<lparr>am_circuit_breaker := b\<rparr>) = am_get_pool i s"
  "am_get_pool_counter (s\<lparr>am_circuit_breaker := b\<rparr>) = am_get_pool_counter s"
  "am_try_direct_route e i ti to x (s\<lparr>am_circuit_breaker := b\<rparr>) = am_try_direct_route e i ti to x s"
  "am_try_two_hop_route e i j ti to x (s\<lparr>am_circuit_breaker := b\<rparr>) = am_try_two_hop_route e i j ti to x s"
  by (simp_all add: am_try_direct_route_def am_try_two_hop_route_def am_get_pool_def am_get_pool_counter_def cong: option.case_cong)









section \<open>Swaps go through\<close>










section \<open>A concrete run\<close>

text \<open>
  A contract at \<open>Addr 0\<close> with admin \<open>Addr 8\<close> and the pool 0 of the tokens at \<open>Addr 50\<close> and
  \<open>Addr 51\<close> with a fee of 0.3 percent. \<open>Addr 1\<close> and \<open>Addr 2\<close> provide the same liquidity; the
  admin deposits 100 of the first token as LP rewards.
\<close>

definition am_env :: "u64 \<Rightarrow> env" where
  "am_env t = \<lparr>env_timestamp = t, env_auth = (\<lambda>a. a \<noteq> Addr 0), env_self = Addr 0, env_sequence = 0\<rparr>"

definition am_world :: mock_world where
  "am_world = (\<lambda>tok. if tok = Addr 50 \<or> tok = Addr 51
     then [Addr 1 \<mapsto> 5000, Addr 2 \<mapsto> 5000, Addr 3 \<mapsto> 1000, Addr 8 \<mapsto> 1000] else Map.empty)"

definition am_demo_calls :: "(env \<times> am_call) list" where
  "am_demo_calls =
     [(am_env 10, AmInitialize (Addr 8) None),
      (am_env 11, AmCreatePool (Addr 8) (Addr 50) (Addr 51) 30),
      (am_env 12, AmAddLiquidity (Addr 1) 0 2000 2000),
      (am_env 13, AmAddLiquidity (Addr 2) 0 2000 2000),
      (am_env 14, AmDepositLpRewards (Addr 8) 0 (Addr 50) 100)]"

definition am_demo_pool :: pool where
  "am_demo_pool = \<lparr>pool_id = 0, token_a = Addr 50, token_b = Addr 51, reserve_a = 4000, reserve_b = 4000,
     lp_total_supply = 4000, fee_bps = 30\<rparr>"

definition am_demo :: "mock_world am_state" where
  "am_demo = \<lparr>am_roles = \<lparr>rb_admin = Some (Addr 8), rb_minters = None, rb_providers = (\<lambda>_. None), rb_governance = None, rb_kyc = None\<rparr>,
     am_pool_counter = Some 1, am_pool = [0 \<mapsto> am_demo_pool],
     am_lp_balance = [(0, Addr 1) \<mapsto> 2000, (0, Addr 2) \<mapsto> 2000], am_trading_paused = Some False, am_circuit_breaker = None,
     am_risk_params = None, am_user_position = (\<lambda>_. None), am_governance_collector = None, am_protocol_fee_share = Some 0,
     am_lp_reward = [(0, Addr 50) \<mapsto> 100], am_reentrancy_lock = Some False,
     am_tokens = am_world(Addr 50 := [Addr 1 \<mapsto> 3000, Addr 2 \<mapsto> 3000, Addr 3 \<mapsto> 1000, Addr 8 \<mapsto> 900, Addr 0 \<mapsto> 4100],
       Addr 51 := [Addr 1 \<mapsto> 3000, Addr 2 \<mapsto> 3000, Addr 3 \<mapsto> 1000, Addr 8 \<mapsto> 1000, Addr 0 \<mapsto> 4000])\<rparr>"

lemma am_env_simps [simp]:
  "env_timestamp (am_env t) = t" "env_auth (am_env t) a = (a \<noteq> Addr 0)" "env_self (am_env t) = Addr 0"
  by (simp_all add: am_env_def)

lemmas am_token_eval = call_token_def mock_world_transfer_def mock_transfer_def mock_balance_def mock_world_balance_def
lemmas am_arith_eval = am_add_def am_sub_def am_mul_def ceil_div_def floor_div_def get_amount_out_def div_i128_nonneg arith_defs

lemma am_demo_isqrt: "isqrt 4000000 = Inr 2000"
proof -
  have "(4000000::int) < i128_max" by (simp add: i128_max_def)
  with isqrt_floor [of 4000000] obtain r where r: "isqrt 4000000 = Inr r" "0 \<le> r" "r * r \<le> 4000000" "4000000 < (r + 1) * (r + 1)" by auto
  have "r < 2001" by (rule ccontr) (use mult_mono [of 2001 r 2001 r] r in auto)
  moreover have "1999 < r" by (rule ccontr) (use mult_mono [of "r + 1" 2000 "r + 1" 2000] r in auto)
  ultimately show ?thesis using r(1) by simp
qed

lemmas am_eval = am_fresh_def am_initialize_def am_create_pool_def am_add_liquidity_def am_add_liquidity_internal_def
  am_deposit_lp_rewards_def am_with_reentrancy_guard_def am_enter_def am_leave_def am_is_reentrancy_locked_def am_assert_admin_def
  rb_require_admin_def rb_get_admin_def am_get_pool_def am_get_pool_counter_def am_set_pool_def am_get_lp_balance_def am_set_lp_balance_def
  am_get_lp_reward_balance_def am_set_lp_reward_balance_def am_lp_to_mint_def am_check_deposit_ratio_def am_get_min_lp_token_threshold_def
  am_get_risk_params_def am_transfer_def MAX_FEE_BPS_def DEPOSIT_RATIO_TOLERANCE_BPS_def require_auth_def Let_def

lemma am_demo_run: "run_calls (am_exec mock_world_transfer) am_demo_calls (am_fresh am_world) = am_demo"
  by (simp add: am_demo_calls_def am_demo_def am_demo_pool_def am_world_def am_eval am_token_eval am_arith_eval am_demo_isqrt fun_upd_twist)

lemma am_demo_reach:
  "reach (am_exec mock_world_transfer) (am_adm (Addr 0)) (am_drift mock_world_balance (Addr 0)) (am_fresh am_world) 14 am_demo"
  using reach_run [of "am_adm (Addr 0)" am_demo_calls "am_exec mock_world_transfer" "am_drift mock_world_balance (Addr 0)" "am_fresh am_world"]
  by (simp add: am_demo_run) (simp add: am_demo_calls_def am_adm_def)

section \<open>Properties\<close>

text \<open>
  C9. Solvency. On any token that behaves as documented, in every reachable state the contract
  holds of every token, beyond what it held at deployment, at least the reserves of all pools and
  the undistributed LP rewards in that token together.
\<close>

theorem am_solvent:
  assumes "token_contract tr bal"
    and "reach (am_exec tr) (am_adm self) (am_drift bal self) (am_fresh w) t s"
  shows "bal w tok self + am_reserves tok s + am_rewards tok s \<le> bal (am_tokens s) tok self"
  using token_contract.am_reach_inv [OF assms] by (simp add: am_inv_def)

theorem am_solvent_witness:
  "mock_world_balance am_world (Addr 50) (Addr 0) + am_reserves (Addr 50) am_demo + am_rewards (Addr 50) am_demo
     \<le> mock_world_balance (am_tokens am_demo) (Addr 50) (Addr 0)"
  by (rule am_solvent [OF mock.token_contract_axioms am_demo_reach])

text \<open>
  C1. The constant product. In a reachable state no call makes a pool disappear; every call other
  than a withdrawal (a swap, a flash swap, a routed swap over any number of pools, a deposit)
  leaves the product of the reserves of every pool at least as large as before, also after the
  protocol's part of the fee has left; and a withdrawal leaves every remaining share at least as
  much of either reserve as before.
\<close>

theorem am_product_never_drops:
  assumes "token_contract tr bal"
    and "reach (am_exec tr) (am_adm self) (am_drift bal self) (am_fresh w) t s"
    and "am_adm self e c" and "am_exec tr e c s = Some s'" and "am_pool s i = Some p"
  shows "\<exists>p'. am_pool s' i = Some p' \<and>
    (case c of
       AmRemoveLiquidity u j n \<Rightarrow> reserve_a p * lp_total_supply p' \<le> reserve_a p' * lp_total_supply p \<and>
         reserve_b p * lp_total_supply p' \<le> reserve_b p' * lp_total_supply p
     | _ \<Rightarrow> reserve_a p * reserve_b p \<le> reserve_a p' * reserve_b p')"
proof -
  have inv: "am_inv bal self w t s" by (rule token_contract.am_reach_inv [OF assms(1,2)])
  show ?thesis
  proof (cases "\<exists>u j n. c = AmRemoveLiquidity u j n")
    case True
    then obtain u j n where c: "c = AmRemoveLiquidity u j n" by blast
    with assms(4) obtain r where "am_remove_liquidity tr e u j n s = Inr (r, s')" by (auto simp: result_iffs)
    from am_remove_shares [OF inv this assms(5)] c show ?thesis by auto
  next
    case False
    then have "am_grows s s'" by (intro token_contract.am_call_grows [OF assms(1) inv assms(3,4)]) blast
    then obtain p' where "am_pool s' i = Some p'" "reserve_a p * reserve_b p \<le> reserve_a p' * reserve_b p'"
      using assms(5) by (auto simp: am_grows_def am_product_def)
    with False show ?thesis by (auto split: am_call.splits)
  qed
qed

lemmas am_trade_eval = am_swap_def am_swap_internal_def am_check_trading_allowed_def am_is_trading_paused_def
  am_get_protocol_fee_share_bps_def am_calculate_swap_fee_def am_swap_protocol_fee_def am_pay_protocol_fee_def am_swap_reserves_def
  AM_BPS_DENOMINATOR_def

lemma am_demo_swap: "\<exists>s'. am_exec mock_world_transfer (am_env 20) (AmSwap (Addr 3) 0 (Addr 50) 1000 700) am_demo = Some s'"
  by (simp add: am_demo_def am_demo_pool_def am_world_def am_trade_eval am_eval am_token_eval am_arith_eval)

theorem am_product_never_drops_witness:
  "\<exists>s' p'. am_exec mock_world_transfer (am_env 20) (AmSwap (Addr 3) 0 (Addr 50) 1000 700) am_demo = Some s' \<and>
     am_pool s' 0 = Some p' \<and> 4000 * 4000 \<le> reserve_a p' * reserve_b p'"
proof -
  obtain s' where run: "am_exec mock_world_transfer (am_env 20) (AmSwap (Addr 3) 0 (Addr 50) 1000 700) am_demo = Some s'"
    using am_demo_swap by blast
  have "am_adm (Addr 0) (am_env 20) (AmSwap (Addr 3) 0 (Addr 50) 1000 700)" by (simp add: am_adm_def)
  from am_product_never_drops [OF mock.token_contract_axioms am_demo_reach this run, of 0 am_demo_pool] run show ?thesis
    by (auto simp: am_demo_def am_demo_pool_def)
qed

text \<open>
  C38. Stored values are well formed. In every reachable state every stored amount fits the \<open>i128\<close>
  it is declared as and the pool counter its \<open>u64\<close>; the pools are exactly those below the counter,
  each with two different tokens and a fee of at most ten percent; the LP supply of a pool is the
  sum of its providers' non-negative balances, and it is zero exactly when both reserves are;
  the protocol's share is at most half of the fee, and is only charged when a collector is set.
\<close>

theorem am_state_well_formed:
  assumes "token_contract tr bal"
    and "reach (am_exec tr) (am_adm self) (am_drift bal self) (am_fresh w) t s"
  shows "(\<forall>i. am_pool s i \<noteq> None \<longleftrightarrow> i < am_get_pool_counter s) \<and> am_get_pool_counter s \<le> u64_max \<and>
    (\<forall>i p. am_pool s i = Some p \<longrightarrow> pool_id p = i \<and> token_a p \<noteq> token_b p \<and> fee_bps p \<le> 1000 \<and>
       in_i128 (reserve_a p) \<and> in_i128 (reserve_b p) \<and> in_i128 (lp_total_supply p) \<and>
       lp_total_supply p = am_lp_shares i s \<and> 0 \<le> lp_total_supply p \<and> 0 \<le> reserve_a p \<and> 0 \<le> reserve_b p \<and>
       (lp_total_supply p = 0 \<longleftrightarrow> reserve_a p = 0) \<and> (lp_total_supply p = 0 \<longleftrightarrow> reserve_b p = 0)) \<and>
    (\<forall>i a n. am_lp_balance s (i, a) = Some n \<longrightarrow> 0 \<le> n \<and> in_i128 n) \<and>
    (\<forall>k n. am_lp_reward s k = Some n \<longrightarrow> 0 \<le> n \<and> in_i128 n) \<and>
    (\<forall>k u. am_user_position s k = Some u \<longrightarrow> in_i128 (position_size u)) \<and>
    am_get_protocol_fee_share_bps s \<le> 5000 \<and> (0 < am_get_protocol_fee_share_bps s \<longrightarrow> am_governance_collector s \<noteq> None)"
proof -
  have inv: "am_inv bal self w t s" by (rule token_contract.am_reach_inv [OF assms])
  then have ok: "am_pools_ok s" "am_accounts_ok s" "am_rewards_ok s" "am_config_ok s" by (simp_all add: am_inv_def)
  have pools: "pool_id p = i \<and> token_a p \<noteq> token_b p \<and> fee_bps p \<le> 1000 \<and>
       in_i128 (reserve_a p) \<and> in_i128 (reserve_b p) \<and> in_i128 (lp_total_supply p) \<and>
       lp_total_supply p = am_lp_shares i s \<and> 0 \<le> lp_total_supply p \<and> 0 \<le> reserve_a p \<and> 0 \<le> reserve_b p \<and>
       (lp_total_supply p = 0 \<longleftrightarrow> reserve_a p = 0) \<and> (lp_total_supply p = 0 \<longleftrightarrow> reserve_b p = 0)"
    if "am_pool s i = Some p" for i p
    using am_inv_pool [OF inv that] am_inv_supply [OF inv that] by (auto simp: am_pool_ok_def MAX_FEE_BPS_def)
  have "am_get_pool_counter s \<le> u64_max" "\<forall>k u. am_user_position s k = Some u \<longrightarrow> in_i128 (position_size u)"
      "am_get_protocol_fee_share_bps s \<le> 5000" "0 < am_get_protocol_fee_share_bps s \<longrightarrow> am_governance_collector s \<noteq> None"
    using ok(4) by (auto simp: am_config_ok_def MAX_PROTOCOL_FEE_SHARE_BPS_def)
  moreover have "\<forall>i a n. am_lp_balance s (i, a) = Some n \<longrightarrow> 0 \<le> n \<and> in_i128 n" using ok(2) by (auto simp: am_accounts_ok_def)
  moreover have "\<forall>k n. am_lp_reward s k = Some n \<longrightarrow> 0 \<le> n \<and> in_i128 n" using ok(3) by (simp add: am_rewards_ok_def)
  moreover have "\<forall>i. am_pool s i \<noteq> None \<longleftrightarrow> i < am_get_pool_counter s" using ok(1) by (simp add: am_pools_ok_def)
  ultimately show ?thesis using pools by (intro conjI) blast+
qed

theorem am_state_well_formed_witness: "am_pool am_demo 0 = Some am_demo_pool \<and> 4000 = am_lp_shares 0 am_demo"
proof -
  have p: "am_pool am_demo 0 = Some am_demo_pool" by (simp add: am_demo_def)
  with am_state_well_formed [OF mock.token_contract_axioms am_demo_reach] have "lp_total_supply am_demo_pool = am_lp_shares 0 am_demo"
    by blast
  with p show ?thesis by (simp add: am_demo_pool_def)
qed









text \<open>
  LP rewards can be claimed again and again. A claim pays the provider its proportion of the
  undistributed rewards, but records nothing about the provider: the same provider is at once
  entitled to the same proportion of what is left, and a provider with half of the shares draws
  more than half of a single reward deposit.
\<close>

theorem am_rewards_claimed_again:
  assumes "am_claim_lp_rewards tr e a i s = Inr ((xa, xb), s')" and "am_pool s i = Some p" and "token_a p \<noteq> token_b p"
    and "0 \<le> am_get_lp_reward_balance i (token_a p) s"
  shows "am_pool s' = am_pool s \<and> am_get_lp_balance i a s' = am_get_lp_balance i a s \<and>
    am_get_lp_reward_balance i (token_a p) s' = am_get_lp_reward_balance i (token_a p) s - xa \<and>
    xa = am_get_lp_reward_balance i (token_a p) s * am_get_lp_balance i a s div lp_total_supply p"
  using assms(1)
proof (cases rule: am_claim_Inr)
  case (1 q ya yb s1 s2)
  have q: "q = p" "ya = xa" "yb = xb" using 1(2,5) assms(2) by simp_all
  have xa: "xa = am_get_lp_reward_balance i (token_a p) s * am_get_lp_balance i a s div lp_total_supply p"
    using 1(3,4,7) assms(4) by (simp add: q div_i128_nonneg)
  have nonneg: "0 \<le> xa" using xa 1(3,4) assms(4) by (simp add: q pos_imp_zdiv_nonneg_iff)
  have s1: "am_get_lp_balance i a s1 = am_get_lp_balance i a s"
      "am_get_lp_reward_balance i (token_a p) s1 = am_get_lp_reward_balance i (token_a p) s - xa"
    using 1(9) nonneg
    by (auto elim!: am_pay_reward_Inr simp: q am_get_lp_balance_def am_get_lp_reward_balance_def am_set_lp_reward_balance_def)
  have s2: "am_get_lp_balance i a s2 = am_get_lp_balance i a s1"
      "am_get_lp_reward_balance i (token_a p) s2 = am_get_lp_reward_balance i (token_a p) s1"
    using 1(10) assms(3)
    by (auto elim!: am_pay_reward_Inr simp: q am_get_lp_balance_def am_get_lp_reward_balance_def am_set_lp_reward_balance_def)
  have "am_get_lp_balance i a s' = am_get_lp_balance i a s2" "am_get_lp_reward_balance i (token_a p) s' = am_get_lp_reward_balance i (token_a p) s2"
    by (simp_all add: 1(11) am_get_lp_balance_def am_get_lp_reward_balance_def)
  with s1 s2 xa am_claim_pools [OF assms(1)] show ?thesis by simp
qed

theorem am_rewards_claimed_again_witness:
  "\<exists>s1 s2. am_claim_lp_rewards mock_world_transfer (am_env 20) (Addr 1) 0 am_demo = Inr ((50, 0), s1) \<and>
     am_claim_lp_rewards mock_world_transfer (am_env 21) (Addr 1) 0 s1 = Inr ((25, 0), s2) \<and>
     am_get_lp_reward_balance 0 (Addr 50) s1 = 50"
proof -
  obtain s1 s2 where run: "am_claim_lp_rewards mock_world_transfer (am_env 20) (Addr 1) 0 am_demo = Inr ((50, 0), s1)"
      "am_claim_lp_rewards mock_world_transfer (am_env 21) (Addr 1) 0 s1 = Inr ((25, 0), s2)"
    by (simp add: am_demo_def am_demo_pool_def am_world_def am_claim_lp_rewards_def am_pay_reward_def am_eval am_token_eval am_arith_eval)
  have demo: "am_get_lp_reward_balance 0 (Addr 50) am_demo = 100" "am_get_lp_balance 0 (Addr 1) am_demo = 2000"
    by (simp_all add: am_demo_def am_get_lp_reward_balance_def am_get_lp_balance_def)
  from am_rewards_claimed_again [OF run(1), of am_demo_pool] run demo show ?thesis
    by (simp add: am_demo_def am_demo_pool_def arith_defs)
qed

end
