(* ===== verification/Staking.thy ===== *)
theory Staking
  imports Mock_Token
begin

text \<open>
  The Staking contract (src/contracts/staking/src/lib.rs): stakes in tiers with a lock time, a
  reward multiplier and an early-exit penalty, and a global reward accumulator
  (\<open>reward_per_token\<close>, scaled by 1e18) from which the pending rewards of a position are read.
  This theory holds the whole contract; Staking_Correct holds its invariants and properties. Each
  storage key of \<open>DataKey\<close> is a field of \<open>st_state\<close>; every panic message is a constructor of
  \<open>st_error\<close>.
\<close>

section \<open>State\<close>

definition ST_BPS_DENOMINATOR :: i128 where
  "ST_BPS_DENOMINATOR = 10000"

definition PRECISION_FACTOR :: i128 where
  "PRECISION_FACTOR = 1000000000000000000"

definition MAX_TIERS :: u32 where
  "MAX_TIERS = 10"

definition ST_MAX_BATCH_SIZE :: u32 where
  "ST_MAX_BATCH_SIZE = 50"

definition ST_MAX_PENALTY_BPS :: u32 where
  "ST_MAX_PENALTY_BPS = 10000"

record stake_position =
  sp_stake_id :: u64
  sp_user :: address
  sp_amount :: i128
  sp_tier_id :: u32
  sp_stake_time :: u64
  sp_lock_end_time :: u64
  sp_reward_per_token_paid :: i128
  sp_active :: bool

record staking_tier =
  ti_tier_id :: u32
  ti_name :: symbol
  ti_min_stake_amount :: i128
  ti_lock_duration_seconds :: u64
  ti_reward_multiplier_bps :: u32
  ti_penalty_bps :: u32
  ti_active :: bool
  ti_created_at :: u64

record staking_info =
  si_admin :: address
  si_reward_token :: address
  si_total_staked :: i128
  si_total_rewards_distributed :: i128
  si_reward_rate_per_second :: i128
  si_last_reward_time :: u64
  si_paused :: bool
  si_tier_count :: u32

record stake_result =
  sr_stake_id :: u64
  sr_amount :: i128
  sr_tier_id :: u32
  sr_lock_end_time :: u64

record unstake_result =
  ur_stake_id :: u64
  ur_principal_returned :: i128
  ur_rewards_claimed :: i128
  ur_penalty_amount :: i128
  ur_total_returned :: i128

record 'w st_state =
  st_admin :: "address option"
  st_reward_token :: "address option"
  st_paused :: "bool option"
  st_reward_rate :: "i128 option"
  st_last_time :: "u64 option"
  st_rpt_stored :: "i128 option"
  st_weighted :: "i128 option"
  st_staked :: "i128 option"
  st_distributed :: "i128 option"
  st_stake_count :: "u64 option"
  st_position :: "u64 \<Rightarrow> stake_position option"
  st_user_ids :: "address \<Rightarrow> u64 list option"
  st_tier_count :: "u32 option"
  st_tier :: "u32 \<Rightarrow> staking_tier option"
  st_tier_list :: "u32 list option"
  st_reentrancy_lock :: "bool option"
  st_tokens :: 'w

datatype st_error =
    StAuth
  | StToken
  | StAlreadyInitialized
  | StRewardRateNegative
  | StAlreadyPaused
  | StNotPaused
  | StMinimumStakeMustBePositive
  | StLockDurationMustBePositive
  | StRewardMultiplierMustBePositive
  | StPenaltyExceedsHundredPercent
  | StMaximumTiersReached
  | StTierNotActive
  | StTierAlreadyInactive
  | StStakingPaused
  | StStakeAmountMustBePositive
  | StAmountBelowTierMinimum
  | StLockEndTimeOverflow
  | StTotalStakedOverflow
  | StTotalWeightedOverflow
  | StOnlyStaker
  | StStakeNotActive
  | StPenaltyExceedsPrincipal
  | StTotalReturnedOverflow
  | StTotalStakedUnderflow
  | StTotalWeightedUnderflow
  | StTotalRewardsOverflow
  | StNoRewardsToClaim
  | StNoStakesProvided
  | StBatchExceedsMaximumSize
  | StTotalClaimedOverflow
  | StStakeNotOfUser
  | StAmountMustBePositive
  | StAnnualRewardsOverflow
  | StAdjustedRewardsOverflow
  | StApyOverflow
  | StWeightOverflow
  | StTimeElapsedUnderflow
  | StRewardIncrementOverflow
  | StRewardIncrementPrecisionOverflow
  | StRewardPerTokenOverflow
  | StRptDiffUnderflow
  | StPendingRewardsOverflow
  | StPenaltyMultiplicationOverflow
  | StStakeIdOverflow
  | StTierIdOverflow
  | StInvalidStakeId
  | StStakeNotFound
  | StInvalidTierId
  | StTierNotFound
  | StContractNotInitialized
  | StCallerNotAdmin
  | StTransferAmountMustBePositive
  | StReentrantCallBlocked

definition st_fresh :: "'w \<Rightarrow> 'w st_state" where
  "st_fresh w =
     \<lparr>st_admin = None, st_reward_token = None, st_paused = None, st_reward_rate = None, st_last_time = None,
      st_rpt_stored = None, st_weighted = None, st_staked = None, st_distributed = None, st_stake_count = None,
      st_position = (\<lambda>_. None), st_user_ids = (\<lambda>_. None), st_tier_count = None, st_tier = (\<lambda>_. None),
      st_tier_list = None, st_reentrancy_lock = None, st_tokens = w\<rparr>"

section \<open>Stored values\<close>

definition st_load_stake :: "u64 \<Rightarrow> 'w st_state \<Rightarrow> st_error + stake_position" where
  "st_load_stake stake_id s =
     and_then (panic_if (stake_id = 0) StInvalidStakeId) (\<lambda>_. ok_or StStakeNotFound (st_position s stake_id))"

definition st_load_tier :: "u32 \<Rightarrow> 'w st_state \<Rightarrow> st_error + staking_tier" where
  "st_load_tier tier_id s =
     and_then (panic_if (tier_id = 0) StInvalidTierId) (\<lambda>_. ok_or StTierNotFound (st_tier s tier_id))"

definition st_user_stake_ids :: "address \<Rightarrow> 'w st_state \<Rightarrow> u64 list" where
  "st_user_stake_ids user s = unwrap_or [] (st_user_ids s user)"

definition st_add_user_stake :: "address \<Rightarrow> u64 \<Rightarrow> 'w st_state \<Rightarrow> 'w st_state" where
  "st_add_user_stake user stake_id s =
     s\<lparr>st_user_ids := (st_user_ids s)(user \<mapsto> st_user_stake_ids user s @ [stake_id])\<rparr>"

definition st_tier_ids :: "'w st_state \<Rightarrow> u32 list" where
  "st_tier_ids s = unwrap_or [] (st_tier_list s)"

definition st_stake_counter :: "'w st_state \<Rightarrow> u64" where
  "st_stake_counter s = unwrap_or 0 (st_stake_count s)"

definition st_tier_counter :: "'w st_state \<Rightarrow> u32" where
  "st_tier_counter s = unwrap_or 0 (st_tier_count s)"

definition st_total_staked :: "'w st_state \<Rightarrow> i128" where
  "st_total_staked s = unwrap_or 0 (st_staked s)"

definition st_total_weighted_stake :: "'w st_state \<Rightarrow> i128" where
  "st_total_weighted_stake s = unwrap_or 0 (st_weighted s)"

definition st_total_rewards_distributed :: "'w st_state \<Rightarrow> i128" where
  "st_total_rewards_distributed s = unwrap_or 0 (st_distributed s)"

definition st_last_reward_time :: "'w st_state \<Rightarrow> u64" where
  "st_last_reward_time s = unwrap_or 0 (st_last_time s)"

definition st_reward_per_token_stored :: "'w st_state \<Rightarrow> i128" where
  "st_reward_per_token_stored s = unwrap_or 0 (st_rpt_stored s)"

definition st_reward_rate_per_second :: "'w st_state \<Rightarrow> i128" where
  "st_reward_rate_per_second s = unwrap_or 0 (st_reward_rate s)"

definition st_is_paused :: "'w st_state \<Rightarrow> bool" where
  "st_is_paused s = unwrap_or False (st_paused s)"

definition st_get_reward_token :: "'w st_state \<Rightarrow> st_error + address" where
  "st_get_reward_token s = ok_or StContractNotInitialized (st_reward_token s)"

definition st_get_admin :: "'w st_state \<Rightarrow> st_error + address" where
  "st_get_admin s = ok_or StContractNotInitialized (st_admin s)"

definition st_assert_admin :: "address \<Rightarrow> 'w st_state \<Rightarrow> st_error + unit" where
  "st_assert_admin caller s =
     and_then (st_get_admin s) (\<lambda>admin. panic_if (caller \<noteq> admin) StCallerNotAdmin)"

definition st_next_stake_id :: "'w st_state \<Rightarrow> st_error + u64 \<times> 'w st_state" where
  "st_next_stake_id s =
     and_then (ok_or StStakeIdOverflow (checked_add_u64 (st_stake_counter s) 1)) (\<lambda>next_id.
     Inr (next_id, s\<lparr>st_stake_count := Some next_id\<rparr>))"

definition st_next_tier_id :: "'w st_state \<Rightarrow> st_error + u32 \<times> 'w st_state" where
  "st_next_tier_id s =
     and_then (ok_or StTierIdOverflow (checked_add_u32 (st_tier_counter s) 1)) (\<lambda>next_id.
     Inr (next_id, s\<lparr>st_tier_count := Some next_id\<rparr>))"

section \<open>Token calls and the guard\<close>

definition st_enter_non_reentrant :: "'w st_state \<Rightarrow> st_error + 'w st_state" where
  "st_enter_non_reentrant s =
     (if unwrap_or False (st_reentrancy_lock s) then Inl StReentrantCallBlocked
      else Inr (s\<lparr>st_reentrancy_lock := Some True\<rparr>))"

definition st_exit_non_reentrant :: "'w st_state \<Rightarrow> 'w st_state" where
  "st_exit_non_reentrant s = s\<lparr>st_reentrancy_lock := Some False\<rparr>"

definition st_transfer_token_unchecked ::
  "'w token_transfer \<Rightarrow> env \<Rightarrow> address \<Rightarrow> address \<Rightarrow> address \<Rightarrow> i128 \<Rightarrow> 'w st_state \<Rightarrow> st_error + 'w st_state" where
  "st_transfer_token_unchecked tr e token src dst amount s =
     and_then (panic_if (amount \<le> 0) StTransferAmountMustBePositive) (\<lambda>_.
     and_then (call_token tr StToken e token src dst amount (st_tokens s)) (\<lambda>w.
     Inr (s\<lparr>st_tokens := w\<rparr>)))"

definition st_transfer_token ::
  "'w token_transfer \<Rightarrow> env \<Rightarrow> address \<Rightarrow> address \<Rightarrow> address \<Rightarrow> i128 \<Rightarrow> 'w st_state \<Rightarrow> st_error + 'w st_state" where
  "st_transfer_token tr e token src dst amount s =
     and_then (st_enter_non_reentrant s) (\<lambda>s.
     and_then (st_transfer_token_unchecked tr e token src dst amount s) (\<lambda>s.
     Inr (st_exit_non_reentrant s)))"

section \<open>The reward accumulator\<close>

definition st_calculate_weight :: "i128 \<Rightarrow> u32 \<Rightarrow> st_error + i128" where
  "st_calculate_weight amount multiplier_bps =
     and_then (ok_or StWeightOverflow (checked_mul_i128 amount (int multiplier_bps))) (\<lambda>p.
     Inr (div_i128 p ST_BPS_DENOMINATOR))"

text \<open>The increment of the accumulator after \<open>elapsed\<close> seconds, computed alike by \<open>update_pool\<close>
  and \<open>calculate_pending_rewards_static\<close>.\<close>

definition st_increment :: "i128 \<Rightarrow> u64 \<Rightarrow> i128 \<Rightarrow> st_error + i128" where
  "st_increment reward_rate elapsed total_weighted =
     and_then (ok_or StRewardIncrementOverflow (checked_mul_i128 reward_rate (int elapsed))) (\<lambda>r.
     and_then (ok_or StRewardIncrementPrecisionOverflow (checked_mul_i128 r PRECISION_FACTOR)) (\<lambda>p.
     Inr (div_i128 p total_weighted)))"

definition st_update_pool :: "env \<Rightarrow> 'w st_state \<Rightarrow> st_error + 'w st_state" where
  "st_update_pool e s =
     (let last_reward_time = st_last_reward_time s; now = env_timestamp e in
      if now \<le> last_reward_time then Inr s
      else let total_weighted = st_total_weighted_stake s;
               current_rpt = st_reward_per_token_stored s in
        if total_weighted \<le> 0 then Inr (s\<lparr>st_last_time := Some now\<rparr>)
        else
          and_then (ok_or StTimeElapsedUnderflow (checked_sub_u now last_reward_time)) (\<lambda>elapsed.
          and_then (st_increment (st_reward_rate_per_second s) elapsed total_weighted) (\<lambda>increment.
          and_then (ok_or StRewardPerTokenOverflow (checked_add_i128 current_rpt increment)) (\<lambda>new_rpt.
          Inr (s\<lparr>st_rpt_stored := Some new_rpt, st_last_time := Some now\<rparr>)))))"

text \<open>The accumulator as it would be after an update now.\<close>

definition st_future_rpt :: "env \<Rightarrow> i128 \<Rightarrow> 'w st_state \<Rightarrow> st_error + i128" where
  "st_future_rpt e total_weighted s =
     (let last_reward_time = st_last_reward_time s; now = env_timestamp e;
          current_rpt = st_reward_per_token_stored s in
      if now > last_reward_time then
        and_then (st_increment (st_reward_rate_per_second s) (now - last_reward_time) total_weighted) (\<lambda>increment.
        ok_or StRewardPerTokenOverflow (checked_add_i128 current_rpt increment))
      else Inr current_rpt)"

definition st_calculate_pending_rewards_static ::
  "env \<Rightarrow> stake_position \<Rightarrow> u32 \<Rightarrow> 'w st_state \<Rightarrow> st_error + i128" where
  "st_calculate_pending_rewards_static e position multiplier_bps s =
     (if \<not> sp_active position then Inr 0
      else let total_weighted = st_total_weighted_stake s in
        if total_weighted \<le> 0 then Inr 0
        else
          and_then (st_future_rpt e total_weighted s) (\<lambda>future_rpt.
          and_then (st_calculate_weight (sp_amount position) multiplier_bps) (\<lambda>user_weight.
          and_then (ok_or StRptDiffUnderflow (checked_sub_i128 future_rpt (sp_reward_per_token_paid position))) (\<lambda>rpt_diff.
          and_then (ok_or StPendingRewardsOverflow (checked_mul_i128 rpt_diff user_weight)) (\<lambda>p.
          Inr (div_i128 p PRECISION_FACTOR))))))"

definition st_calculate_penalty :: "i128 \<Rightarrow> u32 \<Rightarrow> st_error + i128" where
  "st_calculate_penalty amount penalty_bps =
     (if penalty_bps = 0 then Inr 0
      else and_then (ok_or StPenaltyMultiplicationOverflow (checked_mul_i128 amount (int penalty_bps))) (\<lambda>p.
           Inr (div_i128 p ST_BPS_DENOMINATOR)))"

section \<open>Administration and tiers\<close>

definition st_initialize :: "env \<Rightarrow> address \<Rightarrow> address \<Rightarrow> i128 \<Rightarrow> 'w st_state \<Rightarrow> st_error + unit \<times> 'w st_state" where
  "st_initialize e admin reward_token reward_rate_per_second s =
     and_then (panic_if (st_admin s \<noteq> None) StAlreadyInitialized) (\<lambda>_.
     and_then (require_auth StAuth e admin) (\<lambda>_.
     and_then (panic_if (reward_rate_per_second < 0) StRewardRateNegative) (\<lambda>_.
     Inr ((), s\<lparr>st_admin := Some admin, st_reward_token := Some reward_token, st_paused := Some False,
                st_reward_rate := Some reward_rate_per_second, st_last_time := Some (env_timestamp e),
                st_rpt_stored := Some 0, st_weighted := Some 0, st_staked := Some 0, st_distributed := Some 0,
                st_stake_count := Some 0, st_tier_count := Some 0, st_tier_list := Some [],
                st_reentrancy_lock := Some False\<rparr>))))"

definition st_pause :: "env \<Rightarrow> address \<Rightarrow> 'w st_state \<Rightarrow> st_error + unit \<times> 'w st_state" where
  "st_pause e admin s =
     and_then (require_auth StAuth e admin) (\<lambda>_.
     and_then (st_assert_admin admin s) (\<lambda>_.
     and_then (panic_if (st_is_paused s) StAlreadyPaused) (\<lambda>_.
     Inr ((), s\<lparr>st_paused := Some True\<rparr>))))"

definition st_unpause :: "env \<Rightarrow> address \<Rightarrow> 'w st_state \<Rightarrow> st_error + unit \<times> 'w st_state" where
  "st_unpause e admin s =
     and_then (require_auth StAuth e admin) (\<lambda>_.
     and_then (st_assert_admin admin s) (\<lambda>_.
     and_then (panic_if (\<not> st_is_paused s) StNotPaused) (\<lambda>_.
     Inr ((), s\<lparr>st_paused := Some False\<rparr>))))"

definition st_set_reward_rate :: "env \<Rightarrow> address \<Rightarrow> i128 \<Rightarrow> 'w st_state \<Rightarrow> st_error + unit \<times> 'w st_state" where
  "st_set_reward_rate e admin new_rate s =
     and_then (require_auth StAuth e admin) (\<lambda>_.
     and_then (st_assert_admin admin s) (\<lambda>_.
     and_then (panic_if (new_rate < 0) StRewardRateNegative) (\<lambda>_.
     and_then (st_update_pool e s) (\<lambda>s.
     Inr ((), s\<lparr>st_reward_rate := Some new_rate\<rparr>)))))"

definition st_add_tier ::
  "env \<Rightarrow> address \<Rightarrow> symbol \<Rightarrow> i128 \<Rightarrow> u64 \<Rightarrow> u32 \<Rightarrow> u32 \<Rightarrow> 'w st_state \<Rightarrow> st_error + u32 \<times> 'w st_state" where
  "st_add_tier e admin name min_stake_amount lock_duration_seconds reward_multiplier_bps penalty_bps s =
     and_then (require_auth StAuth e admin) (\<lambda>_.
     and_then (st_assert_admin admin s) (\<lambda>_.
     and_then (panic_if (min_stake_amount \<le> 0) StMinimumStakeMustBePositive) (\<lambda>_.
     and_then (panic_if (lock_duration_seconds = 0) StLockDurationMustBePositive) (\<lambda>_.
     and_then (panic_if (reward_multiplier_bps = 0) StRewardMultiplierMustBePositive) (\<lambda>_.
     and_then (panic_if (penalty_bps > ST_MAX_PENALTY_BPS) StPenaltyExceedsHundredPercent) (\<lambda>_.
     let tier_ids = st_tier_ids s in
     and_then (panic_if (length tier_ids \<ge> MAX_TIERS) StMaximumTiersReached) (\<lambda>_.
     and_then (st_next_tier_id s) (\<lambda>(tier_id, s).
     Inr (tier_id, s\<lparr>st_tier := (st_tier s)(tier_id \<mapsto>
                       \<lparr>ti_tier_id = tier_id, ti_name = name, ti_min_stake_amount = min_stake_amount,
                        ti_lock_duration_seconds = lock_duration_seconds,
                        ti_reward_multiplier_bps = reward_multiplier_bps, ti_penalty_bps = penalty_bps,
                        ti_active = True, ti_created_at = env_timestamp e\<rparr>),
                     st_tier_list := Some (tier_ids @ [tier_id])\<rparr>)))))))))"

text \<open>The five optional changes of \<open>update_tier\<close>, one after the other.\<close>

definition st_change_tier ::
  "symbol option \<Rightarrow> i128 option \<Rightarrow> u64 option \<Rightarrow> u32 option \<Rightarrow> u32 option \<Rightarrow> staking_tier \<Rightarrow> st_error + staking_tier" where
  "st_change_tier new_name new_min_stake_amount new_lock_duration_seconds new_reward_multiplier_bps new_penalty_bps tier =
     (let tier = (case new_name of None \<Rightarrow> tier | Some name \<Rightarrow> tier\<lparr>ti_name := name\<rparr>) in
      and_then (case new_min_stake_amount of
          None \<Rightarrow> Inr tier
        | Some amount \<Rightarrow> and_then (panic_if (amount \<le> 0) StMinimumStakeMustBePositive) (\<lambda>_.
            Inr (tier\<lparr>ti_min_stake_amount := amount\<rparr>))) (\<lambda>tier.
      and_then (case new_lock_duration_seconds of
          None \<Rightarrow> Inr tier
        | Some duration \<Rightarrow> and_then (panic_if (duration = 0) StLockDurationMustBePositive) (\<lambda>_.
            Inr (tier\<lparr>ti_lock_duration_seconds := duration\<rparr>))) (\<lambda>tier.
      and_then (case new_reward_multiplier_bps of
          None \<Rightarrow> Inr tier
        | Some multiplier \<Rightarrow> and_then (panic_if (multiplier = 0) StRewardMultiplierMustBePositive) (\<lambda>_.
            Inr (tier\<lparr>ti_reward_multiplier_bps := multiplier\<rparr>))) (\<lambda>tier.
      case new_penalty_bps of
          None \<Rightarrow> Inr tier
        | Some penalty \<Rightarrow> and_then (panic_if (penalty > ST_MAX_PENALTY_BPS) StPenaltyExceedsHundredPercent) (\<lambda>_.
            Inr (tier\<lparr>ti_penalty_bps := penalty\<rparr>))))))"

definition st_update_tier ::
  "env \<Rightarrow> address \<Rightarrow> u32 \<Rightarrow> symbol option \<Rightarrow> i128 option \<Rightarrow> u64 option \<Rightarrow> u32 option \<Rightarrow> u32 option \<Rightarrow>
   'w st_state \<Rightarrow> st_error + staking_tier \<times> 'w st_state" where
  "st_update_tier e admin tier_id new_name new_min new_duration new_multiplier new_penalty s =
     and_then (require_auth StAuth e admin) (\<lambda>_.
     and_then (st_assert_admin admin s) (\<lambda>_.
     and_then (st_load_tier tier_id s) (\<lambda>tier.
     and_then (panic_if (\<not> ti_active tier) StTierNotActive) (\<lambda>_.
     and_then (st_change_tier new_name new_min new_duration new_multiplier new_penalty tier) (\<lambda>tier.
     Inr (tier, s\<lparr>st_tier := (st_tier s)(tier_id \<mapsto> tier)\<rparr>))))))"

definition st_deactivate_tier :: "env \<Rightarrow> address \<Rightarrow> u32 \<Rightarrow> 'w st_state \<Rightarrow> st_error + unit \<times> 'w st_state" where
  "st_deactivate_tier e admin tier_id s =
     and_then (require_auth StAuth e admin) (\<lambda>_.
     and_then (st_assert_admin admin s) (\<lambda>_.
     and_then (st_load_tier tier_id s) (\<lambda>tier.
     and_then (panic_if (\<not> ti_active tier) StTierAlreadyInactive) (\<lambda>_.
     Inr ((), s\<lparr>st_tier := (st_tier s)(tier_id \<mapsto> tier\<lparr>ti_active := False\<rparr>)\<rparr>)))))"

section \<open>Staking\<close>

definition st_stake ::
  "'w token_transfer \<Rightarrow> env \<Rightarrow> address \<Rightarrow> i128 \<Rightarrow> u32 \<Rightarrow> 'w st_state \<Rightarrow> st_error + stake_result \<times> 'w st_state" where
  "st_stake tr e user amount tier_id s =
     and_then (require_auth StAuth e user) (\<lambda>_.
     and_then (panic_if (st_is_paused s) StStakingPaused) (\<lambda>_.
     and_then (panic_if (amount \<le> 0) StStakeAmountMustBePositive) (\<lambda>_.
     and_then (st_load_tier tier_id s) (\<lambda>tier.
     and_then (panic_if (\<not> ti_active tier) StTierNotActive) (\<lambda>_.
     and_then (panic_if (amount < ti_min_stake_amount tier) StAmountBelowTierMinimum) (\<lambda>_.
     and_then (st_update_pool e s) (\<lambda>s.
     let now = env_timestamp e in
     and_then (ok_or StLockEndTimeOverflow (checked_add_u64 now (ti_lock_duration_seconds tier))) (\<lambda>lock_end_time.
     let current_rpt = st_reward_per_token_stored s in
     and_then (st_next_stake_id s) (\<lambda>(stake_id, s).
     let position = \<lparr>sp_stake_id = stake_id, sp_user = user, sp_amount = amount, sp_tier_id = tier_id,
           sp_stake_time = now, sp_lock_end_time = lock_end_time, sp_reward_per_token_paid = current_rpt,
           sp_active = True\<rparr>;
         s = st_add_user_stake user stake_id (s\<lparr>st_position := (st_position s)(stake_id \<mapsto> position)\<rparr>) in
     and_then (ok_or StTotalStakedOverflow (checked_add_i128 (st_total_staked s) amount)) (\<lambda>new_total.
     let s = s\<lparr>st_staked := Some new_total\<rparr> in
     and_then (st_calculate_weight amount (ti_reward_multiplier_bps tier)) (\<lambda>user_weight.
     and_then (ok_or StTotalWeightedOverflow (checked_add_i128 (st_total_weighted_stake s) user_weight)) (\<lambda>new_weighted.
     let s = s\<lparr>st_weighted := Some new_weighted\<rparr> in
     and_then (st_get_reward_token s) (\<lambda>token.
     and_then (st_transfer_token tr e token user (env_self e) amount s) (\<lambda>s.
     Inr (\<lparr>sr_stake_id = stake_id, sr_amount = amount, sr_tier_id = tier_id, sr_lock_end_time = lock_end_time\<rparr>, s)))))))))))))))"

text \<open>The lines by which \<open>unstake\<close>, \<open>emergency_withdraw\<close> and \<open>emergency_withdraw_all\<close> close a
  position: it is deactivated, and its amount and weight leave the totals.\<close>

definition st_release :: "u64 \<Rightarrow> stake_position \<Rightarrow> staking_tier \<Rightarrow> 'w st_state \<Rightarrow> st_error + 'w st_state" where
  "st_release stake_id position tier s =
     (let s = s\<lparr>st_position := (st_position s)(stake_id \<mapsto> position\<lparr>sp_active := False\<rparr>)\<rparr> in
      and_then (ok_or StTotalStakedUnderflow (checked_sub_i128 (st_total_staked s) (sp_amount position))) (\<lambda>new_total.
      let s = s\<lparr>st_staked := Some new_total\<rparr> in
      and_then (st_calculate_weight (sp_amount position) (ti_reward_multiplier_bps tier)) (\<lambda>user_weight.
      and_then (ok_or StTotalWeightedUnderflow (checked_sub_i128 (st_total_weighted_stake s) user_weight)) (\<lambda>new_weighted.
      Inr (s\<lparr>st_weighted := Some new_weighted\<rparr>)))))"

definition st_penalty_split :: "env \<Rightarrow> stake_position \<Rightarrow> staking_tier \<Rightarrow> st_error + i128 \<times> i128" where
  "st_penalty_split e position tier =
     (if env_timestamp e < sp_lock_end_time position then
        and_then (st_calculate_penalty (sp_amount position) (ti_penalty_bps tier)) (\<lambda>penalty.
        and_then (ok_or StPenaltyExceedsPrincipal (checked_sub_i128 (sp_amount position) penalty)) (\<lambda>net_principal.
        Inr (penalty, net_principal)))
      else Inr (0, sp_amount position))"

definition st_record_rewards :: "i128 \<Rightarrow> 'w st_state \<Rightarrow> st_error + 'w st_state" where
  "st_record_rewards amount s =
     and_then (ok_or StTotalRewardsOverflow (checked_add_i128 (st_total_rewards_distributed s) amount)) (\<lambda>new_total_rewards.
     Inr (s\<lparr>st_distributed := Some new_total_rewards\<rparr>))"

definition st_pay_positive ::
  "'w token_transfer \<Rightarrow> env \<Rightarrow> address \<Rightarrow> address \<Rightarrow> i128 \<Rightarrow> 'w st_state \<Rightarrow> st_error + 'w st_state" where
  "st_pay_positive tr e token user amount s =
     (if amount > 0 then st_transfer_token_unchecked tr e token (env_self e) user amount s else Inr s)"

definition st_unstake ::
  "'w token_transfer \<Rightarrow> env \<Rightarrow> address \<Rightarrow> u64 \<Rightarrow> 'w st_state \<Rightarrow> st_error + unstake_result \<times> 'w st_state" where
  "st_unstake tr e user stake_id s =
     and_then (require_auth StAuth e user) (\<lambda>_.
     and_then (st_load_stake stake_id s) (\<lambda>position.
     and_then (panic_if (sp_user position \<noteq> user) StOnlyStaker) (\<lambda>_.
     and_then (panic_if (\<not> sp_active position) StStakeNotActive) (\<lambda>_.
     and_then (st_load_tier (sp_tier_id position) s) (\<lambda>tier.
     and_then (st_calculate_pending_rewards_static e position (ti_reward_multiplier_bps tier) s) (\<lambda>pending_rewards.
     and_then (st_update_pool e s) (\<lambda>s.
     and_then (st_penalty_split e position tier) (\<lambda>(penalty_amount, principal_returned).
     and_then (ok_or StTotalReturnedOverflow (checked_add_i128 principal_returned pending_rewards)) (\<lambda>total_returned.
     and_then (st_release stake_id position tier s) (\<lambda>s.
     and_then (if pending_rewards > 0 then st_record_rewards pending_rewards s else Inr s) (\<lambda>s.
     and_then (st_get_reward_token s) (\<lambda>token.
     and_then (st_enter_non_reentrant s) (\<lambda>s.
     and_then (st_pay_positive tr e token user principal_returned s) (\<lambda>s.
     and_then (st_pay_positive tr e token user pending_rewards s) (\<lambda>s.
     Inr (\<lparr>ur_stake_id = stake_id, ur_principal_returned = principal_returned, ur_rewards_claimed = pending_rewards,
           ur_penalty_amount = penalty_amount, ur_total_returned = total_returned\<rparr>,
          st_exit_non_reentrant s))))))))))))))))"

section \<open>Claims\<close>

definition st_claim_rewards ::
  "'w token_transfer \<Rightarrow> env \<Rightarrow> address \<Rightarrow> u64 \<Rightarrow> 'w st_state \<Rightarrow> st_error + i128 \<times> 'w st_state" where
  "st_claim_rewards tr e user stake_id s =
     and_then (require_auth StAuth e user) (\<lambda>_.
     and_then (st_load_stake stake_id s) (\<lambda>position.
     and_then (panic_if (sp_user position \<noteq> user) StOnlyStaker) (\<lambda>_.
     and_then (panic_if (\<not> sp_active position) StStakeNotActive) (\<lambda>_.
     and_then (st_load_tier (sp_tier_id position) s) (\<lambda>tier.
     and_then (st_calculate_pending_rewards_static e position (ti_reward_multiplier_bps tier) s) (\<lambda>pending_rewards.
     and_then (panic_if (pending_rewards \<le> 0) StNoRewardsToClaim) (\<lambda>_.
     and_then (st_update_pool e s) (\<lambda>s.
     let s = s\<lparr>st_position := (st_position s)(stake_id \<mapsto>
               position\<lparr>sp_reward_per_token_paid := st_reward_per_token_stored s\<rparr>)\<rparr> in
     and_then (st_record_rewards pending_rewards s) (\<lambda>s.
     and_then (st_get_reward_token s) (\<lambda>token.
     and_then (st_transfer_token tr e token (env_self e) user pending_rewards s) (\<lambda>s.
     Inr (pending_rewards, s))))))))))))"

text \<open>The two passes of \<open>claim_rewards_batch\<close>.\<close>

fun st_pending_all :: "env \<Rightarrow> address \<Rightarrow> u64 list \<Rightarrow> 'w st_state \<Rightarrow> st_error + i128 list" where
  "st_pending_all e user [] s = Inr []"
| "st_pending_all e user (stake_id # ids) s =
     and_then (st_load_stake stake_id s) (\<lambda>position.
     and_then (panic_if (sp_user position \<noteq> user) StOnlyStaker) (\<lambda>_.
     and_then (panic_if (\<not> sp_active position) StStakeNotActive) (\<lambda>_.
     and_then (st_load_tier (sp_tier_id position) s) (\<lambda>tier.
     and_then (st_calculate_pending_rewards_static e position (ti_reward_multiplier_bps tier) s) (\<lambda>pending.
     and_then (st_pending_all e user ids s) (\<lambda>rest.
     Inr (pending # rest)))))))"

fun st_settle_all :: "i128 \<Rightarrow> (u64 \<times> i128) list \<Rightarrow> i128 \<Rightarrow> 'w st_state \<Rightarrow> st_error + i128 \<times> 'w st_state" where
  "st_settle_all current_rpt [] total_claimed s = Inr (total_claimed, s)"
| "st_settle_all current_rpt ((stake_id, pending) # rest) total_claimed s =
     (if pending > 0 then
        and_then (st_load_stake stake_id s) (\<lambda>position.
        let s = s\<lparr>st_position := (st_position s)(stake_id \<mapsto> position\<lparr>sp_reward_per_token_paid := current_rpt\<rparr>)\<rparr> in
        and_then (ok_or StTotalClaimedOverflow (checked_add_i128 total_claimed pending)) (\<lambda>total_claimed.
        st_settle_all current_rpt rest total_claimed s))
      else st_settle_all current_rpt rest total_claimed s)"

definition st_claim_rewards_batch ::
  "'w token_transfer \<Rightarrow> env \<Rightarrow> address \<Rightarrow> u64 list \<Rightarrow> 'w st_state \<Rightarrow> st_error + i128 \<times> 'w st_state" where
  "st_claim_rewards_batch tr e user stake_ids s =
     and_then (require_auth StAuth e user) (\<lambda>_.
     and_then (panic_if (stake_ids = []) StNoStakesProvided) (\<lambda>_.
     and_then (panic_if (length stake_ids > ST_MAX_BATCH_SIZE) StBatchExceedsMaximumSize) (\<lambda>_.
     and_then (st_pending_all e user stake_ids s) (\<lambda>pending_list.
     and_then (st_update_pool e s) (\<lambda>s.
     let current_rpt = st_reward_per_token_stored s in
     and_then (st_settle_all current_rpt (zip stake_ids pending_list) 0 s) (\<lambda>(total_claimed, s).
     and_then (panic_if (total_claimed \<le> 0) StNoRewardsToClaim) (\<lambda>_.
     and_then (st_record_rewards total_claimed s) (\<lambda>s.
     and_then (st_get_reward_token s) (\<lambda>token.
     and_then (st_transfer_token tr e token (env_self e) user total_claimed s) (\<lambda>s.
     Inr (total_claimed, s)))))))))))"

section \<open>Emergency withdrawal and funding\<close>

definition st_emergency_withdraw ::
  "'w token_transfer \<Rightarrow> env \<Rightarrow> address \<Rightarrow> address \<Rightarrow> u64 \<Rightarrow> 'w st_state \<Rightarrow> st_error + unstake_result \<times> 'w st_state" where
  "st_emergency_withdraw tr e admin user stake_id s =
     and_then (require_auth StAuth e admin) (\<lambda>_.
     and_then (st_assert_admin admin s) (\<lambda>_.
     and_then (st_load_stake stake_id s) (\<lambda>position.
     and_then (panic_if (sp_user position \<noteq> user) StStakeNotOfUser) (\<lambda>_.
     and_then (panic_if (\<not> sp_active position) StStakeNotActive) (\<lambda>_.
     and_then (st_load_tier (sp_tier_id position) s) (\<lambda>tier.
     let principal_returned = sp_amount position in
     and_then (st_release stake_id position tier s) (\<lambda>s.
     and_then (st_get_reward_token s) (\<lambda>token.
     and_then (st_transfer_token tr e token (env_self e) user principal_returned s) (\<lambda>s.
     Inr (\<lparr>ur_stake_id = stake_id, ur_principal_returned = principal_returned, ur_rewards_claimed = 0,
           ur_penalty_amount = 0, ur_total_returned = principal_returned\<rparr>, s))))))))))"

fun st_release_all :: "address \<Rightarrow> u64 list \<Rightarrow> i128 \<Rightarrow> 'w st_state \<Rightarrow> st_error + i128 \<times> 'w st_state" where
  "st_release_all user [] total_returned s = Inr (total_returned, s)"
| "st_release_all user (stake_id # ids) total_returned s =
     and_then (st_load_stake stake_id s) (\<lambda>position.
     if sp_user position \<noteq> user \<or> \<not> sp_active position then st_release_all user ids total_returned s
     else
       and_then (st_load_tier (sp_tier_id position) s) (\<lambda>tier.
       and_then (st_release stake_id position tier s) (\<lambda>s.
       and_then (ok_or StTotalReturnedOverflow (checked_add_i128 total_returned (sp_amount position))) (\<lambda>total_returned.
       st_release_all user ids total_returned s))))"

definition st_emergency_withdraw_all ::
  "'w token_transfer \<Rightarrow> env \<Rightarrow> address \<Rightarrow> address \<Rightarrow> 'w st_state \<Rightarrow> st_error + i128 \<times> 'w st_state" where
  "st_emergency_withdraw_all tr e admin user s =
     and_then (require_auth StAuth e admin) (\<lambda>_.
     and_then (st_assert_admin admin s) (\<lambda>_.
     and_then (st_release_all user (st_user_stake_ids user s) 0 s) (\<lambda>(total_returned, s).
     if total_returned > 0 then
       and_then (st_get_reward_token s) (\<lambda>token.
       and_then (st_transfer_token tr e token (env_self e) user total_returned s) (\<lambda>s.
       Inr (total_returned, s)))
     else Inr (total_returned, s))))"

definition st_fund_rewards ::
  "'w token_transfer \<Rightarrow> env \<Rightarrow> address \<Rightarrow> i128 \<Rightarrow> 'w st_state \<Rightarrow> st_error + unit \<times> 'w st_state" where
  "st_fund_rewards tr e funder amount s =
     and_then (require_auth StAuth e funder) (\<lambda>_.
     and_then (panic_if (amount \<le> 0) StAmountMustBePositive) (\<lambda>_.
     and_then (st_get_reward_token s) (\<lambda>token.
     and_then (st_transfer_token tr e token funder (env_self e) amount s) (\<lambda>s.
     Inr ((), s)))))"

section \<open>Views\<close>

fun st_load_all :: "u64 list \<Rightarrow> 'w st_state \<Rightarrow> st_error + stake_position list" where
  "st_load_all [] s = Inr []"
| "st_load_all (stake_id # ids) s =
     and_then (st_load_stake stake_id s) (\<lambda>position.
     and_then (st_load_all ids s) (\<lambda>rest. Inr (position # rest)))"

definition st_get_user_stakes :: "address \<Rightarrow> 'w st_state \<Rightarrow> st_error + stake_position list" where
  "st_get_user_stakes user s = st_load_all (st_user_stake_ids user s) s"

definition st_get_pending_rewards :: "env \<Rightarrow> u64 \<Rightarrow> 'w st_state \<Rightarrow> st_error + i128" where
  "st_get_pending_rewards e stake_id s =
     and_then (st_load_stake stake_id s) (\<lambda>position.
     if \<not> sp_active position then Inr 0
     else
       and_then (st_load_tier (sp_tier_id position) s) (\<lambda>tier.
       st_calculate_pending_rewards_static e position (ti_reward_multiplier_bps tier) s))"

definition st_get_staking_info :: "'w st_state \<Rightarrow> st_error + staking_info" where
  "st_get_staking_info s =
     and_then (st_get_admin s) (\<lambda>admin.
     and_then (st_get_reward_token s) (\<lambda>reward_token.
     Inr \<lparr>si_admin = admin, si_reward_token = reward_token, si_total_staked = st_total_staked s,
          si_total_rewards_distributed = st_total_rewards_distributed s,
          si_reward_rate_per_second = st_reward_rate_per_second s, si_last_reward_time = st_last_reward_time s,
          si_paused = st_is_paused s, si_tier_count = length (st_tier_ids s)\<rparr>))"

definition st_calculate_apy :: "u32 \<Rightarrow> 'w st_state \<Rightarrow> st_error + i128" where
  "st_calculate_apy tier_id s =
     and_then (st_load_tier tier_id s) (\<lambda>tier.
     let total_staked = st_total_staked s; reward_rate = st_reward_rate_per_second s in
     if total_staked \<le> 0 \<or> reward_rate \<le> 0 then Inr 0
     else
       and_then (ok_or StAnnualRewardsOverflow (checked_mul_i128 reward_rate 31557600)) (\<lambda>annual_rewards.
       and_then (ok_or StAdjustedRewardsOverflow (checked_mul_i128 annual_rewards (int (ti_reward_multiplier_bps tier)))) (\<lambda>adjusted_rewards.
       and_then (ok_or StApyOverflow (checked_mul_i128 adjusted_rewards PRECISION_FACTOR)) (\<lambda>p.
       Inr (div_i128 (div_i128 p total_staked) ST_BPS_DENOMINATOR)))))"

section \<open>Calls\<close>

datatype st_call =
    StInitialize address address i128
  | StPause address
  | StUnpause address
  | StSetRewardRate address i128
  | StAddTier address symbol i128 u64 u32 u32
  | StUpdateTier address u32 "symbol option" "i128 option" "u64 option" "u32 option" "u32 option"
  | StDeactivateTier address u32
  | StStake address i128 u32
  | StUnstake address u64
  | StClaimRewards address u64
  | StClaimRewardsBatch address "u64 list"
  | StEmergencyWithdraw address address u64
  | StEmergencyWithdrawAll address address
  | StFundRewards address i128

fun st_exec :: "'w token_transfer \<Rightarrow> env \<Rightarrow> st_call \<Rightarrow> 'w st_state \<Rightarrow> 'w st_state option" where
  "st_exec tr e (StInitialize a t r) s = state_of (st_initialize e a t r s)"
| "st_exec tr e (StPause a) s = state_of (st_pause e a s)"
| "st_exec tr e (StUnpause a) s = state_of (st_unpause e a s)"
| "st_exec tr e (StSetRewardRate a r) s = state_of (st_set_reward_rate e a r s)"
| "st_exec tr e (StAddTier a n m d r p) s = state_of (st_add_tier e a n m d r p s)"
| "st_exec tr e (StUpdateTier a i n m d r p) s = state_of (st_update_tier e a i n m d r p s)"
| "st_exec tr e (StDeactivateTier a i) s = state_of (st_deactivate_tier e a i s)"
| "st_exec tr e (StStake u n i) s = state_of (st_stake tr e u n i s)"
| "st_exec tr e (StUnstake u i) s = state_of (st_unstake tr e u i s)"
| "st_exec tr e (StClaimRewards u i) s = state_of (st_claim_rewards tr e u i s)"
| "st_exec tr e (StClaimRewardsBatch u is) s = state_of (st_claim_rewards_batch tr e u is s)"
| "st_exec tr e (StEmergencyWithdraw a u i) s = state_of (st_emergency_withdraw tr e a u i s)"
| "st_exec tr e (StEmergencyWithdrawAll a u) s = state_of (st_emergency_withdraw_all tr e a u s)"
| "st_exec tr e (StFundRewards f n) s = state_of (st_fund_rewards tr e f n s)"

end
