(* ===== verification/Staking_Correct.thy ===== *)
theory Staking_Correct
  imports Staking
begin

text \<open>
  What the operations of Staking do and the invariants of the contract.
\<close>

section \<open>What the operations do\<close>

lemmas st_getters = st_user_stake_ids_def st_tier_ids_def st_stake_counter_def st_tier_counter_def st_total_staked_def
  st_total_weighted_stake_def st_total_rewards_distributed_def st_last_reward_time_def st_reward_per_token_stored_def
  st_reward_rate_per_second_def st_is_paused_def

lemmas st_checks = st_assert_admin_def st_get_admin_def st_get_reward_token_def st_load_stake_def st_load_tier_def

lemma st_load_stake_Inr [result_iffs]: "st_load_stake i s = Inr p \<longleftrightarrow> i \<noteq> 0 \<and> st_position s i = Some p"
  by (auto simp: st_load_stake_def result_iffs)

lemma st_load_tier_Inr [result_iffs]: "st_load_tier i s = Inr p \<longleftrightarrow> i \<noteq> 0 \<and> st_tier s i = Some p"
  by (auto simp: st_load_tier_def result_iffs)

lemma st_get_reward_token_Inr [result_iffs]: "st_get_reward_token s = Inr a \<longleftrightarrow> st_reward_token s = Some a"
  by (auto simp: st_get_reward_token_def result_iffs)

lemma st_assert_admin_Inr [result_iffs]: "st_assert_admin a s = Inr u \<longleftrightarrow> st_admin s = Some a"
  by (auto simp: st_assert_admin_def st_get_admin_def result_iffs)

lemma st_next_stake_id_Inr [result_iffs]:
  "st_next_stake_id s = Inr r \<longleftrightarrow> st_stake_counter s + 1 \<le> u64_max \<and>
     r = (st_stake_counter s + 1, s\<lparr>st_stake_count := Some (st_stake_counter s + 1)\<rparr>)"
  by (auto simp: st_next_stake_id_def result_iffs)

lemma st_record_rewards_Inr [result_iffs]:
  "st_record_rewards n s = Inr s' \<longleftrightarrow> in_i128 (st_total_rewards_distributed s + n) \<and>
     s' = s\<lparr>st_distributed := Some (st_total_rewards_distributed s + n)\<rparr>"
  by (auto simp: st_record_rewards_def result_iffs)

lemma st_transfer_token_Inr [result_iffs]:
  "st_transfer_token tr e tok src dst n s = Inr s' \<longleftrightarrow>
     (\<exists>w'. \<not> unwrap_or False (st_reentrancy_lock s) \<and> 0 < n \<and> tr e tok src dst n (st_tokens s) = Some w' \<and>
       s' = s\<lparr>st_reentrancy_lock := Some False, st_tokens := w'\<rparr>)"
  by (auto simp: st_transfer_token_def st_enter_non_reentrant_def st_exit_non_reentrant_def
      st_transfer_token_unchecked_def result_iffs)

definition st_weight_of :: "i128 \<Rightarrow> staking_tier \<Rightarrow> i128" where
  "st_weight_of amount tier = amount * int (ti_reward_multiplier_bps tier) div 10000"

lemma st_weight_of_nonneg: "0 \<le> n \<Longrightarrow> 0 \<le> st_weight_of n tier"
  by (simp add: st_weight_of_def pos_imp_zdiv_nonneg_iff)

lemma st_calculate_weight_Inr:
  "0 \<le> n \<Longrightarrow> st_calculate_weight n (ti_reward_multiplier_bps tier) = Inr v \<longleftrightarrow>
     in_i128 (n * int (ti_reward_multiplier_bps tier)) \<and> v = st_weight_of n tier"
  by (auto simp: st_calculate_weight_def st_weight_of_def result_iffs div_i128_nonneg ST_BPS_DENOMINATOR_def)

text \<open>The pool update: the accumulator grows by the emission since the last update per unit of weight.\<close>

definition st_pool_gain :: "env \<Rightarrow> 'w st_state \<Rightarrow> i128" where
  "st_pool_gain e s =
     (if st_last_reward_time s < env_timestamp e \<and> 0 < st_total_weighted_stake s
      then st_reward_rate_per_second s * int (env_timestamp e - st_last_reward_time s) * PRECISION_FACTOR
             div st_total_weighted_stake s
      else 0)"

lemma st_increment_Inr:
  "0 \<le> r \<Longrightarrow> 0 < wt \<Longrightarrow> st_increment r n wt = Inr v \<longleftrightarrow>
     in_i128 (r * int n) \<and> in_i128 (r * int n * PRECISION_FACTOR) \<and> v = r * int n * PRECISION_FACTOR div wt"
  by (auto simp: st_increment_def result_iffs div_i128_nonneg PRECISION_FACTOR_def)

lemma st_pool_gain_nonneg: "0 \<le> st_reward_rate_per_second s \<Longrightarrow> 0 \<le> st_pool_gain e s"
  by (simp add: st_pool_gain_def pos_imp_zdiv_nonneg_iff PRECISION_FACTOR_def)

lemma st_update_pool_Inr:
  assumes "st_update_pool e s = Inr s'" and "0 \<le> st_reward_rate_per_second s"
  shows "\<exists>r l. s' = s\<lparr>st_rpt_stored := r, st_last_time := l\<rparr> \<and>
    unwrap_or 0 r = st_reward_per_token_stored s + st_pool_gain e s \<and>
    unwrap_or 0 l = max (env_timestamp e) (st_last_reward_time s)"
proof (cases "env_timestamp e \<le> st_last_reward_time s")
  case True
  then have "s' = s" using assms(1) by (simp add: st_update_pool_def)
  then show ?thesis
    using True by (intro exI [of _ "st_rpt_stored s"] exI [of _ "st_last_time s"])
      (auto simp: st_pool_gain_def st_getters)
next
  case False
  show ?thesis
  proof (cases "st_total_weighted_stake s \<le> 0")
    case True
    with False assms(1) have "s' = s\<lparr>st_last_time := Some (env_timestamp e)\<rparr>"
      by (simp add: st_update_pool_def)
    then show ?thesis
      using True False by (intro exI [of _ "st_rpt_stored s"] exI [of _ "Some (env_timestamp e)"])
        (auto simp: st_pool_gain_def st_getters)
  next
    case pos: False
    with False assms have "s' = s\<lparr>st_rpt_stored := Some (st_reward_per_token_stored s + st_pool_gain e s),
        st_last_time := Some (env_timestamp e)\<rparr>"
      by (auto simp: st_update_pool_def st_pool_gain_def Let_def result_iffs st_increment_Inr)
    then show ?thesis
      using False by (intro exI [of _ "Some (st_reward_per_token_stored s + st_pool_gain e s)"] exI [of _ "Some (env_timestamp e)"]) auto
  qed
qed

lemma st_update_pool_frame:
  assumes "st_update_pool e s = Inr s'" and "0 \<le> st_reward_rate_per_second s"
  shows "st_admin s' = st_admin s" "st_reward_token s' = st_reward_token s" "st_reward_rate_per_second s' = st_reward_rate_per_second s"
    "st_total_weighted_stake s' = st_total_weighted_stake s" "st_total_staked s' = st_total_staked s"
    "st_total_rewards_distributed s' = st_total_rewards_distributed s" "st_stake_counter s' = st_stake_counter s"
    "st_position s' = st_position s" "st_user_ids s' = st_user_ids s" "st_tier_counter s' = st_tier_counter s"
    "st_tier s' = st_tier s" "st_tier_ids s' = st_tier_ids s" "st_reentrancy_lock s' = st_reentrancy_lock s"
    "st_tokens s' = st_tokens s" "st_paused s' = st_paused s"
    "st_reward_per_token_stored s' = st_reward_per_token_stored s + st_pool_gain e s"
    "st_last_reward_time s' = max (env_timestamp e) (st_last_reward_time s)"
  using st_update_pool_Inr [OF assms] by (auto simp: st_getters)

text \<open>The pending rewards of a position, read before the update, are those of the updated accumulator.\<close>

lemma st_future_rpt_Inr:
  "0 \<le> st_reward_rate_per_second s \<Longrightarrow> 0 < st_total_weighted_stake s \<Longrightarrow>
   st_future_rpt e (st_total_weighted_stake s) s = Inr r \<Longrightarrow> r = st_reward_per_token_stored s + st_pool_gain e s"
  by (auto simp: st_future_rpt_def st_pool_gain_def Let_def result_iffs st_increment_Inr split: if_splits)

lemma st_pending_Inr:
  assumes "st_calculate_pending_rewards_static e p (ti_reward_multiplier_bps tier) s = Inr v"
    and "0 \<le> st_reward_rate_per_second s" and "0 \<le> sp_amount p" and "sp_reward_per_token_paid p \<le> st_reward_per_token_stored s"
    and "sp_active p"
  shows "v = (if 0 < st_total_weighted_stake s
      then (st_reward_per_token_stored s + st_pool_gain e s - sp_reward_per_token_paid p) * st_weight_of (sp_amount p) tier div PRECISION_FACTOR
      else 0)"
proof (cases "0 < st_total_weighted_stake s")
  case True
  with assms obtain r where r: "st_future_rpt e (st_total_weighted_stake s) s = Inr r"
    and v: "v = div_i128 ((r - sp_reward_per_token_paid p) * st_weight_of (sp_amount p) tier) PRECISION_FACTOR"
    by (auto simp: st_calculate_pending_rewards_static_def Let_def result_iffs st_calculate_weight_Inr)
  have "0 \<le> r - sp_reward_per_token_paid p"
    using st_future_rpt_Inr [OF assms(2) True r] st_pool_gain_nonneg [OF assms(2), of e] assms(4) by linarith
  then show ?thesis
    using True v st_future_rpt_Inr [OF assms(2) True r] st_weight_of_nonneg [OF assms(3)]
    by (simp add: div_i128_nonneg PRECISION_FACTOR_def)
qed (use assms in \<open>simp add: st_calculate_pending_rewards_static_def\<close>)

lemma st_release_Inr:
  "0 \<le> sp_amount p \<Longrightarrow> st_release i p tier s = Inr s' \<longleftrightarrow>
     in_i128 (st_total_staked s - sp_amount p) \<and> in_i128 (sp_amount p * int (ti_reward_multiplier_bps tier)) \<and>
     in_i128 (st_total_weighted_stake s - st_weight_of (sp_amount p) tier) \<and>
     s' = s\<lparr>st_position := (st_position s)(i \<mapsto> p\<lparr>sp_active := False\<rparr>), st_staked := Some (st_total_staked s - sp_amount p),
            st_weighted := Some (st_total_weighted_stake s - st_weight_of (sp_amount p) tier)\<rparr>"
  by (auto simp: st_release_def Let_def result_iffs st_calculate_weight_Inr st_getters)

lemma st_penalty_split_Inr:
  assumes "st_penalty_split e p tier = Inr (pen, net)" and "0 \<le> sp_amount p" and "ti_penalty_bps tier \<le> 10000"
  shows "pen = (if env_timestamp e < sp_lock_end_time p then sp_amount p * int (ti_penalty_bps tier) div 10000 else 0) \<and>
    net = sp_amount p - pen \<and> 0 \<le> pen \<and> 0 \<le> net"
proof -
  have b: "0 \<le> sp_amount p * int (ti_penalty_bps tier) div 10000 \<and> sp_amount p * int (ti_penalty_bps tier) div 10000 \<le> sp_amount p"
    using assms by (intro div_fraction_bounds) auto
  show ?thesis
    using assms(1,2) b
    by (auto simp: st_penalty_split_def st_calculate_penalty_def result_iffs div_i128_nonneg ST_BPS_DENOMINATOR_def split: if_splits)
qed

lemma st_stake_Inr:
  assumes "st_stake tr e user n ti s = Inr (r, s')" and "0 \<le> st_reward_rate_per_second s"
  obtains tier s1 tok w' where "env_auth e user" and "0 < n" and "ti \<noteq> 0" and "st_tier s ti = Some tier" and "ti_active tier"
    and "ti_min_stake_amount tier \<le> n" and "st_update_pool e s = Inr s1"
    and "st_reward_token s1 = Some tok" and "tr e tok user (env_self e) n (st_tokens s1) = Some w'"
    and "in_i128 (n * int (ti_reward_multiplier_bps tier))" and "\<not> st_is_paused s"
    and "in_i128 (st_total_staked s1 + n)" and "in_i128 (st_total_weighted_stake s1 + st_weight_of n tier)"
    and "s' = s1\<lparr>st_stake_count := Some (st_stake_counter s1 + 1),
      st_position := (st_position s1)(st_stake_counter s1 + 1 \<mapsto> \<lparr>sp_stake_id = st_stake_counter s1 + 1, sp_user = user, sp_amount = n,
        sp_tier_id = ti, sp_stake_time = env_timestamp e, sp_lock_end_time = env_timestamp e + ti_lock_duration_seconds tier,
        sp_reward_per_token_paid = st_reward_per_token_stored s1, sp_active = True\<rparr>),
      st_user_ids := (st_user_ids s1)(user \<mapsto> st_user_stake_ids user s1 @ [st_stake_counter s1 + 1]),
      st_staked := Some (st_total_staked s1 + n), st_weighted := Some (st_total_weighted_stake s1 + st_weight_of n tier),
      st_reentrancy_lock := Some False, st_tokens := w'\<rparr>"
    and "r = \<lparr>sr_stake_id = st_stake_counter s1 + 1, sr_amount = n, sr_tier_id = ti,
      sr_lock_end_time = env_timestamp e + ti_lock_duration_seconds tier\<rparr>"
proof -
  from assms(1) have pos: "0 < n" by (auto simp: st_stake_def result_iffs)
  from assms(1) that show thesis
    by (auto simp: st_stake_def Let_def result_iffs pos st_calculate_weight_Inr st_add_user_stake_def st_getters)
qed

lemma st_pay_positive_Inr [result_iffs]:
  "st_pay_positive tr e tok user n s = Inr s' \<longleftrightarrow>
     (\<exists>w. s' = s\<lparr>st_tokens := w\<rparr> \<and> (0 < n \<longrightarrow> tr e tok (env_self e) user n (st_tokens s) = Some w) \<and> (n \<le> 0 \<longrightarrow> w = st_tokens s))"
  by (auto simp: st_pay_positive_def st_transfer_token_unchecked_def result_iffs)

lemma st_unstake_Inr:
  assumes "st_unstake tr e user i s = Inr (r, s')"
  obtains p tier pend s1 pen net s2 dd tok w1 w2 where "env_auth e user" and "st_position s i = Some p" and "sp_user p = user"
    and "sp_active p" and "st_tier s (sp_tier_id p) = Some tier"
    and "st_calculate_pending_rewards_static e p (ti_reward_multiplier_bps tier) s = Inr pend"
    and "st_update_pool e s = Inr s1" and "st_penalty_split e p tier = Inr (pen, net)" and "in_i128 (net + pend)"
    and "st_release i p tier s1 = Inr s2"
    and "0 < pend \<Longrightarrow> dd = Some (st_total_rewards_distributed s2 + pend)" and "pend \<le> 0 \<Longrightarrow> dd = st_distributed s2"
    and "st_reward_token s2 = Some tok" and "\<not> unwrap_or False (st_reentrancy_lock s2)"
    and "0 < net \<longrightarrow> tr e tok (env_self e) user net (st_tokens s2) = Some w1" and "net \<le> 0 \<longrightarrow> w1 = st_tokens s2"
    and "0 < pend \<longrightarrow> tr e tok (env_self e) user pend w1 = Some w2" and "pend \<le> 0 \<longrightarrow> w2 = w1"
    and "s' = s2\<lparr>st_distributed := dd, st_reentrancy_lock := Some False, st_tokens := w2\<rparr>"
    and "r = \<lparr>ur_stake_id = i, ur_principal_returned = net, ur_rewards_claimed = pend, ur_penalty_amount = pen,
      ur_total_returned = net + pend\<rparr>"
proof -
  from assms obtain p tier pend s1 pen net tt s2 s3 tok s4 s5 s6 where raw:
      "require_auth StAuth e user = Inr ()" "st_load_stake i s = Inr p" "panic_if (sp_user p \<noteq> user) StOnlyStaker = Inr ()"
      "panic_if (\<not> sp_active p) StStakeNotActive = Inr ()" "st_load_tier (sp_tier_id p) s = Inr tier"
      "st_calculate_pending_rewards_static e p (ti_reward_multiplier_bps tier) s = Inr pend"
      "st_update_pool e s = Inr s1" "st_penalty_split e p tier = Inr (pen, net)"
      "ok_or StTotalReturnedOverflow (checked_add_i128 net pend) = Inr tt" "st_release i p tier s1 = Inr s2"
    and rec: "(if pend > 0 then st_record_rewards pend s2 else Inr s2) = Inr s3"
    and tok: "st_get_reward_token s3 = Inr tok" and lock: "st_enter_non_reentrant s3 = Inr s4"
    and pay: "st_pay_positive tr e tok user net s4 = Inr s5" "st_pay_positive tr e tok user pend s5 = Inr s6"
    and res: "\<lparr>ur_stake_id = i, ur_principal_returned = net, ur_rewards_claimed = pend,
      ur_penalty_amount = pen, ur_total_returned = tt\<rparr> = r" "st_exit_non_reentrant s6 = s'"
    unfolding st_unstake_def and_then_eq_Inr split_paired_Ex prod.case sum.inject prod.inject
    by (elim exE conjE) (rule that; simp only: unit_all_eq1)
  have steps: "env_auth e user" "st_position s i = Some p" "sp_user p = user" "sp_active p" "st_tier s (sp_tier_id p) = Some tier"
      "st_calculate_pending_rewards_static e p (ti_reward_multiplier_bps tier) s = Inr pend"
      "st_update_pool e s = Inr s1" "st_penalty_split e p tier = Inr (pen, net)" "in_i128 (net + pend)"
      "st_release i p tier s1 = Inr s2"
    using raw by (simp_all add: result_iffs)
  have fin: "s' = st_exit_non_reentrant s6" "r = \<lparr>ur_stake_id = i, ur_principal_returned = net, ur_rewards_claimed = pend,
      ur_penalty_amount = pen, ur_total_returned = net + pend\<rparr>"
    using res raw(9) by (auto simp: result_iffs)
  define dd where "dd = (if pend > 0 then Some (st_total_rewards_distributed s2 + pend) else st_distributed s2)"
  have s3: "s3 = s2\<lparr>st_distributed := dd\<rparr>" using rec by (auto simp: dd_def result_iffs split: if_splits)
  have s4: "\<not> unwrap_or False (st_reentrancy_lock s2)" "s4 = s3\<lparr>st_reentrancy_lock := Some True\<rparr>"
    using lock by (auto simp: st_enter_non_reentrant_def s3 split: if_splits)
  obtain w1 where w1: "s5 = s4\<lparr>st_tokens := w1\<rparr>" "0 < net \<longrightarrow> tr e tok (env_self e) user net (st_tokens s2) = Some w1"
      "net \<le> 0 \<longrightarrow> w1 = st_tokens s2"
    using pay(1) by (auto simp: st_pay_positive_Inr s4 s3)
  obtain w2 where w2: "s6 = s5\<lparr>st_tokens := w2\<rparr>" "0 < pend \<longrightarrow> tr e tok (env_self e) user pend w1 = Some w2"
      "pend \<le> 0 \<longrightarrow> w2 = w1"
    using pay(2) by (auto simp: st_pay_positive_Inr w1)
  show thesis
    by (rule that [of p tier pend s1 pen net s2 dd tok w1 w2, OF steps _ _ _ s4(1) w1(2,3) w2(2,3)])
       (use tok in \<open>simp_all add: dd_def fin w2 w1 s4 s3 st_exit_non_reentrant_def result_iffs\<close>)
qed

lemma st_claim_rewards_Inr:
  assumes "st_claim_rewards tr e user i s = Inr (n, s')"
  obtains p tier s1 tok w' where "env_auth e user" and "st_position s i = Some p" and "sp_user p = user"
    and "sp_active p" and "st_tier s (sp_tier_id p) = Some tier"
    and "st_calculate_pending_rewards_static e p (ti_reward_multiplier_bps tier) s = Inr n" and "0 < n"
    and "st_update_pool e s = Inr s1" and "st_reward_token s1 = Some tok" and "tr e tok (env_self e) user n (st_tokens s1) = Some w'"
    and "s' = s1\<lparr>st_position := (st_position s1)(i \<mapsto> p\<lparr>sp_reward_per_token_paid := st_reward_per_token_stored s1\<rparr>),
      st_distributed := Some (st_total_rewards_distributed s1 + n), st_reentrancy_lock := Some False, st_tokens := w'\<rparr>"
proof -
  from assms obtain p tier s1 s2 tok where steps:
      "env_auth e user" "st_position s i = Some p" "sp_user p = user" "sp_active p" "st_tier s (sp_tier_id p) = Some tier"
      "st_calculate_pending_rewards_static e p (ti_reward_multiplier_bps tier) s = Inr n" "0 < n"
      "st_update_pool e s = Inr s1"
    and s2: "st_record_rewards n (s1\<lparr>st_position := (st_position s1)(i \<mapsto> p\<lparr>sp_reward_per_token_paid := st_reward_per_token_stored s1\<rparr>)\<rparr>) = Inr s2"
    and tok: "st_get_reward_token s2 = Inr tok" "st_transfer_token tr e tok (env_self e) user n s2 = Inr s'"
    unfolding st_claim_rewards_def Let_def by (auto simp only: and_then_eq_Inr panic_if_eq_Inr require_auth_eq_Inr st_load_stake_Inr
        st_load_tier_Inr sum.inject prod.inject not_le not_not)
  from s2 tok show thesis
    by (auto simp: result_iffs st_getters intro!: that [OF steps])
qed

lemma st_emergency_withdraw_Inr:
  assumes "st_emergency_withdraw tr e a user i s = Inr (r, s')"
  obtains p tier s1 tok w' where "env_auth e a" and "st_admin s = Some a" and "st_position s i = Some p" and "sp_user p = user"
    and "sp_active p" and "st_tier s (sp_tier_id p) = Some tier" and "st_release i p tier s = Inr s1"
    and "st_reward_token s1 = Some tok" and "tr e tok (env_self e) user (sp_amount p) (st_tokens s1) = Some w'"
    and "s' = s1\<lparr>st_reentrancy_lock := Some False, st_tokens := w'\<rparr>"
  using assms unfolding st_emergency_withdraw_def Let_def
  by (auto simp only: and_then_eq_Inr panic_if_eq_Inr require_auth_eq_Inr st_load_stake_Inr st_assert_admin_Inr
      st_load_tier_Inr st_get_reward_token_Inr st_transfer_token_Inr sum.inject prod.inject not_not)

lemma st_emergency_withdraw_all_Inr:
  assumes "st_emergency_withdraw_all tr e a user s = Inr (n, s')"
  obtains s1 where "st_release_all user (st_user_stake_ids user s) 0 s = Inr (n, s1)"
    and "if n > 0 then \<exists>tok w'. st_reward_token s1 = Some tok \<and> tr e tok (env_self e) user n (st_tokens s1) = Some w' \<and>
        s' = s1\<lparr>st_reentrancy_lock := Some False, st_tokens := w'\<rparr> else s' = s1"
proof -
  from assms obtain s1 n1 where rel1: "st_release_all user (st_user_stake_ids user s) 0 s = Inr (n1, s1)"
    and pay: "(if n1 > 0 then and_then (st_get_reward_token s1) (\<lambda>token.
        and_then (st_transfer_token tr e token (env_self e) user n1 s1) (\<lambda>s. Inr (n1, s))) else Inr (n1, s1)) = Inr (n, s')"
    unfolding st_emergency_withdraw_all_def and_then_eq_Inr [of "require_auth StAuth e a"] and_then_eq_Inr [of "st_assert_admin a s"]
      and_then_eq_Inr [of "st_release_all user (st_user_stake_ids user s) 0 s"] split_paired_Ex prod.case
    by (elim exE conjE) (rule that)
  have "st_release_all user (st_user_stake_ids user s) 0 s = Inr (n, s1)"
    and "if n > 0 then \<exists>tok w'. st_reward_token s1 = Some tok \<and> tr e tok (env_self e) user n (st_tokens s1) = Some w' \<and>
        s' = s1\<lparr>st_reentrancy_lock := Some False, st_tokens := w'\<rparr> else s' = s1"
    using rel1 pay by (auto simp: result_iffs split: if_splits)
  then show thesis by (rule that)
qed

text \<open>The loops: the pending rewards of a list of stakes, and their settlement.\<close>

definition st_pending_of :: "env \<Rightarrow> address \<Rightarrow> 'w st_state \<Rightarrow> u64 \<Rightarrow> i128 \<Rightarrow> bool" where
  "st_pending_of e user s i v \<longleftrightarrow> (\<exists>p tier. st_position s i = Some p \<and> sp_user p = user \<and> sp_active p \<and>
     st_tier s (sp_tier_id p) = Some tier \<and> st_calculate_pending_rewards_static e p (ti_reward_multiplier_bps tier) s = Inr v)"

lemma st_pending_all_Inr: "st_pending_all e user ids s = Inr vs \<Longrightarrow> list_all2 (st_pending_of e user s) ids vs"
  by (induction ids arbitrary: vs) (auto simp: result_iffs st_pending_of_def)

text \<open>A settlement moves the reward mark of some positions to the accumulator and changes nothing else.\<close>

definition st_marked :: "(u64 \<Rightarrow> stake_position \<Rightarrow> i128) \<Rightarrow> (u64 \<Rightarrow> stake_position option) \<Rightarrow> u64 \<Rightarrow> stake_position option" where
  "st_marked f m = (\<lambda>i. map_option (\<lambda>p. p\<lparr>sp_reward_per_token_paid := f i p\<rparr>) (m i))"

lemma st_marked_id: "st_marked (\<lambda>i. sp_reward_per_token_paid) m = m"
  by (simp add: st_marked_def option.map_ident)

lemma st_marked_upd:
  "m i = Some p \<Longrightarrow> st_marked f (m(i \<mapsto> p\<lparr>sp_reward_per_token_paid := r\<rparr>)) =
     st_marked (\<lambda>j q. f j (if j = i then q\<lparr>sp_reward_per_token_paid := r\<rparr> else q)) m"
  by (auto simp: st_marked_def fun_eq_iff)

lemma st_mark_one:
  "m i = Some p \<Longrightarrow> m(i \<mapsto> p\<lparr>sp_reward_per_token_paid := r\<rparr>) = st_marked (\<lambda>j q. if j = i then r else sp_reward_per_token_paid q) m"
  by (auto simp: st_marked_def fun_eq_iff option.map_ident)

lemma st_settle_all_Inr:
  assumes "st_settle_all r zs n s = Inr (n', s')"
  shows "\<exists>f. s' = s\<lparr>st_position := st_marked f (st_position s)\<rparr> \<and> n \<le> n' \<and>
    (\<forall>i p. f i p = sp_reward_per_token_paid p \<or> f i p = r)"
  using assms
proof (induction zs arbitrary: n s)
  case (Cons z zs)
  obtain i v where z: "z = (i, v)" by (cases z)
  show ?case
  proof (cases "0 < v")
    case False
    with Cons.prems z have "st_settle_all r zs n s = Inr (n', s')" by simp
    with Cons.IH show ?thesis by blast
  next
    case True
    with Cons.prems z obtain p where p: "st_position s i = Some p"
      and run: "st_settle_all r zs (n + v) (s\<lparr>st_position := (st_position s)(i \<mapsto> p\<lparr>sp_reward_per_token_paid := r\<rparr>)\<rparr>) = Inr (n', s')"
      by (auto simp: result_iffs Let_def)
    define s1 where "s1 = s\<lparr>st_position := (st_position s)(i \<mapsto> p\<lparr>sp_reward_per_token_paid := r\<rparr>)\<rparr>"
    from Cons.IH [OF run] obtain f where f: "s' = s1\<lparr>st_position := st_marked f (st_position s1)\<rparr>"
        "n + v \<le> n'" "\<And>j q. f j q = sp_reward_per_token_paid q \<or> f j q = r"
      unfolding s1_def by blast
    define g where "g = (\<lambda>j q. f j (if j = i then q\<lparr>sp_reward_per_token_paid := r\<rparr> else q))"
    have "g j q = sp_reward_per_token_paid q \<or> g j q = r" for j q
      using f(3) [of j "if j = i then q\<lparr>sp_reward_per_token_paid := r\<rparr> else q"] by (auto simp: g_def split: if_splits)
    with f True show ?thesis
      by (intro exI [of _ g]) (auto simp: s1_def st_marked_upd [of "st_position s", OF p] g_def)
  qed
qed (auto simp: st_marked_id intro!: exI [of _ "\<lambda>i. sp_reward_per_token_paid"])

lemma st_claim_rewards_batch_Inr:
  assumes "st_claim_rewards_batch tr e user ids s = Inr (n, s')"
  obtains vs s1 s2 tok w' where "env_auth e user" and "list_all2 (st_pending_of e user s) ids vs" and "st_update_pool e s = Inr s1"
    and "st_settle_all (st_reward_per_token_stored s1) (zip ids vs) 0 s1 = Inr (n, s2)" and "0 < n"
    and "st_reward_token s2 = Some tok" and "tr e tok (env_self e) user n (st_tokens s2) = Some w'"
    and "s' = s2\<lparr>st_distributed := Some (st_total_rewards_distributed s2 + n), st_reentrancy_lock := Some False, st_tokens := w'\<rparr>"
proof -
  from assms obtain vs s1 s2 s3 tok n2 s4 and u u' :: unit where
      "require_auth StAuth e user = Inr u" "st_pending_all e user ids s = Inr vs" "st_update_pool e s = Inr s1"
      "st_settle_all (st_reward_per_token_stored s1) (zip ids vs) 0 s1 = Inr (n2, s2)"
      "panic_if (n2 \<le> 0) StNoRewardsToClaim = Inr u'" "st_record_rewards n2 s2 = Inr s3" "st_get_reward_token s3 = Inr tok"
      "st_transfer_token tr e tok (env_self e) user n2 s3 = Inr s4" "n2 = n" "s4 = s'"
    unfolding st_claim_rewards_batch_def Let_def and_then_eq_Inr split_paired_Ex prod.case sum.inject prod.inject
    by (elim exE conjE) (rule that)
  then show thesis
    by (auto simp: result_iffs st_pending_all_Inr intro!: that [of vs s1 s2 tok])
qed

section \<open>The invariant\<close>

definition st_amount_at :: "stake_position \<Rightarrow> i128" where
  "st_amount_at p = (if sp_active p then sp_amount p else 0)"

definition st_tiers_ok :: "'w st_state \<Rightarrow> bool" where
  "st_tiers_ok s \<longleftrightarrow> (\<forall>i. st_tier s i \<noteq> None \<longleftrightarrow> 1 \<le> i \<and> i \<le> st_tier_counter s) \<and>
     st_tier_ids s = map Suc [0..<st_tier_counter s] \<and> st_tier_counter s \<le> MAX_TIERS \<and>
     (\<forall>i tier. st_tier s i = Some tier \<longrightarrow> ti_tier_id tier = i \<and> 0 < ti_min_stake_amount tier \<and>
        0 < ti_reward_multiplier_bps tier \<and> ti_penalty_bps tier \<le> 10000)"

definition st_position_ok :: "'w st_state \<Rightarrow> u64 \<Rightarrow> stake_position \<Rightarrow> bool" where
  "st_position_ok s i p \<longleftrightarrow> sp_stake_id p = i \<and> 0 < sp_amount p \<and> st_tier s (sp_tier_id p) \<noteq> None \<and>
     0 \<le> sp_reward_per_token_paid p \<and> sp_reward_per_token_paid p \<le> st_reward_per_token_stored s"

definition st_positions_ok :: "'w st_state \<Rightarrow> bool" where
  "st_positions_ok s \<longleftrightarrow> (\<forall>i. st_position s i \<noteq> None \<longleftrightarrow> 1 \<le> i \<and> i \<le> st_stake_counter s) \<and>
     (\<forall>i p. st_position s i = Some p \<longrightarrow> st_position_ok s i p) \<and>
     (\<forall>u. distinct (st_user_stake_ids u s) \<and>
          set (st_user_stake_ids u s) = {i. \<exists>p. st_position s i = Some p \<and> sp_user p = u}) \<and>
     st_total_staked s = entry_sum st_amount_at (st_position s)"

definition st_config_ok :: "u64 \<Rightarrow> 'w st_state \<Rightarrow> bool" where
  "st_config_ok t s \<longleftrightarrow> \<not> unwrap_or False (st_reentrancy_lock s) \<and> 0 \<le> st_reward_rate_per_second s \<and>
     0 \<le> st_reward_per_token_stored s \<and> 0 \<le> st_total_rewards_distributed s \<and> st_last_reward_time s \<le> t \<and>
     in_i128 (st_total_staked s) \<and> in_i128 (st_total_weighted_stake s) \<and>
     (st_admin s = None \<longrightarrow> st_reward_token s = None \<and> st_tier_counter s = 0 \<and> st_stake_counter s = 0 \<and>
        st_total_rewards_distributed s = 0 \<and> st_total_weighted_stake s = 0) \<and>
     (st_admin s \<noteq> None \<longrightarrow> st_reward_token s \<noteq> None)"

definition st_core :: "u64 \<Rightarrow> 'w st_state \<Rightarrow> bool" where
  "st_core t s \<longleftrightarrow> st_tiers_ok s \<and> st_positions_ok s \<and> st_config_ok t s"

text \<open>What the contract holds in trust: the principal, less the rewards it has paid out of its balance.\<close>

definition st_held :: "address \<Rightarrow> 'w st_state \<Rightarrow> int" where
  "st_held tok s = (if st_reward_token s = Some tok then st_total_staked s - st_total_rewards_distributed s else 0)"

definition st_inv :: "'w token_balance \<Rightarrow> address \<Rightarrow> 'w \<Rightarrow> u64 \<Rightarrow> 'w st_state \<Rightarrow> bool" where
  "st_inv bal self w t s \<longleftrightarrow> st_core t s \<and> (\<forall>tok. bal w tok self + st_held tok s \<le> bal (st_tokens s) tok self)"

definition st_adm :: "address \<Rightarrow> env \<Rightarrow> st_call \<Rightarrow> bool" where
  "st_adm self e c \<longleftrightarrow> env_self e = self \<and> \<not> env_auth e self"

definition st_drift :: "'w token_balance \<Rightarrow> address \<Rightarrow> 'w st_state \<Rightarrow> 'w st_state \<Rightarrow> bool" where
  "st_drift bal self s s' \<longleftrightarrow>
     (\<exists>w. s' = s\<lparr>st_tokens := w\<rparr> \<and> (\<forall>tok. bal (st_tokens s) tok self \<le> bal w tok self))"

lemmas st_core_defs = st_core_def st_tiers_ok_def st_positions_ok_def st_position_ok_def st_config_ok_def

lemma st_coreD:
  assumes "st_core t s"
  shows "\<not> unwrap_or False (st_reentrancy_lock s)" "0 \<le> st_reward_rate_per_second s" "0 \<le> st_reward_per_token_stored s"
    "0 \<le> st_total_rewards_distributed s" "st_last_reward_time s \<le> t"
    "st_position s i = Some p \<Longrightarrow> 0 < sp_amount p \<and> sp_stake_id p = i \<and> 0 \<le> sp_reward_per_token_paid p \<and>
       sp_reward_per_token_paid p \<le> st_reward_per_token_stored s \<and> st_tier s (sp_tier_id p) \<noteq> None"
    "st_tier s j = Some tier \<Longrightarrow> ti_penalty_bps tier \<le> 10000"
  using assms by (auto simp: st_core_defs)

lemma st_core_ids:
  assumes "st_core t s"
  shows "st_position s i = Some p \<Longrightarrow> i \<noteq> 0" and "st_tier s j = Some tier \<Longrightarrow> j \<noteq> 0"
proof -
  have "st_tier s j \<noteq> None \<longleftrightarrow> 1 \<le> j \<and> j \<le> st_tier_counter s" "st_position s i \<noteq> None \<longleftrightarrow> 1 \<le> i \<and> i \<le> st_stake_counter s"
    using assms by (simp_all only: st_core_def st_tiers_ok_def st_positions_ok_def)
  then show "st_position s i = Some p \<Longrightarrow> i \<noteq> 0" "st_tier s j = Some tier \<Longrightarrow> j \<noteq> 0" by auto
qed

lemma st_core_admin: "st_core t s \<Longrightarrow> st_reward_token s \<noteq> None \<Longrightarrow> st_admin s \<noteq> None"
  by (auto simp: st_core_def st_config_ok_def)

lemma st_core_finite: "st_core t s \<Longrightarrow> finite (dom (st_position s))"
  by (rule finite_subset [of _ "{1..st_stake_counter s}"]) (auto simp: st_core_defs)

lemma st_staked_nonneg: "st_core t s \<Longrightarrow> 0 \<le> st_total_staked s"
  by (auto simp: st_core_defs st_amount_at_def less_imp_le intro!: entry_sum_nonneg)

lemma st_core_time: "st_core t s \<Longrightarrow> t \<le> t' \<Longrightarrow> st_core t' s"
  by (auto simp: st_core_def st_config_ok_def split: option.splits)

lemma st_tiers_ok_frame [simp]:
  "st_tiers_ok (s\<lparr>st_tokens := w\<rparr>) = st_tiers_ok s" "st_tiers_ok (s\<lparr>st_paused := b\<rparr>) = st_tiers_ok s"
  "st_tiers_ok (s\<lparr>st_reward_rate := r\<rparr>) = st_tiers_ok s" "st_tiers_ok (s\<lparr>st_distributed := d\<rparr>) = st_tiers_ok s"
  "st_tiers_ok (s\<lparr>st_reentrancy_lock := l\<rparr>) = st_tiers_ok s"
  by (simp_all add: st_tiers_ok_def st_getters)

lemma st_positions_ok_frame [simp]:
  "st_positions_ok (s\<lparr>st_tokens := w\<rparr>) = st_positions_ok s" "st_positions_ok (s\<lparr>st_paused := b\<rparr>) = st_positions_ok s"
  "st_positions_ok (s\<lparr>st_reward_rate := r\<rparr>) = st_positions_ok s" "st_positions_ok (s\<lparr>st_distributed := d\<rparr>) = st_positions_ok s"
  "st_positions_ok (s\<lparr>st_reentrancy_lock := l\<rparr>) = st_positions_ok s"
  by (simp_all add: st_positions_ok_def st_position_ok_def st_getters)

lemma st_core_tokens [simp]: "st_core t (s\<lparr>st_tokens := w\<rparr>) = st_core t s"
  by (simp add: st_core_def st_config_ok_def st_getters)

lemma st_core_paused [simp]: "st_core t (s\<lparr>st_paused := b\<rparr>) = st_core t s"
  by (simp add: st_core_def st_config_ok_def st_getters)

lemma st_core_rate: "st_core t s \<Longrightarrow> 0 \<le> r \<Longrightarrow> st_core t (s\<lparr>st_reward_rate := Some r\<rparr>)"
  by (simp add: st_core_def st_config_ok_def st_getters)

lemma st_core_unlock: "st_core t s \<Longrightarrow> st_core t (s\<lparr>st_reentrancy_lock := Some False, st_tokens := w\<rparr>)"
  by (simp add: st_core_def st_config_ok_def st_getters)

lemma st_core_pay:
  "st_core t s \<Longrightarrow> st_admin s \<noteq> None \<Longrightarrow> 0 \<le> unwrap_or 0 dd \<Longrightarrow>
   st_core t (s\<lparr>st_distributed := dd, st_reentrancy_lock := Some False, st_tokens := w\<rparr>)"
  by (auto simp: st_core_def st_config_ok_def st_getters)

lemma st_core_fresh: "st_core t (st_fresh w)"
  by (simp add: st_core_defs st_getters st_fresh_def)

lemma st_core_pool:
  assumes "st_core (env_timestamp e) s" and "st_update_pool e s = Inr s'"
  shows "st_core (env_timestamp e) s'"
proof -
  note frame = st_update_pool_frame [OF assms(2) st_coreD(2) [OF assms(1)]]
  have "st_user_stake_ids u s' = st_user_stake_ids u s" for u by (simp add: st_user_stake_ids_def frame)
  moreover have "st_position_ok s' i p" if "st_position s i = Some p" for i p
    using st_coreD(6) [OF assms(1) that] st_pool_gain_nonneg [OF st_coreD(2) [OF assms(1)], of e]
    by (simp add: st_position_ok_def frame)
  ultimately have "st_positions_ok s'"
    using assms(1) by (simp add: st_core_def st_positions_ok_def frame)
  moreover have "st_tiers_ok s'" using assms(1) by (simp add: st_core_def st_tiers_ok_def frame)
  moreover have "st_config_ok (env_timestamp e) s'"
    using assms(1) st_pool_gain_nonneg [OF st_coreD(2) [OF assms(1)], of e] by (simp add: st_core_def st_config_ok_def frame)
  ultimately show ?thesis by (simp add: st_core_def)
qed

lemma st_core_release:
  assumes core: "st_core t s" and p: "st_position s i = Some p" "sp_active p" and run: "st_release i p tier s = Inr s'"
  shows "st_core t s' \<and> st_total_staked s' = st_total_staked s - sp_amount p"
proof -
  have s': "s' = s\<lparr>st_position := (st_position s)(i \<mapsto> p\<lparr>sp_active := False\<rparr>), st_staked := Some (st_total_staked s - sp_amount p),
        st_weighted := Some (st_total_weighted_stake s - st_weight_of (sp_amount p) tier)\<rparr>"
    using run st_coreD(6) [OF core p(1)] by (simp add: st_release_Inr)
  have sum: "entry_sum st_amount_at (st_position s') = entry_sum st_amount_at (st_position s) - sp_amount p"
    using st_core_finite [OF core] p by (simp add: s' entry_sum_upd st_amount_at_def)
  have ids: "{j. \<exists>q. st_position s' j = Some q \<and> sp_user q = u} = {j. \<exists>q. st_position s j = Some q \<and> sp_user q = u}" for u
    using p by (auto simp: s')
  have fits: "in_i128 (st_total_staked s - sp_amount p)" "in_i128 (st_total_weighted_stake s - st_weight_of (sp_amount p) tier)"
    using run st_coreD(6) [OF core p(1)] by (simp_all add: st_release_Inr)
  have i: "1 \<le> i \<and> i \<le> st_stake_counter s" using core p(1) unfolding st_core_defs by blast
  then have "st_admin s \<noteq> None" using core by (auto simp: st_core_defs)
  with core i p ids fits show ?thesis
    unfolding st_core_def st_positions_ok_def sum ids
    by (auto simp: s' st_tiers_ok_def st_position_ok_def st_config_ok_def st_getters)
qed

lemma st_core_uninit:
  assumes "st_core t s" and "st_admin s = None"
  shows "st_tier s = (\<lambda>_. None) \<and> st_position s = (\<lambda>_. None) \<and> st_total_weighted_stake s = 0"
proof -
  have doms: "st_tier s i \<noteq> None \<longleftrightarrow> 1 \<le> i \<and> i \<le> st_tier_counter s" "st_position s i \<noteq> None \<longleftrightarrow> 1 \<le> i \<and> i \<le> st_stake_counter s" for i
    using assms(1) by (simp_all only: st_core_def st_tiers_ok_def st_positions_ok_def)
  have zero: "st_tier_counter s = 0" "st_stake_counter s = 0" "st_total_weighted_stake s = 0"
    using assms by (simp_all add: st_core_def st_config_ok_def)
  have "st_tier s i = None" "st_position s i = None" for i
    using doms [of i] zero by auto
  with zero show ?thesis by (simp add: fun_eq_iff)
qed

lemma st_core_initialize:
  assumes "st_core (env_timestamp e) s" and "st_initialize e a tok r s = Inr (v, s')"
  shows "st_core (env_timestamp e) s' \<and> st_total_staked s' = 0 \<and> st_total_rewards_distributed s' = 0"
proof -
  have none: "st_admin s = None" using assms(2) by (auto simp: st_initialize_def result_iffs)
  have none_at: "st_tier s i = None" "st_position s = (\<lambda>_. None)" for i
    using st_core_uninit [OF assms(1) none] by simp_all
  moreover have "set (st_user_stake_ids u s) = {i. \<exists>p. st_position s i = Some p \<and> sp_user p = u}" for u
    using assms(1) unfolding st_core_defs by blast
  ultimately have "st_user_stake_ids u s = []" for u by simp
  with assms(2) none_at show ?thesis
    by (auto simp: st_initialize_def result_iffs st_core_defs st_getters)
qed

lemma st_core_tier:
  assumes "st_core t s" and "st_tier s i = Some tier" and "ti_tier_id tier' = i" and "0 < ti_min_stake_amount tier'"
    and "0 < ti_reward_multiplier_bps tier'" and "ti_penalty_bps tier' \<le> 10000"
  shows "st_core t (s\<lparr>st_tier := (st_tier s)(i \<mapsto> tier')\<rparr>)"
  using assms by (auto simp: st_core_defs st_getters)

lemma st_change_tier_Inr:
  "st_change_tier nn nm nd nr np tier = Inr tier' \<Longrightarrow>
   ti_tier_id tier' = ti_tier_id tier \<and> (0 < ti_min_stake_amount tier \<longrightarrow> 0 < ti_min_stake_amount tier') \<and>
   (0 < ti_reward_multiplier_bps tier \<longrightarrow> 0 < ti_reward_multiplier_bps tier') \<and>
   (ti_penalty_bps tier \<le> 10000 \<longrightarrow> ti_penalty_bps tier' \<le> 10000) \<and>
   (nr = None \<longrightarrow> ti_reward_multiplier_bps tier' = ti_reward_multiplier_bps tier)"
  by (auto simp: st_change_tier_def Let_def result_iffs ST_MAX_PENALTY_BPS_def split: option.splits)

lemma st_core_update_tier:
  assumes core: "st_core t s" and run: "st_update_tier e a i nn nm nd nr np s = Inr (tier', s')"
  shows "st_core t s'"
proof -
  from run obtain tier where t: "st_tier s i = Some tier" "st_change_tier nn nm nd nr np tier = Inr tier'"
    and s': "s' = s\<lparr>st_tier := (st_tier s)(i \<mapsto> tier')\<rparr>"
    by (auto simp: st_update_tier_def result_iffs)
  have "ti_tier_id tier = i \<and> 0 < ti_min_stake_amount tier \<and> 0 < ti_reward_multiplier_bps tier \<and> ti_penalty_bps tier \<le> 10000"
    using core t(1) by (auto simp: st_core_defs)
  with st_change_tier_Inr [OF t(2)] show ?thesis
    unfolding s' by (intro st_core_tier [OF core t(1)]) auto
qed

lemma st_core_deactivate_tier:
  assumes core: "st_core t s" and run: "st_deactivate_tier e a i s = Inr (v, s')"
  shows "st_core t s'"
proof -
  from run obtain tier where t: "st_tier s i = Some tier" and s': "s' = s\<lparr>st_tier := (st_tier s)(i \<mapsto> tier\<lparr>ti_active := False\<rparr>)\<rparr>"
    by (auto simp: st_deactivate_tier_def result_iffs)
  show ?thesis
    unfolding s' by (rule st_core_tier [OF core t]) (use core t in \<open>auto simp: st_core_defs\<close>)
qed

lemma st_add_tier_Inr:
  assumes "st_add_tier e a n m d r p s = Inr (i, s')"
  obtains "st_admin s = Some a" and "0 < m" and "0 < r" and "p \<le> 10000" and "length (st_tier_ids s) < MAX_TIERS" and "i = st_tier_counter s + 1"
    and "s' = s\<lparr>st_tier_count := Some (st_tier_counter s + 1), st_tier := (st_tier s)(st_tier_counter s + 1 \<mapsto>
      \<lparr>ti_tier_id = st_tier_counter s + 1, ti_name = n, ti_min_stake_amount = m, ti_lock_duration_seconds = d,
       ti_reward_multiplier_bps = r, ti_penalty_bps = p, ti_active = True, ti_created_at = env_timestamp e\<rparr>),
      st_tier_list := Some (st_tier_ids s @ [st_tier_counter s + 1])\<rparr>"
  using assms that
  by (auto simp: st_add_tier_def Let_def st_next_tier_id_def result_iffs ST_MAX_PENALTY_BPS_def)

lemma st_core_add_tier:
  assumes core: "st_core t s" and run: "st_add_tier e a n m d r p s = Inr (i, s')"
  shows "st_core t s'"
  using run
proof (cases rule: st_add_tier_Inr)
  case 1
  have "length (st_tier_ids s) = st_tier_counter s" using core by (simp add: st_core_defs)
  then have tc: "st_tier_counter s < MAX_TIERS" using 1 by simp
  have dom: "st_tier s' j \<noteq> None \<longleftrightarrow> 1 \<le> j \<and> j \<le> st_tier_counter s'" for j
    using core unfolding st_core_def st_tiers_ok_def by (auto simp: 1 st_tier_counter_def)
  have "st_tier_ids s' = map Suc [0..<st_tier_counter s']"
    using core by (simp add: st_core_defs 1 st_getters)
  moreover have "st_positions_ok s'"
    using core 1 by (auto simp: st_core_defs st_getters)
  moreover have "st_config_ok t s'" using core 1 by (auto simp: st_core_defs st_getters)
  ultimately show ?thesis
    using dom tc core 1(2,3,4) unfolding st_core_def st_tiers_ok_def by (auto simp: 1 st_tier_counter_def)
qed

lemma entry_sum_marked:
  "(\<And>p r. g (p\<lparr>sp_reward_per_token_paid := r\<rparr>) = g p) \<Longrightarrow> entry_sum g (st_marked f m) = entry_sum g m"
  unfolding entry_sum_def by (rule sum.cong) (auto simp: st_marked_def dom_def)

lemma st_core_settled:
  assumes core: "st_core t s" and f: "\<And>i p. f i p = sp_reward_per_token_paid p \<or> f i p = st_reward_per_token_stored s"
  shows "st_core t (s\<lparr>st_position := st_marked f (st_position s)\<rparr>)"
proof -
  have sum: "entry_sum st_amount_at (st_marked f (st_position s)) = entry_sum st_amount_at (st_position s)"
    by (rule entry_sum_marked) (simp add: st_amount_at_def)
  have user: "{i. \<exists>p. st_marked f (st_position s) i = Some p \<and> sp_user p = u} = {i. \<exists>p. st_position s i = Some p \<and> sp_user p = u}" for u
    by (auto simp: st_marked_def)
  have pos: "st_position_ok (s\<lparr>st_position := st_marked f (st_position s)\<rparr>) i (p\<lparr>sp_reward_per_token_paid := f i p\<rparr>)"
    if "st_position s i = Some p" for i p
    using f [of i p] st_coreD(6) [OF core that] st_coreD(3) [OF core] by (auto simp: st_position_ok_def st_getters)
  have marked: "st_marked f (st_position s) i = Some q \<longleftrightarrow> (\<exists>p. st_position s i = Some p \<and> q = p\<lparr>sp_reward_per_token_paid := f i p\<rparr>)" for i q
    by (auto simp: st_marked_def)
  have dom: "st_marked f (st_position s) i \<noteq> None \<longleftrightarrow> st_position s i \<noteq> None" for i by (simp add: st_marked_def)
  show ?thesis
    using core pos dom unfolding st_core_def st_positions_ok_def
    by (auto simp: sum user marked st_tiers_ok_def st_config_ok_def st_getters)
qed

lemma st_release_all_Inr:
  assumes "st_release_all u ids n s = Inr (n', s')" and "st_core t s"
  shows "st_core t s' \<and> n' = n + (st_total_staked s - st_total_staked s') \<and> st_tokens s' = st_tokens s \<and>
    st_reward_token s' = st_reward_token s \<and> st_admin s' = st_admin s \<and>
    st_total_rewards_distributed s' = st_total_rewards_distributed s \<and> st_distributed s' = st_distributed s \<and> n \<le> n'"
  using assms
proof (induction ids arbitrary: n s)
  case (Cons i ids)
  from Cons.prems(1) obtain p where p: "st_position s i = Some p" by (auto simp: result_iffs)
  show ?case
  proof (cases "sp_user p \<noteq> u \<or> \<not> sp_active p")
    case True
    with Cons.prems(1) p have "st_release_all u ids n s = Inr (n', s')" by (auto simp: result_iffs)
    with Cons.IH Cons.prems(2) show ?thesis by blast
  next
    case False
    with Cons.prems(1) p obtain tier s1 where rel: "st_release i p tier s = Inr s1"
      and run: "st_release_all u ids (n + sp_amount p) s1 = Inr (n', s')"
      by (auto simp: result_iffs)
    have s1: "st_core t s1 \<and> st_total_staked s1 = st_total_staked s - sp_amount p"
      using st_core_release [OF Cons.prems(2) p _ rel] False by simp
    have "0 \<le> sp_amount p" using st_coreD(6) [OF Cons.prems(2) p] by simp
    then have "st_tokens s1 = st_tokens s \<and> st_reward_token s1 = st_reward_token s \<and> st_admin s1 = st_admin s \<and>
        st_total_rewards_distributed s1 = st_total_rewards_distributed s \<and> st_distributed s1 = st_distributed s"
      using rel by (auto simp: st_release_Inr st_getters)
    with s1 Cons.IH [OF run] \<open>0 \<le> sp_amount p\<close> show ?thesis by simp
  qed
qed auto

lemma st_core_stake:
  assumes core: "st_core t s" and n: "0 < n" and tier: "st_tier s ti = Some tier" and tok: "st_reward_token s \<noteq> None"
    and p: "sp_stake_id p = st_stake_counter s + 1" "sp_user p = user" "sp_amount p = n" "sp_tier_id p = ti"
      "sp_reward_per_token_paid p = st_reward_per_token_stored s" "sp_active p"
    and fits: "in_i128 (st_total_staked s + n)" "in_i128 (unwrap_or 0 W)"
    and s': "s' = s\<lparr>st_stake_count := Some (st_stake_counter s + 1), st_position := (st_position s)(st_stake_counter s + 1 \<mapsto> p),
      st_user_ids := (st_user_ids s)(user \<mapsto> st_user_stake_ids user s @ [st_stake_counter s + 1]),
      st_staked := Some (st_total_staked s + n), st_weighted := W, st_reentrancy_lock := Some False, st_tokens := w'\<rparr>"
  shows "st_core t s'"
proof -
  let ?k = "st_stake_counter s + 1"
  have doms: "st_position s i \<noteq> None \<longleftrightarrow> 1 \<le> i \<and> i \<le> st_stake_counter s" for i
    using core by (simp only: st_core_def st_positions_ok_def)
  have new: "st_position s ?k = None" using doms [of ?k] by auto
  have doms': "st_position s' i \<noteq> None \<longleftrightarrow> 1 \<le> i \<and> i \<le> st_stake_counter s'" for i
    using doms [of i] by (auto simp: s' st_stake_counter_def)
  have user_ids: "distinct (st_user_stake_ids u s) \<and> set (st_user_stake_ids u s) = {i. \<exists>p. st_position s i = Some p \<and> sp_user p = u}" for u
    using core by (simp only: st_core_def st_positions_ok_def)
  have "distinct (st_user_stake_ids u s') \<and> set (st_user_stake_ids u s') = {i. \<exists>q. st_position s' i = Some q \<and> sp_user q = u}" for u
    using user_ids [of u] new p(2) by (auto simp: s' st_user_stake_ids_def)
  moreover have "st_position_ok s' i q" if "st_position s' i = Some q" for i q
    using that st_coreD(6) [OF core, of i q] st_coreD(3) [OF core] p n tier
    by (auto simp: s' st_position_ok_def st_getters split: if_splits)
  moreover have "st_total_staked s' = entry_sum st_amount_at (st_position s')"
    using core new p(3,6) st_core_finite [OF core]
    by (simp add: s' entry_sum_upd st_amount_at_def [of p] st_core_defs st_getters)
  ultimately have "st_positions_ok s'" using doms' unfolding st_positions_ok_def by blast
  moreover have "st_tiers_ok s'" using core by (simp add: s' st_core_defs st_getters)
  moreover have "st_config_ok t s'" using core tok fits by (auto simp: s' st_core_def st_config_ok_def st_getters)
  ultimately show ?thesis by (simp add: st_core_def)
qed

lemma st_inv_fresh: "st_inv bal self w t (st_fresh w)"
  using st_core_fresh by (simp add: st_inv_def st_held_def) (simp add: st_fresh_def)

lemma st_held_tokens [simp]: "st_held tok (s\<lparr>st_tokens := w\<rparr>) = st_held tok s"
  by (simp add: st_held_def st_getters)

lemma st_inv_drift: "st_inv bal self w t s \<Longrightarrow> st_drift bal self s s' \<Longrightarrow> st_inv bal self w t s'"
  by (auto simp: st_inv_def st_drift_def) (meson order_trans)

lemma st_inv_core: "st_inv bal self w t s \<Longrightarrow> st_core t s"
  by (simp add: st_inv_def)

text \<open>A call that moves no tokens keeps the balance condition when what is held does not change.\<close>

lemma st_inv_quiet:
  assumes "st_inv bal self w t s" and "st_core t s'" and "st_tokens s' = st_tokens s" and "st_reward_token s' = st_reward_token s"
    and "st_total_staked s' = st_total_staked s" and "st_total_rewards_distributed s' = st_total_rewards_distributed s"
  shows "st_inv bal self w t s'"
proof -
  have "st_held tok s' = st_held tok s" for tok using assms by (simp add: st_held_def)
  with assms show ?thesis by (simp add: st_inv_def)
qed

lemma st_inv_pool:
  assumes "st_inv bal self w (env_timestamp e) s" and "st_update_pool e s = Inr s'"
  shows "st_inv bal self w (env_timestamp e) s'"
  using st_update_pool_frame [OF assms(2)] st_coreD(2) [OF st_inv_core [OF assms(1)]]
  by (intro st_inv_quiet [OF assms(1) st_core_pool [OF st_inv_core [OF assms(1)] assms(2)]]) auto

lemma st_inv_initialize:
  assumes "st_inv bal self w (env_timestamp e) s" and "st_initialize e a tok r s = Inr (v, s')"
  shows "st_inv bal self w (env_timestamp e) s'"
proof -
  have "st_tokens s' = st_tokens s" "st_admin s = None" using assms(2) by (auto simp: st_initialize_def result_iffs)
  then have "st_reward_token s = None" using st_inv_core [OF assms(1)] by (simp add: st_core_defs)
  with assms st_core_initialize [OF st_inv_core [OF assms(1)] assms(2)] \<open>st_tokens s' = st_tokens s\<close> show ?thesis
    by (simp add: st_inv_def st_held_def)
qed

lemma st_inv_settings:
  assumes inv: "st_inv bal self w (env_timestamp e) s"
  shows "st_pause e a s = Inr (v, s') \<Longrightarrow> st_inv bal self w (env_timestamp e) s'"
    and "st_unpause e a s = Inr (v, s') \<Longrightarrow> st_inv bal self w (env_timestamp e) s'"
    and "st_set_reward_rate e a r s = Inr (v, s') \<Longrightarrow> st_inv bal self w (env_timestamp e) s'"
    and "st_add_tier e a n m d r' p s = Inr (i, s') \<Longrightarrow> st_inv bal self w (env_timestamp e) s'"
    and "st_update_tier e a j nn nm nd nr np s = Inr (tier, s') \<Longrightarrow> st_inv bal self w (env_timestamp e) s'"
    and "st_deactivate_tier e a j s = Inr (v, s') \<Longrightarrow> st_inv bal self w (env_timestamp e) s'"
proof -
  note core = st_inv_core [OF inv]
  have "st_inv bal self w (env_timestamp e) (s\<lparr>st_paused := b\<rparr>)" for b using core by (intro st_inv_quiet [OF inv]) (simp_all add: st_getters)
  then show "st_pause e a s = Inr (v, s') \<Longrightarrow> st_inv bal self w (env_timestamp e) s'"
    and "st_unpause e a s = Inr (v, s') \<Longrightarrow> st_inv bal self w (env_timestamp e) s'"
    by (auto simp: st_pause_def st_unpause_def result_iffs)
next
  assume run: "st_set_reward_rate e a r s = Inr (v, s')"
  then obtain s1 where s1: "st_update_pool e s = Inr s1" "s' = s1\<lparr>st_reward_rate := Some r\<rparr>" "0 \<le> r" "st_admin s \<noteq> None"
    by (auto simp: st_set_reward_rate_def result_iffs)
  have inv1: "st_inv bal self w (env_timestamp e) s1" by (rule st_inv_pool [OF inv s1(1)])
  have "st_core (env_timestamp e) s'" using st_core_rate [OF st_inv_core [OF inv1] s1(3)] by (simp add: s1(2))
  then show "st_inv bal self w (env_timestamp e) s'" by (intro st_inv_quiet [OF inv1]) (simp_all add: s1(2) st_getters)
next
  assume run: "st_add_tier e a n m d r' p s = Inr (i, s')"
  from run show "st_inv bal self w (env_timestamp e) s'"
    by (cases rule: st_add_tier_Inr) (rule st_inv_quiet [OF inv st_core_add_tier [OF st_inv_core [OF inv] run]]; simp add: st_getters)
next
  assume run: "st_update_tier e a j nn nm nd nr np s = Inr (tier, s')"
  then show "st_inv bal self w (env_timestamp e) s'"
    by (intro st_inv_quiet [OF inv st_core_update_tier [OF st_inv_core [OF inv] run]]) (auto simp: st_update_tier_def result_iffs st_getters)
next
  assume run: "st_deactivate_tier e a j s = Inr (v, s')"
  then show "st_inv bal self w (env_timestamp e) s'"
    by (intro st_inv_quiet [OF inv st_core_deactivate_tier [OF st_inv_core [OF inv] run]]) (auto simp: st_deactivate_tier_def result_iffs st_getters)
qed

lemma st_pending_nonneg:
  fixes tier :: staking_tier
  assumes "st_core t s" and "st_position s i = Some p" and "sp_active p"
    and "st_calculate_pending_rewards_static e p (ti_reward_multiplier_bps tier) s = Inr v"
  shows "0 \<le> v"
proof -
  note core = st_coreD(2) [OF assms(1)] st_coreD(6) [OF assms(1,2)]
  have "0 \<le> (st_reward_per_token_stored s + st_pool_gain e s - sp_reward_per_token_paid p) * st_weight_of (sp_amount p) tier div PRECISION_FACTOR"
    using core st_pool_gain_nonneg [OF core(1), of e] st_weight_of_nonneg [of "sp_amount p" tier]
    by (simp add: pos_imp_zdiv_nonneg_iff PRECISION_FACTOR_def)
  moreover have "v = (if 0 < st_total_weighted_stake s
      then (st_reward_per_token_stored s + st_pool_gain e s - sp_reward_per_token_paid p) * st_weight_of (sp_amount p) tier div PRECISION_FACTOR else 0)"
    using core by (intro st_pending_Inr [OF assms(4)] assms(3)) auto
  ultimately show ?thesis by (simp split: if_splits)
qed

context token_contract
begin

text \<open>A payment of principal and rewards: what is held drops by exactly what leaves.\<close>

lemma st_inv_paid:
  assumes inv: "st_inv balance self w t s" and core: "st_core t s'" and tok: "st_reward_token s' = Some tok" "st_reward_token s = Some tok"
    and held: "st_total_staked s - st_total_rewards_distributed s - n \<ge> st_total_staked s' - st_total_rewards_distributed s'"
    and out: "\<And>x. balance (st_tokens s) x self - (if x = tok then n else 0) \<le> balance (st_tokens s') x self"
  shows "st_inv balance self w t s'"
  unfolding st_inv_def
proof (intro conjI allI)
  fix x
  have "balance w x self + st_held x s \<le> balance (st_tokens s) x self" using inv by (simp add: st_inv_def)
  with out [of x] held tok show "balance w x self + st_held x s' \<le> balance (st_tokens s') x self"
    by (cases "x = tok") (auto simp: st_held_def)
qed (rule core)

lemma st_inv_stake:
  assumes inv: "st_inv balance self w (env_timestamp e) s" and adm: "env_self e = self" "\<not> env_auth e self"
    and run: "st_stake transfer e user n ti s = Inr (r, s')"
  shows "st_inv balance self w (env_timestamp e) s'"
  using run st_coreD(2) [OF st_inv_core [OF inv]]
proof (cases rule: st_stake_Inr)
  case (1 tier s1 tok w')
  have inv1: "st_inv balance self w (env_timestamp e) s1" by (rule st_inv_pool [OF inv 1(7)])
  have tier1: "st_tier s1 ti = Some tier"
    using 1(4) st_update_pool_frame [OF 1(7) st_coreD(2) [OF st_inv_core [OF inv]]] by simp
  have core: "st_core (env_timestamp e) s'"
    by (rule st_core_stake [OF st_inv_core [OF inv1] 1(2) tier1 _ _ _ _ _ _ _ 1(12) _ 1(14)]) (use 1(8,13) in simp_all)
  have "balance (st_tokens s') x self = balance (st_tokens s1) x self + (if x = tok then n else 0)" for x
    using transfer_moves [OF 1(9), of x self] 1(1) adm by (auto simp: 1(14))
  then show ?thesis
    by (intro st_inv_paid [OF inv1 core _ 1(8), of "- n"]) (simp_all add: 1(8,14) st_getters)
qed

lemma st_inv_fund:
  assumes inv: "st_inv balance self w t s" and adm: "env_self e = self" "\<not> env_auth e self"
    and run: "st_fund_rewards transfer e f n s = Inr (v, s')"
  shows "st_inv balance self w t s'"
proof -
  from run obtain tok w' where f: "env_auth e f" "st_reward_token s = Some tok"
    "transfer e tok f (env_self e) n (st_tokens s) = Some w'" "s' = s\<lparr>st_reentrancy_lock := Some False, st_tokens := w'\<rparr>"
    by (auto simp: st_fund_rewards_def result_iffs)
  have core: "st_core t s'" using st_core_unlock [OF st_inv_core [OF inv]] f(4) by simp
  have "balance (st_tokens s) x self \<le> balance (st_tokens s') x self" for x
    using balance_dst_ge [OF f(3), of self x] f(1,4) adm by auto
  then show ?thesis by (intro st_inv_paid [OF inv core _ f(2), of 0]) (simp_all add: f(2,4) st_getters)
qed

lemma st_inv_unstake:
  assumes inv: "st_inv balance self w (env_timestamp e) s" and self: "env_self e = self"
    and run: "st_unstake transfer e user i s = Inr (r, s')"
  shows "st_inv balance self w (env_timestamp e) s'"
  using run
proof (cases rule: st_unstake_Inr)
  case (1 p tier pend s1 pen net s2 dd tok w1 w2)
  note core = st_inv_core [OF inv]
  note frame = st_update_pool_frame [OF 1(7) st_coreD(2) [OF core]]
  have inv1: "st_inv balance self w (env_timestamp e) s1" by (rule st_inv_pool [OF inv 1(7)])
  have p: "0 < sp_amount p" "0 \<le> pend" "ti_penalty_bps tier \<le> 10000"
    using st_coreD(6) [OF core 1(2)] st_pending_nonneg [OF core 1(2,4,6)] st_coreD(7) [OF core 1(5)] by simp_all
  have net: "0 \<le> net" "net \<le> sp_amount p" using st_penalty_split_Inr [OF 1(8)] p by auto
  have rel: "st_core (env_timestamp e) s2 \<and> st_total_staked s2 = st_total_staked s1 - sp_amount p"
    using st_core_release [OF st_inv_core [OF inv1] _ 1(4,10)] 1(2) frame(8) by simp
  have s2: "st_tokens s2 = st_tokens s1" "st_reward_token s2 = st_reward_token s1" "st_admin s2 = st_admin s1"
      "st_total_rewards_distributed s2 = st_total_rewards_distributed s1" "st_distributed s2 = st_distributed s1"
    using 1(10) p(1) by (auto simp: st_release_Inr st_getters)
  have dd: "unwrap_or 0 dd = st_total_rewards_distributed s1 + pend"
    using 1(11,12) p(2) s2 by (cases "0 < pend") (auto simp: st_total_rewards_distributed_def)
  have adm: "st_admin s2 \<noteq> None" using rel 1(13) st_core_admin by blast
  have core': "st_core (env_timestamp e) s'"
    unfolding 1(19) using rel adm dd p(2) st_coreD(4) [OF st_inv_core [OF inv1]] by (intro st_core_pay) auto
  have "balance (st_tokens s1) x self - (if x = tok then net + pend else 0) \<le> balance (st_tokens s') x self" for x
    using optional_debit [OF 1(15,16) net(1), of x self] optional_debit [OF 1(17,18) p(2), of x self]
    by (auto simp: 1(19) s2 split: if_splits)
  then show ?thesis
    using 1(13) s2 rel net(2) dd
    by (intro st_inv_paid [OF inv1 core', of tok "net + pend"]) (simp_all add: 1(19) st_getters)
qed

lemma st_inv_claim:
  assumes inv: "st_inv balance self w (env_timestamp e) s" and self: "env_self e = self"
    and run: "st_claim_rewards transfer e user i s = Inr (n, s')"
  shows "st_inv balance self w (env_timestamp e) s'"
  using run
proof (cases rule: st_claim_rewards_Inr)
  case (1 p tier s1 tok w')
  note frame = st_update_pool_frame [OF 1(8) st_coreD(2) [OF st_inv_core [OF inv]]]
  have inv1: "st_inv balance self w (env_timestamp e) s1" by (rule st_inv_pool [OF inv 1(8)])
  have p: "st_position s1 i = Some p" using 1(2) frame by simp
  have settled: "st_core (env_timestamp e) (s1\<lparr>st_position := (st_position s1)(i \<mapsto> p\<lparr>sp_reward_per_token_paid := st_reward_per_token_stored s1\<rparr>)\<rparr>)"
    (is "st_core _ ?s2")
    unfolding st_mark_one [of "st_position s1", OF p] by (rule st_core_settled [OF st_inv_core [OF inv1]]) simp
  have "st_admin s1 \<noteq> None" using 1(9) st_core_admin [OF st_inv_core [OF inv1]] by simp
  then have core': "st_core (env_timestamp e) (?s2\<lparr>st_distributed := Some (st_total_rewards_distributed s1 + n), st_reentrancy_lock := Some False, st_tokens := w'\<rparr>)"
    using 1(7) st_coreD(4) [OF st_inv_core [OF inv1]] by (intro st_core_pay [OF settled]) auto
  have eq: "?s2\<lparr>st_distributed := Some (st_total_rewards_distributed s1 + n), st_reentrancy_lock := Some False, st_tokens := w'\<rparr> = s'"
    by (simp add: 1(11))
  show ?thesis
    using balance_src_ge [OF 1(10)] by (intro st_inv_paid [OF inv1 core' [unfolded eq] _ 1(9), of n]) (simp_all add: 1(9,11) st_getters)
qed

lemma st_inv_claim_batch:
  assumes inv: "st_inv balance self w (env_timestamp e) s" and self: "env_self e = self"
    and run: "st_claim_rewards_batch transfer e user ids s = Inr (n, s')"
  shows "st_inv balance self w (env_timestamp e) s'"
  using run
proof (cases rule: st_claim_rewards_batch_Inr)
  case (1 vs s1 s2 tok w')
  have inv1: "st_inv balance self w (env_timestamp e) s1" by (rule st_inv_pool [OF inv 1(3)])
  from st_settle_all_Inr [OF 1(4)] obtain f where s2: "s2 = s1\<lparr>st_position := st_marked f (st_position s1)\<rparr>"
    and f: "\<And>i p. f i p = sp_reward_per_token_paid p \<or> f i p = st_reward_per_token_stored s1" by blast
  have settled: "st_core (env_timestamp e) s2" unfolding s2 by (rule st_core_settled [OF st_inv_core [OF inv1] f])
  have "st_admin s2 \<noteq> None" using 1(6) st_core_admin [OF settled] by simp
  then have core': "st_core (env_timestamp e) s'"
    unfolding 1(8) using 1(5) st_coreD(4) [OF settled] by (intro st_core_pay [OF settled]) auto
  show ?thesis
    using balance_src_ge [OF 1(7)] 1(6) by (intro st_inv_paid [OF inv1 core', of tok n]) (simp_all add: 1(8) s2 st_getters)
qed

lemma st_inv_emergency:
  assumes inv: "st_inv balance self w t s" and self: "env_self e = self"
    and run: "st_emergency_withdraw transfer e a user i s = Inr (r, s')"
  shows "st_inv balance self w t s'"
  using run
proof (cases rule: st_emergency_withdraw_Inr)
  case (1 p tier s1 tok w')
  have rel: "st_core t s1 \<and> st_total_staked s1 = st_total_staked s - sp_amount p"
    using st_core_release [OF st_inv_core [OF inv] 1(3,5,7)] .
  have s1: "st_tokens s1 = st_tokens s" "st_reward_token s1 = st_reward_token s" "st_admin s1 = st_admin s"
      "st_distributed s1 = st_distributed s"
    using 1(7) st_coreD(6) [OF st_inv_core [OF inv] 1(3)] by (auto simp: st_release_Inr st_getters)
  have core': "st_core t s'" using st_core_unlock [of t s1] rel by (simp add: 1(10))
  show ?thesis
    using balance_src_ge [OF 1(9)] 1(8) rel s1 by (intro st_inv_paid [OF inv core', of tok "sp_amount p"]) (simp_all add: 1(10) st_getters)
qed

lemma st_inv_emergency_all:
  assumes inv: "st_inv balance self w t s" and self: "env_self e = self"
    and run: "st_emergency_withdraw_all transfer e a user s = Inr (n, s')"
  shows "st_inv balance self w t s'"
proof -
  from run obtain s1 where rel: "st_release_all user (st_user_stake_ids user s) 0 s = Inr (n, s1)"
    and fin: "if n > 0 then \<exists>tok w'. st_reward_token s1 = Some tok \<and> transfer e tok (env_self e) user n (st_tokens s1) = Some w' \<and>
        s' = s1\<lparr>st_reentrancy_lock := Some False, st_tokens := w'\<rparr> else s' = s1"
    by (rule st_emergency_withdraw_all_Inr)
  note s1 = st_release_all_Inr [OF rel st_inv_core [OF inv]]
  show ?thesis
  proof (cases "n > 0")
    case True
    with fin obtain tok w' where f: "st_reward_token s1 = Some tok" "transfer e tok (env_self e) user n (st_tokens s1) = Some w'"
      "s' = s1\<lparr>st_reentrancy_lock := Some False, st_tokens := w'\<rparr>" by auto
    have core': "st_core t s'" using st_core_unlock [of t s1] s1 by (simp add: f(3))
    show ?thesis
      using balance_src_ge [OF f(2)] f(1) s1 by (intro st_inv_paid [OF inv core', of tok n]) (simp_all add: f(3) st_getters)
  next
    case False
    with fin s1 have "s' = s1" "st_total_staked s1 = st_total_staked s" by auto
    with s1 show ?thesis by (intro st_inv_quiet [OF inv]) auto
  qed
qed

end

context token_contract
begin

lemma st_inv_call:
  assumes "st_inv balance self w (env_timestamp e) s" and "st_adm self e c" and "st_exec transfer e c s = Some s'"
  shows "st_inv balance self w (env_timestamp e) s'"
  using assms
  by (cases c) (auto simp: result_iffs st_adm_def
      intro: st_inv_initialize st_inv_settings st_inv_stake st_inv_fund st_inv_unstake st_inv_claim st_inv_claim_batch
        st_inv_emergency st_inv_emergency_all)

end

sublocale token_contract \<subseteq> stm: contract_machine "st_exec transfer" "st_adm self" "st_drift balance self"
  "st_inv balance self w" "st_fresh w" for self w
proof unfold_locales
  show "st_inv balance self w 0 (st_fresh w)" by (rule st_inv_fresh)
next
  fix t t' and s :: "'w st_state"
  assume "st_inv balance self w t s" "t \<le> t'"
  then show "st_inv balance self w t' s" by (auto simp: st_inv_def intro: st_core_time)
qed (auto intro: st_inv_drift st_inv_call)

interpretation stg: reentrancy_guard st_enter_non_reentrant st_exit_non_reentrant
  "\<lambda>s. unwrap_or False (st_reentrancy_lock s)"
  by unfold_locales (auto simp: st_enter_non_reentrant_def st_exit_non_reentrant_def)

context token_contract
begin

lemma st_reach_inv:
  "reach (st_exec transfer) (st_adm self) (st_drift balance self) (st_fresh w) t s \<Longrightarrow> st_inv balance self w t s"
  by (rule stm.reach_inv)

end

end
