(* ===== verification/Staking_Rewards.thy ===== *)
theory Staking_Rewards
  imports Staking_Correct
begin

text \<open>
  The reward accounting of Staking and the properties of the contract. The accumulator is checked
  against the emission of the reward rate: a run is metered with the tokens the rate has emitted
  while somebody was staking, and the rewards paid and owed are bounded by the meter.
\<close>

section \<open>The emission meter\<close>

definition st_emission :: "'w st_state \<Rightarrow> 'w st_state \<Rightarrow> i128" where
  "st_emission s s' =
     (if 0 < st_total_weighted_stake s
      then st_reward_rate_per_second s * (int (st_last_reward_time s') - int (st_last_reward_time s)) else 0)"

fun st_metered :: "'w token_transfer \<Rightarrow> env \<Rightarrow> st_call \<Rightarrow> 'w st_state \<times> int \<Rightarrow> ('w st_state \<times> int) option" where
  "st_metered tr e c (s, m) = map_option (\<lambda>s'. (s', m + st_emission s s')) (st_exec tr e c s)"

text \<open>Calls that neither change the multiplier of a tier nor name a stake twice in a batch.\<close>

fun st_regular :: "st_call \<Rightarrow> bool" where
  "st_regular (StUpdateTier a i n m d r p) = (r = None)"
| "st_regular (StClaimRewardsBatch u is) = distinct is"
| "st_regular c = True"

definition st_adm_regular :: "address \<Rightarrow> env \<Rightarrow> st_call \<Rightarrow> bool" where
  "st_adm_regular self e c \<longleftrightarrow> st_adm self e c \<and> st_regular c"

definition st_metered_drift :: "'w token_balance \<Rightarrow> address \<Rightarrow> 'w st_state \<times> int \<Rightarrow> 'w st_state \<times> int \<Rightarrow> bool" where
  "st_metered_drift bal self x y \<longleftrightarrow> st_drift bal self (fst x) (fst y) \<and> snd y = snd x"

section \<open>Weights and accrued rewards\<close>

definition st_mult_at :: "'w st_state \<Rightarrow> stake_position \<Rightarrow> i128" where
  "st_mult_at s p = (case st_tier s (sp_tier_id p) of None \<Rightarrow> 0 | Some tier \<Rightarrow> int (ti_reward_multiplier_bps tier))"

definition st_weight_at :: "'w st_state \<Rightarrow> stake_position \<Rightarrow> i128" where
  "st_weight_at s p = (if sp_active p then sp_amount p * st_mult_at s p div 10000 else 0)"

lemmas st_weight_defs = st_weight_at_def st_mult_at_def st_weight_of_def

definition st_accrual_at :: "'w st_state \<Rightarrow> stake_position \<Rightarrow> i128" where
  "st_accrual_at s p = st_weight_at s p * (st_reward_per_token_stored s - sp_reward_per_token_paid p)"

definition st_accrued :: "'w st_state \<Rightarrow> int" where
  "st_accrued s = entry_sum (st_accrual_at s) (st_position s)"

text \<open>The stored weight is the weight of the active positions, whose products are representable, and the
  rewards paid and accrued are covered by the meter.\<close>

definition st_weights_fit :: "'w st_state \<Rightarrow> bool" where
  "st_weights_fit s \<longleftrightarrow> (\<forall>i p. st_position s i = Some p \<longrightarrow> sp_active p \<longrightarrow> in_i128 (sp_amount p * st_mult_at s p))"

definition st_good :: "int \<Rightarrow> 'w st_state \<Rightarrow> bool" where
  "st_good m s \<longleftrightarrow> st_total_weighted_stake s = entry_sum (st_weight_at s) (st_position s) \<and>
     PRECISION_FACTOR * st_total_rewards_distributed s + st_accrued s \<le> PRECISION_FACTOR * m \<and>
     st_weights_fit s"

lemma entry_sum_cong: "(\<And>k v. m k = Some v \<Longrightarrow> f v = g v) \<Longrightarrow> entry_sum f m = entry_sum g m"
  unfolding entry_sum_def by (rule sum.cong) auto

lemma st_good_frame:
  assumes "st_position s' = st_position s" and "st_total_weighted_stake s' = st_total_weighted_stake s"
    and "st_reward_per_token_stored s' = st_reward_per_token_stored s"
    and "st_total_rewards_distributed s' = st_total_rewards_distributed s"
    and "\<And>i p. st_position s i = Some p \<Longrightarrow> st_mult_at s' p = st_mult_at s p"
  shows "st_good m s' = st_good m s"
proof -
  have "entry_sum (st_weight_at s') (st_position s) = entry_sum (st_weight_at s) (st_position s)"
    by (rule entry_sum_cong) (simp add: st_weight_at_def assms(5))
  moreover have "st_accrued s' = st_accrued s"
    unfolding st_accrued_def assms(1) by (rule entry_sum_cong) (simp add: st_accrual_at_def st_weight_at_def assms)
  moreover have "st_weights_fit s' = st_weights_fit s"
    unfolding st_weights_fit_def assms(1) using assms(5) by auto
  ultimately show ?thesis by (simp add: st_good_def assms)
qed

lemma st_weights_fit_sub:
  assumes "st_weights_fit s" and "st_tier s' = st_tier s"
    and "\<And>i q. st_position s' i = Some q \<Longrightarrow> sp_active q \<Longrightarrow>
      \<exists>p. st_position s i = Some p \<and> sp_active p \<and> sp_amount p = sp_amount q \<and> sp_tier_id p = sp_tier_id q"
  shows "st_weights_fit s'"
  using assms unfolding st_weights_fit_def st_mult_at_def by (metis (no_types, lifting))

lemma st_weights_fit_marked:
  "st_weights_fit s \<Longrightarrow> st_tier s' = st_tier s \<Longrightarrow> st_position s' = st_marked f (st_position s) \<Longrightarrow> st_weights_fit s'"
  by (rule st_weights_fit_sub) (auto simp: st_marked_def)

lemma st_weight_at_nonneg: "st_core t s \<Longrightarrow> st_position s i = Some p \<Longrightarrow> 0 \<le> st_weight_at s p"
  using st_coreD(6) [of t s i p] by (auto simp: st_weight_defs pos_imp_zdiv_nonneg_iff split: option.splits)

lemma st_accrual_at_nonneg: "st_core t s \<Longrightarrow> st_position s i = Some p \<Longrightarrow> 0 \<le> st_accrual_at s p"
  using st_weight_at_nonneg [of t s i p] st_coreD(6) [of t s i p] by (simp add: st_accrual_at_def)

lemma st_accrued_nonneg: "st_core t s \<Longrightarrow> 0 \<le> st_accrued s"
  unfolding st_accrued_def by (rule entry_sum_nonneg) (rule st_accrual_at_nonneg)

text \<open>An update of the pool accrues at most what the rate emitted since the last one.\<close>

definition st_unmetered :: "env \<Rightarrow> 'w st_state \<Rightarrow> i128" where
  "st_unmetered e s = (if 0 < st_total_weighted_stake s
     then st_reward_rate_per_second s * (int (env_timestamp e) - int (st_last_reward_time s)) else 0)"

lemma st_pool_gain_le:
  assumes "st_last_reward_time s \<le> env_timestamp e" and "0 \<le> st_reward_rate_per_second s"
  shows "0 < st_total_weighted_stake s \<Longrightarrow> st_pool_gain e s * st_total_weighted_stake s \<le> PRECISION_FACTOR * st_unmetered e s"
    and "\<not> 0 < st_total_weighted_stake s \<Longrightarrow> st_pool_gain e s = 0"
proof -
  assume W: "0 < st_total_weighted_stake s"
  define x where "x = st_reward_rate_per_second s * (int (env_timestamp e) - int (st_last_reward_time s)) * PRECISION_FACTOR"
  have "x div st_total_weighted_stake s * st_total_weighted_stake s \<le> x"
    using W by (metis div_mult_mod_eq le_add_same_cancel1 pos_mod_sign)
  moreover have "PRECISION_FACTOR * st_unmetered e s = x" using W by (simp add: st_unmetered_def x_def)
  moreover have "st_pool_gain e s = x div st_total_weighted_stake s"
    using W assms(1) by (auto simp: st_pool_gain_def x_def of_nat_diff)
  ultimately show "st_pool_gain e s * st_total_weighted_stake s \<le> PRECISION_FACTOR * st_unmetered e s" by simp
qed (simp add: st_pool_gain_def)

lemma st_good_pool:
  assumes core: "st_core (env_timestamp e) s" and good: "st_good m s" and run: "st_update_pool e s = Inr s'"
  shows "st_good (m + st_emission s s') s'"
proof -
  note frame = st_update_pool_frame [OF run st_coreD(2) [OF core]]
  have wt: "st_weight_at s' = st_weight_at s" by (simp add: st_weight_defs fun_eq_iff frame)
  have split_acc: "st_accrual_at s' p = st_accrual_at s p + st_pool_gain e s * st_weight_at s p" for p
    by (simp add: st_accrual_at_def wt frame algebra_simps)
  have "st_accrued s' = st_accrued s + st_pool_gain e s * entry_sum (st_weight_at s) (st_position s)"
    unfolding st_accrued_def frame entry_sum_def by (simp add: split_acc sum.distrib sum_distrib_left)
  also have "entry_sum (st_weight_at s) (st_position s) = st_total_weighted_stake s" using good by (simp add: st_good_def)
  finally have acc: "st_accrued s' = st_accrued s + st_pool_gain e s * st_total_weighted_stake s" .
  have "st_emission s s' = st_unmetered e s"
    using st_coreD(5) [OF core] by (simp add: st_emission_def st_unmetered_def frame max_def)
  then have "st_pool_gain e s * st_total_weighted_stake s \<le> PRECISION_FACTOR * st_emission s s'"
    using st_pool_gain_le [OF st_coreD(5,2) [OF core]] by (cases "0 < st_total_weighted_stake s") (auto simp: st_unmetered_def)
  moreover have "st_weights_fit s'"
    by (rule st_weights_fit_sub [of s]) (use good in \<open>auto simp: st_good_def frame\<close>)
  ultimately show ?thesis
    using acc good by (simp add: st_good_def frame wt algebra_simps)
qed

lemma st_pending_bound:
  assumes core: "st_core t s" and p: "st_position s i = Some p" "sp_active p" "st_tier s (sp_tier_id p) = Some tier"
    and v: "st_calculate_pending_rewards_static e p (ti_reward_multiplier_bps tier) s = Inr v"
  shows "PRECISION_FACTOR * v \<le> st_accrual_at s p + st_pool_gain e s * st_weight_at s p"
proof -
  define x where "x = (st_reward_per_token_stored s + st_pool_gain e s - sp_reward_per_token_paid p) * st_weight_of (sp_amount p) tier"
  have acc: "st_accrual_at s p + st_pool_gain e s * st_weight_at s p = x"
    using p by (simp add: st_accrual_at_def st_weight_defs x_def algebra_simps)
  have "v = (if 0 < st_total_weighted_stake s then x div PRECISION_FACTOR else 0)"
    using st_pending_Inr [OF v st_coreD(2) [OF core]] st_coreD(6) [OF core p(1)] p(2) by (simp add: x_def)
  moreover have "0 \<le> x"
    using st_accrual_at_nonneg [OF core p(1)] st_weight_at_nonneg [OF core p(1)] st_pool_gain_nonneg [OF st_coreD(2) [OF core], of e] acc
    by (metis add_nonneg_nonneg mult_nonneg_nonneg)
  moreover have "PRECISION_FACTOR * (x div PRECISION_FACTOR) \<le> x"
    by (simp add: PRECISION_FACTOR_def)
  ultimately show ?thesis by (simp add: acc)
qed

lemma st_pending_le:
  assumes core: "st_core (env_timestamp e) s" and p: "st_position s i = Some p" "sp_active p" "st_tier s (sp_tier_id p) = Some tier"
    and v: "st_calculate_pending_rewards_static e p (ti_reward_multiplier_bps tier) s = Inr v" and run: "st_update_pool e s = Inr s1"
  shows "PRECISION_FACTOR * v \<le> st_accrual_at s1 p"
proof -
  note frame = st_update_pool_frame [OF run st_coreD(2) [OF core]]
  have "st_accrual_at s1 p = st_accrual_at s p + st_pool_gain e s * st_weight_at s p"
    by (simp add: st_accrual_at_def st_weight_defs frame algebra_simps)
  with st_pending_bound [OF core p v] show ?thesis by simp
qed

lemma st_release_books:
  assumes core: "st_core t s" and good: "st_good m s" and p: "st_position s i = Some p" "sp_active p" "st_tier s (sp_tier_id p) = Some tier"
    and run: "st_release i p tier s = Inr s'"
  shows "st_total_weighted_stake s' = entry_sum (st_weight_at s') (st_position s') \<and> st_accrued s' = st_accrued s - st_accrual_at s p \<and>
    st_total_rewards_distributed s' = st_total_rewards_distributed s \<and> st_weights_fit s'"
proof -
  have s': "s' = s\<lparr>st_position := (st_position s)(i \<mapsto> p\<lparr>sp_active := False\<rparr>), st_staked := Some (st_total_staked s - sp_amount p),
        st_weighted := Some (st_total_weighted_stake s - st_weight_of (sp_amount p) tier)\<rparr>"
    using run st_coreD(6) [OF core p(1)] by (simp add: st_release_Inr)
  have wt: "st_weight_at s' = st_weight_at s" by (simp add: st_weight_defs fun_eq_iff s')
  have acc: "st_accrual_at s' = st_accrual_at s"
    unfolding st_accrual_at_def [abs_def] wt by (simp add: s' st_getters)
  have "st_weight_at s p = st_weight_of (sp_amount p) tier" using p by (simp add: st_weight_defs)
  moreover have "st_weight_at s (p\<lparr>sp_active := False\<rparr>) = 0" by (simp add: st_weight_defs)
  moreover have "st_weights_fit s'"
    by (rule st_weights_fit_sub [of s]) (use good in \<open>auto simp: s' st_good_def split: if_splits\<close>)
  ultimately show ?thesis
    using good p(1) st_core_finite [OF core]
    by (simp add: wt acc st_accrued_def st_good_def) (simp add: s' entry_sum_upd st_accrual_at_def st_getters)
qed

lemma st_good_release:
  assumes "st_core t s" and "st_good m s" and "st_position s i = Some p" and "sp_active p" and "st_tier s (sp_tier_id p) = Some tier"
    and "st_release i p tier s = Inr s'"
  shows "st_good m s'"
  using st_release_books [OF assms] st_accrual_at_nonneg [OF assms(1,3)] assms(2) by (simp add: st_good_def)

lemma st_good_release_all:
  assumes "st_release_all u ids n s = Inr (n', s')" and "st_core t s" and "st_good m s"
  shows "st_good m s' \<and> st_last_reward_time s' = st_last_reward_time s"
  using assms
proof (induction ids arbitrary: n s)
  case (Cons i ids)
  from Cons.prems(1) obtain p where p: "st_position s i = Some p" by (auto simp: result_iffs)
  show ?case
  proof (cases "sp_user p \<noteq> u \<or> \<not> sp_active p")
    case True
    with Cons.prems(1) p have "st_release_all u ids n s = Inr (n', s')" by (auto simp: result_iffs)
    with Cons.IH Cons.prems(2,3) show ?thesis by blast
  next
    case False
    with Cons.prems(1) p obtain tier s1 where tier: "st_tier s (sp_tier_id p) = Some tier" and rel: "st_release i p tier s = Inr s1"
      and run: "st_release_all u ids (n + sp_amount p) s1 = Inr (n', s')"
      by (auto simp: result_iffs)
    have act: "sp_active p" using False by simp
    have "st_last_reward_time s1 = st_last_reward_time s"
      using rel st_coreD(6) [OF Cons.prems(2) p] by (simp add: st_release_Inr st_getters)
    with Cons.IH [OF run] st_core_release [OF Cons.prems(2) p act rel] st_good_release [OF Cons.prems(2,3) p act tier rel]
    show ?thesis by simp
  qed
qed simp

lemma st_mark_books:
  assumes "finite (dom (st_position s))" and "st_position s i = Some p"
    and s': "s' = s\<lparr>st_position := (st_position s)(i \<mapsto> p\<lparr>sp_reward_per_token_paid := st_reward_per_token_stored s\<rparr>)\<rparr>"
  shows "st_accrued s' = st_accrued s - st_accrual_at s p \<and>
    entry_sum (st_weight_at s') (st_position s') = entry_sum (st_weight_at s) (st_position s)"
proof -
  have wt: "st_weight_at s' = st_weight_at s" by (simp add: st_weight_defs fun_eq_iff s')
  have acc: "st_accrual_at s' = st_accrual_at s"
    unfolding st_accrual_at_def [abs_def] wt by (simp add: s' st_getters)
  have "st_weight_at s (p\<lparr>sp_reward_per_token_paid := r\<rparr>) = st_weight_at s p" for r
    by (simp add: st_weight_defs split: option.split)
  with assms(1,2) show ?thesis
    by (simp add: wt acc st_accrued_def) (simp add: s' entry_sum_upd st_accrual_at_def)
qed

lemma st_settle_books:
  assumes "st_settle_all (st_reward_per_token_stored s) zs n s = Inr (n', s')" and "distinct (map fst zs)" and "finite (dom (st_position s))"
    and "\<And>i v. (i, v) \<in> set zs \<Longrightarrow> \<exists>p. st_position s i = Some p \<and> PRECISION_FACTOR * v \<le> st_accrual_at s p"
  shows "PRECISION_FACTOR * n' + st_accrued s' \<le> PRECISION_FACTOR * n + st_accrued s \<and>
    entry_sum (st_weight_at s') (st_position s') = entry_sum (st_weight_at s) (st_position s)"
  using assms
proof (induction zs arbitrary: n s)
  case (Cons z zs)
  obtain i v where z: "z = (i, v)" by (cases z)
  from Cons.prems(4) [of i v] z obtain p where p: "st_position s i = Some p" "PRECISION_FACTOR * v \<le> st_accrual_at s p" by auto
  show ?case
  proof (cases "0 < v")
    case False
    with Cons.prems z have "st_settle_all (st_reward_per_token_stored s) zs n s = Inr (n', s')" by simp
    from Cons.IH [OF this] Cons.prems(2,3,4) z show ?thesis by simp
  next
    case True
    define s1 where "s1 = s\<lparr>st_position := (st_position s)(i \<mapsto> p\<lparr>sp_reward_per_token_paid := st_reward_per_token_stored s\<rparr>)\<rparr>"
    have run: "st_settle_all (st_reward_per_token_stored s1) zs (n + v) s1 = Inr (n', s')"
      using True Cons.prems(1) z p(1) by (auto simp: result_iffs Let_def s1_def st_getters)
    have mark: "st_accrued s1 = st_accrued s - st_accrual_at s p \<and> entry_sum (st_weight_at s1) (st_position s1) = entry_sum (st_weight_at s) (st_position s)"
      by (rule st_mark_books [OF Cons.prems(3) p(1) s1_def])
    have acc: "st_accrual_at s1 = st_accrual_at s"
      by (simp add: st_accrual_at_def [abs_def] st_weight_defs fun_eq_iff s1_def st_getters)
    have later: "\<exists>q. st_position s1 j = Some q \<and> PRECISION_FACTOR * u \<le> st_accrual_at s1 q" if "(j, u) \<in> set zs" for j u
    proof -
      have "j \<noteq> i" using that Cons.prems(2) z by (force simp: image_iff)
      with Cons.prems(4) [of j u] that show ?thesis unfolding acc by (auto simp: s1_def)
    qed
    have fin: "finite (dom (st_position s1))" using Cons.prems(3) by (simp add: s1_def)
    have "PRECISION_FACTOR * n' + st_accrued s' \<le> PRECISION_FACTOR * (n + v) + st_accrued s1 \<and>
        entry_sum (st_weight_at s') (st_position s') = entry_sum (st_weight_at s1) (st_position s1)"
      by (rule Cons.IH [OF run]) (use Cons.prems(2) z fin later in auto)
    with mark p(2) show ?thesis by (simp add: algebra_simps)
  qed
qed simp

section \<open>Every regular call stays within the meter\<close>

lemma st_emission_same [simp]: "st_last_reward_time s' = st_last_reward_time s \<Longrightarrow> st_emission s s' = 0"
  by (simp add: st_emission_def)

lemma st_emission_after: "st_last_reward_time s' = st_last_reward_time s1 \<Longrightarrow> st_emission s s' = st_emission s s1"
  by (simp add: st_emission_def)

lemma st_good_settings:
  assumes core: "st_core (env_timestamp e) s" and good: "st_good m s"
  shows "st_pause e a s = Inr (v, s') \<Longrightarrow> st_good (m + st_emission s s') s'"
    and "st_unpause e a s = Inr (v, s') \<Longrightarrow> st_good (m + st_emission s s') s'"
    and "st_set_reward_rate e a r s = Inr (v, s') \<Longrightarrow> st_good (m + st_emission s s') s'"
    and "st_deactivate_tier e a j s = Inr (v, s') \<Longrightarrow> st_good (m + st_emission s s') s'"
    and "st_update_tier e a j nn nm nd None np s = Inr (tier, s') \<Longrightarrow> st_good (m + st_emission s s') s'"
    and "st_fund_rewards tr e f n s = Inr (v, s') \<Longrightarrow> st_good (m + st_emission s s') s'"
proof -
  have "st_good m (s\<lparr>st_paused := b\<rparr>)" for b
    using good by (subst st_good_frame [of _ s]) (simp_all add: st_getters st_weight_defs)
  then show "st_pause e a s = Inr (v, s') \<Longrightarrow> st_good (m + st_emission s s') s'"
    and "st_unpause e a s = Inr (v, s') \<Longrightarrow> st_good (m + st_emission s s') s'"
    by (auto simp: st_pause_def st_unpause_def result_iffs st_emission_def st_getters)
next
  assume "st_fund_rewards tr e f n s = Inr (v, s')"
  then obtain w' where s': "s' = s\<lparr>st_reentrancy_lock := Some False, st_tokens := w'\<rparr>"
    by (auto simp: st_fund_rewards_def result_iffs)
  have "st_good m s'" using good unfolding s' by (subst st_good_frame [of _ s]) (simp_all add: st_getters st_weight_defs)
  then show "st_good (m + st_emission s s') s'" by (simp add: s' st_getters)
next
  assume "st_set_reward_rate e a r s = Inr (v, s')"
  then obtain s1 where s1: "st_update_pool e s = Inr s1" "s' = s1\<lparr>st_reward_rate := Some r\<rparr>"
    by (auto simp: st_set_reward_rate_def result_iffs)
  have "st_good (m + st_emission s s1) s'"
    using st_good_pool [OF core good s1(1)] unfolding s1(2) by (subst st_good_frame [of _ s1]) (simp_all add: st_getters st_weight_defs)
  moreover have "st_last_reward_time s' = st_last_reward_time s1" by (simp add: s1(2) st_getters)
  ultimately show "st_good (m + st_emission s s') s'" by (simp add: st_emission_after [of s' s1])
next
  have same: "st_good (m + st_emission s s') s'"
    if "st_tier s j = Some tr" "ti_reward_multiplier_bps tr' = ti_reward_multiplier_bps tr" "s' = s\<lparr>st_tier := (st_tier s)(j \<mapsto> tr')\<rparr>" for tr tr'
  proof -
    have "st_good m s'"
      using good that by (subst st_good_frame [of _ s]) (auto simp: st_getters st_weight_defs st_weight_of_def)
    then show ?thesis by (simp add: that(3) st_getters)
  qed
  show "st_good (m + st_emission s s') s'" if "st_deactivate_tier e a j s = Inr (v, s')"
  proof -
    from that obtain x where "st_tier s j = Some x" "s' = s\<lparr>st_tier := (st_tier s)(j \<mapsto> x\<lparr>ti_active := False\<rparr>)\<rparr>"
      by (auto simp: st_deactivate_tier_def result_iffs)
    then show ?thesis by (intro same [of x "x\<lparr>ti_active := False\<rparr>"]) simp_all
  qed
  assume "st_update_tier e a j nn nm nd None np s = Inr (tier, s')"
  then obtain tr where "st_tier s j = Some tr" "st_change_tier nn nm nd None np tr = Inr tier" "s' = s\<lparr>st_tier := (st_tier s)(j \<mapsto> tier)\<rparr>"
    by (auto simp: st_update_tier_def result_iffs)
  with same st_change_tier_Inr show "st_good (m + st_emission s s') s'" by metis
qed

lemma st_good_initialize:
  assumes core: "st_core (env_timestamp e) s" and good: "st_good m s" and run: "st_initialize e a tok r s = Inr (v, s')"
  shows "st_good (m + st_emission s s') s'"
proof -
  have none: "st_admin s = None" using run by (auto simp: st_initialize_def result_iffs)
  have empty: "st_position s = (\<lambda>_. None)" and W: "st_total_weighted_stake s = 0"
    using st_core_uninit [OF core none] by simp_all
  have "0 \<le> PRECISION_FACTOR * m" using good st_accrued_nonneg [OF core] st_coreD(4) [OF core]
    by (auto simp: st_good_def PRECISION_FACTOR_def)
  with run empty W show ?thesis
    by (auto simp: st_initialize_def result_iffs st_good_def st_accrued_def st_emission_def st_weights_fit_def st_getters)
qed

lemma st_good_add_tier:
  assumes core: "st_core (env_timestamp e) s" and good: "st_good m s" and run: "st_add_tier e a n mi d r p s = Inr (i, s')"
  shows "st_good (m + st_emission s s') s'"
  using run
proof (cases rule: st_add_tier_Inr)
  case 1
  have "st_tier s j \<noteq> None \<longleftrightarrow> 1 \<le> j \<and> j \<le> st_tier_counter s" for j
    using core by (simp only: st_core_def st_tiers_ok_def)
  from this [of "st_tier_counter s + 1"] have new: "st_tier s (st_tier_counter s + 1) = None" by simp
  have "st_mult_at s' q = st_mult_at s q" if "st_position s k = Some q" for k q
    using st_coreD(6) [OF core that] new by (auto simp: 1(7) st_mult_at_def)
  with good have "st_good m s'"
    by (subst st_good_frame [of _ s]) (simp_all add: 1(7) st_getters)
  then show ?thesis by (simp add: 1(7) st_getters)
qed

lemma st_good_stake:
  assumes core: "st_core (env_timestamp e) s" and good: "st_good m s" and run: "st_stake tr e user n ti s = Inr (r, s')"
  shows "st_good (m + st_emission s s') s'"
  using run st_coreD(2) [OF core]
proof (cases rule: st_stake_Inr)
  case (1 tier s1 tok w')
  have core1: "st_core (env_timestamp e) s1" by (rule st_core_pool [OF core 1(7)])
  have "st_position s1 i \<noteq> None \<longleftrightarrow> 1 \<le> i \<and> i \<le> st_stake_counter s1" for i
    using core1 by (simp only: st_core_def st_positions_ok_def)
  from this [of "st_stake_counter s1 + 1"] have new: "st_position s1 (st_stake_counter s1 + 1) = None" by simp
  have tier1: "st_tier s1 ti = Some tier" using 1(4) st_update_pool_frame [OF 1(7) st_coreD(2) [OF core]] by simp
  have wt: "st_weight_at s' = st_weight_at s1" by (simp add: st_weight_defs fun_eq_iff 1(14))
  have acc: "st_accrual_at s' = st_accrual_at s1"
    unfolding st_accrual_at_def [abs_def] wt by (simp add: 1(14) st_getters)
  have "st_good (m + st_emission s s1) s1" by (rule st_good_pool [OF core good 1(7)])
  moreover from this have "st_weights_fit s'"
    using 1(10) tier1 by (auto simp: st_good_def st_weights_fit_def st_mult_at_def 1(14))
  ultimately have "st_good (m + st_emission s s1) s'"
    using new tier1 st_core_finite [OF core1]
    by (simp add: st_good_def st_accrued_def wt acc)
       (simp add: 1(14) entry_sum_upd st_getters st_accrual_at_def st_weight_defs)
  moreover have "st_last_reward_time s' = st_last_reward_time s1" by (simp add: 1(14) st_getters)
  ultimately show ?thesis by (simp add: st_emission_after [of s' s1])
qed

lemma st_good_unstake:
  assumes core: "st_core (env_timestamp e) s" and good: "st_good m s" and run: "st_unstake tr e user i s = Inr (r, s')"
  shows "st_good (m + st_emission s s') s'"
  using run
proof (cases rule: st_unstake_Inr)
  case (1 p tier pend s1 pen net s2 dd tok w1 w2)
  note frame = st_update_pool_frame [OF 1(7) st_coreD(2) [OF core]]
  have core1: "st_core (env_timestamp e) s1" by (rule st_core_pool [OF core 1(7)])
  have good1: "st_good (m + st_emission s s1) s1" by (rule st_good_pool [OF core good 1(7)])
  have p1: "st_position s1 i = Some p" "st_tier s1 (sp_tier_id p) = Some tier" using 1(2,5) frame by simp_all
  note rel = st_release_books [OF core1 good1 p1(1) 1(4) p1(2) 1(10)]
  have pend: "PRECISION_FACTOR * pend \<le> st_accrual_at s1 p" "0 \<le> pend"
    using st_pending_le [OF core 1(2,4,5,6,7)] st_pending_nonneg [OF core 1(2,4,6)] by simp_all
  have dd: "unwrap_or 0 dd = st_total_rewards_distributed s1 + pend"
    using 1(11,12) pend(2) rel by (cases "0 < pend") (auto simp: st_total_rewards_distributed_def)
  have wt: "st_weight_at s' = st_weight_at s2" by (simp add: st_weight_defs fun_eq_iff 1(19))
  have acc: "st_accrued s' = st_accrued s2"
    unfolding st_accrued_def st_accrual_at_def [abs_def] wt by (simp add: 1(19) st_getters)
  have "st_weights_fit s'"
    by (rule st_weights_fit_sub [of s2]) (use rel in \<open>auto simp: 1(19)\<close>)
  then have "st_good (m + st_emission s s1) s'"
    using rel good1 pend(1) dd acc wt by (simp add: st_good_def 1(19) st_getters algebra_simps)
  moreover have "st_last_reward_time s' = st_last_reward_time s1"
    using 1(10) st_coreD(6) [OF core 1(2)] by (auto simp: 1(19) st_release_Inr st_getters)
  ultimately show ?thesis by (simp add: st_emission_after [of s' s1])
qed

lemma st_good_claim:
  assumes core: "st_core (env_timestamp e) s" and good: "st_good m s" and run: "st_claim_rewards tr e user i s = Inr (n, s')"
  shows "st_good (m + st_emission s s') s'"
  using run
proof (cases rule: st_claim_rewards_Inr)
  case (1 p tier s1 tok w')
  note frame = st_update_pool_frame [OF 1(8) st_coreD(2) [OF core]]
  have core1: "st_core (env_timestamp e) s1" by (rule st_core_pool [OF core 1(8)])
  have good1: "st_good (m + st_emission s s1) s1" by (rule st_good_pool [OF core good 1(8)])
  define s2 where "s2 = s1\<lparr>st_position := (st_position s1)(i \<mapsto> p\<lparr>sp_reward_per_token_paid := st_reward_per_token_stored s1\<rparr>)\<rparr>"
  have p1: "st_position s1 i = Some p" using 1(2) frame by simp
  note mark = st_mark_books [OF st_core_finite [OF core1] p1 s2_def]
  have wt: "st_weight_at s' = st_weight_at s2" by (simp add: st_weight_defs fun_eq_iff 1(11) s2_def)
  have acc: "st_accrued s' = st_accrued s2"
    unfolding st_accrued_def st_accrual_at_def [abs_def] wt by (simp add: 1(11) s2_def st_getters)
  have pos: "st_position s' = st_position s2" by (simp add: 1(11) s2_def)
  have "st_total_weighted_stake s' = st_total_weighted_stake s1" "st_total_rewards_distributed s' = st_total_rewards_distributed s1 + n"
    by (simp_all add: 1(11) st_getters)
  moreover have "st_weights_fit s'"
    by (rule st_weights_fit_marked [of s1]) (use good1 in \<open>auto simp: st_good_def 1(11) st_mark_one [of "st_position s1", OF p1]\<close>)
  ultimately have "st_good (m + st_emission s s1) s'"
    using mark good1 st_pending_le [OF core 1(2,4,5,6,8)] acc wt pos by (simp add: st_good_def algebra_simps)
  moreover have "st_last_reward_time s' = st_last_reward_time s1" by (simp add: 1(11) st_getters)
  ultimately show ?thesis by (simp add: st_emission_after [of s' s1])
qed

lemma st_good_claim_batch:
  assumes core: "st_core (env_timestamp e) s" and good: "st_good m s" and ids: "distinct ids"
    and run: "st_claim_rewards_batch tr e user ids s = Inr (n, s')"
  shows "st_good (m + st_emission s s') s'"
  using run
proof (cases rule: st_claim_rewards_batch_Inr)
  case (1 vs s1 s2 tok w')
  note frame = st_update_pool_frame [OF 1(3) st_coreD(2) [OF core]]
  have core1: "st_core (env_timestamp e) s1" by (rule st_core_pool [OF core 1(3)])
  have good1: "st_good (m + st_emission s s1) s1" by (rule st_good_pool [OF core good 1(3)])
  have "length ids = length vs" using 1(2) by (rule list_all2_lengthD)
  then have fst_ids: "map fst (zip ids vs) = ids" by simp
  have due: "\<exists>p. st_position s1 i = Some p \<and> PRECISION_FACTOR * v \<le> st_accrual_at s1 p" if "(i, v) \<in> set (zip ids vs)" for i v
  proof -
    have "st_pending_of e user s i v" using 1(2) that by (auto simp: list_all2_iff)
    then show ?thesis
      using st_pending_le [OF core _ _ _ _ 1(3)] by (auto simp: st_pending_of_def frame)
  qed
  have books: "PRECISION_FACTOR * n + st_accrued s2 \<le> st_accrued s1 \<and>
      entry_sum (st_weight_at s2) (st_position s2) = entry_sum (st_weight_at s1) (st_position s1)"
    using st_settle_books [OF 1(4) _ st_core_finite [OF core1] due] fst_ids ids by simp
  from st_settle_all_Inr [OF 1(4)] obtain f where s2: "s2 = s1\<lparr>st_position := st_marked f (st_position s1)\<rparr>" by blast
  have wt: "st_weight_at s' = st_weight_at s2" by (simp add: st_weight_defs fun_eq_iff 1(8))
  have acc: "st_accrued s' = st_accrued s2"
    unfolding st_accrued_def st_accrual_at_def [abs_def] wt by (simp add: 1(8) st_getters)
  have same: "st_total_weighted_stake s' = st_total_weighted_stake s1" "st_position s' = st_position s2"
      "st_total_rewards_distributed s' = st_total_rewards_distributed s1 + n" "st_last_reward_time s' = st_last_reward_time s1"
    by (simp_all add: 1(8) s2 st_getters)
  have "st_weights_fit s'"
    by (rule st_weights_fit_marked [of s1]) (use good1 in \<open>auto simp: st_good_def 1(8) s2\<close>)
  then have "st_good (m + st_emission s s1) s'"
    using books good1 acc wt same by (simp add: st_good_def algebra_simps)
  then show ?thesis using same by (simp add: st_emission_after [of s' s1])
qed

lemma st_good_emergency:
  assumes core: "st_core (env_timestamp e) s" and good: "st_good m s" and run: "st_emergency_withdraw tr e a user i s = Inr (r, s')"
  shows "st_good (m + st_emission s s') s'"
  using run
proof (cases rule: st_emergency_withdraw_Inr)
  case (1 p tier s1 tok w')
  have "st_good m s1" by (rule st_good_release [OF core good 1(3,5,6,7)])
  then have "st_good m s'" by (subst st_good_frame [of _ s1]) (simp_all add: 1(10) st_getters st_weight_defs)
  moreover have "st_last_reward_time s' = st_last_reward_time s"
    using 1(7) st_coreD(6) [OF core 1(3)] by (auto simp: 1(10) st_release_Inr st_getters)
  ultimately show ?thesis by simp
qed

lemma st_good_emergency_all:
  assumes core: "st_core (env_timestamp e) s" and good: "st_good m s" and run: "st_emergency_withdraw_all tr e a user s = Inr (n, s')"
  shows "st_good (m + st_emission s s') s'"
proof -
  from run obtain s1 where rel: "st_release_all user (st_user_stake_ids user s) 0 s = Inr (n, s1)"
    and s': "s' = s1 \<or> (\<exists>w'. s' = s1\<lparr>st_reentrancy_lock := Some False, st_tokens := w'\<rparr>)"
    by (rule st_emergency_withdraw_all_Inr) (auto split: if_splits)
  have "st_good m s1" "st_last_reward_time s1 = st_last_reward_time s"
    using st_good_release_all [OF rel core good] by simp_all
  moreover from this(1) have "st_good m (s1\<lparr>st_reentrancy_lock := Some False, st_tokens := w'\<rparr>)" for w'
    by (subst st_good_frame [of _ s1]) (simp_all add: st_getters st_weight_defs)
  ultimately show ?thesis using s' by (auto simp: st_getters)
qed

lemma st_good_call:
  assumes core: "st_core (env_timestamp e) s" and good: "st_good m s" and reg: "st_regular c" and run: "st_exec tr e c s = Some s'"
  shows "st_good (m + st_emission s s') s'"
  using reg run core good
  by (cases c) (auto simp: result_iffs
      intro: st_good_initialize st_good_settings st_good_add_tier st_good_stake st_good_unstake st_good_claim st_good_claim_batch
        st_good_emergency st_good_emergency_all)

sublocale token_contract \<subseteq> ste: contract_machine "st_metered transfer" "st_adm_regular self" "st_metered_drift balance self"
  "\<lambda>t x. st_inv balance self w t (fst x) \<and> st_good (snd x) (fst x)" "(st_fresh w, 0)" for self w
proof unfold_locales
  show "st_inv balance self w 0 (fst (st_fresh w, 0)) \<and> st_good (snd (st_fresh w, 0)) (fst (st_fresh w, 0))"
    using st_inv_fresh by (simp add: st_good_def st_accrued_def st_weights_fit_def) (simp add: st_fresh_def st_getters)
next
  fix t t' and x :: "'w st_state \<times> int"
  assume "st_inv balance self w t (fst x) \<and> st_good (snd x) (fst x)" "t \<le> t'"
  then show "st_inv balance self w t' (fst x) \<and> st_good (snd x) (fst x)" by (auto intro: stm.inv_tick)
next
  fix t and x y :: "'w st_state \<times> int"
  assume "st_inv balance self w t (fst x) \<and> st_good (snd x) (fst x)" and d: "st_metered_drift balance self x y"
  moreover from d obtain w' where "fst y = fst x\<lparr>st_tokens := w'\<rparr>" by (auto simp: st_metered_drift_def st_drift_def)
  then have "st_good m (fst y) = st_good m (fst x)" for m
    by (intro st_good_frame) (simp_all add: st_getters st_mult_at_def)
  ultimately show "st_inv balance self w t (fst y) \<and> st_good (snd y) (fst y)"
    by (auto simp: st_metered_drift_def intro: st_inv_drift)
next
  fix e c and x y :: "'w st_state \<times> int"
  assume inv: "st_inv balance self w (env_timestamp e) (fst x) \<and> st_good (snd x) (fst x)" and adm: "st_adm_regular self e c"
    and run: "st_metered transfer e c x = Some y"
  obtain s m where x: "x = (s, m)" by (cases x)
  from run x obtain s' where s': "st_exec transfer e c s = Some s'" "y = (s', m + st_emission s s')" by auto
  with inv adm x st_inv_call [of self w e s c s'] st_good_call [of e s m c transfer s'] st_inv_core [of balance self w "env_timestamp e" s]
  show "st_inv balance self w (env_timestamp e) (fst y) \<and> st_good (snd y) (fst y)"
    by (simp add: st_adm_regular_def)
qed

context token_contract
begin

lemma st_metered_inv:
  "reach (st_metered transfer) (st_adm_regular self) (st_metered_drift balance self) (st_fresh w, 0) t (s, m) \<Longrightarrow>
   st_inv balance self w t s \<and> st_good m s"
  using ste.reach_inv [of self w t "(s, m)"] by simp

end

section \<open>A concrete run\<close>

text \<open>A contract at \<open>Addr 0\<close> with the token at \<open>Addr 50\<close>, a reward rate of 10 and one tier: minimum
  100, lock time 100, multiplier 1.0, penalty ten percent. \<open>Addr 1\<close> stakes 1000 at time 10 and
  \<open>Addr 3\<close> funds the rewards.\<close>

definition st_env :: "u64 \<Rightarrow> env" where
  "st_env t = \<lparr>env_timestamp = t, env_auth = (\<lambda>a. a \<noteq> Addr 0), env_self = Addr 0, env_sequence = 0\<rparr>"

definition st_world :: mock_world where
  "st_world = (\<lambda>tok. if tok = Addr 50 then [Addr 1 \<mapsto> 5000, Addr 2 \<mapsto> 5000, Addr 3 \<mapsto> 9000] else Map.empty)"

definition st_demo_calls :: "(env \<times> st_call) list" where
  "st_demo_calls =
     [(st_env 5, StInitialize (Addr 7) (Addr 50) 10),
      (st_env 6, StAddTier (Addr 7) ''gold'' 100 100 10000 1000),
      (st_env 10, StStake (Addr 1) 1000 1),
      (st_env 11, StFundRewards (Addr 3) 5000)]"

definition st_demo_tier :: staking_tier where
  "st_demo_tier = \<lparr>ti_tier_id = 1, ti_name = ''gold'', ti_min_stake_amount = 100, ti_lock_duration_seconds = 100,
     ti_reward_multiplier_bps = 10000, ti_penalty_bps = 1000, ti_active = True, ti_created_at = 6\<rparr>"

definition st_demo_stake :: stake_position where
  "st_demo_stake = \<lparr>sp_stake_id = 1, sp_user = Addr 1, sp_amount = 1000, sp_tier_id = 1, sp_stake_time = 10,
     sp_lock_end_time = 110, sp_reward_per_token_paid = 0, sp_active = True\<rparr>"

definition st_demo :: "mock_world st_state" where
  "st_demo = \<lparr>st_admin = Some (Addr 7), st_reward_token = Some (Addr 50), st_paused = Some False, st_reward_rate = Some 10,
     st_last_time = Some 10, st_rpt_stored = Some 0, st_weighted = Some 1000, st_staked = Some 1000, st_distributed = Some 0,
     st_stake_count = Some 1, st_position = [1 \<mapsto> st_demo_stake], st_user_ids = [Addr 1 \<mapsto> [1]], st_tier_count = Some 1,
     st_tier = [1 \<mapsto> st_demo_tier], st_tier_list = Some [1], st_reentrancy_lock = Some False,
     st_tokens = st_world(Addr 50 := [Addr 1 \<mapsto> 4000, Addr 2 \<mapsto> 5000, Addr 3 \<mapsto> 4000, Addr 0 \<mapsto> 6000])\<rparr>"

lemma st_env_simps [simp]:
  "env_timestamp (st_env t) = t" "env_auth (st_env t) a = (a \<noteq> Addr 0)" "env_self (st_env t) = Addr 0"
  by (simp_all add: st_env_def)

lemmas st_eval = st_initialize_def st_add_tier_def st_update_tier_def st_change_tier_def st_stake_def st_unstake_def
  st_fund_rewards_def st_claim_rewards_batch_def st_update_pool_def st_increment_def st_calculate_weight_def
  st_calculate_pending_rewards_static_def st_future_rpt_def st_calculate_penalty_def st_penalty_split_def st_release_def
  st_record_rewards_def st_pay_positive_def st_transfer_token_def st_transfer_token_unchecked_def
  st_enter_non_reentrant_def st_exit_non_reentrant_def st_next_tier_id_def st_next_stake_id_def st_add_user_stake_def
  st_get_pending_rewards_def st_checks st_getters require_auth_def call_token_def mock_world_transfer_def mock_transfer_def
  mock_balance_def mock_world_balance_def div_i128_nonneg ST_BPS_DENOMINATOR_def PRECISION_FACTOR_def MAX_TIERS_def
  ST_MAX_PENALTY_BPS_def ST_MAX_BATCH_SIZE_def Let_def arith_defs

lemma st_demo_run: "run_calls (st_exec mock_world_transfer) st_demo_calls (st_fresh st_world) = st_demo"
  by (simp add: st_demo_calls_def st_demo_def st_demo_tier_def st_demo_stake_def st_world_def st_fresh_def st_eval)
     (auto simp: fun_eq_iff)

lemma st_demo_reach:
  "reach (st_exec mock_world_transfer) (st_adm (Addr 0)) (st_drift mock_world_balance (Addr 0)) (st_fresh st_world) 11 st_demo"
  using reach_run [of "st_adm (Addr 0)" st_demo_calls "st_exec mock_world_transfer" "st_drift mock_world_balance (Addr 0)" "st_fresh st_world"]
  by (simp add: st_demo_run) (simp add: st_demo_calls_def st_adm_def)

lemma st_demo_metered: "run_calls (st_metered mock_world_transfer) st_demo_calls (st_fresh st_world, 0) = (st_demo, 0)"
  by (simp add: st_demo_calls_def st_demo_def st_demo_tier_def st_demo_stake_def st_world_def st_fresh_def st_emission_def st_eval)
     (auto simp: fun_eq_iff)

text \<open>The staker claims at time 60, half of what the rate has emitted when the lock ends at 110.\<close>

definition st_demo2 :: "mock_world st_state" where
  "st_demo2 = st_demo\<lparr>st_last_time := Some 60, st_rpt_stored := Some 500000000000000000, st_distributed := Some 500,
     st_position := [1 \<mapsto> st_demo_stake\<lparr>sp_reward_per_token_paid := 500000000000000000\<rparr>],
     st_tokens := st_world(Addr 50 := [Addr 1 \<mapsto> 4500, Addr 2 \<mapsto> 5000, Addr 3 \<mapsto> 4000, Addr 0 \<mapsto> 5500])\<rparr>"

lemma st_demo2_claim: "st_metered mock_world_transfer (st_env 60) (StClaimRewards (Addr 1) 1) (st_demo, 0) = Some (st_demo2, 500)"
  by (simp add: st_claim_rewards_def st_demo2_def st_demo_def st_demo_tier_def st_demo_stake_def st_world_def st_emission_def st_eval)
     (auto simp: fun_eq_iff)

lemma st_demo2_reach:
  "reach (st_metered mock_world_transfer) (st_adm_regular (Addr 0)) (st_metered_drift mock_world_balance (Addr 0)) (st_fresh st_world, 0) 60
     (st_demo2, 500)"
proof -
  have "reach (st_metered mock_world_transfer) (st_adm_regular (Addr 0)) (st_metered_drift mock_world_balance (Addr 0)) (st_fresh st_world, 0) 11
     (st_demo, 0)"
    using reach_run [of "st_adm_regular (Addr 0)" st_demo_calls "st_metered mock_world_transfer" "st_metered_drift mock_world_balance (Addr 0)" "(st_fresh st_world, 0)"]
    by (simp add: st_demo_metered) (simp add: st_demo_calls_def st_adm_regular_def st_adm_def)
  then show ?thesis
    by (rule reach_call [where e = "st_env 60" and c = "StClaimRewards (Addr 1) 1", OF reach_tick [where t' = 60]]) (simp_all add: st_adm_regular_def st_adm_def st_demo2_claim del: st_metered.simps One_nat_def)
qed

section \<open>Properties\<close>

text \<open>What all positions together could claim now, as the view \<open>get_pending_rewards\<close> reports it.\<close>

definition st_claimable :: "env \<Rightarrow> 'w st_state \<Rightarrow> int" where
  "st_claimable e s = (\<Sum>i\<in>dom (st_position s). case st_get_pending_rewards e i s of Inl _ \<Rightarrow> 0 | Inr v \<Rightarrow> v)"

lemma st_view_bound:
  assumes core: "st_core t s" and p: "st_position s i = Some p"
  shows "PRECISION_FACTOR * (case st_get_pending_rewards e i s of Inl _ \<Rightarrow> 0 | Inr v \<Rightarrow> v)
    \<le> st_accrual_at s p + st_pool_gain e s * st_weight_at s p"
proof (cases "st_get_pending_rewards e i s")
  case (Inl err)
  then show ?thesis
    using st_accrual_at_nonneg [OF core p] st_weight_at_nonneg [OF core p] st_pool_gain_nonneg [OF st_coreD(2) [OF core], of e] by simp
next
  case (Inr v)
  show ?thesis
  proof (cases "sp_active p")
    case False
    with Inr p have "v = 0" by (auto simp: st_get_pending_rewards_def result_iffs)
    with False Inr show ?thesis by (simp add: st_accrual_at_def st_weight_at_def)
  next
    case True
    with Inr p obtain tier where "st_tier s (sp_tier_id p) = Some tier"
      "st_calculate_pending_rewards_static e p (ti_reward_multiplier_bps tier) s = Inr v"
      by (auto simp: st_get_pending_rewards_def result_iffs)
    with st_pending_bound [OF core p True] Inr show ?thesis by simp
  qed
qed

text \<open>
  C3. Rewards never exceed the emission. Run the contract with any calls that do not change the
  multiplier of an existing tier and do not repeat a stake in a batch claim, and meter the tokens the
  reward rate emits while there is weight. Then at every time the rewards paid so far and everything
  all positions could claim at that moment are together at most what the rate has emitted.
\<close>

theorem st_rewards_within_emission:
  assumes "token_contract tr bal"
    and "reach (st_metered tr) (st_adm_regular self) (st_metered_drift bal self) (st_fresh w, 0) t (s, emitted)"
    and "t \<le> env_timestamp e"
  shows "st_total_rewards_distributed s + st_claimable e s \<le> emitted + st_unmetered e s"
proof -
  have good: "st_good emitted s" and inv: "st_core t s"
    using token_contract.st_metered_inv [OF assms(1,2)] by (auto dest: st_inv_core)
  have core: "st_core (env_timestamp e) s" by (rule st_core_time [OF inv assms(3)])
  have "PRECISION_FACTOR * st_claimable e s \<le> (\<Sum>i\<in>dom (st_position s). st_accrual_at s (the (st_position s i)) + st_pool_gain e s * st_weight_at s (the (st_position s i)))"
    unfolding st_claimable_def sum_distrib_left by (rule sum_mono) (use st_view_bound [OF core] in auto)
  also have "\<dots> = st_accrued s + st_pool_gain e s * st_total_weighted_stake s"
    using good by (simp add: st_good_def st_accrued_def entry_sum_def sum.distrib sum_distrib_left)
  also have "\<dots> \<le> st_accrued s + PRECISION_FACTOR * st_unmetered e s"
    using st_pool_gain_le [OF st_coreD(5,2) [OF core]] by (cases "0 < st_total_weighted_stake s") (auto simp: st_unmetered_def)
  finally have "PRECISION_FACTOR * (st_total_rewards_distributed s + st_claimable e s) \<le> PRECISION_FACTOR * (emitted + st_unmetered e s)"
    using good by (simp add: st_good_def algebra_simps)
  then show ?thesis by (simp add: PRECISION_FACTOR_def)
qed

theorem st_rewards_within_emission_witness:
  "st_total_rewards_distributed st_demo2 + st_claimable (st_env 110) st_demo2 \<le> 500 + st_unmetered (st_env 110) st_demo2 \<and>
   st_total_rewards_distributed st_demo2 = 500 \<and> st_unmetered (st_env 110) st_demo2 = 500 \<and>
   st_get_pending_rewards (st_env 110) 1 st_demo2 = Inr 500"
  using st_rewards_within_emission [OF mock.token_contract_axioms st_demo2_reach, of "st_env 110"]
  by (simp add: st_demo2_def st_demo_def st_demo_stake_def st_demo_tier_def st_unmetered_def st_eval)

text \<open>
  C26. Principal and payments. In every reachable state, whatever the administrator changed, the
  recorded total is the sum of the amounts of the active positions, each position is listed exactly
  once under its owner, and beyond its initial balance the contract holds at least this total less the
  rewards it has paid out: nothing but reward payments can be missing from the principal.
\<close>

theorem st_principal_accounted:
  assumes "token_contract tr bal"
    and "reach (st_exec tr) (st_adm self) (st_drift bal self) (st_fresh w) t s" and "st_reward_token s = Some tok"
  shows "bal w tok self + st_total_staked s \<le> bal (st_tokens s) tok self + st_total_rewards_distributed s \<and>
    st_total_staked s = entry_sum (\<lambda>p. if sp_active p then sp_amount p else 0) (st_position s) \<and> 0 \<le> st_total_staked s \<and>
    distinct (st_user_stake_ids u s) \<and>
    set (st_user_stake_ids u s) = {i. \<exists>p. st_position s i = Some p \<and> sp_user p = u}"
proof -
  have inv: "st_core t s" "bal w tok self + st_held tok s \<le> bal (st_tokens s) tok self"
    using token_contract.st_reach_inv [OF assms(1,2)] by (auto simp: st_inv_def)
  have "st_amount_at = (\<lambda>p. if sp_active p then sp_amount p else 0)" by (simp add: st_amount_at_def fun_eq_iff)
  then show ?thesis
    using inv assms(3) st_staked_nonneg [OF inv(1)] by (auto simp: st_held_def st_core_def st_positions_ok_def)
qed

theorem st_principal_accounted_witness:
  "mock_world_balance st_world (Addr 50) (Addr 0) + st_total_staked st_demo
     \<le> mock_world_balance (st_tokens st_demo) (Addr 50) (Addr 0) + st_total_rewards_distributed st_demo \<and>
   st_total_staked st_demo = 1000"
  using st_principal_accounted [OF mock.token_contract_axioms st_demo_reach, of "Addr 50"]
  by (simp add: st_demo_def st_total_staked_def)

text \<open>
  Leaving a stake. In a reachable state an unstake pays the whole principal from the end of the lock
  on and before it the principal less the penalty of the tier rounded down, together with exactly the
  pending rewards the view reports; the staker receives exactly this, the position is closed and leaves
  the total, and a second unstake of it is refused.
\<close>

theorem st_unstake_settles:
  assumes "token_contract tr bal"
    and "reach (st_exec tr) (st_adm self) (st_drift bal self) (st_fresh w) t s" and "t \<le> env_timestamp e"
    and "env_self e = self" and "user \<noteq> self" and "st_unstake tr e user i s = Inr (r, s')"
    and "st_position s i = Some p" and "st_tier s (sp_tier_id p) = Some tier" and "st_reward_token s = Some tok"
  shows "ur_penalty_amount r = (if env_timestamp e < sp_lock_end_time p then sp_amount p * int (ti_penalty_bps tier) div 10000 else 0) \<and>
    ur_principal_returned r = sp_amount p - ur_penalty_amount r \<and>
    st_get_pending_rewards e i s = Inr (ur_rewards_claimed r) \<and>
    bal (st_tokens s') tok user = bal (st_tokens s) tok user + ur_principal_returned r + ur_rewards_claimed r \<and>
    st_total_staked s' = st_total_staked s - sp_amount p \<and>
    st_total_rewards_distributed s' = st_total_rewards_distributed s + ur_rewards_claimed r \<and>
    st_position s' i = Some (p\<lparr>sp_active := False\<rparr>) \<and>
    st_unstake tr e' user i s' = Inl (if env_auth e' user then StStakeNotActive else StAuth)"
proof -
  have core: "st_core (env_timestamp e) s"
    by (rule st_core_time [OF st_inv_core [OF token_contract.st_reach_inv [OF assms(1,2)]] assms(3)])
  show ?thesis
    using assms(6)
  proof (cases rule: st_unstake_Inr)
    case (1 q tr' pend s1 pen net s2 dd tk w1 w2)
    have same: "q = p" "tr' = tier" using 1(2,5) assms(7,8) by auto
    note frame = st_update_pool_frame [OF 1(7) st_coreD(2) [OF core]]
    have p: "0 < sp_amount p" "ti_penalty_bps tier \<le> 10000" "i \<noteq> 0" "sp_tier_id p \<noteq> 0"
      using st_coreD(6) [OF core assms(7)] st_coreD(7) [OF core assms(8)] st_core_ids(1) [OF core assms(7)] st_core_ids(2) [OF core assms(8)]
      by blast+
    have pend: "0 \<le> pend" using st_pending_nonneg [OF core 1(2,4,6)] .
    note pay = st_penalty_split_Inr [OF 1(8)]
    have pen: "pen = (if env_timestamp e < sp_lock_end_time p then sp_amount p * int (ti_penalty_bps tier) div 10000 else 0)"
        "net = sp_amount p - pen" "0 \<le> net"
      using pay p same by auto
    have s2: "s2 = s1\<lparr>st_position := (st_position s1)(i \<mapsto> p\<lparr>sp_active := False\<rparr>), st_staked := Some (st_total_staked s1 - sp_amount p),
        st_weighted := Some (st_total_weighted_stake s1 - st_weight_of (sp_amount p) tier)\<rparr>"
      using 1(10) p same by (simp add: st_release_Inr)
    have tk: "tk = tok" using 1(13) assms(9) frame by (simp add: s2)
    have dd: "unwrap_or 0 dd = st_total_rewards_distributed s + pend"
      using 1(11,12) pend frame(6) by (cases "0 < pend") (auto simp: s2 st_getters)
    have view: "st_get_pending_rewards e i s = Inr pend"
      using 1(2,4,5,6) p same by (simp add: st_get_pending_rewards_def st_load_stake_def st_load_tier_def)
    have b1: "bal w1 tok user = bal (st_tokens s) tok user + net"
      using 1(15,16) pen(3) token_contract.balance_dst [OF assms(1), of e tok self user net] assms(4,5) tk
      by (cases "0 < net") (auto simp: s2 frame)
    have b2: "bal w2 tok user = bal w1 tok user + pend"
      using 1(17,18) pend token_contract.balance_dst [OF assms(1), of e tok self user pend] assms(4,5) tk
      by (cases "0 < pend") auto
    have "st_total_staked s' = st_total_staked s - sp_amount p" "st_total_rewards_distributed s' = unwrap_or 0 dd"
        "st_position s' i = Some (p\<lparr>sp_active := False\<rparr>)"
      using frame(5) by (simp_all add: 1(19) s2 st_getters)
    moreover from this(3) have "st_unstake tr e' user i s' = Inl (if env_auth e' user then StStakeNotActive else StAuth)"
      using p(3) 1(3) same by (simp add: st_unstake_def require_auth_def st_load_stake_def)
    ultimately show ?thesis
      using view b1 b2 pen dd by (simp add: 1(20)) (simp add: 1(19))
  qed
qed

theorem st_unstake_settles_witness:
  "\<exists>r s'. st_unstake mock_world_transfer (st_env 60) (Addr 1) 1 st_demo = Inr (r, s') \<and> ur_penalty_amount r = 100 \<and>
     ur_principal_returned r = 900 \<and> st_get_pending_rewards (st_env 60) 1 st_demo = Inr (ur_rewards_claimed r) \<and>
     st_total_staked s' = 0"
proof -
  obtain r s' where run: "st_unstake mock_world_transfer (st_env 60) (Addr 1) 1 st_demo = Inr (r, s')"
    by (simp add: st_demo_def st_demo_stake_def st_demo_tier_def st_eval)
  have "st_position st_demo 1 = Some st_demo_stake" "st_tier st_demo (sp_tier_id st_demo_stake) = Some st_demo_tier"
      "st_reward_token st_demo = Some (Addr 50)"
    by (simp_all add: st_demo_def st_demo_stake_def)
  from st_unstake_settles [OF mock.token_contract_axioms st_demo_reach _ _ _ run this, of "st_env 60"] run show ?thesis
    by (simp add: st_demo_stake_def st_demo_tier_def) (simp add: st_demo_def st_total_staked_def)
qed

text \<open>
  The emergency exit works. In every state reachable by regular calls the administrator can return
  the principal of any active stake to its owner, in full and without penalty, also while the contract
  is paused, before the lock has ended and when the reward arithmetic overflows, provided the contract
  still holds the amount (on a token that honours funded payments).
\<close>

theorem st_emergency_exit_succeeds:
  assumes "live_token tr bal"
    and "reach (st_metered tr) (st_adm_regular self) (st_metered_drift bal self) (st_fresh w, 0) t (s, emitted)"
    and "env_self e = self" and "st_admin s = Some a" and "env_auth e a" and "st_reward_token s = Some tok"
    and "st_position s i = Some p" and "sp_active p" and "sp_amount p \<le> bal (st_tokens s) tok self"
    and "in_i128 (bal (st_tokens s) tok (sp_user p) + sp_amount p)"
  shows "\<exists>r s'. st_emergency_withdraw tr e a (sp_user p) i s = Inr (r, s') \<and> ur_principal_returned r = sp_amount p \<and>
    ur_penalty_amount r = 0 \<and> st_position s' i = Some (p\<lparr>sp_active := False\<rparr>)"
proof -
  have tc: "token_contract tr bal" using assms(1) by (rule live_token.axioms)
  have good: "st_good emitted s" and core: "st_core t s"
    using token_contract.st_metered_inv [OF tc assms(2)] by (auto dest: st_inv_core)
  have p: "0 < sp_amount p" and "st_tier s (sp_tier_id p) \<noteq> None" using st_coreD(6) [OF core assms(7)] by blast+
  then obtain tier where tier: "st_tier s (sp_tier_id p) = Some tier" by blast
  have wt: "st_weight_at s p = st_weight_of (sp_amount p) tier" using tier assms(8) by (simp add: st_weight_defs)
  have "st_amount_at p \<le> entry_sum st_amount_at (st_position s)"
    by (rule entry_sum_ge_entry [OF st_core_finite [OF core] assms(7)]) (use st_coreD(6) [OF core] in \<open>auto simp: st_amount_at_def less_imp_le\<close>)
  moreover have "st_weight_at s p \<le> entry_sum (st_weight_at s) (st_position s)"
    by (rule entry_sum_ge_entry [OF st_core_finite [OF core] assms(7)]) (rule st_weight_at_nonneg [OF core])
  ultimately have bound: "st_amount_at p \<le> entry_sum st_amount_at (st_position s)" "st_weight_at s p \<le> entry_sum (st_weight_at s) (st_position s)"
    by simp_all
  have fits: "in_i128 (st_total_staked s)" "in_i128 (st_total_weighted_stake s)" "\<not> unwrap_or False (st_reentrancy_lock s)"
    using core by (simp_all add: st_core_def st_config_ok_def)
  have "st_total_staked s = entry_sum st_amount_at (st_position s)" using core by (simp add: st_core_def st_positions_ok_def)
  with bound(1) assms(8) have "sp_amount p \<le> st_total_staked s" by (simp add: st_amount_at_def)
  with p have staked: "in_i128 (st_total_staked s - sp_amount p)" by (intro in_i128_nonneg [OF fits(1)]) auto
  have "st_weight_at s p \<le> st_total_weighted_stake s" using bound(2) good by (simp add: st_good_def)
  with st_weight_at_nonneg [OF core assms(7)] have weighted: "in_i128 (st_total_weighted_stake s - st_weight_of (sp_amount p) tier)"
    unfolding wt by (intro in_i128_nonneg [OF fits(2)]) auto
  have "in_i128 (sp_amount p * int (ti_reward_multiplier_bps tier))"
    using good assms(7,8) tier by (auto simp: st_good_def st_weights_fit_def st_mult_at_def split: option.splits)
  with staked weighted p obtain s1 where rel: "st_release i p tier s = Inr s1" by (simp add: st_release_Inr)
  with p have s1: "st_position s1 i = Some (p\<lparr>sp_active := False\<rparr>)" "st_tokens s1 = st_tokens s" "st_reward_token s1 = Some tok"
      "st_reentrancy_lock s1 = st_reentrancy_lock s"
    using assms(6) by (auto simp: st_release_Inr)
  obtain w' where pay: "tr e tok self (sp_user p) (sp_amount p) (st_tokens s) = Some w'"
    using live_token.self_payment_succeeds [OF assms(1) p, of "st_tokens s" tok e "sp_user p"] assms(3,9,10) by auto
  have ids: "i \<noteq> 0" "sp_tier_id p \<noteq> 0" using st_core_ids(1) [OF core assms(7)] st_core_ids(2) [OF core tier] by simp_all
  have moved: "st_transfer_token tr e tok (env_self e) (sp_user p) (sp_amount p) s1 = Inr (s1\<lparr>st_reentrancy_lock := Some False, st_tokens := w'\<rparr>)"
    using pay p s1 fits(3) assms(3) by (simp add: st_transfer_token_Inr)
  have "st_emergency_withdraw tr e a (sp_user p) i s = Inr (\<lparr>ur_stake_id = i, ur_principal_returned = sp_amount p, ur_rewards_claimed = 0,
           ur_penalty_amount = 0, ur_total_returned = sp_amount p\<rparr>, s1\<lparr>st_reentrancy_lock := Some False, st_tokens := w'\<rparr>)"
    using assms(4,5,7,8) tier ids rel s1 moved
    by (simp add: st_emergency_withdraw_def st_checks require_auth_def Let_def)
  with s1 show ?thesis by simp
qed

theorem st_emergency_exit_succeeds_witness:
  "\<exists>r s'. st_emergency_withdraw mock_world_transfer (st_env 61) (Addr 7) (Addr 1) 1 st_demo2 = Inr (r, s') \<and> ur_principal_returned r = 1000"
proof -
  have "st_position st_demo2 1 = Some (st_demo_stake\<lparr>sp_reward_per_token_paid := 500000000000000000\<rparr>)" by (simp add: st_demo2_def)
  from st_emergency_exit_succeeds [OF mock.live_token_axioms st_demo2_reach _ _ _ _ this, of "st_env 61" "Addr 7" "Addr 50"]
  show ?thesis
    by (auto simp: st_demo2_def st_demo_def st_demo_stake_def mock_world_balance_def mock_balance_def arith_defs)
qed

lemma st_pending_of_view: "st_pending_of e user s i u \<Longrightarrow> st_get_pending_rewards e i s = Inr v \<Longrightarrow> u = v"
  by (auto simp: st_pending_of_def st_get_pending_rewards_def result_iffs)

lemma st_settle_all_replicate:
  "st_settle_all r (replicate k (i, v)) n s = Inr (n', s') \<Longrightarrow> 0 < v \<Longrightarrow> n' = n + int k * v"
proof (induction k arbitrary: n s)
  case (Suc k)
  from Suc.prems obtain p where "st_settle_all r (replicate k (i, v)) (n + v) (s\<lparr>st_position := (st_position s)(i \<mapsto> p\<lparr>sp_reward_per_token_paid := r\<rparr>)\<rparr>) = Inr (n', s')"
    by (auto simp: result_iffs Let_def)
  with Suc.IH Suc.prems(2) have "n' = n + v + int k * v" by blast
  then show ?case by (simp add: algebra_simps)
qed simp

text \<open>
  A batch that names a stake several times pays its rewards several times: \<open>k\<close> copies of one id are
  paid \<open>k\<close> times the pending rewards of the position, while a single claim pays them once.
\<close>

theorem st_batch_pays_duplicates:
  assumes "st_get_pending_rewards e i s = Inr v" and "0 < v"
    and "st_claim_rewards_batch tr e user (replicate k i) s = Inr (n, s')"
    and "st_claim_rewards tr e user i s = Inr (n1, s1)"
  shows "n = int k * v \<and> n1 = v"
proof
  show "n = int k * v"
    using assms(3)
  proof (cases rule: st_claim_rewards_batch_Inr)
    case (1 vs s1 s2 tok w')
    have "vs = replicate k v"
      by (rule replicate_eqI) (use 1(2) st_pending_of_view [OF _ assms(1)] in \<open>auto simp: list_all2_conv_all_nth in_set_conv_nth\<close>)
    then have "st_settle_all (st_reward_per_token_stored s1) (replicate k (i, v)) 0 s1 = Inr (n, s2)" using 1(4) by (simp add: zip_replicate)
    from st_settle_all_replicate [OF this assms(2)] show ?thesis by simp
  qed
  show "n1 = v"
    using assms(4)
    by (cases rule: st_claim_rewards_Inr) (use assms(1) in \<open>auto simp: st_get_pending_rewards_def result_iffs\<close>)
qed

theorem st_batch_pays_duplicates_witness:
  "\<exists>s' s1. st_claim_rewards_batch mock_world_transfer (st_env 60) (Addr 1) [1, 1] st_demo = Inr (1000, s') \<and>
     st_claim_rewards mock_world_transfer (st_env 60) (Addr 1) 1 st_demo = Inr (500, s1)"
proof -
  have v: "st_get_pending_rewards (st_env 60) 1 st_demo = Inr 500"
    by (simp add: st_demo_def st_demo_stake_def st_demo_tier_def st_eval)
  obtain n s' where b: "st_claim_rewards_batch mock_world_transfer (st_env 60) (Addr 1) (replicate 2 1) st_demo = Inr (n, s')"
    by (simp add: numeral_2_eq_2 st_demo_def st_demo_stake_def st_demo_tier_def st_eval)
  obtain n1 s1 where c: "st_claim_rewards mock_world_transfer (st_env 60) (Addr 1) 1 st_demo = Inr (n1, s1)"
    by (simp add: st_claim_rewards_def st_demo_def st_demo_stake_def st_demo_tier_def st_eval)
  have "[1, 1] = replicate 2 (1 :: nat)" by (simp add: numeral_2_eq_2)
  with st_batch_pays_duplicates [OF v _ b c] b c show ?thesis by auto
qed

text \<open>
  Changing a multiplier breaks the reward accounting. A stake of 1000 earns 10 per second; its tier
  is raised to the threefold multiplier, and the exit at time 120 is paid three times what the rate has
  emitted since time 10. The stored weight, of which the stake was one third, is now negative, and a
  later stake never earns anything.
\<close>

definition st_raise_calls :: "(env \<times> st_call) list" where
  "st_raise_calls =
     [(st_env 20, StUpdateTier (Addr 7) 1 None None None (Some 30000) None),
      (st_env 120, StUnstake (Addr 1) 1),
      (st_env 130, StStake (Addr 2) 100 1)]"

definition st_raised :: "mock_world st_state" where
  "st_raised = st_demo\<lparr>st_last_time := Some 130, st_rpt_stored := Some 1100000000000000000, st_distributed := Some 3300,
     st_weighted := Some (-1700), st_staked := Some 100, st_stake_count := Some 2,
     st_position := [1 \<mapsto> st_demo_stake\<lparr>sp_active := False\<rparr>,
       2 \<mapsto> \<lparr>sp_stake_id = 2, sp_user = Addr 2, sp_amount = 100, sp_tier_id = 1, sp_stake_time = 130, sp_lock_end_time = 230,
             sp_reward_per_token_paid = 1100000000000000000, sp_active = True\<rparr>],
     st_user_ids := [Addr 1 \<mapsto> [1], Addr 2 \<mapsto> [2]], st_tier := [1 \<mapsto> st_demo_tier\<lparr>ti_reward_multiplier_bps := 30000\<rparr>],
     st_tokens := st_world(Addr 50 := [Addr 1 \<mapsto> 8300, Addr 2 \<mapsto> 4900, Addr 3 \<mapsto> 4000, Addr 0 \<mapsto> 1800])\<rparr>"

lemma st_raise_run: "run_calls (st_exec mock_world_transfer) st_raise_calls st_demo = st_raised"
  by (simp add: st_raise_calls_def st_raised_def st_demo_def st_demo_tier_def st_demo_stake_def st_world_def st_eval)
     (auto simp: fun_eq_iff)

theorem st_multiplier_change_breaks_rewards:
  "st_total_rewards_distributed (run_calls (st_exec mock_world_transfer) st_raise_calls st_demo) = 3 * (10 * (120 - 10)) \<and>
   st_total_weighted_stake (run_calls (st_exec mock_world_transfer) st_raise_calls st_demo) < 0 \<and>
   (\<forall>e. st_get_pending_rewards e 2 (run_calls (st_exec mock_world_transfer) st_raise_calls st_demo) = Inr 0)"
  unfolding st_raise_run by (simp add: st_raised_def st_demo_def st_eval)

end
