(* ===== verification/Vault.thy ===== *)
theory Vault
  imports Mock_Token
begin

text \<open>
  The Vault contract (src/contracts/vault/src/lib.rs): shares of a pool of one token, strategies with
  reported balances and a high-water mark, performance fees, and a queue of withdrawals. This theory
  holds the whole contract; Vault_Correct holds its invariant and its properties. Each storage key of
  \<open>DataKey\<close> is a field of \<open>vt_state\<close>; a panic message is a constructor of \<open>vt_error\<close>, except that the
  messages of the checked additions and multiplications are one constructor, \<open>VtOverflow\<close>, and those of
  the checked subtractions another, \<open>VtUnderflow\<close>.
\<close>

section \<open>State\<close>

definition VT_BPS_DENOMINATOR :: i128 where
  "VT_BPS_DENOMINATOR = 10000"

definition DEFAULT_PERFORMANCE_FEE_BPS :: u32 where
  "DEFAULT_PERFORMANCE_FEE_BPS = 2000"

definition MAX_STRATEGIES :: u32 where
  "MAX_STRATEGIES = 20"

definition DEFAULT_MIN_QUEUED_WITHDRAWAL :: i128 where
  "DEFAULT_MIN_QUEUED_WITHDRAWAL = 1000"

record vault_user_deposit =
  ud_shares :: i128
  ud_total_deposited :: i128
  ud_total_withdrawn :: i128
  ud_last_deposit_at :: u64
  ud_last_withdrawal_at :: u64

record strategy_config =
  sc_strategy_id :: symbol
  sc_strategy_address :: address
  sc_allocated_assets :: i128
  sc_current_balance :: i128
  sc_total_gains :: i128
  sc_total_losses :: i128
  sc_is_active :: bool
  sc_created_at :: u64
  sc_last_harvest_at :: u64

record withdrawal_queue_item =
  qi_request_id :: u64
  qi_user :: address
  qi_shares :: i128
  qi_estimated_assets :: i128
  qi_requested_at :: u64
  qi_processed :: bool

record harvest_result =
  hr_strategy_id :: symbol
  hr_gains :: i128
  hr_performance_fee :: i128
  hr_new_total_assets :: i128
  hr_new_high_water_mark :: i128

record vault_info =
  vi_admin :: address
  vi_token :: address
  vi_total_assets :: i128
  vi_total_supply :: i128
  vi_total_deposits :: i128
  vi_total_withdrawals :: i128
  vi_total_fees_collected :: i128
  vi_share_price :: i128
  vi_performance_fee_bps :: u32
  vi_high_water_mark :: i128
  vi_paused :: bool

record 'w vt_state =
  vt_admin :: "address option"
  vt_token :: "address option"
  vt_paused :: "bool option"
  vt_fee_bps :: "u32 option"
  vt_assets :: "i128 option"
  vt_supply :: "i128 option"
  vt_deposits :: "i128 option"
  vt_withdrawals :: "i128 option"
  vt_fees :: "i128 option"
  vt_hwm :: "i128 option"
  vt_user :: "address \<Rightarrow> vault_user_deposit option"
  vt_strategy_count :: "u32 option"
  vt_strategy :: "symbol \<Rightarrow> strategy_config option"
  vt_strategy_list :: "symbol list option"
  vt_alloc_bps :: "symbol \<Rightarrow> u32 option"
  vt_queue_count :: "u64 option"
  vt_queue_item :: "u64 \<Rightarrow> withdrawal_queue_item option"
  vt_queue_list :: "u64 list option"
  vt_min_queued :: "i128 option"
  vt_reentrancy_lock :: "bool option"
  vt_tokens :: 'w

datatype vt_error =
    VtAuth
  | VtToken
  | VtAlreadyInitialized
  | VtNotInitialized
  | VtCallerNotAdmin
  | VtPaused
  | VtAlreadyPaused
  | VtNotPaused
  | VtDepositAmountMustBePositive
  | VtSharesMustBePositive
  | VtInsufficientShares
  | VtNoAssetsInVault
  | VtNoSharesToWithdraw
  | VtAmountMustBePositive
  | VtInsufficientVaultAssets
  | VtFeeExceedsMaximum
  | VtNoFeesToWithdraw
  | VtStrategyAlreadyExists
  | VtMaximumStrategiesReached
  | VtStrategyNotFound
  | VtStrategyNotActive
  | VtStrategyHasAllocatedAssets
  | VtTotalAllocationsExceed
  | VtSourceStrategyNotActive
  | VtTargetStrategyNotActive
  | VtNoAssetsToMigrate
  | VtBelowMinimumQueuedWithdrawal
  | VtRequestNotFound
  | VtAlreadyProcessed
  | VtTransferAmountMustBePositive
  | VtReentrantCallBlocked
  | VtOverflow
  | VtUnderflow
  | VtDivision

definition vt_fresh :: "'w \<Rightarrow> 'w vt_state" where
  "vt_fresh w =
     \<lparr>vt_admin = None, vt_token = None, vt_paused = None, vt_fee_bps = None, vt_assets = None, vt_supply = None,
      vt_deposits = None, vt_withdrawals = None, vt_fees = None, vt_hwm = None, vt_user = (\<lambda>_. None),
      vt_strategy_count = None, vt_strategy = (\<lambda>_. None), vt_strategy_list = None, vt_alloc_bps = (\<lambda>_. None),
      vt_queue_count = None, vt_queue_item = (\<lambda>_. None), vt_queue_list = None, vt_min_queued = None,
      vt_reentrancy_lock = None, vt_tokens = w\<rparr>"

section \<open>Stored values and arithmetic\<close>

definition vt_add :: "i128 \<Rightarrow> i128 \<Rightarrow> vt_error + i128" where
  "vt_add a b = ok_or VtOverflow (checked_add_i128 a b)"

definition vt_sub :: "i128 \<Rightarrow> i128 \<Rightarrow> vt_error + i128" where
  "vt_sub a b = ok_or VtUnderflow (checked_sub_i128 a b)"

definition vt_mul :: "i128 \<Rightarrow> i128 \<Rightarrow> vt_error + i128" where
  "vt_mul a b = ok_or VtOverflow (checked_mul_i128 a b)"

definition vt_get_admin :: "'w vt_state \<Rightarrow> vt_error + address" where
  "vt_get_admin s = ok_or VtNotInitialized (vt_admin s)"

definition vt_get_token :: "'w vt_state \<Rightarrow> vt_error + address" where
  "vt_get_token s = ok_or VtNotInitialized (vt_token s)"

definition vt_is_paused :: "'w vt_state \<Rightarrow> bool" where
  "vt_is_paused s = unwrap_or False (vt_paused s)"

definition vt_assert_admin :: "address \<Rightarrow> 'w vt_state \<Rightarrow> vt_error + unit" where
  "vt_assert_admin caller s =
     and_then (vt_get_admin s) (\<lambda>admin. panic_if (caller \<noteq> admin) VtCallerNotAdmin)"

definition vt_total_assets :: "'w vt_state \<Rightarrow> i128" where
  "vt_total_assets s = unwrap_or 0 (vt_assets s)"

definition vt_total_supply :: "'w vt_state \<Rightarrow> i128" where
  "vt_total_supply s = unwrap_or 0 (vt_supply s)"

definition vt_total_deposits :: "'w vt_state \<Rightarrow> i128" where
  "vt_total_deposits s = unwrap_or 0 (vt_deposits s)"

definition vt_total_withdrawals :: "'w vt_state \<Rightarrow> i128" where
  "vt_total_withdrawals s = unwrap_or 0 (vt_withdrawals s)"

definition vt_total_fees_collected :: "'w vt_state \<Rightarrow> i128" where
  "vt_total_fees_collected s = unwrap_or 0 (vt_fees s)"

definition vt_high_water_mark :: "'w vt_state \<Rightarrow> i128" where
  "vt_high_water_mark s = unwrap_or 0 (vt_hwm s)"

definition vt_performance_fee_bps :: "'w vt_state \<Rightarrow> u32" where
  "vt_performance_fee_bps s = unwrap_or DEFAULT_PERFORMANCE_FEE_BPS (vt_fee_bps s)"

definition vt_load_user_deposit :: "address \<Rightarrow> 'w vt_state \<Rightarrow> vault_user_deposit" where
  "vt_load_user_deposit user s =
     unwrap_or \<lparr>ud_shares = 0, ud_total_deposited = 0, ud_total_withdrawn = 0, ud_last_deposit_at = 0, ud_last_withdrawal_at = 0\<rparr>
       (vt_user s user)"

definition vt_load_strategy :: "symbol \<Rightarrow> 'w vt_state \<Rightarrow> vt_error + strategy_config" where
  "vt_load_strategy i s = ok_or VtStrategyNotFound (vt_strategy s i)"

definition vt_strategy_ids :: "'w vt_state \<Rightarrow> symbol list" where
  "vt_strategy_ids s = unwrap_or [] (vt_strategy_list s)"

definition vt_strategy_counter :: "'w vt_state \<Rightarrow> u32" where
  "vt_strategy_counter s = unwrap_or 0 (vt_strategy_count s)"

definition vt_strategy_alloc_bps :: "symbol \<Rightarrow> 'w vt_state \<Rightarrow> u32" where
  "vt_strategy_alloc_bps i s = unwrap_or 0 (vt_alloc_bps s i)"

fun vt_sum_allocation :: "symbol list \<Rightarrow> u32 \<Rightarrow> 'w vt_state \<Rightarrow> vt_error + u32" where
  "vt_sum_allocation [] acc s = Inr acc"
| "vt_sum_allocation (i # ids) acc s =
     and_then (vt_load_strategy i s) (\<lambda>config.
     if sc_is_active config then
       and_then (ok_or VtOverflow (checked_add_u32 acc (vt_strategy_alloc_bps i s))) (\<lambda>acc. vt_sum_allocation ids acc s)
     else vt_sum_allocation ids acc s)"

definition vt_total_allocation_bps :: "'w vt_state \<Rightarrow> vt_error + u32" where
  "vt_total_allocation_bps s = vt_sum_allocation (vt_strategy_ids s) 0 s"

definition vt_load_queue_item :: "u64 \<Rightarrow> 'w vt_state \<Rightarrow> vt_error + withdrawal_queue_item" where
  "vt_load_queue_item i s = ok_or VtRequestNotFound (vt_queue_item s i)"

definition vt_withdrawal_queue_ids :: "'w vt_state \<Rightarrow> u64 list" where
  "vt_withdrawal_queue_ids s = unwrap_or [] (vt_queue_list s)"

definition vt_withdrawal_queue_counter :: "'w vt_state \<Rightarrow> u64" where
  "vt_withdrawal_queue_counter s = unwrap_or 0 (vt_queue_count s)"

definition vt_next_withdrawal_queue_id :: "'w vt_state \<Rightarrow> vt_error + u64 \<times> 'w vt_state" where
  "vt_next_withdrawal_queue_id s =
     and_then (ok_or VtOverflow (checked_add_u64 (vt_withdrawal_queue_counter s) 1)) (\<lambda>next_id.
     Inr (next_id, s\<lparr>vt_queue_count := Some next_id\<rparr>))"

definition vt_min_queued_withdrawal :: "'w vt_state \<Rightarrow> i128" where
  "vt_min_queued_withdrawal s = unwrap_or DEFAULT_MIN_QUEUED_WITHDRAWAL (vt_min_queued s)"

definition vt_calculate_shares_for_deposit :: "i128 \<Rightarrow> i128 \<Rightarrow> i128 \<Rightarrow> vt_error + i128" where
  "vt_calculate_shares_for_deposit amount total_assets total_supply =
     (if total_assets \<le> 0 \<or> total_supply \<le> 0 then Inr amount
      else and_then (vt_mul amount total_supply) (\<lambda>p. Inr (div_i128 p total_assets)))"

definition vt_calculate_assets_for_withdrawal :: "i128 \<Rightarrow> i128 \<Rightarrow> i128 \<Rightarrow> vt_error + i128" where
  "vt_calculate_assets_for_withdrawal shares total_assets total_supply =
     and_then (vt_mul shares total_assets) (\<lambda>p. ok_or VtDivision (checked_div_i128 p total_supply))"

definition vt_share_price :: "'w vt_state \<Rightarrow> vt_error + i128" where
  "vt_share_price s =
     (let total_supply = vt_total_supply s in
      if total_supply \<le> 0 then Inr 10000
      else and_then (vt_mul (vt_total_assets s) 10000) (\<lambda>p. Inr (div_i128 p total_supply)))"

definition vt_collect_fee :: "i128 \<Rightarrow> 'w vt_state \<Rightarrow> vt_error + 'w vt_state" where
  "vt_collect_fee fee s =
     (if fee \<le> 0 then Inr s
      else and_then (vt_add (vt_total_fees_collected s) fee) (\<lambda>new_total. Inr (s\<lparr>vt_fees := Some new_total\<rparr>)))"

section \<open>Token calls and the guard\<close>

definition vt_enter_non_reentrant :: "'w vt_state \<Rightarrow> vt_error + 'w vt_state" where
  "vt_enter_non_reentrant s =
     (if unwrap_or False (vt_reentrancy_lock s) then Inl VtReentrantCallBlocked
      else Inr (s\<lparr>vt_reentrancy_lock := Some True\<rparr>))"

definition vt_exit_non_reentrant :: "'w vt_state \<Rightarrow> 'w vt_state" where
  "vt_exit_non_reentrant s = s\<lparr>vt_reentrancy_lock := Some False\<rparr>"

definition vt_transfer_token_unchecked ::
  "'w token_transfer \<Rightarrow> env \<Rightarrow> address \<Rightarrow> address \<Rightarrow> address \<Rightarrow> i128 \<Rightarrow> 'w vt_state \<Rightarrow> vt_error + 'w vt_state" where
  "vt_transfer_token_unchecked tr e token src dst amount s =
     and_then (panic_if (amount \<le> 0) VtTransferAmountMustBePositive) (\<lambda>_.
     and_then (call_token tr VtToken e token src dst amount (vt_tokens s)) (\<lambda>w.
     Inr (s\<lparr>vt_tokens := w\<rparr>)))"

definition vt_transfer_token ::
  "'w token_transfer \<Rightarrow> env \<Rightarrow> address \<Rightarrow> address \<Rightarrow> address \<Rightarrow> i128 \<Rightarrow> 'w vt_state \<Rightarrow> vt_error + 'w vt_state" where
  "vt_transfer_token tr e token src dst amount s =
     and_then (vt_enter_non_reentrant s) (\<lambda>s.
     and_then (vt_transfer_token_unchecked tr e token src dst amount s) (\<lambda>s.
     Inr (vt_exit_non_reentrant s)))"

section \<open>Deposits and withdrawals\<close>

definition vt_initialize :: "env \<Rightarrow> address \<Rightarrow> address \<Rightarrow> 'w vt_state \<Rightarrow> vt_error + unit \<times> 'w vt_state" where
  "vt_initialize e admin token s =
     and_then (panic_if (vt_admin s \<noteq> None) VtAlreadyInitialized) (\<lambda>_.
     and_then (require_auth VtAuth e admin) (\<lambda>_.
     Inr ((), s\<lparr>vt_admin := Some admin, vt_token := Some token, vt_paused := Some False,
                vt_fee_bps := Some DEFAULT_PERFORMANCE_FEE_BPS, vt_assets := Some 0, vt_supply := Some 0,
                vt_deposits := Some 0, vt_withdrawals := Some 0, vt_fees := Some 0, vt_hwm := Some 0,
                vt_strategy_count := Some 0, vt_strategy_list := Some [], vt_queue_count := Some 0,
                vt_queue_list := Some [], vt_min_queued := Some DEFAULT_MIN_QUEUED_WITHDRAWAL,
                vt_reentrancy_lock := Some False\<rparr>)))"

definition vt_raise_high_water_mark :: "i128 \<Rightarrow> 'w vt_state \<Rightarrow> 'w vt_state" where
  "vt_raise_high_water_mark new_total_assets s =
     (if new_total_assets > vt_high_water_mark s then s\<lparr>vt_hwm := Some new_total_assets\<rparr> else s)"

definition vt_deposit :: "'w token_transfer \<Rightarrow> env \<Rightarrow> address \<Rightarrow> i128 \<Rightarrow> 'w vt_state \<Rightarrow> vt_error + i128 \<times> 'w vt_state" where
  "vt_deposit tr e user amount s =
     and_then (require_auth VtAuth e user) (\<lambda>_.
     and_then (panic_if (vt_is_paused s) VtPaused) (\<lambda>_.
     and_then (panic_if (amount \<le> 0) VtDepositAmountMustBePositive) (\<lambda>_.
     let total_assets = vt_total_assets s; total_supply = vt_total_supply s in
     and_then (vt_calculate_shares_for_deposit amount total_assets total_supply) (\<lambda>shares.
     and_then (vt_get_token s) (\<lambda>token.
     and_then (vt_transfer_token tr e token user (env_self e) amount s) (\<lambda>s.
     and_then (vt_add total_assets amount) (\<lambda>new_total_assets.
     and_then (vt_add total_supply shares) (\<lambda>new_total_supply.
     and_then (vt_add (vt_total_deposits s) amount) (\<lambda>new_total_deposits.
     let s = s\<lparr>vt_assets := Some new_total_assets, vt_supply := Some new_total_supply, vt_deposits := Some new_total_deposits\<rparr>;
         s = vt_raise_high_water_mark new_total_assets s;
         user_deposit = vt_load_user_deposit user s in
     and_then (vt_add (ud_shares user_deposit) shares) (\<lambda>user_shares.
     and_then (vt_add (ud_total_deposited user_deposit) amount) (\<lambda>deposited.
     Inr (shares, s\<lparr>vt_user := (vt_user s)(user \<mapsto>
            user_deposit\<lparr>ud_shares := user_shares, ud_total_deposited := deposited,
              ud_last_deposit_at := env_timestamp e\<rparr>)\<rparr>))))))))))))"

text \<open>The performance fee of a withdrawal: a share of the assets above the high-water mark.\<close>

definition vt_withdrawal_fee :: "'w vt_state \<Rightarrow> vt_error + i128" where
  "vt_withdrawal_fee s =
     (let total_assets = vt_total_assets s; hwm = vt_high_water_mark s in
      if total_assets > hwm then
        and_then (vt_sub total_assets hwm) (\<lambda>gains.
        and_then (vt_mul gains (int (vt_performance_fee_bps s))) (\<lambda>p.
        Inr (div_i128 p VT_BPS_DENOMINATOR)))
      else Inr 0)"

definition vt_withdraw :: "'w token_transfer \<Rightarrow> env \<Rightarrow> address \<Rightarrow> i128 \<Rightarrow> 'w vt_state \<Rightarrow> vt_error + i128 \<times> 'w vt_state" where
  "vt_withdraw tr e user shares s =
     and_then (require_auth VtAuth e user) (\<lambda>_.
     and_then (panic_if (shares \<le> 0) VtSharesMustBePositive) (\<lambda>_.
     let user_deposit = vt_load_user_deposit user s in
     and_then (panic_if (ud_shares user_deposit < shares) VtInsufficientShares) (\<lambda>_.
     let total_assets = vt_total_assets s; total_supply = vt_total_supply s in
     and_then (panic_if (total_supply \<le> 0) VtNoAssetsInVault) (\<lambda>_.
     and_then (vt_calculate_assets_for_withdrawal shares total_assets total_supply) (\<lambda>gross_assets.
     and_then (vt_withdrawal_fee s) (\<lambda>performance_fee.
     and_then (vt_sub gross_assets performance_fee) (\<lambda>net_assets.
     and_then (vt_sub total_supply shares) (\<lambda>new_total_supply.
     and_then (vt_sub total_assets gross_assets) (\<lambda>new_total_assets.
     and_then (vt_add (vt_total_withdrawals s) net_assets) (\<lambda>new_total_withdrawals.
     let s = s\<lparr>vt_supply := Some new_total_supply, vt_assets := Some new_total_assets,
               vt_withdrawals := Some new_total_withdrawals\<rparr> in
     and_then (if performance_fee > 0 then vt_collect_fee performance_fee s else Inr s) (\<lambda>s.
     and_then (vt_sub (ud_shares user_deposit) shares) (\<lambda>user_shares.
     and_then (vt_add (ud_total_withdrawn user_deposit) net_assets) (\<lambda>withdrawn.
     let s = s\<lparr>vt_user := (vt_user s)(user \<mapsto>
               user_deposit\<lparr>ud_shares := user_shares, ud_total_withdrawn := withdrawn,
                 ud_last_withdrawal_at := env_timestamp e\<rparr>)\<rparr> in
     and_then (vt_get_token s) (\<lambda>token.
     and_then (vt_transfer_token tr e token (env_self e) user net_assets s) (\<lambda>s.
     Inr (net_assets, s))))))))))))))))"

definition vt_emergency_withdraw :: "'w token_transfer \<Rightarrow> env \<Rightarrow> address \<Rightarrow> 'w vt_state \<Rightarrow> vt_error + i128 \<times> 'w vt_state" where
  "vt_emergency_withdraw tr e user s =
     and_then (require_auth VtAuth e user) (\<lambda>_.
     let user_deposit = vt_load_user_deposit user s in
     and_then (panic_if (ud_shares user_deposit \<le> 0) VtNoSharesToWithdraw) (\<lambda>_.
     let shares = ud_shares user_deposit; total_assets = vt_total_assets s; total_supply = vt_total_supply s in
     and_then (panic_if (total_supply \<le> 0) VtNoAssetsInVault) (\<lambda>_.
     and_then (vt_calculate_assets_for_withdrawal shares total_assets total_supply) (\<lambda>assets.
     and_then (vt_sub total_supply shares) (\<lambda>new_total_supply.
     and_then (vt_sub total_assets assets) (\<lambda>new_total_assets.
     and_then (vt_add (vt_total_withdrawals s) assets) (\<lambda>new_total_withdrawals.
     let s = s\<lparr>vt_supply := Some new_total_supply, vt_assets := Some new_total_assets,
               vt_withdrawals := Some new_total_withdrawals\<rparr> in
     and_then (vt_add (ud_total_withdrawn user_deposit) assets) (\<lambda>withdrawn.
     let s = s\<lparr>vt_user := (vt_user s)(user \<mapsto>
               \<lparr>ud_shares = 0, ud_total_deposited = ud_total_deposited user_deposit, ud_total_withdrawn = withdrawn,
                ud_last_deposit_at = ud_last_deposit_at user_deposit, ud_last_withdrawal_at = env_timestamp e\<rparr>)\<rparr> in
     and_then (vt_get_token s) (\<lambda>token.
     and_then (vt_transfer_token tr e token (env_self e) user assets s) (\<lambda>s.
     Inr (assets, s)))))))))))"

definition vt_governance_withdraw ::
  "'w token_transfer \<Rightarrow> env \<Rightarrow> address \<Rightarrow> address \<Rightarrow> i128 \<Rightarrow> 'w vt_state \<Rightarrow> vt_error + unit \<times> 'w vt_state" where
  "vt_governance_withdraw tr e admin recipient amount s =
     and_then (require_auth VtAuth e admin) (\<lambda>_.
     and_then (vt_assert_admin admin s) (\<lambda>_.
     and_then (panic_if (amount \<le> 0) VtAmountMustBePositive) (\<lambda>_.
     let total_assets = vt_total_assets s in
     and_then (panic_if (amount > total_assets) VtInsufficientVaultAssets) (\<lambda>_.
     and_then (vt_sub total_assets amount) (\<lambda>new_total_assets.
     let s = s\<lparr>vt_assets := Some new_total_assets\<rparr> in
     and_then (vt_get_token s) (\<lambda>token.
     and_then (vt_transfer_token tr e token (env_self e) recipient amount s) (\<lambda>s.
     Inr ((), s))))))))"

section \<open>Administration\<close>

definition vt_pause :: "env \<Rightarrow> address \<Rightarrow> 'w vt_state \<Rightarrow> vt_error + unit \<times> 'w vt_state" where
  "vt_pause e admin s =
     and_then (require_auth VtAuth e admin) (\<lambda>_.
     and_then (vt_assert_admin admin s) (\<lambda>_.
     and_then (panic_if (vt_is_paused s) VtAlreadyPaused) (\<lambda>_.
     Inr ((), s\<lparr>vt_paused := Some True\<rparr>))))"

definition vt_unpause :: "env \<Rightarrow> address \<Rightarrow> 'w vt_state \<Rightarrow> vt_error + unit \<times> 'w vt_state" where
  "vt_unpause e admin s =
     and_then (require_auth VtAuth e admin) (\<lambda>_.
     and_then (vt_assert_admin admin s) (\<lambda>_.
     and_then (panic_if (\<not> vt_is_paused s) VtNotPaused) (\<lambda>_.
     Inr ((), s\<lparr>vt_paused := Some False\<rparr>))))"

definition vt_set_performance_fee :: "env \<Rightarrow> address \<Rightarrow> u32 \<Rightarrow> 'w vt_state \<Rightarrow> vt_error + unit \<times> 'w vt_state" where
  "vt_set_performance_fee e admin fee_bps s =
     and_then (require_auth VtAuth e admin) (\<lambda>_.
     and_then (vt_assert_admin admin s) (\<lambda>_.
     and_then (panic_if (fee_bps > 5000) VtFeeExceedsMaximum) (\<lambda>_.
     Inr ((), s\<lparr>vt_fee_bps := Some fee_bps\<rparr>))))"

definition vt_withdraw_fees ::
  "'w token_transfer \<Rightarrow> env \<Rightarrow> address \<Rightarrow> address \<Rightarrow> 'w vt_state \<Rightarrow> vt_error + unit \<times> 'w vt_state" where
  "vt_withdraw_fees tr e admin recipient s =
     and_then (require_auth VtAuth e admin) (\<lambda>_.
     and_then (vt_assert_admin admin s) (\<lambda>_.
     let total_fees = vt_total_fees_collected s in
     and_then (panic_if (total_fees \<le> 0) VtNoFeesToWithdraw) (\<lambda>_.
     and_then (vt_get_token s) (\<lambda>token.
     and_then (vt_transfer_token tr e token (env_self e) recipient total_fees s) (\<lambda>s.
     Inr ((), s\<lparr>vt_fees := Some 0\<rparr>))))))"

section \<open>Strategies\<close>

definition vt_add_strategy :: "env \<Rightarrow> address \<Rightarrow> symbol \<Rightarrow> address \<Rightarrow> 'w vt_state \<Rightarrow> vt_error + unit \<times> 'w vt_state" where
  "vt_add_strategy e admin strategy_id strategy_address s =
     and_then (require_auth VtAuth e admin) (\<lambda>_.
     and_then (vt_assert_admin admin s) (\<lambda>_.
     and_then (panic_if (vt_strategy s strategy_id \<noteq> None) VtStrategyAlreadyExists) (\<lambda>_.
     let strategy_ids = vt_strategy_ids s in
     and_then (panic_if (length strategy_ids \<ge> MAX_STRATEGIES) VtMaximumStrategiesReached) (\<lambda>_.
     let config = \<lparr>sc_strategy_id = strategy_id, sc_strategy_address = strategy_address, sc_allocated_assets = 0,
           sc_current_balance = 0, sc_total_gains = 0, sc_total_losses = 0, sc_is_active = True,
           sc_created_at = env_timestamp e, sc_last_harvest_at = 0\<rparr>;
         s = s\<lparr>vt_strategy := (vt_strategy s)(strategy_id \<mapsto> config), vt_alloc_bps := (vt_alloc_bps s)(strategy_id \<mapsto> 0)\<rparr> in
     and_then (ok_or VtOverflow (checked_add_u32 (vt_strategy_counter s) 1)) (\<lambda>counter.
     Inr ((), s\<lparr>vt_strategy_count := Some counter, vt_strategy_list := Some (strategy_ids @ [strategy_id])\<rparr>))))))"

definition vt_remove_strategy :: "env \<Rightarrow> address \<Rightarrow> symbol \<Rightarrow> 'w vt_state \<Rightarrow> vt_error + unit \<times> 'w vt_state" where
  "vt_remove_strategy e admin strategy_id s =
     and_then (require_auth VtAuth e admin) (\<lambda>_.
     and_then (vt_assert_admin admin s) (\<lambda>_.
     and_then (vt_load_strategy strategy_id s) (\<lambda>config.
     and_then (panic_if (\<not> sc_is_active config) VtStrategyNotActive) (\<lambda>_.
     and_then (panic_if (sc_allocated_assets config > 0) VtStrategyHasAllocatedAssets) (\<lambda>_.
     Inr ((), s\<lparr>vt_strategy := (vt_strategy s)(strategy_id \<mapsto> config\<lparr>sc_is_active := False\<rparr>),
                vt_alloc_bps := (vt_alloc_bps s)(strategy_id \<mapsto> 0)\<rparr>))))))"

definition vt_set_strategy_allocation :: "env \<Rightarrow> address \<Rightarrow> symbol \<Rightarrow> u32 \<Rightarrow> 'w vt_state \<Rightarrow> vt_error + unit \<times> 'w vt_state" where
  "vt_set_strategy_allocation e admin strategy_id alloc_bps s =
     and_then (require_auth VtAuth e admin) (\<lambda>_.
     and_then (vt_assert_admin admin s) (\<lambda>_.
     and_then (vt_load_strategy strategy_id s) (\<lambda>config.
     and_then (panic_if (\<not> sc_is_active config) VtStrategyNotActive) (\<lambda>_.
     let old_alloc = int (vt_strategy_alloc_bps strategy_id s) in
     and_then (vt_total_allocation_bps s) (\<lambda>total_alloc.
     and_then (vt_sub (int total_alloc) old_alloc) (\<lambda>rest.
     and_then (vt_add rest (int alloc_bps)) (\<lambda>new_total.
     and_then (panic_if (new_total > VT_BPS_DENOMINATOR) VtTotalAllocationsExceed) (\<lambda>_.
     let s = s\<lparr>vt_alloc_bps := (vt_alloc_bps s)(strategy_id \<mapsto> alloc_bps)\<rparr> in
     and_then (vt_mul (vt_total_assets s) (int alloc_bps)) (\<lambda>p.
     let new_target = div_i128 p VT_BPS_DENOMINATOR in
     Inr ((), s\<lparr>vt_strategy := (vt_strategy s)(strategy_id \<mapsto>
                  config\<lparr>sc_allocated_assets := new_target, sc_current_balance := new_target\<rparr>)\<rparr>))))))))))"

text \<open>Both configurations are read before either is written, the source first.\<close>

definition vt_migrate_strategy :: "env \<Rightarrow> address \<Rightarrow> symbol \<Rightarrow> symbol \<Rightarrow> 'w vt_state \<Rightarrow> vt_error + unit \<times> 'w vt_state" where
  "vt_migrate_strategy e admin from_strategy_id to_strategy_id s =
     and_then (require_auth VtAuth e admin) (\<lambda>_.
     and_then (vt_assert_admin admin s) (\<lambda>_.
     and_then (vt_load_strategy from_strategy_id s) (\<lambda>from_config.
     and_then (panic_if (\<not> sc_is_active from_config) VtSourceStrategyNotActive) (\<lambda>_.
     and_then (vt_load_strategy to_strategy_id s) (\<lambda>to_config.
     and_then (panic_if (\<not> sc_is_active to_config) VtTargetStrategyNotActive) (\<lambda>_.
     let migrated_amount = sc_allocated_assets from_config in
     and_then (panic_if (migrated_amount \<le> 0) VtNoAssetsToMigrate) (\<lambda>_.
     let s = s\<lparr>vt_strategy := (vt_strategy s)(from_strategy_id \<mapsto> from_config\<lparr>sc_allocated_assets := 0\<rparr>)\<rparr> in
     and_then (vt_add (sc_allocated_assets to_config) migrated_amount) (\<lambda>allocated.
     Inr ((), s\<lparr>vt_strategy := (vt_strategy s)(to_strategy_id \<mapsto> to_config\<lparr>sc_allocated_assets := allocated\<rparr>)\<rparr>)))))))))"

text \<open>The assets after a report: gains are added net of the fee, losses are taken off.\<close>

definition vt_harvested_assets :: "i128 \<Rightarrow> i128 \<Rightarrow> i128 \<Rightarrow> i128 \<Rightarrow> i128 \<Rightarrow> vt_error + i128" where
  "vt_harvested_assets current_balance old_balance gains performance_fee total_assets =
     (if current_balance > old_balance then
        and_then (vt_sub gains performance_fee) (\<lambda>net_gain. vt_add total_assets net_gain)
      else if current_balance < old_balance then
        and_then (vt_sub old_balance current_balance) (\<lambda>net_loss. vt_sub total_assets net_loss)
      else Inr total_assets)"

definition vt_harvest_fee :: "i128 \<Rightarrow> 'w vt_state \<Rightarrow> vt_error + i128" where
  "vt_harvest_fee gains s =
     (if gains > 0 then and_then (vt_mul gains (int (vt_performance_fee_bps s))) (\<lambda>p. Inr (div_i128 p VT_BPS_DENOMINATOR))
      else Inr 0)"

definition vt_harvest_strategy :: "env \<Rightarrow> symbol \<Rightarrow> i128 \<Rightarrow> 'w vt_state \<Rightarrow> vt_error + harvest_result \<times> 'w vt_state" where
  "vt_harvest_strategy e strategy_id reported_balance s =
     and_then (vt_load_strategy strategy_id s) (\<lambda>config.
     and_then (panic_if (\<not> sc_is_active config) VtStrategyNotActive) (\<lambda>_.
     let current_balance = reported_balance in
     and_then (if current_balance > sc_current_balance config then vt_sub current_balance (sc_current_balance config) else Inr 0) (\<lambda>gains.
     and_then (if current_balance < sc_current_balance config then vt_sub (sc_current_balance config) current_balance else Inr 0) (\<lambda>losses.
     and_then (vt_harvest_fee gains s) (\<lambda>performance_fee.
     and_then (vt_harvested_assets current_balance (sc_current_balance config) gains performance_fee (vt_total_assets s)) (\<lambda>new_total_assets.
     let hwm = vt_high_water_mark s;
         new_hwm = (if new_total_assets > hwm then new_total_assets else hwm) in
     and_then (vt_add (sc_total_gains config) gains) (\<lambda>total_gains.
     and_then (vt_add (sc_total_losses config) losses) (\<lambda>total_losses.
     let config = config\<lparr>sc_current_balance := current_balance, sc_total_gains := total_gains, sc_total_losses := total_losses,
           sc_last_harvest_at := env_timestamp e\<rparr>;
         s = s\<lparr>vt_strategy := (vt_strategy s)(strategy_id \<mapsto> config), vt_assets := Some new_total_assets, vt_hwm := Some new_hwm\<rparr> in
     and_then (if performance_fee > 0 then vt_collect_fee performance_fee s else Inr s) (\<lambda>s.
     Inr (\<lparr>hr_strategy_id = strategy_id, hr_gains = gains, hr_performance_fee = performance_fee,
           hr_new_total_assets = new_total_assets, hr_new_high_water_mark = new_hwm\<rparr>, s))))))))))"

definition vt_emergency_strategy_withdrawal :: "env \<Rightarrow> address \<Rightarrow> symbol \<Rightarrow> 'w vt_state \<Rightarrow> vt_error + unit \<times> 'w vt_state" where
  "vt_emergency_strategy_withdrawal e admin strategy_id s =
     and_then (require_auth VtAuth e admin) (\<lambda>_.
     and_then (vt_assert_admin admin s) (\<lambda>_.
     and_then (vt_load_strategy strategy_id s) (\<lambda>config.
     and_then (panic_if (\<not> sc_is_active config) VtStrategyNotActive) (\<lambda>_.
     if sc_allocated_assets config \<le> 0 then Inr ((), s)
     else Inr ((), s\<lparr>vt_strategy := (vt_strategy s)(strategy_id \<mapsto>
                      config\<lparr>sc_allocated_assets := 0, sc_current_balance := 0\<rparr>)\<rparr>)))))"

section \<open>The withdrawal queue\<close>

definition vt_queue_withdrawal :: "env \<Rightarrow> address \<Rightarrow> i128 \<Rightarrow> 'w vt_state \<Rightarrow> vt_error + u64 \<times> 'w vt_state" where
  "vt_queue_withdrawal e user shares s =
     and_then (require_auth VtAuth e user) (\<lambda>_.
     and_then (panic_if (shares \<le> 0) VtSharesMustBePositive) (\<lambda>_.
     let user_deposit = vt_load_user_deposit user s in
     and_then (panic_if (ud_shares user_deposit < shares) VtInsufficientShares) (\<lambda>_.
     let total_assets = vt_total_assets s; total_supply = vt_total_supply s in
     and_then (panic_if (total_supply \<le> 0) VtNoAssetsInVault) (\<lambda>_.
     and_then (vt_calculate_assets_for_withdrawal shares total_assets total_supply) (\<lambda>estimated_assets.
     and_then (panic_if (estimated_assets < vt_min_queued_withdrawal s) VtBelowMinimumQueuedWithdrawal) (\<lambda>_.
     and_then (vt_sub (ud_shares user_deposit) shares) (\<lambda>user_shares.
     let s = s\<lparr>vt_user := (vt_user s)(user \<mapsto>
               user_deposit\<lparr>ud_shares := user_shares, ud_last_withdrawal_at := env_timestamp e\<rparr>)\<rparr> in
     and_then (vt_next_withdrawal_queue_id s) (\<lambda>(request_id, s).
     let item = \<lparr>qi_request_id = request_id, qi_user = user, qi_shares = shares, qi_estimated_assets = estimated_assets,
           qi_requested_at = env_timestamp e, qi_processed = False\<rparr> in
     Inr (request_id, s\<lparr>vt_queue_item := (vt_queue_item s)(request_id \<mapsto> item),
                        vt_queue_list := Some (vt_withdrawal_queue_ids s @ [request_id])\<rparr>)))))))))"

definition vt_process_withdrawal_queue ::
  "'w token_transfer \<Rightarrow> env \<Rightarrow> u64 \<Rightarrow> 'w vt_state \<Rightarrow> vt_error + i128 \<times> 'w vt_state" where
  "vt_process_withdrawal_queue tr e request_id s =
     and_then (vt_load_queue_item request_id s) (\<lambda>item.
     and_then (panic_if (qi_processed item) VtAlreadyProcessed) (\<lambda>_.
     let total_assets = vt_total_assets s; total_supply = vt_total_supply s in
     and_then (vt_calculate_assets_for_withdrawal (qi_shares item) total_assets total_supply) (\<lambda>assets.
     and_then (vt_sub total_supply (qi_shares item)) (\<lambda>new_total_supply.
     and_then (vt_sub total_assets assets) (\<lambda>new_total_assets.
     let s = s\<lparr>vt_supply := Some new_total_supply, vt_assets := Some new_total_assets\<rparr> in
     and_then (vt_add (vt_total_withdrawals s) assets) (\<lambda>new_total_withdrawals.
     let s = s\<lparr>vt_withdrawals := Some new_total_withdrawals,
               vt_queue_item := (vt_queue_item s)(request_id \<mapsto> item\<lparr>qi_processed := True\<rparr>)\<rparr> in
     and_then (vt_get_token s) (\<lambda>token.
     and_then (vt_transfer_token tr e token (env_self e) (qi_user item) assets s) (\<lambda>s.
     Inr (assets, s)))))))))"

section \<open>Views\<close>

definition vt_preview_deposit :: "i128 \<Rightarrow> 'w vt_state \<Rightarrow> vt_error + i128" where
  "vt_preview_deposit amount s = vt_calculate_shares_for_deposit amount (vt_total_assets s) (vt_total_supply s)"

definition vt_preview_withdraw :: "i128 \<Rightarrow> 'w vt_state \<Rightarrow> vt_error + i128" where
  "vt_preview_withdraw shares s = vt_calculate_assets_for_withdrawal shares (vt_total_assets s) (vt_total_supply s)"

definition vt_get_vault_info :: "'w vt_state \<Rightarrow> vt_error + vault_info" where
  "vt_get_vault_info s =
     and_then (vt_get_admin s) (\<lambda>admin.
     and_then (vt_get_token s) (\<lambda>token.
     and_then (vt_share_price s) (\<lambda>share_price.
     Inr \<lparr>vi_admin = admin, vi_token = token, vi_total_assets = vt_total_assets s, vi_total_supply = vt_total_supply s,
          vi_total_deposits = vt_total_deposits s, vi_total_withdrawals = vt_total_withdrawals s,
          vi_total_fees_collected = vt_total_fees_collected s, vi_share_price = share_price,
          vi_performance_fee_bps = vt_performance_fee_bps s, vi_high_water_mark = vt_high_water_mark s,
          vi_paused = vt_is_paused s\<rparr>)))"

section \<open>Calls\<close>

datatype vt_call =
    VtInitialize address address
  | VtDeposit address i128
  | VtWithdraw address i128
  | VtEmergencyWithdraw address
  | VtGovernanceWithdraw address address i128
  | VtPause address
  | VtUnpause address
  | VtSetPerformanceFee address u32
  | VtWithdrawFees address address
  | VtAddStrategy address symbol address
  | VtRemoveStrategy address symbol
  | VtSetStrategyAllocation address symbol u32
  | VtMigrateStrategy address symbol symbol
  | VtHarvestStrategy symbol i128
  | VtEmergencyStrategyWithdrawal address symbol
  | VtQueueWithdrawal address i128
  | VtProcessWithdrawalQueue u64

fun vt_exec :: "'w token_transfer \<Rightarrow> env \<Rightarrow> vt_call \<Rightarrow> 'w vt_state \<Rightarrow> 'w vt_state option" where
  "vt_exec tr e (VtInitialize a t) s = state_of (vt_initialize e a t s)"
| "vt_exec tr e (VtDeposit u n) s = state_of (vt_deposit tr e u n s)"
| "vt_exec tr e (VtWithdraw u n) s = state_of (vt_withdraw tr e u n s)"
| "vt_exec tr e (VtEmergencyWithdraw u) s = state_of (vt_emergency_withdraw tr e u s)"
| "vt_exec tr e (VtGovernanceWithdraw a r n) s = state_of (vt_governance_withdraw tr e a r n s)"
| "vt_exec tr e (VtPause a) s = state_of (vt_pause e a s)"
| "vt_exec tr e (VtUnpause a) s = state_of (vt_unpause e a s)"
| "vt_exec tr e (VtSetPerformanceFee a f) s = state_of (vt_set_performance_fee e a f s)"
| "vt_exec tr e (VtWithdrawFees a r) s = state_of (vt_withdraw_fees tr e a r s)"
| "vt_exec tr e (VtAddStrategy a i d) s = state_of (vt_add_strategy e a i d s)"
| "vt_exec tr e (VtRemoveStrategy a i) s = state_of (vt_remove_strategy e a i s)"
| "vt_exec tr e (VtSetStrategyAllocation a i n) s = state_of (vt_set_strategy_allocation e a i n s)"
| "vt_exec tr e (VtMigrateStrategy a i j) s = state_of (vt_migrate_strategy e a i j s)"
| "vt_exec tr e (VtHarvestStrategy i n) s = state_of (vt_harvest_strategy e i n s)"
| "vt_exec tr e (VtEmergencyStrategyWithdrawal a i) s = state_of (vt_emergency_strategy_withdrawal e a i s)"
| "vt_exec tr e (VtQueueWithdrawal u n) s = state_of (vt_queue_withdrawal e u n s)"
| "vt_exec tr e (VtProcessWithdrawalQueue i) s = state_of (vt_process_withdrawal_queue tr e i s)"

end
