(* ===== verification/Vault_Correct.thy ===== *)
theory Vault_Correct
  imports Vault
begin

text \<open>
  What the operations of Vault do, the invariant of the contract and its properties. Two facts carry
  them: the share supply is the sum of the holdings and of the open withdrawal requests, and the
  recorded assets and fees are covered by the balance up to the net gains that were reported.
\<close>

section \<open>What the operations do\<close>

lemmas vt_getters = vt_total_assets_def vt_total_supply_def vt_total_deposits_def vt_total_withdrawals_def
  vt_total_fees_collected_def vt_high_water_mark_def vt_performance_fee_bps_def vt_load_user_deposit_def vt_strategy_ids_def
  vt_strategy_counter_def vt_strategy_alloc_bps_def vt_withdrawal_queue_ids_def vt_withdrawal_queue_counter_def
  vt_min_queued_withdrawal_def vt_is_paused_def

lemma vt_arith_Inr [result_iffs]:
  "vt_add a b = Inr c \<longleftrightarrow> c = a + b \<and> in_i128 (a + b)" "vt_sub a b = Inr c \<longleftrightarrow> c = a - b \<and> in_i128 (a - b)"
  "vt_mul a b = Inr c \<longleftrightarrow> c = a * b \<and> in_i128 (a * b)"
  by (simp_all add: vt_add_def vt_sub_def vt_mul_def result_iffs)

lemma vt_checks_Inr [result_iffs]:
  "vt_get_token s = Inr tok \<longleftrightarrow> vt_token s = Some tok" "vt_assert_admin a s = Inr u \<longleftrightarrow> vt_admin s = Some a"
  "vt_load_strategy i s = Inr c \<longleftrightarrow> vt_strategy s i = Some c" "vt_load_queue_item j s = Inr q \<longleftrightarrow> vt_queue_item s j = Some q"
  by (auto simp: vt_get_token_def vt_assert_admin_def vt_get_admin_def vt_load_strategy_def vt_load_queue_item_def result_iffs)

lemma vt_transfer_token_Inr [result_iffs]:
  "vt_transfer_token tr e tok src dst n s = Inr s' \<longleftrightarrow>
     (\<exists>w'. \<not> unwrap_or False (vt_reentrancy_lock s) \<and> 0 < n \<and> tr e tok src dst n (vt_tokens s) = Some w' \<and>
       s' = s\<lparr>vt_reentrancy_lock := Some False, vt_tokens := w'\<rparr>)"
  by (auto simp: vt_transfer_token_def vt_enter_non_reentrant_def vt_exit_non_reentrant_def
      vt_transfer_token_unchecked_def result_iffs)

lemma vt_assets_for_Inr [result_iffs]:
  "vt_calculate_assets_for_withdrawal sh a t = Inr n \<longleftrightarrow>
     in_i128 (sh * a) \<and> t \<noteq> 0 \<and> n = div_i128 (sh * a) t \<and> in_i128 n"
  by (auto simp: vt_calculate_assets_for_withdrawal_def result_iffs)

text \<open>Nothing is charged on a withdrawal while the assets are at most the high-water mark.\<close>

lemma vt_withdrawal_fee_zero: "vt_total_assets s \<le> vt_high_water_mark s \<Longrightarrow> vt_withdrawal_fee s = Inr 0"
  by (simp add: vt_withdrawal_fee_def)

definition vt_shares_of :: "address \<Rightarrow> 'w vt_state \<Rightarrow> i128" where
  "vt_shares_of u s = ud_shares (vt_load_user_deposit u s)"

lemma vt_deposit_Inr:
  assumes "vt_deposit tr e user n s = Inr (sh, s')"
  obtains tok w' hw dd d where "env_auth e user" and "0 < n"
    and "vt_calculate_shares_for_deposit n (vt_total_assets s) (vt_total_supply s) = Inr sh"
    and "vt_token s = Some tok" and "tr e tok user (env_self e) n (vt_tokens s) = Some w'"
    and "in_i128 (vt_total_assets s + n)" and "in_i128 (vt_total_supply s + sh)"
    and "s' = s\<lparr>vt_reentrancy_lock := Some False, vt_tokens := w', vt_assets := Some (vt_total_assets s + n),
      vt_supply := Some (vt_total_supply s + sh), vt_deposits := dd, vt_hwm := hw, vt_user := (vt_user s)(user \<mapsto> d)\<rparr>"
    and "unwrap_or 0 hw = max (vt_total_assets s + n) (vt_high_water_mark s)"
    and "ud_shares d = vt_shares_of user s + sh" and "\<not> vt_is_paused s"
proof -
  let ?s3 = "\<lambda>a t d s1. vt_raise_high_water_mark a (s1\<lparr>vt_assets := Some a, vt_supply := Some t, vt_deposits := Some d\<rparr>)"
  from assms obtain tok s1 sh1 a1 t1 d1 us ud and u1 u2 u3 :: unit where raw:
      "require_auth VtAuth e user = Inr u1" "panic_if (vt_is_paused s) VtPaused = Inr u2"
      "panic_if (n \<le> 0) VtDepositAmountMustBePositive = Inr u3"
      "vt_calculate_shares_for_deposit n (vt_total_assets s) (vt_total_supply s) = Inr sh1" "vt_get_token s = Inr tok"
      "vt_transfer_token tr e tok user (env_self e) n s = Inr s1" "vt_add (vt_total_assets s) n = Inr a1"
      "vt_add (vt_total_supply s) sh1 = Inr t1" "vt_add (vt_total_deposits s1) n = Inr d1"
      "vt_add (ud_shares (vt_load_user_deposit user (?s3 a1 t1 d1 s1))) sh1 = Inr us"
      "vt_add (ud_total_deposited (vt_load_user_deposit user (?s3 a1 t1 d1 s1))) n = Inr ud" "sh1 = sh"
      "(?s3 a1 t1 d1 s1)\<lparr>vt_user := (vt_user (?s3 a1 t1 d1 s1))(user \<mapsto> vt_load_user_deposit user (?s3 a1 t1 d1 s1)
         \<lparr>ud_shares := us, ud_total_deposited := ud, ud_last_deposit_at := env_timestamp e\<rparr>)\<rparr> = s'"
    unfolding vt_deposit_def Let_def and_then_eq_Inr sum.inject prod.inject
    by (elim exE conjE) (rule that)
  obtain w' where w': "tr e tok user (env_self e) n (vt_tokens s) = Some w'" "s1 = s\<lparr>vt_reentrancy_lock := Some False, vt_tokens := w'\<rparr>"
    using raw(6) by (auto simp: result_iffs)
  define hw where "hw = (if a1 > vt_high_water_mark s then Some a1 else vt_hwm s)"
  have s3: "?s3 a1 t1 d1 s1 = s\<lparr>vt_reentrancy_lock := Some False, vt_tokens := w', vt_assets := Some a1, vt_supply := Some t1,
      vt_deposits := Some d1, vt_hwm := hw\<rparr>"
    by (simp add: w' vt_raise_high_water_mark_def hw_def vt_high_water_mark_def)
  have load: "vt_load_user_deposit user (?s3 a1 t1 d1 s1) = vt_load_user_deposit user s" by (simp add: s3 vt_load_user_deposit_def)
  have num: "a1 = vt_total_assets s + n" "in_i128 (vt_total_assets s + n)" "t1 = vt_total_supply s + sh" "in_i128 (vt_total_supply s + sh)"
      "us = vt_shares_of user s + sh"
    using raw(7,8,12) raw(10) [unfolded load] by (simp_all add: result_iffs vt_shares_of_def)
  show thesis
    by (rule that [where dd = "Some d1" and hw = hw and tok = tok and w' = w' and d = "vt_load_user_deposit user s\<lparr>ud_shares := us, ud_total_deposited := ud, ud_last_deposit_at := env_timestamp e\<rparr>"])
       (use raw(1-5,12) raw(13) [unfolded load, unfolded s3, symmetric] num w' in \<open>simp_all add: result_iffs hw_def vt_high_water_mark_def max_def\<close>)
qed

lemma vt_withdraw_Inr:
  assumes "vt_withdraw tr e user sh s = Inr (n, s')" and hw: "vt_total_assets s \<le> vt_high_water_mark s"
  obtains tok w' dd d where "env_auth e user" and "0 < sh" and "sh \<le> vt_shares_of user s" and "0 < vt_total_supply s"
    and "vt_calculate_assets_for_withdrawal sh (vt_total_assets s) (vt_total_supply s) = Inr n" and "in_i128 (vt_total_supply s - sh)"
    and "in_i128 (vt_total_assets s - n)" and "vt_token s = Some tok" and "0 < n" and "tr e tok (env_self e) user n (vt_tokens s) = Some w'"
    and "s' = s\<lparr>vt_supply := Some (vt_total_supply s - sh), vt_assets := Some (vt_total_assets s - n), vt_withdrawals := dd,
      vt_user := (vt_user s)(user \<mapsto> d), vt_reentrancy_lock := Some False, vt_tokens := w'\<rparr>"
    and "ud_shares d = vt_shares_of user s - sh"
proof -
  from assms(1) obtain g f net t1 a1 d1 s2 us ud tok s4 and u1 u2 u3 u4 :: unit where raw:
      "require_auth VtAuth e user = Inr u1" "panic_if (sh \<le> 0) VtSharesMustBePositive = Inr u2"
      "panic_if (ud_shares (vt_load_user_deposit user s) < sh) VtInsufficientShares = Inr u3"
      "panic_if (vt_total_supply s \<le> 0) VtNoAssetsInVault = Inr u4"
      "vt_calculate_assets_for_withdrawal sh (vt_total_assets s) (vt_total_supply s) = Inr g" "vt_withdrawal_fee s = Inr f"
      "vt_sub g f = Inr net" "vt_sub (vt_total_supply s) sh = Inr t1" "vt_sub (vt_total_assets s) g = Inr a1"
      "vt_add (vt_total_withdrawals s) net = Inr d1"
      "(if f > 0 then vt_collect_fee f (s\<lparr>vt_supply := Some t1, vt_assets := Some a1, vt_withdrawals := Some d1\<rparr>)
        else Inr (s\<lparr>vt_supply := Some t1, vt_assets := Some a1, vt_withdrawals := Some d1\<rparr>)) = Inr s2"
      "vt_sub (ud_shares (vt_load_user_deposit user s)) sh = Inr us" "vt_add (ud_total_withdrawn (vt_load_user_deposit user s)) net = Inr ud"
      "vt_get_token (s2\<lparr>vt_user := (vt_user s2)(user \<mapsto> vt_load_user_deposit user s\<lparr>ud_shares := us, ud_total_withdrawn := ud, ud_last_withdrawal_at := env_timestamp e\<rparr>)\<rparr>) = Inr tok"
      "vt_transfer_token tr e tok (env_self e) user net (s2\<lparr>vt_user := (vt_user s2)(user \<mapsto> vt_load_user_deposit user s\<lparr>ud_shares := us, ud_total_withdrawn := ud, ud_last_withdrawal_at := env_timestamp e\<rparr>)\<rparr>) = Inr s4"
      "net = n" "s4 = s'"
    unfolding vt_withdraw_def Let_def and_then_eq_Inr sum.inject prod.inject
    by (elim exE conjE) (rule that)
  have f: "f = 0" using raw(6) vt_withdrawal_fee_zero [OF hw] by simp
  have s2: "s2 = s\<lparr>vt_supply := Some t1, vt_assets := Some a1, vt_withdrawals := Some d1\<rparr>" using raw(11) f by simp
  have num: "g = n" "t1 = vt_total_supply s - sh" "in_i128 (vt_total_supply s - sh)" "a1 = vt_total_assets s - n" "in_i128 (vt_total_assets s - n)"
      "us = vt_shares_of user s - sh"
    using raw(7,8,9,12,16) f by (auto simp: result_iffs vt_shares_of_def)
  obtain w' where w': "tr e tok (env_self e) user n (vt_tokens s) = Some w'" "0 < n"
      "s' = s2\<lparr>vt_user := (vt_user s2)(user \<mapsto> vt_load_user_deposit user s\<lparr>ud_shares := us, ud_total_withdrawn := ud, ud_last_withdrawal_at := env_timestamp e\<rparr>),
        vt_reentrancy_lock := Some False, vt_tokens := w'\<rparr>"
    using raw(15-17) by (auto simp: result_iffs s2)
  show thesis
    by (rule that [where dd = "Some d1" and tok = tok and w' = w' and d = "vt_load_user_deposit user s\<lparr>ud_shares := us, ud_total_withdrawn := ud, ud_last_withdrawal_at := env_timestamp e\<rparr>"])
       (use raw(1-4,14) raw(5) [unfolded num(1)] num w' in
         \<open>simp_all add: panic_if_eq_Inr require_auth_eq_Inr vt_checks_Inr s2 vt_shares_of_def\<close>)
qed

lemma vt_emergency_withdraw_Inr:
  assumes "vt_emergency_withdraw tr e user s = Inr (n, s')"
  obtains tok w' dd d where "env_auth e user" and "0 < vt_shares_of user s" and "0 < vt_total_supply s"
    and "vt_calculate_assets_for_withdrawal (vt_shares_of user s) (vt_total_assets s) (vt_total_supply s) = Inr n"
    and "in_i128 (vt_total_supply s - vt_shares_of user s)"
    and "in_i128 (vt_total_assets s - n)" and "vt_token s = Some tok" and "0 < n" and "tr e tok (env_self e) user n (vt_tokens s) = Some w'"
    and "s' = s\<lparr>vt_supply := Some (vt_total_supply s - vt_shares_of user s), vt_assets := Some (vt_total_assets s - n), vt_withdrawals := dd,
      vt_user := (vt_user s)(user \<mapsto> d), vt_reentrancy_lock := Some False, vt_tokens := w'\<rparr>"
    and "ud_shares d = 0"
proof -
  let ?d = "\<lambda>x. \<lparr>ud_shares = 0, ud_total_deposited = ud_total_deposited (vt_load_user_deposit user s), ud_total_withdrawn = x,
    ud_last_deposit_at = ud_last_deposit_at (vt_load_user_deposit user s), ud_last_withdrawal_at = env_timestamp e\<rparr>"
  let ?s2 = "\<lambda>t1 a1 d1 ud. s\<lparr>vt_supply := Some t1, vt_assets := Some a1, vt_withdrawals := Some d1,
    vt_user := (vt_user (s\<lparr>vt_supply := Some t1, vt_assets := Some a1, vt_withdrawals := Some d1\<rparr>))(user \<mapsto> ?d ud)\<rparr>"
  from assms obtain m t1 a1 d1 ud tok s4 and u1 u2 u3 :: unit where raw:
      "require_auth VtAuth e user = Inr u1" "panic_if (ud_shares (vt_load_user_deposit user s) \<le> 0) VtNoSharesToWithdraw = Inr u2"
      "panic_if (vt_total_supply s \<le> 0) VtNoAssetsInVault = Inr u3"
      "vt_calculate_assets_for_withdrawal (ud_shares (vt_load_user_deposit user s)) (vt_total_assets s) (vt_total_supply s) = Inr m"
      "vt_sub (vt_total_supply s) (ud_shares (vt_load_user_deposit user s)) = Inr t1" "vt_sub (vt_total_assets s) m = Inr a1"
      "vt_add (vt_total_withdrawals s) m = Inr d1" "vt_add (ud_total_withdrawn (vt_load_user_deposit user s)) m = Inr ud"
      "vt_get_token (?s2 t1 a1 d1 ud) = Inr tok" "vt_transfer_token tr e tok (env_self e) user m (?s2 t1 a1 d1 ud) = Inr s4"
      "m = n" "s4 = s'"
    unfolding vt_emergency_withdraw_def Let_def and_then_eq_Inr sum.inject prod.inject
    by (elim exE conjE) (rule that)
  obtain w' where w': "tr e tok (env_self e) user n (vt_tokens s) = Some w'" "0 < n"
      "s' = (?s2 t1 a1 d1 ud)\<lparr>vt_reentrancy_lock := Some False, vt_tokens := w'\<rparr>"
    using raw(10-12) by (auto simp: vt_transfer_token_Inr)
  have num: "t1 = vt_total_supply s - vt_shares_of user s" "in_i128 (vt_total_supply s - vt_shares_of user s)"
      "a1 = vt_total_assets s - n" "in_i128 (vt_total_assets s - n)"
    using raw(5,6,11) by (simp_all add: vt_arith_Inr vt_shares_of_def)
  show thesis
    by (rule that [where dd = "Some d1" and tok = tok and w' = w' and d = "?d ud"])
       (use raw(1-4,9,11) num w' in \<open>simp_all add: panic_if_eq_Inr require_auth_eq_Inr vt_checks_Inr vt_shares_of_def\<close>)
qed

lemma vt_process_Inr:
  assumes "vt_process_withdrawal_queue tr e i s = Inr (n, s')"
  obtains q tok w' dd where "vt_queue_item s i = Some q" and "\<not> qi_processed q"
    and "vt_calculate_assets_for_withdrawal (qi_shares q) (vt_total_assets s) (vt_total_supply s) = Inr n"
    and "in_i128 (vt_total_supply s - qi_shares q)" and "in_i128 (vt_total_assets s - n)" and "vt_token s = Some tok" and "0 < n"
    and "tr e tok (env_self e) (qi_user q) n (vt_tokens s) = Some w'"
    and "s' = s\<lparr>vt_supply := Some (vt_total_supply s - qi_shares q), vt_assets := Some (vt_total_assets s - n), vt_withdrawals := dd,
      vt_queue_item := (vt_queue_item s)(i \<mapsto> q\<lparr>qi_processed := True\<rparr>), vt_reentrancy_lock := Some False, vt_tokens := w'\<rparr>"
proof -
  let ?s1 = "\<lambda>t1 a1. s\<lparr>vt_supply := Some t1, vt_assets := Some a1\<rparr>"
  let ?s2 = "\<lambda>t1 a1 d1 q. (?s1 t1 a1)\<lparr>vt_withdrawals := Some d1, vt_queue_item := (vt_queue_item (?s1 t1 a1))(i \<mapsto> q\<lparr>qi_processed := True\<rparr>)\<rparr>"
  from assms obtain q m t1 a1 d1 tok s4 and u1 :: unit where raw:
      "vt_load_queue_item i s = Inr q" "panic_if (qi_processed q) VtAlreadyProcessed = Inr u1"
      "vt_calculate_assets_for_withdrawal (qi_shares q) (vt_total_assets s) (vt_total_supply s) = Inr m"
      "vt_sub (vt_total_supply s) (qi_shares q) = Inr t1" "vt_sub (vt_total_assets s) m = Inr a1"
      "vt_add (vt_total_withdrawals (?s1 t1 a1)) m = Inr d1"
      "vt_get_token (?s2 t1 a1 d1 q) = Inr tok" "vt_transfer_token tr e tok (env_self e) (qi_user q) m (?s2 t1 a1 d1 q) = Inr s4"
      "m = n" "s4 = s'"
    unfolding vt_process_withdrawal_queue_def Let_def and_then_eq_Inr sum.inject prod.inject
    by (elim exE conjE) (rule that)
  obtain w' where w': "tr e tok (env_self e) (qi_user q) n (vt_tokens s) = Some w'" "0 < n"
      "s' = (?s2 t1 a1 d1 q)\<lparr>vt_reentrancy_lock := Some False, vt_tokens := w'\<rparr>"
    using raw(8-10) by (auto simp: vt_transfer_token_Inr)
  have num: "t1 = vt_total_supply s - qi_shares q" "in_i128 (vt_total_supply s - qi_shares q)"
      "a1 = vt_total_assets s - n" "in_i128 (vt_total_assets s - n)"
    using raw(4,5,9) by (simp_all add: vt_arith_Inr)
  show thesis
    by (rule that [where dd = "Some d1" and tok = tok and w' = w' and q = q])
       (use raw(1-3,7,9) num w' in \<open>simp_all add: panic_if_eq_Inr vt_checks_Inr\<close>)
qed

lemma vt_queue_withdrawal_Inr:
  assumes "vt_queue_withdrawal e user sh s = Inr (i, s')"
  obtains est d where "env_auth e user" and "0 < sh" and "sh \<le> vt_shares_of user s" and "0 < vt_total_supply s"
    and "vt_calculate_assets_for_withdrawal sh (vt_total_assets s) (vt_total_supply s) = Inr est"
    and "i = vt_withdrawal_queue_counter s + 1" and "ud_shares d = vt_shares_of user s - sh"
    and "s' = s\<lparr>vt_user := (vt_user s)(user \<mapsto> d), vt_queue_count := Some (vt_withdrawal_queue_counter s + 1),
      vt_queue_item := (vt_queue_item s)(vt_withdrawal_queue_counter s + 1 \<mapsto> \<lparr>qi_request_id = vt_withdrawal_queue_counter s + 1,
        qi_user = user, qi_shares = sh, qi_estimated_assets = est, qi_requested_at = env_timestamp e, qi_processed = False\<rparr>),
      vt_queue_list := Some (vt_withdrawal_queue_ids s @ [vt_withdrawal_queue_counter s + 1])\<rparr>"
proof -
  let ?d = "\<lambda>us. vt_load_user_deposit user s\<lparr>ud_shares := us, ud_last_withdrawal_at := env_timestamp e\<rparr>"
  let ?q = "\<lambda>j est. \<lparr>qi_request_id = j, qi_user = user, qi_shares = sh, qi_estimated_assets = est, qi_requested_at = env_timestamp e, qi_processed = False\<rparr>"
  from assms obtain est us j s1 and u1 u2 u3 u4 u5 :: unit where raw:
      "require_auth VtAuth e user = Inr u1" "panic_if (sh \<le> 0) VtSharesMustBePositive = Inr u2"
      "panic_if (ud_shares (vt_load_user_deposit user s) < sh) VtInsufficientShares = Inr u3"
      "panic_if (vt_total_supply s \<le> 0) VtNoAssetsInVault = Inr u4"
      "vt_calculate_assets_for_withdrawal sh (vt_total_assets s) (vt_total_supply s) = Inr est"
      "panic_if (est < vt_min_queued_withdrawal s) VtBelowMinimumQueuedWithdrawal = Inr u5"
      "vt_sub (ud_shares (vt_load_user_deposit user s)) sh = Inr us"
      "vt_next_withdrawal_queue_id (s\<lparr>vt_user := (vt_user s)(user \<mapsto> ?d us)\<rparr>) = Inr (j, s1)" "j = i"
      "s1\<lparr>vt_queue_item := (vt_queue_item s1)(j \<mapsto> ?q j est), vt_queue_list := Some (vt_withdrawal_queue_ids s1 @ [j])\<rparr> = s'"
    unfolding vt_queue_withdrawal_def Let_def and_then_eq_Inr split_paired_Ex prod.case sum.inject prod.inject
    by (elim exE conjE) (rule that)
  have s1: "j = vt_withdrawal_queue_counter s + 1" "s1 = s\<lparr>vt_user := (vt_user s)(user \<mapsto> ?d us), vt_queue_count := Some (vt_withdrawal_queue_counter s + 1)\<rparr>"
    using raw(8) by (auto simp: vt_next_withdrawal_queue_id_def result_iffs vt_withdrawal_queue_counter_def)
  show thesis
    by (rule that [where est = est and d = "?d us"])
       (use raw(1-5,7,9) raw(10) [symmetric] s1 in \<open>simp_all add: panic_if_eq_Inr require_auth_eq_Inr vt_arith_Inr vt_shares_of_def vt_withdrawal_queue_ids_def\<close>)
qed

lemma vt_governance_withdraw_Inr:
  assumes "vt_governance_withdraw tr e a r n s = Inr (v, s')"
  obtains tok w' where "0 < n" and "n \<le> vt_total_assets s" and "in_i128 (vt_total_assets s - n)" and "vt_token s = Some tok"
    and "tr e tok (env_self e) r n (vt_tokens s) = Some w'"
    and "s' = s\<lparr>vt_assets := Some (vt_total_assets s - n), vt_reentrancy_lock := Some False, vt_tokens := w'\<rparr>"
  using assms unfolding vt_governance_withdraw_def Let_def by (auto simp: result_iffs)

lemma vt_withdraw_fees_Inr:
  assumes "vt_withdraw_fees tr e a r s = Inr (v, s')"
  obtains tok w' where "0 < vt_total_fees_collected s" and "vt_token s = Some tok"
    and "tr e tok (env_self e) r (vt_total_fees_collected s) (vt_tokens s) = Some w'"
    and "s' = s\<lparr>vt_reentrancy_lock := Some False, vt_tokens := w', vt_fees := Some 0\<rparr>"
  using assms unfolding vt_withdraw_fees_def Let_def by (auto simp: result_iffs)

lemma vt_harvest_Inr:
  assumes "vt_harvest_strategy e i b s = Inr (r, s')"
  obtains c g l f a where "vt_strategy s i = Some c" and "sc_is_active c"
    and "g = max 0 (b - sc_current_balance c)" and "l = max 0 (sc_current_balance c - b)"
    and "f = (if 0 < g then g * int (vt_performance_fee_bps s) div 10000 else 0)"
    and "a = vt_total_assets s + g - l - f" and "in_i128 (vt_total_assets s) \<longrightarrow> in_i128 a"
    and "s' = s\<lparr>vt_strategy := (vt_strategy s)(i \<mapsto> c\<lparr>sc_current_balance := b, sc_total_gains := sc_total_gains c + g,
        sc_total_losses := sc_total_losses c + l, sc_last_harvest_at := env_timestamp e\<rparr>),
      vt_assets := Some a, vt_hwm := Some (max a (vt_high_water_mark s)),
      vt_fees := (if 0 < f then Some (vt_total_fees_collected s + f) else vt_fees s)\<rparr>"
    and "hr_gains r = g" and "hr_performance_fee r = f" and "hr_new_total_assets r = a"
proof -
  let ?c = "\<lambda>c g l. c\<lparr>sc_current_balance := b, sc_total_gains := g, sc_total_losses := l, sc_last_harvest_at := env_timestamp e\<rparr>"
  let ?hw = "\<lambda>a. if a > vt_high_water_mark s then a else vt_high_water_mark s"
  let ?s1 = "\<lambda>c g l a. s\<lparr>vt_strategy := (vt_strategy s)(i \<mapsto> ?c c g l), vt_assets := Some a, vt_hwm := Some (?hw a)\<rparr>"
  from assms obtain c g l f a tg tl s2 and u1 :: unit where raw:
      "vt_load_strategy i s = Inr c" "panic_if (\<not> sc_is_active c) VtStrategyNotActive = Inr u1"
      "(if b > sc_current_balance c then vt_sub b (sc_current_balance c) else Inr 0) = Inr g"
      "(if b < sc_current_balance c then vt_sub (sc_current_balance c) b else Inr 0) = Inr l"
      "vt_harvest_fee g s = Inr f"
      "vt_harvested_assets b (sc_current_balance c) g f (vt_total_assets s) = Inr a"
      "vt_add (sc_total_gains c) g = Inr tg" "vt_add (sc_total_losses c) l = Inr tl"
      "(if f > 0 then vt_collect_fee f (?s1 c tg tl a) else Inr (?s1 c tg tl a)) = Inr s2"
      "\<lparr>hr_strategy_id = i, hr_gains = g, hr_performance_fee = f, hr_new_total_assets = a, hr_new_high_water_mark = ?hw a\<rparr> = r" "s2 = s'"
    unfolding vt_harvest_strategy_def Let_def and_then_eq_Inr sum.inject prod.inject
    by (elim exE conjE) (rule that)
  have g: "g = max 0 (b - sc_current_balance c)" and l: "l = max 0 (sc_current_balance c - b)"
    using raw(3,4) by (auto simp: vt_arith_Inr split: if_splits)
  have f: "f = (if 0 < g then g * int (vt_performance_fee_bps s) div 10000 else 0)"
    using raw(5) by (auto simp: vt_harvest_fee_def result_iffs div_i128_nonneg VT_BPS_DENOMINATOR_def split: if_splits)
  have a: "a = vt_total_assets s + g - l - f" "in_i128 (vt_total_assets s) \<longrightarrow> in_i128 a"
    using raw(6) g l f by (auto simp: vt_harvested_assets_def result_iffs split: if_splits)
  have s2: "s' = (?s1 c tg tl a)\<lparr>vt_fees := (if 0 < f then Some (vt_total_fees_collected s + f) else vt_fees s)\<rparr>"
    using raw(9,11) by (auto simp: vt_collect_fee_def vt_arith_Inr vt_total_fees_collected_def and_then_eq_Inr split: if_splits)
  show thesis
    by (rule that [where c = c and g = g and l = l and f = f and a = a])
       (use raw(1,2,7,8) raw(10) [symmetric] g l f a s2 in \<open>simp_all add: panic_if_eq_Inr vt_checks_Inr vt_arith_Inr max_def\<close>)
qed

section \<open>The invariant\<close>

definition vt_open :: "withdrawal_queue_item \<Rightarrow> i128" where
  "vt_open q = (if qi_processed q then 0 else qi_shares q)"

definition vt_queue_ok :: "'w vt_state \<Rightarrow> bool" where
  "vt_queue_ok s \<longleftrightarrow> vt_withdrawal_queue_ids s = map Suc [0..<vt_withdrawal_queue_counter s] \<and>
     (\<forall>i. vt_queue_item s i \<noteq> None \<longleftrightarrow> 1 \<le> i \<and> i \<le> vt_withdrawal_queue_counter s) \<and>
     (\<forall>i q. vt_queue_item s i = Some q \<longrightarrow> 0 < qi_shares q)"

definition vt_shares_ok :: "'w vt_state \<Rightarrow> bool" where
  "vt_shares_ok s \<longleftrightarrow> finite (dom (vt_user s)) \<and> (\<forall>u d. vt_user s u = Some d \<longrightarrow> 0 \<le> ud_shares d) \<and>
     vt_total_supply s = entry_sum ud_shares (vt_user s) + entry_sum vt_open (vt_queue_item s)"

definition vt_total_bps :: "'w vt_state \<Rightarrow> nat" where
  "vt_total_bps s = sum_list (map (\<lambda>i. vt_strategy_alloc_bps i s) (vt_strategy_ids s))"

definition vt_strategies_ok :: "'w vt_state \<Rightarrow> bool" where
  "vt_strategies_ok s \<longleftrightarrow> distinct (vt_strategy_ids s) \<and> length (vt_strategy_ids s) \<le> MAX_STRATEGIES \<and>
     (\<forall>i. vt_strategy s i \<noteq> None \<longleftrightarrow> i \<in> set (vt_strategy_ids s)) \<and> vt_total_bps s \<le> 10000 \<and>
     (\<forall>i c. vt_strategy s i = Some c \<longrightarrow> \<not> sc_is_active c \<longrightarrow> vt_strategy_alloc_bps i s = 0)"

definition vt_config_ok :: "'w vt_state \<Rightarrow> bool" where
  "vt_config_ok s \<longleftrightarrow> \<not> unwrap_or False (vt_reentrancy_lock s) \<and> vt_total_assets s \<le> vt_high_water_mark s \<and>
     in_i128 (vt_total_assets s) \<and> in_i128 (vt_total_supply s) \<and> 0 \<le> vt_total_fees_collected s \<and> vt_performance_fee_bps s \<le> 5000 \<and>
     (vt_admin s = None \<longleftrightarrow> vt_token s = None) \<and>
     (vt_admin s = None \<longrightarrow> vt_user s = (\<lambda>_. None) \<and> vt_queue_item s = (\<lambda>_. None) \<and> vt_strategy s = (\<lambda>_. None) \<and>
       vt_total_assets s = 0 \<and> vt_total_fees_collected s = 0)"

definition vt_core :: "'w vt_state \<Rightarrow> bool" where
  "vt_core s \<longleftrightarrow> vt_queue_ok s \<and> vt_shares_ok s \<and> vt_strategies_ok s \<and> vt_config_ok s"

text \<open>The net gain the strategies have reported, which is backed by reports only.\<close>

definition vt_reported :: "'w vt_state \<Rightarrow> int" where
  "vt_reported s = entry_sum (\<lambda>c. sc_total_gains c - sc_total_losses c) (vt_strategy s)"

definition vt_held :: "address \<Rightarrow> 'w vt_state \<Rightarrow> int" where
  "vt_held tok s = (if vt_token s = Some tok then vt_total_assets s + vt_total_fees_collected s - vt_reported s else 0)"

definition vt_inv :: "'w token_balance \<Rightarrow> address \<Rightarrow> 'w \<Rightarrow> u64 \<Rightarrow> 'w vt_state \<Rightarrow> bool" where
  "vt_inv bal self w t s \<longleftrightarrow> vt_core s \<and> (\<forall>tok. bal w tok self + vt_held tok s \<le> bal (vt_tokens s) tok self)"

definition vt_adm :: "address \<Rightarrow> env \<Rightarrow> vt_call \<Rightarrow> bool" where
  "vt_adm self e c \<longleftrightarrow> env_self e = self \<and> \<not> env_auth e self"

definition vt_drift :: "'w token_balance \<Rightarrow> address \<Rightarrow> 'w vt_state \<Rightarrow> 'w vt_state \<Rightarrow> bool" where
  "vt_drift bal self s s' \<longleftrightarrow>
     (\<exists>w. s' = s\<lparr>vt_tokens := w\<rparr> \<and> (\<forall>tok. bal (vt_tokens s) tok self \<le> bal w tok self))"

lemmas vt_core_defs = vt_core_def vt_queue_ok_def vt_shares_ok_def vt_strategies_ok_def vt_config_ok_def

lemma vt_coreD:
  assumes "vt_core s"
  shows "\<not> unwrap_or False (vt_reentrancy_lock s)" "vt_total_assets s \<le> vt_high_water_mark s" "finite (dom (vt_user s))"
    "vt_performance_fee_bps s \<le> 5000" "0 \<le> vt_total_fees_collected s"
    "vt_total_supply s = entry_sum ud_shares (vt_user s) + entry_sum vt_open (vt_queue_item s)"
    "in_i128 (vt_total_assets s)" "in_i128 (vt_total_supply s)"
  using assms unfolding vt_core_def vt_config_ok_def vt_shares_ok_def by blast+

lemma vt_core_queue:
  assumes "vt_core s"
  shows "finite (dom (vt_queue_item s))" "vt_queue_item s (vt_withdrawal_queue_counter s + 1) = None"
    "vt_queue_item s i = Some q \<Longrightarrow> 0 < qi_shares q"
proof -
  have dom: "vt_queue_item s i \<noteq> None \<longleftrightarrow> 1 \<le> i \<and> i \<le> vt_withdrawal_queue_counter s" for i
    using assms by (simp only: vt_core_def vt_queue_ok_def)
  then have "dom (vt_queue_item s) = {1..vt_withdrawal_queue_counter s}" by (auto simp: dom_def)
  then show "finite (dom (vt_queue_item s))" by simp
  from dom [of "vt_withdrawal_queue_counter s + 1"] show "vt_queue_item s (vt_withdrawal_queue_counter s + 1) = None" by simp
  show "vt_queue_item s i = Some q \<Longrightarrow> 0 < qi_shares q" using assms by (simp add: vt_core_def vt_queue_ok_def)
qed

lemma vt_core_strategy_finite: "vt_core s \<Longrightarrow> finite (dom (vt_strategy s))"
proof -
  assume "vt_core s"
  then have "vt_strategy s i \<noteq> None \<longleftrightarrow> i \<in> set (vt_strategy_ids s)" for i by (simp only: vt_core_def vt_strategies_ok_def)
  then have "dom (vt_strategy s) = set (vt_strategy_ids s)" by (auto simp: dom_def)
  then show ?thesis by simp
qed

lemma vt_shares_of_nonneg: "vt_core s \<Longrightarrow> 0 \<le> vt_shares_of u s"
  by (cases "vt_user s u") (auto simp: vt_shares_of_def vt_load_user_deposit_def vt_core_def vt_shares_ok_def)

lemma vt_shares_upd:
  "vt_core s \<Longrightarrow> entry_sum ud_shares ((vt_user s)(u \<mapsto> d)) = entry_sum ud_shares (vt_user s) - vt_shares_of u s + ud_shares d"
  by (simp add: entry_sum_upd vt_coreD vt_shares_of_def vt_load_user_deposit_def split: option.split)

lemma vt_open_nonneg: "vt_core s \<Longrightarrow> 0 \<le> entry_sum vt_open (vt_queue_item s)"
  by (rule entry_sum_nonneg) (auto simp: vt_open_def dest!: vt_core_queue(3))

lemma vt_shares_of_le_supply: "vt_core s \<Longrightarrow> vt_shares_of u s \<le> vt_total_supply s"
proof -
  assume core: "vt_core s"
  have "vt_shares_of u s \<le> entry_sum ud_shares (vt_user s)"
  proof (cases "vt_user s u")
    case None
    then show ?thesis using core
      by (auto simp: vt_shares_of_def vt_load_user_deposit_def vt_core_def vt_shares_ok_def intro!: entry_sum_nonneg)
  next
    case (Some d)
    have "ud_shares d \<le> entry_sum ud_shares (vt_user s)"
      by (rule entry_sum_ge_entry [OF vt_coreD(3) [OF core] Some]) (use core in \<open>auto simp: vt_core_def vt_shares_ok_def\<close>)
    with Some show ?thesis by (simp add: vt_shares_of_def vt_load_user_deposit_def)
  qed
  with vt_open_nonneg [OF core] vt_coreD(6) [OF core] show ?thesis by linarith
qed

lemma vt_open_le_supply:
  assumes core: "vt_core s" and q: "vt_queue_item s i = Some q" "\<not> qi_processed q"
  shows "qi_shares q \<le> vt_total_supply s"
proof -
  have "vt_open q \<le> entry_sum vt_open (vt_queue_item s)"
    by (rule entry_sum_ge_entry [OF vt_core_queue(1) [OF core] q(1)]) (auto simp: vt_open_def dest!: vt_core_queue(3) [OF core])
  moreover have "0 \<le> entry_sum ud_shares (vt_user s)"
    by (rule entry_sum_nonneg) (use core in \<open>auto simp: vt_core_def vt_shares_ok_def\<close>)
  ultimately show ?thesis using vt_coreD(6) [OF core] q(2) by (simp add: vt_open_def)
qed

section \<open>Every call keeps the core\<close>

lemma vt_queue_ok_frame:
  "vt_queue_list s' = vt_queue_list s \<Longrightarrow> vt_queue_count s' = vt_queue_count s \<Longrightarrow> vt_queue_item s' = vt_queue_item s \<Longrightarrow>
   vt_core s \<Longrightarrow> vt_queue_ok s'"
  by (simp add: vt_core_def vt_queue_ok_def vt_withdrawal_queue_ids_def vt_withdrawal_queue_counter_def)

lemma vt_strategies_ok_frame:
  "vt_strategy_list s' = vt_strategy_list s \<Longrightarrow> vt_strategy s' = vt_strategy s \<Longrightarrow> vt_alloc_bps s' = vt_alloc_bps s \<Longrightarrow>
   vt_core s \<Longrightarrow> vt_strategies_ok s'"
  by (simp add: vt_core_def vt_strategies_ok_def vt_total_bps_def vt_strategy_ids_def vt_strategy_alloc_bps_def)

lemma vt_shares_ok_frame:
  "vt_user s' = vt_user s \<Longrightarrow> vt_queue_item s' = vt_queue_item s \<Longrightarrow> vt_supply s' = vt_supply s \<Longrightarrow> vt_core s \<Longrightarrow> vt_shares_ok s'"
  by (auto simp: vt_core_def vt_shares_ok_def vt_total_supply_def)

lemma vt_core_admin: "vt_core s \<Longrightarrow> vt_token s = Some tok \<Longrightarrow> vt_admin s \<noteq> None"
  by (auto simp: vt_core_def vt_config_ok_def)

lemma vt_core_uninit:
  "vt_core s \<Longrightarrow> vt_admin s = None \<Longrightarrow> vt_token s = None \<and> vt_user s = (\<lambda>_. None) \<and> vt_queue_item s = (\<lambda>_. None) \<and>
     vt_strategy s = (\<lambda>_. None) \<and> vt_total_assets s = 0 \<and> vt_total_fees_collected s = 0 \<and> vt_total_supply s = 0"
  unfolding vt_core_def vt_config_ok_def vt_shares_ok_def by auto

text \<open>A share is worth at most its part of the assets, on either side of a trade.\<close>

lemma vt_shares_for_deposit_bounds:
  assumes "vt_calculate_shares_for_deposit n a t = Inr sh" and "0 < n"
  shows "0 \<le> sh" "0 < t \<Longrightarrow> a * sh \<le> n * t" "a \<le> 0 \<or> t \<le> 0 \<Longrightarrow> sh = n"
proof -
  have sh: "sh = (if a \<le> 0 \<or> t \<le> 0 then n else n * t div a)"
    using assms by (auto simp: vt_calculate_shares_for_deposit_def result_iffs div_i128_nonneg split: if_splits)
  show "0 \<le> sh" using sh assms(2) by (auto simp: pos_imp_zdiv_nonneg_iff split: if_splits)
  show "a \<le> 0 \<or> t \<le> 0 \<Longrightarrow> sh = n" using sh by auto
  show "a * sh \<le> n * t" if "0 < t"
  proof (cases "a \<le> 0")
    case True
    with sh assms(2) that show ?thesis by (auto intro: order_trans [of _ 0] mult_nonpos_nonneg)
  next
    case False
    then have "a * (n * t div a) \<le> n * t" by (metis linorder_not_less mult.commute mult_div_mod_eq order_le_less add_le_cancel_left pos_mod_sign add.right_neutral)
    with False sh that show ?thesis by simp
  qed
qed

lemma vt_assets_for_bounds:
  assumes "vt_calculate_assets_for_withdrawal sh a t = Inr n" and "0 < n" and "0 < sh" and "0 < t"
  shows "0 < a" "n = sh * a div t" "n * t \<le> sh * a" "sh \<le> t \<Longrightarrow> n \<le> a"
proof -
  have n: "n = div_i128 (sh * a) t" using assms(1) by (simp add: vt_assets_for_Inr)
  show pos: "0 < a"
  proof (rule ccontr)
    assume "\<not> 0 < a"
    with assms(3) have "sh * a \<le> 0" by (simp add: mult_nonneg_nonpos)
    then have "n \<le> 0" using assms(4) by (auto simp: n div_i128_def signed_divide_int_def sgn_if pos_imp_zdiv_nonneg_iff)
    with assms(2) show False by simp
  qed
  show q: "n = sh * a div t" using n pos assms(3,4) by (simp add: div_i128_nonneg)
  then show le: "n * t \<le> sh * a" using assms(4) by (metis div_mult_mod_eq le_add_same_cancel1 pos_mod_sign)
  show "n \<le> a" if "sh \<le> t"
  proof -
    have "sh * a \<le> t * a" using that pos by simp
    with le have "n * t \<le> a * t" by (simp add: mult.commute)
    with assms(4) show ?thesis by simp
  qed
qed

lemma vt_shares_okI:
  assumes "vt_core s" and "vt_user s' = (vt_user s)(user \<mapsto> d)" and "0 \<le> ud_shares d"
    and "vt_total_supply s' + entry_sum vt_open (vt_queue_item s) =
      vt_total_supply s - vt_shares_of user s + ud_shares d + entry_sum vt_open (vt_queue_item s')"
  shows "vt_shares_ok s'"
  using assms(1,3,4) vt_shares_upd [OF assms(1), of user d] vt_coreD(6) [OF assms(1)]
  unfolding vt_shares_ok_def vt_core_def assms(2) by auto

lemma vt_core_deposit:
  assumes core: "vt_core s" and run: "vt_deposit tr e user n s = Inr (sh, s')"
  shows "vt_core s'"
  using run
proof (cases rule: vt_deposit_Inr)
  case (1 tok w' hw dd d)
  have sh: "0 \<le> sh" using vt_shares_for_deposit_bounds(1) [OF 1(3,2)] .
  have "vt_queue_ok s'" "vt_strategies_ok s'"
    by (rule vt_queue_ok_frame [OF _ _ _ core] vt_strategies_ok_frame [OF _ _ _ core]; simp add: 1(8))+
  moreover have "vt_shares_ok s'"
    using 1(10) sh vt_shares_of_nonneg [OF core, of user]
    by (intro vt_shares_okI [OF core, of _ user d]) (simp_all add: 1(8) vt_total_supply_def)
  moreover have "vt_config_ok s'"
    using core vt_core_admin [OF core 1(4)] 1(6,7,9)
    by (auto simp: vt_core_def vt_config_ok_def 1(8) vt_getters)
  ultimately show ?thesis by (simp add: vt_core_def)
qed

lemma vt_core_pay:
  assumes core: "vt_core s" and "vt_token s = Some tok" and "0 \<le> n" and "n \<le> vt_total_assets s" and "0 \<le> sh" and "sh \<le> vt_total_supply s"
    and s': "vt_supply s' = Some (vt_total_supply s - sh)" "vt_assets s' = Some (vt_total_assets s - n)" "\<not> unwrap_or False (vt_reentrancy_lock s')"
      "vt_hwm s' = vt_hwm s" "vt_fees s' = vt_fees s" "vt_fee_bps s' = vt_fee_bps s" "vt_admin s' = vt_admin s" "vt_token s' = vt_token s"
  shows "vt_config_ok s'"
proof -
  have "in_i128 (vt_total_supply s - sh)" "in_i128 (vt_total_assets s - n)"
    using in_i128_nonneg [OF vt_coreD(8) [OF core]] in_i128_nonneg [OF vt_coreD(7) [OF core]] assms(3-6) by simp_all
  then show ?thesis
    using core vt_core_admin [OF core assms(2)] assms(2,3) s'
    by (auto simp: vt_core_def vt_config_ok_def vt_total_assets_def vt_total_supply_def vt_total_fees_collected_def
        vt_high_water_mark_def vt_performance_fee_bps_def)
qed

lemma vt_core_redeem:
  assumes core: "vt_core s" and "vt_token s = Some tok" and "0 < n" and "0 < sh" and "sh \<le> vt_shares_of user s"
    and "vt_calculate_assets_for_withdrawal sh (vt_total_assets s) (vt_total_supply s) = Inr n"
    and s': "s' = s\<lparr>vt_supply := Some (vt_total_supply s - sh), vt_assets := Some (vt_total_assets s - n), vt_withdrawals := dd,
      vt_user := (vt_user s)(user \<mapsto> d), vt_reentrancy_lock := Some False, vt_tokens := w'\<rparr>"
    and "ud_shares d = vt_shares_of user s - sh"
  shows "vt_core s'"
proof -
  have le: "sh \<le> vt_total_supply s" using vt_shares_of_le_supply [OF core, of user] assms(5) by simp
  note b = vt_assets_for_bounds [OF assms(6,3,4)]
  have "vt_config_ok s'"
    by (rule vt_core_pay [OF core assms(2), of n sh]) (use b le assms(3,4) in \<open>auto simp: s'\<close>)
  moreover have "vt_queue_ok s'" "vt_strategies_ok s'"
    by (rule vt_queue_ok_frame [OF _ _ _ core] vt_strategies_ok_frame [OF _ _ _ core]; simp add: s')+
  moreover have "vt_shares_ok s'"
    using assms(5,8) by (intro vt_shares_okI [OF core, of _ user d]) (simp_all add: s' vt_total_supply_def)
  ultimately show ?thesis by (simp add: vt_core_def)
qed

lemma vt_core_process:
  assumes core: "vt_core s" and run: "vt_process_withdrawal_queue tr e i s = Inr (n, s')"
  shows "vt_core s'"
  using run
proof (cases rule: vt_process_Inr)
  case (1 q tok w' dd)
  have q: "0 < qi_shares q" "qi_shares q \<le> vt_total_supply s"
    using vt_core_queue(3) [OF core 1(1)] vt_open_le_supply [OF core 1(1,2)] by simp_all
  note b = vt_assets_for_bounds [OF 1(3,7) q(1)]
  have "vt_config_ok s'"
    by (rule vt_core_pay [OF core 1(6), of n "qi_shares q"]) (use b q 1(7) in \<open>auto simp: 1(9)\<close>)
  moreover have "vt_strategies_ok s'"
    by (rule vt_strategies_ok_frame [OF _ _ _ core]) (simp_all add: 1(9))
  moreover have "vt_queue_ok s'"
    using core 1(1) by (auto simp: vt_core_def vt_queue_ok_def 1(9) vt_getters)
  moreover have "vt_shares_ok s'"
    using core vt_coreD(6) [OF core] vt_core_queue(1) [OF core] 1(1,2)
    unfolding vt_shares_ok_def vt_core_def by (simp add: 1(9) entry_sum_upd vt_total_supply_def) (simp add: vt_open_def)
  ultimately show ?thesis by (simp add: vt_core_def)
qed

lemma vt_config_ok_frame:
  assumes "vt_core s" and "vt_admin s \<noteq> None"
    and "vt_reentrancy_lock s' = vt_reentrancy_lock s" and "vt_assets s' = vt_assets s" and "vt_supply s' = vt_supply s"
    and "vt_hwm s' = vt_hwm s" and "vt_fees s' = vt_fees s" and "vt_fee_bps s' = vt_fee_bps s" and "vt_admin s' = vt_admin s"
    and "vt_token s' = vt_token s"
  shows "vt_config_ok s'"
  using assms by (auto simp: vt_core_def vt_config_ok_def vt_getters)

lemma vt_core_queue_withdrawal:
  assumes core: "vt_core s" and run: "vt_queue_withdrawal e user sh s = Inr (i, s')"
  shows "vt_core s'"
  using run
proof (cases rule: vt_queue_withdrawal_Inr)
  case (1 est d)
  have "vt_admin s \<noteq> None" using 1(4) vt_core_uninit [OF core] by auto
  then have "vt_config_ok s'" by (rule vt_config_ok_frame [OF core]) (simp_all add: 1(8))
  moreover have "vt_strategies_ok s'"
    by (rule vt_strategies_ok_frame [OF _ _ _ core]) (simp_all add: 1(8))
  moreover have "vt_queue_ok s'"
    using core 1(2) by (auto simp: vt_core_def vt_queue_ok_def 1(8) vt_getters)
  moreover have "vt_shares_ok s'"
    using 1(3,7) vt_core_queue(1,2) [OF core]
    by (intro vt_shares_okI [OF core, of _ user d]) (simp_all add: 1(8) vt_total_supply_def entry_sum_upd vt_open_def)
  ultimately show ?thesis by (simp add: vt_core_def)
qed

lemma vt_core_governance_withdraw:
  assumes core: "vt_core s" and run: "vt_governance_withdraw tr e a r n s = Inr (v, s')"
  shows "vt_core s'"
  using run
proof (cases rule: vt_governance_withdraw_Inr)
  case (1 tok w')
  have "vt_queue_ok s'" "vt_strategies_ok s'" "vt_shares_ok s'"
    by (rule vt_queue_ok_frame [OF _ _ _ core] vt_strategies_ok_frame [OF _ _ _ core] vt_shares_ok_frame [OF _ _ _ core]; simp add: 1(6))+
  moreover have "vt_config_ok s'"
    using core vt_core_admin [OF core 1(4)] 1(1,3) by (auto simp: vt_core_def vt_config_ok_def 1(6) vt_getters)
  ultimately show ?thesis by (simp add: vt_core_def)
qed

lemma vt_core_withdraw_fees:
  assumes core: "vt_core s" and run: "vt_withdraw_fees tr e a r s = Inr (v, s')"
  shows "vt_core s'"
  using run
proof (cases rule: vt_withdraw_fees_Inr)
  case (1 tok w')
  have "vt_queue_ok s'" "vt_strategies_ok s'" "vt_shares_ok s'"
    by (rule vt_queue_ok_frame [OF _ _ _ core] vt_strategies_ok_frame [OF _ _ _ core] vt_shares_ok_frame [OF _ _ _ core]; simp add: 1(4))+
  moreover have "vt_config_ok s'"
    using core vt_core_admin [OF core 1(2)] by (auto simp: vt_core_def vt_config_ok_def 1(4) vt_getters)
  ultimately show ?thesis by (simp add: vt_core_def)
qed

lemma vt_core_settings:
  assumes core: "vt_core s"
  shows "vt_pause e a s = Inr (v, s') \<Longrightarrow> vt_core s'" and "vt_unpause e a s = Inr (v, s') \<Longrightarrow> vt_core s'"
    and "vt_set_performance_fee e a f s = Inr (v, s') \<Longrightarrow> vt_core s'"
proof -
  have "vt_core (s\<lparr>vt_paused := b\<rparr>) = vt_core s" for b by (simp add: vt_core_defs vt_total_bps_def vt_getters)
  then show "vt_pause e a s = Inr (v, s') \<Longrightarrow> vt_core s'" and "vt_unpause e a s = Inr (v, s') \<Longrightarrow> vt_core s'"
    using core by (auto simp: vt_pause_def vt_unpause_def result_iffs)
  have "vt_queue_ok (s\<lparr>vt_fee_bps := b\<rparr>) = vt_queue_ok s" "vt_shares_ok (s\<lparr>vt_fee_bps := b\<rparr>) = vt_shares_ok s"
      "vt_strategies_ok (s\<lparr>vt_fee_bps := b\<rparr>) = vt_strategies_ok s" for b
    by (simp_all add: vt_core_defs vt_total_bps_def vt_getters)
  moreover have "f \<le> 5000 \<Longrightarrow> vt_config_ok (s\<lparr>vt_fee_bps := Some f\<rparr>)"
    using core by (auto simp: vt_core_def vt_config_ok_def vt_getters)
  ultimately show "vt_set_performance_fee e a f s = Inr (v, s') \<Longrightarrow> vt_core s'"
    using core by (auto simp: vt_set_performance_fee_def result_iffs vt_core_def)
qed

lemma vt_core_initialize:
  assumes core: "vt_core s" and run: "vt_initialize e a tok s = Inr (v, s')"
  shows "vt_core s'"
proof -
  from run have none: "vt_admin s = None"
    and s': "s' = s\<lparr>vt_admin := Some a, vt_token := Some tok, vt_paused := Some False,
                vt_fee_bps := Some DEFAULT_PERFORMANCE_FEE_BPS, vt_assets := Some 0, vt_supply := Some 0,
                vt_deposits := Some 0, vt_withdrawals := Some 0, vt_fees := Some 0, vt_hwm := Some 0,
                vt_strategy_count := Some 0, vt_strategy_list := Some [], vt_queue_count := Some 0,
                vt_queue_list := Some [], vt_min_queued := Some DEFAULT_MIN_QUEUED_WITHDRAWAL,
                vt_reentrancy_lock := Some False\<rparr>"
    by (auto simp: vt_initialize_def result_iffs)
  have "vt_user s = (\<lambda>_. None)" "vt_queue_item s = (\<lambda>_. None)" "vt_strategy s = (\<lambda>_. None)" using vt_core_uninit [OF core none] by auto
  then show ?thesis
    by (simp add: s' vt_core_defs vt_total_bps_def vt_getters MAX_STRATEGIES_def DEFAULT_PERFORMANCE_FEE_BPS_def)
qed

subsection \<open>Strategies\<close>

lemma vt_sum_allocation_eq:
  assumes "vt_sum_allocation ids acc s = Inr n" and "\<forall>i c. vt_strategy s i = Some c \<longrightarrow> \<not> sc_is_active c \<longrightarrow> vt_strategy_alloc_bps i s = 0"
  shows "n = acc + sum_list (map (\<lambda>i. vt_strategy_alloc_bps i s) ids)"
  using assms(1)
proof (induction ids arbitrary: acc)
  case (Cons i ids)
  from Cons.prems obtain c where c: "vt_strategy s i = Some c" by (auto simp: result_iffs)
  with Cons.prems assms(2) have "vt_sum_allocation ids (acc + vt_strategy_alloc_bps i s) s = Inr n"
    by (auto simp: result_iffs split: if_splits)
  from Cons.IH [OF this] show ?case by simp
qed simp

lemma vt_total_bps_upd:
  fixes s s' :: "'w vt_state"
  assumes "distinct (vt_strategy_ids s)" and "i \<in> set (vt_strategy_ids s)" and "vt_strategy_list s' = vt_strategy_list s"
    and "vt_alloc_bps s' = (vt_alloc_bps s)(i \<mapsto> v)"
  shows "vt_total_bps s' + vt_strategy_alloc_bps i s = vt_total_bps s + v"
proof -
  have ids: "vt_strategy_ids s' = vt_strategy_ids s" by (simp add: vt_strategy_ids_def assms(3))
  have sums: "vt_total_bps x = (\<Sum>j\<in>set (vt_strategy_ids s). vt_strategy_alloc_bps j x)" if "vt_strategy_ids x = vt_strategy_ids s" for x :: "'w vt_state"
    using assms(1) that by (simp add: vt_total_bps_def sum_list_distinct_conv_sum_set)
  have "(\<Sum>j\<in>set (vt_strategy_ids s) - {i}. vt_strategy_alloc_bps j s') = (\<Sum>j\<in>set (vt_strategy_ids s) - {i}. vt_strategy_alloc_bps j s)"
    by (rule sum.cong) (auto simp: vt_strategy_alloc_bps_def assms(4))
  moreover have "vt_strategy_alloc_bps i s' = v" by (simp add: vt_strategy_alloc_bps_def assms(4))
  ultimately show ?thesis
    using sums [OF ids] sums [OF refl] assms(2) by (simp add: sum.remove)
qed

lemma vt_strategies_ok_upd:
  fixes s s' :: "'w vt_state"
  assumes core: "vt_core s" and "vt_strategy s i = Some c" and "vt_strategy_list s' = vt_strategy_list s"
    and "vt_strategy s' = (vt_strategy s)(i \<mapsto> c')" and "vt_alloc_bps s' = (vt_alloc_bps s)(i \<mapsto> v)"
    and "vt_total_bps s + v \<le> 10000 + vt_strategy_alloc_bps i s" and "\<not> sc_is_active c' \<Longrightarrow> v = 0"
  shows "vt_strategies_ok s'"
proof -
  have ids: "vt_strategy_ids s' = vt_strategy_ids s" by (simp add: vt_strategy_ids_def assms(3))
  have dom: "vt_strategy s j \<noteq> None \<longleftrightarrow> j \<in> set (vt_strategy_ids s)" for j using core by (simp only: vt_core_def vt_strategies_ok_def)
  have i: "i \<in> set (vt_strategy_ids s)" using dom [of i] assms(2) by simp
  have "distinct (vt_strategy_ids s)" using core by (simp add: vt_core_def vt_strategies_ok_def)
  from vt_total_bps_upd [OF this i assms(3,5)] assms(6) have "vt_total_bps s' \<le> 10000" by simp
  moreover have "vt_strategy_alloc_bps j s' = (if j = i then v else vt_strategy_alloc_bps j s)" for j
    by (simp add: vt_strategy_alloc_bps_def assms(5))
  moreover have "vt_strategy s' j \<noteq> None \<longleftrightarrow> j \<in> set (vt_strategy_ids s')" for j using dom [of j] i by (auto simp: assms(4) ids)
  ultimately show ?thesis
    using core assms(7) unfolding vt_core_def vt_strategies_ok_def ids assms(4) by auto
qed

lemma vt_strategies_ok_conf:
  fixes s s' :: "'w vt_state"
  assumes core: "vt_core s" and "vt_strategy s i = Some c" and "vt_strategy_list s' = vt_strategy_list s"
    and "vt_strategy s' = (vt_strategy s)(i \<mapsto> c')" and "vt_alloc_bps s' = vt_alloc_bps s" and "sc_is_active c' = sc_is_active c"
  shows "vt_strategies_ok s'"
proof -
  have dom: "vt_strategy s j \<noteq> None \<longleftrightarrow> j \<in> set (vt_strategy_ids s)" for j using core by (simp only: vt_core_def vt_strategies_ok_def)
  have "vt_strategy_ids s' = vt_strategy_ids s" "\<And>j. vt_strategy_alloc_bps j s' = vt_strategy_alloc_bps j s"
    by (simp_all add: vt_strategy_ids_def vt_strategy_alloc_bps_def assms)
  moreover have "vt_strategy s' j \<noteq> None \<longleftrightarrow> j \<in> set (vt_strategy_ids s)" for j using dom [of j] dom [of i] assms(2) by (auto simp: assms(4))
  ultimately show ?thesis
    using core assms(2,6) unfolding vt_core_def vt_strategies_ok_def vt_total_bps_def by (auto simp: assms(4))
qed

text \<open>What a call on the strategies may change: the list of strategies, one configuration and its allocation.\<close>

lemma vt_core_strategies:
  assumes core: "vt_core s" and "vt_strategies_ok s'" and "vt_admin s \<noteq> None"
    and "vt_admin s' = vt_admin s" and "vt_token s' = vt_token s" and "vt_assets s' = vt_assets s" and "vt_supply s' = vt_supply s"
    and "vt_hwm s' = vt_hwm s" and "vt_fees s' = vt_fees s"
    and "vt_reentrancy_lock s' = vt_reentrancy_lock s" and "vt_fee_bps s' = vt_fee_bps s" and "vt_user s' = vt_user s"
    and "vt_queue_list s' = vt_queue_list s" and "vt_queue_count s' = vt_queue_count s" and "vt_queue_item s' = vt_queue_item s"
  shows "vt_core s'"
proof -
  have "vt_config_ok s'" by (rule vt_config_ok_frame [OF core assms(3)]) (use assms in simp_all)
  moreover have "vt_queue_ok s'" by (rule vt_queue_ok_frame [OF _ _ _ core]) (use assms in simp_all)
  moreover have "vt_shares_ok s'" by (rule vt_shares_ok_frame [OF _ _ _ core]) (use assms in simp_all)
  ultimately show ?thesis using assms(2) by (simp add: vt_core_def)
qed

lemma vt_add_strategy_Inr:
  assumes "vt_add_strategy e a i d s = Inr (v, s')"
  obtains c n where "vt_admin s = Some a" and "vt_strategy s i = None" and "length (vt_strategy_ids s) < MAX_STRATEGIES"
    and "sc_is_active c" and "sc_total_gains c = 0" and "sc_total_losses c = 0"
    and "s' = s\<lparr>vt_strategy := (vt_strategy s)(i \<mapsto> c), vt_alloc_bps := (vt_alloc_bps s)(i \<mapsto> 0), vt_strategy_count := n,
      vt_strategy_list := Some (vt_strategy_ids s @ [i])\<rparr>"
proof -
  let ?c = "\<lparr>sc_strategy_id = i, sc_strategy_address = d, sc_allocated_assets = 0, sc_current_balance = 0, sc_total_gains = 0,
    sc_total_losses = 0, sc_is_active = True, sc_created_at = env_timestamp e, sc_last_harvest_at = 0\<rparr>"
  show thesis
    by (rule that [where c = ?c and n = "Some (vt_strategy_counter s + 1)"])
       (use assms in \<open>auto simp: vt_add_strategy_def result_iffs Let_def vt_strategy_counter_def\<close>)
qed

lemma vt_core_add_strategy:
  assumes core: "vt_core s" and run: "vt_add_strategy e a i d s = Inr (v, s')"
  shows "vt_core s'"
  using run
proof (cases rule: vt_add_strategy_Inr)
  case (1 c n)
  have dom: "vt_strategy s j \<noteq> None \<longleftrightarrow> j \<in> set (vt_strategy_ids s)" for j using core by (simp only: vt_core_def vt_strategies_ok_def)
  have new: "i \<notin> set (vt_strategy_ids s)" using dom [of i] 1(2) by simp
  have "map (\<lambda>j. vt_strategy_alloc_bps j s') (vt_strategy_ids s) = map (\<lambda>j. vt_strategy_alloc_bps j s) (vt_strategy_ids s)"
    using new by (auto simp: 1(7) vt_strategy_alloc_bps_def)
  then have old: "sum_list (map (\<lambda>j. vt_strategy_alloc_bps j s') (vt_strategy_ids s)) = vt_total_bps s" by (simp only: vt_total_bps_def)
  have ids: "vt_strategy_ids s' = vt_strategy_ids s @ [i]" and "vt_strategy_alloc_bps i s' = 0"
    by (simp_all add: 1(7) vt_strategy_ids_def vt_strategy_alloc_bps_def)
  then have total: "vt_total_bps s' = vt_total_bps s" using old by (simp add: vt_total_bps_def [of s'])
  have "vt_strategy s' j \<noteq> None \<longleftrightarrow> j \<in> set (vt_strategy_ids s')" for j using dom [of j] by (auto simp: 1(7) ids [unfolded 1(7)])
  moreover have "distinct (vt_strategy_ids s)" "vt_total_bps s \<le> 10000" using core by (simp_all add: vt_core_def vt_strategies_ok_def)
  moreover have "vt_strategy_alloc_bps j s' = 0" if "vt_strategy s' j = Some x" "\<not> sc_is_active x" for j x
    using that core 1(4) by (auto simp: vt_core_def vt_strategies_ok_def 1(7) vt_strategy_alloc_bps_def split: if_splits)
  ultimately have "vt_strategies_ok s'"
    unfolding vt_strategies_ok_def total using new 1(3) by (auto simp: ids)
  then show ?thesis by (rule vt_core_strategies [OF core]) (use 1(1) in \<open>simp_all add: 1(7)\<close>)
qed

lemma vt_core_remove_strategy:
  assumes core: "vt_core s" and run: "vt_remove_strategy e a i s = Inr (v, s')"
  shows "vt_core s'"
proof -
  from run obtain c where c: "vt_admin s = Some a" "vt_strategy s i = Some c"
      "s' = s\<lparr>vt_strategy := (vt_strategy s)(i \<mapsto> c\<lparr>sc_is_active := False\<rparr>), vt_alloc_bps := (vt_alloc_bps s)(i \<mapsto> 0)\<rparr>"
    by (auto simp: vt_remove_strategy_def result_iffs)
  have "vt_strategies_ok s'"
    by (rule vt_strategies_ok_upd [OF core c(2), where c' = "c\<lparr>sc_is_active := False\<rparr>" and v = 0]) (use core in \<open>auto simp: c(3) vt_core_def vt_strategies_ok_def\<close>)
  then show ?thesis by (rule vt_core_strategies [OF core]) (use c(1) in \<open>simp_all add: c(3)\<close>)
qed

lemma vt_set_strategy_allocation_Inr:
  assumes "vt_set_strategy_allocation e a i n s = Inr (v, s')"
  obtains c b total where "vt_admin s = Some a" and "vt_strategy s i = Some c" and "sc_is_active c" and "vt_total_allocation_bps s = Inr total"
    and "int total - int (vt_strategy_alloc_bps i s) + int n \<le> 10000"
    and "s' = s\<lparr>vt_alloc_bps := (vt_alloc_bps s)(i \<mapsto> n),
      vt_strategy := (vt_strategy s)(i \<mapsto> c\<lparr>sc_allocated_assets := b, sc_current_balance := b\<rparr>)\<rparr>"
proof -
  let ?s1 = "s\<lparr>vt_alloc_bps := (vt_alloc_bps s)(i \<mapsto> n)\<rparr>"
  from assms obtain c total rest new p and u1 u2 u3 u4 :: unit where raw:
      "require_auth VtAuth e a = Inr u1" "vt_assert_admin a s = Inr u2" "vt_load_strategy i s = Inr c"
      "panic_if (\<not> sc_is_active c) VtStrategyNotActive = Inr u3" "vt_total_allocation_bps s = Inr total"
      "vt_sub (int total) (int (vt_strategy_alloc_bps i s)) = Inr rest" "vt_add rest (int n) = Inr new"
      "panic_if (new > VT_BPS_DENOMINATOR) VtTotalAllocationsExceed = Inr u4" "vt_mul (vt_total_assets ?s1) (int n) = Inr p"
      "?s1\<lparr>vt_strategy := (vt_strategy ?s1)(i \<mapsto> c\<lparr>sc_allocated_assets := div_i128 p VT_BPS_DENOMINATOR,
         sc_current_balance := div_i128 p VT_BPS_DENOMINATOR\<rparr>)\<rparr> = s'"
    unfolding vt_set_strategy_allocation_def Let_def and_then_eq_Inr sum.inject prod.inject
    by (elim exE conjE) (rule that)
  show thesis
    by (rule that [where c = c and total = total and b = "div_i128 p VT_BPS_DENOMINATOR"])
       (use raw(2-8) raw(10) [symmetric] in \<open>simp_all add: vt_checks_Inr vt_arith_Inr panic_if_eq_Inr VT_BPS_DENOMINATOR_def\<close>)
qed

lemma vt_core_set_allocation:
  assumes core: "vt_core s" and run: "vt_set_strategy_allocation e a i n s = Inr (v, s')"
  shows "vt_core s'"
  using run
proof (cases rule: vt_set_strategy_allocation_Inr)
  case (1 c b total)
  have "total = vt_total_bps s"
    using vt_sum_allocation_eq [OF 1(4) [unfolded vt_total_allocation_bps_def]] core
    by (simp add: vt_core_def vt_strategies_ok_def vt_total_bps_def)
  with 1(5) have "vt_total_bps s + n \<le> 10000 + vt_strategy_alloc_bps i s" by linarith
  then have "vt_strategies_ok s'"
    by (intro vt_strategies_ok_upd [OF core 1(2), where c' = "c\<lparr>sc_allocated_assets := b, sc_current_balance := b\<rparr>" and v = n]) (use 1(3) in \<open>auto simp: 1(6)\<close>)
  then show ?thesis by (rule vt_core_strategies [OF core]) (use 1(1) in \<open>simp_all add: 1(6)\<close>)
qed

lemma vt_migrate_strategy_Inr:
  assumes "vt_migrate_strategy e a i j s = Inr (v, s')"
  obtains c d where "vt_admin s = Some a" and "vt_strategy s i = Some c" and "sc_is_active c" and "vt_strategy s j = Some d" and "sc_is_active d"
    and "0 < sc_allocated_assets c"
    and "s' = s\<lparr>vt_strategy := (vt_strategy s)(i \<mapsto> c\<lparr>sc_allocated_assets := 0\<rparr>,
      j \<mapsto> d\<lparr>sc_allocated_assets := sc_allocated_assets d + sc_allocated_assets c\<rparr>)\<rparr>"
proof -
  let ?s1 = "\<lambda>c. s\<lparr>vt_strategy := (vt_strategy s)(i \<mapsto> c\<lparr>sc_allocated_assets := 0\<rparr>)\<rparr>"
  from assms obtain c d m and u1 u2 u3 u4 u5 :: unit where raw:
      "require_auth VtAuth e a = Inr u1" "vt_assert_admin a s = Inr u2" "vt_load_strategy i s = Inr c"
      "panic_if (\<not> sc_is_active c) VtSourceStrategyNotActive = Inr u3" "vt_load_strategy j s = Inr d"
      "panic_if (\<not> sc_is_active d) VtTargetStrategyNotActive = Inr u4" "panic_if (sc_allocated_assets c \<le> 0) VtNoAssetsToMigrate = Inr u5"
      "vt_add (sc_allocated_assets d) (sc_allocated_assets c) = Inr m"
      "(?s1 c)\<lparr>vt_strategy := (vt_strategy (?s1 c))(j \<mapsto> d\<lparr>sc_allocated_assets := m\<rparr>)\<rparr> = s'"
    unfolding vt_migrate_strategy_def Let_def and_then_eq_Inr sum.inject prod.inject
    by (elim exE conjE) (rule that)
  show thesis
    by (rule that [where c = c and d = d])
       (use raw(2-8) raw(9) [symmetric] in \<open>simp_all add: vt_checks_Inr vt_arith_Inr panic_if_eq_Inr\<close>)
qed

lemma vt_core_migrate:
  assumes core: "vt_core s" and run: "vt_migrate_strategy e a i j s = Inr (v, s')"
  shows "vt_core s'"
  using run
proof (cases rule: vt_migrate_strategy_Inr)
  case (1 c d)
  let ?s1 = "s\<lparr>vt_strategy := (vt_strategy s)(i \<mapsto> c\<lparr>sc_allocated_assets := 0\<rparr>)\<rparr>"
  have "vt_strategies_ok ?s1" by (rule vt_strategies_ok_conf [OF core 1(2), where c' = "c\<lparr>sc_allocated_assets := 0\<rparr>"]) auto
  then have core1: "vt_core ?s1" by (rule vt_core_strategies [OF core]) (use 1(1) in auto)
  obtain d1 where d1: "vt_strategy ?s1 j = Some d1" "sc_is_active d1" using 1(3,4,5) by (cases "j = i") auto
  have "vt_strategies_ok s'" by (rule vt_strategies_ok_conf [OF core1 d1(1), where c' = "d\<lparr>sc_allocated_assets := sc_allocated_assets d + sc_allocated_assets c\<rparr>"]) (use 1(5) d1(2) in \<open>auto simp: 1(7)\<close>)
  then show ?thesis by (rule vt_core_strategies [OF core]) (use 1(1) in \<open>simp_all add: 1(7)\<close>)
qed

lemma vt_emergency_strategy_withdrawal_Inr:
  assumes "vt_emergency_strategy_withdrawal e a i s = Inr (v, s')"
  obtains c d where "vt_admin s = Some a" and "vt_strategy s i = Some c" and "sc_is_active d = sc_is_active c"
    and "sc_total_gains d = sc_total_gains c" and "sc_total_losses d = sc_total_losses c"
    and "s' = s\<lparr>vt_strategy := (vt_strategy s)(i \<mapsto> d)\<rparr>"
proof -
  from assms obtain c where c: "vt_admin s = Some a" "vt_strategy s i = Some c"
      "s' = s \<or> s' = s\<lparr>vt_strategy := (vt_strategy s)(i \<mapsto> c\<lparr>sc_allocated_assets := 0, sc_current_balance := 0\<rparr>)\<rparr>"
    by (auto simp: vt_emergency_strategy_withdrawal_def result_iffs split: if_splits)
  define d where "d = (if s' = s then c else c\<lparr>sc_allocated_assets := 0, sc_current_balance := 0\<rparr>)"
  have "(vt_strategy s)(i \<mapsto> c) = vt_strategy s" using c(2) by (rule fun_upd_idem)
  then have "s\<lparr>vt_strategy := (vt_strategy s)(i \<mapsto> c)\<rparr> = s" by simp
  with c(3) have "s' = s\<lparr>vt_strategy := (vt_strategy s)(i \<mapsto> d)\<rparr>" by (auto simp: d_def)
  then show thesis by (rule that [OF c(1,2), rotated 3]) (simp_all add: d_def)
qed

lemma vt_core_emergency_strategy:
  assumes core: "vt_core s" and run: "vt_emergency_strategy_withdrawal e a i s = Inr (v, s')"
  shows "vt_core s'"
  using run
proof (cases rule: vt_emergency_strategy_withdrawal_Inr)
  case (1 c d)
  have "vt_strategies_ok s'" by (rule vt_strategies_ok_conf [OF core 1(2), where c' = d]) (use 1(3) in \<open>auto simp: 1(6)\<close>)
  then show ?thesis by (rule vt_core_strategies [OF core]) (use 1(1) in \<open>simp_all add: 1(6)\<close>)
qed

lemma vt_core_harvest:
  assumes core: "vt_core s" and run: "vt_harvest_strategy e i b s = Inr (r, s')"
  shows "vt_core s'"
  using run
proof (cases rule: vt_harvest_Inr)
  case (1 c g l f a)
  have admin: "vt_admin s \<noteq> None" using 1(1) vt_core_uninit [OF core] by (metis option.distinct(1))
  have "vt_strategies_ok s'"
    by (rule vt_strategies_ok_conf [OF core 1(1), of _ "c\<lparr>sc_current_balance := b, sc_total_gains := sc_total_gains c + g,
        sc_total_losses := sc_total_losses c + l, sc_last_harvest_at := env_timestamp e\<rparr>"]) (simp_all add: 1(8))
  moreover have "vt_queue_ok s'" "vt_shares_ok s'"
    by (rule vt_queue_ok_frame [OF _ _ _ core] vt_shares_ok_frame [OF _ _ _ core]; simp add: 1(8))+
  moreover have "vt_config_ok s'"
    using core admin 1(7) vt_coreD(7) [OF core] by (auto simp: vt_core_def vt_config_ok_def 1(8) vt_getters)
  ultimately show ?thesis by (simp add: vt_core_def)
qed

end
