(* ===== verification/Vault_Shares.thy ===== *)
theory Vault_Shares
  imports Vault_Correct
begin

text \<open>
  The Vault as a transition system, and its properties. The contract is checked against a slack, the
  balance less what is recorded as held: no call lowers it. Every call keeps the core of the invariant
  (Vault_Correct) and every trade keeps the price of a share.
\<close>

section \<open>No call lowers the slack\<close>

definition vt_slack :: "'w token_balance \<Rightarrow> address \<Rightarrow> address \<Rightarrow> 'w vt_state \<Rightarrow> int" where
  "vt_slack bal self tok s = bal (vt_tokens s) tok self - vt_held tok s"

lemma vt_inv_slack: "vt_inv bal self w t s \<longleftrightarrow> vt_core s \<and> (\<forall>tok. bal w tok self \<le> vt_slack bal self tok s)"
  by (auto simp: vt_inv_def vt_slack_def algebra_simps)

lemma vt_reported_upd:
  assumes "vt_core s" and "vt_strategy s i = Some c" and "vt_strategy s' = (vt_strategy s)(i \<mapsto> c')"
  shows "vt_reported s' = vt_reported s - (sc_total_gains c - sc_total_losses c) + (sc_total_gains c' - sc_total_losses c')"
  using assms(2) by (simp add: vt_reported_def assms(3) entry_sum_upd vt_core_strategy_finite [OF assms(1)])

lemma vt_held_same:
  "vt_token s' = vt_token s \<Longrightarrow> vt_assets s' = vt_assets s \<Longrightarrow> vt_fees s' = vt_fees s \<Longrightarrow> vt_reported s' = vt_reported s \<Longrightarrow>
   vt_held tok s' = vt_held tok s"
  by (simp add: vt_held_def vt_total_assets_def vt_total_fees_collected_def)

lemma vt_slack_quiet:
  assumes "vt_tokens s' = vt_tokens s" and "vt_token s' = vt_token s" and "vt_assets s' = vt_assets s" and "vt_fees s' = vt_fees s"
    and "vt_reported s' = vt_reported s"
  shows "vt_slack bal self tok s \<le> vt_slack bal self tok s'"
  by (simp add: vt_slack_def assms(1) vt_held_same [OF assms(2-5)])

context token_contract
begin

text \<open>Paying \<open>n\<close> out of the assets and fees, or taking \<open>n\<close> in.\<close>

lemma vt_slack_out:
  assumes "transfer e tok (env_self e) dst n (vt_tokens s) = Some w'" and "vt_token s = Some tok" and "env_self e = self"
    and "vt_tokens s' = w'" and "vt_token s' = vt_token s" and "vt_strategy s' = vt_strategy s"
    and "vt_total_assets s' + vt_total_fees_collected s' = vt_total_assets s + vt_total_fees_collected s - n"
  shows "vt_slack balance self t s \<le> vt_slack balance self t s'"
  using balance_src_ge [OF assms(1), of t self] assms
  by (auto simp: vt_slack_def vt_held_def vt_reported_def split: if_splits)

lemma vt_slack_in:
  assumes "transfer e tok user self n (vt_tokens s) = Some w'" and "vt_token s = Some tok" and "user \<noteq> self"
    and "vt_tokens s' = w'" and "vt_token s' = vt_token s" and "vt_strategy s' = vt_strategy s"
    and "vt_total_assets s' + vt_total_fees_collected s' = vt_total_assets s + vt_total_fees_collected s + n"
  shows "vt_slack balance self t s \<le> vt_slack balance self t s'"
  using transfer_moves [OF assms(1), of t self] assms
  by (auto simp: vt_slack_def vt_held_def vt_reported_def split: if_splits)

lemma vt_slack_trade:
  assumes core: "vt_core s" and "env_self e = self" and "\<not> env_auth e self"
  shows "vt_deposit transfer e user n s = Inr (sh, s') \<Longrightarrow> vt_slack balance self t s \<le> vt_slack balance self t s'"
    and "vt_withdraw transfer e user sh s = Inr (n, s') \<Longrightarrow> vt_slack balance self t s \<le> vt_slack balance self t s'"
    and "vt_emergency_withdraw transfer e user s = Inr (n, s') \<Longrightarrow> vt_slack balance self t s \<le> vt_slack balance self t s'"
    and "vt_process_withdrawal_queue transfer e i s = Inr (n, s') \<Longrightarrow> vt_slack balance self t s \<le> vt_slack balance self t s'"
proof -
  assume "vt_deposit transfer e user n s = Inr (sh, s')"
  then show "vt_slack balance self t s \<le> vt_slack balance self t s'"
  proof (cases rule: vt_deposit_Inr)
    case (1 tok w' hw dd d)
    have "user \<noteq> self" using 1(1) assms(3) by auto
    then show ?thesis
      by (rule vt_slack_in [OF 1(5) [unfolded assms(2)] 1(4)]) (simp_all add: 1(8) vt_total_assets_def vt_total_fees_collected_def)
  qed
next
  assume run: "vt_withdraw transfer e user sh s = Inr (n, s')"
  from run vt_coreD(2) [OF core] show "vt_slack balance self t s \<le> vt_slack balance self t s'"
  proof (cases rule: vt_withdraw_Inr)
    case (1 tok w' dd d)
    show ?thesis
      by (rule vt_slack_out [OF 1(10,8) assms(2)]) (simp_all add: 1(11) vt_total_assets_def vt_total_fees_collected_def)
  qed
next
  assume "vt_emergency_withdraw transfer e user s = Inr (n, s')"
  then show "vt_slack balance self t s \<le> vt_slack balance self t s'"
  proof (cases rule: vt_emergency_withdraw_Inr)
    case (1 tok w' dd d)
    show ?thesis
      by (rule vt_slack_out [OF 1(9,7) assms(2)]) (simp_all add: 1(10) vt_total_assets_def vt_total_fees_collected_def)
  qed
next
  assume "vt_process_withdrawal_queue transfer e i s = Inr (n, s')"
  then show "vt_slack balance self t s \<le> vt_slack balance self t s'"
  proof (cases rule: vt_process_Inr)
    case (1 q tok w' dd)
    show ?thesis
      by (rule vt_slack_out [OF 1(8,6) assms(2)]) (simp_all add: 1(9) vt_total_assets_def vt_total_fees_collected_def)
  qed
qed

lemma vt_slack_admin:
  assumes core: "vt_core s" and "env_self e = self"
  shows "vt_governance_withdraw transfer e a r n s = Inr (v, s') \<Longrightarrow> vt_slack balance self t s \<le> vt_slack balance self t s'"
    and "vt_withdraw_fees transfer e a r s = Inr (v, s') \<Longrightarrow> vt_slack balance self t s \<le> vt_slack balance self t s'"
    and "vt_initialize e a tk s = Inr (v, s') \<Longrightarrow> vt_slack balance self t s \<le> vt_slack balance self t s'"
proof -
  assume "vt_governance_withdraw transfer e a r n s = Inr (v, s')"
  then show "vt_slack balance self t s \<le> vt_slack balance self t s'"
  proof (cases rule: vt_governance_withdraw_Inr)
    case (1 tok w')
    show ?thesis
      by (rule vt_slack_out [OF 1(5,4) assms(2)]) (simp_all add: 1(6) vt_total_assets_def vt_total_fees_collected_def)
  qed
next
  assume "vt_withdraw_fees transfer e a r s = Inr (v, s')"
  then show "vt_slack balance self t s \<le> vt_slack balance self t s'"
  proof (cases rule: vt_withdraw_fees_Inr)
    case (1 tok w')
    show ?thesis
      by (rule vt_slack_out [OF 1(3,2) assms(2)]) (simp_all add: 1(4) vt_total_assets_def vt_total_fees_collected_def)
  qed
next
  assume run: "vt_initialize e a tk s = Inr (v, s')"
  then have "vt_admin s = None" by (auto simp: vt_initialize_def result_iffs)
  with vt_core_uninit [OF core] have "vt_token s = None" "vt_strategy s = (\<lambda>_. None)" by blast+
  with run show "vt_slack balance self t s \<le> vt_slack balance self t s'"
    by (auto simp: vt_initialize_def result_iffs vt_slack_def vt_held_def vt_reported_def vt_getters)
qed

end

lemma vt_slack_harvest:
  assumes core: "vt_core s" and "vt_harvest_strategy e i b s = Inr (r, s')"
  shows "vt_slack bal self tok s \<le> vt_slack bal self tok s'"
  using assms(2)
proof (cases rule: vt_harvest_Inr)
  case (1 c g l f a)
  have f: "0 \<le> f" using 1(3,5) by (auto simp: pos_imp_zdiv_nonneg_iff)
  have "vt_reported s' = vt_reported s + g - l"
    by (subst vt_reported_upd [OF core 1(1)]) (simp_all add: 1(8), auto simp: 1(8))
  with f 1(6) show ?thesis
    by (auto simp: vt_slack_def vt_held_def 1(8) vt_total_assets_def vt_total_fees_collected_def)
qed

lemma vt_slack_strategies:
  assumes core: "vt_core s"
  shows "vt_add_strategy e a i d s = Inr (v, s') \<Longrightarrow> vt_slack bal self tok s \<le> vt_slack bal self tok s'"
    and "vt_remove_strategy e a i s = Inr (v, s') \<Longrightarrow> vt_slack bal self tok s \<le> vt_slack bal self tok s'"
    and "vt_set_strategy_allocation e a i n s = Inr (v, s') \<Longrightarrow> vt_slack bal self tok s \<le> vt_slack bal self tok s'"
    and "vt_migrate_strategy e a i j s = Inr (v, s') \<Longrightarrow> vt_slack bal self tok s \<le> vt_slack bal self tok s'"
    and "vt_emergency_strategy_withdrawal e a i s = Inr (v, s') \<Longrightarrow> vt_slack bal self tok s \<le> vt_slack bal self tok s'"
proof -
  assume "vt_add_strategy e a i d s = Inr (v, s')"
  then show "vt_slack bal self tok s \<le> vt_slack bal self tok s'"
  proof (cases rule: vt_add_strategy_Inr)
    case (1 c n)
    have "vt_reported s' = vt_reported s"
      using 1(2,5,6) by (simp add: 1(7) vt_reported_def entry_sum_upd vt_core_strategy_finite [OF core])
    then show ?thesis by (intro vt_slack_quiet) (simp_all add: 1(7))
  qed
next
  assume "vt_remove_strategy e a i s = Inr (v, s')"
  then obtain c where c: "vt_strategy s i = Some c"
      "s' = s\<lparr>vt_strategy := (vt_strategy s)(i \<mapsto> c\<lparr>sc_is_active := False\<rparr>), vt_alloc_bps := (vt_alloc_bps s)(i \<mapsto> 0)\<rparr>"
    by (auto simp: vt_remove_strategy_def result_iffs)
  have "vt_reported s' = vt_reported s"
    using vt_reported_upd [OF core c(1), of s' "c\<lparr>sc_is_active := False\<rparr>"] by (simp add: c(2))
  then show "vt_slack bal self tok s \<le> vt_slack bal self tok s'" by (intro vt_slack_quiet) (simp_all add: c(2))
next
  assume "vt_set_strategy_allocation e a i n s = Inr (v, s')"
  then show "vt_slack bal self tok s \<le> vt_slack bal self tok s'"
  proof (cases rule: vt_set_strategy_allocation_Inr)
    case (1 c b total)
    have "vt_reported s' = vt_reported s"
      using vt_reported_upd [OF core 1(2), of s' "c\<lparr>sc_allocated_assets := b, sc_current_balance := b\<rparr>"] by (simp add: 1(6))
    then show ?thesis by (intro vt_slack_quiet) (simp_all add: 1(6))
  qed
next
  assume "vt_migrate_strategy e a i j s = Inr (v, s')"
  then show "vt_slack bal self tok s \<le> vt_slack bal self tok s'"
  proof (cases rule: vt_migrate_strategy_Inr)
    case (1 c d)
    have "vt_reported s' = vt_reported s"
      using 1(2,4) vt_core_strategy_finite [OF core] by (auto simp: 1(7) vt_reported_def entry_sum_upd)
    then show ?thesis by (intro vt_slack_quiet) (simp_all add: 1(7))
  qed
next
  assume "vt_emergency_strategy_withdrawal e a i s = Inr (v, s')"
  then show "vt_slack bal self tok s \<le> vt_slack bal self tok s'"
  proof (cases rule: vt_emergency_strategy_withdrawal_Inr)
    case (1 c d)
    have "vt_reported s' = vt_reported s"
      using vt_reported_upd [OF core 1(2), of s' d] 1(4,5) by (simp add: 1(6))
    then show ?thesis by (intro vt_slack_quiet) (simp_all add: 1(6))
  qed
qed

lemma vt_slack_quiet_calls:
  "vt_pause e a s = Inr (v, s') \<Longrightarrow> vt_slack bal self tok s \<le> vt_slack bal self tok s'"
  "vt_unpause e a s = Inr (v, s') \<Longrightarrow> vt_slack bal self tok s \<le> vt_slack bal self tok s'"
  "vt_set_performance_fee e a f s = Inr (v, s') \<Longrightarrow> vt_slack bal self tok s \<le> vt_slack bal self tok s'"
  "vt_queue_withdrawal e user sh s = Inr (i, s') \<Longrightarrow> vt_slack bal self tok s \<le> vt_slack bal self tok s'"
proof -
  show "vt_slack bal self tok s \<le> vt_slack bal self tok s'" if "vt_queue_withdrawal e user sh s = Inr (i, s')"
    using that by (rule vt_queue_withdrawal_Inr) (rule vt_slack_quiet; simp add: vt_reported_def)
qed (rule vt_slack_quiet; auto simp: vt_pause_def vt_unpause_def vt_set_performance_fee_def result_iffs vt_reported_def)+

lemma vt_core_withdraw:
  assumes core: "vt_core s" and run: "vt_withdraw tr e user sh s = Inr (n, s')"
  shows "vt_core s'"
  using run vt_coreD(2) [OF core]
proof (cases rule: vt_withdraw_Inr)
  case (1 tok w' dd d)
  show ?thesis by (rule vt_core_redeem [OF core 1(8,9,2,3,5,11,12)])
qed

lemma vt_core_emergency:
  assumes core: "vt_core s" and run: "vt_emergency_withdraw tr e user s = Inr (n, s')"
  shows "vt_core s'"
  using run
proof (cases rule: vt_emergency_withdraw_Inr)
  case (1 tok w' dd d)
  show ?thesis by (rule vt_core_redeem [OF core 1(7,8,2) order_refl 1(4,10)]) (simp add: 1(11))
qed

lemma vt_core_call:
  assumes core: "vt_core s" and run: "vt_exec tr e c s = Some s'"
  shows "vt_core s'"
  using run
  by (cases c)
     (simp_all only: vt_exec.simps state_of_eq_Some,
      (elim exE, erule vt_core_initialize [OF core] vt_core_deposit [OF core] vt_core_withdraw [OF core] vt_core_emergency [OF core]
        vt_core_governance_withdraw [OF core] vt_core_settings [OF core] vt_core_withdraw_fees [OF core] vt_core_add_strategy [OF core]
        vt_core_remove_strategy [OF core] vt_core_set_allocation [OF core] vt_core_migrate [OF core] vt_core_harvest [OF core]
        vt_core_emergency_strategy [OF core] vt_core_queue_withdrawal [OF core] vt_core_process [OF core])+)

context token_contract
begin

lemma vt_slack_call:
  assumes core: "vt_core s" and adm: "vt_adm self e c" and run: "vt_exec transfer e c s = Some s'"
  shows "vt_slack balance self tok s \<le> vt_slack balance self tok s'"
proof -
  have e: "env_self e = self" "\<not> env_auth e self" using adm by (simp_all add: vt_adm_def)
  from run show ?thesis
    by (cases c)
       (simp_all only: vt_exec.simps state_of_eq_Some,
        (elim exE, erule vt_slack_trade [OF core e] vt_slack_admin [OF core e(1)] vt_slack_harvest [OF core]
          vt_slack_strategies [OF core] vt_slack_quiet_calls)+)
qed

end

lemma vt_core_fresh: "vt_core (vt_fresh w)"
proof -
  have "vt_queue_ok (vt_fresh w)" by (simp add: vt_queue_ok_def vt_fresh_def vt_getters)
  moreover have "vt_shares_ok (vt_fresh w)" by (simp add: vt_shares_ok_def vt_fresh_def vt_getters)
  moreover have "vt_strategies_ok (vt_fresh w)" by (simp add: vt_strategies_ok_def vt_total_bps_def vt_fresh_def vt_getters)
  moreover have "vt_config_ok (vt_fresh w)" by (simp add: vt_config_ok_def vt_fresh_def vt_getters DEFAULT_PERFORMANCE_FEE_BPS_def)
  ultimately show ?thesis by (simp add: vt_core_def)
qed

lemma vt_core_tokens:
  assumes core: "vt_core s"
  shows "vt_core (s\<lparr>vt_tokens := x\<rparr>)"
proof -
  have "vt_config_ok (s\<lparr>vt_tokens := x\<rparr>)" using core by (simp add: vt_core_def vt_config_ok_def vt_getters)
  moreover have "vt_queue_ok (s\<lparr>vt_tokens := x\<rparr>)" "vt_shares_ok (s\<lparr>vt_tokens := x\<rparr>)" "vt_strategies_ok (s\<lparr>vt_tokens := x\<rparr>)"
    by (rule vt_queue_ok_frame [OF _ _ _ core] vt_shares_ok_frame [OF _ _ _ core] vt_strategies_ok_frame [OF _ _ _ core]; simp)+
  ultimately show ?thesis by (simp add: vt_core_def)
qed

sublocale token_contract \<subseteq> vtm: contract_machine "vt_exec transfer" "vt_adm self" "vt_drift balance self"
  "vt_inv balance self w" "vt_fresh w" for self w
proof unfold_locales
  show "vt_inv balance self w 0 (vt_fresh w)"
    by (simp add: vt_inv_def vt_core_fresh) (simp add: vt_held_def vt_fresh_def)
next
  fix t s s'
  assume inv: "vt_inv balance self w t s" and "vt_drift balance self s s'"
  then obtain x where x: "s' = s\<lparr>vt_tokens := x\<rparr>" "\<And>tok. balance (vt_tokens s) tok self \<le> balance x tok self"
    by (auto simp: vt_drift_def)
  have "vt_slack balance self tok s \<le> vt_slack balance self tok s'" for tok
    using x(2) [of tok] vt_held_same [of s' s tok] by (simp add: x(1) vt_slack_def vt_reported_def)
  with inv vt_core_tokens [of s x] show "vt_inv balance self w t s'"
    unfolding vt_inv_slack x(1) by (meson order_trans)
next
  fix e c s s'
  assume inv: "vt_inv balance self w (env_timestamp e) s" and adm: "vt_adm self e c" and run: "vt_exec transfer e c s = Some s'"
  have "vt_core s" using inv by (simp add: vt_inv_def)
  with vt_slack_call [OF this adm run] vt_core_call [OF this run] inv show "vt_inv balance self w (env_timestamp e) s'"
    unfolding vt_inv_slack by (meson order_trans)
qed (simp add: vt_inv_def)

interpretation vtg: reentrancy_guard vt_enter_non_reentrant vt_exit_non_reentrant "\<lambda>s. unwrap_or False (vt_reentrancy_lock s)"
  by unfold_locales (auto simp: vt_enter_non_reentrant_def vt_exit_non_reentrant_def)

context token_contract
begin

lemma vt_reach_inv:
  "reach (vt_exec transfer) (vt_adm self) (vt_drift balance self) (vt_fresh w) t s \<Longrightarrow> vt_inv balance self w t s"
  by (rule vtm.reach_inv)

lemma vt_reach_core:
  "reach (vt_exec transfer) (vt_adm self) (vt_drift balance self) (vt_fresh w) t s \<Longrightarrow> vt_core s"
  using vt_reach_inv by (simp add: vt_inv_def)

end

section \<open>The price of a share\<close>

text \<open>Calls that trade shares or leave the pool alone, as opposed to the two that change the assets by decree.\<close>

fun vt_fair :: "vt_call \<Rightarrow> bool" where
  "vt_fair (VtGovernanceWithdraw a r n) = False"
| "vt_fair (VtHarvestStrategy i b) = False"
| "vt_fair c = True"

lemma vt_price_redeem:
  fixes a t sh n :: int
  assumes "n * t \<le> sh * a"
  shows "a * (t - sh) \<le> (a - n) * t"
  using assms by (simp add: algebra_simps)

lemma vt_price_trade:
  assumes core: "vt_core s" and t: "0 < vt_total_supply s"
  shows "vt_deposit tr e user n s = Inr (sh, s') \<Longrightarrow> vt_total_assets s * vt_total_supply s' \<le> vt_total_assets s' * vt_total_supply s"
    and "vt_withdraw tr e user sh s = Inr (n, s') \<Longrightarrow> vt_total_assets s * vt_total_supply s' \<le> vt_total_assets s' * vt_total_supply s"
    and "vt_emergency_withdraw tr e user s = Inr (n, s') \<Longrightarrow> vt_total_assets s * vt_total_supply s' \<le> vt_total_assets s' * vt_total_supply s"
    and "vt_process_withdrawal_queue tr e i s = Inr (n, s') \<Longrightarrow> vt_total_assets s * vt_total_supply s' \<le> vt_total_assets s' * vt_total_supply s"
proof -
  assume "vt_deposit tr e user n s = Inr (sh, s')"
  then show "vt_total_assets s * vt_total_supply s' \<le> vt_total_assets s' * vt_total_supply s"
  proof (cases rule: vt_deposit_Inr)
    case (1 tok w' hw dd d)
    have "vt_total_assets s * sh \<le> n * vt_total_supply s" by (rule vt_shares_for_deposit_bounds(2) [OF 1(3,2) t])
    then show ?thesis by (simp add: 1(8) vt_total_assets_def vt_total_supply_def algebra_simps)
  qed
next
  have redeem: "vt_total_assets s * vt_total_supply s' \<le> vt_total_assets s' * vt_total_supply s"
    if "vt_calculate_assets_for_withdrawal k (vt_total_assets s) (vt_total_supply s) = Inr m" "0 < m" "0 < k"
      "vt_total_supply s' = vt_total_supply s - k" "vt_total_assets s' = vt_total_assets s - m" for k m
    unfolding that(4,5) by (rule vt_price_redeem) (rule vt_assets_for_bounds(3) [OF that(1,2,3) t])
  {
    assume run: "vt_withdraw tr e user sh s = Inr (n, s')"
    from run vt_coreD(2) [OF core] show "vt_total_assets s * vt_total_supply s' \<le> vt_total_assets s' * vt_total_supply s"
    proof (cases rule: vt_withdraw_Inr)
      case (1 tok w' dd d)
      show ?thesis by (rule redeem [OF 1(5,9,2)]) (simp_all add: 1(11) vt_total_assets_def vt_total_supply_def)
    qed
  next
    assume "vt_emergency_withdraw tr e user s = Inr (n, s')"
    then show "vt_total_assets s * vt_total_supply s' \<le> vt_total_assets s' * vt_total_supply s"
    proof (cases rule: vt_emergency_withdraw_Inr)
      case (1 tok w' dd d)
      show ?thesis by (rule redeem [OF 1(4,8,2)]) (simp_all add: 1(10) vt_total_assets_def vt_total_supply_def)
    qed
  next
    assume "vt_process_withdrawal_queue tr e i s = Inr (n, s')"
    then show "vt_total_assets s * vt_total_supply s' \<le> vt_total_assets s' * vt_total_supply s"
    proof (cases rule: vt_process_Inr)
      case (1 q tok w' dd)
      show ?thesis
        by (rule redeem [OF 1(3,7) vt_core_queue(3) [OF core 1(1)]]) (simp_all add: 1(9) vt_total_assets_def vt_total_supply_def)
    qed
  }
qed

lemma vt_pool_same:
  assumes "vt_exec tr e c s = Some s'"
    and "\<And>x y. c \<noteq> VtInitialize x y" and "\<And>x y. c \<noteq> VtDeposit x y" and "\<And>x y. c \<noteq> VtWithdraw x y" and "\<And>x. c \<noteq> VtEmergencyWithdraw x"
    and "\<And>x. c \<noteq> VtProcessWithdrawalQueue x" and "vt_fair c"
  shows "vt_assets s' = vt_assets s \<and> vt_supply s' = vt_supply s"
proof (cases c)
  case (VtQueueWithdrawal u n)
  with assms(1) show ?thesis by (auto simp: state_of_eq_Some elim!: vt_queue_withdrawal_Inr)
next
  case (VtWithdrawFees a r)
  with assms(1) show ?thesis by (auto simp: state_of_eq_Some elim!: vt_withdraw_fees_Inr)
next
  case (VtAddStrategy a i d)
  with assms(1) show ?thesis by (auto simp: state_of_eq_Some elim!: vt_add_strategy_Inr)
next
  case (VtSetStrategyAllocation a i n)
  with assms(1) show ?thesis by (auto simp: state_of_eq_Some elim!: vt_set_strategy_allocation_Inr)
next
  case (VtMigrateStrategy a i j)
  with assms(1) show ?thesis by (auto simp: state_of_eq_Some elim!: vt_migrate_strategy_Inr)
next
  case (VtEmergencyStrategyWithdrawal a i)
  with assms(1) show ?thesis by (auto simp: state_of_eq_Some elim!: vt_emergency_strategy_withdrawal_Inr)
qed (use assms in \<open>auto simp: state_of_eq_Some vt_pause_def vt_unpause_def vt_set_performance_fee_def vt_remove_strategy_def result_iffs\<close>)

lemma vt_price_call:
  assumes core: "vt_core s" and t: "0 < vt_total_supply s" and run: "vt_exec tr e c s = Some s'" and fair: "vt_fair c"
  shows "vt_total_assets s * vt_total_supply s' \<le> vt_total_assets s' * vt_total_supply s"
proof (cases c)
  case (VtInitialize a k)
  with run have "vt_admin s = None" by (auto simp: state_of_eq_Some vt_initialize_def result_iffs)
  with t vt_core_uninit [OF core] show ?thesis by simp
next
  case (VtDeposit u n)
  with run vt_price_trade(1) [OF core t] show ?thesis by (auto simp: state_of_eq_Some)
next
  case (VtWithdraw u n)
  with run vt_price_trade(2) [OF core t] show ?thesis by (auto simp: state_of_eq_Some)
next
  case (VtEmergencyWithdraw u)
  with run vt_price_trade(3) [OF core t] show ?thesis by (auto simp: state_of_eq_Some)
next
  case (VtProcessWithdrawalQueue i)
  with run vt_price_trade(4) [OF core t] show ?thesis by (auto simp: state_of_eq_Some)
qed (use vt_pool_same [OF run _ _ _ _ _ fair] fair in \<open>simp_all add: vt_total_assets_def vt_total_supply_def\<close>)

section \<open>A sample deployment\<close>

definition vt_env :: "nat \<Rightarrow> env" where
  "vt_env t = \<lparr>env_timestamp = t, env_auth = (\<lambda>a. a \<noteq> Addr 0), env_self = Addr 0, env_sequence = 0\<rparr>"

lemma vt_env_simps [simp]:
  "env_timestamp (vt_env t) = t" "env_auth (vt_env t) a = (a \<noteq> Addr 0)" "env_self (vt_env t) = Addr 0"
  by (simp_all add: vt_env_def)

definition vt_world :: mock_world where
  "vt_world = (\<lambda>_. Map.empty)(Addr 50 := [Addr 1 \<mapsto> 10000, Addr 2 \<mapsto> 10000])"

definition vt_demo_calls :: "(env \<times> vt_call) list" where
  "vt_demo_calls =
     [(vt_env 1, VtInitialize (Addr 7) (Addr 50)),
      (vt_env 2, VtDeposit (Addr 1) 10000),
      (vt_env 3, VtDeposit (Addr 2) 5000),
      (vt_env 4, VtAddStrategy (Addr 7) ''s'' (Addr 9)),
      (vt_env 5, VtSetStrategyAllocation (Addr 7) ''s'' 5000),
      (vt_env 6, VtHarvestStrategy ''s'' 8500),
      (vt_env 7, VtQueueWithdrawal (Addr 2) 1500)]"

definition vt_demo_strategy :: strategy_config where
  "vt_demo_strategy = \<lparr>sc_strategy_id = ''s'', sc_strategy_address = Addr 9, sc_allocated_assets = 7500, sc_current_balance = 8500,
     sc_total_gains = 1000, sc_total_losses = 0, sc_is_active = True, sc_created_at = 4, sc_last_harvest_at = 6\<rparr>"

definition vt_demo :: "mock_world vt_state" where
  "vt_demo = \<lparr>vt_admin = Some (Addr 7), vt_token = Some (Addr 50), vt_paused = Some False, vt_fee_bps = Some 2000,
     vt_assets = Some 15800, vt_supply = Some 15000, vt_deposits = Some 15000, vt_withdrawals = Some 0, vt_fees = Some 200,
     vt_hwm = Some 15800,
     vt_user = [Addr 1 \<mapsto> \<lparr>ud_shares = 10000, ud_total_deposited = 10000, ud_total_withdrawn = 0, ud_last_deposit_at = 2, ud_last_withdrawal_at = 0\<rparr>,
                Addr 2 \<mapsto> \<lparr>ud_shares = 3500, ud_total_deposited = 5000, ud_total_withdrawn = 0, ud_last_deposit_at = 3, ud_last_withdrawal_at = 7\<rparr>],
     vt_strategy_count = Some 1, vt_strategy = [''s'' \<mapsto> vt_demo_strategy], vt_strategy_list = Some [''s''], vt_alloc_bps = [''s'' \<mapsto> 5000],
     vt_queue_count = Some 1,
     vt_queue_item = [1 \<mapsto> \<lparr>qi_request_id = 1, qi_user = Addr 2, qi_shares = 1500, qi_estimated_assets = 1580, qi_requested_at = 7, qi_processed = False\<rparr>],
     vt_queue_list = Some [1], vt_min_queued = Some 1000, vt_reentrancy_lock = Some False,
     vt_tokens = vt_world(Addr 50 := [Addr 1 \<mapsto> 0, Addr 2 \<mapsto> 5000, Addr 0 \<mapsto> 15000])\<rparr>"

lemmas vt_eval = vt_initialize_def vt_deposit_def vt_withdraw_def vt_emergency_withdraw_def vt_add_strategy_def
  vt_set_strategy_allocation_def vt_harvest_strategy_def vt_queue_withdrawal_def vt_process_withdrawal_queue_def
  vt_calculate_shares_for_deposit_def vt_calculate_assets_for_withdrawal_def vt_raise_high_water_mark_def vt_withdrawal_fee_def
  vt_harvest_fee_def vt_harvested_assets_def vt_collect_fee_def vt_total_allocation_bps_def vt_next_withdrawal_queue_id_def
  vt_transfer_token_def vt_transfer_token_unchecked_def vt_enter_non_reentrant_def vt_exit_non_reentrant_def vt_assert_admin_def
  vt_get_admin_def vt_get_token_def vt_load_strategy_def vt_load_queue_item_def vt_add_def vt_sub_def vt_mul_def vt_getters
  require_auth_def call_token_def mock_world_transfer_def mock_transfer_def mock_balance_def mock_world_balance_def div_i128_nonneg
  VT_BPS_DENOMINATOR_def DEFAULT_PERFORMANCE_FEE_BPS_def DEFAULT_MIN_QUEUED_WITHDRAWAL_def MAX_STRATEGIES_def Let_def arith_defs

lemma vt_demo_run: "run_calls (vt_exec mock_world_transfer) vt_demo_calls (vt_fresh vt_world) = vt_demo"
  by (simp add: vt_demo_calls_def vt_demo_def vt_demo_strategy_def vt_world_def vt_fresh_def vt_eval)

lemma vt_demo_reach:
  "reach (vt_exec mock_world_transfer) (vt_adm (Addr 0)) (vt_drift mock_world_balance (Addr 0)) (vt_fresh vt_world) 7 vt_demo"
  using reach_run [of "vt_adm (Addr 0)" vt_demo_calls "vt_exec mock_world_transfer" "vt_drift mock_world_balance (Addr 0)" "vt_fresh vt_world"]
  by (simp add: vt_demo_run) (simp add: vt_demo_calls_def vt_adm_def)

section \<open>Properties\<close>

lemma vt_sum_allocation_total:
  assumes "\<And>i. i \<in> set ids \<Longrightarrow> vt_strategy s i \<noteq> None" and "acc + sum_list (map (\<lambda>i. vt_strategy_alloc_bps i s) ids) \<le> u32_max"
  shows "\<exists>n. vt_sum_allocation ids acc s = Inr n"
  using assms
proof (induction ids arbitrary: acc)
  case (Cons i ids)
  from Cons.prems(1) [of i] obtain c where c: "vt_strategy s i = Some c" by auto
  have "\<exists>n. vt_sum_allocation ids (acc + vt_strategy_alloc_bps i s) s = Inr n" and "\<exists>n. vt_sum_allocation ids acc s = Inr n"
    by (rule Cons.IH; use Cons.prems in auto)+
  with c Cons.prems(2) show ?case by (auto simp: vt_load_strategy_def checked_add_u32_def)
qed simp

text \<open>
  C25. Shares are conserved. In every reachable state the share supply is the sum of the users' shares and
  of the shares in open withdrawal requests, no user has negative shares, the requests are numbered from
  one in the order of the queue, and the strategies are at most 20 with allocations of at most 100
  percent in total, which the contract can compute.
\<close>

theorem vt_shares_conserved:
  assumes "token_contract tr bal" and "reach (vt_exec tr) (vt_adm self) (vt_drift bal self) (vt_fresh w) t s"
  shows "vt_total_supply s = entry_sum ud_shares (vt_user s) + entry_sum (\<lambda>q. if qi_processed q then 0 else qi_shares q) (vt_queue_item s) \<and>
    (\<forall>u. 0 \<le> ud_shares (vt_load_user_deposit u s) \<and> ud_shares (vt_load_user_deposit u s) \<le> vt_total_supply s) \<and>
    vt_withdrawal_queue_ids s = map Suc [0..<vt_withdrawal_queue_counter s] \<and>
    (\<forall>i. vt_queue_item s i \<noteq> None \<longleftrightarrow> i \<in> set (vt_withdrawal_queue_ids s)) \<and>
    distinct (vt_strategy_ids s) \<and> length (vt_strategy_ids s) \<le> 20 \<and>
    (\<exists>n. n \<le> 10000 \<and> vt_total_allocation_bps s = Inr n)"
proof -
  have core: "vt_core s" by (rule token_contract.vt_reach_core [OF assms])
  have "vt_open = (\<lambda>q. if qi_processed q then 0 else qi_shares q)" by (simp add: vt_open_def fun_eq_iff)
  moreover have "0 \<le> ud_shares (vt_load_user_deposit u s) \<and> ud_shares (vt_load_user_deposit u s) \<le> vt_total_supply s" for u
    using vt_shares_of_nonneg [OF core, of u] vt_shares_of_le_supply [OF core, of u] by (simp add: vt_shares_of_def)
  moreover have ids: "vt_withdrawal_queue_ids s = map Suc [0..<vt_withdrawal_queue_counter s]"
    and dom: "\<And>i. vt_queue_item s i \<noteq> None \<longleftrightarrow> 1 \<le> i \<and> i \<le> vt_withdrawal_queue_counter s"
    using core by (simp_all only: vt_core_def vt_queue_ok_def)
  moreover have "set (map Suc [0..<n]) = {1..n}" for n using image_Suc_atLeastLessThan [of 0 n] by auto
  moreover have strat: "distinct (vt_strategy_ids s)" "length (vt_strategy_ids s) \<le> MAX_STRATEGIES" "vt_total_bps s \<le> 10000"
      "\<And>i. vt_strategy s i \<noteq> None \<longleftrightarrow> i \<in> set (vt_strategy_ids s)"
    using core by (simp_all only: vt_core_def vt_strategies_ok_def)
  moreover have "\<exists>n. n \<le> 10000 \<and> vt_total_allocation_bps s = Inr n"
  proof -
    obtain n where n: "vt_sum_allocation (vt_strategy_ids s) 0 s = Inr n"
      using vt_sum_allocation_total [of "vt_strategy_ids s" s 0] strat(3,4) by (auto simp: vt_total_bps_def u32_max_def)
    then have "n = vt_total_bps s"
      using vt_sum_allocation_eq [OF n] core by (simp add: vt_core_def vt_strategies_ok_def vt_total_bps_def)
    with n strat(3) show ?thesis by (simp add: vt_total_allocation_bps_def)
  qed
  ultimately show ?thesis
    using vt_coreD(6) [OF core] by (simp add: MAX_STRATEGIES_def del: upt_Suc)
qed

theorem vt_shares_conserved_witness:
  "vt_total_supply vt_demo = entry_sum ud_shares (vt_user vt_demo) + entry_sum (\<lambda>q. if qi_processed q then 0 else qi_shares q) (vt_queue_item vt_demo) \<and>
   vt_total_supply vt_demo = 15000"
  using vt_shares_conserved [OF mock.token_contract_axioms vt_demo_reach] by (simp add: vt_demo_def vt_total_supply_def)

text \<open>
  Assets and fees are backed up to reports. Beyond its initial balance the vault holds at least its
  recorded assets and fees less the net gain reported by the strategies, whatever users and the
  administrator do; and the assets never exceed the high-water mark.
\<close>

theorem vt_backed:
  assumes "token_contract tr bal" and "reach (vt_exec tr) (vt_adm self) (vt_drift bal self) (vt_fresh w) t s" and "vt_token s = Some tok"
  shows "bal w tok self + vt_total_assets s + vt_total_fees_collected s
      \<le> bal (vt_tokens s) tok self + entry_sum (\<lambda>c. sc_total_gains c - sc_total_losses c) (vt_strategy s) \<and>
    0 \<le> vt_total_fees_collected s \<and> vt_total_assets s \<le> vt_high_water_mark s"
proof -
  have inv: "vt_core s" "bal w tok self + vt_held tok s \<le> bal (vt_tokens s) tok self"
    using token_contract.vt_reach_inv [OF assms(1,2)] by (auto simp: vt_inv_def)
  from inv(2) assms(3) vt_coreD(2,5) [OF inv(1)] show ?thesis by (simp add: vt_held_def vt_reported_def)
qed

theorem vt_backed_witness:
  "mock_world_balance vt_world (Addr 50) (Addr 0) + vt_total_assets vt_demo + vt_total_fees_collected vt_demo
      \<le> mock_world_balance (vt_tokens vt_demo) (Addr 50) (Addr 0) + entry_sum (\<lambda>c. sc_total_gains c - sc_total_losses c) (vt_strategy vt_demo) \<and>
   vt_total_assets vt_demo = 15800"
  using vt_backed [OF mock.token_contract_axioms vt_demo_reach, of "Addr 50"] by (simp add: vt_demo_def vt_total_assets_def)

text \<open>
  C4. The price of a share never drops by a trade. In a reachable state with shares outstanding, no call
  other than a strategy report and the administrator's \<open>governance_withdraw\<close> lowers the assets per
  share: deposits, withdrawals, emergency withdrawals and the processing of requests round in favour of
  the vault.
\<close>

theorem vt_price_never_drops:
  assumes "token_contract tr bal" and "reach (vt_exec tr) (vt_adm self) (vt_drift bal self) (vt_fresh w) t s"
    and "0 < vt_total_supply s" and "vt_exec tr e c s = Some s'" and "vt_fair c"
  shows "vt_total_assets s * vt_total_supply s' \<le> vt_total_assets s' * vt_total_supply s"
  by (rule vt_price_call [OF token_contract.vt_reach_core [OF assms(1,2)] assms(3,4,5)])

theorem vt_price_never_drops_witness:
  "\<exists>s'. vt_exec mock_world_transfer (vt_env 8) (VtDeposit (Addr 2) 1000) vt_demo = Some s' \<and>
     vt_total_assets vt_demo * vt_total_supply s' \<le> vt_total_assets s' * vt_total_supply vt_demo \<and> vt_total_supply s' = 15949"
proof -
  obtain s' where run: "vt_exec mock_world_transfer (vt_env 8) (VtDeposit (Addr 2) 1000) vt_demo = Some s'" and "vt_total_supply s' = 15949"
    by (simp add: vt_demo_def vt_demo_strategy_def vt_eval)
  moreover have "0 < vt_total_supply vt_demo" by (simp add: vt_demo_def vt_total_supply_def)
  ultimately show ?thesis using vt_price_never_drops [OF mock.token_contract_axioms vt_demo_reach _ run] by simp
qed

text \<open>The withdrawal without the performance fee that the contract provides for.\<close>

definition vt_withdraw_free :: "'w token_transfer \<Rightarrow> env \<Rightarrow> address \<Rightarrow> i128 \<Rightarrow> 'w vt_state \<Rightarrow> vt_error + i128 \<times> 'w vt_state" where
  "vt_withdraw_free tr e user shares s =
     and_then (require_auth VtAuth e user) (\<lambda>_.
     and_then (panic_if (shares \<le> 0) VtSharesMustBePositive) (\<lambda>_.
     let d = vt_load_user_deposit user s in
     and_then (panic_if (ud_shares d < shares) VtInsufficientShares) (\<lambda>_.
     and_then (panic_if (vt_total_supply s \<le> 0) VtNoAssetsInVault) (\<lambda>_.
     and_then (vt_calculate_assets_for_withdrawal shares (vt_total_assets s) (vt_total_supply s)) (\<lambda>assets.
     and_then (vt_sub (vt_total_supply s) shares) (\<lambda>supply.
     and_then (vt_sub (vt_total_assets s) assets) (\<lambda>rest.
     and_then (vt_add (vt_total_withdrawals s) assets) (\<lambda>withdrawals.
     and_then (vt_sub (ud_shares d) shares) (\<lambda>user_shares.
     and_then (vt_add (ud_total_withdrawn d) assets) (\<lambda>withdrawn.
     let s = s\<lparr>vt_supply := Some supply, vt_assets := Some rest, vt_withdrawals := Some withdrawals, vt_user := (vt_user s)(user \<mapsto>
               d\<lparr>ud_shares := user_shares, ud_total_withdrawn := withdrawn, ud_last_withdrawal_at := env_timestamp e\<rparr>)\<rparr> in
     and_then (vt_get_token s) (\<lambda>token.
     and_then (vt_transfer_token tr e token (env_self e) user assets s) (\<lambda>s.
     Inr (assets, s)))))))))))))"

lemma vt_assets_for_no_fee:
  "and_then (vt_calculate_assets_for_withdrawal sh a t) (\<lambda>g. and_then (vt_sub g 0) (k g)) =
   and_then (vt_calculate_assets_for_withdrawal sh a t) (\<lambda>g. k g g)"
  by (rule and_then_cong [OF refl]) (auto simp: vt_assets_for_Inr vt_sub_def checked_sub_i128_def narrow_i128_def)

text \<open>
  Withdrawals are free of the performance fee. In every reachable state \<open>withdraw\<close> is the withdrawal
  without a fee, on every input and with the same errors: the fee is charged on assets above the
  high-water mark, and every operation that raises the assets raises the mark with them.
\<close>

theorem vt_withdraw_never_charges:
  assumes "token_contract tr bal" and "reach (vt_exec tr) (vt_adm self) (vt_drift bal self) (vt_fresh w) t s"
  shows "vt_withdraw tr e user shares s = vt_withdraw_free tr e user shares s"
proof -
  have fee: "vt_withdrawal_fee s = Inr 0"
    by (rule vt_withdrawal_fee_zero [OF vt_coreD(2) [OF token_contract.vt_reach_core [OF assms]]])
  show ?thesis
    unfolding vt_withdraw_def vt_withdraw_free_def Let_def fee and_then_Inr vt_assets_for_no_fee by simp
qed

theorem vt_withdraw_never_charges_witness:
  "vt_withdraw mock_world_transfer (vt_env 8) (Addr 1) 5000 vt_demo = vt_withdraw_free mock_world_transfer (vt_env 8) (Addr 1) 5000 vt_demo \<and>
   (\<exists>s'. vt_withdraw_free mock_world_transfer (vt_env 8) (Addr 1) 5000 vt_demo = Inr (5266, s'))"
  using vt_withdraw_never_charges [OF mock.token_contract_axioms vt_demo_reach, of "vt_env 8" "Addr 1" 5000]
  by (simp add: vt_withdraw_free_def vt_demo_def vt_eval)

text \<open>
  Depositing and withdrawing again. From a reachable state with shares outstanding (or no assets),
  a deposit followed by the withdrawal of the shares it minted restores the supply and the user's
  shares, never returns more than was paid in, and leaves the difference to the other shareholders.
\<close>

theorem vt_deposit_withdraw_roundtrip:
  assumes "token_contract tr bal" and "reach (vt_exec tr) (vt_adm self) (vt_drift bal self) (vt_fresh w) t s"
    and "0 < vt_total_supply s \<or> vt_total_assets s \<le> 0"
    and "vt_deposit tr e user n s = Inr (sh, s1)" and "vt_withdraw tr e' user sh s1 = Inr (m, s2)"
  shows "m \<le> n \<and> vt_total_supply s2 = vt_total_supply s \<and> vt_total_assets s2 = vt_total_assets s + (n - m) \<and>
    ud_shares (vt_load_user_deposit user s2) = ud_shares (vt_load_user_deposit user s)"
proof -
  have core: "vt_core s" by (rule token_contract.vt_reach_core [OF assms(1,2)])
  have core1: "vt_core s1" by (rule vt_core_deposit [OF core assms(4)])
  have T: "0 \<le> vt_total_supply s" using vt_shares_of_nonneg [OF core] vt_shares_of_le_supply [OF core] by (rule order_trans)
  from assms(4) show ?thesis
  proof (cases rule: vt_deposit_Inr)
    case (1 tok w' hw dd d)
    note b = vt_shares_for_deposit_bounds [OF 1(3,2)]
    have s1: "vt_total_assets s1 = vt_total_assets s + n" "vt_total_supply s1 = vt_total_supply s + sh"
        "vt_shares_of user s1 = vt_shares_of user s + sh"
      by (simp_all add: 1(8,10) vt_shares_of_def vt_getters)
    from assms(5) vt_coreD(2) [OF core1] show ?thesis
    proof (cases rule: vt_withdraw_Inr)
      case (1 tok' w2 dd2 d2)
      have "m * (vt_total_supply s + sh) \<le> sh * (vt_total_assets s + n)"
        using vt_assets_for_bounds(3) [OF 1(5,9,2,4)] by (simp add: s1)
      also have "\<dots> \<le> n * (vt_total_supply s + sh)"
      proof (cases "0 < vt_total_supply s")
        case True
        with b(2) show ?thesis by (simp add: algebra_simps)
      next
        case False
        with assms(3) T b(3) \<open>0 < sh\<close> have "sh = n" "vt_total_supply s = 0" "vt_total_assets s \<le> 0" by auto
        with \<open>0 < sh\<close> show ?thesis by (simp add: mult_left_mono)
      qed
      finally have "m \<le> n" using T 1(2) by (simp add: mult_le_cancel_right)
      moreover have "vt_total_supply s2 = vt_total_supply s1 - sh" "vt_total_assets s2 = vt_total_assets s1 - m"
          "vt_load_user_deposit user s2 = d2"
        by (simp_all add: 1(11) vt_getters)
      ultimately show ?thesis using 1(12) s1 by (simp add: vt_shares_of_def)
    qed
  qed
qed

theorem vt_deposit_withdraw_roundtrip_witness:
  "\<exists>s1 s2. vt_deposit mock_world_transfer (vt_env 8) (Addr 2) 1000 vt_demo = Inr (949, s1) \<and>
     vt_withdraw mock_world_transfer (vt_env 9) (Addr 2) 949 s1 = Inr (999, s2) \<and> vt_total_supply s2 = 15000 \<and> vt_total_assets s2 = 15801"
proof -
  obtain s1 s2 where run: "vt_deposit mock_world_transfer (vt_env 8) (Addr 2) 1000 vt_demo = Inr (949, s1)"
      "vt_withdraw mock_world_transfer (vt_env 9) (Addr 2) 949 s1 = Inr (999, s2)"
    by (simp add: vt_demo_def vt_demo_strategy_def vt_eval)
  moreover have "0 < vt_total_supply vt_demo \<or> vt_total_assets vt_demo \<le> 0" "vt_total_supply vt_demo = 15000" "vt_total_assets vt_demo = 15800"
    by (simp_all add: vt_demo_def vt_total_supply_def vt_total_assets_def)
  ultimately show ?thesis
    using vt_deposit_withdraw_roundtrip [OF mock.token_contract_axioms vt_demo_reach _ run] by auto
qed

text \<open>
  The exit works while gains are not only reported. In a reachable state in which the reported gains
  do not exceed the reported losses, a shareholder's \<open>emergency_withdraw\<close> pays the proportional part of
  the assets, rounded down, whenever it is positive: the vault has the tokens and neither the pause nor
  the other shareholders stand in the way (on a token that honours funded payments, within the range
  of \<open>i128\<close>).
\<close>

theorem vt_exit_succeeds:
  assumes "live_token tr bal" and "reach (vt_exec tr) (vt_adm self) (vt_drift bal self) (vt_fresh w) t s"
    and "env_self e = self" and "env_auth e user" and "vt_token s = Some tok" and "0 \<le> bal w tok self"
    and "entry_sum (\<lambda>c. sc_total_gains c - sc_total_losses c) (vt_strategy s) \<le> 0"
    and "sh = ud_shares (vt_load_user_deposit user s)" and "0 < sh"
    and "n = sh * vt_total_assets s div vt_total_supply s" and "0 < n" and "in_i128 (sh * vt_total_assets s)"
    and "in_i128 (vt_total_withdrawals s + n)" and "in_i128 (ud_total_withdrawn (vt_load_user_deposit user s) + n)"
    and "in_i128 (bal (vt_tokens s) tok user + n)"
  shows "\<exists>s'. vt_emergency_withdraw tr e user s = Inr (n, s') \<and> ud_shares (vt_load_user_deposit user s') = 0"
proof -
  have tc: "token_contract tr bal" using assms(1) by (rule live_token.axioms)
  have inv: "vt_core s" "bal w tok self + vt_held tok s \<le> bal (vt_tokens s) tok self"
    using token_contract.vt_reach_inv [OF tc assms(2)] by (auto simp: vt_inv_def)
  note core = inv(1)
  have T: "sh \<le> vt_total_supply s" "0 < vt_total_supply s"
    using vt_shares_of_le_supply [OF core, of user] assms(8,9) by (simp_all add: vt_shares_of_def)
  have A: "0 < vt_total_assets s"
  proof (rule ccontr)
    assume "\<not> 0 < vt_total_assets s"
    with assms(9) T(2) have "sh * vt_total_assets s div vt_total_supply s \<le> 0"
      by (metis div_nonpos_pos_le0 linorder_not_less mult_nonneg_nonpos order_less_imp_le)
    with assms(10,11) show False by simp
  qed
  have "n \<le> vt_total_assets s"
    using div_fraction_bounds [of "vt_total_assets s" sh "vt_total_supply s"] A T assms(9,10) by (simp add: mult.commute)
  moreover have "vt_total_assets s \<le> bal (vt_tokens s) tok self"
    using inv(2) assms(5,6,7) vt_coreD(5) [OF core] by (simp add: vt_held_def vt_reported_def)
  ultimately obtain w' where pay: "tr e tok self user n (vt_tokens s) = Some w'"
    using live_token.self_payment_succeeds [OF assms(1,11), of "vt_tokens s" tok e user] assms(3,15) by auto
  have fits: "in_i128 (vt_total_supply s - sh)" "in_i128 (vt_total_assets s - n)" "in_i128 n"
    using in_i128_nonneg [OF vt_coreD(8) [OF core]] in_i128_nonneg [OF vt_coreD(7) [OF core]] \<open>n \<le> vt_total_assets s\<close> T assms(9,11) by simp_all
  have "vt_calculate_assets_for_withdrawal sh (vt_total_assets s) (vt_total_supply s) = Inr n"
    using assms(9,10,12) T(2) A fits(3) by (simp add: vt_assets_for_Inr div_i128_nonneg)
  with fits assms(3,4,5,8,9,11,13,14) T pay vt_coreD(1) [OF core] show ?thesis
    by (simp add: vt_emergency_withdraw_def Let_def require_auth_def vt_sub_def vt_add_def checked_sub_i128_def checked_add_i128_def
        narrow_i128_def vt_get_token_def vt_transfer_token_def vt_transfer_token_unchecked_def vt_enter_non_reentrant_def
        vt_exit_non_reentrant_def call_token_def vt_load_user_deposit_def)
qed

text \<open>The reported gain of the sample is taken back by the next report.\<close>

definition vt_demo2 :: "mock_world vt_state" where
  "vt_demo2 = vt_demo\<lparr>vt_assets := Some 14800, vt_strategy := [''s'' \<mapsto> vt_demo_strategy\<lparr>sc_current_balance := 7500,
     sc_total_losses := 1000, sc_last_harvest_at := 8\<rparr>]\<rparr>"

lemma vt_demo2_reach:
  "reach (vt_exec mock_world_transfer) (vt_adm (Addr 0)) (vt_drift mock_world_balance (Addr 0)) (vt_fresh vt_world) 8 vt_demo2"
  by (rule reach_call [where e = "vt_env 8" and c = "VtHarvestStrategy ''s'' 7500", OF reach_tick [OF vt_demo_reach, of 8]])
     (simp_all add: vt_adm_def vt_demo2_def vt_demo_def vt_demo_strategy_def vt_eval)

theorem vt_exit_succeeds_witness:
  "\<exists>s'. vt_emergency_withdraw mock_world_transfer (vt_env 9) (Addr 1) vt_demo2 = Inr (9866, s') \<and> ud_shares (vt_load_user_deposit (Addr 1) s') = 0"
  by (rule vt_exit_succeeds [OF mock.live_token_axioms vt_demo2_reach, of _ _ "Addr 50" 10000])
     (simp_all add: vt_demo2_def vt_demo_def vt_demo_strategy_def vt_world_def entry_sum_def mock_world_balance_def mock_balance_def vt_getters arith_defs)









section \<open>Smaller observations\<close>

text \<open>Moving a strategy's assets to itself doubles them, since both configurations are read before one is written.\<close>

lemma vt_self_migration_doubles:
  assumes "vt_migrate_strategy e a i i s = Inr (v, s')" and "vt_strategy s i = Some c"
  shows "\<exists>c'. vt_strategy s' i = Some c' \<and> sc_allocated_assets c' = 2 * sc_allocated_assets c \<and> 0 < sc_allocated_assets c"
  using assms(1) by (cases rule: vt_migrate_strategy_Inr) (use assms(2) in auto)

text \<open>A deposit worth less than one share is taken and mints nothing.\<close>

lemma vt_dust_deposit_mints_nothing:
  assumes "vt_deposit tr e user n s = Inr (sh, s')" and "0 < vt_total_supply s" and "n * vt_total_supply s < vt_total_assets s"
  shows "sh = 0 \<and> 0 < n \<and> vt_total_assets s' = vt_total_assets s + n \<and> vt_shares_of user s' = vt_shares_of user s"
  using assms(1)
proof (cases rule: vt_deposit_Inr)
  case (1 tok w' hw dd d)
  have "0 < n * vt_total_supply s" using 1(2) assms(2) by simp
  with assms(3) have A: "0 < vt_total_assets s" by linarith
  have "vt_total_assets s * sh < vt_total_assets s * 1"
    using vt_shares_for_deposit_bounds(2) [OF 1(3,2) assms(2)] assms(3) by simp
  with A have "sh < 1" by (simp only: mult_less_cancel_left_pos)
  with vt_shares_for_deposit_bounds(1) [OF 1(3,2)] have "sh = 0" by simp
  with 1(2,10) show ?thesis by (simp add: 1(8) vt_shares_of_def vt_getters)
qed

end
