(* ===== verification/Governance.thy ===== *)
theory Governance
  imports Mock_Token
begin

text \<open>
  The Governance contract (src/contracts/governance/src/): proposals with typed treasury transfers,
  token-weighted votes with delegation and time-weighted locks, a timelock and a grace period. This
  theory holds the whole contract; Governance_Correct holds its invariant and its properties. Each
  storage key of \<open>DataKey\<close> is a field of \<open>gv_state\<close>. A panic with a code of \<open>GovernanceError\<close> is
  \<open>GvPanic\<close> of it; the other constructors of \<open>gv_error\<close> are an \<open>unwrap\<close> of a missing setting, a failed
  authorisation, a trap of the token and an arithmetic overflow. Voting windows are measured in ledger
  sequence numbers, timelocks in seconds. The voting token is a parameter: its \<open>transfer\<close> and its
  \<open>balance\<close>.
\<close>

section \<open>Types\<close>

datatype proposal_state =
    PsPending
  | PsActive
  | PsCanceled
  | PsDefeated
  | PsSucceeded
  | PsQueued
  | PsExpired
  | PsExecuted

datatype vote_type = VoteAgainst | VoteFor | VoteAbstain

datatype proposal_action = PaTransfer address address i128

record proposal =
  pr_id :: u64
  pr_proposer :: address
  pr_description :: string
  pr_targets :: "address list"
  pr_functions :: "string list"
  pr_calldatas :: "string list"
  pr_vote_start :: u64
  pr_vote_end :: u64
  pr_eta :: u64
  pr_for_votes :: i128
  pr_against_votes :: i128
  pr_abstain_votes :: i128
  pr_actions :: "proposal_action list"
  pr_canceled :: bool
  pr_executed :: bool
  pr_created_at :: u64

record proposal_vote =
  pv_has_voted :: bool
  pv_vote_type :: vote_type
  pv_weight :: i128

record delegation =
  dg_delegator :: address
  dg_delegatee :: address
  dg_amount :: i128
  dg_timestamp :: u64

record ve_token_lock =
  vl_account :: address
  vl_amount :: i128
  vl_lock_end :: u64
  vl_created_at :: u64

record governance_settings =
  gs_admin :: address
  gs_voting_token :: address
  gs_voting_delay :: u64
  gs_voting_period :: u64
  gs_timelock_delay :: u64
  gs_quorum :: i128
  gs_approval_threshold :: i128
  gs_proposal_threshold :: i128

datatype governance_error =
    AlreadyInitialized
  | Unauthorized
  | ProposalNotFound
  | ProposalAlreadyExecuted
  | ProposalNotActive
  | VotingPeriodNotEnded
  | VotingPeriodEnded
  | AlreadyVoted
  | InsufficientVotingPower
  | QuorumNotMet
  | ThresholdNotMet
  | TimelockNotExpired
  | InvalidProposalState
  | InvalidInput
  | ProposalCancelled
  | DelegationToSelf
  | AlreadyDelegated
  | CannotCancelExecuted
  | InvalidVoteType
  | InsufficientBalance
  | TimelockAlreadyQueued
  | ProposalNotQueued
  | LockAlreadyExists
  | LockNotExpired
  | NoLockFound
  | LockAmountZero
  | InvalidLockDuration

datatype gv_error = GvPanic governance_error | GvUnwrap | GvAuth | GvToken | GvOverflow

record 'w gv_state =
  gv_admin :: "address option"
  gv_voting_token :: "address option"
  gv_proposal_count :: "u64 option"
  gv_voting_delay :: "u64 option"
  gv_voting_period :: "u64 option"
  gv_timelock_delay :: "u64 option"
  gv_quorum :: "i128 option"
  gv_approval_threshold :: "i128 option"
  gv_proposal_threshold :: "i128 option"
  gv_total_supply :: "i128 option"
  gv_proposal :: "u64 \<Rightarrow> proposal option"
  gv_vote :: "u64 \<Rightarrow> address \<Rightarrow> proposal_vote option"
  gv_delegation :: "address \<Rightarrow> delegation option"
  gv_delegated_power :: "address \<Rightarrow> i128 option"
  gv_ve_lock :: "address \<Rightarrow> ve_token_lock option"
  gv_tokens :: 'w

definition gv_fresh :: "'w \<Rightarrow> 'w gv_state" where
  "gv_fresh w =
     \<lparr>gv_admin = None, gv_voting_token = None, gv_proposal_count = None, gv_voting_delay = None, gv_voting_period = None,
      gv_timelock_delay = None, gv_quorum = None, gv_approval_threshold = None, gv_proposal_threshold = None,
      gv_total_supply = None, gv_proposal = (\<lambda>_. None), gv_vote = (\<lambda>_ _. None), gv_delegation = (\<lambda>_. None),
      gv_delegated_power = (\<lambda>_. None), gv_ve_lock = (\<lambda>_. None), gv_tokens = w\<rparr>"

section \<open>Helpers\<close>

definition MAX_LOCK_DURATION :: u64 where
  "MAX_LOCK_DURATION = 4 * 365 * 24 * 60 * 60"

definition MIN_LOCK_DURATION :: u64 where
  "MIN_LOCK_DURATION = 7 * 24 * 60 * 60"

definition gv_grace_period :: u64 where
  "gv_grace_period = 14 * 24 * 60 * 60"

definition gv_safe_add :: "i128 \<Rightarrow> i128 \<Rightarrow> gv_error + i128" where
  "gv_safe_add a b = ok_or GvOverflow (checked_add_i128 a b)"

definition gv_safe_sub :: "i128 \<Rightarrow> i128 \<Rightarrow> gv_error + i128" where
  "gv_safe_sub a b = ok_or GvOverflow (checked_sub_i128 a b)"

definition gv_mul :: "i128 \<Rightarrow> i128 \<Rightarrow> gv_error + i128" where
  "gv_mul a b = ok_or GvOverflow (checked_mul_i128 a b)"

definition gv_calculate_bps :: "i128 \<Rightarrow> i128 \<Rightarrow> gv_error + i128" where
  "gv_calculate_bps amount bps = and_then (gv_mul amount bps) (\<lambda>p. Inr (div_i128 p 10000))"

definition gv_add_u64 :: "u64 \<Rightarrow> u64 \<Rightarrow> gv_error + u64" where
  "gv_add_u64 a b = ok_or GvOverflow (checked_add_u64 a b)"

definition gv_get_proposal_from_storage :: "u64 \<Rightarrow> 'w gv_state \<Rightarrow> gv_error + proposal" where
  "gv_get_proposal_from_storage proposal_id s = ok_or (GvPanic ProposalNotFound) (gv_proposal s proposal_id)"

definition gv_get_token_balance :: "'w token_balance \<Rightarrow> address \<Rightarrow> 'w gv_state \<Rightarrow> gv_error + i128" where
  "gv_get_token_balance bal account s =
     and_then (ok_or GvUnwrap (gv_voting_token s)) (\<lambda>voting_token. Inr (bal (gv_tokens s) voting_token account))"

text \<open>The plain subtractions of two timestamps are checked; \<open>lock_end - now\<close> cannot borrow where it is computed.\<close>

definition gv_calculate_ve_balance :: "env \<Rightarrow> address \<Rightarrow> 'w gv_state \<Rightarrow> gv_error + i128" where
  "gv_calculate_ve_balance e account s =
     (case gv_ve_lock s account of
        None \<Rightarrow> Inr 0
      | Some lock \<Rightarrow>
          if env_timestamp e \<ge> vl_lock_end lock then Inr 0
          else and_then (ok_or GvOverflow (checked_sub_u (vl_lock_end lock) (env_timestamp e))) (\<lambda>remaining.
               and_then (ok_or GvOverflow (checked_sub_u (vl_lock_end lock) (vl_created_at lock))) (\<lambda>total_duration.
               if total_duration = 0 then Inr 0
               else and_then (gv_mul (vl_amount lock) (int remaining)) (\<lambda>p. Inr (div_i128 p (int total_duration))))))"

definition gv_get_delegated_power :: "address \<Rightarrow> 'w gv_state \<Rightarrow> i128" where
  "gv_get_delegated_power account s = unwrap_or 0 (gv_delegated_power s account)"

definition gv_get_voting_power :: "'w token_balance \<Rightarrow> env \<Rightarrow> address \<Rightarrow> 'w gv_state \<Rightarrow> gv_error + i128" where
  "gv_get_voting_power bal e account s =
     and_then (gv_get_token_balance bal account s) (\<lambda>token_balance.
     and_then (gv_calculate_ve_balance e account s) (\<lambda>ve_balance.
     let delegated_power = gv_get_delegated_power account s in
     and_then (gv_safe_add token_balance ve_balance) (\<lambda>own. gv_safe_add own delegated_power)))"

section \<open>The state of a proposal\<close>

definition gv_quorum_reached :: "proposal \<Rightarrow> 'w gv_state \<Rightarrow> gv_error + bool" where
  "gv_quorum_reached proposal s =
     and_then (gv_safe_add (pr_for_votes proposal) (pr_against_votes proposal)) (\<lambda>cast.
     and_then (gv_safe_add cast (pr_abstain_votes proposal)) (\<lambda>total_votes.
     let total_supply = unwrap_or 0 (gv_total_supply s) in
     and_then (ok_or GvUnwrap (gv_quorum s)) (\<lambda>quorum.
     if total_supply = 0 then Inr False
     else and_then (gv_mul total_votes 10000) (\<lambda>lhs.
          and_then (gv_mul total_supply quorum) (\<lambda>rhs. Inr (lhs \<ge> rhs))))))"

definition gv_threshold_reached :: "proposal \<Rightarrow> 'w gv_state \<Rightarrow> gv_error + bool" where
  "gv_threshold_reached proposal s =
     and_then (gv_safe_add (pr_for_votes proposal) (pr_against_votes proposal)) (\<lambda>total_votes_cast.
     if total_votes_cast = 0 then Inr False
     else and_then (ok_or GvUnwrap (gv_approval_threshold s)) (\<lambda>threshold.
          and_then (gv_mul (pr_for_votes proposal) 10000) (\<lambda>lhs.
          and_then (gv_mul total_votes_cast threshold) (\<lambda>rhs. Inr (lhs \<ge> rhs)))))"

text \<open>The disjunction of the source is lazy: the threshold is only evaluated when the quorum is reached.\<close>

definition gv_passed :: "proposal \<Rightarrow> 'w gv_state \<Rightarrow> gv_error + bool" where
  "gv_passed proposal s =
     and_then (gv_quorum_reached proposal s) (\<lambda>quorum_reached.
     if \<not> quorum_reached then Inr False else gv_threshold_reached proposal s)"

definition gv_proposal_state :: "env \<Rightarrow> proposal \<Rightarrow> 'w gv_state \<Rightarrow> gv_error + proposal_state" where
  "gv_proposal_state e proposal s =
     (if pr_canceled proposal then Inr PsCanceled
      else let current_block = env_sequence e in
      if current_block < pr_vote_start proposal then Inr PsPending
      else if current_block \<le> pr_vote_end proposal then Inr PsActive
      else and_then (gv_passed proposal s) (\<lambda>passed.
      if \<not> passed then Inr PsDefeated
      else if pr_executed proposal then Inr PsExecuted
      else if pr_eta proposal = 0 then Inr PsSucceeded
      else and_then (gv_add_u64 (pr_eta proposal) gv_grace_period) (\<lambda>deadline.
      if env_timestamp e > deadline \<and> \<not> pr_executed proposal then Inr PsExpired else Inr PsQueued)))"

section \<open>Entry points\<close>

definition gv_initialize ::
  "env \<Rightarrow> address \<Rightarrow> address \<Rightarrow> u64 \<Rightarrow> u64 \<Rightarrow> u64 \<Rightarrow> i128 \<Rightarrow> i128 \<Rightarrow> i128 \<Rightarrow> i128 \<Rightarrow> 'w gv_state \<Rightarrow> gv_error + unit \<times> 'w gv_state" where
  "gv_initialize e admin voting_token voting_delay voting_period timelock_delay quorum approval_threshold proposal_threshold total_supply s =
     and_then (panic_if (gv_admin s \<noteq> None) (GvPanic AlreadyInitialized)) (\<lambda>_.
     and_then (require_auth GvAuth e admin) (\<lambda>_.
     Inr ((), s\<lparr>gv_admin := Some admin, gv_voting_token := Some voting_token, gv_voting_delay := Some voting_delay,
                gv_voting_period := Some voting_period, gv_timelock_delay := Some timelock_delay, gv_quorum := Some quorum,
                gv_approval_threshold := Some approval_threshold, gv_proposal_threshold := Some proposal_threshold,
                gv_proposal_count := Some 0, gv_total_supply := Some total_supply\<rparr>)))"

definition gv_propose ::
  "'w token_balance \<Rightarrow> env \<Rightarrow> address \<Rightarrow> string \<Rightarrow> address list \<Rightarrow> string list \<Rightarrow> string list \<Rightarrow> proposal_action list \<Rightarrow> 'w gv_state \<Rightarrow>
   gv_error + u64 \<times> 'w gv_state" where
  "gv_propose bal e proposer description targets functions calldatas actions s =
     and_then (require_auth GvAuth e proposer) (\<lambda>_.
     and_then (gv_get_voting_power bal e proposer s) (\<lambda>voting_power.
     and_then (ok_or GvUnwrap (gv_proposal_threshold s)) (\<lambda>proposal_threshold.
     and_then (panic_if (voting_power < proposal_threshold) (GvPanic InsufficientVotingPower)) (\<lambda>_.
     and_then (panic_if (actions \<noteq> [] \<and> (length targets \<noteq> length functions \<or> length targets \<noteq> length calldatas)) (GvPanic InvalidInput)) (\<lambda>_.
     and_then (ok_or GvUnwrap (gv_voting_delay s)) (\<lambda>voting_delay.
     and_then (ok_or GvUnwrap (gv_voting_period s)) (\<lambda>voting_period.
     and_then (gv_add_u64 (env_sequence e) voting_delay) (\<lambda>vote_start.
     and_then (gv_add_u64 vote_start voting_period) (\<lambda>vote_end.
     let proposal_id = unwrap_or 0 (gv_proposal_count s) in
     and_then (gv_add_u64 proposal_id 1) (\<lambda>proposal_count.
     let proposal = \<lparr>pr_id = proposal_id, pr_proposer = proposer, pr_description = description, pr_targets = targets,
           pr_functions = functions, pr_calldatas = calldatas, pr_vote_start = vote_start, pr_vote_end = vote_end, pr_eta = 0,
           pr_for_votes = 0, pr_against_votes = 0, pr_abstain_votes = 0, pr_actions = actions, pr_canceled = False,
           pr_executed = False, pr_created_at = env_timestamp e\<rparr> in
     Inr (proposal_id, s\<lparr>gv_proposal_count := Some proposal_count,
                         gv_proposal := (gv_proposal s)(proposal_id \<mapsto> proposal)\<rparr>)))))))))))"

text \<open>The \<open>match\<close> of \<open>cast_vote\<close> on the kind of vote.\<close>

fun gv_count_vote :: "vote_type \<Rightarrow> i128 \<Rightarrow> proposal \<Rightarrow> gv_error + proposal" where
  "gv_count_vote VoteFor weight p = and_then (gv_safe_add (pr_for_votes p) weight) (\<lambda>n. Inr (p\<lparr>pr_for_votes := n\<rparr>))"
| "gv_count_vote VoteAgainst weight p = and_then (gv_safe_add (pr_against_votes p) weight) (\<lambda>n. Inr (p\<lparr>pr_against_votes := n\<rparr>))"
| "gv_count_vote VoteAbstain weight p = and_then (gv_safe_add (pr_abstain_votes p) weight) (\<lambda>n. Inr (p\<lparr>pr_abstain_votes := n\<rparr>))"

definition gv_cast_vote ::
  "'w token_balance \<Rightarrow> env \<Rightarrow> address \<Rightarrow> u64 \<Rightarrow> vote_type \<Rightarrow> 'w gv_state \<Rightarrow> gv_error + unit \<times> 'w gv_state" where
  "gv_cast_vote bal e voter proposal_id vote_type s =
     and_then (require_auth GvAuth e voter) (\<lambda>_.
     and_then (gv_get_proposal_from_storage proposal_id s) (\<lambda>proposal.
     and_then (gv_proposal_state e proposal s) (\<lambda>current_state.
     and_then (panic_if (current_state \<noteq> PsActive) (GvPanic ProposalNotActive)) (\<lambda>_.
     and_then (panic_if (gv_vote s proposal_id voter \<noteq> None) (GvPanic AlreadyVoted)) (\<lambda>_.
     and_then (gv_get_voting_power bal e voter s) (\<lambda>voting_power.
     and_then (gv_count_vote vote_type voting_power proposal) (\<lambda>proposal.
     let vote = \<lparr>pv_has_voted = True, pv_vote_type = vote_type, pv_weight = voting_power\<rparr> in
     Inr ((), s\<lparr>gv_vote := (gv_vote s)(proposal_id := (gv_vote s proposal_id)(voter \<mapsto> vote)),
                gv_proposal := (gv_proposal s)(proposal_id \<mapsto> proposal)\<rparr>))))))))"

definition gv_queue :: "env \<Rightarrow> address \<Rightarrow> u64 \<Rightarrow> 'w gv_state \<Rightarrow> gv_error + unit \<times> 'w gv_state" where
  "gv_queue e caller proposal_id s =
     and_then (require_auth GvAuth e caller) (\<lambda>_.
     and_then (gv_get_proposal_from_storage proposal_id s) (\<lambda>proposal.
     and_then (gv_proposal_state e proposal s) (\<lambda>current_state.
     and_then (panic_if (current_state \<noteq> PsSucceeded) (GvPanic InvalidProposalState)) (\<lambda>_.
     and_then (ok_or GvUnwrap (gv_timelock_delay s)) (\<lambda>timelock_delay.
     and_then (gv_add_u64 (env_timestamp e) timelock_delay) (\<lambda>eta.
     Inr ((), s\<lparr>gv_proposal := (gv_proposal s)(proposal_id \<mapsto> proposal\<lparr>pr_eta := eta\<rparr>)\<rparr>)))))))"

text \<open>The loop of \<open>execute\<close> over the actions.\<close>

fun gv_run_actions :: "'w token_transfer \<Rightarrow> env \<Rightarrow> proposal_action list \<Rightarrow> 'w \<Rightarrow> gv_error + 'w" where
  "gv_run_actions tr e [] w = Inr w"
| "gv_run_actions tr e (PaTransfer token dst amount # actions) w =
     and_then (call_token tr GvToken e token (env_self e) dst amount w) (\<lambda>w. gv_run_actions tr e actions w)"

definition gv_execute :: "'w token_transfer \<Rightarrow> env \<Rightarrow> address \<Rightarrow> u64 \<Rightarrow> 'w gv_state \<Rightarrow> gv_error + unit \<times> 'w gv_state" where
  "gv_execute tr e caller proposal_id s =
     and_then (require_auth GvAuth e caller) (\<lambda>_.
     and_then (gv_get_proposal_from_storage proposal_id s) (\<lambda>proposal.
     and_then (gv_proposal_state e proposal s) (\<lambda>current_state.
     and_then (panic_if (current_state \<noteq> PsQueued) (GvPanic ProposalNotQueued)) (\<lambda>_.
     and_then (panic_if (env_timestamp e < pr_eta proposal) (GvPanic TimelockNotExpired)) (\<lambda>_.
     and_then (gv_run_actions tr e (pr_actions proposal) (gv_tokens s)) (\<lambda>w.
     Inr ((), s\<lparr>gv_tokens := w, gv_proposal := (gv_proposal s)(proposal_id \<mapsto> proposal\<lparr>pr_executed := True\<rparr>)\<rparr>)))))))"

definition gv_cancel :: "env \<Rightarrow> address \<Rightarrow> u64 \<Rightarrow> 'w gv_state \<Rightarrow> gv_error + unit \<times> 'w gv_state" where
  "gv_cancel e caller proposal_id s =
     and_then (require_auth GvAuth e caller) (\<lambda>_.
     and_then (gv_get_proposal_from_storage proposal_id s) (\<lambda>proposal.
     and_then (panic_if (pr_executed proposal) (GvPanic CannotCancelExecuted)) (\<lambda>_.
     and_then (ok_or GvUnwrap (gv_admin s)) (\<lambda>admin.
     and_then (panic_if (caller \<noteq> pr_proposer proposal \<and> caller \<noteq> admin) (GvPanic Unauthorized)) (\<lambda>_.
     Inr ((), s\<lparr>gv_proposal := (gv_proposal s)(proposal_id \<mapsto> proposal\<lparr>pr_canceled := True\<rparr>)\<rparr>))))))"

definition gv_delegate ::
  "'w token_balance \<Rightarrow> env \<Rightarrow> address \<Rightarrow> address \<Rightarrow> i128 \<Rightarrow> 'w gv_state \<Rightarrow> gv_error + unit \<times> 'w gv_state" where
  "gv_delegate bal e delegator delegatee amount s =
     and_then (require_auth GvAuth e delegator) (\<lambda>_.
     and_then (panic_if (delegator = delegatee) (GvPanic DelegationToSelf)) (\<lambda>_.
     and_then (panic_if (gv_delegation s delegator \<noteq> None) (GvPanic AlreadyDelegated)) (\<lambda>_.
     and_then (gv_get_token_balance bal delegator s) (\<lambda>balance.
     and_then (panic_if (balance < amount) (GvPanic InsufficientBalance)) (\<lambda>_.
     let delegation = \<lparr>dg_delegator = delegator, dg_delegatee = delegatee, dg_amount = amount, dg_timestamp = env_timestamp e\<rparr>;
         s = s\<lparr>gv_delegation := (gv_delegation s)(delegator \<mapsto> delegation)\<rparr>;
         current_delegated = unwrap_or 0 (gv_delegated_power s delegatee) in
     and_then (gv_safe_add current_delegated amount) (\<lambda>delegated.
     Inr ((), s\<lparr>gv_delegated_power := (gv_delegated_power s)(delegatee \<mapsto> delegated)\<rparr>)))))))"

definition gv_revoke_delegation :: "env \<Rightarrow> address \<Rightarrow> 'w gv_state \<Rightarrow> gv_error + unit \<times> 'w gv_state" where
  "gv_revoke_delegation e delegator s =
     and_then (require_auth GvAuth e delegator) (\<lambda>_.
     and_then (ok_or (GvPanic ProposalNotFound) (gv_delegation s delegator)) (\<lambda>delegation.
     let s = s\<lparr>gv_delegation := (gv_delegation s)(delegator := None)\<rparr>;
         current_delegated = unwrap_or 0 (gv_delegated_power s (dg_delegatee delegation)) in
     and_then (gv_safe_sub current_delegated (dg_amount delegation)) (\<lambda>new_delegated.
     Inr ((), s\<lparr>gv_delegated_power := (gv_delegated_power s)(dg_delegatee delegation \<mapsto> new_delegated)\<rparr>))))"

definition gv_lock_tokens ::
  "'w token_balance \<Rightarrow> env \<Rightarrow> address \<Rightarrow> i128 \<Rightarrow> u64 \<Rightarrow> 'w gv_state \<Rightarrow> gv_error + unit \<times> 'w gv_state" where
  "gv_lock_tokens bal e account amount lock_duration s =
     and_then (require_auth GvAuth e account) (\<lambda>_.
     and_then (panic_if (amount \<le> 0) (GvPanic LockAmountZero)) (\<lambda>_.
     and_then (panic_if (\<not> (MIN_LOCK_DURATION \<le> lock_duration \<and> lock_duration \<le> MAX_LOCK_DURATION)) (GvPanic InvalidLockDuration)) (\<lambda>_.
     and_then (panic_if (gv_ve_lock s account \<noteq> None) (GvPanic LockAlreadyExists)) (\<lambda>_.
     and_then (gv_get_token_balance bal account s) (\<lambda>balance.
     and_then (panic_if (balance < amount) (GvPanic InsufficientBalance)) (\<lambda>_.
     let now = env_timestamp e in
     and_then (gv_add_u64 now lock_duration) (\<lambda>lock_end.
     let lock = \<lparr>vl_account = account, vl_amount = amount, vl_lock_end = lock_end, vl_created_at = now\<rparr> in
     Inr ((), s\<lparr>gv_ve_lock := (gv_ve_lock s)(account \<mapsto> lock)\<rparr>))))))))"

definition gv_withdraw_tokens :: "env \<Rightarrow> address \<Rightarrow> 'w gv_state \<Rightarrow> gv_error + unit \<times> 'w gv_state" where
  "gv_withdraw_tokens e account s =
     and_then (require_auth GvAuth e account) (\<lambda>_.
     and_then (ok_or (GvPanic NoLockFound) (gv_ve_lock s account)) (\<lambda>lock.
     and_then (panic_if (env_timestamp e < vl_lock_end lock) (GvPanic LockNotExpired)) (\<lambda>_.
     Inr ((), s\<lparr>gv_ve_lock := (gv_ve_lock s)(account := None)\<rparr>))))"

text \<open>\<open>if let Some(x) = new { set(key, x) }\<close>: a given value replaces the stored one.\<close>

definition gv_given :: "'a option \<Rightarrow> 'a option \<Rightarrow> 'a option" where
  "gv_given new old = (case new of None \<Rightarrow> old | Some x \<Rightarrow> Some x)"

definition gv_set_voting_params ::
  "env \<Rightarrow> address \<Rightarrow> u64 option \<Rightarrow> u64 option \<Rightarrow> u64 option \<Rightarrow> i128 option \<Rightarrow> i128 option \<Rightarrow> 'w gv_state \<Rightarrow> gv_error + unit \<times> 'w gv_state" where
  "gv_set_voting_params e admin voting_delay voting_period timelock_delay quorum approval_threshold s =
     and_then (require_auth GvAuth e admin) (\<lambda>_.
     and_then (ok_or GvUnwrap (gv_admin s)) (\<lambda>stored_admin.
     and_then (panic_if (admin \<noteq> stored_admin) (GvPanic Unauthorized)) (\<lambda>_.
     Inr ((), s\<lparr>gv_voting_delay := gv_given voting_delay (gv_voting_delay s),
                gv_voting_period := gv_given voting_period (gv_voting_period s),
                gv_timelock_delay := gv_given timelock_delay (gv_timelock_delay s),
                gv_quorum := gv_given quorum (gv_quorum s),
                gv_approval_threshold := gv_given approval_threshold (gv_approval_threshold s)\<rparr>))))"

section \<open>Views\<close>

definition gv_get_proposal_state :: "env \<Rightarrow> u64 \<Rightarrow> 'w gv_state \<Rightarrow> gv_error + proposal_state" where
  "gv_get_proposal_state e proposal_id s =
     and_then (gv_get_proposal_from_storage proposal_id s) (\<lambda>proposal. gv_proposal_state e proposal s)"

definition gv_get_proposal_results :: "env \<Rightarrow> u64 \<Rightarrow> 'w gv_state \<Rightarrow> gv_error + i128 \<times> i128 \<times> i128 \<times> proposal_state" where
  "gv_get_proposal_results e proposal_id s =
     and_then (gv_get_proposal_from_storage proposal_id s) (\<lambda>proposal.
     and_then (gv_proposal_state e proposal s) (\<lambda>state.
     Inr (pr_for_votes proposal, pr_against_votes proposal, pr_abstain_votes proposal, state)))"

definition gv_get_proposal_ids :: "'w gv_state \<Rightarrow> u64 list" where
  "gv_get_proposal_ids s = (let count = unwrap_or 0 (gv_proposal_count s) in [0..<count])"

definition gv_get_settings :: "'w gv_state \<Rightarrow> gv_error + governance_settings" where
  "gv_get_settings s =
     and_then (ok_or GvUnwrap (gv_admin s)) (\<lambda>admin.
     and_then (ok_or GvUnwrap (gv_voting_token s)) (\<lambda>voting_token.
     and_then (ok_or GvUnwrap (gv_voting_delay s)) (\<lambda>voting_delay.
     and_then (ok_or GvUnwrap (gv_voting_period s)) (\<lambda>voting_period.
     and_then (ok_or GvUnwrap (gv_timelock_delay s)) (\<lambda>timelock_delay.
     and_then (ok_or GvUnwrap (gv_quorum s)) (\<lambda>quorum.
     and_then (ok_or GvUnwrap (gv_approval_threshold s)) (\<lambda>approval_threshold.
     and_then (ok_or GvUnwrap (gv_proposal_threshold s)) (\<lambda>proposal_threshold.
     Inr \<lparr>gs_admin = admin, gs_voting_token = voting_token, gs_voting_delay = voting_delay, gs_voting_period = voting_period,
          gs_timelock_delay = timelock_delay, gs_quorum = quorum, gs_approval_threshold = approval_threshold,
          gs_proposal_threshold = proposal_threshold\<rparr>))))))))"

section \<open>Calls\<close>

datatype gv_call =
    GvInitialize address address u64 u64 u64 i128 i128 i128 i128
  | GvPropose address string "address list" "string list" "string list" "proposal_action list"
  | GvCastVote address u64 vote_type
  | GvQueue address u64
  | GvExecute address u64
  | GvCancel address u64
  | GvDelegate address address i128
  | GvRevokeDelegation address
  | GvLockTokens address i128 u64
  | GvWithdrawTokens address
  | GvSetVotingParams address "u64 option" "u64 option" "u64 option" "i128 option" "i128 option"

fun gv_exec :: "'w token_transfer \<Rightarrow> 'w token_balance \<Rightarrow> env \<Rightarrow> gv_call \<Rightarrow> 'w gv_state \<Rightarrow> 'w gv_state option" where
  "gv_exec tr bal e (GvInitialize a k d p l q h m n) s = state_of (gv_initialize e a k d p l q h m n s)"
| "gv_exec tr bal e (GvPropose a d t f c acts) s = state_of (gv_propose bal e a d t f c acts s)"
| "gv_exec tr bal e (GvCastVote a i v) s = state_of (gv_cast_vote bal e a i v s)"
| "gv_exec tr bal e (GvQueue a i) s = state_of (gv_queue e a i s)"
| "gv_exec tr bal e (GvExecute a i) s = state_of (gv_execute tr e a i s)"
| "gv_exec tr bal e (GvCancel a i) s = state_of (gv_cancel e a i s)"
| "gv_exec tr bal e (GvDelegate a b n) s = state_of (gv_delegate bal e a b n s)"
| "gv_exec tr bal e (GvRevokeDelegation a) s = state_of (gv_revoke_delegation e a s)"
| "gv_exec tr bal e (GvLockTokens a n d) s = state_of (gv_lock_tokens bal e a n d s)"
| "gv_exec tr bal e (GvWithdrawTokens a) s = state_of (gv_withdraw_tokens e a s)"
| "gv_exec tr bal e (GvSetVotingParams a d p l q h) s = state_of (gv_set_voting_params e a d p l q h s)"

end
