(* ===== verification/Governance_Correct.thy ===== *)
theory Governance_Correct
  imports Governance
begin

text \<open>
  What the operations of Governance do, the invariant of the contract, its transition system and its
  properties: exact tallies, guarded and accounted treasury payments, the lifecycle of a proposal, and
  what delegation and locks do to voting power.
\<close>

section \<open>What the operations do\<close>

lemma gv_arith_Inr [result_iffs]:
  "gv_safe_add a b = Inr c \<longleftrightarrow> c = a + b \<and> in_i128 (a + b)" "gv_safe_sub a b = Inr c \<longleftrightarrow> c = a - b \<and> in_i128 (a - b)"
  "gv_mul a b = Inr c \<longleftrightarrow> c = a * b \<and> in_i128 (a * b)" "gv_add_u64 m n = Inr k \<longleftrightarrow> k = m + n \<and> m + n \<le> u64_max"
  by (simp_all add: gv_safe_add_def gv_safe_sub_def gv_mul_def gv_add_u64_def result_iffs)

lemma gv_proposal_Inr [result_iffs]: "gv_get_proposal_from_storage i s = Inr p \<longleftrightarrow> gv_proposal s i = Some p"
  by (simp add: gv_get_proposal_from_storage_def result_iffs)

lemma gv_balance_Inr [result_iffs]:
  "gv_get_token_balance bal a s = Inr n \<longleftrightarrow> (\<exists>tok. gv_voting_token s = Some tok \<and> n = bal (gv_tokens s) tok a)"
  by (auto simp: gv_get_token_balance_def result_iffs)

text \<open>A proposal has passed when the votes reach the quorum of the supply and the approvals the threshold of the votes.\<close>

lemma gv_passed_True:
  "gv_passed p s = Inr True \<Longrightarrow>
   \<exists>q h. gv_quorum s = Some q \<and> gv_approval_threshold s = Some h \<and> unwrap_or 0 (gv_total_supply s) \<noteq> 0 \<and>
     unwrap_or 0 (gv_total_supply s) * q \<le> (pr_for_votes p + pr_against_votes p + pr_abstain_votes p) * 10000 \<and>
     pr_for_votes p + pr_against_votes p \<noteq> 0 \<and>
     (pr_for_votes p + pr_against_votes p) * h \<le> pr_for_votes p * 10000"
  by (auto simp: gv_passed_def gv_quorum_reached_def gv_threshold_reached_def result_iffs Let_def split: if_splits)

lemma gv_state_Queued [result_iffs]:
  "gv_proposal_state e p s = Inr PsQueued \<longleftrightarrow>
     \<not> pr_canceled p \<and> pr_vote_start p \<le> env_sequence e \<and> pr_vote_end p < env_sequence e \<and> gv_passed p s = Inr True \<and>
     \<not> pr_executed p \<and> pr_eta p \<noteq> 0 \<and> pr_eta p + gv_grace_period \<le> u64_max \<and> env_timestamp e \<le> pr_eta p + gv_grace_period"
  by (auto simp: gv_proposal_state_def result_iffs Let_def not_less split: if_splits)

lemma gv_state_Succeeded [result_iffs]:
  "gv_proposal_state e p s = Inr PsSucceeded \<longleftrightarrow>
     \<not> pr_canceled p \<and> pr_vote_start p \<le> env_sequence e \<and> pr_vote_end p < env_sequence e \<and> gv_passed p s = Inr True \<and>
     \<not> pr_executed p \<and> pr_eta p = 0"
  by (auto simp: gv_proposal_state_def result_iffs Let_def not_less split: if_splits)

lemma gv_state_Active [result_iffs]:
  "gv_proposal_state e p s = Inr PsActive \<longleftrightarrow>
     \<not> pr_canceled p \<and> pr_vote_start p \<le> env_sequence e \<and> env_sequence e \<le> pr_vote_end p"
  by (auto simp: gv_proposal_state_def result_iffs Let_def not_less split: if_splits)

lemma gv_propose_Inr:
  assumes "gv_propose bal e a d ts fs cs acts s = Inr (i, s')"
  obtains v m vs ve where "gv_get_voting_power bal e a s = Inr v" and "gv_proposal_threshold s = Some m" and "m \<le> v"
    and "i = unwrap_or 0 (gv_proposal_count s)" and "vs \<le> ve" and "env_sequence e \<le> vs" and "gv_voting_token s \<noteq> None"
    and "s' = s\<lparr>gv_proposal_count := Some (i + 1), gv_proposal := (gv_proposal s)(i \<mapsto>
      \<lparr>pr_id = i, pr_proposer = a, pr_description = d, pr_targets = ts, pr_functions = fs, pr_calldatas = cs, pr_vote_start = vs,
       pr_vote_end = ve, pr_eta = 0, pr_for_votes = 0, pr_against_votes = 0, pr_abstain_votes = 0, pr_actions = acts,
       pr_canceled = False, pr_executed = False, pr_created_at = env_timestamp e\<rparr>)\<rparr>"
proof -
  let ?i = "unwrap_or 0 (gv_proposal_count s)"
  let ?p = "\<lambda>vs ve. \<lparr>pr_id = ?i, pr_proposer = a, pr_description = d, pr_targets = ts, pr_functions = fs, pr_calldatas = cs,
    pr_vote_start = vs, pr_vote_end = ve, pr_eta = 0, pr_for_votes = 0, pr_against_votes = 0, pr_abstain_votes = 0, pr_actions = acts,
    pr_canceled = False, pr_executed = False, pr_created_at = env_timestamp e\<rparr>"
  from assms obtain v m dl pe vs ve k and u1 u2 u3 :: unit where raw:
      "require_auth GvAuth e a = Inr u1" "gv_get_voting_power bal e a s = Inr v" "ok_or GvUnwrap (gv_proposal_threshold s) = Inr m"
      "panic_if (v < m) (GvPanic InsufficientVotingPower) = Inr u2"
      "panic_if (acts \<noteq> [] \<and> (length ts \<noteq> length fs \<or> length ts \<noteq> length cs)) (GvPanic InvalidInput) = Inr u3"
      "ok_or GvUnwrap (gv_voting_delay s) = Inr dl" "ok_or GvUnwrap (gv_voting_period s) = Inr pe"
      "gv_add_u64 (env_sequence e) dl = Inr vs" "gv_add_u64 vs pe = Inr ve" "gv_add_u64 ?i 1 = Inr k" "?i = i"
      "s\<lparr>gv_proposal_count := Some k, gv_proposal := (gv_proposal s)(?i \<mapsto> ?p vs ve)\<rparr> = s'"
    unfolding gv_propose_def Let_def and_then_eq_Inr sum.inject prod.inject
    by (elim exE conjE) (rule that)
  have "gv_voting_token s \<noteq> None" using raw(2) by (auto simp: gv_get_voting_power_def result_iffs)
  then show thesis
    by (intro that [where v = v and m = m and vs = vs and ve = ve])
       (use raw(2-4,8-11) raw(12) [symmetric] in \<open>simp_all add: panic_if_eq_Inr ok_or_eq_Inr gv_arith_Inr\<close>)
qed

text \<open>The tally of one kind of vote, on the proposal and over the recorded votes.\<close>

fun gv_tally :: "vote_type \<Rightarrow> proposal \<Rightarrow> i128" where
  "gv_tally VoteFor p = pr_for_votes p"
| "gv_tally VoteAgainst p = pr_against_votes p"
| "gv_tally VoteAbstain p = pr_abstain_votes p"

definition gv_weight :: "vote_type \<Rightarrow> proposal_vote \<Rightarrow> i128" where
  "gv_weight ty v = (if pv_vote_type v = ty then pv_weight v else 0)"

text \<open>What no call changes after the proposal was made, and where a proposal stands.\<close>

definition gv_terms :: "proposal \<Rightarrow> proposal" where
  "gv_terms p = p\<lparr>pr_eta := 0, pr_for_votes := 0, pr_against_votes := 0, pr_abstain_votes := 0, pr_canceled := False, pr_executed := False\<rparr>"

datatype gv_phase = PhOpen | PhQueued | PhExecuted | PhCanceled

definition gv_phase :: "proposal \<Rightarrow> gv_phase" where
  "gv_phase p = (if pr_canceled p then PhCanceled else if pr_executed p then PhExecuted else if pr_eta p \<noteq> 0 then PhQueued else PhOpen)"

lemma gv_count_vote_Inr:
  assumes "gv_count_vote ty n p = Inr p'"
  shows "gv_tally ty' p' = gv_tally ty' p + (if ty' = ty then n else 0)" "gv_terms p' = gv_terms p" "gv_phase p' = gv_phase p"
    "pr_executed p' = pr_executed p" "pr_canceled p' = pr_canceled p" "pr_eta p' = pr_eta p" "pr_actions p' = pr_actions p"
    "pr_id p' = pr_id p" "pr_vote_start p' = pr_vote_start p" "pr_vote_end p' = pr_vote_end p"
  using assms by (cases ty; cases ty'; auto simp: result_iffs gv_terms_def gv_phase_def)+

lemma gv_cast_vote_Inr:
  assumes "gv_cast_vote bal e a i ty s = Inr (v, s')"
  obtains p n p' where "env_auth e a" and "gv_proposal s i = Some p" and "\<not> pr_canceled p" and "pr_vote_start p \<le> env_sequence e"
    and "env_sequence e \<le> pr_vote_end p" and "gv_vote s i a = None" and "gv_get_voting_power bal e a s = Inr n"
    and "gv_count_vote ty n p = Inr p'"
    and "s' = s\<lparr>gv_vote := (gv_vote s)(i := (gv_vote s i)(a \<mapsto> \<lparr>pv_has_voted = True, pv_vote_type = ty, pv_weight = n\<rparr>)),
      gv_proposal := (gv_proposal s)(i \<mapsto> p')\<rparr>"
  using assms by (auto simp: gv_cast_vote_def result_iffs Let_def)

lemma gv_queue_Inr:
  assumes "gv_queue e a i s = Inr (v, s')"
  obtains p d where "gv_proposal s i = Some p" and "gv_proposal_state e p s = Inr PsSucceeded" and "gv_timelock_delay s = Some d"
    and "s' = s\<lparr>gv_proposal := (gv_proposal s)(i \<mapsto> p\<lparr>pr_eta := env_timestamp e + d\<rparr>)\<rparr>"
  using assms by (auto simp: gv_queue_def result_iffs)

lemma gv_execute_Inr:
  assumes "gv_execute tr e a i s = Inr (v, s')"
  obtains p w' where "env_auth e a" and "gv_proposal s i = Some p" and "gv_proposal_state e p s = Inr PsQueued" and "pr_eta p \<le> env_timestamp e"
    and "gv_run_actions tr e (pr_actions p) (gv_tokens s) = Inr w'"
    and "s' = s\<lparr>gv_tokens := w', gv_proposal := (gv_proposal s)(i \<mapsto> p\<lparr>pr_executed := True\<rparr>)\<rparr>"
  using assms by (auto simp: gv_execute_def result_iffs)

lemma gv_cancel_Inr:
  assumes "gv_cancel e a i s = Inr (v, s')"
  obtains p where "gv_proposal s i = Some p" and "\<not> pr_executed p" and "a = pr_proposer p \<or> gv_admin s = Some a"
    and "s' = s\<lparr>gv_proposal := (gv_proposal s)(i \<mapsto> p\<lparr>pr_canceled := True\<rparr>)\<rparr>"
  using assms by (auto simp: gv_cancel_def result_iffs)

lemma gv_delegate_Inr:
  assumes "gv_delegate bal e a b n s = Inr (v, s')"
  obtains tok where "gv_voting_token s = Some tok" and "a \<noteq> b" and "gv_delegation s a = None" and "n \<le> bal (gv_tokens s) tok a"
    and "in_i128 (gv_get_delegated_power b s + n)"
    and "s' = s\<lparr>gv_delegation := (gv_delegation s)(a \<mapsto> \<lparr>dg_delegator = a, dg_delegatee = b, dg_amount = n, dg_timestamp = env_timestamp e\<rparr>),
      gv_delegated_power := (gv_delegated_power s)(b \<mapsto> gv_get_delegated_power b s + n)\<rparr>"
  using assms by (auto simp: gv_delegate_def result_iffs Let_def gv_get_delegated_power_def)

lemma gv_revoke_Inr:
  assumes "gv_revoke_delegation e a s = Inr (v, s')"
  obtains d where "gv_delegation s a = Some d"
    and "s' = s\<lparr>gv_delegation := (gv_delegation s)(a := None),
      gv_delegated_power := (gv_delegated_power s)(dg_delegatee d \<mapsto> gv_get_delegated_power (dg_delegatee d) s - dg_amount d)\<rparr>"
  using assms by (auto simp: gv_revoke_delegation_def result_iffs Let_def gv_get_delegated_power_def)

lemma gv_lock_Inr:
  assumes "gv_lock_tokens bal e a n d s = Inr (v, s')"
  obtains tok where "gv_voting_token s = Some tok" and "0 < n" and "n \<le> bal (gv_tokens s) tok a" and "0 < d" and "gv_ve_lock s a = None"
    and "s' = s\<lparr>gv_ve_lock := (gv_ve_lock s)(a \<mapsto> \<lparr>vl_account = a, vl_amount = n, vl_lock_end = env_timestamp e + d, vl_created_at = env_timestamp e\<rparr>)\<rparr>"
  using assms by (auto simp: gv_lock_tokens_def result_iffs Let_def MIN_LOCK_DURATION_def)

lemma gv_withdraw_Inr:
  assumes "gv_withdraw_tokens e a s = Inr (v, s')"
  obtains k where "gv_ve_lock s a = Some k" and "vl_lock_end k \<le> env_timestamp e" and "s' = s\<lparr>gv_ve_lock := (gv_ve_lock s)(a := None)\<rparr>"
  using assms by (auto simp: gv_withdraw_tokens_def result_iffs)

section \<open>The invariant\<close>

definition gv_count :: "'w gv_state \<Rightarrow> u64" where
  "gv_count s = unwrap_or 0 (gv_proposal_count s)"

definition gv_proposal_ok :: "u64 \<Rightarrow> proposal \<Rightarrow> bool" where
  "gv_proposal_ok i p \<longleftrightarrow> pr_id p = i \<and> pr_vote_start p \<le> pr_vote_end p \<and> \<not> (pr_canceled p \<and> pr_executed p) \<and>
     (pr_executed p \<longrightarrow> pr_eta p \<noteq> 0)"

definition gv_proposals_ok :: "'w gv_state \<Rightarrow> bool" where
  "gv_proposals_ok s \<longleftrightarrow> (\<forall>i. gv_proposal s i \<noteq> None \<longleftrightarrow> i < gv_count s) \<and> (\<forall>i p. gv_proposal s i = Some p \<longrightarrow> gv_proposal_ok i p)"

definition gv_votes_ok :: "'w gv_state \<Rightarrow> bool" where
  "gv_votes_ok s \<longleftrightarrow> (\<forall>i. finite (dom (gv_vote s i))) \<and> (\<forall>i. gv_proposal s i = None \<longrightarrow> gv_vote s i = (\<lambda>_. None)) \<and>
     (\<forall>i p ty. gv_proposal s i = Some p \<longrightarrow> gv_tally ty p = entry_sum (gv_weight ty) (gv_vote s i))"

definition gv_delegated_to :: "address \<Rightarrow> delegation \<Rightarrow> i128" where
  "gv_delegated_to b d = (if dg_delegatee d = b then dg_amount d else 0)"

definition gv_delegations_ok :: "'w gv_state \<Rightarrow> bool" where
  "gv_delegations_ok s \<longleftrightarrow> finite (dom (gv_delegation s)) \<and>
     (\<forall>a d. gv_delegation s a = Some d \<longrightarrow> dg_delegator d = a \<and> dg_delegatee d \<noteq> a) \<and>
     (\<forall>b. gv_get_delegated_power b s = entry_sum (gv_delegated_to b) (gv_delegation s))"

definition gv_locks_ok :: "u64 \<Rightarrow> 'w gv_state \<Rightarrow> bool" where
  "gv_locks_ok t s \<longleftrightarrow> (\<forall>a k. gv_ve_lock s a = Some k \<longrightarrow>
     vl_account k = a \<and> 0 < vl_amount k \<and> vl_created_at k < vl_lock_end k \<and> vl_created_at k \<le> t)"

definition gv_config_ok :: "'w gv_state \<Rightarrow> bool" where
  "gv_config_ok s \<longleftrightarrow> (gv_admin s = None \<longleftrightarrow> gv_voting_token s = None) \<and> (gv_admin s = None \<longrightarrow> gv_proposal s = (\<lambda>_. None))"

definition gv_core :: "u64 \<Rightarrow> 'w gv_state \<Rightarrow> bool" where
  "gv_core t s \<longleftrightarrow> gv_proposals_ok s \<and> gv_votes_ok s \<and> gv_delegations_ok s \<and> gv_locks_ok t s \<and> gv_config_ok s"

lemma gv_coreI:
  "gv_proposals_ok s \<Longrightarrow> gv_votes_ok s \<Longrightarrow> gv_delegations_ok s \<Longrightarrow> gv_locks_ok t s \<Longrightarrow> gv_config_ok s \<Longrightarrow> gv_core t s"
  by (simp add: gv_core_def)

lemma gv_core_dom: "gv_core t s \<Longrightarrow> gv_proposal s i \<noteq> None \<longleftrightarrow> i < gv_count s"
  by (simp only: gv_core_def gv_proposals_ok_def)

lemma gv_core_proposal: "gv_core t s \<Longrightarrow> gv_proposal s i = Some p \<Longrightarrow> gv_proposal_ok i p"
  by (simp add: gv_core_def gv_proposals_ok_def)

lemma gv_core_finite: "gv_core t s \<Longrightarrow> finite (dom (gv_proposal s))"
proof -
  assume "gv_core t s"
  from gv_core_dom [OF this] have "dom (gv_proposal s) = {i. i < gv_count s}" by (auto simp: dom_def)
  then show ?thesis by simp
qed

lemma gv_core_time: "gv_core t s \<Longrightarrow> t \<le> t' \<Longrightarrow> gv_core t' s"
  unfolding gv_core_def gv_locks_ok_def by (meson order_trans)

lemma gv_core_admin: "gv_core t s \<Longrightarrow> gv_proposal s i = Some p \<Longrightarrow> gv_admin s \<noteq> None"
  by (auto simp: gv_core_def gv_config_ok_def)

subsection \<open>Frames\<close>

lemma gv_proposals_ok_frame:
  "gv_core t s \<Longrightarrow> gv_proposal s' = gv_proposal s \<Longrightarrow> gv_proposal_count s' = gv_proposal_count s \<Longrightarrow> gv_proposals_ok s'"
  by (simp add: gv_core_def gv_proposals_ok_def gv_count_def)

lemma gv_votes_ok_frame: "gv_core t s \<Longrightarrow> gv_proposal s' = gv_proposal s \<Longrightarrow> gv_vote s' = gv_vote s \<Longrightarrow> gv_votes_ok s'"
  by (simp add: gv_core_def gv_votes_ok_def)

lemma gv_delegations_ok_frame:
  "gv_core t s \<Longrightarrow> gv_delegation s' = gv_delegation s \<Longrightarrow> gv_delegated_power s' = gv_delegated_power s \<Longrightarrow> gv_delegations_ok s'"
  by (simp add: gv_core_def gv_delegations_ok_def gv_get_delegated_power_def)

lemma gv_locks_ok_frame: "gv_core t s \<Longrightarrow> gv_ve_lock s' = gv_ve_lock s \<Longrightarrow> gv_locks_ok t s'"
  by (simp add: gv_core_def gv_locks_ok_def)

lemma gv_config_ok_frame:
  "gv_core t s \<Longrightarrow> gv_admin s' = gv_admin s \<Longrightarrow> gv_voting_token s' = gv_voting_token s \<Longrightarrow> gv_admin s \<noteq> None \<or> gv_proposal s' = gv_proposal s \<Longrightarrow> gv_config_ok s'"
  by (auto simp: gv_core_def gv_config_ok_def)

text \<open>A call that rewrites one proposal and no votes.\<close>

lemma gv_core_rewrite:
  assumes core: "gv_core t s" and p: "gv_proposal s i = Some p" and p': "gv_proposal_ok i p'" "\<And>ty. gv_tally ty p' = gv_tally ty p"
    and s': "s' = s\<lparr>gv_tokens := w, gv_proposal := (gv_proposal s)(i \<mapsto> p')\<rparr>"
  shows "gv_core t s'"
proof (rule gv_coreI)
  have dom: "gv_proposal s j \<noteq> None \<longleftrightarrow> j < gv_count s" for j by (rule gv_core_dom [OF core])
  have "gv_proposal s' j \<noteq> None \<longleftrightarrow> j < gv_count s'" for j using dom [of j] dom [of i] p by (auto simp: s' gv_count_def)
  then show "gv_proposals_ok s'"
    using gv_core_proposal [OF core] p'(1) unfolding gv_proposals_ok_def by (auto simp: s')
  show "gv_votes_ok s'" using core p p'(2) unfolding gv_core_def gv_votes_ok_def by (auto simp: s')
  show "gv_delegations_ok s'" by (rule gv_delegations_ok_frame [OF core]) (simp_all add: s')
  show "gv_locks_ok t s'" by (rule gv_locks_ok_frame [OF core]) (simp add: s')
  show "gv_config_ok s'" by (rule gv_config_ok_frame [OF core]) (use gv_core_admin [OF core p] in \<open>simp_all add: s'\<close>)
qed

section \<open>Every call keeps the core\<close>

lemma gv_core_initialize:
  assumes core: "gv_core t s" and run: "gv_initialize e a k d p l q h m n s = Inr (v, s')"
  shows "gv_core t s'"
proof -
  have none: "gv_admin s = None" using run by (auto simp: gv_initialize_def result_iffs)
  then have empty: "gv_proposal s = (\<lambda>_. None)" using core by (simp add: gv_core_def gv_config_ok_def)
  have s': "gv_proposal s' = gv_proposal s" "gv_proposal_count s' = Some 0" "gv_vote s' = gv_vote s" "gv_delegation s' = gv_delegation s"
      "gv_delegated_power s' = gv_delegated_power s" "gv_ve_lock s' = gv_ve_lock s" "gv_admin s' \<noteq> None" "gv_voting_token s' \<noteq> None"
    using run by (auto simp: gv_initialize_def result_iffs)
  show ?thesis
  proof (rule gv_coreI)
    show "gv_proposals_ok s'" by (simp add: gv_proposals_ok_def gv_count_def s' empty)
    show "gv_config_ok s'" using s'(7,8) by (auto simp: gv_config_ok_def)
  qed (rule gv_votes_ok_frame [OF core] gv_delegations_ok_frame [OF core] gv_locks_ok_frame [OF core]; simp add: s')+
qed

lemma gv_core_propose:
  assumes core: "gv_core t s" and run: "gv_propose bal e a d ts fs cs acts s = Inr (i, s')"
  shows "gv_core t s'"
  using run
proof (cases rule: gv_propose_Inr)
  case (1 v m vs ve)
  have i: "i = gv_count s" using 1(4) by (simp add: gv_count_def)
  have dom: "gv_proposal s j \<noteq> None \<longleftrightarrow> j < gv_count s" for j by (rule gv_core_dom [OF core])
  have new: "gv_proposal s i = None" using dom [of i] i by simp
  have admin: "gv_admin s \<noteq> None" using core 1(7) by (auto simp: gv_core_def gv_config_ok_def)
  show ?thesis
  proof (rule gv_coreI)
    have "gv_proposal s' j \<noteq> None \<longleftrightarrow> j < gv_count s'" for j using dom [of j] by (auto simp: 1(8) gv_count_def i)
    then show "gv_proposals_ok s'"
      using gv_core_proposal [OF core] 1(5) unfolding gv_proposals_ok_def by (auto simp: 1(8) gv_proposal_ok_def)
    have "gv_vote s i = (\<lambda>_. None)" using core new by (simp add: gv_core_def gv_votes_ok_def)
    moreover have "gv_tally ty \<lparr>pr_id = i, pr_proposer = a, pr_description = d, pr_targets = ts, pr_functions = fs, pr_calldatas = cs, pr_vote_start = vs,
       pr_vote_end = ve, pr_eta = 0, pr_for_votes = 0, pr_against_votes = 0, pr_abstain_votes = 0, pr_actions = acts,
       pr_canceled = False, pr_executed = False, pr_created_at = env_timestamp e\<rparr> = 0" for ty by (cases ty) simp_all
    ultimately show "gv_votes_ok s'"
      using core unfolding gv_core_def gv_votes_ok_def by (auto simp: 1(8))
    show "gv_config_ok s'" using admin core by (auto simp: gv_core_def gv_config_ok_def 1(8))
  qed (rule gv_delegations_ok_frame [OF core] gv_locks_ok_frame [OF core]; simp add: 1(8))+
qed

lemma gv_core_cast_vote:
  assumes core: "gv_core t s" and run: "gv_cast_vote bal e a i ty s = Inr (v, s')"
  shows "gv_core t s'"
  using run
proof (cases rule: gv_cast_vote_Inr)
  case (1 p n p')
  note c = gv_count_vote_Inr [OF 1(8)]
  have dom: "gv_proposal s j \<noteq> None \<longleftrightarrow> j < gv_count s" for j by (rule gv_core_dom [OF core])
  show ?thesis
  proof (rule gv_coreI)
    have "gv_proposal s' j \<noteq> None \<longleftrightarrow> j < gv_count s'" for j using dom [of j] dom [of i] 1(2) by (auto simp: 1(9) gv_count_def)
    moreover have "gv_proposal_ok i p'" using gv_core_proposal [OF core 1(2)] c by (simp add: gv_proposal_ok_def)
    ultimately show "gv_proposals_ok s'"
      using gv_core_proposal [OF core] unfolding gv_proposals_ok_def by (auto simp: 1(9))
    have fin: "finite (dom (gv_vote s i))" and old: "\<And>y. gv_tally y p = entry_sum (gv_weight y) (gv_vote s i)"
      using core 1(2) by (simp_all add: gv_core_def gv_votes_ok_def)
    have new: "gv_tally y p' = entry_sum (gv_weight y) ((gv_vote s i)(a \<mapsto> \<lparr>pv_has_voted = True, pv_vote_type = ty, pv_weight = n\<rparr>))" for y
      using 1(6) fin by (simp add: c(1) old entry_sum_upd gv_weight_def)
    show "gv_votes_ok s'"
      using core fin new unfolding gv_core_def gv_votes_ok_def by (auto simp: 1(9))
    show "gv_config_ok s'" by (rule gv_config_ok_frame [OF core]) (use gv_core_admin [OF core 1(2)] in \<open>simp_all add: 1(9)\<close>)
  qed (rule gv_delegations_ok_frame [OF core] gv_locks_ok_frame [OF core]; simp add: 1(9))+
qed

lemma gv_core_lifecycle:
  assumes core: "gv_core t s"
  shows "gv_queue e a i s = Inr (v, s') \<Longrightarrow> gv_core t s'" and "gv_execute tr e a i s = Inr (v, s') \<Longrightarrow> gv_core t s'"
    and "gv_cancel e a i s = Inr (v, s') \<Longrightarrow> gv_core t s'"
proof -
  have tally: "gv_tally ty (p\<lparr>pr_eta := x\<rparr>) = gv_tally ty p" "gv_tally ty (p\<lparr>pr_executed := b\<rparr>) = gv_tally ty p"
      "gv_tally ty (p\<lparr>pr_canceled := b\<rparr>) = gv_tally ty p" for ty p x b by (cases ty; simp)+
  {
    assume "gv_queue e a i s = Inr (v, s')"
    then show "gv_core t s'"
    proof (cases rule: gv_queue_Inr)
      case (1 p d)
      have "gv_proposal_ok i (p\<lparr>pr_eta := env_timestamp e + d\<rparr>)"
        using gv_core_proposal [OF core 1(1)] 1(2) by (simp add: gv_proposal_ok_def result_iffs)
      then show ?thesis by (rule gv_core_rewrite [OF core 1(1), where w = "gv_tokens s"]) (simp_all add: tally 1(4))
    qed
  next
    assume "gv_execute tr e a i s = Inr (v, s')"
    then show "gv_core t s'"
    proof (cases rule: gv_execute_Inr)
      case (1 p w')
      have "gv_proposal_ok i (p\<lparr>pr_executed := True\<rparr>)"
        using gv_core_proposal [OF core 1(2)] 1(3) by (simp add: gv_proposal_ok_def result_iffs)
      then show ?thesis by (rule gv_core_rewrite [OF core 1(2)]) (simp_all add: tally 1(6))
    qed
  next
    assume "gv_cancel e a i s = Inr (v, s')"
    then show "gv_core t s'"
    proof (cases rule: gv_cancel_Inr)
      case (1 p)
      have "gv_proposal_ok i (p\<lparr>pr_canceled := True\<rparr>)"
        using gv_core_proposal [OF core 1(1)] 1(2) by (simp add: gv_proposal_ok_def)
      then show ?thesis by (rule gv_core_rewrite [OF core 1(1), where w = "gv_tokens s"]) (simp_all add: tally 1(4))
    qed
  }
qed

lemma gv_core_delegations:
  assumes core: "gv_core t s" and "gv_delegations_ok s'"
    and "gv_proposal s' = gv_proposal s" and "gv_proposal_count s' = gv_proposal_count s" and "gv_vote s' = gv_vote s"
    and "gv_ve_lock s' = gv_ve_lock s" and "gv_admin s' = gv_admin s" and "gv_voting_token s' = gv_voting_token s"
  shows "gv_core t s'"
  by (rule gv_coreI [OF gv_proposals_ok_frame [OF core] gv_votes_ok_frame [OF core] assms(2) gv_locks_ok_frame [OF core]
      gv_config_ok_frame [OF core]]) (simp_all add: assms)

lemma gv_core_delegate:
  assumes core: "gv_core t s" and run: "gv_delegate bal e a b n s = Inr (v, s')"
  shows "gv_core t s'"
  using run
proof (cases rule: gv_delegate_Inr)
  case (1 tok)
  have fin: "finite (dom (gv_delegation s))" using core by (simp add: gv_core_def gv_delegations_ok_def)
  have "gv_get_delegated_power x s' = entry_sum (gv_delegated_to x) (gv_delegation s')" for x
    using core 1(3) fin by (auto simp: gv_core_def gv_delegations_ok_def 1(6) entry_sum_upd gv_delegated_to_def gv_get_delegated_power_def)
  then have "gv_delegations_ok s'"
    using core 1(2) unfolding gv_core_def gv_delegations_ok_def by (auto simp: 1(6))
  then show ?thesis by (rule gv_core_delegations [OF core]) (simp_all add: 1(6))
qed

lemma gv_core_revoke:
  assumes core: "gv_core t s" and run: "gv_revoke_delegation e a s = Inr (v, s')"
  shows "gv_core t s'"
  using run
proof (cases rule: gv_revoke_Inr)
  case (1 d)
  have fin: "finite (dom (gv_delegation s))" using core by (simp add: gv_core_def gv_delegations_ok_def)
  have "gv_get_delegated_power x s' = entry_sum (gv_delegated_to x) (gv_delegation s')" for x
    using core 1(1) fin by (auto simp: gv_core_def gv_delegations_ok_def 1(2) entry_sum_del gv_delegated_to_def gv_get_delegated_power_def)
  then have "gv_delegations_ok s'"
    using core fin unfolding gv_core_def gv_delegations_ok_def by (auto simp: 1(2))
  then show ?thesis by (rule gv_core_delegations [OF core]) (simp_all add: 1(2))
qed

lemma gv_core_locks:
  assumes core: "gv_core t s" and ok: "gv_locks_ok t (s\<lparr>gv_ve_lock := l\<rparr>)"
  shows "gv_core t (s\<lparr>gv_ve_lock := l\<rparr>)"
  by (rule gv_coreI [OF gv_proposals_ok_frame [OF core] gv_votes_ok_frame [OF core] gv_delegations_ok_frame [OF core] ok
      gv_config_ok_frame [OF core]]) simp_all

lemma gv_core_lock:
  assumes core: "gv_core (env_timestamp e) s"
  shows "gv_lock_tokens bal e a n d s = Inr (v, s') \<Longrightarrow> gv_core (env_timestamp e) s'"
    and "gv_withdraw_tokens e a s = Inr (v, s') \<Longrightarrow> gv_core (env_timestamp e) s'"
proof -
  assume "gv_lock_tokens bal e a n d s = Inr (v, s')"
  then show "gv_core (env_timestamp e) s'"
  proof (cases rule: gv_lock_Inr)
    case (1 tok)
    show ?thesis
      unfolding 1(6) by (rule gv_core_locks [OF core]) (use core 1(2,4) in \<open>auto simp: gv_core_def gv_locks_ok_def\<close>)
  qed
next
  assume "gv_withdraw_tokens e a s = Inr (v, s')"
  then show "gv_core (env_timestamp e) s'"
  proof (cases rule: gv_withdraw_Inr)
    case (1 k)
    show ?thesis
      unfolding 1(3) by (rule gv_core_locks [OF core]) (use core in \<open>auto simp: gv_core_def gv_locks_ok_def\<close>)
  qed
qed

lemma gv_core_params:
  assumes core: "gv_core t s" and run: "gv_set_voting_params e a d p l q h s = Inr (v, s')"
  shows "gv_core t s'"
proof -
  have s': "s' = s\<lparr>gv_voting_delay := gv_given d (gv_voting_delay s), gv_voting_period := gv_given p (gv_voting_period s),
      gv_timelock_delay := gv_given l (gv_timelock_delay s), gv_quorum := gv_given q (gv_quorum s),
      gv_approval_threshold := gv_given h (gv_approval_threshold s)\<rparr>"
    using run by (auto simp: gv_set_voting_params_def result_iffs)
  have "gv_delegations_ok s'" by (rule gv_delegations_ok_frame [OF core]) (simp_all add: s')
  then show ?thesis by (rule gv_core_delegations [OF core]) (simp_all add: s')
qed

lemma gv_core_call:
  assumes core: "gv_core (env_timestamp e) s" and run: "gv_exec tr bal e c s = Some s'"
  shows "gv_core (env_timestamp e) s'"
  using run
  by (cases c)
     (simp_all only: gv_exec.simps state_of_eq_Some,
      (elim exE, erule gv_core_initialize [OF core] gv_core_propose [OF core] gv_core_cast_vote [OF core] gv_core_lifecycle [OF core]
        gv_core_delegate [OF core] gv_core_revoke [OF core] gv_core_lock [OF core] gv_core_params [OF core])+)

end
