(* ===== verification/Governance_Lifecycle.thy ===== *)
theory Governance_Lifecycle
  imports Governance_Correct
begin

text \<open>
  The Governance contract as a transition system: the treasury against the executed proposals, the
  lifecycle of a proposal as a step relation the contract refines, and the properties of the contract.
\<close>

section \<open>The treasury\<close>

text \<open>What a list of actions takes of one token.\<close>

fun gv_outflow :: "address \<Rightarrow> proposal_action list \<Rightarrow> i128" where
  "gv_outflow tok [] = 0"
| "gv_outflow tok (PaTransfer token dst amount # actions) = (if token = tok then amount else 0) + gv_outflow tok actions"

definition gv_spent_by :: "address \<Rightarrow> proposal \<Rightarrow> i128" where
  "gv_spent_by tok p = (if pr_executed p then gv_outflow tok (pr_actions p) else 0)"

definition gv_spent :: "address \<Rightarrow> 'w gv_state \<Rightarrow> i128" where
  "gv_spent tok s = entry_sum (gv_spent_by tok) (gv_proposal s)"

definition gv_inv :: "'w token_balance \<Rightarrow> address \<Rightarrow> 'w \<Rightarrow> u64 \<Rightarrow> 'w gv_state \<Rightarrow> bool" where
  "gv_inv bal self w t s \<longleftrightarrow> gv_core t s \<and> (\<forall>tok. bal w tok self \<le> bal (gv_tokens s) tok self + gv_spent tok s)"

definition gv_adm :: "address \<Rightarrow> env \<Rightarrow> gv_call \<Rightarrow> bool" where
  "gv_adm self e c \<longleftrightarrow> env_self e = self"

definition gv_drift :: "'w token_balance \<Rightarrow> address \<Rightarrow> 'w gv_state \<Rightarrow> 'w gv_state \<Rightarrow> bool" where
  "gv_drift bal self s s' \<longleftrightarrow>
     (\<exists>w. s' = s\<lparr>gv_tokens := w\<rparr> \<and> (\<forall>tok. bal (gv_tokens s) tok self \<le> bal w tok self))"

lemma gv_spent_upd:
  assumes "gv_core t s" and "gv_proposal s i = Some p" and "gv_proposal s' = (gv_proposal s)(i \<mapsto> p')"
  shows "gv_spent tok s' = gv_spent tok s - gv_spent_by tok p + gv_spent_by tok p'"
  using assms(2) by (simp add: gv_spent_def assms(3) entry_sum_upd gv_core_finite [OF assms(1)])

text \<open>Only \<open>execute\<close> moves tokens, and only \<open>execute\<close> changes what has been spent.\<close>

lemma gv_call_quiet:
  assumes core: "gv_core t s" and run: "gv_exec tr bal e c s = Some s'" and c: "\<And>a i. c \<noteq> GvExecute a i"
  shows "gv_tokens s' = gv_tokens s \<and> gv_spent tok s' = gv_spent tok s"
proof -
  have same: "gv_spent tok s' = gv_spent tok s"
    if "gv_proposal s i = Some p" "gv_proposal s' = (gv_proposal s)(i \<mapsto> p')" "pr_executed p' = pr_executed p" "pr_actions p' = pr_actions p" for i p p'
    using gv_spent_upd [OF core that(1,2)] that(3,4) by (simp add: gv_spent_by_def)
  show ?thesis
  proof (cases c)
    case (GvPropose a d ts fs cs acts)
    with run obtain i where "gv_propose bal e a d ts fs cs acts s = Inr (i, s')" by (auto simp: state_of_eq_Some)
    then show ?thesis
    proof (cases rule: gv_propose_Inr)
      case (1 v m vs ve)
      have "gv_proposal s i \<noteq> None \<longleftrightarrow> i < gv_count s" by (rule gv_core_dom [OF core])
      with 1(4) have "gv_proposal s i = None" by (simp add: gv_count_def)
      then show ?thesis by (simp add: 1(8) gv_spent_def entry_sum_upd gv_core_finite [OF core] gv_spent_by_def)
    qed
  next
    case (GvCastVote a i ty)
    with run obtain v where "gv_cast_vote bal e a i ty s = Inr (v, s')" by (auto simp: state_of_eq_Some)
    then show ?thesis
    proof (cases rule: gv_cast_vote_Inr)
      case (1 p n p')
      show ?thesis using same [OF 1(2), of p'] gv_count_vote_Inr [OF 1(8)] by (simp add: 1(9))
    qed
  next
    case (GvQueue a i)
    with run obtain v where "gv_queue e a i s = Inr (v, s')" by (auto simp: state_of_eq_Some)
    then show ?thesis
    proof (cases rule: gv_queue_Inr)
      case (1 p d)
      show ?thesis using same [OF 1(1), of "p\<lparr>pr_eta := env_timestamp e + d\<rparr>"] by (simp add: 1(4))
    qed
  next
    case (GvCancel a i)
    with run obtain v where "gv_cancel e a i s = Inr (v, s')" by (auto simp: state_of_eq_Some)
    then show ?thesis
    proof (cases rule: gv_cancel_Inr)
      case (1 p)
      show ?thesis using same [OF 1(1), of "p\<lparr>pr_canceled := True\<rparr>"] by (simp add: 1(4))
    qed
  next
    case (GvDelegate a b n)
    with run show ?thesis by (auto simp: state_of_eq_Some gv_spent_def elim!: gv_delegate_Inr)
  next
    case (GvRevokeDelegation a)
    with run show ?thesis by (auto simp: state_of_eq_Some gv_spent_def elim!: gv_revoke_Inr)
  next
    case (GvLockTokens a n d)
    with run show ?thesis by (auto simp: state_of_eq_Some gv_spent_def elim!: gv_lock_Inr)
  next
    case (GvWithdrawTokens a)
    with run show ?thesis by (auto simp: state_of_eq_Some gv_spent_def elim!: gv_withdraw_Inr)
  qed (use run c in \<open>auto simp: state_of_eq_Some gv_spent_def gv_initialize_def gv_set_voting_params_def result_iffs\<close>)
qed

context token_contract
begin

lemma gv_actions_balance:
  "gv_run_actions transfer e acts w = Inr w' \<Longrightarrow> balance w tok self - gv_outflow tok acts \<le> balance w' tok self"
proof (induction acts arbitrary: w)
  case (Cons act acts)
  obtain token dst n where act: "act = PaTransfer token dst n" by (cases act)
  from Cons.prems act obtain w1 where w1: "transfer e token (env_self e) dst n w = Some w1" "gv_run_actions transfer e acts w1 = Inr w'"
    by (auto simp: result_iffs)
  from balance_src_ge [OF w1(1), of tok self] Cons.IH [OF w1(2)] show ?case by (auto simp: act split: if_splits)
qed simp

lemma gv_actions_exact:
  assumes "gv_run_actions transfer e acts w = Inr w'" and "\<forall>token dst n. PaTransfer token dst n \<in> set acts \<longrightarrow> dst \<noteq> env_self e"
  shows "balance w' tok (env_self e) = balance w tok (env_self e) - gv_outflow tok acts"
  using assms
proof (induction acts arbitrary: w)
  case (Cons act acts)
  obtain token dst n where act: "act = PaTransfer token dst n" by (cases act)
  from Cons.prems act obtain w1 where w1: "transfer e token (env_self e) dst n w = Some w1" "gv_run_actions transfer e acts w1 = Inr w'"
    by (auto simp: result_iffs)
  have "dst \<noteq> env_self e" using Cons.prems(2) act by auto
  with transfer_moves [OF w1(1), of tok "env_self e"] Cons.IH [OF w1(2)] Cons.prems(2) show ?case by (auto simp: act)
qed simp

end

sublocale token_contract \<subseteq> gvm: contract_machine "gv_exec transfer balance" "gv_adm self" "gv_drift balance self"
  "gv_inv balance self w" "gv_fresh w" for self w
proof unfold_locales
  have "gv_core 0 (gv_fresh w)"
    by (rule gv_coreI) (simp_all add: gv_fresh_def gv_proposals_ok_def gv_votes_ok_def gv_delegations_ok_def gv_locks_ok_def gv_config_ok_def
        gv_count_def gv_get_delegated_power_def)
  moreover have "gv_spent tok (gv_fresh w) = 0" "gv_tokens (gv_fresh w) = w" for tok by (simp_all add: gv_spent_def gv_fresh_def)
  ultimately show "gv_inv balance self w 0 (gv_fresh w)" by (simp add: gv_inv_def)
next
  fix t t' s
  assume "gv_inv balance self w t s" "t \<le> t'"
  then show "gv_inv balance self w t' s" by (auto simp: gv_inv_def intro: gv_core_time)
next
  fix t s s'
  assume inv: "gv_inv balance self w t s" and "gv_drift balance self s s'"
  then obtain x where x: "s' = s\<lparr>gv_tokens := x\<rparr>" "\<And>tok. balance (gv_tokens s) tok self \<le> balance x tok self"
    by (auto simp: gv_drift_def)
  have core: "gv_core t s" using inv by (simp add: gv_inv_def)
  have "gv_delegations_ok s'" by (rule gv_delegations_ok_frame [OF core]) (simp_all add: x(1))
  then have "gv_core t s'" by (rule gv_core_delegations [OF core]) (simp_all add: x(1))
  moreover have "balance w tok self \<le> balance (gv_tokens s') tok self + gv_spent tok s'" for tok
  proof -
    have "balance w tok self \<le> balance (gv_tokens s) tok self + gv_spent tok s" using inv by (simp add: gv_inv_def)
    with x(2) [of tok] show ?thesis by (simp add: x(1) gv_spent_def)
  qed
  ultimately show "gv_inv balance self w t s'" by (simp add: gv_inv_def)
next
  fix e c s s'
  assume inv: "gv_inv balance self w (env_timestamp e) s" and adm: "gv_adm self e c" and run: "gv_exec transfer balance e c s = Some s'"
  have core: "gv_core (env_timestamp e) s" using inv by (simp add: gv_inv_def)
  have "balance (gv_tokens s) tok self + gv_spent tok s \<le> balance (gv_tokens s') tok self + gv_spent tok s'" for tok
  proof (cases "\<exists>a i. c = GvExecute a i")
    case False
    with gv_call_quiet [OF core run] show ?thesis by auto
  next
    case True
    with run obtain a i v where "gv_execute transfer e a i s = Inr (v, s')" by (auto simp: state_of_eq_Some)
    then show ?thesis
    proof (cases rule: gv_execute_Inr)
      case (1 p w')
      have "\<not> pr_executed p" using 1(3) by (simp add: result_iffs)
      then have "gv_spent tok s' = gv_spent tok s + gv_outflow tok (pr_actions p)"
        using gv_spent_upd [OF core 1(2), of s' "p\<lparr>pr_executed := True\<rparr>"] by (simp add: 1(6) gv_spent_by_def)
      with gv_actions_balance [OF 1(5), of tok self] show ?thesis by (simp add: 1(6))
    qed
  qed
  with inv gv_core_call [OF core run] show "gv_inv balance self w (env_timestamp e) s'" unfolding gv_inv_def by (meson order_trans)
qed

context token_contract
begin

lemma gv_reach_inv:
  "reach (gv_exec transfer balance) (gv_adm self) (gv_drift balance self) (gv_fresh w) t s \<Longrightarrow> gv_inv balance self w t s"
  by (rule gvm.reach_inv)

lemma gv_reach_core:
  "reach (gv_exec transfer balance) (gv_adm self) (gv_drift balance self) (gv_fresh w) t s \<Longrightarrow> gv_core t s"
  using gv_reach_inv by (simp add: gv_inv_def)

end

section \<open>The lifecycle of a proposal\<close>

text \<open>The specification: an open proposal is queued, a queued one is executed, and either can be canceled.\<close>

inductive gv_phase_step :: "gv_phase \<Rightarrow> gv_phase \<Rightarrow> bool" where
  phase_queue: "gv_phase_step PhOpen PhQueued"
| phase_execute: "gv_phase_step PhQueued PhExecuted"
| phase_cancel_open: "gv_phase_step PhOpen PhCanceled"
| phase_cancel_queued: "gv_phase_step PhQueued PhCanceled"

inductive_simps gv_phase_step_simps: "gv_phase_step a b"

code_pred gv_phase_step .

lemma gv_phase_final: "gv_phase_step\<^sup>*\<^sup>* a b \<Longrightarrow> a = PhExecuted \<or> a = PhCanceled \<Longrightarrow> b = a"
  by (induction rule: rtranclp_induct) (auto simp: gv_phase_step_simps)

text \<open>One call moves every existing proposal by at most one step and keeps its terms.\<close>

lemma gv_call_phase:
  assumes core: "gv_core (env_timestamp e) s" and run: "gv_exec tr bal e c s = Some s'" and p: "gv_proposal s i = Some p"
  shows "\<exists>p'. gv_proposal s' i = Some p' \<and> gv_terms p' = gv_terms p \<and> (gv_phase p' = gv_phase p \<or> gv_phase_step (gv_phase p) (gv_phase p'))"
proof (cases c)
  case (GvPropose a d ts fs cs acts)
  with run obtain j where "gv_propose bal e a d ts fs cs acts s = Inr (j, s')" by (auto simp: state_of_eq_Some)
  then show ?thesis
  proof (cases rule: gv_propose_Inr)
    case (1 v m vs ve)
    have "gv_proposal s j \<noteq> None \<longleftrightarrow> j < gv_count s" by (rule gv_core_dom [OF core])
    with 1(4) p have "j \<noteq> i" by (auto simp: gv_count_def)
    with p show ?thesis by (simp add: 1(8))
  qed
next
  case (GvCastVote a j ty)
  with run obtain v where "gv_cast_vote bal e a j ty s = Inr (v, s')" by (auto simp: state_of_eq_Some)
  then show ?thesis
  proof (cases rule: gv_cast_vote_Inr)
    case (1 q n q')
    show ?thesis using p 1(2) gv_count_vote_Inr(2,3) [OF 1(8)] by (auto simp: 1(9))
  qed
next
  case (GvQueue a j)
  with run obtain v where "gv_queue e a j s = Inr (v, s')" by (auto simp: state_of_eq_Some)
  then show ?thesis
  proof (cases rule: gv_queue_Inr)
    case (1 q d)
    show ?thesis using p 1(1,2) by (auto simp: 1(4) result_iffs gv_terms_def gv_phase_def gv_phase_step_simps)
  qed
next
  case (GvExecute a j)
  with run obtain v where "gv_execute tr e a j s = Inr (v, s')" by (auto simp: state_of_eq_Some)
  then show ?thesis
  proof (cases rule: gv_execute_Inr)
    case (1 q w')
    show ?thesis using p 1(2,3) by (auto simp: 1(6) result_iffs gv_terms_def gv_phase_def gv_phase_step_simps)
  qed
next
  case (GvCancel a j)
  with run obtain v where "gv_cancel e a j s = Inr (v, s')" by (auto simp: state_of_eq_Some)
  then show ?thesis
  proof (cases rule: gv_cancel_Inr)
    case (1 q)
    show ?thesis using p 1(1,2) by (auto simp: 1(4) gv_terms_def gv_phase_def gv_phase_step_simps)
  qed
next
  case (GvDelegate a b n)
  with run p show ?thesis by (auto simp: state_of_eq_Some elim!: gv_delegate_Inr)
next
  case (GvRevokeDelegation a)
  with run p show ?thesis by (auto simp: state_of_eq_Some elim!: gv_revoke_Inr)
next
  case (GvLockTokens a n d)
  with run p show ?thesis by (auto simp: state_of_eq_Some elim!: gv_lock_Inr)
next
  case (GvWithdrawTokens a)
  with run p show ?thesis by (auto simp: state_of_eq_Some elim!: gv_withdraw_Inr)
qed (use run p in \<open>auto simp: state_of_eq_Some gv_initialize_def gv_set_voting_params_def result_iffs\<close>)

context token_contract
begin

lemma gv_run_phase:
  assumes "reach (gv_exec transfer balance) (gv_adm self) (gv_drift balance self) (gv_fresh w) t s"
    and "trace_ok (gv_adm self) t cs" and "gv_proposal s i = Some p"
  shows "\<exists>p'. gv_proposal (run_calls (gv_exec transfer balance) cs s) i = Some p' \<and> gv_terms p' = gv_terms p \<and>
    gv_phase_step\<^sup>*\<^sup>* (gv_phase p) (gv_phase p')"
  using assms
proof (induction cs arbitrary: t s p)
  case (Cons ec cs)
  obtain e c where ec: "ec = (e, c)" by (cases ec)
  have tick: "reach (gv_exec transfer balance) (gv_adm self) (gv_drift balance self) (gv_fresh w) (env_timestamp e) s"
    using Cons.prems ec by (auto intro: reach_tick)
  show ?case
  proof (cases "gv_exec transfer balance e c s")
    case None
    with Cons.IH [OF tick _ Cons.prems(3)] Cons.prems(2) ec show ?thesis by simp
  next
    case (Some s1)
    have after: "reach (gv_exec transfer balance) (gv_adm self) (gv_drift balance self) (gv_fresh w) (env_timestamp e) s1"
      by (rule reach_call [OF tick refl _ Some]) (use Cons.prems(2) ec in simp)
    obtain q where q: "gv_proposal s1 i = Some q" "gv_terms q = gv_terms p" "gv_phase_step\<^sup>*\<^sup>* (gv_phase p) (gv_phase q)"
      using gv_call_phase [OF gv_reach_core [OF tick] Some Cons.prems(3)] by auto
    from Cons.IH [OF after _ q(1)] Cons.prems(2) ec Some q(2,3) show ?thesis by (auto intro: rtranclp_trans)
  qed
qed auto

end

section \<open>A sample deployment\<close>

definition gv_env :: "nat \<Rightarrow> nat \<Rightarrow> env" where
  "gv_env t q = \<lparr>env_timestamp = t, env_auth = (\<lambda>a. a \<noteq> Addr 0), env_self = Addr 0, env_sequence = q\<rparr>"

lemma gv_env_simps [simp]:
  "env_timestamp (gv_env t q) = t" "env_auth (gv_env t q) a = (a \<noteq> Addr 0)" "env_self (gv_env t q) = Addr 0" "env_sequence (gv_env t q) = q"
  by (simp_all add: gv_env_def)

definition gv_world :: mock_world where
  "gv_world = (\<lambda>_. Map.empty)(Addr 50 := [Addr 1 \<mapsto> 1000, Addr 2 \<mapsto> 500, Addr 0 \<mapsto> 5000])"

definition gv_demo_calls :: "(env \<times> gv_call) list" where
  "gv_demo_calls =
     [(gv_env 1000 1, GvInitialize (Addr 7) (Addr 50) 1 10 100 2000 5000 100 4000),
      (gv_env 1001 2, GvPropose (Addr 1) ''grant'' [] [] [] [PaTransfer (Addr 50) (Addr 3) 700]),
      (gv_env 1002 3, GvCastVote (Addr 1) 0 VoteFor),
      (gv_env 1003 4, GvCastVote (Addr 2) 0 VoteAgainst),
      (gv_env 2000 14, GvQueue (Addr 9) 0)]"

definition gv_demo_proposal :: proposal where
  "gv_demo_proposal = \<lparr>pr_id = 0, pr_proposer = Addr 1, pr_description = ''grant'', pr_targets = [], pr_functions = [], pr_calldatas = [],
     pr_vote_start = 3, pr_vote_end = 13, pr_eta = 2100, pr_for_votes = 1000, pr_against_votes = 500, pr_abstain_votes = 0,
     pr_actions = [PaTransfer (Addr 50) (Addr 3) 700], pr_canceled = False, pr_executed = False, pr_created_at = 1001\<rparr>"

definition gv_demo :: "mock_world gv_state" where
  "gv_demo = \<lparr>gv_admin = Some (Addr 7), gv_voting_token = Some (Addr 50), gv_proposal_count = Some 1, gv_voting_delay = Some 1,
     gv_voting_period = Some 10, gv_timelock_delay = Some 100, gv_quorum = Some 2000, gv_approval_threshold = Some 5000,
     gv_proposal_threshold = Some 100, gv_total_supply = Some 4000, gv_proposal = [0 \<mapsto> gv_demo_proposal],
     gv_vote = (\<lambda>_ _. None)(0 := [Addr 1 \<mapsto> \<lparr>pv_has_voted = True, pv_vote_type = VoteFor, pv_weight = 1000\<rparr>,
       Addr 2 \<mapsto> \<lparr>pv_has_voted = True, pv_vote_type = VoteAgainst, pv_weight = 500\<rparr>]),
     gv_delegation = (\<lambda>_. None), gv_delegated_power = (\<lambda>_. None), gv_ve_lock = (\<lambda>_. None), gv_tokens = gv_world\<rparr>"

lemmas gv_eval = gv_initialize_def gv_propose_def gv_cast_vote_def gv_queue_def gv_execute_def gv_delegate_def gv_lock_tokens_def
  gv_get_voting_power_def gv_get_token_balance_def gv_calculate_ve_balance_def gv_get_delegated_power_def gv_get_proposal_from_storage_def
  gv_proposal_state_def gv_passed_def gv_quorum_reached_def gv_threshold_reached_def gv_safe_add_def gv_safe_sub_def gv_mul_def gv_add_u64_def
  gv_grace_period_def MIN_LOCK_DURATION_def MAX_LOCK_DURATION_def require_auth_def call_token_def mock_world_transfer_def mock_transfer_def
  mock_balance_def mock_world_balance_def div_i128_nonneg Let_def arith_defs

lemma gv_demo_run: "run_calls (gv_exec mock_world_transfer mock_world_balance) gv_demo_calls (gv_fresh gv_world) = gv_demo"
  by (simp add: gv_demo_calls_def gv_demo_def gv_demo_proposal_def gv_world_def gv_fresh_def gv_eval)

lemma gv_demo_reach:
  "reach (gv_exec mock_world_transfer mock_world_balance) (gv_adm (Addr 0)) (gv_drift mock_world_balance (Addr 0)) (gv_fresh gv_world) 2000 gv_demo"
  using reach_run [of "gv_adm (Addr 0)" gv_demo_calls "gv_exec mock_world_transfer mock_world_balance" "gv_drift mock_world_balance (Addr 0)" "gv_fresh gv_world"]
  by (simp add: gv_demo_run) (simp add: gv_demo_calls_def gv_adm_def)

section \<open>Properties\<close>

lemma gv_weight_sum:
  assumes "finite (dom m)"
  shows "entry_sum pv_weight m = entry_sum (gv_weight VoteFor) m + entry_sum (gv_weight VoteAgainst) m + entry_sum (gv_weight VoteAbstain) m"
proof -
  have "pv_weight v = gv_weight VoteFor v + gv_weight VoteAgainst v + gv_weight VoteAbstain v" for v
    by (cases "pv_vote_type v") (simp_all add: gv_weight_def)
  then show ?thesis by (simp add: entry_sum_def sum.distrib)
qed

text \<open>
  C27. The books are exact. In every reachable state the proposals are numbered from zero without gaps as
  \<open>get_proposal_ids\<close> lists them, the three tallies of a proposal are the sums of the recorded weights of
  its votes of each kind (one record per voter), and the delegated power of an account is the sum of the
  delegations made to it.
\<close>

theorem gv_books_exact:
  assumes "token_contract tr bal" and "reach (gv_exec tr bal) (gv_adm self) (gv_drift bal self) (gv_fresh w) t s"
  shows "(\<forall>i. gv_proposal s i \<noteq> None \<longleftrightarrow> i \<in> set (gv_get_proposal_ids s)) \<and>
    (\<forall>i p. gv_proposal s i = Some p \<longrightarrow> pr_id p = i \<and>
       pr_for_votes p = entry_sum (\<lambda>v. if pv_vote_type v = VoteFor then pv_weight v else 0) (gv_vote s i) \<and>
       pr_against_votes p = entry_sum (\<lambda>v. if pv_vote_type v = VoteAgainst then pv_weight v else 0) (gv_vote s i) \<and>
       pr_abstain_votes p = entry_sum (\<lambda>v. if pv_vote_type v = VoteAbstain then pv_weight v else 0) (gv_vote s i)) \<and>
    (\<forall>a. gv_get_delegated_power a s = entry_sum (\<lambda>d. if dg_delegatee d = a then dg_amount d else 0) (gv_delegation s))"
proof -
  have core: "gv_core t s" by (rule token_contract.gv_reach_core [OF assms])
  have fn: "gv_weight ty = (\<lambda>v. if pv_vote_type v = ty then pv_weight v else 0)" "gv_delegated_to a = (\<lambda>d. if dg_delegatee d = a then dg_amount d else 0)" for ty a
    by (simp_all add: gv_weight_def gv_delegated_to_def fun_eq_iff)
  have "gv_proposal s i \<noteq> None \<longleftrightarrow> i \<in> set (gv_get_proposal_ids s)" for i
    using gv_core_dom [OF core, of i] by (simp only: gv_get_proposal_ids_def gv_count_def Let_def set_upt atLeastLessThan_iff) simp
  moreover have "gv_tally ty p = entry_sum (\<lambda>v. if pv_vote_type v = ty then pv_weight v else 0) (gv_vote s i)" if "gv_proposal s i = Some p" for i p ty
    using core that unfolding gv_core_def gv_votes_ok_def fn by blast
  from this [where ty = VoteFor] this [where ty = VoteAgainst] this [where ty = VoteAbstain] have
    "pr_for_votes p = entry_sum (\<lambda>v. if pv_vote_type v = VoteFor then pv_weight v else 0) (gv_vote s i) \<and>
     pr_against_votes p = entry_sum (\<lambda>v. if pv_vote_type v = VoteAgainst then pv_weight v else 0) (gv_vote s i) \<and>
     pr_abstain_votes p = entry_sum (\<lambda>v. if pv_vote_type v = VoteAbstain then pv_weight v else 0) (gv_vote s i)" if "gv_proposal s i = Some p" for i p
    using that by simp
  moreover have "pr_id p = i" if "gv_proposal s i = Some p" for i p
    using gv_core_proposal [OF core that] by (simp add: gv_proposal_ok_def)
  moreover have "gv_get_delegated_power a s = entry_sum (\<lambda>d. if dg_delegatee d = a then dg_amount d else 0) (gv_delegation s)" for a
    using core unfolding gv_core_def gv_delegations_ok_def fn by blast
  ultimately show ?thesis by blast
qed

theorem gv_books_exact_witness:
  "1000 = entry_sum (\<lambda>v. if pv_vote_type v = VoteFor then pv_weight v else 0) (gv_vote gv_demo 0) \<and> gv_get_proposal_ids gv_demo = [0]"
proof -
  have p: "gv_proposal gv_demo 0 = Some gv_demo_proposal" "pr_for_votes gv_demo_proposal = 1000" by (simp_all add: gv_demo_def gv_demo_proposal_def)
  from gv_books_exact [OF mock.token_contract_axioms gv_demo_reach, THEN conjunct2, THEN conjunct1, rule_format, OF p(1)] p(2)
  have "1000 = entry_sum (\<lambda>v. if pv_vote_type v = VoteFor then pv_weight v else 0) (gv_vote gv_demo 0)" by simp
  moreover have "gv_get_proposal_ids gv_demo = [0]" by (simp add: gv_demo_def gv_get_proposal_ids_def)
  ultimately show ?thesis ..
qed

text \<open>
  C5. Execution is guarded. When \<open>execute\<close> succeeds in a reachable state, the caller authorised it, the
  proposal was neither canceled nor executed, its voting window is over, its timelock has passed and the
  grace period of 14 days has not, the recorded votes reach the quorum of the supply and the approvals
  the threshold of the votes for and against; the transfers of the proposal have been made, which cost
  the contract exactly their amounts unless one of them pays the contract itself, and no later call of
  \<open>execute\<close> on it can succeed.
\<close>

theorem gv_execution_guarded:
  assumes "token_contract tr bal" and "reach (gv_exec tr bal) (gv_adm self) (gv_drift bal self) (gv_fresh w) t s"
    and "gv_execute tr e caller i s = Inr (v, s')" and "gv_proposal s i = Some p"
  shows "env_auth e caller \<and> \<not> pr_canceled p \<and> \<not> pr_executed p \<and> pr_vote_end p < env_sequence e \<and>
    pr_eta p \<noteq> 0 \<and> pr_eta p \<le> env_timestamp e \<and> env_timestamp e \<le> pr_eta p + 14 * 24 * 60 * 60 \<and>
    (\<exists>q h. gv_quorum s = Some q \<and> gv_approval_threshold s = Some h \<and>
       unwrap_or 0 (gv_total_supply s) * q \<le> entry_sum pv_weight (gv_vote s i) * 10000 \<and>
       (pr_for_votes p + pr_against_votes p) * h \<le> pr_for_votes p * 10000) \<and>
    gv_run_actions tr e (pr_actions p) (gv_tokens s) = Inr (gv_tokens s') \<and>
    gv_proposal s' i = Some (p\<lparr>pr_executed := True\<rparr>) \<and>
    ((\<forall>k dst n. PaTransfer k dst n \<in> set (pr_actions p) \<longrightarrow> dst \<noteq> env_self e) \<longrightarrow>
       bal (gv_tokens s') tok (env_self e) = bal (gv_tokens s) tok (env_self e) - gv_outflow tok (pr_actions p)) \<and>
    (\<forall>tr' e' caller' r. gv_execute tr' e' caller' i s' \<noteq> Inr r)"
proof -
  have core: "gv_core t s" by (rule token_contract.gv_reach_core [OF assms(1,2)])
  have fin: "finite (dom (gv_vote s i))" and tally: "\<And>ty. gv_tally ty p = entry_sum (gv_weight ty) (gv_vote s i)"
    using core assms(4) by (simp_all add: gv_core_def gv_votes_ok_def)
  from assms(3) show ?thesis
  proof (cases rule: gv_execute_Inr)
    case (1 p' w')
    have [simp]: "p' = p" using 1(2) assms(4) by simp
    have votes: "entry_sum pv_weight (gv_vote s i) = pr_for_votes p + pr_against_votes p + pr_abstain_votes p"
      using gv_weight_sum [OF fin] tally [of VoteFor] tally [of VoteAgainst] tally [of VoteAbstain] by simp
    have q: "\<not> pr_canceled p" "pr_vote_end p < env_sequence e" "gv_passed p s = Inr True" "\<not> pr_executed p" "pr_eta p \<noteq> 0"
        "env_timestamp e \<le> pr_eta p + gv_grace_period"
      using 1(3) by (simp_all add: result_iffs)
    have "gv_execute tr' e' caller' i s' \<noteq> Inr r" for tr' :: "'a token_transfer" and e' caller' r
      by (cases r) (auto simp: 1(6) gv_execute_def result_iffs)
    moreover have "bal w' tok (env_self e) = bal (gv_tokens s) tok (env_self e) - gv_outflow tok (pr_actions p)"
      if "\<forall>k dst n. PaTransfer k dst n \<in> set (pr_actions p) \<longrightarrow> dst \<noteq> env_self e"
      using token_contract.gv_actions_exact [OF assms(1) 1(5)] that by simp
    ultimately show ?thesis
      using gv_passed_True [OF q(3)] q 1(1,4,5) unfolding votes by (auto simp: 1(6) gv_grace_period_def)
  qed
qed

theorem gv_execution_guarded_witness:
  "\<exists>s'. gv_execute mock_world_transfer (gv_env 2100 15) (Addr 9) 0 gv_demo = Inr ((), s') \<and>
     4000 * 2000 \<le> entry_sum pv_weight (gv_vote gv_demo 0) * 10000 \<and> mock_world_balance (gv_tokens s') (Addr 50) (Addr 3) = 700 \<and>
     (\<forall>e' caller' r. gv_execute mock_world_transfer e' caller' 0 s' \<noteq> Inr r)"
proof -
  obtain s' where run: "gv_execute mock_world_transfer (gv_env 2100 15) (Addr 9) 0 gv_demo = Inr ((), s')"
      and paid: "mock_world_balance (gv_tokens s') (Addr 50) (Addr 3) = 700"
    by (simp add: gv_demo_def gv_demo_proposal_def gv_world_def gv_eval)
  have "gv_proposal gv_demo 0 = Some gv_demo_proposal" by (simp add: gv_demo_def)
  from gv_execution_guarded [OF mock.token_contract_axioms gv_demo_reach run this] run paid show ?thesis
    by (auto simp: gv_demo_def)
qed

text \<open>
  The treasury is spent by executed proposals only. In every reachable state the balance of the
  contract in any token, together with what the executed proposals transferred of it, is at least the
  initial balance; any other call leaves all token balances untouched.
\<close>

theorem gv_treasury_accounted:
  assumes "token_contract tr bal" and "reach (gv_exec tr bal) (gv_adm self) (gv_drift bal self) (gv_fresh w) t s"
    and "gv_exec tr bal e c s = Some s'" and "\<forall>a i. c \<noteq> GvExecute a i"
  shows "bal w tok self \<le> bal (gv_tokens s) tok self
      + entry_sum (\<lambda>p. if pr_executed p then gv_outflow tok (pr_actions p) else 0) (gv_proposal s) \<and>
    gv_tokens s' = gv_tokens s"
proof -
  have inv: "gv_core t s" "bal w tok self \<le> bal (gv_tokens s) tok self + gv_spent tok s"
    using token_contract.gv_reach_inv [OF assms(1,2)] by (auto simp: gv_inv_def)
  have "gv_spent_by tok = (\<lambda>p. if pr_executed p then gv_outflow tok (pr_actions p) else 0)" by (simp add: gv_spent_by_def fun_eq_iff)
  with inv(2) gv_call_quiet [OF inv(1) assms(3)] assms(4) show ?thesis by (simp add: gv_spent_def)
qed

theorem gv_treasury_accounted_witness:
  "\<exists>s'. gv_exec mock_world_transfer mock_world_balance (gv_env 2001 15) (GvCancel (Addr 1) 0) gv_demo = Some s' \<and> gv_tokens s' = gv_tokens gv_demo \<and>
     5000 \<le> mock_world_balance (gv_tokens gv_demo) (Addr 50) (Addr 0)
       + entry_sum (\<lambda>p. if pr_executed p then gv_outflow (Addr 50) (pr_actions p) else 0) (gv_proposal gv_demo)"
proof -
  obtain s' where run: "gv_exec mock_world_transfer mock_world_balance (gv_env 2001 15) (GvCancel (Addr 1) 0) gv_demo = Some s'"
    by (simp add: gv_cancel_def gv_demo_def gv_demo_proposal_def gv_eval)
  have "mock_world_balance gv_world (Addr 50) (Addr 0) = 5000" by (simp add: gv_world_def mock_world_balance_def mock_balance_def)
  with gv_treasury_accounted [OF mock.token_contract_axioms gv_demo_reach run, of "Addr 50"] run show ?thesis by auto
qed

text \<open>
  C12. The lifecycle is refined. Whatever calls follow on a reachable state, a proposal keeps its terms
  (proposer, text, voting window and actions) and its phase only moves along the specified steps: open to
  queued, queued to executed, and from either to canceled. An executed or canceled proposal stays so.
\<close>

theorem gv_lifecycle_refined:
  assumes "token_contract tr bal" and "reach (gv_exec tr bal) (gv_adm self) (gv_drift bal self) (gv_fresh w) t s"
    and "trace_ok (gv_adm self) t cs" and "gv_proposal s i = Some p"
  shows "\<exists>p'. gv_proposal (run_calls (gv_exec tr bal) cs s) i = Some p' \<and> gv_terms p' = gv_terms p \<and>
    gv_phase_step\<^sup>*\<^sup>* (gv_phase p) (gv_phase p') \<and>
    (gv_phase p = PhExecuted \<or> gv_phase p = PhCanceled \<longrightarrow> gv_phase p' = gv_phase p)"
  using token_contract.gv_run_phase [OF assms] gv_phase_final by blast

definition gv_final_calls :: "(env \<times> gv_call) list" where
  "gv_final_calls = [(gv_env 2100 15, GvExecute (Addr 9) 0), (gv_env 2200 16, GvCancel (Addr 7) 0)]"

theorem gv_lifecycle_refined_witness:
  "\<exists>p'. gv_proposal (run_calls (gv_exec mock_world_transfer mock_world_balance) gv_final_calls gv_demo) 0 = Some p' \<and>
     gv_phase_step\<^sup>*\<^sup>* PhQueued (gv_phase p') \<and> gv_phase p' = PhExecuted"
proof -
  have p: "gv_proposal gv_demo 0 = Some gv_demo_proposal" by (simp add: gv_demo_def)
  have "trace_ok (gv_adm (Addr 0)) 2000 gv_final_calls" by (simp add: gv_final_calls_def gv_adm_def)
  from gv_lifecycle_refined [OF mock.token_contract_axioms gv_demo_reach this p]
  obtain p' where p': "gv_proposal (run_calls (gv_exec mock_world_transfer mock_world_balance) gv_final_calls gv_demo) 0 = Some p'"
      "gv_phase_step\<^sup>*\<^sup>* (gv_phase gv_demo_proposal) (gv_phase p')" by auto
  moreover have "gv_phase gv_demo_proposal = PhQueued" by (simp add: gv_phase_def gv_demo_proposal_def)
  moreover have "map_option gv_phase (gv_proposal (run_calls (gv_exec mock_world_transfer mock_world_balance) gv_final_calls gv_demo) 0) = Some PhExecuted"
    by (simp add: gv_final_calls_def gv_cancel_def gv_demo_def gv_demo_proposal_def gv_world_def gv_eval gv_phase_def)
  ultimately show ?thesis by auto
qed

context live_token
begin

lemma gv_outflow_nonneg: "\<forall>k dst n. PaTransfer k dst n \<in> set acts \<longrightarrow> 0 < n \<Longrightarrow> 0 \<le> gv_outflow tok acts"
proof (induction acts)
  case (Cons act acts)
  then show ?case by (cases act) (fastforce intro: add_nonneg_nonneg)
qed simp

lemma gv_actions_succeed:
  assumes "\<forall>k dst n. PaTransfer k dst n \<in> set acts \<longrightarrow> 0 < n" and "\<forall>k x. 0 \<le> balance w k x"
    and "\<forall>k. gv_outflow k acts \<le> balance w k (env_self e)" and "\<forall>k x. in_i128 (balance w k x + gv_outflow k acts)"
  shows "\<exists>w'. gv_run_actions transfer e acts w = Inr w'"
  using assms
proof (induction acts arbitrary: w)
  case (Cons act acts)
  obtain tok dst n where act: "act = PaTransfer tok dst n" by (cases act)
  have pos: "0 < n" and rest: "\<forall>k dst n. PaTransfer k dst n \<in> set acts \<longrightarrow> 0 < n" using Cons.prems(1) act by auto
  have out: "0 \<le> gv_outflow k acts" for k by (rule gv_outflow_nonneg [OF rest])
  have need: "(if tok = k then n else 0) + gv_outflow k acts \<le> balance w k (env_self e)"
      "in_i128 (balance w k x + ((if tok = k then n else 0) + gv_outflow k acts))" "0 \<le> balance w k x" for k x
    using Cons.prems(2-4) act by simp_all
  have "in_i128 (balance w tok dst + n)"
    by (rule in_i128_nonneg [OF need(2) [of tok dst]]) (use need(3) [of tok dst] pos out [of tok] in auto)
  then obtain w1 where w1: "transfer e tok (env_self e) dst n w = Some w1"
    using self_payment_succeeds [OF pos, of w tok e dst] need(1) [of tok] out [of tok] by auto
  have moved: "balance w1 k x = balance w k x + (if k = tok \<and> x = dst then n else 0) - (if k = tok \<and> x = env_self e then n else 0)" for k x
    by (rule transfer_moves [OF w1])
  have "\<exists>w'. gv_run_actions transfer e acts w1 = Inr w'"
  proof (rule Cons.IH [OF rest])
    show "\<forall>k x. 0 \<le> balance w1 k x"
    proof (intro allI)
      fix k x show "0 \<le> balance w1 k x" using need(1) [of k] need(3) [of k x] out [of k] pos by (auto simp: moved)
    qed
    show "\<forall>k. gv_outflow k acts \<le> balance w1 k (env_self e)"
    proof
      fix k show "gv_outflow k acts \<le> balance w1 k (env_self e)" using need(1) [of k] pos by (auto simp: moved)
    qed
    show "\<forall>k x. in_i128 (balance w1 k x + gv_outflow k acts)"
    proof (intro allI)
      fix k x
      show "in_i128 (balance w1 k x + gv_outflow k acts)"
        by (rule in_i128_nonneg [OF need(2) [of k x]]) (use need(1) [of k] need(3) [of k x] out [of k] pos in \<open>auto simp: moved\<close>)
    qed
  qed
  with w1 show ?case by (auto simp: act result_iffs)
qed simp

end

text \<open>
  A queued proposal can be executed. In the window between its timelock and the end of the grace
  period, anybody can execute a queued proposal with positive transfers that the treasury covers token by
  token (on a token that honours funded payments, with balances that stay within \<open>i128\<close>).
\<close>

theorem gv_execution_succeeds:
  assumes "live_token tr bal" and "gv_proposal s i = Some p" and "gv_proposal_state e p s = Inr PsQueued" and "pr_eta p \<le> env_timestamp e"
    and "env_auth e caller" and "\<forall>k dst n. PaTransfer k dst n \<in> set (pr_actions p) \<longrightarrow> 0 < n"
    and "\<forall>k x. 0 \<le> bal (gv_tokens s) k x" and "\<forall>k. gv_outflow k (pr_actions p) \<le> bal (gv_tokens s) k (env_self e)"
    and "\<forall>k x. in_i128 (bal (gv_tokens s) k x + gv_outflow k (pr_actions p))"
  shows "\<exists>s'. gv_execute tr e caller i s = Inr ((), s') \<and> gv_proposal s' i = Some (p\<lparr>pr_executed := True\<rparr>)"
proof -
  obtain w' where "gv_run_actions tr e (pr_actions p) (gv_tokens s) = Inr w'"
    using live_token.gv_actions_succeed [OF assms(1,6-9)] by blast
  with assms(2-5) show ?thesis by (simp add: gv_execute_def gv_get_proposal_from_storage_def require_auth_def)
qed

theorem gv_execution_succeeds_witness:
  "\<exists>s'. gv_execute mock_world_transfer (gv_env 2100 15) (Addr 9) 0 gv_demo = Inr ((), s') \<and>
     gv_proposal s' 0 = Some (gv_demo_proposal\<lparr>pr_executed := True\<rparr>)"
proof (rule gv_execution_succeeds [OF mock.live_token_axioms])
  show "gv_proposal gv_demo 0 = Some gv_demo_proposal" by (simp add: gv_demo_def)
  show "gv_proposal_state (gv_env 2100 15) gv_demo_proposal gv_demo = Inr PsQueued"
    by (simp add: gv_demo_def gv_demo_proposal_def gv_eval)
qed (auto simp: gv_demo_def gv_demo_proposal_def gv_world_def mock_world_balance_def mock_balance_def unwrap_or_def arith_defs split: if_splits)

text \<open>
  Delegation counts twice. After a successful delegation of \<open>n\<close> the delegatee votes with \<open>n\<close> more and
  the delegator with as much as before, although the README promises that voting power reflects token
  holdings. In the sample a holder of a quarter of the supply casts half of it.
\<close>

theorem gv_delegation_counts_twice:
  assumes "gv_delegate bal e a b n s = Inr (u, s')" and "gv_get_voting_power bal e' a s = Inr x"
    and "gv_get_voting_power bal e' b s = Inr y" and "in_i128 (y + n)"
  shows "gv_get_voting_power bal e' a s' = Inr x \<and> gv_get_voting_power bal e' b s' = Inr (y + n)"
  using assms(1)
proof (cases rule: gv_delegate_Inr)
  case (1 tok)
  have ve: "gv_calculate_ve_balance e' c s' = gv_calculate_ve_balance e' c s" for c by (simp add: 1(6) gv_calculate_ve_balance_def)
  have tb: "gv_get_token_balance bal c s' = gv_get_token_balance bal c s" for c by (simp add: 1(6) gv_get_token_balance_def)
  have dp: "gv_get_delegated_power a s' = gv_get_delegated_power a s" "gv_get_delegated_power b s' = gv_get_delegated_power b s + n"
    using 1(2) by (simp_all add: 1(6) gv_get_delegated_power_def)
  have "gv_get_voting_power bal e' a s' = Inr x" using assms(2) by (simp add: gv_get_voting_power_def ve tb dp)
  moreover have "gv_get_voting_power bal e' b s' = Inr (y + n)"
    using assms(3,4) by (auto simp: gv_get_voting_power_def ve tb dp Let_def and_then_eq_Inr gv_arith_Inr add.assoc)
  ultimately show ?thesis ..
qed

theorem gv_delegation_counts_twice_witness:
  "\<exists>s'. gv_delegate mock_world_balance (gv_env 2001 15) (Addr 1) (Addr 4) 1000 gv_demo = Inr ((), s') \<and>
     gv_get_voting_power mock_world_balance (gv_env 2002 16) (Addr 1) s' = Inr 1000 \<and>
     gv_get_voting_power mock_world_balance (gv_env 2002 16) (Addr 4) s' = Inr 1000 \<and>
     mock_world_balance (gv_tokens gv_demo) (Addr 50) (Addr 1) = 1000 \<and> mock_world_balance (gv_tokens gv_demo) (Addr 50) (Addr 4) = 0"
proof -
  obtain s' where run: "gv_delegate mock_world_balance (gv_env 2001 15) (Addr 1) (Addr 4) 1000 gv_demo = Inr ((), s')"
    by (simp add: gv_demo_def gv_world_def gv_eval)
  have "gv_get_voting_power mock_world_balance (gv_env 2002 16) (Addr 1) gv_demo = Inr 1000"
      "gv_get_voting_power mock_world_balance (gv_env 2002 16) (Addr 4) gv_demo = Inr 0"
    by (simp_all add: gv_demo_def gv_world_def gv_eval)
  from gv_delegation_counts_twice [OF run this] run show ?thesis
    by (simp add: gv_demo_def gv_world_def mock_world_balance_def mock_balance_def arith_defs)
qed

text \<open>
  A negative delegation takes power away. \<open>delegate\<close> does not check the sign of the amount: anybody
  without a delegation and with a balance that is not negative can lower the voting power of anybody else
  by any amount, without their consent. In the sample the victim's vote in favour counts against.
\<close>

theorem gv_negative_delegation_takes_power:
  assumes "env_auth e a" and "a \<noteq> b" and "gv_delegation s a = None" and "gv_voting_token s = Some tok" and "0 \<le> bal (gv_tokens s) tok a"
    and "0 \<le> n" and "in_i128 (gv_get_delegated_power b s - n)" and "gv_get_voting_power bal e' b s = Inr y" and "in_i128 (y - n)"
  shows "\<exists>s'. gv_delegate bal e a b (- n) s = Inr ((), s') \<and> gv_get_voting_power bal e' b s' = Inr (y - n)"
proof -
  obtain s' where run: "gv_delegate bal e a b (- n) s = Inr ((), s')"
    using assms(1-7) by (simp add: gv_delegate_def require_auth_def gv_get_token_balance_def gv_safe_add_def checked_add_i128_def narrow_i128_def
        gv_get_delegated_power_def Let_def)
  from run have "gv_get_voting_power bal e' b s' = Inr (y - n)"
  proof (cases rule: gv_delegate_Inr)
    case (1 k)
    have "gv_calculate_ve_balance e' b s' = gv_calculate_ve_balance e' b s" "gv_get_token_balance bal b s' = gv_get_token_balance bal b s"
        "gv_get_delegated_power b s' = gv_get_delegated_power b s - n"
      by (simp_all add: 1(6) gv_calculate_ve_balance_def gv_get_token_balance_def gv_get_delegated_power_def)
    with assms(8,9) show ?thesis
      by (auto simp: gv_get_voting_power_def Let_def and_then_eq_Inr gv_arith_Inr diff_conv_add_uminus add.assoc simp del: add_uminus_conv_diff)
  qed
  with run show ?thesis by blast
qed

definition gv_ballot :: "mock_world gv_state" where
  "gv_ballot = gv_demo\<lparr>gv_proposal := [0 \<mapsto> gv_demo_proposal\<lparr>pr_eta := 0, pr_for_votes := 0, pr_against_votes := 0\<rparr>], gv_vote := (\<lambda>_ _. None)\<rparr>"

theorem gv_negative_delegation_takes_power_witness:
  "run_calls (gv_exec mock_world_transfer mock_world_balance) (take 2 gv_demo_calls) (gv_fresh gv_world) = gv_ballot \<and>
   (\<exists>s' s''. gv_delegate mock_world_balance (gv_env 1002 3) (Addr 6) (Addr 1) (- 3000) gv_ballot = Inr ((), s') \<and>
     gv_get_voting_power mock_world_balance (gv_env 1003 4) (Addr 1) s' = Inr (- 2000) \<and>
     gv_cast_vote mock_world_balance (gv_env 1003 4) (Addr 1) 0 VoteFor s' = Inr ((), s'') \<and>
     map_option pr_for_votes (gv_proposal s'' 0) = Some (- 2000))"
proof
  show "run_calls (gv_exec mock_world_transfer mock_world_balance) (take 2 gv_demo_calls) (gv_fresh gv_world) = gv_ballot"
    by (simp add: gv_ballot_def gv_demo_calls_def gv_demo_def gv_demo_proposal_def gv_world_def gv_fresh_def gv_eval)
  have y: "gv_get_voting_power mock_world_balance (gv_env 1003 4) (Addr 1) gv_ballot = Inr 1000"
    by (simp add: gv_ballot_def gv_demo_def gv_world_def gv_eval)
  obtain s' where s': "gv_delegate mock_world_balance (gv_env 1002 3) (Addr 6) (Addr 1) (- 3000) gv_ballot = Inr ((), s')"
      "gv_get_voting_power mock_world_balance (gv_env 1003 4) (Addr 1) s' = Inr (- 2000)"
    using gv_negative_delegation_takes_power [where e = "gv_env 1002 3" and a = "Addr 6" and b = "Addr 1" and n = 3000 and tok = "Addr 50", OF _ _ _ _ _ _ _ y]
    by (auto simp: gv_ballot_def gv_demo_def gv_world_def mock_world_balance_def mock_balance_def gv_get_delegated_power_def arith_defs)
  have same: "gv_proposal s' 0 = Some (gv_demo_proposal\<lparr>pr_eta := 0, pr_for_votes := 0, pr_against_votes := 0\<rparr>)" "gv_vote s' = (\<lambda>_ _. None)"
    using s'(1) by (auto simp: gv_ballot_def elim!: gv_delegate_Inr)
  then obtain s'' where "gv_cast_vote mock_world_balance (gv_env 1003 4) (Addr 1) 0 VoteFor s' = Inr ((), s'')"
      "map_option pr_for_votes (gv_proposal s'' 0) = Some (- 2000)"
    using s'(2) by (simp add: gv_cast_vote_def require_auth_def gv_get_proposal_from_storage_def gv_proposal_state_def gv_demo_proposal_def
        gv_safe_add_def Let_def arith_defs)
  with s' show "\<exists>s' s''. gv_delegate mock_world_balance (gv_env 1002 3) (Addr 6) (Addr 1) (- 3000) gv_ballot = Inr ((), s') \<and>
     gv_get_voting_power mock_world_balance (gv_env 1003 4) (Addr 1) s' = Inr (- 2000) \<and>
     gv_cast_vote mock_world_balance (gv_env 1003 4) (Addr 1) 0 VoteFor s' = Inr ((), s'') \<and>
     map_option pr_for_votes (gv_proposal s'' 0) = Some (- 2000)" by blast
qed

lemma gv_ve_balance_eq:
  assumes "gv_locks_ok t s" and "t \<le> env_timestamp e" and "gv_ve_lock s a = Some k" and "gv_calculate_ve_balance e a s = Inr v"
  shows "v = (if vl_lock_end k \<le> env_timestamp e then 0
    else vl_amount k * (int (vl_lock_end k) - int (env_timestamp e)) div (int (vl_lock_end k) - int (vl_created_at k)))"
proof -
  have k: "0 < vl_amount k" "vl_created_at k < vl_lock_end k" using assms(1,3) by (auto simp: gv_locks_ok_def)
  show ?thesis
    using assms(3,4) k by (auto simp: gv_calculate_ve_balance_def result_iffs div_i128_nonneg of_nat_diff split: if_splits)
qed

text \<open>
  Locked power decays within its bounds. In a reachable state the boost of a lock lies between zero and
  the locked amount, is the whole amount when the lock is made and zero from its end on, and never grows
  with time.
\<close>

theorem gv_ve_power_decays:
  assumes "token_contract tr bal" and "reach (gv_exec tr bal) (gv_adm self) (gv_drift bal self) (gv_fresh w) t s"
    and "t \<le> env_timestamp e" and "gv_ve_lock s a = Some k" and "gv_calculate_ve_balance e a s = Inr v"
  shows "0 \<le> v \<and> v \<le> vl_amount k \<and> (env_timestamp e = vl_created_at k \<longrightarrow> v = vl_amount k) \<and> (vl_lock_end k \<le> env_timestamp e \<longrightarrow> v = 0) \<and>
    (env_timestamp e \<le> env_timestamp e' \<and> gv_calculate_ve_balance e' a s = Inr v' \<longrightarrow> v' \<le> v)"
proof -
  have locks: "gv_locks_ok t s" using token_contract.gv_reach_core [OF assms(1,2)] by (simp add: gv_core_def)
  have k: "0 < vl_amount k" "vl_created_at k < vl_lock_end k" "vl_created_at k \<le> t"
    using locks assms(4) by (auto simp: gv_locks_ok_def)
  note v = gv_ve_balance_eq [OF locks assms(3,4,5)]
  define d where "d = int (vl_lock_end k) - int (vl_created_at k)"
  have d: "0 < d" using k(2) by (simp add: d_def)
  define r where "r = int (vl_lock_end k) - int (env_timestamp e)"
  have v_eq: "v = (if r \<le> 0 then 0 else vl_amount k * r div d)" using v by (simp add: r_def d_def)
  have r: "r \<le> d" using k(3) assms(3) by (simp add: r_def d_def)
  have range: "0 \<le> v \<and> v \<le> vl_amount k"
    using v_eq div_fraction_bounds [of "vl_amount k" r d] d r k(1) by auto
  moreover have "v = vl_amount k" if "env_timestamp e = vl_created_at k"
  proof -
    have "r = d" using that by (simp add: r_def d_def)
    then show ?thesis using v_eq d by simp
  qed
  moreover have "v' \<le> v" if later: "env_timestamp e \<le> env_timestamp e'" "gv_calculate_ve_balance e' a s = Inr v'"
  proof -
    define r' where "r' = int (vl_lock_end k) - int (env_timestamp e')"
    have "v' = (if r' \<le> 0 then 0 else vl_amount k * r' div d)"
      using gv_ve_balance_eq [OF locks order_trans [OF assms(3) later(1)] assms(4) later(2)] by (simp add: r'_def d_def)
    moreover have "r' \<le> r" using later(1) by (simp add: r_def r'_def)
    moreover from this have "vl_amount k * r' div d \<le> vl_amount k * r div d" using k(1) d by (intro zdiv_mono1) simp_all
    ultimately show ?thesis using v_eq range by auto
  qed
  ultimately show ?thesis using v by simp
qed

definition gv_locked :: "mock_world gv_state" where
  "gv_locked = gv_demo\<lparr>gv_ve_lock := [Addr 1 \<mapsto> \<lparr>vl_account = Addr 1, vl_amount = 1000, vl_lock_end = 1002000, vl_created_at = 2000\<rparr>]\<rparr>"

lemma gv_locked_reach:
  "reach (gv_exec mock_world_transfer mock_world_balance) (gv_adm (Addr 0)) (gv_drift mock_world_balance (Addr 0)) (gv_fresh gv_world) 2000 gv_locked"
  by (rule reach_call [where e = "gv_env 2000 15" and c = "GvLockTokens (Addr 1) 1000 1000000", OF gv_demo_reach])
     (simp_all add: gv_adm_def gv_locked_def gv_demo_def gv_world_def gv_eval)

theorem gv_ve_power_decays_witness:
  "gv_calculate_ve_balance (gv_env 502000 20) (Addr 1) gv_locked = Inr 500 \<and> 500 \<le> (1000::int) \<and>
   (\<forall>v'. gv_calculate_ve_balance (gv_env 600000 21) (Addr 1) gv_locked = Inr v' \<longrightarrow> v' \<le> 500)"
proof -
  have v: "gv_calculate_ve_balance (gv_env 502000 20) (Addr 1) gv_locked = Inr 500"
    by (simp add: gv_locked_def gv_eval)
  have k: "gv_ve_lock gv_locked (Addr 1) = Some \<lparr>vl_account = Addr 1, vl_amount = 1000, vl_lock_end = 1002000, vl_created_at = 2000\<rparr>"
    by (simp add: gv_locked_def)
  from gv_ve_power_decays [OF mock.token_contract_axioms gv_locked_reach _ k v, where e' = "gv_env 600000 21"] v show ?thesis by simp
qed

section \<open>Smaller observations\<close>

text \<open>Locking moves no tokens, so the locked amount counts once as balance and once as boost.\<close>

lemma gv_lock_counts_twice:
  assumes "gv_lock_tokens bal e a n d s = Inr (u, s')" and "gv_get_voting_power bal e a s = Inr x" and "in_i128 (x + n)"
    and "in_i128 (n * int d)" and "gv_voting_token s = Some tok" and "in_i128 (bal (gv_tokens s) tok a + n)"
  shows "gv_get_voting_power bal e a s' = Inr (x + n) \<and> gv_tokens s' = gv_tokens s"
  using assms(1)
proof (cases rule: gv_lock_Inr)
  case (1 k)
  have k: "k = tok" using 1(1) assms(5) by simp
  have x: "x = bal (gv_tokens s) tok a + gv_get_delegated_power a s"
    using assms(2,5) 1(5) by (auto simp: gv_get_voting_power_def gv_get_token_balance_def gv_calculate_ve_balance_def Let_def result_iffs)
  have "gv_calculate_ve_balance e a s' = Inr n"
    using 1(2,4) assms(4) by (simp add: 1(6) gv_calculate_ve_balance_def gv_mul_def checked_mul_i128_def narrow_i128_def checked_sub_u_def div_i128_nonneg)
  moreover have "gv_get_token_balance bal a s' = Inr (bal (gv_tokens s) tok a)" "gv_get_delegated_power a s' = gv_get_delegated_power a s"
    using assms(5) by (simp_all add: 1(6) gv_get_token_balance_def gv_get_delegated_power_def)
  moreover have "gv_safe_add (bal (gv_tokens s) tok a) n = Inr (bal (gv_tokens s) tok a + n)"
      "gv_safe_add (bal (gv_tokens s) tok a + n) (gv_get_delegated_power a s) = Inr (x + n)"
    using assms(3,6) by (simp_all add: gv_arith_Inr x ac_simps)
  ultimately have "gv_get_voting_power bal e a s' = Inr (x + n)" by (simp add: gv_get_voting_power_def)
  then show ?thesis by (simp add: 1(6))
qed

text \<open>Lowering the quorum revives a proposal that was defeated: the outcome is computed anew on every call.\<close>

lemma gv_state_depends_on_current_quorum:
  "gv_proposal_state (gv_env 3000 20) (gv_demo_proposal\<lparr>pr_eta := 0\<rparr>) (gv_demo\<lparr>gv_quorum := Some 9000\<rparr>) = Inr PsDefeated \<and>
   gv_proposal_state (gv_env 3000 20) (gv_demo_proposal\<lparr>pr_eta := 0\<rparr>) gv_demo = Inr PsSucceeded"
  by (simp add: gv_demo_def gv_demo_proposal_def gv_eval)

end
