(* ===== verification/Prediction_Math.thy ===== *)
theory Prediction_Math
  imports Amm_Math
begin

text \<open>
  The pricing of the prediction markets (src/contracts/prediction-markets/src/math.rs): buying and
  selling one outcome on a constant-product pool, liquidity shares and the implied price. Every
  function works on \<open>i128\<close>; a panic of the source, an overflow and a division by zero are \<open>Inl\<close>.
  The second half shows what the formulas compute: quotes are optimal, never lower the product of the
  reserves, and the collateral required for an amount is the least that buys it.
\<close>

section \<open>Errors\<close>

text \<open>One constructor per panic message, and one each for the failures the host reports.\<close>

datatype pm_error =
    PmAuth
  | PmToken
  | PmUnwrap
  | PmOverflow
  | PmDivision
  | PmNegativeRoot
  | PmDivisorNotPositive
  | PmDividendNegative
  | PmAlreadyInitialized
  | PmInvalidNumberOfOutcomes
  | PmOutcomeNamesMismatch
  | PmFeeTooHigh
  | PmInvalidResolutionWindow
  | PmInitialLiquidityMustBePositive
  | PmInvalidMarketCap
  | PmMarketNotFound
  | PmUnauthorizedOracle
  | PmMarketAlreadyResolved
  | PmResolutionWindowNotClosed
  | PmInvalidOutcomeIndex
  | PmUnauthorized
  | PmMarketNotActive
  | PmInvalidAmount
  | PmOutcomePoolNotFound
  | PmOutputAmountIsZero
  | PmSlippageExceeded
  | PmMarketCapExceeded
  | PmInsufficientBalance
  | PmAmountsMustBePositive
  | PmInsufficientLiquidityMinted
  | PmLpAmountMustBePositive
  | PmInsufficientLpTokens
  | PmNoLiquidity
  | PmInvalidPriceOrQuantity
  | PmInsufficientBalanceForSellOrder
  | PmInsufficientCollateralForOrder
  | PmOrderNotFound
  | PmOrderNotOpen
  | PmNotASellOrder
  | PmMarketNotResolved
  | PmNoResolvedOutcome
  | PmNoWinningTokens
  | PmPoolNotFound
  | PmMarketMustBeResolvedToDispute
  | PmStakeRequired
  | PmDisputeNotFound
  | PmDisputeNotOpen
  | PmAlreadyVoted
  | PmNoTokensToVoteWith
  | PmDisputeAlreadyResolved
  | PmAdminNotSet
  | PmTradingIsPaused
  | PmInvalidFeeConfig

definition pm_add :: "i128 \<Rightarrow> i128 \<Rightarrow> pm_error + i128" where
  "pm_add a b = ok_or PmOverflow (checked_add_i128 a b)"

definition pm_sub :: "i128 \<Rightarrow> i128 \<Rightarrow> pm_error + i128" where
  "pm_sub a b = ok_or PmOverflow (checked_sub_i128 a b)"

definition pm_mul :: "i128 \<Rightarrow> i128 \<Rightarrow> pm_error + i128" where
  "pm_mul a b = ok_or PmOverflow (checked_mul_i128 a b)"

definition pm_div :: "i128 \<Rightarrow> i128 \<Rightarrow> pm_error + i128" where
  "pm_div a b = ok_or PmDivision (checked_div_i128 a b)"

definition DECIMAL_FACTOR :: i128 where
  "DECIMAL_FACTOR = 1000000000000000000"

record outcome_pool =
  op_collateral_reserve :: i128
  op_outcome_reserve :: i128
  op_lp_total_supply :: i128

section \<open>The formulas\<close>

text \<open>The source repeats \<open>isqrt\<close> and \<open>ceil_div\<close> of the AMM word for word; only the errors are renamed.\<close>

fun pm_of_am :: "am_error \<Rightarrow> pm_error" where
  "pm_of_am AmNegativeRoot = PmNegativeRoot"
| "pm_of_am AmDivisionByZero = PmDivision"
| "pm_of_am AmDivisorNotPositive = PmDivisorNotPositive"
| "pm_of_am AmDividendNegative = PmDividendNegative"
| "pm_of_am _ = PmOverflow"

definition pm_isqrt :: "i128 \<Rightarrow> pm_error + i128" where
  "pm_isqrt n = map_sum pm_of_am id (isqrt n)"

definition pm_ceil_div :: "i128 \<Rightarrow> i128 \<Rightarrow> pm_error + i128" where
  "pm_ceil_div a b = map_sum pm_of_am id (ceil_div a b)"

definition pm_calculate_buy_amount :: "i128 \<Rightarrow> i128 \<Rightarrow> i128 \<Rightarrow> u32 \<Rightarrow> pm_error + i128" where
  "pm_calculate_buy_amount collateral_in collateral_reserve outcome_reserve fee_bps =
     (if collateral_in \<le> 0 \<or> collateral_reserve \<le> 0 \<or> outcome_reserve \<le> 0 then Inr 0
      else
        let fee_factor = 10000 - int fee_bps in
        and_then (pm_mul collateral_in fee_factor) (\<lambda>scaled.
        let net_collateral = div_i128 scaled 10000 in
        if net_collateral \<le> 0 then Inr 0
        else
          and_then (pm_mul outcome_reserve net_collateral) (\<lambda>numerator.
          and_then (pm_add collateral_reserve net_collateral) (\<lambda>denominator.
          pm_div numerator denominator))))"

definition pm_calculate_sell_amount :: "i128 \<Rightarrow> i128 \<Rightarrow> i128 \<Rightarrow> u32 \<Rightarrow> pm_error + i128" where
  "pm_calculate_sell_amount outcome_amount collateral_reserve outcome_reserve fee_bps =
     (if outcome_amount \<le> 0 \<or> collateral_reserve \<le> 0 \<or> outcome_reserve \<le> 0 then Inr 0
      else if outcome_amount \<ge> outcome_reserve then Inr 0
      else
        and_then (pm_mul collateral_reserve outcome_reserve) (\<lambda>k.
        and_then (pm_add outcome_reserve outcome_amount) (\<lambda>new_outcome_reserve.
        and_then (pm_div k new_outcome_reserve) (\<lambda>new_collateral_reserve.
        and_then (pm_sub collateral_reserve new_collateral_reserve) (\<lambda>gross_collateral.
        let fee_factor = 10000 - int fee_bps in
        and_then (pm_mul gross_collateral fee_factor) (\<lambda>scaled.
        Inr (div_i128 scaled 10000)))))))"

definition pm_calculate_buy_collateral_required :: "i128 \<Rightarrow> i128 \<Rightarrow> i128 \<Rightarrow> u32 \<Rightarrow> pm_error + i128" where
  "pm_calculate_buy_collateral_required outcome_amount collateral_reserve outcome_reserve fee_bps =
     (if outcome_amount \<le> 0 \<or> collateral_reserve \<le> 0 \<or> outcome_reserve \<le> 0 then Inr 0
      else if outcome_amount \<ge> outcome_reserve then Inr i128_max
      else
        and_then (pm_mul collateral_reserve outcome_amount) (\<lambda>numerator.
        and_then (pm_sub outcome_reserve outcome_amount) (\<lambda>denominator.
        and_then (pm_ceil_div numerator denominator) (\<lambda>net_collateral.
        let fee_factor = 10000 - int fee_bps in
        and_then (pm_mul net_collateral 10000) (\<lambda>scaled.
        pm_ceil_div scaled fee_factor)))))"

definition pm_calculate_lp_shares_add :: "i128 \<Rightarrow> i128 \<Rightarrow> outcome_pool \<Rightarrow> pm_error + i128" where
  "pm_calculate_lp_shares_add collateral_in outcome_in pool =
     (if op_lp_total_supply pool = 0 then
        and_then (pm_mul collateral_in outcome_in) pm_isqrt
      else
        and_then (pm_mul collateral_in (op_lp_total_supply pool)) (\<lambda>scaled_c.
        and_then (pm_div scaled_c (op_collateral_reserve pool)) (\<lambda>share_c.
        and_then (pm_mul outcome_in (op_lp_total_supply pool)) (\<lambda>scaled_o.
        and_then (pm_div scaled_o (op_outcome_reserve pool)) (\<lambda>share_o.
        Inr (if share_c < share_o then share_c else share_o))))))"

definition pm_calculate_lp_withdraw :: "i128 \<Rightarrow> outcome_pool \<Rightarrow> pm_error + i128 \<times> i128" where
  "pm_calculate_lp_withdraw lp_amount pool =
     and_then (pm_mul lp_amount (op_collateral_reserve pool)) (\<lambda>scaled_c.
     and_then (pm_div scaled_c (op_lp_total_supply pool)) (\<lambda>collateral_out.
     and_then (pm_mul lp_amount (op_outcome_reserve pool)) (\<lambda>scaled_o.
     and_then (pm_div scaled_o (op_lp_total_supply pool)) (\<lambda>outcome_out.
     Inr (collateral_out, outcome_out)))))"

definition pm_get_outcome_price :: "i128 \<Rightarrow> i128 \<Rightarrow> pm_error + i128" where
  "pm_get_outcome_price collateral_reserve outcome_reserve =
     and_then (pm_add collateral_reserve outcome_reserve) (\<lambda>sum.
     if sum = 0 then Inr 0
     else
       and_then (pm_mul collateral_reserve DECIMAL_FACTOR) (\<lambda>scaled. pm_div scaled sum))"

definition pm_check_cpmm_invariant :: "i128 \<Rightarrow> i128 \<Rightarrow> i128 \<Rightarrow> pm_error + bool" where
  "pm_check_cpmm_invariant old_k new_collateral new_outcome =
     and_then (pm_mul new_collateral new_outcome) (\<lambda>new_k. Inr (new_k \<ge> old_k))"

section \<open>What they compute\<close>

lemma pm_arith_Inr [result_iffs]:
  "pm_add a b = Inr c \<longleftrightarrow> c = a + b \<and> in_i128 (a + b)" "pm_sub a b = Inr c \<longleftrightarrow> c = a - b \<and> in_i128 (a - b)"
  "pm_mul a b = Inr c \<longleftrightarrow> c = a * b \<and> in_i128 (a * b)"
  "pm_div a b = Inr c \<longleftrightarrow> b \<noteq> 0 \<and> c = div_i128 a b \<and> in_i128 (div_i128 a b)"
  by (simp_all add: pm_add_def pm_sub_def pm_mul_def pm_div_def result_iffs)

lemma pm_root_Inr [result_iffs]: "pm_isqrt n = Inr r \<longleftrightarrow> isqrt n = Inr r" "pm_ceil_div a b = Inr c \<longleftrightarrow> ceil_div a b = Inr c"
  by (cases "isqrt n"; simp add: pm_isqrt_def) (cases "ceil_div a b"; simp add: pm_ceil_div_def)

text \<open>A quote to buy: nothing, or the optimal output on the collateral that is left after the fee.\<close>

lemma pm_buy_quote:
  assumes "pm_calculate_buy_amount c x y fee = Inr out" and "0 < out" and "fee \<le> 10000"
  shows "0 < c" "0 < x" "0 < y" "0 < after_fee c fee" "out = y * after_fee c fee div (x + after_fee c fee)"
proof -
  have pre: "0 < c" "0 < x" "0 < y" using assms(1,2) by (auto simp: pm_calculate_buy_amount_def split: if_splits)
  then show "0 < c" "0 < x" "0 < y" by simp_all
  have "0 \<le> c * (10000 - int fee)" using pre assms(3) by simp
  then have net: "div_i128 (c * (10000 - int fee)) 10000 = after_fee c fee" by (simp add: div_i128_nonneg after_fee_def)
  show pos: "0 < after_fee c fee"
    using assms(1,2) pre by (auto simp: pm_calculate_buy_amount_def Let_def result_iffs net split: if_splits)
  show "out = y * after_fee c fee div (x + after_fee c fee)"
    using assms(1) pre pos by (auto simp: pm_calculate_buy_amount_def Let_def result_iffs net div_i128_nonneg)
qed

lemma pm_buy_keeps_product:
  assumes "pm_calculate_buy_amount c x y fee = Inr out" and "0 < out" and "fee \<le> 10000"
  shows "x * y \<le> (x + after_fee c fee) * (y - out)" and "out < y" and "after_fee c fee \<le> c"
proof -
  note q = pm_buy_quote [OF assms]
  show "x * y \<le> (x + after_fee c fee) * (y - out)" using product_optimal [of x "after_fee c fee" out y] q by simp
  show "out < y" using out_below_reserve(2) [of x y "after_fee c fee"] q by simp
  show "after_fee c fee \<le> c" using after_fee_bounds [of c fee] q(1) assms(3) by simp
qed

text \<open>A quote to sell: the gross amount is what the product formula frees, rounded up, and the fee stays in the pool.\<close>

lemma pm_sell_quote:
  assumes "pm_calculate_sell_amount n x y fee = Inr out" and "0 < out" and "fee \<le> 10000"
  shows "0 < n" "0 < x" "n < y" "out = after_fee (x - x * y div (y + n)) fee" "0 \<le> x - x * y div (y + n)"
proof -
  have pre: "0 < n" "0 < x" "n < y" using assms(1,2) by (auto simp: pm_calculate_sell_amount_def split: if_splits)
  then show "0 < n" "0 < x" "n < y" by simp_all
  let ?g = "x - x * y div (y + n)"
  have "x * y div (y + n) \<le> x" using div_fraction_bounds [of x y "y + n"] pre by simp
  then show g: "0 \<le> ?g" by simp
  have "div_i128 (x * y) (y + n) = x * y div (y + n)" using pre by (intro div_i128_nonneg) simp_all
  moreover have "div_i128 (?g * (10000 - int fee)) 10000 = after_fee ?g fee"
    using g assms(3) by (simp add: div_i128_nonneg after_fee_def)
  ultimately show "out = after_fee ?g fee"
    using assms(1) pre by (auto simp: pm_calculate_sell_amount_def Let_def result_iffs)
qed

lemma pm_sell_keeps_product:
  assumes "pm_calculate_sell_amount n x y fee = Inr out" and "0 < out" and "0 < fee" and "fee \<le> 10000"
  shows "x * y \<le> (x - out) * (y + n)" and "out < x"
proof -
  note q = pm_sell_quote [OF assms(1,2,4)]
  let ?d = "x * y div (y + n)"
  let ?g = "x - ?d"
  have "out * 10000 \<le> ?g * (10000 - int fee)" using q(4) by (simp add: after_fee_def div_greatest [symmetric])
  moreover have "?g * (10000 - int fee) < ?g * 10000"
  proof -
    have "0 < ?g" using q(4,5) assms(2) by (cases "?g = 0") (auto simp: after_fee_def)
    then show ?thesis using assms(3) by (intro mult_strict_left_mono) simp_all
  qed
  ultimately have "out * 10000 < ?g * 10000" by (rule order.strict_trans1)
  then have lt: "out < ?g" by simp
  have pos: "0 < y + n" using q(1,3) by linarith
  have "x * y < (?d + 1) * (y + n)"
  proof -
    have "x * y = ?d * (y + n) + x * y mod (y + n)" by (rule div_mult_mod_eq [symmetric])
    moreover have "x * y mod (y + n) < y + n" using pos by simp
    ultimately show ?thesis by (simp add: algebra_simps)
  qed
  also have "\<dots> \<le> (x - out) * (y + n)" using lt pos by (intro mult_right_mono) auto
  finally show "x * y \<le> (x - out) * (y + n)" by simp
  have "0 \<le> ?d" using q pos by (simp add: pos_imp_zdiv_nonneg_iff)
  with lt show "out < x" by linarith
qed

lemma pm_sell_bounded:
  assumes "pm_calculate_sell_amount n x y fee = Inr out" and "0 < out" and "fee \<le> 10000"
  shows "out \<le> x - x * y div (y + n)" and "out \<le> x"
proof -
  note q = pm_sell_quote [OF assms]
  show le: "out \<le> x - x * y div (y + n)" using after_fee_bounds [of "x - x * y div (y + n)" fee] q assms(3) by simp
  have "0 \<le> x * y div (y + n)" using q by (simp add: pos_imp_zdiv_nonneg_iff)
  with le show "out \<le> x" by linarith
qed

lemma ceil_div_least:
  assumes "ceil_div a b = Inr c"
  shows "a \<le> q * b \<longleftrightarrow> c \<le> q"
proof
  note cd = ceil_div_Inr [OF assms]
  show "c \<le> q" if "a \<le> q * b"
  proof -
    have "c * b < (q + 1) * b" using cd(4) that by (simp add: algebra_simps)
    then show ?thesis using cd(1) by (simp add: mult_less_cancel_right)
  qed
  show "a \<le> q * b" if "c \<le> q"
    using cd(3) mult_right_mono [OF that, of b] cd(1) by linarith
qed

section \<open>Properties of the formulas\<close>

text \<open>The collateral \<open>calculate_buy_collateral_required\<close> asks for is the least that buys the wanted amount: a
  deposit buys at least that many tokens exactly when it is at least as large. Rounding up twice loses nothing.\<close>

theorem pm_required_collateral_is_least:
  assumes req: "pm_calculate_buy_collateral_required want x y fee = Inr r" and buy: "pm_calculate_buy_amount c x y fee = Inr out"
    and pre: "0 < want" "0 < x" "want < y" "0 < c" and fee: "fee < 10000"
  shows "want \<le> out \<longleftrightarrow> r \<le> c"
proof -
  let ?ff = "10000 - int fee" and ?a = "after_fee c fee"
  obtain net where net: "ceil_div (x * want) (y - want) = Inr net" and r: "ceil_div (net * 10000) ?ff = Inr r"
    using req pre by (auto simp: pm_calculate_buy_collateral_required_def result_iffs Let_def)
  have enough: "net \<le> ?a \<longleftrightarrow> r \<le> c"
    using ceil_div_least [OF r, of c] by (simp add: after_fee_def div_greatest)
  have "0 < x * want" using pre by simp
  then have netpos: "0 < net" using ceil_div_least [OF net, of 0] by simp
  have af: "div_i128 (c * ?ff) 10000 = ?a" using pre fee by (simp add: div_i128_nonneg after_fee_def)
  show ?thesis
  proof (cases "0 < ?a")
    case True
    then have out: "out = y * ?a div (x + ?a)"
      using buy pre by (auto simp: pm_calculate_buy_amount_def Let_def result_iffs af div_i128_nonneg)
    have "want \<le> out \<longleftrightarrow> want * (x + ?a) \<le> y * ?a" using True pre by (simp add: out div_greatest)
    also have "\<dots> \<longleftrightarrow> x * want \<le> ?a * (y - want)" by (simp add: algebra_simps)
    finally show ?thesis using ceil_div_least [OF net, of ?a] enough by simp
  next
    case False
    then have "out = 0" using buy pre by (auto simp: pm_calculate_buy_amount_def Let_def result_iffs af)
    with False netpos enough pre show ?thesis by auto
  qed
qed

theorem pm_required_collateral_is_least_witness:
  "\<exists>r. pm_calculate_buy_collateral_required 1000 10000 10000 30 = Inr r \<and> r = 1116 \<and>
     (\<forall>out. pm_calculate_buy_amount 1115 10000 10000 30 = Inr out \<longrightarrow> \<not> 1000 \<le> out)"
proof -
  have req: "pm_calculate_buy_collateral_required 1000 10000 10000 30 = Inr 1116"
    by (simp add: pm_calculate_buy_collateral_required_def pm_mul_def pm_sub_def pm_ceil_div_def ceil_div_def am_add_def am_sub_def
        arith_defs div_i128_nonneg)
  have "\<not> 1000 \<le> out" if "pm_calculate_buy_amount 1115 10000 10000 30 = Inr out" for out
    using pm_required_collateral_is_least [OF req that] by simp
  with req show ?thesis by blast
qed

end
