(* ===== verification/Prediction.thy ===== *)
theory Prediction
  imports Prediction_Math Mock_Token
begin

text \<open>
  The PredictionMarket contract (src/contracts/prediction-markets/src/lib.rs, storage.rs and types.rs):
  markets on several outcomes, one constant-product pool per outcome, an order book, redemption after
  resolution, and disputes with token-weighted votes. This theory holds the whole contract;
  Prediction_Correct holds its invariant and its properties. Each storage key of \<open>DataKey\<close> is a field
  of \<open>pm_state\<close>; a key with arguments is a map on their tuple.
\<close>

section \<open>State\<close>

definition MAX_OUTCOMES :: u32 where
  "MAX_OUTCOMES = 10"

definition MAX_TRADING_FEE_BPS :: u32 where
  "MAX_TRADING_FEE_BPS = 500"

definition MIN_RESOLUTION_WINDOW :: u64 where
  "MIN_RESOLUTION_WINDOW = 60"

definition MAX_RESOLUTION_WINDOW :: u64 where
  "MAX_RESOLUTION_WINDOW = 365 * 24 * 3600"

datatype market_status = MsActive | MsPendingResolution | MsResolved | MsDisputed | MsClosed

datatype market_category = McSports | McCrypto | McPolitics | McEvents | McCustom

datatype dispute_status = DsOpen | DsVoted | DsResolvedUpheld | DsResolvedRejected

datatype order_status = OsOpen | OsFilled | OsCancelled

datatype order_side = SideBuy | SideSell

record prediction_market =
  mk_market_id :: u64
  mk_question :: string
  mk_category :: market_category
  mk_creator :: address
  mk_collateral_token :: address
  mk_oracle_source :: address
  mk_num_outcomes :: u32
  mk_outcome_names :: "string list"
  mk_status :: market_status
  mk_created_at :: u64
  mk_resolution_window_start :: u64
  mk_resolution_window_end :: u64
  mk_resolved_outcome :: "u32 option"
  mk_total_collateral :: i128
  mk_max_outcome_supply :: i128
  mk_trading_fee_bps :: u32

record user_outcome_position =
  up_market_id :: u64
  up_outcome_index :: u32
  up_owner :: address
  up_quantity :: i128
  up_avg_entry_price :: i128
  up_realized_pnl :: i128
  up_created_at :: u64
  up_updated_at :: u64

record limit_order =
  lo_order_id :: u64
  lo_market_id :: u64
  lo_owner :: address
  lo_outcome_index :: u32
  lo_side :: order_side
  lo_price :: i128
  lo_quantity :: i128
  lo_filled_quantity :: i128
  lo_status :: order_status
  lo_created_at :: u64
  lo_expires_at :: "u64 option"

record dispute =
  di_dispute_id :: u64
  di_market_id :: u64
  di_challenger :: address
  di_claimed_outcome :: u32
  di_evidence :: string
  di_stake_amount :: i128
  di_status :: dispute_status
  di_votes_for :: i128
  di_votes_against :: i128
  di_created_at :: u64
  di_resolved_at :: "u64 option"

record create_market_params =
  cp_question :: string
  cp_category :: market_category
  cp_collateral_token :: address
  cp_oracle_source :: address
  cp_num_outcomes :: u32
  cp_outcome_names :: "string list"
  cp_resolution_window_duration :: u64
  cp_max_outcome_supply :: i128
  cp_trading_fee_bps :: u32
  cp_initial_liquidity :: i128

record 'w pm_state =
  pm_market_counter :: "u64 option"
  pm_admin :: "address option"
  pm_paused :: "bool option"
  pm_oracle_address :: "address option"
  pm_fee_share_bps :: "i128 option"
  pm_collector :: "address option"
  pm_market :: "u64 \<Rightarrow> prediction_market option"
  pm_pool :: "u64 \<times> u32 \<Rightarrow> outcome_pool option"
  pm_balance :: "u64 \<times> u32 \<times> address \<Rightarrow> i128 option"
  pm_collateral :: "u64 \<Rightarrow> i128 option"
  pm_lp :: "u64 \<times> address \<Rightarrow> i128 option"
  pm_lp_total :: "u64 \<Rightarrow> i128 option"
  pm_order_count :: "u64 \<Rightarrow> u64 option"
  pm_order :: "u64 \<times> u64 \<Rightarrow> limit_order option"
  pm_position :: "u64 \<times> u32 \<times> address \<Rightarrow> user_outcome_position option"
  pm_dispute_count :: "u64 \<Rightarrow> u64 option"
  pm_dispute :: "u64 \<times> u64 \<Rightarrow> dispute option"
  pm_dispute_vote :: "u64 \<times> u64 \<times> address \<Rightarrow> i128 option"
  pm_supply :: "u64 \<times> u32 \<Rightarrow> i128 option"
  pm_tokens :: 'w

text \<open>
  \<open>LpRewardAccumulator\<close> and \<open>OracleResultCache\<close> have accessors in storage.rs that no entry point
  calls, so they have no field.
\<close>

definition pm_fresh :: "'w \<Rightarrow> 'w pm_state" where
  "pm_fresh w =
     \<lparr>pm_market_counter = None, pm_admin = None, pm_paused = None, pm_oracle_address = None, pm_fee_share_bps = None,
      pm_collector = None, pm_market = (\<lambda>_. None), pm_pool = (\<lambda>_. None), pm_balance = (\<lambda>_. None), pm_collateral = (\<lambda>_. None),
      pm_lp = (\<lambda>_. None), pm_lp_total = (\<lambda>_. None), pm_order_count = (\<lambda>_. None), pm_order = (\<lambda>_. None),
      pm_position = (\<lambda>_. None), pm_dispute_count = (\<lambda>_. None), pm_dispute = (\<lambda>_. None), pm_dispute_vote = (\<lambda>_. None),
      pm_supply = (\<lambda>_. None), pm_tokens = w\<rparr>"

section \<open>Storage\<close>

definition pm_is_trading_paused :: "'w pm_state \<Rightarrow> bool" where
  "pm_is_trading_paused s = unwrap_or False (pm_paused s)"

definition pm_get_market_counter :: "'w pm_state \<Rightarrow> u64" where
  "pm_get_market_counter s = unwrap_or 0 (pm_market_counter s)"

definition pm_set_market :: "prediction_market \<Rightarrow> 'w pm_state \<Rightarrow> 'w pm_state" where
  "pm_set_market market s = s\<lparr>pm_market := (pm_market s)(mk_market_id market \<mapsto> market)\<rparr>"

definition pm_set_outcome_pool :: "u64 \<Rightarrow> u32 \<Rightarrow> outcome_pool \<Rightarrow> 'w pm_state \<Rightarrow> 'w pm_state" where
  "pm_set_outcome_pool market_id outcome_index pool s = s\<lparr>pm_pool := (pm_pool s)((market_id, outcome_index) \<mapsto> pool)\<rparr>"

definition pm_get_outcome_balance :: "u64 \<Rightarrow> u32 \<Rightarrow> address \<Rightarrow> 'w pm_state \<Rightarrow> i128" where
  "pm_get_outcome_balance market_id outcome_index user s = unwrap_or 0 (pm_balance s (market_id, outcome_index, user))"

definition pm_set_outcome_balance :: "u64 \<Rightarrow> u32 \<Rightarrow> address \<Rightarrow> i128 \<Rightarrow> 'w pm_state \<Rightarrow> 'w pm_state" where
  "pm_set_outcome_balance market_id outcome_index user amount s =
     (if amount \<le> 0 then s\<lparr>pm_balance := (pm_balance s)((market_id, outcome_index, user) := None)\<rparr>
      else s\<lparr>pm_balance := (pm_balance s)((market_id, outcome_index, user) \<mapsto> amount)\<rparr>)"

definition pm_get_market_collateral :: "u64 \<Rightarrow> 'w pm_state \<Rightarrow> i128" where
  "pm_get_market_collateral market_id s = unwrap_or 0 (pm_collateral s market_id)"

definition pm_set_market_collateral :: "u64 \<Rightarrow> i128 \<Rightarrow> 'w pm_state \<Rightarrow> 'w pm_state" where
  "pm_set_market_collateral market_id amount s = s\<lparr>pm_collateral := (pm_collateral s)(market_id \<mapsto> amount)\<rparr>"

definition pm_get_lp_shares :: "u64 \<Rightarrow> address \<Rightarrow> 'w pm_state \<Rightarrow> i128" where
  "pm_get_lp_shares market_id provider s = unwrap_or 0 (pm_lp s (market_id, provider))"

definition pm_set_lp_shares :: "u64 \<Rightarrow> address \<Rightarrow> i128 \<Rightarrow> 'w pm_state \<Rightarrow> 'w pm_state" where
  "pm_set_lp_shares market_id provider shares s =
     (if shares \<le> 0 then s\<lparr>pm_lp := (pm_lp s)((market_id, provider) := None)\<rparr>
      else s\<lparr>pm_lp := (pm_lp s)((market_id, provider) \<mapsto> shares)\<rparr>)"

definition pm_get_lp_total_supply :: "u64 \<Rightarrow> 'w pm_state \<Rightarrow> i128" where
  "pm_get_lp_total_supply market_id s = unwrap_or 0 (pm_lp_total s market_id)"

definition pm_set_lp_total_supply :: "u64 \<Rightarrow> i128 \<Rightarrow> 'w pm_state \<Rightarrow> 'w pm_state" where
  "pm_set_lp_total_supply market_id supply s = s\<lparr>pm_lp_total := (pm_lp_total s)(market_id \<mapsto> supply)\<rparr>"

definition pm_get_order_counter :: "u64 \<Rightarrow> 'w pm_state \<Rightarrow> u64" where
  "pm_get_order_counter market_id s = unwrap_or 0 (pm_order_count s market_id)"

definition pm_set_order_counter :: "u64 \<Rightarrow> u64 \<Rightarrow> 'w pm_state \<Rightarrow> 'w pm_state" where
  "pm_set_order_counter market_id counter s = s\<lparr>pm_order_count := (pm_order_count s)(market_id \<mapsto> counter)\<rparr>"

definition pm_set_order :: "limit_order \<Rightarrow> 'w pm_state \<Rightarrow> 'w pm_state" where
  "pm_set_order order s = s\<lparr>pm_order := (pm_order s)((lo_market_id order, lo_order_id order) \<mapsto> order)\<rparr>"

definition pm_set_user_position :: "user_outcome_position \<Rightarrow> 'w pm_state \<Rightarrow> 'w pm_state" where
  "pm_set_user_position position s =
     s\<lparr>pm_position := (pm_position s)((up_market_id position, up_outcome_index position, up_owner position) \<mapsto> position)\<rparr>"

definition pm_get_dispute_counter :: "u64 \<Rightarrow> 'w pm_state \<Rightarrow> u64" where
  "pm_get_dispute_counter market_id s = unwrap_or 0 (pm_dispute_count s market_id)"

definition pm_set_dispute_counter :: "u64 \<Rightarrow> u64 \<Rightarrow> 'w pm_state \<Rightarrow> 'w pm_state" where
  "pm_set_dispute_counter market_id counter s = s\<lparr>pm_dispute_count := (pm_dispute_count s)(market_id \<mapsto> counter)\<rparr>"

definition pm_set_dispute :: "dispute \<Rightarrow> 'w pm_state \<Rightarrow> 'w pm_state" where
  "pm_set_dispute d s = s\<lparr>pm_dispute := (pm_dispute s)((di_market_id d, di_dispute_id d) \<mapsto> d)\<rparr>"

definition pm_has_voted :: "u64 \<Rightarrow> u64 \<Rightarrow> address \<Rightarrow> 'w pm_state \<Rightarrow> bool" where
  "pm_has_voted market_id dispute_id voter s \<longleftrightarrow> pm_dispute_vote s (market_id, dispute_id, voter) \<noteq> None"

definition pm_set_vote :: "u64 \<Rightarrow> u64 \<Rightarrow> address \<Rightarrow> i128 \<Rightarrow> 'w pm_state \<Rightarrow> 'w pm_state" where
  "pm_set_vote market_id dispute_id voter weight s =
     s\<lparr>pm_dispute_vote := (pm_dispute_vote s)((market_id, dispute_id, voter) \<mapsto> weight)\<rparr>"

definition pm_get_total_outcome_supply :: "u64 \<Rightarrow> u32 \<Rightarrow> 'w pm_state \<Rightarrow> i128" where
  "pm_get_total_outcome_supply market_id outcome_index s = unwrap_or 0 (pm_supply s (market_id, outcome_index))"

definition pm_set_total_outcome_supply :: "u64 \<Rightarrow> u32 \<Rightarrow> i128 \<Rightarrow> 'w pm_state \<Rightarrow> 'w pm_state" where
  "pm_set_total_outcome_supply market_id outcome_index supply s =
     s\<lparr>pm_supply := (pm_supply s)((market_id, outcome_index) \<mapsto> supply)\<rparr>"

lemmas pm_storage_defs =
  pm_is_trading_paused_def pm_get_market_counter_def pm_set_market_def pm_set_outcome_pool_def pm_get_outcome_balance_def
  pm_set_outcome_balance_def pm_get_market_collateral_def pm_set_market_collateral_def pm_get_lp_shares_def pm_set_lp_shares_def
  pm_get_lp_total_supply_def pm_set_lp_total_supply_def pm_get_order_counter_def pm_set_order_counter_def pm_set_order_def
  pm_set_user_position_def pm_get_dispute_counter_def pm_set_dispute_counter_def pm_set_dispute_def pm_has_voted_def pm_set_vote_def
  pm_get_total_outcome_supply_def pm_set_total_outcome_supply_def

section \<open>Helpers\<close>

definition pm_transfer ::
  "'w token_transfer \<Rightarrow> env \<Rightarrow> address \<Rightarrow> address \<Rightarrow> address \<Rightarrow> i128 \<Rightarrow> 'w pm_state \<Rightarrow> pm_error + 'w pm_state" where
  "pm_transfer tr e token src dst amount s =
     and_then (call_token tr PmToken e token src dst amount (pm_tokens s)) (\<lambda>w. Inr (s\<lparr>pm_tokens := w\<rparr>))"

definition pm_assert_admin :: "address \<Rightarrow> 'w pm_state \<Rightarrow> pm_error + unit" where
  "pm_assert_admin caller s =
     and_then (ok_or PmAdminNotSet (pm_admin s)) (\<lambda>admin. panic_if (caller \<noteq> admin) PmUnauthorized)"

definition pm_assert_market_active :: "u64 \<Rightarrow> 'w pm_state \<Rightarrow> pm_error + unit" where
  "pm_assert_market_active market_id s =
     and_then (ok_or PmMarketNotFound (pm_market s market_id)) (\<lambda>market.
     panic_if (mk_status market \<noteq> MsActive) PmMarketNotActive)"

definition pm_assert_trading_active :: "u64 \<Rightarrow> 'w pm_state \<Rightarrow> pm_error + unit" where
  "pm_assert_trading_active market_id s =
     and_then (panic_if (pm_is_trading_paused s) PmTradingIsPaused) (\<lambda>_.
     and_then (ok_or PmMarketNotFound (pm_market s market_id)) (\<lambda>market.
     panic_if (mk_status market \<noteq> MsActive) PmMarketNotActive))"

text \<open>\<open>if outcome_index >= get_market(..).unwrap().num_outcomes { panic!(..) }\<close>, which four entry points repeat.\<close>

definition pm_check_outcome_index :: "u64 \<Rightarrow> u32 \<Rightarrow> 'w pm_state \<Rightarrow> pm_error + unit" where
  "pm_check_outcome_index market_id outcome_index s =
     and_then (ok_or PmUnwrap (pm_market s market_id)) (\<lambda>market.
     panic_if (outcome_index \<ge> mk_num_outcomes market) PmInvalidOutcomeIndex)"

definition pm_bought_position :: "env \<Rightarrow> i128 \<Rightarrow> i128 \<Rightarrow> user_outcome_position \<Rightarrow> pm_error + user_outcome_position" where
  "pm_bought_position e quantity collateral_spent pos =
     and_then (pm_mul (up_avg_entry_price pos) (up_quantity pos)) (\<lambda>scaled.
     and_then (pm_add (div_i128 scaled DECIMAL_FACTOR) collateral_spent) (\<lambda>total_cost.
     and_then (pm_add (up_quantity pos) quantity) (\<lambda>new_quantity.
     and_then (if new_quantity > 0
               then and_then (pm_mul total_cost DECIMAL_FACTOR) (\<lambda>scaled_cost. pm_div scaled_cost new_quantity)
               else Inr 0) (\<lambda>avg.
     Inr (pos\<lparr>up_quantity := new_quantity, up_avg_entry_price := avg, up_updated_at := env_timestamp e\<rparr>)))))"

definition pm_update_position ::
  "env \<Rightarrow> u64 \<Rightarrow> u32 \<Rightarrow> address \<Rightarrow> i128 \<Rightarrow> i128 \<Rightarrow> 'w pm_state \<Rightarrow> pm_error + 'w pm_state" where
  "pm_update_position e market_id outcome_index user quantity collateral_spent s =
     and_then
       (case pm_position s (market_id, outcome_index, user) of
          Some pos \<Rightarrow> pm_bought_position e quantity collateral_spent pos
        | None \<Rightarrow>
            and_then (if quantity > 0
                      then and_then (pm_mul collateral_spent DECIMAL_FACTOR) (\<lambda>scaled. pm_div scaled quantity)
                      else Inr 0) (\<lambda>avg.
            Inr \<lparr>up_market_id = market_id, up_outcome_index = outcome_index, up_owner = user, up_quantity = quantity,
                 up_avg_entry_price = avg, up_realized_pnl = 0, up_created_at = env_timestamp e, up_updated_at = env_timestamp e\<rparr>))
       (\<lambda>position. Inr (pm_set_user_position position s))"

definition pm_sold_position ::
  "env \<Rightarrow> i128 \<Rightarrow> i128 \<Rightarrow> i128 \<Rightarrow> user_outcome_position \<Rightarrow> pm_error + user_outcome_position" where
  "pm_sold_position e quantity collateral_received entry_price pos =
     and_then (pm_mul entry_price quantity) (\<lambda>scaled.
     and_then (pm_sub collateral_received (div_i128 scaled DECIMAL_FACTOR)) (\<lambda>pnl.
     and_then (pm_add (up_realized_pnl pos) pnl) (\<lambda>realized.
     and_then (pm_sub (up_quantity pos) quantity) (\<lambda>new_quantity.
     Inr (pos\<lparr>up_realized_pnl := realized, up_quantity := new_quantity, up_updated_at := env_timestamp e\<rparr>)))))"

definition pm_update_position_on_sell ::
  "env \<Rightarrow> u64 \<Rightarrow> u32 \<Rightarrow> address \<Rightarrow> i128 \<Rightarrow> i128 \<Rightarrow> i128 \<Rightarrow> 'w pm_state \<Rightarrow> pm_error + 'w pm_state" where
  "pm_update_position_on_sell e market_id outcome_index user quantity collateral_received entry_price s =
     and_then
       (case pm_position s (market_id, outcome_index, user) of
          Some pos \<Rightarrow> pm_sold_position e quantity collateral_received entry_price pos
        | None \<Rightarrow>
            and_then (pm_sub 0 quantity) (\<lambda>neg.
            Inr \<lparr>up_market_id = market_id, up_outcome_index = outcome_index, up_owner = user, up_quantity = neg, up_avg_entry_price = 0,
                 up_realized_pnl = (if quantity > 0 then collateral_received else 0),
                 up_created_at = env_timestamp e, up_updated_at = env_timestamp e\<rparr>))
       (\<lambda>position.
          Inr (if up_quantity position \<le> 0 \<and> up_realized_pnl position = 0
               then s\<lparr>pm_position := (pm_position s)((market_id, outcome_index, user) := None)\<rparr>
               else pm_set_user_position position s))"

section \<open>Market lifecycle\<close>

definition pm_initialize :: "env \<Rightarrow> address \<Rightarrow> address \<Rightarrow> 'w pm_state \<Rightarrow> pm_error + unit \<times> 'w pm_state" where
  "pm_initialize e admin oracle s =
     and_then (panic_if (pm_admin s \<noteq> None) PmAlreadyInitialized) (\<lambda>_.
     and_then (require_auth PmAuth e admin) (\<lambda>_.
     Inr ((), s\<lparr>pm_admin := Some admin, pm_oracle_address := Some oracle, pm_market_counter := Some 0, pm_paused := Some False\<rparr>)))"

fun pm_seed_pools :: "u64 \<Rightarrow> i128 \<Rightarrow> u32 list \<Rightarrow> 'w pm_state \<Rightarrow> pm_error + 'w pm_state" where
  "pm_seed_pools market_id liquidity [] s = Inr s"
| "pm_seed_pools market_id liquidity (i # is) s =
     and_then (pm_mul liquidity liquidity) (\<lambda>product.
     and_then (pm_isqrt product) (\<lambda>root.
     let pool = \<lparr>op_collateral_reserve = liquidity, op_outcome_reserve = liquidity, op_lp_total_supply = root\<rparr>;
         s = pm_set_total_outcome_supply market_id i 0 (pm_set_outcome_pool market_id i pool s) in
     pm_seed_pools market_id liquidity is s))"

definition pm_check_params :: "create_market_params \<Rightarrow> pm_error + unit" where
  "pm_check_params p =
     and_then (panic_if (cp_num_outcomes p < 2 \<or> cp_num_outcomes p > MAX_OUTCOMES) PmInvalidNumberOfOutcomes) (\<lambda>_.
     and_then (panic_if (length (cp_outcome_names p) \<noteq> cp_num_outcomes p) PmOutcomeNamesMismatch) (\<lambda>_.
     and_then (panic_if (cp_trading_fee_bps p > MAX_TRADING_FEE_BPS) PmFeeTooHigh) (\<lambda>_.
     and_then (panic_if (cp_resolution_window_duration p < MIN_RESOLUTION_WINDOW \<or>
                         cp_resolution_window_duration p > MAX_RESOLUTION_WINDOW) PmInvalidResolutionWindow) (\<lambda>_.
     and_then (panic_if (cp_initial_liquidity p \<le> 0) PmInitialLiquidityMustBePositive) (\<lambda>_.
     panic_if (cp_max_outcome_supply p \<le> 0) PmInvalidMarketCap)))))"

definition pm_new_market :: "u64 \<Rightarrow> u64 \<Rightarrow> u64 \<Rightarrow> address \<Rightarrow> create_market_params \<Rightarrow> prediction_market" where
  "pm_new_market market_id now window_end creator p =
     \<lparr>mk_market_id = market_id, mk_question = cp_question p, mk_category = cp_category p, mk_creator = creator,
      mk_collateral_token = cp_collateral_token p, mk_oracle_source = cp_oracle_source p, mk_num_outcomes = cp_num_outcomes p,
      mk_outcome_names = cp_outcome_names p, mk_status = MsActive, mk_created_at = now, mk_resolution_window_start = now,
      mk_resolution_window_end = window_end, mk_resolved_outcome = None, mk_total_collateral = 0,
      mk_max_outcome_supply = cp_max_outcome_supply p, mk_trading_fee_bps = cp_trading_fee_bps p\<rparr>"

definition pm_create_market ::
  "'w token_transfer \<Rightarrow> env \<Rightarrow> address \<Rightarrow> create_market_params \<Rightarrow> 'w pm_state \<Rightarrow> pm_error + u64 \<times> 'w pm_state" where
  "pm_create_market tr e creator p s =
     and_then (require_auth PmAuth e creator) (\<lambda>_.
     and_then (pm_check_params p) (\<lambda>_.
     let market_id = pm_get_market_counter s; now = env_timestamp e in
     and_then (ok_or PmOverflow (checked_add_u64 now (cp_resolution_window_duration p))) (\<lambda>window_end.
     let s = pm_set_market (pm_new_market market_id now window_end creator p) s in
     and_then (ok_or PmOverflow (checked_add_u64 market_id 1)) (\<lambda>counter.
     let s = s\<lparr>pm_market_counter := Some counter\<rparr> in
     and_then (pm_mul (cp_initial_liquidity p) (int (cp_num_outcomes p))) (\<lambda>total_initial.
     and_then (pm_transfer tr e (cp_collateral_token p) creator (env_self e) total_initial s) (\<lambda>s.
     and_then (pm_seed_pools market_id (cp_initial_liquidity p) [0..<cp_num_outcomes p] s) (\<lambda>s.
     let s = pm_set_market_collateral market_id total_initial s in
     and_then (pm_mul (cp_initial_liquidity p) (cp_initial_liquidity p)) (\<lambda>product.
     and_then (pm_isqrt product) (\<lambda>root.
     and_then (pm_mul root (int (cp_num_outcomes p))) (\<lambda>lp_total.
     Inr (market_id, pm_set_lp_total_supply market_id lp_total s)))))))))))"

definition pm_resolve_market :: "env \<Rightarrow> address \<Rightarrow> u64 \<Rightarrow> u32 \<Rightarrow> 'w pm_state \<Rightarrow> pm_error + unit \<times> 'w pm_state" where
  "pm_resolve_market e oracle_caller market_id outcome s =
     and_then (require_auth PmAuth e oracle_caller) (\<lambda>_.
     and_then (ok_or PmMarketNotFound (pm_market s market_id)) (\<lambda>market.
     and_then (if oracle_caller \<noteq> mk_oracle_source market
               then (case pm_oracle_address s of
                       Some default_oracle \<Rightarrow> panic_if (oracle_caller \<noteq> default_oracle) PmUnauthorizedOracle
                     | None \<Rightarrow> Inl PmUnauthorizedOracle)
               else Inr ()) (\<lambda>_.
     and_then (panic_if (mk_status market = MsResolved) PmMarketAlreadyResolved) (\<lambda>_.
     and_then (panic_if (env_timestamp e \<le> mk_resolution_window_end market) PmResolutionWindowNotClosed) (\<lambda>_.
     and_then (panic_if (outcome \<ge> mk_num_outcomes market) PmInvalidOutcomeIndex) (\<lambda>_.
     Inr ((), pm_set_market (market\<lparr>mk_status := MsResolved, mk_resolved_outcome := Some outcome\<rparr>) s)))))))"

definition pm_close_market_early :: "env \<Rightarrow> address \<Rightarrow> u64 \<Rightarrow> 'w pm_state \<Rightarrow> pm_error + unit \<times> 'w pm_state" where
  "pm_close_market_early e caller market_id s =
     and_then (require_auth PmAuth e caller) (\<lambda>_.
     and_then (ok_or PmMarketNotFound (pm_market s market_id)) (\<lambda>market.
     let is_admin = (case pm_admin s of None \<Rightarrow> False | Some a \<Rightarrow> a = caller) in
     and_then (panic_if (\<not> is_admin \<and> caller \<noteq> mk_creator market) PmUnauthorized) (\<lambda>_.
     and_then (panic_if (mk_status market \<noteq> MsActive) PmMarketNotActive) (\<lambda>_.
     Inr ((), pm_set_market (market\<lparr>mk_status := MsClosed\<rparr>) s)))))"

section \<open>Trading on the pools\<close>

definition pm_buy_outcome ::
  "'w token_transfer \<Rightarrow> env \<Rightarrow> address \<Rightarrow> u64 \<Rightarrow> u32 \<Rightarrow> i128 \<Rightarrow> i128 \<Rightarrow> 'w pm_state \<Rightarrow> pm_error + i128 \<times> 'w pm_state" where
  "pm_buy_outcome tr e buyer market_id outcome_index collateral_in min_outcome_out s =
     and_then (require_auth PmAuth e buyer) (\<lambda>_.
     and_then (pm_assert_trading_active market_id s) (\<lambda>_.
     and_then (panic_if (collateral_in \<le> 0) PmInvalidAmount) (\<lambda>_.
     and_then (pm_check_outcome_index market_id outcome_index s) (\<lambda>_.
     and_then (ok_or PmOutcomePoolNotFound (pm_pool s (market_id, outcome_index))) (\<lambda>pool.
     and_then (ok_or PmUnwrap (pm_market s market_id)) (\<lambda>market.
     let current_supply = pm_get_total_outcome_supply market_id outcome_index s in
     and_then (pm_calculate_buy_amount collateral_in (op_collateral_reserve pool) (op_outcome_reserve pool)
                 (mk_trading_fee_bps market)) (\<lambda>outcome_out.
     and_then (panic_if (outcome_out \<le> 0) PmOutputAmountIsZero) (\<lambda>_.
     and_then (panic_if (outcome_out < min_outcome_out) PmSlippageExceeded) (\<lambda>_.
     and_then (pm_add current_supply outcome_out) (\<lambda>new_supply.
     and_then (panic_if (new_supply > mk_max_outcome_supply market) PmMarketCapExceeded) (\<lambda>_.
     and_then (pm_transfer tr e (mk_collateral_token market) buyer (env_self e) collateral_in s) (\<lambda>s.
     and_then (pm_mul collateral_in (10000 - int (mk_trading_fee_bps market))) (\<lambda>scaled.
     and_then (pm_add (op_collateral_reserve pool) (div_i128 scaled 10000)) (\<lambda>collateral_reserve.
     and_then (pm_sub (op_outcome_reserve pool) outcome_out) (\<lambda>outcome_reserve.
     let s = pm_set_outcome_pool market_id outcome_index
               (pool\<lparr>op_collateral_reserve := collateral_reserve, op_outcome_reserve := outcome_reserve\<rparr>) s in
     and_then (pm_add (pm_get_outcome_balance market_id outcome_index buyer s) outcome_out) (\<lambda>balance.
     let s = pm_set_outcome_balance market_id outcome_index buyer balance s;
         s = pm_set_total_outcome_supply market_id outcome_index new_supply s in
     and_then (pm_update_position e market_id outcome_index buyer outcome_out collateral_in s) (\<lambda>s.
     and_then (pm_add (pm_get_market_collateral market_id s) collateral_in) (\<lambda>collateral.
     Inr (outcome_out, pm_set_market_collateral market_id collateral s)))))))))))))))))))"

definition pm_sell_outcome ::
  "'w token_transfer \<Rightarrow> env \<Rightarrow> address \<Rightarrow> u64 \<Rightarrow> u32 \<Rightarrow> i128 \<Rightarrow> i128 \<Rightarrow> 'w pm_state \<Rightarrow> pm_error + i128 \<times> 'w pm_state" where
  "pm_sell_outcome tr e seller market_id outcome_index outcome_amount min_collateral_out s =
     and_then (require_auth PmAuth e seller) (\<lambda>_.
     and_then (pm_assert_trading_active market_id s) (\<lambda>_.
     and_then (panic_if (outcome_amount \<le> 0) PmInvalidAmount) (\<lambda>_.
     and_then (pm_check_outcome_index market_id outcome_index s) (\<lambda>_.
     let user_balance = pm_get_outcome_balance market_id outcome_index seller s in
     and_then (panic_if (user_balance < outcome_amount) PmInsufficientBalance) (\<lambda>_.
     and_then (ok_or PmOutcomePoolNotFound (pm_pool s (market_id, outcome_index))) (\<lambda>pool.
     and_then (ok_or PmUnwrap (pm_market s market_id)) (\<lambda>market.
     and_then (pm_calculate_sell_amount outcome_amount (op_collateral_reserve pool) (op_outcome_reserve pool)
                 (mk_trading_fee_bps market)) (\<lambda>collateral_out.
     and_then (panic_if (collateral_out \<le> 0) PmOutputAmountIsZero) (\<lambda>_.
     and_then (panic_if (collateral_out < min_collateral_out) PmSlippageExceeded) (\<lambda>_.
     and_then (pm_sub (op_collateral_reserve pool) collateral_out) (\<lambda>collateral_reserve.
     and_then (pm_add (op_outcome_reserve pool) outcome_amount) (\<lambda>outcome_reserve.
     let s = pm_set_outcome_pool market_id outcome_index
               (pool\<lparr>op_collateral_reserve := collateral_reserve, op_outcome_reserve := outcome_reserve\<rparr>) s in
     and_then (pm_sub user_balance outcome_amount) (\<lambda>balance.
     let s = pm_set_outcome_balance market_id outcome_index seller balance s in
     and_then (pm_transfer tr e (mk_collateral_token market) (env_self e) seller collateral_out s) (\<lambda>s.
     let entry_price = (if user_balance > 0
           then (case pm_position s (market_id, outcome_index, seller) of None \<Rightarrow> 0 | Some p \<Rightarrow> up_avg_entry_price p) else 0) in
     and_then (pm_update_position_on_sell e market_id outcome_index seller outcome_amount collateral_out entry_price s) (\<lambda>s.
     and_then (pm_sub (pm_get_market_collateral market_id s) collateral_out) (\<lambda>collateral.
     let s = pm_set_market_collateral market_id collateral s in
     and_then (pm_sub (pm_get_total_outcome_supply market_id outcome_index s) outcome_amount) (\<lambda>supply.
     Inr (collateral_out, pm_set_total_outcome_supply market_id outcome_index supply s))))))))))))))))))"

definition pm_quote_buy :: "u64 \<Rightarrow> u32 \<Rightarrow> i128 \<Rightarrow> 'w pm_state \<Rightarrow> pm_error + i128" where
  "pm_quote_buy market_id outcome_index collateral_in s =
     and_then (ok_or PmOutcomePoolNotFound (pm_pool s (market_id, outcome_index))) (\<lambda>pool.
     and_then (ok_or PmUnwrap (pm_market s market_id)) (\<lambda>market.
     pm_calculate_buy_amount collateral_in (op_collateral_reserve pool) (op_outcome_reserve pool) (mk_trading_fee_bps market)))"

definition pm_quote_sell :: "u64 \<Rightarrow> u32 \<Rightarrow> i128 \<Rightarrow> 'w pm_state \<Rightarrow> pm_error + i128" where
  "pm_quote_sell market_id outcome_index outcome_amount s =
     and_then (ok_or PmOutcomePoolNotFound (pm_pool s (market_id, outcome_index))) (\<lambda>pool.
     and_then (ok_or PmUnwrap (pm_market s market_id)) (\<lambda>market.
     pm_calculate_sell_amount outcome_amount (op_collateral_reserve pool) (op_outcome_reserve pool) (mk_trading_fee_bps market)))"

section \<open>Liquidity\<close>

definition pm_add_liquidity ::
  "'w token_transfer \<Rightarrow> env \<Rightarrow> address \<Rightarrow> u64 \<Rightarrow> u32 \<Rightarrow> i128 \<Rightarrow> i128 \<Rightarrow> 'w pm_state \<Rightarrow> pm_error + i128 \<times> 'w pm_state" where
  "pm_add_liquidity tr e provider market_id outcome_index collateral_amount outcome_amount s =
     and_then (require_auth PmAuth e provider) (\<lambda>_.
     and_then (pm_assert_market_active market_id s) (\<lambda>_.
     and_then (panic_if (collateral_amount \<le> 0 \<or> outcome_amount \<le> 0) PmAmountsMustBePositive) (\<lambda>_.
     and_then (pm_check_outcome_index market_id outcome_index s) (\<lambda>_.
     and_then (ok_or PmOutcomePoolNotFound (pm_pool s (market_id, outcome_index))) (\<lambda>pool.
     and_then (pm_calculate_lp_shares_add collateral_amount outcome_amount pool) (\<lambda>lp_shares.
     and_then (panic_if (lp_shares \<le> 0) PmInsufficientLiquidityMinted) (\<lambda>_.
     and_then (ok_or PmUnwrap (pm_market s market_id)) (\<lambda>market.
     and_then (pm_transfer tr e (mk_collateral_token market) provider (env_self e) collateral_amount s) (\<lambda>s.
     and_then (pm_add (op_collateral_reserve pool) collateral_amount) (\<lambda>collateral_reserve.
     and_then (pm_add (op_outcome_reserve pool) outcome_amount) (\<lambda>outcome_reserve.
     and_then (pm_add (op_lp_total_supply pool) lp_shares) (\<lambda>pool_supply.
     let s = pm_set_outcome_pool market_id outcome_index
               (pool\<lparr>op_collateral_reserve := collateral_reserve, op_outcome_reserve := outcome_reserve,
                     op_lp_total_supply := pool_supply\<rparr>) s in
     and_then (pm_add (pm_get_lp_shares market_id provider s) lp_shares) (\<lambda>shares.
     let s = pm_set_lp_shares market_id provider shares s in
     and_then (pm_add (pm_get_lp_total_supply market_id s) lp_shares) (\<lambda>lp_total.
     let s = pm_set_lp_total_supply market_id lp_total s in
     and_then (pm_add (pm_get_market_collateral market_id s) collateral_amount) (\<lambda>collateral.
     Inr (lp_shares, pm_set_market_collateral market_id collateral s))))))))))))))))"

definition pm_remove_liquidity ::
  "'w token_transfer \<Rightarrow> env \<Rightarrow> address \<Rightarrow> u64 \<Rightarrow> u32 \<Rightarrow> i128 \<Rightarrow> 'w pm_state \<Rightarrow> pm_error + (i128 \<times> i128) \<times> 'w pm_state" where
  "pm_remove_liquidity tr e provider market_id outcome_index lp_amount s =
     and_then (require_auth PmAuth e provider) (\<lambda>_.
     and_then (panic_if (lp_amount \<le> 0) PmLpAmountMustBePositive) (\<lambda>_.
     let user_shares = pm_get_lp_shares market_id provider s in
     and_then (panic_if (user_shares < lp_amount) PmInsufficientLpTokens) (\<lambda>_.
     and_then (ok_or PmOutcomePoolNotFound (pm_pool s (market_id, outcome_index))) (\<lambda>pool.
     and_then (panic_if (op_lp_total_supply pool \<le> 0) PmNoLiquidity) (\<lambda>_.
     and_then (pm_calculate_lp_withdraw lp_amount pool) (\<lambda>(collateral_out, outcome_out).
     and_then (ok_or PmUnwrap (pm_market s market_id)) (\<lambda>market.
     and_then (pm_transfer tr e (mk_collateral_token market) (env_self e) provider collateral_out s) (\<lambda>s.
     and_then (pm_sub (op_collateral_reserve pool) collateral_out) (\<lambda>collateral_reserve.
     and_then (pm_sub (op_outcome_reserve pool) outcome_out) (\<lambda>outcome_reserve.
     and_then (pm_sub (op_lp_total_supply pool) lp_amount) (\<lambda>pool_supply.
     let s = pm_set_outcome_pool market_id outcome_index
               (pool\<lparr>op_collateral_reserve := collateral_reserve, op_outcome_reserve := outcome_reserve,
                     op_lp_total_supply := pool_supply\<rparr>) s in
     and_then (pm_sub user_shares lp_amount) (\<lambda>shares.
     let s = pm_set_lp_shares market_id provider shares s in
     and_then (pm_sub (pm_get_lp_total_supply market_id s) lp_amount) (\<lambda>lp_total.
     let s = pm_set_lp_total_supply market_id lp_total s in
     and_then (pm_add (pm_get_outcome_balance market_id outcome_index provider s) outcome_out) (\<lambda>balance.
     let s = pm_set_outcome_balance market_id outcome_index provider balance s in
     and_then (pm_sub (pm_get_market_collateral market_id s) collateral_out) (\<lambda>collateral.
     Inr ((collateral_out, outcome_out), pm_set_market_collateral market_id collateral s))))))))))))))))"

section \<open>The order book\<close>

text \<open>The guard of \<open>place_order\<close> on either side: a seller must hold the tokens, a buyer's collateral is moved in.\<close>

definition pm_lock_for_order ::
  "'w token_transfer \<Rightarrow> 'w token_balance \<Rightarrow> env \<Rightarrow> address \<Rightarrow> u64 \<Rightarrow> u32 \<Rightarrow> order_side \<Rightarrow> i128 \<Rightarrow> i128 \<Rightarrow>
   'w pm_state \<Rightarrow> pm_error + 'w pm_state" where
  "pm_lock_for_order tr bal e owner market_id outcome_index side price quantity s =
     (case side of
        SideSell \<Rightarrow>
          and_then (panic_if (pm_get_outcome_balance market_id outcome_index owner s < quantity)
                      PmInsufficientBalanceForSellOrder) (\<lambda>_. Inr s)
      | SideBuy \<Rightarrow>
          and_then (pm_mul price quantity) (\<lambda>scaled.
          let cost = div_i128 scaled DECIMAL_FACTOR in
          and_then (ok_or PmUnwrap (pm_market s market_id)) (\<lambda>market.
          and_then (panic_if (bal (pm_tokens s) (mk_collateral_token market) owner < cost) PmInsufficientCollateralForOrder) (\<lambda>_.
          pm_transfer tr e (mk_collateral_token market) owner (env_self e) cost s))))"

definition pm_place_order ::
  "'w token_transfer \<Rightarrow> 'w token_balance \<Rightarrow> env \<Rightarrow> address \<Rightarrow> u64 \<Rightarrow> u32 \<Rightarrow> order_side \<Rightarrow> i128 \<Rightarrow> i128 \<Rightarrow>
   'w pm_state \<Rightarrow> pm_error + u64 \<times> 'w pm_state" where
  "pm_place_order tr bal e owner market_id outcome_index side price quantity s =
     and_then (require_auth PmAuth e owner) (\<lambda>_.
     and_then (pm_assert_trading_active market_id s) (\<lambda>_.
     and_then (panic_if (price \<le> 0 \<or> quantity \<le> 0) PmInvalidPriceOrQuantity) (\<lambda>_.
     and_then (pm_check_outcome_index market_id outcome_index s) (\<lambda>_.
     and_then (pm_lock_for_order tr bal e owner market_id outcome_index side price quantity s) (\<lambda>s.
     let order_id = pm_get_order_counter market_id s;
         order = \<lparr>lo_order_id = order_id, lo_market_id = market_id, lo_owner = owner, lo_outcome_index = outcome_index, lo_side = side,
           lo_price = price, lo_quantity = quantity, lo_filled_quantity = 0, lo_status = OsOpen, lo_created_at = env_timestamp e,
           lo_expires_at = None\<rparr>;
         s = pm_set_order order s in
     and_then (ok_or PmOverflow (checked_add_u64 order_id 1)) (\<lambda>counter.
     Inr (order_id, pm_set_order_counter market_id counter s)))))))"

text \<open>What \<open>cancel_order\<close> returns of a buy order.\<close>

definition pm_refund_order :: "'w token_transfer \<Rightarrow> env \<Rightarrow> address \<Rightarrow> u64 \<Rightarrow> limit_order \<Rightarrow> 'w pm_state \<Rightarrow> pm_error + 'w pm_state" where
  "pm_refund_order tr e owner market_id order s =
     (if lo_side order = SideBuy then
        and_then (pm_sub (lo_quantity order) (lo_filled_quantity order)) (\<lambda>remaining.
        and_then (pm_mul (lo_price order) remaining) (\<lambda>scaled.
        let cost = div_i128 scaled DECIMAL_FACTOR in
        if cost > 0 then
          and_then (ok_or PmUnwrap (pm_market s market_id)) (\<lambda>market.
          pm_transfer tr e (mk_collateral_token market) (env_self e) owner cost s)
        else Inr s))
      else Inr s)"

definition pm_cancel_order :: "'w token_transfer \<Rightarrow> env \<Rightarrow> address \<Rightarrow> u64 \<Rightarrow> u64 \<Rightarrow> 'w pm_state \<Rightarrow> pm_error + unit \<times> 'w pm_state" where
  "pm_cancel_order tr e owner market_id order_id s =
     and_then (require_auth PmAuth e owner) (\<lambda>_.
     and_then (ok_or PmOrderNotFound (pm_order s (market_id, order_id))) (\<lambda>order.
     and_then (panic_if (lo_owner order \<noteq> owner) PmUnauthorized) (\<lambda>_.
     and_then (panic_if (lo_status order \<noteq> OsOpen) PmOrderNotOpen) (\<lambda>_.
     and_then (pm_refund_order tr e owner market_id order (pm_set_order (order\<lparr>lo_status := OsCancelled\<rparr>) s)) (\<lambda>s.
     Inr ((), s))))))"

text \<open>Which buy orders a sell order is matched against.\<close>

definition pm_crosses :: "limit_order \<Rightarrow> address \<Rightarrow> limit_order \<Rightarrow> bool" where
  "pm_crosses sell_order seller buy_order \<longleftrightarrow>
     lo_status buy_order = OsOpen \<and> lo_side buy_order = SideBuy \<and> lo_outcome_index buy_order = lo_outcome_index sell_order \<and>
     lo_owner buy_order \<noteq> seller \<and> lo_price sell_order \<le> lo_price buy_order"

definition pm_fill_order :: "u64 \<Rightarrow> u32 \<Rightarrow> i128 \<Rightarrow> limit_order \<Rightarrow> 'w pm_state \<Rightarrow> pm_error + (i128 \<times> i128) \<times> 'w pm_state" where
  "pm_fill_order market_id outcome_index remaining buy_order s =
     and_then (pm_sub (lo_quantity buy_order) (lo_filled_quantity buy_order)) (\<lambda>buy_remaining.
     let fill_amount = (if remaining < buy_remaining then remaining else buy_remaining) in
     and_then (pm_mul (lo_price buy_order) fill_amount) (\<lambda>scaled.
     and_then (pm_add (lo_filled_quantity buy_order) fill_amount) (\<lambda>filled.
     let buy_order = buy_order\<lparr>lo_filled_quantity := filled,
           lo_status := (if filled \<ge> lo_quantity buy_order then OsFilled else OsOpen)\<rparr>;
         s = pm_set_order buy_order s in
     and_then (pm_add (pm_get_outcome_balance market_id outcome_index (lo_owner buy_order) s) fill_amount) (\<lambda>balance.
     Inr ((fill_amount, div_i128 scaled DECIMAL_FACTOR),
          pm_set_outcome_balance market_id outcome_index (lo_owner buy_order) balance s)))))"

fun pm_match_loop ::
  "u64 \<Rightarrow> limit_order \<Rightarrow> address \<Rightarrow> u64 list \<Rightarrow> i128 \<Rightarrow> i128 \<Rightarrow> 'w pm_state \<Rightarrow> pm_error + (i128 \<times> i128) \<times> 'w pm_state" where
  "pm_match_loop market_id sell_order seller [] remaining received s = Inr ((remaining, received), s)"
| "pm_match_loop market_id sell_order seller (oid # oids) remaining received s =
     (if remaining \<le> 0 then Inr ((remaining, received), s)
      else
        case pm_order s (market_id, oid) of
          None \<Rightarrow> pm_match_loop market_id sell_order seller oids remaining received s
        | Some buy_order \<Rightarrow>
            if \<not> pm_crosses sell_order seller buy_order then pm_match_loop market_id sell_order seller oids remaining received s
            else
              and_then (pm_fill_order market_id (lo_outcome_index sell_order) remaining buy_order s) (\<lambda>((fill, collateral), s).
              and_then (pm_add received collateral) (\<lambda>received.
              and_then (pm_sub remaining fill) (\<lambda>remaining.
              pm_match_loop market_id sell_order seller oids remaining received s))))"

definition pm_match_sell_order ::
  "'w token_transfer \<Rightarrow> env \<Rightarrow> address \<Rightarrow> u64 \<Rightarrow> u64 \<Rightarrow> 'w pm_state \<Rightarrow> pm_error + i128 \<times> 'w pm_state" where
  "pm_match_sell_order tr e seller market_id order_id s =
     and_then (require_auth PmAuth e seller) (\<lambda>_.
     and_then (ok_or PmOrderNotFound (pm_order s (market_id, order_id))) (\<lambda>sell_order.
     and_then (panic_if (lo_owner sell_order \<noteq> seller) PmUnauthorized) (\<lambda>_.
     and_then (panic_if (lo_status sell_order \<noteq> OsOpen) PmOrderNotOpen) (\<lambda>_.
     and_then (panic_if (lo_side sell_order \<noteq> SideSell) PmNotASellOrder) (\<lambda>_.
     and_then (pm_sub (lo_quantity sell_order) (lo_filled_quantity sell_order)) (\<lambda>to_sell.
     and_then (pm_match_loop market_id sell_order seller [0..<pm_get_order_counter market_id s] to_sell 0 s) (\<lambda>((remaining, received), s).
     and_then (pm_sub (lo_quantity sell_order) remaining) (\<lambda>filled.
     let sell_order = sell_order\<lparr>lo_filled_quantity := filled, lo_status := (if remaining = 0 then OsFilled else OsOpen)\<rparr>;
         s = pm_set_order sell_order s;
         seller_balance = pm_get_outcome_balance market_id (lo_outcome_index sell_order) seller s in
     and_then (pm_sub seller_balance filled) (\<lambda>balance.
     let s = pm_set_outcome_balance market_id (lo_outcome_index sell_order) seller balance s in
     if received > 0 then
       and_then (ok_or PmUnwrap (pm_market s market_id)) (\<lambda>market.
       and_then (pm_transfer tr e (mk_collateral_token market) (env_self e) seller received s) (\<lambda>s.
       Inr (received, s)))
     else Inr (received, s))))))))))"

section \<open>Redemption\<close>

definition pm_redeem_winning_tokens ::
  "'w token_transfer \<Rightarrow> env \<Rightarrow> address \<Rightarrow> u64 \<Rightarrow> 'w pm_state \<Rightarrow> pm_error + i128 \<times> 'w pm_state" where
  "pm_redeem_winning_tokens tr e user market_id s =
     and_then (require_auth PmAuth e user) (\<lambda>_.
     and_then (ok_or PmMarketNotFound (pm_market s market_id)) (\<lambda>market.
     and_then (panic_if (mk_status market \<noteq> MsResolved) PmMarketNotResolved) (\<lambda>_.
     and_then (ok_or PmNoResolvedOutcome (mk_resolved_outcome market)) (\<lambda>winning_outcome.
     let balance = pm_get_outcome_balance market_id winning_outcome user s in
     and_then (panic_if (balance \<le> 0) PmNoWinningTokens) (\<lambda>_.
     and_then (ok_or PmPoolNotFound (pm_pool s (market_id, winning_outcome))) (\<lambda>pool.
     if op_collateral_reserve pool < balance then
       let payout = op_collateral_reserve pool in
       and_then (pm_transfer tr e (mk_collateral_token market) (env_self e) user payout s) (\<lambda>s.
       let s = pm_set_outcome_balance market_id winning_outcome user 0 s;
           s = pm_set_outcome_pool market_id winning_outcome (pool\<lparr>op_collateral_reserve := 0\<rparr>) s in
       and_then (pm_sub (pm_get_market_collateral market_id s) payout) (\<lambda>collateral.
       Inr (payout, pm_set_market_collateral market_id collateral s)))
     else
       and_then (pm_transfer tr e (mk_collateral_token market) (env_self e) user balance s) (\<lambda>s.
       let s = pm_set_outcome_balance market_id winning_outcome user 0 s in
       and_then (pm_sub (op_collateral_reserve pool) balance) (\<lambda>collateral_reserve.
       let s = pm_set_outcome_pool market_id winning_outcome (pool\<lparr>op_collateral_reserve := collateral_reserve\<rparr>) s in
       and_then (pm_sub (pm_get_market_collateral market_id s) balance) (\<lambda>collateral.
       Inr (balance, pm_set_market_collateral market_id collateral s))))))))))"

section \<open>Disputes\<close>

definition pm_open_dispute ::
  "'w token_transfer \<Rightarrow> env \<Rightarrow> address \<Rightarrow> u64 \<Rightarrow> u32 \<Rightarrow> string \<Rightarrow> i128 \<Rightarrow> 'w pm_state \<Rightarrow> pm_error + u64 \<times> 'w pm_state" where
  "pm_open_dispute tr e challenger market_id claimed_outcome evidence stake_amount s =
     and_then (require_auth PmAuth e challenger) (\<lambda>_.
     and_then (ok_or PmMarketNotFound (pm_market s market_id)) (\<lambda>market.
     and_then (panic_if (mk_status market \<noteq> MsResolved) PmMarketMustBeResolvedToDispute) (\<lambda>_.
     and_then (panic_if (claimed_outcome \<ge> mk_num_outcomes market) PmInvalidOutcomeIndex) (\<lambda>_.
     and_then (panic_if (stake_amount \<le> 0) PmStakeRequired) (\<lambda>_.
     and_then (pm_transfer tr e (mk_collateral_token market) challenger (env_self e) stake_amount s) (\<lambda>s.
     let dispute_id = pm_get_dispute_counter market_id s;
         d = \<lparr>di_dispute_id = dispute_id, di_market_id = market_id, di_challenger = challenger, di_claimed_outcome = claimed_outcome,
           di_evidence = evidence, di_stake_amount = stake_amount, di_status = DsOpen, di_votes_for = 0, di_votes_against = 0,
           di_created_at = env_timestamp e, di_resolved_at = None\<rparr>;
         s = pm_set_dispute d s in
     and_then (ok_or PmOverflow (checked_add_u64 dispute_id 1)) (\<lambda>counter.
     let s = pm_set_dispute_counter market_id counter s in
     Inr (dispute_id, pm_set_market (market\<lparr>mk_status := MsDisputed\<rparr>) s))))))))"

fun pm_vote_weight :: "u64 \<Rightarrow> address \<Rightarrow> u32 list \<Rightarrow> i128 \<Rightarrow> 'w pm_state \<Rightarrow> pm_error + i128" where
  "pm_vote_weight market_id voter [] weight s = Inr weight"
| "pm_vote_weight market_id voter (i # is) weight s =
     and_then (pm_add weight (pm_get_outcome_balance market_id i voter s)) (\<lambda>weight. pm_vote_weight market_id voter is weight s)"

definition pm_vote_dispute :: "env \<Rightarrow> address \<Rightarrow> u64 \<Rightarrow> u64 \<Rightarrow> bool \<Rightarrow> 'w pm_state \<Rightarrow> pm_error + unit \<times> 'w pm_state" where
  "pm_vote_dispute e voter market_id dispute_id support_challenger s =
     and_then (require_auth PmAuth e voter) (\<lambda>_.
     and_then (ok_or PmDisputeNotFound (pm_dispute s (market_id, dispute_id))) (\<lambda>d.
     and_then (panic_if (di_status d \<noteq> DsOpen \<and> di_status d \<noteq> DsVoted) PmDisputeNotOpen) (\<lambda>_.
     and_then (panic_if (pm_has_voted market_id dispute_id voter s) PmAlreadyVoted) (\<lambda>_.
     and_then (ok_or PmUnwrap (pm_market s market_id)) (\<lambda>market.
     and_then (pm_vote_weight market_id voter [0..<mk_num_outcomes market] 0 s) (\<lambda>weight.
     and_then (panic_if (weight \<le> 0) PmNoTokensToVoteWith) (\<lambda>_.
     let s = pm_set_vote market_id dispute_id voter weight s in
     and_then (if support_challenger
               then and_then (pm_add (di_votes_for d) weight) (\<lambda>v. Inr (d\<lparr>di_votes_for := v\<rparr>))
               else and_then (pm_add (di_votes_against d) weight) (\<lambda>v. Inr (d\<lparr>di_votes_against := v\<rparr>))) (\<lambda>d.
     Inr ((), pm_set_dispute (d\<lparr>di_status := DsVoted\<rparr>) s)))))))))"

definition pm_resolve_dispute ::
  "'w token_transfer \<Rightarrow> env \<Rightarrow> address \<Rightarrow> u64 \<Rightarrow> u64 \<Rightarrow> 'w pm_state \<Rightarrow> pm_error + unit \<times> 'w pm_state" where
  "pm_resolve_dispute tr e admin market_id dispute_id s =
     and_then (require_auth PmAuth e admin) (\<lambda>_.
     and_then (pm_assert_admin admin s) (\<lambda>_.
     and_then (ok_or PmDisputeNotFound (pm_dispute s (market_id, dispute_id))) (\<lambda>d.
     and_then (panic_if (di_status d = DsResolvedUpheld \<or> di_status d = DsResolvedRejected) PmDisputeAlreadyResolved) (\<lambda>_.
     if di_votes_for d > di_votes_against d then
       and_then (ok_or PmUnwrap (pm_market s market_id)) (\<lambda>market.
       let s = pm_set_market (market\<lparr>mk_resolved_outcome := Some (di_claimed_outcome d), mk_status := MsResolved\<rparr>) s in
       and_then (pm_transfer tr e (mk_collateral_token market) (env_self e) (di_challenger d) (di_stake_amount d) s) (\<lambda>s.
       Inr ((), pm_set_dispute (d\<lparr>di_status := DsResolvedUpheld, di_resolved_at := Some (env_timestamp e)\<rparr>) s)))
     else
       and_then (ok_or PmUnwrap (pm_market s market_id)) (\<lambda>market.
       and_then (case pm_collector s of
                   Some collector \<Rightarrow> pm_transfer tr e (mk_collateral_token market) (env_self e) collector (di_stake_amount d) s
                 | None \<Rightarrow> Inr s) (\<lambda>s.
       let s = pm_set_dispute (d\<lparr>di_status := DsResolvedRejected, di_resolved_at := Some (env_timestamp e)\<rparr>) s in
       Inr ((), pm_set_market (market\<lparr>mk_status := MsResolved\<rparr>) s)))))))"

section \<open>Views\<close>

definition pm_query_market :: "u64 \<Rightarrow> 'w pm_state \<Rightarrow> pm_error + prediction_market" where
  "pm_query_market market_id s = ok_or PmMarketNotFound (pm_market s market_id)"

definition pm_query_outcome_pool :: "u64 \<Rightarrow> u32 \<Rightarrow> 'w pm_state \<Rightarrow> pm_error + outcome_pool" where
  "pm_query_outcome_pool market_id outcome_index s = ok_or PmOutcomePoolNotFound (pm_pool s (market_id, outcome_index))"

definition pm_query_user_balance :: "u64 \<Rightarrow> u32 \<Rightarrow> address \<Rightarrow> 'w pm_state \<Rightarrow> i128" where
  "pm_query_user_balance market_id outcome_index user s = pm_get_outcome_balance market_id outcome_index user s"

definition pm_query_lp_shares :: "u64 \<Rightarrow> address \<Rightarrow> 'w pm_state \<Rightarrow> i128" where
  "pm_query_lp_shares market_id provider s = pm_get_lp_shares market_id provider s"

definition pm_query_outcome_price :: "u64 \<Rightarrow> u32 \<Rightarrow> 'w pm_state \<Rightarrow> pm_error + i128" where
  "pm_query_outcome_price market_id outcome_index s =
     and_then (ok_or PmOutcomePoolNotFound (pm_pool s (market_id, outcome_index))) (\<lambda>pool.
     pm_get_outcome_price (op_collateral_reserve pool) (op_outcome_reserve pool))"

definition pm_query_order :: "u64 \<Rightarrow> u64 \<Rightarrow> 'w pm_state \<Rightarrow> pm_error + limit_order" where
  "pm_query_order market_id order_id s = ok_or PmOrderNotFound (pm_order s (market_id, order_id))"

definition pm_query_dispute :: "u64 \<Rightarrow> u64 \<Rightarrow> 'w pm_state \<Rightarrow> pm_error + dispute" where
  "pm_query_dispute market_id dispute_id s = ok_or PmDisputeNotFound (pm_dispute s (market_id, dispute_id))"

section \<open>Administration\<close>

definition pm_admin_pause_trading :: "env \<Rightarrow> address \<Rightarrow> 'w pm_state \<Rightarrow> pm_error + unit \<times> 'w pm_state" where
  "pm_admin_pause_trading e admin s =
     and_then (require_auth PmAuth e admin) (\<lambda>_.
     and_then (pm_assert_admin admin s) (\<lambda>_. Inr ((), s\<lparr>pm_paused := Some True\<rparr>)))"

definition pm_admin_resume_trading :: "env \<Rightarrow> address \<Rightarrow> 'w pm_state \<Rightarrow> pm_error + unit \<times> 'w pm_state" where
  "pm_admin_resume_trading e admin s =
     and_then (require_auth PmAuth e admin) (\<lambda>_.
     and_then (pm_assert_admin admin s) (\<lambda>_. Inr ((), s\<lparr>pm_paused := Some False\<rparr>)))"

definition pm_admin_set_admin :: "env \<Rightarrow> address \<Rightarrow> address \<Rightarrow> 'w pm_state \<Rightarrow> pm_error + unit \<times> 'w pm_state" where
  "pm_admin_set_admin e current_admin new_admin s =
     and_then (require_auth PmAuth e current_admin) (\<lambda>_.
     and_then (pm_assert_admin current_admin s) (\<lambda>_. Inr ((), s\<lparr>pm_admin := Some new_admin\<rparr>)))"

definition pm_admin_set_fee_config :: "env \<Rightarrow> address \<Rightarrow> address \<Rightarrow> i128 \<Rightarrow> 'w pm_state \<Rightarrow> pm_error + unit \<times> 'w pm_state" where
  "pm_admin_set_fee_config e admin collector fee_share_bps s =
     and_then (require_auth PmAuth e admin) (\<lambda>_.
     and_then (pm_assert_admin admin s) (\<lambda>_.
     and_then (panic_if (\<not> (0 \<le> fee_share_bps \<and> fee_share_bps \<le> 5000)) PmInvalidFeeConfig) (\<lambda>_.
     Inr ((), s\<lparr>pm_collector := Some collector, pm_fee_share_bps := Some fee_share_bps\<rparr>))))"

definition pm_admin_set_oracle :: "env \<Rightarrow> address \<Rightarrow> address \<Rightarrow> 'w pm_state \<Rightarrow> pm_error + unit \<times> 'w pm_state" where
  "pm_admin_set_oracle e admin oracle s =
     and_then (require_auth PmAuth e admin) (\<lambda>_.
     and_then (pm_assert_admin admin s) (\<lambda>_. Inr ((), s\<lparr>pm_oracle_address := Some oracle\<rparr>)))"

section \<open>Calls\<close>

datatype pm_call =
    PmInitialize address address
  | PmCreateMarket address create_market_params
  | PmResolveMarket address u64 u32
  | PmCloseMarketEarly address u64
  | PmBuyOutcome address u64 u32 i128 i128
  | PmSellOutcome address u64 u32 i128 i128
  | PmAddLiquidity address u64 u32 i128 i128
  | PmRemoveLiquidity address u64 u32 i128
  | PmPlaceOrder address u64 u32 order_side i128 i128
  | PmCancelOrder address u64 u64
  | PmMatchSellOrder address u64 u64
  | PmRedeemWinningTokens address u64
  | PmOpenDispute address u64 u32 string i128
  | PmVoteDispute address u64 u64 bool
  | PmResolveDispute address u64 u64
  | PmAdminPauseTrading address
  | PmAdminResumeTrading address
  | PmAdminSetAdmin address address
  | PmAdminSetFeeConfig address address i128
  | PmAdminSetOracle address address

fun pm_exec :: "'w token_transfer \<Rightarrow> 'w token_balance \<Rightarrow> env \<Rightarrow> pm_call \<Rightarrow> 'w pm_state \<Rightarrow> 'w pm_state option" where
  "pm_exec tr bal e (PmInitialize a o') s = state_of (pm_initialize e a o' s)"
| "pm_exec tr bal e (PmCreateMarket c p) s = state_of (pm_create_market tr e c p s)"
| "pm_exec tr bal e (PmResolveMarket a m i) s = state_of (pm_resolve_market e a m i s)"
| "pm_exec tr bal e (PmCloseMarketEarly a m) s = state_of (pm_close_market_early e a m s)"
| "pm_exec tr bal e (PmBuyOutcome a m i n k) s = state_of (pm_buy_outcome tr e a m i n k s)"
| "pm_exec tr bal e (PmSellOutcome a m i n k) s = state_of (pm_sell_outcome tr e a m i n k s)"
| "pm_exec tr bal e (PmAddLiquidity a m i n k) s = state_of (pm_add_liquidity tr e a m i n k s)"
| "pm_exec tr bal e (PmRemoveLiquidity a m i n) s = state_of (pm_remove_liquidity tr e a m i n s)"
| "pm_exec tr bal e (PmPlaceOrder a m i d p q) s = state_of (pm_place_order tr bal e a m i d p q s)"
| "pm_exec tr bal e (PmCancelOrder a m i) s = state_of (pm_cancel_order tr e a m i s)"
| "pm_exec tr bal e (PmMatchSellOrder a m i) s = state_of (pm_match_sell_order tr e a m i s)"
| "pm_exec tr bal e (PmRedeemWinningTokens a m) s = state_of (pm_redeem_winning_tokens tr e a m s)"
| "pm_exec tr bal e (PmOpenDispute a m i x n) s = state_of (pm_open_dispute tr e a m i x n s)"
| "pm_exec tr bal e (PmVoteDispute a m i b) s = state_of (pm_vote_dispute e a m i b s)"
| "pm_exec tr bal e (PmResolveDispute a m i) s = state_of (pm_resolve_dispute tr e a m i s)"
| "pm_exec tr bal e (PmAdminPauseTrading a) s = state_of (pm_admin_pause_trading e a s)"
| "pm_exec tr bal e (PmAdminResumeTrading a) s = state_of (pm_admin_resume_trading e a s)"
| "pm_exec tr bal e (PmAdminSetAdmin a b) s = state_of (pm_admin_set_admin e a b s)"
| "pm_exec tr bal e (PmAdminSetFeeConfig a b n) s = state_of (pm_admin_set_fee_config e a b n s)"
| "pm_exec tr bal e (PmAdminSetOracle a b) s = state_of (pm_admin_set_oracle e a b s)"

end
