(* ===== verification/Prediction_Correct.thy ===== *)
theory Prediction_Correct
  imports Prediction
begin

text \<open>
  What the operations of Prediction do, the invariant of the contract and its transition system: the
  shapes of markets, pools, orders, disputes and votes, the books of the liquidity shares, and the
  collateral that covers reserves, open orders and dispute stakes.
\<close>

section \<open>What the operations do\<close>

text \<open>An entry that is removed when it would not be positive.\<close>

definition pm_put :: "'k \<Rightarrow> i128 \<Rightarrow> ('k \<Rightarrow> i128 option) \<Rightarrow> 'k \<Rightarrow> i128 option" where
  "pm_put k n m = (if n \<le> 0 then m(k := None) else m(k \<mapsto> n))"

lemma pm_put_get: "unwrap_or 0 (pm_put k n m j) = (if j = k then max n 0 else unwrap_or 0 (m j))"
  by (simp add: pm_put_def)

lemma pm_put_pos: "(\<And>j v. m j = Some v \<Longrightarrow> 0 < v) \<Longrightarrow> pm_put k n m j = Some v \<Longrightarrow> 0 < v"
  by (auto simp: pm_put_def split: if_splits)

lemma pm_put_dom: "finite (dom m) \<Longrightarrow> finite (dom (pm_put k n m))"
  by (simp add: pm_put_def)

lemma pm_put_sum:
  "finite (dom m) \<Longrightarrow> f k 0 = 0 \<Longrightarrow> key_sum f (pm_put k n m) = key_sum f m - f k (unwrap_or 0 (m k)) + f k (max n 0)"
  by (cases "m k") (auto simp: pm_put_def key_sum_upd key_sum_del max_def)

lemma pm_setters:
  "pm_set_outcome_balance m i a n s = s\<lparr>pm_balance := pm_put (m, i, a) n (pm_balance s)\<rparr>"
  "pm_set_lp_shares m a n s = s\<lparr>pm_lp := pm_put (m, a) n (pm_lp s)\<rparr>"
  "pm_set_outcome_pool m i p s = s\<lparr>pm_pool := (pm_pool s)((m, i) \<mapsto> p)\<rparr>"
  "pm_set_total_outcome_supply m i n s = s\<lparr>pm_supply := (pm_supply s)((m, i) \<mapsto> n)\<rparr>"
  "pm_set_market_collateral m n s = s\<lparr>pm_collateral := (pm_collateral s)(m \<mapsto> n)\<rparr>"
  "pm_set_lp_total_supply m n s = s\<lparr>pm_lp_total := (pm_lp_total s)(m \<mapsto> n)\<rparr>"
  "pm_set_order q s = s\<lparr>pm_order := (pm_order s)((lo_market_id q, lo_order_id q) \<mapsto> q)\<rparr>"
  "pm_set_order_counter m j s = s\<lparr>pm_order_count := (pm_order_count s)(m \<mapsto> j)\<rparr>"
  "pm_set_dispute d s = s\<lparr>pm_dispute := (pm_dispute s)((di_market_id d, di_dispute_id d) \<mapsto> d)\<rparr>"
  "pm_set_dispute_counter m j s = s\<lparr>pm_dispute_count := (pm_dispute_count s)(m \<mapsto> j)\<rparr>"
  "pm_set_vote m j a n s = s\<lparr>pm_dispute_vote := (pm_dispute_vote s)((m, j, a) \<mapsto> n)\<rparr>"
  "pm_set_market k s = s\<lparr>pm_market := (pm_market s)(mk_market_id k \<mapsto> k)\<rparr>"
  by (simp_all add: pm_storage_defs pm_put_def)

lemma pm_transfer_Inr [result_iffs]:
  "pm_transfer tr e tok src dst n s = Inr s' \<longleftrightarrow> (\<exists>w. tr e tok src dst n (pm_tokens s) = Some w \<and> s' = s\<lparr>pm_tokens := w\<rparr>)"
  by (auto simp: pm_transfer_def result_iffs)

lemma pm_checks_Inr [result_iffs]:
  "pm_assert_admin a s = Inr u \<longleftrightarrow> pm_admin s = Some a"
  "pm_assert_market_active m s = Inr u \<longleftrightarrow> (\<exists>k. pm_market s m = Some k \<and> mk_status k = MsActive)"
  "pm_assert_trading_active m s = Inr u \<longleftrightarrow> \<not> pm_is_trading_paused s \<and> (\<exists>k. pm_market s m = Some k \<and> mk_status k = MsActive)"
  "pm_check_outcome_index m i s = Inr u \<longleftrightarrow> (\<exists>k. pm_market s m = Some k \<and> i < mk_num_outcomes k)"
  by (auto simp: pm_assert_admin_def pm_assert_market_active_def pm_assert_trading_active_def pm_check_outcome_index_def result_iffs)

lemma pm_update_position_Inr: "pm_update_position e m i a n c s = Inr s' \<Longrightarrow> \<exists>q. s' = s\<lparr>pm_position := q\<rparr>"
  by (auto simp: pm_update_position_def result_iffs pm_set_user_position_def)

lemma pm_update_position_on_sell_Inr: "pm_update_position_on_sell e m i a n c x s = Inr s' \<Longrightarrow> \<exists>q. s' = s\<lparr>pm_position := q\<rparr>"
  by (auto simp: pm_update_position_on_sell_def result_iffs pm_set_user_position_def)

lemma pm_buy_Inr:
  assumes "pm_buy_outcome tr e a m i c lim s = Inr (out, s')"
  obtains k p w b sup pos col where "env_auth e a" and "pm_market s m = Some k" and "mk_status k = MsActive" and "i < mk_num_outcomes k"
    and "pm_pool s (m, i) = Some p" and "\<not> pm_is_trading_paused s"
    and "pm_calculate_buy_amount c (op_collateral_reserve p) (op_outcome_reserve p) (mk_trading_fee_bps k) = Inr out"
    and "0 < out" and "lim \<le> out" and "pm_get_total_outcome_supply m i s + out \<le> mk_max_outcome_supply k" and "0 < c"
    and "tr e (mk_collateral_token k) a (env_self e) c (pm_tokens s) = Some w"
    and "b = pm_get_outcome_balance m i a s + out" and "sup = pm_get_total_outcome_supply m i s + out"
    and "s' = s\<lparr>pm_tokens := w, pm_pool := (pm_pool s)((m, i) \<mapsto>
        p\<lparr>op_collateral_reserve := op_collateral_reserve p + div_i128 (c * (10000 - int (mk_trading_fee_bps k))) 10000,
          op_outcome_reserve := op_outcome_reserve p - out\<rparr>),
      pm_balance := pm_put (m, i, a) b (pm_balance s), pm_supply := (pm_supply s)((m, i) \<mapsto> sup), pm_position := pos, pm_collateral := col\<rparr>"
proof -
  from assms show thesis
    unfolding pm_buy_outcome_def Let_def and_then_eq_Inr sum.inject prod.inject pm_setters
    apply (elim exE conjE)
    apply (drule pm_update_position_Inr, elim exE)
    subgoal for u1 u2 u3 u4 p k out1 u5 u6 sup u7 s1 scaled cr yr b s2 col pos
      by (rule that [where k = k and p = p and sup = sup and pos = pos and w = "pm_tokens s1" and col = "pm_collateral s'"])
         (auto simp: result_iffs pm_get_outcome_balance_def pm_get_total_outcome_supply_def)
    done
qed

lemma pm_sell_Inr:
  assumes "pm_sell_outcome tr e a m i n lim s = Inr (out, s')"
  obtains k p w pos col where "env_auth e a" and "pm_market s m = Some k" and "mk_status k = MsActive" and "i < mk_num_outcomes k"
    and "pm_pool s (m, i) = Some p" and "\<not> pm_is_trading_paused s" and "0 < n" and "n \<le> pm_get_outcome_balance m i a s"
    and "pm_calculate_sell_amount n (op_collateral_reserve p) (op_outcome_reserve p) (mk_trading_fee_bps k) = Inr out"
    and "0 < out" and "lim \<le> out" and "tr e (mk_collateral_token k) (env_self e) a out (pm_tokens s) = Some w"
    and "s' = s\<lparr>pm_tokens := w, pm_pool := (pm_pool s)((m, i) \<mapsto>
        p\<lparr>op_collateral_reserve := op_collateral_reserve p - out, op_outcome_reserve := op_outcome_reserve p + n\<rparr>),
      pm_balance := pm_put (m, i, a) (pm_get_outcome_balance m i a s - n) (pm_balance s),
      pm_supply := (pm_supply s)((m, i) \<mapsto> pm_get_total_outcome_supply m i s - n), pm_position := pos, pm_collateral := col\<rparr>"
proof -
  from assms show thesis
    unfolding pm_sell_outcome_def Let_def and_then_eq_Inr sum.inject prod.inject pm_setters
    apply (elim exE conjE)
    apply (drule pm_update_position_on_sell_Inr, elim exE)
    subgoal for u1 u2 u3 u4 u5 p k out1 u6 u7 cr yr b s1 s2 col sup pos
      by (rule that [where k = k and p = p and pos = pos and w = "pm_tokens s1" and col = "pm_collateral s'"])
         (auto simp: result_iffs pm_get_outcome_balance_def pm_get_total_outcome_supply_def)
    done
qed

lemma pm_add_liquidity_Inr:
  assumes "pm_add_liquidity tr e a m i c y s = Inr (sh, s')"
  obtains k p w col where "env_auth e a" and "pm_market s m = Some k" and "mk_status k = MsActive" and "i < mk_num_outcomes k"
    and "pm_pool s (m, i) = Some p" and "0 < c" and "0 < y" and "pm_calculate_lp_shares_add c y p = Inr sh" and "0 < sh"
    and "tr e (mk_collateral_token k) a (env_self e) c (pm_tokens s) = Some w"
    and "s' = s\<lparr>pm_tokens := w, pm_pool := (pm_pool s)((m, i) \<mapsto>
        p\<lparr>op_collateral_reserve := op_collateral_reserve p + c, op_outcome_reserve := op_outcome_reserve p + y,
          op_lp_total_supply := op_lp_total_supply p + sh\<rparr>),
      pm_lp := pm_put (m, a) (pm_get_lp_shares m a s + sh) (pm_lp s),
      pm_lp_total := (pm_lp_total s)(m \<mapsto> pm_get_lp_total_supply m s + sh), pm_collateral := col\<rparr>"
proof -
  from assms show thesis
    unfolding pm_add_liquidity_def Let_def and_then_eq_Inr sum.inject prod.inject pm_setters
    apply (elim exE conjE)
    subgoal for u1 u2 u3 u4 p sh1 u5 k s1 cr yr pl sh2 tot col
      by (rule that [where k = k and p = p and w = "pm_tokens s1" and col = "pm_collateral s'"])
         (auto simp: result_iffs pm_get_lp_shares_def pm_get_lp_total_supply_def)
    done
qed

lemma pm_remove_liquidity_Inr:
  assumes "pm_remove_liquidity tr e a m i n s = Inr ((c, y), s')"
  obtains k p w col where "env_auth e a" and "0 < n" and "n \<le> pm_get_lp_shares m a s" and "pm_pool s (m, i) = Some p"
    and "0 < op_lp_total_supply p" and "pm_calculate_lp_withdraw n p = Inr (c, y)" and "pm_market s m = Some k"
    and "tr e (mk_collateral_token k) (env_self e) a c (pm_tokens s) = Some w"
    and "s' = s\<lparr>pm_tokens := w, pm_pool := (pm_pool s)((m, i) \<mapsto>
        p\<lparr>op_collateral_reserve := op_collateral_reserve p - c, op_outcome_reserve := op_outcome_reserve p - y,
          op_lp_total_supply := op_lp_total_supply p - n\<rparr>),
      pm_lp := pm_put (m, a) (pm_get_lp_shares m a s - n) (pm_lp s),
      pm_lp_total := (pm_lp_total s)(m \<mapsto> pm_get_lp_total_supply m s - n),
      pm_balance := pm_put (m, i, a) (pm_get_outcome_balance m i a s + y) (pm_balance s), pm_collateral := col\<rparr>"
proof -
  from assms show thesis
    unfolding pm_remove_liquidity_def Let_def and_then_eq_Inr split_paired_Ex prod.case sum.inject prod.inject pm_setters
    apply (elim exE conjE)
    subgoal for u1 u2 u3 p u4 c1 y1 k s1 cr yr pl sh2 tot b col
      by (rule that [where k = k and p = p and w = "pm_tokens s1" and col = "pm_collateral s'"])
         (auto simp: result_iffs pm_get_lp_shares_def pm_get_lp_total_supply_def pm_get_outcome_balance_def)
    done
qed

text \<open>What an open buy order has locked, and what it still wants.\<close>

definition pm_locked :: "limit_order \<Rightarrow> i128" where
  "pm_locked q = (if lo_side q = SideBuy \<and> lo_status q = OsOpen
     then div_i128 (lo_price q * (lo_quantity q - lo_filled_quantity q)) DECIMAL_FACTOR else 0)"

lemma pm_lock_for_order_Inr:
  assumes "pm_lock_for_order tr bal e a m i side pr n s = Inr s1"
  shows "\<exists>w. s1 = s\<lparr>pm_tokens := w\<rparr> \<and> (side = SideBuy \<longrightarrow> (\<forall>k. pm_market s m = Some k \<longrightarrow>
       tr e (mk_collateral_token k) a (env_self e) (div_i128 (pr * n) DECIMAL_FACTOR) (pm_tokens s) = Some w)) \<and>
     (side = SideSell \<longrightarrow> w = pm_tokens s \<and> n \<le> pm_get_outcome_balance m i a s)"
  using assms by (cases side) (auto simp: result_iffs pm_lock_for_order_def Let_def intro!: exI [of _ "pm_tokens s1"])

lemma pm_place_order_Inr:
  assumes "pm_place_order tr bal e a m i side pr n s = Inr (j, s')"
  obtains k q w where "env_auth e a" and "pm_market s m = Some k" and "mk_status k = MsActive" and "i < mk_num_outcomes k"
    and "0 < pr" and "0 < n" and "\<not> pm_is_trading_paused s" and "j = pm_get_order_counter m s"
    and "q = \<lparr>lo_order_id = j, lo_market_id = m, lo_owner = a, lo_outcome_index = i, lo_side = side, lo_price = pr, lo_quantity = n,
      lo_filled_quantity = 0, lo_status = OsOpen, lo_created_at = env_timestamp e, lo_expires_at = None\<rparr>"
    and "side = SideBuy \<Longrightarrow> tr e (mk_collateral_token k) a (env_self e) (pm_locked q) (pm_tokens s) = Some w"
    and "side = SideSell \<Longrightarrow> w = pm_tokens s \<and> n \<le> pm_get_outcome_balance m i a s"
    and "s' = s\<lparr>pm_tokens := w, pm_order := (pm_order s)((m, j) \<mapsto> q), pm_order_count := (pm_order_count s)(m \<mapsto> j + 1)\<rparr>"
proof -
  from assms show thesis
    unfolding pm_place_order_def Let_def and_then_eq_Inr sum.inject prod.inject pm_setters
    apply (elim exE conjE)
    apply (drule pm_lock_for_order_Inr, elim exE conjE)
    subgoal for u1 u2 u3 u4 s1 cnt w
      by (rule that [where w = w and k = "the (pm_market s m)"])
         (auto simp: result_iffs pm_locked_def pm_get_order_counter_def)
    done
qed

lemma pm_cancel_order_Inr:
  assumes "pm_cancel_order tr e a m j s = Inr (u, s')"
  obtains q w where "env_auth e a" and "pm_order s (m, j) = Some q" and "lo_owner q = a" and "lo_status q = OsOpen"
    and "0 < pm_locked q \<Longrightarrow> \<exists>k. pm_market s m = Some k \<and> tr e (mk_collateral_token k) (env_self e) a (pm_locked q) (pm_tokens s) = Some w"
    and "\<not> 0 < pm_locked q \<Longrightarrow> w = pm_tokens s"
    and "s' = s\<lparr>pm_tokens := w, pm_order := (pm_order s)((lo_market_id q, lo_order_id q) \<mapsto> q\<lparr>lo_status := OsCancelled\<rparr>)\<rparr>"
proof -
  from assms show thesis
    unfolding pm_cancel_order_def Let_def and_then_eq_Inr sum.inject prod.inject pm_setters
    apply (elim exE conjE)
    subgoal for u1 q u2 u3 s1
      by (rule that [where w = "pm_tokens s1" and q = q])
         (auto simp: result_iffs pm_refund_order_def Let_def pm_locked_def split: if_splits)
    done
qed

lemma pm_match_sell_Inr:
  assumes "pm_match_sell_order tr e a m j s = Inr (rec, s')"
  obtains q rem s1 w where "env_auth e a" and "pm_order s (m, j) = Some q" and "lo_owner q = a" and "lo_status q = OsOpen"
    and "lo_side q = SideSell"
    and "pm_match_loop m q a [0..<pm_get_order_counter m s] (lo_quantity q - lo_filled_quantity q) 0 s = Inr ((rem, rec), s1)"
    and "0 < rec \<Longrightarrow> \<exists>k. pm_market s1 m = Some k \<and> tr e (mk_collateral_token k) (env_self e) a rec (pm_tokens s1) = Some w"
    and "\<not> 0 < rec \<Longrightarrow> w = pm_tokens s1"
    and "s' = s1\<lparr>pm_tokens := w, pm_order := (pm_order s1)((lo_market_id q, lo_order_id q) \<mapsto>
        q\<lparr>lo_filled_quantity := lo_quantity q - rem, lo_status := (if rem = 0 then OsFilled else OsOpen)\<rparr>),
      pm_balance := pm_put (m, lo_outcome_index q, a)
        (pm_get_outcome_balance m (lo_outcome_index q) a s1 - (lo_quantity q - rem)) (pm_balance s1)\<rparr>"
proof -
  from assms show thesis
    unfolding pm_match_sell_order_def Let_def and_then_eq_Inr split_paired_Ex prod.case sum.inject prod.inject pm_setters
    apply (elim exE conjE)
    subgoal for u1 q u2 u3 u4 ts rem rec1 s1 filled b
      by (rule that [where w = "pm_tokens s'" and q = q and rem = rem and ?s1.0 = s1])
         (auto simp: result_iffs pm_get_outcome_balance_def split: if_splits)
    done
qed

lemma pm_redeem_Inr:
  assumes "pm_redeem_winning_tokens tr e a m s = Inr (n, s')"
  obtains k i p w col where "env_auth e a" and "pm_market s m = Some k" and "mk_status k = MsResolved" and "mk_resolved_outcome k = Some i"
    and "0 < pm_get_outcome_balance m i a s" and "pm_pool s (m, i) = Some p"
    and "n = min (pm_get_outcome_balance m i a s) (op_collateral_reserve p)"
    and "tr e (mk_collateral_token k) (env_self e) a n (pm_tokens s) = Some w"
    and "s' = s\<lparr>pm_tokens := w, pm_pool := (pm_pool s)((m, i) \<mapsto> p\<lparr>op_collateral_reserve := op_collateral_reserve p - n\<rparr>),
      pm_balance := (pm_balance s)((m, i, a) := None), pm_collateral := col\<rparr>"
proof -
  from assms show thesis
    unfolding pm_redeem_winning_tokens_def Let_def and_then_eq_Inr sum.inject prod.inject pm_setters
    apply (elim exE conjE)
    subgoal for u1 k u2 i u3 p
      by (rule that [where w = "pm_tokens s'" and k = k and i = i and p = p and col = "pm_collateral s'"])
         (auto simp: result_iffs pm_put_def min_def split: if_splits)
    done
qed

lemma pm_open_dispute_Inr:
  assumes "pm_open_dispute tr e a m i x n s = Inr (j, s')"
  obtains k w where "env_auth e a" and "pm_market s m = Some k" and "mk_status k = MsResolved" and "i < mk_num_outcomes k" and "0 < n"
    and "j = pm_get_dispute_counter m s" and "tr e (mk_collateral_token k) a (env_self e) n (pm_tokens s) = Some w"
    and "s' = s\<lparr>pm_tokens := w, pm_dispute := (pm_dispute s)((m, j) \<mapsto>
        \<lparr>di_dispute_id = j, di_market_id = m, di_challenger = a, di_claimed_outcome = i, di_evidence = x, di_stake_amount = n,
         di_status = DsOpen, di_votes_for = 0, di_votes_against = 0, di_created_at = env_timestamp e, di_resolved_at = None\<rparr>),
      pm_dispute_count := (pm_dispute_count s)(m \<mapsto> j + 1),
      pm_market := (pm_market s)(mk_market_id k \<mapsto> k\<lparr>mk_status := MsDisputed\<rparr>)\<rparr>"
proof -
  from assms show thesis
    unfolding pm_open_dispute_def Let_def and_then_eq_Inr sum.inject prod.inject pm_setters
    apply (elim exE conjE)
    subgoal for u1 k u2 u3 u4 s1 cnt
      by (rule that [where w = "pm_tokens s'" and k = k])
         (auto simp: result_iffs pm_get_dispute_counter_def)
    done
qed

text \<open>The weight of a vote is what the voter holds of all outcomes.\<close>

lemma pm_vote_weight_Inr:
  "pm_vote_weight m a is n s = Inr w \<Longrightarrow> w = n + (\<Sum>i\<leftarrow>is. pm_get_outcome_balance m i a s)"
  by (induction "is" arbitrary: n) (fastforce simp: result_iffs)+

lemma pm_vote_dispute_Inr:
  assumes "pm_vote_dispute e a m j yes s = Inr (u, s')"
  obtains d k w d' where "env_auth e a" and "pm_dispute s (m, j) = Some d" and "di_status d = DsOpen \<or> di_status d = DsVoted"
    and "pm_dispute_vote s (m, j, a) = None" and "pm_market s m = Some k"
    and "w = (\<Sum>i\<leftarrow>[0..<mk_num_outcomes k]. pm_get_outcome_balance m i a s)" and "0 < w"
    and "d' = d\<lparr>di_votes_for := di_votes_for d + (if yes then w else 0), di_votes_against := di_votes_against d + (if yes then 0 else w),
      di_status := DsVoted\<rparr>"
    and "s' = s\<lparr>pm_dispute_vote := (pm_dispute_vote s)((m, j, a) \<mapsto> w),
      pm_dispute := (pm_dispute s)((di_market_id d, di_dispute_id d) \<mapsto> d')\<rparr>"
proof -
  from assms show thesis
    unfolding pm_vote_dispute_def Let_def and_then_eq_Inr sum.inject prod.inject pm_setters
    apply (elim exE conjE)
    apply (drule pm_vote_weight_Inr)
    subgoal for u1 d u2 u3 k w u4 d'
      by (rule that [where w = w and k = k and d = d])
         (auto simp: result_iffs pm_has_voted_def split: if_splits)
    done
qed

definition pm_upheld :: "dispute \<Rightarrow> bool" where
  "pm_upheld d \<longleftrightarrow> di_votes_for d > di_votes_against d"

lemma pm_resolve_dispute_Inr:
  assumes "pm_resolve_dispute tr e a m j s = Inr (u, s')"
  obtains d k w k' d' where "env_auth e a" and "pm_admin s = Some a" and "pm_dispute s (m, j) = Some d"
    and "di_status d \<noteq> DsResolvedUpheld" and "di_status d \<noteq> DsResolvedRejected" and "pm_market s m = Some k"
    and "pm_upheld d \<Longrightarrow> tr e (mk_collateral_token k) (env_self e) (di_challenger d) (di_stake_amount d) (pm_tokens s) = Some w"
    and "\<not> pm_upheld d \<Longrightarrow> case pm_collector s of None \<Rightarrow> w = pm_tokens s
       | Some c \<Rightarrow> tr e (mk_collateral_token k) (env_self e) c (di_stake_amount d) (pm_tokens s) = Some w"
    and "d' = d\<lparr>di_status := (if pm_upheld d then DsResolvedUpheld else DsResolvedRejected), di_resolved_at := Some (env_timestamp e)\<rparr>"
    and "k' = k\<lparr>mk_resolved_outcome := (if pm_upheld d then Some (di_claimed_outcome d) else mk_resolved_outcome k), mk_status := MsResolved\<rparr>"
    and "s' = s\<lparr>pm_tokens := w, pm_dispute := (pm_dispute s)((di_market_id d, di_dispute_id d) \<mapsto> d'),
      pm_market := (pm_market s)(mk_market_id k \<mapsto> k')\<rparr>"
proof -
  from assms show thesis
    unfolding pm_resolve_dispute_def Let_def and_then_eq_Inr sum.inject prod.inject pm_setters
    apply (elim exE conjE)
    subgoal for u1 u2 d u3
      apply (cases "di_votes_against d < di_votes_for d"; simp only: if_True if_False and_then_eq_Inr; elim exE conjE)
      subgoal for k s1
        by (rule that [where w = "pm_tokens s1" and k = k and d = d]) (auto simp: result_iffs pm_upheld_def)
      subgoal for k s1
        by (rule that [where w = "pm_tokens s1" and k = k and d = d]) (auto simp: result_iffs pm_upheld_def split: option.splits)
      done
    done
qed

lemma pm_resolve_market_Inr:
  assumes "pm_resolve_market e a m i s = Inr (u, s')"
  obtains k where "env_auth e a" and "pm_market s m = Some k" and "a = mk_oracle_source k \<or> pm_oracle_address s = Some a"
    and "mk_status k \<noteq> MsResolved" and "mk_resolution_window_end k < env_timestamp e" and "i < mk_num_outcomes k"
    and "s' = s\<lparr>pm_market := (pm_market s)(mk_market_id k \<mapsto> k\<lparr>mk_status := MsResolved, mk_resolved_outcome := Some i\<rparr>)\<rparr>"
  using assms by (auto simp: pm_resolve_market_def result_iffs pm_setters split: if_splits option.splits)

lemma pm_close_Inr:
  assumes "pm_close_market_early e a m s = Inr (u, s')"
  obtains k where "env_auth e a" and "pm_market s m = Some k" and "pm_admin s = Some a \<or> a = mk_creator k" and "mk_status k = MsActive"
    and "s' = s\<lparr>pm_market := (pm_market s)(mk_market_id k \<mapsto> k\<lparr>mk_status := MsClosed\<rparr>)\<rparr>"
  using assms by (auto simp: pm_close_market_early_def result_iffs pm_setters Let_def split: option.splits)

text \<open>The entries \<open>create_market\<close> writes for every outcome of the new market.\<close>

definition pm_seeded :: "u64 \<Rightarrow> u32 \<Rightarrow> 'v \<Rightarrow> (u64 \<times> u32 \<Rightarrow> 'v option) \<Rightarrow> u64 \<times> u32 \<Rightarrow> 'v option" where
  "pm_seeded m n v old = (\<lambda>k. if fst k = m \<and> snd k < n then Some v else old k)"

lemma pm_seeded_0 [simp]: "pm_seeded m 0 v old = old"
  by (simp add: pm_seeded_def)

lemma pm_seeded_Suc: "pm_seeded m (Suc n) v old = (pm_seeded m n v old)((m, n) \<mapsto> v)"
  by (auto simp: pm_seeded_def fun_eq_iff less_Suc_eq)

lemma pm_seeded_dom: "finite (dom old) \<Longrightarrow> finite (dom (pm_seeded m n v old))"
  by (induction n) (simp_all add: pm_seeded_Suc)

lemma pm_seeded_sum:
  assumes "finite (dom old)" and "\<And>i. old (m, i) = None"
  shows "key_sum f (pm_seeded m n v old) = key_sum f old + (\<Sum>i<n. f (m, i) v)"
proof (induction n)
  case (Suc n)
  have "pm_seeded m n v old (m, n) = None" by (simp add: pm_seeded_def assms(2))
  then have "key_sum f ((pm_seeded m n v old)((m, n) \<mapsto> v)) = key_sum f (pm_seeded m n v old) + f (m, n) v"
    by (simp only: key_sum_upd [OF pm_seeded_dom [OF assms(1)]]) simp
  with Suc show ?case by (simp only: pm_seeded_Suc) simp
qed simp

lemma isqrt_square: "isqrt (x * x) = Inr r \<Longrightarrow> 0 \<le> x \<Longrightarrow> r = x"
proof -
  assume "isqrt (x * x) = Inr r" and x: "0 \<le> x"
  note r = isqrt_Inr [OF this(1)]
  have "r \<le> x" using r(2,3) x by (metis abs_le_square_iff abs_of_nonneg power2_eq_square)
  moreover have "\<not> r < x"
  proof
    assume "r < x"
    then have "(r + 1) * (r + 1) \<le> x * x" using r(2) by (intro mult_mono) simp_all
    with r(4) show False by simp
  qed
  ultimately show "r = x" by simp
qed

definition pm_seed_pool :: "i128 \<Rightarrow> outcome_pool" where
  "pm_seed_pool x = \<lparr>op_collateral_reserve = x, op_outcome_reserve = x, op_lp_total_supply = x\<rparr>"

lemma pm_seed_pools_append:
  "pm_seed_pools m x (is @ js) s = and_then (pm_seed_pools m x is s) (pm_seed_pools m x js)"
  by (induction "is" arbitrary: s) (auto simp: and_then_assoc Let_def)

lemma pm_seed_pools_Inr:
  assumes "0 \<le> x"
  shows "pm_seed_pools m x [0..<n] s = Inr s' \<Longrightarrow>
    s' = s\<lparr>pm_pool := pm_seeded m n (pm_seed_pool x) (pm_pool s), pm_supply := pm_seeded m n 0 (pm_supply s)\<rparr>"
proof (induction n arbitrary: s')
  case (Suc n)
  obtain s1 where s1: "pm_seed_pools m x [0..<n] s = Inr s1" and step: "pm_seed_pools m x [n] s1 = Inr s'"
    using Suc.prems by (auto simp: pm_seed_pools_append result_iffs)
  obtain r where r: "isqrt (x * x) = Inr r"
    and s': "s' = pm_set_total_outcome_supply m n 0 (pm_set_outcome_pool m n
      \<lparr>op_collateral_reserve = x, op_outcome_reserve = x, op_lp_total_supply = r\<rparr> s1)"
    using step by (auto simp: result_iffs Let_def)
  show ?case
    unfolding s' Suc.IH [OF s1] pm_setters isqrt_square [OF r assms] by (simp add: pm_seeded_Suc pm_seed_pool_def fun_upd_def)
qed simp

lemma pm_check_params_Inr [result_iffs]:
  "pm_check_params p = Inr u \<longleftrightarrow> 2 \<le> cp_num_outcomes p \<and> cp_num_outcomes p \<le> MAX_OUTCOMES \<and>
     length (cp_outcome_names p) = cp_num_outcomes p \<and> cp_trading_fee_bps p \<le> MAX_TRADING_FEE_BPS \<and>
     MIN_RESOLUTION_WINDOW \<le> cp_resolution_window_duration p \<and> cp_resolution_window_duration p \<le> MAX_RESOLUTION_WINDOW \<and>
     0 < cp_initial_liquidity p \<and> 0 < cp_max_outcome_supply p"
  by (auto simp: pm_check_params_def result_iffs not_less)

lemma pm_create_market_Inr:
  assumes "pm_create_market tr e a p s = Inr (m, s')"
  obtains w fin where "env_auth e a" and "pm_check_params p = Inr ()" and "m = pm_get_market_counter s"
    and "fin = env_timestamp e + cp_resolution_window_duration p"
    and "tr e (cp_collateral_token p) a (env_self e) (cp_initial_liquidity p * int (cp_num_outcomes p)) (pm_tokens s) = Some w"
    and "s' = s\<lparr>pm_market := (pm_market s)(m \<mapsto> pm_new_market m (env_timestamp e) fin a p), pm_market_counter := Some (m + 1), pm_tokens := w,
      pm_pool := pm_seeded m (cp_num_outcomes p) (pm_seed_pool (cp_initial_liquidity p)) (pm_pool s),
      pm_supply := pm_seeded m (cp_num_outcomes p) 0 (pm_supply s),
      pm_collateral := (pm_collateral s)(m \<mapsto> cp_initial_liquidity p * int (cp_num_outcomes p)),
      pm_lp_total := (pm_lp_total s)(m \<mapsto> cp_initial_liquidity p * int (cp_num_outcomes p))\<rparr>"
proof -
  have pos: "0 \<le> cp_initial_liquidity p" using assms by (auto simp: pm_create_market_def and_then_eq_Inr pm_check_params_Inr)
  from assms show thesis
    unfolding pm_create_market_def Let_def and_then_eq_Inr sum.inject prod.inject pm_setters
    apply (elim exE conjE)
    apply (drule pm_seed_pools_Inr [OF pos])
    subgoal for u1 u2 fin cnt ti s1 s2 pr rt lt
      using isqrt_square [of "cp_initial_liquidity p" rt, OF _ pos]
      by (intro that [where w = "pm_tokens s1" and fin = fin]) (auto simp: result_iffs pm_new_market_def)
    done
qed

section \<open>The invariant\<close>

text \<open>What is fixed when a market is created.\<close>

definition pm_num :: "'w pm_state \<Rightarrow> u64 \<Rightarrow> u32" where
  "pm_num s m = (case pm_market s m of None \<Rightarrow> 0 | Some k \<Rightarrow> mk_num_outcomes k)"

definition pm_token_of :: "'w pm_state \<Rightarrow> u64 \<Rightarrow> address option" where
  "pm_token_of s m = map_option mk_collateral_token (pm_market s m)"

definition pm_cap :: "'w pm_state \<Rightarrow> u64 \<Rightarrow> i128" where
  "pm_cap s m = (case pm_market s m of None \<Rightarrow> 0 | Some k \<Rightarrow> mk_max_outcome_supply k)"

definition pm_settled :: "'w pm_state \<Rightarrow> u64 \<Rightarrow> bool" where
  "pm_settled s m \<longleftrightarrow> (\<exists>k. pm_market s m = Some k \<and> (mk_status k = MsResolved \<or> mk_status k = MsDisputed))"

definition pm_market_ok :: "u64 \<Rightarrow> prediction_market \<Rightarrow> bool" where
  "pm_market_ok m k \<longleftrightarrow> mk_market_id k = m \<and> 2 \<le> mk_num_outcomes k \<and> mk_trading_fee_bps k \<le> MAX_TRADING_FEE_BPS \<and>
     0 < mk_max_outcome_supply k \<and>
     (if mk_status k = MsResolved \<or> mk_status k = MsDisputed then \<exists>i<mk_num_outcomes k. mk_resolved_outcome k = Some i
      else mk_status k \<noteq> MsPendingResolution \<and> mk_resolved_outcome k = None)"

definition pm_markets_ok :: "'w pm_state \<Rightarrow> bool" where
  "pm_markets_ok s \<longleftrightarrow> (\<forall>m. pm_market s m \<noteq> None \<longleftrightarrow> m < pm_get_market_counter s) \<and>
     (\<forall>m k. pm_market s m = Some k \<longrightarrow> pm_market_ok m k)"

definition pm_pools_ok :: "'w pm_state \<Rightarrow> bool" where
  "pm_pools_ok s \<longleftrightarrow> finite (dom (pm_pool s)) \<and> (\<forall>m i. pm_pool s (m, i) \<noteq> None \<longleftrightarrow> i < pm_num s m)"

definition pm_order_ok :: "u64 \<Rightarrow> u64 \<Rightarrow> limit_order \<Rightarrow> bool" where
  "pm_order_ok m j q \<longleftrightarrow> lo_market_id q = m \<and> lo_order_id q = j \<and> 0 < lo_price q \<and> 0 \<le> lo_filled_quantity q \<and>
     lo_filled_quantity q \<le> lo_quantity q"

definition pm_orders_ok :: "'w pm_state \<Rightarrow> bool" where
  "pm_orders_ok s \<longleftrightarrow> finite (dom (pm_order s)) \<and>
     (\<forall>m j q. pm_order s (m, j) = Some q \<longrightarrow> pm_order_ok m j q \<and> pm_num s m \<noteq> 0 \<and> j < pm_get_order_counter m s)"

definition pm_dispute_ok :: "u64 \<Rightarrow> u64 \<Rightarrow> dispute \<Rightarrow> bool" where
  "pm_dispute_ok m j d \<longleftrightarrow> di_market_id d = m \<and> di_dispute_id d = j \<and> 0 < di_stake_amount d"

definition pm_vote_of :: "u64 \<Rightarrow> u64 \<Rightarrow> u64 \<times> u64 \<times> address \<Rightarrow> i128 \<Rightarrow> i128" where
  "pm_vote_of m j key w = (case key of (m', j', a) \<Rightarrow> if m' = m \<and> j' = j then w else 0)"

definition pm_disputes_ok :: "'w pm_state \<Rightarrow> bool" where
  "pm_disputes_ok s \<longleftrightarrow> finite (dom (pm_dispute s)) \<and> finite (dom (pm_dispute_vote s)) \<and>
     (\<forall>m j d. pm_dispute s (m, j) = Some d \<longrightarrow> pm_dispute_ok m j d \<and> di_claimed_outcome d < pm_num s m \<and> j < pm_get_dispute_counter m s \<and>
        pm_settled s m \<and> di_votes_for d + di_votes_against d = key_sum (pm_vote_of m j) (pm_dispute_vote s)) \<and>
     (\<forall>m j a w. pm_dispute_vote s (m, j, a) = Some w \<longrightarrow> 0 < w \<and> pm_dispute s (m, j) \<noteq> None)"

definition pm_lp_in :: "u64 \<Rightarrow> u64 \<times> u32 \<Rightarrow> outcome_pool \<Rightarrow> i128" where
  "pm_lp_in m key p = (if fst key = m then op_lp_total_supply p else 0)"

definition pm_lp_ok :: "'w pm_state \<Rightarrow> bool" where
  "pm_lp_ok s \<longleftrightarrow> finite (dom (pm_lp s)) \<and> (\<forall>m a n. pm_lp s (m, a) = Some n \<longrightarrow> 0 < n \<and> pm_num s m \<noteq> 0) \<and>
     (\<forall>m. pm_get_lp_total_supply m s = key_sum (pm_lp_in m) (pm_pool s))"

definition pm_supply_ok :: "'w pm_state \<Rightarrow> bool" where
  "pm_supply_ok s \<longleftrightarrow> (\<forall>k n. pm_balance s k = Some n \<longrightarrow> 0 < n) \<and> (\<forall>m i. pm_get_total_outcome_supply m i s \<le> pm_cap s m)"

definition pm_core :: "'w pm_state \<Rightarrow> bool" where
  "pm_core s \<longleftrightarrow> pm_markets_ok s \<and> pm_pools_ok s \<and> pm_orders_ok s \<and> pm_disputes_ok s \<and> pm_lp_ok s \<and> pm_supply_ok s"

lemma pm_coreI:
  "pm_markets_ok s \<Longrightarrow> pm_pools_ok s \<Longrightarrow> pm_orders_ok s \<Longrightarrow> pm_disputes_ok s \<Longrightarrow> pm_lp_ok s \<Longrightarrow> pm_supply_ok s \<Longrightarrow> pm_core s"
  by (simp add: pm_core_def)

lemma pm_core_market: "pm_core s \<Longrightarrow> pm_market s m = Some k \<Longrightarrow> pm_market_ok m k"
  by (simp add: pm_core_def pm_markets_ok_def)

lemma pm_core_market_dom: "pm_core s \<Longrightarrow> pm_market s m \<noteq> None \<longleftrightarrow> m < pm_get_market_counter s"
  by (simp only: pm_core_def pm_markets_ok_def)

lemma pm_core_pools: "pm_core s \<Longrightarrow> finite (dom (pm_pool s))" "pm_core s \<Longrightarrow> pm_pool s (m, i) \<noteq> None \<longleftrightarrow> i < pm_num s m"
  by (simp_all only: pm_core_def pm_pools_ok_def)

lemma pm_core_orders:
  "pm_core s \<Longrightarrow> finite (dom (pm_order s))" "pm_core s \<Longrightarrow> pm_order s (m, j) = Some q \<Longrightarrow> pm_order_ok m j q"
  "pm_core s \<Longrightarrow> pm_order s (m, j) = Some q \<Longrightarrow> pm_num s m \<noteq> 0"
  "pm_core s \<Longrightarrow> pm_order s (m, pm_get_order_counter m s) = None"
  by (cases "pm_order s (m, pm_get_order_counter m s)"; fastforce simp: pm_core_def pm_orders_ok_def)+

lemma pm_core_disputes:
  "pm_core s \<Longrightarrow> finite (dom (pm_dispute s))" "pm_core s \<Longrightarrow> pm_dispute s (m, j) = Some d \<Longrightarrow> pm_dispute_ok m j d"
  "pm_core s \<Longrightarrow> pm_dispute s (m, j) = Some d \<Longrightarrow> di_claimed_outcome d < pm_num s m"
  "pm_core s \<Longrightarrow> pm_dispute s (m, pm_get_dispute_counter m s) = None"
  by (cases "pm_dispute s (m, pm_get_dispute_counter m s)"; fastforce simp: pm_core_def pm_disputes_ok_def)+

lemma pm_num_market: "pm_market s m = Some k \<Longrightarrow> pm_num s m = mk_num_outcomes k" "pm_market s m = Some k \<Longrightarrow> pm_cap s m = mk_max_outcome_supply k"
  "pm_market s m = Some k \<Longrightarrow> pm_token_of s m = Some (mk_collateral_token k)"
  by (simp_all add: pm_num_def pm_cap_def pm_token_of_def)

lemma pm_core_num: "pm_core s \<Longrightarrow> pm_num s m \<noteq> 0 \<longleftrightarrow> pm_market s m \<noteq> None"
  using pm_core_market [of s m] by (cases "pm_market s m") (auto simp: pm_num_def pm_market_ok_def)

lemma pm_core_balance: "pm_core s \<Longrightarrow> 0 \<le> pm_get_outcome_balance m i a s"
  by (cases "pm_balance s (m, i, a)") (auto simp: pm_get_outcome_balance_def pm_core_def pm_supply_ok_def less_imp_le)

lemma pm_core_lp: "pm_core s \<Longrightarrow> 0 \<le> pm_get_lp_shares m a s"
  by (cases "pm_lp s (m, a)") (auto simp: pm_get_lp_shares_def pm_core_def pm_lp_ok_def less_imp_le)

subsection \<open>Frames\<close>

lemma pm_markets_ok_frame:
  "pm_core s \<Longrightarrow> pm_market s' = pm_market s \<Longrightarrow> pm_get_market_counter s' = pm_get_market_counter s \<Longrightarrow> pm_markets_ok s'"
  by (simp add: pm_core_def pm_markets_ok_def)

lemma pm_pools_ok_frame: "pm_core s \<Longrightarrow> pm_num s' = pm_num s \<Longrightarrow> pm_pool s' = pm_pool s \<Longrightarrow> pm_pools_ok s'"
  by (simp add: pm_core_def pm_pools_ok_def)

lemma pm_orders_ok_frame:
  "pm_core s \<Longrightarrow> pm_num s' = pm_num s \<Longrightarrow> pm_order s' = pm_order s \<Longrightarrow> pm_order_count s' = pm_order_count s \<Longrightarrow> pm_orders_ok s'"
  by (simp add: pm_core_def pm_orders_ok_def pm_get_order_counter_def)

lemma pm_disputes_ok_frame:
  "pm_core s \<Longrightarrow> pm_num s' = pm_num s \<Longrightarrow> (\<And>m. pm_settled s m \<Longrightarrow> pm_settled s' m) \<Longrightarrow> pm_dispute s' = pm_dispute s \<Longrightarrow>
   pm_dispute_count s' = pm_dispute_count s \<Longrightarrow> pm_dispute_vote s' = pm_dispute_vote s \<Longrightarrow> pm_disputes_ok s'"
  by (simp add: pm_core_def pm_disputes_ok_def pm_get_dispute_counter_def)

lemma pm_lp_ok_frame:
  "pm_core s \<Longrightarrow> pm_num s' = pm_num s \<Longrightarrow> pm_lp s' = pm_lp s \<Longrightarrow> pm_lp_total s' = pm_lp_total s \<Longrightarrow>
   (\<And>m. key_sum (pm_lp_in m) (pm_pool s') = key_sum (pm_lp_in m) (pm_pool s)) \<Longrightarrow> pm_lp_ok s'"
  by (simp add: pm_core_def pm_lp_ok_def pm_get_lp_total_supply_def)

lemma pm_supply_ok_frame: "pm_core s \<Longrightarrow> pm_cap s' = pm_cap s \<Longrightarrow> pm_balance s' = pm_balance s \<Longrightarrow> pm_supply s' = pm_supply s \<Longrightarrow> pm_supply_ok s'"
  by (simp add: pm_core_def pm_supply_ok_def pm_get_total_outcome_supply_def)

lemmas pm_frames = pm_markets_ok_frame pm_pools_ok_frame pm_orders_ok_frame pm_disputes_ok_frame pm_lp_ok_frame pm_supply_ok_frame

text \<open>A step that leaves the markets alone leaves their terms alone.\<close>

lemma pm_terms_frame:
  "pm_market s' = pm_market s \<Longrightarrow> pm_num s' = pm_num s" "pm_market s' = pm_market s \<Longrightarrow> pm_cap s' = pm_cap s"
  "pm_market s' = pm_market s \<Longrightarrow> pm_token_of s' = pm_token_of s" "pm_market s' = pm_market s \<Longrightarrow> pm_settled s m \<Longrightarrow> pm_settled s' m"
  by (simp_all add: fun_eq_iff pm_num_def pm_cap_def pm_token_of_def pm_settled_def)

text \<open>So does a step that only moves the status and the outcome of one market.\<close>

lemma pm_terms_restatus:
  assumes "pm_market s m = Some k" and "pm_market s' = (pm_market s)(m \<mapsto> k\<lparr>mk_status := st, mk_resolved_outcome := r\<rparr>)"
  shows "pm_num s' = pm_num s" "pm_cap s' = pm_cap s" "pm_token_of s' = pm_token_of s"
    "(pm_settled s m \<Longrightarrow> st = MsResolved \<or> st = MsDisputed) \<Longrightarrow> pm_settled s j \<Longrightarrow> pm_settled s' j"
  using assms by (auto simp: fun_eq_iff pm_num_def pm_cap_def pm_token_of_def pm_settled_def)

lemma pm_markets_ok_restatus:
  assumes core: "pm_core s" and k: "pm_market s m = Some k"
    and s': "pm_market s' = (pm_market s)(m \<mapsto> k\<lparr>mk_status := st, mk_resolved_outcome := r\<rparr>)" "pm_market_counter s' = pm_market_counter s"
    and r: "if st = MsResolved \<or> st = MsDisputed then \<exists>i<mk_num_outcomes k. r = Some i else st \<noteq> MsPendingResolution \<and> r = None"
  shows "pm_markets_ok s'"
proof -
  have dom: "pm_market s j \<noteq> None \<longleftrightarrow> j < pm_get_market_counter s" for j by (rule pm_core_market_dom [OF core])
  have "pm_market s' j \<noteq> None \<longleftrightarrow> j < pm_get_market_counter s'" for j
    using dom [of j] k by (auto simp: s' pm_get_market_counter_def)
  moreover have "pm_market_ok m (k\<lparr>mk_status := st, mk_resolved_outcome := r\<rparr>)"
    using pm_core_market [OF core k] r by (auto simp: pm_market_ok_def)
  ultimately show ?thesis using pm_core_market [OF core] unfolding pm_markets_ok_def by (auto simp: s'(1))
qed

section \<open>Every call keeps the core\<close>

lemma pm_pools_ok_upd:
  assumes "pm_core s" and "pm_pool s (m, i) = Some p" and "pm_num s' = pm_num s" and "pm_pool s' = (pm_pool s)((m, i) \<mapsto> p')"
  shows "pm_pools_ok s'"
proof -
  have "pm_pool s' (m', i') \<noteq> None \<longleftrightarrow> i' < pm_num s' m'" for m' i'
    using pm_core_pools(2) [OF assms(1), of m' i'] assms(2-4) by auto
  then show ?thesis using pm_core_pools(1) [OF assms(1)] by (simp add: pm_pools_ok_def assms(4))
qed

lemma pm_lp_sum_upd:
  assumes "pm_core s" and "pm_pool s (m, i) = Some p"
  shows "key_sum (pm_lp_in m') ((pm_pool s)((m, i) \<mapsto> p')) =
    key_sum (pm_lp_in m') (pm_pool s) + (if m' = m then op_lp_total_supply p' - op_lp_total_supply p else 0)"
  using assms by (simp only: key_sum_upd [OF pm_core_pools(1)]) (simp add: pm_lp_in_def)

lemma pm_supply_ok_put:
  assumes "pm_core s" and "pm_cap s' = pm_cap s" and "pm_balance s' = pm_put k n (pm_balance s)"
    and "\<And>m i. pm_get_total_outcome_supply m i s' \<le> pm_cap s m"
  shows "pm_supply_ok s'"
proof -
  have "0 < v" if "pm_balance s' j = Some v" for j v
    using that assms(1) pm_put_pos [of "pm_balance s" k n j v] by (auto simp: assms(3) pm_core_def pm_supply_ok_def)
  with assms(2,4) show ?thesis by (simp add: pm_supply_ok_def)
qed

lemma pm_core_supply: "pm_core s \<Longrightarrow> pm_get_total_outcome_supply m i s \<le> pm_cap s m"
  by (simp add: pm_core_def pm_supply_ok_def)

text \<open>A trade on one pool: its reserves move, the liquidity shares stay.\<close>

lemma pm_core_trade:
  assumes core: "pm_core s" and p: "pm_pool s (m, i) = Some p" "op_lp_total_supply p' = op_lp_total_supply p"
    and cap: "n \<le> pm_cap s m"
    and s': "s' = s\<lparr>pm_tokens := w, pm_pool := (pm_pool s)((m, i) \<mapsto> p'), pm_balance := pm_put (m, i, a) b (pm_balance s),
      pm_supply := (pm_supply s)((m, i) \<mapsto> n), pm_position := pos, pm_collateral := col\<rparr>"
  shows "pm_core s'"
proof -
  have same: "pm_market s' = pm_market s" by (simp add: s')
  note terms = pm_terms_frame [OF same]
  show ?thesis
  proof (rule pm_coreI)
    show "pm_pools_ok s'" by (rule pm_pools_ok_upd [OF core p(1) terms(1)]) (simp add: s')
    show "pm_lp_ok s'" by (rule pm_lp_ok_frame [OF core terms(1)]) (simp_all add: s' pm_lp_sum_upd [OF core p(1)] p(2))
    show "pm_supply_ok s'"
      by (rule pm_supply_ok_put [OF core terms(2), where k = "(m, i, a)" and n = b])
         (use cap pm_core_supply [OF core] in \<open>auto simp: s' pm_get_total_outcome_supply_def\<close>)
  qed (rule pm_frames [OF core]; (erule terms | rule terms | simp add: s' pm_get_market_counter_def))+
qed

lemma pm_core_buy: "pm_core s \<Longrightarrow> pm_buy_outcome tr e a m i c lim s = Inr (out, s') \<Longrightarrow> pm_core s'"
proof -
  assume core: "pm_core s" and run: "pm_buy_outcome tr e a m i c lim s = Inr (out, s')"
  from run show "pm_core s'"
  proof (cases rule: pm_buy_Inr)
    case (1 k p w b n pos col)
    show ?thesis
      by (rule pm_core_trade [OF core 1(5) _ _ 1(15)]) (use 1(10,14) pm_num_market(2) [OF 1(2)] in simp_all)
  qed
qed

lemma pm_core_sell: "pm_core s \<Longrightarrow> pm_sell_outcome tr e a m i n lim s = Inr (out, s') \<Longrightarrow> pm_core s'"
proof -
  assume core: "pm_core s" and run: "pm_sell_outcome tr e a m i n lim s = Inr (out, s')"
  from run show "pm_core s'"
  proof (cases rule: pm_sell_Inr)
    case (1 k p w pos col)
    show ?thesis
      by (rule pm_core_trade [OF core 1(5) _ _ 1(13)]) (use 1(7) pm_core_supply [OF core, of m i] in simp_all)
  qed
qed

lemma pm_core_redeem:
  assumes core: "pm_core s" and run: "pm_redeem_winning_tokens tr e a m s = Inr (n, s')"
  shows "pm_core s'"
  using run
proof (cases rule: pm_redeem_Inr)
  case (1 k i p w col)
  have same: "pm_market s' = pm_market s" by (simp add: 1(9))
  note terms = pm_terms_frame [OF same]
  show ?thesis
  proof (rule pm_coreI)
    show "pm_pools_ok s'" by (rule pm_pools_ok_upd [OF core 1(6) terms(1)]) (simp add: 1(9))
    show "pm_lp_ok s'" by (rule pm_lp_ok_frame [OF core terms(1)]) (simp_all add: 1(9) pm_lp_sum_upd [OF core 1(6)])
    show "pm_supply_ok s'"
      by (rule pm_supply_ok_put [OF core terms(2), where k = "(m, i, a)" and n = 0])
         (use pm_core_supply [OF core] in \<open>simp_all add: 1(9) pm_put_def pm_get_total_outcome_supply_def\<close>)
  qed (rule pm_frames [OF core]; (erule terms | rule terms | simp add: 1(9) pm_get_market_counter_def))+
qed

text \<open>A step that mints or burns shares of one pool, with the same amount on both totals.\<close>

lemma pm_core_liquidity:
  assumes core: "pm_core s" and p: "pm_pool s (m, i) = Some p" "op_lp_total_supply p' = op_lp_total_supply p + n"
    and bal: "\<And>k v. b k = Some v \<Longrightarrow> 0 < v"
    and s': "s' = s\<lparr>pm_tokens := w, pm_pool := (pm_pool s)((m, i) \<mapsto> p'), pm_lp := pm_put (m, a) x (pm_lp s),
      pm_lp_total := (pm_lp_total s)(m \<mapsto> pm_get_lp_total_supply m s + n), pm_balance := b, pm_collateral := col\<rparr>"
  shows "pm_core s'"
proof -
  have same: "pm_market s' = pm_market s" by (simp add: s')
  note terms = pm_terms_frame [OF same]
  have lp: "finite (dom (pm_lp s))" "\<And>m a n. pm_lp s (m, a) = Some n \<Longrightarrow> 0 < n \<and> pm_num s m \<noteq> 0"
      "\<And>m. pm_get_lp_total_supply m s = key_sum (pm_lp_in m) (pm_pool s)"
    using core by (simp_all add: pm_core_def pm_lp_ok_def)
  have num: "pm_num s m \<noteq> 0" using pm_core_pools(2) [OF core, of m i] p(1) by auto
  show ?thesis
  proof (rule pm_coreI)
    show "pm_pools_ok s'" by (rule pm_pools_ok_upd [OF core p(1) terms(1)]) (simp add: s')
    have "pm_get_lp_total_supply j s' = key_sum (pm_lp_in j) (pm_pool s')" for j
      using lp(3) [of j] lp(3) [of m]
      by (simp add: s' pm_lp_sum_upd [OF core p(1)] p(2)) (simp add: pm_get_lp_total_supply_def)
    moreover have "0 < v \<and> pm_num s' j \<noteq> 0" if "pm_lp s' (j, c) = Some v" for j c v
      using that lp(2) [of j c v] num unfolding terms(1) by (auto simp: s' pm_put_def split: if_splits)
    ultimately show "pm_lp_ok s'" using lp(1) by (simp add: pm_lp_ok_def s' pm_put_dom)
    show "pm_supply_ok s'"
      using bal pm_core_supply [OF core] unfolding pm_supply_ok_def terms(2) by (simp add: s' pm_get_total_outcome_supply_def)
  qed (rule pm_frames [OF core]; (erule terms | rule terms | simp add: s' pm_get_market_counter_def))+
qed

lemma pm_core_balances: "pm_core s \<Longrightarrow> pm_balance s k = Some v \<Longrightarrow> 0 < v"
  unfolding pm_core_def pm_supply_ok_def by blast

lemma pm_core_add_liquidity: "pm_core s \<Longrightarrow> pm_add_liquidity tr e a m i c y s = Inr (sh, s') \<Longrightarrow> pm_core s'"
proof -
  assume core: "pm_core s" and run: "pm_add_liquidity tr e a m i c y s = Inr (sh, s')"
  from run show "pm_core s'"
  proof (cases rule: pm_add_liquidity_Inr)
    case (1 k p w col)
    show ?thesis
      by (rule pm_core_liquidity [OF core 1(5), where n = sh and b = "pm_balance s"])
         (use 1(11) pm_core_balances [OF core] in \<open>simp_all\<close>)
  qed
qed

lemma pm_core_remove_liquidity: "pm_core s \<Longrightarrow> pm_remove_liquidity tr e a m i n s = Inr (cy, s') \<Longrightarrow> pm_core s'"
proof -
  assume core: "pm_core s" and run: "pm_remove_liquidity tr e a m i n s = Inr (cy, s')"
  obtain c y where cy: "cy = (c, y)" by (cases cy)
  from run [unfolded cy] show "pm_core s'"
  proof (cases rule: pm_remove_liquidity_Inr)
    case (1 k p w col)
    show ?thesis
      by (rule pm_core_liquidity [OF core 1(4), where n = "- n" and b = "pm_put (m, i, a) (pm_get_outcome_balance m i a s + y) (pm_balance s)"])
         (use 1(9) pm_put_pos [OF pm_core_balances [OF core]] in \<open>simp_all\<close>)
  qed
qed

lemma pm_orders_ok_upd:
  assumes core: "pm_core s" and q: "pm_order_ok m j q" "pm_num s m \<noteq> 0" "j < pm_get_order_counter m s'"
    and s': "pm_num s' = pm_num s" "pm_order s' = (pm_order s)((m, j) \<mapsto> q)"
      "\<And>m'. pm_get_order_counter m' s \<le> pm_get_order_counter m' s'"
  shows "pm_orders_ok s'"
proof -
  have fin: "finite (dom (pm_order s'))" using pm_core_orders(1) [OF core] by (simp add: s')
  have "pm_order_ok m' j' q' \<and> pm_num s' m' \<noteq> 0 \<and> j' < pm_get_order_counter m' s'" if "pm_order s' (m', j') = Some q'" for m' j' q'
  proof (cases "(m', j') = (m, j)")
    case False
    with that have "pm_order s (m', j') = Some q'" by (auto simp: s' split: if_splits)
    with core have "pm_order_ok m' j' q' \<and> pm_num s m' \<noteq> 0 \<and> j' < pm_get_order_counter m' s" by (simp add: pm_core_def pm_orders_ok_def)
    then show ?thesis using s'(3) [of m'] by (simp add: s'(1))
  qed (use that q in \<open>simp add: s'\<close>)
  with fin show ?thesis by (simp add: pm_orders_ok_def)
qed

lemma pm_core_order_count: "pm_core s \<Longrightarrow> pm_order s (m, j) = Some q \<Longrightarrow> j < pm_get_order_counter m s"
  by (simp add: pm_core_def pm_orders_ok_def)

lemma pm_core_place_order:
  assumes core: "pm_core s" and run: "pm_place_order tr bal e a m i side pr n s = Inr (j, s')"
  shows "pm_core s'"
  using run
proof (cases rule: pm_place_order_Inr)
  case (1 k q w)
  have same: "pm_market s' = pm_market s" by (simp add: 1(12))
  note terms = pm_terms_frame [OF same]
  have num: "pm_num s m \<noteq> 0" using 1(2) pm_core_num [OF core] by simp
  show ?thesis
  proof (rule pm_coreI)
    show "pm_orders_ok s'"
      by (rule pm_orders_ok_upd [OF core _ num, where j = j and q = q])
         (use 1(5,6) terms in \<open>auto simp: 1(9,12) pm_order_ok_def pm_get_order_counter_def 1(8)\<close>)
  qed (rule pm_frames [OF core]; (erule terms | rule terms | simp add: 1(12) pm_get_market_counter_def))+
qed

lemma pm_core_set_order:
  assumes core: "pm_core s" and q: "pm_order s (m, j) = Some q" "pm_order_ok m j q'" and b: "\<And>k v. b k = Some v \<Longrightarrow> 0 < v"
    and s': "s' = s\<lparr>pm_tokens := w, pm_order := (pm_order s)((m, j) \<mapsto> q'), pm_balance := b\<rparr>"
  shows "pm_core s'"
proof -
  have same: "pm_market s' = pm_market s" by (simp add: s')
  note terms = pm_terms_frame [OF same]
  show ?thesis
  proof (rule pm_coreI)
    show "pm_orders_ok s'"
      by (rule pm_orders_ok_upd [OF core q(2) pm_core_orders(3) [OF core q(1)]])
         (use terms pm_core_order_count [OF core q(1)] in \<open>auto simp: s' pm_get_order_counter_def\<close>)
    show "pm_supply_ok s'" using b pm_core_supply [OF core] unfolding pm_supply_ok_def terms(2)
      by (simp add: s' pm_get_total_outcome_supply_def)
  qed (rule pm_frames [OF core]; (erule terms | rule terms | simp add: s' pm_get_market_counter_def))+
qed

lemma pm_core_cancel_order: "pm_core s \<Longrightarrow> pm_cancel_order tr e a m j s = Inr (u, s') \<Longrightarrow> pm_core s'"
proof -
  assume core: "pm_core s" and run: "pm_cancel_order tr e a m j s = Inr (u, s')"
  from run show "pm_core s'"
  proof (cases rule: pm_cancel_order_Inr)
    case (1 q w)
    note ok = pm_core_orders(2) [OF core 1(2)]
    show ?thesis
      by (rule pm_core_set_order [OF core 1(2), where q' = "q\<lparr>lo_status := OsCancelled\<rparr>" and b = "pm_balance s"])
         (use ok pm_core_balances [OF core] in \<open>auto simp: 1(7) pm_order_ok_def\<close>)
  qed
qed

subsection \<open>What the contract owes\<close>

text \<open>
  In one collateral token: the reserves of its pools, what open buy orders have locked, and the stakes of
  the disputes that are not resolved.
\<close>

definition pm_stake :: "dispute \<Rightarrow> i128" where
  "pm_stake d = (if di_status d = DsOpen \<or> di_status d = DsVoted then di_stake_amount d else 0)"

definition pm_claims :: "address \<Rightarrow> (u64 \<Rightarrow> address option) \<Rightarrow> ('v \<Rightarrow> i128) \<Rightarrow> u64 \<times> 'k \<Rightarrow> 'v \<Rightarrow> int" where
  "pm_claims t toks f key v = (if toks (fst key) = Some t then f v else 0)"

definition pm_owed :: "address \<Rightarrow> 'w pm_state \<Rightarrow> int" where
  "pm_owed t s = key_sum (pm_claims t (pm_token_of s) op_collateral_reserve) (pm_pool s) +
     key_sum (pm_claims t (pm_token_of s) pm_locked) (pm_order s) + key_sum (pm_claims t (pm_token_of s) pm_stake) (pm_dispute s)"

lemma pm_claims_upd:
  assumes "finite (dom f)"
  shows "key_sum (pm_claims t toks g) (f((m, j) \<mapsto> v)) = key_sum (pm_claims t toks g) f +
    (if toks m = Some t then g v - (case f (m, j) of None \<Rightarrow> 0 | Some u \<Rightarrow> g u) else 0)"
  using assms by (simp only: key_sum_upd) (simp add: pm_claims_def split: option.split)

lemma pm_owed_pool:
  assumes "pm_core s" and "pm_pool s (m, i) = Some p" and "pm_token_of s' = pm_token_of s"
    and "pm_pool s' = (pm_pool s)((m, i) \<mapsto> p')" and "pm_order s' = pm_order s" and "pm_dispute s' = pm_dispute s"
  shows "pm_owed t s' = pm_owed t s + (if pm_token_of s m = Some t then op_collateral_reserve p' - op_collateral_reserve p else 0)"
  using assms(2) unfolding pm_owed_def assms(3-6) pm_claims_upd [OF pm_core_pools(1) [OF assms(1)]] by simp

lemma pm_owed_order:
  assumes "pm_core s" and "pm_token_of s' = pm_token_of s"
    and "pm_order s' = (pm_order s)((m, j) \<mapsto> q')" and "pm_pool s' = pm_pool s" and "pm_dispute s' = pm_dispute s"
  shows "pm_owed t s' = pm_owed t s +
    (if pm_token_of s m = Some t then pm_locked q' - (case pm_order s (m, j) of None \<Rightarrow> 0 | Some q \<Rightarrow> pm_locked q) else 0)"
  unfolding pm_owed_def assms(2-5) pm_claims_upd [OF pm_core_orders(1) [OF assms(1)]] by simp

lemma pm_owed_dispute:
  assumes "pm_core s" and "pm_token_of s' = pm_token_of s"
    and "pm_dispute s' = (pm_dispute s)((m, j) \<mapsto> d')" and "pm_pool s' = pm_pool s" and "pm_order s' = pm_order s"
  shows "pm_owed t s' = pm_owed t s +
    (if pm_token_of s m = Some t then pm_stake d' - (case pm_dispute s (m, j) of None \<Rightarrow> 0 | Some d \<Rightarrow> pm_stake d) else 0)"
  unfolding pm_owed_def assms(2-5) pm_claims_upd [OF pm_core_disputes(1) [OF assms(1)]] by simp

lemma pm_owed_frame:
  "pm_token_of s' = pm_token_of s \<Longrightarrow> pm_pool s' = pm_pool s \<Longrightarrow> pm_order s' = pm_order s \<Longrightarrow> pm_dispute s' = pm_dispute s \<Longrightarrow> pm_owed t s' = pm_owed t s"
  by (simp add: pm_owed_def)

subsection \<open>Matching\<close>

lemma div_i128_factor: "0 \<le> x \<Longrightarrow> div_i128 x DECIMAL_FACTOR = x div DECIMAL_FACTOR"
  by (simp add: div_i128_nonneg DECIMAL_FACTOR_def)

lemma div_factor_nonneg: "0 \<le> x \<Longrightarrow> 0 \<le> x div DECIMAL_FACTOR"
  by (simp add: DECIMAL_FACTOR_def pos_imp_zdiv_nonneg_iff)

lemma div_factor_add: "x div DECIMAL_FACTOR + y div DECIMAL_FACTOR \<le> (x + y) div DECIMAL_FACTOR"
  by (simp add: DECIMAL_FACTOR_def div_add1_eq [of x y] pos_imp_zdiv_nonneg_iff)

lemma pm_locked_nonneg: "pm_order_ok m j q \<Longrightarrow> 0 \<le> pm_locked q"
  by (simp add: pm_locked_def pm_order_ok_def div_i128_factor div_factor_nonneg)

text \<open>Filling a part of a buy order frees at least the collateral that the fill costs.\<close>

lemma pm_fill_order_Inr:
  assumes run: "pm_fill_order m i rem b s = Inr ((fill, col), s1)" and ok: "pm_order_ok m j b" and rem: "0 < rem"
    and b: "lo_side b = SideBuy" "lo_status b = OsOpen"
  obtains b' where "pm_order_ok m j b'" and "lo_side b' = SideBuy" and "pm_locked b' + col \<le> pm_locked b" and "0 \<le> col" and "0 \<le> fill" and "fill \<le> rem"
    and "s1 = s\<lparr>pm_order := (pm_order s)((m, j) \<mapsto> b'),
      pm_balance := pm_put (m, i, lo_owner b) (pm_get_outcome_balance m i (lo_owner b) s + fill) (pm_balance s)\<rparr>"
proof -
  let ?left = "lo_quantity b - lo_filled_quantity b"
  define b' where "b' = b\<lparr>lo_filled_quantity := lo_filled_quantity b + fill,
    lo_status := (if lo_quantity b \<le> lo_filled_quantity b + fill then OsFilled else OsOpen)\<rparr>"
  have fill: "fill = (if rem < ?left then rem else ?left)" and col: "col = div_i128 (lo_price b * fill) DECIMAL_FACTOR"
    and s1: "s1 = s\<lparr>pm_order := (pm_order s)((m, j) \<mapsto> b'),
      pm_balance := pm_put (m, i, lo_owner b) (pm_get_outcome_balance m i (lo_owner b) s + fill) (pm_balance s)\<rparr>"
    using run ok unfolding pm_fill_order_def Let_def and_then_eq_Inr sum.inject prod.inject pm_setters
    by (auto simp: pm_arith_Inr pm_order_ok_def b'_def pm_get_outcome_balance_def)
  have bounds: "0 \<le> fill" "fill \<le> rem" "fill \<le> ?left" "0 < lo_price b" using fill ok rem by (auto simp: pm_order_ok_def)
  show thesis
  proof (rule that [OF _ _ _ _ bounds(1,2) s1])
    show "pm_order_ok m j b'" using ok bounds by (simp add: pm_order_ok_def b'_def)
    show "lo_side b' = SideBuy" by (simp add: b'_def b)
    show "0 \<le> col" using bounds by (simp add: col div_i128_factor div_factor_nonneg)
    have sum: "lo_price b * (?left - fill) div DECIMAL_FACTOR + lo_price b * fill div DECIMAL_FACTOR \<le> lo_price b * ?left div DECIMAL_FACTOR"
      using div_factor_add [of "lo_price b * (?left - fill)" "lo_price b * fill"] by (simp add: right_diff_distrib)
    have "pm_locked b = lo_price b * ?left div DECIMAL_FACTOR" using bounds by (simp add: pm_locked_def b div_i128_factor)
    moreover have "col = lo_price b * fill div DECIMAL_FACTOR" using bounds by (simp add: col div_i128_factor)
    moreover have "pm_locked b' \<le> lo_price b * (?left - fill) div DECIMAL_FACTOR"
      using bounds by (auto simp: pm_locked_def b'_def b div_i128_factor div_factor_nonneg diff_diff_eq)
    ultimately show "pm_locked b' + col \<le> pm_locked b" using sum by linarith
  qed
qed

text \<open>One pass over the book: what stays, and that the seller's receipts were locked in the orders it filled.\<close>

definition pm_pass :: "u64 \<Rightarrow> u32 \<Rightarrow> address \<Rightarrow> int \<Rightarrow> 'w pm_state \<Rightarrow> 'w pm_state \<Rightarrow> bool" where
  "pm_pass m i a paid s s' \<longleftrightarrow> pm_core s' \<and> (\<exists>ord b. s' = s\<lparr>pm_order := ord, pm_balance := b\<rparr>) \<and>
     (\<forall>key q. pm_order s key = Some q \<and> lo_side q = SideSell \<longrightarrow> pm_order s' key = Some q) \<and>
     pm_get_outcome_balance m i a s' = pm_get_outcome_balance m i a s \<and>
     (\<forall>t. pm_owed t s' + (if pm_token_of s m = Some t then paid else 0) \<le> pm_owed t s)"

lemma pm_pass_refl: "pm_core s \<Longrightarrow> pm_pass m i a 0 s s"
  unfolding pm_pass_def by (intro conjI exI [of _ "pm_order s"] exI [of _ "pm_balance s"]) simp_all

lemma pm_pass_trans:
  assumes "pm_pass m i a x s s1" and "pm_pass m i a y s1 s'"
  shows "pm_pass m i a (x + y) s s'"
proof -
  obtain o1 b1 where s1: "s1 = s\<lparr>pm_order := o1, pm_balance := b1\<rparr>" using assms(1) unfolding pm_pass_def by blast
  obtain o2 b2 where s2: "s' = s1\<lparr>pm_order := o2, pm_balance := b2\<rparr>" using assms(2) unfolding pm_pass_def by blast
  have "pm_market s1 = pm_market s" by (simp add: s1)
  then have tok: "pm_token_of s1 = pm_token_of s" by (rule pm_terms_frame)
  have "pm_owed t s' + (if pm_token_of s m = Some t then x + y else 0) \<le> pm_owed t s" for t
  proof -
    have "pm_owed t s1 + (if pm_token_of s m = Some t then x else 0) \<le> pm_owed t s" using assms(1) unfolding pm_pass_def by blast
    moreover have "pm_owed t s' + (if pm_token_of s m = Some t then y else 0) \<le> pm_owed t s1"
      using assms(2) unfolding pm_pass_def tok by blast
    ultimately show ?thesis by (simp split: if_splits)
  qed
  moreover have "s' = s\<lparr>pm_order := o2, pm_balance := b2\<rparr>" by (simp add: s1 s2)
  ultimately show ?thesis using assms unfolding pm_pass_def by metis
qed

lemma pm_fill_pass:
  assumes core: "pm_core s" and b: "pm_order s (m, j) = Some b" "pm_crosses q a b" and rem: "0 < rem"
    and run: "pm_fill_order m i rem b s = Inr ((fill, col), s1)"
  shows "pm_pass m i a col s s1" and "0 \<le> fill" and "fill \<le> rem" and "0 \<le> col"
proof -
  have buy: "lo_side b = SideBuy" "lo_status b = OsOpen" "lo_owner b \<noteq> a" using b(2) by (simp_all add: pm_crosses_def)
  obtain b' where b': "pm_order_ok m j b'" "lo_side b' = SideBuy" "pm_locked b' + col \<le> pm_locked b" "0 \<le> col" "0 \<le> fill" "fill \<le> rem"
    and s1: "s1 = s\<lparr>pm_order := (pm_order s)((m, j) \<mapsto> b'),
      pm_balance := pm_put (m, i, lo_owner b) (pm_get_outcome_balance m i (lo_owner b) s + fill) (pm_balance s)\<rparr>"
    by (rule pm_fill_order_Inr [OF run pm_core_orders(2) [OF core b(1)] rem buy(1,2)])
  show "0 \<le> fill" "fill \<le> rem" "0 \<le> col" using b' by simp_all
  have "pm_market s1 = pm_market s" by (simp add: s1)
  then have tok: "pm_token_of s1 = pm_token_of s" by (rule pm_terms_frame)
  have core1: "pm_core s1"
    by (rule pm_core_set_order [OF core b(1) b'(1), where w = "pm_tokens s"
        and b = "pm_put (m, i, lo_owner b) (pm_get_outcome_balance m i (lo_owner b) s + fill) (pm_balance s)"])
       (use pm_put_pos [OF pm_core_balances [OF core]] in \<open>simp_all add: s1\<close>)
  have "pm_owed t s1 + (if pm_token_of s m = Some t then col else 0) \<le> pm_owed t s" for t
    using pm_owed_order [OF core tok, of m j b' t] b(1) b'(3) by (simp add: s1)
  moreover have "pm_order s1 key = Some x" if "pm_order s key = Some x" "lo_side x = SideSell" for key x
    using that b(1) buy(1) by (cases "key = (m, j)") (simp_all add: s1)
  moreover have "pm_get_outcome_balance m i a s1 = pm_get_outcome_balance m i a s"
    using buy(3) by (simp add: pm_get_outcome_balance_def s1 pm_put_def)
  ultimately show "pm_pass m i a col s s1" using core1 s1 unfolding pm_pass_def by blast
qed

lemma pm_match_loop_pass:
  assumes "pm_core s" and "0 \<le> rem" and "pm_match_loop m q a ids rem rec s = Inr ((rem', rec'), s')"
  shows "pm_pass m (lo_outcome_index q) a (rec' - rec) s s'" and "0 \<le> rem'" and "rem' \<le> rem" and "rec \<le> rec'"
  using assms
proof (induction ids arbitrary: rem rec s)
  case Nil
  { case 1 then show ?case by (simp add: pm_pass_refl) }
  { case 2 then show ?case by simp }
  { case 3 then show ?case by simp }
  { case 4 then show ?case by simp }
next
  case (Cons j ids)
  have step: "pm_pass m (lo_outcome_index q) a (rec' - rec) s s' \<and> 0 \<le> rem' \<and> rem' \<le> rem \<and> rec \<le> rec'"
    if core: "pm_core s" and rem: "0 \<le> rem" and run: "pm_match_loop m q a (j # ids) rem rec s = Inr ((rem', rec'), s')" for rem rec s
  proof -
    consider (stop) "rem \<le> 0" | (skip) "0 < rem" "pm_match_loop m q a ids rem rec s = Inr ((rem', rec'), s')"
      | (fill) b where "0 < rem" "pm_order s (m, j) = Some b" "pm_crosses q a b"
      using run by (force split: if_splits option.splits)
    then show ?thesis
    proof cases
      case stop
      with run core rem show ?thesis by (simp add: pm_pass_refl)
    next
      case skip
      with Cons.IH [OF core rem] show ?thesis by blast
    next
      case fill
      obtain f c s1 where f: "pm_fill_order m (lo_outcome_index q) rem b s = Inr ((f, c), s1)"
        and rest: "pm_match_loop m q a ids (rem - f) (rec + c) s1 = Inr ((rem', rec'), s')"
        using run fill by (auto simp: and_then_eq_Inr pm_arith_Inr)
      note p = pm_fill_pass [OF core fill(2,3,1) f]
      have core1: "pm_core s1" using p(1) by (simp add: pm_pass_def)
      have "0 \<le> rem - f" using p(3) by simp
      note ih = Cons.IH [OF core1 this rest]
      show ?thesis using pm_pass_trans [OF p(1) ih(1)] ih(2-4) p(2-4) by simp
    qed
  qed
  { case 1 then show ?case using step by blast }
  { case 2 then show ?case using step by blast }
  { case 3 then show ?case using step by blast }
  { case 4 then show ?case using step by blast }
qed

lemma pm_match_sell_pass:
  assumes core: "pm_core s" and run: "pm_match_sell_order tr e a m j s = Inr (rec, s')"
  obtains w where "pm_core s'" and "0 \<le> rec" and "pm_tokens s' = w"
    and "0 < rec \<Longrightarrow> \<exists>k. pm_market s m = Some k \<and> tr e (mk_collateral_token k) (env_self e) a rec (pm_tokens s) = Some w"
    and "\<not> 0 < rec \<Longrightarrow> w = pm_tokens s" and "\<And>t. pm_owed t s' + (if pm_token_of s m = Some t then rec else 0) \<le> pm_owed t s"
    and "pm_market s' = pm_market s" and "pm_pool s' = pm_pool s" and "pm_dispute s' = pm_dispute s" and "pm_dispute_vote s' = pm_dispute_vote s"
    and "pm_lp s' = pm_lp s" and "pm_lp_total s' = pm_lp_total s"
  using run
proof (cases rule: pm_match_sell_Inr)
  case (1 q rem s1 w)
  note ok = pm_core_orders(2) [OF core 1(2)]
  have left: "0 \<le> lo_quantity q - lo_filled_quantity q" using ok by (simp add: pm_order_ok_def)
  note pass = pm_match_loop_pass [OF core left 1(6)]
  obtain ord b where s1: "s1 = s\<lparr>pm_order := ord, pm_balance := b\<rparr>" using pass(1) unfolding pm_pass_def by blast
  have core1: "pm_core s1" and q1: "pm_order s1 (m, j) = Some q" using pass(1) 1(2,5) unfolding pm_pass_def by blast+
  have owed: "pm_owed t s1 + (if pm_token_of s m = Some t then rec else 0) \<le> pm_owed t s" for t
    using pass(1) unfolding pm_pass_def diff_zero by blast
  define q' where "q' = q\<lparr>lo_filled_quantity := lo_quantity q - rem, lo_status := (if rem = 0 then OsFilled else OsOpen)\<rparr>"
  have ids: "lo_market_id q = m" "lo_order_id q = j" using ok by (simp_all add: pm_order_ok_def)
  have q': "pm_order_ok m j q'" using ok pass(2,3) by (simp add: q'_def pm_order_ok_def)
  have s': "s' = s1\<lparr>pm_tokens := w, pm_order := (pm_order s1)((m, j) \<mapsto> q'),
      pm_balance := pm_put (m, lo_outcome_index q, a) (pm_get_outcome_balance m (lo_outcome_index q) a s1 - (lo_quantity q - rem)) (pm_balance s1)\<rparr>"
    unfolding 1(9) ids q'_def ..
  have "pm_market s' = pm_market s1" by (simp add: s')
  then have tok: "pm_token_of s' = pm_token_of s1" by (rule pm_terms_frame)
  have "pm_owed t s' = pm_owed t s1" for t
    using pm_owed_order [OF core1 tok, of m j q' t] q1 1(5) by (simp add: s' q'_def pm_locked_def)
  with owed have owed': "\<And>t. pm_owed t s' + (if pm_token_of s m = Some t then rec else 0) \<le> pm_owed t s" by simp
  have core': "pm_core s'"
    by (rule pm_core_set_order [OF core1 q1 q' _ s']) (rule pm_put_pos [OF pm_core_balances [OF core1]])
  show thesis
    by (rule that [OF core' pass(4), of w])
       (use 1(7,8) owed' in \<open>simp_all add: s' s1\<close>)
qed

subsection \<open>Disputes, resolution and creation\<close>

lemma pm_core_restatus:
  assumes core: "pm_core s" and k: "pm_market s m = Some k"
    and r: "if st = MsResolved \<or> st = MsDisputed then \<exists>i<mk_num_outcomes k. r = Some i else st \<noteq> MsPendingResolution \<and> r = None"
    and s': "s' = s\<lparr>pm_market := (pm_market s)(m \<mapsto> k\<lparr>mk_status := st, mk_resolved_outcome := r\<rparr>)\<rparr>"
    and settled: "pm_settled s m \<Longrightarrow> st = MsResolved \<or> st = MsDisputed"
  shows "pm_core s'"
proof -
  have mk: "pm_market s' = (pm_market s)(m \<mapsto> k\<lparr>mk_status := st, mk_resolved_outcome := r\<rparr>)" by (simp add: s')
  note terms = pm_terms_restatus(1-3) [OF k mk] pm_terms_restatus(4) [OF k mk settled]
  show ?thesis
  proof (rule pm_coreI)
    show "pm_markets_ok s'" by (rule pm_markets_ok_restatus [OF core k mk _ r]) (simp_all add: s')
    show "pm_disputes_ok s'" by (rule pm_disputes_ok_frame [OF core terms(1,4)]) (simp_all add: s')
  qed (rule pm_frames [OF core]; (rule terms | simp add: s' pm_get_market_counter_def))+
qed

lemma pm_core_resolved: "pm_core s \<Longrightarrow> pm_market s m = Some k \<Longrightarrow> mk_status k = MsResolved \<or> mk_status k = MsDisputed \<Longrightarrow>
   \<exists>i<mk_num_outcomes k. mk_resolved_outcome k = Some i"
  using pm_core_market [of s m k] by (simp add: pm_market_ok_def)

lemma pm_core_id: "pm_core s \<Longrightarrow> pm_market s m = Some k \<Longrightarrow> mk_market_id k = m"
  using pm_core_market [of s m k] by (simp add: pm_market_ok_def)

lemma pm_core_resolve_market: "pm_core s \<Longrightarrow> pm_resolve_market e a m i s = Inr (u, s') \<Longrightarrow> pm_core s'"
proof -
  assume core: "pm_core s" and run: "pm_resolve_market e a m i s = Inr (u, s')"
  from run show "pm_core s'"
  proof (cases rule: pm_resolve_market_Inr)
    case (1 k)
    show ?thesis
      by (rule pm_core_restatus [OF core 1(2), where st = MsResolved and r = "Some i"]) (use 1(6,7) pm_core_id [OF core 1(2)] in auto)
  qed
qed

lemma pm_core_close: "pm_core s \<Longrightarrow> pm_close_market_early e a m s = Inr (u, s') \<Longrightarrow> pm_core s'"
proof -
  assume core: "pm_core s" and run: "pm_close_market_early e a m s = Inr (u, s')"
  from run show "pm_core s'"
  proof (cases rule: pm_close_Inr)
    case (1 k)
    have "mk_resolved_outcome k = None" using pm_core_market [OF core 1(2)] 1(4) by (simp add: pm_market_ok_def)
    then have "k\<lparr>mk_status := MsClosed, mk_resolved_outcome := None\<rparr> = k\<lparr>mk_status := MsClosed\<rparr>" by (cases k) simp
    then show ?thesis
      by (intro pm_core_restatus [OF core 1(2), where st = MsClosed and r = None]) (use 1(2,4,5) pm_core_id [OF core 1(2)] in \<open>simp_all add: pm_settled_def\<close>)
  qed
qed

lemma pm_core_set_dispute:
  assumes core: "pm_core s" and d: "pm_dispute_ok m j d" "di_claimed_outcome d < pm_num s m" "j < pm_get_dispute_counter m s'"
    "di_votes_for d + di_votes_against d = key_sum (pm_vote_of m j) (pm_dispute_vote s')" "pm_settled s m"
    and votes: "finite (dom (pm_dispute_vote s'))"
      "\<And>m' j' a w. pm_dispute_vote s' (m', j', a) = Some w \<Longrightarrow> 0 < w \<and> ((m', j') = (m, j) \<or> pm_dispute s (m', j') \<noteq> None)"
      "\<And>m' j'. (m', j') \<noteq> (m, j) \<Longrightarrow> key_sum (pm_vote_of m' j') (pm_dispute_vote s') = key_sum (pm_vote_of m' j') (pm_dispute_vote s)"
    and s': "s' = s\<lparr>pm_tokens := w, pm_dispute := (pm_dispute s)((m, j) \<mapsto> d), pm_dispute_count := dc, pm_dispute_vote := v\<rparr>"
      "\<And>m'. pm_get_dispute_counter m' s \<le> pm_get_dispute_counter m' s'"
  shows "pm_core s'"
proof -
  have same: "pm_market s' = pm_market s" by (simp add: s')
  note terms = pm_terms_frame [OF same]
  have entry: "pm_dispute_ok m' j' d' \<and> di_claimed_outcome d' < pm_num s' m' \<and> j' < pm_get_dispute_counter m' s' \<and> pm_settled s' m' \<and>
      di_votes_for d' + di_votes_against d' = key_sum (pm_vote_of m' j') (pm_dispute_vote s')"
    if "pm_dispute s' (m', j') = Some d'" for m' j' d'
  proof (cases "(m', j') = (m, j)")
    case True
    then show ?thesis using that d terms(4) [OF d(5)] unfolding terms(1) by (simp add: s'(1))
  next
    case False
    then have "pm_dispute s (m', j') = Some d'" using that by (auto simp: s'(1) split: if_splits)
    then have "pm_dispute_ok m' j' d' \<and> di_claimed_outcome d' < pm_num s m' \<and> j' < pm_get_dispute_counter m' s \<and> pm_settled s m' \<and>
        di_votes_for d' + di_votes_against d' = key_sum (pm_vote_of m' j') (pm_dispute_vote s)"
      using core by (simp add: pm_core_def pm_disputes_ok_def)
    then show ?thesis using votes(3) [OF False] s'(2) [of m'] terms(4) [of m'] by (simp add: terms(1))
  qed
  show ?thesis
  proof (rule pm_coreI)
    have "finite (dom (pm_dispute s'))" using pm_core_disputes(1) [OF core] by (simp add: s'(1))
    moreover have "pm_dispute s' (m', j') \<noteq> None" if "pm_dispute_vote s' (m', j', a) = Some w" for m' j' a w
      using votes(2) [OF that] by (auto simp: s'(1))
    ultimately show "pm_disputes_ok s'" using entry votes(1,2) unfolding pm_disputes_ok_def by blast
  qed (rule pm_frames [OF core]; (erule terms | rule terms | simp add: s'(1) pm_get_market_counter_def))+
qed

lemma pm_core_votes:
  "pm_core s \<Longrightarrow> finite (dom (pm_dispute_vote s))"
  "pm_core s \<Longrightarrow> pm_dispute_vote s (m, j, a) = Some w \<Longrightarrow> 0 < w \<and> pm_dispute s (m, j) \<noteq> None"
  "pm_core s \<Longrightarrow> pm_dispute s (m, j) = Some d \<Longrightarrow> di_votes_for d + di_votes_against d = key_sum (pm_vote_of m j) (pm_dispute_vote s)"
  "pm_core s \<Longrightarrow> pm_dispute s (m, j) = Some d \<Longrightarrow> j < pm_get_dispute_counter m s"
  "pm_core s \<Longrightarrow> pm_dispute s (m, j) = Some d \<Longrightarrow> pm_settled s m"
  unfolding pm_core_def pm_disputes_ok_def by blast+

lemma pm_no_votes:
  assumes "pm_core s" and "pm_dispute s (m, j) = None"
  shows "key_sum (pm_vote_of m j) (pm_dispute_vote s) = 0"
proof -
  have "key_sum (pm_vote_of m j) (pm_dispute_vote s) = key_sum (\<lambda>_ _. 0) (pm_dispute_vote s)"
    by (rule key_sum_cong) (use assms(2) in \<open>auto simp: pm_vote_of_def dest: pm_core_votes(2) [OF assms(1)] split: prod.split\<close>)
  then show ?thesis by (simp add: key_sum_def)
qed

lemma pm_core_open_dispute:
  assumes core: "pm_core s" and run: "pm_open_dispute tr e a m i x n s = Inr (j, s')"
  shows "pm_core s'"
  using run
proof (cases rule: pm_open_dispute_Inr)
  case (1 k w)
  define d where "d = \<lparr>di_dispute_id = j, di_market_id = m, di_challenger = a, di_claimed_outcome = i, di_evidence = x, di_stake_amount = n,
    di_status = DsOpen, di_votes_for = 0, di_votes_against = 0, di_created_at = env_timestamp e, di_resolved_at = None\<rparr>"
  define s1 where "s1 = s\<lparr>pm_tokens := w, pm_dispute := (pm_dispute s)((m, j) \<mapsto> d), pm_dispute_count := (pm_dispute_count s)(m \<mapsto> j + 1),
    pm_dispute_vote := pm_dispute_vote s\<rparr>"
  have new: "pm_dispute s (m, j) = None" unfolding 1(6) by (rule pm_core_disputes(4) [OF core])
  have core1: "pm_core s1"
  proof (rule pm_core_set_dispute [OF core _ _ _ _ _ _ _ _ s1_def])
    show "pm_dispute_ok m j d" using 1(5) by (simp add: d_def pm_dispute_ok_def)
    show "di_claimed_outcome d < pm_num s m" using 1(4) by (simp add: d_def pm_num_market(1) [OF 1(2)])
    show "j < pm_get_dispute_counter m s1" by (simp add: s1_def pm_get_dispute_counter_def)
    show "di_votes_for d + di_votes_against d = key_sum (pm_vote_of m j) (pm_dispute_vote s1)"
      using pm_no_votes [OF core new] by (simp add: d_def s1_def)
    show "finite (dom (pm_dispute_vote s1))" using pm_core_votes(1) [OF core] by (simp add: s1_def)
    show "pm_settled s m" using 1(2,3) by (auto simp: pm_settled_def)
    show "\<And>m' j' a w. pm_dispute_vote s1 (m', j', a) = Some w \<Longrightarrow> 0 < w \<and> ((m', j') = (m, j) \<or> pm_dispute s (m', j') \<noteq> None)"
      using pm_core_votes(2) [OF core] by (simp add: s1_def)
    show "\<And>m'. pm_get_dispute_counter m' s \<le> pm_get_dispute_counter m' s1"
      using 1(6) by (simp add: s1_def pm_get_dispute_counter_def)
  qed (simp add: s1_def)
  obtain r where r: "r < mk_num_outcomes k" "mk_resolved_outcome k = Some r" using pm_core_resolved [OF core 1(2)] 1(3) by auto
  have "k\<lparr>mk_status := MsDisputed, mk_resolved_outcome := Some r\<rparr> = k\<lparr>mk_status := MsDisputed\<rparr>" using r(2) by (cases k) simp
  then have "s' = s1\<lparr>pm_market := (pm_market s1)(m \<mapsto> k\<lparr>mk_status := MsDisputed, mk_resolved_outcome := Some r\<rparr>)\<rparr>"
    using 1(8) pm_core_id [OF core 1(2)] by (simp add: s1_def d_def)
  then show ?thesis by (rule pm_core_restatus [OF core1, rotated 2]) (use 1(2) r(1) in \<open>simp_all add: s1_def\<close>)
qed

lemma pm_core_vote_dispute:
  assumes core: "pm_core s" and run: "pm_vote_dispute e a m j yes s = Inr (u, s')"
  shows "pm_core s'"
  using run
proof (cases rule: pm_vote_dispute_Inr)
  case (1 d k w d')
  note ok = pm_core_disputes(2) [OF core 1(2)]
  have s': "s' = s\<lparr>pm_tokens := pm_tokens s, pm_dispute := (pm_dispute s)((m, j) \<mapsto> d'), pm_dispute_count := pm_dispute_count s,
      pm_dispute_vote := (pm_dispute_vote s)((m, j, a) \<mapsto> w)\<rparr>"
    using ok by (simp add: 1(9) pm_dispute_ok_def)
  have sum: "key_sum (pm_vote_of m' j') (pm_dispute_vote s') = key_sum (pm_vote_of m' j') (pm_dispute_vote s) + (if (m', j') = (m, j) then w else 0)"
    for m' j'
    using 1(4) by (simp add: s' key_sum_upd [OF pm_core_votes(1) [OF core]] del: fun_upd_apply) (auto simp: pm_vote_of_def)
  show ?thesis
  proof (rule pm_core_set_dispute [OF core _ _ _ _ _ _ _ _ s'])
    show "pm_dispute_ok m j d'" using ok by (simp add: 1(8) pm_dispute_ok_def)
    show "di_claimed_outcome d' < pm_num s m" using pm_core_disputes(3) [OF core 1(2)] by (simp add: 1(8))
    show "j < pm_get_dispute_counter m s'" using pm_core_votes(4) [OF core 1(2)] by (simp add: s' pm_get_dispute_counter_def)
    show "di_votes_for d' + di_votes_against d' = key_sum (pm_vote_of m j) (pm_dispute_vote s')"
      using pm_core_votes(3) [OF core 1(2)] by (simp add: sum) (simp add: 1(8))
    show "finite (dom (pm_dispute_vote s'))" using pm_core_votes(1) [OF core] by (simp add: s')
    show "\<And>m' j' b v. pm_dispute_vote s' (m', j', b) = Some v \<Longrightarrow> 0 < v \<and> ((m', j') = (m, j) \<or> pm_dispute s (m', j') \<noteq> None)"
      using pm_core_votes(2) [OF core] 1(7) by (auto simp: s' split: if_splits)
    show "pm_settled s m" by (rule pm_core_votes(5) [OF core 1(2)])
    show "\<And>m' j'. (m', j') \<noteq> (m, j) \<Longrightarrow> key_sum (pm_vote_of m' j') (pm_dispute_vote s') = key_sum (pm_vote_of m' j') (pm_dispute_vote s)"
      unfolding sum by auto
  qed (simp add: s' pm_get_dispute_counter_def)
qed

lemma pm_core_resolve_dispute:
  assumes core: "pm_core s" and run: "pm_resolve_dispute tr e a m j s = Inr (u, s')"
  shows "pm_core s'"
  using run
proof (cases rule: pm_resolve_dispute_Inr)
  case (1 d k w k' d')
  note ok = pm_core_disputes(2) [OF core 1(3)]
  define s1 where "s1 = s\<lparr>pm_tokens := w, pm_dispute := (pm_dispute s)((m, j) \<mapsto> d'), pm_dispute_count := pm_dispute_count s,
    pm_dispute_vote := pm_dispute_vote s\<rparr>"
  have core1: "pm_core s1"
  proof (rule pm_core_set_dispute [OF core _ _ _ _ _ _ _ _ s1_def])
    show "pm_dispute_ok m j d'" using ok by (simp add: 1(9) pm_dispute_ok_def)
    show "di_claimed_outcome d' < pm_num s m" using pm_core_disputes(3) [OF core 1(3)] by (simp add: 1(9))
    show "j < pm_get_dispute_counter m s1" using pm_core_votes(4) [OF core 1(3)] by (simp add: s1_def pm_get_dispute_counter_def)
    show "di_votes_for d' + di_votes_against d' = key_sum (pm_vote_of m j) (pm_dispute_vote s1)"
      using pm_core_votes(3) [OF core 1(3)] by (simp add: s1_def 1(9))
    show "\<And>m' j' a w. pm_dispute_vote s1 (m', j', a) = Some w \<Longrightarrow> 0 < w \<and> ((m', j') = (m, j) \<or> pm_dispute s (m', j') \<noteq> None)"
      using pm_core_votes(2) [OF core] by (simp add: s1_def)
    show "pm_settled s m" by (rule pm_core_votes(5) [OF core 1(3)])
  qed (simp_all add: s1_def pm_get_dispute_counter_def pm_core_votes(1) [OF core])
  have num: "pm_num s m = mk_num_outcomes k" by (rule pm_num_market(1) [OF 1(6)])
  obtain r where r: "r < mk_num_outcomes k" "mk_resolved_outcome k' = Some r"
  proof (cases "pm_upheld d")
    case True
    then show thesis using that [of "di_claimed_outcome d"] pm_core_disputes(3) [OF core 1(3)] by (simp add: 1(10) num)
  next
    case False
    have "\<exists>i<mk_num_outcomes k. mk_resolved_outcome k = Some i"
      using pm_core_votes(5) [OF core 1(3)] 1(6) by (intro pm_core_resolved [OF core]) (auto simp: pm_settled_def)
    then show thesis using that False by (auto simp: 1(10))
  qed
  have "k\<lparr>mk_status := MsResolved, mk_resolved_outcome := Some r\<rparr> = k'" using r(2) by (cases k) (simp add: 1(10))
  then have "s' = s1\<lparr>pm_market := (pm_market s1)(m \<mapsto> k\<lparr>mk_status := MsResolved, mk_resolved_outcome := Some r\<rparr>)\<rparr>"
    using 1(11) pm_core_id [OF core 1(6)] ok by (simp add: s1_def pm_dispute_ok_def)
  then show ?thesis by (rule pm_core_restatus [OF core1, rotated 2]) (use 1(6) r(1) in \<open>simp_all add: s1_def\<close>)
qed

text \<open>A new market has a fresh id, so nothing was stored for it.\<close>

lemma pm_core_fresh:
  assumes "pm_core s" and "m = pm_get_market_counter s"
  shows "pm_market s m = None" "pm_num s m = 0" "pm_pool s (m, i) = None" "pm_order s (m, j) = None" "pm_dispute s (m, j) = None" "pm_lp s (m, a) = None"
proof -
  show mk: "pm_market s m = None" using pm_core_market_dom [OF assms(1), of m] assms(2) by simp
  then show num: "pm_num s m = 0" by (simp add: pm_num_def)
  show "pm_pool s (m, i) = None" using pm_core_pools(2) [OF assms(1), of m i] num by simp
  show "pm_order s (m, j) = None" using pm_core_orders(3) [OF assms(1), of m j] num by (cases "pm_order s (m, j)") auto
  show "pm_dispute s (m, j) = None" using pm_core_disputes(3) [OF assms(1), of m j] num by (cases "pm_dispute s (m, j)") auto
  show "pm_lp s (m, a) = None"
    using assms(1) num by (cases "pm_lp s (m, a)") (fastforce simp: pm_core_def pm_lp_ok_def)+
qed

lemma pm_core_create_market:
  assumes core: "pm_core s" and run: "pm_create_market tr e a p s = Inr (m, s')"
  shows "pm_core s'"
  using run
proof (cases rule: pm_create_market_Inr)
  case (1 w fin)
  note fresh = pm_core_fresh [OF core 1(3)]
  note params = 1(2) [unfolded pm_check_params_Inr]
  let ?n = "cp_num_outcomes p" and ?x = "cp_initial_liquidity p"
  have num: "pm_num s' = (pm_num s)(m := ?n)" and cap: "pm_cap s' = (pm_cap s)(m := cp_max_outcome_supply p)"
    by (simp_all add: fun_eq_iff 1(6) pm_num_def pm_cap_def pm_new_market_def)
  show ?thesis
  proof (rule pm_coreI)
    have "pm_market s' j \<noteq> None \<longleftrightarrow> j < pm_get_market_counter s'" for j
      using pm_core_market_dom [OF core, of j] by (auto simp: 1(6) pm_get_market_counter_def 1(3))
    moreover have "pm_market_ok m (pm_new_market m (env_timestamp e) fin a p)"
      using params by (simp add: pm_market_ok_def pm_new_market_def)
    ultimately show "pm_markets_ok s'"
      using pm_core_market [OF core] unfolding pm_markets_ok_def by (auto simp: 1(6))
    have "pm_pool s' (j, i) \<noteq> None \<longleftrightarrow> i < pm_num s' j" for j i
      using pm_core_pools(2) [OF core, of j i] fresh(3) unfolding num by (auto simp: 1(6) pm_seeded_def)
    moreover have "finite (dom (pm_pool s'))" using pm_core_pools(1) [OF core] by (simp add: 1(6) pm_seeded_dom)
    ultimately show "pm_pools_ok s'" by (simp add: pm_pools_ok_def)
    show "pm_orders_ok s'"
      using core params unfolding pm_core_def pm_orders_ok_def num by (auto simp: 1(6) pm_get_order_counter_def)
    have settled: "pm_settled s' j" if "pm_settled s j" for j
      using that fresh(1) by (auto simp: pm_settled_def 1(6))
    show "pm_disputes_ok s'"
    proof -
      have "di_claimed_outcome d < pm_num s' j" if "pm_dispute s (j, i) = Some d" for j i d
        using pm_core_disputes(3) [OF core that] fresh(5) [of i] that unfolding num by auto
      then show ?thesis
        using core settled unfolding pm_core_def pm_disputes_ok_def by (simp add: 1(6) pm_get_dispute_counter_def)
    qed
    have sum: "key_sum (pm_lp_in j) (pm_pool s') = key_sum (pm_lp_in j) (pm_pool s) + (if j = m then ?x * int ?n else 0)" for j
    proof -
      have "(\<Sum>i<?n. pm_lp_in j (m, i) (pm_seed_pool ?x)) = (if j = m then ?x * int ?n else 0)"
        by (simp add: pm_lp_in_def pm_seed_pool_def mult.commute)
      then show ?thesis
        by (simp add: 1(6) pm_seeded_sum [OF pm_core_pools(1) [OF core] fresh(3)])
    qed
    have "key_sum (pm_lp_in m) (pm_pool s) = 0"
    proof -
      have "key_sum (pm_lp_in m) (pm_pool s) = key_sum (\<lambda>_ _. 0) (pm_pool s)"
        by (rule key_sum_cong) (use fresh(3) in \<open>auto simp: pm_lp_in_def\<close>)
      then show ?thesis by (simp add: key_sum_def)
    qed
    then have "pm_get_lp_total_supply j s' = key_sum (pm_lp_in j) (pm_pool s')" for j
      using core unfolding pm_core_def pm_lp_ok_def sum by (auto simp: 1(6) pm_get_lp_total_supply_def)
    then show "pm_lp_ok s'" using core params unfolding pm_core_def pm_lp_ok_def num by (auto simp: 1(6))
    have "pm_get_total_outcome_supply j i s' \<le> pm_cap s' j" for j i
      using pm_core_supply [OF core, of j i] pm_core_supply [OF core, of m i] fresh(1) params
      unfolding cap by (auto simp: pm_cap_def 1(6) pm_get_total_outcome_supply_def pm_seeded_def)
    then show "pm_supply_ok s'" using pm_core_balances [OF core] by (simp add: pm_supply_ok_def 1(6))
  qed
qed

lemma pm_core_config:
  assumes core: "pm_core s" and s': "s' = s\<lparr>pm_paused := b, pm_admin := a, pm_collector := c, pm_fee_share_bps := f, pm_oracle_address := x, pm_tokens := w\<rparr>"
  shows "pm_core s'"
proof -
  have same: "pm_market s' = pm_market s" by (simp add: s')
  note terms = pm_terms_frame [OF same]
  show ?thesis
    by (rule pm_coreI; rule pm_frames [OF core]; (erule terms | rule terms | simp add: s' pm_get_market_counter_def))
qed

end
