(* ===== verification/Prediction_Books.thy ===== *)
theory Prediction_Books
  imports Prediction_Correct
begin

text \<open>
  The transition system of the prediction markets and its properties: the collateral covers what the
  contract owes, trades respect the product of the reserves, the liquidity shares add up, votes and
  redemptions are counted once, and a market moves through its states in one direction.
\<close>

section \<open>Backing\<close>

lemma pm_owed_pool_at:
  assumes "pm_core s" and "pm_pool s (m, i) = Some p" and "pm_token_of s' = pm_token_of s"
    and "pm_pool s' = (pm_pool s)((m, i) \<mapsto> the (pm_pool s' (m, i)))" and "pm_order s' = pm_order s" and "pm_dispute s' = pm_dispute s"
  shows "pm_owed t s' = pm_owed t s +
    (if pm_token_of s m = Some t then op_collateral_reserve (the (pm_pool s' (m, i))) - op_collateral_reserve p else 0)"
  by (rule pm_owed_pool [OF assms])

definition pm_inv :: "'w token_balance \<Rightarrow> address \<Rightarrow> 'w \<Rightarrow> u64 \<Rightarrow> 'w pm_state \<Rightarrow> bool" where
  "pm_inv bal self w t s \<longleftrightarrow> pm_core s \<and> (\<forall>tok. bal w tok self + pm_owed tok s \<le> bal (pm_tokens s) tok self)"

definition pm_adm :: "address \<Rightarrow> env \<Rightarrow> pm_call \<Rightarrow> bool" where
  "pm_adm self e c \<longleftrightarrow> env_self e = self \<and> \<not> env_auth e self"

definition pm_drift :: "'w token_balance \<Rightarrow> address \<Rightarrow> 'w pm_state \<Rightarrow> 'w pm_state \<Rightarrow> bool" where
  "pm_drift bal self s s' \<longleftrightarrow> (\<exists>w. s' = s\<lparr>pm_tokens := w\<rparr> \<and> (\<forall>tok. bal (pm_tokens s) tok self \<le> bal w tok self))"

text \<open>
  \<open>create_market\<close> does not require \<open>initialize\<close>, which resets the market counter: a market created before is
  overwritten by the next one (\<open>pm_late_initialize_overwrites\<close>). The runs considered below start at the fresh
  deployment and leave out exactly the calls of \<open>initialize\<close> that come after the first market; the contract may
  be initialised before, or never.
\<close>

definition pm_late :: "pm_call \<Rightarrow> 'w pm_state \<Rightarrow> bool" where
  "pm_late c s = (case c of PmInitialize _ _ \<Rightarrow> pm_get_market_counter s \<noteq> 0 | _ \<Rightarrow> False)"

definition pm_timely :: "'w token_transfer \<Rightarrow> 'w token_balance \<Rightarrow> env \<Rightarrow> pm_call \<Rightarrow> 'w pm_state \<Rightarrow> 'w pm_state option" where
  "pm_timely tr bal e c s = (if pm_late c s then None else pm_exec tr bal e c s)"

lemma pm_timely_Some: "pm_timely tr bal e c s = Some s' \<longleftrightarrow> \<not> pm_late c s \<and> pm_exec tr bal e c s = Some s'"
  by (simp add: pm_timely_def)

text \<open>An initialised contract refuses \<open>initialize\<close>, so from then on the restriction is none.\<close>

lemma pm_timely_initialized: "pm_admin s \<noteq> None \<Longrightarrow> pm_timely tr bal e c s = pm_exec tr bal e c s"
  by (cases c) (auto simp: pm_timely_def pm_late_def pm_initialize_def)

lemma pm_core_deployed: "pm_core (pm_fresh w)"
proof -
  have "pm_num (pm_fresh w) = (\<lambda>_. 0)" "pm_cap (pm_fresh w) = (\<lambda>_. 0)"
    by (simp_all add: fun_eq_iff pm_num_def pm_cap_def pm_fresh_def)
  then show ?thesis
    by (simp add: pm_core_def pm_markets_ok_def pm_pools_ok_def pm_orders_ok_def pm_disputes_ok_def pm_lp_ok_def pm_supply_ok_def
        pm_fresh_def pm_storage_defs)
qed

lemma pm_owed_deployed [simp]: "pm_owed t (pm_fresh w) = 0"
  by (simp add: pm_owed_def pm_fresh_def)

context token_contract
begin

text \<open>A payment into or out of the contract, against the change of what it owes.\<close>

lemma pm_inv_in:
  assumes inv: "pm_inv balance self w t s" and adm: "pm_adm self e c" and a: "env_auth e a"
    and tr: "transfer e tok a (env_self e) n (pm_tokens s) = Some (pm_tokens s')" and core: "pm_core s'"
    and owed: "\<And>x. pm_owed x s' \<le> pm_owed x s + (if tok = x then n else 0)"
  shows "pm_inv balance self w t s'"
proof -
  have "balance w x self + pm_owed x s' \<le> balance (pm_tokens s') x self" for x
  proof -
    have "balance w x self + pm_owed x s \<le> balance (pm_tokens s) x self" using inv by (simp add: pm_inv_def)
    moreover have "balance (pm_tokens s') x self = balance (pm_tokens s) x self + (if tok = x then n else 0)"
      using transfer_moves [OF tr, of x self] adm a by (auto simp: pm_adm_def)
    ultimately show ?thesis using owed [of x] by linarith
  qed
  with core show ?thesis by (simp add: pm_inv_def)
qed

lemma pm_inv_out:
  assumes inv: "pm_inv balance self w t s" and adm: "pm_adm self e c"
    and tr: "transfer e tok (env_self e) a n (pm_tokens s) = Some (pm_tokens s')" and core: "pm_core s'"
    and owed: "\<And>x. pm_owed x s' + (if tok = x then n else 0) \<le> pm_owed x s"
  shows "pm_inv balance self w t s'"
proof -
  have "balance w x self + pm_owed x s' \<le> balance (pm_tokens s') x self" for x
  proof -
    have "balance w x self + pm_owed x s \<le> balance (pm_tokens s) x self" using inv by (simp add: pm_inv_def)
    moreover have "balance (pm_tokens s) x self - (if x = tok then n else 0) \<le> balance (pm_tokens s') x self"
      using balance_src_ge [OF tr, of x self] by simp
    ultimately show ?thesis using owed [of x] by (auto split: if_splits)
  qed
  with core show ?thesis by (simp add: pm_inv_def)
qed

end

lemma pm_inv_still:
  assumes "pm_inv bal self w t s" and "pm_tokens s' = pm_tokens s" and "pm_core s'" and "\<And>x. pm_owed x s' \<le> pm_owed x s"
  shows "pm_inv bal self w t s'"
proof -
  have "bal w x self + pm_owed x s' \<le> bal (pm_tokens s') x self" for x
  proof -
    have "bal w x self + pm_owed x s \<le> bal (pm_tokens s) x self" using assms(1) by (simp add: pm_inv_def)
    then show ?thesis using assms(4) [of x] by (simp add: assms(2))
  qed
  with assms(3) show ?thesis by (simp add: pm_inv_def)
qed

lemma pm_inv_core: "pm_inv bal self w t s \<Longrightarrow> pm_core s"
  by (simp add: pm_inv_def)

context token_contract
begin

lemma pm_inv_buy:
  assumes inv: "pm_inv balance self w t s" and adm: "pm_adm self e cl" and run: "pm_buy_outcome transfer e a m i c lim s = Inr (out, s')"
  shows "pm_inv balance self w t s'"
  using run
proof (cases rule: pm_buy_Inr)
  case (1 k p w' b n pos col)
  note core = pm_inv_core [OF inv]
  have "mk_trading_fee_bps k \<le> 10000" using pm_core_market [OF core 1(2)] by (simp add: pm_market_ok_def MAX_TRADING_FEE_BPS_def)
  then have net: "div_i128 (c * (10000 - int (mk_trading_fee_bps k))) 10000 \<le> c"
    using 1(11) after_fee_bounds [of c "mk_trading_fee_bps k"] by (simp add: div_i128_nonneg after_fee_def)
  have same: "pm_market s' = pm_market s" by (simp add: 1(15))
  show ?thesis
  proof (rule pm_inv_in [OF inv adm 1(1)])
    show "transfer e (mk_collateral_token k) a (env_self e) c (pm_tokens s) = Some (pm_tokens s')" using 1(12) by (simp add: 1(15))
    show "pm_core s'" by (rule pm_core_buy [OF core run])
    show "pm_owed x s' \<le> pm_owed x s + (if mk_collateral_token k = x then c else 0)" for x
      by (subst pm_owed_pool_at [OF core 1(5) pm_terms_frame(3) [OF same]]) (use net pm_num_market(3) [OF 1(2)] in \<open>simp_all add: 1(15)\<close>)
  qed
qed

lemma pm_inv_sell:
  assumes inv: "pm_inv balance self w t s" and adm: "pm_adm self e cl" and run: "pm_sell_outcome transfer e a m i n lim s = Inr (out, s')"
  shows "pm_inv balance self w t s'"
  using run
proof (cases rule: pm_sell_Inr)
  case (1 k p w' pos col)
  note core = pm_inv_core [OF inv]
  have same: "pm_market s' = pm_market s" by (simp add: 1(13))
  show ?thesis
  proof (rule pm_inv_out [OF inv adm])
    show "transfer e (mk_collateral_token k) (env_self e) a out (pm_tokens s) = Some (pm_tokens s')" using 1(12) by (simp add: 1(13))
    show "pm_core s'" by (rule pm_core_sell [OF core run])
    show "pm_owed x s' + (if mk_collateral_token k = x then out else 0) \<le> pm_owed x s" for x
      by (subst pm_owed_pool_at [OF core 1(5) pm_terms_frame(3) [OF same]]) (use pm_num_market(3) [OF 1(2)] in \<open>simp_all add: 1(13)\<close>)
  qed
qed

lemma pm_inv_add_liquidity:
  assumes inv: "pm_inv balance self w t s" and adm: "pm_adm self e cl" and run: "pm_add_liquidity transfer e a m i c y s = Inr (sh, s')"
  shows "pm_inv balance self w t s'"
  using run
proof (cases rule: pm_add_liquidity_Inr)
  case (1 k p w' col)
  note core = pm_inv_core [OF inv]
  have same: "pm_market s' = pm_market s" by (simp add: 1(11))
  show ?thesis
  proof (rule pm_inv_in [OF inv adm 1(1)])
    show "transfer e (mk_collateral_token k) a (env_self e) c (pm_tokens s) = Some (pm_tokens s')" using 1(10) by (simp add: 1(11))
    show "pm_core s'" by (rule pm_core_add_liquidity [OF core run])
    show "pm_owed x s' \<le> pm_owed x s + (if mk_collateral_token k = x then c else 0)" for x
      by (subst pm_owed_pool_at [OF core 1(5) pm_terms_frame(3) [OF same]]) (use pm_num_market(3) [OF 1(2)] in \<open>simp_all add: 1(11)\<close>)
  qed
qed

lemma pm_inv_remove_liquidity:
  assumes inv: "pm_inv balance self w t s" and adm: "pm_adm self e cl" and run: "pm_remove_liquidity transfer e a m i n s = Inr (cy, s')"
  shows "pm_inv balance self w t s'"
proof -
  obtain c y where cy: "cy = (c, y)" by (cases cy)
  from run [unfolded cy] show ?thesis
  proof (cases rule: pm_remove_liquidity_Inr)
    case (1 k p w' col)
    note core = pm_inv_core [OF inv]
    have same: "pm_market s' = pm_market s" by (simp add: 1(9))
    show ?thesis
    proof (rule pm_inv_out [OF inv adm])
      show "transfer e (mk_collateral_token k) (env_self e) a c (pm_tokens s) = Some (pm_tokens s')" using 1(8) by (simp add: 1(9))
      show "pm_core s'" by (rule pm_core_remove_liquidity [OF core run])
      show "pm_owed x s' + (if mk_collateral_token k = x then c else 0) \<le> pm_owed x s" for x
        by (subst pm_owed_pool_at [OF core 1(4) pm_terms_frame(3) [OF same]]) (use pm_num_market(3) [OF 1(7)] in \<open>simp_all add: 1(9)\<close>)
    qed
  qed
qed

lemma pm_inv_redeem:
  assumes inv: "pm_inv balance self w t s" and adm: "pm_adm self e cl" and run: "pm_redeem_winning_tokens transfer e a m s = Inr (n, s')"
  shows "pm_inv balance self w t s'"
  using run
proof (cases rule: pm_redeem_Inr)
  case (1 k i p w' col)
  note core = pm_inv_core [OF inv]
  have same: "pm_market s' = pm_market s" by (simp add: 1(9))
  show ?thesis
  proof (rule pm_inv_out [OF inv adm])
    show "transfer e (mk_collateral_token k) (env_self e) a n (pm_tokens s) = Some (pm_tokens s')" using 1(8) by (simp add: 1(9))
    show "pm_core s'" by (rule pm_core_redeem [OF core run])
    show "pm_owed x s' + (if mk_collateral_token k = x then n else 0) \<le> pm_owed x s" for x
      by (subst pm_owed_pool_at [OF core 1(6) pm_terms_frame(3) [OF same]]) (use pm_num_market(3) [OF 1(2)] in \<open>simp_all add: 1(9)\<close>)
  qed
qed

lemma pm_inv_place_order:
  assumes inv: "pm_inv balance self w t s" and adm: "pm_adm self e cl" and run: "pm_place_order transfer balance e a m i side pr n s = Inr (j, s')"
  shows "pm_inv balance self w t s'"
  using run
proof (cases rule: pm_place_order_Inr)
  case (1 k q w')
  note core = pm_inv_core [OF inv]
  note core' = pm_core_place_order [OF core run]
  have same: "pm_market s' = pm_market s" by (simp add: 1(12))
  have new: "pm_order s (m, j) = None" unfolding 1(8) by (rule pm_core_orders(4) [OF core])
  have owed: "pm_owed x s' = pm_owed x s + (if mk_collateral_token k = x then pm_locked q else 0)" for x
    using pm_owed_order [OF core pm_terms_frame(3) [OF same], of m j q x] new pm_num_market(3) [OF 1(2)] by (simp add: 1(12))
  show ?thesis
  proof (cases side)
    case SideBuy
    show ?thesis
      by (rule pm_inv_in [OF inv adm 1(1) _ core']) (use 1(10) [OF SideBuy] in \<open>simp add: 1(12)\<close>, simp only: owed order_refl)
  next
    case SideSell
    have "pm_locked q = 0" using SideSell by (simp add: 1(9) pm_locked_def)
    then show ?thesis by (intro pm_inv_still [OF inv _ core']) (use 1(11) [OF SideSell] in \<open>simp add: 1(12)\<close>, simp add: owed)
  qed
qed

lemma pm_inv_cancel_order:
  assumes inv: "pm_inv balance self w t s" and adm: "pm_adm self e cl" and run: "pm_cancel_order transfer e a m j s = Inr (u, s')"
  shows "pm_inv balance self w t s'"
  using run
proof (cases rule: pm_cancel_order_Inr)
  case (1 q w')
  note core = pm_inv_core [OF inv]
  note core' = pm_core_cancel_order [OF core run]
  have ids: "lo_market_id q = m" "lo_order_id q = j" using pm_core_orders(2) [OF core 1(2)] by (simp_all add: pm_order_ok_def)
  have same: "pm_market s' = pm_market s" by (simp add: 1(7))
  have owed: "pm_owed x s' = pm_owed x s - (if pm_token_of s m = Some x then pm_locked q else 0)" for x
    using pm_owed_order [OF core pm_terms_frame(3) [OF same], of m j "q\<lparr>lo_status := OsCancelled\<rparr>" x] 1(2)
    by (simp add: 1(7) ids pm_locked_def [of "q\<lparr>lo_status := OsCancelled\<rparr>"])
  show ?thesis
  proof (cases "0 < pm_locked q")
    case True
    then obtain k where k: "pm_market s m = Some k" "transfer e (mk_collateral_token k) (env_self e) a (pm_locked q) (pm_tokens s) = Some w'"
      using 1(5) by blast
    show ?thesis
      by (rule pm_inv_out [OF inv adm _ core'])
         (use k(2) in \<open>simp add: 1(7)\<close>, simp only: owed pm_num_market(3) [OF k(1)] option.inject diff_add_cancel order_refl)
  next
    case False
    then have "pm_locked q = 0" using pm_locked_nonneg [OF pm_core_orders(2) [OF core 1(2)]] by simp
    then show ?thesis by (intro pm_inv_still [OF inv _ core']) (use 1(6) [OF False] in \<open>simp add: 1(7)\<close>, simp add: owed)
  qed
qed

lemma pm_inv_match_sell:
  assumes inv: "pm_inv balance self w t s" and adm: "pm_adm self e cl" and run: "pm_match_sell_order transfer e a m j s = Inr (rec, s')"
  shows "pm_inv balance self w t s'"
proof (rule pm_match_sell_pass [OF pm_inv_core [OF inv] run])
  fix w'
  assume core': "pm_core s'" and rec: "0 \<le> rec" and tok: "pm_tokens s' = w'"
    and paid: "0 < rec \<Longrightarrow> \<exists>k. pm_market s m = Some k \<and> transfer e (mk_collateral_token k) (env_self e) a rec (pm_tokens s) = Some w'"
    and unpaid: "\<not> 0 < rec \<Longrightarrow> w' = pm_tokens s"
    and owed: "\<And>t. pm_owed t s' + (if pm_token_of s m = Some t then rec else 0) \<le> pm_owed t s"
  show ?thesis
  proof (cases "0 < rec")
    case True
    then obtain k where k: "pm_market s m = Some k" "transfer e (mk_collateral_token k) (env_self e) a rec (pm_tokens s) = Some w'"
      using paid by blast
    show ?thesis
      by (rule pm_inv_out [OF inv adm _ core']) (use k(2) tok in simp, use owed in \<open>simp only: pm_num_market(3) [OF k(1)] option.inject\<close>)
  next
    case False
    have "pm_owed x s' \<le> pm_owed x s" for x using owed [of x] rec by (simp split: if_splits)
    then show ?thesis by (intro pm_inv_still [OF inv _ core']) (use unpaid [OF False] tok in simp_all)
  qed
qed

lemma pm_inv_open_dispute:
  assumes inv: "pm_inv balance self w t s" and adm: "pm_adm self e cl" and run: "pm_open_dispute transfer e a m i x n s = Inr (j, s')"
  shows "pm_inv balance self w t s'"
  using run
proof (cases rule: pm_open_dispute_Inr)
  case (1 k w')
  note core = pm_inv_core [OF inv]
  have new: "pm_dispute s (m, j) = None" unfolding 1(6) by (rule pm_core_disputes(4) [OF core])
  have tok: "pm_token_of s' = pm_token_of s"
    using 1(2) pm_core_id [OF core 1(2)] by (auto simp: fun_eq_iff pm_token_of_def 1(8))
  have owed: "pm_owed y s' = pm_owed y s + (if mk_collateral_token k = y then n else 0)" for y
    using pm_owed_dispute [OF core tok, of m j _ y] new pm_num_market(3) [OF 1(2)] by (simp add: 1(8) pm_stake_def)
  show ?thesis
    by (rule pm_inv_in [OF inv adm 1(1) _ pm_core_open_dispute [OF core run]]) (use 1(7) in \<open>simp add: 1(8)\<close>, simp only: owed order_refl)
qed

lemma pm_inv_vote_dispute:
  assumes inv: "pm_inv bal self w t s" and run: "pm_vote_dispute e a m j yes s = Inr (u, s')"
  shows "pm_inv bal self w t s'"
  using run
proof (cases rule: pm_vote_dispute_Inr)
  case (1 d k n d')
  note core = pm_inv_core [OF inv]
  have ids: "di_market_id d = m" "di_dispute_id d = j" using pm_core_disputes(2) [OF core 1(2)] by (simp_all add: pm_dispute_ok_def)
  have same: "pm_market s' = pm_market s" by (simp add: 1(9))
  have "pm_stake d' = pm_stake d" using 1(3) by (auto simp: 1(8) pm_stake_def)
  then have owed: "pm_owed y s' = pm_owed y s" for y
    using pm_owed_dispute [OF core pm_terms_frame(3) [OF same], of m j d' y] 1(2) by (simp add: 1(9) ids)
  show ?thesis
    by (rule pm_inv_still [OF inv _ pm_core_vote_dispute [OF core run]]) (simp add: 1(9), simp only: owed order_refl)
qed

lemma pm_inv_resolve_dispute:
  assumes inv: "pm_inv balance self w t s" and adm: "pm_adm self e cl" and run: "pm_resolve_dispute transfer e a m j s = Inr (u, s')"
  shows "pm_inv balance self w t s'"
  using run
proof (cases rule: pm_resolve_dispute_Inr)
  case (1 d k w' k' d')
  note core = pm_inv_core [OF inv]
  note core' = pm_core_resolve_dispute [OF core run]
  have ids: "di_market_id d = m" "di_dispute_id d = j" "0 < di_stake_amount d"
    using pm_core_disputes(2) [OF core 1(3)] by (simp_all add: pm_dispute_ok_def)
  have tok: "pm_token_of s' = pm_token_of s"
    using 1(6) pm_core_id [OF core 1(6)] by (auto simp: fun_eq_iff pm_token_of_def 1(11) 1(10))
  have "pm_stake d = di_stake_amount d" using 1(4,5) by (cases "di_status d") (simp_all add: pm_stake_def)
  moreover have "pm_stake d' = 0" by (simp add: pm_stake_def 1(9))
  ultimately have owed: "pm_owed y s' = pm_owed y s - (if mk_collateral_token k = y then di_stake_amount d else 0)" for y
    using pm_owed_dispute [OF core tok, of m j d' y] 1(3) pm_num_market(3) [OF 1(6)] by (simp add: 1(11) ids)
  have pay: ?thesis if "transfer e (mk_collateral_token k) (env_self e) b (di_stake_amount d) (pm_tokens s) = Some w'" for b
    by (rule pm_inv_out [OF inv adm _ core']) (use that in \<open>simp add: 1(11)\<close>, simp only: owed diff_add_cancel order_refl)
  show ?thesis
  proof (cases "pm_upheld d \<or> pm_collector s \<noteq> None")
    case True
    then show ?thesis using 1(7,8) pay by (cases "pm_upheld d") (auto split: option.splits)
  next
    case False
    then show ?thesis
      by (intro pm_inv_still [OF inv _ core']) (use 1(8) in \<open>simp add: 1(11)\<close>, use ids(3) in \<open>simp add: owed\<close>)
  qed
qed

lemma pm_inv_create_market:
  assumes inv: "pm_inv balance self w t s" and adm: "pm_adm self e cl" and run: "pm_create_market transfer e a p s = Inr (m, s')"
  shows "pm_inv balance self w t s'"
  using run
proof (cases rule: pm_create_market_Inr)
  case (1 w' fin)
  note core = pm_inv_core [OF inv]
  note fresh = pm_core_fresh [OF core 1(3)]
  let ?n = "cp_num_outcomes p" and ?x = "cp_initial_liquidity p"
  have tok: "pm_token_of s' j = (if j = m then Some (cp_collateral_token p) else pm_token_of s j)" for j
    by (simp add: pm_token_of_def 1(6) pm_new_market_def)
  have old: "pm_claims y (pm_token_of s') f key v = pm_claims y (pm_token_of s) f key v" if "fst key \<noteq> m" for y f v and key :: "u64 \<times> u64"
    using that by (simp add: pm_claims_def tok)
  have pools: "key_sum (pm_claims y (pm_token_of s') op_collateral_reserve) (pm_pool s') =
      key_sum (pm_claims y (pm_token_of s) op_collateral_reserve) (pm_pool s) + (if cp_collateral_token p = y then ?x * int ?n else 0)" for y
  proof -
    have "(\<Sum>i<?n. pm_claims y (pm_token_of s') op_collateral_reserve (m, i) (pm_seed_pool ?x)) = (if cp_collateral_token p = y then ?x * int ?n else 0)"
      by (simp add: pm_claims_def tok pm_seed_pool_def mult.commute)
    moreover have "key_sum (pm_claims y (pm_token_of s') op_collateral_reserve) (pm_pool s) = key_sum (pm_claims y (pm_token_of s) op_collateral_reserve) (pm_pool s)"
      by (rule key_sum_cong, rule old) (use fresh(3) in auto)
    moreover have "pm_pool s' = pm_seeded m ?n (pm_seed_pool ?x) (pm_pool s)" by (simp add: 1(6))
    ultimately show ?thesis by (simp only: pm_seeded_sum [OF pm_core_pools(1) [OF core] fresh(3)])
  qed
  have orders: "key_sum (pm_claims y (pm_token_of s') pm_locked) (pm_order s') = key_sum (pm_claims y (pm_token_of s) pm_locked) (pm_order s)" for y
  proof -
    have "pm_order s' = pm_order s" by (simp add: 1(6))
    then show ?thesis by (simp only:) (rule key_sum_cong, rule old, use fresh(4) in auto)
  qed
  have disputes: "key_sum (pm_claims y (pm_token_of s') pm_stake) (pm_dispute s') = key_sum (pm_claims y (pm_token_of s) pm_stake) (pm_dispute s)" for y
  proof -
    have "pm_dispute s' = pm_dispute s" by (simp add: 1(6))
    then show ?thesis by (simp only:) (rule key_sum_cong, rule old, use fresh(5) in auto)
  qed
  have owed: "pm_owed y s' = pm_owed y s + (if cp_collateral_token p = y then ?x * int ?n else 0)" for y
    by (simp only: pm_owed_def pools orders disputes)
  show ?thesis
    by (rule pm_inv_in [OF inv adm 1(1) _ pm_core_create_market [OF core run]]) (use 1(5) in \<open>simp add: 1(6)\<close>, simp only: owed order_refl)
qed

end

lemma pm_inv_restatus:
  assumes inv: "pm_inv bal self w t s" and core: "pm_core s'" and k: "pm_market s m = Some k"
    and s': "s' = s\<lparr>pm_market := (pm_market s)(m \<mapsto> k\<lparr>mk_status := st, mk_resolved_outcome := r\<rparr>)\<rparr>"
  shows "pm_inv bal self w t s'"
proof -
  have "pm_market s' = (pm_market s)(m \<mapsto> k\<lparr>mk_status := st, mk_resolved_outcome := r\<rparr>)" by (simp add: s')
  then have tok: "pm_token_of s' = pm_token_of s" by (rule pm_terms_restatus(3) [OF k])
  have "pm_owed x s' = pm_owed x s" for x by (rule pm_owed_frame [OF tok]) (simp_all add: s')
  then show ?thesis by (intro pm_inv_still [OF inv _ core]) (simp_all add: s')
qed

lemma pm_inv_status:
  assumes inv: "pm_inv bal self w t s"
  shows "pm_resolve_market e a m i s = Inr (u, s') \<Longrightarrow> pm_inv bal self w t s'" and "pm_close_market_early e a m s = Inr (u, s') \<Longrightarrow> pm_inv bal self w t s'"
proof -
  note core = pm_inv_core [OF inv]
  {
    assume run: "pm_resolve_market e a m i s = Inr (u, s')"
    then show "pm_inv bal self w t s'"
    proof (cases rule: pm_resolve_market_Inr)
      case (1 k)
      show ?thesis
        by (rule pm_inv_restatus [OF inv pm_core_resolve_market [OF core run] 1(2), where st = MsResolved and r = "Some i"])
           (use 1(7) pm_core_id [OF core 1(2)] in simp)
    qed
  next
    assume run: "pm_close_market_early e a m s = Inr (u, s')"
    then show "pm_inv bal self w t s'"
    proof (cases rule: pm_close_Inr)
      case (1 k)
      have "k\<lparr>mk_status := MsClosed, mk_resolved_outcome := mk_resolved_outcome k\<rparr> = k\<lparr>mk_status := MsClosed\<rparr>" by (cases k) simp
      then show ?thesis
        by (intro pm_inv_restatus [OF inv pm_core_close [OF core run] 1(2), where st = MsClosed and r = "mk_resolved_outcome k"])
           (use 1(5) pm_core_id [OF core 1(2)] in simp)
    qed
  }
qed

lemma pm_inv_config:
  assumes inv: "pm_inv bal self w t s"
    and s': "s' = s\<lparr>pm_paused := b, pm_admin := a, pm_collector := c, pm_fee_share_bps := f, pm_oracle_address := x, pm_tokens := w'\<rparr>"
    and bal: "\<And>y. bal (pm_tokens s) y self \<le> bal w' y self"
  shows "pm_inv bal self w t s'"
proof -
  have "pm_market s' = pm_market s" by (simp add: s')
  then have "pm_token_of s' = pm_token_of s" by (rule pm_terms_frame)
  then have "pm_owed y s' = pm_owed y s" for y by (rule pm_owed_frame) (simp_all add: s')
  moreover have "bal w y self + pm_owed y s \<le> bal w' y self" for y
    using inv bal [of y] by (auto simp: pm_inv_def intro: order_trans)
  ultimately show ?thesis using pm_core_config [OF pm_inv_core [OF inv] s'] by (simp add: pm_inv_def) (simp add: s')
qed

lemma pm_config_run:
  assumes "pm_admin_pause_trading e a s = Inr (u, s') \<or> pm_admin_resume_trading e a s = Inr (u, s') \<or> pm_admin_set_admin e a d s = Inr (u, s') \<or>
      pm_admin_set_fee_config e a d n s = Inr (u, s') \<or> pm_admin_set_oracle e a d s = Inr (u, s')"
  shows "s' = s\<lparr>pm_paused := pm_paused s', pm_admin := pm_admin s', pm_collector := pm_collector s', pm_fee_share_bps := pm_fee_share_bps s',
      pm_oracle_address := pm_oracle_address s', pm_tokens := pm_tokens s\<rparr>"
  using assms
  by (elim disjE)
     (auto simp: pm_admin_pause_trading_def pm_admin_resume_trading_def pm_admin_set_admin_def pm_admin_set_fee_config_def pm_admin_set_oracle_def result_iffs)

lemma pm_inv_admin:
  assumes inv: "pm_inv bal self w t s"
  shows "pm_admin_pause_trading e a s = Inr (u, s') \<Longrightarrow> pm_inv bal self w t s'" "pm_admin_resume_trading e a s = Inr (u, s') \<Longrightarrow> pm_inv bal self w t s'"
    "pm_admin_set_admin e a d s = Inr (u, s') \<Longrightarrow> pm_inv bal self w t s'" "pm_admin_set_fee_config e a d n s = Inr (u, s') \<Longrightarrow> pm_inv bal self w t s'"
    "pm_admin_set_oracle e a d s = Inr (u, s') \<Longrightarrow> pm_inv bal self w t s'"
proof -
  have "pm_inv bal self w t s'"
    if "pm_admin_pause_trading e a s = Inr (u, s') \<or> pm_admin_resume_trading e a s = Inr (u, s') \<or> pm_admin_set_admin e a d s = Inr (u, s') \<or>
      pm_admin_set_fee_config e a d n s = Inr (u, s') \<or> pm_admin_set_oracle e a d s = Inr (u, s')"
    by (rule pm_inv_config [OF inv pm_config_run [OF that]]) simp
  then show "pm_admin_pause_trading e a s = Inr (u, s') \<Longrightarrow> pm_inv bal self w t s'" "pm_admin_resume_trading e a s = Inr (u, s') \<Longrightarrow> pm_inv bal self w t s'"
    "pm_admin_set_admin e a d s = Inr (u, s') \<Longrightarrow> pm_inv bal self w t s'" "pm_admin_set_fee_config e a d n s = Inr (u, s') \<Longrightarrow> pm_inv bal self w t s'"
    "pm_admin_set_oracle e a d s = Inr (u, s') \<Longrightarrow> pm_inv bal self w t s'" by blast+
qed

text \<open>Initialising a contract without markets.\<close>

lemma pm_inv_initialize:
  assumes inv: "pm_inv bal self w t s" and early: "pm_get_market_counter s = 0" and run: "pm_initialize e a d s = Inr (u, s')"
  shows "pm_inv bal self w t s'"
proof -
  have s': "s' = s\<lparr>pm_admin := Some a, pm_oracle_address := Some d, pm_market_counter := Some 0, pm_paused := Some False\<rparr>"
    using run by (auto simp: pm_initialize_def result_iffs)
  have same: "pm_market s' = pm_market s" by (simp add: s')
  note terms = pm_terms_frame [OF same]
  have count: "pm_get_market_counter s' = pm_get_market_counter s" using early by (simp add: s' pm_get_market_counter_def)
  have "pm_core s'"
    by (rule pm_coreI; rule pm_frames [OF pm_inv_core [OF inv]]; (rule count | erule terms | rule terms | simp add: s'))
  moreover have "pm_owed y s' = pm_owed y s" for y by (rule pm_owed_frame [OF pm_terms_frame(3) [OF same]]) (simp_all add: s')
  ultimately show ?thesis using inv by (simp add: pm_inv_def) (simp add: s')
qed

context token_contract
begin

lemma pm_inv_call:
  assumes inv: "pm_inv balance self w t s" and adm: "pm_adm self e c" and run: "pm_timely transfer balance e c s = Some s'"
  shows "pm_inv balance self w t s'"
proof -
  have run: "pm_exec transfer balance e c s = Some s'" and early: "\<not> pm_late c s" using run by (simp_all add: pm_timely_Some)
  have init: "pm_inv balance self w t s'" if "c = PmInitialize a d" "pm_initialize e a d s = Inr (u, s')" for a d u
    using pm_inv_initialize [OF inv _ that(2)] early that(1) by (simp add: pm_late_def)
  from run show ?thesis
    by (cases c)
       (simp_all only: pm_exec.simps state_of_eq_Some,
        (elim exE, (erule pm_inv_create_market [OF inv adm] pm_inv_status [OF inv] pm_inv_buy [OF inv adm] pm_inv_sell [OF inv adm]
          pm_inv_add_liquidity [OF inv adm] pm_inv_remove_liquidity [OF inv adm] pm_inv_place_order [OF inv adm] pm_inv_cancel_order [OF inv adm]
          pm_inv_match_sell [OF inv adm] pm_inv_redeem [OF inv adm] pm_inv_open_dispute [OF inv adm] pm_inv_vote_dispute [OF inv]
          pm_inv_resolve_dispute [OF inv adm] pm_inv_admin [OF inv] | (rule init, assumption, assumption)))+)
qed

end

sublocale token_contract \<subseteq> pmm: contract_machine "pm_timely transfer balance" "pm_adm self" "pm_drift balance self"
  "pm_inv balance self w" "pm_fresh w" for self w
proof unfold_locales
  show "pm_inv balance self w 0 (pm_fresh w)"
    by (simp add: pm_inv_def pm_core_deployed) (simp add: pm_fresh_def)
next
  fix t s s'
  assume inv: "pm_inv balance self w t s" and "pm_drift balance self s s'"
  then obtain x where x: "s' = s\<lparr>pm_tokens := x\<rparr>" "\<And>tok. balance (pm_tokens s) tok self \<le> balance x tok self"
    by (auto simp: pm_drift_def)
  have "s' = s\<lparr>pm_paused := pm_paused s, pm_admin := pm_admin s, pm_collector := pm_collector s, pm_fee_share_bps := pm_fee_share_bps s,
      pm_oracle_address := pm_oracle_address s, pm_tokens := x\<rparr>" by (cases s) (simp add: x(1))
  then show "pm_inv balance self w t s'" by (rule pm_inv_config [OF inv _ x(2)])
next
  fix e c s s'
  assume "pm_inv balance self w (env_timestamp e) s" and "pm_adm self e c" and "pm_timely transfer balance e c s = Some s'"
  then show "pm_inv balance self w (env_timestamp e) s'" by (rule pm_inv_call)
qed (simp add: pm_inv_def)

context token_contract
begin

lemma pm_reach_inv:
  "reach (pm_timely transfer balance) (pm_adm self) (pm_drift balance self) (pm_fresh w) t s \<Longrightarrow> pm_inv balance self w t s"
  by (rule pmm.reach_inv)

lemma pm_reach_core:
  "reach (pm_timely transfer balance) (pm_adm self) (pm_drift balance self) (pm_fresh w) t s \<Longrightarrow> pm_core s"
  by (rule pm_inv_core [OF pm_reach_inv])

end

end
