(* ===== verification/Prediction_Markets.thy ===== *)
theory Prediction_Markets
  imports Prediction_Books
begin

text \<open>
  The properties of the prediction markets over the transition system of Prediction_Books, each with a
  run of the contract on the test token, and the runs behind the findings.
\<close>

section \<open>A sample run\<close>

definition pm_env :: "u64 \<Rightarrow> env" where
  "pm_env t = \<lparr>env_timestamp = t, env_auth = (\<lambda>a. a \<noteq> Addr 0), env_self = Addr 0, env_sequence = 0\<rparr>"

definition pm_world :: mock_world where
  "pm_world tok = (if tok = Addr 2 then [Addr 7 \<mapsto> 1000000, Addr 8 \<mapsto> 1000000, Addr 9 \<mapsto> 1000000] else (\<lambda>_. None))"

definition pm_params :: "i128 \<Rightarrow> u32 \<Rightarrow> create_market_params" where
  "pm_params liquidity fee =
     \<lparr>cp_question = ''Q'', cp_category = McCrypto, cp_collateral_token = Addr 2, cp_oracle_source = Addr 6, cp_num_outcomes = 2,
      cp_outcome_names = [''Y'', ''N''], cp_resolution_window_duration = 1000, cp_max_outcome_supply = 100000,
      cp_trading_fee_bps = fee, cp_initial_liquidity = liquidity\<rparr>"

abbreviation pm_mock :: "env \<Rightarrow> pm_call \<Rightarrow> mock_world pm_state \<Rightarrow> mock_world pm_state option" where
  "pm_mock \<equiv> pm_timely mock_world_transfer mock_world_balance"

abbreviation pm_sample_reach :: "u64 \<Rightarrow> mock_world pm_state \<Rightarrow> bool" where
  "pm_sample_reach \<equiv> reach pm_mock (pm_adm (Addr 0)) (pm_drift mock_world_balance (Addr 0)) (pm_fresh pm_world)"

text \<open>What is unfolded to evaluate a call on the test token.\<close>

lemmas pm_eval = pm_storage_defs pm_transfer_def call_token_def mock_world_transfer_def mock_transfer_def mock_world_balance_def mock_balance_def
  require_auth_def pm_env_def pm_assert_trading_active_def pm_assert_market_active_def pm_check_outcome_index_def pm_assert_admin_def
  pm_add_def pm_sub_def pm_mul_def pm_div_def arith_defs div_i128_nonneg Let_def

lemma isqrt_of_square: "0 \<le> x \<Longrightarrow> x * x < i128_max \<Longrightarrow> isqrt (x * x) = Inr x"
  using isqrt_floor [of "x * x"] isqrt_square [of x] by auto

text \<open>The contract after \<open>initialize\<close>.\<close>

definition pm_ready :: "mock_world \<Rightarrow> mock_world pm_state" where
  "pm_ready w = (pm_fresh w)\<lparr>pm_admin := Some (Addr 5), pm_oracle_address := Some (Addr 6), pm_market_counter := Some 0, pm_paused := Some False\<rparr>"

lemma pm_ready_reach: "pm_sample_reach 100 (pm_ready pm_world)"
proof -
  have "pm_sample_reach 100 (pm_fresh pm_world)" by (rule reach_tick [OF reach_start]) simp
  then show ?thesis
    by (rule reach_call [where e = "pm_env 100" and c = "PmInitialize (Addr 5) (Addr 6)"])
       (simp_all add: pm_timely_Some pm_late_def pm_initialize_def require_auth_def pm_ready_def pm_adm_def pm_env_def pm_fresh_def pm_get_market_counter_def)
qed

lemma pm_sample_call:
  assumes "pm_sample_reach t s" and "t \<le> t'" and "pm_exec mock_world_transfer mock_world_balance (pm_env t') c s = Some s'" and "\<not> pm_late c s"
  shows "pm_sample_reach t' s'"
  by (rule reach_call [where e = "pm_env t'" and c = c, OF reach_tick [OF assms(1,2)]])
     (use assms(3,4) in \<open>simp_all add: pm_timely_Some\<close>, simp_all add: pm_env_def pm_adm_def)

text \<open>A market with two outcomes right after its creation.\<close>

definition pm_opened :: "i128 \<Rightarrow> u32 \<Rightarrow> mock_world pm_state" where
  "pm_opened x fee = (pm_ready (pm_world(Addr 2 := (pm_world (Addr 2))(Addr 7 \<mapsto> 1000000 - x * 2, Addr 0 \<mapsto> x * 2))))
     \<lparr>pm_market := [0 \<mapsto> pm_new_market 0 100 1100 (Addr 7) (pm_params x fee)], pm_market_counter := Some 1,
      pm_pool := [(0, 0) \<mapsto> pm_seed_pool x, (0, 1) \<mapsto> pm_seed_pool x], pm_supply := [(0, 0) \<mapsto> 0, (0, 1) \<mapsto> 0],
      pm_collateral := [0 \<mapsto> x * 2], pm_lp_total := [0 \<mapsto> x * 2]\<rparr>"

lemma pm_opened_run:
  assumes "0 < x" and "x \<le> 100000" and "fee \<le> 500"
  shows "pm_create_market mock_world_transfer (pm_env 100) (Addr 7) (pm_params x fee) (pm_ready pm_world) = Inr (0, pm_opened x fee)"
proof -
  have sq: "x * x \<le> 100000 * 100000" using assms by (intro mult_mono) auto
  then have root: "pm_isqrt (x * x) = Inr x"
    using isqrt_of_square [of x] assms by (simp add: pm_root_Inr i128_max_def)
  have fits: "in_i128 (x * x)" "in_i128 (x * 2)" using sq zero_le_square [of x] assms unfolding in_i128_def i128_min_def i128_max_def by linarith+
  have mul: "pm_mul x x = Inr (x * x)" "pm_mul x 2 = Inr (x * 2)" using fits by (simp_all add: pm_mul_def checked_mul_i128_def narrow_i128_def)
  have check: "pm_check_params (pm_params x fee) = Inr ()"
    using assms by (simp add: pm_check_params_Inr pm_params_def MAX_OUTCOMES_def MAX_TRADING_FEE_BPS_def MIN_RESOLUTION_WINDOW_def MAX_RESOLUTION_WINDOW_def)
  have seed: "[0..<2::nat] = [0, 1]" by (simp add: upt_rec)
  have pay: "mock_world_transfer (pm_env 100) (Addr 2) (Addr 7) (Addr 0) (x * 2) pm_world =
      Some (pm_world(Addr 2 := (pm_world (Addr 2))(Addr 7 \<mapsto> 1000000 - x * 2, Addr 0 \<mapsto> x * 2)))"
    using assms fits by (simp add: mock_world_transfer_def mock_transfer_def pm_env_def pm_world_def checked_add_i128_def narrow_i128_def)
  show ?thesis
    unfolding pm_create_market_def pm_opened_def Let_def check and_then_Inr
    by (simp add: pm_params_def pm_env_def require_auth_def pm_transfer_def call_token_def pm_storage_defs mul root seed pay [unfolded pm_env_def]
        checked_add_u64_def u64_max_def pm_ready_def pm_fresh_def pm_seed_pool_def pm_new_market_def)
qed

lemma pm_opened_reach: "0 < x \<Longrightarrow> x \<le> 100000 \<Longrightarrow> fee \<le> 500 \<Longrightarrow> pm_sample_reach 100 (pm_opened x fee)"
proof -
  assume "0 < x" "x \<le> 100000" "fee \<le> 500"
  note run = pm_opened_run [OF this]
  show ?thesis
    by (rule pm_sample_call [OF pm_ready_reach, where c = "PmCreateMarket (Addr 7) (pm_params x fee)"]) (simp_all add: run pm_late_def)
qed

text \<open>The market after a purchase of its first outcome at a fee of 30 basis points.\<close>

definition pm_demo :: "mock_world pm_state" where
  "pm_demo = (pm_opened 10000 30)
     \<lparr>pm_tokens := pm_world(Addr 2 := (pm_world (Addr 2))(Addr 7 \<mapsto> 980000, Addr 0 \<mapsto> 20000, Addr 8 \<mapsto> 999000, Addr 0 \<mapsto> 21000)),
      pm_pool := [(0, 0) \<mapsto> \<lparr>op_collateral_reserve = 10997, op_outcome_reserve = 9094, op_lp_total_supply = 10000\<rparr>, (0, 1) \<mapsto> pm_seed_pool 10000],
      pm_balance := [(0, 0, Addr 8) \<mapsto> 906], pm_supply := [(0, 0) \<mapsto> 906, (0, 1) \<mapsto> 0],
      pm_position := [(0, 0, Addr 8) \<mapsto> \<lparr>up_market_id = 0, up_outcome_index = 0, up_owner = Addr 8, up_quantity = 906,
        up_avg_entry_price = 1103752759381898454, up_realized_pnl = 0, up_created_at = 200, up_updated_at = 200\<rparr>],
      pm_collateral := [0 \<mapsto> 21000]\<rparr>"

lemma pm_demo_run: "pm_buy_outcome mock_world_transfer (pm_env 200) (Addr 8) 0 0 1000 900 (pm_opened 10000 30) = Inr (906, pm_demo)"
  unfolding pm_buy_outcome_def pm_calculate_buy_amount_def pm_update_position_def pm_opened_def pm_demo_def
  by (simp add: pm_eval pm_ready_def pm_fresh_def pm_new_market_def pm_params_def pm_seed_pool_def DECIMAL_FACTOR_def pm_world_def fun_upd_twist)

lemma pm_demo_reach: "pm_sample_reach 200 pm_demo"
proof -
  have "pm_sample_reach 100 (pm_opened 10000 30)" by (rule pm_opened_reach) simp_all
  then show ?thesis
    by (rule pm_sample_call [where c = "PmBuyOutcome (Addr 8) 0 0 1000 900"]) (simp_all add: pm_demo_run pm_late_def)
qed

text \<open>The same market after the oracle has named the first outcome.\<close>

definition pm_demo_market :: prediction_market where
  "pm_demo_market = (pm_new_market 0 100 1100 (Addr 7) (pm_params 10000 30))\<lparr>mk_status := MsResolved, mk_resolved_outcome := Some 0\<rparr>"

definition pm_demo_resolved :: "mock_world pm_state" where
  "pm_demo_resolved = pm_demo\<lparr>pm_market := [0 \<mapsto> pm_demo_market]\<rparr>"

lemma pm_demo_resolved_run: "pm_resolve_market (pm_env 2000) (Addr 6) 0 0 pm_demo = Inr ((), pm_demo_resolved)"
  unfolding pm_demo_def pm_demo_resolved_def pm_opened_def
  by (simp add: pm_resolve_market_def pm_eval pm_new_market_def pm_params_def pm_demo_market_def)

lemma pm_demo_resolved_reach: "pm_sample_reach 2000 pm_demo_resolved"
  by (rule pm_sample_call [OF pm_demo_reach, where c = "PmResolveMarket (Addr 6) 0 0"]) (simp_all add: pm_demo_resolved_run pm_late_def)

section \<open>Solvency\<close>

text \<open>
  C15. The books are backed. In every run from the fresh deployment in which \<open>initialize\<close> does not come after
  the first market, on a token that follows the token interface, the contract holds of every collateral
  token at least its initial balance plus the reserves of all pools of that token, the collateral locked in open buy orders and the stakes of unresolved disputes.
\<close>

theorem pm_books_backed:
  assumes "token_contract tr bal"
    and "reach (pm_timely tr bal) (pm_adm self) (pm_drift bal self) (pm_fresh w) t s"
  shows "bal w tok self + pm_owed tok s \<le> bal (pm_tokens s) tok self"
  using token_contract.pm_reach_inv [OF assms] by (simp add: pm_inv_def)

theorem pm_books_backed_witness: "pm_owed (Addr 2) pm_demo \<le> 21000"
proof -
  have "mock_world_balance pm_world (Addr 2) (Addr 0) + pm_owed (Addr 2) pm_demo \<le> mock_world_balance (pm_tokens pm_demo) (Addr 2) (Addr 0)"
    by (rule pm_books_backed [OF mock.token_contract_axioms pm_demo_reach])
  then show ?thesis by (simp add: mock_world_balance_def mock_balance_def pm_world_def pm_demo_def)
qed

section \<open>Trades\<close>

text \<open>
  C17. Trades never lower the product of the reserves. In every run from the fresh deployment in which
  \<open>initialize\<close> does not come after the first market, a purchase, and a sale in a market that charges a fee,
  leaves both reserves positive and their product at least as large as before; a purchase also keeps the
  recorded supply within the cap of the market.
\<close>

theorem pm_trades_keep_product:
  assumes "token_contract tr bal"
    and "reach (pm_timely tr bal) (pm_adm self) (pm_drift bal self) (pm_fresh w) t s"
    and "pm_market s m = Some k" and "pm_pool s (m, i) = Some p"
    and "pm_buy_outcome tr e a m i c lim s = Inr (out, s') \<or>
      (0 < mk_trading_fee_bps k \<and> pm_sell_outcome tr e a m i n lim s = Inr (out, s'))"
  shows "\<exists>p'. pm_pool s' (m, i) = Some p' \<and> 0 < op_collateral_reserve p' \<and> 0 < op_outcome_reserve p' \<and>
    op_collateral_reserve p * op_outcome_reserve p \<le> op_collateral_reserve p' * op_outcome_reserve p' \<and>
    pm_get_total_outcome_supply m i s' \<le> mk_max_outcome_supply k"
proof -
  have core: "pm_core s" by (rule token_contract.pm_reach_core [OF assms(1,2)])
  have fee: "mk_trading_fee_bps k \<le> 10000" using pm_core_market [OF core assms(3)] by (simp add: pm_market_ok_def MAX_TRADING_FEE_BPS_def)
  from assms(5) show ?thesis
  proof
    assume "pm_buy_outcome tr e a m i c lim s = Inr (out, s')"
    then show ?thesis
    proof (cases rule: pm_buy_Inr)
      case (1 k1 p1 w1 b n1 pos col)
      have same: "k1 = k" "p1 = p" using 1(2,5) assms(3,4) by simp_all
      note q = pm_buy_quote [OF 1(7) [unfolded same] 1(8) fee] and kp = pm_buy_keeps_product [OF 1(7) [unfolded same] 1(8) fee]
      have net: "div_i128 (c * (10000 - int (mk_trading_fee_bps k))) 10000 = after_fee c (mk_trading_fee_bps k)"
        using q(1) fee by (simp add: div_i128_nonneg after_fee_def)
      show ?thesis using q kp 1(10) by (simp add: 1(15) 1(14) same net pm_get_total_outcome_supply_def)
    qed
  next
    assume "0 < mk_trading_fee_bps k \<and> pm_sell_outcome tr e a m i n lim s = Inr (out, s')"
    then have f: "0 < mk_trading_fee_bps k" and run: "pm_sell_outcome tr e a m i n lim s = Inr (out, s')" by simp_all
    from run show ?thesis
    proof (cases rule: pm_sell_Inr)
      case (1 k1 p1 w1 pos col)
      have same: "k1 = k" "p1 = p" using 1(2,5) assms(3,4) by simp_all
      note kp = pm_sell_keeps_product [OF 1(9) [unfolded same] 1(10) f fee] and q = pm_sell_quote [OF 1(9) [unfolded same] 1(10) fee]
      have "pm_get_total_outcome_supply m i s \<le> mk_max_outcome_supply k"
        using pm_core_supply [OF core, of m i] by (simp add: pm_num_market(2) [OF assms(3)])
      then show ?thesis using kp q by (simp add: 1(13) same pm_get_total_outcome_supply_def)
    qed
  qed
qed

theorem pm_trades_keep_product_witness:
  "\<exists>p'. pm_pool pm_demo (0, 0) = Some p' \<and> 0 < op_collateral_reserve p' \<and> 0 < op_outcome_reserve p' \<and>
    10000 * 10000 \<le> op_collateral_reserve p' * op_outcome_reserve p' \<and> pm_get_total_outcome_supply 0 0 pm_demo \<le> 100000"
proof -
  have reach: "pm_sample_reach 100 (pm_opened 10000 30)" by (rule pm_opened_reach) simp_all
  have mk: "pm_market (pm_opened 10000 30) 0 = Some (pm_new_market 0 100 1100 (Addr 7) (pm_params 10000 30))"
    and pool: "pm_pool (pm_opened 10000 30) (0, 0) = Some (pm_seed_pool 10000)" by (simp_all add: pm_opened_def)
  show ?thesis
    using pm_trades_keep_product [OF mock.token_contract_axioms reach mk pool disjI1 [OF pm_demo_run]]
    by (simp add: pm_seed_pool_def pm_new_market_def pm_params_def)
qed

text \<open>
  Buying and selling back is no profit. A trader who buys an outcome and at once sells everything bought
  receives at most what was paid, at any fee the contract allows.
\<close>

theorem pm_round_trip_no_profit:
  assumes "token_contract tr bal"
    and "reach (pm_timely tr bal) (pm_adm self) (pm_drift bal self) (pm_fresh w) t s"
    and "pm_buy_outcome tr e a m i c lim s = Inr (out, s1)" and "pm_sell_outcome tr e' a m i out lim' s1 = Inr (back, s2)"
  shows "back \<le> c"
  using assms(3)
proof (cases rule: pm_buy_Inr)
  case (1 k p w1 b n pos col)
  have core: "pm_core s" by (rule token_contract.pm_reach_core [OF assms(1,2)])
  have fee: "mk_trading_fee_bps k \<le> 10000" using pm_core_market [OF core 1(2)] by (simp add: pm_market_ok_def MAX_TRADING_FEE_BPS_def)
  let ?x = "op_collateral_reserve p" and ?y = "op_outcome_reserve p" and ?net = "after_fee c (mk_trading_fee_bps k)"
  note q = pm_buy_quote [OF 1(7,8) fee] and kp = pm_buy_keeps_product [OF 1(7,8) fee]
  have net: "div_i128 (c * (10000 - int (mk_trading_fee_bps k))) 10000 = ?net" using q(1) fee by (simp add: div_i128_nonneg after_fee_def)
  have "pm_calculate_sell_amount out (?x + ?net) (?y - out) (mk_trading_fee_bps k) = Inr back \<and> 0 < back"
    using assms(4)
  proof (cases rule: pm_sell_Inr)
    case sell: (1 k2 p2 w2 pos2 col2)
    have "k2 = k" using sell(2) 1(2) by (simp add: 1(15))
    moreover have "p2 = p\<lparr>op_collateral_reserve := ?x + ?net, op_outcome_reserve := ?y - out\<rparr>" using sell(5) by (simp add: 1(15) net)
    ultimately show ?thesis using sell(9,10) by simp
  qed
  then have "back \<le> (?x + ?net) - (?x + ?net) * (?y - out) div (?y - out + out)" by (intro pm_sell_bounded(1) [OF _ _ fee]) simp_all
  moreover have "?x \<le> (?x + ?net) * (?y - out) div (?y - out + out)"
    using kp(1) q(3) by (simp add: div_greatest)
  ultimately show ?thesis using kp(3) by linarith
qed

theorem pm_round_trip_no_profit_witness:
  "\<exists>back s2. pm_sell_outcome mock_world_transfer (pm_env 300) (Addr 8) 0 0 906 0 pm_demo = Inr (back, s2) \<and> back \<le> 1000"
proof -
  have "\<exists>s2. pm_sell_outcome mock_world_transfer (pm_env 300) (Addr 8) 0 0 906 0 pm_demo = Inr (994, s2)"
    unfolding pm_demo_def pm_opened_def
    by (simp add: pm_sell_outcome_def pm_calculate_sell_amount_def pm_update_position_on_sell_def pm_sold_position_def pm_eval
        pm_new_market_def pm_params_def DECIMAL_FACTOR_def pm_ready_def pm_fresh_def)
  then obtain s2 where run: "pm_sell_outcome mock_world_transfer (pm_env 300) (Addr 8) 0 0 906 0 pm_demo = Inr (994, s2)" ..
  have reach: "pm_sample_reach 100 (pm_opened 10000 30)" by (rule pm_opened_reach) simp_all
  from pm_round_trip_no_profit [OF mock.token_contract_axioms reach pm_demo_run run] run show ?thesis by blast
qed

section \<open>What calls leave alone\<close>

lemma pm_admin_calls_frame:
  "pm_admin_pause_trading e a s = Inr (u, s') \<Longrightarrow> pm_market s' = pm_market s \<and> pm_lp s' = pm_lp s \<and> pm_lp_total s' = pm_lp_total s"
  "pm_admin_resume_trading e a s = Inr (u, s') \<Longrightarrow> pm_market s' = pm_market s \<and> pm_lp s' = pm_lp s \<and> pm_lp_total s' = pm_lp_total s"
  "pm_admin_set_admin e a d s = Inr (u, s') \<Longrightarrow> pm_market s' = pm_market s \<and> pm_lp s' = pm_lp s \<and> pm_lp_total s' = pm_lp_total s"
  "pm_admin_set_fee_config e a d n s = Inr (u, s') \<Longrightarrow> pm_market s' = pm_market s \<and> pm_lp s' = pm_lp s \<and> pm_lp_total s' = pm_lp_total s"
  "pm_admin_set_oracle e a d s = Inr (u, s') \<Longrightarrow> pm_market s' = pm_market s \<and> pm_lp s' = pm_lp s \<and> pm_lp_total s' = pm_lp_total s"
  "pm_initialize e a d s = Inr (u, s') \<Longrightarrow> pm_market s' = pm_market s \<and> pm_lp s' = pm_lp s \<and> pm_lp_total s' = pm_lp_total s"
  by (auto simp: pm_admin_pause_trading_def pm_admin_resume_trading_def pm_admin_set_admin_def pm_admin_set_fee_config_def
      pm_admin_set_oracle_def pm_initialize_def result_iffs)

lemma pm_trade_calls_frame:
  "pm_buy_outcome tr e a m i c lim s = Inr (out, s') \<Longrightarrow> pm_market s' = pm_market s \<and> pm_lp s' = pm_lp s \<and> pm_lp_total s' = pm_lp_total s"
  "pm_sell_outcome tr e a m i n lim s = Inr (out, s') \<Longrightarrow> pm_market s' = pm_market s \<and> pm_lp s' = pm_lp s \<and> pm_lp_total s' = pm_lp_total s"
  "pm_place_order tr bal e a m i side pr n s = Inr (j, s') \<Longrightarrow> pm_market s' = pm_market s \<and> pm_lp s' = pm_lp s \<and> pm_lp_total s' = pm_lp_total s"
  "pm_cancel_order tr e a m j s = Inr (u, s') \<Longrightarrow> pm_market s' = pm_market s \<and> pm_lp s' = pm_lp s \<and> pm_lp_total s' = pm_lp_total s"
  "pm_redeem_winning_tokens tr e a m s = Inr (out, s') \<Longrightarrow> pm_market s' = pm_market s \<and> pm_lp s' = pm_lp s \<and> pm_lp_total s' = pm_lp_total s"
  "pm_vote_dispute e a m j yes s = Inr (u, s') \<Longrightarrow> pm_market s' = pm_market s \<and> pm_lp s' = pm_lp s \<and> pm_lp_total s' = pm_lp_total s"
  by (erule pm_buy_Inr pm_sell_Inr pm_place_order_Inr pm_cancel_order_Inr pm_redeem_Inr pm_vote_dispute_Inr; simp)+

lemma pm_match_frame:
  "pm_core s \<Longrightarrow> pm_match_sell_order tr e a m j s = Inr (n, s') \<Longrightarrow> pm_market s' = pm_market s \<and> pm_lp s' = pm_lp s \<and> pm_lp_total s' = pm_lp_total s"
  by (erule (1) pm_match_sell_pass) simp

lemma pm_status_calls_frame:
  "pm_resolve_market e a m i s = Inr (u, s') \<Longrightarrow> pm_lp s' = pm_lp s \<and> pm_lp_total s' = pm_lp_total s"
  "pm_close_market_early e a m s = Inr (u, s') \<Longrightarrow> pm_lp s' = pm_lp s \<and> pm_lp_total s' = pm_lp_total s"
  "pm_open_dispute tr e a m i x n s = Inr (j, s') \<Longrightarrow> pm_lp s' = pm_lp s \<and> pm_lp_total s' = pm_lp_total s"
  "pm_resolve_dispute tr e a m j s = Inr (u, s') \<Longrightarrow> pm_lp s' = pm_lp s \<and> pm_lp_total s' = pm_lp_total s"
  by (erule pm_resolve_market_Inr pm_close_Inr pm_open_dispute_Inr pm_resolve_dispute_Inr; simp)+

lemma pm_liquidity_calls_frame:
  "pm_add_liquidity tr e a m i c y s = Inr (sh, s') \<Longrightarrow> pm_market s' = pm_market s"
  "pm_remove_liquidity tr e a m i n s = Inr (cy, s') \<Longrightarrow> pm_market s' = pm_market s"
  by (erule pm_add_liquidity_Inr, simp) (cases cy; hypsubst; erule pm_remove_liquidity_Inr; simp)

section \<open>Liquidity shares\<close>

definition pm_shares_in :: "u64 \<Rightarrow> u64 \<times> address \<Rightarrow> i128 \<Rightarrow> i128" where
  "pm_shares_in m key n = (if fst key = m then n else 0)"

text \<open>The part of the recorded supply of a market's shares that no provider holds.\<close>

definition pm_unowned :: "u64 \<Rightarrow> 'w pm_state \<Rightarrow> i128" where
  "pm_unowned m s = pm_get_lp_total_supply m s - key_sum (pm_shares_in m) (pm_lp s)"

lemma pm_shares_put:
  assumes "pm_core s" and "0 \<le> n"
  shows "key_sum (pm_shares_in m') (pm_put (m, a) n (pm_lp s)) =
    key_sum (pm_shares_in m') (pm_lp s) + (if m' = m then n - pm_get_lp_shares m a s else 0)"
proof -
  have "finite (dom (pm_lp s))" using assms(1) by (simp add: pm_core_def pm_lp_ok_def)
  from pm_put_sum [OF this, of "pm_shares_in m'" "(m, a)" n] assms(2) show ?thesis
    by (simp add: pm_shares_in_def pm_get_lp_shares_def)
qed

lemma pm_unowned_frame: "pm_lp s' = pm_lp s \<and> pm_lp_total s' = pm_lp_total s \<Longrightarrow> pm_unowned m s' = pm_unowned m s"
  by (simp add: pm_unowned_def pm_get_lp_total_supply_def)

lemma pm_unowned_liquidity:
  assumes core: "pm_core s"
  shows "pm_add_liquidity tr e a m i c y s = Inr (sh, s') \<Longrightarrow> pm_unowned j s' = pm_unowned j s"
    and "pm_remove_liquidity tr e a m i n s = Inr (cy, s') \<Longrightarrow> pm_unowned j s' = pm_unowned j s"
proof -
  note lp = pm_core_lp [OF core, of m a]
  {
    assume "pm_add_liquidity tr e a m i c y s = Inr (sh, s')"
    then show "pm_unowned j s' = pm_unowned j s"
    proof (cases rule: pm_add_liquidity_Inr)
      case (1 k p w' col)
      have "0 \<le> pm_get_lp_shares m a s + sh" using lp 1(9) by simp
      then show ?thesis by (simp add: pm_unowned_def 1(11) pm_shares_put [OF core]) (simp add: pm_get_lp_total_supply_def)
    qed
  next
    obtain c1 y1 where cy: "cy = (c1, y1)" by (cases cy)
    assume "pm_remove_liquidity tr e a m i n s = Inr (cy, s')"
    from this [unfolded cy] show "pm_unowned j s' = pm_unowned j s"
    proof (cases rule: pm_remove_liquidity_Inr)
      case (1 k p w' col)
      have "0 \<le> pm_get_lp_shares m a s - n" using 1(3) by simp
      then show ?thesis by (simp add: pm_unowned_def 1(9) pm_shares_put [OF core]) (simp add: pm_get_lp_total_supply_def)
    qed
  }
qed

lemma pm_unowned_create:
  assumes core: "pm_core s" and run: "pm_create_market tr e a p s = Inr (m, s')"
  shows "pm_unowned m s' = cp_initial_liquidity p * int (cp_num_outcomes p)" and "pm_market s j \<noteq> None \<Longrightarrow> pm_unowned j s' = pm_unowned j s"
  using run
proof (atomize (full), cases rule: pm_create_market_Inr)
  case (1 w' fin)
  note fresh = pm_core_fresh [OF core 1(3)]
  have "key_sum (pm_shares_in m) (pm_lp s) = key_sum (\<lambda>_ _. 0) (pm_lp s)"
    by (rule key_sum_cong) (use fresh(6) in \<open>auto simp: pm_shares_in_def\<close>)
  then have "key_sum (pm_shares_in m) (pm_lp s) = 0" by (simp add: key_sum_def)
  then show "pm_unowned m s' = cp_initial_liquidity p * int (cp_num_outcomes p) \<and> (pm_market s j \<noteq> None \<longrightarrow> pm_unowned j s' = pm_unowned j s)"
    using fresh(1) by (auto simp: pm_unowned_def 1(6) pm_get_lp_total_supply_def)
qed

lemma pm_unowned_call:
  assumes core: "pm_core s" and run: "pm_exec tr bal e c s = Some s'" and m: "pm_market s j \<noteq> None"
  shows "pm_unowned j s' = pm_unowned j s"
proof -
  have quiet: "pm_unowned j s' = pm_unowned j s" if "pm_market s' = pm_market s \<and> pm_lp s' = pm_lp s \<and> pm_lp_total s' = pm_lp_total s"
    using that by (intro pm_unowned_frame) simp
  from run show ?thesis
    by (cases c)
       (simp_all only: pm_exec.simps state_of_eq_Some,
        (elim exE, ((rule quiet, erule pm_admin_calls_frame pm_trade_calls_frame pm_match_frame [OF core]) |
           (rule pm_unowned_frame, erule pm_status_calls_frame) | erule pm_unowned_liquidity [OF core] | erule pm_unowned_create(2) [OF core _ m]))+)
qed

section \<open>The lifecycle of a market\<close>

inductive pm_status_step :: "market_status \<Rightarrow> market_status \<Rightarrow> bool" where
  step_close: "pm_status_step MsActive MsClosed"
| step_resolve: "pm_status_step MsActive MsResolved"
| step_resolve_closed: "pm_status_step MsClosed MsResolved"
| step_dispute: "pm_status_step MsResolved MsDisputed"
| step_settle: "pm_status_step MsDisputed MsResolved"

text \<open>What a market keeps for ever.\<close>

definition pm_fixed :: "prediction_market \<Rightarrow> prediction_market" where
  "pm_fixed k = k\<lparr>mk_status := MsActive, mk_resolved_outcome := None\<rparr>"

definition pm_moves :: "prediction_market \<Rightarrow> prediction_market \<Rightarrow> bool" where
  "pm_moves k k' \<longleftrightarrow> pm_fixed k' = pm_fixed k \<and> (k' = k \<or> pm_status_step (mk_status k) (mk_status k') \<or>
     (mk_status k = MsResolved \<and> mk_status k' = MsResolved))"

lemma pm_moves_refl [simp]: "pm_moves k k"
  by (simp add: pm_moves_def)

lemma pm_moves_upd:
  assumes "pm_market s m' = Some k0" and "mk_market_id k0 = m'" and "pm_moves k0 k1" and "pm_market s m = Some k"
    and "pm_market s' = (pm_market s)(mk_market_id k0 \<mapsto> k1)"
  shows "\<exists>k'. pm_market s' m = Some k' \<and> pm_moves k k'"
  using assms by (cases "m = m'") auto

lemma pm_market_call:
  assumes core: "pm_core s" and run: "pm_exec tr bal e c s = Some s'" and k: "pm_market s m = Some k"
  shows "\<exists>k'. pm_market s' m = Some k' \<and> pm_moves k k'"
proof -
  have quiet: ?thesis if "pm_market s' = pm_market s \<and> pm_lp s' = pm_lp s \<and> pm_lp_total s' = pm_lp_total s" using that k by simp
  have quiet': ?thesis if "pm_market s' = pm_market s" using that k by simp
  have create: ?thesis if "pm_create_market tr e a p s = Inr (j, s')" for a p j
    using that
  proof (cases rule: pm_create_market_Inr)
    case (1 w' fin)
    have "m \<noteq> j" using pm_core_fresh(1) [OF core 1(3)] k by auto
    then show ?thesis using k by (simp add: 1(6))
  qed
  have resolve: ?thesis if "pm_resolve_market e a j i s = Inr (u, s')" for a j i u
    using that
  proof (cases rule: pm_resolve_market_Inr)
    case (1 k0)
    have "mk_status k0 \<noteq> MsPendingResolution" using pm_core_market [OF core 1(2)] by (auto simp: pm_market_ok_def split: if_splits)
    then have "pm_status_step (mk_status k0) MsResolved" using 1(4) by (cases "mk_status k0") (auto intro: pm_status_step.intros)
    then show ?thesis
      by (intro pm_moves_upd [OF 1(2) pm_core_id [OF core 1(2)] _ k, where ?k1.0 = "k0\<lparr>mk_status := MsResolved, mk_resolved_outcome := Some i\<rparr>"])
         (simp_all add: pm_moves_def pm_fixed_def 1(7))
  qed
  have close: ?thesis if "pm_close_market_early e a j s = Inr (u, s')" for a j u
    using that
  proof (cases rule: pm_close_Inr)
    case (1 k0)
    show ?thesis
      by (rule pm_moves_upd [OF 1(2) pm_core_id [OF core 1(2)] _ k, where ?k1.0 = "k0\<lparr>mk_status := MsClosed\<rparr>"])
         (simp_all add: pm_moves_def pm_fixed_def 1(4,5) step_close)
  qed
  have dispute: ?thesis if "pm_open_dispute tr e a j i x n s = Inr (d, s')" for a j i x n d
    using that
  proof (cases rule: pm_open_dispute_Inr)
    case (1 k0 w')
    show ?thesis
      by (rule pm_moves_upd [OF 1(2) pm_core_id [OF core 1(2)] _ k, where ?k1.0 = "k0\<lparr>mk_status := MsDisputed\<rparr>"])
         (simp_all add: pm_moves_def pm_fixed_def 1(3,8) step_dispute)
  qed
  have settle: ?thesis if "pm_resolve_dispute tr e a j i s = Inr (u, s')" for a j i u
    using that
  proof (cases rule: pm_resolve_dispute_Inr)
    case (1 d k0 w' k1 d')
    have "mk_status k0 = MsResolved \<or> mk_status k0 = MsDisputed"
      using pm_core_votes(5) [OF core 1(3)] 1(6) by (auto simp: pm_settled_def)
    then have "pm_moves k0 k1" by (auto simp: pm_moves_def pm_fixed_def 1(10) step_settle)
    then show ?thesis by (rule pm_moves_upd [OF 1(6) pm_core_id [OF core 1(6)] _ k]) (simp add: 1(11))
  qed
  from run show ?thesis
    by (cases c)
       (simp_all only: pm_exec.simps state_of_eq_Some,
        (elim exE, ((rule quiet, erule pm_admin_calls_frame pm_trade_calls_frame pm_match_frame [OF core]) |
           (rule quiet', erule pm_liquidity_calls_frame) | erule create resolve close dispute settle))+)
qed

text \<open>Along a run, from any state that satisfies the invariant.\<close>

definition pm_follows :: "prediction_market \<Rightarrow> prediction_market \<Rightarrow> bool" where
  "pm_follows k k' \<longleftrightarrow> pm_fixed k' = pm_fixed k \<and> pm_status_step\<^sup>*\<^sup>* (mk_status k) (mk_status k')"

lemma pm_follows_move: "pm_moves k k1 \<Longrightarrow> pm_follows k1 k2 \<Longrightarrow> pm_follows k k2"
  unfolding pm_moves_def pm_follows_def by (auto intro: converse_rtranclp_into_rtranclp)

context token_contract
begin

lemma pm_run_from:
  assumes "pm_inv balance self w t s" and "trace_ok (pm_adm self) t cs" and "pm_market s m = Some k"
  shows "pm_inv balance self w t (run_calls (pm_timely transfer balance) cs s) \<and>
    pm_unowned m (run_calls (pm_timely transfer balance) cs s) = pm_unowned m s \<and>
    (\<exists>k'. pm_market (run_calls (pm_timely transfer balance) cs s) m = Some k' \<and> pm_follows k k')"
  using assms
proof (induction cs arbitrary: s k t)
  case Nil
  then show ?case by (simp add: pm_follows_def)
next
  case (Cons ec cs)
  obtain e c where ec: "ec = (e, c)" by (cases ec)
  have adm: "pm_adm self e c" and rest: "trace_ok (pm_adm self) (env_timestamp e) cs" using Cons.prems(2) by (simp_all add: ec)
  have inv: "pm_inv balance self w (env_timestamp e) s" using Cons.prems(1) by (simp add: pm_inv_def)
  show ?case
  proof (cases "pm_timely transfer balance e c s")
    case None
    with Cons.IH [OF inv rest Cons.prems(3)] show ?thesis by (simp add: ec pm_inv_def)
  next
    case (Some s1)
    note core = pm_inv_core [OF inv] and step = Some [unfolded pm_timely_Some, THEN conjunct2]
    obtain k1 where k1: "pm_market s1 m = Some k1" "pm_moves k k1" using pm_market_call [OF core step Cons.prems(3)] by blast
    have un: "pm_unowned m s1 = pm_unowned m s" by (rule pm_unowned_call [OF core step]) (simp add: Cons.prems(3))
    from Cons.IH [OF pm_inv_call [OF inv adm Some] rest k1(1)] un pm_follows_move [OF k1(2)] Some
    show ?thesis by (auto simp: ec pm_inv_def)
  qed
qed

end

text \<open>
  C16. A market moves in one direction. In every run from the fresh deployment in which \<open>initialize\<close> does not come
  after the first market (it would let a new market replace an old one), a market follows the edges active,
  closed, resolved, disputed, keeps its terms (outcomes, collateral token, cap, fee, oracle and window) and,
  once it has left the active state, never becomes active again, so \<open>buy_outcome\<close>, \<open>sell_outcome\<close>,
  \<open>place_order\<close> and \<open>add_liquidity\<close> are over; when it has been resolved its outcome is one of its own.
\<close>

theorem pm_lifecycle_refined:
  assumes "token_contract tr bal"
    and "reach (pm_timely tr bal) (pm_adm self) (pm_drift bal self) (pm_fresh w) t s"
    and "trace_ok (pm_adm self) t cs" and "pm_market s m = Some k"
  shows "\<exists>k'. pm_market (run_calls (pm_timely tr bal) cs s) m = Some k' \<and> pm_status_step\<^sup>*\<^sup>* (mk_status k) (mk_status k') \<and>
    pm_fixed k' = pm_fixed k \<and> (mk_status k \<noteq> MsActive \<longrightarrow> mk_status k' \<noteq> MsActive) \<and>
    (mk_status k' = MsResolved \<or> mk_status k' = MsDisputed \<longrightarrow> (\<exists>i<mk_num_outcomes k. mk_resolved_outcome k' = Some i))"
proof -
  have inv: "pm_inv bal self w t s" by (rule token_contract.pm_reach_inv [OF assms(1,2)])
  obtain k' where k': "pm_market (run_calls (pm_timely tr bal) cs s) m = Some k'" "pm_follows k k'"
    and inv': "pm_inv bal self w t (run_calls (pm_timely tr bal) cs s)"
    using token_contract.pm_run_from [OF assms(1) inv assms(3,4)] by blast
  have "mk_status k' \<noteq> MsActive" if "mk_status k \<noteq> MsActive"
  proof -
    have "y \<noteq> MsActive" if "pm_status_step\<^sup>*\<^sup>* x y" "x \<noteq> MsActive" for x y
      using that by (induction rule: rtranclp_induct) (auto elim: pm_status_step.cases)
    then show ?thesis using k'(2) that by (auto simp: pm_follows_def)
  qed
  moreover have "mk_num_outcomes k' = mk_num_outcomes k"
  proof -
    have "mk_num_outcomes (pm_fixed k') = mk_num_outcomes (pm_fixed k)" using k'(2) by (simp add: pm_follows_def)
    then show ?thesis by (simp add: pm_fixed_def)
  qed
  ultimately show ?thesis using k' pm_core_resolved [OF pm_inv_core [OF inv'] k'(1)] by (auto simp: pm_follows_def)
qed

definition pm_demo_trace :: "(env \<times> pm_call) list" where
  "pm_demo_trace = [(pm_env 2000, PmResolveMarket (Addr 6) 0 0)]"

theorem pm_lifecycle_refined_witness:
  "\<exists>k'. pm_market (run_calls pm_mock pm_demo_trace pm_demo) 0 = Some k' \<and> mk_status k' = MsResolved \<and> pm_status_step\<^sup>*\<^sup>* MsActive (mk_status k')"
proof -
  have mk: "pm_market pm_demo 0 = Some (pm_new_market 0 100 1100 (Addr 7) (pm_params 10000 30))" by (simp add: pm_demo_def pm_opened_def)
  have "trace_ok (pm_adm (Addr 0)) 200 pm_demo_trace" by (simp add: pm_demo_trace_def pm_env_def pm_adm_def)
  moreover have "pm_market (run_calls pm_mock pm_demo_trace pm_demo) 0 = Some pm_demo_market"
    by (simp add: pm_demo_trace_def pm_timely_def pm_late_def pm_demo_resolved_run) (simp add: pm_demo_resolved_def)
  ultimately show ?thesis
    using pm_lifecycle_refined [OF mock.token_contract_axioms pm_demo_reach _ mk, of pm_demo_trace]
    by (auto simp: pm_demo_market_def pm_new_market_def)
qed

text \<open>
  The seed of a market stays unowned. Right after \<open>create_market\<close> the share supply that no provider
  holds is the whole initial liquidity, and no run of calls ever changes it: the creator is credited no shares,
  so the seed cannot be withdrawn by the shares it minted. The recorded supply is always the sum over the pools.
\<close>

theorem pm_seed_stays_unowned:
  assumes "token_contract tr bal"
    and "reach (pm_timely tr bal) (pm_adm self) (pm_drift bal self) (pm_fresh w) t s"
    and "env_timestamp e = t" and "env_self e = self" and "\<not> env_auth e self"
    and "pm_create_market tr e a p s = Inr (m, s1)" and "trace_ok (pm_adm self) t cs"
  shows "pm_unowned m (run_calls (pm_timely tr bal) cs s1) = cp_initial_liquidity p * int (cp_num_outcomes p) \<and>
    pm_get_lp_total_supply m (run_calls (pm_timely tr bal) cs s1) = key_sum (pm_lp_in m) (pm_pool (run_calls (pm_timely tr bal) cs s1))"
proof -
  have inv: "pm_inv bal self w t s" by (rule token_contract.pm_reach_inv [OF assms(1,2)])
  have adm: "pm_adm self e (PmCreateMarket a p)" using assms(4,5) by (simp add: pm_adm_def)
  have inv1: "pm_inv bal self w t s1" by (rule token_contract.pm_inv_create_market [OF assms(1) inv adm assms(6)])
  obtain k where k: "pm_market s1 m = Some k" using assms(6) by (cases rule: pm_create_market_Inr) simp
  from token_contract.pm_run_from [OF assms(1) inv1 assms(7) k] pm_unowned_create(1) [OF pm_inv_core [OF inv] assms(6)]
  show ?thesis by (auto simp: pm_inv_def pm_core_def pm_lp_ok_def)
qed

theorem pm_seed_stays_unowned_witness: "pm_unowned 0 (run_calls pm_mock [(pm_env 200, PmBuyOutcome (Addr 8) 0 0 1000 900)] (pm_opened 10000 30)) = 20000"
proof -
  note start = pm_ready_reach
  have run: "pm_create_market mock_world_transfer (pm_env 100) (Addr 7) (pm_params 10000 30) (pm_ready pm_world) = Inr (0, pm_opened 10000 30)"
    by (rule pm_opened_run) simp_all
  have ok: "trace_ok (pm_adm (Addr 0)) 100 [(pm_env 200, PmBuyOutcome (Addr 8) 0 0 1000 900)]" by (simp add: pm_env_def pm_adm_def)
  show ?thesis
    using pm_seed_stays_unowned [OF mock.token_contract_axioms start _ _ _ run ok] by (simp add: pm_env_def pm_params_def)
qed

section \<open>Outcomes and disputes\<close>

text \<open>
  C18. Who decides an outcome. In every run from the fresh deployment in which \<open>initialize\<close> does not come after
  the first market, the recorded outcome of a market changes only by a call of the market's own oracle or of the
  default oracle of the contract (which the doc comment of \<open>resolve_market\<close> leaves out, and the code accepts)
  after the resolution window, or by an admin settling a dispute whose challengers have the majority; the two
  tallies of a dispute together are exactly the recorded votes.
\<close>

theorem pm_outcome_guarded:
  assumes "token_contract tr bal"
    and "reach (pm_timely tr bal) (pm_adm self) (pm_drift bal self) (pm_fresh w) t s"
    and "pm_exec tr bal e c s = Some s'" and "pm_market s m = Some k" and "pm_market s' m = Some k'"
    and "mk_resolved_outcome k' \<noteq> mk_resolved_outcome k"
  shows "(\<exists>a i. c = PmResolveMarket a m i \<and> env_auth e a \<and> (a = mk_oracle_source k \<or> pm_oracle_address s = Some a) \<and>
      mk_resolution_window_end k < env_timestamp e \<and> mk_resolved_outcome k' = Some i) \<or>
    (\<exists>a j d. c = PmResolveDispute a m j \<and> env_auth e a \<and> pm_admin s = Some a \<and> pm_dispute s (m, j) = Some d \<and>
      di_votes_against d < di_votes_for d \<and> mk_resolved_outcome k' = Some (di_claimed_outcome d) \<and>
      di_votes_for d + di_votes_against d = key_sum (pm_vote_of m j) (pm_dispute_vote s))"
proof -
  have core: "pm_core s" by (rule token_contract.pm_reach_core [OF assms(1,2)])
  have quiet: ?thesis if "pm_market s' = pm_market s \<and> pm_lp s' = pm_lp s \<and> pm_lp_total s' = pm_lp_total s"
    using that assms(4-6) by simp
  have quiet': ?thesis if "pm_market s' = pm_market s" using that assms(4-6) by simp
  have other: ?thesis if "pm_market s' = (pm_market s)(mk_market_id k0 \<mapsto> k0\<lparr>mk_status := st\<rparr>)" "pm_market s j = Some k0" for k0 st j
    using that assms(4-6) pm_core_id [OF core that(2)] by (cases "m = j") auto
  have create: ?thesis if "pm_create_market tr e a p s = Inr (j, s')" for a p j
    using that
  proof (cases rule: pm_create_market_Inr)
    case (1 w' fin)
    have "m \<noteq> j" using pm_core_fresh(1) [OF core 1(3)] assms(4) by auto
    then show ?thesis using assms(4-6) by (simp add: 1(6))
  qed
  have resolve: ?thesis if "c = PmResolveMarket a j i" "pm_resolve_market e a j i s = Inr (u, s')" for a j i u
    using that(2)
  proof (cases rule: pm_resolve_market_Inr)
    case (1 k0)
    show ?thesis using that(1) 1 assms(4-6) pm_core_id [OF core 1(2)] by (cases "m = j") auto
  qed
  have close: ?thesis if "pm_close_market_early e a j s = Inr (u, s')" for a j u
    using that by (cases rule: pm_close_Inr) (rule other, simp_all)
  have dispute: ?thesis if "pm_open_dispute tr e a j i x n s = Inr (d, s')" for a j i x n d
    using that by (cases rule: pm_open_dispute_Inr) (rule other, simp_all)
  have settle: ?thesis if "c = PmResolveDispute a j i" "pm_resolve_dispute tr e a j i s = Inr (u, s')" for a j i u
    using that(2)
  proof (cases rule: pm_resolve_dispute_Inr)
    case (1 d k0 w' k1 d')
    have mj: "m = j" using 1(6,11) assms(4-6) pm_core_id [OF core 1(6)] by (cases "m = j") auto
    have "k0 = k" "k1 = k'" using 1(6,11) assms(4,5) pm_core_id [OF core 1(6)] mj by auto
    then have "pm_upheld d" "mk_resolved_outcome k' = Some (di_claimed_outcome d)" using assms(6) 1(10) by (auto split: if_splits)
    then show ?thesis using that(1) 1(1-3) pm_core_votes(3) [OF core 1(3)] mj by (auto simp: pm_upheld_def)
  qed
  define goal where "goal \<longleftrightarrow> ?thesis"
  note facts = quiet [folded goal_def] quiet' [folded goal_def] create [folded goal_def] close [folded goal_def] dispute [folded goal_def]
    resolve [folded goal_def] settle [folded goal_def]
  have goal
    using assms(3)
    by (cases c)
       (simp_all only: pm_exec.simps state_of_eq_Some,
        (elim exE, ((rule facts(1), erule pm_admin_calls_frame pm_trade_calls_frame pm_match_frame [OF core]) |
           (rule facts(2), erule pm_liquidity_calls_frame) | erule facts(3-5) | (rule facts(6,7), assumption, assumption)))+)
  then show ?thesis by (simp only: goal_def)
qed

theorem pm_outcome_guarded_witness:
  "(\<exists>a i. PmResolveMarket (Addr 6) 0 0 = PmResolveMarket a 0 i \<and> env_auth (pm_env 2000) a) \<and> mk_resolved_outcome pm_demo_market = Some 0"
proof -
  have mk: "pm_market pm_demo 0 = Some (pm_new_market 0 100 1100 (Addr 7) (pm_params 10000 30))" by (simp add: pm_demo_def pm_opened_def)
  have mk': "pm_market pm_demo_resolved 0 = Some pm_demo_market" by (simp add: pm_demo_resolved_def)
  have run: "pm_exec mock_world_transfer mock_world_balance (pm_env 2000) (PmResolveMarket (Addr 6) 0 0) pm_demo = Some pm_demo_resolved" by (simp add: pm_demo_resolved_run)
  show ?thesis
    using pm_outcome_guarded [OF mock.token_contract_axioms pm_demo_reach run mk mk'] by (auto simp: pm_demo_market_def pm_new_market_def)
qed

section \<open>Redemption and refunds\<close>

text \<open>
  C19. Winning tokens are redeemed once. A successful \<open>redeem_winning_tokens\<close> pays the smaller of the user's
  winning balance and the reserve of the winning pool, clears that balance and no other, and the user's next
  redemption on the market fails.
\<close>

theorem pm_redeem_once:
  assumes "pm_redeem_winning_tokens tr e user m s = Inr (n, s')"
  shows "\<exists>k i p. pm_market s m = Some k \<and> mk_status k = MsResolved \<and> mk_resolved_outcome k = Some i \<and> pm_pool s (m, i) = Some p \<and>
    n = min (pm_get_outcome_balance m i user s) (op_collateral_reserve p) \<and>
    tr e (mk_collateral_token k) (env_self e) user n (pm_tokens s) = Some (pm_tokens s') \<and>
    pm_balance s' = (pm_balance s)((m, i, user) := None) \<and>
    (\<forall>e'. env_auth e' user \<longrightarrow> pm_redeem_winning_tokens tr e' user m s' = Inl PmNoWinningTokens)"
  using assms
proof (cases rule: pm_redeem_Inr)
  case (1 k i p w col)
  have "pm_redeem_winning_tokens tr e' user m s' = Inl PmNoWinningTokens" if "env_auth e' user" for e'
    using that 1(2-4) by (simp add: pm_redeem_winning_tokens_def 1(9) require_auth_def pm_get_outcome_balance_def)
  then show ?thesis using 1(2-8) by (auto simp: 1(9))
qed

definition pm_demo_redeemed :: "mock_world pm_state" where
  "pm_demo_redeemed = pm_demo_resolved
     \<lparr>pm_tokens := pm_world(Addr 2 := (pm_world (Addr 2))(Addr 7 \<mapsto> 980000, Addr 0 \<mapsto> 20000, Addr 8 \<mapsto> 999000, Addr 0 \<mapsto> 21000,
        Addr 0 \<mapsto> 20094, Addr 8 \<mapsto> 999906)),
      pm_pool := (pm_pool pm_demo)((0, 0) \<mapsto> \<lparr>op_collateral_reserve = 10091, op_outcome_reserve = 9094, op_lp_total_supply = 10000\<rparr>),
      pm_balance := (\<lambda>_. None), pm_collateral := [0 \<mapsto> 20094]\<rparr>"

lemma pm_demo_redeem_run: "pm_redeem_winning_tokens mock_world_transfer (pm_env 2100) (Addr 8) 0 pm_demo_resolved = Inr (906, pm_demo_redeemed)"
  unfolding pm_demo_redeemed_def pm_demo_resolved_def pm_demo_market_def pm_demo_def pm_opened_def
  by (simp add: pm_redeem_winning_tokens_def pm_eval pm_new_market_def pm_params_def pm_ready_def pm_fresh_def)

theorem pm_redeem_once_witness:
  "pm_redeem_winning_tokens mock_world_transfer (pm_env 2200) (Addr 8) 0 pm_demo_redeemed = Inl PmNoWinningTokens"
  using pm_redeem_once [OF pm_demo_redeem_run] by (auto simp: pm_env_def)

text \<open>
  When no pool of the collateral token is in debt and the initial balance was not negative, the reserves,
  locks and stakes are covered one by one.
\<close>

definition pm_no_debt :: "'w pm_state \<Rightarrow> bool" where
  "pm_no_debt s \<longleftrightarrow> (\<forall>key p. pm_pool s key = Some p \<longrightarrow> 0 \<le> op_collateral_reserve p)"

lemma pm_stake_nonneg: "pm_core s \<Longrightarrow> pm_dispute s (m, j) = Some d \<Longrightarrow> 0 \<le> pm_stake d"
  using pm_core_disputes(2) [of s m j d] by (simp add: pm_stake_def pm_dispute_ok_def)

lemma pm_owed_parts:
  assumes core: "pm_core s" and debt: "pm_no_debt s"
  shows "pm_pool s (m, i) = Some p \<Longrightarrow> pm_token_of s m = Some t \<Longrightarrow> op_collateral_reserve p \<le> pm_owed t s"
    and "pm_order s (m, j) = Some q \<Longrightarrow> pm_token_of s m = Some t \<Longrightarrow> pm_locked q \<le> pm_owed t s"
proof -
  have nonneg: "0 \<le> pm_claims t (pm_token_of s) op_collateral_reserve key v" if "pm_pool s key = Some v" for key v
    using debt that by (cases key) (auto simp: pm_claims_def pm_no_debt_def)
  have nonneg': "0 \<le> pm_claims t (pm_token_of s) pm_locked key v" if "pm_order s key = Some v" for key v
    using pm_locked_nonneg [OF pm_core_orders(2) [OF core]] that by (cases key) (auto simp: pm_claims_def)
  have nonneg'': "0 \<le> pm_claims t (pm_token_of s) pm_stake key v" if "pm_dispute s key = Some v" for key v
    using pm_stake_nonneg [OF core] that by (cases key) (auto simp: pm_claims_def)
  have sums: "0 \<le> key_sum (pm_claims t (pm_token_of s) op_collateral_reserve) (pm_pool s)"
      "0 \<le> key_sum (pm_claims t (pm_token_of s) pm_locked) (pm_order s)" "0 \<le> key_sum (pm_claims t (pm_token_of s) pm_stake) (pm_dispute s)"
    by (intro key_sum_nonneg, fact nonneg, intro key_sum_nonneg, fact nonneg', intro key_sum_nonneg, fact nonneg'')
  {
    assume p: "pm_pool s (m, i) = Some p" and tok: "pm_token_of s m = Some t"
    have "pm_claims t (pm_token_of s) op_collateral_reserve (m, i) p \<le> key_sum (pm_claims t (pm_token_of s) op_collateral_reserve) (pm_pool s)"
      by (rule key_sum_ge_entry [OF pm_core_pools(1) [OF core] p nonneg])
    then show "op_collateral_reserve p \<le> pm_owed t s" using sums tok by (simp add: pm_owed_def pm_claims_def [of _ _ _ "(m, i)"])
  next
    assume q: "pm_order s (m, j) = Some q" and tok: "pm_token_of s m = Some t"
    have "pm_claims t (pm_token_of s) pm_locked (m, j) q \<le> key_sum (pm_claims t (pm_token_of s) pm_locked) (pm_order s)"
      by (rule key_sum_ge_entry [OF pm_core_orders(1) [OF core] q nonneg'])
    then show "pm_locked q \<le> pm_owed t s" using sums tok by (simp add: pm_owed_def pm_claims_def [of _ _ _ "(m, j)"])
  }
qed

text \<open>
  Holders get their money. In a reachable state without a pool in debt, a holder of winning tokens of a
  resolved market can redeem them while the winning pool has a reserve, and is paid the smaller of the two (on a
  token that honours funded payments, with amounts that stay within \<open>i128\<close>).
\<close>

theorem pm_redeem_succeeds:
  assumes "live_token tr bal"
    and "reach (pm_timely tr bal) (pm_adm self) (pm_drift bal self) (pm_fresh w) t s"
    and "0 \<le> bal w (mk_collateral_token k) self" and "pm_no_debt s"
    and "pm_market s m = Some k" and "mk_status k = MsResolved" and "mk_resolved_outcome k = Some i" and "pm_pool s (m, i) = Some p"
    and "n = min (pm_get_outcome_balance m i user s) (op_collateral_reserve p)" and "0 < n"
    and "env_self e = self" and "env_auth e user" and "in_i128 (op_collateral_reserve p)"
    and "in_i128 (bal (pm_tokens s) (mk_collateral_token k) user + n)" and "in_i128 (pm_get_market_collateral m s - n)"
  shows "\<exists>s'. pm_redeem_winning_tokens tr e user m s = Inr (n, s')"
proof -
  note tok = assms(1) [THEN live_token.axioms(1)]
  have inv: "pm_inv bal self w t s" by (rule token_contract.pm_reach_inv [OF tok assms(2)])
  have "op_collateral_reserve p \<le> pm_owed (mk_collateral_token k) s"
    by (rule pm_owed_parts(1) [OF pm_inv_core [OF inv] assms(4,8) pm_num_market(3) [OF assms(5)]])
  moreover have "bal w (mk_collateral_token k) self + pm_owed (mk_collateral_token k) s \<le> bal (pm_tokens s) (mk_collateral_token k) self"
    using inv by (simp add: pm_inv_def)
  ultimately have "n \<le> bal (pm_tokens s) (mk_collateral_token k) (env_self e)" using assms(3,9,11) by simp
  then obtain w' where w': "tr e (mk_collateral_token k) (env_self e) user n (pm_tokens s) = Some w'"
    using live_token.self_payment_succeeds [OF assms(1,10) _ assms(14)] by blast
  have rest: "in_i128 (op_collateral_reserve p - n)" using assms(9,10) by (intro in_i128_nonneg [OF assms(13)]) auto
  have pos: "0 < pm_get_outcome_balance m i user s" using assms(9,10) by simp
  show ?thesis
  proof (cases "op_collateral_reserve p < pm_get_outcome_balance m i user s")
    case True
    then have n: "n = op_collateral_reserve p" using assms(9) by simp
    show ?thesis
      using assms(5-8,12,15) pos True w' unfolding n
      by (simp add: pm_redeem_winning_tokens_def Let_def require_auth_def pm_transfer_def call_token_def pm_sub_def
          checked_sub_i128_def narrow_i128_def pm_setters pm_get_market_collateral_def)
  next
    case False
    then have n: "n = pm_get_outcome_balance m i user s" using assms(9) by simp
    show ?thesis
      using assms(5-8,12,15) pos False w' rest unfolding n
      by (simp add: pm_redeem_winning_tokens_def Let_def require_auth_def pm_transfer_def call_token_def pm_sub_def
          checked_sub_i128_def narrow_i128_def pm_setters pm_get_market_collateral_def)
  qed
qed

theorem pm_redeem_succeeds_witness:
  "\<exists>s'. pm_redeem_winning_tokens mock_world_transfer (pm_env 2100) (Addr 8) 0 pm_demo_resolved = Inr (906, s')"
proof (rule pm_redeem_succeeds [OF mock.live_token_axioms pm_demo_resolved_reach, where k = pm_demo_market and i = 0
      and p = "\<lparr>op_collateral_reserve = 10997, op_outcome_reserve = 9094, op_lp_total_supply = 10000\<rparr>"])
  show "pm_no_debt pm_demo_resolved"
    by (auto simp: pm_no_debt_def pm_demo_resolved_def pm_demo_def pm_seed_pool_def split: if_splits)
qed (simp_all add: pm_demo_resolved_def pm_demo_market_def pm_demo_def pm_opened_def pm_new_market_def pm_params_def pm_env_def pm_storage_defs
    mock_world_balance_def mock_balance_def pm_world_def arith_defs)

text \<open>
  A buy order can always be taken back. In a reachable state without a pool in debt, the owner of an open buy
  order can cancel it and gets back exactly the collateral that is locked for the unfilled part.
\<close>

theorem pm_cancel_refunds:
  assumes "live_token tr bal"
    and "reach (pm_timely tr bal) (pm_adm self) (pm_drift bal self) (pm_fresh w) t s"
    and "pm_market s m = Some k" and "0 \<le> bal w (mk_collateral_token k) self" and "pm_no_debt s"
    and "pm_order s (m, j) = Some q" and "lo_status q = OsOpen" and "lo_side q = SideBuy" and "lo_owner q = a"
    and "env_self e = self" and "env_auth e a" and "\<not> env_auth e self"
    and "in_i128 (lo_quantity q - lo_filled_quantity q)" and "in_i128 (lo_price q * (lo_quantity q - lo_filled_quantity q))"
    and "in_i128 (bal (pm_tokens s) (mk_collateral_token k) a + pm_locked q)"
  shows "\<exists>s'. pm_cancel_order tr e a m j s = Inr ((), s') \<and> pm_order s' (m, j) = Some (q\<lparr>lo_status := OsCancelled\<rparr>) \<and>
    bal (pm_tokens s') (mk_collateral_token k) a = bal (pm_tokens s) (mk_collateral_token k) a + pm_locked q"
proof -
  note tok = assms(1) [THEN live_token.axioms(1)]
  have inv: "pm_inv bal self w t s" by (rule token_contract.pm_reach_inv [OF tok assms(2)])
  note core = pm_inv_core [OF inv]
  have "pm_locked q \<le> pm_owed (mk_collateral_token k) s" by (rule pm_owed_parts(2) [OF core assms(5,6) pm_num_market(3) [OF assms(3)]])
  moreover have "bal w (mk_collateral_token k) self + pm_owed (mk_collateral_token k) s \<le> bal (pm_tokens s) (mk_collateral_token k) self"
    using inv by (simp add: pm_inv_def)
  ultimately have covered: "pm_locked q \<le> bal (pm_tokens s) (mk_collateral_token k) (env_self e)" using assms(4,10) by simp
  have ids: "lo_market_id q = m" "lo_order_id q = j" using pm_core_orders(2) [OF core assms(6)] by (simp_all add: pm_order_ok_def)
  have cost: "div_i128 (lo_price q * (lo_quantity q - lo_filled_quantity q)) DECIMAL_FACTOR = pm_locked q"
    using assms(7,8) by (simp add: pm_locked_def)
  have left: "pm_sub (lo_quantity q) (lo_filled_quantity q) = Inr (lo_quantity q - lo_filled_quantity q)"
      "pm_mul (lo_price q) (lo_quantity q - lo_filled_quantity q) = Inr (lo_price q * (lo_quantity q - lo_filled_quantity q))"
    using assms(13,14) by (simp_all add: pm_arith_Inr)
  show ?thesis
  proof (cases "0 < pm_locked q")
    case True
    then obtain w' where w': "tr e (mk_collateral_token k) (env_self e) a (pm_locked q) (pm_tokens s) = Some w'"
      using live_token.self_payment_succeeds [OF assms(1) True covered assms(15)] by blast
    have "a \<noteq> env_self e" using assms(10-12) by auto
    then have "bal w' (mk_collateral_token k) a = bal (pm_tokens s) (mk_collateral_token k) a + pm_locked q"
      using token_contract.balance_dst [OF tok w'] by auto
    then show ?thesis
      using True w' assms(3,6-9,11)
      by (simp add: pm_cancel_order_def pm_refund_order_def require_auth_def left cost Let_def pm_transfer_def call_token_def pm_setters ids)
  next
    case False
    then have "pm_locked q = 0" using pm_locked_nonneg [OF pm_core_orders(2) [OF core assms(6)]] by simp
    then show ?thesis
      using assms(3,6-9,11)
      by (simp add: pm_cancel_order_def pm_refund_order_def require_auth_def left cost Let_def pm_setters ids)
  qed
qed

definition pm_demo_order :: limit_order where
  "pm_demo_order = \<lparr>lo_order_id = 0, lo_market_id = 0, lo_owner = Addr 9, lo_outcome_index = 1, lo_side = SideBuy,
     lo_price = 500000000000000000, lo_quantity = 100, lo_filled_quantity = 0, lo_status = OsOpen, lo_created_at = 300, lo_expires_at = None\<rparr>"

definition pm_demo_ordered :: "mock_world pm_state" where
  "pm_demo_ordered = pm_demo
     \<lparr>pm_tokens := pm_world(Addr 2 := (pm_world (Addr 2))(Addr 7 \<mapsto> 980000, Addr 0 \<mapsto> 20000, Addr 8 \<mapsto> 999000, Addr 0 \<mapsto> 21000,
        Addr 9 \<mapsto> 999950, Addr 0 \<mapsto> 21050)),
      pm_order := [(0, 0) \<mapsto> pm_demo_order], pm_order_count := [0 \<mapsto> 1]\<rparr>"

lemma pm_demo_order_run:
  "pm_place_order mock_world_transfer mock_world_balance (pm_env 300) (Addr 9) 0 1 SideBuy 500000000000000000 100 pm_demo = Inr (0, pm_demo_ordered)"
  unfolding pm_demo_ordered_def pm_demo_order_def pm_demo_def pm_opened_def
  by (simp add: pm_place_order_def pm_lock_for_order_def pm_eval pm_new_market_def pm_params_def pm_ready_def pm_fresh_def pm_world_def DECIMAL_FACTOR_def)

lemma pm_demo_ordered_reach: "pm_sample_reach 300 pm_demo_ordered"
  by (rule pm_sample_call [OF pm_demo_reach, where c = "PmPlaceOrder (Addr 9) 0 1 SideBuy 500000000000000000 100"])
     (simp_all only: pm_exec.simps pm_demo_order_run state_of_Inr, simp_all add: pm_late_def)

theorem pm_cancel_refunds_witness:
  "\<exists>s'. pm_cancel_order mock_world_transfer (pm_env 400) (Addr 9) 0 0 pm_demo_ordered = Inr ((), s') \<and>
     mock_world_balance (pm_tokens s') (Addr 2) (Addr 9) = 1000000"
proof -
  have locked: "pm_locked pm_demo_order = 50" by (simp add: pm_locked_def pm_demo_order_def DECIMAL_FACTOR_def div_i128_nonneg)
  have "\<exists>s'. pm_cancel_order mock_world_transfer (pm_env 400) (Addr 9) 0 0 pm_demo_ordered = Inr ((), s') \<and>
      pm_order s' (0, 0) = Some (pm_demo_order\<lparr>lo_status := OsCancelled\<rparr>) \<and>
      mock_world_balance (pm_tokens s') (mk_collateral_token (pm_new_market 0 100 1100 (Addr 7) (pm_params 10000 30))) (Addr 9) =
      mock_world_balance (pm_tokens pm_demo_ordered) (mk_collateral_token (pm_new_market 0 100 1100 (Addr 7) (pm_params 10000 30))) (Addr 9) + pm_locked pm_demo_order"
  proof (rule pm_cancel_refunds [OF mock.live_token_axioms pm_demo_ordered_reach])
    show "pm_no_debt pm_demo_ordered"
      by (auto simp: pm_no_debt_def pm_demo_ordered_def pm_demo_def pm_seed_pool_def split: if_splits)
  qed (simp_all add: locked pm_demo_ordered_def pm_demo_def pm_opened_def pm_new_market_def pm_params_def pm_env_def
      mock_world_balance_def mock_balance_def pm_world_def arith_defs, simp_all add: pm_demo_order_def)
  then show ?thesis
    by (simp add: locked pm_new_market_def pm_params_def pm_demo_ordered_def mock_world_balance_def mock_balance_def) blast
qed

section \<open>Findings\<close>

lemmas pm_run_eval = pm_eval pm_opened_def pm_ready_def pm_fresh_def pm_new_market_def pm_params_def pm_seed_pool_def pm_world_def DECIMAL_FACTOR_def

lemmas pm_trade_eval = pm_buy_outcome_def pm_sell_outcome_def pm_calculate_buy_amount_def pm_calculate_sell_amount_def pm_update_position_def
  pm_update_position_on_sell_def pm_sold_position_def pm_bought_position_def

lemmas pm_order_eval = pm_demo_def pm_place_order_def pm_lock_for_order_def pm_match_sell_order_def pm_fill_order_def pm_crosses_def upt_rec

abbreviation pm_sell_piece :: "mock_world pm_state \<Rightarrow> pm_error + i128 \<times> mock_world pm_state" where
  "pm_sell_piece \<equiv> pm_sell_outcome mock_world_transfer (pm_env 200) (Addr 8) 0 0 1 0"

text \<open>
  Without a trading fee a pool is drained by small sales: \<open>calculate_sell_amount\<close> rounds what it pays up.
  Ten units buy five tokens, and five sales of one token pay twelve.
\<close>

theorem pm_free_trading_drains:
  "\<exists>s s1 s2 s3 s4 s5. pm_buy_outcome mock_world_transfer (pm_env 200) (Addr 8) 0 0 10 0 (pm_opened 10 0) = Inr (5, s) \<and>
     pm_sell_piece s = Inr (4, s1) \<and> pm_sell_piece s1 = Inr (3, s2) \<and> pm_sell_piece s2 = Inr (2, s3) \<and>
     pm_sell_piece s3 = Inr (2, s4) \<and> pm_sell_piece s4 = Inr (1, s5) \<and>
     mock_world_balance (pm_tokens s5) (Addr 2) (Addr 8) = 1000002"
  by (simp add: pm_run_eval pm_trade_eval)

text \<open>
  Shares are recorded per market although every pool mints its own: shares of the first pool are accepted by
  the second, whose reserve and share supply become negative.
\<close>

theorem pm_shares_cross_pools:
  "\<exists>s s'. pm_add_liquidity mock_world_transfer (pm_env 200) (Addr 8) 0 0 20000 20000 (pm_opened 10000 30) = Inr (20000, s) \<and>
     pm_remove_liquidity mock_world_transfer (pm_env 200) (Addr 8) 0 1 20000 s = Inr ((20000, 20000), s') \<and>
     pm_pool s' (0, 1) = Some \<lparr>op_collateral_reserve = - 10000, op_outcome_reserve = - 10000, op_lp_total_supply = - 10000\<rparr>"
  by (simp add: pm_run_eval pm_add_liquidity_def pm_remove_liquidity_def pm_calculate_lp_shares_add_def pm_calculate_lp_withdraw_def)

text \<open>
  \<open>add_liquidity\<close> never debits the outcome tokens it adds to the reserve: a provider who holds none deposits
  collateral only and withdraws outcome tokens as well.
\<close>

theorem pm_liquidity_mints_outcome:
  "\<exists>s s'. pm_add_liquidity mock_world_transfer (pm_env 200) (Addr 8) 0 0 10000 10000 (pm_opened 10000 30) = Inr (10000, s) \<and>
     pm_remove_liquidity mock_world_transfer (pm_env 200) (Addr 8) 0 0 10000 s = Inr ((10000, 10000), s') \<and>
     pm_get_outcome_balance 0 0 (Addr 8) (pm_opened 10000 30) = 0 \<and> pm_get_outcome_balance 0 0 (Addr 8) s' = 10000 \<and>
     mock_world_balance (pm_tokens s') (Addr 2) (Addr 8) = 1000000"
  by (simp add: pm_run_eval pm_add_liquidity_def pm_remove_liquidity_def pm_calculate_lp_shares_add_def pm_calculate_lp_withdraw_def)

text \<open>
  A sell order locks nothing, and the debit of a match is cut off at zero: a seller of 906 tokens sells them
  all to the pool and fills a buy order of 100 with tokens that do not exist.
\<close>

theorem pm_unbacked_sell_order:
  "\<exists>s1 s2 s3 s4. pm_place_order mock_world_transfer mock_world_balance (pm_env 300) (Addr 8) 0 0 SideSell 500000000000000000 100 pm_demo = Inr (0, s1) \<and>
     pm_sell_outcome mock_world_transfer (pm_env 300) (Addr 8) 0 0 906 0 s1 = Inr (994, s2) \<and>
     pm_place_order mock_world_transfer mock_world_balance (pm_env 300) (Addr 9) 0 0 SideBuy 500000000000000000 100 s2 = Inr (Suc 0, s3) \<and>
     pm_match_sell_order mock_world_transfer (pm_env 300) (Addr 8) 0 0 s3 = Inr (50, s4) \<and>
     pm_get_outcome_balance 0 0 (Addr 8) s2 = 0 \<and> pm_get_outcome_balance 0 0 (Addr 9) s4 = 100 \<and>
     pm_get_total_outcome_supply 0 0 s4 = 0"
  by (simp add: pm_run_eval pm_trade_eval pm_order_eval)

text \<open>
  A match debits the seller by the cumulative fill of the order: two fills of 50 take 150 tokens.
\<close>

theorem pm_match_debits_again:
  "\<exists>s1 s2 s3 s4 s5.
     pm_place_order mock_world_transfer mock_world_balance (pm_env 300) (Addr 8) 0 0 SideSell 500000000000000000 200 pm_demo = Inr (0, s1) \<and>
     pm_place_order mock_world_transfer mock_world_balance (pm_env 300) (Addr 9) 0 0 SideBuy 500000000000000000 50 s1 = Inr (Suc 0, s2) \<and>
     pm_match_sell_order mock_world_transfer (pm_env 300) (Addr 8) 0 0 s2 = Inr (25, s3) \<and>
     pm_place_order mock_world_transfer mock_world_balance (pm_env 300) (Addr 9) 0 0 SideBuy 500000000000000000 50 s3 = Inr (2, s4) \<and>
     pm_match_sell_order mock_world_transfer (pm_env 300) (Addr 8) 0 0 s4 = Inr (25, s5) \<and>
     pm_get_outcome_balance 0 0 (Addr 9) s5 = 100 \<and> pm_get_outcome_balance 0 0 (Addr 8) s5 = 756"
  by (simp add: pm_run_eval pm_order_eval numeral_2_eq_2)

text \<open>
  Markets can be created before \<open>initialize\<close>, which then resets the counter: the next market takes the id of
  the first and replaces it with its pools, whose collateral nobody can reach any more.
\<close>

theorem pm_late_initialize_overwrites:
  "\<exists>s1 s2 s3. pm_create_market mock_world_transfer (pm_env 100) (Addr 7) (pm_params 10000 30) (pm_fresh pm_world) = Inr (0, s1) \<and>
     pm_initialize (pm_env 100) (Addr 5) (Addr 6) s1 = Inr ((), s2) \<and>
     pm_create_market mock_world_transfer (pm_env 100) (Addr 9) (pm_params 100 30) s2 = Inr (0, s3) \<and>
     pm_get_market_collateral 0 s1 = 20000 \<and> pm_get_market_collateral 0 s3 = 200 \<and>
     mock_world_balance (pm_tokens s3) (Addr 2) (Addr 0) = 20200"
proof -
  have root: "pm_isqrt 100000000 = Inr 10000" "pm_isqrt 10000 = Inr 100"
    using isqrt_of_square [of 10000] isqrt_of_square [of 100] by (simp_all add: pm_root_Inr i128_max_def)
  show ?thesis
    by (simp add: pm_run_eval pm_create_market_def pm_initialize_def pm_check_params_def root upt_rec
        MAX_OUTCOMES_def MAX_TRADING_FEE_BPS_def MIN_RESOLUTION_WINDOW_def MAX_RESOLUTION_WINDOW_def)
qed

end
