(* ===== verification/Collateral_Math.thy ===== *)
theory Collateral_Math
  imports Soroban_Host
begin

text \<open>
  The formulas of the collateral management contract (src/contracts/collateral-management/src/math.rs)
  with the records they read: utilisation, the kinked interest rate, simple interest, the health
  factor, and the collateral a liquidation seizes. A plain operation of the source that can leave
  \<open>i128\<close> is a checked one; sums and products of \<open>u32\<close> values computed in \<open>i128\<close> cannot.
\<close>

section \<open>Errors and records\<close>

datatype cm_error =
    CmAuth
  | CmAlreadyInitialized
  | CmUnauthorized
  | CmCollateralTypeNotFound
  | CmCollateralTypeInactive
  | CmCollateralTypeAlreadyExists
  | CmInsufficientCollateral
  | CmCollateralCapExceeded
  | CmCollateralPerUserExceeded
  | CmDebtCeilingExceeded
  | CmBorrowCapExceeded
  | CmHealthFactorInsufficient
  | CmWithdrawalWouldUndercollateralize
  | CmLoanNotFound
  | CmLoanAlreadyRepaid
  | CmLoanAlreadyLiquidated
  | CmRepaymentExceedsDebt
  | CmNoCollateralToSeize
  | CmOraclePriceUnavailable
  | CmOracleNotSet
  | CmOracleFailed
  | CmInvalidLtv
  | CmInvalidLiquidationParams
  | CmInvalidAmount
  | CmProtocolPaused
  | CmReentrancyDetected
  | CmTransferFailed
  | CmOverflow
  | CmDivision

definition cm_add :: "i128 \<Rightarrow> i128 \<Rightarrow> cm_error + i128" where
  "cm_add a b = ok_or CmOverflow (checked_add_i128 a b)"

definition cm_sub :: "i128 \<Rightarrow> i128 \<Rightarrow> cm_error + i128" where
  "cm_sub a b = ok_or CmOverflow (checked_sub_i128 a b)"

definition cm_mul :: "i128 \<Rightarrow> i128 \<Rightarrow> cm_error + i128" where
  "cm_mul a b = ok_or CmOverflow (checked_mul_i128 a b)"

definition cm_div :: "i128 \<Rightarrow> i128 \<Rightarrow> cm_error + i128" where
  "cm_div a b = ok_or CmDivision (checked_div_i128 a b)"

definition CM_BPS_DENOMINATOR :: i128 where
  "CM_BPS_DENOMINATOR = 10000"

definition SECONDS_PER_YEAR :: i128 where
  "SECONDS_PER_YEAR = 365 * 24 * 60 * 60"

record protocol_params =
  pp_debt_ceiling :: i128
  pp_liq_health_threshold_bps :: u32
  pp_base_interest_rate_bps :: u32
  pp_interest_slope1_bps :: u32
  pp_interest_slope2_bps :: u32
  pp_optimal_utilization_bps :: u32
  pp_max_borrow_per_user :: i128
  pp_max_collateral_per_user :: i128

record health_factor =
  hf_health_factor_bps :: i128
  hf_total_collateral_value :: i128
  hf_total_debt :: i128
  hf_is_healthy :: bool

section \<open>The formulas\<close>

definition cm_calculate_utilization :: "i128 \<Rightarrow> i128 \<Rightarrow> cm_error + u32" where
  "cm_calculate_utilization total_borrowed total_deposits =
     (if total_deposits \<le> 0 then Inr 0
      else
        and_then (cm_mul total_borrowed CM_BPS_DENOMINATOR) (\<lambda>scaled.
        and_then (cm_div scaled total_deposits) (\<lambda>util_bps.
        Inr (if util_bps > 10000 then 10000 else if util_bps < 0 then 0 else nat util_bps))))"

definition cm_calculate_interest_rate :: "protocol_params \<Rightarrow> u32 \<Rightarrow> u32" where
  "cm_calculate_interest_rate params utilization_bps =
     (let base = int (pp_base_interest_rate_bps params);
          slope1 = int (pp_interest_slope1_bps params);
          slope2 = int (pp_interest_slope2_bps params);
          optimal = int (pp_optimal_utilization_bps params);
          util = int utilization_bps in
      if optimal \<le> 0 then nat base
      else
        let rate_bps =
          (if util \<le> optimal then base + div_i128 (slope1 * util) optimal
           else
             let excess = util - optimal; max_excess = CM_BPS_DENOMINATOR - optimal in
             if max_excess \<le> 0 then base + slope1 + slope2
             else base + slope1 + div_i128 (slope2 * excess) max_excess) in
        nat (min rate_bps (int u32_max)))"

definition cm_calculate_accrued_interest :: "i128 \<Rightarrow> u32 \<Rightarrow> i128 \<Rightarrow> cm_error + i128" where
  "cm_calculate_accrued_interest principal_amount annual_rate_bps time_delta_seconds =
     (if principal_amount \<le> 0 \<or> annual_rate_bps = 0 \<or> time_delta_seconds \<le> 0 then Inr 0
      else
        and_then (cm_mul principal_amount (int annual_rate_bps)) (\<lambda>yearly.
        and_then (cm_mul yearly time_delta_seconds) (\<lambda>scaled.
        Inr (div_i128 scaled (CM_BPS_DENOMINATOR * SECONDS_PER_YEAR)))))"

definition cm_calculate_health_factor :: "i128 \<Rightarrow> i128 \<Rightarrow> u32 \<Rightarrow> cm_error + health_factor" where
  "cm_calculate_health_factor total_collateral_value total_debt weighted_threshold_bps =
     (if total_debt \<le> 0 then
        Inr \<lparr>hf_health_factor_bps = div_i128 i128_max 2, hf_total_collateral_value = total_collateral_value,
             hf_total_debt = 0, hf_is_healthy = True\<rparr>
      else if total_collateral_value \<le> 0 then
        Inr \<lparr>hf_health_factor_bps = 0, hf_total_collateral_value = 0, hf_total_debt = total_debt, hf_is_healthy = False\<rparr>
      else
        and_then (cm_mul total_collateral_value (int weighted_threshold_bps)) (\<lambda>scaled.
        let hf_bps = div_i128 scaled total_debt in
        Inr \<lparr>hf_health_factor_bps = hf_bps, hf_total_collateral_value = total_collateral_value,
             hf_total_debt = total_debt, hf_is_healthy = (hf_bps \<ge> CM_BPS_DENOMINATOR)\<rparr>))"

definition cm_calculate_max_borrow :: "i128 \<Rightarrow> u32 \<Rightarrow> cm_error + i128" where
  "cm_calculate_max_borrow collateral_value ltv_bps =
     and_then (cm_mul collateral_value (int ltv_bps)) (\<lambda>scaled. Inr (div_i128 scaled CM_BPS_DENOMINATOR))"

definition cm_calculate_liquidation_seizure :: "i128 \<Rightarrow> i128 \<Rightarrow> u32 \<Rightarrow> cm_error + i128 \<times> i128" where
  "cm_calculate_liquidation_seizure debt_to_cover collateral_price liquidation_bonus_bps =
     (if debt_to_cover \<le> 0 \<or> collateral_price \<le> 0 then Inr (0, 0)
      else
        let bonus_factor = CM_BPS_DENOMINATOR + int liquidation_bonus_bps in
        and_then (cm_mul debt_to_cover bonus_factor) (\<lambda>numerator.
        and_then (cm_mul collateral_price CM_BPS_DENOMINATOR) (\<lambda>denominator.
        and_then (cm_add numerator denominator) (\<lambda>sum.
        and_then (cm_sub sum 1) (\<lambda>padded.
        let collateral_seized = div_i128 padded denominator in
        and_then (cm_mul debt_to_cover (int liquidation_bonus_bps)) (\<lambda>bonus.
        Inr (collateral_seized, div_i128 bonus CM_BPS_DENOMINATOR)))))))"

text \<open>The cast \<open>as u32\<close> keeps the lowest 32 bits.\<close>

definition cm_as_u32 :: "i128 \<Rightarrow> u32" where
  "cm_as_u32 x = nat (x mod (int u32_max + 1))"

fun cm_weighted_sum :: "(i128 \<times> u32) list \<Rightarrow> i128 \<Rightarrow> cm_error + i128" where
  "cm_weighted_sum [] weighted_sum = Inr weighted_sum"
| "cm_weighted_sum ((value, threshold_bps) # rest) weighted_sum =
     and_then (cm_mul value (int threshold_bps)) (\<lambda>weight.
     and_then (cm_add weighted_sum weight) (cm_weighted_sum rest))"

definition cm_calculate_weighted_liquidation_threshold :: "(i128 \<times> u32) list \<Rightarrow> i128 \<Rightarrow> cm_error + u32" where
  "cm_calculate_weighted_liquidation_threshold collateral_values total_collateral_value =
     (if total_collateral_value \<le> 0 then Inr 0
      else
        and_then (cm_weighted_sum collateral_values 0) (\<lambda>weighted_sum.
        let weighted = div_i128 weighted_sum total_collateral_value in
        Inr (cm_as_u32 (min weighted (int u32_max)))))"

section \<open>What they compute\<close>

lemma cm_arith_Inr [result_iffs]:
  "cm_add a b = Inr c \<longleftrightarrow> c = a + b \<and> in_i128 (a + b)" "cm_sub a b = Inr c \<longleftrightarrow> c = a - b \<and> in_i128 (a - b)"
  "cm_mul a b = Inr c \<longleftrightarrow> c = a * b \<and> in_i128 (a * b)" "cm_div a b = Inr c \<longleftrightarrow> b \<noteq> 0 \<and> c = div_i128 a b \<and> in_i128 (div_i128 a b)"
  by (simp_all add: cm_add_def cm_sub_def cm_mul_def cm_div_def result_iffs)

lemma cm_year_pos: "0 < CM_BPS_DENOMINATOR * SECONDS_PER_YEAR"
  by (simp add: CM_BPS_DENOMINATOR_def SECONDS_PER_YEAR_def)

text \<open>Simple interest, rounded down.\<close>

definition cm_interest :: "int \<Rightarrow> nat \<Rightarrow> int \<Rightarrow> int" where
  "cm_interest p r d = (if p \<le> 0 \<or> d \<le> 0 then 0 else p * int r * d div (CM_BPS_DENOMINATOR * SECONDS_PER_YEAR))"

lemma cm_interest_nonneg: "0 \<le> cm_interest p r d"
  using cm_year_pos by (simp add: cm_interest_def pos_imp_zdiv_nonneg_iff)

lemma cm_accrued_Inr: "cm_calculate_accrued_interest p r d = Inr i \<Longrightarrow> i = cm_interest p r d"
  using cm_year_pos
  by (auto simp: cm_calculate_accrued_interest_def cm_interest_def result_iffs div_i128_nonneg split: if_splits)

lemma cm_health_Inr:
  assumes "cm_calculate_health_factor v d wt = Inr h" and "0 < d"
  shows "hf_health_factor_bps h = (if v \<le> 0 then 0 else v * int wt div d)" and "hf_total_debt h = d"
  using assms by (auto simp: cm_calculate_health_factor_def result_iffs Let_def div_i128_nonneg split: if_splits)

lemma cm_seizure_Inr:
  assumes "cm_calculate_liquidation_seizure d p b = Inr (seized, bonus)" and "0 < d" and "0 < p"
  shows "seized = (d * (10000 + int b) + p * 10000 - 1) div (p * 10000)" and "bonus = d * int b div 10000"
proof -
  have pos: "0 \<le> d * (10000 + int b)" "0 < p * 10000" using assms(2,3) by simp_all
  then have "0 \<le> d * (10000 + int b) + p * 10000 - 1" by linarith
  from div_i128_nonneg [OF this pos(2)] assms show "seized = (d * (10000 + int b) + p * 10000 - 1) div (p * 10000)"
    by (auto simp: cm_calculate_liquidation_seizure_def CM_BPS_DENOMINATOR_def result_iffs Let_def)
  from assms show "bonus = d * int b div 10000"
    by (auto simp: cm_calculate_liquidation_seizure_def CM_BPS_DENOMINATOR_def result_iffs Let_def div_i128_nonneg)
qed

end
