(* ===== verification/Collateral.thy ===== *)
theory Collateral
  imports Collateral_Math Rbac Mock_Token
begin

text \<open>
  The collateral management contract (src/contracts/collateral-management/src/lib.rs, storage.rs,
  types.rs): collateral deposits of several token types, loans against them with simple interest,
  and liquidation. One field of \<open>cm_state\<close> per storage key; \<open>cm_roles\<close> is the part of the instance
  storage that the shared role checks read, \<open>cm_tokens\<close> the state of the token contracts. The
  oracle contract that \<open>get_oracle_price\<close> invokes by its address is the parameter \<open>orc\<close>.
\<close>

section \<open>State\<close>

definition MAX_LTV_BPS :: u32 where
  "MAX_LTV_BPS = 9500"

definition MAX_LIQ_THRESHOLD_BPS :: u32 where
  "MAX_LIQ_THRESHOLD_BPS = 9800"

definition MAX_LIQ_BONUS_BPS :: u32 where
  "MAX_LIQ_BONUS_BPS = 2000"

record collateral_type_config =
  ct_token :: address
  ct_oracle_feed :: string
  ct_ltv_bps :: u32
  ct_liq_threshold_bps :: u32
  ct_liq_bonus_bps :: u32
  ct_collateral_cap :: i128
  ct_is_active :: bool
  ct_price_scale :: i128

record user_collateral =
  uc_user :: address
  uc_token :: address
  uc_amount :: i128
  uc_last_updated :: u64

record loan =
  ln_loan_id :: u64
  ln_borrower :: address
  ln_borrow_token :: address
  ln_principal :: i128
  ln_accrued_interest :: i128
  ln_total_debt :: i128
  ln_interest_rate_bps :: u32
  ln_created_at :: u64
  ln_last_accrual_update :: u64
  ln_is_liquidated :: bool
  ln_is_repaid :: bool

record 'w cm_state =
  cm_initialized :: bool
  cm_roles :: rb_state
  cm_oracle :: "address option"
  cm_treasury :: "address option"
  cm_loan_counter :: "u64 option"
  cm_config :: "address \<Rightarrow> collateral_type_config option"
  cm_collateral_tokens :: "address list option"
  cm_user_collateral :: "address \<times> address \<Rightarrow> user_collateral option"
  cm_params :: "protocol_params option"
  cm_total_debt :: "address \<Rightarrow> i128 option"
  cm_paused :: "bool option"
  cm_reentrancy_lock :: "bool option"
  cm_total_collateral :: "address \<Rightarrow> i128 option"
  cm_pool_deposits :: "address \<Rightarrow> i128 option"
  cm_loan :: "u64 \<Rightarrow> loan option"
  cm_user_loan_ids :: "address \<Rightarrow> u64 list option"
  cm_price_cache :: "string \<Rightarrow> i128 option"
  cm_tokens :: 'w

type_synonym price_oracle = "env \<Rightarrow> address \<Rightarrow> string \<Rightarrow> i128 option"

definition cm_fresh :: "'w \<Rightarrow> 'w cm_state" where
  "cm_fresh w = \<lparr>cm_initialized = False,
     cm_roles = \<lparr>rb_admin = None, rb_minters = None, rb_providers = (\<lambda>_. None), rb_governance = None, rb_kyc = None\<rparr>,
     cm_oracle = None, cm_treasury = None, cm_loan_counter = None, cm_config = (\<lambda>_. None), cm_collateral_tokens = None,
     cm_user_collateral = (\<lambda>_. None), cm_params = None, cm_total_debt = (\<lambda>_. None), cm_paused = None, cm_reentrancy_lock = None,
     cm_total_collateral = (\<lambda>_. None), cm_pool_deposits = (\<lambda>_. None), cm_loan = (\<lambda>_. None), cm_user_loan_ids = (\<lambda>_. None),
     cm_price_cache = (\<lambda>_. None), cm_tokens = w\<rparr>"

section \<open>Storage\<close>

definition cm_is_paused :: "'w cm_state \<Rightarrow> bool" where
  "cm_is_paused s = unwrap_or False (cm_paused s)"

definition cm_is_reentrancy_locked :: "'w cm_state \<Rightarrow> bool" where
  "cm_is_reentrancy_locked s = unwrap_or False (cm_reentrancy_lock s)"

definition cm_get_loan_counter :: "'w cm_state \<Rightarrow> u64" where
  "cm_get_loan_counter s = unwrap_or 0 (cm_loan_counter s)"

definition cm_set_collateral_config :: "collateral_type_config \<Rightarrow> 'w cm_state \<Rightarrow> 'w cm_state" where
  "cm_set_collateral_config config s = s\<lparr>cm_config := (cm_config s)(ct_token config \<mapsto> config)\<rparr>"

definition cm_get_collateral_tokens :: "'w cm_state \<Rightarrow> address list" where
  "cm_get_collateral_tokens s = unwrap_or [] (cm_collateral_tokens s)"

definition cm_add_collateral_token :: "address \<Rightarrow> 'w cm_state \<Rightarrow> 'w cm_state" where
  "cm_add_collateral_token token s = s\<lparr>cm_collateral_tokens := Some (cm_get_collateral_tokens s @ [token])\<rparr>"

definition cm_get_user_collateral :: "address \<Rightarrow> address \<Rightarrow> 'w cm_state \<Rightarrow> user_collateral" where
  "cm_get_user_collateral user token s =
     unwrap_or \<lparr>uc_user = user, uc_token = token, uc_amount = 0, uc_last_updated = 0\<rparr> (cm_user_collateral s (user, token))"

definition cm_set_user_collateral :: "user_collateral \<Rightarrow> 'w cm_state \<Rightarrow> 'w cm_state" where
  "cm_set_user_collateral c s = s\<lparr>cm_user_collateral := (cm_user_collateral s)((uc_user c, uc_token c) \<mapsto> c)\<rparr>"

definition cm_set_loan :: "loan \<Rightarrow> 'w cm_state \<Rightarrow> 'w cm_state" where
  "cm_set_loan l s = s\<lparr>cm_loan := (cm_loan s)(ln_loan_id l \<mapsto> l)\<rparr>"

definition cm_get_user_loan_ids :: "address \<Rightarrow> 'w cm_state \<Rightarrow> u64 list" where
  "cm_get_user_loan_ids user s = unwrap_or [] (cm_user_loan_ids s user)"

definition cm_add_user_loan_id :: "address \<Rightarrow> u64 \<Rightarrow> 'w cm_state \<Rightarrow> 'w cm_state" where
  "cm_add_user_loan_id user i s =
     s\<lparr>cm_user_loan_ids := (cm_user_loan_ids s)(user \<mapsto> cm_get_user_loan_ids user s @ [i])\<rparr>"

definition cm_get_protocol_params :: "'w cm_state \<Rightarrow> protocol_params" where
  "cm_get_protocol_params s =
     unwrap_or \<lparr>pp_debt_ceiling = 0, pp_liq_health_threshold_bps = 10000, pp_base_interest_rate_bps = 200,
       pp_interest_slope1_bps = 400, pp_interest_slope2_bps = 7500, pp_optimal_utilization_bps = 8000,
       pp_max_borrow_per_user = 0, pp_max_collateral_per_user = 0\<rparr> (cm_params s)"

definition cm_get_total_debt :: "address \<Rightarrow> 'w cm_state \<Rightarrow> i128" where
  "cm_get_total_debt token s = unwrap_or 0 (cm_total_debt s token)"

definition cm_set_total_debt :: "address \<Rightarrow> i128 \<Rightarrow> 'w cm_state \<Rightarrow> 'w cm_state" where
  "cm_set_total_debt token amount s = s\<lparr>cm_total_debt := (cm_total_debt s)(token \<mapsto> amount)\<rparr>"

definition cm_get_total_collateral_for_type :: "address \<Rightarrow> 'w cm_state \<Rightarrow> i128" where
  "cm_get_total_collateral_for_type token s = unwrap_or 0 (cm_total_collateral s token)"

definition cm_set_total_collateral_for_type :: "address \<Rightarrow> i128 \<Rightarrow> 'w cm_state \<Rightarrow> 'w cm_state" where
  "cm_set_total_collateral_for_type token amount s = s\<lparr>cm_total_collateral := (cm_total_collateral s)(token \<mapsto> amount)\<rparr>"

definition cm_get_lending_pool_deposits :: "address \<Rightarrow> 'w cm_state \<Rightarrow> i128" where
  "cm_get_lending_pool_deposits token s = unwrap_or 0 (cm_pool_deposits s token)"

lemmas cm_setters = cm_set_collateral_config_def cm_add_collateral_token_def cm_set_user_collateral_def cm_set_loan_def
  cm_add_user_loan_id_def cm_set_total_debt_def cm_set_total_collateral_for_type_def

lemmas cm_getters = cm_is_paused_def cm_is_reentrancy_locked_def cm_get_loan_counter_def cm_get_collateral_tokens_def
  cm_get_user_collateral_def cm_get_user_loan_ids_def cm_get_protocol_params_def cm_get_total_debt_def
  cm_get_total_collateral_for_type_def cm_get_lending_pool_deposits_def

section \<open>Checks and helpers\<close>

definition cm_transfer ::
  "'w token_transfer \<Rightarrow> env \<Rightarrow> address \<Rightarrow> address \<Rightarrow> address \<Rightarrow> i128 \<Rightarrow> 'w cm_state \<Rightarrow> cm_error + 'w cm_state" where
  "cm_transfer tr e tok src dst n s =
     and_then (call_token tr CmTransferFailed e tok src dst n (cm_tokens s)) (\<lambda>w. Inr (s\<lparr>cm_tokens := w\<rparr>))"

definition cm_assert_admin :: "address \<Rightarrow> 'w cm_state \<Rightarrow> cm_error + unit" where
  "cm_assert_admin caller s = map_sum (\<lambda>_. CmUnauthorized) id (rb_require_admin caller (cm_roles s))"

definition cm_check_paused :: "'w cm_state \<Rightarrow> cm_error + unit" where
  "cm_check_paused s = panic_if (cm_is_paused s) CmProtocolPaused"

definition cm_enter :: "'w cm_state \<Rightarrow> cm_error + 'w cm_state" where
  "cm_enter s = and_then (panic_if (cm_is_reentrancy_locked s) CmReentrancyDetected) (\<lambda>_. Inr (s\<lparr>cm_reentrancy_lock := Some True\<rparr>))"

definition cm_leave :: "'w cm_state \<Rightarrow> 'w cm_state" where
  "cm_leave s = s\<lparr>cm_reentrancy_lock := Some False\<rparr>"

definition cm_with_guard :: "('w cm_state \<Rightarrow> cm_error + 'w cm_state) \<Rightarrow> 'w cm_state \<Rightarrow> cm_error + unit \<times> 'w cm_state" where
  "cm_with_guard f s = and_then (cm_enter s) (\<lambda>s. and_then (f s) (\<lambda>s. Inr ((), cm_leave s)))"

definition cm_get_oracle_price :: "price_oracle \<Rightarrow> env \<Rightarrow> 'w cm_state \<Rightarrow> string \<Rightarrow> cm_error + i128" where
  "cm_get_oracle_price orc e s feed_id =
     (case cm_price_cache s feed_id of
        Some price \<Rightarrow> Inr price
      | None \<Rightarrow>
          and_then (ok_or CmOracleNotSet (cm_oracle s)) (\<lambda>oracle_addr.
          and_then (ok_or CmOracleFailed (orc e oracle_addr feed_id)) (\<lambda>result.
          and_then (panic_if (result \<le> 0) CmOraclePriceUnavailable) (\<lambda>_. Inr result))))"

text \<open>
  The body that four loops of the source share: the value of an amount of one collateral token, or
  nothing when the amount is not positive or the token has no configuration.
\<close>

definition cm_token_value ::
  "price_oracle \<Rightarrow> env \<Rightarrow> 'w cm_state \<Rightarrow> address \<Rightarrow> i128 \<Rightarrow> cm_error + (collateral_type_config \<times> i128) option" where
  "cm_token_value orc e s tok amt =
     (if amt > 0 then
        (case cm_config s tok of
           None \<Rightarrow> Inr None
         | Some cfg \<Rightarrow>
             and_then (cm_get_oracle_price orc e s (ct_oracle_feed cfg)) (\<lambda>price.
             and_then (cm_mul amt price) (\<lambda>scaled.
             and_then (cm_div scaled (ct_price_scale cfg)) (\<lambda>value.
             Inr (Some (cfg, value))))))
      else Inr None)"

fun cm_sum_values ::
  "price_oracle \<Rightarrow> env \<Rightarrow> 'w cm_state \<Rightarrow> (address \<Rightarrow> i128) \<Rightarrow> address list \<Rightarrow> i128 \<Rightarrow> cm_error + i128" where
  "cm_sum_values orc e s amounts [] so_far = Inr so_far"
| "cm_sum_values orc e s amounts (tok # toks) so_far =
     and_then (cm_token_value orc e s tok (amounts tok)) (\<lambda>v.
     case v of
       None \<Rightarrow> cm_sum_values orc e s amounts toks so_far
     | Some (cfg, value) \<Rightarrow> and_then (cm_add so_far value) (cm_sum_values orc e s amounts toks))"

fun cm_sum_weights ::
  "price_oracle \<Rightarrow> env \<Rightarrow> 'w cm_state \<Rightarrow> (address \<Rightarrow> i128) \<Rightarrow> address list \<Rightarrow> i128 \<Rightarrow> i128 \<Rightarrow> cm_error + i128 \<times> i128" where
  "cm_sum_weights orc e s amounts [] weighted_sum total_value = Inr (weighted_sum, total_value)"
| "cm_sum_weights orc e s amounts (tok # toks) weighted_sum total_value =
     and_then (cm_token_value orc e s tok (amounts tok)) (\<lambda>v.
     case v of
       None \<Rightarrow> cm_sum_weights orc e s amounts toks weighted_sum total_value
     | Some (cfg, value) \<Rightarrow>
         and_then (cm_add total_value value) (\<lambda>total_value.
         and_then (cm_mul value (int (ct_liq_threshold_bps cfg))) (\<lambda>weight.
         and_then (cm_add weighted_sum weight) (\<lambda>weighted_sum.
         cm_sum_weights orc e s amounts toks weighted_sum total_value))))"

definition cm_threshold_of :: "i128 \<times> i128 \<Rightarrow> u32" where
  "cm_threshold_of sums =
     (case sums of (weighted_sum, total_value) \<Rightarrow>
        if total_value \<le> 0 then 0 else cm_as_u32 (min (div_i128 weighted_sum total_value) (int u32_max)))"

text \<open>The amounts the loops read: the stored ones, or the stored ones with one token overridden.\<close>

definition cm_amounts :: "address \<Rightarrow> 'w cm_state \<Rightarrow> address \<Rightarrow> i128" where
  "cm_amounts user s tok = uc_amount (cm_get_user_collateral user tok s)"

definition cm_override :: "address \<Rightarrow> address \<Rightarrow> i128 \<Rightarrow> 'w cm_state \<Rightarrow> address \<Rightarrow> i128" where
  "cm_override user override_token override_amt s tok =
     (if tok = override_token then override_amt else uc_amount (cm_get_user_collateral user tok s))"

definition cm_total_collateral_value :: "price_oracle \<Rightarrow> env \<Rightarrow> address \<Rightarrow> 'w cm_state \<Rightarrow> cm_error + i128" where
  "cm_total_collateral_value orc e user s = cm_sum_values orc e s (cm_amounts user s) (cm_get_collateral_tokens s) 0"

definition cm_total_collateral_value_override ::
  "price_oracle \<Rightarrow> env \<Rightarrow> address \<Rightarrow> address \<Rightarrow> i128 \<Rightarrow> 'w cm_state \<Rightarrow> cm_error + i128" where
  "cm_total_collateral_value_override orc e user override_token override_amt s =
     cm_sum_values orc e s (cm_override user override_token override_amt s) (cm_get_collateral_tokens s) 0"

definition cm_weighted_threshold :: "price_oracle \<Rightarrow> env \<Rightarrow> address \<Rightarrow> 'w cm_state \<Rightarrow> cm_error + u32" where
  "cm_weighted_threshold orc e user s =
     and_then (cm_sum_weights orc e s (cm_amounts user s) (cm_get_collateral_tokens s) 0 0) (\<lambda>sums. Inr (cm_threshold_of sums))"

definition cm_weighted_threshold_override ::
  "price_oracle \<Rightarrow> env \<Rightarrow> address \<Rightarrow> address \<Rightarrow> i128 \<Rightarrow> 'w cm_state \<Rightarrow> cm_error + u32" where
  "cm_weighted_threshold_override orc e user override_token override_amt s =
     and_then (cm_sum_weights orc e s (cm_override user override_token override_amt s) (cm_get_collateral_tokens s) 0 0) (\<lambda>sums.
     Inr (cm_threshold_of sums))"

definition cm_better :: "address \<Rightarrow> (collateral_type_config \<times> i128) option \<Rightarrow> (address \<times> collateral_type_config \<times> i128) option \<Rightarrow>
   (address \<times> collateral_type_config \<times> i128) option" where
  "cm_better tok v best =
     (case v of
        None \<Rightarrow> best
      | Some (cfg, value) \<Rightarrow>
          (case best of
             None \<Rightarrow> Some (tok, cfg, value)
           | Some (_, _, best_val) \<Rightarrow> if value > best_val then Some (tok, cfg, value) else best))"

fun cm_scan_best ::
  "price_oracle \<Rightarrow> env \<Rightarrow> 'w cm_state \<Rightarrow> (address \<Rightarrow> i128) \<Rightarrow> address list \<Rightarrow> (address \<times> collateral_type_config \<times> i128) option \<Rightarrow>
   cm_error + (address \<times> collateral_type_config \<times> i128) option" where
  "cm_scan_best orc e s amounts [] best = Inr best"
| "cm_scan_best orc e s amounts (tok # toks) best =
     and_then (cm_token_value orc e s tok (amounts tok)) (\<lambda>v.
     cm_scan_best orc e s amounts toks (cm_better tok v best))"

definition cm_best_seize_collateral ::
  "price_oracle \<Rightarrow> env \<Rightarrow> address \<Rightarrow> 'w cm_state \<Rightarrow> cm_error + (address \<times> collateral_type_config) option" where
  "cm_best_seize_collateral orc e borrower s =
     and_then (cm_scan_best orc e s (cm_amounts borrower s) (cm_get_collateral_tokens s) None) (\<lambda>best.
     Inr (map_option (\<lambda>(tok, cfg, _). (tok, cfg)) best))"

definition cm_is_open :: "loan \<Rightarrow> bool" where
  "cm_is_open l \<longleftrightarrow> \<not> ln_is_liquidated l \<and> \<not> ln_is_repaid l"

fun cm_sum_debts :: "(loan \<Rightarrow> bool) \<Rightarrow> 'w cm_state \<Rightarrow> u64 list \<Rightarrow> i128 \<Rightarrow> cm_error + i128" where
  "cm_sum_debts counts s [] so_far = Inr so_far"
| "cm_sum_debts counts s (i # is) so_far =
     and_then (ok_or CmLoanNotFound (cm_loan s i)) (\<lambda>l.
     if counts l then and_then (cm_add so_far (ln_total_debt l)) (cm_sum_debts counts s is)
     else cm_sum_debts counts s is so_far)"

definition cm_user_total_debt :: "address \<Rightarrow> 'w cm_state \<Rightarrow> cm_error + i128" where
  "cm_user_total_debt user s =
     cm_sum_debts (\<lambda>l. cm_is_open l \<and> ln_borrower l = user) s (cm_get_user_loan_ids user s) 0"

definition cm_user_debt_for_token :: "address \<Rightarrow> address \<Rightarrow> 'w cm_state \<Rightarrow> cm_error + i128" where
  "cm_user_debt_for_token user token s =
     cm_sum_debts (\<lambda>l. cm_is_open l \<and> ln_borrower l = user \<and> ln_borrow_token l = token) s (cm_get_user_loan_ids user s) 0"

definition cm_calc_user_health :: "price_oracle \<Rightarrow> env \<Rightarrow> address \<Rightarrow> 'w cm_state \<Rightarrow> cm_error + health_factor" where
  "cm_calc_user_health orc e user s =
     and_then (cm_user_total_debt user s) (\<lambda>debt.
     and_then (cm_total_collateral_value orc e user s) (\<lambda>value.
     and_then (cm_weighted_threshold orc e user s) (\<lambda>wt.
     cm_calculate_health_factor value debt wt)))"

definition cm_require_user_loan :: "address \<Rightarrow> u64 \<Rightarrow> 'w cm_state \<Rightarrow> cm_error + loan" where
  "cm_require_user_loan borrower i s =
     (if vec_contains (cm_get_user_loan_ids borrower s) i then ok_or CmLoanNotFound (cm_loan s i) else Inl CmLoanNotFound)"

section \<open>Interest\<close>

definition cm_accrue_loan :: "env \<Rightarrow> loan \<Rightarrow> 'w cm_state \<Rightarrow> cm_error + loan \<times> 'w cm_state" where
  "cm_accrue_loan e l s =
     (if \<not> cm_is_open l then Inr (l, s)
      else
        let now = env_timestamp e; delta = int now - int (ln_last_accrual_update l) in
        if delta \<le> 0 then Inr (l, s)
        else
          and_then (cm_calculate_accrued_interest (ln_principal l) (ln_interest_rate_bps l) delta) (\<lambda>interest.
          if interest > 0 then
            and_then (cm_add (ln_accrued_interest l) interest) (\<lambda>accrued.
            and_then (cm_add (ln_principal l) accrued) (\<lambda>total.
            let l = l\<lparr>ln_accrued_interest := accrued, ln_total_debt := total, ln_last_accrual_update := now\<rparr> in
            and_then (cm_add (cm_get_total_debt (ln_borrow_token l) s) interest) (\<lambda>debt.
            Inr (l, cm_set_total_debt (ln_borrow_token l) debt s))))
          else Inr (l, s)))"

definition cm_accrue_one :: "env \<Rightarrow> address \<Rightarrow> u64 \<Rightarrow> 'w cm_state \<Rightarrow> cm_error + 'w cm_state" where
  "cm_accrue_one e borrower i s =
     and_then (cm_require_user_loan borrower i s) (\<lambda>l.
     and_then (cm_accrue_loan e l s) (\<lambda>(l, s). Inr (cm_set_loan l s)))"

fun cm_accrue_ids :: "env \<Rightarrow> address \<Rightarrow> u64 list \<Rightarrow> 'w cm_state \<Rightarrow> cm_error + 'w cm_state" where
  "cm_accrue_ids e borrower [] s = Inr s"
| "cm_accrue_ids e borrower (i # is) s = and_then (cm_accrue_one e borrower i s) (cm_accrue_ids e borrower is)"

definition cm_accrue_interest :: "env \<Rightarrow> address \<Rightarrow> u64 \<Rightarrow> 'w cm_state \<Rightarrow> cm_error + unit \<times> 'w cm_state" where
  "cm_accrue_interest e borrower i s = and_then (cm_accrue_one e borrower i s) (\<lambda>s. Inr ((), s))"

definition cm_accrue_all_interest :: "env \<Rightarrow> address \<Rightarrow> 'w cm_state \<Rightarrow> cm_error + unit \<times> 'w cm_state" where
  "cm_accrue_all_interest e borrower s =
     and_then (cm_accrue_ids e borrower (cm_get_user_loan_ids borrower s) s) (\<lambda>s. Inr ((), s))"

section \<open>Administration\<close>

definition cm_initialize :: "env \<Rightarrow> address \<Rightarrow> address \<Rightarrow> address option \<Rightarrow> 'w cm_state \<Rightarrow> cm_error + unit \<times> 'w cm_state" where
  "cm_initialize e admin oracle_addr treasury s =
     and_then (panic_if (cm_initialized s) CmAlreadyInitialized) (\<lambda>_.
     and_then (require_auth CmAuth e admin) (\<lambda>_.
     let s = s\<lparr>cm_roles := (cm_roles s)\<lparr>rb_admin := Some admin\<rparr>, cm_oracle := Some oracle_addr\<rparr>;
         s = (case treasury of None \<Rightarrow> s | Some t \<Rightarrow> s\<lparr>cm_treasury := Some t\<rparr>) in
     Inr ((), s\<lparr>cm_initialized := True, cm_paused := Some False, cm_reentrancy_lock := Some False, cm_loan_counter := Some 0\<rparr>)))"

definition cm_check_risk :: "u32 \<Rightarrow> u32 \<Rightarrow> u32 \<Rightarrow> cm_error + unit" where
  "cm_check_risk ltv_bps liq_threshold_bps liq_bonus_bps =
     and_then (panic_if (ltv_bps > MAX_LTV_BPS) CmInvalidLtv) (\<lambda>_.
     and_then (panic_if (liq_threshold_bps > MAX_LIQ_THRESHOLD_BPS \<or> liq_threshold_bps < ltv_bps) CmInvalidLiquidationParams) (\<lambda>_.
     panic_if (liq_bonus_bps > MAX_LIQ_BONUS_BPS) CmInvalidLiquidationParams))"

definition cm_register_collateral_type ::
  "env \<Rightarrow> address \<Rightarrow> address \<Rightarrow> string \<Rightarrow> u32 \<Rightarrow> u32 \<Rightarrow> u32 \<Rightarrow> i128 \<Rightarrow> i128 \<Rightarrow> 'w cm_state \<Rightarrow> cm_error + unit \<times> 'w cm_state" where
  "cm_register_collateral_type e admin token oracle_feed ltv_bps liq_threshold_bps liq_bonus_bps collateral_cap price_scale s =
     and_then (require_auth CmAuth e admin) (\<lambda>_.
     and_then (cm_assert_admin admin s) (\<lambda>_.
     and_then (cm_check_paused s) (\<lambda>_.
     and_then (panic_if (cm_config s token \<noteq> None) CmCollateralTypeAlreadyExists) (\<lambda>_.
     and_then (cm_check_risk ltv_bps liq_threshold_bps liq_bonus_bps) (\<lambda>_.
     and_then (panic_if (collateral_cap < 0 \<or> price_scale \<le> 0) CmInvalidAmount) (\<lambda>_.
     let config = \<lparr>ct_token = token, ct_oracle_feed = oracle_feed, ct_ltv_bps = ltv_bps, ct_liq_threshold_bps = liq_threshold_bps,
           ct_liq_bonus_bps = liq_bonus_bps, ct_collateral_cap = collateral_cap, ct_is_active = True, ct_price_scale = price_scale\<rparr> in
     Inr ((), cm_add_collateral_token token (cm_set_collateral_config config s))))))))"

definition cm_update_collateral_type ::
  "env \<Rightarrow> address \<Rightarrow> address \<Rightarrow> u32 \<Rightarrow> u32 \<Rightarrow> u32 \<Rightarrow> i128 \<Rightarrow> 'w cm_state \<Rightarrow> cm_error + unit \<times> 'w cm_state" where
  "cm_update_collateral_type e admin token ltv_bps liq_threshold_bps liq_bonus_bps collateral_cap s =
     and_then (require_auth CmAuth e admin) (\<lambda>_.
     and_then (cm_assert_admin admin s) (\<lambda>_.
     and_then (cm_check_paused s) (\<lambda>_.
     and_then (ok_or CmCollateralTypeNotFound (cm_config s token)) (\<lambda>config.
     and_then (cm_check_risk ltv_bps liq_threshold_bps liq_bonus_bps) (\<lambda>_.
     Inr ((), cm_set_collateral_config (config\<lparr>ct_ltv_bps := ltv_bps, ct_liq_threshold_bps := liq_threshold_bps,
       ct_liq_bonus_bps := liq_bonus_bps, ct_collateral_cap := collateral_cap\<rparr>) s))))))"

definition cm_switch_collateral_type :: "bool \<Rightarrow> env \<Rightarrow> address \<Rightarrow> address \<Rightarrow> 'w cm_state \<Rightarrow> cm_error + unit \<times> 'w cm_state" where
  "cm_switch_collateral_type active e admin token s =
     and_then (require_auth CmAuth e admin) (\<lambda>_.
     and_then (cm_assert_admin admin s) (\<lambda>_.
     and_then (ok_or CmCollateralTypeNotFound (cm_config s token)) (\<lambda>config.
     Inr ((), cm_set_collateral_config (config\<lparr>ct_is_active := active\<rparr>) s))))"

definition cm_deactivate_collateral_type :: "env \<Rightarrow> address \<Rightarrow> address \<Rightarrow> 'w cm_state \<Rightarrow> cm_error + unit \<times> 'w cm_state" where
  "cm_deactivate_collateral_type = cm_switch_collateral_type False"

definition cm_reactivate_collateral_type :: "env \<Rightarrow> address \<Rightarrow> address \<Rightarrow> 'w cm_state \<Rightarrow> cm_error + unit \<times> 'w cm_state" where
  "cm_reactivate_collateral_type = cm_switch_collateral_type True"

definition cm_set_protocol_parameters :: "env \<Rightarrow> address \<Rightarrow> protocol_params \<Rightarrow> 'w cm_state \<Rightarrow> cm_error + unit \<times> 'w cm_state" where
  "cm_set_protocol_parameters e admin params s =
     and_then (require_auth CmAuth e admin) (\<lambda>_.
     and_then (cm_assert_admin admin s) (\<lambda>_.
     Inr ((), s\<lparr>cm_params := Some params\<rparr>)))"

definition cm_set_price :: "env \<Rightarrow> address \<Rightarrow> string \<Rightarrow> i128 \<Rightarrow> 'w cm_state \<Rightarrow> cm_error + unit \<times> 'w cm_state" where
  "cm_set_price e admin feed_id price s =
     and_then (require_auth CmAuth e admin) (\<lambda>_.
     and_then (cm_assert_admin admin s) (\<lambda>_.
     and_then (panic_if (price \<le> 0) CmInvalidAmount) (\<lambda>_.
     Inr ((), s\<lparr>cm_price_cache := (cm_price_cache s)(feed_id \<mapsto> price)\<rparr>))))"

definition cm_set_pause :: "bool \<Rightarrow> env \<Rightarrow> address \<Rightarrow> 'w cm_state \<Rightarrow> cm_error + unit \<times> 'w cm_state" where
  "cm_set_pause paused e admin s =
     and_then (require_auth CmAuth e admin) (\<lambda>_.
     and_then (cm_assert_admin admin s) (\<lambda>_.
     Inr ((), s\<lparr>cm_paused := Some paused\<rparr>)))"

definition cm_pause :: "env \<Rightarrow> address \<Rightarrow> 'w cm_state \<Rightarrow> cm_error + unit \<times> 'w cm_state" where
  "cm_pause = cm_set_pause True"

definition cm_unpause :: "env \<Rightarrow> address \<Rightarrow> 'w cm_state \<Rightarrow> cm_error + unit \<times> 'w cm_state" where
  "cm_unpause = cm_set_pause False"

section \<open>Collateral\<close>

definition cm_check_caps :: "collateral_type_config \<Rightarrow> address \<Rightarrow> address \<Rightarrow> i128 \<Rightarrow> 'w cm_state \<Rightarrow> cm_error + unit" where
  "cm_check_caps config user token amount s =
     and_then (if ct_collateral_cap config > 0
               then and_then (cm_add (cm_get_total_collateral_for_type token s) amount) (\<lambda>total.
                    panic_if (total > ct_collateral_cap config) CmCollateralCapExceeded)
               else Inr ()) (\<lambda>_.
     if pp_max_collateral_per_user (cm_get_protocol_params s) > 0
     then and_then (cm_add (uc_amount (cm_get_user_collateral user token s)) amount) (\<lambda>total.
          panic_if (total > pp_max_collateral_per_user (cm_get_protocol_params s)) CmCollateralPerUserExceeded)
     else Inr ())"

definition cm_deposit_collateral ::
  "'w token_transfer \<Rightarrow> env \<Rightarrow> address \<Rightarrow> address \<Rightarrow> i128 \<Rightarrow> 'w cm_state \<Rightarrow> cm_error + unit \<times> 'w cm_state" where
  "cm_deposit_collateral tr e user token amount s =
     and_then (require_auth CmAuth e user) (\<lambda>_.
     and_then (cm_check_paused s) (\<lambda>_.
     and_then (panic_if (amount \<le> 0) CmInvalidAmount) (\<lambda>_.
     and_then (ok_or CmCollateralTypeNotFound (cm_config s token)) (\<lambda>config.
     and_then (panic_if (\<not> ct_is_active config) CmCollateralTypeInactive) (\<lambda>_.
     and_then (cm_check_caps config user token amount s) (\<lambda>_.
     and_then (cm_transfer tr e token user (env_self e) amount s) (\<lambda>s.
     let user_coll = cm_get_user_collateral user token s in
     and_then (cm_add (uc_amount user_coll) amount) (\<lambda>new_amount.
     let s = cm_set_user_collateral (user_coll\<lparr>uc_amount := new_amount, uc_last_updated := env_timestamp e\<rparr>) s in
     and_then (cm_add (cm_get_total_collateral_for_type token s) amount) (\<lambda>total.
     Inr ((), cm_set_total_collateral_for_type token total s))))))))))"

text \<open>The check of \<open>withdraw_internal\<close> that what remains still covers the debt.\<close>

definition cm_check_withdrawal :: "price_oracle \<Rightarrow> env \<Rightarrow> address \<Rightarrow> address \<Rightarrow> i128 \<Rightarrow> 'w cm_state \<Rightarrow> cm_error + unit" where
  "cm_check_withdrawal orc e user token remaining s =
     and_then (cm_user_total_debt user s) (\<lambda>total_debt.
     if total_debt > 0 then
       and_then (cm_total_collateral_value_override orc e user token remaining s) (\<lambda>total_value.
       and_then (cm_weighted_threshold_override orc e user token remaining s) (\<lambda>wt.
       and_then (cm_calculate_health_factor total_value total_debt wt) (\<lambda>hf.
       panic_if (hf_health_factor_bps hf < int (pp_liq_health_threshold_bps (cm_get_protocol_params s)))
         CmWithdrawalWouldUndercollateralize)))
     else Inr ())"

definition cm_withdraw_internal ::
  "'w token_transfer \<Rightarrow> price_oracle \<Rightarrow> env \<Rightarrow> address \<Rightarrow> address \<Rightarrow> i128 \<Rightarrow> 'w cm_state \<Rightarrow> cm_error + 'w cm_state" where
  "cm_withdraw_internal tr orc e user token amount s =
     and_then (panic_if (amount \<le> 0) CmInvalidAmount) (\<lambda>_.
     let user_coll = cm_get_user_collateral user token s in
     and_then (panic_if (uc_amount user_coll < amount) CmInsufficientCollateral) (\<lambda>_.
     and_then (cm_sub (uc_amount user_coll) amount) (\<lambda>remaining.
     and_then (cm_check_withdrawal orc e user token remaining s) (\<lambda>_.
     and_then (cm_transfer tr e token (env_self e) user amount s) (\<lambda>s.
     let s = cm_set_user_collateral (user_coll\<lparr>uc_amount := remaining, uc_last_updated := env_timestamp e\<rparr>) s in
     and_then (cm_sub (cm_get_total_collateral_for_type token s) amount) (\<lambda>total.
     Inr (cm_set_total_collateral_for_type token total s)))))))"

definition cm_withdraw_collateral ::
  "'w token_transfer \<Rightarrow> price_oracle \<Rightarrow> env \<Rightarrow> address \<Rightarrow> address \<Rightarrow> i128 \<Rightarrow> 'w cm_state \<Rightarrow> cm_error + unit \<times> 'w cm_state" where
  "cm_withdraw_collateral tr orc e user token amount s =
     and_then (require_auth CmAuth e user) (\<lambda>_.
     and_then (cm_check_paused s) (\<lambda>_.
     cm_with_guard (cm_withdraw_internal tr orc e user token amount) s))"

section \<open>Loans\<close>

definition cm_check_borrow_limits :: "address \<Rightarrow> address \<Rightarrow> i128 \<Rightarrow> 'w cm_state \<Rightarrow> cm_error + unit" where
  "cm_check_borrow_limits user borrow_token amount s =
     and_then (if pp_max_borrow_per_user (cm_get_protocol_params s) > 0
               then and_then (cm_user_debt_for_token user borrow_token s) (\<lambda>existing.
                    and_then (cm_add existing amount) (\<lambda>total.
                    panic_if (total > pp_max_borrow_per_user (cm_get_protocol_params s)) CmBorrowCapExceeded))
               else Inr ()) (\<lambda>_.
     if pp_debt_ceiling (cm_get_protocol_params s) > 0
     then and_then (cm_add (cm_get_total_debt borrow_token s) amount) (\<lambda>total.
          panic_if (total > pp_debt_ceiling (cm_get_protocol_params s)) CmDebtCeilingExceeded)
     else Inr ())"

definition cm_check_borrow_health :: "price_oracle \<Rightarrow> env \<Rightarrow> protocol_params \<Rightarrow> address \<Rightarrow> i128 \<Rightarrow> 'w cm_state \<Rightarrow> cm_error + unit" where
  "cm_check_borrow_health orc e params user amount s =
     and_then (cm_user_total_debt user s) (\<lambda>debt.
     and_then (cm_add debt amount) (\<lambda>total_debt_after.
     and_then (cm_total_collateral_value orc e user s) (\<lambda>total_collateral_value.
     if total_debt_after > 0 then
       and_then (panic_if (total_collateral_value \<le> 0) CmHealthFactorInsufficient) (\<lambda>_.
       and_then (cm_weighted_threshold orc e user s) (\<lambda>wt.
       and_then (cm_calculate_health_factor total_collateral_value total_debt_after wt) (\<lambda>hf.
       panic_if (hf_health_factor_bps hf < int (pp_liq_health_threshold_bps params)) CmHealthFactorInsufficient)))
     else Inr ())))"

definition cm_borrow_internal ::
  "'w token_transfer \<Rightarrow> price_oracle \<Rightarrow> env \<Rightarrow> address \<Rightarrow> address \<Rightarrow> i128 \<Rightarrow> 'w cm_state \<Rightarrow> cm_error + 'w cm_state" where
  "cm_borrow_internal tr orc e user borrow_token amount s =
     and_then (panic_if (amount \<le> 0) CmInvalidAmount) (\<lambda>_.
     let params = cm_get_protocol_params s in
     and_then (cm_check_borrow_limits user borrow_token amount s) (\<lambda>_.
     and_then (cm_accrue_ids e user (cm_get_user_loan_ids user s) s) (\<lambda>s.
     and_then (cm_check_borrow_health orc e params user amount s) (\<lambda>_.
     let debt = cm_get_total_debt borrow_token s in
     and_then (cm_calculate_utilization debt (cm_get_lending_pool_deposits borrow_token s)) (\<lambda>util.
     let rate = cm_calculate_interest_rate params util;
         loan_id = cm_get_loan_counter s;
         now = env_timestamp e;
         l = \<lparr>ln_loan_id = loan_id, ln_borrower = user, ln_borrow_token = borrow_token, ln_principal = amount,
              ln_accrued_interest = 0, ln_total_debt = amount, ln_interest_rate_bps = rate, ln_created_at = now,
              ln_last_accrual_update = now, ln_is_liquidated = False, ln_is_repaid = False\<rparr>;
         s = cm_add_user_loan_id user loan_id (cm_set_loan l s) in
     and_then (ok_or CmOverflow (checked_add_u64 loan_id 1)) (\<lambda>counter.
     let s = s\<lparr>cm_loan_counter := Some counter\<rparr> in
     and_then (cm_add debt amount) (\<lambda>new_debt.
     cm_transfer tr e borrow_token (env_self e) user amount (cm_set_total_debt borrow_token new_debt s))))))))"

definition cm_borrow ::
  "'w token_transfer \<Rightarrow> price_oracle \<Rightarrow> env \<Rightarrow> address \<Rightarrow> address \<Rightarrow> i128 \<Rightarrow> 'w cm_state \<Rightarrow> cm_error + unit \<times> 'w cm_state" where
  "cm_borrow tr orc e user borrow_token amount s =
     and_then (require_auth CmAuth e user) (\<lambda>_.
     and_then (cm_check_paused s) (\<lambda>_.
     cm_with_guard (cm_borrow_internal tr orc e user borrow_token amount) s))"

text \<open>How \<open>repay_internal\<close> and \<open>liquidate_internal\<close> book a payment on a loan: interest first, then principal.\<close>

definition cm_pay_down :: "(loan \<Rightarrow> loan) \<Rightarrow> i128 \<Rightarrow> loan \<Rightarrow> cm_error + loan" where
  "cm_pay_down close amount l =
     and_then (cm_sub (ln_total_debt l) amount) (\<lambda>new_debt.
     let interest_paid = min amount (ln_accrued_interest l) in
     and_then (cm_sub amount interest_paid) (\<lambda>principal_paid.
     and_then (cm_sub (ln_accrued_interest l) interest_paid) (\<lambda>accrued.
     and_then (cm_sub (ln_principal l) principal_paid) (\<lambda>remaining.
     let l = l\<lparr>ln_accrued_interest := accrued, ln_principal := remaining, ln_total_debt := new_debt\<rparr> in
     Inr (if new_debt \<le> 0 then (close l)\<lparr>ln_total_debt := 0, ln_principal := 0, ln_accrued_interest := 0\<rparr> else l)))))"

definition cm_open_user_loan :: "address \<Rightarrow> u64 \<Rightarrow> 'w cm_state \<Rightarrow> cm_error + loan" where
  "cm_open_user_loan borrower i s =
     and_then (cm_require_user_loan borrower i s) (\<lambda>l.
     and_then (panic_if (ln_is_liquidated l) CmLoanAlreadyLiquidated) (\<lambda>_.
     and_then (panic_if (ln_is_repaid l) CmLoanAlreadyRepaid) (\<lambda>_. Inr l)))"

definition cm_repay_internal ::
  "'w token_transfer \<Rightarrow> env \<Rightarrow> address \<Rightarrow> u64 \<Rightarrow> i128 \<Rightarrow> 'w cm_state \<Rightarrow> cm_error + 'w cm_state" where
  "cm_repay_internal tr e user i amount s =
     and_then (panic_if (amount \<le> 0) CmInvalidAmount) (\<lambda>_.
     and_then (cm_open_user_loan user i s) (\<lambda>l.
     and_then (cm_accrue_loan e l s) (\<lambda>(l, s).
     and_then (panic_if (amount > ln_total_debt l) CmRepaymentExceedsDebt) (\<lambda>_.
     and_then (cm_transfer tr e (ln_borrow_token l) user (env_self e) amount s) (\<lambda>s.
     and_then (cm_pay_down (ln_is_repaid_update (\<lambda>_. True)) amount l) (\<lambda>l.
     let s = cm_set_loan l s in
     and_then (cm_sub (cm_get_total_debt (ln_borrow_token l) s) amount) (\<lambda>debt.
     Inr (cm_set_total_debt (ln_borrow_token l) debt s))))))))"

definition cm_repay_loan ::
  "'w token_transfer \<Rightarrow> env \<Rightarrow> address \<Rightarrow> u64 \<Rightarrow> i128 \<Rightarrow> 'w cm_state \<Rightarrow> cm_error + unit \<times> 'w cm_state" where
  "cm_repay_loan tr e user i amount s =
     and_then (require_auth CmAuth e user) (\<lambda>_.
     and_then (cm_check_paused s) (\<lambda>_.
     cm_with_guard (cm_repay_internal tr e user i amount) s))"

text \<open>The checks of \<open>liquidate_internal\<close> and the collateral it chooses and seizes.\<close>

definition cm_seizure ::
  "price_oracle \<Rightarrow> env \<Rightarrow> address \<Rightarrow> i128 \<Rightarrow> 'w cm_state \<Rightarrow> cm_error + address \<times> i128" where
  "cm_seizure orc e borrower actual_covered s =
     and_then (cm_best_seize_collateral orc e borrower s) (\<lambda>best.
     and_then (ok_or CmNoCollateralToSeize best) (\<lambda>(coll_token, coll_config).
     and_then (cm_get_oracle_price orc e s (ct_oracle_feed coll_config)) (\<lambda>oracle_price.
     and_then (cm_calculate_liquidation_seizure actual_covered oracle_price (ct_liq_bonus_bps coll_config)) (\<lambda>(coll_seized, bonus).
     and_then (panic_if (uc_amount (cm_get_user_collateral borrower coll_token s) < coll_seized) CmNoCollateralToSeize) (\<lambda>_.
     Inr (coll_token, coll_seized))))))"

definition cm_liquidate_internal ::
  "'w token_transfer \<Rightarrow> price_oracle \<Rightarrow> env \<Rightarrow> address \<Rightarrow> address \<Rightarrow> u64 \<Rightarrow> i128 \<Rightarrow> 'w cm_state \<Rightarrow> cm_error + 'w cm_state" where
  "cm_liquidate_internal tr orc e liquidator borrower i debt_to_cover s =
     and_then (panic_if (debt_to_cover \<le> 0) CmInvalidAmount) (\<lambda>_.
     and_then (cm_open_user_loan borrower i s) (\<lambda>l.
     and_then (cm_accrue_loan e l s) (\<lambda>(l, s).
     and_then (cm_calc_user_health orc e borrower s) (\<lambda>hf.
     and_then (panic_if (hf_health_factor_bps hf \<ge> int (pp_liq_health_threshold_bps (cm_get_protocol_params s)))
                 CmHealthFactorInsufficient) (\<lambda>_.
     let actual_covered = min debt_to_cover (ln_total_debt l) in
     and_then (cm_seizure orc e borrower actual_covered s) (\<lambda>(coll_token, coll_seized).
     let user_coll = cm_get_user_collateral borrower coll_token s in
     and_then (cm_transfer tr e (ln_borrow_token l) liquidator (env_self e) actual_covered s) (\<lambda>s.
     and_then (cm_transfer tr e coll_token (env_self e) liquidator coll_seized s) (\<lambda>s.
     and_then (cm_sub (uc_amount user_coll) coll_seized) (\<lambda>remaining.
     let s = cm_set_user_collateral (user_coll\<lparr>uc_amount := remaining, uc_last_updated := env_timestamp e\<rparr>) s in
     and_then (cm_sub (cm_get_total_collateral_for_type coll_token s) coll_seized) (\<lambda>total.
     let s = cm_set_total_collateral_for_type coll_token total s in
     and_then (cm_pay_down (ln_is_liquidated_update (\<lambda>_. True)) actual_covered l) (\<lambda>l.
     let s = cm_set_loan l s in
     and_then (cm_sub (cm_get_total_debt (ln_borrow_token l) s) actual_covered) (\<lambda>debt.
     Inr (cm_set_total_debt (ln_borrow_token l) debt s)))))))))))))"

definition cm_liquidate ::
  "'w token_transfer \<Rightarrow> price_oracle \<Rightarrow> env \<Rightarrow> address \<Rightarrow> address \<Rightarrow> u64 \<Rightarrow> i128 \<Rightarrow> 'w cm_state \<Rightarrow> cm_error + unit \<times> 'w cm_state" where
  "cm_liquidate tr orc e liquidator borrower i debt_to_cover s =
     and_then (require_auth CmAuth e liquidator) (\<lambda>_.
     and_then (cm_check_paused s) (\<lambda>_.
     cm_with_guard (cm_liquidate_internal tr orc e liquidator borrower i debt_to_cover) s))"

section \<open>Views\<close>

definition cm_get_interest_rate :: "address \<Rightarrow> 'w cm_state \<Rightarrow> cm_error + u32" where
  "cm_get_interest_rate borrow_token s =
     and_then (cm_calculate_utilization (cm_get_total_debt borrow_token s) (cm_get_lending_pool_deposits borrow_token s)) (\<lambda>util.
     Inr (cm_calculate_interest_rate (cm_get_protocol_params s) util))"

definition cm_get_health_factor :: "price_oracle \<Rightarrow> env \<Rightarrow> address \<Rightarrow> 'w cm_state \<Rightarrow> cm_error + health_factor" where
  "cm_get_health_factor orc e user s = cm_calc_user_health orc e user s"

definition cm_get_user_loan :: "address \<Rightarrow> u64 \<Rightarrow> 'w cm_state \<Rightarrow> cm_error + loan" where
  "cm_get_user_loan borrower i s = cm_require_user_loan borrower i s"

definition cm_get_collateral_type :: "address \<Rightarrow> 'w cm_state \<Rightarrow> cm_error + collateral_type_config" where
  "cm_get_collateral_type token s = ok_or CmCollateralTypeNotFound (cm_config s token)"

definition cm_can_liquidate :: "price_oracle \<Rightarrow> env \<Rightarrow> address \<Rightarrow> u64 \<Rightarrow> 'w cm_state \<Rightarrow> cm_error + bool" where
  "cm_can_liquidate orc e borrower i s =
     and_then (cm_require_user_loan borrower i s) (\<lambda>l.
     if ln_is_liquidated l \<or> ln_is_repaid l then Inr False
     else
       and_then (cm_calc_user_health orc e borrower s) (\<lambda>hf.
       Inr (hf_health_factor_bps hf < int (pp_liq_health_threshold_bps (cm_get_protocol_params s)))))"

section \<open>The contract as a transition system\<close>

datatype cm_call =
    CmInitialize address address "address option"
  | CmRegister address address string u32 u32 u32 i128 i128
  | CmUpdate address address u32 u32 u32 i128
  | CmDeactivate address address
  | CmReactivate address address
  | CmSetParams address protocol_params
  | CmSetPrice address string i128
  | CmPause address
  | CmUnpause address
  | CmDeposit address address i128
  | CmWithdraw address address i128
  | CmBorrow address address i128
  | CmRepay address u64 i128
  | CmLiquidate address address u64 i128
  | CmAccrue address u64
  | CmAccrueAll address

fun cm_exec :: "'w token_transfer \<Rightarrow> price_oracle \<Rightarrow> env \<Rightarrow> cm_call \<Rightarrow> 'w cm_state \<Rightarrow> 'w cm_state option" where
  "cm_exec tr orc e (CmInitialize a orc_addr t) s = state_of (cm_initialize e a orc_addr t s)"
| "cm_exec tr orc e (CmRegister a k f l h b c p) s = state_of (cm_register_collateral_type e a k f l h b c p s)"
| "cm_exec tr orc e (CmUpdate a k l h b c) s = state_of (cm_update_collateral_type e a k l h b c s)"
| "cm_exec tr orc e (CmDeactivate a k) s = state_of (cm_deactivate_collateral_type e a k s)"
| "cm_exec tr orc e (CmReactivate a k) s = state_of (cm_reactivate_collateral_type e a k s)"
| "cm_exec tr orc e (CmSetParams a p) s = state_of (cm_set_protocol_parameters e a p s)"
| "cm_exec tr orc e (CmSetPrice a f p) s = state_of (cm_set_price e a f p s)"
| "cm_exec tr orc e (CmPause a) s = state_of (cm_pause e a s)"
| "cm_exec tr orc e (CmUnpause a) s = state_of (cm_unpause e a s)"
| "cm_exec tr orc e (CmDeposit u k n) s = state_of (cm_deposit_collateral tr e u k n s)"
| "cm_exec tr orc e (CmWithdraw u k n) s = state_of (cm_withdraw_collateral tr orc e u k n s)"
| "cm_exec tr orc e (CmBorrow u k n) s = state_of (cm_borrow tr orc e u k n s)"
| "cm_exec tr orc e (CmRepay u i n) s = state_of (cm_repay_loan tr e u i n s)"
| "cm_exec tr orc e (CmLiquidate l b i n) s = state_of (cm_liquidate tr orc e l b i n s)"
| "cm_exec tr orc e (CmAccrue b i) s = state_of (cm_accrue_interest e b i s)"
| "cm_exec tr orc e (CmAccrueAll b) s = state_of (cm_accrue_all_interest e b s)"

end
