(* ===== verification/Collateral_Correct.thy ===== *)
theory Collateral_Correct
  imports Collateral
begin

text \<open>
  What the operations of the collateral management contract do and the invariant they keep. The
  parts of the invariant are predicates on the storage maps they talk about (deposits, loans, setup),
  so that an update of any other field keeps them by simplification.
\<close>

section \<open>The invariant\<close>

definition cm_deposit_in :: "address \<Rightarrow> address \<times> address \<Rightarrow> user_collateral \<Rightarrow> int" where
  "cm_deposit_in t k c = (if snd k = t then uc_amount c else 0)"

definition cm_coll_ok :: "(address \<times> address \<Rightarrow> user_collateral option) \<Rightarrow> (address \<Rightarrow> i128 option) \<Rightarrow> bool" where
  "cm_coll_ok coll totals \<longleftrightarrow> finite (dom coll) \<and>
     (\<forall>u t c. coll (u, t) = Some c \<longrightarrow> uc_user c = u \<and> uc_token c = t \<and> 0 \<le> uc_amount c) \<and>
     (\<forall>t. unwrap_or 0 (totals t) = key_sum (cm_deposit_in t) coll)"

definition cm_debt_in :: "address \<Rightarrow> loan \<Rightarrow> int" where
  "cm_debt_in t l = (if ln_borrow_token l = t then ln_total_debt l else 0)"

definition cm_lent_in :: "address \<Rightarrow> loan \<Rightarrow> int" where
  "cm_lent_in t l = (if ln_borrow_token l = t then ln_principal l else 0)"

definition cm_loan_ok :: "loan \<Rightarrow> bool" where
  "cm_loan_ok l \<longleftrightarrow> 0 \<le> ln_principal l \<and> 0 \<le> ln_accrued_interest l \<and> ln_total_debt l = ln_principal l + ln_accrued_interest l \<and>
     (if cm_is_open l then 0 < ln_total_debt l else ln_total_debt l = 0) \<and> \<not> (ln_is_liquidated l \<and> ln_is_repaid l)"

definition cm_loans_ok :: "(u64 \<Rightarrow> loan option) \<Rightarrow> (address \<Rightarrow> u64 list option) \<Rightarrow> u64 \<Rightarrow> (address \<Rightarrow> i128 option) \<Rightarrow> bool" where
  "cm_loans_ok loans ids n debts \<longleftrightarrow> finite (dom loans) \<and>
     (\<forall>i l. loans i = Some l \<longrightarrow> ln_loan_id l = i \<and> i < n \<and> cm_loan_ok l \<and> i \<in> set (unwrap_or [] (ids (ln_borrower l)))) \<and>
     (\<forall>u. distinct (unwrap_or [] (ids u)) \<and> (\<forall>i\<in>set (unwrap_or [] (ids u)). \<exists>l. loans i = Some l \<and> ln_borrower l = u)) \<and>
     (\<forall>t. unwrap_or 0 (debts t) = entry_sum (cm_debt_in t) loans)"

definition cm_config_ok :: "address \<Rightarrow> collateral_type_config \<Rightarrow> bool" where
  "cm_config_ok t c \<longleftrightarrow> ct_token c = t \<and> 0 < ct_price_scale c \<and> ct_ltv_bps c \<le> ct_liq_threshold_bps c \<and>
     ct_liq_threshold_bps c \<le> MAX_LIQ_THRESHOLD_BPS \<and> ct_liq_bonus_bps c \<le> MAX_LIQ_BONUS_BPS"

definition cm_setup_ok ::
  "bool \<Rightarrow> address option \<Rightarrow> (address \<Rightarrow> collateral_type_config option) \<Rightarrow> address list option \<Rightarrow> (string \<Rightarrow> i128 option) \<Rightarrow>
   (address \<Rightarrow> i128 option) \<Rightarrow> bool" where
  "cm_setup_ok started admin configs tokens prices deposits \<longleftrightarrow>
     (\<forall>t c. configs t = Some c \<longrightarrow> cm_config_ok t c) \<and> distinct (unwrap_or [] tokens) \<and> set (unwrap_or [] tokens) = dom configs \<and>
     (\<forall>f p. prices f = Some p \<longrightarrow> 0 < p) \<and> deposits = (\<lambda>_. None) \<and> (\<not> started \<longrightarrow> admin = None \<and> configs = (\<lambda>_. None))"

definition cm_core :: "'w cm_state \<Rightarrow> bool" where
  "cm_core s \<longleftrightarrow> cm_coll_ok (cm_user_collateral s) (cm_total_collateral s) \<and>
     cm_loans_ok (cm_loan s) (cm_user_loan_ids s) (unwrap_or 0 (cm_loan_counter s)) (cm_total_debt s) \<and>
     cm_setup_ok (cm_initialized s) (rb_admin (cm_roles s)) (cm_config s) (cm_collateral_tokens s) (cm_price_cache s) (cm_pool_deposits s) \<and>
     (cm_initialized s \<or> cm_loan s = (\<lambda>_. None))"

lemma cm_core_parts:
  assumes "cm_core s"
  shows "cm_coll_ok (cm_user_collateral s) (cm_total_collateral s)"
    and "cm_loans_ok (cm_loan s) (cm_user_loan_ids s) (unwrap_or 0 (cm_loan_counter s)) (cm_total_debt s)"
    and "cm_setup_ok (cm_initialized s) (rb_admin (cm_roles s)) (cm_config s) (cm_collateral_tokens s) (cm_price_cache s) (cm_pool_deposits s)"
    and "cm_initialized s \<or> cm_loan s = (\<lambda>_. None)"
  using assms by (simp_all add: cm_core_def)

lemma cm_core_fresh: "cm_core (cm_fresh w)"
  by (simp add: cm_core_def cm_fresh_def cm_coll_ok_def cm_loans_ok_def cm_setup_ok_def)

section \<open>Deposits\<close>

lemma cm_coll_user:
  assumes "cm_coll_ok (cm_user_collateral s) totals"
  shows "uc_user (cm_get_user_collateral u t s) = u" and "uc_token (cm_get_user_collateral u t s) = t"
    and "0 \<le> uc_amount (cm_get_user_collateral u t s)"
  using assms by (cases "cm_user_collateral s (u, t)"; simp add: cm_get_user_collateral_def cm_coll_ok_def)+

text \<open>One deposit is changed and its total by the same amount.\<close>

lemma cm_coll_ok_upd:
  assumes ok: "cm_coll_ok coll totals" and "uc_user c = u" and "uc_token c = t" and "0 \<le> uc_amount c"
    and "x = uc_amount c - (case coll (u, t) of None \<Rightarrow> 0 | Some c0 \<Rightarrow> uc_amount c0)"
  shows "cm_coll_ok (coll((u, t) \<mapsto> c)) (totals(t \<mapsto> unwrap_or 0 (totals t) + x))"
proof -
  have fin: "finite (dom coll)" and tot: "\<And>t. unwrap_or 0 (totals t) = key_sum (cm_deposit_in t) coll"
    using ok by (auto simp: cm_coll_ok_def)
  have "unwrap_or 0 ((totals(t \<mapsto> unwrap_or 0 (totals t) + x)) t') = key_sum (cm_deposit_in t') (coll((u, t) \<mapsto> c))" for t'
    by (cases "coll (u, t)") (simp_all add: key_sum_upd [OF fin] tot assms(5) cm_deposit_in_def)
  with ok fin assms(2-4) show ?thesis by (auto simp: cm_coll_ok_def)
qed

lemma cm_deposit_le_total:
  assumes "cm_coll_ok (cm_user_collateral s) (cm_total_collateral s)"
  shows "uc_amount (cm_get_user_collateral u t s) \<le> cm_get_total_collateral_for_type t s"
proof (cases "cm_user_collateral s (u, t)")
  case None
  have "0 \<le> key_sum (cm_deposit_in t) (cm_user_collateral s)"
    using assms by (intro key_sum_nonneg) (auto simp: cm_coll_ok_def cm_deposit_in_def)
  with None assms show ?thesis by (simp add: cm_get_user_collateral_def cm_get_total_collateral_for_type_def cm_coll_ok_def)
next
  case (Some c)
  have "cm_deposit_in t (u, t) c \<le> key_sum (cm_deposit_in t) (cm_user_collateral s)"
    using assms Some by (intro key_sum_ge_entry) (auto simp: cm_coll_ok_def cm_deposit_in_def)
  with Some assms show ?thesis
    by (simp add: cm_get_user_collateral_def cm_get_total_collateral_for_type_def cm_coll_ok_def cm_deposit_in_def)
qed

section \<open>Loans\<close>

lemma cm_loans_okD:
  assumes "cm_loans_ok loans ids n debts" and "loans i = Some l"
  shows "ln_loan_id l = i" and "i < n" and "cm_loan_ok l" and "i \<in> set (unwrap_or [] (ids (ln_borrower l)))"
  using assms by (auto simp: cm_loans_ok_def)

lemma cm_loans_ok_ids:
  assumes "cm_loans_ok loans ids n debts" and "i \<in> set (unwrap_or [] (ids u))"
  shows "\<exists>l. loans i = Some l \<and> ln_borrower l = u"
  using assms unfolding cm_loans_ok_def by blast

text \<open>A loan is changed in place, and the debt of its token by the change of its debt.\<close>

lemma cm_loans_ok_upd:
  assumes ok: "cm_loans_ok loans ids n debts" and old: "loans i = Some l" and "cm_loan_ok l'"
    and same: "ln_loan_id l' = ln_loan_id l" "ln_borrower l' = ln_borrower l" "ln_borrow_token l' = ln_borrow_token l"
    and debts: "\<And>t. unwrap_or 0 (debts' t) = unwrap_or 0 (debts t) + (if t = ln_borrow_token l then ln_total_debt l' - ln_total_debt l else 0)"
  shows "cm_loans_ok (loans(i \<mapsto> l')) ids n debts'"
proof -
  have fin: "finite (dom loans)" and tot: "\<And>t. unwrap_or 0 (debts t) = entry_sum (cm_debt_in t) loans"
    using ok by (auto simp: cm_loans_ok_def)
  have "unwrap_or 0 (debts' t) = entry_sum (cm_debt_in t) (loans(i \<mapsto> l'))" for t
    by (simp add: debts entry_sum_upd [OF fin] tot old cm_debt_in_def same)
  moreover have "\<exists>k. (loans(i \<mapsto> l')) j = Some k \<and> ln_borrower k = u" if "j \<in> set (unwrap_or [] (ids u))" for j u
    using cm_loans_ok_ids [OF ok that] by (cases "j = i") (auto simp: old same)
  ultimately show ?thesis
    using ok cm_loans_okD [OF ok old] assms(3) fin same by (auto simp: cm_loans_ok_def)
qed

text \<open>A new loan takes the next id.\<close>

lemma cm_loans_ok_new:
  assumes ok: "cm_loans_ok loans ids n debts" and "ln_loan_id l = n" and "cm_loan_ok l" and "ln_borrower l = u" and "ln_borrow_token l = tok"
  shows "cm_loans_ok (loans(n \<mapsto> l)) (ids(u \<mapsto> unwrap_or [] (ids u) @ [n])) (Suc n) (debts(tok \<mapsto> unwrap_or 0 (debts tok) + ln_total_debt l))"
proof -
  have fin: "finite (dom loans)" and tot: "\<And>t. unwrap_or 0 (debts t) = entry_sum (cm_debt_in t) loans"
    using ok by (auto simp: cm_loans_ok_def)
  have new: "loans n = None" using ok by (cases "loans n") (auto simp: cm_loans_ok_def)
  have fresh: "n \<notin> set (unwrap_or [] (ids v))" for v using cm_loans_ok_ids [OF ok, of n v] new by auto
  have "unwrap_or 0 ((debts(tok \<mapsto> unwrap_or 0 (debts tok) + ln_total_debt l)) t) = entry_sum (cm_debt_in t) (loans(n \<mapsto> l))" for t
    using assms(5) by (simp add: entry_sum_upd [OF fin] tot new cm_debt_in_def)
  moreover have "ln_loan_id k = j \<and> j < Suc n \<and> cm_loan_ok k \<and> j \<in> set (unwrap_or [] ((ids(u \<mapsto> unwrap_or [] (ids u) @ [n])) (ln_borrower k)))"
    if "(loans(n \<mapsto> l)) j = Some k" for j k
  proof (cases "j = n")
    case True
    with that assms(2-4) show ?thesis by simp
  next
    case False
    with that have "loans j = Some k" by simp
    from cm_loans_okD [OF ok this] show ?thesis by auto
  qed
  moreover have "distinct (unwrap_or [] ((ids(u \<mapsto> unwrap_or [] (ids u) @ [n])) v)) \<and>
      (\<forall>j\<in>set (unwrap_or [] ((ids(u \<mapsto> unwrap_or [] (ids u) @ [n])) v)). \<exists>k. (loans(n \<mapsto> l)) j = Some k \<and> ln_borrower k = v)" for v
  proof -
    have "distinct (unwrap_or [] (ids v))" using ok by (simp add: cm_loans_ok_def)
    moreover have "\<exists>k. (loans(n \<mapsto> l)) j = Some k \<and> ln_borrower k = v" if "j \<in> set (unwrap_or [] (ids v))" for j
      using cm_loans_ok_ids [OF ok that] fresh [of v] that by (metis fun_upd_other)
    moreover have "\<exists>k. (loans(n \<mapsto> l)) n = Some k \<and> ln_borrower k = u" using assms(4) by simp
    ultimately show ?thesis using fresh [of v] by (cases "v = u") (simp_all del: fun_upd_apply add: fun_upd_same fun_upd_other)
  qed
  ultimately show ?thesis using fin by (simp add: cm_loans_ok_def)
qed

lemma cm_require_user_loan_Inr:
  "cm_require_user_loan u i s = Inr l \<longleftrightarrow> i \<in> set (cm_get_user_loan_ids u s) \<and> cm_loan s i = Some l"
  by (auto simp: cm_require_user_loan_def result_iffs vec_contains_iff)

lemma cm_open_user_loan_Inr:
  "cm_open_user_loan u i s = Inr l \<longleftrightarrow> i \<in> set (cm_get_user_loan_ids u s) \<and> cm_loan s i = Some l \<and> cm_is_open l"
  by (auto simp: cm_open_user_loan_def result_iffs cm_require_user_loan_Inr cm_is_open_def)

lemma cm_user_loan_owner:
  assumes "cm_loans_ok (cm_loan s) (cm_user_loan_ids s) n debts" and "i \<in> set (cm_get_user_loan_ids u s)" and "cm_loan s i = Some l"
  shows "ln_borrower l = u"
  using cm_loans_ok_ids [OF assms(1) assms(2) [unfolded cm_get_user_loan_ids_def]] assms(3) by auto

section \<open>Accrual\<close>

definition cm_due :: "env \<Rightarrow> loan \<Rightarrow> int" where
  "cm_due e l = (if cm_is_open l then cm_interest (ln_principal l) (ln_interest_rate_bps l) (int (env_timestamp e) - int (ln_last_accrual_update l)) else 0)"

lemma cm_due_nonneg: "0 \<le> cm_due e l"
  by (simp add: cm_due_def cm_interest_nonneg)

definition cm_accrued :: "env \<Rightarrow> loan \<Rightarrow> loan" where
  "cm_accrued e l = (if 0 < cm_due e l then l\<lparr>ln_accrued_interest := ln_accrued_interest l + cm_due e l,
     ln_total_debt := ln_principal l + (ln_accrued_interest l + cm_due e l), ln_last_accrual_update := env_timestamp e\<rparr> else l)"

lemma cm_accrue_loan_Inr:
  assumes "cm_accrue_loan e l s = Inr (l', s')"
  shows "l' = cm_accrued e l"
    and "s' = (if 0 < cm_due e l then cm_set_total_debt (ln_borrow_token l) (cm_get_total_debt (ln_borrow_token l) s + cm_due e l) s else s)"
proof -
  have "cm_due e l = 0" if "int (env_timestamp e) - int (ln_last_accrual_update l) \<le> 0"
    using that by (simp add: cm_due_def cm_interest_def)
  with assms show "l' = cm_accrued e l"
    and "s' = (if 0 < cm_due e l then cm_set_total_debt (ln_borrow_token l) (cm_get_total_debt (ln_borrow_token l) s + cm_due e l) s else s)"
    by (auto simp: cm_accrue_loan_def cm_accrued_def cm_due_def Let_def result_iffs split: if_splits dest!: cm_accrued_Inr)
qed

lemma cm_accrued_simps [simp]:
  "ln_loan_id (cm_accrued e l) = ln_loan_id l" "ln_borrower (cm_accrued e l) = ln_borrower l"
  "ln_borrow_token (cm_accrued e l) = ln_borrow_token l" "ln_principal (cm_accrued e l) = ln_principal l"
  "ln_interest_rate_bps (cm_accrued e l) = ln_interest_rate_bps l" "ln_created_at (cm_accrued e l) = ln_created_at l"
  "ln_is_liquidated (cm_accrued e l) = ln_is_liquidated l" "ln_is_repaid (cm_accrued e l) = ln_is_repaid l"
  "cm_is_open (cm_accrued e l) = cm_is_open l"
  "ln_accrued_interest (cm_accrued e l) = ln_accrued_interest l + cm_due e l"
  using cm_due_nonneg [of e l] by (auto simp: cm_accrued_def cm_is_open_def)

lemma cm_accrued_debt: "cm_loan_ok l \<Longrightarrow> ln_total_debt (cm_accrued e l) = ln_total_debt l + cm_due e l"
  using cm_due_nonneg [of e l] by (auto simp: cm_accrued_def cm_loan_ok_def)

lemma cm_accrued_ok: "cm_loan_ok l \<Longrightarrow> cm_loan_ok (cm_accrued e l)"
  using cm_due_nonneg [of e l] cm_accrued_debt [of l e] by (auto simp: cm_loan_ok_def cm_due_def)

lemma cm_accrued_state:
  assumes "cm_accrue_loan e l s = Inr (l', s')"
  obtains debts where "s' = s\<lparr>cm_total_debt := debts\<rparr>"
    and "\<And>t. unwrap_or 0 (debts t) = cm_get_total_debt t s + (if t = ln_borrow_token l then cm_due e l else 0)"
proof (cases "0 < cm_due e l")
  case True
  show ?thesis
    by (rule that [where debts = "(cm_total_debt s)(ln_borrow_token l \<mapsto> cm_get_total_debt (ln_borrow_token l) s + cm_due e l)"])
       (use True in \<open>simp_all add: cm_accrue_loan_Inr(2) [OF assms] cm_set_total_debt_def cm_get_total_debt_def\<close>)
next
  case False
  then have "cm_due e l = 0" using cm_due_nonneg [of e l] by simp
  then show ?thesis
    by (intro that [where debts = "cm_total_debt s"]) (simp_all add: cm_accrue_loan_Inr(2) [OF assms] cm_get_total_debt_def)
qed

text \<open>What accruing one loan, and all loans of a list, changes: the loans and the debts of their tokens.\<close>

definition cm_ledger :: "'w cm_state \<Rightarrow> 'w cm_state" where
  "cm_ledger s = s\<lparr>cm_loan := (\<lambda>_. None), cm_total_debt := (\<lambda>_. None)\<rparr>"

lemma cm_ledger_fields:
  assumes "cm_ledger s' = cm_ledger s"
  shows "cm_initialized s' = cm_initialized s" and "cm_roles s' = cm_roles s" and "cm_oracle s' = cm_oracle s" and "cm_treasury s' = cm_treasury s"
    and "cm_loan_counter s' = cm_loan_counter s" and "cm_config s' = cm_config s" and "cm_collateral_tokens s' = cm_collateral_tokens s"
    and "cm_user_collateral s' = cm_user_collateral s" and "cm_params s' = cm_params s" and "cm_paused s' = cm_paused s"
    and "cm_reentrancy_lock s' = cm_reentrancy_lock s" and "cm_total_collateral s' = cm_total_collateral s" and "cm_pool_deposits s' = cm_pool_deposits s"
    and "cm_user_loan_ids s' = cm_user_loan_ids s" and "cm_price_cache s' = cm_price_cache s" and "cm_tokens s' = cm_tokens s"
  using assms unfolding cm_ledger_def by (cases s, cases s', simp)+

lemma cm_accrue_one_Inr:
  assumes core: "cm_core s" and run: "cm_accrue_one e u i s = Inr s'"
  obtains l debts where "cm_loan s i = Some l" and "ln_borrower l = u" and "i \<in> set (cm_get_user_loan_ids u s)"
    and "s' = s\<lparr>cm_loan := (cm_loan s)(i \<mapsto> cm_accrued e l), cm_total_debt := debts\<rparr>" and "cm_core s'"
proof -
  obtain l l' s1 where l: "i \<in> set (cm_get_user_loan_ids u s)" "cm_loan s i = Some l" and acc: "cm_accrue_loan e l s = Inr (l', s1)"
    and s': "s' = cm_set_loan l' s1"
    using run by (auto simp: cm_accrue_one_def result_iffs cm_require_user_loan_Inr)
  note ok = cm_core_parts(2) [OF core] and l' = cm_accrue_loan_Inr(1) [OF acc]
  obtain debts where s1: "s1 = s\<lparr>cm_total_debt := debts\<rparr>"
    and debts: "\<And>t. unwrap_or 0 (debts t) = cm_get_total_debt t s + (if t = ln_borrow_token l then cm_due e l else 0)"
    by (rule cm_accrued_state [OF acc]) blast
  have id: "ln_loan_id l = i" and lok: "cm_loan_ok l" using cm_loans_okD [OF ok l(2)] by simp_all
  have st: "s' = s\<lparr>cm_loan := (cm_loan s)(i \<mapsto> cm_accrued e l), cm_total_debt := debts\<rparr>"
    by (simp add: s' s1 l' cm_set_loan_def id)
  have "cm_loans_ok ((cm_loan s)(i \<mapsto> cm_accrued e l)) (cm_user_loan_ids s) (unwrap_or 0 (cm_loan_counter s)) debts"
    by (rule cm_loans_ok_upd [OF ok l(2) cm_accrued_ok [OF lok]]) (simp_all add: debts cm_get_total_debt_def cm_accrued_debt [OF lok])
  then have "cm_core s'" using core l(2) by (auto simp: cm_core_def st)
  then show ?thesis using that l st cm_user_loan_owner [OF ok l] by blast
qed

lemma cm_accrued_idem: "cm_accrued e (cm_accrued e l) = cm_accrued e l"
proof (cases "0 < cm_due e l")
  case True
  then have "cm_due e (cm_accrued e l) = 0" by (simp add: cm_accrued_def cm_due_def cm_interest_def cm_is_open_def split: if_splits)
  then show ?thesis by (simp add: cm_accrued_def)
qed (simp add: cm_accrued_def)

definition cm_touched :: "env \<Rightarrow> 'w cm_state \<Rightarrow> 'w cm_state \<Rightarrow> bool" where
  "cm_touched e s s' \<longleftrightarrow> cm_ledger s' = cm_ledger s \<and>
     (\<forall>i. cm_loan s' i = cm_loan s i \<or> (\<exists>l. cm_loan s i = Some l \<and> cm_loan s' i = Some (cm_accrued e l)))"

lemma cm_touched_ledger: "cm_touched e s s' \<Longrightarrow> cm_ledger s' = cm_ledger s"
  by (simp add: cm_touched_def)

lemmas cm_touched_fields = cm_ledger_fields [OF cm_touched_ledger]

lemma cm_touched_refl [simp]: "cm_touched e s s"
  by (simp add: cm_touched_def)

lemma cm_touched_trans:
  assumes "cm_touched e s s'" and "cm_touched e s' s''"
  shows "cm_touched e s s''"
  unfolding cm_touched_def
proof (intro conjI allI)
  show "cm_ledger s'' = cm_ledger s" using assms by (simp add: cm_touched_def)
  fix i
  from assms have a: "cm_loan s' i = cm_loan s i \<or> (\<exists>l. cm_loan s i = Some l \<and> cm_loan s' i = Some (cm_accrued e l))"
    and b: "cm_loan s'' i = cm_loan s' i \<or> (\<exists>l. cm_loan s' i = Some l \<and> cm_loan s'' i = Some (cm_accrued e l))"
    by (simp_all add: cm_touched_def)
  from b show "cm_loan s'' i = cm_loan s i \<or> (\<exists>l. cm_loan s i = Some l \<and> cm_loan s'' i = Some (cm_accrued e l))"
    using a by (elim disjE exE conjE) (auto simp: cm_accrued_idem)
qed

lemma cm_touched_back:
  assumes "cm_touched e s s'" and "cm_loan s' i = Some l'"
  obtains l where "cm_loan s i = Some l" and "l' = l \<or> l' = cm_accrued e l"
  using assms unfolding cm_touched_def by (metis option.inject)

lemma cm_accrue_ids_Inr:
  "cm_core s \<Longrightarrow> cm_accrue_ids e u is s = Inr s' \<Longrightarrow> cm_core s' \<and> cm_touched e s s'"
proof (induction "is" arbitrary: s)
  case (Cons i "is")
  obtain s1 where one: "cm_accrue_one e u i s = Inr s1" and rest: "cm_accrue_ids e u is s1 = Inr s'"
    using Cons.prems(2) by (auto simp: result_iffs)
  have "cm_core s1 \<and> cm_touched e s s1"
    using Cons.prems(1) one by (rule cm_accrue_one_Inr) (simp add: cm_touched_def cm_ledger_def)
  with Cons.IH [OF _ rest] show ?case using cm_touched_trans by blast
qed simp

definition cm_lent :: "address \<Rightarrow> (u64 \<Rightarrow> loan option) \<Rightarrow> int" where
  "cm_lent t loans = entry_sum (cm_lent_in t) loans"

lemma cm_lent_upd:
  "finite (dom loans) \<Longrightarrow> cm_lent t (loans(i \<mapsto> l)) = cm_lent t loans - (case loans i of None \<Rightarrow> 0 | Some k \<Rightarrow> cm_lent_in t k) + cm_lent_in t l"
  by (simp add: cm_lent_def entry_sum_upd)

lemma cm_lent_touched:
  assumes "cm_touched e s s'"
  shows "cm_lent t (cm_loan s') = cm_lent t (cm_loan s)"
proof -
  have at: "cm_loan s' i = cm_loan s i \<or> (\<exists>l. cm_loan s i = Some l \<and> cm_loan s' i = Some (cm_accrued e l))" for i
    using assms by (simp add: cm_touched_def)
  have "i \<in> dom (cm_loan s') \<longleftrightarrow> i \<in> dom (cm_loan s)" for i using at [of i] by (cases "cm_loan s i") auto
  then have "dom (cm_loan s') = dom (cm_loan s)" by blast
  moreover have "cm_lent_in t (the (cm_loan s' i)) = cm_lent_in t (the (cm_loan s i))" for i
    using at [of i] by (elim disjE exE conjE) (simp_all add: cm_lent_in_def)
  ultimately show ?thesis unfolding cm_lent_def entry_sum_def by (intro sum.cong) simp_all
qed

section \<open>Payments on a loan\<close>

lemma cm_pay_down_Inr:
  assumes run: "cm_pay_down close n l = Inr l'" and ok: "cm_loan_ok l" and isopen: "cm_is_open l" and "0 < n" and "n \<le> ln_total_debt l"
    and close: "close = ln_is_repaid_update (\<lambda>_. True) \<or> close = ln_is_liquidated_update (\<lambda>_. True)"
  shows "l' = (let k = l\<lparr>ln_accrued_interest := ln_accrued_interest l - min n (ln_accrued_interest l),
      ln_principal := ln_principal l - (n - min n (ln_accrued_interest l)), ln_total_debt := ln_total_debt l - n\<rparr> in
      if n = ln_total_debt l then close k else k)" (is ?eq)
    and "cm_loan_ok l'"
proof -
  have l: "ln_total_debt l = ln_principal l + ln_accrued_interest l" "0 \<le> ln_principal l" "0 \<le> ln_accrued_interest l"
    using ok by (simp_all add: cm_loan_ok_def)
  show eq: ?eq
    using run close assms(4,5) l by (cases l) (auto simp: cm_pay_down_def result_iffs Let_def min_def split: if_splits)
  have "0 \<le> ln_principal l - (n - min n (ln_accrued_interest l))" using assms(4,5) l by (auto simp: min_def)
  then show "cm_loan_ok l'"
    using close assms(4,5) l isopen unfolding eq Let_def by (auto simp: cm_loan_ok_def cm_is_open_def)
qed

lemma cm_pay_down_fields:
  assumes "cm_pay_down close n l = Inr l'" and "cm_loan_ok l" and "cm_is_open l" and "0 < n" and "n \<le> ln_total_debt l"
    and close: "close = ln_is_repaid_update (\<lambda>_. True) \<or> close = ln_is_liquidated_update (\<lambda>_. True)"
  shows "ln_loan_id l' = ln_loan_id l" and "ln_borrower l' = ln_borrower l" and "ln_borrow_token l' = ln_borrow_token l"
    and "ln_total_debt l' = ln_total_debt l - n" and "ln_principal l' = ln_principal l - (n - min n (ln_accrued_interest l))"
    and "ln_interest_rate_bps l' = ln_interest_rate_bps l" and "ln_created_at l' = ln_created_at l"
    and "cm_is_open l' \<longleftrightarrow> n < ln_total_debt l"
  using assms(3,5) close by (auto simp: cm_pay_down_Inr(1) [OF assms] Let_def cm_is_open_def)

section \<open>The loops over collateral\<close>

lemma cm_loops_cong:
  assumes "cm_config s' = cm_config s" and "cm_price_cache s' = cm_price_cache s" and "cm_oracle s' = cm_oracle s"
  shows "cm_get_oracle_price orc e s' = cm_get_oracle_price orc e s" and "cm_token_value orc e s' = cm_token_value orc e s"
    and "cm_sum_values orc e s' a toks n = cm_sum_values orc e s a toks n" and "cm_sum_weights orc e s' a toks m n = cm_sum_weights orc e s a toks m n"
    and "cm_scan_best orc e s' a toks best = cm_scan_best orc e s a toks best"
proof -
  show "cm_get_oracle_price orc e s' = cm_get_oracle_price orc e s" by (auto simp: cm_get_oracle_price_def assms fun_eq_iff split: option.split)
  then show v: "cm_token_value orc e s' = cm_token_value orc e s" by (auto simp: cm_token_value_def assms fun_eq_iff split: option.split)
  show "cm_sum_values orc e s' a toks n = cm_sum_values orc e s a toks n"
    by (induction toks arbitrary: n) (auto simp: v intro!: and_then_cong split: option.splits)
  show "cm_sum_weights orc e s' a toks m n = cm_sum_weights orc e s a toks m n"
    by (induction toks arbitrary: m n) (auto simp: v intro!: and_then_cong split: option.splits)
  show "cm_scan_best orc e s' a toks best = cm_scan_best orc e s a toks best"
    by (induction toks arbitrary: best) (auto simp: v intro!: and_then_cong)
qed

text \<open>A value that counts is that of a configured token at a positive price.\<close>

definition cm_worth :: "price_oracle \<Rightarrow> env \<Rightarrow> 'w cm_state \<Rightarrow> address \<Rightarrow> i128 \<Rightarrow> i128" where
  "cm_worth orc e s tok n =
     (case cm_token_value orc e s tok n of Inr (Some (cfg, v)) \<Rightarrow> v | _ \<Rightarrow> 0)"

lemma cm_price_pos:
  assumes "cm_setup_ok b a c ts (cm_price_cache s) d" and "cm_get_oracle_price orc e s f = Inr p"
  shows "0 < p"
  using assms by (auto simp: cm_get_oracle_price_def cm_setup_ok_def result_iffs split: option.splits)

lemma cm_token_value_Some:
  assumes "cm_setup_ok b a (cm_config s) ts (cm_price_cache s) d" and "cm_token_value orc e s tok n = Inr (Some (cfg, v))"
  shows "cm_config s tok = Some cfg" and "cm_config_ok tok cfg" and "0 \<le> v" and "0 < n" and "cm_worth orc e s tok n = v"
    and "\<exists>p. cm_get_oracle_price orc e s (ct_oracle_feed cfg) = Inr p \<and> 0 < p \<and> v = n * p div ct_price_scale cfg"
proof -
  obtain p where p: "cm_config s tok = Some cfg" "0 < n" "cm_get_oracle_price orc e s (ct_oracle_feed cfg) = Inr p"
      "v = div_i128 (n * p) (ct_price_scale cfg)"
    using assms(2) by (auto simp: cm_token_value_def result_iffs split: if_splits option.splits)
  have pos: "0 < p" by (rule cm_price_pos [OF assms(1) p(3)])
  have cfg: "cm_config_ok tok cfg" using assms(1) p(1) by (simp add: cm_setup_ok_def)
  then have v: "v = n * p div ct_price_scale cfg" using p(2,4) pos by (simp add: cm_config_ok_def div_i128_nonneg)
  show "cm_config s tok = Some cfg" "cm_config_ok tok cfg" "0 < n" "cm_worth orc e s tok n = v" using p cfg assms(2) by (simp_all add: cm_worth_def)
  show "0 \<le> v" using v p(2) pos cfg by (simp add: cm_config_ok_def pos_imp_zdiv_nonneg_iff)
  show "\<exists>p. cm_get_oracle_price orc e s (ct_oracle_feed cfg) = Inr p \<and> 0 < p \<and> v = n * p div ct_price_scale cfg" using p(3) pos v by blast
qed

text \<open>The weighted loop sums the same values, and its weights are at most the largest threshold.\<close>

lemma cm_sum_weights_Inr:
  assumes conf: "cm_setup_ok b a (cm_config s) ts (cm_price_cache s) d"
  shows "cm_sum_weights orc e s amt toks ws tv = Inr (ws', tv') \<Longrightarrow> 0 \<le> ws \<Longrightarrow> ws \<le> 9800 * tv \<Longrightarrow>
    cm_sum_values orc e s amt toks tv = Inr tv' \<and> 0 \<le> ws' \<and> ws' \<le> 9800 * tv'"
proof (induction toks arbitrary: ws tv)
  case (Cons tok toks)
  obtain v where v: "cm_token_value orc e s tok (amt tok) = Inr v" using Cons.prems(1) by (auto simp: result_iffs)
  show ?case
  proof (cases v)
    case None
    with Cons v show ?thesis by simp
  next
    case (Some x)
    obtain cfg y where x: "x = (cfg, y)" by (cases x)
    note tv_facts = cm_token_value_Some [OF conf v [unfolded Some x]]
    have le: "y * int (ct_liq_threshold_bps cfg) \<le> y * 9800"
      using tv_facts(2,3) by (intro mult_left_mono) (simp_all add: cm_config_ok_def MAX_LIQ_THRESHOLD_BPS_def)
    have nonneg: "0 \<le> y * int (ct_liq_threshold_bps cfg)" using tv_facts(3) by simp
    have rest: "cm_sum_weights orc e s amt toks (ws + y * int (ct_liq_threshold_bps cfg)) (tv + y) = Inr (ws', tv')"
      and fits: "in_i128 (tv + y)"
      using Cons.prems(1) by (auto simp: v Some x result_iffs)
    from Cons.IH [OF rest] le nonneg Cons.prems(2,3) show ?thesis by (simp add: v Some x cm_add_def checked_add_i128_def narrow_i128_def fits)
  qed
qed simp

lemma cm_threshold_bound:
  assumes "0 \<le> ws" and "ws \<le> 9800 * tv"
  shows "int (cm_threshold_of (ws, tv)) \<le> 9800"
proof (cases "tv \<le> 0")
  case False
  then have "ws div tv \<le> 9800" using assms(2) zdiv_mono1 [of ws "9800 * tv" tv] by simp
  moreover have "0 \<le> ws div tv" using False assms(1) by (simp add: pos_imp_zdiv_nonneg_iff)
  ultimately show ?thesis
    using False assms(1) by (simp add: cm_threshold_of_def div_i128_nonneg cm_as_u32_def u32_max_def min_def)
qed (simp add: cm_threshold_of_def)

end
