(* ===== verification/Collateral_Books.thy ===== *)
theory Collateral_Books
  imports Collateral_Correct
begin

text \<open>
  The transition system of the collateral management contract: what each call does on success, and
  that every call keeps the invariant together with the backing of the deposits, which the contract
  holds itself or has lent out.
\<close>

section \<open>What the calls do\<close>

lemma cm_transfer_Inr [result_iffs]:
  "cm_transfer tr e tok src dst n s = Inr s' \<longleftrightarrow> (\<exists>w. tr e tok src dst n (cm_tokens s) = Some w \<and> s' = s\<lparr>cm_tokens := w\<rparr>)"
  by (auto simp: cm_transfer_def result_iffs)

lemma cm_assert_admin_Inr [result_iffs]: "cm_assert_admin a s = Inr u \<longleftrightarrow> rb_admin (cm_roles s) = Some a"
  by (cases "rb_admin (cm_roles s)")
     (auto simp: cm_assert_admin_def rb_require_admin_def rb_get_admin_def panic_if_def)

lemma cm_check_paused_Inr [result_iffs]: "cm_check_paused s = Inr u \<longleftrightarrow> \<not> cm_is_paused s"
  by (simp add: cm_check_paused_def result_iffs)

interpretation cmg: reentrancy_guard cm_enter cm_leave cm_is_reentrancy_locked
  by unfold_locales (auto simp: cm_enter_def cm_leave_def cm_is_reentrancy_locked_def result_iffs)

lemma cm_with_guard_Inr:
  assumes "cm_with_guard f s = Inr (u, s')"
  obtains s1 where "\<not> cm_is_reentrancy_locked s" and "f (s\<lparr>cm_reentrancy_lock := Some True\<rparr>) = Inr s1" and "s' = cm_leave s1"
  using assms by (auto simp: cm_with_guard_def cm_enter_def result_iffs)

lemma cm_deposit_Inr:
  assumes core: "cm_core s" and run: "cm_deposit_collateral tr e u tok n s = Inr (r, s')"
  obtains cfg w' where "env_auth e u" and "0 < n" and "cm_config s tok = Some cfg" and "ct_is_active cfg"
    and "0 < ct_collateral_cap cfg \<Longrightarrow> cm_get_total_collateral_for_type tok s + n \<le> ct_collateral_cap cfg"
    and "tr e tok u (env_self e) n (cm_tokens s) = Some w'"
    and "s' = s\<lparr>cm_tokens := w',
      cm_user_collateral := (cm_user_collateral s)((u, tok) \<mapsto>
        (cm_get_user_collateral u tok s)\<lparr>uc_amount := uc_amount (cm_get_user_collateral u tok s) + n, uc_last_updated := env_timestamp e\<rparr>),
      cm_total_collateral := (cm_total_collateral s)(tok \<mapsto> cm_get_total_collateral_for_type tok s + n)\<rparr>"
    and "in_i128 (uc_amount (cm_get_user_collateral u tok s) + n)" and "in_i128 (cm_get_total_collateral_for_type tok s + n)"
proof -
  note keys = cm_coll_user [OF cm_core_parts(1) [OF core], of u tok]
  obtain cfg w' where c: "env_auth e u" "0 < n" "cm_config s tok = Some cfg" "ct_is_active cfg" "cm_check_caps cfg u tok n s = Inr ()"
      "tr e tok u (env_self e) n (cm_tokens s) = Some w'"
      "s' = s\<lparr>cm_tokens := w',
      cm_user_collateral := (cm_user_collateral s)((u, tok) \<mapsto>
        (cm_get_user_collateral u tok s)\<lparr>uc_amount := uc_amount (cm_get_user_collateral u tok s) + n, uc_last_updated := env_timestamp e\<rparr>),
      cm_total_collateral := (cm_total_collateral s)(tok \<mapsto> cm_get_total_collateral_for_type tok s + n)\<rparr>"
      "in_i128 (uc_amount (cm_get_user_collateral u tok s) + n)" "in_i128 (cm_get_total_collateral_for_type tok s + n)"
    using run keys
    by (auto simp: cm_deposit_collateral_def result_iffs Let_def cm_setters cm_get_user_collateral_def cm_get_total_collateral_for_type_def)
  have "cm_get_total_collateral_for_type tok s + n \<le> ct_collateral_cap cfg" if "0 < ct_collateral_cap cfg"
    using c(5) that by (auto simp: cm_check_caps_def result_iffs)
  with c that show ?thesis by blast
qed

lemma cm_withdraw_Inr:
  assumes core: "cm_core s" and run: "cm_withdraw_internal tr orc e u tok n s = Inr s'"
  obtains w' where "0 < n" and "n \<le> uc_amount (cm_get_user_collateral u tok s)"
    and "cm_check_withdrawal orc e u tok (uc_amount (cm_get_user_collateral u tok s) - n) s = Inr ()"
    and "tr e tok (env_self e) u n (cm_tokens s) = Some w'"
    and "s' = s\<lparr>cm_tokens := w',
      cm_user_collateral := (cm_user_collateral s)((u, tok) \<mapsto>
        (cm_get_user_collateral u tok s)\<lparr>uc_amount := uc_amount (cm_get_user_collateral u tok s) - n, uc_last_updated := env_timestamp e\<rparr>),
      cm_total_collateral := (cm_total_collateral s)(tok \<mapsto> cm_get_total_collateral_for_type tok s - n)\<rparr>"
proof -
  note keys = cm_coll_user [OF cm_core_parts(1) [OF core], of u tok]
  show ?thesis
    using run keys that
    by (auto simp: cm_withdraw_internal_def result_iffs Let_def cm_setters cm_get_total_collateral_for_type_def)
qed

definition cm_new_loan :: "env \<Rightarrow> u64 \<Rightarrow> address \<Rightarrow> address \<Rightarrow> int \<Rightarrow> u32 \<Rightarrow> loan" where
  "cm_new_loan e i u tok n rate = \<lparr>ln_loan_id = i, ln_borrower = u, ln_borrow_token = tok, ln_principal = n, ln_accrued_interest = 0,
     ln_total_debt = n, ln_interest_rate_bps = rate, ln_created_at = env_timestamp e, ln_last_accrual_update = env_timestamp e,
     ln_is_liquidated = False, ln_is_repaid = False\<rparr>"

lemma cm_borrow_Inr:
  assumes core: "cm_core s" and run: "cm_borrow_internal tr orc e u tok n s = Inr s'"
  obtains s1 w' util where "0 < n" and "cm_core s1" and "cm_touched e s s1" and "cm_check_borrow_limits u tok n s = Inr ()"
    and "cm_check_borrow_health orc e (cm_get_protocol_params s) u n s1 = Inr ()"
    and "cm_calculate_utilization (cm_get_total_debt tok s1) (cm_get_lending_pool_deposits tok s1) = Inr util"
    and "tr e tok (env_self e) u n (cm_tokens s) = Some w'"
    and "s' = s1\<lparr>cm_tokens := w',
      cm_loan := (cm_loan s1)(cm_get_loan_counter s1 \<mapsto> cm_new_loan e (cm_get_loan_counter s1) u tok n (cm_calculate_interest_rate (cm_get_protocol_params s) util)),
      cm_user_loan_ids := (cm_user_loan_ids s1)(u \<mapsto> cm_get_user_loan_ids u s1 @ [cm_get_loan_counter s1]),
      cm_loan_counter := Some (Suc (cm_get_loan_counter s1)),
      cm_total_debt := (cm_total_debt s1)(tok \<mapsto> cm_get_total_debt tok s1 + n)\<rparr>"
proof -
  let ?new = "\<lambda>s1 util. cm_set_total_debt tok (cm_get_total_debt tok s1 + n)
      ((cm_add_user_loan_id u (cm_get_loan_counter s1) (cm_set_loan (cm_new_loan e (cm_get_loan_counter s1) u tok n
        (cm_calculate_interest_rate (cm_get_protocol_params s) util)) s1))\<lparr>cm_loan_counter := Some (Suc (cm_get_loan_counter s1))\<rparr>)"
  have "\<exists>s1 util. 0 < n \<and> cm_check_borrow_limits u tok n s = Inr () \<and> cm_accrue_ids e u (cm_get_user_loan_ids u s) s = Inr s1 \<and>
    cm_check_borrow_health orc e (cm_get_protocol_params s) u n s1 = Inr () \<and>
    cm_calculate_utilization (cm_get_total_debt tok s1) (cm_get_lending_pool_deposits tok s1) = Inr util \<and>
    cm_transfer tr e tok (env_self e) u n (?new s1 util) = Inr s'"
    using run unfolding cm_borrow_internal_def Let_def and_then_eq_Inr
    apply (elim exE conjE)
    subgoal for x1 x2 s1 x3 util counter nd
      by (intro exI [of _ s1] exI [of _ util] conjI)
         (simp_all only: panic_if_eq_Inr ok_or_eq_Inr cm_arith_Inr cm_new_loan_def checked_add_u64_Some not_le Suc_eq_plus1 sum.inject,
          (rule unit_eq)+)
    done
  then obtain s1 util where c: "0 < n" "cm_check_borrow_limits u tok n s = Inr ()" "cm_accrue_ids e u (cm_get_user_loan_ids u s) s = Inr s1"
    "cm_check_borrow_health orc e (cm_get_protocol_params s) u n s1 = Inr ()"
    "cm_calculate_utilization (cm_get_total_debt tok s1) (cm_get_lending_pool_deposits tok s1) = Inr util"
    and rest: "cm_transfer tr e tok (env_self e) u n (?new s1 util) = Inr s'" by blast
  from cm_accrue_ids_Inr [OF core c(3)] have s1: "cm_core s1" "cm_touched e s s1" by auto
  note w = cm_touched_fields(16) [OF s1(2)]
  have same: "cm_tokens (?new s1 util) = cm_tokens s" by (simp add: cm_setters w)
  obtain w' where w': "tr e tok (env_self e) u n (cm_tokens s) = Some w'" and s': "s' = (?new s1 util)\<lparr>cm_tokens := w'\<rparr>"
    using rest unfolding cm_transfer_Inr same by blast
  show ?thesis
    by (rule that [OF c(1) s1 c(2,4,5) w'], unfold s' cm_setters cm_get_user_loan_ids_def)
       (simp add: cm_new_loan_def)
qed

text \<open>A repayment, and the loan side of a liquidation: the loan is brought up to date and paid down.\<close>

definition cm_paid :: "(loan \<Rightarrow> loan) \<Rightarrow> int \<Rightarrow> loan \<Rightarrow> loan" where
  "cm_paid close n l = (let k = l\<lparr>ln_accrued_interest := ln_accrued_interest l - min n (ln_accrued_interest l),
      ln_principal := ln_principal l - (n - min n (ln_accrued_interest l)), ln_total_debt := ln_total_debt l - n\<rparr> in
      if n = ln_total_debt l then close k else k)"

lemma cm_repay_Inr:
  assumes core: "cm_core s" and run: "cm_repay_internal tr e u i n s = Inr s'"
  obtains l w' debts where "0 < n" and "cm_loan s i = Some l" and "ln_borrower l = u" and "cm_is_open l"
    and "n \<le> ln_total_debt l + cm_due e l" and "tr e (ln_borrow_token l) u (env_self e) n (cm_tokens s) = Some w'"
    and "s' = s\<lparr>cm_tokens := w', cm_loan := (cm_loan s)(i \<mapsto> cm_paid (ln_is_repaid_update (\<lambda>_. True)) n (cm_accrued e l)), cm_total_debt := debts\<rparr>"
    and "\<And>t. unwrap_or 0 (debts t) = cm_get_total_debt t s + (if t = ln_borrow_token l then cm_due e l - n else 0)"
proof -
  note ok = cm_core_parts(2) [OF core]
  obtain l l1 s1 w' l2 where c: "0 < n" "i \<in> set (cm_get_user_loan_ids u s)" "cm_loan s i = Some l" "cm_is_open l"
    and acc: "cm_accrue_loan e l s = Inr (l1, s1)"
    and d: "n \<le> ln_total_debt l1" "tr e (ln_borrow_token l1) u (env_self e) n (cm_tokens s1) = Some w'"
      "cm_pay_down (ln_is_repaid_update (\<lambda>_. True)) n l1 = Inr l2"
      "s' = cm_set_total_debt (ln_borrow_token l2) (cm_get_total_debt (ln_borrow_token l2) s1 - n) (cm_set_loan l2 (s1\<lparr>cm_tokens := w'\<rparr>))"
    using run by (auto simp: cm_repay_internal_def result_iffs Let_def cm_open_user_loan_Inr cm_set_loan_def cm_get_total_debt_def)
  have lok: "cm_loan_ok l" and id: "ln_loan_id l = i" using cm_loans_okD [OF ok c(3)] by simp_all
  note l1 = cm_accrue_loan_Inr(1) [OF acc]
  obtain debts where s1: "s1 = s\<lparr>cm_total_debt := debts\<rparr>"
    and debts: "\<And>t. unwrap_or 0 (debts t) = cm_get_total_debt t s + (if t = ln_borrow_token l then cm_due e l else 0)"
    by (rule cm_accrued_state [OF acc]) blast
  have l1ok: "cm_loan_ok l1" "cm_is_open l1" using l1 cm_accrued_ok [OF lok] c(4) by simp_all
  note paid = cm_pay_down_Inr(1) [OF d(3) l1ok c(1) d(1) disjI1 [OF refl]] and kept = cm_pay_down_fields(1,3) [OF d(3) l1ok c(1) d(1) disjI1 [OF refl]]
  have l2: "l2 = cm_paid (ln_is_repaid_update (\<lambda>_. True)) n (cm_accrued e l)" unfolding cm_paid_def l1 [symmetric] by (rule paid)
  have tok: "ln_borrow_token l2 = ln_borrow_token l" "ln_loan_id l2 = i" using kept by (simp_all add: l1 id)
  show ?thesis
  proof (rule that [where debts = "debts(ln_borrow_token l \<mapsto> unwrap_or 0 (debts (ln_borrow_token l)) - n)"])
    show "s' = s\<lparr>cm_tokens := w', cm_loan := (cm_loan s)(i \<mapsto> cm_paid (ln_is_repaid_update (\<lambda>_. True)) n (cm_accrued e l)),
        cm_total_debt := debts(ln_borrow_token l \<mapsto> unwrap_or 0 (debts (ln_borrow_token l)) - n)\<rparr>"
      by (simp add: d(4) s1 tok cm_set_total_debt_def cm_set_loan_def cm_get_total_debt_def flip: l2)
    show "ln_borrower l = u" by (rule cm_user_loan_owner [OF ok c(2,3)])
  qed (use c d(1,2) in \<open>simp_all add: debts l1 cm_accrued_debt [OF lok] s1\<close>)
qed

text \<open>What the health of a user depends on.\<close>

lemma cm_sum_debts_cong:
  "(\<And>i. i \<in> set is \<Longrightarrow> cm_loan s' i = cm_loan s i) \<Longrightarrow> cm_sum_debts P s' is n = cm_sum_debts P s is n"
proof (induction "is" arbitrary: n)
  case (Cons i "is")
  then show ?case by (auto intro!: and_then_cong)
qed simp

lemma cm_health_cong:
  assumes "cm_loan s' = cm_loan s" and "cm_user_loan_ids s' = cm_user_loan_ids s" and "cm_user_collateral s' = cm_user_collateral s"
    and "cm_collateral_tokens s' = cm_collateral_tokens s"
    and "cm_config s' = cm_config s" and "cm_price_cache s' = cm_price_cache s" and "cm_oracle s' = cm_oracle s"
  shows "cm_calc_user_health orc e u s' = cm_calc_user_health orc e u s" and "cm_seizure orc e u n s' = cm_seizure orc e u n s"
proof -
  have am: "cm_amounts u s' = cm_amounts u s" by (simp add: fun_eq_iff cm_amounts_def cm_get_user_collateral_def assms)
  have debt: "cm_user_total_debt u s' = cm_user_total_debt u s"
    unfolding cm_user_total_debt_def cm_get_user_loan_ids_def assms(2) by (rule cm_sum_debts_cong) (simp add: assms(1))
  note loops = cm_loops_cong [OF assms(5-7)]
  show "cm_calc_user_health orc e u s' = cm_calc_user_health orc e u s"
    unfolding cm_calc_user_health_def debt cm_total_collateral_value_def cm_weighted_threshold_def am loops cm_get_collateral_tokens_def assms(4) ..
  show "cm_seizure orc e u n s' = cm_seizure orc e u n s"
    unfolding cm_seizure_def cm_best_seize_collateral_def am loops cm_get_collateral_tokens_def assms(4) cm_get_user_collateral_def assms(3) ..
qed

text \<open>The scan finds a collateral of maximal value.\<close>

lemma cm_scan_best_Inr:
  assumes conf: "cm_setup_ok b a (cm_config s) ts (cm_price_cache s) d"
  shows "cm_scan_best orc e s amt toks best = Inr found \<Longrightarrow>
    (\<forall>t c v. best = Some (t, c, v) \<longrightarrow> cm_token_value orc e s t (amt t) = Inr (Some (c, v))) \<Longrightarrow>
    (case found of
       None \<Rightarrow> best = None \<and> (\<forall>t\<in>set toks. cm_worth orc e s t (amt t) = 0)
     | Some (t, c, v) \<Rightarrow> cm_token_value orc e s t (amt t) = Inr (Some (c, v)) \<and>
         (\<forall>x\<in>set toks. cm_worth orc e s x (amt x) \<le> v) \<and> (\<forall>t' c' v'. best = Some (t', c', v') \<longrightarrow> v' \<le> v))"
proof (induction toks arbitrary: best)
  case Nil
  then show ?case by (auto split: option.splits)
next
  case (Cons tok toks)
  obtain y where y: "cm_token_value orc e s tok (amt tok) = Inr y" and rest: "cm_scan_best orc e s amt toks (cm_better tok y best) = Inr found"
    using Cons.prems(1) by (auto simp: result_iffs)
  have known: "\<forall>t c v. cm_better tok y best = Some (t, c, v) \<longrightarrow> cm_token_value orc e s t (amt t) = Inr (Some (c, v))"
    using Cons.prems(2) y by (auto simp: cm_better_def split: option.splits if_splits)
  note IH = Cons.IH [OF rest known]
  show ?case
  proof (cases y)
    case None
    then have "cm_worth orc e s tok (amt tok) = 0" using y by (simp add: cm_worth_def)
    moreover have "0 \<le> v" if "cm_token_value orc e s t n = Inr (Some (c, v))" for t n c v
      by (rule cm_token_value_Some(3) [OF conf that])
    ultimately show ?thesis using IH None by (auto simp: cm_better_def split: option.splits)
  next
    case (Some x)
    obtain c0 v0 where x: "x = (c0, v0)" by (cases x)
    have w: "cm_worth orc e s tok (amt tok) = v0" by (rule cm_token_value_Some(5) [OF conf y [unfolded Some x]])
    obtain t1 c1 v1 where nb: "cm_better tok y best = Some (t1, c1, v1)" "v0 \<le> v1" "\<And>t' c' v'. best = Some (t', c', v') \<Longrightarrow> v' \<le> v1"
    proof (cases "\<exists>t c v. best = Some (t, c, v) \<and> v0 \<le> v")
      case True
      then obtain t c v where "best = Some (t, c, v)" "v0 \<le> v" by blast
      then show ?thesis by (intro that [of t c v]) (auto simp: cm_better_def Some x)
    next
      case False
      then show ?thesis by (intro that [of tok c0 v0]) (auto simp: cm_better_def Some x split: option.splits)
    qed
    from IH nb(1) obtain t c v where f: "found = Some (t, c, v)" by (auto split: option.splits)
    with IH nb have "v1 \<le> v" "cm_token_value orc e s t (amt t) = Inr (Some (c, v))" "\<forall>x\<in>set toks. cm_worth orc e s x (amt x) \<le> v"
      by auto
    then show ?thesis using f w nb(2,3) by (auto intro: order_trans)
  qed
qed

lemma cm_seizure_step:
  assumes core: "cm_core s" and run: "cm_seizure orc e b n s = Inr (ct, seized)" and "0 < n"
  obtains cfg p where "cm_config s ct = Some cfg" and "cm_get_oracle_price orc e s (ct_oracle_feed cfg) = Inr p" and "0 < p"
    and "seized = (n * (10000 + int (ct_liq_bonus_bps cfg)) + p * 10000 - 1) div (p * 10000)"
    and "0 < seized" and "seized \<le> uc_amount (cm_get_user_collateral b ct s)"
    and "\<And>x. x \<in> set (cm_get_collateral_tokens s) \<Longrightarrow> cm_worth orc e s x (cm_amounts b s x) \<le> cm_worth orc e s ct (cm_amounts b s ct)"
proof -
  note conf = cm_core_parts(3) [OF core]
  obtain best cfg p bonus where c: "cm_scan_best orc e s (cm_amounts b s) (cm_get_collateral_tokens s) None = Inr best"
      "map_option (\<lambda>(tok, cfg, _). (tok, cfg)) best = Some (ct, cfg)" "cm_get_oracle_price orc e s (ct_oracle_feed cfg) = Inr p"
      "cm_calculate_liquidation_seizure n p (ct_liq_bonus_bps cfg) = Inr (seized, bonus)"
      "seized \<le> uc_amount (cm_get_user_collateral b ct s)"
    using run by (auto simp: cm_seizure_def cm_best_seize_collateral_def result_iffs)
  from c(2) obtain v where best: "best = Some (ct, cfg, v)" by auto
  have found: "cm_token_value orc e s ct (cm_amounts b s ct) = Inr (Some (cfg, v))"
      "\<forall>x\<in>set (cm_get_collateral_tokens s). cm_worth orc e s x (cm_amounts b s x) \<le> v"
    using cm_scan_best_Inr [OF conf c(1)] best by auto
  have pos: "0 < p" by (rule cm_price_pos [OF conf c(3)])
  note sz = cm_seizure_Inr(1) [OF c(4) assms(3) pos]
  have "1 \<le> n * (10000 + int (ct_liq_bonus_bps cfg))" using assms(3) by (smt (verit) mult_pos_pos of_nat_0_le_iff)
  then have "p * 10000 \<le> n * (10000 + int (ct_liq_bonus_bps cfg)) + p * 10000 - 1" by linarith
  then have "0 < seized" using pos unfolding sz by (simp add: pos_imp_zdiv_pos_iff)
  with c(3,5) sz pos found cm_token_value_Some [OF conf found(1)] show ?thesis by (intro that [of cfg p]) auto
qed

lemma cm_liquidate_Inr:
  assumes core: "cm_core s" and run: "cm_liquidate_internal tr orc e q b i n s = Inr s'"
  obtains l hf m ct x w1 w2 debts where "0 < n" and "cm_loan s i = Some l" and "ln_borrower l = b" and "cm_is_open l"
    and "cm_calc_user_health orc e b s = Inr hf" and "hf_health_factor_bps hf < int (pp_liq_health_threshold_bps (cm_get_protocol_params s))"
    and "m = min n (ln_total_debt l + cm_due e l)" and "cm_seizure orc e b m s = Inr (ct, x)"
    and "tr e (ln_borrow_token l) q (env_self e) m (cm_tokens s) = Some w1" and "tr e ct (env_self e) q x w1 = Some w2"
    and "s' = s\<lparr>cm_tokens := w2,
      cm_user_collateral := (cm_user_collateral s)((b, ct) \<mapsto>
        (cm_get_user_collateral b ct s)\<lparr>uc_amount := uc_amount (cm_get_user_collateral b ct s) - x, uc_last_updated := env_timestamp e\<rparr>),
      cm_total_collateral := (cm_total_collateral s)(ct \<mapsto> cm_get_total_collateral_for_type ct s - x),
      cm_loan := (cm_loan s)(i \<mapsto> cm_paid (ln_is_liquidated_update (\<lambda>_. True)) m (cm_accrued e l)), cm_total_debt := debts\<rparr>"
    and "\<And>t. unwrap_or 0 (debts t) = cm_get_total_debt t s + (if t = ln_borrow_token l then cm_due e l - m else 0)"
proof -
  note ok = cm_core_parts(2) [OF core]
  have "\<exists>l l1 s1 hf ct x w1 w2 l2. 0 < n \<and> i \<in> set (cm_get_user_loan_ids b s) \<and> cm_loan s i = Some l \<and> cm_is_open l \<and>
    cm_accrue_loan e l s = Inr (l1, s1) \<and> cm_calc_user_health orc e b s1 = Inr hf \<and>
    hf_health_factor_bps hf < int (pp_liq_health_threshold_bps (cm_get_protocol_params s1)) \<and>
    cm_seizure orc e b (min n (ln_total_debt l1)) s1 = Inr (ct, x) \<and>
    tr e (ln_borrow_token l1) q (env_self e) (min n (ln_total_debt l1)) (cm_tokens s1) = Some w1 \<and> tr e ct (env_self e) q x w1 = Some w2 \<and>
    cm_pay_down (ln_is_liquidated_update (\<lambda>_. True)) (min n (ln_total_debt l1)) l1 = Inr l2 \<and>
    s' = s1\<lparr>cm_tokens := w2,
      cm_user_collateral := (cm_user_collateral s1)((uc_user (cm_get_user_collateral b ct s1), uc_token (cm_get_user_collateral b ct s1)) \<mapsto>
        (cm_get_user_collateral b ct s1)\<lparr>uc_amount := uc_amount (cm_get_user_collateral b ct s1) - x, uc_last_updated := env_timestamp e\<rparr>),
      cm_total_collateral := (cm_total_collateral s1)(ct \<mapsto> cm_get_total_collateral_for_type ct s1 - x),
      cm_loan := (cm_loan s1)(ln_loan_id l2 \<mapsto> l2),
      cm_total_debt := (cm_total_debt s1)(ln_borrow_token l2 \<mapsto> cm_get_total_debt (ln_borrow_token l2) s1 - min n (ln_total_debt l1))\<rparr>"
    using run unfolding cm_liquidate_internal_def Let_def and_then_eq_Inr split_paired_Ex case_prod_conv
    apply (elim exE conjE)
    subgoal for x1 l l1 s1 hf x2 ct x sa sb rem tot l2 d
      by (rule exI [of _ l], rule exI [of _ l1], rule exI [of _ s1], rule exI [of _ hf], rule exI [of _ ct], rule exI [of _ x],
          rule exI [of _ "cm_tokens sa"], rule exI [of _ "cm_tokens sb"], rule exI [of _ l2])
         (auto simp: panic_if_eq_Inr cm_arith_Inr cm_open_user_loan_Inr cm_transfer_Inr cm_setters cm_get_total_collateral_for_type_def cm_get_total_debt_def)
    done
  then obtain l l1 s1 hf ct x w1 w2 l2 where c: "0 < n" "i \<in> set (cm_get_user_loan_ids b s)" "cm_loan s i = Some l" "cm_is_open l"
    and acc: "cm_accrue_loan e l s = Inr (l1, s1)" and hf: "cm_calc_user_health orc e b s1 = Inr hf"
      "hf_health_factor_bps hf < int (pp_liq_health_threshold_bps (cm_get_protocol_params s1))"
    and sz: "cm_seizure orc e b (min n (ln_total_debt l1)) s1 = Inr (ct, x)"
    and t: "tr e (ln_borrow_token l1) q (env_self e) (min n (ln_total_debt l1)) (cm_tokens s1) = Some w1" "tr e ct (env_self e) q x w1 = Some w2"
    and pay: "cm_pay_down (ln_is_liquidated_update (\<lambda>_. True)) (min n (ln_total_debt l1)) l1 = Inr l2"
    and s': "s' = s1\<lparr>cm_tokens := w2,
      cm_user_collateral := (cm_user_collateral s1)((uc_user (cm_get_user_collateral b ct s1), uc_token (cm_get_user_collateral b ct s1)) \<mapsto>
        (cm_get_user_collateral b ct s1)\<lparr>uc_amount := uc_amount (cm_get_user_collateral b ct s1) - x, uc_last_updated := env_timestamp e\<rparr>),
      cm_total_collateral := (cm_total_collateral s1)(ct \<mapsto> cm_get_total_collateral_for_type ct s1 - x),
      cm_loan := (cm_loan s1)(ln_loan_id l2 \<mapsto> l2),
      cm_total_debt := (cm_total_debt s1)(ln_borrow_token l2 \<mapsto> cm_get_total_debt (ln_borrow_token l2) s1 - min n (ln_total_debt l1))\<rparr>"
    by blast
  have lok: "cm_loan_ok l" and id: "ln_loan_id l = i" using cm_loans_okD [OF ok c(3)] by simp_all
  note l1 = cm_accrue_loan_Inr(1) [OF acc]
  obtain debts where s1: "s1 = s\<lparr>cm_total_debt := debts\<rparr>"
    and debts: "\<And>t. unwrap_or 0 (debts t) = cm_get_total_debt t s + (if t = ln_borrow_token l then cm_due e l else 0)"
    by (rule cm_accrued_state [OF acc]) blast
  let ?m = "min n (ln_total_debt l1)"
  have l1ok: "cm_loan_ok l1" "cm_is_open l1" using l1 cm_accrued_ok [OF lok] c(4) by simp_all
  then have m: "0 < ?m" "?m \<le> ln_total_debt l1" using c(1) by (simp_all add: cm_loan_ok_def)
  note paid = cm_pay_down_Inr(1) [OF pay l1ok m disjI2 [OF refl]] and kept = cm_pay_down_fields(1,3) [OF pay l1ok m disjI2 [OF refl]]
  have l2: "l2 = cm_paid (ln_is_liquidated_update (\<lambda>_. True)) ?m (cm_accrued e l)" unfolding cm_paid_def l1 [symmetric] by (rule paid)
  have keep: "ln_borrow_token l2 = ln_borrow_token l" "ln_loan_id l2 = i" using kept by (simp_all add: l1 id)
  have health: "cm_calc_user_health orc e b s1 = cm_calc_user_health orc e b s" "cm_seizure orc e b ?m s1 = cm_seizure orc e b ?m s"
    by (rule cm_health_cong; simp add: s1)+
  have gets: "cm_get_user_collateral b ct s1 = cm_get_user_collateral b ct s" "cm_get_total_collateral_for_type ct s1 = cm_get_total_collateral_for_type ct s"
    by (simp_all add: s1 cm_get_user_collateral_def cm_get_total_collateral_for_type_def)
  note keys = cm_coll_user [OF cm_core_parts(1) [OF core], of b ct]
  show ?thesis
  proof (rule that [where m = ?m and debts = "debts(ln_borrow_token l \<mapsto> unwrap_or 0 (debts (ln_borrow_token l)) - ?m)"])
    show "s' = s\<lparr>cm_tokens := w2,
      cm_user_collateral := (cm_user_collateral s)((b, ct) \<mapsto>
        (cm_get_user_collateral b ct s)\<lparr>uc_amount := uc_amount (cm_get_user_collateral b ct s) - x, uc_last_updated := env_timestamp e\<rparr>),
      cm_total_collateral := (cm_total_collateral s)(ct \<mapsto> cm_get_total_collateral_for_type ct s - x),
      cm_loan := (cm_loan s)(i \<mapsto> cm_paid (ln_is_liquidated_update (\<lambda>_. True)) ?m (cm_accrued e l)),
      cm_total_debt := debts(ln_borrow_token l \<mapsto> unwrap_or 0 (debts (ln_borrow_token l)) - ?m)\<rparr>"
      unfolding s' gets keep l2 [symmetric] keys by (simp add: s1 cm_get_total_debt_def)
    show "ln_borrower l = b" by (rule cm_user_loan_owner [OF ok c(2,3)])
    show "?m = min n (ln_total_debt l + cm_due e l)" by (simp add: l1 cm_accrued_debt [OF lok])
    show "cm_calc_user_health orc e b s = Inr hf" "cm_seizure orc e b ?m s = Inr (ct, x)" using hf(1) sz health by simp_all
    show "hf_health_factor_bps hf < int (pp_liq_health_threshold_bps (cm_get_protocol_params s))"
      using hf(2) by (simp add: s1 cm_get_protocol_params_def)
    show "tr e (ln_borrow_token l) q (env_self e) ?m (cm_tokens s) = Some w1" using t(1) by (simp add: l1 s1)
  qed (use c t(2) debts in simp_all)
qed

section \<open>The invariant of a deployed contract\<close>

definition cm_backed :: "'w token_balance \<Rightarrow> address \<Rightarrow> 'w \<Rightarrow> 'w cm_state \<Rightarrow> bool" where
  "cm_backed bal self w s \<longleftrightarrow>
     (\<forall>t. bal w t self + cm_get_total_collateral_for_type t s \<le> bal (cm_tokens s) t self + cm_lent t (cm_loan s))"

definition cm_inv :: "'w token_balance \<Rightarrow> address \<Rightarrow> 'w \<Rightarrow> u64 \<Rightarrow> 'w cm_state \<Rightarrow> bool" where
  "cm_inv bal self w t s \<longleftrightarrow> cm_core s \<and> cm_backed bal self w s \<and> \<not> cm_is_reentrancy_locked s"

definition cm_adm :: "address \<Rightarrow> env \<Rightarrow> cm_call \<Rightarrow> bool" where
  "cm_adm self e c \<longleftrightarrow> env_self e = self \<and> \<not> env_auth e self"

definition cm_drift :: "'w token_balance \<Rightarrow> address \<Rightarrow> 'w cm_state \<Rightarrow> 'w cm_state \<Rightarrow> bool" where
  "cm_drift bal self s s' \<longleftrightarrow> (\<exists>w. s' = s\<lparr>cm_tokens := w\<rparr> \<and> (\<forall>tok. bal (cm_tokens s) tok self \<le> bal w tok self))"

lemma cm_inv_core: "cm_inv bal self w t s \<Longrightarrow> cm_core s"
  by (simp add: cm_inv_def)

text \<open>Calls that only touch the settings.\<close>

lemma cm_inv_settings:
  assumes "cm_inv bal self w t s" and "cm_core s'" and "cm_total_collateral s' = cm_total_collateral s" and "cm_loan s' = cm_loan s"
    and "cm_tokens s' = cm_tokens s" and "\<not> cm_is_reentrancy_locked s'"
  shows "cm_inv bal self w t s'"
  using assms by (simp add: cm_inv_def cm_backed_def cm_get_total_collateral_for_type_def)

lemma cm_config_ok_setup:
  assumes "cm_setup_ok b a c ts p d" and "c t = Some cfg0" and "cm_config_ok t cfg"
  shows "cm_setup_ok b a (c(t \<mapsto> cfg)) ts p d"
  using assms by (auto simp: cm_setup_ok_def)

lemma cm_check_risk_Inr [result_iffs]:
  "cm_check_risk l h b = Inr u \<longleftrightarrow> l \<le> MAX_LTV_BPS \<and> h \<le> MAX_LIQ_THRESHOLD_BPS \<and> l \<le> h \<and> b \<le> MAX_LIQ_BONUS_BPS"
  by (auto simp: cm_check_risk_def result_iffs)

lemma cm_inv_initialize:
  assumes inv: "cm_inv bal self w t s" and run: "cm_initialize e a orc_addr tr s = Inr (u, s')"
  shows "cm_inv bal self w t s'"
proof (rule cm_inv_settings [OF inv])
  have un: "\<not> cm_initialized s" using run by (auto simp: cm_initialize_def result_iffs)
  have s': "s' = s\<lparr>cm_roles := (cm_roles s)\<lparr>rb_admin := Some a\<rparr>, cm_oracle := Some orc_addr,
      cm_treasury := (case tr of None \<Rightarrow> cm_treasury s | Some x \<Rightarrow> Some x), cm_initialized := True, cm_paused := Some False,
      cm_reentrancy_lock := Some False, cm_loan_counter := Some 0\<rparr>"
    using run by (cases tr) (auto simp: cm_initialize_def result_iffs Let_def)
  note parts = cm_core_parts [OF cm_inv_core [OF inv]]
  have none: "cm_loan s = (\<lambda>_. None)" using parts(4) un by simp
  have "cm_loans_ok (cm_loan s) (cm_user_loan_ids s) 0 (cm_total_debt s)" using parts(2) by (simp add: none cm_loans_ok_def)
  then show "cm_core s'" using parts(1,3) un by (simp add: s' cm_core_def cm_setup_ok_def)
  show "cm_total_collateral s' = cm_total_collateral s" "cm_loan s' = cm_loan s" "cm_tokens s' = cm_tokens s" "\<not> cm_is_reentrancy_locked s'"
    by (simp_all add: s' cm_is_reentrancy_locked_def)
qed

lemma cm_inv_register:
  assumes inv: "cm_inv bal self w t s" and run: "cm_register_collateral_type e a k f l h b c p s = Inr (u, s')"
  shows "cm_inv bal self w t s'"
proof (rule cm_inv_settings [OF inv])
  let ?cfg = "\<lparr>ct_token = k, ct_oracle_feed = f, ct_ltv_bps = l, ct_liq_threshold_bps = h, ct_liq_bonus_bps = b, ct_collateral_cap = c,
    ct_is_active = True, ct_price_scale = p\<rparr>"
  have c: "rb_admin (cm_roles s) = Some a" "cm_config s k = None" "cm_config_ok k ?cfg"
    and s': "s' = s\<lparr>cm_config := (cm_config s)(k \<mapsto> ?cfg), cm_collateral_tokens := Some (cm_get_collateral_tokens s @ [k])\<rparr>"
    using run by (auto simp: cm_register_collateral_type_def result_iffs Let_def cm_setters cm_config_ok_def cm_get_collateral_tokens_def)
  note parts = cm_core_parts [OF cm_inv_core [OF inv]]
  have new: "k \<notin> set (unwrap_or [] (cm_collateral_tokens s))" using parts(3) c(2) by (auto simp: cm_setup_ok_def)
  have "cm_setup_ok (cm_initialized s) (rb_admin (cm_roles s)) ((cm_config s)(k \<mapsto> ?cfg)) (Some (cm_get_collateral_tokens s @ [k]))
      (cm_price_cache s) (cm_pool_deposits s)"
    using parts(3) c new by (auto simp: cm_setup_ok_def cm_get_collateral_tokens_def)
  then show "cm_core s'" using parts by (simp add: s' cm_core_def)
  show "cm_total_collateral s' = cm_total_collateral s" "cm_loan s' = cm_loan s" "cm_tokens s' = cm_tokens s" "\<not> cm_is_reentrancy_locked s'"
    using inv by (simp_all add: s' cm_is_reentrancy_locked_def cm_inv_def)
qed

lemma cm_inv_config:
  assumes inv: "cm_inv bal self w t s" and old: "cm_config s k = Some cfg0" and "cm_config_ok k cfg" and "s' = cm_set_collateral_config cfg s"
  shows "cm_inv bal self w t s'"
proof (rule cm_inv_settings [OF inv])
  note parts = cm_core_parts [OF cm_inv_core [OF inv]]
  have s': "s' = s\<lparr>cm_config := (cm_config s)(k \<mapsto> cfg)\<rparr>" using assms(3,4) by (simp add: cm_set_collateral_config_def cm_config_ok_def)
  then show "cm_core s'" using parts cm_config_ok_setup [OF parts(3) old assms(3)] by (simp add: cm_core_def)
  show "cm_total_collateral s' = cm_total_collateral s" "cm_loan s' = cm_loan s" "cm_tokens s' = cm_tokens s" "\<not> cm_is_reentrancy_locked s'"
    using inv by (simp_all add: s' cm_is_reentrancy_locked_def cm_inv_def)
qed

lemma cm_inv_admin:
  assumes inv: "cm_inv bal self w t s"
  shows "cm_update_collateral_type e a k l h b c s = Inr (u, s') \<Longrightarrow> cm_inv bal self w t s'"
    and "cm_deactivate_collateral_type e a k s = Inr (u, s') \<Longrightarrow> cm_inv bal self w t s'"
    and "cm_reactivate_collateral_type e a k s = Inr (u, s') \<Longrightarrow> cm_inv bal self w t s'"
    and "cm_set_protocol_parameters e a pp s = Inr (u, s') \<Longrightarrow> cm_inv bal self w t s'"
    and "cm_set_price e a f p s = Inr (u, s') \<Longrightarrow> cm_inv bal self w t s'"
    and "cm_pause e a s = Inr (u, s') \<Longrightarrow> cm_inv bal self w t s'"
    and "cm_unpause e a s = Inr (u, s') \<Longrightarrow> cm_inv bal self w t s'"
proof -
  note parts = cm_core_parts [OF cm_inv_core [OF inv]]
  have old: "cm_config_ok k cfg" if "cm_config s k = Some cfg" for cfg using that parts(3) by (simp add: cm_setup_ok_def)
  show "cm_inv bal self w t s'" if "cm_update_collateral_type e a k l h b c s = Inr (u, s')"
  proof -
    obtain cfg where c: "cm_config s k = Some cfg" "h \<le> MAX_LIQ_THRESHOLD_BPS" "l \<le> h" "b \<le> MAX_LIQ_BONUS_BPS"
      "s' = cm_set_collateral_config (cfg\<lparr>ct_ltv_bps := l, ct_liq_threshold_bps := h, ct_liq_bonus_bps := b, ct_collateral_cap := c\<rparr>) s"
      using \<open>cm_update_collateral_type e a k l h b c s = Inr (u, s')\<close> by (auto simp: cm_update_collateral_type_def result_iffs)
    show ?thesis using old [OF c(1)] c(2-4) by (intro cm_inv_config [OF inv c(1) _ c(5)]) (simp add: cm_config_ok_def)
  qed
  have switch: "cm_inv bal self w t s'" if run: "cm_switch_collateral_type active e a k s = Inr (u, s')" for active
  proof -
    obtain cfg where c: "cm_config s k = Some cfg" "s' = cm_set_collateral_config (cfg\<lparr>ct_is_active := active\<rparr>) s"
      using run by (auto simp: cm_switch_collateral_type_def result_iffs)
    show ?thesis using old [OF c(1)] by (intro cm_inv_config [OF inv c(1) _ c(2)]) (simp add: cm_config_ok_def)
  qed
  show "cm_deactivate_collateral_type e a k s = Inr (u, s') \<Longrightarrow> cm_inv bal self w t s'"
    "cm_reactivate_collateral_type e a k s = Inr (u, s') \<Longrightarrow> cm_inv bal self w t s'"
    by (auto simp: cm_deactivate_collateral_type_def cm_reactivate_collateral_type_def intro: switch)
  have lock: "\<not> cm_is_reentrancy_locked s" using inv by (simp add: cm_inv_def)
  have params: "cm_inv bal self w t (s\<lparr>cm_params := x\<rparr>)" "cm_inv bal self w t (s\<lparr>cm_paused := y\<rparr>)" for x y
    by (rule cm_inv_settings [OF inv]; use parts lock in \<open>simp add: cm_core_def cm_is_reentrancy_locked_def\<close>)+
  then show "cm_set_protocol_parameters e a pp s = Inr (u, s') \<Longrightarrow> cm_inv bal self w t s'"
    "cm_pause e a s = Inr (u, s') \<Longrightarrow> cm_inv bal self w t s'" "cm_unpause e a s = Inr (u, s') \<Longrightarrow> cm_inv bal self w t s'"
    by (auto simp: cm_set_protocol_parameters_def cm_pause_def cm_unpause_def cm_set_pause_def result_iffs)
  have "cm_inv bal self w t (s\<lparr>cm_price_cache := (cm_price_cache s)(f \<mapsto> p)\<rparr>)" if "0 < p"
    by (rule cm_inv_settings [OF inv]; use parts lock that in \<open>simp add: cm_core_def cm_is_reentrancy_locked_def cm_setup_ok_def\<close>)
  then show "cm_set_price e a f p s = Inr (u, s') \<Longrightarrow> cm_inv bal self w t s'"
    by (auto simp: cm_set_price_def result_iffs)
qed

lemma cm_inv_accrue:
  assumes inv: "cm_inv bal self w t s" and touched: "cm_core s' \<and> cm_touched e s s'"
  shows "cm_inv bal self w t s'"
proof -
  note f = cm_touched_fields [OF conjunct2 [OF touched]] and lent = cm_lent_touched [OF conjunct2 [OF touched]]
  show ?thesis using inv touched
    by (simp add: cm_inv_def cm_backed_def cm_get_total_collateral_for_type_def cm_is_reentrancy_locked_def f(11,12,16) lent)
qed

lemma cm_inv_accruals:
  assumes inv: "cm_inv bal self w t s"
  shows "cm_accrue_interest e b i s = Inr (u, s') \<Longrightarrow> cm_inv bal self w t s'"
    and "cm_accrue_all_interest e b s = Inr (u, s') \<Longrightarrow> cm_inv bal self w t s'"
proof -
  note core = cm_inv_core [OF inv]
  show "cm_inv bal self w t s'" if "cm_accrue_interest e b i s = Inr (u, s')"
  proof (rule cm_inv_accrue [OF inv, where e = e])
    have "cm_accrue_ids e b [i] s = Inr s'" using that by (auto simp: cm_accrue_interest_def result_iffs)
    then show "cm_core s' \<and> cm_touched e s s'" by (rule cm_accrue_ids_Inr [OF core])
  qed
  show "cm_inv bal self w t s'" if "cm_accrue_all_interest e b s = Inr (u, s')"
  proof (rule cm_inv_accrue [OF inv, where e = e])
    have "cm_accrue_ids e b (cm_get_user_loan_ids b s) s = Inr s'" using that by (auto simp: cm_accrue_all_interest_def result_iffs)
    then show "cm_core s' \<and> cm_touched e s s'" by (rule cm_accrue_ids_Inr [OF core])
  qed
qed

text \<open>A change of one deposit and its total.\<close>

lemma cm_core_deposit:
  assumes core: "cm_core s" and "0 \<le> uc_amount (cm_get_user_collateral u tok s) + x"
    and "s' = s\<lparr>cm_tokens := w',
      cm_user_collateral := (cm_user_collateral s)((u, tok) \<mapsto>
        (cm_get_user_collateral u tok s)\<lparr>uc_amount := uc_amount (cm_get_user_collateral u tok s) + x, uc_last_updated := n\<rparr>),
      cm_total_collateral := (cm_total_collateral s)(tok \<mapsto> cm_get_total_collateral_for_type tok s + x)\<rparr>"
  shows "cm_core s'"
proof -
  note parts = cm_core_parts [OF core]
  note keys = cm_coll_user [OF parts(1), of u tok]
  have "cm_coll_ok ((cm_user_collateral s)((u, tok) \<mapsto>
        (cm_get_user_collateral u tok s)\<lparr>uc_amount := uc_amount (cm_get_user_collateral u tok s) + x, uc_last_updated := n\<rparr>))
      ((cm_total_collateral s)(tok \<mapsto> unwrap_or 0 (cm_total_collateral s tok) + x))"
    using keys assms(2)
    by (intro cm_coll_ok_upd [OF parts(1)]) (simp_all add: cm_get_user_collateral_def split: option.splits)
  then show ?thesis using parts by (simp add: cm_core_def assms(3) cm_get_total_collateral_for_type_def)
qed

text \<open>An open loan brought up to date and paid down.\<close>

lemma cm_paid_loan:
  assumes ok: "cm_loans_ok loans ids n debts" and l: "loans i = Some l" "cm_is_open l" and m: "0 < m" "m \<le> ln_total_debt l + cm_due e l"
    and close: "close = ln_is_repaid_update (\<lambda>_. True) \<or> close = ln_is_liquidated_update (\<lambda>_. True)"
    and debts: "\<And>t. unwrap_or 0 (debts' t) = unwrap_or 0 (debts t) + (if t = ln_borrow_token l then cm_due e l - m else 0)"
  shows "cm_loans_ok (loans(i \<mapsto> cm_paid close m (cm_accrued e l))) ids n debts'"
    and "cm_lent t loans - (if t = ln_borrow_token l then m else 0) \<le> cm_lent t (loans(i \<mapsto> cm_paid close m (cm_accrued e l)))"
proof -
  let ?k = "cm_accrued e l"
  have lok: "cm_loan_ok l" by (rule cm_loans_okD(3) [OF ok l(1)])
  note kok = cm_accrued_ok [OF lok, of e]
  have nn: "0 \<le> ln_accrued_interest ?k" "0 \<le> ln_principal ?k" "ln_total_debt ?k = ln_principal ?k + ln_accrued_interest ?k"
    using kok by (simp_all add: cm_loan_ok_def del: cm_accrued_simps)
  have m': "m \<le> ln_total_debt ?k" using m(2) by (simp add: cm_accrued_debt [OF lok])
  let ?p = "cm_paid close m ?k"
  have same: "ln_loan_id ?p = ln_loan_id l" "ln_borrower ?p = ln_borrower l" "ln_borrow_token ?p = ln_borrow_token l"
      "ln_total_debt ?p = ln_total_debt l + cm_due e l - m" "ln_principal ?p = ln_principal l - (m - min m (ln_accrued_interest ?k))"
    using close by (auto simp: cm_paid_def Let_def cm_accrued_debt [OF lok])
  have acc: "ln_accrued_interest ?p = ln_accrued_interest ?k - min m (ln_accrued_interest ?k)" "cm_is_open ?p \<longleftrightarrow> m < ln_total_debt ?k"
      "\<not> (ln_is_liquidated ?p \<and> ln_is_repaid ?p)"
    using close l(2) m' by (auto simp: cm_paid_def Let_def cm_is_open_def)
  have "0 \<le> ln_principal ?p" "0 \<le> ln_accrued_interest ?p" "ln_total_debt ?p = ln_principal ?p + ln_accrued_interest ?p"
    using nn m' m(1) unfolding same acc by (auto simp: min_def cm_accrued_debt [OF lok])
  then have pok: "cm_loan_ok ?p"
    using acc(2,3) m' by (simp add: cm_loan_ok_def same cm_accrued_debt [OF lok])
  show "cm_loans_ok (loans(i \<mapsto> ?p)) ids n debts'"
    by (rule cm_loans_ok_upd [OF ok l(1) pok]) (simp_all add: same debts)
  have fin: "finite (dom loans)" using ok by (simp add: cm_loans_ok_def)
  have "m - min m (ln_accrued_interest ?k) \<le> m" using nn(1) m(1) by simp
  then show "cm_lent t loans - (if t = ln_borrow_token l then m else 0) \<le> cm_lent t (loans(i \<mapsto> ?p))"
    using same by (simp add: cm_lent_upd [OF fin] l(1) cm_lent_in_def)
qed

lemma cm_backedI:
  assumes "cm_backed bal self w s"
    and "\<And>t. bal (cm_tokens s) t self + cm_lent t (cm_loan s) + (cm_get_total_collateral_for_type t s' - cm_get_total_collateral_for_type t s)
      \<le> bal (cm_tokens s') t self + cm_lent t (cm_loan s')"
  shows "cm_backed bal self w s'"
  unfolding cm_backed_def
proof
  fix t
  show "bal w t self + cm_get_total_collateral_for_type t s' \<le> bal (cm_tokens s') t self + cm_lent t (cm_loan s')"
    using assms(1) [unfolded cm_backed_def, rule_format, of t] assms(2) [of t] by linarith
qed

lemma cm_inv_locked:
  assumes "cm_inv bal self w t s"
  shows "cm_core (s\<lparr>cm_reentrancy_lock := x\<rparr>)" and "cm_backed bal self w (s\<lparr>cm_reentrancy_lock := x\<rparr>)"
  using assms by (simp_all add: cm_inv_def cm_core_def cm_backed_def cm_get_total_collateral_for_type_def)

lemma cm_inv_guard:
  assumes inv: "cm_inv bal self w t s" and run: "cm_with_guard f s = Inr (u, s')"
    and step: "\<And>s s1. cm_core s \<Longrightarrow> cm_backed bal self w s \<Longrightarrow> f s = Inr s1 \<Longrightarrow> cm_core s1 \<and> cm_backed bal self w s1"
  shows "cm_inv bal self w t s'"
proof -
  from run obtain s1 where f: "f (s\<lparr>cm_reentrancy_lock := Some True\<rparr>) = Inr s1" and s': "s' = cm_leave s1"
    by (rule cm_with_guard_Inr)
  have "cm_core s1 \<and> cm_backed bal self w s1" by (rule step [OF cm_inv_locked [OF inv] f])
  then show ?thesis
    by (simp add: s' cm_leave_def cm_inv_def cm_core_def cm_backed_def cm_get_total_collateral_for_type_def cm_is_reentrancy_locked_def)
qed

context token_contract
begin

text \<open>What a payment does to the contract's balances.\<close>

lemma cm_pay_in:
  assumes "transfer e tok a self n w = Some w'" and "a \<noteq> self"
  shows "balance w' t self = balance w t self + (if t = tok then n else 0)"
  using transfer_moves [OF assms(1), of t self] assms(2) by auto

lemma cm_step_deposit:
  assumes inv: "cm_inv balance self w t s" and adm: "env_self e = self" "\<not> env_auth e self"
    and run: "cm_deposit_collateral transfer e u tok n s = Inr (r, s')"
  shows "cm_inv balance self w t s'"
proof -
  note core = cm_inv_core [OF inv]
  from core run obtain w' where a: "env_auth e u" "0 < n" "transfer e tok u (env_self e) n (cm_tokens s) = Some w'"
    and s': "s' = s\<lparr>cm_tokens := w',
      cm_user_collateral := (cm_user_collateral s)((u, tok) \<mapsto>
        (cm_get_user_collateral u tok s)\<lparr>uc_amount := uc_amount (cm_get_user_collateral u tok s) + n, uc_last_updated := env_timestamp e\<rparr>),
      cm_total_collateral := (cm_total_collateral s)(tok \<mapsto> cm_get_total_collateral_for_type tok s + n)\<rparr>"
    by (rule cm_deposit_Inr) blast
  have "u \<noteq> self" using a(1) adm(2) by auto
  note pay = cm_pay_in [OF a(3) [unfolded adm(1)] this]
  have "cm_core s'" using cm_coll_user(3) [OF cm_core_parts(1) [OF core], of u tok] a(2) by (intro cm_core_deposit [OF core _ s']) simp
  moreover have "cm_backed balance self w s'"
    by (rule cm_backedI [where s = s]) (use inv in \<open>simp_all add: cm_inv_def s' pay cm_get_total_collateral_for_type_def\<close>)
  ultimately show ?thesis using inv by (simp add: cm_inv_def s' cm_is_reentrancy_locked_def)
qed

lemma cm_step_withdraw:
  assumes core: "cm_core s" and backed: "cm_backed balance self w s" and adm: "env_self e = self"
    and run: "cm_withdraw_internal transfer orc e u tok n s = Inr s'"
  shows "cm_core s' \<and> cm_backed balance self w s'"
proof -
  from core run obtain w' where a: "0 < n" "n \<le> uc_amount (cm_get_user_collateral u tok s)" "transfer e tok (env_self e) u n (cm_tokens s) = Some w'"
    and s': "s' = s\<lparr>cm_tokens := w',
      cm_user_collateral := (cm_user_collateral s)((u, tok) \<mapsto>
        (cm_get_user_collateral u tok s)\<lparr>uc_amount := uc_amount (cm_get_user_collateral u tok s) - n, uc_last_updated := env_timestamp e\<rparr>),
      cm_total_collateral := (cm_total_collateral s)(tok \<mapsto> cm_get_total_collateral_for_type tok s - n)\<rparr>"
    by (rule cm_withdraw_Inr) blast
  have "cm_core s'"
    by (rule cm_core_deposit [OF core, where x = "- n" and u = u and tok = tok and w' = w' and n = "env_timestamp e"]) (use a s' in simp_all)
  moreover have "cm_backed balance self w s'"
  proof (rule cm_backedI [OF backed])
    fix t
    show "balance (cm_tokens s) t self + cm_lent t (cm_loan s) + (cm_get_total_collateral_for_type t s' - cm_get_total_collateral_for_type t s)
        \<le> balance (cm_tokens s') t self + cm_lent t (cm_loan s')"
      using balance_src_ge [OF a(3), of t self] by (auto simp: s' cm_get_total_collateral_for_type_def)
  qed
  ultimately show ?thesis ..
qed

lemma cm_step_borrow:
  assumes core: "cm_core s" and backed: "cm_backed balance self w s" and adm: "env_self e = self"
    and run: "cm_borrow_internal transfer orc e u tok n s = Inr s'"
  shows "cm_core s' \<and> cm_backed balance self w s'"
  using core run
proof (cases rule: cm_borrow_Inr)
  case (1 s1 w' util)
  let ?l = "cm_new_loan e (cm_get_loan_counter s1) u tok n (cm_calculate_interest_rate (cm_get_protocol_params s) util)"
  note parts = cm_core_parts [OF 1(2)] and s' = 1(8)
  note f = cm_touched_fields [OF 1(3)]
  have lok: "cm_loan_ok ?l" using 1(1) by (simp add: cm_loan_ok_def cm_new_loan_def cm_is_open_def)
  have loans: "cm_loans_ok ((cm_loan s1)(cm_get_loan_counter s1 \<mapsto> ?l)) ((cm_user_loan_ids s1)(u \<mapsto> cm_get_user_loan_ids u s1 @ [cm_get_loan_counter s1]))
      (Suc (cm_get_loan_counter s1)) ((cm_total_debt s1)(tok \<mapsto> cm_get_total_debt tok s1 + n))"
    using cm_loans_ok_new [OF parts(2) _ lok, of u tok]
    by (simp add: cm_new_loan_def cm_get_loan_counter_def cm_get_user_loan_ids_def cm_get_total_debt_def)
  have started: "cm_initialized s1"
  proof (rule ccontr)
    assume "\<not> cm_initialized s1"
    then have "cm_get_collateral_tokens s1 = []" using parts(3) by (auto simp: cm_setup_ok_def cm_get_collateral_tokens_def)
    then have "cm_total_collateral_value orc e u s1 = Inr 0" by (simp add: cm_total_collateral_value_def)
    moreover have "cm_user_total_debt u s1 = Inr 0"
    proof -
      have "cm_loan s1 = (\<lambda>_. None)" using parts(4) \<open>\<not> cm_initialized s1\<close> by simp
      then have "cm_get_user_loan_ids u s1 = []" using parts(2) by (cases "cm_get_user_loan_ids u s1") (auto simp: cm_loans_ok_def cm_get_user_loan_ids_def)
      then show ?thesis by (simp add: cm_user_total_debt_def)
    qed
    ultimately show False using 1(5) 1(1) by (auto simp: cm_check_borrow_health_def result_iffs)
  qed
  have "cm_core s'" using parts loans started by (simp add: s' cm_core_def)
  moreover have "cm_backed balance self w s'"
  proof (rule cm_backedI [OF backed])
    fix t
    have new: "cm_loan s1 (cm_get_loan_counter s1) = None"
      using parts(2) by (cases "cm_loan s1 (cm_get_loan_counter s1)") (auto simp: cm_loans_ok_def cm_get_loan_counter_def)
    have "finite (dom (cm_loan s1))" using parts(2) by (simp add: cm_loans_ok_def)
    then have "cm_lent t (cm_loan s') = cm_lent t (cm_loan s) + (if t = tok then n else 0)"
      by (simp add: s' cm_lent_upd new cm_lent_touched [OF 1(3)] cm_lent_in_def cm_new_loan_def)
    then show "balance (cm_tokens s) t self + cm_lent t (cm_loan s) + (cm_get_total_collateral_for_type t s' - cm_get_total_collateral_for_type t s)
        \<le> balance (cm_tokens s') t self + cm_lent t (cm_loan s')"
      using balance_src_ge [OF 1(7), of t self] by (auto simp: s' cm_get_total_collateral_for_type_def f(12))
  qed
  ultimately show ?thesis ..
qed

lemma cm_step_repay:
  assumes core: "cm_core s" and backed: "cm_backed balance self w s" and adm: "env_self e = self" "u \<noteq> self"
    and run: "cm_repay_internal transfer e u i n s = Inr s'"
  shows "cm_core s' \<and> cm_backed balance self w s'"
  using core run
proof (cases rule: cm_repay_Inr)
  case (1 l w' debts)
  note parts = cm_core_parts [OF core] and s' = 1(7)
  note paid = cm_paid_loan [OF parts(2) 1(2,4,1,5) disjI1 [OF refl] 1(8) [unfolded cm_get_total_debt_def]]
  have "cm_core s'" using parts paid(1) 1(2) by (auto simp: s' cm_core_def)
  moreover have "cm_backed balance self w s'"
    by (rule cm_backedI [OF backed])
       (use paid(2) cm_pay_in [OF 1(6) [unfolded adm(1)] adm(2)] in \<open>simp add: s' cm_get_total_collateral_for_type_def algebra_simps\<close>)
  ultimately show ?thesis ..
qed

lemma cm_step_liquidate:
  assumes core: "cm_core s" and backed: "cm_backed balance self w s" and adm: "env_self e = self" "q \<noteq> self"
    and run: "cm_liquidate_internal transfer orc e q b i n s = Inr s'"
  shows "cm_core s' \<and> cm_backed balance self w s'"
  using core run
proof (cases rule: cm_liquidate_Inr)
  case (1 l hf m ct x w1 w2 debts)
  note parts = cm_core_parts [OF core] and s' = 1(11)
  have lok: "cm_loan_ok l" by (rule cm_loans_okD(3) [OF parts(2) 1(2)])
  have m: "0 < m" "m \<le> ln_total_debt l + cm_due e l" using 1(1,4,7) lok cm_due_nonneg [of e l] by (auto simp: cm_loan_ok_def)
  note paid = cm_paid_loan [OF parts(2) 1(2,4) m disjI2 [OF refl] 1(12) [unfolded cm_get_total_debt_def]]
  from core 1(8) m(1) have x: "0 < x" "x \<le> uc_amount (cm_get_user_collateral b ct s)" by (rule cm_seizure_step; simp)+
  define s1 where "s1 = s\<lparr>cm_tokens := w2,
      cm_user_collateral := (cm_user_collateral s)((b, ct) \<mapsto>
        (cm_get_user_collateral b ct s)\<lparr>uc_amount := uc_amount (cm_get_user_collateral b ct s) - x, uc_last_updated := env_timestamp e\<rparr>),
      cm_total_collateral := (cm_total_collateral s)(ct \<mapsto> cm_get_total_collateral_for_type ct s - x)\<rparr>"
  have "cm_core s1"
    by (rule cm_core_deposit [OF core, where x = "- x" and u = b and tok = ct and w' = w2 and n = "env_timestamp e"]) (use x s1_def in simp_all)
  moreover have s1': "s' = s1\<lparr>cm_loan := (cm_loan s)(i \<mapsto> cm_paid (ln_is_liquidated_update (\<lambda>_. True)) m (cm_accrued e l)), cm_total_debt := debts\<rparr>"
    by (simp add: s' s1_def)
  ultimately have "cm_core s'" using paid(1) 1(2) by (auto simp: s1_def cm_core_def)
  moreover have "cm_backed balance self w s'"
  proof (rule cm_backedI [OF backed])
    fix t
    show "balance (cm_tokens s) t self + cm_lent t (cm_loan s) + (cm_get_total_collateral_for_type t s' - cm_get_total_collateral_for_type t s)
        \<le> balance (cm_tokens s') t self + cm_lent t (cm_loan s')"
      using paid(2) [of t] cm_pay_in [OF 1(9) [unfolded adm(1)] adm(2), of t] balance_src_ge [OF 1(10), of t self]
      by (auto simp: s' cm_get_total_collateral_for_type_def split: if_splits)
  qed
  ultimately show ?thesis ..
qed

lemma cm_inv_call:
  assumes inv: "cm_inv balance self w t s" and adm: "cm_adm self e c" and run: "cm_exec transfer orc e c s = Some s'"
  shows "cm_inv balance self w t s'"
proof -
  have self: "env_self e = self" "\<not> env_auth e self" using adm by (simp_all add: cm_adm_def)
  have wd: "cm_inv balance self w t s'" if run: "cm_withdraw_collateral transfer orc e u k n s = Inr (r, s')" for u k n r
  proof -
    have g: "cm_with_guard (cm_withdraw_internal transfer orc e u k n) s = Inr (r, s')" using run self(2) by (auto simp: cm_withdraw_collateral_def result_iffs)
    show ?thesis by (rule cm_inv_guard [OF inv g]) (rule cm_step_withdraw [OF _ _ self(1)])
  qed
  have bo: "cm_inv balance self w t s'" if run: "cm_borrow transfer orc e u k n s = Inr (r, s')" for u k n r
  proof -
    have g: "cm_with_guard (cm_borrow_internal transfer orc e u k n) s = Inr (r, s')" using run self(2) by (auto simp: cm_borrow_def result_iffs)
    show ?thesis by (rule cm_inv_guard [OF inv g]) (rule cm_step_borrow [OF _ _ self(1)])
  qed
  have re: "cm_inv balance self w t s'" if run: "cm_repay_loan transfer e u i n s = Inr (r, s')" for u i n r
  proof -
    have g: "cm_with_guard (cm_repay_internal transfer e u i n) s = Inr (r, s')" and ne: "u \<noteq> self" using run self(2) by (auto simp: cm_repay_loan_def result_iffs)
    show ?thesis by (rule cm_inv_guard [OF inv g]) (rule cm_step_repay [OF _ _ self(1) ne])
  qed
  have li: "cm_inv balance self w t s'" if run: "cm_liquidate transfer orc e q b i n s = Inr (r, s')" for q b i n r
  proof -
    have g: "cm_with_guard (cm_liquidate_internal transfer orc e q b i n) s = Inr (r, s')" and ne: "q \<noteq> self" using run self(2) by (auto simp: cm_liquidate_def result_iffs)
    show ?thesis by (rule cm_inv_guard [OF inv g]) (rule cm_step_liquidate [OF _ _ self(1) ne])
  qed
  show ?thesis
    using run
    by (cases c)
       (simp_all only: cm_exec.simps state_of_eq_Some,
        (elim exE, erule cm_inv_initialize [OF inv] cm_inv_register [OF inv] cm_inv_admin [OF inv] cm_step_deposit [OF inv self] wd bo re li
          cm_inv_accruals [OF inv])+)
qed

end

sublocale token_contract \<subseteq> cmm: contract_machine "cm_exec transfer orc" "cm_adm self" "cm_drift balance self"
  "cm_inv balance self w" "cm_fresh w" for orc self w
proof unfold_locales
  show "cm_inv balance self w 0 (cm_fresh w)"
    by (simp add: cm_inv_def cm_core_fresh) (simp add: cm_fresh_def cm_backed_def cm_is_reentrancy_locked_def cm_get_total_collateral_for_type_def cm_lent_def)
next
  fix t s s'
  assume inv: "cm_inv balance self w t s" and "cm_drift balance self s s'"
  then obtain x where x: "s' = s\<lparr>cm_tokens := x\<rparr>" "\<And>tok. balance (cm_tokens s) tok self \<le> balance x tok self"
    by (auto simp: cm_drift_def)
  have "cm_backed balance self w s'"
    by (rule cm_backedI [where s = s]) (use inv x(2) in \<open>simp_all add: cm_inv_def x(1) cm_get_total_collateral_for_type_def\<close>)
  with inv show "cm_inv balance self w t s'" by (simp add: cm_inv_def x(1) cm_core_def cm_is_reentrancy_locked_def)
next
  fix e c s s'
  assume "cm_inv balance self w (env_timestamp e) s" and "cm_adm self e c" and "cm_exec transfer orc e c s = Some s'"
  then show "cm_inv balance self w (env_timestamp e) s'" by (rule cm_inv_call)
qed (simp add: cm_inv_def)

context token_contract
begin

lemma cm_reach_inv:
  "reach (cm_exec transfer orc) (cm_adm self) (cm_drift balance self) (cm_fresh w) t s \<Longrightarrow> cm_inv balance self w t s"
  by (rule cmm.reach_inv)

lemma cm_reach_core:
  "reach (cm_exec transfer orc) (cm_adm self) (cm_drift balance self) (cm_fresh w) t s \<Longrightarrow> cm_core s"
  by (rule cm_inv_core [OF cm_reach_inv])

end

end
