(* ===== verification/Collateral_Loans.thy ===== *)
theory Collateral_Loans
  imports Collateral_Books
begin

text \<open>
  The properties of the collateral management contract over the transition system of
  Collateral_Books, each with a run of the contract on the test token, and the runs behind the findings.
\<close>

section \<open>A sample run\<close>

definition cm_env :: "u64 \<Rightarrow> env" where
  "cm_env t = \<lparr>env_timestamp = t, env_auth = (\<lambda>a. a \<noteq> Addr 0), env_self = Addr 0, env_sequence = 0\<rparr>"

definition cm_world :: mock_world where
  "cm_world tok = (if tok = Addr 2 then [Addr 8 \<mapsto> 5000] else if tok = Addr 3 then [Addr 0 \<mapsto> 100000, Addr 9 \<mapsto> 5000] else (\<lambda>_. None))"

definition cm_no_oracle :: price_oracle where
  "cm_no_oracle e a f = None"

abbreviation cm_mock :: "env \<Rightarrow> cm_call \<Rightarrow> mock_world cm_state \<Rightarrow> mock_world cm_state option" where
  "cm_mock \<equiv> cm_exec mock_world_transfer cm_no_oracle"

abbreviation cm_sample_reach :: "u64 \<Rightarrow> mock_world cm_state \<Rightarrow> bool" where
  "cm_sample_reach \<equiv> reach cm_mock (cm_adm (Addr 0)) (cm_drift mock_world_balance (Addr 0)) (cm_fresh cm_world)"

text \<open>What is unfolded to evaluate a call on the test token.\<close>

lemmas cm_eval = cm_setters cm_getters cm_transfer_def call_token_def mock_world_transfer_def mock_transfer_def mock_world_balance_def mock_balance_def
  require_auth_def cm_env_def cm_assert_admin_def rb_require_admin_def rb_get_admin_def cm_check_paused_def cm_with_guard_def cm_enter_def cm_leave_def
  cm_add_def cm_sub_def cm_mul_def cm_div_def arith_defs div_i128_nonneg Let_def cm_world_def

text \<open>One collateral type at price \<open>p\<close> and the given scale, and a deposit of 1000.\<close>

definition cm_demo_config :: "i128 \<Rightarrow> collateral_type_config" where
  "cm_demo_config scale = \<lparr>ct_token = Addr 2, ct_oracle_feed = ''X'', ct_ltv_bps = 7500, ct_liq_threshold_bps = 8000, ct_liq_bonus_bps = 500,
     ct_collateral_cap = 0, ct_is_active = True, ct_price_scale = scale\<rparr>"

definition cm_opened :: "i128 \<Rightarrow> i128 \<Rightarrow> mock_world cm_state" where
  "cm_opened p scale = \<lparr>cm_initialized = True,
     cm_roles = \<lparr>rb_admin = Some (Addr 5), rb_minters = None, rb_providers = (\<lambda>_. None), rb_governance = None, rb_kyc = None\<rparr>,
     cm_oracle = Some (Addr 6), cm_treasury = None, cm_loan_counter = Some 0, cm_config = [Addr 2 \<mapsto> cm_demo_config scale],
     cm_collateral_tokens = Some [Addr 2],
     cm_user_collateral = [(Addr 8, Addr 2) \<mapsto> \<lparr>uc_user = Addr 8, uc_token = Addr 2, uc_amount = 1000, uc_last_updated = 100\<rparr>],
     cm_params = None, cm_total_debt = (\<lambda>_. None), cm_paused = Some False, cm_reentrancy_lock = Some False,
     cm_total_collateral = [Addr 2 \<mapsto> 1000], cm_pool_deposits = (\<lambda>_. None), cm_loan = (\<lambda>_. None), cm_user_loan_ids = (\<lambda>_. None),
     cm_price_cache = [''X'' \<mapsto> p], cm_tokens = cm_world(Addr 2 := [Addr 8 \<mapsto> 4000, Addr 0 \<mapsto> 1000])\<rparr>"

definition cm_opened_trace :: "i128 \<Rightarrow> i128 \<Rightarrow> (env \<times> cm_call) list" where
  "cm_opened_trace p scale = map (Pair (cm_env 100)) [CmInitialize (Addr 5) (Addr 6) None,
     CmRegister (Addr 5) (Addr 2) ''X'' 7500 8000 500 0 scale, CmSetPrice (Addr 5) ''X'' p, CmDeposit (Addr 8) (Addr 2) 1000]"

lemma cm_opened_run: "0 < p \<Longrightarrow> 0 < scale \<Longrightarrow> run_calls cm_mock (cm_opened_trace p scale) (cm_fresh cm_world) = cm_opened p scale"
  by (simp add: cm_opened_trace_def cm_opened_def cm_demo_config_def cm_fresh_def cm_initialize_def cm_register_collateral_type_def cm_check_risk_def
      cm_set_price_def cm_deposit_collateral_def cm_check_caps_def cm_eval MAX_LTV_BPS_def MAX_LIQ_THRESHOLD_BPS_def MAX_LIQ_BONUS_BPS_def fun_upd_twist)

lemma cm_opened_reach: "0 < p \<Longrightarrow> 0 < scale \<Longrightarrow> cm_sample_reach 100 (cm_opened p scale)"
proof -
  assume "0 < p" "0 < scale"
  note run = cm_opened_run [OF this]
  have "trace_ok (cm_adm (Addr 0)) 0 (cm_opened_trace p scale)" by (simp add: cm_opened_trace_def cm_env_def cm_adm_def)
  from reach_run [where exec = cm_mock and drift = "cm_drift mock_world_balance (Addr 0)" and ?s0.0 = "cm_fresh cm_world", OF this] show ?thesis
    unfolding run by (simp add: cm_opened_trace_def cm_env_def)
qed

text \<open>The depositor borrows 1500 of another token.\<close>

definition cm_demo_loan :: loan where
  "cm_demo_loan = \<lparr>ln_loan_id = 0, ln_borrower = Addr 8, ln_borrow_token = Addr 3, ln_principal = 1500, ln_accrued_interest = 0, ln_total_debt = 1500,
     ln_interest_rate_bps = 200, ln_created_at = 200, ln_last_accrual_update = 200, ln_is_liquidated = False, ln_is_repaid = False\<rparr>"

definition cm_borrowed :: "mock_world cm_state" where
  "cm_borrowed = (cm_opened 2 1)\<lparr>cm_loan_counter := Some 1, cm_loan := [0 \<mapsto> cm_demo_loan], cm_user_loan_ids := [Addr 8 \<mapsto> [0]],
     cm_total_debt := [Addr 3 \<mapsto> 1500],
     cm_tokens := (cm_world(Addr 2 := [Addr 8 \<mapsto> 4000, Addr 0 \<mapsto> 1000]))(Addr 3 := [Addr 0 \<mapsto> 98500, Addr 9 \<mapsto> 5000, Addr 8 \<mapsto> 1500])\<rparr>"

lemmas cm_health_eval = cm_calc_user_health_def cm_user_total_debt_def cm_total_collateral_value_def cm_weighted_threshold_def cm_amounts_def
  cm_token_value_def cm_get_oracle_price_def cm_threshold_of_def cm_as_u32_def cm_calculate_health_factor_def cm_is_open_def

lemmas cm_borrow_eval = cm_borrow_def cm_borrow_internal_def cm_check_borrow_limits_def cm_check_borrow_health_def cm_calculate_utilization_def
  cm_calculate_interest_rate_def

lemma cm_borrowed_run: "cm_borrow mock_world_transfer cm_no_oracle (cm_env 200) (Addr 8) (Addr 3) 1500 (cm_opened 2 1) = Inr ((), cm_borrowed)"
  by (simp add: cm_borrowed_def cm_demo_loan_def cm_opened_def cm_demo_config_def cm_eval cm_health_eval cm_borrow_eval CM_BPS_DENOMINATOR_def fun_upd_twist)

lemma cm_borrowed_reach: "cm_sample_reach 200 cm_borrowed"
proof -
  have "cm_sample_reach 200 (cm_opened 2 1)" by (rule reach_tick [OF cm_opened_reach]) simp_all
  then show ?thesis
    by (rule reach_call [where e = "cm_env 200" and c = "CmBorrow (Addr 8) (Addr 3) 1500"])
       (simp_all add: cm_borrowed_run, simp_all add: cm_env_def cm_adm_def)
qed

section \<open>The books\<close>

text \<open>
  Deposits are backed. In every reachable state, on a token that follows the token interface, the
  recorded collateral of a token is held by the contract, beyond its initial balance, or is out in the
  principal of loans of that token: the contract lends the collateral of its depositors.
\<close>

theorem cm_deposits_backed:
  assumes "token_contract tr bal"
    and "reach (cm_exec tr orc) (cm_adm self) (cm_drift bal self) (cm_fresh w) t s"
  shows "bal w tok self + cm_get_total_collateral_for_type tok s \<le> bal (cm_tokens s) tok self + cm_lent tok (cm_loan s)"
  using token_contract.cm_reach_inv [OF assms] by (simp add: cm_inv_def cm_backed_def)

theorem cm_deposits_backed_witness:
  "mock_world_balance cm_world (Addr 3) (Addr 0) + cm_get_total_collateral_for_type (Addr 3) cm_borrowed
     \<le> mock_world_balance (cm_tokens cm_borrowed) (Addr 3) (Addr 0) + cm_lent (Addr 3) (cm_loan cm_borrowed)"
  by (rule cm_deposits_backed [OF mock.token_contract_axioms cm_borrowed_reach])

text \<open>
  C21. The ledgers are exact. In every reachable state the total collateral of a token is the sum of the
  users' deposits, the total debt of a token is the sum of the debts of its loans, a loan owes its
  principal and its interest, positive while it is open and nothing once it is closed, and the loan ids of
  a user are distinct and are exactly the loans the user has taken.
\<close>

theorem cm_ledgers_exact:
  assumes "token_contract tr bal"
    and "reach (cm_exec tr orc) (cm_adm self) (cm_drift bal self) (cm_fresh w) t s"
  shows "cm_get_total_collateral_for_type tok s = key_sum (cm_deposit_in tok) (cm_user_collateral s) \<and>
    cm_get_total_debt tok s = entry_sum (cm_debt_in tok) (cm_loan s) \<and>
    (\<forall>i l. cm_loan s i = Some l \<longrightarrow> ln_total_debt l = ln_principal l + ln_accrued_interest l \<and> 0 \<le> ln_principal l \<and> 0 \<le> ln_accrued_interest l \<and>
      (0 < ln_total_debt l \<longleftrightarrow> cm_is_open l)) \<and>
    distinct (cm_get_user_loan_ids u s) \<and> set (cm_get_user_loan_ids u s) = {i. \<exists>l. cm_loan s i = Some l \<and> ln_borrower l = u}"
proof -
  note parts = cm_core_parts [OF token_contract.cm_reach_core [OF assms]]
  have "set (cm_get_user_loan_ids u s) = {i. \<exists>l. cm_loan s i = Some l \<and> ln_borrower l = u}"
    using cm_loans_okD(4) [OF parts(2)] cm_loans_ok_ids [OF parts(2)] by (fastforce simp: cm_get_user_loan_ids_def)
  moreover have "ln_total_debt l = ln_principal l + ln_accrued_interest l \<and> 0 \<le> ln_principal l \<and> 0 \<le> ln_accrued_interest l \<and>
      (0 < ln_total_debt l \<longleftrightarrow> cm_is_open l)" if "cm_loan s i = Some l" for i l
    using cm_loans_okD(3) [OF parts(2) that] by (auto simp: cm_loan_ok_def split: if_splits)
  moreover have "cm_get_total_collateral_for_type tok s = key_sum (cm_deposit_in tok) (cm_user_collateral s)"
    using parts(1) by (simp add: cm_coll_ok_def cm_get_total_collateral_for_type_def)
  moreover have "cm_get_total_debt tok s = entry_sum (cm_debt_in tok) (cm_loan s)" "distinct (cm_get_user_loan_ids u s)"
    using parts(2) by (simp_all add: cm_loans_ok_def cm_get_total_debt_def cm_get_user_loan_ids_def)
  ultimately show ?thesis by blast
qed

theorem cm_ledgers_exact_witness:
  "cm_get_total_debt (Addr 3) cm_borrowed = entry_sum (cm_debt_in (Addr 3)) (cm_loan cm_borrowed) \<and>
   set (cm_get_user_loan_ids (Addr 8) cm_borrowed) = {i. \<exists>l. cm_loan cm_borrowed i = Some l \<and> ln_borrower l = Addr 8}"
  using cm_ledgers_exact [OF mock.token_contract_axioms cm_borrowed_reach, of "Addr 3" "Addr 8"] by blast

section \<open>Collateralisation\<close>

lemma cm_health_bound:
  assumes core: "cm_core s" and v: "cm_sum_values orc e s a toks 0 = Inr v" and wt: "cm_sum_weights orc e s a toks 0 0 = Inr sums"
    and hf: "cm_calculate_health_factor v d (cm_threshold_of sums) = Inr hf" and d: "0 < d" and thr: "10000 \<le> hf_health_factor_bps hf"
  shows "hf_total_debt hf = d" and "100 * d \<le> 98 * hf_total_collateral_value hf"
proof -
  obtain ws tv where sums: "sums = (ws, tv)" by (cases sums)
  have bound: "tv = v \<and> 0 \<le> ws \<and> ws \<le> 9800 * tv"
    using cm_sum_weights_Inr [OF cm_core_parts(3) [OF core] wt [unfolded sums]] v by auto
  have le: "int (cm_threshold_of sums) \<le> 9800" unfolding sums by (rule cm_threshold_bound) (use bound in auto)
  note h = cm_health_Inr [OF hf d]
  have pos: "0 < v" using thr h(1) by (auto split: if_splits)
  then have val: "hf_total_collateral_value hf = v" using hf d by (auto simp: cm_calculate_health_factor_def result_iffs Let_def)
  have "10000 \<le> v * int (cm_threshold_of sums) div d" using thr h(1) pos by simp
  then have "10000 * d \<le> (v * int (cm_threshold_of sums) div d) * d" using d by (intro mult_right_mono) auto
  also have "\<dots> \<le> v * int (cm_threshold_of sums)" using d by (simp add: div_mult_mod_eq minus_mod_eq_div_mult [symmetric])
  also have "\<dots> \<le> v * 9800" using pos le by (intro mult_left_mono) auto
  finally show "100 * d \<le> 98 * hf_total_collateral_value hf" by (simp add: val)
  show "hf_total_debt hf = d" by (rule h(2))
qed

lemma cm_sum_debts_append: "cm_sum_debts P s (xs @ ys) n = and_then (cm_sum_debts P s xs n) (cm_sum_debts P s ys)"
  by (induction xs arbitrary: n) (auto simp: and_then_assoc intro!: and_then_cong)

text \<open>The state a call leaves is that of its body with the lock released, which no check reads.\<close>

lemma cm_leave_reads:
  "cm_user_total_debt u (cm_leave s) = cm_user_total_debt u s" "cm_get_health_factor orc e u (cm_leave s) = cm_calc_user_health orc e u s"
proof -
  show "cm_user_total_debt u (cm_leave s) = cm_user_total_debt u s"
    unfolding cm_user_total_debt_def cm_get_user_loan_ids_def cm_leave_def by (simp, rule cm_sum_debts_cong) simp
  show "cm_get_health_factor orc e u (cm_leave s) = cm_calc_user_health orc e u s"
    unfolding cm_get_health_factor_def by (rule cm_health_cong) (simp_all add: cm_leave_def)
qed

lemma cm_withdraw_healthy:
  assumes core: "cm_core s" and run: "cm_withdraw_internal tr orc e u tok n s = Inr s'"
  shows "\<exists>d. cm_user_total_debt u s' = Inr d \<and> (0 < d \<longrightarrow> (\<exists>hf. cm_calc_user_health orc e u s' = Inr hf \<and> hf_total_debt hf = d \<and>
    int (pp_liq_health_threshold_bps (cm_get_protocol_params s)) \<le> hf_health_factor_bps hf \<and>
    (10000 \<le> hf_health_factor_bps hf \<longrightarrow> 100 * d \<le> 98 * hf_total_collateral_value hf)))"
  using core run
proof (cases rule: cm_withdraw_Inr)
  case (1 w')
  let ?r = "uc_amount (cm_get_user_collateral u tok s) - n"
  note s' = 1(5)
  have am: "cm_amounts u s' = cm_override u tok ?r s"
    by (auto simp: fun_eq_iff cm_amounts_def cm_override_def s' cm_get_user_collateral_def)
  have debt: "cm_user_total_debt u s' = cm_user_total_debt u s"
    unfolding cm_user_total_debt_def cm_get_user_loan_ids_def s' by (simp, rule cm_sum_debts_cong) simp
  have loops: "cm_sum_values orc e s' a ts m = cm_sum_values orc e s a ts m" "cm_sum_weights orc e s' a ts m k = cm_sum_weights orc e s a ts m k" for a ts m k
    by (rule cm_loops_cong; simp add: s')+
  have toks: "cm_get_collateral_tokens s' = cm_get_collateral_tokens s" by (simp add: s' cm_get_collateral_tokens_def)
  obtain d where d: "cm_user_total_debt u s = Inr d" using 1(3) by (auto simp: cm_check_withdrawal_def result_iffs)
  show ?thesis
  proof (cases "0 < d")
    case False
    then show ?thesis using d debt by auto
  next
    case True
    obtain v sums hf where c: "cm_sum_values orc e s (cm_override u tok ?r s) (cm_get_collateral_tokens s) 0 = Inr v"
        "cm_sum_weights orc e s (cm_override u tok ?r s) (cm_get_collateral_tokens s) 0 0 = Inr sums"
        "cm_calculate_health_factor v d (cm_threshold_of sums) = Inr hf"
        "int (pp_liq_health_threshold_bps (cm_get_protocol_params s)) \<le> hf_health_factor_bps hf"
      using 1(3) True d by (auto simp: cm_check_withdrawal_def cm_total_collateral_value_override_def cm_weighted_threshold_override_def result_iffs)
    have "cm_calc_user_health orc e u s' = Inr hf"
      by (simp add: cm_calc_user_health_def debt d cm_total_collateral_value_def cm_weighted_threshold_def am loops toks c)
    moreover have "hf_total_debt hf = d" using cm_health_Inr(2) [OF c(3) True] .
    moreover have "100 * d \<le> 98 * hf_total_collateral_value hf" if "10000 \<le> hf_health_factor_bps hf"
      by (rule cm_health_bound(2) [OF core c(1,2,3) True that])
    ultimately show ?thesis using c(4) debt d by auto
  qed
qed

lemma cm_borrow_healthy:
  assumes core: "cm_core s" and run: "cm_borrow_internal tr orc e u tok n s = Inr s'"
  shows "\<exists>d. cm_user_total_debt u s' = Inr d \<and> (0 < d \<longrightarrow> (\<exists>hf. cm_calc_user_health orc e u s' = Inr hf \<and> hf_total_debt hf = d \<and>
    int (pp_liq_health_threshold_bps (cm_get_protocol_params s)) \<le> hf_health_factor_bps hf \<and>
    (10000 \<le> hf_health_factor_bps hf \<longrightarrow> 100 * d \<le> 98 * hf_total_collateral_value hf)))"
  using core run
proof (cases rule: cm_borrow_Inr)
  case (1 s1 w' util)
  note s' = 1(8) and parts = cm_core_parts [OF 1(2)]
  let ?l = "cm_new_loan e (cm_get_loan_counter s1) u tok n (cm_calculate_interest_rate (cm_get_protocol_params s) util)"
  have am: "cm_amounts u s' = cm_amounts u s1" by (auto simp: fun_eq_iff cm_amounts_def s' cm_get_user_collateral_def)
  have loops: "cm_sum_values orc e s' a ts m = cm_sum_values orc e s1 a ts m" "cm_sum_weights orc e s' a ts m k = cm_sum_weights orc e s1 a ts m k" for a ts m k
    by (rule cm_loops_cong; simp add: s')+
  have toks: "cm_get_collateral_tokens s' = cm_get_collateral_tokens s1" by (simp add: s' cm_get_collateral_tokens_def)
  have fresh: "cm_loan s' i = cm_loan s1 i" if mem: "i \<in> set (cm_get_user_loan_ids u s1)" for i
  proof -
    obtain l where "cm_loan s1 i = Some l" using cm_loans_ok_ids [OF parts(2) mem [unfolded cm_get_user_loan_ids_def]] by blast
    then have "i < cm_get_loan_counter s1" using cm_loans_okD(2) [OF parts(2)] by (simp add: cm_get_loan_counter_def)
    then show ?thesis by (simp add: s')
  qed
  have ids: "cm_get_user_loan_ids u s' = cm_get_user_loan_ids u s1 @ [cm_get_loan_counter s1]" by (simp add: s' cm_get_user_loan_ids_def)
  obtain d where d: "cm_user_total_debt u s1 = Inr d" and sum: "in_i128 (d + n)"
    using 1(5) by (auto simp: cm_check_borrow_health_def result_iffs)
  have debt: "cm_user_total_debt u s' = Inr (d + n)"
  proof -
    have "cm_sum_debts (\<lambda>l. cm_is_open l \<and> ln_borrower l = u) s' (cm_get_user_loan_ids u s1) 0 = Inr d"
      using d cm_sum_debts_cong [OF fresh, of "cm_get_user_loan_ids u s1"] by (simp add: cm_user_total_debt_def)
    moreover have "cm_loan s' (cm_get_loan_counter s1) = Some ?l" by (simp add: s')
    ultimately show ?thesis
      using sum by (simp add: cm_user_total_debt_def ids cm_sum_debts_append cm_new_loan_def cm_is_open_def cm_add_def checked_add_i128_def narrow_i128_def)
  qed
  show ?thesis
  proof (cases "0 < d + n")
    case False
    then show ?thesis using debt by auto
  next
    case True
    obtain v sums hf where c: "cm_sum_values orc e s1 (cm_amounts u s1) (cm_get_collateral_tokens s1) 0 = Inr v"
        "cm_sum_weights orc e s1 (cm_amounts u s1) (cm_get_collateral_tokens s1) 0 0 = Inr sums"
        "cm_calculate_health_factor v (d + n) (cm_threshold_of sums) = Inr hf"
        "int (pp_liq_health_threshold_bps (cm_get_protocol_params s)) \<le> hf_health_factor_bps hf"
      using 1(5) True d by (auto simp: cm_check_borrow_health_def cm_total_collateral_value_def cm_weighted_threshold_def result_iffs)
    have "cm_calc_user_health orc e u s' = Inr hf"
      by (simp add: cm_calc_user_health_def debt cm_total_collateral_value_def cm_weighted_threshold_def am loops toks c)
    moreover have "hf_total_debt hf = d + n" using cm_health_Inr(2) [OF c(3) True] .
    moreover have "100 * (d + n) \<le> 98 * hf_total_collateral_value hf" if "10000 \<le> hf_health_factor_bps hf"
      by (rule cm_health_bound(2) [OF 1(2) c(1,2,3) True that])
    ultimately show ?thesis using c(4) debt by auto
  qed
qed

text \<open>
  C13. Borrowing and withdrawing keep an account collateralised. After either call the account's health
  factor, evaluated in the new state, is at least the configured threshold when it has debt; at a threshold
  of one or more, what is owed is at most 98 percent of the value of the remaining collateral.
\<close>

theorem cm_stays_collateralised:
  assumes "token_contract tr bal"
    and "reach (cm_exec tr orc) (cm_adm self) (cm_drift bal self) (cm_fresh w) t s"
    and "cm_borrow tr orc e u tok n s = Inr ((), s') \<or> cm_withdraw_collateral tr orc e u tok n s = Inr ((), s')"
  shows "\<exists>d. cm_user_total_debt u s' = Inr d \<and> (0 < d \<longrightarrow> (\<exists>hf. cm_get_health_factor orc e u s' = Inr hf \<and> hf_total_debt hf = d \<and>
    int (pp_liq_health_threshold_bps (cm_get_protocol_params s)) \<le> hf_health_factor_bps hf \<and>
    (10000 \<le> hf_health_factor_bps hf \<longrightarrow> 100 * d \<le> 98 * hf_total_collateral_value hf)))"
proof -
  note core = cm_inv_locked(1) [OF token_contract.cm_reach_inv [OF assms(1,2)], of "Some True"]
  have params: "cm_get_protocol_params (s\<lparr>cm_reentrancy_lock := Some True\<rparr>) = cm_get_protocol_params s" by (simp add: cm_get_protocol_params_def)
  from assms(3) obtain s1 where s': "s' = cm_leave s1"
    and body: "cm_borrow_internal tr orc e u tok n (s\<lparr>cm_reentrancy_lock := Some True\<rparr>) = Inr s1 \<or>
      cm_withdraw_internal tr orc e u tok n (s\<lparr>cm_reentrancy_lock := Some True\<rparr>) = Inr s1"
    by (auto simp: cm_borrow_def cm_withdraw_collateral_def cm_with_guard_def cm_enter_def result_iffs)
  show ?thesis
    using body cm_borrow_healthy [OF core, unfolded params] cm_withdraw_healthy [OF core, unfolded params] unfolding s' cm_leave_reads by blast
qed

theorem cm_stays_collateralised_witness:
  "\<exists>hf. cm_get_health_factor cm_no_oracle (cm_env 200) (Addr 8) cm_borrowed = Inr hf \<and> hf_total_debt hf = 1500 \<and> 10000 \<le> hf_health_factor_bps hf"
proof -
  have "cm_user_total_debt (Addr 8) cm_borrowed = Inr 1500"
    by (simp add: cm_borrowed_def cm_demo_loan_def cm_user_total_debt_def cm_get_user_loan_ids_def cm_is_open_def cm_add_def arith_defs)
  moreover have "\<exists>d. cm_user_total_debt (Addr 8) cm_borrowed = Inr d \<and> (0 < d \<longrightarrow> (\<exists>hf. cm_get_health_factor cm_no_oracle (cm_env 200) (Addr 8) cm_borrowed = Inr hf \<and>
      hf_total_debt hf = d \<and> int (pp_liq_health_threshold_bps (cm_get_protocol_params (cm_opened 2 1))) \<le> hf_health_factor_bps hf \<and>
      (10000 \<le> hf_health_factor_bps hf \<longrightarrow> 100 * d \<le> 98 * hf_total_collateral_value hf)))"
    by (rule cm_stays_collateralised [OF mock.token_contract_axioms cm_opened_reach disjI1 [OF cm_borrowed_run]]) simp_all
  moreover have "pp_liq_health_threshold_bps (cm_get_protocol_params (cm_opened 2 1)) = 10000" by (simp add: cm_opened_def cm_get_protocol_params_def)
  ultimately show ?thesis by auto
qed

section \<open>Liquidation\<close>

text \<open>What the seized amount promises: it is the least whose value reaches the covered debt with the bonus.\<close>

lemma cm_seized_least:
  fixes N p x :: int
  assumes "0 < p" and "x = (N + p * 10000 - 1) div (p * 10000)"
  shows "N \<le> 10000 * (x * p)" and "10000 * ((x - 1) * p) < N"
proof -
  have D: "0 < p * 10000" using assms(1) by simp
  have "x * (p * 10000) + (N + p * 10000 - 1) mod (p * 10000) = N + p * 10000 - 1"
    unfolding assms(2) by (rule div_mult_mod_eq)
  then show "N \<le> 10000 * (x * p)" "10000 * ((x - 1) * p) < N"
    using pos_mod_bound [OF D, of "N + p * 10000 - 1"] pos_mod_sign [OF D, of "N + p * 10000 - 1"] by (auto simp: algebra_simps)
qed

text \<open>
  C14. What a liquidation does. It needs an open loan of a borrower whose health factor is below the
  threshold; it covers at most the debt with the interest due, takes the borrower's collateral of the
  highest value, seizes a positive amount within the deposit, and settles both sides with the liquidator:
  the covered amount is paid into the contract and taken off the debt, the seized amount is taken off the
  deposit and paid out. For collateral quoted at a price scale of one the seized amount is the smallest
  whose value at the oracle price covers the debt and the bonus; the contract's seizure formula leaves the
  price scale out, and at any other scale nothing is claimed about the value
  (\<open>cm_seizure_ignores_scale\<close> below shows what goes wrong there).
\<close>

theorem cm_liquidation_exact:
  assumes "token_contract tr bal"
    and "reach (cm_exec tr orc) (cm_adm self) (cm_drift bal self) (cm_fresh w) t s"
    and "env_self e = self" and "\<not> env_auth e self" and "cm_liquidate tr orc e q b i n s = Inr ((), s')"
  shows "\<exists>l hf m ct cfg p x. cm_loan s i = Some l \<and> ln_borrower l = b \<and> cm_is_open l \<and>
    cm_get_health_factor orc e b s = Inr hf \<and> hf_health_factor_bps hf < int (pp_liq_health_threshold_bps (cm_get_protocol_params s)) \<and>
    m = min n (ln_total_debt l + cm_due e l) \<and> cm_config s ct = Some cfg \<and> cm_get_oracle_price orc e s (ct_oracle_feed cfg) = Inr p \<and>
    (\<forall>k\<in>set (cm_get_collateral_tokens s). cm_worth orc e s k (cm_amounts b s k) \<le> cm_worth orc e s ct (cm_amounts b s ct)) \<and>
    0 < x \<and> x \<le> cm_amounts b s ct \<and>
    (ct_price_scale cfg = 1 \<longrightarrow> m * (10000 + int (ct_liq_bonus_bps cfg)) \<le> 10000 * (x * p) \<and>
      10000 * ((x - 1) * p) < m * (10000 + int (ct_liq_bonus_bps cfg))) \<and>
    cm_amounts b s' ct = cm_amounts b s ct - x \<and>
    (\<exists>l'. cm_loan s' i = Some l' \<and> ln_total_debt l' = ln_total_debt l + cm_due e l - m \<and> (ln_is_liquidated l' \<longleftrightarrow> m = ln_total_debt l + cm_due e l)) \<and>
    (\<forall>k. bal (cm_tokens s') k q = bal (cm_tokens s) k q - (if k = ln_borrow_token l then m else 0) + (if k = ct then x else 0))"
proof -
  let ?s = "s\<lparr>cm_reentrancy_lock := Some True\<rparr>"
  note core = cm_inv_locked(1) [OF token_contract.cm_reach_inv [OF assms(1,2)], of "Some True"]
  obtain s1 where q: "env_auth e q" and s': "s' = cm_leave s1" and run: "cm_liquidate_internal tr orc e q b i n ?s = Inr s1"
    using assms(5) by (auto simp: cm_liquidate_def cm_with_guard_def cm_enter_def result_iffs)
  have ne: "q \<noteq> env_self e" using q assms(3,4) by auto
  have "cm_get_oracle_price orc e ?s = cm_get_oracle_price orc e s" "cm_token_value orc e ?s = cm_token_value orc e s"
    by (rule cm_loops_cong; simp)+
  moreover have "cm_calc_user_health orc e b ?s = cm_get_health_factor orc e b s"
    unfolding cm_get_health_factor_def by (rule cm_health_cong; simp)
  moreover have "cm_amounts b ?s = cm_amounts b s" "cm_get_collateral_tokens ?s = cm_get_collateral_tokens s"
      "cm_get_protocol_params ?s = cm_get_protocol_params s"
    by (simp_all add: cm_get_protocol_params_def cm_get_collateral_tokens_def cm_amounts_def cm_get_user_collateral_def fun_eq_iff)
  ultimately have reads: "cm_get_oracle_price orc e ?s = cm_get_oracle_price orc e s" "cm_token_value orc e ?s = cm_token_value orc e s"
      "cm_calc_user_health orc e b ?s = cm_get_health_factor orc e b s" "cm_amounts b ?s = cm_amounts b s"
      "cm_get_collateral_tokens ?s = cm_get_collateral_tokens s" "cm_get_protocol_params ?s = cm_get_protocol_params s"
    by blast+
  have worth: "cm_worth orc e ?s = cm_worth orc e s" by (simp add: fun_eq_iff cm_worth_def reads)
  from core run show ?thesis
  proof (cases rule: cm_liquidate_Inr)
    case (1 l hf m ct x w1 w2 debts)
    have loan: "cm_loan s i = Some l" using 1(2) by simp
    have lok: "cm_loan_ok l" by (rule cm_loans_okD(3) [OF cm_core_parts(2) [OF core] 1(2)])
    have m: "0 < m" "m \<le> ln_total_debt l + cm_due e l" using 1(1,4,7) lok cm_due_nonneg [of e l] by (auto simp: cm_loan_ok_def)
    have after: "cm_loan s' i = Some (cm_paid (ln_is_liquidated_update (\<lambda>_. True)) m (cm_accrued e l))" "cm_tokens s' = w2"
        "cm_amounts b s' ct = cm_amounts b s ct - x"
      by (simp_all add: s' cm_leave_def 1(11) cm_amounts_def cm_get_user_collateral_def)
    have "\<not> ln_is_liquidated l" using 1(4) by (simp add: cm_is_open_def)
    then have l': "ln_total_debt (cm_paid (ln_is_liquidated_update (\<lambda>_. True)) m (cm_accrued e l)) = ln_total_debt l + cm_due e l - m"
        "ln_is_liquidated (cm_paid (ln_is_liquidated_update (\<lambda>_. True)) m (cm_accrued e l)) \<longleftrightarrow> m = ln_total_debt l + cm_due e l"
      by (simp_all add: cm_paid_def Let_def cm_accrued_debt [OF lok])
    have moves: "bal (cm_tokens s') k q = bal (cm_tokens s) k q - (if k = ln_borrow_token l then m else 0) + (if k = ct then x else 0)" for k
      using token_contract.transfer_moves [OF assms(1) 1(9), of k q] token_contract.transfer_moves [OF assms(1) 1(10), of k q] ne
      by (auto simp: after(2))
    from core 1(8) m(1) obtain cfg p where sz: "cm_config ?s ct = Some cfg" "cm_get_oracle_price orc e ?s (ct_oracle_feed cfg) = Inr p"
      "0 < p" "x = (m * (10000 + int (ct_liq_bonus_bps cfg)) + p * 10000 - 1) div (p * 10000)" "0 < x" "x \<le> uc_amount (cm_get_user_collateral b ct ?s)"
      "\<And>k. k \<in> set (cm_get_collateral_tokens ?s) \<Longrightarrow> cm_worth orc e ?s k (cm_amounts b ?s k) \<le> cm_worth orc e ?s ct (cm_amounts b ?s ct)"
      by (rule cm_seizure_step) blast
    have cfg: "cm_config s ct = Some cfg" "x \<le> cm_amounts b s ct" using sz(1,6) by (simp_all add: cm_amounts_def cm_get_user_collateral_def)
    have least: "ct_price_scale cfg = 1 \<longrightarrow> m * (10000 + int (ct_liq_bonus_bps cfg)) \<le> 10000 * (x * p) \<and>
        10000 * ((x - 1) * p) < m * (10000 + int (ct_liq_bonus_bps cfg))"
      using cm_seized_least [OF sz(3,4)] by blast
    have loan': "\<exists>l'. cm_loan s' i = Some l' \<and> ln_total_debt l' = ln_total_debt l + cm_due e l - m \<and>
        (ln_is_liquidated l' \<longleftrightarrow> m = ln_total_debt l + cm_due e l)"
      using after(1) l' by blast
    note facts = loan 1(3,4) 1(5,6) [unfolded reads] 1(7) cfg sz(2) [unfolded reads] sz(5,7) [unfolded reads worth] least after(3) loan' moves
    show ?thesis
      by (rule exI [of _ l], rule exI [of _ hf], rule exI [of _ m], rule exI [of _ ct], rule exI [of _ cfg], rule exI [of _ p], rule exI [of _ x])
         (intro conjI ballI allI; (rule facts; assumption?))
  qed
qed

definition cm_fallen :: "mock_world cm_state" where
  "cm_fallen = cm_borrowed\<lparr>cm_price_cache := [''X'' \<mapsto> 1]\<rparr>"

lemma cm_fallen_reach: "cm_sample_reach 300 cm_fallen"
proof -
  have "cm_sample_reach 300 cm_borrowed" by (rule reach_tick [OF cm_borrowed_reach]) simp
  then show ?thesis
    by (rule reach_call [where e = "cm_env 300" and c = "CmSetPrice (Addr 5) ''X'' 1"])
       (simp_all add: cm_set_price_def cm_eval cm_borrowed_def cm_opened_def cm_fallen_def cm_adm_def)
qed

lemma cm_fallen_due: "cm_due (cm_env 300) cm_demo_loan = 0"
  by (simp add: cm_due_def cm_interest_def cm_demo_loan_def cm_env_def CM_BPS_DENOMINATOR_def SECONDS_PER_YEAR_def)

lemmas cm_liquidate_eval = cm_liquidate_def cm_liquidate_internal_def cm_open_user_loan_def cm_require_user_loan_def cm_accrue_loan_def vec_contains_iff
  cm_calculate_accrued_interest_def cm_seizure_def cm_best_seize_collateral_def cm_better_def cm_calculate_liquidation_seizure_def cm_pay_down_def

lemma cm_fallen_run:
  "\<exists>s'. cm_liquidate mock_world_transfer cm_no_oracle (cm_env 300) (Addr 9) (Addr 8) 0 500 cm_fallen = Inr ((), s')"
  by (simp add: cm_fallen_def cm_borrowed_def cm_demo_loan_def cm_opened_def cm_demo_config_def cm_eval cm_health_eval cm_liquidate_eval
      CM_BPS_DENOMINATOR_def SECONDS_PER_YEAR_def)

theorem cm_liquidation_exact_witness:
  "\<exists>s'. cm_liquidate mock_world_transfer cm_no_oracle (cm_env 300) (Addr 9) (Addr 8) 0 500 cm_fallen = Inr ((), s') \<and>
     (\<exists>l'. cm_loan s' 0 = Some l' \<and> ln_total_debt l' = 1000) \<and> mock_world_balance (cm_tokens s') (Addr 3) (Addr 9) = 4500 \<and>
     (\<exists>x. 500 * 10500 \<le> 10000 * x \<and> 10000 * (x - 1) < 500 * 10500 \<and> mock_world_balance (cm_tokens s') (Addr 2) (Addr 9) = x)"
proof -
  obtain s' where run: "cm_liquidate mock_world_transfer cm_no_oracle (cm_env 300) (Addr 9) (Addr 8) 0 500 cm_fallen = Inr ((), s')"
    using cm_fallen_run by blast
  have loan: "cm_loan cm_fallen 0 = Some cm_demo_loan" and tok: "ln_borrow_token cm_demo_loan = Addr 3" "ln_total_debt cm_demo_loan = 1500"
    and bal: "mock_world_balance (cm_tokens cm_fallen) (Addr 3) (Addr 9) = 5000" and toks: "dom (cm_config cm_fallen) = {Addr 2}"
    by (simp_all add: cm_fallen_def cm_borrowed_def cm_demo_loan_def cm_opened_def mock_world_balance_def mock_balance_def)
  have self: "env_self (cm_env 300) = Addr 0" "\<not> env_auth (cm_env 300) (Addr 0)" by (simp_all add: cm_env_def)
  have cfg: "cm_config cm_fallen (Addr 2) = Some (cm_demo_config 1)" "ct_price_scale (cm_demo_config 1) = 1" "ct_liq_bonus_bps (cm_demo_config 1) = 500"
    and price: "cm_get_oracle_price cm_no_oracle (cm_env 300) cm_fallen (ct_oracle_feed (cm_demo_config 1)) = Inr p \<Longrightarrow> p = 1"
    and none: "mock_world_balance (cm_tokens cm_fallen) (Addr 2) (Addr 9) = 0" for p
    by (simp_all add: cm_fallen_def cm_borrowed_def cm_opened_def cm_demo_config_def cm_get_oracle_price_def mock_world_balance_def mock_balance_def)
  from cm_liquidation_exact [OF mock.token_contract_axioms cm_fallen_reach self run] obtain l m ct c p l' x where
    l: "cm_loan cm_fallen 0 = Some l" "m = min 500 (ln_total_debt l + cm_due (cm_env 300) l)" and ct: "cm_config cm_fallen ct = Some c"
    and p: "cm_get_oracle_price cm_no_oracle (cm_env 300) cm_fallen (ct_oracle_feed c) = Inr p"
    and x: "ct_price_scale c = 1 \<longrightarrow> m * (10000 + int (ct_liq_bonus_bps c)) \<le> 10000 * (x * p) \<and>
      10000 * ((x - 1) * p) < m * (10000 + int (ct_liq_bonus_bps c))"
    and l': "cm_loan s' 0 = Some l'" "ln_total_debt l' = ln_total_debt l + cm_due (cm_env 300) l - m"
    and moves: "\<forall>k. mock_world_balance (cm_tokens s') k (Addr 9) = mock_world_balance (cm_tokens cm_fallen) k (Addr 9) -
      (if k = ln_borrow_token l then m else 0) + (if k = ct then x else 0)"
    by blast
  have "l = cm_demo_loan" using l(1) loan by simp
  then have m: "m = 500" and l1: "ln_total_debt l' = 1000" and tl: "ln_borrow_token l = Addr 3" using l(2) l'(2) by (simp_all add: tok cm_fallen_due)
  have ct2: "ct = Addr 2" using ct toks by auto
  then have "c = cm_demo_config 1" using ct cfg(1) by simp
  then have "500 * 10500 \<le> 10000 * x" "10000 * (x - 1) < 500 * 10500" using x p price cfg(2,3) m by auto
  then show ?thesis using run l'(1) l1 moves by (auto simp: tl m ct2 bal none)
qed

section \<open>The lifecycle of a loan\<close>

text \<open>
  What may happen to a loan, without amounts, prices and parties: interest is added to an open loan, a
  payment takes interest before principal, and the last payment closes it for good, one way or the other.
\<close>

inductive cm_loan_step :: "loan \<Rightarrow> loan \<Rightarrow> bool" where
  interest: "cm_is_open l \<Longrightarrow> 0 < x \<Longrightarrow>
    cm_loan_step l (l\<lparr>ln_accrued_interest := ln_accrued_interest l + x, ln_total_debt := ln_total_debt l + x, ln_last_accrual_update := t\<rparr>)"
| payment: "cm_is_open l \<Longrightarrow> 0 \<le> x \<Longrightarrow> x \<le> ln_accrued_interest l \<Longrightarrow> 0 \<le> y \<Longrightarrow> y \<le> ln_principal l \<Longrightarrow> (0 < y \<longrightarrow> x = ln_accrued_interest l) \<Longrightarrow>
    cm_loan_step l (l\<lparr>ln_accrued_interest := ln_accrued_interest l - x, ln_principal := ln_principal l - y, ln_total_debt := ln_total_debt l - (x + y)\<rparr>)"
| repaid: "cm_is_open l \<Longrightarrow> cm_loan_step l (l\<lparr>ln_accrued_interest := 0, ln_principal := 0, ln_total_debt := 0, ln_is_repaid := True\<rparr>)"
| liquidated: "cm_is_open l \<Longrightarrow> cm_loan_step l (l\<lparr>ln_accrued_interest := 0, ln_principal := 0, ln_total_debt := 0, ln_is_liquidated := True\<rparr>)"

inductive_cases cm_loan_stepE: "cm_loan_step l l'"

definition cm_terms :: "loan \<Rightarrow> u64 \<times> address \<times> address \<times> u32 \<times> u64" where
  "cm_terms l = (ln_loan_id l, ln_borrower l, ln_borrow_token l, ln_interest_rate_bps l, ln_created_at l)"

lemma cm_loan_steps_keep:
  "cm_loan_step\<^sup>*\<^sup>* l l' \<Longrightarrow> cm_terms l' = cm_terms l \<and> (0 \<le> ln_principal l \<longrightarrow> 0 \<le> ln_principal l' \<and> ln_principal l' \<le> ln_principal l) \<and> (cm_is_open l \<or> l' = l)"
proof (induction rule: rtranclp_induct)
  case (step k l')
  from step.hyps(2) have "cm_terms l' = cm_terms k \<and> (0 \<le> ln_principal k \<longrightarrow> 0 \<le> ln_principal l' \<and> ln_principal l' \<le> ln_principal k) \<and> cm_is_open k"
    by (cases rule: cm_loan_step.cases) (simp_all add: cm_terms_def)
  with step.IH show ?case by auto
qed simp

lemma cm_accrued_steps:
  assumes "cm_loan_ok l"
  shows "cm_loan_step\<^sup>*\<^sup>* l (cm_accrued e l)"
proof (cases "0 < cm_due e l")
  case True
  then have "cm_is_open l" by (auto simp: cm_due_def split: if_splits)
  with True assms show ?thesis
    using cm_loan_step.interest [of l "cm_due e l" "env_timestamp e"] by (simp add: cm_accrued_def cm_loan_ok_def add.assoc r_into_rtranclp)
qed (simp add: cm_accrued_def)

lemma cm_paid_steps:
  assumes "cm_loan_ok l" and isopen: "cm_is_open l" and m: "0 < m" "m \<le> ln_total_debt l"
    and close: "close = ln_is_repaid_update (\<lambda>_. True) \<or> close = ln_is_liquidated_update (\<lambda>_. True)"
  shows "cm_loan_step l (cm_paid close m l)"
proof -
  have l: "0 \<le> ln_principal l" "0 \<le> ln_accrued_interest l" "ln_total_debt l = ln_principal l + ln_accrued_interest l"
    using assms(1) by (simp_all add: cm_loan_ok_def)
  show ?thesis
  proof (cases "m = ln_total_debt l")
    case True
    then have zero: "min m (ln_accrued_interest l) = ln_accrued_interest l" "ln_principal l - (m - ln_accrued_interest l) = 0" using l by auto
    from close show ?thesis
      using cm_loan_step.repaid [OF isopen] cm_loan_step.liquidated [OF isopen] by (auto simp: cm_paid_def Let_def True [symmetric] zero)
  next
    case False
    then show ?thesis
      using cm_loan_step.payment [OF isopen, of "min m (ln_accrued_interest l)" "m - min m (ln_accrued_interest l)"] l m
      by (auto simp: cm_paid_def Let_def)
  qed
qed

lemma cm_accrued_paid_steps:
  assumes ok: "cm_loan_ok l" and "cm_is_open l" and "0 < m" and "m \<le> ln_total_debt l + cm_due e l"
    and "close = ln_is_repaid_update (\<lambda>_. True) \<or> close = ln_is_liquidated_update (\<lambda>_. True)"
  shows "cm_loan_step\<^sup>*\<^sup>* l (cm_paid close m (cm_accrued e l))"
proof -
  have "cm_loan_step (cm_accrued e l) (cm_paid close m (cm_accrued e l))"
    using assms by (intro cm_paid_steps) (simp_all add: cm_accrued_ok cm_accrued_debt)
  with cm_accrued_steps [OF ok] show ?thesis by (rule rtranclp.rtrancl_into_rtrancl)
qed

lemma cm_touched_steps:
  assumes "cm_core s" and "cm_touched e s s'" and l: "cm_loan s i = Some l"
  shows "\<exists>l'. cm_loan s' i = Some l' \<and> cm_loan_step\<^sup>*\<^sup>* l l'"
proof -
  have "cm_loan_ok l" by (rule cm_loans_okD(3) [OF cm_core_parts(2) [OF assms(1)] l])
  moreover have "cm_loan s' i = Some l \<or> cm_loan s' i = Some (cm_accrued e l)"
    using assms(2) l unfolding cm_touched_def by (metis option.inject)
  ultimately show ?thesis using cm_accrued_steps by blast
qed

text \<open>The bodies of the guarded calls.\<close>

lemma cm_bodies_step:
  assumes core: "cm_core s" and l: "cm_loan s i = Some l"
  shows "cm_withdraw_internal tr orc e u tok n s = Inr s' \<Longrightarrow> \<exists>l'. cm_loan s' i = Some l' \<and> cm_loan_step\<^sup>*\<^sup>* l l'"
    and "cm_borrow_internal tr orc e u tok n s = Inr s' \<Longrightarrow> \<exists>l'. cm_loan s' i = Some l' \<and> cm_loan_step\<^sup>*\<^sup>* l l'"
    and "cm_repay_internal tr e u j n s = Inr s' \<Longrightarrow> \<exists>l'. cm_loan s' i = Some l' \<and> cm_loan_step\<^sup>*\<^sup>* l l'"
    and "cm_liquidate_internal tr orc e q u j n s = Inr s' \<Longrightarrow> \<exists>l'. cm_loan s' i = Some l' \<and> cm_loan_step\<^sup>*\<^sup>* l l'"
proof -
  note loans = cm_core_parts(2) [OF core]
  have lok: "cm_loan_ok k" if "cm_loan s j = Some k" for j k by (rule cm_loans_okD(3) [OF loans that])
  show "\<exists>l'. cm_loan s' i = Some l' \<and> cm_loan_step\<^sup>*\<^sup>* l l'" if run: "cm_withdraw_internal tr orc e u tok n s = Inr s'"
    using core run by (rule cm_withdraw_Inr) (simp add: l)
  show "\<exists>l'. cm_loan s' i = Some l' \<and> cm_loan_step\<^sup>*\<^sup>* l l'" if run: "cm_borrow_internal tr orc e u tok n s = Inr s'"
    using core run
  proof (cases rule: cm_borrow_Inr)
    case (1 s1 w' util)
    obtain l' where l': "cm_loan s1 i = Some l'" "cm_loan_step\<^sup>*\<^sup>* l l'" using cm_touched_steps [OF core 1(3) l] by blast
    have "i < cm_get_loan_counter s1" using cm_loans_okD(2) [OF cm_core_parts(2) [OF 1(2)] l'(1)] by (simp add: cm_get_loan_counter_def)
    then show ?thesis using l' by (simp add: 1(8))
  qed
  show "\<exists>l'. cm_loan s' i = Some l' \<and> cm_loan_step\<^sup>*\<^sup>* l l'" if run: "cm_repay_internal tr e u j n s = Inr s'"
    using core run
  proof (cases rule: cm_repay_Inr)
    case (1 k w' debts)
    then show ?thesis using l cm_accrued_paid_steps [OF lok [OF 1(2)] 1(4,1,5) disjI1 [OF refl]] by (cases "i = j") auto
  qed
  show "\<exists>l'. cm_loan s' i = Some l' \<and> cm_loan_step\<^sup>*\<^sup>* l l'" if run: "cm_liquidate_internal tr orc e q u j n s = Inr s'"
    using core run
  proof (cases rule: cm_liquidate_Inr)
    case (1 k hf m ct x w1 w2 debts)
    have m: "0 < m" "m \<le> ln_total_debt k + cm_due e k"
      using 1(1,4,7) lok [OF 1(2)] cm_due_nonneg [of e k] by (auto simp: cm_loan_ok_def)
    show ?thesis using l 1(2,11) cm_accrued_paid_steps [OF lok [OF 1(2)] 1(4) m disjI2 [OF refl]] by (cases "i = j") auto
  qed
qed

text \<open>The calls that leave every loan alone.\<close>

lemma cm_calls_keep_loans:
  "cm_initialize e a o' t s = Inr (r, s') \<Longrightarrow> cm_loan s' = cm_loan s"
  "cm_register_collateral_type e a k f x h b c p s = Inr (r, s') \<Longrightarrow> cm_loan s' = cm_loan s"
  "cm_update_collateral_type e a k x h b c s = Inr (r, s') \<Longrightarrow> cm_loan s' = cm_loan s"
  "cm_deactivate_collateral_type e a k s = Inr (r, s') \<Longrightarrow> cm_loan s' = cm_loan s"
  "cm_reactivate_collateral_type e a k s = Inr (r, s') \<Longrightarrow> cm_loan s' = cm_loan s"
  "cm_set_protocol_parameters e a pp s = Inr (r, s') \<Longrightarrow> cm_loan s' = cm_loan s"
  "cm_set_price e a f p s = Inr (r, s') \<Longrightarrow> cm_loan s' = cm_loan s"
  "cm_pause e a s = Inr (r, s') \<Longrightarrow> cm_loan s' = cm_loan s"
  "cm_unpause e a s = Inr (r, s') \<Longrightarrow> cm_loan s' = cm_loan s"
  "cm_deposit_collateral tr e a k n s = Inr (r, s') \<Longrightarrow> cm_loan s' = cm_loan s"
  by (auto simp: cm_initialize_def cm_register_collateral_type_def cm_update_collateral_type_def cm_deactivate_collateral_type_def
      cm_reactivate_collateral_type_def cm_switch_collateral_type_def cm_set_protocol_parameters_def cm_set_price_def cm_pause_def cm_unpause_def
      cm_set_pause_def cm_deposit_collateral_def result_iffs Let_def cm_setters split: option.splits)

lemma cm_call_step:
  assumes inv: "cm_inv bal self w t s" and run: "cm_exec tr orc e c s = Some s'" and l: "cm_loan s i = Some l"
  shows "\<exists>l'. cm_loan s' i = Some l' \<and> cm_loan_step\<^sup>*\<^sup>* l l'"
proof -
  note core = cm_inv_core [OF inv]
  have same: ?thesis if "cm_loan s' = cm_loan s" using that l by auto
  have guard: ?thesis if run: "cm_with_guard f s = Inr (r, s')"
    and body: "\<And>s1. f (s\<lparr>cm_reentrancy_lock := Some True\<rparr>) = Inr s1 \<Longrightarrow> \<exists>l'. cm_loan s1 i = Some l' \<and> cm_loan_step\<^sup>*\<^sup>* l l'" for f r
  proof -
    from run obtain s1 where "f (s\<lparr>cm_reentrancy_lock := Some True\<rparr>) = Inr s1" "s' = cm_leave s1" by (rule cm_with_guard_Inr)
    with body show ?thesis by (simp add: cm_leave_def)
  qed
  have l0: "cm_loan (s\<lparr>cm_reentrancy_lock := Some True\<rparr>) i = Some l" by (simp add: l)
  note bodies = cm_bodies_step [OF cm_inv_locked(1) [OF inv] l0]
  have guarded: "cm_withdraw_collateral tr orc e u k n s = Inr (r, s') \<Longrightarrow> ?thesis" "cm_borrow tr orc e u k n s = Inr (r, s') \<Longrightarrow> ?thesis"
    "cm_repay_loan tr e u j n s = Inr (r, s') \<Longrightarrow> ?thesis" "cm_liquidate tr orc e q u j n s = Inr (r, s') \<Longrightarrow> ?thesis" for u k n r j q
    by (simp_all only: cm_withdraw_collateral_def cm_borrow_def cm_repay_loan_def cm_liquidate_def and_then_eq_Inr, (elim exE conjE, erule guard, erule bodies)+)
  have accrual: ?thesis if "cm_accrue_ids e b is s = Inr s'" for b "is"
    using cm_accrue_ids_Inr [OF core that] cm_touched_steps [OF core _ l] by blast
  have accruals: "cm_accrue_interest e b j s = Inr (r, s') \<Longrightarrow> ?thesis" "cm_accrue_all_interest e b s = Inr (r, s') \<Longrightarrow> ?thesis" for b j r
    using accrual [of b "[j]"] accrual [of b "cm_get_user_loan_ids b s"]
    by (auto simp: cm_accrue_interest_def cm_accrue_all_interest_def result_iffs)
  define goal where "goal = ?thesis"
  note rules = same [folded goal_def] guarded [folded goal_def] accruals [folded goal_def]
  have goal
    using run
    by (cases c) (simp_all only: cm_exec.simps state_of_eq_Some, (elim exE, (erule rules(2-) | (rule rules(1), erule cm_calls_keep_loans)))+)
  then show ?thesis by (simp only: goal_def)
qed

context token_contract
begin

lemma cm_run_steps:
  "cm_inv balance self w t s \<Longrightarrow> trace_ok (cm_adm self) t cs \<Longrightarrow> cm_loan s i = Some l \<Longrightarrow>
   \<exists>l'. cm_loan (run_calls (cm_exec transfer orc) cs s) i = Some l' \<and> cm_loan_step\<^sup>*\<^sup>* l l'"
proof (induction cs arbitrary: s t l)
  case (Cons ec cs)
  obtain e c where ec: "ec = (e, c)" by (cases ec)
  have inv: "cm_inv balance self w (env_timestamp e) s" using Cons.prems(1) by (simp add: cm_inv_def)
  have ok: "cm_adm self e c" "trace_ok (cm_adm self) (env_timestamp e) cs" using Cons.prems(2) by (simp_all add: ec)
  show ?case
  proof (cases "cm_exec transfer orc e c s")
    case None
    then show ?thesis using Cons.IH [OF inv ok(2) Cons.prems(3)] by (simp add: ec)
  next
    case (Some s')
    obtain l' where l': "cm_loan s' i = Some l'" "cm_loan_step\<^sup>*\<^sup>* l l'" using cm_call_step [OF inv Some Cons.prems(3)] by blast
    have inv': "cm_inv balance self w (env_timestamp e) s'" by (rule cm_inv_call [OF inv ok(1) Some])
    obtain l'' where "cm_loan (run_calls (cm_exec transfer orc) cs s') i = Some l''" "cm_loan_step\<^sup>*\<^sup>* l' l''"
      using Cons.IH [OF inv' ok(2) l'(1)] by blast
    with l'(2) show ?thesis by (auto simp: ec Some intro: rtranclp_trans)
  qed
qed simp

end

text \<open>
  C20. The lifecycle of a loan is refined. Along every run of calls a loan follows the abstract steps:
  its terms never change, its principal only falls, and a repaid or liquidated loan is never touched again.
\<close>

theorem cm_loans_refined:
  assumes "token_contract tr bal"
    and "reach (cm_exec tr orc) (cm_adm self) (cm_drift bal self) (cm_fresh w) t s"
    and "trace_ok (cm_adm self) t cs" and "cm_loan s i = Some l"
  shows "\<exists>l'. cm_loan (run_calls (cm_exec tr orc) cs s) i = Some l' \<and> cm_loan_step\<^sup>*\<^sup>* l l' \<and> cm_terms l' = cm_terms l \<and>
    0 \<le> ln_principal l' \<and> ln_principal l' \<le> ln_principal l \<and> (cm_is_open l \<or> l' = l)"
proof -
  have inv: "cm_inv bal self w t s" by (rule token_contract.cm_reach_inv [OF assms(1,2)])
  have "0 \<le> ln_principal l" using cm_loans_okD(3) [OF cm_core_parts(2) [OF cm_inv_core [OF inv]] assms(4)] by (simp add: cm_loan_ok_def)
  with token_contract.cm_run_steps [OF assms(1) inv assms(3,4), of orc] cm_loan_steps_keep show ?thesis by blast
qed

theorem cm_loans_refined_witness:
  "\<exists>l'. cm_loan (run_calls cm_mock [(cm_env 300, CmLiquidate (Addr 9) (Addr 8) 0 500)] cm_fallen) 0 = Some l' \<and>
     cm_loan_step\<^sup>*\<^sup>* cm_demo_loan l' \<and> ln_principal l' \<le> 1500"
proof -
  have loan: "cm_loan cm_fallen 0 = Some cm_demo_loan" by (simp add: cm_fallen_def cm_borrowed_def)
  have "trace_ok (cm_adm (Addr 0)) 300 [(cm_env 300, CmLiquidate (Addr 9) (Addr 8) 0 500)]" by (simp add: cm_env_def cm_adm_def)
  from cm_loans_refined [OF mock.token_contract_axioms cm_fallen_reach this loan] show ?thesis
    by (auto simp: cm_demo_loan_def)
qed

section \<open>Repayment and withdrawal\<close>

lemma cm_arith_ok:
  "in_i128 (a + b) \<Longrightarrow> cm_add a b = Inr (a + b)" "in_i128 (a - b) \<Longrightarrow> cm_sub a b = Inr (a - b)" "in_i128 (a * b) \<Longrightarrow> cm_mul a b = Inr (a * b)"
  by (simp_all add: cm_arith_Inr)

lemma cm_debt_le_total:
  assumes "cm_core s" and l: "cm_loan s i = Some l"
  shows "ln_total_debt l \<le> cm_get_total_debt (ln_borrow_token l) s"
proof -
  note ok = cm_core_parts(2) [OF assms(1)]
  have "cm_debt_in (ln_borrow_token l) l \<le> entry_sum (cm_debt_in (ln_borrow_token l)) (cm_loan s)"
  proof (rule entry_sum_ge_entry [where m = "cm_loan s" and k = i])
    show "cm_loan s i = Some l" by (rule l)
    show "finite (dom (cm_loan s))" using ok by (simp add: cm_loans_ok_def)
    show "0 \<le> cm_debt_in (ln_borrow_token l) k" if "cm_loan s j = Some k" for j k
      using cm_loans_okD(3) [OF ok that] by (auto simp: cm_loan_ok_def cm_debt_in_def)
  qed
  then show ?thesis using ok by (simp add: cm_loans_ok_def cm_get_total_debt_def cm_debt_in_def)
qed

text \<open>Accrual succeeds when the product it divides and the new total debt are representable.\<close>

lemma cm_accrue_total:
  assumes core: "cm_core s" and l: "cm_loan s i = Some l" "cm_is_open l"
    and fits: "in_i128 (ln_principal l * int (ln_interest_rate_bps l) * (int (env_timestamp e) - int (ln_last_accrual_update l)))"
      "in_i128 (cm_get_total_debt (ln_borrow_token l) s + cm_due e l)"
  shows "\<exists>s1. cm_accrue_loan e l s = Inr (cm_accrued e l, s1)"
proof -
  let ?d = "int (env_timestamp e) - int (ln_last_accrual_update l)" and ?p = "ln_principal l" and ?r = "int (ln_interest_rate_bps l)"
  have lok: "cm_loan_ok l" by (rule cm_loans_okD(3) [OF cm_core_parts(2) [OF core] l(1)])
  have total: "ln_total_debt l \<le> cm_get_total_debt (ln_borrow_token l) s" by (rule cm_debt_le_total [OF core l(1)])
  have nn: "0 \<le> ?p" "0 \<le> ln_accrued_interest l" "ln_total_debt l = ?p + ln_accrued_interest l" using lok by (simp_all add: cm_loan_ok_def)
  have calc: "cm_calculate_accrued_interest ?p (ln_interest_rate_bps l) ?d = Inr (cm_due e l)" if "0 < ?d"
  proof (cases "?p \<le> 0 \<or> ln_interest_rate_bps l = 0")
    case False
    have "?p * ?r * 1 \<le> ?p * ?r * ?d" using that nn(1) by (intro mult_left_mono) auto
    then have "in_i128 (?p * ?r)" using nn(1) by (intro in_i128_nonneg [OF fits(1)]) auto
    then show ?thesis
      using False that fits(1) cm_year_pos nn(1)
      by (simp add: cm_calculate_accrued_interest_def cm_arith_ok cm_due_def l(2) cm_interest_def div_i128_nonneg)
  qed (auto simp: cm_calculate_accrued_interest_def cm_due_def l(2) cm_interest_def)
  have zero: "cm_due e l = 0" if "\<not> 0 < ?d" using that by (simp add: cm_due_def cm_interest_def)
  show ?thesis
  proof (cases "0 < cm_due e l")
    case True
    have "in_i128 (ln_accrued_interest l + cm_due e l)" "in_i128 (?p + (ln_accrued_interest l + cm_due e l))"
      using total nn True by (intro in_i128_nonneg [OF fits(2)]; linarith)+
    moreover have "0 < ?d" using True zero by (cases "0 < ?d") auto
    ultimately show ?thesis using True l(2) calc fits(2) by (simp add: cm_accrue_loan_def Let_def cm_arith_ok cm_accrued_def)
  next
    case False
    then have "cm_due e l = 0" using cm_due_nonneg [of e l] by simp
    then show ?thesis using l(2) calc by (cases "0 < ?d") (simp_all add: cm_accrue_loan_def Let_def cm_accrued_def)
  qed
qed

lemma cm_pay_down_all:
  assumes "cm_loan_ok k" and "in_i128 (ln_total_debt k)" and "0 < ln_total_debt k"
  shows "cm_pay_down close (ln_total_debt k) k =
    Inr ((close (k\<lparr>ln_accrued_interest := 0, ln_principal := 0, ln_total_debt := 0\<rparr>))\<lparr>ln_total_debt := 0, ln_principal := 0, ln_accrued_interest := 0\<rparr>)"
proof -
  have nn: "0 \<le> ln_principal k" "0 \<le> ln_accrued_interest k" "ln_total_debt k = ln_principal k + ln_accrued_interest k"
    using assms(1) by (simp_all add: cm_loan_ok_def)
  then have mi: "min (ln_total_debt k) (ln_accrued_interest k) = ln_accrued_interest k" by simp
  have "in_i128 (ln_total_debt k - ln_accrued_interest k)" using nn by (intro in_i128_nonneg [OF assms(2)]) linarith+
  then have sub: "cm_sub (ln_total_debt k) (ln_accrued_interest k) = Inr (ln_total_debt k - ln_accrued_interest k)" by (rule cm_arith_ok)
  have same: "ln_principal k - (ln_total_debt k - ln_accrued_interest k) = 0" "ln_total_debt k - ln_total_debt k = 0" using nn by simp_all
  have zero: "cm_sub x x = Inr 0" for x by (simp add: cm_arith_Inr)
  have "ln_total_debt k - ln_accrued_interest k = ln_principal k" using nn by simp
  then show ?thesis by (simp add: cm_pay_down_def mi sub zero Let_def)
qed

text \<open>
  C33. A debt can be repaid while its interest can be computed. In a reachable state in which the contract is
  not paused, take an open loan for which the product of principal, rate and elapsed seconds and the total
  debt of the token plus the interest due fit an \<open>i128\<close>, on a token that honours funded payments. A
  borrower who holds what the loan owes with the interest due, and whose payment the contract's balance can
  represent, can then pay that amount, and the loan is closed as repaid with nothing owed. The
  condition on the product is needed: \<open>cm_interest_overflow_blocks\<close> below shows that no repayment at all succeeds
  without it.
\<close>

theorem cm_repayment_succeeds:
  assumes "live_token tr bal"
    and "reach (cm_exec tr orc) (cm_adm self) (cm_drift bal self) (cm_fresh w) t s"
    and "cm_loan s i = Some l" and "cm_is_open l" and "ln_borrower l = u" and "\<not> cm_is_paused s" and "env_auth e u"
    and "in_i128 (ln_principal l * int (ln_interest_rate_bps l) * (int (env_timestamp e) - int (ln_last_accrual_update l)))"
    and "in_i128 (cm_get_total_debt (ln_borrow_token l) s + cm_due e l)"
    and "ln_total_debt l + cm_due e l \<le> bal (cm_tokens s) (ln_borrow_token l) u"
    and "in_i128 (bal (cm_tokens s) (ln_borrow_token l) (env_self e) + (ln_total_debt l + cm_due e l))"
  shows "\<exists>s' l'. cm_repay_loan tr e u i (ln_total_debt l + cm_due e l) s = Inr ((), s') \<and>
    cm_loan s' i = Some l' \<and> ln_is_repaid l' \<and> ln_total_debt l' = 0"
proof -
  let ?s = "s\<lparr>cm_reentrancy_lock := Some True\<rparr>" and ?k = "cm_accrued e l" and ?n = "ln_total_debt l + cm_due e l"
  have inv: "cm_inv bal self w t s" by (rule token_contract.cm_reach_inv [OF live_token.axioms(1) [OF assms(1)] assms(2)])
  note core = cm_inv_locked(1) [OF inv, of "Some True"] and free = inv [unfolded cm_inv_def]
  have l: "cm_loan ?s i = Some l" and debt: "cm_get_total_debt t' ?s = cm_get_total_debt t' s" for t' by (simp_all add: assms(3) cm_get_total_debt_def)
  note okl = cm_loans_okD [OF cm_core_parts(2) [OF core] l]
  have lok: "cm_loan_ok l" by (rule okl(3))
  have k: "cm_loan_ok ?k" "ln_total_debt ?k = ?n" "0 < ?n"
    using cm_accrued_ok [OF lok] cm_accrued_debt [OF lok] lok assms(4) cm_due_nonneg [of e l] by (auto simp: cm_loan_ok_def)
  obtain s1 where acc: "cm_accrue_loan e l ?s = Inr (?k, s1)"
    using cm_accrue_total [OF core l assms(4,8)] assms(9) by (auto simp: debt)
  obtain debts where s1: "s1 = ?s\<lparr>cm_total_debt := debts\<rparr>"
    and debts: "\<And>t. unwrap_or 0 (debts t) = cm_get_total_debt t ?s + (if t = ln_borrow_token l then cm_due e l else 0)"
    by (rule cm_accrued_state [OF acc]) blast
  have total: "ln_total_debt l \<le> cm_get_total_debt (ln_borrow_token l) s" by (rule cm_debt_le_total [OF inv [THEN cm_inv_core] assms(3)])
  have nin: "in_i128 ?n" using total k(3) by (intro in_i128_nonneg [OF assms(9)]) linarith+
  have din: "in_i128 (cm_get_total_debt (ln_borrow_token l) s + cm_due e l - ?n)" using total k(3) by (intro in_i128_nonneg [OF assms(9)]) linarith+
  obtain w' where pay: "tr e (ln_borrow_token l) u (env_self e) ?n (cm_tokens s) = Some w'"
    using live_token.transfer_live [OF assms(1) k(3) assms(10,11)] assms(7) by blast
  have found: "cm_open_user_loan u i ?s = Inr l"
    using okl(4) assms(4,5) l by (simp add: cm_open_user_loan_Inr cm_get_user_loan_ids_def)
  let ?l' = "(ln_is_repaid_update (\<lambda>_. True) (?k\<lparr>ln_accrued_interest := 0, ln_principal := 0, ln_total_debt := 0\<rparr>))
    \<lparr>ln_total_debt := 0, ln_principal := 0, ln_accrued_interest := 0\<rparr>"
  have down: "cm_pay_down (ln_is_repaid_update (\<lambda>_. True)) ?n ?k = Inr ?l'"
    using cm_pay_down_all [OF k(1), of "ln_is_repaid_update (\<lambda>_. True)"] nin k(2,3) by simp
  have gtd: "cm_get_total_debt (ln_borrow_token l) (cm_set_loan ?l' (s1\<lparr>cm_tokens := w'\<rparr>)) = cm_get_total_debt (ln_borrow_token l) s + cm_due e l"
    by (simp add: cm_get_total_debt_def cm_set_loan_def s1 debts)
  have id: "ln_loan_id l = i" by (rule okl(1))
  have body: "cm_repay_internal tr e u i ?n ?s =
      Inr (cm_set_total_debt (ln_borrow_token l) (cm_get_total_debt (ln_borrow_token l) s + cm_due e l - ?n) (cm_set_loan ?l' (s1\<lparr>cm_tokens := w'\<rparr>)))"
    unfolding cm_repay_internal_def found acc and_then_Inr case_prod_conv Let_def k(2)
    using k(3) pay down gtd din by (simp add: cm_transfer_def call_token_def s1 cm_arith_ok)
  show ?thesis
    using assms(6,7) free body
    by (simp add: cm_repay_loan_def cm_with_guard_def cm_enter_def require_auth_def cm_check_paused_def cm_leave_def cm_set_total_debt_def cm_set_loan_def id)
qed

theorem cm_repayment_succeeds_witness:
  "\<exists>s' l'. cm_repay_loan mock_world_transfer (cm_env 300) (Addr 8) 0 1500 cm_borrowed = Inr ((), s') \<and>
     cm_loan s' 0 = Some l' \<and> ln_is_repaid l' \<and> ln_total_debt l' = 0"
proof -
  have due: "ln_total_debt cm_demo_loan + cm_due (cm_env 300) cm_demo_loan = 1500" by (simp add: cm_fallen_due) (simp add: cm_demo_loan_def)
  have "\<exists>s' l'. cm_repay_loan mock_world_transfer (cm_env 300) (Addr 8) 0 (ln_total_debt cm_demo_loan + cm_due (cm_env 300) cm_demo_loan) cm_borrowed = Inr ((), s') \<and>
     cm_loan s' 0 = Some l' \<and> ln_is_repaid l' \<and> ln_total_debt l' = 0"
    by (rule cm_repayment_succeeds [OF mock.live_token_axioms cm_borrowed_reach])
       (simp_all only: due cm_fallen_due, simp_all add: cm_borrowed_def cm_opened_def cm_demo_loan_def cm_is_open_def cm_is_paused_def cm_env_def
          cm_get_total_debt_def mock_world_balance_def mock_balance_def arith_defs)
  then show ?thesis by (simp only: due)
qed

text \<open>
  Interest that does not fit blocks the repayment: once the product of principal, rate and elapsed
  seconds leaves \<open>i128\<close>, the multiplication panics and every repayment of the loan fails, whatever its
  amount.
\<close>

lemma cm_accrue_overflow:
  assumes "cm_is_open l" and "0 < ln_principal l * int (ln_interest_rate_bps l) * (int (env_timestamp e) - int (ln_last_accrual_update l))"
    and "int (ln_last_accrual_update l) < int (env_timestamp e)"
    and "\<not> in_i128 (ln_principal l * int (ln_interest_rate_bps l) * (int (env_timestamp e) - int (ln_last_accrual_update l)))"
  shows "cm_accrue_loan e l s \<noteq> Inr r"
proof
  assume "cm_accrue_loan e l s = Inr r"
  moreover have "0 < ln_principal l * int (ln_interest_rate_bps l)" using assms(2,3) by (simp add: zero_less_mult_iff)
  then have "0 < ln_principal l" "ln_interest_rate_bps l \<noteq> 0" by (auto simp: zero_less_mult_iff)
  ultimately show False
    using assms(1,3,4) by (auto simp: cm_accrue_loan_def cm_calculate_accrued_interest_def Let_def result_iffs)
qed

theorem cm_interest_overflow_blocks:
  assumes "cm_loan s i = Some l" and "cm_is_open l" and "int (ln_last_accrual_update l) < int (env_timestamp e)"
    and "i128_max < ln_principal l * int (ln_interest_rate_bps l) * (int (env_timestamp e) - int (ln_last_accrual_update l))"
  shows "\<exists>err. cm_repay_loan tr e u i n s = Inl err"
proof (cases "cm_repay_loan tr e u i n s")
  case (Inr r)
  let ?s = "s\<lparr>cm_reentrancy_lock := Some True\<rparr>"
  have fails: "cm_accrue_loan e l ?s \<noteq> Inr k" for k
    by (rule cm_accrue_overflow [OF assms(2) _ assms(3)]) (use assms(4) in \<open>auto simp: in_i128_def i128_max_def\<close>)
  from Inr obtain s1 where "cm_repay_internal tr e u i n ?s = Inr s1"
    by (auto simp: cm_repay_loan_def cm_with_guard_def cm_enter_def result_iffs)
  then obtain l' k where "cm_open_user_loan u i ?s = Inr l'" "cm_accrue_loan e l' ?s = Inr k"
    unfolding cm_repay_internal_def by (auto elim!: and_thenE)
  with fails [of k] show ?thesis by (simp add: cm_open_user_loan_Inr assms(1))
qed blast

text \<open>
  C32. A withdrawal undoes the deposit before it. In a reachable state a user without debt deposits
  collateral; a withdrawal of the same amount in the very state the deposit leaves, with no other call in
  between, succeeds whatever the oracle says, and everything is back where it started: the user's
  deposits, their totals and every balance of every token. The token honours funded payments, the
  contract's balance before is not negative and the user's is representable. Nothing is claimed for a
  withdrawal after other calls: \<open>cm_collateral_lent_out\<close> below shows that the deposit may then have been lent to
  somebody else.
\<close>

theorem cm_deposit_withdraw_roundtrip:
  assumes "live_token tr bal"
    and "reach (cm_exec tr orc) (cm_adm self) (cm_drift bal self) (cm_fresh w) t s"
    and "cm_deposit_collateral tr e u tok n s = Inr ((), s1)" and "cm_user_total_debt u s = Inr 0"
    and "env_self e = self" and "\<not> env_auth e self" and "env_self e' = self" and "env_auth e' u"
    and "0 \<le> bal (cm_tokens s) tok self" and "in_i128 (bal (cm_tokens s) tok u)"
  shows "\<exists>s2. cm_withdraw_collateral tr orc e' u tok n s1 = Inr ((), s2) \<and> cm_amounts u s2 = cm_amounts u s \<and>
    cm_get_total_collateral_for_type k s2 = cm_get_total_collateral_for_type k s \<and> bal (cm_tokens s2) k x = bal (cm_tokens s) k x"
proof -
  note tok_ok = live_token.axioms(1) [OF assms(1)]
  have inv: "cm_inv bal self w t s" by (rule token_contract.cm_reach_inv [OF tok_ok assms(2)])
  note core = cm_inv_core [OF inv]
  from core assms(3) show ?thesis
  proof (cases rule: cm_deposit_Inr)
    case (1 cfg w')
    note keys = cm_coll_user [OF cm_core_parts(1) [OF core], of u tok] and s1 = 1(7)
    let ?a = "uc_amount (cm_get_user_collateral u tok s)" and ?T = "cm_get_total_collateral_for_type tok s"
    have ne: "u \<noteq> self" using 1(1) assms(6) by auto
    have b1: "bal w' tok self = bal (cm_tokens s) tok self + n" "bal w' tok u = bal (cm_tokens s) tok u - n"
      using token_contract.transfer_moves [OF tok_ok 1(6), of tok] ne assms(5) by auto
    obtain w2 where w2: "tr e' tok (env_self e') u n w' = Some w2"
      using live_token.self_payment_succeeds [OF assms(1) 1(2), of w' tok e' u] b1 assms(7,9,10) by auto
    have bal2: "bal w2 k x = bal (cm_tokens s) k x"
      using token_contract.transfer_moves [OF tok_ok 1(6), of k x] token_contract.transfer_moves [OF tok_ok w2, of k x] assms(5,7) by auto
    have unlocked: "\<not> cm_is_reentrancy_locked s1" "\<not> cm_is_paused s1"
      using inv assms(3) by (auto simp: cm_inv_def s1 cm_is_reentrancy_locked_def cm_is_paused_def cm_deposit_collateral_def cm_check_paused_def result_iffs)
    let ?s = "s1\<lparr>cm_reentrancy_lock := Some True\<rparr>"
    have debt: "cm_user_total_debt u ?s = Inr 0"
      using assms(4) cm_sum_debts_cong [where s' = ?s and s = s] by (simp add: cm_user_total_debt_def cm_get_user_loan_ids_def s1)
    have got: "cm_get_user_collateral u tok ?s = (cm_get_user_collateral u tok s)\<lparr>uc_amount := ?a + n, uc_last_updated := env_timestamp e\<rparr>"
        "cm_get_total_collateral_for_type tok ?s = ?T + n"
      by (simp_all add: s1 cm_get_user_collateral_def cm_get_total_collateral_for_type_def)
    have fits: "in_i128 ?a" "in_i128 ?T"
      using keys(3) 1(2,8,9) cm_deposit_le_total [OF cm_core_parts(1) [OF core], of u tok] by (auto intro: in_i128_nonneg)
    have pays: "cm_transfer tr e' tok (env_self e') u n ?s = Inr (?s\<lparr>cm_tokens := w2\<rparr>)"
      using w2 by (simp add: cm_transfer_def call_token_def s1)
    have total: "cm_get_total_collateral_for_type tok (cm_set_user_collateral c (?s\<lparr>cm_tokens := w2\<rparr>)) = ?T + n" for c
      using got(2) by (simp add: cm_get_total_collateral_for_type_def cm_set_user_collateral_def)
    have amount: "cm_sub (?a + n) n = Inr ?a" "cm_sub (?T + n) n = Inr ?T" "\<not> ?a + n < n" using fits keys(3) by (simp_all add: cm_arith_Inr)
    have body: "cm_withdraw_internal tr orc e' u tok n ?s = Inr (cm_set_total_collateral_for_type tok ?T
        (cm_set_user_collateral ((cm_get_user_collateral u tok s)\<lparr>uc_amount := ?a, uc_last_updated := env_timestamp e'\<rparr>) (?s\<lparr>cm_tokens := w2\<rparr>)))"
      unfolding cm_withdraw_internal_def Let_def got pays total cm_check_withdrawal_def debt using 1(2) amount by (simp add: total)
    have amounts: "cm_amounts u (cm_leave (cm_set_total_collateral_for_type tok ?T
        (cm_set_user_collateral ((cm_get_user_collateral u tok s)\<lparr>uc_amount := ?a, uc_last_updated := env_timestamp e'\<rparr>) (?s\<lparr>cm_tokens := w2\<rparr>)))) = cm_amounts u s"
      using keys by (auto simp: fun_eq_iff cm_amounts_def cm_get_user_collateral_def cm_leave_def cm_setters s1)
    show ?thesis
      using unlocked body assms(8) bal2 amounts
      by (simp add: cm_withdraw_collateral_def cm_with_guard_def cm_enter_def require_auth_def cm_check_paused_def)
         (simp add: cm_leave_def cm_setters cm_get_total_collateral_for_type_def s1)
  qed
qed

theorem cm_deposit_withdraw_roundtrip_witness:
  "\<exists>s1 s2. cm_deposit_collateral mock_world_transfer (cm_env 200) (Addr 8) (Addr 2) 700 (cm_opened 2 1) = Inr ((), s1) \<and>
     cm_withdraw_collateral mock_world_transfer cm_no_oracle (cm_env 300) (Addr 8) (Addr 2) 700 s1 = Inr ((), s2) \<and>
     cm_amounts (Addr 8) s2 = cm_amounts (Addr 8) (cm_opened 2 1) \<and> mock_world_balance (cm_tokens s2) (Addr 2) (Addr 8) = 4000"
proof -
  obtain s1 where run: "cm_deposit_collateral mock_world_transfer (cm_env 200) (Addr 8) (Addr 2) 700 (cm_opened 2 1) = Inr ((), s1)"
    by (simp add: cm_opened_def cm_demo_config_def cm_deposit_collateral_def cm_check_caps_def cm_eval)
  have bal: "mock_world_balance (cm_tokens (cm_opened 2 1)) (Addr 2) (Addr 8) = 4000" "mock_world_balance (cm_tokens (cm_opened 2 1)) (Addr 2) (Addr 0) = 1000"
    by (simp_all add: cm_opened_def mock_world_balance_def mock_balance_def)
  have "\<exists>s2. cm_withdraw_collateral mock_world_transfer cm_no_oracle (cm_env 300) (Addr 8) (Addr 2) 700 s1 = Inr ((), s2) \<and>
      cm_amounts (Addr 8) s2 = cm_amounts (Addr 8) (cm_opened 2 1) \<and>
      cm_get_total_collateral_for_type (Addr 2) s2 = cm_get_total_collateral_for_type (Addr 2) (cm_opened 2 1) \<and>
      mock_world_balance (cm_tokens s2) (Addr 2) (Addr 8) = mock_world_balance (cm_tokens (cm_opened 2 1)) (Addr 2) (Addr 8)"
    by (rule cm_deposit_withdraw_roundtrip [OF mock.live_token_axioms cm_opened_reach run])
       (simp_all add: bal cm_env_def arith_defs, simp add: cm_opened_def cm_user_total_debt_def cm_get_user_loan_ids_def)
  with run bal show ?thesis by auto
qed

section \<open>Interest\<close>

text \<open>
  Accruing in steps never charges more. Splitting a period charges at most what accruing over the whole
  period charges, and at most one unit less: only the rounding is lost.
\<close>

theorem cm_split_accrual:
  assumes "0 \<le> d1" and "0 \<le> d2" and "cm_calculate_accrued_interest p r d1 = Inr x" and "cm_calculate_accrued_interest p r d2 = Inr y"
    and "cm_calculate_accrued_interest p r (d1 + d2) = Inr z"
  shows "x + y \<le> z \<and> z \<le> x + y + 1"
proof -
  let ?q = "CM_BPS_DENOMINATOR * SECONDS_PER_YEAR"
  have eq: "cm_interest p r d = p * int r * d div ?q" if "0 < p" "0 \<le> d" for d using that by (auto simp: cm_interest_def)
  have xyz: "x = cm_interest p r d1" "y = cm_interest p r d2" "z = cm_interest p r (d1 + d2)" using assms(3-5) by (auto dest: cm_accrued_Inr)
  show ?thesis
  proof (cases "0 < p")
    case True
    let ?a = "p * int r * d1" and ?b = "p * int r * d2"
    have z: "z = (?a + ?b) div ?q" using xyz(3) True assms(1,2) by (simp add: eq distrib_left)
    have "(?a + ?b) div ?q = ?a div ?q + ?b div ?q + (?a mod ?q + ?b mod ?q) div ?q" by (rule div_add1_eq)
    moreover have "0 \<le> (?a mod ?q + ?b mod ?q) div ?q" "(?a mod ?q + ?b mod ?q) div ?q \<le> 1"
    proof -
      have r: "0 \<le> ?a mod ?q" "?a mod ?q < ?q" "0 \<le> ?b mod ?q" "?b mod ?q < ?q" using cm_year_pos by simp_all
      then show "0 \<le> (?a mod ?q + ?b mod ?q) div ?q" using cm_year_pos by (simp add: pos_imp_zdiv_nonneg_iff)
      show "(?a mod ?q + ?b mod ?q) div ?q \<le> 1"
        using r by (simp add: CM_BPS_DENOMINATOR_def SECONDS_PER_YEAR_def)
    qed
    ultimately show ?thesis using z xyz True assms(1,2) by (simp add: eq)
  next
    case False
    then show ?thesis using xyz by (simp add: cm_interest_def)
  qed
qed

theorem cm_split_accrual_witness:
  "\<exists>x y z. cm_calculate_accrued_interest 1500 200 1000000 = Inr x \<and> cm_calculate_accrued_interest 1500 200 500000 = Inr y \<and>
     cm_calculate_accrued_interest 1500 200 1500000 = Inr z \<and> x + y \<le> z \<and> z \<le> x + y + 1"
proof -
  have run: "cm_calculate_accrued_interest 1500 200 1000000 = Inr 0" "cm_calculate_accrued_interest 1500 200 500000 = Inr 0"
      "cm_calculate_accrued_interest 1500 200 (1000000 + 500000) = Inr 1"
    by (simp_all add: cm_calculate_accrued_interest_def cm_mul_def arith_defs CM_BPS_DENOMINATOR_def SECONDS_PER_YEAR_def div_i128_nonneg)
  from cm_split_accrual [OF _ _ run] run show ?thesis by simp
qed

text \<open>
  The kinked rate never falls as the utilisation rises and stays between the base rate and the sum of the
  base rate and both slopes.
\<close>

theorem cm_rate_monotone:
  assumes "u \<le> v" and "v \<le> 10000" and "pp_optimal_utilization_bps p \<le> 10000"
    and "pp_base_interest_rate_bps p + pp_interest_slope1_bps p + pp_interest_slope2_bps p \<le> u32_max"
  shows "pp_base_interest_rate_bps p \<le> cm_calculate_interest_rate p u \<and> cm_calculate_interest_rate p u \<le> cm_calculate_interest_rate p v \<and>
    cm_calculate_interest_rate p v \<le> pp_base_interest_rate_bps p + pp_interest_slope1_bps p + pp_interest_slope2_bps p"
proof -
  let ?b = "int (pp_base_interest_rate_bps p)" and ?x = "int (pp_interest_slope1_bps p)" and ?y = "int (pp_interest_slope2_bps p)"
    and ?o = "int (pp_optimal_utilization_bps p)"
  define low where "low n = ?x * n div ?o" for n
  define high where "high n = ?y * (n - ?o) div (10000 - ?o)" for n
  define rate where "rate n = (if n \<le> ?o then ?b + low n else ?b + ?x + high n)" for n
  have low: "0 \<le> low n" "low n \<le> ?x" "m \<le> n \<Longrightarrow> low m \<le> low n" if "0 \<le> m" "0 \<le> n" "n \<le> ?o" "0 < ?o" for m n
    using that div_fraction_bounds [of ?x n ?o] by (auto simp: low_def intro!: zdiv_mono1 mult_left_mono)
  have high: "0 \<le> high n" "high n \<le> ?y" "m \<le> n \<Longrightarrow> high m \<le> high n" if "?o < m" "?o < n" "n \<le> 10000" for m n
    using that div_fraction_bounds [of ?y "n - ?o" "10000 - ?o"] by (auto simp: high_def intro!: zdiv_mono1 mult_left_mono)
  have cap: "?b + ?x + ?y \<le> int u32_max" using assms(4) by linarith
  have eval: "cm_calculate_interest_rate p n = nat (rate (int n)) \<and> ?b \<le> rate (int n) \<and> rate (int n) \<le> ?b + ?x + ?y" if "n \<le> 10000" "0 < ?o" for n
  proof -
    have b: "?b \<le> rate (int n)" "rate (int n) \<le> ?b + ?x + ?y"
      using that low [of 0 "int n"] high [of "int n" "int n"] by (auto simp: rate_def)
    then have "min (rate (int n)) (int u32_max) = rate (int n)" using cap by simp
    moreover have "cm_calculate_interest_rate p n = nat (min (rate (int n)) (int u32_max))"
      using that by (simp add: cm_calculate_interest_rate_def rate_def low_def high_def Let_def div_i128_nonneg CM_BPS_DENOMINATOR_def)
    ultimately show ?thesis using b by simp
  qed
  show ?thesis
  proof (cases "0 < ?o")
    case False
    then show ?thesis by (simp add: cm_calculate_interest_rate_def Let_def)
  next
    case True
    have "rate (int u) \<le> rate (int v)"
      using True assms(1,2) low [of "int u" "int v"] low [of "int u" "int u"] high [of "int u" "int v"] high [of "int v" "int v"] by (auto simp: rate_def)
    then show ?thesis using eval [of u] eval [of v] True assms(1,2) by (auto simp: nat_le_eq_zle)
  qed
qed

theorem cm_rate_monotone_witness:
  "cm_calculate_interest_rate (cm_get_protocol_params (cm_fresh cm_world)) 4000 \<le> cm_calculate_interest_rate (cm_get_protocol_params (cm_fresh cm_world)) 9000"
  using cm_rate_monotone [of 4000 9000 "cm_get_protocol_params (cm_fresh cm_world)"] by (simp add: cm_get_protocol_params_def cm_fresh_def u32_max_def)

text \<open>
  The rate is never the kinked one. No entry point records deposits of a lending pool, so in every
  reachable state the utilisation is zero and every loan is granted at the base rate.
\<close>

theorem cm_rate_is_base:
  assumes "token_contract tr bal"
    and "reach (cm_exec tr orc) (cm_adm self) (cm_drift bal self) (cm_fresh w) t s"
    and "pp_base_interest_rate_bps (cm_get_protocol_params s) \<le> u32_max"
  shows "cm_get_interest_rate tok s = Inr (pp_base_interest_rate_bps (cm_get_protocol_params s))"
proof -
  have "cm_pool_deposits s = (\<lambda>_. None)"
    using cm_core_parts(3) [OF token_contract.cm_reach_core [OF assms(1,2)]] by (simp add: cm_setup_ok_def)
  then show ?thesis
    using assms(3) by (simp add: cm_get_interest_rate_def cm_get_lending_pool_deposits_def cm_calculate_utilization_def cm_calculate_interest_rate_def
        Let_def div_i128_nonneg min_def)
qed

theorem cm_rate_is_base_witness: "cm_get_interest_rate (Addr 3) cm_borrowed = Inr 200"
proof -
  have "pp_base_interest_rate_bps (cm_get_protocol_params cm_borrowed) = 200" by (simp add: cm_borrowed_def cm_opened_def cm_get_protocol_params_def)
  then show ?thesis using cm_rate_is_base [OF mock.token_contract_axioms cm_borrowed_reach, of "Addr 3"] by (simp add: u32_max_def)
qed

section \<open>Findings\<close>

lemmas cm_run_eval = cm_opened_def cm_demo_config_def cm_eval cm_health_eval cm_borrow_eval cm_liquidate_eval cm_set_price_def
  CM_BPS_DENOMINATOR_def SECONDS_PER_YEAR_def cm_no_oracle_def

text \<open>
  The amount a liquidation seizes ignores the price scale: at a price of one with six decimals the
  liquidator pays 500 and receives a single unit of collateral.
\<close>

theorem cm_seizure_ignores_scale:
  "\<exists>s1 s2 s3. cm_borrow mock_world_transfer cm_no_oracle (cm_env 200) (Addr 8) (Addr 3) 1500 (cm_opened 2000000 1000000) = Inr ((), s1) \<and>
     cm_set_price (cm_env 200) (Addr 5) ''X'' 1000000 s1 = Inr ((), s2) \<and>
     cm_liquidate mock_world_transfer cm_no_oracle (cm_env 200) (Addr 9) (Addr 8) 0 500 s2 = Inr ((), s3) \<and>
     mock_world_balance (cm_tokens s3) (Addr 3) (Addr 9) = 4500 \<and> mock_world_balance (cm_tokens s3) (Addr 2) (Addr 9) = 1"
  by (simp add: cm_run_eval)

text \<open>The loan-to-value ratio of a collateral type is stored and never used: 1600 is lent on 2000 at a ratio of 75 percent.\<close>

theorem cm_borrow_beyond_ltv:
  "\<exists>s1. cm_borrow mock_world_transfer cm_no_oracle (cm_env 200) (Addr 8) (Addr 3) 1600 (cm_opened 2 1) = Inr ((), s1) \<and>
     ct_ltv_bps (cm_demo_config 1) = 7500 \<and> cm_calculate_max_borrow 2000 7500 = Inr 1500"
  by (simp add: cm_run_eval cm_calculate_max_borrow_def)

text \<open>
  A liquidation checks the debt as it was last stored, before the interest it has just computed: a loan
  whose interest makes it unhealthy cannot be liquidated until somebody accrues it.
\<close>

theorem cm_liquidation_ignores_due_interest:
  "\<exists>s1 s2. cm_borrow mock_world_transfer cm_no_oracle (cm_env 200) (Addr 8) (Addr 3) 1600 (cm_opened 2 1) = Inr ((), s1) \<and>
     cm_liquidate mock_world_transfer cm_no_oracle (cm_env 31536200) (Addr 9) (Addr 8) 0 500 s1 = Inl CmHealthFactorInsufficient \<and>
     cm_accrue_interest (cm_env 31536200) (Addr 8) 0 s1 = Inr ((), s2) \<and>
     (\<exists>s3. cm_liquidate mock_world_transfer cm_no_oracle (cm_env 31536200) (Addr 9) (Addr 8) 0 500 s2 = Inr ((), s3))"
  by (simp add: cm_run_eval cm_accrue_interest_def cm_accrue_one_def)

text \<open>
  The contract lends what its users have deposited: a second depositor borrows the collateral of the first,
  who has no debt and cannot withdraw.
\<close>

theorem cm_collateral_lent_out:
  "\<exists>s1 s2 s3 s4. cm_register_collateral_type (cm_env 200) (Addr 5) (Addr 3) ''Y'' 7500 8000 500 0 1 (cm_opened 2 1) = Inr ((), s1) \<and>
     cm_set_price (cm_env 200) (Addr 5) ''Y'' 1 s1 = Inr ((), s2) \<and>
     cm_deposit_collateral mock_world_transfer (cm_env 200) (Addr 9) (Addr 3) 3000 s2 = Inr ((), s3) \<and>
     cm_borrow mock_world_transfer cm_no_oracle (cm_env 200) (Addr 9) (Addr 2) 1000 s3 = Inr ((), s4) \<and>
     cm_withdraw_collateral mock_world_transfer cm_no_oracle (cm_env 200) (Addr 8) (Addr 2) 1000 s4 = Inl CmTransferFailed"
  by (simp add: cm_run_eval cm_register_collateral_type_def cm_check_risk_def cm_deposit_collateral_def cm_check_caps_def cm_withdraw_collateral_def
      cm_withdraw_internal_def cm_check_withdrawal_def MAX_LTV_BPS_def MAX_LIQ_THRESHOLD_BPS_def MAX_LIQ_BONUS_BPS_def)

end
