(* ===== verification/Allowance_Token.thy ===== *)
theory Allowance_Token
  imports Soroban_Host
begin

text \<open>
  The token interface with allowances, which the membership contract uses to renew subscriptions: a
  spender moves what the owner has approved. The \<open>MockToken\<close> of
  src/contracts/membership-subscription/src/test.rs keeps balances and allowances; its model discharges
  the laws of the interface, and the runs of the membership contract use it.
\<close>

section \<open>The interface\<close>

type_synonym 'w token_transfer_from =
  "env \<Rightarrow> address \<Rightarrow> address \<Rightarrow> address \<Rightarrow> address \<Rightarrow> i128 \<Rightarrow> 'w \<Rightarrow> 'w option"

type_synonym 'w token_allowance = "'w \<Rightarrow> address \<Rightarrow> address \<Rightarrow> address \<Rightarrow> i128"

text \<open>\<open>transfer_from e token spender from to amount\<close> moves balances as \<open>transfer\<close> does.\<close>

locale spender_token = token_contract transfer balance
  for transfer :: "'w token_transfer" and balance :: "'w token_balance" +
  fixes transfer_from :: "'w token_transfer_from"
  assumes transfer_from_moves:
      "transfer_from e tok sp src dst n w = Some w' \<Longrightarrow>
       balance w' t x = balance w t x
         + (if t = tok \<and> x = dst then n else 0) - (if t = tok \<and> x = src then n else 0)"
    and transfer_from_nonneg: "transfer_from e tok sp src dst n w = Some w' \<Longrightarrow> 0 \<le> n"

text \<open>A token that also honours funded and approved payments.\<close>

locale allowance_token = spender_token transfer balance transfer_from + live_token transfer balance
  for transfer :: "'w token_transfer" and balance :: "'w token_balance" and transfer_from :: "'w token_transfer_from" +
  fixes allowance :: "'w token_allowance"
  assumes transfer_from_live:
      "0 < n \<Longrightarrow> n \<le> balance w tok src \<Longrightarrow> n \<le> allowance w tok src sp \<Longrightarrow> in_i128 (allowance w tok src sp) \<Longrightarrow>
       in_i128 (balance w tok dst + n) \<Longrightarrow> env_auth e sp \<or> sp = env_self e \<Longrightarrow> \<exists>w'. transfer_from e tok sp src dst n w = Some w'"

section \<open>The token of the tests\<close>

datatype allow_error =
    AtAuth
  | AtTransferAmountMustBePositive
  | AtInsufficientBalance
  | AtInsufficientAllowance
  | AtOverflow

record allow_store =
  at_balances :: "address \<rightharpoonup> i128"
  at_allowances :: "address \<times> address \<rightharpoonup> i128"

definition at_mint :: "address \<Rightarrow> i128 \<Rightarrow> allow_store \<Rightarrow> allow_error + allow_store" where
  "at_mint dst amount st =
     and_then (ok_or AtOverflow (checked_add_i128 (unwrap_or 0 (at_balances st dst)) amount)) (\<lambda>b.
     Inr (st\<lparr>at_balances := (at_balances st)(dst \<mapsto> b)\<rparr>))"

definition at_balance :: "address \<Rightarrow> allow_store \<Rightarrow> i128" where
  "at_balance owner st = unwrap_or 0 (at_balances st owner)"

definition at_allowance :: "address \<Rightarrow> address \<Rightarrow> allow_store \<Rightarrow> i128" where
  "at_allowance src spender st = unwrap_or 0 (at_allowances st (src, spender))"

text \<open>\<open>require_auth\<close> inside the token: an authorisation entry of the invocation, or the direct invoker itself.\<close>

definition at_require_auth :: "env \<Rightarrow> address \<Rightarrow> allow_error + unit" where
  "at_require_auth e a = panic_if (\<not> (env_auth e a \<or> a = env_self e)) AtAuth"

definition at_approve :: "env \<Rightarrow> address \<Rightarrow> address \<Rightarrow> i128 \<Rightarrow> allow_store \<Rightarrow> allow_error + allow_store" where
  "at_approve e src spender amount st =
     and_then (at_require_auth e src) (\<lambda>_. Inr (st\<lparr>at_allowances := (at_allowances st)((src, spender) \<mapsto> amount)\<rparr>))"

definition at_move_balance :: "address \<Rightarrow> address \<Rightarrow> i128 \<Rightarrow> allow_store \<Rightarrow> allow_error + allow_store" where
  "at_move_balance src dst amount st =
     and_then (panic_if (amount \<le> 0) AtTransferAmountMustBePositive) (\<lambda>_.
     let from_balance = unwrap_or 0 (at_balances st src) in
     and_then (panic_if (from_balance < amount) AtInsufficientBalance) (\<lambda>_.
     let st = st\<lparr>at_balances := (at_balances st)(src \<mapsto> from_balance - amount)\<rparr>;
         to_balance = unwrap_or 0 (at_balances st dst) in
     and_then (ok_or AtOverflow (checked_add_i128 to_balance amount)) (\<lambda>b.
     Inr (st\<lparr>at_balances := (at_balances st)(dst \<mapsto> b)\<rparr>))))"

definition at_transfer :: "env \<Rightarrow> address \<Rightarrow> address \<Rightarrow> i128 \<Rightarrow> allow_store \<Rightarrow> allow_error + allow_store" where
  "at_transfer e src dst amount st = and_then (at_require_auth e src) (\<lambda>_. at_move_balance src dst amount st)"

definition at_transfer_from :: "env \<Rightarrow> address \<Rightarrow> address \<Rightarrow> address \<Rightarrow> i128 \<Rightarrow> allow_store \<Rightarrow> allow_error + allow_store" where
  "at_transfer_from e spender src dst amount st =
     and_then (at_require_auth e spender) (\<lambda>_.
     let allowance = unwrap_or 0 (at_allowances st (src, spender)) in
     and_then (panic_if (allowance < amount) AtInsufficientAllowance) (\<lambda>_.
     and_then (ok_or AtOverflow (checked_sub_i128 allowance amount)) (\<lambda>rest.
     at_move_balance src dst amount (st\<lparr>at_allowances := (at_allowances st)((src, spender) \<mapsto> rest)\<rparr>))))"

text \<open>Many tokens side by side.\<close>

type_synonym allow_world = "address \<Rightarrow> allow_store"

definition at_put :: "address \<Rightarrow> allow_error + allow_store \<Rightarrow> allow_world \<Rightarrow> allow_world option" where
  "at_put tok r w = (case r of Inl _ \<Rightarrow> None | Inr st \<Rightarrow> Some (w(tok := st)))"

definition at_world_transfer :: "allow_world token_transfer" where
  "at_world_transfer e tok src dst n w = at_put tok (at_transfer e src dst n (w tok)) w"

definition at_world_transfer_from :: "allow_world token_transfer_from" where
  "at_world_transfer_from e tok spender src dst n w = at_put tok (at_transfer_from e spender src dst n (w tok)) w"

definition at_world_balance :: "allow_world token_balance" where
  "at_world_balance w tok x = at_balance x (w tok)"

definition at_world_allowance :: "allow_world token_allowance" where
  "at_world_allowance w tok src spender = at_allowance src spender (w tok)"

lemma at_move_Inr:
  assumes "at_move_balance src dst n st = Inr st'"
  shows "0 < n" and "n \<le> at_balance src st"
    and "at_balance x st' = at_balance x st + (if x = dst then n else 0) - (if x = src then n else 0)"
  using assms by (auto simp: at_move_balance_def at_balance_def result_iffs Let_def split: if_splits)

lemma at_move_live:
  assumes "0 < n" and "n \<le> at_balance src st" and "in_i128 (at_balance dst st + n)"
  shows "\<exists>st'. at_move_balance src dst n st = Inr st'"
proof (cases "dst = src")
  case True
  have "in_i128 (at_balance src st)" using assms True by (intro in_i128_nonneg [OF assms(3)]) auto
  with assms True show ?thesis
    by (simp add: at_move_balance_def at_balance_def Let_def checked_add_i128_def narrow_i128_def)
next
  case False
  with assms show ?thesis by (simp add: at_move_balance_def at_balance_def Let_def checked_add_i128_def narrow_i128_def)
qed

lemma at_put_Some [simp]: "at_put tok r w = Some w' \<longleftrightarrow> (\<exists>st. r = Inr st \<and> w' = w(tok := st))"
  by (cases r) (auto simp: at_put_def)

interpretation atk: allowance_token at_world_transfer at_world_balance at_world_transfer_from at_world_allowance
proof unfold_locales
  fix e :: env and tok src dst n w w' t x
  assume "at_world_transfer e tok src dst n w = Some w'"
  then obtain st where st: "at_move_balance src dst n (w tok) = Inr st" "w' = w(tok := st)"
    by (auto simp: at_world_transfer_def at_transfer_def result_iffs)
  show "at_world_balance w' t x = at_world_balance w t x + (if t = tok \<and> x = dst then n else 0) - (if t = tok \<and> x = src then n else 0)"
    using at_move_Inr(3) [OF st(1), of x] by (auto simp: at_world_balance_def st(2))
  show "0 \<le> n" "n \<le> at_world_balance w tok src" using at_move_Inr(1,2) [OF st(1)] by (simp_all add: at_world_balance_def)
next
  fix e :: env and tok sp src dst n w w' t x
  assume "at_world_transfer_from e tok sp src dst n w = Some w'"
  then obtain st rest where st: "at_move_balance src dst n ((w tok)\<lparr>at_allowances := (at_allowances (w tok))((src, sp) \<mapsto> rest)\<rparr>) = Inr st"
      "w' = w(tok := st)"
    by (auto simp: at_world_transfer_from_def at_transfer_from_def result_iffs Let_def)
  show "at_world_balance w' t x = at_world_balance w t x + (if t = tok \<and> x = dst then n else 0) - (if t = tok \<and> x = src then n else 0)"
    using at_move_Inr(3) [OF st(1), of x] by (auto simp: at_world_balance_def st(2) at_balance_def)
  show "0 \<le> n" using at_move_Inr(1) [OF st(1)] by simp
next
  fix n :: i128 and w tok src dst and e :: env
  assume "0 < n" "n \<le> at_world_balance w tok src" "in_i128 (at_world_balance w tok dst + n)" "env_auth e src \<or> src = env_self e"
  then show "\<exists>w'. at_world_transfer e tok src dst n w = Some w'"
    using at_move_live [of n src "w tok" dst] by (auto simp: at_world_transfer_def at_transfer_def at_require_auth_def at_world_balance_def)
next
  fix n :: i128 and w tok src sp dst and e :: env
  assume a: "0 < n" "n \<le> at_world_balance w tok src" "n \<le> at_world_allowance w tok src sp" "in_i128 (at_world_allowance w tok src sp)"
    "in_i128 (at_world_balance w tok dst + n)"
    "env_auth e sp \<or> sp = env_self e"
  define st where "st = (w tok)\<lparr>at_allowances := (at_allowances (w tok))((src, sp) \<mapsto> at_world_allowance w tok src sp - n)\<rparr>"
  have "in_i128 (at_world_allowance w tok src sp - n)" using a by (intro in_i128_nonneg [OF a(4)]) auto
  moreover obtain st' where "at_move_balance src dst n st = Inr st'"
    using at_move_live [of n src st dst] a by (auto simp: st_def at_world_balance_def at_balance_def)
  ultimately show "\<exists>w'. at_world_transfer_from e tok sp src dst n w = Some w'"
    using a by (auto simp: at_world_transfer_from_def at_transfer_from_def at_require_auth_def at_world_allowance_def at_allowance_def
        st_def Let_def checked_sub_i128_def narrow_i128_def)
qed

end
