(* ===== verification/Membership.thy ===== *)
theory Membership
  imports Allowance_Token "HOL-Library.Word"
begin

unbundle bit_operations_syntax

text \<open>
  The membership subscription contract (src/contracts/membership-subscription/src/lib.rs): tiers with
  a price per period, subscriptions with trials, pauses and renewals by allowance, referral rewards and
  prorated refunds. One field of \<open>sb_state\<close> per storage key, \<open>sb_tokens\<close> the state of the token
  contracts. The token calls are the parameters \<open>tr\<close> (\<open>transfer\<close>), \<open>tf\<close> (\<open>transfer_from\<close>), \<open>bal\<close> and \<open>alw\<close>.
\<close>

section \<open>State\<close>

definition SB_BPS_DENOMINATOR :: i128 where
  "SB_BPS_DENOMINATOR = 10000"

definition MAX_REFERRAL_REWARD_BPS :: u32 where
  "MAX_REFERRAL_REWARD_BPS = 5000"

definition MAX_TIER_NAME_LENGTH :: u32 where
  "MAX_TIER_NAME_LENGTH = 64"

datatype subscription_status = Trial | Active | Paused | Cancelled | Expired

record membership_tier =
  mt_tier_id :: u32
  mt_name :: string
  mt_price_per_period :: i128
  mt_period_seconds :: u64
  mt_trial_seconds :: u64
  mt_benefit_flags :: "32 word"
  mt_referral_reward_bps :: u32
  mt_active :: bool
  mt_created_at :: u64
  mt_updated_at :: u64

record subscription =
  su_member :: address
  su_tier_id :: u32
  su_token :: address
  su_status :: subscription_status
  su_auto_renew :: bool
  su_started_at :: u64
  su_current_period_start :: u64
  su_current_period_end :: u64
  su_trial_end :: u64
  su_paused_at :: u64
  su_paused_accumulated_seconds :: u64
  su_referrer :: "address option"
  su_total_paid :: i128
  su_total_referral_rewards :: i128
  su_updated_at :: u64

record subscription_analytics =
  sa_total_subscriptions :: u64
  sa_active_subscriptions :: u64
  sa_cancelled_subscriptions :: u64
  sa_expired_subscriptions :: u64
  sa_paused_subscriptions :: u64
  sa_total_revenue :: i128
  sa_total_refunds :: i128
  sa_total_referral_rewards :: i128

record renewal_result =
  rr_charged_amount :: i128
  rr_referral_reward :: i128
  rr_period_start :: u64
  rr_period_end :: u64
  rr_status :: subscription_status

record tier_change_result =
  tc_old_tier_id :: u32
  tc_new_tier_id :: u32
  tc_charge_amount :: i128
  tc_refund_amount :: i128
  tc_period_start :: u64
  tc_period_end :: u64

record proration_quote =
  pq_remaining_credit :: i128
  pq_charge_amount :: i128
  pq_refund_amount :: i128

record 'w sb_state =
  sb_admin :: "address option"
  sb_tier :: "u32 \<Rightarrow> membership_tier option"
  sb_tier_ids_key :: "u32 list option"
  sb_subscription :: "address \<Rightarrow> subscription option"
  sb_analytics_key :: "subscription_analytics option"
  sb_referral_rewards_key :: "address \<Rightarrow> i128 option"
  sb_reentrancy_lock :: "bool option"
  sb_tokens :: 'w

definition sb_fresh :: "'w \<Rightarrow> 'w sb_state" where
  "sb_fresh w = \<lparr>sb_admin = None, sb_tier = (\<lambda>_. None), sb_tier_ids_key = None, sb_subscription = (\<lambda>_. None), sb_analytics_key = None,
     sb_referral_rewards_key = (\<lambda>_. None), sb_reentrancy_lock = None, sb_tokens = w\<rparr>"

datatype sb_error =
    SbAuth
  | SbAlreadyInitialized
  | SbNotInitialized
  | SbNotAdmin
  | SbInvalidTierId
  | SbTierExists
  | SbTierNotFound
  | SbTierInactive
  | SbNameTooLong
  | SbPriceMustBePositive
  | SbPeriodMustBePositive
  | SbReferralRewardTooHigh
  | SbAlreadySubscribed
  | SbSelfReferral
  | SbSubscriptionNotFound
  | SbPausedCannotRenew
  | SbNotRenewable
  | SbNotDue
  | SbAlreadyTerminal
  | SbCannotBePaused
  | SbNotPaused
  | SbNotActive
  | SbAmountMustBePositive
  | SbReentrant
  | SbToken
  | SbOverflow

section \<open>Reading the store\<close>

definition sb_empty_analytics :: subscription_analytics where
  "sb_empty_analytics = \<lparr>sa_total_subscriptions = 0, sa_active_subscriptions = 0, sa_cancelled_subscriptions = 0, sa_expired_subscriptions = 0,
     sa_paused_subscriptions = 0, sa_total_revenue = 0, sa_total_refunds = 0, sa_total_referral_rewards = 0\<rparr>"

definition sb_analytics :: "'w sb_state \<Rightarrow> subscription_analytics" where
  "sb_analytics s = unwrap_or sb_empty_analytics (sb_analytics_key s)"

definition sb_tier_ids :: "'w sb_state \<Rightarrow> u32 list" where
  "sb_tier_ids s = unwrap_or [] (sb_tier_ids_key s)"

definition sb_assert_admin :: "address \<Rightarrow> 'w sb_state \<Rightarrow> sb_error + unit" where
  "sb_assert_admin caller s =
     and_then (ok_or SbNotInitialized (sb_admin s)) (\<lambda>admin. panic_if (caller \<noteq> admin) SbNotAdmin)"

definition sb_load_tier :: "u32 \<Rightarrow> 'w sb_state \<Rightarrow> sb_error + membership_tier" where
  "sb_load_tier tier_id s =
     and_then (panic_if (tier_id = 0) SbInvalidTierId) (\<lambda>_. ok_or SbTierNotFound (sb_tier s tier_id))"

definition sb_load_active_tier :: "u32 \<Rightarrow> 'w sb_state \<Rightarrow> sb_error + membership_tier" where
  "sb_load_active_tier tier_id s =
     and_then (sb_load_tier tier_id s) (\<lambda>tier.
     and_then (panic_if (\<not> mt_active tier) SbTierInactive) (\<lambda>_. Inr tier))"

definition sb_load_subscription :: "address \<Rightarrow> 'w sb_state \<Rightarrow> sb_error + subscription" where
  "sb_load_subscription member s = ok_or SbSubscriptionNotFound (sb_subscription s member)"

definition sb_is_non_terminal :: "subscription_status \<Rightarrow> bool" where
  "sb_is_non_terminal st \<longleftrightarrow> st = Active \<or> st = Trial \<or> st = Paused"

definition sb_validate_tier_terms :: "string \<Rightarrow> i128 \<Rightarrow> u64 \<Rightarrow> u32 \<Rightarrow> sb_error + unit" where
  "sb_validate_tier_terms name price period bps =
     and_then (panic_if (MAX_TIER_NAME_LENGTH < length name) SbNameTooLong) (\<lambda>_.
     and_then (panic_if (price \<le> 0) SbPriceMustBePositive) (\<lambda>_.
     and_then (panic_if (period = 0) SbPeriodMustBePositive) (\<lambda>_.
     panic_if (MAX_REFERRAL_REWARD_BPS < bps) SbReferralRewardTooHigh)))"

section \<open>The analytics record\<close>

definition sb_set_analytics :: "subscription_analytics \<Rightarrow> 'w sb_state \<Rightarrow> 'w sb_state" where
  "sb_set_analytics a s = s\<lparr>sb_analytics_key := Some a\<rparr>"

definition sb_record_subscription_created :: "'w sb_state \<Rightarrow> sb_error + 'w sb_state" where
  "sb_record_subscription_created s =
     (let a = sb_analytics s in
      and_then (ok_or SbOverflow (checked_add_u64 (sa_total_subscriptions a) 1)) (\<lambda>n.
      and_then (ok_or SbOverflow (checked_add_u64 (sa_active_subscriptions a) 1)) (\<lambda>k.
      Inr (sb_set_analytics (a\<lparr>sa_total_subscriptions := n, sa_active_subscriptions := k\<rparr>) s))))"

definition sb_record_revenue :: "i128 \<Rightarrow> i128 \<Rightarrow> 'w sb_state \<Rightarrow> sb_error + 'w sb_state" where
  "sb_record_revenue revenue referral_reward s =
     (let a = sb_analytics s in
      and_then (ok_or SbOverflow (checked_add_i128 (sa_total_revenue a) revenue)) (\<lambda>n.
      and_then (ok_or SbOverflow (checked_add_i128 (sa_total_referral_rewards a) referral_reward)) (\<lambda>k.
      Inr (sb_set_analytics (a\<lparr>sa_total_revenue := n, sa_total_referral_rewards := k\<rparr>) s))))"

definition sb_record_refund :: "i128 \<Rightarrow> 'w sb_state \<Rightarrow> sb_error + 'w sb_state" where
  "sb_record_refund refund s =
     (let a = sb_analytics s in
      and_then (ok_or SbOverflow (checked_add_i128 (sa_total_refunds a) refund)) (\<lambda>n.
      Inr (sb_set_analytics (a\<lparr>sa_total_refunds := n\<rparr>) s)))"

definition sb_record_cancelled :: "i128 \<Rightarrow> 'w sb_state \<Rightarrow> sb_error + 'w sb_state" where
  "sb_record_cancelled refund s =
     (let a = sb_analytics s in
      and_then (ok_or SbOverflow (checked_add_u64 (sa_cancelled_subscriptions a) 1)) (\<lambda>n.
      and_then (ok_or SbOverflow (checked_add_i128 (sa_total_refunds a) refund)) (\<lambda>k.
      Inr (sb_set_analytics (a\<lparr>sa_cancelled_subscriptions := n,
        sa_active_subscriptions := saturating_sub_u64 (sa_active_subscriptions a) 1, sa_total_refunds := k\<rparr>) s))))"

definition sb_record_expired :: "'w sb_state \<Rightarrow> sb_error + 'w sb_state" where
  "sb_record_expired s =
     (let a = sb_analytics s in
      and_then (ok_or SbOverflow (checked_add_u64 (sa_expired_subscriptions a) 1)) (\<lambda>n.
      Inr (sb_set_analytics (a\<lparr>sa_expired_subscriptions := n,
        sa_active_subscriptions := saturating_sub_u64 (sa_active_subscriptions a) 1\<rparr>) s)))"

definition sb_record_paused :: "'w sb_state \<Rightarrow> sb_error + 'w sb_state" where
  "sb_record_paused s =
     (let a = sb_analytics s in
      and_then (ok_or SbOverflow (checked_add_u64 (sa_paused_subscriptions a) 1)) (\<lambda>n.
      Inr (sb_set_analytics (a\<lparr>sa_paused_subscriptions := n\<rparr>) s)))"

definition sb_record_resumed :: "'w sb_state \<Rightarrow> 'w sb_state" where
  "sb_record_resumed s =
     (let a = sb_analytics s in
      sb_set_analytics (a\<lparr>sa_paused_subscriptions := saturating_sub_u64 (sa_paused_subscriptions a) 1\<rparr>) s)"

section \<open>Token calls under the guard\<close>

definition sb_locked :: "'w sb_state \<Rightarrow> bool" where
  "sb_locked s = unwrap_or False (sb_reentrancy_lock s)"

definition sb_enter_non_reentrant :: "'w sb_state \<Rightarrow> sb_error + 'w sb_state" where
  "sb_enter_non_reentrant s =
     and_then (panic_if (sb_locked s) SbReentrant) (\<lambda>_. Inr (s\<lparr>sb_reentrancy_lock := Some True\<rparr>))"

definition sb_exit_non_reentrant :: "'w sb_state \<Rightarrow> 'w sb_state" where
  "sb_exit_non_reentrant s = s\<lparr>sb_reentrancy_lock := Some False\<rparr>"

definition sb_transfer_token ::
  "'w token_transfer \<Rightarrow> env \<Rightarrow> address \<Rightarrow> address \<Rightarrow> address \<Rightarrow> i128 \<Rightarrow> 'w sb_state \<Rightarrow> sb_error + 'w sb_state" where
  "sb_transfer_token tr e tok src dst amount s =
     and_then (panic_if (amount \<le> 0) SbAmountMustBePositive) (\<lambda>_.
     and_then (sb_enter_non_reentrant s) (\<lambda>s.
     and_then (call_token tr SbToken e tok src dst amount (sb_tokens s)) (\<lambda>w.
     Inr (sb_exit_non_reentrant (s\<lparr>sb_tokens := w\<rparr>)))))"

text \<open>The pull payment of a renewal: \<open>transfer_from\<close> between \<open>enter\<close> and \<open>exit\<close>, with the contract as the spender.\<close>

definition sb_pull_payment ::
  "'w token_transfer_from \<Rightarrow> env \<Rightarrow> address \<Rightarrow> address \<Rightarrow> i128 \<Rightarrow> 'w sb_state \<Rightarrow> sb_error + 'w sb_state" where
  "sb_pull_payment tf e tok member amount s =
     and_then (sb_enter_non_reentrant s) (\<lambda>s.
     and_then (ok_or SbToken (tf e tok (env_self e) member (env_self e) amount (sb_tokens s))) (\<lambda>w.
     Inr (sb_exit_non_reentrant (s\<lparr>sb_tokens := w\<rparr>))))"

definition sb_put :: "address \<Rightarrow> subscription \<Rightarrow> 'w sb_state \<Rightarrow> 'w sb_state" where
  "sb_put member su s = s\<lparr>sb_subscription := (sb_subscription s)(member \<mapsto> su)\<rparr>"

section \<open>Charges, rewards and proration\<close>

definition sb_referral_rewards :: "address \<Rightarrow> 'w sb_state \<Rightarrow> i128" where
  "sb_referral_rewards referrer s = unwrap_or 0 (sb_referral_rewards_key s referrer)"

definition sb_pay_referral_reward ::
  "'w token_transfer \<Rightarrow> env \<Rightarrow> membership_tier \<Rightarrow> subscription \<Rightarrow> 'w sb_state \<Rightarrow> sb_error + (i128 \<times> subscription) \<times> 'w sb_state" where
  "sb_pay_referral_reward tr e tier su s =
     (case su_referrer su of
        None \<Rightarrow> Inr ((0, su), s)
      | Some referrer \<Rightarrow>
          and_then (ok_or SbOverflow (checked_mul_i128 (mt_price_per_period tier) (int (mt_referral_reward_bps tier)))) (\<lambda>p.
          let reward = div_i128 p SB_BPS_DENOMINATOR in
          if reward \<le> 0 then Inr ((0, su), s)
          else
            and_then (sb_transfer_token tr e (su_token su) (env_self e) referrer reward s) (\<lambda>s.
            and_then (ok_or SbOverflow (checked_add_i128 (sb_referral_rewards referrer s) reward)) (\<lambda>r.
            let s = s\<lparr>sb_referral_rewards_key := (sb_referral_rewards_key s)(referrer \<mapsto> r)\<rparr> in
            and_then (ok_or SbOverflow (checked_add_i128 (su_total_referral_rewards su) reward)) (\<lambda>k.
            Inr ((reward, su\<lparr>su_total_referral_rewards := k\<rparr>), s))))))"

definition sb_charge_member_direct ::
  "'w token_transfer \<Rightarrow> env \<Rightarrow> address \<Rightarrow> address \<Rightarrow> membership_tier \<Rightarrow> subscription \<Rightarrow> 'w sb_state \<Rightarrow>
   sb_error + (i128 \<times> subscription) \<times> 'w sb_state" where
  "sb_charge_member_direct tr e member tok tier su s =
     and_then (sb_transfer_token tr e tok member (env_self e) (mt_price_per_period tier) s) (\<lambda>s.
     and_then (sb_pay_referral_reward tr e tier su s) (\<lambda>((reward, su), s).
     and_then (ok_or SbOverflow (checked_add_i128 (su_total_paid su) (mt_price_per_period tier))) (\<lambda>p.
     Inr ((reward, su\<lparr>su_total_paid := p\<rparr>), s))))"

definition sb_unused_period_value :: "env \<Rightarrow> subscription \<Rightarrow> 'w sb_state \<Rightarrow> sb_error + i128" where
  "sb_unused_period_value e su s =
     (if su_status su = Trial then Inr 0
      else if su_current_period_end su \<le> env_timestamp e then Inr 0
      else
        and_then (sb_load_tier (su_tier_id su) s) (\<lambda>tier.
        and_then (ok_or SbOverflow (checked_sub_u (su_current_period_end su) (env_timestamp e))) (\<lambda>remaining.
        and_then (ok_or SbOverflow (checked_mul_i128 (mt_price_per_period tier) (int remaining))) (\<lambda>p.
        ok_or SbOverflow (checked_div_i128 p (int (mt_period_seconds tier)))))))"

definition sb_quote_proration_inner :: "env \<Rightarrow> subscription \<Rightarrow> membership_tier \<Rightarrow> 'w sb_state \<Rightarrow> sb_error + proration_quote" where
  "sb_quote_proration_inner e su new_tier s =
     and_then (sb_unused_period_value e su s) (\<lambda>credit.
     if mt_price_per_period new_tier > credit then
       and_then (ok_or SbOverflow (checked_sub_i128 (mt_price_per_period new_tier) credit)) (\<lambda>charge.
       Inr \<lparr>pq_remaining_credit = credit, pq_charge_amount = charge, pq_refund_amount = 0\<rparr>)
     else
       and_then (ok_or SbOverflow (checked_sub_i128 credit (mt_price_per_period new_tier))) (\<lambda>refund.
       Inr \<lparr>pq_remaining_credit = credit, pq_charge_amount = 0, pq_refund_amount = refund\<rparr>))"

definition sb_expire_subscription :: "env \<Rightarrow> subscription \<Rightarrow> 'w sb_state \<Rightarrow> sb_error + subscription \<times> 'w sb_state" where
  "sb_expire_subscription e su s =
     (let su = su\<lparr>su_status := Expired, su_auto_renew := False, su_updated_at := env_timestamp e\<rparr> in
      and_then (sb_record_expired (sb_put (su_member su) su s)) (\<lambda>s. Inr (su, s)))"

section \<open>Entry points\<close>

definition sb_initialize :: "env \<Rightarrow> address \<Rightarrow> 'w sb_state \<Rightarrow> sb_error + unit \<times> 'w sb_state" where
  "sb_initialize e admin s =
     and_then (panic_if (sb_admin s \<noteq> None) SbAlreadyInitialized) (\<lambda>_.
     and_then (require_auth SbAuth e admin) (\<lambda>_.
     Inr ((), s\<lparr>sb_admin := Some admin, sb_tier_ids_key := Some [], sb_analytics_key := Some sb_empty_analytics,
       sb_reentrancy_lock := Some False\<rparr>)))"

definition sb_create_tier ::
  "env \<Rightarrow> address \<Rightarrow> u32 \<Rightarrow> string \<Rightarrow> i128 \<Rightarrow> u64 \<Rightarrow> u64 \<Rightarrow> 32 word \<Rightarrow> u32 \<Rightarrow> 'w sb_state \<Rightarrow> sb_error + unit \<times> 'w sb_state" where
  "sb_create_tier e admin tier_id name price period trial flags bps s =
     and_then (require_auth SbAuth e admin) (\<lambda>_.
     and_then (sb_assert_admin admin s) (\<lambda>_.
     and_then (panic_if (tier_id = 0) SbInvalidTierId) (\<lambda>_.
     and_then (panic_if (sb_tier s tier_id \<noteq> None) SbTierExists) (\<lambda>_.
     and_then (sb_validate_tier_terms name price period bps) (\<lambda>_.
     let now = env_timestamp e;
         tier = \<lparr>mt_tier_id = tier_id, mt_name = name, mt_price_per_period = price, mt_period_seconds = period, mt_trial_seconds = trial,
           mt_benefit_flags = flags, mt_referral_reward_bps = bps, mt_active = True, mt_created_at = now, mt_updated_at = now\<rparr>;
         s = s\<lparr>sb_tier := (sb_tier s)(tier_id \<mapsto> tier)\<rparr> in
     Inr ((), s\<lparr>sb_tier_ids_key := Some (sb_tier_ids s @ [tier_id])\<rparr>))))))"

definition sb_update_tier ::
  "env \<Rightarrow> address \<Rightarrow> u32 \<Rightarrow> string \<Rightarrow> i128 \<Rightarrow> u64 \<Rightarrow> u64 \<Rightarrow> 32 word \<Rightarrow> u32 \<Rightarrow> bool \<Rightarrow> 'w sb_state \<Rightarrow> sb_error + membership_tier \<times> 'w sb_state" where
  "sb_update_tier e admin tier_id name price period trial flags bps active s =
     and_then (require_auth SbAuth e admin) (\<lambda>_.
     and_then (sb_assert_admin admin s) (\<lambda>_.
     and_then (sb_validate_tier_terms name price period bps) (\<lambda>_.
     and_then (sb_load_tier tier_id s) (\<lambda>tier.
     let tier = tier\<lparr>mt_name := name, mt_price_per_period := price, mt_period_seconds := period, mt_trial_seconds := trial,
           mt_benefit_flags := flags, mt_referral_reward_bps := bps, mt_active := active, mt_updated_at := env_timestamp e\<rparr> in
     Inr (tier, s\<lparr>sb_tier := (sb_tier s)(tier_id \<mapsto> tier)\<rparr>)))))"

definition sb_subscribe ::
  "'w token_transfer \<Rightarrow> env \<Rightarrow> address \<Rightarrow> address \<Rightarrow> u32 \<Rightarrow> bool \<Rightarrow> address option \<Rightarrow> 'w sb_state \<Rightarrow> sb_error + subscription \<times> 'w sb_state" where
  "sb_subscribe tr e member tok tier_id auto_renew referrer s =
     and_then (require_auth SbAuth e member) (\<lambda>_.
     and_then (sb_load_active_tier tier_id s) (\<lambda>tier.
     and_then (case sb_subscription s member of
         None \<Rightarrow> Inr ()
       | Some existing \<Rightarrow> panic_if (sb_is_non_terminal (su_status existing)) SbAlreadySubscribed) (\<lambda>_.
     and_then (panic_if (referrer = Some member) SbSelfReferral) (\<lambda>_.
     let now = env_timestamp e; has_trial = mt_trial_seconds tier > 0 in
     and_then (ok_or SbOverflow (checked_add_u64 now (if has_trial then mt_trial_seconds tier else mt_period_seconds tier))) (\<lambda>period_end.
     let su = \<lparr>su_member = member, su_tier_id = tier_id, su_token = tok, su_status = (if has_trial then Trial else Active),
           su_auto_renew = auto_renew, su_started_at = now, su_current_period_start = now, su_current_period_end = period_end,
           su_trial_end = (if has_trial then period_end else 0), su_paused_at = 0, su_paused_accumulated_seconds = 0,
           su_referrer = referrer, su_total_paid = 0, su_total_referral_rewards = 0, su_updated_at = now\<rparr> in
     and_then (if has_trial then Inr (su, s)
       else and_then (sb_charge_member_direct tr e member tok tier su s) (\<lambda>((reward, su), s).
            and_then (sb_record_revenue (mt_price_per_period tier) reward s) (\<lambda>s. Inr (su, s)))) (\<lambda>(su, s).
     and_then (sb_record_subscription_created (sb_put member su s)) (\<lambda>s.
     Inr (su, s))))))))"

definition sb_renewed :: "subscription \<Rightarrow> i128 \<Rightarrow> i128 \<Rightarrow> renewal_result" where
  "sb_renewed su charged reward = \<lparr>rr_charged_amount = charged, rr_referral_reward = reward, rr_period_start = su_current_period_start su,
     rr_period_end = su_current_period_end su, rr_status = su_status su\<rparr>"

definition sb_renew_subscription ::
  "'w token_transfer \<Rightarrow> 'w token_transfer_from \<Rightarrow> 'w token_balance \<Rightarrow> 'w token_allowance \<Rightarrow> env \<Rightarrow> address \<Rightarrow> 'w sb_state \<Rightarrow>
   sb_error + renewal_result \<times> 'w sb_state" where
  "sb_renew_subscription tr tf bal alw e member s =
     and_then (sb_load_subscription member s) (\<lambda>su.
     and_then (panic_if (su_status su = Paused) SbPausedCannotRenew) (\<lambda>_.
     and_then (panic_if (\<not> sb_is_non_terminal (su_status su)) SbNotRenewable) (\<lambda>_.
     and_then (panic_if (env_timestamp e < su_current_period_end su) SbNotDue) (\<lambda>_.
     and_then (sb_load_active_tier (su_tier_id su) s) (\<lambda>tier.
     if \<not> su_auto_renew su then
       and_then (sb_expire_subscription e su s) (\<lambda>(su, s). Inr (sb_renewed su 0 0, s))
     else if alw (sb_tokens s) (su_token su) member (env_self e) < mt_price_per_period tier
         \<or> bal (sb_tokens s) (su_token su) member < mt_price_per_period tier then
       and_then (sb_expire_subscription e su s) (\<lambda>(su, s). Inr (sb_renewed su 0 0, s))
     else
       and_then (sb_pull_payment tf e (su_token su) member (mt_price_per_period tier) s) (\<lambda>s.
       and_then (sb_pay_referral_reward tr e tier su s) (\<lambda>((reward, su), s).
       and_then (ok_or SbOverflow (checked_add_i128 (su_total_paid su) (mt_price_per_period tier))) (\<lambda>p.
       and_then (ok_or SbOverflow (checked_add_u64 (env_timestamp e) (mt_period_seconds tier))) (\<lambda>period_end.
       let su = su\<lparr>su_total_paid := p, su_status := Active, su_current_period_start := env_timestamp e,
             su_current_period_end := period_end, su_trial_end := 0, su_updated_at := env_timestamp e\<rparr> in
       and_then (sb_record_revenue (mt_price_per_period tier) reward (sb_put member su s)) (\<lambda>s.
       Inr (sb_renewed su (mt_price_per_period tier) reward, s)))))))))))"

definition sb_cancel_subscription ::
  "'w token_transfer \<Rightarrow> env \<Rightarrow> address \<Rightarrow> 'w sb_state \<Rightarrow> sb_error + i128 \<times> 'w sb_state" where
  "sb_cancel_subscription tr e member s =
     and_then (require_auth SbAuth e member) (\<lambda>_.
     and_then (sb_load_subscription member s) (\<lambda>su.
     and_then (panic_if (\<not> sb_is_non_terminal (su_status su)) SbAlreadyTerminal) (\<lambda>_.
     and_then (sb_unused_period_value e su s) (\<lambda>refund.
     let su = su\<lparr>su_status := Cancelled, su_auto_renew := False, su_updated_at := env_timestamp e\<rparr> in
     and_then (sb_record_cancelled refund (sb_put member su s)) (\<lambda>s.
     and_then (if refund > 0 then sb_transfer_token tr e (su_token su) (env_self e) member refund s else Inr s) (\<lambda>s.
     Inr (refund, s)))))))"

definition sb_pause_subscription :: "env \<Rightarrow> address \<Rightarrow> 'w sb_state \<Rightarrow> sb_error + unit \<times> 'w sb_state" where
  "sb_pause_subscription e member s =
     and_then (require_auth SbAuth e member) (\<lambda>_.
     and_then (sb_load_subscription member s) (\<lambda>su.
     and_then (panic_if (su_status su \<noteq> Active \<and> su_status su \<noteq> Trial) SbCannotBePaused) (\<lambda>_.
     let su = su\<lparr>su_status := Paused, su_paused_at := env_timestamp e, su_updated_at := env_timestamp e\<rparr> in
     and_then (sb_record_paused (sb_put member su s)) (\<lambda>s. Inr ((), s)))))"

definition sb_resume_subscription :: "env \<Rightarrow> address \<Rightarrow> 'w sb_state \<Rightarrow> sb_error + subscription \<times> 'w sb_state" where
  "sb_resume_subscription e member s =
     and_then (require_auth SbAuth e member) (\<lambda>_.
     and_then (sb_load_subscription member s) (\<lambda>su.
     and_then (panic_if (su_status su \<noteq> Paused) SbNotPaused) (\<lambda>_.
     let now = env_timestamp e in
     and_then (ok_or SbOverflow (checked_sub_u now (su_paused_at su))) (\<lambda>paused_duration.
     and_then (ok_or SbOverflow (checked_add_u64 (su_paused_accumulated_seconds su) paused_duration)) (\<lambda>acc.
     and_then (ok_or SbOverflow (checked_add_u64 (su_current_period_end su) paused_duration)) (\<lambda>period_end.
     and_then (if su_trial_end su \<ge> su_paused_at su \<and> su_trial_end su > 0
         then ok_or SbOverflow (checked_add_u64 (su_trial_end su) paused_duration) else Inr (su_trial_end su)) (\<lambda>trial_end.
     let su = su\<lparr>su_paused_accumulated_seconds := acc, su_current_period_end := period_end, su_trial_end := trial_end,
           su_status := (if trial_end > now then Trial else Active), su_paused_at := 0, su_updated_at := now\<rparr> in
     Inr (su, sb_record_resumed (sb_put member su s)))))))))"

text \<open>The two payments of a tier change: the charge, booked as revenue without a referral reward, and the refund.\<close>

definition sb_collect_charge ::
  "'w token_transfer \<Rightarrow> env \<Rightarrow> address \<Rightarrow> i128 \<Rightarrow> subscription \<Rightarrow> 'w sb_state \<Rightarrow> sb_error + subscription \<times> 'w sb_state" where
  "sb_collect_charge tr e member charge su s =
     (if charge > 0 then
        and_then (sb_transfer_token tr e (su_token su) member (env_self e) charge s) (\<lambda>s.
        and_then (ok_or SbOverflow (checked_add_i128 (su_total_paid su) charge)) (\<lambda>p.
        and_then (sb_record_revenue charge 0 s) (\<lambda>s. Inr (su\<lparr>su_total_paid := p\<rparr>, s))))
      else Inr (su, s))"

definition sb_pay_refund ::
  "'w token_transfer \<Rightarrow> env \<Rightarrow> address \<Rightarrow> address \<Rightarrow> i128 \<Rightarrow> 'w sb_state \<Rightarrow> sb_error + 'w sb_state" where
  "sb_pay_refund tr e tok member refund s =
     (if refund > 0 then
        and_then (sb_transfer_token tr e tok (env_self e) member refund s) (\<lambda>s. sb_record_refund refund s)
      else Inr s)"

definition sb_change_tier ::
  "'w token_transfer \<Rightarrow> env \<Rightarrow> address \<Rightarrow> u32 \<Rightarrow> 'w sb_state \<Rightarrow> sb_error + tier_change_result \<times> 'w sb_state" where
  "sb_change_tier tr e member new_tier_id s =
     and_then (require_auth SbAuth e member) (\<lambda>_.
     and_then (sb_load_subscription member s) (\<lambda>su.
     and_then (panic_if (su_status su \<noteq> Active \<and> su_status su \<noteq> Trial) SbNotActive) (\<lambda>_.
     and_then (sb_load_tier (su_tier_id su) s) (\<lambda>old_tier.
     and_then (sb_load_active_tier new_tier_id s) (\<lambda>new_tier.
     and_then (sb_quote_proration_inner e su new_tier s) (\<lambda>quote.
     and_then (sb_collect_charge tr e member (pq_charge_amount quote) su s) (\<lambda>(su, s).
     and_then (sb_pay_refund tr e (su_token su) member (pq_refund_amount quote) s) (\<lambda>s.
     let now = env_timestamp e in
     and_then (ok_or SbOverflow (checked_add_u64 now (mt_period_seconds new_tier))) (\<lambda>period_end.
     let su = su\<lparr>su_tier_id := new_tier_id, su_status := Active, su_current_period_start := now, su_current_period_end := period_end,
           su_trial_end := 0, su_updated_at := now\<rparr> in
     Inr (\<lparr>tc_old_tier_id = mt_tier_id old_tier, tc_new_tier_id = new_tier_id, tc_charge_amount = pq_charge_amount quote,
           tc_refund_amount = pq_refund_amount quote, tc_period_start = su_current_period_start su,
           tc_period_end = su_current_period_end su\<rparr>, sb_put member su s))))))))))"

section \<open>Views\<close>

definition sb_quote_tier_change :: "env \<Rightarrow> address \<Rightarrow> u32 \<Rightarrow> 'w sb_state \<Rightarrow> sb_error + proration_quote" where
  "sb_quote_tier_change e member new_tier_id s =
     and_then (sb_load_subscription member s) (\<lambda>su.
     and_then (sb_load_active_tier new_tier_id s) (\<lambda>new_tier. sb_quote_proration_inner e su new_tier s))"

definition sb_is_active :: "env \<Rightarrow> address \<Rightarrow> 'w sb_state \<Rightarrow> bool" where
  "sb_is_active e member s =
     (case sb_subscription s member of
        None \<Rightarrow> False
      | Some su \<Rightarrow>
          if su_status su \<noteq> Active \<and> su_status su \<noteq> Trial then False else env_timestamp e \<le> su_current_period_end su)"

definition sb_has_benefit :: "env \<Rightarrow> address \<Rightarrow> 32 word \<Rightarrow> 'w sb_state \<Rightarrow> sb_error + bool" where
  "sb_has_benefit e member benefit_flag s =
     (if benefit_flag = 0 then Inr False
      else if \<not> sb_is_active e member s then Inr False
      else and_then (sb_load_subscription member s) (\<lambda>su.
        and_then (sb_load_tier (su_tier_id su) s) (\<lambda>tier.
        Inr (mt_benefit_flags tier AND benefit_flag = benefit_flag))))"

primrec sb_load_tiers :: "u32 list \<Rightarrow> 'w sb_state \<Rightarrow> sb_error + membership_tier list" where
  "sb_load_tiers [] s = Inr []"
| "sb_load_tiers (i # is) s = and_then (sb_load_tier i s) (\<lambda>t. and_then (sb_load_tiers is s) (\<lambda>ts. Inr (t # ts)))"

definition sb_get_tiers :: "'w sb_state \<Rightarrow> sb_error + membership_tier list" where
  "sb_get_tiers s = sb_load_tiers (sb_tier_ids s) s"

section \<open>Calls\<close>

datatype sb_call =
    SbInitialize address
  | SbCreateTier address u32 string i128 u64 u64 "32 word" u32
  | SbUpdateTier address u32 string i128 u64 u64 "32 word" u32 bool
  | SbSubscribe address address u32 bool "address option"
  | SbRenew address
  | SbCancel address
  | SbPause address
  | SbResume address
  | SbChangeTier address u32

fun sb_exec ::
  "'w token_transfer \<Rightarrow> 'w token_transfer_from \<Rightarrow> 'w token_balance \<Rightarrow> 'w token_allowance \<Rightarrow> env \<Rightarrow> sb_call \<Rightarrow> 'w sb_state \<Rightarrow> 'w sb_state option" where
  "sb_exec tr tf bal alw e (SbInitialize a) s = state_of (sb_initialize e a s)"
| "sb_exec tr tf bal alw e (SbCreateTier a i n p d t f b) s = state_of (sb_create_tier e a i n p d t f b s)"
| "sb_exec tr tf bal alw e (SbUpdateTier a i n p d t f b v) s = state_of (sb_update_tier e a i n p d t f b v s)"
| "sb_exec tr tf bal alw e (SbSubscribe m k i r g) s = state_of (sb_subscribe tr e m k i r g s)"
| "sb_exec tr tf bal alw e (SbRenew m) s = state_of (sb_renew_subscription tr tf bal alw e m s)"
| "sb_exec tr tf bal alw e (SbCancel m) s = state_of (sb_cancel_subscription tr e m s)"
| "sb_exec tr tf bal alw e (SbPause m) s = state_of (sb_pause_subscription e m s)"
| "sb_exec tr tf bal alw e (SbResume m) s = state_of (sb_resume_subscription e m s)"
| "sb_exec tr tf bal alw e (SbChangeTier m i) s = state_of (sb_change_tier tr e m i s)"

end
