(* ===== verification/Membership_Correct.thy ===== *)
theory Membership_Correct
  imports Membership
begin

text \<open>
  The invariant of the membership contract and the proof that every call preserves it: the terms of
  the tiers, the counters against the stored subscriptions, the referral totals, and the money received
  against what the contract holds. \<open>sb_pay\<close> is what the token calls of one operation do.
\<close>

section \<open>Inversion of the helpers\<close>

interpretation sbg: reentrancy_guard sb_enter_non_reentrant sb_exit_non_reentrant sb_locked
  by unfold_locales (auto simp: sb_enter_non_reentrant_def sb_exit_non_reentrant_def sb_locked_def result_iffs)

lemma sb_assert_admin_Inr [result_iffs]: "sb_assert_admin a s = Inr u \<longleftrightarrow> sb_admin s = Some a"
  by (auto simp: sb_assert_admin_def result_iffs)

lemma sb_load_tier_Inr [result_iffs]: "sb_load_tier i s = Inr t \<longleftrightarrow> i \<noteq> 0 \<and> sb_tier s i = Some t"
  by (auto simp: sb_load_tier_def result_iffs)

lemma sb_load_active_tier_Inr [result_iffs]:
  "sb_load_active_tier i s = Inr t \<longleftrightarrow> i \<noteq> 0 \<and> sb_tier s i = Some t \<and> mt_active t"
  by (auto simp: sb_load_active_tier_def result_iffs)

lemma sb_load_subscription_Inr [result_iffs]: "sb_load_subscription m s = Inr su \<longleftrightarrow> sb_subscription s m = Some su"
  by (simp add: sb_load_subscription_def result_iffs)

lemma sb_validate_tier_terms_Inr [result_iffs]:
  "sb_validate_tier_terms n p d b = Inr u \<longleftrightarrow> length n \<le> MAX_TIER_NAME_LENGTH \<and> 0 < p \<and> 0 < d \<and> b \<le> MAX_REFERRAL_REWARD_BPS"
  by (auto simp: sb_validate_tier_terms_def result_iffs)

lemma sb_transfer_token_Inr [result_iffs]:
  "sb_transfer_token tr e tok src dst n s = Inr s' \<longleftrightarrow>
   0 < n \<and> \<not> sb_locked s \<and> (\<exists>w. tr e tok src dst n (sb_tokens s) = Some w \<and> s' = s\<lparr>sb_tokens := w, sb_reentrancy_lock := Some False\<rparr>)"
  by (auto simp: sb_transfer_token_def sb_enter_non_reentrant_def sb_exit_non_reentrant_def result_iffs)

lemma sb_pull_payment_Inr [result_iffs]:
  "sb_pull_payment tf e tok m n s = Inr s' \<longleftrightarrow>
   \<not> sb_locked s \<and> (\<exists>w. tf e tok (env_self e) m (env_self e) n (sb_tokens s) = Some w \<and> s' = s\<lparr>sb_tokens := w, sb_reentrancy_lock := Some False\<rparr>)"
  by (auto simp: sb_pull_payment_def sb_enter_non_reentrant_def sb_exit_non_reentrant_def result_iffs)

lemma sb_put_simps [simp]:
  "sb_subscription (sb_put m su s) = (sb_subscription s)(m \<mapsto> su)"
  "sb_admin (sb_put m su s) = sb_admin s" "sb_tier (sb_put m su s) = sb_tier s" "sb_tier_ids_key (sb_put m su s) = sb_tier_ids_key s"
  "sb_analytics_key (sb_put m su s) = sb_analytics_key s" "sb_referral_rewards_key (sb_put m su s) = sb_referral_rewards_key s"
  "sb_reentrancy_lock (sb_put m su s) = sb_reentrancy_lock s" "sb_tokens (sb_put m su s) = sb_tokens s"
  "sb_analytics (sb_put m su s) = sb_analytics s" "sb_locked (sb_put m su s) = sb_locked s"
  by (simp_all add: sb_put_def sb_analytics_def sb_locked_def)

lemma sb_set_analytics_simps [simp]:
  "sb_subscription (sb_set_analytics a s) = sb_subscription s"
  "sb_admin (sb_set_analytics a s) = sb_admin s" "sb_tier (sb_set_analytics a s) = sb_tier s"
  "sb_tier_ids_key (sb_set_analytics a s) = sb_tier_ids_key s" "sb_analytics_key (sb_set_analytics a s) = Some a"
  "sb_referral_rewards_key (sb_set_analytics a s) = sb_referral_rewards_key s"
  "sb_reentrancy_lock (sb_set_analytics a s) = sb_reentrancy_lock s" "sb_tokens (sb_set_analytics a s) = sb_tokens s"
  "sb_analytics (sb_set_analytics a s) = a" "sb_locked (sb_set_analytics a s) = sb_locked s"
  by (simp_all add: sb_set_analytics_def sb_analytics_def sb_locked_def)

lemma sb_set_put: "sb_set_analytics a (sb_put m su s) = sb_put m su (sb_set_analytics a s)"
  by (simp add: sb_put_def sb_set_analytics_def)

lemma sb_record_Inr [result_iffs]:
  "sb_record_subscription_created s = Inr s' \<longleftrightarrow> sa_total_subscriptions (sb_analytics s) + 1 \<le> u64_max
     \<and> sa_active_subscriptions (sb_analytics s) + 1 \<le> u64_max
     \<and> s' = sb_set_analytics ((sb_analytics s)\<lparr>sa_total_subscriptions := sa_total_subscriptions (sb_analytics s) + 1,
         sa_active_subscriptions := sa_active_subscriptions (sb_analytics s) + 1\<rparr>) s"
  "sb_record_revenue n r s = Inr s' \<longleftrightarrow> in_i128 (sa_total_revenue (sb_analytics s) + n) \<and> in_i128 (sa_total_referral_rewards (sb_analytics s) + r)
     \<and> s' = sb_set_analytics ((sb_analytics s)\<lparr>sa_total_revenue := sa_total_revenue (sb_analytics s) + n,
         sa_total_referral_rewards := sa_total_referral_rewards (sb_analytics s) + r\<rparr>) s"
  "sb_record_refund n s = Inr s' \<longleftrightarrow> in_i128 (sa_total_refunds (sb_analytics s) + n)
     \<and> s' = sb_set_analytics ((sb_analytics s)\<lparr>sa_total_refunds := sa_total_refunds (sb_analytics s) + n\<rparr>) s"
  "sb_record_cancelled n s = Inr s' \<longleftrightarrow> sa_cancelled_subscriptions (sb_analytics s) + 1 \<le> u64_max \<and> in_i128 (sa_total_refunds (sb_analytics s) + n)
     \<and> s' = sb_set_analytics ((sb_analytics s)\<lparr>sa_cancelled_subscriptions := sa_cancelled_subscriptions (sb_analytics s) + 1,
         sa_active_subscriptions := sa_active_subscriptions (sb_analytics s) - 1, sa_total_refunds := sa_total_refunds (sb_analytics s) + n\<rparr>) s"
  "sb_record_expired s = Inr s' \<longleftrightarrow> sa_expired_subscriptions (sb_analytics s) + 1 \<le> u64_max
     \<and> s' = sb_set_analytics ((sb_analytics s)\<lparr>sa_expired_subscriptions := sa_expired_subscriptions (sb_analytics s) + 1,
         sa_active_subscriptions := sa_active_subscriptions (sb_analytics s) - 1\<rparr>) s"
  "sb_record_paused s = Inr s' \<longleftrightarrow> sa_paused_subscriptions (sb_analytics s) + 1 \<le> u64_max
     \<and> s' = sb_set_analytics ((sb_analytics s)\<lparr>sa_paused_subscriptions := sa_paused_subscriptions (sb_analytics s) + 1\<rparr>) s"
  by (auto simp: sb_record_subscription_created_def sb_record_revenue_def sb_record_refund_def sb_record_cancelled_def sb_record_expired_def
      sb_record_paused_def Let_def result_iffs saturating_sub_u64_def)

section \<open>Payments\<close>

text \<open>What the contract holds of the accepted tokens.\<close>

definition sb_held :: "'w token_balance \<Rightarrow> address \<Rightarrow> address set \<Rightarrow> 'w \<Rightarrow> int" where
  "sb_held bal self T w = (\<Sum>t\<in>T. bal w t self)"

definition sb_rewards_ok :: "(address \<Rightarrow> i128 option) \<Rightarrow> bool" where
  "sb_rewards_ok m \<longleftrightarrow> finite (dom m) \<and> (\<forall>k v. m k = Some v \<longrightarrow> 0 \<le> v)"

text \<open>The token calls of an operation: at least \<open>d\<close> came in on balance, \<open>r\<close> was credited to referrers, nothing else changed.\<close>

definition sb_pay :: "'w token_balance \<Rightarrow> address \<Rightarrow> address set \<Rightarrow> int \<Rightarrow> int \<Rightarrow> 'w sb_state \<Rightarrow> 'w sb_state \<Rightarrow> bool" where
  "sb_pay bal self T d r s s' \<longleftrightarrow>
     (\<exists>w m l. s' = s\<lparr>sb_tokens := w, sb_referral_rewards_key := m, sb_reentrancy_lock := l\<rparr> \<and> \<not> sb_locked s'
        \<and> (sb_rewards_ok (sb_referral_rewards_key s) \<longrightarrow> sb_rewards_ok m \<and> entry_sum id m = entry_sum id (sb_referral_rewards_key s) + r)
        \<and> 0 \<le> r \<and> sb_held bal self T (sb_tokens s) + d \<le> sb_held bal self T w)"

lemma sb_pay_refl: "\<not> sb_locked s \<Longrightarrow> sb_pay bal self T 0 0 s s"
  unfolding sb_pay_def by (rule exI [of _ "sb_tokens s"], rule exI [of _ "sb_referral_rewards_key s"], rule exI [of _ "sb_reentrancy_lock s"]) simp

lemma sb_pay_trans:
  assumes "sb_pay bal self T d r s s1" and "sb_pay bal self T d' r' s1 s2"
  shows "sb_pay bal self T (d + d') (r + r') s s2"
proof -
  from assms(1) obtain w m l where 1: "s1 = s\<lparr>sb_tokens := w, sb_referral_rewards_key := m, sb_reentrancy_lock := l\<rparr>" "0 \<le> r"
      "sb_rewards_ok (sb_referral_rewards_key s) \<longrightarrow> sb_rewards_ok m \<and> entry_sum id m = entry_sum id (sb_referral_rewards_key s) + r"
      "sb_held bal self T (sb_tokens s) + d \<le> sb_held bal self T w" by (auto simp: sb_pay_def)
  from assms(2) 1(1) obtain w' m' l' where 2: "s2 = s\<lparr>sb_tokens := w', sb_referral_rewards_key := m', sb_reentrancy_lock := l'\<rparr>" "\<not> sb_locked s2" "0 \<le> r'"
      "sb_rewards_ok m \<longrightarrow> sb_rewards_ok m' \<and> entry_sum id m' = entry_sum id m + r'"
      "sb_held bal self T w + d' \<le> sb_held bal self T w'" by (auto simp: sb_pay_def)
  show ?thesis unfolding sb_pay_def
    by (rule exI [of _ w'], rule exI [of _ m'], rule exI [of _ l']) (use 1 2 in auto)
qed

text \<open>The fields a payment leaves alone.\<close>

lemma sb_pay_frame:
  assumes "sb_pay bal self T d r s s'"
  shows "sb_admin s' = sb_admin s" and "sb_tier s' = sb_tier s" and "sb_tier_ids_key s' = sb_tier_ids_key s"
    and "sb_subscription s' = sb_subscription s" and "sb_analytics_key s' = sb_analytics_key s" and "sb_analytics s' = sb_analytics s" and "\<not> sb_locked s'"
  using assms by (auto simp: sb_pay_def sb_analytics_def)

lemma sb_rewards_credit:
  assumes "sb_rewards_ok m" and "0 \<le> r"
  shows "sb_rewards_ok (m(k \<mapsto> unwrap_or 0 (m k) + r)) \<and> entry_sum id (m(k \<mapsto> unwrap_or 0 (m k) + r)) = entry_sum id m + r"
  using assms by (auto simp: sb_rewards_ok_def entry_sum_upd split: option.splits intro: add_nonneg_nonneg)

context spender_token
begin

lemma sb_held_transfer:
  assumes "transfer e tok src dst n w = Some w'" and "finite T" and "tok \<in> T"
  shows "sb_held balance self T w' = sb_held balance self T w + (if dst = self then n else 0) - (if src = self then n else 0)"
  using assms(2,3) by (simp add: sb_held_def transfer_moves [OF assms(1)] sum.distrib sum_subtractf sum.delta if_bool_eq_conj)

lemma sb_held_transfer_from:
  assumes "transfer_from e tok sp src dst n w = Some w'" and "finite T" and "tok \<in> T"
  shows "sb_held balance self T w' = sb_held balance self T w + (if dst = self then n else 0) - (if src = self then n else 0)"
  using assms(2,3) by (simp add: sb_held_def transfer_from_moves [OF assms(1)] sum.distrib sum_subtractf sum.delta if_bool_eq_conj)

lemma sb_pay_tokens:
  "s' = s\<lparr>sb_tokens := w, sb_reentrancy_lock := Some False\<rparr> \<Longrightarrow> sb_held balance self T (sb_tokens s) + d \<le> sb_held balance self T w \<Longrightarrow>
   sb_pay balance self T d 0 s s'"
  unfolding sb_pay_def
  by (rule exI [of _ w], rule exI [of _ "sb_referral_rewards_key s"], rule exI [of _ "Some False"]) (simp add: sb_locked_def)

lemma sb_pay_in:
  assumes "sb_transfer_token transfer e tok m self n s = Inr s'" and "m \<noteq> self" and "finite T" and "tok \<in> T"
  shows "sb_pay balance self T n 0 s s'"
  using assms(1) by (auto simp: sb_transfer_token_Inr sb_held_transfer [OF _ assms(3,4)] assms(2) intro!: sb_pay_tokens)

lemma sb_pay_out:
  assumes "sb_transfer_token transfer e tok self x n s = Inr s'" and "finite T" and "tok \<in> T"
  shows "sb_pay balance self T (- n) 0 s s'"
  using assms(1) by (auto simp: sb_transfer_token_Inr sb_held_transfer [OF _ assms(2,3)] intro!: sb_pay_tokens)

lemma sb_pay_pull:
  assumes "sb_pull_payment transfer_from e tok m n s = Inr s'" and "env_self e = self" and "m \<noteq> self" and "finite T" and "tok \<in> T"
  shows "sb_pay balance self T n 0 s s'"
  using assms(1) by (auto simp: sb_pull_payment_Inr assms(2,3) sb_held_transfer_from [OF _ assms(4,5)] intro!: sb_pay_tokens)

text \<open>A referral reward goes out and is credited.\<close>

lemma sb_pay_reward:
  assumes run: "sb_pay_referral_reward transfer e tier su s = Inr ((r, su'), s')" and "env_self e = self" and "finite T" and "su_token su \<in> T" and "\<not> sb_locked s"
  shows "sb_pay balance self T (- r) r s s'" and "0 \<le> r" and "su' = su\<lparr>su_total_referral_rewards := su_total_referral_rewards su + r\<rparr>"
proof -
  consider (none) "r = 0" "su' = su" "s' = s"
    | (paid) x s1 where "0 < r" "su' = su\<lparr>su_total_referral_rewards := su_total_referral_rewards su + r\<rparr>"
        "sb_transfer_token transfer e (su_token su) self x r s = Inr s1"
        "s' = s1\<lparr>sb_referral_rewards_key := (sb_referral_rewards_key s1)(x \<mapsto> sb_referral_rewards x s1 + r)\<rparr>"
    using run assms(2) by (auto simp: sb_pay_referral_reward_def Let_def and_then_eq_Inr ok_or_eq_Inr split: option.splits if_splits)
  then show "sb_pay balance self T (- r) r s s'" "0 \<le> r" "su' = su\<lparr>su_total_referral_rewards := su_total_referral_rewards su + r\<rparr>"
  proof (atomize (full), cases)
    case none
    then show "sb_pay balance self T (- r) r s s' \<and> 0 \<le> r \<and> su' = su\<lparr>su_total_referral_rewards := su_total_referral_rewards su + r\<rparr>"
      using sb_pay_refl [OF assms(5)] by simp
  next
    case paid
    have "sb_pay balance self T 0 r s1 s'"
      unfolding sb_pay_def
      by (rule exI [of _ "sb_tokens s1"], rule exI [of _ "sb_referral_rewards_key s'"], rule exI [of _ "sb_reentrancy_lock s1"])
         (use paid(1,3) in \<open>auto simp: paid(4) sb_referral_rewards_def sb_rewards_credit sb_transfer_token_Inr sb_locked_def\<close>)
    with sb_pay_trans [OF sb_pay_out [OF paid(3) assms(3,4)] this] paid
    show "sb_pay balance self T (- r) r s s' \<and> 0 \<le> r \<and> su' = su\<lparr>su_total_referral_rewards := su_total_referral_rewards su + r\<rparr>" by simp
  qed
qed

end

section \<open>The invariant\<close>

definition sb_tier_ok :: "u32 \<Rightarrow> membership_tier \<Rightarrow> bool" where
  "sb_tier_ok i t \<longleftrightarrow> i \<noteq> 0 \<and> mt_tier_id t = i \<and> 0 < mt_price_per_period t \<and> 0 < mt_period_seconds t
     \<and> mt_referral_reward_bps t \<le> MAX_REFERRAL_REWARD_BPS"

definition sb_tiers_ok :: "(u32 \<Rightarrow> membership_tier option) \<Rightarrow> bool" where
  "sb_tiers_ok T \<longleftrightarrow> (\<forall>i t. T i = Some t \<longrightarrow> sb_tier_ok i t)"

text \<open>
  A stored subscription: its key, its tier and its token are known; a trial has paid nothing and ends with its
  period, also while it is paused; a period that was paid for has no trial left.
\<close>

definition sb_sub_ok :: "(u32 \<Rightarrow> membership_tier option) \<Rightarrow> address set \<Rightarrow> u64 \<Rightarrow> address \<Rightarrow> subscription \<Rightarrow> bool" where
  "sb_sub_ok tiers T t m su \<longleftrightarrow> su_member su = m \<and> tiers (su_tier_id su) \<noteq> None \<and> su_token su \<in> T
     \<and> 0 \<le> su_total_paid su \<and> 0 \<le> su_total_referral_rewards su
     \<and> (su_status su = Trial \<longrightarrow> su_total_paid su = 0 \<and> su_trial_end su = su_current_period_end su)
     \<and> (su_status su = Active \<longrightarrow> su_trial_end su \<le> t)
     \<and> (su_status su = Paused \<longrightarrow> su_paused_at su \<le> t
          \<and> (su_paused_at su < su_trial_end su \<longrightarrow> su_total_paid su = 0 \<and> su_trial_end su = su_current_period_end su))"

abbreviation sb_live :: "subscription \<Rightarrow> int" where
  "sb_live su \<equiv> of_bool (sb_is_non_terminal (su_status su))"

abbreviation sb_pausing :: "subscription \<Rightarrow> int" where
  "sb_pausing su \<equiv> of_bool (su_status su = Paused)"

text \<open>The counters against the stored subscriptions. A paused subscription that is cancelled stays in the paused counter.\<close>

definition sb_counts_ok :: "subscription_analytics \<Rightarrow> (address \<Rightarrow> subscription option) \<Rightarrow> bool" where
  "sb_counts_ok a S \<longleftrightarrow> int (sa_active_subscriptions a) = entry_sum sb_live S
     \<and> entry_sum sb_pausing S \<le> int (sa_paused_subscriptions a)
     \<and> sa_total_subscriptions a = sa_active_subscriptions a + sa_cancelled_subscriptions a + sa_expired_subscriptions a"

definition sb_net :: "subscription_analytics \<Rightarrow> int" where
  "sb_net a = sa_total_revenue a - sa_total_refunds a - sa_total_referral_rewards a"

definition sb_inv :: "'w token_balance \<Rightarrow> address \<Rightarrow> address set \<Rightarrow> 'w \<Rightarrow> u64 \<Rightarrow> 'w sb_state \<Rightarrow> bool" where
  "sb_inv bal self T w t s \<longleftrightarrow>
     (sb_admin s = None \<longrightarrow> sb_tier s = (\<lambda>_. None) \<and> sb_subscription s = (\<lambda>_. None) \<and> sb_analytics_key s = None \<and> sb_referral_rewards_key s = (\<lambda>_. None))
     \<and> sb_tiers_ok (sb_tier s) \<and> distinct (sb_tier_ids s) \<and> set (sb_tier_ids s) = dom (sb_tier s)
     \<and> finite (dom (sb_subscription s)) \<and> sb_subscription s self = None
     \<and> (\<forall>m su. sb_subscription s m = Some su \<longrightarrow> sb_sub_ok (sb_tier s) T t m su)
     \<and> sb_counts_ok (sb_analytics s) (sb_subscription s)
     \<and> sb_rewards_ok (sb_referral_rewards_key s)
     \<and> sa_total_referral_rewards (sb_analytics s) = entry_sum id (sb_referral_rewards_key s)
     \<and> sb_held bal self T w + sb_net (sb_analytics s) \<le> sb_held bal self T (sb_tokens s)
     \<and> \<not> sb_locked s"

definition sb_adm :: "address \<Rightarrow> address set \<Rightarrow> env \<Rightarrow> sb_call \<Rightarrow> bool" where
  "sb_adm self T e c \<longleftrightarrow> env_self e = self \<and> \<not> env_auth e self \<and> (\<forall>m k i r g. c = SbSubscribe m k i r g \<longrightarrow> k \<in> T)"

definition sb_drift :: "'w token_balance \<Rightarrow> address \<Rightarrow> 'w sb_state \<Rightarrow> 'w sb_state \<Rightarrow> bool" where
  "sb_drift bal self s s' \<longleftrightarrow> (\<exists>w. s' = s\<lparr>sb_tokens := w\<rparr> \<and> (\<forall>tok. bal (sb_tokens s) tok self \<le> bal w tok self))"

lemma sb_inv_fresh: "sb_inv bal self T w 0 (sb_fresh w)"
  by (simp add: sb_inv_def sb_fresh_def sb_tiers_ok_def sb_tier_ids_def sb_counts_ok_def sb_analytics_def sb_empty_analytics_def sb_rewards_ok_def sb_net_def sb_locked_def)

lemma sb_sub_ok_later: "sb_sub_ok tiers T t m su \<Longrightarrow> t \<le> t' \<Longrightarrow> sb_sub_ok tiers T t' m su"
  by (auto simp: sb_sub_ok_def)

lemma sb_inv_later: "sb_inv bal self T w t s \<Longrightarrow> t \<le> t' \<Longrightarrow> sb_inv bal self T w t' s"
  unfolding sb_inv_def by (blast intro: sb_sub_ok_later)

lemma sb_inv_sub: "sb_inv bal self T w t s \<Longrightarrow> sb_subscription s m = Some su \<Longrightarrow> sb_sub_ok (sb_tier s) T t m su \<and> m \<noteq> self"
  by (auto simp: sb_inv_def)

lemma sb_inv_tier: "sb_inv bal self T w t s \<Longrightarrow> sb_tier s i = Some tier \<Longrightarrow> sb_tier_ok i tier"
  by (auto simp: sb_inv_def sb_tiers_ok_def)

lemma sb_inv_parts:
  assumes "sb_inv bal self T w t s"
  shows "\<not> sb_locked s" and "sa_total_subscriptions (sb_analytics s)
    = sa_active_subscriptions (sb_analytics s) + sa_cancelled_subscriptions (sb_analytics s) + sa_expired_subscriptions (sb_analytics s)"
  using assms by (simp_all add: sb_inv_def sb_counts_ok_def)

text \<open>A live subscription is counted, so the saturating decrements are exact.\<close>

lemma sb_counted:
  assumes "sb_inv bal self T w t s" and "sb_subscription s m = Some su"
  shows "sb_is_non_terminal (su_status su) \<Longrightarrow> 1 \<le> sa_active_subscriptions (sb_analytics s)"
    and "su_status su = Paused \<Longrightarrow> 1 \<le> sa_paused_subscriptions (sb_analytics s)"
proof -
  have "finite (dom (sb_subscription s))" using assms(1) by (simp add: sb_inv_def)
  note le = entry_sum_ge_entry [OF this assms(2)]
  show "1 \<le> sa_active_subscriptions (sb_analytics s)" if "sb_is_non_terminal (su_status su)"
    using le [of sb_live] that assms(1) by (simp add: sb_inv_def sb_counts_ok_def)
  show "1 \<le> sa_paused_subscriptions (sb_analytics s)" if "su_status su = Paused"
    using le [of sb_pausing] that assms(1) by (simp add: sb_inv_def sb_counts_ok_def)
qed

text \<open>
  One step of a subscription: it is stored anew, the token calls are \<open>sb_pay\<close>, and the analytics record
  changes by what was paid and by the old and the new status.
\<close>

definition sb_old :: "(subscription \<Rightarrow> int) \<Rightarrow> subscription option \<Rightarrow> int" where
  "sb_old f x = (case x of None \<Rightarrow> 0 | Some su \<Rightarrow> f su)"

lemma sb_old_simps [simp]: "sb_old f None = 0" "sb_old f (Some su) = f su"
  by (simp_all add: sb_old_def)

lemma sb_inv_step:
  assumes inv: "sb_inv bal self T w t s" and pay: "sb_pay bal self T d r s s1"
    and s': "s' = (sb_put m su s1)\<lparr>sb_analytics_key := k\<rparr>" "a = unwrap_or sb_empty_analytics k" and m: "m \<noteq> self" and adm: "sb_admin s \<noteq> None"
    and su: "sb_sub_ok (sb_tier s) T t m su"
    and net: "sb_net a = sb_net (sb_analytics s) + d" and rew: "sa_total_referral_rewards a = sa_total_referral_rewards (sb_analytics s) + r"
    and act: "int (sa_active_subscriptions a) = int (sa_active_subscriptions (sb_analytics s)) - sb_old sb_live (sb_subscription s m) + sb_live su"
    and pau: "int (sa_paused_subscriptions (sb_analytics s)) - sb_old sb_pausing (sb_subscription s m) + sb_pausing su \<le> int (sa_paused_subscriptions a)"
    and tot: "sa_total_subscriptions a = sa_active_subscriptions a + sa_cancelled_subscriptions a + sa_expired_subscriptions a"
  shows "sb_inv bal self T w t s'"
proof -
  have fin: "finite (dom (sb_subscription s))" using inv by (simp add: sb_inv_def)
  have "sb_counts_ok a ((sb_subscription s)(m \<mapsto> su))"
    using inv act pau tot by (simp add: sb_inv_def sb_counts_ok_def entry_sum_upd [OF fin] sb_old_def)
  moreover from pay inv have "sb_rewards_ok (sb_referral_rewards_key s1)"
      "entry_sum id (sb_referral_rewards_key s1) = entry_sum id (sb_referral_rewards_key s) + r"
      "sb_held bal self T (sb_tokens s) + d \<le> sb_held bal self T (sb_tokens s1)"
    by (auto simp: sb_pay_def sb_inv_def)
  ultimately show ?thesis
    using inv su m net rew adm sb_pay_frame [OF pay]
    by (auto simp: sb_inv_def s' sb_tier_ids_def sb_analytics_def sb_locked_def)
qed

section \<open>Every call preserves the invariant\<close>

lemma sb_inv_initialize:
  assumes "sb_inv bal self T w t s" and "sb_initialize e a s = Inr (u, s')"
  shows "sb_inv bal self T w t s'"
  using assms by (auto simp: sb_initialize_def result_iffs sb_inv_def sb_tiers_ok_def sb_tier_ids_def sb_counts_ok_def sb_analytics_def
      sb_empty_analytics_def sb_rewards_ok_def sb_net_def sb_locked_def)

lemma sb_sub_ok_tiers: "sb_sub_ok tiers T t m su \<Longrightarrow> sb_sub_ok (tiers(i \<mapsto> tier)) T t m su"
  by (auto simp: sb_sub_ok_def)

lemma sb_inv_set_tier:
  assumes "sb_inv bal self T w t s" and "sb_admin s \<noteq> None" and "sb_tier_ok i tier"
    and "s' = s\<lparr>sb_tier := (sb_tier s)(i \<mapsto> tier), sb_tier_ids_key := k\<rparr>"
    and "unwrap_or [] k = (if sb_tier s i = None then sb_tier_ids s @ [i] else sb_tier_ids s)"
  shows "sb_inv bal self T w t s'"
  using assms by (auto simp: sb_inv_def sb_tiers_ok_def sb_tier_ids_def sb_analytics_def sb_locked_def sb_sub_ok_tiers)

lemma sb_inv_create_tier:
  assumes "sb_inv bal self T w t s" and "sb_create_tier e a i n p d tr f b s = Inr (u, s')"
  shows "sb_inv bal self T w t s'"
  using assms(2)
  by (intro sb_inv_set_tier [OF assms(1), where i = i and k = "sb_tier_ids_key s'" and tier = "the (sb_tier s' i)"])
     (auto simp: sb_create_tier_def result_iffs Let_def sb_tier_ok_def sb_tier_ids_def)

lemma sb_inv_update_tier:
  assumes "sb_inv bal self T w t s" and "sb_update_tier e a i n p d tr f b v s = Inr (u, s')"
  shows "sb_inv bal self T w t s'"
  using assms(2) sb_inv_tier [OF assms(1), of i]
  by (intro sb_inv_set_tier [OF assms(1), where i = i and k = "sb_tier_ids_key s'" and tier = "the (sb_tier s' i)"])
     (auto simp: sb_update_tier_def result_iffs Let_def sb_tier_ok_def sb_tier_ids_def)

lemma sb_inv_admin: "sb_inv bal self T w t s \<Longrightarrow> sb_tier s i = Some tier \<Longrightarrow> sb_admin s \<noteq> None"
  by (auto simp: sb_inv_def sb_fresh_def)

lemma sb_inv_admin_sub: "sb_inv bal self T w t s \<Longrightarrow> sb_subscription s m = Some su \<Longrightarrow> sb_admin s \<noteq> None"
  by (auto simp: sb_inv_def sb_fresh_def)

lemma sb_inv_pause:
  assumes inv: "sb_inv bal self T w (env_timestamp e) s" and run: "sb_pause_subscription e m s = Inr (u, s')"
  shows "sb_inv bal self T w (env_timestamp e) s'"
proof -
  let ?t = "env_timestamp e" and ?a = "sb_analytics s"
  obtain su where su: "sb_subscription s m = Some su" and st: "su_status su = Active \<or> su_status su = Trial"
    and s': "s' = sb_set_analytics (?a\<lparr>sa_paused_subscriptions := sa_paused_subscriptions ?a + 1\<rparr>)
      (sb_put m (su\<lparr>su_status := Paused, su_paused_at := ?t, su_updated_at := ?t\<rparr>) s)"
    using run by (auto simp: sb_pause_subscription_def Let_def result_iffs)
  show ?thesis
    using sb_inv_sub [OF inv su] st su
    by (intro sb_inv_step [OF inv sb_pay_refl s' [unfolded sb_set_analytics_def] unwrap_or_Some [symmetric] _ sb_inv_admin_sub [OF inv su]])
       (auto simp: sb_sub_ok_def sb_net_def sb_is_non_terminal_def sb_inv_parts [OF inv])
qed

lemma sb_resume_Inr:
  assumes "sb_resume_subscription e m s = Inr (su', s')"
  obtains su where "env_auth e m" and "sb_subscription s m = Some su" and "su_status su = Paused" and "su_paused_at su \<le> env_timestamp e"
    and "su' = su\<lparr>su_paused_accumulated_seconds := su_paused_accumulated_seconds su + (env_timestamp e - su_paused_at su),
      su_current_period_end := su_current_period_end su + (env_timestamp e - su_paused_at su),
      su_trial_end := su_trial_end su + (if su_paused_at su \<le> su_trial_end su \<and> 0 < su_trial_end su then env_timestamp e - su_paused_at su else 0),
      su_status := (if su_paused_at su < su_trial_end su then Trial else Active), su_paused_at := 0, su_updated_at := env_timestamp e\<rparr>"
    and "s' = sb_set_analytics ((sb_analytics s)\<lparr>sa_paused_subscriptions := sa_paused_subscriptions (sb_analytics s) - 1\<rparr>) (sb_put m su' s)"
proof -
  obtain su where su: "env_auth e m" "sb_subscription s m = Some su" "su_status su = Paused" "su_paused_at su \<le> env_timestamp e"
    and "su' = su\<lparr>su_paused_accumulated_seconds := su_paused_accumulated_seconds su + (env_timestamp e - su_paused_at su),
      su_current_period_end := su_current_period_end su + (env_timestamp e - su_paused_at su),
      su_trial_end := su_trial_end su + (if su_paused_at su \<le> su_trial_end su \<and> 0 < su_trial_end su then env_timestamp e - su_paused_at su else 0),
      su_status := (if env_timestamp e < su_trial_end su + (if su_paused_at su \<le> su_trial_end su \<and> 0 < su_trial_end su then env_timestamp e - su_paused_at su else 0)
        then Trial else Active), su_paused_at := 0, su_updated_at := env_timestamp e\<rparr>"
    and s': "s' = sb_set_analytics ((sb_analytics s)\<lparr>sa_paused_subscriptions := sa_paused_subscriptions (sb_analytics s) - 1\<rparr>) (sb_put m su' s)"
    using assms by (cases "sb_subscription s m")
      (auto simp: sb_resume_subscription_def sb_record_resumed_def Let_def result_iffs saturating_sub_u64_def split: if_splits)
  moreover have "env_timestamp e < su_trial_end su + (if su_paused_at su \<le> su_trial_end su \<and> 0 < su_trial_end su then env_timestamp e - su_paused_at su else 0)
      \<longleftrightarrow> su_paused_at su < su_trial_end su" using su(4) by auto
  ultimately show thesis using that by auto
qed

lemma sb_inv_resume:
  assumes inv: "sb_inv bal self T w (env_timestamp e) s" and run: "sb_resume_subscription e m s = Inr (su', s')"
  shows "sb_inv bal self T w (env_timestamp e) s'"
  using run
proof (cases rule: sb_resume_Inr)
  case (1 su)
  show ?thesis
    using sb_inv_sub [OF inv 1(2)] sb_counted(2) [OF inv 1(2,3)] 1(2,3,4)
    by (intro sb_inv_step [OF inv sb_pay_refl 1(6) [unfolded sb_set_analytics_def] unwrap_or_Some [symmetric] _ sb_inv_admin_sub [OF inv 1(2)]])
       (auto simp: 1(5) sb_sub_ok_def sb_net_def sb_is_non_terminal_def sb_inv_parts [OF inv] of_nat_diff)
qed

lemma sb_expire_Inr:
  assumes inv: "sb_inv bal self T w (env_timestamp e) s" and su: "sb_subscription s m = Some su" and st: "sb_is_non_terminal (su_status su)"
    and run: "sb_expire_subscription e su s = Inr (su', s')"
  shows "su' = su\<lparr>su_status := Expired, su_auto_renew := False, su_updated_at := env_timestamp e\<rparr>"
    and "sb_subscription s' = (sb_subscription s)(m \<mapsto> su')" and "sb_tokens s' = sb_tokens s" and "sb_inv bal self T w (env_timestamp e) s'"
proof -
  let ?a = "sb_analytics s"
  have ok: "sb_sub_ok (sb_tier s) T (env_timestamp e) m su" "m \<noteq> self" using sb_inv_sub [OF inv su] by auto
  have su': "su' = su\<lparr>su_status := Expired, su_auto_renew := False, su_updated_at := env_timestamp e\<rparr>"
    and s': "s' = sb_set_analytics (?a\<lparr>sa_expired_subscriptions := sa_expired_subscriptions ?a + 1,
      sa_active_subscriptions := sa_active_subscriptions ?a - 1\<rparr>) (sb_put m su' s)"
    using run ok(1) by (auto simp: sb_expire_subscription_def Let_def result_iffs sb_sub_ok_def)
  show "su' = su\<lparr>su_status := Expired, su_auto_renew := False, su_updated_at := env_timestamp e\<rparr>" by (rule su')
  show "sb_subscription s' = (sb_subscription s)(m \<mapsto> su')" "sb_tokens s' = sb_tokens s" by (simp_all add: s')
  show "sb_inv bal self T w (env_timestamp e) s'"
    using ok su st sb_counted(1) [OF inv su st]
    by (intro sb_inv_step [OF inv sb_pay_refl s' [unfolded sb_set_analytics_def] unwrap_or_Some [symmetric] _ sb_inv_admin_sub [OF inv su]])
       (auto simp: su' sb_sub_ok_def sb_net_def sb_inv_parts [OF inv] sb_is_non_terminal_def of_nat_diff)
qed

lemma sb_unused_Inr:
  assumes "sb_unused_period_value e su s = Inr v"
  shows "su_status su = Trial \<or> su_current_period_end su \<le> env_timestamp e \<Longrightarrow> v = 0"
    and "su_status su \<noteq> Trial \<Longrightarrow> env_timestamp e < su_current_period_end su \<Longrightarrow> \<exists>tier. sb_tier s (su_tier_id su) = Some tier
       \<and> v = div_i128 (mt_price_per_period tier * int (su_current_period_end su - env_timestamp e)) (int (mt_period_seconds tier))"
  using assms by (auto simp: sb_unused_period_value_def result_iffs split: if_splits)

lemma sb_unused_nonneg:
  assumes "sb_inv bal self T w t s" and "sb_unused_period_value e su s = Inr v"
  shows "0 \<le> v"
proof (cases "su_status su = Trial \<or> su_current_period_end su \<le> env_timestamp e")
  case True
  with sb_unused_Inr(1) [OF assms(2)] show ?thesis by simp
next
  case False
  then obtain tier where tier: "sb_tier s (su_tier_id su) = Some tier"
      "v = div_i128 (mt_price_per_period tier * int (su_current_period_end su - env_timestamp e)) (int (mt_period_seconds tier))"
    using sb_unused_Inr(2) [OF assms(2)] by force
  with sb_inv_tier [OF assms(1) tier(1)] show ?thesis by (simp add: div_i128_nonneg pos_imp_zdiv_nonneg_iff sb_tier_ok_def)
qed

lemma sb_quote_Inr:
  assumes "sb_quote_proration_inner e su tier s = Inr q"
  obtains credit where "sb_unused_period_value e su s = Inr credit" and "pq_remaining_credit q = credit"
    and "pq_charge_amount q = max 0 (mt_price_per_period tier - credit)" and "pq_refund_amount q = max 0 (credit - mt_price_per_period tier)"
  using assms by (fastforce simp: sb_quote_proration_inner_def result_iffs split: if_splits)

text \<open>The subscription \<open>subscribe\<close> opens, before the first charge.\<close>

definition sb_opening :: "env \<Rightarrow> address \<Rightarrow> address \<Rightarrow> membership_tier \<Rightarrow> u32 \<Rightarrow> bool \<Rightarrow> address option \<Rightarrow> subscription" where
  "sb_opening e m tok tier i auto ref = \<lparr>su_member = m, su_tier_id = i, su_token = tok, su_status = (if mt_trial_seconds tier > 0 then Trial else Active),
     su_auto_renew = auto, su_started_at = env_timestamp e, su_current_period_start = env_timestamp e,
     su_current_period_end = env_timestamp e + (if mt_trial_seconds tier > 0 then mt_trial_seconds tier else mt_period_seconds tier),
     su_trial_end = (if mt_trial_seconds tier > 0 then env_timestamp e + mt_trial_seconds tier else 0), su_paused_at = 0,
     su_paused_accumulated_seconds = 0, su_referrer = ref, su_total_paid = 0, su_total_referral_rewards = 0, su_updated_at = env_timestamp e\<rparr>"

text \<open>Payments followed by an update of the analytics record, which is then \<open>a\<close>.\<close>

definition sb_booked :: "'w token_balance \<Rightarrow> address \<Rightarrow> address set \<Rightarrow> int \<Rightarrow> int \<Rightarrow> subscription_analytics \<Rightarrow> 'w sb_state \<Rightarrow> 'w sb_state \<Rightarrow> bool" where
  "sb_booked bal self T d r a s s' \<longleftrightarrow> (\<exists>s0 k. sb_pay bal self T d r s s0 \<and> s' = s0\<lparr>sb_analytics_key := k\<rparr> \<and> a = unwrap_or sb_empty_analytics k)"

lemma sb_pay_analytics:
  assumes "sb_pay bal self T d r (s\<lparr>sb_analytics_key := k\<rparr>) s'"
  obtains s0 where "sb_pay bal self T d r s s0" and "s' = s0\<lparr>sb_analytics_key := k\<rparr>"
proof -
  from assms obtain w m l where "s' = s\<lparr>sb_analytics_key := k, sb_tokens := w, sb_referral_rewards_key := m, sb_reentrancy_lock := l\<rparr>" "\<not> sb_locked s'"
      "sb_rewards_ok (sb_referral_rewards_key s) \<longrightarrow> sb_rewards_ok m \<and> entry_sum id m = entry_sum id (sb_referral_rewards_key s) + r"
      "0 \<le> r" "sb_held bal self T (sb_tokens s) + d \<le> sb_held bal self T w" by (auto simp: sb_pay_def)
  then show thesis
    by (intro that [of "s\<lparr>sb_tokens := w, sb_referral_rewards_key := m, sb_reentrancy_lock := l\<rparr>"]) (auto simp: sb_pay_def sb_locked_def)
qed

lemma sb_booked_trans:
  assumes "sb_booked bal self T d r a s s1" and "sb_booked bal self T d' r' a' s1 s2"
  shows "sb_booked bal self T (d + d') (r + r') a' s s2"
proof -
  from assms(1) obtain s0 k where 1: "sb_pay bal self T d r s s0" "s1 = s0\<lparr>sb_analytics_key := k\<rparr>" by (auto simp: sb_booked_def)
  from assms(2) obtain s3 k' where 2: "sb_pay bal self T d' r' (s0\<lparr>sb_analytics_key := k\<rparr>) s3" "s2 = s3\<lparr>sb_analytics_key := k'\<rparr>"
      "a' = unwrap_or sb_empty_analytics k'" by (auto simp: sb_booked_def 1(2))
  from 2(1) obtain s4 where 3: "sb_pay bal self T d' r' s0 s4" "s3 = s4\<lparr>sb_analytics_key := k\<rparr>" by (rule sb_pay_analytics)
  show ?thesis unfolding sb_booked_def
    by (rule exI [of _ s4], rule exI [of _ k']) (use sb_pay_trans [OF 1(1) 3(1)] 2 3 in simp)
qed

lemma sb_booked_pay: "sb_pay bal self T d r s s' \<Longrightarrow> sb_booked bal self T d r (sb_analytics s) s s'"
  unfolding sb_booked_def by (rule exI [of _ s'], rule exI [of _ "sb_analytics_key s"]) (simp add: sb_pay_frame sb_analytics_def)

lemma sb_booked_set:
  "sb_booked bal self T d r a s s' \<Longrightarrow> sb_booked bal self T d r a' s (sb_set_analytics a' s')"
  unfolding sb_booked_def by (elim exE conjE, rule exI, rule exI [of _ "Some a'"]) (auto simp: sb_set_analytics_def)

lemma sb_booked_frame:
  assumes "sb_booked bal self T d r a s s'"
  shows "sb_admin s' = sb_admin s" and "sb_tier s' = sb_tier s" and "sb_subscription s' = sb_subscription s" and "sb_analytics s' = a" and "\<not> sb_locked s'"
  using assms by (auto simp: sb_booked_def sb_pay_frame sb_analytics_def sb_locked_def dest: sb_pay_frame(7))

text \<open>The step lemma for a booked payment.\<close>

lemma sb_inv_booked:
  assumes inv: "sb_inv bal self T w t s" and book: "sb_booked bal self T d r a s s1" and "m \<noteq> self" and "sb_admin s \<noteq> None"
    and "sb_sub_ok (sb_tier s) T t m su" and "sb_net a = sb_net (sb_analytics s) + d"
    and "sa_total_referral_rewards a = sa_total_referral_rewards (sb_analytics s) + r"
    and "int (sa_active_subscriptions a) = int (sa_active_subscriptions (sb_analytics s)) - sb_old sb_live (sb_subscription s m) + sb_live su"
    and "int (sa_paused_subscriptions (sb_analytics s)) - sb_old sb_pausing (sb_subscription s m) + sb_pausing su \<le> int (sa_paused_subscriptions a)"
    and "sa_total_subscriptions a = sa_active_subscriptions a + sa_cancelled_subscriptions a + sa_expired_subscriptions a"
  shows "sb_inv bal self T w t (sb_put m su s1)"
proof -
  from book obtain s0 k where "sb_pay bal self T d r s s0" and s1: "s1 = s0\<lparr>sb_analytics_key := k\<rparr>" and a: "a = unwrap_or sb_empty_analytics k"
    by (auto simp: sb_booked_def)
  from sb_inv_step [OF inv this(1) refl a assms(3-10)]
  have "sb_inv bal self T w t ((sb_put m su s0)\<lparr>sb_analytics_key := k\<rparr>)" .
  also have "(sb_put m su s0)\<lparr>sb_analytics_key := k\<rparr> = sb_put m su s1" by (simp add: s1 sb_put_def)
  finally show ?thesis .
qed

context spender_token
begin

lemma sb_cancel_Inr:
  assumes inv: "sb_inv balance self T w (env_timestamp e) s" and "finite T" and "env_self e = self"
    and run: "sb_cancel_subscription transfer e m s = Inr (refund, s')"
  obtains su su' where "env_auth e m" and "sb_subscription s m = Some su" and "sb_is_non_terminal (su_status su)"
    and "sb_unused_period_value e su s = Inr refund" and "su' = su\<lparr>su_status := Cancelled, su_auto_renew := False, su_updated_at := env_timestamp e\<rparr>"
    and "sb_subscription s' = (sb_subscription s)(m \<mapsto> su')" and "sb_inv balance self T w (env_timestamp e) s'"
proof -
  let ?a = "sb_analytics s" and ?t = "env_timestamp e"
  obtain su su' s1 where su: "env_auth e m" "sb_subscription s m = Some su" "sb_is_non_terminal (su_status su)"
      "sb_unused_period_value e su s = Inr refund" and su': "su' = su\<lparr>su_status := Cancelled, su_auto_renew := False, su_updated_at := ?t\<rparr>"
    and s': "s' = (sb_put m su' s1)\<lparr>sb_analytics_key := Some (?a\<lparr>sa_cancelled_subscriptions := sa_cancelled_subscriptions ?a + 1,
      sa_active_subscriptions := sa_active_subscriptions ?a - 1, sa_total_refunds := sa_total_refunds ?a + refund\<rparr>)\<rparr>"
    and s1: "0 < refund \<and> sb_transfer_token transfer e (su_token su) self m refund s = Inr s1 \<or> refund \<le> 0 \<and> s1 = s"
  proof -
    define a where "a = ?a\<lparr>sa_cancelled_subscriptions := sa_cancelled_subscriptions ?a + 1,
        sa_active_subscriptions := sa_active_subscriptions ?a - 1, sa_total_refunds := sa_total_refunds ?a + refund\<rparr>"
    from run obtain su s2 where su: "env_auth e m" "sb_subscription s m = Some su" "sb_is_non_terminal (su_status su)"
        "sb_unused_period_value e su s = Inr refund"
      and s2: "s2 = sb_set_analytics a (sb_put m (su\<lparr>su_status := Cancelled, su_auto_renew := False, su_updated_at := ?t\<rparr>) s)"
      and pay: "(if 0 < refund then sb_transfer_token transfer e (su_token su) self m refund s2 else Inr s2) = Inr s'"
      unfolding a_def sb_cancel_subscription_def Let_def
      by (force simp: and_then_eq_Inr panic_if_eq_Inr require_auth_eq_Inr sb_load_subscription_Inr sb_record_Inr assms(3) simp del: One_nat_def sb_transfer_token_Inr split del: if_split cong: if_cong)
    show thesis
    proof (cases "0 < refund")
      case True
      with pay obtain w' where "transfer e (su_token su) self m refund (sb_tokens s) = Some w'" "\<not> sb_locked s"
          "s' = s2\<lparr>sb_tokens := w', sb_reentrancy_lock := Some False\<rparr>" by (auto simp: sb_transfer_token_Inr s2)
      with True su show ?thesis
        by (intro that [OF su refl, of "s\<lparr>sb_tokens := w', sb_reentrancy_lock := Some False\<rparr>"])
           (simp_all add: sb_transfer_token_Inr s2 sb_set_analytics_def sb_put_def a_def)
    next
      case False
      with pay su show ?thesis by (intro that [OF su refl, of s]) (simp_all add: s2 sb_set_analytics_def sb_put_def a_def)
    qed
  qed
  have ok: "sb_sub_ok (sb_tier s) T ?t m su" "m \<noteq> self" using sb_inv_sub [OF inv su(2)] by auto
  then have "su_token su \<in> T" by (simp add: sb_sub_ok_def)
  with s1 sb_unused_nonneg [OF inv su(4)] have pay: "sb_pay balance self T (- refund) 0 s s1"
    using sb_pay_out [OF _ assms(2)] sb_pay_refl [OF sb_inv_parts(1) [OF inv]] by auto
  have "sb_inv balance self T w ?t s'"
    using ok su(2,3) sb_counted(1) [OF inv su(2,3)]
    by (intro sb_inv_step [OF inv pay s' unwrap_or_Some [symmetric] _ sb_inv_admin_sub [OF inv su(2)]])
       (auto simp: su' sb_sub_ok_def sb_net_def sb_inv_parts [OF inv] sb_is_non_terminal_def of_nat_diff)
  moreover have "sb_subscription s' = (sb_subscription s)(m \<mapsto> su')" using sb_pay_frame(4) [OF pay] by (simp add: s')
  ultimately show thesis using that [OF su su'] by simp
qed

lemma sb_collect_booked:
  assumes inv: "\<not> sb_locked s" and "finite T" and "su_token su \<in> T" and "env_self e = self" and "m \<noteq> self" and "0 \<le> charge"
    and run: "sb_collect_charge transfer e m charge su s = Inr (su', s')"
  shows "sb_booked balance self T charge 0 ((sb_analytics s)\<lparr>sa_total_revenue := sa_total_revenue (sb_analytics s) + charge\<rparr>) s s'
    \<and> su' = su\<lparr>su_total_paid := su_total_paid su + charge\<rparr>"
proof (cases "0 < charge")
  case True
  with run obtain s1 where 1: "sb_transfer_token transfer e (su_token su) m self charge s = Inr s1" "sb_record_revenue charge 0 s1 = Inr s'"
      "su' = su\<lparr>su_total_paid := su_total_paid su + charge\<rparr>"
    unfolding sb_collect_charge_def assms(4) by (auto elim!: and_thenE simp: ok_or_eq_Inr)
  have pay: "sb_pay balance self T charge 0 s s1" by (rule sb_pay_in [OF 1(1) assms(5,2,3)])
  from sb_booked_set [OF sb_booked_pay [OF this]] 1(2,3) sb_pay_frame(6) [OF pay] show ?thesis by (simp add: sb_record_Inr)
next
  case False
  with assms(6) run have "charge = 0" "su' = su" "s' = s" by (simp_all add: sb_collect_charge_def)
  then show ?thesis using sb_booked_pay [OF sb_pay_refl [OF inv]] by simp
qed

lemma sb_refund_booked:
  assumes inv: "\<not> sb_locked s" and "finite T" and "tok \<in> T" and "env_self e = self" and "0 \<le> refund"
    and run: "sb_pay_refund transfer e tok m refund s = Inr s'"
  shows "sb_booked balance self T (- refund) 0 ((sb_analytics s)\<lparr>sa_total_refunds := sa_total_refunds (sb_analytics s) + refund\<rparr>) s s'"
proof (cases "0 < refund")
  case True
  with run obtain s1 where 1: "sb_transfer_token transfer e tok self m refund s = Inr s1" "sb_record_refund refund s1 = Inr s'"
    unfolding sb_pay_refund_def assms(4) by (auto elim!: and_thenE)
  have pay: "sb_pay balance self T (- refund) 0 s s1" by (rule sb_pay_out [OF 1(1) assms(2,3)])
  from sb_booked_set [OF sb_booked_pay [OF this]] 1(2) sb_pay_frame(6) [OF pay] show ?thesis by (simp add: sb_record_Inr)
next
  case False
  with assms(5) run have "refund = 0" "s' = s" by (simp_all add: sb_pay_refund_def)
  then show ?thesis using sb_booked_pay [OF sb_pay_refl [OF inv]] by simp
qed

lemma sb_change_Inr:
  assumes inv: "sb_inv balance self T w (env_timestamp e) s" and "finite T" and "env_self e = self"
    and run: "sb_change_tier transfer e m i s = Inr (res, s')"
  obtains su tier q su' where "env_auth e m" and "sb_subscription s m = Some su" and "su_status su = Active \<or> su_status su = Trial"
    and "sb_tier s i = Some tier" and "mt_active tier" and "sb_quote_proration_inner e su tier s = Inr q"
    and "su' = su\<lparr>su_total_paid := su_total_paid su + pq_charge_amount q, su_tier_id := i, su_status := Active, su_current_period_start := env_timestamp e,
      su_current_period_end := env_timestamp e + mt_period_seconds tier, su_trial_end := 0, su_updated_at := env_timestamp e\<rparr>"
    and "sb_subscription s' = (sb_subscription s)(m \<mapsto> su')" and "sb_inv balance self T w (env_timestamp e) s'"
proof -
  let ?a = "sb_analytics s" and ?t = "env_timestamp e"
  obtain su tier q su1 s1 s2 where su: "env_auth e m" "sb_subscription s m = Some su" "su_status su = Active \<or> su_status su = Trial"
      "sb_tier s i = Some tier" "mt_active tier" "sb_quote_proration_inner e su tier s = Inr q"
    and col: "sb_collect_charge transfer e m (pq_charge_amount q) su s = Inr (su1, s1)"
    and ref: "sb_pay_refund transfer e (su_token su1) m (pq_refund_amount q) s1 = Inr s2"
    and s': "s' = sb_put m (su1\<lparr>su_tier_id := i, su_status := Active, su_current_period_start := ?t,
      su_current_period_end := ?t + mt_period_seconds tier, su_trial_end := 0, su_updated_at := ?t\<rparr>) s2"
    using run by (auto simp: sb_change_tier_def Let_def result_iffs)
  have ok: "sb_sub_ok (sb_tier s) T ?t m su" "m \<noteq> self" using sb_inv_sub [OF inv su(2)] by auto
  then have tok: "su_token su \<in> T" by (simp add: sb_sub_ok_def)
  from su(6) obtain credit where q: "pq_charge_amount q = max 0 (mt_price_per_period tier - credit)" "pq_refund_amount q = max 0 (credit - mt_price_per_period tier)"
    by (rule sb_quote_Inr)
  have c: "0 \<le> pq_charge_amount q" "0 \<le> pq_refund_amount q" using q by simp_all
  note 1 = sb_collect_booked [OF sb_inv_parts(1) [OF inv] assms(2) tok assms(3) ok(2) c(1) col, THEN conjunct1] sb_collect_booked [OF sb_inv_parts(1) [OF inv] assms(2) tok assms(3) ok(2) c(1) col, THEN conjunct2]
  note 2 = sb_refund_booked [OF sb_booked_frame(5) [OF 1(1)] assms(2) _ assms(3) c(2) ref]
  have book: "sb_booked balance self T (pq_charge_amount q - pq_refund_amount q) 0
      (?a\<lparr>sa_total_revenue := sa_total_revenue ?a + pq_charge_amount q, sa_total_refunds := sa_total_refunds ?a + pq_refund_amount q\<rparr>) s s2"
    using sb_booked_trans [OF 1(1) 2] tok by (simp add: 1(2) sb_booked_frame(4) [OF 1(1)])
  define su' where "su' = su\<lparr>su_total_paid := su_total_paid su + pq_charge_amount q, su_tier_id := i, su_status := Active, su_current_period_start := ?t,
      su_current_period_end := ?t + mt_period_seconds tier, su_trial_end := 0, su_updated_at := ?t\<rparr>"
  have s'': "s' = sb_put m su' s2" by (simp add: s' su'_def 1(2))
  have "sb_inv balance self T w ?t s'" unfolding s''
    using ok su(2,3,4) c by (intro sb_inv_booked [OF inv book _ sb_inv_admin_sub [OF inv su(2)]])
      (auto simp: su'_def sb_sub_ok_def sb_net_def sb_inv_parts [OF inv] sb_is_non_terminal_def)
  moreover have "sb_subscription s' = (sb_subscription s)(m \<mapsto> su')" by (simp add: s'' sb_booked_frame(3) [OF book])
  ultimately show thesis using that [OF su su'_def] by simp
qed

lemma sb_charge_Inr:
  assumes "finite T" and "tok \<in> T" and "su_token su = tok" and "env_self e = self" and "m \<noteq> self"
    and run: "sb_charge_member_direct transfer e m tok tier su s = Inr ((r, su'), s')"
  shows "sb_pay balance self T (mt_price_per_period tier - r) r s s' \<and> 0 \<le> r
    \<and> su' = su\<lparr>su_total_referral_rewards := su_total_referral_rewards su + r, su_total_paid := su_total_paid su + mt_price_per_period tier\<rparr>"
proof -
  obtain s1 su1 where 1: "sb_transfer_token transfer e tok m self (mt_price_per_period tier) s = Inr s1"
      "sb_pay_referral_reward transfer e tier su s1 = Inr ((r, su1), s')" "su' = su1\<lparr>su_total_paid := su_total_paid su1 + mt_price_per_period tier\<rparr>"
    using run unfolding sb_charge_member_direct_def assms(4) by (auto elim!: and_thenE simp: ok_or_eq_Inr)
  have pay: "sb_pay balance self T (mt_price_per_period tier) 0 s s1" by (rule sb_pay_in [OF 1(1) assms(5,1,2)])
  note rew = sb_pay_reward [OF 1(2) assms(4,1) _ sb_pay_frame(7) [OF pay]]
  show ?thesis using sb_pay_trans [OF pay rew(1)] rew(2,3) assms(2,3) 1(3) by simp
qed

lemma sb_subscribe_steps:
  assumes "sb_subscribe transfer e m tok i auto ref s = Inr (su', s')"
  obtains tier s1 where "env_auth e m" and "sb_tier s i = Some tier" and "mt_active tier"
    and "sb_subscription s m = None \<or> (\<exists>su. sb_subscription s m = Some su \<and> \<not> sb_is_non_terminal (su_status su))"
    and "(if mt_trial_seconds tier > 0 then Inr (sb_opening e m tok tier i auto ref, s)
       else and_then (sb_charge_member_direct transfer e m tok tier (sb_opening e m tok tier i auto ref) s) (\<lambda>((reward, su), s).
            and_then (sb_record_revenue (mt_price_per_period tier) reward s) (\<lambda>s. Inr (su, s)))) = Inr (su', s1)"
    and "sb_record_subscription_created (sb_put m su' s1) = Inr s'"
proof -
  from assms obtain tier s1 where "env_auth e m" "sb_tier s i = Some tier" "mt_active tier"
      "(case sb_subscription s m of None \<Rightarrow> Inr () | Some existing \<Rightarrow> panic_if (sb_is_non_terminal (su_status existing)) SbAlreadySubscribed) = Inr ()"
      "(if mt_trial_seconds tier > 0 then Inr (sb_opening e m tok tier i auto ref, s)
       else and_then (sb_charge_member_direct transfer e m tok tier (sb_opening e m tok tier i auto ref) s) (\<lambda>((reward, su), s).
            and_then (sb_record_revenue (mt_price_per_period tier) reward s) (\<lambda>s. Inr (su, s)))) = Inr (su', s1)"
      "sb_record_subscription_created (sb_put m su' s1) = Inr s'"
    unfolding sb_subscribe_def Let_def sb_opening_def
    by (auto elim!: and_thenE simp: ok_or_eq_Inr sb_load_active_tier_Inr require_auth_eq_Inr split del: if_split cong: if_cong) 
  then show thesis by (intro that [of tier s1]) (auto simp: result_iffs(3) panic_if_eq_Inr split: option.splits)
qed

lemma sb_subscribe_Inr:
  assumes inv: "sb_inv balance self T w (env_timestamp e) s" and "finite T" and "tok \<in> T" and "env_self e = self" and "\<not> env_auth e self"
    and run: "sb_subscribe transfer e m tok i auto ref s = Inr (su', s')"
  shows "env_auth e m \<and> (sb_subscription s m = None \<or> (\<exists>su. sb_subscription s m = Some su \<and> \<not> sb_is_non_terminal (su_status su)))
    \<and> (su_status su' = Trial \<or> su_status su' = Active) \<and> sb_subscription s' = (sb_subscription s)(m \<mapsto> su') \<and> sb_inv balance self T w (env_timestamp e) s'"
  using run
proof (cases rule: sb_subscribe_steps)
  case (1 tier s1)
  let ?a = "sb_analytics s" and ?su = "sb_opening e m tok tier i auto ref"
  define p where "p = su_total_paid su'"
  define r where "r = su_total_referral_rewards su'"
  have m: "m \<noteq> self" using 1(1) assms(5) by auto
  note tier = sb_inv_tier [OF inv 1(2)]
  define a where "a = ?a\<lparr>sa_total_revenue := sa_total_revenue ?a + p, sa_total_referral_rewards := sa_total_referral_rewards ?a + r\<rparr>"
  have book: "sb_booked balance self T (p - r) r a s s1 \<and> 0 \<le> r \<and> 0 \<le> p \<and> (su_status ?su = Trial \<longrightarrow> p = 0)
      \<and> su' = ?su\<lparr>su_total_referral_rewards := r, su_total_paid := p\<rparr>"
  proof (cases "0 < mt_trial_seconds tier")
    case True
    with 1(5) have "su' = ?su" "s1 = s" by simp_all
    then show ?thesis using sb_booked_pay [OF sb_pay_refl [OF sb_inv_parts(1) [OF inv]]] by (simp add: p_def r_def a_def sb_opening_def)
  next
    case False
    with 1(5) obtain r0 s2 where 2: "sb_charge_member_direct transfer e m tok tier ?su s = Inr ((r0, su'), s2)" "sb_record_revenue (mt_price_per_period tier) r0 s2 = Inr s1"
      by (auto elim!: and_thenE)
    have "su_token ?su = tok" by (simp add: sb_opening_def)
    note ch = sb_charge_Inr [OF assms(2,3) this assms(4) m 2(1)]
    then have pay: "sb_pay balance self T (mt_price_per_period tier - r0) r0 s s2" and r0: "r = r0" "p = mt_price_per_period tier" "0 \<le> r0"
      by (simp_all add: p_def r_def sb_opening_def)
    from 2(2) have s1: "s1 = sb_set_analytics a s2" by (simp add: sb_record_Inr a_def r0 sb_pay_frame(6) [OF pay])
    show ?thesis
      using sb_booked_set [OF sb_booked_pay [OF pay], of a] ch r0 tier False by (simp add: s1 sb_opening_def sb_tier_ok_def)
  qed
  then have su': "su' = ?su\<lparr>su_total_referral_rewards := r, su_total_paid := p\<rparr>" and b: "sb_booked balance self T (p - r) r a s s1" by auto
  from 1(6) have s': "s' = sb_put m su' (sb_set_analytics (a\<lparr>sa_total_subscriptions := sa_total_subscriptions a + 1,
      sa_active_subscriptions := sa_active_subscriptions a + 1\<rparr>) s1)"
    by (simp add: sb_record_Inr sb_booked_frame(4) [OF b] sb_set_put)
  have "sb_inv balance self T w (env_timestamp e) s'" unfolding s'
    using m book 1(2,4) assms(3)
    by (intro sb_inv_booked [OF inv sb_booked_set [OF b] _ sb_inv_admin [OF inv 1(2)]])
       (auto simp: su' a_def sb_opening_def sb_sub_ok_def sb_net_def sb_inv_parts [OF inv] sb_is_non_terminal_def)
  moreover have "sb_subscription s' = (sb_subscription s)(m \<mapsto> su')" by (simp add: s' sb_booked_frame(3) [OF b])
  ultimately show ?thesis using 1(1,4) by (simp add: su' sb_opening_def)
qed

lemma sb_renew_Inr:
  assumes inv: "sb_inv balance self T w (env_timestamp e) s" and "finite T" and "env_self e = self"
    and run: "sb_renew_subscription transfer transfer_from balance alw e m s = Inr (res, s')"
  obtains su tier su' where "sb_subscription s m = Some su" and "su_status su = Active \<or> su_status su = Trial"
    and "su_current_period_end su \<le> env_timestamp e" and "sb_tier s (su_tier_id su) = Some tier"
    and "if su_auto_renew su \<and> mt_price_per_period tier \<le> alw (sb_tokens s) (su_token su) m self \<and> mt_price_per_period tier \<le> balance (sb_tokens s) (su_token su) m
      then su_status su' = Active \<and> su_current_period_end su' = env_timestamp e + mt_period_seconds tier \<and> su_total_paid su' = su_total_paid su + mt_price_per_period tier
      else su_status su' = Expired \<and> su_current_period_end su' = su_current_period_end su \<and> su_total_paid su' = su_total_paid su \<and> sb_tokens s' = sb_tokens s"
    and "sb_subscription s' = (sb_subscription s)(m \<mapsto> su')" and "sb_inv balance self T w (env_timestamp e) s'"
proof -
  let ?a = "sb_analytics s" and ?t = "env_timestamp e"
  obtain su tier where su: "sb_subscription s m = Some su" "su_status su = Active \<or> su_status su = Trial" "su_current_period_end su \<le> ?t"
      "sb_tier s (su_tier_id su) = Some tier"
    and body: "(if \<not> su_auto_renew su \<or> alw (sb_tokens s) (su_token su) m self < mt_price_per_period tier
         \<or> balance (sb_tokens s) (su_token su) m < mt_price_per_period tier then
       and_then (sb_expire_subscription e su s) (\<lambda>(su, s). Inr (sb_renewed su 0 0, s))
     else
       and_then (sb_pull_payment transfer_from e (su_token su) m (mt_price_per_period tier) s) (\<lambda>s.
       and_then (sb_pay_referral_reward transfer e tier su s) (\<lambda>((reward, su), s).
       and_then (ok_or SbOverflow (checked_add_i128 (su_total_paid su) (mt_price_per_period tier))) (\<lambda>p.
       and_then (ok_or SbOverflow (checked_add_u64 ?t (mt_period_seconds tier))) (\<lambda>period_end.
       let su = su\<lparr>su_total_paid := p, su_status := Active, su_current_period_start := ?t,
             su_current_period_end := period_end, su_trial_end := 0, su_updated_at := ?t\<rparr> in
       and_then (sb_record_revenue (mt_price_per_period tier) reward (sb_put m su s)) (\<lambda>s.
       Inr (sb_renewed su (mt_price_per_period tier) reward, s))))))) = Inr (res, s')"
    using run unfolding sb_renew_subscription_def assms(3)
    by (elim and_thenE) (auto simp: sb_load_subscription_Inr sb_load_active_tier_Inr panic_if_eq_Inr sb_is_non_terminal_def simp del: Let_def split: if_splits)
  have ok: "sb_sub_ok (sb_tier s) T ?t m su" "m \<noteq> self" using sb_inv_sub [OF inv su(1)] by auto
  then have tok: "su_token su \<in> T" by (simp add: sb_sub_ok_def)
  have nt: "sb_is_non_terminal (su_status su)" using su(2) by (auto simp: sb_is_non_terminal_def)
  show thesis
  proof (cases "\<not> su_auto_renew su \<or> alw (sb_tokens s) (su_token su) m self < mt_price_per_period tier \<or> balance (sb_tokens s) (su_token su) m < mt_price_per_period tier")
    case True
    with body obtain su' where "sb_expire_subscription e su s = Inr (su', s')" by (auto elim!: and_thenE)
    note ex = sb_expire_Inr [OF inv su(1) nt this]
    show thesis by (rule that [OF su, of su']) (use True ex in auto)
  next
    case False
    with body obtain s1 r su1 s2 where 1: "sb_pull_payment transfer_from e (su_token su) m (mt_price_per_period tier) s = Inr s1"
        "sb_pay_referral_reward transfer e tier su s1 = Inr ((r, su1), s2)"
      and rec: "sb_record_revenue (mt_price_per_period tier) r (sb_put m (su1\<lparr>su_total_paid := su_total_paid su1 + mt_price_per_period tier, su_status := Active,
        su_current_period_start := ?t, su_current_period_end := ?t + mt_period_seconds tier, su_trial_end := 0, su_updated_at := ?t\<rparr>) s2) = Inr s'"
      by (auto elim!: and_thenE simp: ok_or_eq_Inr Let_def)
    have pay: "sb_pay balance self T (mt_price_per_period tier) 0 s s1" by (rule sb_pay_pull [OF 1(1) assms(3) ok(2) assms(2) tok])
    note rew = sb_pay_reward [OF 1(2) assms(3,2) tok sb_pay_frame(7) [OF pay]]
    have both: "sb_pay balance self T (mt_price_per_period tier - r) r s s2" using sb_pay_trans [OF pay rew(1)] by simp
    define su' where "su' = su\<lparr>su_total_referral_rewards := su_total_referral_rewards su + r, su_total_paid := su_total_paid su + mt_price_per_period tier,
        su_status := Active, su_current_period_start := ?t, su_current_period_end := ?t + mt_period_seconds tier, su_trial_end := 0, su_updated_at := ?t\<rparr>"
    define a where "a = ?a\<lparr>sa_total_revenue := sa_total_revenue ?a + mt_price_per_period tier, sa_total_referral_rewards := sa_total_referral_rewards ?a + r\<rparr>"
    from rec have s': "s' = sb_put m su' (sb_set_analytics a s2)"
      by (simp add: sb_record_Inr rew(3) sb_pay_frame(6) [OF both] su'_def a_def sb_set_put)
    have "sb_inv balance self T w ?t s'" unfolding s'
      using ok su(1,2,4) rew(2) sb_inv_tier [OF inv su(4)]
      by (intro sb_inv_booked [OF inv sb_booked_set [OF sb_booked_pay [OF both]] _ sb_inv_admin_sub [OF inv su(1)]])
         (auto simp: su'_def a_def sb_sub_ok_def sb_tier_ok_def sb_net_def sb_inv_parts [OF inv] sb_is_non_terminal_def)
    moreover have "sb_subscription s' = (sb_subscription s)(m \<mapsto> su')" by (simp add: s' sb_pay_frame(4) [OF both])
    ultimately show thesis by (intro that [OF su, of su']) (use False in \<open>auto simp: su'_def\<close>)
  qed
qed

lemma sb_inv_call:
  assumes inv: "sb_inv balance self T w (env_timestamp e) s" and "finite T" and adm: "sb_adm self T e c"
    and run: "sb_exec transfer transfer_from balance alw e c s = Some s'"
  shows "sb_inv balance self T w (env_timestamp e) s'"
proof -
  have self: "env_self e = self" "\<not> env_auth e self" using adm by (simp_all add: sb_adm_def)
  show ?thesis
  proof (cases c)
    case (SbSubscribe m k i r g)
    with adm run sb_subscribe_Inr [OF inv assms(2) _ self] show ?thesis by (auto simp: sb_adm_def state_of_eq_Some)
  next
    case (SbRenew m)
    with run show ?thesis by (auto simp: state_of_eq_Some elim: sb_renew_Inr [OF inv assms(2) self(1)])
  next
    case (SbCancel m)
    with run show ?thesis by (auto simp: state_of_eq_Some elim: sb_cancel_Inr [OF inv assms(2) self(1)])
  next
    case (SbChangeTier m i)
    with run show ?thesis by (auto simp: state_of_eq_Some elim: sb_change_Inr [OF inv assms(2) self(1)])
  qed (use run in \<open>auto simp: state_of_eq_Some intro: sb_inv_initialize [OF inv] sb_inv_create_tier [OF inv] sb_inv_update_tier [OF inv]
      sb_inv_pause [OF inv] sb_inv_resume [OF inv]\<close>)
qed

end

section \<open>The transition system\<close>

lemma sb_inv_drift:
  assumes "sb_inv bal self T w t s" and "sb_drift bal self s s'"
  shows "sb_inv bal self T w t s'"
proof -
  from assms(2) obtain w' where s': "s' = s\<lparr>sb_tokens := w'\<rparr>" and "\<forall>tok. bal (sb_tokens s) tok self \<le> bal w' tok self" by (auto simp: sb_drift_def)
  then have "sb_held bal self T (sb_tokens s) \<le> sb_held bal self T w'" by (auto simp: sb_held_def intro: sum_mono)
  with assms(1) show ?thesis by (auto simp: s' sb_inv_def sb_tier_ids_def sb_analytics_def sb_locked_def)
qed

text \<open>A deployment that takes finitely many tokens: the member names the token, so this is a condition on the calls.\<close>

locale token_acceptance = spender_token transfer balance transfer_from
  for transfer :: "'w token_transfer" and balance :: "'w token_balance" and transfer_from :: "'w token_transfer_from" +
  fixes accepted :: "address set" and allowance :: "'w token_allowance"
  assumes accepted_finite: "finite accepted"

sublocale token_acceptance \<subseteq> sbm: contract_machine "sb_exec transfer transfer_from balance allowance" "sb_adm self accepted" "sb_drift balance self"
  "sb_inv balance self accepted w" "sb_fresh w" for self w
  by unfold_locales (auto intro: sb_inv_fresh sb_inv_later sb_inv_drift sb_inv_call [OF _ accepted_finite])

context token_acceptance
begin

lemma sb_reach_inv:
  "reach (sb_exec transfer transfer_from balance allowance) (sb_adm self accepted) (sb_drift balance self) (sb_fresh w) t s \<Longrightarrow>
   sb_inv balance self accepted w t s"
  by (rule sbm.reach_inv)

end

text \<open>The token of the tests as the only accepted token.\<close>

interpretation sba: token_acceptance at_world_transfer at_world_balance at_world_transfer_from "{Addr 2}" at_world_allowance
  by unfold_locales simp

end
