(* ===== verification/Membership_Subs.thy ===== *)
theory Membership_Subs
  imports Membership_Correct
begin

text \<open>
  The properties of the membership contract over the transition system of Membership_Correct, each with a
  run of the contract on the token of its tests, and the runs behind the findings.
\<close>

section \<open>A sample run\<close>

definition sb_env :: "u64 \<Rightarrow> env" where
  "sb_env t = \<lparr>env_timestamp = t, env_auth = (\<lambda>a. a \<noteq> Addr 0), env_self = Addr 0, env_sequence = 0\<rparr>"

definition sb_world :: allow_world where
  "sb_world tok = (if tok = Addr 2 then \<lparr>at_balances = [Addr 8 \<mapsto> 1000, Addr 7 \<mapsto> 1000], at_allowances = (\<lambda>_. None)\<rparr>
     else \<lparr>at_balances = (\<lambda>_. None), at_allowances = (\<lambda>_. None)\<rparr>)"

abbreviation sb_at :: "env \<Rightarrow> sb_call \<Rightarrow> allow_world sb_state \<Rightarrow> allow_world sb_state option" where
  "sb_at \<equiv> sb_exec at_world_transfer at_world_transfer_from at_world_balance at_world_allowance"

abbreviation sb_sample_reach :: "u64 \<Rightarrow> allow_world sb_state \<Rightarrow> bool" where
  "sb_sample_reach \<equiv> reach sb_at (sb_adm (Addr 0) {Addr 2}) (sb_drift at_world_balance (Addr 0)) (sb_fresh sb_world)"

text \<open>What is unfolded to evaluate a call on the test token.\<close>

lemmas sb_eval = sb_env_def require_auth_def sb_assert_admin_def sb_load_tier_def sb_load_active_tier_def sb_load_subscription_def
  sb_validate_tier_terms_def sb_analytics_def sb_tier_ids_def sb_empty_analytics_def sb_set_analytics_def sb_record_subscription_created_def
  sb_record_revenue_def sb_record_refund_def sb_record_cancelled_def sb_record_expired_def sb_record_paused_def sb_record_resumed_def
  sb_locked_def sb_enter_non_reentrant_def sb_exit_non_reentrant_def sb_transfer_token_def sb_pull_payment_def sb_put_def sb_referral_rewards_def
  sb_pay_referral_reward_def sb_charge_member_direct_def sb_unused_period_value_def sb_is_non_terminal_def
  call_token_def at_world_transfer_def at_transfer_def at_move_balance_def at_require_auth_def at_put_def
  SB_BPS_DENOMINATOR_def MAX_TIER_NAME_LENGTH_def MAX_REFERRAL_REWARD_BPS_def arith_defs div_i128_nonneg Let_def

text \<open>Two tiers of price 100 per 1000 seconds, the first with a trial of 100 seconds.\<close>

definition sb_demo_tier :: "u32 \<Rightarrow> u64 \<Rightarrow> membership_tier" where
  "sb_demo_tier i trial = \<lparr>mt_tier_id = i, mt_name = ''T'', mt_price_per_period = 100, mt_period_seconds = 1000, mt_trial_seconds = trial,
     mt_benefit_flags = 3, mt_referral_reward_bps = 500, mt_active = True, mt_created_at = 1000, mt_updated_at = 1000\<rparr>"

definition sb_demo_analytics :: subscription_analytics where
  "sb_demo_analytics = \<lparr>sa_total_subscriptions = 1, sa_active_subscriptions = 1, sa_cancelled_subscriptions = 0, sa_expired_subscriptions = 0,
     sa_paused_subscriptions = 0, sa_total_revenue = 100, sa_total_refunds = 0, sa_total_referral_rewards = 5\<rparr>"

text \<open>A member with a referrer has paid for the second tier.\<close>

definition sb_demo_sub :: subscription where
  "sb_demo_sub = \<lparr>su_member = Addr 8, su_tier_id = 2, su_token = Addr 2, su_status = Active, su_auto_renew = True, su_started_at = 1000,
     su_current_period_start = 1000, su_current_period_end = 2000, su_trial_end = 0, su_paused_at = 0, su_paused_accumulated_seconds = 0,
     su_referrer = Some (Addr 9), su_total_paid = 100, su_total_referral_rewards = 5, su_updated_at = 1000\<rparr>"

definition sb_demo :: "allow_world sb_state" where
  "sb_demo = \<lparr>sb_admin = Some (Addr 5), sb_tier = [1 \<mapsto> sb_demo_tier 1 100, 2 \<mapsto> sb_demo_tier 2 0], sb_tier_ids_key = Some [1, 2],
     sb_subscription = [Addr 8 \<mapsto> sb_demo_sub], sb_analytics_key = Some sb_demo_analytics, sb_referral_rewards_key = [Addr 9 \<mapsto> 5],
     sb_reentrancy_lock = Some False,
     sb_tokens = sb_world(Addr 2 := \<lparr>at_balances = [Addr 8 \<mapsto> 900, Addr 7 \<mapsto> 1000, Addr 0 \<mapsto> 95, Addr 9 \<mapsto> 5], at_allowances = (\<lambda>_. None)\<rparr>)\<rparr>"

definition sb_demo_trace :: "(env \<times> sb_call) list" where
  "sb_demo_trace = map (Pair (sb_env 1000)) [SbInitialize (Addr 5), SbCreateTier (Addr 5) 1 ''T'' 100 1000 100 3 500,
     SbCreateTier (Addr 5) 2 ''T'' 100 1000 0 3 500, SbSubscribe (Addr 8) (Addr 2) 2 True (Some (Addr 9))]"

lemma sb_demo_run: "run_calls sb_at sb_demo_trace (sb_fresh sb_world) = sb_demo"
  by (simp add: sb_demo_trace_def sb_demo_def sb_demo_tier_def sb_demo_sub_def sb_demo_analytics_def sb_fresh_def sb_initialize_def sb_create_tier_def
      sb_subscribe_def sb_eval sb_world_def fun_upd_twist)

lemma sb_demo_reach: "sb_sample_reach 1000 sb_demo"
proof -
  have "trace_ok (sb_adm (Addr 0) {Addr 2}) 0 sb_demo_trace" by (simp add: sb_demo_trace_def sb_env_def sb_adm_def)
  from reach_run [where exec = sb_at and drift = "sb_drift at_world_balance (Addr 0)" and ?s0.0 = "sb_fresh sb_world", OF this] show ?thesis
    unfolding sb_demo_run by (simp add: sb_demo_trace_def sb_env_def)
qed

section \<open>The books\<close>

lemma entry_sum_of_bool:
  assumes "finite (dom m)"
  shows "entry_sum (\<lambda>v. of_bool (P v)) m = int (card {k. \<exists>v. m k = Some v \<and> P v})"
proof -
  have "entry_sum (\<lambda>v. of_bool (P v)) m = int (card (dom m \<inter> {k. P (the (m k))}))"
    using assms by (simp add: entry_sum_def sum_of_bool_eq)
  also have "dom m \<inter> {k. P (the (m k))} = {k. \<exists>v. m k = Some v \<and> P v}" by auto
  finally show ?thesis .
qed

lemma sb_reach_inv_of:
  assumes "spender_token tr bal tf" and "finite T"
    and "reach (sb_exec tr tf bal alw) (sb_adm self T) (sb_drift bal self) (sb_fresh w) t s"
  shows "sb_inv bal self T w t s"
proof -
  have "token_acceptance tr bal tf T" by (intro token_acceptance.intro token_acceptance_axioms.intro assms(1,2))
  from token_acceptance.sb_reach_inv [OF this assms(3)] show ?thesis .
qed

text \<open>
  C23. The counters of the analytics record are exact. In every reachable state the active counter is the number of
  members whose subscription is on trial, active or paused, every subscription ever opened is active, cancelled
  or expired, and the referral total is the sum of what the referrers were credited; the paused counter is
  at least the number of paused subscriptions.
\<close>

theorem sb_counts_exact:
  assumes "spender_token tr bal tf" and "finite T"
    and "reach (sb_exec tr tf bal alw) (sb_adm self T) (sb_drift bal self) (sb_fresh w) t s"
  shows "sa_active_subscriptions (sb_analytics s) = card {m. \<exists>su. sb_subscription s m = Some su \<and> sb_is_non_terminal (su_status su)}
    \<and> sa_total_subscriptions (sb_analytics s)
        = sa_active_subscriptions (sb_analytics s) + sa_cancelled_subscriptions (sb_analytics s) + sa_expired_subscriptions (sb_analytics s)
    \<and> card {m. \<exists>su. sb_subscription s m = Some su \<and> su_status su = Paused} \<le> sa_paused_subscriptions (sb_analytics s)
    \<and> sa_total_referral_rewards (sb_analytics s) = entry_sum id (sb_referral_rewards_key s)"
proof -
  have inv: "sb_inv bal self T w t s" by (rule sb_reach_inv_of [OF assms])
  then have "finite (dom (sb_subscription s))" by (simp add: sb_inv_def)
  note sums = entry_sum_of_bool [OF this]
  from inv show ?thesis by (simp add: sb_inv_def sb_counts_ok_def sums)
qed

theorem sb_counts_exact_witness:
  "sa_active_subscriptions sb_demo_analytics = card {m. \<exists>su. sb_subscription sb_demo m = Some su \<and> sb_is_non_terminal (su_status su)}"
proof -
  have "sb_analytics sb_demo = sb_demo_analytics" by (simp add: sb_analytics_def sb_demo_def)
  with sb_counts_exact [OF atk.spender_token_axioms _ sb_demo_reach] show ?thesis by simp
qed

text \<open>
  C24. The money is there. On tokens that follow the token interface, with a finite set of accepted tokens, the
  contract holds at least its initial balances plus the recorded revenue less the recorded refunds and referral
  rewards: every payment the analytics record counts was received, and nothing leaves uncounted.
\<close>

theorem sb_revenue_held:
  assumes "spender_token tr bal tf" and "finite T"
    and "reach (sb_exec tr tf bal alw) (sb_adm self T) (sb_drift bal self) (sb_fresh w) t s"
  shows "(\<Sum>tok\<in>T. bal w tok self) + sa_total_revenue (sb_analytics s) - sa_total_refunds (sb_analytics s) - sa_total_referral_rewards (sb_analytics s)
    \<le> (\<Sum>tok\<in>T. bal (sb_tokens s) tok self)"
  using sb_reach_inv_of [OF assms] by (simp add: sb_inv_def sb_net_def sb_held_def)

theorem sb_revenue_held_witness: "95 \<le> at_world_balance (sb_tokens sb_demo) (Addr 2) (Addr 0)"
proof -
  have "sb_analytics sb_demo = sb_demo_analytics" by (simp add: sb_analytics_def sb_demo_def)
  moreover have "at_world_balance sb_world (Addr 2) (Addr 0) = 0" by (simp add: at_world_balance_def at_balance_def sb_world_def)
  ultimately show ?thesis
    using sb_revenue_held [OF atk.spender_token_axioms _ sb_demo_reach] by (simp add: sb_demo_analytics_def)
qed

section \<open>The life of a subscription\<close>

text \<open>
  The abstract machine of one member, by the status of the subscription: who may move it, and when.
  \<open>due\<close> says that the current period is over.
\<close>

inductive sb_life :: "env \<Rightarrow> address \<Rightarrow> bool \<Rightarrow> subscription_status option \<Rightarrow> sb_call \<Rightarrow> subscription_status option \<Rightarrow> bool"
  for e m due where
  life_open: "env_auth e m \<Longrightarrow> st \<in> {None, Some Cancelled, Some Expired} \<Longrightarrow> st' \<in> {Trial, Active} \<Longrightarrow>
    sb_life e m due st (SbSubscribe m tok i auto ref) (Some st')"
| life_renew: "due \<Longrightarrow> st \<in> {Trial, Active} \<Longrightarrow> st' \<in> {Active, Expired} \<Longrightarrow> sb_life e m due (Some st) (SbRenew m) (Some st')"
| life_cancel: "env_auth e m \<Longrightarrow> st \<in> {Trial, Active, Paused} \<Longrightarrow> sb_life e m due (Some st) (SbCancel m) (Some Cancelled)"
| life_pause: "env_auth e m \<Longrightarrow> st \<in> {Trial, Active} \<Longrightarrow> sb_life e m due (Some st) (SbPause m) (Some Paused)"
| life_resume: "env_auth e m \<Longrightarrow> st' \<in> {Trial, Active} \<Longrightarrow> sb_life e m due (Some Paused) (SbResume m) (Some st')"
| life_change: "env_auth e m \<Longrightarrow> st \<in> {Trial, Active} \<Longrightarrow> sb_life e m due (Some st) (SbChangeTier m i) (Some Active)"

definition sb_status :: "'w sb_state \<Rightarrow> address \<Rightarrow> subscription_status option" where
  "sb_status s m = map_option su_status (sb_subscription s m)"

definition sb_due :: "env \<Rightarrow> 'w sb_state \<Rightarrow> address \<Rightarrow> bool" where
  "sb_due e s m = (case sb_subscription s m of None \<Rightarrow> False | Some su \<Rightarrow> su_current_period_end su \<le> env_timestamp e)"

text \<open>A call that stores one subscription moves only its member.\<close>

lemma sb_moved:
  assumes "sb_subscription s' = (sb_subscription s)(m \<mapsto> su')" and "sb_life e m (sb_due e s m) (sb_status s m) c (Some (su_status su'))"
  shows "sb_subscription s' x = sb_subscription s x \<or> sb_life e x (sb_due e s x) (sb_status s x) c (sb_status s' x)"
  using assms by (cases "x = m") (auto simp: sb_status_def)

lemma sb_non_terminal_iff: "sb_is_non_terminal st \<longleftrightarrow> st \<in> {Trial, Active, Paused}"
  by (auto simp: sb_is_non_terminal_def)

lemma sb_terminal_iff: "\<not> sb_is_non_terminal st \<longleftrightarrow> st \<in> {Cancelled, Expired}"
  by (cases st) (auto simp: sb_is_non_terminal_def)

context spender_token
begin

lemma sb_call_moves:
  assumes inv: "sb_inv balance self T w (env_timestamp e) s" and T: "finite T" and adm: "sb_adm self T e c"
    and run: "sb_exec transfer transfer_from balance alw e c s = Some s'"
  shows "sb_subscription s' x = sb_subscription s x \<or> sb_life e x (sb_due e s x) (sb_status s x) c (sb_status s' x)"
proof -
  have self: "env_self e = self" "\<not> env_auth e self" using adm by (simp_all add: sb_adm_def)
  show ?thesis
  proof (cases c)
    case (SbSubscribe m k i r g)
    with adm run obtain su' where 1: "sb_subscribe transfer e m k i r g s = Inr (su', s')" "k \<in> T" by (auto simp: sb_adm_def state_of_eq_Some)
    note 2 = sb_subscribe_Inr [OF inv T 1(2) self 1(1)]
    then show ?thesis unfolding SbSubscribe
      by (intro sb_moved [where su' = su']) (auto simp: sb_status_def sb_terminal_iff intro: life_open)
  next
    case (SbRenew m)
    with run obtain res where "sb_renew_subscription transfer transfer_from balance alw e m s = Inr (res, s')" by (auto simp: state_of_eq_Some)
    then show ?thesis unfolding SbRenew
      by (rule sb_renew_Inr [OF inv T self(1)], intro sb_moved) (auto simp: sb_status_def sb_due_def split: if_splits intro!: life_renew)
  next
    case (SbCancel m)
    with run obtain r where "sb_cancel_subscription transfer e m s = Inr (r, s')" by (auto simp: state_of_eq_Some)
    then show ?thesis unfolding SbCancel
      by (rule sb_cancel_Inr [OF inv T self(1)], intro sb_moved) (auto simp: sb_status_def sb_non_terminal_iff intro: life_cancel)
  next
    case (SbPause m)
    with run show ?thesis
      by (intro sb_moved [where m = m and su' = "the (sb_subscription s' m)"])
         (auto simp: state_of_eq_Some sb_pause_subscription_def Let_def result_iffs sb_status_def intro!: life_pause)
  next
    case (SbResume m)
    with run obtain su' where "sb_resume_subscription e m s = Inr (su', s')" by (auto simp: state_of_eq_Some)
    then show ?thesis unfolding SbResume
      by (rule sb_resume_Inr, intro sb_moved) (auto simp: sb_status_def intro!: life_resume)
  next
    case (SbChangeTier m i)
    with run obtain r where "sb_change_tier transfer e m i s = Inr (r, s')" by (auto simp: state_of_eq_Some)
    then show ?thesis unfolding SbChangeTier
      by (rule sb_change_Inr [OF inv T self(1)], intro sb_moved) (auto simp: sb_status_def intro!: life_change)
  qed (use run in \<open>auto simp: state_of_eq_Some sb_initialize_def sb_create_tier_def sb_update_tier_def Let_def result_iffs\<close>)
qed

end

text \<open>
  C22. The life of a subscription. In every reachable state, whatever call succeeds, each member's subscription is
  untouched or makes one step of the abstract machine \<open>sb_life\<close>: only the member opens, cancels, pauses,
  resumes or changes the tier, anyone can renew but only when the period is over, and a cancelled or expired
  subscription comes back only by subscribing again.
\<close>

theorem sb_lifecycle_refined:
  assumes "spender_token tr bal tf" and "finite T"
    and "reach (sb_exec tr tf bal alw) (sb_adm self T) (sb_drift bal self) (sb_fresh w) (env_timestamp e) s"
    and "sb_adm self T e c" and "sb_exec tr tf bal alw e c s = Some s'"
  shows "sb_subscription s' m = sb_subscription s m \<or> sb_life e m (sb_due e s m) (sb_status s m) c (sb_status s' m)"
  using assms(1,2,4,5) by (intro spender_token.sb_call_moves [OF _ sb_reach_inv_of [OF assms(1-3)]])

text \<open>The member pauses 200 seconds into the period.\<close>

definition sb_paused_demo :: "allow_world sb_state" where
  "sb_paused_demo = sb_demo\<lparr>sb_subscription := [Addr 8 \<mapsto> sb_demo_sub\<lparr>su_status := Paused, su_paused_at := 1200, su_updated_at := 1200\<rparr>],
     sb_analytics_key := Some (sb_demo_analytics\<lparr>sa_paused_subscriptions := 1\<rparr>)\<rparr>"

lemma sb_paused_run: "sb_pause_subscription (sb_env 1200) (Addr 8) sb_demo = Inr ((), sb_paused_demo)"
  by (simp add: sb_pause_subscription_def sb_demo_def sb_paused_demo_def sb_demo_sub_def sb_demo_analytics_def sb_eval)

lemma sb_demo_reach_later: "sb_sample_reach 1200 sb_demo"
  by (rule reach_tick [OF sb_demo_reach]) simp

lemma sb_sample_adm: "(\<And>m k i r g. c \<noteq> SbSubscribe m k i r g) \<Longrightarrow> sb_adm (Addr 0) {Addr 2} (sb_env t) c"
  by (auto simp: sb_adm_def sb_env_def)

theorem sb_lifecycle_refined_witness:
  "sb_subscription sb_paused_demo (Addr 8) = sb_subscription sb_demo (Addr 8)
   \<or> sb_life (sb_env 1200) (Addr 8) (sb_due (sb_env 1200) sb_demo (Addr 8)) (sb_status sb_demo (Addr 8)) (SbPause (Addr 8)) (sb_status sb_paused_demo (Addr 8))"
proof (rule sb_lifecycle_refined [OF atk.spender_token_axioms])
  show "sb_sample_reach (env_timestamp (sb_env 1200)) sb_demo" using sb_demo_reach_later by (simp add: sb_env_def)
qed (auto simp: sb_paused_run intro: sb_sample_adm)

text \<open>
  A trial is free. In every reachable state a subscription on trial has paid nothing and its trial ends with its
  current period.
\<close>

theorem sb_trial_is_free:
  assumes "spender_token tr bal tf" and "finite T"
    and "reach (sb_exec tr tf bal alw) (sb_adm self T) (sb_drift bal self) (sb_fresh w) t s"
    and "sb_subscription s m = Some su" and "su_status su = Trial"
  shows "su_total_paid su = 0 \<and> su_trial_end su = su_current_period_end su"
  using sb_inv_sub [OF sb_reach_inv_of [OF assms(1-3)] assms(4)] assms(5) by (simp add: sb_sub_ok_def)

section \<open>Pausing\<close>

text \<open>The value of the unused period depends on the tier and on the time that is left.\<close>

lemma sb_unused_cong:
  assumes "su_current_period_end su' = su_current_period_end su + d" and "env_timestamp e' = env_timestamp e + d"
    and "su_tier_id su' = su_tier_id su" and "sb_tier s' = sb_tier s"
    and "su_current_period_end su \<le> env_timestamp e \<or> (su_status su' = Trial \<longleftrightarrow> su_status su = Trial)"
  shows "sb_unused_period_value e' su' s' = sb_unused_period_value e su s"
  using assms by (auto simp: sb_unused_period_value_def sb_load_tier_def checked_sub_u_def)

text \<open>
  C31. Pausing and resuming keeps what the member has. When a subscription of a reachable state is paused and later
  resumed, the period ends later by exactly the time of the pause, so the time that is left and the credit for it
  are what they were, the tier, the payments and the renewal setting are kept, and the analytics record is the
  one before the pause; the member comes back on trial exactly when the trial was not over.
\<close>

theorem sb_pause_resume_roundtrip:
  assumes "spender_token tr bal tf" and "finite T"
    and "reach (sb_exec tr tf bal alw) (sb_adm self T) (sb_drift bal self) (sb_fresh w) (env_timestamp e) s"
    and su: "sb_subscription s m = Some su"
    and pause: "sb_pause_subscription e m s = Inr (u, s1)" and resume: "sb_resume_subscription e' m s1 = Inr (su', s2)"
  shows "int (su_current_period_end su') - int (env_timestamp e') = int (su_current_period_end su) - int (env_timestamp e)
    \<and> sb_unused_period_value e' su' s2 = sb_unused_period_value e su s
    \<and> su_status su' = (if env_timestamp e < su_trial_end su then Trial else Active)
    \<and> su_tier_id su' = su_tier_id su \<and> su_total_paid su' = su_total_paid su \<and> su_auto_renew su' = su_auto_renew su
    \<and> sb_analytics s2 = sb_analytics s \<and> sb_subscription s2 = (sb_subscription s)(m \<mapsto> su')"
proof -
  have inv: "sb_inv bal self T w (env_timestamp e) s" by (rule sb_reach_inv_of [OF assms(1-3)])
  have st: "su_status su = Active \<or> su_status su = Trial"
    and s1: "s1 = sb_set_analytics ((sb_analytics s)\<lparr>sa_paused_subscriptions := sa_paused_subscriptions (sb_analytics s) + 1\<rparr>)
      (sb_put m (su\<lparr>su_status := Paused, su_paused_at := env_timestamp e, su_updated_at := env_timestamp e\<rparr>) s)"
    using pause su by (auto simp: sb_pause_subscription_def Let_def result_iffs)
  have ok: "su_status su = Trial \<longrightarrow> su_trial_end su = su_current_period_end su" "su_status su = Active \<longrightarrow> su_trial_end su \<le> env_timestamp e"
    using sb_inv_sub [OF inv su] by (auto simp: sb_sub_ok_def)
  from resume have le: "env_timestamp e \<le> env_timestamp e'" and su': "su_current_period_end su' = su_current_period_end su + (env_timestamp e' - env_timestamp e)"
      "su_status su' = (if env_timestamp e < su_trial_end su then Trial else Active)"
      "su_tier_id su' = su_tier_id su" "su_total_paid su' = su_total_paid su" "su_auto_renew su' = su_auto_renew su"
    and s2: "sb_analytics s2 = sb_analytics s" "sb_subscription s2 = (sb_subscription s)(m \<mapsto> su')" "sb_tier s2 = sb_tier s"
    by (auto elim!: sb_resume_Inr simp: s1)
  have "sb_unused_period_value e' su' s2 = sb_unused_period_value e su s"
    by (rule sb_unused_cong [OF su'(1)]) (use le su' s2 st ok in auto)
  with su' s2 le show ?thesis by simp
qed

definition sb_resumed_sub :: subscription where
  "sb_resumed_sub = sb_demo_sub\<lparr>su_current_period_end := 2300, su_paused_accumulated_seconds := 300, su_updated_at := 1500\<rparr>"

lemma sb_resumed_run: "sb_resume_subscription (sb_env 1500) (Addr 8) sb_paused_demo
    = Inr (sb_resumed_sub, sb_demo\<lparr>sb_subscription := [Addr 8 \<mapsto> sb_resumed_sub]\<rparr>)"
  by (simp add: sb_resume_subscription_def sb_demo_def sb_paused_demo_def sb_resumed_sub_def sb_demo_sub_def sb_demo_analytics_def sb_eval)

theorem sb_pause_resume_roundtrip_witness:
  "int (su_current_period_end sb_resumed_sub) - 1500 = int (su_current_period_end sb_demo_sub) - 1200"
proof -
  have "sb_sample_reach (env_timestamp (sb_env 1200)) sb_demo" using sb_demo_reach_later by (simp add: sb_env_def)
  moreover have "sb_subscription sb_demo (Addr 8) = Some sb_demo_sub" by (simp add: sb_demo_def)
  ultimately show ?thesis
    using sb_pause_resume_roundtrip [OF atk.spender_token_axioms finite.intros(2) [OF finite.intros(1)] _ _ sb_paused_run sb_resumed_run]
    by (simp add: sb_env_def)
qed

section \<open>Renewal\<close>

text \<open>
  C35. A failed pull payment ends the subscription. In a reachable state, when the period of a subscription of an
  active tier is over and the member does not renew, or has not approved or does not own the price, then
  \<open>renew_subscription\<close> does not panic: it marks the subscription expired, charges nothing and leaves the tokens
  alone. The expired counter has to have room.
\<close>

theorem sb_failed_payment_expires:
  assumes "spender_token tr bal tf" and "finite T"
    and "reach (sb_exec tr tf bal alw) (sb_adm self T) (sb_drift bal self) (sb_fresh w) (env_timestamp e) s"
    and su: "sb_subscription s m = Some su" "su_status su = Active \<or> su_status su = Trial" "su_current_period_end su \<le> env_timestamp e"
    and tier: "sb_tier s (su_tier_id su) = Some tier" "mt_active tier"
    and fail: "\<not> su_auto_renew su \<or> alw (sb_tokens s) (su_token su) m (env_self e) < mt_price_per_period tier
      \<or> bal (sb_tokens s) (su_token su) m < mt_price_per_period tier"
    and room: "sa_expired_subscriptions (sb_analytics s) < u64_max"
  shows "\<exists>s'. sb_renew_subscription tr tf bal alw e m s
      = Inr (\<lparr>rr_charged_amount = 0, rr_referral_reward = 0, rr_period_start = su_current_period_start su,
          rr_period_end = su_current_period_end su, rr_status = Expired\<rparr>, s')
    \<and> sb_status s' m = Some Expired \<and> sb_tokens s' = sb_tokens s"
proof -
  have inv: "sb_inv bal self T w (env_timestamp e) s" by (rule sb_reach_inv_of [OF assms(1-3)])
  have keys: "su_member su = m" "su_tier_id su \<noteq> 0" using sb_inv_sub [OF inv su(1)] sb_inv_tier [OF inv tier(1)] by (auto simp: sb_sub_ok_def sb_tier_ok_def)
  have st: "su_status su \<noteq> Paused" "sb_is_non_terminal (su_status su)" using su(2) by (auto simp: sb_is_non_terminal_def)
  show ?thesis
    using su(1,3) tier fail keys st room
    by (auto simp: sb_renew_subscription_def sb_load_subscription_def sb_load_active_tier_def sb_load_tier_def sb_expire_subscription_def
        sb_record_expired_def sb_renewed_def sb_status_def Let_def not_less checked_add_u64_def)
qed

theorem sb_failed_payment_expires_witness:
  "\<exists>s'. sb_renew_subscription at_world_transfer at_world_transfer_from at_world_balance at_world_allowance (sb_env 2500) (Addr 8) sb_demo
      = Inr (\<lparr>rr_charged_amount = 0, rr_referral_reward = 0, rr_period_start = 1000, rr_period_end = 2000, rr_status = Expired\<rparr>, s')
    \<and> sb_status s' (Addr 8) = Some Expired \<and> sb_tokens s' = sb_tokens sb_demo"
proof -
  have r: "sb_sample_reach (env_timestamp (sb_env 2500)) sb_demo" by (rule reach_tick [OF sb_demo_reach]) (simp add: sb_env_def)
  have "at_world_allowance (sb_tokens sb_demo) (su_token sb_demo_sub) (Addr 8) (env_self (sb_env 2500)) < mt_price_per_period (sb_demo_tier 2 0)"
    by (simp add: at_world_allowance_def at_allowance_def sb_demo_def sb_demo_sub_def sb_demo_tier_def)
  with sb_failed_payment_expires [OF atk.spender_token_axioms _ r, of "Addr 8" sb_demo_sub "sb_demo_tier 2 0"]
  show ?thesis by (simp add: sb_demo_def sb_demo_sub_def sb_demo_tier_def sb_env_def sb_analytics_def sb_demo_analytics_def u64_max_def)
qed

section \<open>Benefits\<close>

text \<open>A member has a benefit exactly when the membership is current and every bit of the flag is set in the tier.\<close>

theorem sb_has_benefit_iff:
  assumes "sb_subscription s m = Some su" and "sb_tier s (su_tier_id su) = Some tier" and "su_tier_id su \<noteq> 0"
  shows "sb_has_benefit e m flag s = Inr True \<longleftrightarrow>
    flag \<noteq> 0 \<and> su_status su \<in> {Active, Trial} \<and> env_timestamp e \<le> su_current_period_end su
    \<and> (\<forall>n. bit flag n \<longrightarrow> bit (mt_benefit_flags tier) n)"
proof -
  have "mt_benefit_flags tier AND flag = flag \<longleftrightarrow> (\<forall>n. bit flag n \<longrightarrow> bit (mt_benefit_flags tier) n)"
  proof (intro iffI allI impI)
    fix n
    assume "mt_benefit_flags tier AND flag = flag" and "bit flag n"
    then have "bit (mt_benefit_flags tier AND flag) n" by simp
    then show "bit (mt_benefit_flags tier) n" by (simp add: bit_and_iff)
  qed (auto intro: bit_eqI simp: bit_and_iff)
  with assms show ?thesis
    by (auto simp: sb_has_benefit_def sb_is_active_def sb_load_subscription_def sb_load_tier_def)
qed

section \<open>Where the accounts go wrong\<close>

text \<open>
  A paused trial is refunded. \<open>unused_period_value\<close> gives no credit on trial, but a trial that is paused has the status
  \<open>Paused\<close>: the member who pauses and cancels is paid for a trial that was free, out of what the others paid.
\<close>

theorem sb_paused_trial_refunded:
  "at_world_balance (sb_tokens sb_demo) (Addr 2) (Addr 7) = 1000
   \<and> at_world_balance (sb_tokens (run_calls sb_at (map (Pair (sb_env 1200)) [SbSubscribe (Addr 7) (Addr 2) 1 True None, SbPause (Addr 7), SbCancel (Addr 7)]) sb_demo))
       (Addr 2) (Addr 7) = 1010"
  by (simp add: sb_demo_def sb_demo_tier_def sb_demo_analytics_def sb_subscribe_def sb_pause_subscription_def sb_cancel_subscription_def
      sb_eval at_world_balance_def at_balance_def)

text \<open>A refund is computed from the current terms of the tier: after the admin shortens the period, the refund exceeds the payment.\<close>

theorem sb_refund_uses_current_terms:
  "su_total_paid sb_demo_sub = 100
   \<and> (\<exists>s'. sb_unused_period_value (sb_env 1200) sb_demo_sub s' = Inr 800
       \<and> sb_update_tier (sb_env 1200) (Addr 5) 2 ''T'' 100 100 0 3 500 True sb_demo = Inr ((sb_demo_tier 2 0)\<lparr>mt_period_seconds := 100, mt_updated_at := 1200\<rparr>, s'))"
  by (simp add: sb_demo_def sb_demo_tier_def sb_demo_sub_def sb_update_tier_def sb_eval)

text \<open>The referral reward stays paid: a member who cancels at once gets the whole price back.\<close>

theorem sb_cancel_keeps_reward:
  "sb_unused_period_value (sb_env 1000) sb_demo_sub sb_demo = Inr 100 \<and> su_total_paid sb_demo_sub = 100
   \<and> at_world_balance (sb_tokens sb_demo) (Addr 2) (Addr 0) = 95"
  by (simp add: sb_demo_def sb_demo_tier_def sb_demo_sub_def sb_eval at_world_balance_def at_balance_def)

text \<open>The member names the token: a tier has a price but no token, so a token of the member's own is accepted.\<close>

theorem sb_any_token_pays:
  "\<exists>su s'. sb_subscribe at_world_transfer (sb_env 1200) (Addr 7) (Addr 6) 2 True None
      (sb_demo\<lparr>sb_tokens := (sb_tokens sb_demo)(Addr 6 := \<lparr>at_balances = [Addr 7 \<mapsto> 100], at_allowances = (\<lambda>_. None)\<rparr>)\<rparr>) = Inr (su, s')
    \<and> sb_is_active (sb_env 1200) (Addr 7) s'"
  by (simp add: sb_demo_def sb_demo_tier_def sb_demo_analytics_def sb_subscribe_def sb_eval sb_is_active_def)

text \<open>A subscription of a deactivated tier cannot be renewed and does not expire either: every renewal panics.\<close>

theorem sb_inactive_tier_blocks_expiry:
  assumes "sb_subscription s m = Some su" and "sb_tier s (su_tier_id su) = Some tier" and "\<not> mt_active tier"
  shows "\<exists>err. sb_renew_subscription tr tf bal alw e m s = Inl err"
  using assms by (auto simp: sb_renew_subscription_def sb_load_subscription_def sb_load_active_tier_def sb_load_tier_def panic_if_def)

text \<open>A paused subscription that is cancelled stays in the paused counter.\<close>

theorem sb_paused_counter_stays:
  "sa_paused_subscriptions (sb_analytics (run_calls sb_at [(sb_env 1200, SbCancel (Addr 8))] (sb_paused_demo\<lparr>sb_tokens :=
       (sb_tokens sb_demo)(Addr 2 := \<lparr>at_balances = [Addr 0 \<mapsto> 500], at_allowances = (\<lambda>_. None)\<rparr>)\<rparr>))) = 1
   \<and> sb_status (run_calls sb_at [(sb_env 1200, SbCancel (Addr 8))] (sb_paused_demo\<lparr>sb_tokens :=
       (sb_tokens sb_demo)(Addr 2 := \<lparr>at_balances = [Addr 0 \<mapsto> 500], at_allowances = (\<lambda>_. None)\<rparr>)\<rparr>)) (Addr 8) = Some Cancelled"
  by (simp add: sb_demo_def sb_paused_demo_def sb_demo_tier_def sb_demo_sub_def sb_demo_analytics_def sb_cancel_subscription_def sb_status_def sb_eval)

end
