(* ===== verification/Spec2Isabelle.thy ===== *)
theory Spec2Isabelle
  imports Multisig_Wallet Token_Vesting Fee_Distribution Escrow Amm_Correct Staking_Rewards Vault_Shares Governance_Lifecycle Prediction_Markets Collateral_Loans Membership_Subs
begin

text \<open>
  A verification library for the StellAIverse Soroban contracts.

  The repository is a Rust workspace of smart contracts for the Soroban host of Stellar. Each
  contract is a set of entry points over its own key-value storage; it asks the host for the ledger
  time and sequence number and for the authorisation of addresses, and calls token contracts and, through their
  address, other contracts. An invocation that panics, returns an error or traps is rolled back.

  \<^bold>\<open>How programs are modelled.\<close> Soroban_Prelude has results (\<open>'e + 'r \<times> 's\<close>, where \<open>Inl\<close> is
  a panic, a returned error or a trap), early returns (\<open>and_then\<close>, \<open>panic_if\<close>, \<open>ok_or\<close>) and
  checked arithmetic: the workspace is compiled with overflow checks, so \<open>u32\<close> and \<open>u64\<close> values
  are naturals, \<open>i128\<close> values integers, and each operation that can leave its width is a checked
  one. Soroban_Host has the invocation environment, the token interface (\<open>token_contract\<close>, and
  \<open>live_token\<close> for tokens that honour funded payments), sums over stored maps, the transition
  system of a deployed contract (\<open>reach\<close>, with \<open>contract_machine\<close> as the obligations of an
  invariant), the refinement of a specification (\<open>call_refinement\<close>) and the reentrancy guard. A
  storage key is a field of the state record of its contract, an absent key is \<open>None\<close>; published
  events are not state and are left out. Every entry point is an executable definition with the
  source's checks in the source's order; every contract has a datatype of calls and an \<open>exec\<close>
  function that dispatches them.

  \<^bold>\<open>The parts.\<close>
  \<^item> Mock_Token: the token contract of the tests (src/contracts/escrow/src/test.rs). It
    interprets the token interface, and the witnesses run on it.
  \<^item> Rbac: the role checks of the shared library (src/lib/src/rbac.rs, admin.rs). The two role
    lists refine a table in which every account has at most one duty.
  \<^item> Access_Control: the role registry (src/contracts/access-control/src/lib.rs). Only the
    administrators of a role change its members; a registry without administrators is frozen.
  \<^item> Multisig_Wallet (src/contracts/multisig-wallet/src/lib.rs): execution needs a quorum of
    current signers, happens once and in nonce order, within the daily limit; a transaction without
    quorum blocks the queue.
  \<^item> Token_Vesting (src/contracts/token-vesting/src/lib.rs): solvency, claims within what has
    vested, success of a claim after the end, the linear curve, early withdrawal, revocation and
    batch creation; the overflow before the end and the effect of a late initialisation.
  \<^item> Fee_Distribution (src/contracts/fee-distribution/src/lib.rs): a distribution allocates
    exactly what is pending, solvency, success of distributions and claims, the fee bounds.
  \<^item> Escrow (src/contracts/escrow/src/lib.rs): solvency, guarded and rate-limited withdrawals,
    finality and success of withdrawals, the effect of removing a signer. It calls \<open>has_role\<close>
    of the linked Access_Control contract.
  \<^item> Amm_Math, Amm, Amm_Trades, Amm_Invariant, Amm_Correct: the market maker
    (src/contracts/amm/src/math.rs, types.rs, storage.rs, lib.rs). Amm_Math has the arithmetic with
    the termination of the Newton square root and the optimality of the swap output; Amm the
    whole contract; the other three what its operations do, its invariant, and its properties. Its
    admin checks are those of Rbac.
  \<^item> Staking, Staking_Correct, Staking_Rewards (src/contracts/staking/src/lib.rs): Staking has the
    whole contract, Staking_Correct what its operations do and the invariant of positions, tiers and
    balances. Staking_Rewards runs the contract with a meter of what the reward rate emits and bounds
    the rewards paid and owed by it; it has the settlement of an exit, the emergency exit, and the two
    ways in which the bound is broken (a repeated id in a batch claim, a changed multiplier).
  \<^item> Vault, Vault_Correct, Vault_Shares (src/contracts/vault/src/lib.rs): the whole contract; its
    operations and invariant; the conservation of shares, the backing of the recorded assets up to
    reported gains, the price of a share under trades, withdrawals without a fee, the round trip of a
    deposit, the exit, and the report that anybody can make.
  \<^item> Governance, Governance_Correct, Governance_Lifecycle (src/contracts/governance/src/contract.rs,
    types.rs, utils.rs, errors.rs, storage_keys.rs): the whole contract; exact tallies and delegated
    power; guarded execution, the treasury, the lifecycle of a proposal as a refined step relation,
    success of an execution, and what delegations and locks do to voting power.
  \<^item> Prediction_Math, Prediction, Prediction_Correct, Prediction_Books, Prediction_Markets
    (src/contracts/prediction-markets/src/math.rs, types.rs, storage.rs, lib.rs): the formulas of the
    outcome pools; the whole contract with pools, order book, disputes and redemption; what its
    operations do and its invariant; the transition system; and the properties: backed books, the
    product of the reserves under trades, no profit from a round trip, the lifecycle of a market as a
    refined step relation, who decides an outcome, redemption once and its success, the refund of a
    cancelled order, and runs that show where shares, sell orders and a late initialisation go wrong.
  \<^item> Collateral_Math, Collateral, Collateral_Correct, Collateral_Books, Collateral_Loans
    (src/contracts/collateral-management/src/math.rs, types.rs, storage.rs, lib.rs): the formulas; the
    whole contract with deposits, loans and liquidation, over an oracle contract that is a parameter;
    what its operations do and its invariant; the transition system; and the properties: deposits held
    or lent, exact ledgers, accounts that stay collateralised, what a liquidation does, the lifecycle of
    a loan as a refined step relation, success of a repayment, the round trip of a deposit, interest in
    steps, the rate, and runs that show where seizure, lending and the rate model go wrong.
  \<^item> Allowance_Token (src/contracts/membership-subscription/src/test.rs): the token interface with
    allowances and the token of the membership tests, which discharges its laws.
  \<^item> Membership, Membership_Correct, Membership_Subs (src/contracts/membership-subscription/src/lib.rs): the
    whole contract with tiers, trials, renewals by allowance and proration; its invariant and transition
    system; and the properties: exact counters, revenue held, the life of a subscription as a refined
    step relation, trials that are free, pausing and resuming, the expiry of a failed renewal, benefit
    flags, and runs that show where refunds, tokens and counters go wrong.
  \<^item> This theory: what the components promise together.

  \<^bold>\<open>What the properties quantify over.\<close> A property of reachable states covers every sequence of
  calls with any arguments at non-decreasing ledger times, with other parties moving tokens in
  between. The contract's own address authorises nothing (\<open>_adm\<close>), and nobody else takes
  tokens from it (\<open>_drift\<close>): both are guarantees of the host and of the token interface. One
  component restricts the calls: the runs of the prediction markets (\<open>pm_timely\<close>) start at the fresh
  deployment and leave out an \<open>initialize\<close> after the first market, which the source accepts and which
  resets the market counter, so that new markets overwrite old ones (\<open>pm_late_initialize_overwrites\<close>). Loops
  over stored vectors are structural recursions; the only loop of the modelled code that is not is
  the Newton iteration, whose termination is proved for all integers. No model uses fuel.

  \<^bold>\<open>Not modelled\<close> are the remaining contracts of the workspace (marketplace, oracle, bridge,
  cross-chain-bridge, portfolio-manager, insurance-protocol, compliance-integration, execution-hub,
  amm-protocol, lending-protocol, derivatives-swaps), the rest of the shared
  library (its types, audit log, proxy and transaction journal), the archived and backup copies and the
  tests. The bridges and the oracle rest on signature checks of the host; the others reuse the token
  interface, the machine and the guard as they are. Storage expiry, metering and the binary encoding of
  values belong to the host and are left out.
\<close>

section \<open>The escrow and its role registry\<close>

text \<open>
  C40. The admin gate of an escrow follows the linked registry. An account that is not the stored
  admin passes the gate, and can pause the contract, once the registry has granted it the Admin
  role, and is refused as unauthorised again once the role is revoked.
\<close>

theorem es_admin_follows_registry:
  assumes "es_config s = Some c" and "ec_access_control c = Some ac" and "es_access s ac = Some st"
    and "a \<noteq> ec_admin c" and "env_auth e a"
    and "grant_role e1 Admin a sender st = Inr (v, st1)" and "revoke_role e2 Admin a sender' st1 = Inr (v', st2)"
  shows "es_require_admin e c a (s\<lparr>es_access := (es_access s)(ac \<mapsto> st1)\<rparr>) = Inr () \<and>
    (\<exists>s'. es_pause e a (s\<lparr>es_access := (es_access s)(ac \<mapsto> st1)\<rparr>) = Inr ((), s')) \<and>
    es_require_admin e c a (s\<lparr>es_access := (es_access s)(ac \<mapsto> st2)\<rparr>) = Inl EsUnauthorized \<and>
    es_pause e a (s\<lparr>es_access := (es_access s)(ac \<mapsto> st2)\<rparr>) = Inl EsUnauthorized"
proof -
  have "has_role Admin a st1" "\<not> has_role Admin a st2"
    using acr.grant_holds [OF assms(6)] acr.revoke_holds [OF assms(7)] by simp_all
  then have "es_require_admin e c a (s\<lparr>es_access := (es_access s)(ac \<mapsto> st1)\<rparr>) = Inr ()"
      "es_require_admin e c a (s\<lparr>es_access := (es_access s)(ac \<mapsto> st2)\<rparr>) = Inl EsUnauthorized"
    using assms(2,4,5) by (simp_all add: es_require_admin_def es_is_admin_def require_auth_def)
  with assms(1) show ?thesis by (simp add: es_pause_def es_load_defs)
qed

theorem es_admin_follows_registry_witness:
  "\<exists>st1 st2. grant_role ac_env Admin (Addr 7) (Addr 1) ac_ready = Inr ((), st1) \<and>
     revoke_role ac_env Admin (Addr 7) (Addr 1) st1 = Inr ((), st2) \<and>
     (\<exists>s'. es_pause (es_env 40) (Addr 7) (es_demo\<lparr>es_access := (es_access es_demo)(Addr 60 \<mapsto> st1)\<rparr>) = Inr ((), s')) \<and>
     es_pause (es_env 40) (Addr 7) (es_demo\<lparr>es_access := (es_access es_demo)(Addr 60 \<mapsto> st2)\<rparr>) = Inl EsUnauthorized"
proof -
  obtain st1 where g: "grant_role ac_env Admin (Addr 7) (Addr 1) ac_ready = Inr ((), st1)"
    by (simp add: grant_role_def require_auth_def require_role_admin_def ac_env_def)
  have st1: "st1 = set_member Admin (Addr 7) True ac_ready"
    using g by (simp add: grant_role_def require_auth_def require_role_admin_def ac_env_def)
  obtain st2 where r: "revoke_role ac_env Admin (Addr 7) (Addr 1) st1 = Inr ((), st2)"
    by (simp add: st1 revoke_role_def require_auth_def require_role_admin_def ac_env_def)
  have conf: "es_config es_demo = Some es_demo_config" "ec_access_control es_demo_config = Some (Addr 60)"
      "es_access es_demo (Addr 60) = Some ac_ready" "Addr 7 \<noteq> ec_admin es_demo_config"
    by (simp_all add: es_demo_def es_demo_config_def es_registries_def)
  from es_admin_follows_registry [OF conf _ g r, of "es_env 40"] g r show ?thesis by auto
qed

end
